(* ===== verification/Prelude.thy ===== *)
theory Prelude
  imports Complex_Main
begin

text \<open>
  Shared vocabulary of the development.

  \<^item> \<open>py_error\<close> and \<open>'a res\<close>: a Python call that may raise returns \<open>Inl\<close> of the
    exception or \<open>Inr\<close> of its value; \<open>bindE\<close> sequences two such calls and
    \<open>guardE\<close> is the \<open>if ...: raise\<close> idiom.
  \<^item> Python idioms on lists and optional values that HOL's library does not have under
    the same meaning: suffix slices \<open>xs[-n:]\<close>, the order-preserving
    \<open>list(dict.fromkeys(xs))\<close>, \<open>max(..., default=None)\<close>, truthiness of
    optional numbers in \<open>a or b\<close>.
  \<^item> the locale \<open>step_system\<close>: one-step invariants and one-step relations lifted to
    whole runs; every stateful component interprets it.
\<close>

section \<open>Results and errors\<close>

datatype py_error =
    ValueError string
  | ValidationError string
  | ApprovalError string
  | DuplicateIntentError string
  | InvalidTransitionError string
  | IntegrityError string
  | AssertionError
  | RuntimeError string
  | ApprovalVerificationError string
  | DatasetQualityError string
  | KeyError string
  | TypeError string
  | PermissionError string

type_synonym 'a res = "py_error + 'a"

definition bindE :: "'a res \<Rightarrow> ('a \<Rightarrow> 'b res) \<Rightarrow> 'b res" where
  "bindE m f = (case m of Inl e \<Rightarrow> Inl e | Inr x \<Rightarrow> f x)"

definition guardE :: "bool \<Rightarrow> py_error \<Rightarrow> 'a res \<Rightarrow> 'a res" where
  "guardE bad e k = (if bad then Inl e else k)"

definition is_ok :: "'a res \<Rightarrow> bool" where
  "is_ok m = (case m of Inl _ \<Rightarrow> False | Inr _ \<Rightarrow> True)"

named_theorems res_simps \<open>unfolding the result monad\<close>

lemma bindE_simps [simp, res_simps]:
  "bindE (Inl e) f = Inl e" "bindE (Inr x) f = f x"
  by (simp_all add: bindE_def)

lemma bindE_eq_Inr_iff [res_simps]:
  "bindE m f = Inr y \<longleftrightarrow> (\<exists>x. m = Inr x \<and> f x = Inr y)"
  by (cases m) auto

lemma guardE_eq_Inr_iff [res_simps]: "guardE b e k = Inr y \<longleftrightarrow> \<not> b \<and> k = Inr y"
  by (simp add: guardE_def)

lemma guardE_True [simp]: "guardE True e k = Inl e"
  and guardE_False [simp]: "guardE False e k = k"
  by (simp_all add: guardE_def)

lemma is_ok_simps [simp]: "is_ok (Inr x) = True" "is_ok (Inl e) = False"
  by (simp_all add: is_ok_def)

lemma is_ok_iff: "is_ok m \<longleftrightarrow> (\<exists>x. m = Inr x)"
  by (cases m) auto

lemma is_ok_guardE [simp]: "is_ok (guardE b e k) \<longleftrightarrow> \<not> b \<and> is_ok k"
  by (simp add: guardE_def)

lemma is_ok_bindE: "is_ok (bindE m f) \<longleftrightarrow> (\<exists>x. m = Inr x \<and> is_ok (f x))"
  by (cases m) auto

text \<open>
  A call that changes a state and may raise: the state it leaves and its result. An exception
  ends the sequence but keeps what was already changed.
\<close>

definition bindS :: "'s \<times> 'a res \<Rightarrow> ('s \<Rightarrow> 'a \<Rightarrow> 's \<times> 'b res) \<Rightarrow> 's \<times> 'b res" where
  "bindS m f = (case m of (s, Inl e) \<Rightarrow> (s, Inl e) | (s, Inr x) \<Rightarrow> f s x)"

lemma bindS_simps [simp]: "bindS (s, Inl e) f = (s, Inl e)" "bindS (s, Inr x) f = f s x"
  by (simp_all add: bindS_def)

lemma bindS_cases:
  "bindS m f = r \<longleftrightarrow>
     (\<exists>s e. m = (s, Inl e) \<and> r = (s, Inl e)) \<or> (\<exists>s x. m = (s, Inr x) \<and> f s x = r)"
  by (cases m; cases "snd m") auto

text \<open>What every part of a sequence keeps, the sequence keeps.\<close>

lemma bindS_keeps:
  "P (fst m) \<Longrightarrow> (\<And>s x. P s \<Longrightarrow> m = (s, Inr x) \<Longrightarrow> P (fst (f s x))) \<Longrightarrow> P (fst (bindS m f))"
  by (cases m; cases "snd m") auto

text \<open>A database transaction: an exception inside it rolls the state back.\<close>

definition transact :: "('s \<Rightarrow> ('s \<times> 'a) res) \<Rightarrow> 's \<Rightarrow> 's \<times> 'a res" where
  "transact f s = (case f s of Inl e \<Rightarrow> (s, Inl e) | Inr (s', x) \<Rightarrow> (s', Inr x))"

lemma transact_eq_Inr_iff: "transact f s = (s', Inr x) \<longleftrightarrow> f s = Inr (s', x)"
  by (auto simp: transact_def split: sum.splits)

lemma transact_Inl: "transact f s = (s', Inl e) \<Longrightarrow> s' = s"
  by (auto simp: transact_def split: sum.splits)

text \<open>\<open>except ValueError\<close>: pydantic's and the program's own errors are subclasses of it.\<close>

fun is_value_error :: "py_error \<Rightarrow> bool" where
  "is_value_error (RuntimeError _) = False"
| "is_value_error (IntegrityError _) = False"
| "is_value_error AssertionError = False"
| "is_value_error (KeyError _) = False"
| "is_value_error (TypeError _) = False"
| "is_value_error (PermissionError _) = False"
| "is_value_error _ = True"

text \<open>\<open>type(exc).__name__\<close>\<close>

fun error_name :: "py_error \<Rightarrow> string" where
  "error_name (ValueError _) = ''ValueError''"
| "error_name (ValidationError _) = ''ValidationError''"
| "error_name (ApprovalError _) = ''ApprovalError''"
| "error_name (DuplicateIntentError _) = ''DuplicateIntentError''"
| "error_name (InvalidTransitionError _) = ''InvalidTransitionError''"
| "error_name (IntegrityError _) = ''IntegrityError''"
| "error_name AssertionError = ''AssertionError''"
| "error_name (RuntimeError _) = ''RuntimeError''"
| "error_name (ApprovalVerificationError _) = ''ApprovalVerificationError''"
| "error_name (DatasetQualityError _) = ''DatasetQualityError''"
| "error_name (KeyError _) = ''KeyError''"
| "error_name (TypeError _) = ''TypeError''"
| "error_name (PermissionError _) = ''PermissionError''"

section \<open>Python idioms\<close>

text \<open>
  \<open>xs[-n:]\<close>. For \<open>n = 0\<close> Python reads \<open>xs[-0:]\<close> as the whole list.
\<close>

definition py_suffix :: "nat \<Rightarrow> 'a list \<Rightarrow> 'a list" where
  "py_suffix n xs = (if n = 0 then xs else drop (length xs - n) xs)"

lemma length_py_suffix: "0 < n \<Longrightarrow> length (py_suffix n xs) = min n (length xs)"
  by (auto simp: py_suffix_def)

lemma set_py_suffix: "set (py_suffix n xs) \<subseteq> set xs"
  by (auto simp: py_suffix_def dest: in_set_dropD)

lemma py_suffix_snoc_ne [simp]: "0 < n \<Longrightarrow> py_suffix n (xs @ [x]) \<noteq> []"
  by (simp add: py_suffix_def)

lemma last_py_suffix_snoc: "0 < n \<Longrightarrow> last (py_suffix n (xs @ [x])) = x"
  by (simp add: py_suffix_def last_drop)

lemma py_suffix_append_ex: "\<exists>ys. xs = ys @ py_suffix n xs"
  by (metis append_take_drop_id append_Nil py_suffix_def)

text \<open>\<open>",".join(xs)\<close>\<close>

fun comma_join :: "string list \<Rightarrow> string" where
  "comma_join [] = ''''"
| "comma_join [x] = x"
| "comma_join (x # y # xs) = x @ '','' @ comma_join (y # xs)"

text \<open>\<open>list(dict.fromkeys(xs))\<close>: duplicates dropped, the first occurrence kept.\<close>

fun py_fromkeys :: "'a list \<Rightarrow> 'a list" where
  "py_fromkeys [] = []"
| "py_fromkeys (x # xs) = x # filter (\<lambda>y. y \<noteq> x) (py_fromkeys xs)"

lemma set_py_fromkeys [simp]: "set (py_fromkeys xs) = set xs"
  by (induction xs) auto

lemma distinct_py_fromkeys [simp]: "distinct (py_fromkeys xs)"
  by (induction xs) auto

lemma py_fromkeys_eq_Nil [simp]: "py_fromkeys xs = [] \<longleftrightarrow> xs = []"
  by (cases xs) auto

text \<open>\<open>a or b\<close> for an optional number: \<open>None\<close> and zero are both falsy.\<close>

definition py_or :: "('a :: zero) option \<Rightarrow> 'a option \<Rightarrow> 'a option" where
  "py_or a b = (case a of None \<Rightarrow> b | Some x \<Rightarrow> if x = 0 then b else Some x)"

definition py_or_else :: "('a :: zero) option \<Rightarrow> 'a \<Rightarrow> 'a" where
  "py_or_else a d = (case a of None \<Rightarrow> d | Some x \<Rightarrow> if x = 0 then d else x)"

lemma py_or_else_simps [simp]:
  "py_or_else None d = d" "x \<noteq> 0 \<Longrightarrow> py_or_else (Some x) d = x"
  by (simp_all add: py_or_else_def)

text \<open>\<open>max(xs, default=None)\<close> and \<open>min(xs, default=None)\<close>.\<close>

fun py_max :: "('a :: linorder) list \<Rightarrow> 'a option" where
  "py_max [] = None"
| "py_max (x # xs) = Some (foldl max x xs)"

fun py_min :: "('a :: linorder) list \<Rightarrow> 'a option" where
  "py_min [] = None"
| "py_min (x # xs) = Some (foldl min x xs)"

lemma foldl_max_ge: "x \<le> foldl max x xs" "y \<in> set xs \<Longrightarrow> y \<le> foldl max x xs"
  for x :: "'a :: linorder"
proof (induction xs arbitrary: x)
  case (Cons z zs)
  { case 1 from Cons.IH(1) [of "max x z"] show ?case by simp }
  { case 2 then show ?case using Cons.IH(1) [of "max x z"] Cons.IH(2) [of "max x z"] by auto }
qed simp_all

lemma foldl_min_le: "foldl min x xs \<le> x" "y \<in> set xs \<Longrightarrow> foldl min x xs \<le> y"
  for x :: "'a :: linorder"
proof (induction xs arbitrary: x)
  case (Cons z zs)
  { case 1 from Cons.IH(1) [of "min x z"] show ?case by simp }
  { case 2 then show ?case using Cons.IH(1) [of "min x z"] Cons.IH(2) [of "min x z"] by auto }
qed simp_all

lemma foldl_max_in: "foldl max x xs \<in> insert x (set xs)" for x :: "'a :: linorder"
proof (induction xs arbitrary: x)
  case (Cons z zs)
  from Cons.IH [of "max x z"] show ?case by (auto simp: max_def split: if_splits)
qed simp

lemma foldl_min_in: "foldl min x xs \<in> insert x (set xs)" for x :: "'a :: linorder"
proof (induction xs arbitrary: x)
  case (Cons z zs)
  from Cons.IH [of "min x z"] show ?case by (auto simp: min_def split: if_splits)
qed simp

lemma py_max_all: "\<forall>x \<in> set xs. P x \<Longrightarrow> py_max xs = Some m \<Longrightarrow> P m" for m :: "'a :: linorder"
proof (cases xs)
  case (Cons y ys)
  assume "\<forall>x \<in> set xs. P x" "py_max xs = Some m"
  with Cons foldl_max_in [of y ys] show ?thesis by auto
qed simp

lemma py_min_all: "\<forall>x \<in> set xs. P x \<Longrightarrow> py_min xs = Some m \<Longrightarrow> P m" for m :: "'a :: linorder"
proof (cases xs)
  case (Cons y ys)
  assume "\<forall>x \<in> set xs. P x" "py_min xs = Some m"
  with Cons foldl_min_in [of y ys] show ?thesis by auto
qed simp

lemma find_Some_in: "find P xs = Some x \<Longrightarrow> x \<in> set xs \<and> P x"
  by (auto simp: find_Some_iff in_set_conv_nth)

text \<open>Elements of an optional value, for statements such as \<open>every active quote\<close>.\<close>

definition opt_list :: "'a option \<Rightarrow> 'a list" where
  "opt_list x = (case x of None \<Rightarrow> [] | Some y \<Rightarrow> [y])"

lemma opt_list_simps [simp]: "opt_list None = []" "opt_list (Some x) = [x]"
  by (simp_all add: opt_list_def)

lemma in_set_opt_list [simp]: "x \<in> set (opt_list a) \<longleftrightarrow> a = Some x"
  by (cases a) auto

section \<open>Decimal notation of integers\<close>

text \<open>\<open>str(n)\<close>, which the f-strings that build order identities use.\<close>

definition digit_char :: "int \<Rightarrow> char" where
  "digit_char d = ''0123456789'' ! nat d"

function py_digits :: "int \<Rightarrow> string" where
  "py_digits n =
     (if n < 10 then [digit_char n] else py_digits (n div 10) @ [digit_char (n mod 10)])"
  by pat_completeness auto
termination
  by (relation "measure nat") auto

declare py_digits.simps [simp del]

definition py_str :: "int \<Rightarrow> string" where
  "py_str n = (if n < 0 then CHR ''-'' # py_digits (- n) else py_digits n)"

lemma digit_char_inj:
  assumes "0 \<le> a" "a < 10" "0 \<le> b" "b < 10" "digit_char a = digit_char b"
  shows "a = b"
proof -
  have "distinct ''0123456789''" "nat a < length ''0123456789''" "nat b < length ''0123456789''"
    using assms by auto
  with assms show ?thesis unfolding digit_char_def by (metis nth_eq_iff_index_eq eq_nat_nat_iff)
qed

lemma digit_char_ne_dash: "0 \<le> d \<Longrightarrow> d < 10 \<Longrightarrow> digit_char d \<noteq> CHR ''-''"
proof -
  assume "0 \<le> d" "d < 10"
  then have "digit_char d \<in> set ''0123456789''"
    unfolding digit_char_def by (intro nth_mem) auto
  then show ?thesis by auto
qed

lemma py_digits_ne [simp]: "py_digits n \<noteq> []"
  by (subst py_digits.simps) auto

lemma py_digits_no_dash: "0 \<le> n \<Longrightarrow> CHR ''-'' \<notin> set (py_digits n)"
proof (induction n rule: py_digits.induct)
  case (1 n)
  have "n mod 10 < 10" "0 \<le> n mod 10" by auto
  then show ?case
    using 1 digit_char_ne_dash [of n] digit_char_ne_dash [of "n mod 10"]
    by (auto simp: py_digits.simps [of n])
qed

lemma py_digits_inj: "0 \<le> m \<Longrightarrow> 0 \<le> n \<Longrightarrow> py_digits m = py_digits n \<Longrightarrow> m = n"
proof (induction m arbitrary: n rule: py_digits.induct)
  case (1 m)
  show ?case
  proof (cases "m < 10")
    case True
    then show ?thesis using 1 digit_char_inj [of m n]
      by (cases "n < 10") (auto simp: py_digits.simps [of m] py_digits.simps [of n] dest: sym)
  next
    case False
    with 1 have n: "\<not> n < 10"
      by (auto simp: py_digits.simps [of m] py_digits.simps [of n])
    with False 1(4) have "py_digits (m div 10) = py_digits (n div 10)"
      "digit_char (m mod 10) = digit_char (n mod 10)"
      by (auto simp: py_digits.simps [of m] py_digits.simps [of n])
    then have "m div 10 = n div 10" "m mod 10 = n mod 10"
      using 1 False n digit_char_inj [of "m mod 10" "n mod 10"] by auto
    then show ?thesis by (metis div_mult_mod_eq)
  qed
qed

lemma length_py_digits_le: "n < 10 ^ k \<Longrightarrow> 0 < k \<Longrightarrow> length (py_digits n) \<le> k"
proof (induction n arbitrary: k rule: py_digits.induct)
  case (1 n)
  show ?case
  proof (cases "n < 10")
    case False
    obtain j where j: "k = Suc j" using 1 by (cases k) auto
    have "0 < j" using False 1 j by (cases j) auto
    moreover have "n div 10 < 10 ^ j" using 1(2) j by simp
    ultimately show ?thesis using 1(1) [of j] False j by (simp add: py_digits.simps [of n])
  qed (use 1 in \<open>simp add: py_digits.simps [of n]\<close>)
qed

lemma py_str_inj: "0 \<le> m \<Longrightarrow> 0 \<le> n \<Longrightarrow> py_str m = py_str n \<Longrightarrow> m = n"
  by (simp add: py_str_def py_digits_inj)

lemma py_str_ne [simp]: "py_str n \<noteq> []"
  by (simp add: py_str_def)

lemma length_py_str_le: "0 \<le> n \<Longrightarrow> n < 10 ^ k \<Longrightarrow> 0 < k \<Longrightarrow> length (py_str n) \<le> k"
  by (simp add: py_str_def length_py_digits_le)

lemma split_at_first_unique:
  "as @ x # bs = cs @ x # ds \<Longrightarrow> x \<notin> set as \<Longrightarrow> x \<notin> set cs \<Longrightarrow> as = cs \<and> bs = ds"
proof (induction as arbitrary: cs)
  case Nil
  then show ?case by (cases cs) auto
next
  case (Cons a as)
  then show ?case by (cases cs) auto
qed

text \<open>Two texts that end in a dash and a number agree only when the numbers do.\<close>

lemma dash_suffix_inj:
  assumes "0 \<le> m" "0 \<le> n" "xs @ CHR ''-'' # py_str m = ys @ CHR ''-'' # py_str n"
  shows "m = n \<and> xs = ys"
proof -
  have "rev (py_str m) @ CHR ''-'' # rev xs = rev (py_str n) @ CHR ''-'' # rev ys"
    using assms(3) by (metis append_assoc append_Cons append_Nil rev.simps(2) rev_append)
  moreover have "CHR ''-'' \<notin> set (rev (py_str m))" "CHR ''-'' \<notin> set (rev (py_str n))"
    using assms py_digits_no_dash by (auto simp: py_str_def)
  ultimately have "rev (py_str m) = rev (py_str n) \<and> rev xs = rev ys"
    by (rule split_at_first_unique)
  then show ?thesis using assms py_str_inj by auto
qed

section \<open>Runs of a stateful component\<close>

text \<open>
  A component is a total step function on its state: an operation that raises leaves the
  state it leaves in the program. What one step keeps, and what one step relates, every
  run keeps and relates.
\<close>

locale step_system =
  fixes step :: "'s \<Rightarrow> 'op \<Rightarrow> 's"
    and inv :: "'s \<Rightarrow> bool"
    and rel :: "'s \<Rightarrow> 's \<Rightarrow> bool"
  assumes step_inv: "inv s \<Longrightarrow> inv (step s a)"
    and step_rel: "inv s \<Longrightarrow> rel s (step s a)"
    and rel_refl: "rel s s"
    and rel_trans: "rel s t \<Longrightarrow> rel t u \<Longrightarrow> rel s u"
begin

lemma run_inv: "inv s \<Longrightarrow> inv (foldl step s ops)"
  by (induction ops arbitrary: s) (auto intro: step_inv)

lemma run_rel: "inv s \<Longrightarrow> rel s (foldl step s ops)"
proof (induction ops arbitrary: s)
  case (Cons a ops)
  have "rel s (step s a)" by (rule step_rel) (rule Cons.prems)
  moreover have "rel (step s a) (foldl step (step s a) ops)"
    by (rule Cons.IH) (rule step_inv, rule Cons.prems)
  ultimately show ?case by (auto intro: rel_trans)
qed (simp add: rel_refl)

lemma run_append: "foldl step s (xs @ ys) = foldl step (foldl step s xs) ys"
  by simp

lemma run_rel_suffix: "inv s \<Longrightarrow> rel (foldl step s xs) (foldl step s (xs @ ys))"
  unfolding run_append by (intro run_rel run_inv)

end

end
