(* ===== verification/Decimal_Arith.thy ===== *)
theory Decimal_Arith
  imports Prelude
begin

text \<open>
  Python's \<open>decimal.Decimal\<close> in the default context, as the program uses it: precision
  28, rounding half to even. A decimal is modelled by its value, a rational number; an
  arithmetic operation is the exact operation followed by \<open>rnd28\<close>, the rounding to 28
  significant digits that the context applies to every result (sum, difference, product,
  quotient, unary minus and \<open>abs\<close>). Comparisons, \<open>max\<close> and \<open>min\<close> are exact, and so is
  \<open>to_integral_value\<close>. Not modelled: the exponent limits of the context (a result beyond
  1e999999 traps) and the number of trailing zeros of a value, which only affects how it
  prints.

  The locale \<open>rounding_context\<close> states what the rest of the development uses of a
  rounding, and derives sign, monotonicity and fixpoint facts from it; \<open>rnd28\<close> is its
  interpretation, and the laws of \<open>dadd\<close>, \<open>dsub\<close>, \<open>dmul\<close> and \<open>ddiv\<close> rest on it.
\<close>

section \<open>Rounding to 28 significant digits\<close>

text \<open>Number of decimal digits of a positive integer.\<close>

function ndigits :: "int \<Rightarrow> int" where
  "ndigits n = (if n < 10 then 1 else 1 + ndigits (n div 10))"
  by pat_completeness auto
termination
  by (relation "measure nat") auto

declare ndigits.simps [simp del]

text \<open>The exponent of the leading digit: \<open>10 powi e \<le> \<bar>x\<bar> < 10 powi (e + 1)\<close>.\<close>

definition adjusted_exponent :: "rat \<Rightarrow> int" where
  "adjusted_exponent x =
     (let (p, q) = quotient_of \<bar>x\<bar>; e = ndigits p - ndigits q
      in if 10 powi e \<le> \<bar>x\<bar> then e else e - 1)"

definition round_half_even :: "rat \<Rightarrow> int" where
  "round_half_even x =
     (let f = \<lfloor>x\<rfloor>; d = x - of_int f
      in if d < 1 / 2 then f
         else if 1 / 2 < d then f + 1
         else if even f then f else f + 1)"

definition rnd28 :: "rat \<Rightarrow> rat" where
  "rnd28 x =
     (if x = 0 then 0
      else let e = adjusted_exponent x - 27
           in of_int (round_half_even (x / 10 powi e)) * 10 powi e)"

lemma ndigits_ge_1: "1 \<le> ndigits n"
proof (induction n rule: ndigits.induct)
  case (1 n)
  then show ?case by (cases "n < 10") (auto simp: ndigits.simps [of n])
qed

lemma ndigits_bounds:
  "0 < n \<Longrightarrow> 10 powi (ndigits n - 1) \<le> (of_int n :: rat) \<and> of_int n < (10 :: rat) powi ndigits n"
proof (induction n rule: ndigits.induct)
  case (1 n)
  show ?case
  proof (cases "n < 10")
    case True
    with 1 show ?thesis by (simp add: ndigits.simps [of n])
  next
    case False
    let ?d = "ndigits (n div 10)"
    have nd: "ndigits n = 1 + ?d" using False by (simp add: ndigits.simps [of n])
    have IH: "10 powi (?d - 1) \<le> (of_int (n div 10) :: rat)"
      "of_int (n div 10) < (10 :: rat) powi ?d" using 1 False by auto
    have "1 \<le> ?d" by (rule ndigits_ge_1)
    then obtain k where k: "?d = 1 + int k" by (metis zle_iff_zadd)
    have "(of_int (10 ^ k) :: rat) \<le> of_int (n div 10)" "(of_int (n div 10) :: rat) < of_int (10 ^ Suc k)"
      using IH unfolding k by (simp_all add: power_int_add)
    then have a: "10 ^ k \<le> n div 10" and b: "n div 10 < 10 ^ Suc k"
      by (simp_all only: of_int_le_iff of_int_less_iff)
    from a have "10 * 10 ^ k \<le> n" by linarith
    moreover from b have "n < 10 * 10 ^ Suc k" by simp
    ultimately have "10 ^ Suc k \<le> n" "n < 10 ^ Suc (Suc k)" by simp_all
    then have "(of_int (10 ^ Suc k) :: rat) \<le> of_int n" "of_int n < (of_int (10 ^ Suc (Suc k)) :: rat)"
      by (simp_all only: of_int_le_iff of_int_less_iff)
    then show ?thesis unfolding nd k by (simp add: power_int_add)
  qed
qed


lemma powi_less_iff: "(10 :: rat) powi a < 10 powi b \<longleftrightarrow> a < b"
  by (meson linorder_not_less one_less_numeral_iff order_less_imp_le power_int_increasing
      power_int_strict_increasing semiring_norm(76))

lemma powi_le_iff: "(10 :: rat) powi a \<le> 10 powi b \<longleftrightarrow> a \<le> b"
  using powi_less_iff by (meson linorder_not_less)

lemma adjusted_exponent_bounds:
  assumes "x \<noteq> 0"
  shows "10 powi adjusted_exponent x \<le> \<bar>x\<bar>" "\<bar>x\<bar> < 10 powi (adjusted_exponent x + 1)"
proof -
  obtain p q where pq: "quotient_of \<bar>x\<bar> = (p, q)" by force
  have q: "0 < q" and x: "\<bar>x\<bar> = of_int p / of_int q"
    using quotient_of_denom_pos [OF pq] quotient_of_div [OF pq] by auto
  have p: "0 < p"
    using assms q x by (metis zero_less_abs_iff zero_less_divide_iff of_int_0_less_iff
        of_int_pos order_less_asym)
  let ?e = "ndigits p - ndigits q"
  note bp = ndigits_bounds [OF p] and bq = ndigits_bounds [OF q]
  have lo: "10 powi (?e - 1) \<le> \<bar>x\<bar>"
  proof -
    have "10 powi (?e - 1) = (10 :: rat) powi (ndigits p - 1) / 10 powi ndigits q"
      by (simp flip: power_int_diff add: algebra_simps)
    also have "\<dots> \<le> of_int p / of_int q"
      using bp bq q p by (intro frac_le) auto
    finally show ?thesis by (simp add: x)
  qed
  have hi: "\<bar>x\<bar> < 10 powi (?e + 1)"
  proof -
    have "of_int p / of_int q < (10 :: rat) powi ndigits p / 10 powi (ndigits q - 1)"
      using bp bq p q by (intro frac_less) auto
    also have "\<dots> = 10 powi (?e + 1)"
      by (simp flip: power_int_diff add: algebra_simps)
    finally show ?thesis by (simp add: x)
  qed
  show "10 powi adjusted_exponent x \<le> \<bar>x\<bar>" "\<bar>x\<bar> < 10 powi (adjusted_exponent x + 1)"
    using lo hi by (auto simp: adjusted_exponent_def pq Let_def)
qed

lemma adjusted_exponent_mono:
  assumes "x \<noteq> 0" "\<bar>x\<bar> \<le> \<bar>y\<bar>"
  shows "adjusted_exponent x \<le> adjusted_exponent y"
proof -
  have "y \<noteq> 0" using assms by auto
  have "(10 :: rat) powi adjusted_exponent x < 10 powi (adjusted_exponent y + 1)"
    using adjusted_exponent_bounds [OF \<open>x \<noteq> 0\<close>] adjusted_exponent_bounds [OF \<open>y \<noteq> 0\<close>] assms
    by linarith
  then show ?thesis by (simp add: powi_less_iff)
qed

lemma adjusted_exponent_uminus [simp]: "adjusted_exponent (- x) = adjusted_exponent x"
  by (simp add: adjusted_exponent_def)

lemma round_half_even_of_int [simp]: "round_half_even (of_int n) = n"
  by (simp add: round_half_even_def)

lemma round_half_even_numeral [simp]: "round_half_even (numeral k) = numeral k"
  using round_half_even_of_int [of "numeral k"] by simp

lemma round_half_even_cases:
  "round_half_even x = \<lfloor>x\<rfloor> \<and> x - of_int \<lfloor>x\<rfloor> \<le> 1 / 2 \<or>
   round_half_even x = \<lfloor>x\<rfloor> + 1 \<and> 1 / 2 \<le> x - of_int \<lfloor>x\<rfloor>"
  by (auto simp: round_half_even_def Let_def)

lemma round_half_even_mono:
  assumes "x \<le> y" shows "round_half_even x \<le> round_half_even y"
proof (cases "\<lfloor>x\<rfloor> = \<lfloor>y\<rfloor>")
  case True
  with assms show ?thesis by (auto simp: round_half_even_def Let_def)
next
  case False
  then have "\<lfloor>x\<rfloor> + 1 \<le> \<lfloor>y\<rfloor>" using floor_mono [OF assms] by linarith
  moreover have "round_half_even x \<le> \<lfloor>x\<rfloor> + 1" "\<lfloor>y\<rfloor> \<le> round_half_even y"
    using round_half_even_cases [of x] round_half_even_cases [of y] by auto
  ultimately show ?thesis by linarith
qed

lemma round_half_even_uminus: "round_half_even (- x) = - round_half_even x"
proof (cases "x \<in> \<int>")
  case True
  then obtain n where "x = of_int n" by (auto elim: Ints_cases)
  then show ?thesis using round_half_even_of_int [of "- n"] by simp
next
  case False
  have f: "\<lfloor>- x\<rfloor> = - \<lfloor>x\<rfloor> - 1"
  proof -
    have "of_int \<lfloor>x\<rfloor> < x" using False floor_correct [of x]
      by (metis Ints_of_int order_le_less)
    then show ?thesis using floor_correct [of x] by (intro floor_unique) auto
  qed
  show ?thesis unfolding round_half_even_def f by (auto simp: Let_def)
qed

lemma scaled_bounds:
  assumes "x \<noteq> 0"
  shows "10 ^ 27 \<le> \<bar>x\<bar> / 10 powi (adjusted_exponent x - 27)"
    "\<bar>x\<bar> / 10 powi (adjusted_exponent x - 27) < 10 ^ 28"
proof -
  let ?a = "adjusted_exponent x"
  have e: "(10 :: rat) powi ?a = 10 ^ 27 * 10 powi (?a - 27)"
    "(10 :: rat) powi (?a + 1) = 10 ^ 28 * 10 powi (?a - 27)"
    by (simp_all add: power_int_diff power_int_add)
  show "10 ^ 27 \<le> \<bar>x\<bar> / 10 powi (?a - 27)" "\<bar>x\<bar> / 10 powi (?a - 27) < 10 ^ 28"
    using adjusted_exponent_bounds [OF assms] unfolding e
    by (simp_all add: pos_le_divide_eq pos_divide_less_eq)
qed

lemma rnd28_0 [simp]: "rnd28 0 = 0"
  by (simp add: rnd28_def)

lemma rnd28_uminus: "rnd28 (- x) = - rnd28 x"
  by (simp add: rnd28_def Let_def round_half_even_uminus)

lemma rnd28_bounds_pos:
  assumes "0 < x"
  shows "10 powi adjusted_exponent x \<le> rnd28 x" "rnd28 x \<le> 10 powi (adjusted_exponent x + 1)"
proof -
  let ?e = "adjusted_exponent x - 27" and ?m = "x / 10 powi (adjusted_exponent x - 27)"
  have r: "rnd28 x = of_int (round_half_even ?m) * 10 powi ?e"
    using assms by (simp add: rnd28_def Let_def)
  have lo: "of_int (10 ^ 27) \<le> ?m" and hi: "?m \<le> of_int (10 ^ 28)"
    using scaled_bounds [of x] assms by auto
  have "10 ^ 27 \<le> round_half_even ?m" "round_half_even ?m \<le> 10 ^ 28"
    using round_half_even_mono [OF lo] round_half_even_mono [OF hi] by simp_all
  then have "(of_int (10 ^ 27) :: rat) \<le> of_int (round_half_even ?m)"
    "of_int (round_half_even ?m) \<le> (of_int (10 ^ 28) :: rat)"
    by (simp_all only: of_int_le_iff)
  then have m: "(10 :: rat) ^ 27 \<le> of_int (round_half_even ?m)"
    "of_int (round_half_even ?m) \<le> (10 :: rat) ^ 28" by simp_all
  have "(10 :: rat) powi adjusted_exponent x = 10 ^ 27 * 10 powi ?e"
    "(10 :: rat) powi (adjusted_exponent x + 1) = 10 ^ 28 * 10 powi ?e"
    by (simp_all add: power_int_diff power_int_add)
  with m show "10 powi adjusted_exponent x \<le> rnd28 x" "rnd28 x \<le> 10 powi (adjusted_exponent x + 1)"
    unfolding r by (auto intro!: mult_right_mono simp del: mult_le_cancel_right mult_le_cancel_right_pos)
qed

lemma rnd28_pos: "0 < x \<Longrightarrow> 0 < rnd28 x"
  using rnd28_bounds_pos(1) [of x] by (rule less_le_trans [rotated]) simp_all

lemma rnd28_mono_pos:
  assumes "0 < x" "x \<le> y"
  shows "rnd28 x \<le> rnd28 y"
proof (cases "adjusted_exponent x = adjusted_exponent y")
  case True
  have "x / 10 powi (adjusted_exponent y - 27) \<le> y / 10 powi (adjusted_exponent y - 27)"
    using assms by (simp add: divide_right_mono)
  then have "round_half_even (x / 10 powi (adjusted_exponent y - 27))
      \<le> round_half_even (y / 10 powi (adjusted_exponent y - 27))"
    by (rule round_half_even_mono)
  with True assms show ?thesis by (simp add: rnd28_def Let_def)
next
  case False
  then have "adjusted_exponent x + 1 \<le> adjusted_exponent y"
    using adjusted_exponent_mono [of x y] assms by auto
  then have "(10 :: rat) powi (adjusted_exponent x + 1) \<le> 10 powi adjusted_exponent y"
    by (simp only: powi_le_iff)
  with rnd28_bounds_pos [of x] rnd28_bounds_pos [of y] assms show ?thesis by linarith
qed

lemma rnd28_mono:
  assumes "x \<le> y" shows "rnd28 x \<le> rnd28 y"
proof -
  consider "0 < x" | "x = 0" | "x < 0" "0 \<le> y" | "x < 0" "y < 0" by linarith
  then show ?thesis
  proof cases
    case 1
    then show ?thesis using assms by (rule rnd28_mono_pos)
  next
    case 2
    then show ?thesis using rnd28_pos [of y] assms by (cases "y = 0") auto
  next
    case 3
    then show ?thesis
      using rnd28_pos [of "- x"] rnd28_pos [of y] by (cases "y = 0") (auto simp: rnd28_uminus)
  next
    case 4
    then show ?thesis using rnd28_mono_pos [of "- y" "- x"] assms by (simp add: rnd28_uminus)
  qed
qed

lemma rnd28_exact_strict:
  assumes "\<bar>m\<bar> < 10 ^ 28"
  shows "rnd28 (of_int m * 10 powi e) = of_int m * 10 powi e"
proof (cases "m = 0")
  case False
  define x :: rat where "x = of_int m * 10 powi e"
  have "x \<noteq> 0" using False by (simp add: x_def)
  have "(of_int \<bar>m\<bar> :: rat) < of_int (10 ^ 28)" using assms by (simp only: of_int_less_iff)
  then have "\<bar>x\<bar> < 10 ^ 28 * 10 powi e" by (simp add: x_def abs_mult)
  also have "\<dots> = 10 powi (28 + e)" by (simp add: power_int_add)
  finally have "(10 :: rat) powi adjusted_exponent x < 10 powi (28 + e)"
    using adjusted_exponent_bounds(1) [OF \<open>x \<noteq> 0\<close>] by linarith
  then obtain k where k: "e = adjusted_exponent x - 27 + int k"
    using zle_iff_zadd [of "adjusted_exponent x - 27" e] by (auto simp: powi_less_iff)
  let ?g = "adjusted_exponent x - 27"
  have e: "(10 :: rat) powi e = 10 powi ?g * 10 ^ k"
    by (subst k) (simp add: power_int_add)
  have xe: "x = of_int (m * 10 ^ k) * 10 powi ?g"
    by (subst x_def) (simp add: e)
  then have m: "x / 10 powi ?g = of_int (m * 10 ^ k)"
    by (metis nonzero_mult_div_cancel_right power_int_not_zero zero_neq_numeral)
  have "rnd28 x = of_int (round_half_even (x / 10 powi ?g)) * 10 powi ?g"
    using \<open>x \<noteq> 0\<close> by (simp add: rnd28_def Let_def)
  also have "\<dots> = of_int (m * 10 ^ k) * 10 powi ?g"
    unfolding m by (simp del: of_int_mult)
  also have "\<dots> = x" by (rule xe [symmetric])
  finally show ?thesis by (simp only: x_def)
qed simp

lemma rnd28_exact:
  assumes "\<bar>m\<bar> \<le> 10 ^ 28"
  shows "rnd28 (of_int m * 10 powi e) = of_int m * 10 powi e"
proof (cases "\<bar>m\<bar> = 10 ^ 28")
  case True
  have "rnd28 (of_int 1 * 10 powi (28 + e)) = of_int 1 * 10 powi (28 + e)"
    by (rule rnd28_exact_strict) simp
  then have "rnd28 (10 ^ 28 * 10 powi e) = 10 ^ 28 * 10 powi e"
    by (simp add: power_int_add)
  moreover have "m = 10 ^ 28 \<or> m = - (10 ^ 28)" using True by linarith
  ultimately show ?thesis using rnd28_uminus [of "10 ^ 28 * 10 powi e"] by auto
next
  case False
  with assms show ?thesis by (intro rnd28_exact_strict) simp
qed

lemma rnd28_is_scaled_int:
  "\<exists>m e. rnd28 x = of_int m * 10 powi e \<and> \<bar>m\<bar> \<le> 10 ^ 28"
proof (cases "x = 0")
  case True
  then show ?thesis by (intro exI [of _ 0]) simp
next
  case False
  let ?e = "adjusted_exponent x - 27" and ?m = "x / 10 powi (adjusted_exponent x - 27)"
  have "\<bar>?m\<bar> \<le> 10 ^ 28" using scaled_bounds [OF False] by (simp add: abs_divide)
  then have "?m \<le> of_int (10 ^ 28)" "of_int (- (10 ^ 28)) \<le> ?m"
    using abs_le_D1 abs_le_D2 by fastforce+
  from this [THEN round_half_even_mono] have "\<bar>round_half_even ?m\<bar> \<le> 10 ^ 28"
    by (simp add: round_half_even_uminus abs_le_iff)
  with False show ?thesis
    by (intro exI [of _ "round_half_even ?m"] exI [of _ ?e]) (simp add: rnd28_def Let_def)
qed

lemma rnd28_idem [simp]: "rnd28 (rnd28 x) = rnd28 x"
  using rnd28_is_scaled_int [of x] rnd28_exact by metis

text \<open>
  For evaluation: a value with at most twenty decimal places and few enough digits is not
  changed, which two integer divisions decide.
\<close>

lemma rnd28_code [code]:
  "rnd28 x = (case quotient_of x of (p, q) \<Rightarrow>
   if 100000000000000000000 mod q = 0 \<and> \<bar>p\<bar> * (100000000000000000000 div q) \<le> 10000000000000000000000000000
   then x else if x = 0 then 0
      else let e = adjusted_exponent x - 27
           in of_int (round_half_even (x / 10 powi e)) * 10 powi e)"
proof -
  obtain p q where pq: "quotient_of x = (p, q)" by force
  have q: "0 < q" and x: "x = of_int p / of_int q"
    using quotient_of_denom_pos [OF pq] quotient_of_div [OF pq] by auto
  show ?thesis
  proof (cases "100000000000000000000 mod q = 0 \<and> \<bar>p\<bar> * (100000000000000000000 div q) \<le> 10000000000000000000000000000")
    case True
    define k where "k = 100000000000000000000 div q"
    have kq: "100000000000000000000 = q * k" using True by (auto simp: k_def)
    have "0 \<le> k" using q by (simp add: k_def pos_imp_zdiv_nonneg_iff)
    have r: "(of_int 100000000000000000000::rat) = of_int q * of_int k" unfolding kq by simp
    have "x = of_int (p * k) * 10 powi (- 20)" using q r by (simp add: x power_int_minus field_simps)
    moreover have "\<bar>p * k\<bar> \<le> 10 ^ 28" using True \<open>0 \<le> k\<close> by (simp add: abs_mult k_def)
    ultimately have "rnd28 x = x" using rnd28_exact by metis
    then show ?thesis using True by (simp add: pq)
  next
    case False
    then show ?thesis by (simp only: pq prod.case if_not_P [OF False] rnd28_def Let_def if_False)
  qed
qed

section \<open>What the program relies on of the context\<close>

locale rounding_context =
  fixes rnd :: "rat \<Rightarrow> rat"
  assumes rnd_mono: "x \<le> y \<Longrightarrow> rnd x \<le> rnd y"
    and rnd_uminus: "rnd (- x) = - rnd x"
    and rnd_idem: "rnd (rnd x) = rnd x"
    and rnd_pos: "0 < x \<Longrightarrow> 0 < rnd x"
begin

lemma rnd_0: "rnd 0 = 0"
  using rnd_uminus [of 0] by simp

lemma rnd_nonneg: "0 \<le> x \<Longrightarrow> 0 \<le> rnd x"
  using rnd_mono [of 0 x] by (simp add: rnd_0)

lemma rnd_neg: "x < 0 \<Longrightarrow> rnd x < 0"
  using rnd_pos [of "- x"] by (simp add: rnd_uminus)

lemma rnd_pos_iff: "0 < rnd x \<longleftrightarrow> 0 < x"
  using rnd_pos [of x] rnd_neg [of x] rnd_0 by (cases x "0 :: rat" rule: linorder_cases) auto

lemma rnd_neg_iff: "rnd x < 0 \<longleftrightarrow> x < 0"
  using rnd_pos_iff [of "- x"] by (simp add: rnd_uminus)

lemma rnd_eq_0_iff: "rnd x = 0 \<longleftrightarrow> x = 0"
  using rnd_pos_iff [of x] rnd_neg_iff [of x] rnd_0 by (metis linorder_neqE less_irrefl)

lemma rnd_nonneg_iff: "0 \<le> rnd x \<longleftrightarrow> 0 \<le> x"
  using rnd_neg_iff [of x] by (simp add: not_less [symmetric])

lemma rnd_nonpos_iff: "rnd x \<le> 0 \<longleftrightarrow> x \<le> 0"
  using rnd_pos_iff [of x] by (simp add: not_less [symmetric])

lemma rnd_abs: "rnd \<bar>x\<bar> = \<bar>rnd x\<bar>"
  using rnd_nonneg [of x] rnd_neg [of x] by (cases "0 \<le> x") (auto simp: abs_if rnd_uminus)

lemma rnd_le_fixed: "rnd b = b \<Longrightarrow> x \<le> b \<Longrightarrow> rnd x \<le> b"
  using rnd_mono [of x b] by simp

lemma rnd_ge_fixed: "rnd b = b \<Longrightarrow> b \<le> x \<Longrightarrow> b \<le> rnd x"
  using rnd_mono [of b x] by simp

lemma rnd_less_imp_less: "rnd x < rnd y \<Longrightarrow> x < y"
  using rnd_mono [of y x] by (meson not_le)

end

interpretation dec: rounding_context rnd28
  by unfold_locales (rule rnd28_mono rnd28_uminus rnd28_idem rnd28_pos; assumption?)+

text \<open>A value that the context does not change: at most 28 significant digits.\<close>

definition is_dec :: "rat \<Rightarrow> bool" where
  "is_dec x \<longleftrightarrow> rnd28 x = x"

section \<open>The operations\<close>

type_synonym dec = rat

definition dadd :: "dec \<Rightarrow> dec \<Rightarrow> dec" where "dadd a b = rnd28 (a + b)"
definition dsub :: "dec \<Rightarrow> dec \<Rightarrow> dec" where "dsub a b = rnd28 (a - b)"
definition dmul :: "dec \<Rightarrow> dec \<Rightarrow> dec" where "dmul a b = rnd28 (a * b)"
definition ddiv :: "dec \<Rightarrow> dec \<Rightarrow> dec" where "ddiv a b = rnd28 (a / b)"
definition dneg :: "dec \<Rightarrow> dec" where "dneg a = rnd28 (- a)"
definition dabs :: "dec \<Rightarrow> dec" where "dabs a = rnd28 \<bar>a\<bar>"

text \<open>\<open>sum(xs, Decimal("0"))\<close> adds from the left.\<close>

definition dsum :: "dec list \<Rightarrow> dec" where "dsum xs = foldl dadd 0 xs"

text \<open>\<open>to_integral_value\<close> with \<open>ROUND_FLOOR\<close> and \<open>ROUND_CEILING\<close>.\<close>

definition dfloor :: "dec \<Rightarrow> dec" where "dfloor a = of_int \<lfloor>a\<rfloor>"
definition dceil :: "dec \<Rightarrow> dec" where "dceil a = of_int \<lceil>a\<rceil>"

lemmas dec_defs = dadd_def dsub_def dmul_def ddiv_def dneg_def dabs_def

named_theorems dec_simps \<open>sign conditions of decimal results as conditions on the operands\<close>

lemma dadd_pos_iff [dec_simps]: "0 < dadd a b \<longleftrightarrow> 0 < a + b"
  and dadd_nonneg_iff [dec_simps]: "0 \<le> dadd a b \<longleftrightarrow> 0 \<le> a + b"
  and dadd_neg_iff [dec_simps]: "dadd a b < 0 \<longleftrightarrow> a + b < 0"
  and dadd_nonpos_iff [dec_simps]: "dadd a b \<le> 0 \<longleftrightarrow> a + b \<le> 0"
  and dadd_eq_0_iff [dec_simps]: "dadd a b = 0 \<longleftrightarrow> a + b = 0"
  by (simp_all add: dadd_def dec.rnd_pos_iff dec.rnd_nonneg_iff dec.rnd_neg_iff
      dec.rnd_nonpos_iff dec.rnd_eq_0_iff)

lemma dsub_pos_iff [dec_simps]: "0 < dsub a b \<longleftrightarrow> b < a"
  and dsub_nonneg_iff [dec_simps]: "0 \<le> dsub a b \<longleftrightarrow> b \<le> a"
  and dsub_neg_iff [dec_simps]: "dsub a b < 0 \<longleftrightarrow> a < b"
  and dsub_nonpos_iff [dec_simps]: "dsub a b \<le> 0 \<longleftrightarrow> a \<le> b"
  and dsub_eq_0_iff [dec_simps]: "dsub a b = 0 \<longleftrightarrow> a = b"
  by (simp_all add: dsub_def dec.rnd_pos_iff dec.rnd_nonneg_iff dec.rnd_neg_iff
      dec.rnd_nonpos_iff dec.rnd_eq_0_iff)

lemma dmul_pos_iff [dec_simps]: "0 < dmul a b \<longleftrightarrow> 0 < a * b"
  and dmul_nonneg_iff [dec_simps]: "0 \<le> dmul a b \<longleftrightarrow> 0 \<le> a * b"
  and dmul_neg_iff [dec_simps]: "dmul a b < 0 \<longleftrightarrow> a * b < 0"
  and dmul_nonpos_iff [dec_simps]: "dmul a b \<le> 0 \<longleftrightarrow> a * b \<le> 0"
  and dmul_eq_0_iff [dec_simps]: "dmul a b = 0 \<longleftrightarrow> a = 0 \<or> b = 0"
  by (simp_all add: dmul_def dec.rnd_pos_iff dec.rnd_nonneg_iff dec.rnd_neg_iff
      dec.rnd_nonpos_iff dec.rnd_eq_0_iff)

lemma ddiv_pos_iff [dec_simps]: "0 < ddiv a b \<longleftrightarrow> 0 < a / b"
  and ddiv_nonneg_iff [dec_simps]: "0 \<le> ddiv a b \<longleftrightarrow> 0 \<le> a / b"
  and ddiv_neg_iff [dec_simps]: "ddiv a b < 0 \<longleftrightarrow> a / b < 0"
  and ddiv_nonpos_iff [dec_simps]: "ddiv a b \<le> 0 \<longleftrightarrow> a / b \<le> 0"
  and ddiv_eq_0_iff [dec_simps]: "ddiv a b = 0 \<longleftrightarrow> a = 0 \<or> b = 0"
  by (simp_all add: ddiv_def dec.rnd_pos_iff dec.rnd_nonneg_iff dec.rnd_neg_iff
      dec.rnd_nonpos_iff dec.rnd_eq_0_iff)

lemma dneg_pos_iff [dec_simps]: "0 < dneg a \<longleftrightarrow> a < 0"
  and dneg_nonneg_iff [dec_simps]: "0 \<le> dneg a \<longleftrightarrow> a \<le> 0"
  and dneg_neg_iff [dec_simps]: "dneg a < 0 \<longleftrightarrow> 0 < a"
  and dneg_nonpos_iff [dec_simps]: "dneg a \<le> 0 \<longleftrightarrow> 0 \<le> a"
  and dneg_eq_0_iff [dec_simps]: "dneg a = 0 \<longleftrightarrow> a = 0"
  using dec.rnd_pos_iff [of "- a"] dec.rnd_nonneg_iff [of "- a"] dec.rnd_neg_iff [of "- a"]
    dec.rnd_nonpos_iff [of "- a"] dec.rnd_eq_0_iff [of "- a"]
  by (simp_all add: dneg_def)

lemma dabs_nonneg [simp]: "0 \<le> dabs a"
  by (simp add: dabs_def dec.rnd_nonneg_iff)

lemma dabs_pos_iff [dec_simps]: "0 < dabs a \<longleftrightarrow> a \<noteq> 0"
  by (simp add: dabs_def dec.rnd_pos_iff)

lemma dabs_eq_abs: "dabs a = \<bar>rnd28 a\<bar>"
  by (simp add: dabs_def dec.rnd_abs)

lemma dec_zero [simp]:
  "dadd 0 0 = 0" "dmul a 0 = 0" "dmul 0 a = 0" "ddiv 0 a = 0" "dsub a a = 0" "dneg 0 = 0" "dabs 0 = 0"
  by (simp_all add: dec_defs)

lemma dadd_commute: "dadd a b = dadd b a"
  by (simp add: dadd_def add.commute)

lemma dadd_mono: "a \<le> a' \<Longrightarrow> b \<le> b' \<Longrightarrow> dadd a b \<le> dadd a' b'"
  by (simp add: dadd_def dec.rnd_mono)

lemma dsub_mono: "a \<le> a' \<Longrightarrow> b' \<le> b \<Longrightarrow> dsub a b \<le> dsub a' b'"
  by (simp add: dsub_def dec.rnd_mono)

lemma dmul_mono: "a \<le> a' \<Longrightarrow> 0 \<le> b \<Longrightarrow> dmul a b \<le> dmul a' b"
  by (simp add: dmul_def dec.rnd_mono mult_right_mono)

lemma ddiv_mono: "a \<le> a' \<Longrightarrow> 0 \<le> b \<Longrightarrow> ddiv a b \<le> ddiv a' b"
  by (simp add: ddiv_def dec.rnd_mono divide_right_mono)

lemma dabs_mono: "\<bar>a\<bar> \<le> \<bar>b\<bar> \<Longrightarrow> dabs a \<le> dabs b"
  by (simp add: dabs_def dec.rnd_mono)

lemma dabs_less_imp: "dabs a < dabs b \<Longrightarrow> \<bar>a\<bar> < \<bar>b\<bar>"
  unfolding dabs_def by (rule dec.rnd_less_imp_less)

lemma dabs_dec: "is_dec a \<Longrightarrow> dabs a = \<bar>a\<bar>"
  by (simp add: dabs_eq_abs is_dec_def)

lemma is_dec_results [simp, intro]:
  "is_dec (dadd a b)" "is_dec (dsub a b)" "is_dec (dmul a b)" "is_dec (ddiv a b)"
  "is_dec (dneg a)" "is_dec (dabs a)" "is_dec 0"
  by (simp_all add: is_dec_def dec_defs)

lemma dneg_dec: "is_dec a \<Longrightarrow> dneg a = - a"
  by (simp add: is_dec_def dneg_def dec.rnd_uminus)

lemma dadd_0: "is_dec a \<Longrightarrow> dadd a 0 = a" "is_dec a \<Longrightarrow> dadd 0 a = a"
  by (simp_all add: is_dec_def dadd_def)

lemma dmul_1: "is_dec a \<Longrightarrow> dmul a 1 = a" "is_dec a \<Longrightarrow> dmul 1 a = a"
  by (simp_all add: is_dec_def dmul_def)

lemma dadd_le_dec: "is_dec c \<Longrightarrow> a + b \<le> c \<Longrightarrow> dadd a b \<le> c"
  and dec_le_dadd: "is_dec c \<Longrightarrow> c \<le> a + b \<Longrightarrow> c \<le> dadd a b"
  and dsub_le_dec: "is_dec c \<Longrightarrow> a - b \<le> c \<Longrightarrow> dsub a b \<le> c"
  and dec_le_dsub: "is_dec c \<Longrightarrow> c \<le> a - b \<Longrightarrow> c \<le> dsub a b"
  by (simp_all add: is_dec_def dadd_def dsub_def dec.rnd_le_fixed dec.rnd_ge_fixed)

lemma foldl_dadd_nonneg: "0 \<le> a \<Longrightarrow> \<forall>x \<in> set xs. 0 \<le> x \<Longrightarrow> 0 \<le> foldl dadd a xs"
  by (induction xs arbitrary: a) (auto simp: dec_simps)

lemma dsum_nonneg: "\<forall>x \<in> set xs. 0 \<le> x \<Longrightarrow> 0 \<le> dsum xs"
  by (simp add: dsum_def foldl_dadd_nonneg)

lemma is_dec_dsum [simp]: "is_dec (dsum xs)"
proof (cases xs rule: rev_cases)
  case (snoc ys y)
  then show ?thesis by (simp add: dsum_def)
qed (simp add: dsum_def)

section \<open>Exactness on a decimal grid\<close>

text \<open>
  Quantities and prices of the venue are multiples of a lot or tick. Sums and differences
  of multiples of \<open>10 ^ -n\<close> are exact while they stay below \<open>10 ^ (28 - n)\<close>.
\<close>

definition on_grid :: "nat \<Rightarrow> rat \<Rightarrow> bool" where
  "on_grid n x \<longleftrightarrow> x * 10 ^ n \<in> \<int> \<and> \<bar>x\<bar> * 10 ^ n \<le> 10 ^ 28"

lemma on_grid_is_dec: "on_grid n x \<Longrightarrow> is_dec x"
proof -
  assume g: "on_grid n x"
  then obtain k where k: "x * 10 ^ n = of_int k" by (auto simp: on_grid_def elim: Ints_cases)
  then have x: "x = of_int k * 10 powi (- int n)"
    by (simp add: power_int_minus divide_inverse [symmetric] field_simps)
  have "\<bar>x * 10 ^ n\<bar> \<le> 10 ^ 28" using g by (simp add: on_grid_def abs_mult)
  then have "(of_int \<bar>k\<bar> :: rat) \<le> of_int (10 ^ 28)" unfolding k by simp
  then have "\<bar>k\<bar> \<le> 10 ^ 28" by (simp only: of_int_le_iff)
  then show ?thesis unfolding is_dec_def x by (rule rnd28_exact)
qed

lemma on_grid_add:
  "on_grid n a \<Longrightarrow> on_grid n b \<Longrightarrow> \<bar>a + b\<bar> * 10 ^ n \<le> 10 ^ 28 \<Longrightarrow> on_grid n (a + b)"
  by (auto simp: on_grid_def distrib_right)

lemma on_grid_diff:
  "on_grid n a \<Longrightarrow> on_grid n b \<Longrightarrow> \<bar>a - b\<bar> * 10 ^ n \<le> 10 ^ 28 \<Longrightarrow> on_grid n (a - b)"
  by (auto simp: on_grid_def left_diff_distrib)

lemma dadd_exact: "on_grid n a \<Longrightarrow> on_grid n b \<Longrightarrow> \<bar>a + b\<bar> * 10 ^ n \<le> 10 ^ 28 \<Longrightarrow> dadd a b = a + b"
  using on_grid_is_dec [OF on_grid_add] by (simp add: dadd_def is_dec_def)

lemma dsub_exact: "on_grid n a \<Longrightarrow> on_grid n b \<Longrightarrow> \<bar>a - b\<bar> * 10 ^ n \<le> 10 ^ 28 \<Longrightarrow> dsub a b = a - b"
  using on_grid_is_dec [OF on_grid_diff] by (simp add: dsub_def is_dec_def)

end
