(* ===== verification/Domain.thy ===== *)
theory Domain
  imports Decimal_Arith
begin

text \<open>
  The versioned contracts of \<open>domain/market.py\<close> and \<open>domain/execution.py\<close>: enumerations as
  datatypes, models as records, model validators as functions that return the message of
  the first failing check. A pydantic model cannot be constructed when a check fails, so a
  \<open>mk_\<close> function returns the record or the error. Field constraints (\<open>gt=0\<close>, \<open>ge=0\<close>,
  lengths, hexadecimal patterns) are part of the checks. Fields that admit a single literal
  (\<open>schema_version\<close>, \<open>instrument_id\<close>, \<open>venue\<close>, \<open>event_type\<close>) carry no information and are
  left out. Field names carry a prefix of the model's initials.
\<close>

section \<open>Field constraints\<close>

definition is_identifier :: "string \<Rightarrow> bool" where
  "is_identifier s \<longleftrightarrow> 1 \<le> length s \<and> length s \<le> 128"

definition is_alnum :: "char \<Rightarrow> bool" where
  "is_alnum c \<longleftrightarrow>
     c \<in> set ''0123456789ABCDEFGHIJKLMNOPQRSTUVWXYZabcdefghijklmnopqrstuvwxyz''"

text \<open>The pattern \<open>[A-Za-z0-9][A-Za-z0-9._:-]*\<close>.\<close>

definition is_slug :: "string \<Rightarrow> bool" where
  "is_slug s \<longleftrightarrow> s \<noteq> [] \<and> is_alnum (hd s) \<and> list_all (\<lambda>c. is_alnum c \<or> c \<in> set ''._:-'') s"

definition lower_hex :: "char \<Rightarrow> bool" where
  "lower_hex c \<longleftrightarrow> c \<in> set ''0123456789abcdef''"

definition any_hex :: "char \<Rightarrow> bool" where
  "any_hex c \<longleftrightarrow> c \<in> set ''0123456789abcdefABCDEF''"

definition is_sha256_hex :: "string \<Rightarrow> bool" where
  "is_sha256_hex s \<longleftrightarrow> length s = 64 \<and> list_all lower_hex s"

definition is_account_address :: "string \<Rightarrow> bool" where
  "is_account_address s \<longleftrightarrow> length s = 42 \<and> take 2 s = ''0x'' \<and> list_all any_hex (drop 2 s)"

definition opt_all :: "('a \<Rightarrow> bool) \<Rightarrow> 'a option \<Rightarrow> bool" where
  "opt_all P x = (case x of None \<Rightarrow> True | Some y \<Rightarrow> P y)"

lemma opt_all_simps [simp]: "opt_all P None" "opt_all P (Some x) = P x"
  by (simp_all add: opt_all_def)

text \<open>The first failing check of a list of (violated, message) pairs, in order.\<close>

fun first_error :: "(bool \<times> string) list \<Rightarrow> string option" where
  "first_error [] = None"
| "first_error ((bad, m) # cs) = (if bad then Some m else first_error cs)"

lemma first_error_None_iff: "first_error cs = None \<longleftrightarrow> (\<forall>(bad, m) \<in> set cs. \<not> bad)"
  by (induction cs rule: first_error.induct) auto

section \<open>Market events (domain/market.py)\<close>

datatype order_side = BUY | SELL

datatype aggressor_side = BUYER | SELLER | UNKNOWN_AGGRESSOR

datatype event_source = HYPERLIQUID_WEBSOCKET | TARDIS_CSV

datatype timestamp_source = EXCHANGE_TS | RECEIVE_TS

record event_header =
  eh_event_id :: string
  eh_event_ts_ns :: int
  eh_receive_ts_ns :: int
  eh_connection_id :: string
  eh_source :: event_source
  eh_event_ts_source :: timestamp_source
  eh_source_record_id :: "string option"

definition event_header_error :: "event_header \<Rightarrow> string option" where
  "event_header_error h = first_error
     [(\<not> (1 \<le> length (eh_event_id h) \<and> length (eh_event_id h) \<le> 256), ''event_id''),
      (eh_event_ts_ns h < 0, ''event_ts_ns''),
      (eh_receive_ts_ns h < 0, ''receive_ts_ns''),
      (\<not> is_identifier (eh_connection_id h), ''connection_id''),
      (\<not> opt_all (\<lambda>s. 1 \<le> length s \<and> length s \<le> 256) (eh_source_record_id h), ''source_record_id''),
      (eh_receive_ts_ns h + 60000000000 < eh_event_ts_ns h,
       ''receive timestamp precedes event timestamp by more than 60 seconds'')]"

record book_level =
  bl_price :: dec
  bl_size :: dec
  bl_order_count :: "int option"

definition book_level_ok :: "book_level \<Rightarrow> bool" where
  "book_level_ok l \<longleftrightarrow> 0 < bl_price l \<and> 0 < bl_size l \<and> opt_all (\<lambda>n. 1 \<le> n) (bl_order_count l)"

record l2_book_snapshot =
  l2_header :: event_header
  l2_bids :: "book_level list"
  l2_asks :: "book_level list"

definition l2_book_error :: "l2_book_snapshot \<Rightarrow> string option" where
  "l2_book_error b =
     (let bid_prices = map bl_price (l2_bids b); ask_prices = map bl_price (l2_asks b)
      in if event_header_error (l2_header b) \<noteq> None then event_header_error (l2_header b)
         else first_error
           [(l2_bids b = [] \<or> \<not> list_all book_level_ok (l2_bids b), ''bids''),
            (l2_asks b = [] \<or> \<not> list_all book_level_ok (l2_asks b), ''asks''),
            (\<not> distinct bid_prices \<or> \<not> distinct ask_prices,
             ''book levels must have unique prices on each side''),
            (bid_prices \<noteq> rev (sort bid_prices), ''bids must be sorted from highest to lowest''),
            (ask_prices \<noteq> sort ask_prices, ''asks must be sorted from lowest to highest''),
            (hd ask_prices \<le> hd bid_prices, ''book must not be locked or crossed'')])"

record bbo_event =
  bbo_header :: event_header
  bbo_bid_price :: dec
  bbo_bid_size :: dec
  bbo_ask_price :: dec
  bbo_ask_size :: dec

definition bbo_event_error :: "bbo_event \<Rightarrow> string option" where
  "bbo_event_error b =
     (if event_header_error (bbo_header b) \<noteq> None then event_header_error (bbo_header b)
      else first_error
        [(bbo_bid_price b \<le> 0, ''bid_price''), (bbo_bid_size b \<le> 0, ''bid_size''),
         (bbo_ask_price b \<le> 0, ''ask_price''), (bbo_ask_size b \<le> 0, ''ask_size''),
         (bbo_ask_price b \<le> bbo_bid_price b, ''best bid must be below best ask'')])"

record trade_event =
  te_header :: event_header
  te_trade_id :: string
  te_price :: dec
  te_size :: dec
  te_aggressor :: aggressor_side
  te_transaction_hash :: "string option"

definition trade_event_error :: "trade_event \<Rightarrow> string option" where
  "trade_event_error t =
     (if event_header_error (te_header t) \<noteq> None then event_header_error (te_header t)
      else first_error
        [(\<not> (1 \<le> length (te_trade_id t) \<and> length (te_trade_id t) \<le> 256), ''trade_id''),
         (te_price t \<le> 0, ''price''), (te_size t \<le> 0, ''size'')])"

record funding_event =
  fe_header :: event_header
  fe_funding_rate :: dec
  fe_next_funding_ts_ns :: "int option"

record open_interest_event =
  oie_header :: event_header
  oie_open_interest_base :: dec

record mark_price_event =
  mpe_header :: event_header
  mpe_mark_price :: dec

record index_price_event =
  ipe_header :: event_header
  ipe_index_price :: dec

record account_event_header =
  ah_event_id :: string
  ah_event_ts_ns :: int
  ah_receive_ts_ns :: int
  ah_connection_id :: string
  ah_account_address :: "string option"
  ah_source :: event_source
  ah_event_ts_source :: timestamp_source
  ah_source_record_id :: "string option"

record account_liquidation_event =
  al_header :: account_event_header
  al_liquidation_id :: string
  al_liquidator_address :: string
  al_liquidated_user_address :: string
  al_liquidated_notional_usd :: dec
  al_liquidated_account_value_usd :: dec

datatype liquidation_method = MARKET_METHOD | BACKSTOP_METHOD

record liquidation_fill_event =
  lf_header :: event_header
  lf_side :: order_side
  lf_price :: dec
  lf_size :: dec
  lf_trade_id :: string
  lf_method :: liquidation_method
  lf_liquidated_user_address :: "string option"

record funding_payment_event =
  fp_header :: event_header
  fp_amount_usdc :: dec
  fp_position_size_base :: dec
  fp_funding_rate :: dec

record account_order_update_event =
  aou_header :: event_header
  aou_venue_order_id :: string
  aou_client_order_id :: "string option"
  aou_side :: order_side
  aou_limit_price :: dec
  aou_remaining_size :: dec
  aou_original_size :: dec
  aou_status :: string
  aou_reduce_only :: bool

datatype liquidity = MAKER | TAKER

record account_fill_event =
  af_header :: event_header
  af_venue_order_id :: string
  af_trade_id :: string
  af_side :: order_side
  af_price :: dec
  af_size :: dec
  af_liquidity :: liquidity
  af_fee :: dec
  af_fee_token :: string
  af_closed_pnl :: dec
  af_transaction_hash :: string

record position_snapshot_event =
  pse_header :: event_header
  pse_size_base :: dec
  pse_entry_price :: "dec option"
  pse_unrealized_pnl_usd :: dec
  pse_leverage :: dec
  pse_liquidation_price :: "dec option"
  pse_margin_used_usd :: "dec option"

text \<open>The union \<open>MarketEvent\<close>.\<close>

datatype market_event =
    L2Book l2_book_snapshot
  | Bbo bbo_event
  | Trade trade_event
  | Funding funding_event
  | OpenInterest open_interest_event
  | MarkPrice mark_price_event
  | IndexPrice index_price_event
  | AccountLiquidation account_liquidation_event
  | LiquidationFill liquidation_fill_event
  | FundingPayment funding_payment_event
  | AccountOrderUpdate account_order_update_event
  | AccountFill account_fill_event
  | PositionSnapshot position_snapshot_event

section \<open>Execution and risk contracts (domain/execution.py)\<close>

datatype order_kind = LIMIT | MARKET

datatype time_in_force = GTC | IOC

text \<open>
  The free-text \<open>rationale\<close> of an intent. The strategies build it with an f-string over
  their numbers; the constructors are those templates with their arguments, so that the
  model records what is printed without fixing how many trailing zeros a decimal prints.
\<close>

datatype rationale =
    Rationale string
  | OrderFlowEdge dec dec
  | ReactiveEntry int dec dec dec int int "string list"
  | MakerTakeProfit dec
  | MarketExit string dec dec

text \<open>
  The length check of the field, 1 to 512 characters. The templates are never empty. Their numbers print in at
  most 40 characters each (28 digits with sign, point, leading zeros and exponent), horizons are at most 300 seconds,
  and the listed reasons are labels of the structure engine, so that they stay within 512 characters.
\<close>

fun rationale_ok :: "rationale \<Rightarrow> bool" where
  "rationale_ok (Rationale t) \<longleftrightarrow> 1 \<le> length t \<and> length t \<le> 512"
| "rationale_ok _ \<longleftrightarrow> True"

record order_intent =
  oi_intent_id :: string
  oi_strategy_id :: string
  oi_side :: order_side
  oi_kind :: order_kind
  oi_quantity_base :: dec
  oi_limit_price :: "dec option"
  oi_time_in_force :: time_in_force
  oi_post_only :: bool
  oi_reduce_only :: bool
  oi_created_ts_ns :: int
  oi_rationale :: rationale

definition order_intent_error :: "order_intent \<Rightarrow> string option" where
  "order_intent_error i = first_error
     [(\<not> is_identifier (oi_intent_id i), ''intent_id''),
      (\<not> is_identifier (oi_strategy_id i), ''strategy_id''),
      (oi_quantity_base i \<le> 0, ''quantity_base''),
      (\<not> opt_all (\<lambda>p. 0 < p) (oi_limit_price i), ''limit_price''),
      (oi_created_ts_ns i < 0, ''created_ts_ns''),
      (\<not> rationale_ok (oi_rationale i), ''rationale''),
      (oi_kind i = LIMIT \<and> oi_limit_price i = None, ''limit orders require a limit price''),
      (oi_kind i = MARKET \<and> oi_limit_price i \<noteq> None, ''market orders cannot carry a limit price''),
      (oi_post_only i \<and> oi_kind i \<noteq> LIMIT, ''post-only is valid only for limit orders''),
      (oi_post_only i \<and> oi_time_in_force i \<noteq> GTC, ''post-only orders require GTC time in force''),
      (oi_kind i = MARKET \<and> oi_time_in_force i \<noteq> IOC, ''market orders require IOC time in force'')]"

definition mk_order_intent :: "order_intent \<Rightarrow> order_intent res" where
  "mk_order_intent i =
     (case order_intent_error i of Some m \<Rightarrow> Inl (ValidationError m) | None \<Rightarrow> Inr i)"

definition order_intent_ok :: "order_intent \<Rightarrow> bool" where
  "order_intent_ok i \<longleftrightarrow> order_intent_error i = None"

datatype risk_state = ACTIVE | REDUCE_ONLY | CANCEL_ONLY | HALTED | FLATTENING

datatype risk_reason =
    APPROVED | OPERATOR_KILL | FLATTEN_REQUESTED | EXCHANGE_DISCONNECTED
  | RECONCILIATION_INCOMPLETE | PUBLIC_DATA_STALE | PRIVATE_DATA_STALE
  | INVALID_ACCOUNT_STATE | DEPLOYMENT_APPROVAL_INVALID | CAPITAL_LIMIT
  | DAILY_LOSS_LIMIT | DRAWDOWN_LIMIT | ORDER_SIZE_LIMIT | ORDER_NOTIONAL_LIMIT
  | POSITION_LIMIT | INVENTORY_LIMIT | LEVERAGE_LIMIT | OPEN_ORDER_LIMIT
  | INFLIGHT_REQUEST_LIMIT | ORDER_RATE_LIMIT | REDUCE_ONLY_REQUIRED
  | NOT_POSITION_REDUCING | INTENT_TOO_OLD | INVALID_TIMESTAMP

record risk_snapshot =
  rs_snapshot_ts_ns :: int
  rs_public_data_ts_ns :: int
  rs_private_data_ts_ns :: int
  rs_mark_price :: dec
  rs_position_base :: dec
  rs_pending_buy_base :: dec
  rs_pending_sell_base :: dec
  rs_account_equity_usd :: dec
  rs_day_start_equity_usd :: dec
  rs_high_water_equity_usd :: dec
  rs_leverage :: dec
  rs_open_order_count :: int
  rs_exchange_connected :: bool
  rs_reconciliation_complete :: bool
  rs_deployment_approved :: bool
  rs_approved_capital_limit_usd :: "dec option"
  rs_operator_kill :: bool
  rs_flatten_requested :: bool

definition risk_snapshot_error :: "risk_snapshot \<Rightarrow> string option" where
  "risk_snapshot_error s = first_error
     [(rs_snapshot_ts_ns s < 0 \<or> rs_public_data_ts_ns s < 0 \<or> rs_private_data_ts_ns s < 0, ''ts_ns''),
      (rs_mark_price s \<le> 0, ''mark_price''),
      (rs_pending_buy_base s < 0 \<or> rs_pending_sell_base s < 0, ''pending''),
      (rs_account_equity_usd s \<le> 0 \<or> rs_day_start_equity_usd s \<le> 0
         \<or> rs_high_water_equity_usd s \<le> 0, ''equity''),
      (rs_leverage s < 0, ''leverage''),
      (rs_open_order_count s < 0, ''open_order_count''),
      (\<not> opt_all (\<lambda>c. 0 < c) (rs_approved_capital_limit_usd s), ''approved_capital_limit_usd''),
      (rs_snapshot_ts_ns s < rs_public_data_ts_ns s, ''public data time cannot follow snapshot time''),
      (rs_snapshot_ts_ns s < rs_private_data_ts_ns s, ''private data time cannot follow snapshot time'')]"

definition risk_snapshot_ok :: "risk_snapshot \<Rightarrow> bool" where
  "risk_snapshot_ok s \<longleftrightarrow> risk_snapshot_error s = None"

record risk_decision =
  rd_decision_id :: string
  rd_intent_sha256 :: string
  rd_snapshot_sha256 :: string
  rd_limits_sha256 :: string
  rd_state :: risk_state
  rd_allowed :: bool
  rd_reasons :: "risk_reason list"
  rd_issued_ts_ns :: int
  rd_expires_ts_ns :: int
  rd_approval_signature :: "string option"

definition risk_decision_error :: "risk_decision \<Rightarrow> string option" where
  "risk_decision_error d = first_error
     [(\<not> is_identifier (rd_decision_id d), ''decision_id''),
      (\<not> is_sha256_hex (rd_intent_sha256 d), ''intent_sha256''),
      (\<not> is_sha256_hex (rd_snapshot_sha256 d), ''snapshot_sha256''),
      (\<not> is_sha256_hex (rd_limits_sha256 d), ''limits_sha256''),
      (rd_reasons d = [], ''reasons''),
      (\<not> opt_all is_sha256_hex (rd_approval_signature d), ''approval_signature''),
      (rd_issued_ts_ns d < 0 \<or> rd_expires_ts_ns d < 0, ''ts_ns''),
      (rd_expires_ts_ns d < rd_issued_ts_ns d, ''risk decision expiry precedes issue time''),
      (rd_allowed d \<and> rd_approval_signature d = None,
       ''allowed decisions require an approval signature''),
      (\<not> rd_allowed d \<and> rd_approval_signature d \<noteq> None,
       ''denied decisions cannot carry an approval signature'')]"

datatype execution_state =
    PENDING_SUBMIT | SUBMITTED | ACCEPTED | PARTIALLY_FILLED | FILLED | PENDING_MODIFY
  | PENDING_CANCEL | CANCELED | REJECTED | DENIED | UNKNOWN

datatype event_origin = FROM_RISK | FROM_NAUTILUS | FROM_RECONCILIATION | FROM_OPERATOR

record journal_event =
  je_event_id :: string
  je_intent_id :: string
  je_client_order_id :: "string option"
  je_venue_order_id :: "string option"
  je_state :: execution_state
  je_event_ts_ns :: int
  je_filled_quantity_base :: dec
  je_detail :: string
  je_source :: event_origin

definition journal_event_error :: "journal_event \<Rightarrow> string option" where
  "journal_event_error e = first_error
     [(\<not> is_identifier (je_event_id e), ''event_id''),
      (\<not> is_identifier (je_intent_id e), ''intent_id''),
      (\<not> opt_all is_identifier (je_client_order_id e), ''client_order_id''),
      (\<not> opt_all is_identifier (je_venue_order_id e), ''venue_order_id''),
      (je_event_ts_ns e < 0, ''event_ts_ns''),
      (je_filled_quantity_base e < 0, ''filled_quantity_base''),
      (\<not> (1 \<le> length (je_detail e) \<and> length (je_detail e) \<le> 1024), ''detail'')]"

record trading_heartbeat =
  hb_process_id :: int
  hb_heartbeat_ts_ns :: int
  hb_environment :: string
  hb_account_address :: string
  hb_execution_healthy :: bool
  hb_reconciliation_complete :: bool
  hb_operator_kill :: bool
  hb_config_fingerprint :: string
  hb_deployment_id :: "string option"
  hb_approval_id :: "string option"
  hb_admission_id :: "string option"
  hb_approval_expires_ts_ns :: "int option"

definition trading_heartbeat_error :: "trading_heartbeat \<Rightarrow> string option" where
  "trading_heartbeat_error h =
     (let present = [hb_deployment_id h \<noteq> None, hb_approval_id h \<noteq> None,
                     hb_admission_id h \<noteq> None, hb_approval_expires_ts_ns h \<noteq> None]
      in first_error
        [(hb_process_id h \<le> 0, ''process_id''),
         (hb_heartbeat_ts_ns h < 0, ''heartbeat_ts_ns''),
         (\<not> is_identifier (hb_environment h), ''environment''),
         (\<not> is_account_address (hb_account_address h), ''account_address''),
         (\<not> is_sha256_hex (hb_config_fingerprint h), ''config_fingerprint''),
         (\<not> opt_all is_identifier (hb_deployment_id h), ''deployment_id''),
         (\<not> opt_all is_identifier (hb_approval_id h), ''approval_id''),
         (\<not> opt_all is_sha256_hex (hb_admission_id h), ''admission_id''),
         (\<not> opt_all (\<lambda>t. 0 \<le> t) (hb_approval_expires_ts_ns h), ''approval_expires_ts_ns''),
         (list_ex (\<lambda>b. b) present \<and> \<not> list_all (\<lambda>b. b) present,
          ''heartbeat deployment admission identity must be complete'')])"

section \<open>Facts about valid contracts\<close>

named_theorems ok_simps \<open>validity of a model as the conjunction of its checks\<close>

lemma mk_order_intent_Inr [ok_simps]: "mk_order_intent i = Inr j \<longleftrightarrow> order_intent_ok i \<and> j = i"
  by (auto simp: mk_order_intent_def order_intent_ok_def split: option.splits)

lemma order_intent_ok_iff [ok_simps]:
  "order_intent_ok i \<longleftrightarrow>
     is_identifier (oi_intent_id i) \<and> is_identifier (oi_strategy_id i) \<and> 0 < oi_quantity_base i
   \<and> opt_all (\<lambda>p. 0 < p) (oi_limit_price i) \<and> 0 \<le> oi_created_ts_ns i
   \<and> rationale_ok (oi_rationale i) \<and> (oi_kind i = LIMIT \<longleftrightarrow> oi_limit_price i \<noteq> None)
   \<and> (oi_post_only i \<longrightarrow> oi_kind i = LIMIT \<and> oi_time_in_force i = GTC)
   \<and> (oi_kind i = MARKET \<longrightarrow> oi_time_in_force i = IOC)"
  by (cases "oi_kind i")
    (auto simp: order_intent_ok_def order_intent_error_def first_error_None_iff not_le not_less)

lemma risk_snapshot_ok_iff [ok_simps]:
  "risk_snapshot_ok s \<longleftrightarrow>
     0 \<le> rs_snapshot_ts_ns s \<and> 0 \<le> rs_public_data_ts_ns s \<and> 0 \<le> rs_private_data_ts_ns s
   \<and> 0 < rs_mark_price s \<and> 0 \<le> rs_pending_buy_base s \<and> 0 \<le> rs_pending_sell_base s
   \<and> 0 < rs_account_equity_usd s \<and> 0 < rs_day_start_equity_usd s \<and> 0 < rs_high_water_equity_usd s
   \<and> 0 \<le> rs_leverage s \<and> 0 \<le> rs_open_order_count s
   \<and> opt_all (\<lambda>c. 0 < c) (rs_approved_capital_limit_usd s)
   \<and> rs_public_data_ts_ns s \<le> rs_snapshot_ts_ns s \<and> rs_private_data_ts_ns s \<le> rs_snapshot_ts_ns s"
  by (auto simp: risk_snapshot_ok_def risk_snapshot_error_def first_error_None_iff not_le not_less)

end
