(* ===== verification/Kill_Switch.thy ===== *)
theory Kill_Switch
  imports Domain
begin

text \<open>
  The persistent operator kill switch of \<open>risk/kill_switch.py\<close>: the state file, its audit
  log, and the file-system steps that \<open>_write\<close> performs, in the order of the code. A crash
  is a run of the steps that stops early. A file that cannot be read or parsed is \<open>Garbage\<close>;
  each step (create, write and sync the temporary file, atomic rename, synced append) is
  taken as atomic. The locale \<open>operator_switch\<close> is the contract of the operator's calls.
\<close>

section \<open>State\<close>

record kill_switch_record =
  ks_record_id :: string
  ks_active :: bool
  ks_changed_ts_ns :: int
  ks_actor :: string
  ks_reason :: string

definition kill_switch_record_error :: "kill_switch_record \<Rightarrow> string option" where
  "kill_switch_record_error r = first_error
     [(\<not> is_identifier (ks_record_id r), ''record_id''),
      (ks_changed_ts_ns r < 0, ''changed_ts_ns''),
      (\<not> is_identifier (ks_actor r), ''actor''),
      (\<not> (1 \<le> length (ks_reason r) \<and> length (ks_reason r) \<le> 512), ''reason'')]"

datatype stored = Stored kill_switch_record | Garbage

record switch_disk =
  sd_state :: "stored option"
  sd_temp :: "stored option"
  sd_audit :: "kill_switch_record list"

section \<open>Operations\<close>

text \<open>\<open>KillSwitchStore.read\<close>: no file means never activated, an unreadable file is active.\<close>

definition read_switch :: "int \<Rightarrow> switch_disk \<Rightarrow> kill_switch_record" where
  "read_switch now d =
     (case sd_state d of
        None \<Rightarrow> \<lparr>ks_record_id = ''initial-inactive'', ks_active = False, ks_changed_ts_ns = 0,
                 ks_actor = ''system'', ks_reason = ''no operator kill has been activated''\<rparr>
      | Some (Stored r) \<Rightarrow> r
      | Some Garbage \<Rightarrow>
          \<lparr>ks_record_id = ''corrupt-fail-closed'', ks_active = True, ks_changed_ts_ns = now,
           ks_actor = ''system'', ks_reason = ''kill-switch state unreadable''\<rparr>)"

datatype fs_step =
    CreateTemp
  | WriteTemp kill_switch_record
  | ReplaceState
  | AppendAudit kill_switch_record
  | UnlinkTemp

fun fs_apply :: "switch_disk \<Rightarrow> fs_step \<Rightarrow> switch_disk" where
  "fs_apply d CreateTemp = d\<lparr>sd_temp := Some Garbage\<rparr>"
| "fs_apply d (WriteTemp r) = d\<lparr>sd_temp := Some (Stored r)\<rparr>"
| "fs_apply d ReplaceState =
     (case sd_temp d of None \<Rightarrow> d | Some x \<Rightarrow> d\<lparr>sd_state := Some x, sd_temp := None\<rparr>)"
| "fs_apply d (AppendAudit r) = d\<lparr>sd_audit := sd_audit d @ [r]\<rparr>"
| "fs_apply d UnlinkTemp = d\<lparr>sd_temp := None\<rparr>"

text \<open>
  \<open>_write\<close>: an activation renames first and logs after, a clear logs first and renames last,
  so that the previously active state stays in force until the clear is on record.
\<close>

definition write_steps :: "kill_switch_record \<Rightarrow> fs_step list" where
  "write_steps r =
     [CreateTemp, WriteTemp r]
     @ (if ks_active r then [ReplaceState, AppendAudit r] else [AppendAudit r, ReplaceState])
     @ [UnlinkTemp]"

definition new_record :: "bool \<Rightarrow> string \<Rightarrow> int \<Rightarrow> string \<Rightarrow> string \<Rightarrow> kill_switch_record" where
  "new_record active rid now actor reason =
     \<lparr>ks_record_id = rid, ks_active = active, ks_changed_ts_ns = now, ks_actor = actor,
      ks_reason = reason\<rparr>"

definition write_switch ::
  "bool \<Rightarrow> string \<Rightarrow> int \<Rightarrow> string \<Rightarrow> string \<Rightarrow> switch_disk \<Rightarrow> switch_disk \<times> kill_switch_record res" where
  "write_switch active rid now actor reason d =
     (let r = new_record active rid now actor reason
      in case kill_switch_record_error r of
           Some m \<Rightarrow> (d, Inl (ValidationError m))
         | None \<Rightarrow> (foldl fs_apply d (write_steps r), Inr r))"

definition activate where "activate = write_switch True"
definition clear where "clear = write_switch False"


section \<open>Lemmas\<close>

lemma run_write_steps:
  "foldl fs_apply d (write_steps r) =
     d\<lparr>sd_state := Some (Stored r), sd_temp := None, sd_audit := sd_audit d @ [r]\<rparr>"
  by (simp add: write_steps_def)

lemma ks_active_new_record [simp]: "ks_active (new_record b rid now actor reason) = b"
  by (simp add: new_record_def)

lemma write_switch_ok:
  "snd (write_switch b rid now actor reason d) = Inr r \<Longrightarrow>
     fst (write_switch b rid now actor reason d)
       = d\<lparr>sd_state := Some (Stored r), sd_temp := None, sd_audit := sd_audit d @ [r]\<rparr>
     \<and> ks_active r = b"
  by (auto simp: write_switch_def Let_def run_write_steps split: option.splits)

lemma write_steps_cases: "n \<le> 1 \<or> n = 2 \<or> n = 3 \<or> n = 4 \<or> 5 \<le> n" for n :: nat
  by arith


section \<open>The contract\<close>

text \<open>
  What a reader of the switch relies on: a call that is accepted decides what is read next,
  a call that is refused changes nothing that is read.
\<close>

locale operator_switch =
  fixes read :: "'d \<Rightarrow> 'r"
    and call :: "'c \<Rightarrow> 'd \<Rightarrow> 'd"
    and asked :: "'c \<Rightarrow> 'r"
    and accepted :: "'r \<Rightarrow> bool"
  assumes accepted_read: "accepted (asked c) \<Longrightarrow> read (call c d) = asked c"
    and refused_read: "\<not> accepted (asked c) \<Longrightarrow> read (call c d) = read d"
begin

lemma run_read:
  "read (fold call cs d) =
     (case filter accepted (map asked cs) of [] \<Rightarrow> read d | rs \<Rightarrow> last rs)"
proof (induction cs rule: rev_induct)
  case (snoc c cs)
  then show ?case
    by (cases "accepted (asked c)") (auto simp: accepted_read refused_read split: list.splits)
qed simp

end

text \<open>The operator's calls, with the record identifier and the clock reading each draws.\<close>

datatype operator_call = Activate string int string string | Clear string int string string

fun switch_call :: "operator_call \<Rightarrow> switch_disk \<Rightarrow> switch_disk \<times> kill_switch_record res" where
  "switch_call (Activate rid now actor reason) = activate rid now actor reason"
| "switch_call (Clear rid now actor reason) = clear rid now actor reason"

text \<open>What a call asks the switch to hold, and the calls one after the other with their results.\<close>

fun asked_record :: "operator_call \<Rightarrow> kill_switch_record" where
  "asked_record (Activate rid now actor reason) =
     \<lparr>ks_record_id = rid, ks_active = True, ks_changed_ts_ns = now, ks_actor = actor, ks_reason = reason\<rparr>"
| "asked_record (Clear rid now actor reason) =
     \<lparr>ks_record_id = rid, ks_active = False, ks_changed_ts_ns = now, ks_actor = actor, ks_reason = reason\<rparr>"

definition record_accepted :: "kill_switch_record \<Rightarrow> bool" where
  "record_accepted r \<longleftrightarrow> kill_switch_record_error r = None"

fun run_calls :: "operator_call list \<Rightarrow> switch_disk \<Rightarrow> switch_disk \<times> kill_switch_record res list" where
  "run_calls [] d = (d, [])"
| "run_calls (c # cs) d =
     (let (d', r) = switch_call c d; (d'', rs) = run_calls cs d' in (d'', r # rs))"

lemma switch_call_result:
  "switch_call c d =
     (if record_accepted (asked_record c)
      then (d\<lparr>sd_state := Some (Stored (asked_record c)), sd_temp := None,
              sd_audit := sd_audit d @ [asked_record c]\<rparr>, Inr (asked_record c))
      else (d, Inl (ValidationError (the (kill_switch_record_error (asked_record c))))))"
  by (cases c)
    (auto simp: activate_def clear_def write_switch_def Let_def run_write_steps new_record_def
      record_accepted_def split: option.splits)

interpretation ks: operator_switch "read_switch now" "\<lambda>c d. fst (switch_call c d)" asked_record record_accepted
  for now
  by unfold_locales (simp_all add: switch_call_result read_switch_def)

lemma run_calls_fold: "fst (run_calls cs d) = fold (\<lambda>c d. fst (switch_call c d)) cs d"
  by (induction cs arbitrary: d) (simp_all add: Let_def case_prod_unfold)

lemma run_calls_audit:
  "sd_audit (fst (run_calls cs d)) = sd_audit d @ filter record_accepted (map asked_record cs)"
  by (induction cs arbitrary: d) (simp_all add: Let_def switch_call_result case_prod_unfold)

lemma run_calls_results:
  "list_all2 (\<lambda>c r. if record_accepted (asked_record c) then r = Inr (asked_record c)
     else \<exists>m. r = Inl (ValidationError m)) cs (snd (run_calls cs d))"
  by (induction cs arbitrary: d) (simp_all add: Let_def switch_call_result case_prod_unfold)

section \<open>Properties\<close>



text \<open>C37: The store refines the history of operator calls. After any sequence of \<open>activate\<close> and \<open>clear\<close> calls the
  switch reads exactly the record that the last accepted call asked for, active for an \<open>activate\<close> and inactive
  for a \<open>clear\<close>, with its actor, reason and time (and what it read before when none was accepted); the
  audit log has grown by the accepted records, each once and in the order of the calls; and every call returns its
  record or, when the record is invalid, raises a validation error and changes nothing.\<close>

theorem kill_switch_last_command_wins:
  "read_switch now (fst (run_calls cs d)) =
     (case filter record_accepted (map asked_record cs) of
        [] \<Rightarrow> read_switch now d
      | rs \<Rightarrow> last rs)
   \<and> sd_audit (fst (run_calls cs d)) = sd_audit d @ filter record_accepted (map asked_record cs)
   \<and> list_all2 (\<lambda>c r. if record_accepted (asked_record c) then r = Inr (asked_record c)
       else (\<exists>m. r = Inl (ValidationError m)) \<and> fst (switch_call c d) = d) cs (snd (run_calls cs d))"
proof (intro conjI)
  show "read_switch now (fst (run_calls cs d)) =
     (case filter record_accepted (map asked_record cs) of [] \<Rightarrow> read_switch now d | rs \<Rightarrow> last rs)"
    unfolding run_calls_fold by (rule ks.run_read)
  show "list_all2 (\<lambda>c r. if record_accepted (asked_record c) then r = Inr (asked_record c)
      else (\<exists>m. r = Inl (ValidationError m)) \<and> fst (switch_call c d) = d) cs (snd (run_calls cs d))"
    by (rule list_all2_mono [OF run_calls_results]) (auto simp: switch_call_result)
qed (rule run_calls_audit)

end
