(* ===== verification/Risk_Authority.thy ===== *)
theory Risk_Authority
  imports Kill_Switch
begin

text \<open>
  The synchronous pre-trade risk authority of \<open>risk/authority.py\<close> with the limits and the
  execution settings it reads from \<open>config/models.py\<close>. The state is the deque of dispatch
  times and the set of consumed decision ids; each call also reads the clock, the kill
  switch, the number of unresolved commands and a fresh decision id, which are arguments.
  The hashes of canonical JSON and the HMAC belong to the Python standard library's C code
  and are parameters (\<open>ae_intent_sha256\<close>, \<open>ae_snapshot_sha256\<close>, \<open>ae_limits_sha256\<close>,
  \<open>ae_sign\<close>); a property that needs collision freedom says so. The lock is not modelled:
  a call is one atomic step.
\<close>

section \<open>Configuration\<close>

record risk_limits =
  rl_daily_loss_fraction :: dec
  rl_max_drawdown_fraction :: dec
  rl_max_leverage :: dec
  rl_max_order_size_base :: dec
  rl_max_position_size_base :: dec
  rl_max_order_notional_usd :: dec
  rl_max_inventory_notional_usd :: dec
  rl_max_open_orders :: int
  rl_max_orders_per_second :: int
  rl_max_cancels_per_second :: int
  rl_public_data_stale_after_ms :: int
  rl_private_data_stale_after_ms :: int

definition risk_limits_error :: "risk_limits \<Rightarrow> string option" where
  "risk_limits_error l = first_error
     [(\<not> (0 < rl_daily_loss_fraction l \<and> rl_daily_loss_fraction l \<le> 2 / 100), ''daily_loss_fraction''),
      (\<not> (0 < rl_max_drawdown_fraction l \<and> rl_max_drawdown_fraction l \<le> 5 / 100), ''max_drawdown_fraction''),
      (\<not> (0 < rl_max_leverage l \<and> rl_max_leverage l \<le> 5), ''max_leverage''),
      (\<not> (0 < rl_max_order_size_base l \<and> rl_max_order_size_base l \<le> 1), ''max_order_size_base''),
      (\<not> (0 < rl_max_position_size_base l \<and> rl_max_position_size_base l \<le> 2), ''max_position_size_base''),
      (\<not> (0 < rl_max_order_notional_usd l \<and> rl_max_order_notional_usd l \<le> 10000), ''max_order_notional_usd''),
      (\<not> (0 < rl_max_inventory_notional_usd l \<and> rl_max_inventory_notional_usd l \<le> 50000),
       ''max_inventory_notional_usd''),
      (\<not> (1 \<le> rl_max_open_orders l \<and> rl_max_open_orders l \<le> 20), ''max_open_orders''),
      (\<not> (1 \<le> rl_max_orders_per_second l \<and> rl_max_orders_per_second l \<le> 10), ''max_orders_per_second''),
      (\<not> (1 \<le> rl_max_cancels_per_second l \<and> rl_max_cancels_per_second l \<le> 20), ''max_cancels_per_second''),
      (\<not> (500 \<le> rl_public_data_stale_after_ms l \<and> rl_public_data_stale_after_ms l \<le> 10000),
       ''public_data_stale_after_ms''),
      (\<not> (1000 \<le> rl_private_data_stale_after_ms l \<and> rl_private_data_stale_after_ms l \<le> 30000),
       ''private_data_stale_after_ms''),
      (rl_max_inventory_notional_usd l < rl_max_order_notional_usd l,
       ''max order notional cannot exceed max inventory notional''),
      (rl_max_position_size_base l < rl_max_order_size_base l,
       ''max order size cannot exceed max position size'')]"

record execution_config =
  ec_enabled :: bool
  ec_max_inflight_requests :: int
  ec_reconcile_on_startup :: bool
  ec_unknown_order_timeout_ms :: int
  ec_approval_ttl_ms :: int
  ec_heartbeat_interval_ms :: int
  ec_adapter_http_timeout_seconds :: int
  ec_adapter_ws_post_timeout_seconds :: int
  ec_normalize_prices :: bool
  ec_include_builder_attribution :: bool

definition execution_config_error :: "execution_config \<Rightarrow> string option" where
  "execution_config_error c = first_error
     [(\<not> (1 \<le> ec_max_inflight_requests c \<and> ec_max_inflight_requests c \<le> 100), ''max_inflight_requests''),
      (\<not> (1000 \<le> ec_unknown_order_timeout_ms c \<and> ec_unknown_order_timeout_ms c \<le> 60000),
       ''unknown_order_timeout_ms''),
      (\<not> (50 \<le> ec_approval_ttl_ms c \<and> ec_approval_ttl_ms c \<le> 1000), ''approval_ttl_ms''),
      (\<not> (250 \<le> ec_heartbeat_interval_ms c \<and> ec_heartbeat_interval_ms c \<le> 5000), ''heartbeat_interval_ms''),
      (\<not> (2 \<le> ec_adapter_http_timeout_seconds c \<and> ec_adapter_http_timeout_seconds c \<le> 60),
       ''adapter_http_timeout_seconds''),
      (\<not> (2 \<le> ec_adapter_ws_post_timeout_seconds c \<and> ec_adapter_ws_post_timeout_seconds c \<le> 60),
       ''adapter_ws_post_timeout_seconds'')]"

section \<open>State and environment\<close>

text \<open>The mapping that is signed: the decision's identity, bindings, state and validity.\<close>

record approval_payload =
  ap_decision_id :: string
  ap_intent_sha256 :: string
  ap_snapshot_sha256 :: string
  ap_limits_sha256 :: string
  ap_state :: risk_state
  ap_issued_ts_ns :: int
  ap_expires_ts_ns :: int

record authority_env =
  ae_limits :: risk_limits
  ae_execution :: execution_config
  ae_intent_sha256 :: "order_intent \<Rightarrow> string"
  ae_snapshot_sha256 :: "risk_snapshot \<Rightarrow> string"
  ae_limits_sha256 :: "risk_limits \<Rightarrow> string"
  ae_sign :: "approval_payload \<Rightarrow> string"

text \<open>What a call reads from outside: clock, kill switch, unresolved command count.\<close>

record risk_world =
  rw_now :: int
  rw_kill_active :: bool
  rw_inflight :: int

record authority =
  au_submissions_ns :: "int list"
  au_consumed :: "string set"

definition new_authority :: authority where
  "new_authority = \<lparr>au_submissions_ns = [], au_consumed = {}\<rparr>"

section \<open>Operations\<close>

text \<open>\<open>_state\<close>: the risk state with its reasons; the first matching guard wins.\<close>

definition daily_loss :: "risk_snapshot \<Rightarrow> dec" where
  "daily_loss s = max 0 (ddiv (dsub (rs_day_start_equity_usd s) (rs_account_equity_usd s))
                              (rs_day_start_equity_usd s))"

definition drawdown :: "risk_snapshot \<Rightarrow> dec" where
  "drawdown s = max 0 (ddiv (dsub (rs_high_water_equity_usd s) (rs_account_equity_usd s))
                            (rs_high_water_equity_usd s))"

definition stale_reasons :: "risk_limits \<Rightarrow> risk_snapshot \<Rightarrow> int \<Rightarrow> risk_reason list" where
  "stale_reasons l s now =
     (if rl_public_data_stale_after_ms l * 1000000 < now - rs_public_data_ts_ns s
      then [PUBLIC_DATA_STALE] else [])
   @ (if rl_private_data_stale_after_ms l * 1000000 < now - rs_private_data_ts_ns s
      then [PRIVATE_DATA_STALE] else [])"

definition economic_reasons :: "risk_limits \<Rightarrow> risk_snapshot \<Rightarrow> risk_reason list" where
  "economic_reasons l s =
     (if rl_daily_loss_fraction l \<le> daily_loss s then [DAILY_LOSS_LIMIT] else [])
   @ (if rl_max_drawdown_fraction l \<le> drawdown s then [DRAWDOWN_LIMIT] else [])
   @ (if rl_max_leverage l < rs_leverage s then [LEVERAGE_LIMIT] else [])"

definition assess_state ::
  "risk_limits \<Rightarrow> bool \<Rightarrow> risk_snapshot \<Rightarrow> int \<Rightarrow> risk_state \<times> risk_reason list" where
  "assess_state l kill_active s now =
     (if kill_active \<or> rs_operator_kill s then (HALTED, [OPERATOR_KILL])
      else if \<not> rs_deployment_approved s then (HALTED, [DEPLOYMENT_APPROVAL_INVALID])
      else if (case rs_approved_capital_limit_usd s of None \<Rightarrow> False
               | Some c \<Rightarrow> c < rs_account_equity_usd s) then (HALTED, [CAPITAL_LIMIT])
      else if \<not> rs_exchange_connected s then (CANCEL_ONLY, [EXCHANGE_DISCONNECTED])
      else if \<not> rs_reconciliation_complete s then (CANCEL_ONLY, [RECONCILIATION_INCOMPLETE])
      else if now < rs_snapshot_ts_ns s \<or> now < rs_public_data_ts_ns s \<or> now < rs_private_data_ts_ns s
        then (CANCEL_ONLY, [INVALID_TIMESTAMP])
      else if stale_reasons l s now \<noteq> [] then (CANCEL_ONLY, stale_reasons l s now)
      else if rs_account_equity_usd s \<le> 0 \<or> rs_day_start_equity_usd s \<le> 0
              \<or> rs_high_water_equity_usd s \<le> 0 \<or> rs_leverage s < 0
        then (HALTED, [INVALID_ACCOUNT_STATE])
      else if rs_flatten_requested s then (FLATTENING, [FLATTEN_REQUESTED])
      else if economic_reasons l s \<noteq> [] then (REDUCE_ONLY, economic_reasons l s)
      else (ACTIVE, []))"

text \<open>\<open>_rate_limited\<close>: expired dispatch times leave the front of the deque, then it is full or not.\<close>

definition expire_submissions :: "int \<Rightarrow> authority \<Rightarrow> authority" where
  "expire_submissions now a =
     a\<lparr>au_submissions_ns := dropWhile (\<lambda>t. t \<le> now - 1000000000) (au_submissions_ns a)\<rparr>"

definition rate_limited :: "risk_limits \<Rightarrow> int \<Rightarrow> authority \<Rightarrow> authority \<times> bool" where
  "rate_limited l now a =
     (let a' = expire_submissions now a
      in (a', rl_max_orders_per_second l \<le> int (length (au_submissions_ns a'))))"

text \<open>The order-local figures of \<open>evaluate\<close>.\<close>

definition signed_quantity :: "order_intent \<Rightarrow> dec" where
  "signed_quantity i = dmul (oi_quantity_base i) (if oi_side i = BUY then 1 else - 1)"

definition position_reducing :: "order_intent \<Rightarrow> risk_snapshot \<Rightarrow> bool" where
  "position_reducing i s \<longleftrightarrow>
     dabs (dadd (rs_position_base s) (signed_quantity i)) < dabs (rs_position_base s)"

definition order_notional :: "order_intent \<Rightarrow> risk_snapshot \<Rightarrow> dec" where
  "order_notional i s = dmul (oi_quantity_base i) (py_or_else (oi_limit_price i) (rs_mark_price s))"

definition worst_long :: "order_intent \<Rightarrow> risk_snapshot \<Rightarrow> dec" where
  "worst_long i s =
     (let w = dadd (rs_position_base s) (rs_pending_buy_base s)
      in if oi_side i = BUY then dadd w (oi_quantity_base i) else w)"

definition worst_short :: "order_intent \<Rightarrow> risk_snapshot \<Rightarrow> dec" where
  "worst_short i s =
     (let w = dsub (rs_position_base s) (rs_pending_sell_base s)
      in if oi_side i = BUY then w else dsub w (oi_quantity_base i))"

definition projected_base :: "order_intent \<Rightarrow> risk_snapshot \<Rightarrow> dec" where
  "projected_base i s = max (dabs (worst_long i s)) (dabs (worst_short i s))"

definition projected_notional :: "order_intent \<Rightarrow> risk_snapshot \<Rightarrow> dec" where
  "projected_notional i s = dmul (projected_base i s) (rs_mark_price s)"

text \<open>The checks of \<open>evaluate\<close> that apply to every order, in their order.\<close>

definition order_reasons ::
  "authority_env \<Rightarrow> risk_world \<Rightarrow> order_intent \<Rightarrow> risk_snapshot \<Rightarrow> risk_reason list" where
  "order_reasons env w i s =
     (if rw_now w < oi_created_ts_ns i then [INVALID_TIMESTAMP]
      else if ec_unknown_order_timeout_ms (ae_execution env) * 1000000 < rw_now w - oi_created_ts_ns i
        then [INTENT_TOO_OLD] else [])
   @ (if rl_max_order_size_base (ae_limits env) < oi_quantity_base i then [ORDER_SIZE_LIMIT] else [])
   @ (if rl_max_order_notional_usd (ae_limits env) < order_notional i s then [ORDER_NOTIONAL_LIMIT] else [])
   @ (if oi_reduce_only i \<and> \<not> position_reducing i s then [NOT_POSITION_REDUCING] else [])
   @ (if ec_max_inflight_requests (ae_execution env) \<le> rw_inflight w then [INFLIGHT_REQUEST_LIMIT] else [])"

text \<open>The exposure checks, skipped for reduce-only orders; \<open>limited\<close> is the rate verdict.\<close>

definition exposure_reasons ::
  "risk_limits \<Rightarrow> bool \<Rightarrow> order_intent \<Rightarrow> risk_snapshot \<Rightarrow> risk_reason list" where
  "exposure_reasons l limited i s =
     (if rl_max_position_size_base l < projected_base i s then [POSITION_LIMIT] else [])
   @ (if rl_max_inventory_notional_usd l < projected_notional i s then [INVENTORY_LIMIT] else [])
   @ (if rl_max_leverage l < ddiv (projected_notional i s) (rs_account_equity_usd s)
      then [LEVERAGE_LIMIT] else [])
   @ (if rl_max_open_orders l \<le> rs_open_order_count s then [OPEN_ORDER_LIMIT] else [])
   @ (if limited then [ORDER_RATE_LIMIT] else [])"

definition state_denials ::
  "risk_state \<Rightarrow> risk_reason list \<Rightarrow> order_intent \<Rightarrow> risk_snapshot \<Rightarrow> risk_reason list" where
  "state_denials st reasons i s =
     (if st = CANCEL_ONLY \<or> st = HALTED then reasons
      else if st = REDUCE_ONLY \<or> st = FLATTENING then
        (if \<not> oi_reduce_only i then reasons @ [REDUCE_ONLY_REQUIRED]
         else if \<not> position_reducing i s then reasons @ [NOT_POSITION_REDUCING]
         else [])
      else [])"

definition decision_payload :: "risk_decision \<Rightarrow> approval_payload" where
  "decision_payload d =
     \<lparr>ap_decision_id = rd_decision_id d, ap_intent_sha256 = rd_intent_sha256 d,
      ap_snapshot_sha256 = rd_snapshot_sha256 d, ap_limits_sha256 = rd_limits_sha256 d,
      ap_state = rd_state d, ap_issued_ts_ns = rd_issued_ts_ns d,
      ap_expires_ts_ns = rd_expires_ts_ns d\<rparr>"

definition evaluate ::
  "authority_env \<Rightarrow> risk_world \<Rightarrow> string \<Rightarrow> authority \<Rightarrow> order_intent \<Rightarrow> risk_snapshot
     \<Rightarrow> authority \<times> risk_decision" where
  "evaluate env w decision_id a i s =
     (let now = rw_now w;
          (state, state_reasons) = assess_state (ae_limits env) (rw_kill_active w) s now;
          (a', limited) = (if oi_reduce_only i then (a, False) else rate_limited (ae_limits env) now a);
          reasons = py_fromkeys
            (order_reasons env w i s
             @ (if oi_reduce_only i then [] else exposure_reasons (ae_limits env) limited i s)
             @ state_denials state state_reasons i s);
          allowed = (reasons = []);
          unsigned =
            \<lparr>rd_decision_id = decision_id, rd_intent_sha256 = ae_intent_sha256 env i,
             rd_snapshot_sha256 = ae_snapshot_sha256 env s,
             rd_limits_sha256 = ae_limits_sha256 env (ae_limits env), rd_state = state,
             rd_allowed = allowed, rd_reasons = (if allowed then [APPROVED] else reasons),
             rd_issued_ts_ns = now,
             rd_expires_ts_ns = now + ec_approval_ttl_ms (ae_execution env) * 1000000,
             rd_approval_signature = None\<rparr>
      in (a', unsigned\<lparr>rd_approval_signature :=
                (if allowed then Some (ae_sign env (decision_payload unsigned)) else None)\<rparr>))"

text \<open>\<open>consume\<close>: the guards in their order; only the last block changes the state.\<close>

definition consume ::
  "authority_env \<Rightarrow> risk_world \<Rightarrow> authority \<Rightarrow> risk_decision \<Rightarrow> order_intent \<Rightarrow> risk_snapshot
     \<Rightarrow> authority \<times> unit res" where
  "consume env w a d i s =
     (let now = rw_now w in
      if \<not> rd_allowed d \<or> rd_approval_signature d = None
        then (a, Inl (ApprovalError ''risk decision is not approved''))
      else if rd_expires_ts_ns d < now then (a, Inl (ApprovalError ''risk approval has expired''))
      else if fst (assess_state (ae_limits env) (rw_kill_active w) s now) \<noteq> rd_state d
        then (a, Inl (ApprovalError ''risk state changed before dispatch''))
      else if ec_max_inflight_requests (ae_execution env) \<le> rw_inflight w
        then (a, Inl (ApprovalError ''inflight request limit reached before dispatch''))
      else if rd_intent_sha256 d \<noteq> ae_intent_sha256 env i \<or> rd_snapshot_sha256 d \<noteq> ae_snapshot_sha256 env s
        then (a, Inl (ApprovalError ''risk approval does not match intent and snapshot''))
      else if rd_limits_sha256 d \<noteq> ae_limits_sha256 env (ae_limits env)
        then (a, Inl (ApprovalError ''risk approval was issued for different limits''))
      else if rd_approval_signature d \<noteq> Some (ae_sign env (decision_payload d))
        then (a, Inl (ApprovalError ''risk approval signature is invalid''))
      else if rd_decision_id d \<in> au_consumed a
        then (a, Inl (ApprovalError ''risk approval has already been consumed''))
      else
        let (a', limited) = (if oi_reduce_only i then (a, False) else rate_limited (ae_limits env) now a)
        in if limited then (a', Inl (ApprovalError ''order rate limit reached before dispatch''))
           else (a'\<lparr>au_consumed := insert (rd_decision_id d) (au_consumed a'),
                    au_submissions_ns := au_submissions_ns a' @ [now]\<rparr>, Inr ()))"

section \<open>Lemmas\<close>

named_theorems risk_simps \<open>the operations of the authority, unfolded\<close>

lemma assess_state_reasons:
  "snd (assess_state l k s now) = [] \<longleftrightarrow> fst (assess_state l k s now) = ACTIVE"
  by (simp add: assess_state_def)

lemma assess_state_kill [risk_simps]:
  "k \<or> rs_operator_kill s \<Longrightarrow> assess_state l k s now = (HALTED, [OPERATOR_KILL])"
  by (simp add: assess_state_def)

definition state_permits :: "risk_state \<Rightarrow> order_intent \<Rightarrow> risk_snapshot \<Rightarrow> bool" where
  "state_permits st i s \<longleftrightarrow>
     (case st of ACTIVE \<Rightarrow> True | REDUCE_ONLY \<Rightarrow> oi_reduce_only i \<and> position_reducing i s
      | FLATTENING \<Rightarrow> oi_reduce_only i \<and> position_reducing i s
      | CANCEL_ONLY \<Rightarrow> False | HALTED \<Rightarrow> False)"

lemma state_denials_Nil_iff:
  "state_denials (fst (assess_state l k s now)) (snd (assess_state l k s now)) i s' = []
     \<longleftrightarrow> state_permits (fst (assess_state l k s now)) i s'"
  using assess_state_reasons [of l k s now]
  by (cases "fst (assess_state l k s now)") (auto simp: state_denials_def state_permits_def)

lemma order_reasons_Nil_iff:
  "order_reasons env w i s = [] \<longleftrightarrow>
     oi_created_ts_ns i \<le> rw_now w
   \<and> rw_now w - oi_created_ts_ns i \<le> ec_unknown_order_timeout_ms (ae_execution env) * 1000000
   \<and> oi_quantity_base i \<le> rl_max_order_size_base (ae_limits env)
   \<and> order_notional i s \<le> rl_max_order_notional_usd (ae_limits env)
   \<and> (oi_reduce_only i \<longrightarrow> position_reducing i s)
   \<and> rw_inflight w < ec_max_inflight_requests (ae_execution env)"
  by (auto simp: order_reasons_def)

lemma exposure_reasons_Nil_iff:
  "exposure_reasons l limited i s = [] \<longleftrightarrow>
     projected_base i s \<le> rl_max_position_size_base l
   \<and> projected_notional i s \<le> rl_max_inventory_notional_usd l
   \<and> ddiv (projected_notional i s) (rs_account_equity_usd s) \<le> rl_max_leverage l
   \<and> rs_open_order_count s < rl_max_open_orders l
   \<and> \<not> limited"
  by (auto simp: exposure_reasons_def)

lemma rate_limited_iff [risk_simps]:
  "snd (rate_limited l now a) \<longleftrightarrow>
     rl_max_orders_per_second l
       \<le> int (length (dropWhile (\<lambda>t. t \<le> now - 1000000000) (au_submissions_ns a)))"
  "fst (rate_limited l now a) = expire_submissions now a"
  by (simp_all add: rate_limited_def Let_def expire_submissions_def)

lemma evaluate_fields:
  fixes env w nonce a i s
  defines "d \<equiv> snd (evaluate env w nonce a i s)"
  shows "rd_decision_id d = nonce" "rd_intent_sha256 d = ae_intent_sha256 env i"
    "rd_snapshot_sha256 d = ae_snapshot_sha256 env s"
    "rd_limits_sha256 d = ae_limits_sha256 env (ae_limits env)"
    "rd_state d = fst (assess_state (ae_limits env) (rw_kill_active w) s (rw_now w))"
    "rd_issued_ts_ns d = rw_now w"
    "rd_expires_ts_ns d = rw_now w + ec_approval_ttl_ms (ae_execution env) * 1000000"
    "rd_approval_signature d =
       (if rd_allowed d then Some (ae_sign env (decision_payload d)) else None)"
  by (simp_all add: d_def evaluate_def Let_def decision_payload_def split: prod.splits)

lemma evaluate_allowed:
  "rd_allowed (snd (evaluate env w nonce a i s)) \<longleftrightarrow>
     order_reasons env w i s = []
   \<and> (oi_reduce_only i
      \<or> exposure_reasons (ae_limits env) (snd (rate_limited (ae_limits env) (rw_now w) a)) i s = [])
   \<and> state_permits (fst (assess_state (ae_limits env) (rw_kill_active w) s (rw_now w))) i s"
  unfolding state_denials_Nil_iff [symmetric]
  by (auto simp: evaluate_def Let_def split: prod.splits)

lemma APPROVED_not_a_denial:
  "APPROVED \<notin> set (order_reasons env w i s)"
  "APPROVED \<notin> set (exposure_reasons l b i s)"
  "APPROVED \<notin> set (snd (assess_state l k s now))"
  by (simp_all add: order_reasons_def exposure_reasons_def assess_state_def stale_reasons_def
      economic_reasons_def)

lemma APPROVED_not_state_denial:
  "APPROVED \<notin> set rs \<Longrightarrow> APPROVED \<notin> set (state_denials st rs i s)"
  by (simp add: state_denials_def)

definition denials ::
  "authority_env \<Rightarrow> risk_world \<Rightarrow> authority \<Rightarrow> order_intent \<Rightarrow> risk_snapshot \<Rightarrow> risk_reason list" where
  "denials env w a i s = py_fromkeys
     (order_reasons env w i s
      @ (if oi_reduce_only i then []
         else exposure_reasons (ae_limits env) (snd (rate_limited (ae_limits env) (rw_now w) a)) i s)
      @ state_denials (fst (assess_state (ae_limits env) (rw_kill_active w) s (rw_now w)))
          (snd (assess_state (ae_limits env) (rw_kill_active w) s (rw_now w))) i s)"

lemma evaluate_reasons_denials:
  "rd_reasons (snd (evaluate env w nonce a i s)) =
     (if denials env w a i s = [] then [APPROVED] else denials env w a i s)"
  "rd_allowed (snd (evaluate env w nonce a i s)) \<longleftrightarrow> denials env w a i s = []"
  unfolding evaluate_def Let_def denials_def by (simp_all split: prod.splits)

lemma APPROVED_not_in_denials: "APPROVED \<notin> set (denials env w a i s)"
  by (simp add: denials_def APPROVED_not_a_denial APPROVED_not_state_denial)

lemma evaluate_reasons:
  "rd_allowed (snd (evaluate env w nonce a i s)) \<longleftrightarrow>
     rd_reasons (snd (evaluate env w nonce a i s)) = [APPROVED]"
  "rd_reasons (snd (evaluate env w nonce a i s)) \<noteq> []"
  using APPROVED_not_in_denials [of env w a i s] by (auto simp: evaluate_reasons_denials)

text \<open>What a successful \<open>consume\<close> has established, and what it leaves.\<close>

lemma consume_ok_iff:
  "snd (consume env w a d i s) = Inr u \<longleftrightarrow>
     rd_allowed d \<and> rw_now w \<le> rd_expires_ts_ns d
   \<and> fst (assess_state (ae_limits env) (rw_kill_active w) s (rw_now w)) = rd_state d
   \<and> rw_inflight w < ec_max_inflight_requests (ae_execution env)
   \<and> rd_intent_sha256 d = ae_intent_sha256 env i \<and> rd_snapshot_sha256 d = ae_snapshot_sha256 env s
   \<and> rd_limits_sha256 d = ae_limits_sha256 env (ae_limits env)
   \<and> rd_approval_signature d = Some (ae_sign env (decision_payload d))
   \<and> rd_decision_id d \<notin> au_consumed a
   \<and> (oi_reduce_only i \<or> \<not> snd (rate_limited (ae_limits env) (rw_now w) a))"
  by (auto simp: consume_def Let_def split: prod.splits)

lemma consume_state:
  "fst (consume env w a d i s) =
     (case snd (consume env w a d i s) of
        Inr _ \<Rightarrow>
          (let a' = (if oi_reduce_only i then a else expire_submissions (rw_now w) a)
           in a'\<lparr>au_consumed := insert (rd_decision_id d) (au_consumed a'),
                 au_submissions_ns := au_submissions_ns a' @ [rw_now w]\<rparr>)
      | Inl (ApprovalError m) \<Rightarrow>
          (if m = ''order rate limit reached before dispatch'' then expire_submissions (rw_now w) a else a)
      | Inl _ \<Rightarrow> a)"
  by (auto simp: consume_def Let_def rate_limited_def split: prod.splits)

section \<open>Runs\<close>

text \<open>
  A run of the authority: calls interleave evaluations and dispatches, the clock does not go
  back (each call carries the time since the last one), and every successful dispatch is
  logged with its decision id, its time and its reduce-only flag.
\<close>

record authority_run =
  ar_clock :: int
  ar_authority :: authority
  ar_log :: "(string \<times> int \<times> bool) list"

datatype authority_call =
    EvaluateCall nat bool int string order_intent risk_snapshot
  | ConsumeCall nat bool int risk_decision order_intent risk_snapshot

definition start_run :: "int \<Rightarrow> authority_run" where
  "start_run t = \<lparr>ar_clock = t, ar_authority = new_authority, ar_log = []\<rparr>"

fun authority_step :: "authority_env \<Rightarrow> authority_run \<Rightarrow> authority_call \<Rightarrow> authority_run" where
  "authority_step env r (EvaluateCall elapsed kill inflight nonce i s) =
     (let now = ar_clock r + int elapsed;
          w = \<lparr>rw_now = now, rw_kill_active = kill, rw_inflight = inflight\<rparr>
      in r\<lparr>ar_clock := now, ar_authority := fst (evaluate env w nonce (ar_authority r) i s)\<rparr>)"
| "authority_step env r (ConsumeCall elapsed kill inflight d i s) =
     (let now = ar_clock r + int elapsed;
          w = \<lparr>rw_now = now, rw_kill_active = kill, rw_inflight = inflight\<rparr>;
          (a', result) = consume env w (ar_authority r) d i s
      in r\<lparr>ar_clock := now, ar_authority := a',
           ar_log := ar_log r @
             (if is_ok result then [(rd_decision_id d, now, oi_reduce_only i)] else [])\<rparr>)"

text \<open>The number of logged dispatches later than \<open>cutoff\<close>.\<close>

definition recent :: "int \<Rightarrow> (string \<times> int \<times> bool) list \<Rightarrow> int" where
  "recent cutoff ds = int (length (filter (\<lambda>(_, t, _). cutoff < t) ds))"

definition rate_respected :: "risk_limits \<Rightarrow> (string \<times> int \<times> bool) list \<Rightarrow> bool" where
  "rate_respected l ds \<longleftrightarrow>
     (\<forall>pre x t post. ds = pre @ (x, t, False) # post \<longrightarrow>
        recent (t - 1000000000) pre + 1 \<le> rl_max_orders_per_second l)"

definition run_inv :: "authority_env \<Rightarrow> authority_run \<Rightarrow> bool" where
  "run_inv env r \<longleftrightarrow>
     au_consumed (ar_authority r) = fst ` set (ar_log r)
   \<and> distinct (map fst (ar_log r))
   \<and> (\<exists>old. map (fst \<circ> snd) (ar_log r) = old @ au_submissions_ns (ar_authority r)
         \<and> (\<forall>t \<in> set old. t \<le> ar_clock r - 1000000000))
   \<and> rate_respected (ae_limits env) (ar_log r)"

definition run_extends :: "authority_run \<Rightarrow> authority_run \<Rightarrow> bool" where
  "run_extends r r' \<longleftrightarrow> ar_clock r \<le> ar_clock r' \<and> (\<exists>new. ar_log r' = ar_log r @ new)"

lemma rate_respected_snoc:
  "rate_respected l (ds @ [(x, t, ro)]) \<longleftrightarrow>
     rate_respected l ds
     \<and> (ro \<or> recent (t - 1000000000) ds + 1 \<le> rl_max_orders_per_second l)"
  (is "?L \<longleftrightarrow> ?R")
proof
  assume L: ?L
  have "rate_respected l ds" using L unfolding rate_respected_def by (metis append_Cons append_assoc)
  then show ?R using L unfolding rate_respected_def by (cases ro) auto
next
  assume R: ?R
  show ?L unfolding rate_respected_def
  proof (intro allI impI)
    fix pre y u post assume eq: "ds @ [(x, t, ro)] = pre @ (y, u, False) # post"
    show "recent (u - 1000000000) pre + 1 \<le> rl_max_orders_per_second l"
    proof (cases post rule: rev_cases)
      case Nil
      with eq R show ?thesis by auto
    next
      case (snoc post' z)
      with eq have "ds = pre @ (y, u, False) # post'" by simp
      with R show ?thesis unfolding rate_respected_def by blast
    qed
  qed
qed

text \<open>Expiring keeps every dispatch time of the last second in the deque.\<close>

lemma expire_keeps_recent:
  assumes "\<exists>old. ts = old @ au_submissions_ns a \<and> (\<forall>t \<in> set old. t \<le> clock - 1000000000)"
    and "clock \<le> now"
  shows "\<exists>old. ts = old @ au_submissions_ns (expire_submissions now a)
           \<and> (\<forall>t \<in> set old. t \<le> now - 1000000000)"
proof -
  let ?P = "\<lambda>t. t \<le> now - 1000000000"
  obtain old where old: "ts = old @ au_submissions_ns a" "\<forall>t \<in> set old. t \<le> clock - 1000000000"
    using assms(1) by blast
  have "ts = (old @ takeWhile ?P (au_submissions_ns a)) @ dropWhile ?P (au_submissions_ns a)"
    using old by simp
  moreover have "\<forall>t \<in> set (old @ takeWhile ?P (au_submissions_ns a)). t \<le> now - 1000000000"
    using old(2) assms(2) set_takeWhileD by fastforce
  ultimately show ?thesis
    unfolding expire_submissions_def by (intro exI [of _ "old @ takeWhile ?P (au_submissions_ns a)"]) simp
qed

lemma recent_le_deque:
  assumes "map (fst \<circ> snd) ds = old @ subs" "\<forall>t \<in> set old. t \<le> cutoff"
  shows "recent cutoff ds \<le> int (length subs)"
proof -
  have "length (filter (\<lambda>(_, t, _). cutoff < t) ds) = length (filter (\<lambda>t. cutoff < t) (old @ subs))"
    unfolding assms(1) [symmetric] by (simp add: filter_map comp_def case_prod_unfold)
  also have "\<dots> = length (filter (\<lambda>t. cutoff < t) subs)"
    using assms(2) by (auto simp: filter_empty_conv)
  finally show ?thesis by (simp add: recent_def)
qed

lemma expire_consumed [simp]: "au_consumed (expire_submissions now a) = au_consumed a"
  by (simp add: expire_submissions_def)

lemma fst_evaluate:
  "fst (evaluate env w nonce a i s) = (if oi_reduce_only i then a else expire_submissions (rw_now w) a)"
  by (simp add: evaluate_def Let_def rate_limited_def split: prod.splits)

lemma fst_consume_cases:
  assumes "consume env w a d i s = (a', r)"
  shows "is_ok r \<and> rd_decision_id d \<notin> au_consumed a
           \<and> (oi_reduce_only i \<or> \<not> snd (rate_limited (ae_limits env) (rw_now w) a))
           \<and> (let b = (if oi_reduce_only i then a else expire_submissions (rw_now w) a)
              in a' = b\<lparr>au_consumed := insert (rd_decision_id d) (au_consumed b),
                       au_submissions_ns := au_submissions_ns b @ [rw_now w]\<rparr>)
         \<or> \<not> is_ok r \<and> (a' = a \<or> a' = expire_submissions (rw_now w) a)"
proof (cases r)
  case (Inl e)
  then show ?thesis using assms by (auto simp: consume_def Let_def rate_limited_def split: if_splits prod.splits)
next
  case (Inr u)
  then have "snd (consume env w a d i s) = Inr u" using assms by simp
  with Inr assms consume_state [of env w a d i s] show ?thesis
    unfolding consume_ok_iff by (auto simp: Let_def)
qed

lemma run_inv_keep:
  assumes "run_inv env r" "a' = ar_authority r \<or> a' = expire_submissions (ar_clock r + int k) (ar_authority r)"
  shows "run_inv env (r\<lparr>ar_clock := ar_clock r + int k, ar_authority := a'\<rparr>)"
proof -
  let ?now = "ar_clock r + int k" and ?ts = "map (fst \<circ> snd) (ar_log r)"
  have old: "\<exists>old. ?ts = old @ au_submissions_ns (ar_authority r) \<and> (\<forall>t \<in> set old. t \<le> ar_clock r - 1000000000)"
    using assms(1) by (simp add: run_inv_def)
  then have "\<exists>old. ?ts = old @ au_submissions_ns (ar_authority r) \<and> (\<forall>t \<in> set old. t \<le> ?now - 1000000000)"
    by force
  moreover have "\<exists>old. ?ts = old @ au_submissions_ns (expire_submissions ?now (ar_authority r))
      \<and> (\<forall>t \<in> set old. t \<le> ?now - 1000000000)"
    by (rule expire_keeps_recent [OF old]) simp
  ultimately have "\<exists>old. ?ts = old @ au_submissions_ns a' \<and> (\<forall>t \<in> set old. t \<le> ?now - 1000000000)"
    using assms(2) by metis
  moreover have "au_consumed a' = au_consumed (ar_authority r)" using assms(2) by auto
  ultimately show ?thesis using assms(1) by (simp add: run_inv_def)
qed

lemma run_inv_dispatch:
  assumes inv: "run_inv env r" and fresh: "x \<notin> au_consumed (ar_authority r)"
    and b: "b = (if ro then ar_authority r else expire_submissions now (ar_authority r))"
    and now: "now = ar_clock r + int k"
    and slot: "ro \<or> \<not> snd (rate_limited (ae_limits env) now (ar_authority r))"
  shows "run_inv env (r\<lparr>ar_clock := now,
           ar_authority := b\<lparr>au_consumed := insert x (au_consumed b),
                             au_submissions_ns := au_submissions_ns b @ [now]\<rparr>,
           ar_log := ar_log r @ [(x, now, ro)]\<rparr>)"
proof -
  have "run_inv env (r\<lparr>ar_clock := now, ar_authority := b\<rparr>)"
    unfolding now using run_inv_keep [OF inv, of b k] b now by auto
  then obtain old where old: "map (fst \<circ> snd) (ar_log r) = old @ au_submissions_ns b"
      "\<forall>t \<in> set old. t \<le> now - 1000000000"
    and rest: "au_consumed b = fst ` set (ar_log r)" "distinct (map fst (ar_log r))"
      "rate_respected (ae_limits env) (ar_log r)"
    unfolding run_inv_def by auto
  have new: "map (fst \<circ> snd) (ar_log r @ [(x, now, ro)]) = old @ au_submissions_ns b @ [now]"
    using old by simp
  have "ro \<or> recent (now - 1000000000) (ar_log r) + 1 \<le> rl_max_orders_per_second (ae_limits env)"
    using slot recent_le_deque [OF old] b
    by (cases ro) (auto simp: rate_limited_iff expire_submissions_def)
  with rest have "rate_respected (ae_limits env) (ar_log r @ [(x, now, ro)])"
    by (simp add: rate_respected_snoc)
  moreover have "x \<notin> fst ` set (ar_log r)" using fresh inv by (simp add: run_inv_def)
  ultimately show ?thesis using rest new old(2)
    unfolding run_inv_def by (auto simp: image_iff)
qed

lemma authority_step_inv: "run_inv env r \<Longrightarrow> run_inv env (authority_step env r call)"
proof (cases call)
  case (EvaluateCall k kill inflight nonce i s)
  assume inv: "run_inv env r"
  then show ?thesis unfolding EvaluateCall authority_step.simps Let_def fst_evaluate
    by (intro run_inv_keep) auto
next
  case (ConsumeCall k kill inflight d i s)
  assume inv: "run_inv env r"
  let ?w = "\<lparr>rw_now = ar_clock r + int k, rw_kill_active = kill, rw_inflight = inflight\<rparr>"
  obtain a' res where c: "consume env ?w (ar_authority r) d i s = (a', res)" by force
  show ?thesis
  proof (cases "is_ok res")
    case True
    with fst_consume_cases [OF c] show ?thesis
      unfolding ConsumeCall authority_step.simps Let_def c
      using run_inv_dispatch [OF inv] by (auto simp: Let_def)
  next
    case False
    with fst_consume_cases [OF c] show ?thesis
      unfolding ConsumeCall authority_step.simps Let_def c
      using run_inv_keep [OF inv, of a' k] by (auto simp: Let_def)
  qed
qed

lemma authority_step_extends: "run_extends r (authority_step env r call)"
  by (cases call) (auto simp: run_extends_def Let_def split: prod.splits)

lemma run_extends_refl: "run_extends r r"
  by (simp add: run_extends_def)

lemma run_extends_trans: "run_extends r s \<Longrightarrow> run_extends s t \<Longrightarrow> run_extends r t"
  unfolding run_extends_def by (metis append_assoc order_trans)

interpretation au: step_system "authority_step env" "run_inv env" run_extends
  for env :: authority_env
  by unfold_locales
    (auto intro: authority_step_inv authority_step_extends run_extends_trans simp: run_extends_refl)

lemma run_inv_start: "run_inv env (start_run t)"
  by (simp add: run_inv_def start_run_def new_authority_def rate_respected_def)

section \<open>Example values\<close>

text \<open>The default limits and execution settings of \<open>config/models.py\<close>, and a healthy account.\<close>

definition default_risk_limits :: risk_limits where
  "default_risk_limits =
     \<lparr>rl_daily_loss_fraction = 5 / 1000, rl_max_drawdown_fraction = 1 / 100, rl_max_leverage = 1,
      rl_max_order_size_base = 5 / 1000, rl_max_position_size_base = 2 / 100,
      rl_max_order_notional_usd = 250, rl_max_inventory_notional_usd = 1000,
      rl_max_open_orders = 4, rl_max_orders_per_second = 5, rl_max_cancels_per_second = 10,
      rl_public_data_stale_after_ms = 1500, rl_private_data_stale_after_ms = 3000\<rparr>"

definition default_execution_config :: execution_config where
  "default_execution_config =
     \<lparr>ec_enabled = False, ec_max_inflight_requests = 20, ec_reconcile_on_startup = True,
      ec_unknown_order_timeout_ms = 5000, ec_approval_ttl_ms = 250, ec_heartbeat_interval_ms = 1000,
      ec_adapter_http_timeout_seconds = 10, ec_adapter_ws_post_timeout_seconds = 10,
      ec_normalize_prices = True, ec_include_builder_attribution = False\<rparr>"

definition example_env :: authority_env where
  "example_env =
     \<lparr>ae_limits = default_risk_limits, ae_execution = default_execution_config,
      ae_intent_sha256 = (\<lambda>i. replicate 64 (if oi_side i = BUY then CHR ''a'' else CHR ''b'')),
      ae_snapshot_sha256 = (\<lambda>s. replicate 64 CHR ''c''),
      ae_limits_sha256 = (\<lambda>l. replicate 64 CHR ''d''),
      ae_sign = (\<lambda>p. replicate 64 CHR ''e'')\<rparr>"

definition example_snapshot :: risk_snapshot where
  "example_snapshot =
     \<lparr>rs_snapshot_ts_ns = 1000, rs_public_data_ts_ns = 900, rs_private_data_ts_ns = 900,
      rs_mark_price = 40000, rs_position_base = 1 / 1000, rs_pending_buy_base = 0,
      rs_pending_sell_base = 0, rs_account_equity_usd = 1000, rs_day_start_equity_usd = 1000,
      rs_high_water_equity_usd = 1000, rs_leverage = 1 / 25, rs_open_order_count = 0,
      rs_exchange_connected = True, rs_reconciliation_complete = True, rs_deployment_approved = True,
      rs_approved_capital_limit_usd = None, rs_operator_kill = False, rs_flatten_requested = False\<rparr>"

definition example_intent :: "order_side \<Rightarrow> bool \<Rightarrow> order_intent" where
  "example_intent side reduce =
     \<lparr>oi_intent_id = ''i1'', oi_strategy_id = ''s1'', oi_side = side, oi_kind = LIMIT,
      oi_quantity_base = 1 / 1000, oi_limit_price = Some 40000, oi_time_in_force = GTC,
      oi_post_only = True, oi_reduce_only = reduce, oi_created_ts_ns = 1000,
      oi_rationale = Rationale ''example''\<rparr>"

definition example_world :: "int \<Rightarrow> bool \<Rightarrow> risk_world" where
  "example_world now kill = \<lparr>rw_now = now, rw_kill_active = kill, rw_inflight = 0\<rparr>"

lemma example_values_ok:
  "risk_limits_error default_risk_limits = None"
  "execution_config_error default_execution_config = None"
  "risk_snapshot_ok example_snapshot"
  "order_intent_ok (example_intent side reduce)"
  by (simp_all add: risk_limits_error_def execution_config_error_def default_risk_limits_def
      default_execution_config_def ok_simps example_snapshot_def example_intent_def
      is_identifier_def)

lemma example_allowed:
  "rd_allowed (snd (evaluate example_env (example_world 2000 False) ''d1'' new_authority
     (example_intent BUY False) example_snapshot))"
  by code_simp

lemma example_reduce_allowed:
  "rd_allowed (snd (evaluate example_env (example_world 2000 False) ''d1'' new_authority
     (example_intent SELL True) example_snapshot))"
  by code_simp

section \<open>Properties\<close>

text \<open>C7: An evaluation approves an order exactly when every guard of the code holds: the intent
  is neither from the future nor older than the unknown-order timeout, its size and notional
  are within the order limits, a reduce-only order reduces the position, the inflight budget
  is free, an order that may add exposure keeps the worst-case position, its notional and
  leverage within limits and finds a free order slot and rate slot, and the risk state
  permits it (active, or reduce-only/flattening with a reducing reduce-only order).\<close>

theorem evaluate_approves_iff:
  "rd_allowed (snd (evaluate env w nonce a i s)) \<longleftrightarrow>
     oi_created_ts_ns i \<le> rw_now w
   \<and> rw_now w - oi_created_ts_ns i \<le> ec_unknown_order_timeout_ms (ae_execution env) * 1000000
   \<and> oi_quantity_base i \<le> rl_max_order_size_base (ae_limits env)
   \<and> order_notional i s \<le> rl_max_order_notional_usd (ae_limits env)
   \<and> rw_inflight w < ec_max_inflight_requests (ae_execution env)
   \<and> (if oi_reduce_only i then position_reducing i s
      else projected_base i s \<le> rl_max_position_size_base (ae_limits env)
         \<and> projected_notional i s \<le> rl_max_inventory_notional_usd (ae_limits env)
         \<and> ddiv (projected_notional i s) (rs_account_equity_usd s) \<le> rl_max_leverage (ae_limits env)
         \<and> rs_open_order_count s < rl_max_open_orders (ae_limits env)
         \<and> \<not> snd (rate_limited (ae_limits env) (rw_now w) a))
   \<and> state_permits (fst (assess_state (ae_limits env) (rw_kill_active w) s (rw_now w))) i s"
  by (auto simp: evaluate_allowed order_reasons_Nil_iff exposure_reasons_Nil_iff)

text \<open>C3: Whatever part of the resting orders and of an approved order fills, the position stays where the authority meant it.
  For quantities on a decimal grid whose sums the 28 digits hold exactly: an approved order that is not reduce-only
  keeps the net position within the position limit, whatever part of the resting buys, of the resting sells and
  of the order itself fills; an approved reduce-only order, which is approved also beyond the limit, never
  leaves a larger position than it found, whatever part of it fills.\<close>

theorem approved_exposure_bounded:
  assumes ok: "rd_allowed (snd (evaluate env w nonce a i s))"
    and grid: "on_grid n (rs_position_base s)" "on_grid n (rs_pending_buy_base s)"
      "on_grid n (rs_pending_sell_base s)" "on_grid n (oi_quantity_base i)"
    and size: "(\<bar>rs_position_base s\<bar> + rs_pending_buy_base s + rs_pending_sell_base s
                + oi_quantity_base i) * 10 ^ n \<le> 10 ^ 28"
    and bought: "0 \<le> b" "b \<le> rs_pending_buy_base s"
    and sold: "0 \<le> x" "x \<le> rs_pending_sell_base s"
    and filled: "0 \<le> f" "f \<le> oi_quantity_base i"
  shows "(\<not> oi_reduce_only i \<longrightarrow>
            \<bar>rs_position_base s + b - x + (if oi_side i = BUY then f else - f)\<bar>
              \<le> rl_max_position_size_base (ae_limits env))
       \<and> (oi_reduce_only i \<longrightarrow>
            \<bar>rs_position_base s + (if oi_side i = BUY then f else - f)\<bar> \<le> \<bar>rs_position_base s\<bar>)"
proof (intro conjI impI)
  let ?p = "rs_position_base s" and ?pb = "rs_pending_buy_base s" and ?ps = "rs_pending_sell_base s"
    and ?q = "oi_quantity_base i" and ?L = "rl_max_position_size_base (ae_limits env)"
  have small: "\<bar>y\<bar> * 10 ^ n \<le> 10 ^ 28" if "\<bar>y\<bar> \<le> \<bar>?p\<bar> + ?pb + ?ps + ?q" for y
    by (rule order_trans [OF mult_right_mono size]) (use that in simp_all)
  {
    assume exposure: "\<not> oi_reduce_only i"
    have wl: "worst_long i s = ?p + ?pb + (if oi_side i = BUY then ?q else 0)"
      using grid bought sold filled small
      by (simp add: worst_long_def Let_def dadd_exact [of n] on_grid_add)
    have ws: "worst_short i s = ?p - ?ps - (if oi_side i = BUY then 0 else ?q)"
      using grid bought sold filled small
      by (simp add: worst_short_def Let_def dsub_exact [of n] on_grid_diff)
    have "on_grid n (worst_long i s)" "on_grid n (worst_short i s)"
      unfolding wl ws using grid bought sold filled small
      by (auto intro!: on_grid_add on_grid_diff)
    then have "is_dec (worst_long i s)" "is_dec (worst_short i s)"
      by (auto intro: on_grid_is_dec)
    then have "\<bar>worst_long i s\<bar> \<le> ?L" "\<bar>worst_short i s\<bar> \<le> ?L"
      using ok exposure by (simp_all add: evaluate_allowed exposure_reasons_Nil_iff projected_base_def dabs_dec)
    then show "\<bar>?p + b - x + (if oi_side i = BUY then f else - f)\<bar> \<le> ?L"
      unfolding wl ws using bought sold filled by (auto split: if_splits)
  }
  assume reduce: "oi_reduce_only i"
  show "\<bar>?p + (if oi_side i = BUY then f else - f)\<bar> \<le> \<bar>?p\<bar>"
  proof (cases "?q = 0")
    case True
    then show ?thesis using filled by simp
  next
    case False
    have q: "signed_quantity i = (if oi_side i = BUY then ?q else - ?q)"
      using on_grid_is_dec [OF grid(4)] small [of ?q] bought sold filled
      by (auto simp: signed_quantity_def dmul_def is_dec_def rnd28_uminus)
    have "position_reducing i s" using ok reduce by (simp add: evaluate_allowed order_reasons_Nil_iff)
    then have "\<bar>dadd ?p (signed_quantity i)\<bar> < \<bar>?p\<bar>"
      unfolding position_reducing_def by (rule dabs_less_imp)
    moreover have "dadd ?p (signed_quantity i) = ?p + signed_quantity i"
    proof (rule dadd_exact [of n])
      show "on_grid n ?p" "on_grid n (signed_quantity i)" using grid by (simp_all add: q on_grid_def)
      show "\<bar>?p + signed_quantity i\<bar> * 10 ^ n \<le> 10 ^ 28"
        using bought sold filled by (intro small) (auto simp: q split: if_splits)
    qed
    ultimately show ?thesis using filled by (auto simp: q split: if_splits)
  qed
qed

theorem approved_exposure_bounded_witness:
  "\<bar>(1 / 1000 :: rat) + 0 - 0 + 1 / 2000\<bar> \<le> rl_max_position_size_base (ae_limits example_env)"
  using approved_exposure_bounded [OF example_allowed, of 4 0 0 "1 / 2000"]
  by (simp add: example_intent_def example_snapshot_def on_grid_def)

text \<open>An approved reduce-only order opposes a non-zero position and strictly lowers its
  size: the order side is the opposite of the position's sign and the decimal sum of
  position and signed quantity is strictly smaller in absolute value.\<close>

theorem approved_reduce_only_shrinks:
  assumes "rd_allowed (snd (evaluate env w nonce a i s))" "oi_reduce_only i" "0 < oi_quantity_base i"
  shows "rs_position_base s \<noteq> 0
       \<and> (oi_side i = SELL \<longleftrightarrow> 0 < rs_position_base s)
       \<and> \<bar>dadd (rs_position_base s) (signed_quantity i)\<bar> < \<bar>rs_position_base s\<bar>"
proof -
  let ?p = "rs_position_base s" and ?q = "signed_quantity i"
  have "position_reducing i s"
    using assms by (simp add: evaluate_allowed order_reasons_Nil_iff)
  then have less: "\<bar>dadd ?p ?q\<bar> < \<bar>?p\<bar>"
    unfolding position_reducing_def by (rule dabs_less_imp)
  have q: "0 < ?q \<longleftrightarrow> oi_side i = BUY" "?q < 0 \<longleftrightarrow> oi_side i = SELL"
    using assms(3) by (cases "oi_side i"; simp add: signed_quantity_def dec_simps)+
  have same: False if "0 < ?p \<and> 0 < ?q \<or> ?p < 0 \<and> ?q < 0"
  proof -
    have "\<bar>?p\<bar> \<le> \<bar>?p + ?q\<bar>" using that by auto
    then have "dabs ?p \<le> dabs (?p + ?q)" by (rule dabs_mono)
    also have "\<dots> = dabs (dadd ?p ?q)" by (simp add: dabs_eq_abs dadd_def)
    finally show False using \<open>position_reducing i s\<close> by (simp add: position_reducing_def)
  qed
  show ?thesis using less same q by (cases "oi_side i") (auto simp: not_less, force+)
qed

theorem approved_reduce_only_shrinks_witness:
  "\<bar>dadd (rs_position_base example_snapshot) (signed_quantity (example_intent SELL True))\<bar>
     < \<bar>rs_position_base example_snapshot\<bar>"
  using approved_reduce_only_shrinks [OF example_reduce_allowed]
  by (auto simp: example_intent_def)

text \<open>No approval survives the operator kill: whatever the authority approved, for whatever
  state it was in, nothing is dispatched while the kill switch or the snapshot's kill flag
  is active.\<close>

theorem no_dispatch_while_killed:
  assumes "d = snd (evaluate env w0 nonce a0 i0 s0)"
    and "rw_kill_active w \<or> rs_operator_kill s"
  shows "\<not> is_ok (snd (consume env w a d i s))"
proof
  assume "is_ok (snd (consume env w a d i s))"
  then have ok: "rd_allowed d" "fst (assess_state (ae_limits env) (rw_kill_active w) s (rw_now w)) = rd_state d"
    by (auto simp: is_ok_iff consume_ok_iff)
  have "rd_state d = HALTED" using ok(2) assms(2) by (simp add: assess_state_kill)
  with ok(1) assms(1) show False
    by (auto simp: evaluate_allowed evaluate_fields state_permits_def)
qed

theorem no_dispatch_while_killed_witness:
  "\<not> is_ok (snd (consume example_env (example_world 2000 True) new_authority
     (snd (evaluate example_env (example_world 2000 False) ''d1'' new_authority
       (example_intent BUY False) example_snapshot)) (example_intent BUY False) example_snapshot))"
  by (rule no_dispatch_while_killed [OF refl]) (simp add: example_world_def)

text \<open>Approvals are single-use: in every run of the authority, however evaluations and
  dispatch attempts are interleaved, no decision id is dispatched twice, and the consumed
  set is exactly the set of dispatched ids.\<close>

theorem approvals_single_use:
  "distinct (map fst (ar_log (foldl (authority_step env) (start_run t0) calls)))
 \<and> au_consumed (ar_authority (foldl (authority_step env) (start_run t0) calls))
     = fst ` set (ar_log (foldl (authority_step env) (start_run t0) calls))"
  using au.run_inv [OF run_inv_start] by (simp add: run_inv_def)

text \<open>The dispatch rate is bounded: in every run with a clock that does not go back, a
  dispatch that is not reduce-only at time t follows fewer than max_orders_per_second
  dispatches (of any kind) in the second before t.\<close>

theorem dispatch_rate_bounded:
  assumes "ar_log (foldl (authority_step env) (start_run t0) calls) = pre @ (x, t, False) # post"
  shows "recent (t - 1000000000) pre + 1 \<le> rl_max_orders_per_second (ae_limits env)"
proof -
  have "run_inv env (foldl (authority_step env) (start_run t0) calls)"
    by (rule au.run_inv [OF run_inv_start])
  with assms show ?thesis by (auto simp: run_inv_def rate_respected_def)
qed

definition example_call :: "string \<Rightarrow> authority_call" where
  "example_call nonce = ConsumeCall 0 False 0
     (snd (evaluate example_env (example_world 2000 False) nonce new_authority
       (example_intent BUY False) example_snapshot)) (example_intent BUY False) example_snapshot"

theorem dispatch_rate_bounded_witness:
  "recent (2000 - 1000000000) [] + 1 \<le> rl_max_orders_per_second (ae_limits example_env)"
proof -
  have "ar_log (foldl (authority_step example_env) (start_run 2000) [example_call ''d1''])
      = [] @ (''d1'', 2000, False) # []"
    by code_simp
  then show ?thesis by (rule dispatch_rate_bounded)
qed

text \<open>One call of \<open>evaluate\<close> with its arguments, and the decision it issued.\<close>

record risk_evaluation =
  xv_world :: risk_world
  xv_nonce :: string
  xv_authority :: authority
  xv_intent :: order_intent
  xv_snapshot :: risk_snapshot

definition issued :: "authority_env \<Rightarrow> risk_evaluation \<Rightarrow> risk_decision" where
  "issued env q = snd (evaluate env (xv_world q) (xv_nonce q) (xv_authority q) (xv_intent q) (xv_snapshot q))"

text \<open>C25: Only what was approved is dispatched. Let \<open>qs\<close> be the evaluations made with the signing key, and a decision be
  presented to \<open>consume\<close> whose signature is one of those they issued (signatures cannot be forged), where neither the
  signature nor the intent and snapshot hashes take the same value on the presented and on a different evaluated
  object. If it is accepted, then it is the decision of one of these evaluations, changed at most in its list of reasons,
  which is not signed; that evaluation approved it, for exactly the intent and the snapshot that are dispatched; the
  dispatch is not later than the time-to-live after it, in the risk state it was approved in; and the identity of the
  decision had not been consumed and is consumed now.\<close>

theorem approval_binds:
  assumes dispatched: "snd (consume env w a d i s) = Inr ()"
    and unforgeable: "\<exists>q \<in> set qs. rd_approval_signature d = rd_approval_signature (issued env q)"
    and sign: "\<forall>q \<in> set qs. ae_sign env (decision_payload d) = ae_sign env (decision_payload (issued env q))
        \<longrightarrow> decision_payload d = decision_payload (issued env q)"
    and intent: "\<forall>q \<in> set qs. ae_intent_sha256 env i = ae_intent_sha256 env (xv_intent q) \<longrightarrow> i = xv_intent q"
    and snapshot: "\<forall>q \<in> set qs. ae_snapshot_sha256 env s = ae_snapshot_sha256 env (xv_snapshot q) \<longrightarrow> s = xv_snapshot q"
  shows "\<exists>q \<in> set qs. i = xv_intent q \<and> s = xv_snapshot q \<and> d = (issued env q)\<lparr>rd_reasons := rd_reasons d\<rparr>
      \<and> rd_allowed (snd (evaluate env (xv_world q) (xv_nonce q) (xv_authority q) i s))
      \<and> rw_now w \<le> rw_now (xv_world q) + ec_approval_ttl_ms (ae_execution env) * 1000000
      \<and> fst (assess_state (ae_limits env) (rw_kill_active w) s (rw_now w))
          = fst (assess_state (ae_limits env) (rw_kill_active (xv_world q)) s (rw_now (xv_world q)))
      \<and> xv_nonce q \<notin> au_consumed a \<and> xv_nonce q \<in> au_consumed (fst (consume env w a d i s))"
proof -
  have ok: "rd_allowed d" "rw_now w \<le> rd_expires_ts_ns d"
    "fst (assess_state (ae_limits env) (rw_kill_active w) s (rw_now w)) = rd_state d"
    "rd_intent_sha256 d = ae_intent_sha256 env i" "rd_snapshot_sha256 d = ae_snapshot_sha256 env s"
    "rd_approval_signature d = Some (ae_sign env (decision_payload d))" "rd_decision_id d \<notin> au_consumed a"
    using dispatched by (simp_all add: consume_ok_iff)
  from unforgeable obtain q where q: "q \<in> set qs" "rd_approval_signature d = rd_approval_signature (issued env q)" by blast
  note fields = evaluate_fields [of env "xv_world q" "xv_nonce q" "xv_authority q" "xv_intent q" "xv_snapshot q",
      folded issued_def]
  have allowed: "rd_allowed (issued env q)" "ae_sign env (decision_payload d) = ae_sign env (decision_payload (issued env q))"
    using q(2) ok(6) fields(8) by (auto split: if_splits)
  then have p: "decision_payload d = decision_payload (issued env q)" using sign q(1) by blast
  then have i: "i = xv_intent q" and s: "s = xv_snapshot q"
    using intent snapshot q(1) ok(4,5) fields(2,3) by (simp_all add: decision_payload_def)
  have same: "d = (issued env q)\<lparr>rd_reasons := rd_reasons d\<rparr>"
    using p ok(1) allowed(1) q(2) by (auto simp: decision_payload_def intro!: risk_decision.equality)
  have id: "rd_decision_id d = xv_nonce q" "rd_expires_ts_ns d = rw_now (xv_world q) + ec_approval_ttl_ms (ae_execution env) * 1000000"
    "rd_state d = fst (assess_state (ae_limits env) (rw_kill_active (xv_world q)) s (rw_now (xv_world q)))"
    using p fields(1,5,7) s by (simp_all add: decision_payload_def)
  have "xv_nonce q \<in> au_consumed (fst (consume env w a d i s))"
    by (simp add: consume_state dispatched Let_def id(1))
  then show ?thesis
    using q(1) i s same allowed(1) ok(2,3,7) id by (intro bexI [of _ q]) (simp_all add: issued_def)
qed

text \<open>An environment whose hashes single out the values of the example.\<close>

definition example_decision :: "authority_env \<Rightarrow> risk_decision" where
  "example_decision env = snd (evaluate env (example_world 2000 False) ''d1'' new_authority
     (example_intent BUY False) example_snapshot)"

definition binding_env :: authority_env where
  "binding_env = example_env
     \<lparr>ae_intent_sha256 := (\<lambda>j. replicate 64 (if j = example_intent BUY False then CHR ''a'' else CHR ''b'')),
      ae_snapshot_sha256 := (\<lambda>t. replicate 64 (if t = example_snapshot then CHR ''c'' else CHR ''b'')),
      ae_sign := (\<lambda>p. replicate 64 (if p = decision_payload (example_decision example_env)
                                     then CHR ''e'' else CHR ''f''))\<rparr>"

lemma binding_env_values:
  "rd_allowed (example_decision binding_env)"
  "decision_payload (example_decision binding_env) = decision_payload (example_decision example_env)"
proof -
  have same: "ae_limits binding_env = ae_limits example_env" "ae_execution binding_env = ae_execution example_env"
    by (simp_all add: binding_env_def)
  show "rd_allowed (example_decision binding_env)"
    using example_allowed unfolding example_decision_def
    by (simp add: evaluate_allowed order_reasons_Nil_iff exposure_reasons_Nil_iff same)
  show "decision_payload (example_decision binding_env) = decision_payload (example_decision example_env)"
    unfolding example_decision_def decision_payload_def evaluate_fields same
    by (simp add: binding_env_def example_env_def example_intent_def)
qed

lemma binding_env_injective:
  "ae_sign binding_env p = ae_sign binding_env (decision_payload (example_decision example_env))
     \<Longrightarrow> p = decision_payload (example_decision example_env)"
  "ae_intent_sha256 binding_env j = ae_intent_sha256 binding_env (example_intent BUY False)
     \<Longrightarrow> j = example_intent BUY False"
  "ae_snapshot_sha256 binding_env t = ae_snapshot_sha256 binding_env example_snapshot
     \<Longrightarrow> t = example_snapshot"
  by (simp_all add: binding_env_def split: if_splits)

theorem approval_binds_witness:
  "rw_now (example_world 2500 False) \<le> rw_now (example_world 2000 False)
     + ec_approval_ttl_ms (ae_execution binding_env) * 1000000"
proof -
  let ?d = "example_decision binding_env"
  have st: "fst (assess_state (ae_limits binding_env) (rw_kill_active (example_world 2500 False))
      example_snapshot (rw_now (example_world 2500 False))) = rd_state ?d"
    unfolding example_decision_def evaluate_fields by code_simp
  have "snd (consume binding_env (example_world 2500 False) new_authority ?d
      (example_intent BUY False) example_snapshot) = Inr ()"
    using binding_env_values(1) st unfolding consume_ok_iff
    by (simp add: example_decision_def evaluate_fields rate_limited_iff new_authority_def)
      (simp add: binding_env_def example_env_def example_world_def default_execution_config_def
        default_risk_limits_def)
  then have ok: "snd (consume binding_env (example_world 2500 False) new_authority ?d
      (example_intent BUY False) example_snapshot) = Inr ()" by simp
  let ?q = "\<lparr>xv_world = example_world 2000 False, xv_nonce = ''d1'', xv_authority = new_authority,
    xv_intent = example_intent BUY False, xv_snapshot = example_snapshot\<rparr>"
  have q: "issued binding_env ?q = ?d" by (simp add: issued_def example_decision_def)
  have sign: "ae_sign binding_env p = ae_sign binding_env (decision_payload ?d) \<Longrightarrow> p = decision_payload ?d" for p
    unfolding binding_env_values(2) by (rule binding_env_injective(1))
  show ?thesis
    using approval_binds [of binding_env "example_world 2500 False" new_authority ?d "example_intent BUY False"
        example_snapshot "[?q]"] ok q sign binding_env_injective(2,3) by simp
qed

text \<open>A fresh approval dispatches once: an approval issued for an intent and a snapshot is
  accepted for them until its expiry while the risk state, the inflight budget and the rate
  still permit, and from then on every further attempt to consume it is refused.\<close>

theorem approval_dispatches_once:
  assumes d: "d = snd (evaluate env w0 nonce a0 i s)" "rd_allowed d"
    and t: "rw_now w \<le> rw_now w0 + ec_approval_ttl_ms (ae_execution env) * 1000000"
    and st: "fst (assess_state (ae_limits env) (rw_kill_active w) s (rw_now w)) = rd_state d"
    and inflight: "rw_inflight w < ec_max_inflight_requests (ae_execution env)"
    and fresh: "nonce \<notin> au_consumed a"
    and rate: "oi_reduce_only i \<or> \<not> snd (rate_limited (ae_limits env) (rw_now w) a)"
  shows "snd (consume env w a d i s) = Inr ()
       \<and> \<not> is_ok (snd (consume env w' (fst (consume env w a d i s)) d i' s'))"
proof -
  have ok: "snd (consume env w a d i s) = Inr ()"
    unfolding consume_ok_iff using assms
    by (simp add: evaluate_fields split: if_splits)
  then have "nonce \<in> au_consumed (fst (consume env w a d i s))"
    using d by (simp add: consume_state evaluate_fields Let_def)
  then show ?thesis using ok d by (auto simp: is_ok_iff consume_ok_iff evaluate_fields)
qed

theorem approval_dispatches_once_witness:
  "snd (consume example_env (example_world 2500 False) new_authority
     (snd (evaluate example_env (example_world 2000 False) ''d1'' new_authority
       (example_intent BUY False) example_snapshot)) (example_intent BUY False) example_snapshot) = Inr ()"
proof -
  let ?d = "snd (evaluate example_env (example_world 2000 False) ''d1'' new_authority
       (example_intent BUY False) example_snapshot)"
  have "fst (assess_state (ae_limits example_env) (rw_kill_active (example_world 2500 False))
      example_snapshot (rw_now (example_world 2500 False))) = rd_state ?d"
    by code_simp
  then show ?thesis
    using approval_dispatches_once [OF refl example_allowed, of "example_world 2500 False" new_authority]
    by (simp add: example_world_def example_env_def default_execution_config_def new_authority_def
        rate_limited_iff default_risk_limits_def)
qed

text \<open>Every decision the authority issues passes the validation of the decision contract,
  so issuing never raises: when the hashes are hexadecimal digests, the id is a valid
  identifier and the clock and the time-to-live are not negative.\<close>

theorem evaluate_issues_valid_decision:
  assumes "is_identifier nonce" "0 \<le> rw_now w" "0 \<le> ec_approval_ttl_ms (ae_execution env)"
    and "is_sha256_hex (ae_intent_sha256 env i)" "is_sha256_hex (ae_snapshot_sha256 env s)"
    and "is_sha256_hex (ae_limits_sha256 env (ae_limits env))" "\<And>p. is_sha256_hex (ae_sign env p)"
  shows "risk_decision_error (snd (evaluate env w nonce a i s)) = None"
  using assms evaluate_reasons(2) [of env w nonce a i s]
  by (auto simp: risk_decision_error_def first_error_None_iff evaluate_fields)

theorem evaluate_issues_valid_decision_witness:
  "risk_decision_error (snd (evaluate example_env (example_world 2000 False) ''d1'' new_authority
     (example_intent BUY False) example_snapshot)) = None"
proof (rule evaluate_issues_valid_decision)
  show "is_identifier ''d1''" by code_simp
  show "0 \<le> rw_now (example_world 2000 False)" by (simp add: example_world_def)
  show "0 \<le> ec_approval_ttl_ms (ae_execution example_env)"
    by (simp add: example_env_def default_execution_config_def)
  show "is_sha256_hex (ae_intent_sha256 example_env (example_intent BUY False))"
    "is_sha256_hex (ae_snapshot_sha256 example_env example_snapshot)"
    "is_sha256_hex (ae_limits_sha256 example_env (ae_limits example_env))"
    by code_simp+
  show "is_sha256_hex (ae_sign example_env p)" for p
    by (simp add: example_env_def is_sha256_hex_def lower_hex_def list_all_iff)
qed

end
