(* ===== verification/Execution_Journal.thy ===== *)
theory Execution_Journal
  imports Domain
begin

text \<open>
  The durable execution journal of \<open>execution/journal.py\<close>. The two SQLite tables are lists in
  insertion order; the constraints the program relies on (primary key, the two unique
  columns, the foreign key) are checks that raise \<open>IntegrityError\<close>, and a transaction that
  raises leaves both tables as they were. A \<open>NULL\<close> client order id never violates
  uniqueness. The filled quantity is stored as text and read back; the model keeps the
  number. The locale \<open>intent_store\<close> states what the gateway uses of a journal.
\<close>

section \<open>Transition table\<close>

definition terminal_states :: "execution_state set" where
  "terminal_states = {FILLED, CANCELED, REJECTED, DENIED}"

definition allowed_transitions :: "execution_state \<Rightarrow> execution_state set" where
  "allowed_transitions s =
     (case s of
        PENDING_SUBMIT \<Rightarrow> {SUBMITTED, DENIED, UNKNOWN}
      | SUBMITTED \<Rightarrow> {ACCEPTED, PARTIALLY_FILLED, FILLED, CANCELED, REJECTED, DENIED, UNKNOWN}
      | ACCEPTED \<Rightarrow> {PENDING_MODIFY, PARTIALLY_FILLED, FILLED, PENDING_CANCEL, CANCELED, REJECTED, UNKNOWN}
      | PARTIALLY_FILLED \<Rightarrow> {PENDING_MODIFY, PARTIALLY_FILLED, FILLED, PENDING_CANCEL, CANCELED, UNKNOWN}
      | PENDING_CANCEL \<Rightarrow> {CANCELED, FILLED, PARTIALLY_FILLED, ACCEPTED, UNKNOWN}
      | PENDING_MODIFY \<Rightarrow> {ACCEPTED, PARTIALLY_FILLED, FILLED, CANCELED, REJECTED, UNKNOWN}
      | UNKNOWN \<Rightarrow> {ACCEPTED, PARTIALLY_FILLED, FILLED, PENDING_CANCEL, CANCELED, REJECTED, UNKNOWN,
                   PENDING_MODIFY}
      | _ \<Rightarrow> {})"

definition unresolved_states :: "execution_state set" where
  "unresolved_states = {PENDING_SUBMIT, SUBMITTED, PENDING_MODIFY, PENDING_CANCEL, UNKNOWN}"

definition stale_states :: "execution_state set" where
  "stale_states = {PENDING_SUBMIT, SUBMITTED, PENDING_MODIFY, PENDING_CANCEL}"

section \<open>State\<close>

record order_row =
  ow_intent_id :: string
  ow_client_order_id :: "string option"
  ow_venue_order_id :: "string option"
  ow_state :: execution_state
  ow_updated_ts_ns :: int
  ow_filled_quantity_base :: dec

record journal =
  jn_orders :: "order_row list"
  jn_events :: "journal_event list"

definition new_journal :: journal where
  "new_journal = \<lparr>jn_orders = [], jn_events = []\<rparr>"

section \<open>Operations\<close>

text \<open>\<open>SELECT ... WHERE intent_id = ?\<close> and \<open>WHERE client_order_id = ?\<close>.\<close>

definition current :: "journal \<Rightarrow> string \<Rightarrow> order_row option" where
  "current j intent = find (\<lambda>r. ow_intent_id r = intent) (jn_orders j)"

definition by_client_order_id :: "journal \<Rightarrow> string \<Rightarrow> order_row option" where
  "by_client_order_id j cid = find (\<lambda>r. ow_client_order_id r = Some cid) (jn_orders j)"

text \<open>\<open>_insert_event\<close>: \<open>event_id\<close> is unique, \<open>intent_id\<close> references an order.\<close>

definition insert_event :: "journal \<Rightarrow> journal_event \<Rightarrow> journal res" where
  "insert_event j e =
     (if je_event_id e \<in> je_event_id ` set (jn_events j) then Inl (IntegrityError ''events.event_id'')
      else if je_intent_id e \<notin> ow_intent_id ` set (jn_orders j) then Inl (IntegrityError ''events.intent_id'')
      else Inr (j\<lparr>jn_events := jn_events j @ [e]\<rparr>))"

definition client_id_taken :: "journal \<Rightarrow> string \<Rightarrow> string option \<Rightarrow> bool" where
  "client_id_taken j intent cid \<longleftrightarrow>
     cid \<noteq> None \<and> (\<exists>r \<in> set (jn_orders j). ow_intent_id r \<noteq> intent \<and> ow_client_order_id r = cid)"

definition begin_order :: "journal \<Rightarrow> journal_event \<Rightarrow> journal res" where
  "begin_order j e =
     (if je_state e \<noteq> PENDING_SUBMIT
      then Inl (InvalidTransitionError ''new intents must begin in pending_submit'')
      else if current j (je_intent_id e) \<noteq> None then Inl (DuplicateIntentError (je_intent_id e))
      else if client_id_taken j (je_intent_id e) (je_client_order_id e)
        then Inl (IntegrityError ''orders.client_order_id'')
      else insert_event
        (j\<lparr>jn_orders := jn_orders j @
            [\<lparr>ow_intent_id = je_intent_id e, ow_client_order_id = je_client_order_id e,
              ow_venue_order_id = je_venue_order_id e, ow_state = je_state e,
              ow_updated_ts_ns = je_event_ts_ns e,
              ow_filled_quantity_base = je_filled_quantity_base e\<rparr>]\<rparr>) e)"

definition coalesce :: "'a option \<Rightarrow> 'a option \<Rightarrow> 'a option" where
  "coalesce a b = (case a of None \<Rightarrow> b | Some x \<Rightarrow> Some x)"

definition apply_event :: "journal_event \<Rightarrow> order_row \<Rightarrow> order_row" where
  "apply_event e r = r
     \<lparr>ow_client_order_id := coalesce (je_client_order_id e) (ow_client_order_id r),
      ow_venue_order_id := coalesce (je_venue_order_id e) (ow_venue_order_id r),
      ow_state := je_state e, ow_updated_ts_ns := je_event_ts_ns e,
      ow_filled_quantity_base := je_filled_quantity_base e\<rparr>"

definition update_row :: "journal \<Rightarrow> string \<Rightarrow> (order_row \<Rightarrow> order_row) \<Rightarrow> journal" where
  "update_row j intent f =
     j\<lparr>jn_orders := map (\<lambda>r. if ow_intent_id r = intent then f r else r) (jn_orders j)\<rparr>"

definition append_event :: "journal \<Rightarrow> journal_event \<Rightarrow> journal res" where
  "append_event j e =
     (case current j (je_intent_id e) of
        None \<Rightarrow> Inl (InvalidTransitionError ''unknown intent'')
      | Some row \<Rightarrow>
          if je_state e \<noteq> ow_state row \<and> je_state e \<notin> allowed_transitions (ow_state row)
          then Inl (InvalidTransitionError ''invalid execution transition'')
          else if client_id_taken j (je_intent_id e) (je_client_order_id e)
          then Inl (InvalidTransitionError ''client order ID is bound to another intent'')
          else insert_event (update_row j (je_intent_id e) (apply_event e)) e)"

definition unresolved_command_count :: "journal \<Rightarrow> int" where
  "unresolved_command_count j =
     int (length (filter (\<lambda>r. ow_state r \<in> unresolved_states) (jn_orders j)))"

definition unknown_command_count :: "journal \<Rightarrow> int" where
  "unknown_command_count j = int (length (filter (\<lambda>r. ow_state r = UNKNOWN) (jn_orders j)))"

text \<open>
  \<open>mark_stale_submissions_unknown\<close>: one transaction; the factory builds the event of a row.
\<close>

definition mark_unknown :: "journal_event \<Rightarrow> journal \<Rightarrow> journal res" where
  "mark_unknown e j = insert_event
     (update_row j (je_intent_id e) (\<lambda>r. r\<lparr>ow_state := UNKNOWN, ow_updated_ts_ns := je_event_ts_ns e\<rparr>)) e"

fun mark_rows :: "(order_row \<Rightarrow> journal_event) \<Rightarrow> order_row list \<Rightarrow> journal \<Rightarrow> journal res" where
  "mark_rows factory [] j = Inr j"
| "mark_rows factory (r # rs) j = bindE (mark_unknown (factory r) j) (mark_rows factory rs)"

definition stale_rows :: "int \<Rightarrow> journal \<Rightarrow> order_row list" where
  "stale_rows cutoff j =
     filter (\<lambda>r. ow_state r \<in> stale_states \<and> ow_updated_ts_ns r \<le> cutoff) (jn_orders j)"

definition mark_stale_submissions_unknown ::
  "int \<Rightarrow> (order_row \<Rightarrow> journal_event) \<Rightarrow> journal \<Rightarrow> (journal \<times> int) res" where
  "mark_stale_submissions_unknown cutoff factory j =
     bindE (mark_rows factory (stale_rows cutoff j) j)
       (\<lambda>j'. Inr (j', int (length (stale_rows cutoff j))))"

definition events :: "journal \<Rightarrow> string \<Rightarrow> journal_event list" where
  "events j intent = filter (\<lambda>e. je_intent_id e = intent) (jn_events j)"

text \<open>
  The factory that \<open>execution/node.py\<close> passes: it copies the row's identity and quantity;
  \<open>fresh\<close> stands for \<open>uuid4\<close> and \<open>now\<close> for the clock.
\<close>

definition stale_event :: "(string \<Rightarrow> string) \<Rightarrow> int \<Rightarrow> order_row \<Rightarrow> journal_event" where
  "stale_event fresh now r =
     \<lparr>je_event_id = fresh (ow_intent_id r), je_intent_id = ow_intent_id r,
      je_client_order_id = ow_client_order_id r, je_venue_order_id = ow_venue_order_id r,
      je_state = UNKNOWN, je_event_ts_ns = now,
      je_filled_quantity_base = ow_filled_quantity_base r,
      je_detail = ''unresolved exchange command exceeded its outcome timeout; ''
        @ ''Nautilus reconciliation must resolve it'',
      je_source = FROM_RECONCILIATION\<rparr>"

definition mark_stale_submissions ::
  "int \<Rightarrow> (string \<Rightarrow> string) \<Rightarrow> int \<Rightarrow> journal \<Rightarrow> (journal \<times> int) res" where
  "mark_stale_submissions cutoff fresh now =
     mark_stale_submissions_unknown cutoff (stale_event fresh now)"

text \<open>A call and its effect: an exception rolls the transaction back.\<close>

datatype journal_op =
    Begin journal_event
  | Append journal_event
  | MarkStale int "string \<Rightarrow> string" int

fun journal_call :: "journal \<Rightarrow> journal_op \<Rightarrow> journal res" where
  "journal_call j (Begin e) = begin_order j e"
| "journal_call j (Append e) = append_event j e"
| "journal_call j (MarkStale cutoff fresh now) =
     bindE (mark_stale_submissions cutoff fresh now j) (\<lambda>(j', n). Inr j')"

definition journal_step :: "journal \<Rightarrow> journal_op \<Rightarrow> journal" where
  "journal_step j a = (case journal_call j a of Inl _ \<Rightarrow> j | Inr j' \<Rightarrow> j')"

section \<open>Invariant\<close>

text \<open>A history of states in which every change is in the transition table.\<close>

fun legal_history :: "execution_state list \<Rightarrow> bool" where
  "legal_history [] = True"
| "legal_history [s] = (s = PENDING_SUBMIT)"
| "legal_history (s # t # ss) =
     ((s = t \<or> s \<in> allowed_transitions t) \<and> legal_history (t # ss))"

text \<open>
  The states of an intent's events, the latest first, are a legal history whose head is the
  row's state; identifiers are unique; every event belongs to an order.
\<close>

definition journal_inv :: "journal \<Rightarrow> bool" where
  "journal_inv j \<longleftrightarrow>
     distinct (map ow_intent_id (jn_orders j))
   \<and> distinct (map je_event_id (jn_events j))
   \<and> (\<forall>r \<in> set (jn_orders j). \<forall>r' \<in> set (jn_orders j).
        ow_client_order_id r \<noteq> None \<and> ow_client_order_id r = ow_client_order_id r' \<longrightarrow>
        ow_intent_id r = ow_intent_id r')
   \<and> (\<forall>e \<in> set (jn_events j). je_intent_id e \<in> ow_intent_id ` set (jn_orders j))
   \<and> (\<forall>r \<in> set (jn_orders j).
        legal_history (rev (map je_state (events j (ow_intent_id r))))
        \<and> events j (ow_intent_id r) \<noteq> []
        \<and> je_state (last (events j (ow_intent_id r))) = ow_state r)"

section \<open>Lemmas\<close>

lemma current_Some:
  "current j intent = Some r \<Longrightarrow> r \<in> set (jn_orders j) \<and> ow_intent_id r = intent"
  by (auto simp: current_def find_Some_iff)

lemma current_None: "current j intent = None \<longleftrightarrow> intent \<notin> ow_intent_id ` set (jn_orders j)"
  by (auto simp: current_def find_None_iff)

lemma current_unique:
  "journal_inv j \<Longrightarrow> r \<in> set (jn_orders j) \<Longrightarrow> current j (ow_intent_id r) = Some r"
proof -
  assume inv: "journal_inv j" and r: "r \<in> set (jn_orders j)"
  then obtain r' where r': "current j (ow_intent_id r) = Some r'"
    using current_None [of j "ow_intent_id r"] by (cases "current j (ow_intent_id r)") auto
  have "inj_on ow_intent_id (set (jn_orders j))"
    using inv by (simp add: journal_inv_def distinct_map)
  with current_Some [OF r'] r r' show ?thesis by (auto dest: inj_onD)
qed

lemma insert_event_Inr:
  "insert_event j e = Inr j' \<longleftrightarrow>
     je_event_id e \<notin> je_event_id ` set (jn_events j)
   \<and> je_intent_id e \<in> ow_intent_id ` set (jn_orders j) \<and> j' = j\<lparr>jn_events := jn_events j @ [e]\<rparr>"
  by (auto simp: insert_event_def)

lemma update_row_simps [simp]:
  "jn_events (update_row j intent f) = jn_events j"
  "jn_orders (update_row j intent f) =
     map (\<lambda>r. if ow_intent_id r = intent then f r else r) (jn_orders j)"
  by (simp_all add: update_row_def)

lemma events_insert [simp]:
  "events (j\<lparr>jn_events := jn_events j @ [e]\<rparr>) intent =
     events j intent @ (if je_intent_id e = intent then [e] else [])"
  by (simp add: events_def)

lemma events_cong: "jn_events j = jn_events j' \<Longrightarrow> events j = events j'"
  by (simp add: events_def fun_eq_iff)

lemma legal_history_step:
  "xs \<noteq> [] \<Longrightarrow> legal_history (rev xs) \<Longrightarrow> s = last xs \<or> s \<in> allowed_transitions (last xs)
     \<Longrightarrow> legal_history (rev (xs @ [s]))"
  by (cases xs rule: rev_cases) auto

lemma record_event_inv:
  assumes inv: "journal_inv j" and row: "row \<in> set (jn_orders j)" "ow_intent_id row = je_intent_id e"
    and f_id: "\<And>r. ow_intent_id (f r) = ow_intent_id r" and f_state: "\<And>r. ow_state (f r) = je_state e"
    and legal: "je_state e = ow_state row \<or> je_state e \<in> allowed_transitions (ow_state row)"
    and cid: "ow_client_order_id (f row) = ow_client_order_id row
        \<or> \<not> client_id_taken j (je_intent_id e) (ow_client_order_id (f row))"
    and ins: "insert_event (update_row j (je_intent_id e) f) e = Inr j'"
  shows "journal_inv j'"
proof -
  let ?u = "\<lambda>r. if ow_intent_id r = je_intent_id e then f r else r"
  let ?orders = "map ?u (jn_orders j)"
  have j': "j' = (update_row j (je_intent_id e) f)\<lparr>jn_events := jn_events j @ [e]\<rparr>"
    and fresh: "je_event_id e \<notin> je_event_id ` set (jn_events j)"
    using ins by (auto simp: insert_event_Inr)
  have id: "ow_intent_id (?u r) = ow_intent_id r" for r by (simp add: f_id)
  have only: "r = row" if "r \<in> set (jn_orders j)" "ow_intent_id r = je_intent_id e" for r
    using current_unique [OF inv that(1)] current_unique [OF inv row(1)] that(2) row(2) by simp
  have ev: "events j' i = events j i @ (if je_intent_id e = i then [e] else [])" for i
    by (simp add: j' events_def)
  have ids: "map ow_intent_id ?orders = map ow_intent_id (jn_orders j)"
    by (simp add: f_id comp_def if_distrib)
  have 1: "distinct (map ow_intent_id ?orders)"
    unfolding ids using inv by (simp add: journal_inv_def)
  have 2: "distinct (map je_event_id (jn_events j'))"
    using inv fresh by (simp add: j' journal_inv_def)
  have 3: "ow_intent_id r = ow_intent_id r'"
    if r: "r \<in> set ?orders" "r' \<in> set ?orders"
      and c: "ow_client_order_id r \<noteq> None" "ow_client_order_id r = ow_client_order_id r'" for r r'
  proof -
    obtain q q' where q: "q \<in> set (jn_orders j)" "r = ?u q" "q' \<in> set (jn_orders j)" "r' = ?u q'"
      using r by auto
    have old: "ow_intent_id x = ow_intent_id y"
      if "x \<in> set (jn_orders j)" "y \<in> set (jn_orders j)" "ow_client_order_id x \<noteq> None"
        "ow_client_order_id x = ow_client_order_id y" for x y
      using inv that unfolding journal_inv_def by blast
    have side: "ow_intent_id x = je_intent_id e"
      if "x \<in> set (jn_orders j)" "ow_client_order_id x = ow_client_order_id (f row)"
        "ow_client_order_id x \<noteq> None" for x
    proof (cases "ow_client_order_id (f row) = ow_client_order_id row")
      case True
      then show ?thesis using old [of x row] that row by simp
    next
      case False
      then have "\<not> client_id_taken j (je_intent_id e) (ow_client_order_id (f row))"
        using cid by simp
      then show ?thesis using that unfolding client_id_taken_def by metis
    qed
    show ?thesis
    proof (cases "q = row"; cases "q' = row")
      assume *: "q = row" "q' \<noteq> row"
      then have "r = f row" "r' = q'" using q row(2) only [of q'] by auto
      then show ?thesis using side [OF q(3)] c row(2) f_id by simp
    next
      assume *: "q \<noteq> row" "q' = row"
      then have "r = q" "r' = f row" using q row(2) only [of q] by auto
      then show ?thesis using side [OF q(1)] c row(2) f_id by simp
    next
      assume *: "q \<noteq> row" "q' \<noteq> row"
      then have "r = q" "r' = q'" using q only [of q] only [of q'] by auto
      then show ?thesis using old [OF q(1,3)] c by simp
    qed (use q in simp)
  qed
  have 4: "\<forall>x \<in> set (jn_events j'). je_intent_id x \<in> ow_intent_id ` set ?orders"
  proof -
    have "ow_intent_id ` set ?orders = set (map ow_intent_id ?orders)" by (simp only: set_map)
    also have "\<dots> = ow_intent_id ` set (jn_orders j)" unfolding ids by simp
    finally have "ow_intent_id ` set ?orders = ow_intent_id ` set (jn_orders j)" .
    moreover have "je_intent_id e \<in> ow_intent_id ` set (jn_orders j)"
      using row by (metis imageI)
    ultimately show ?thesis using inv by (simp add: j' journal_inv_def)
  qed
  have 5: "legal_history (rev (map je_state (events j' (ow_intent_id r))))
      \<and> events j' (ow_intent_id r) \<noteq> [] \<and> je_state (last (events j' (ow_intent_id r))) = ow_state r"
    if r: "r \<in> set ?orders" for r
  proof -
    obtain q where q: "q \<in> set (jn_orders j)" "r = ?u q" using r by auto
    have old: "legal_history (rev (map je_state (events j (ow_intent_id q))))"
      "events j (ow_intent_id q) \<noteq> []" "je_state (last (events j (ow_intent_id q))) = ow_state q"
      using inv q(1) by (auto simp: journal_inv_def)
    show ?thesis
    proof (cases "ow_intent_id q = je_intent_id e")
      case True
      then have "q = row" using only q by simp
      then have "legal_history (rev (map je_state (events j (ow_intent_id q)) @ [je_state e]))"
        using old legal by (intro legal_history_step) (auto simp: last_map)
      with True q show ?thesis by (simp add: ev f_id f_state)
    next
      case False
      with old q show ?thesis by (simp add: ev)
    qed
  qed
  have orders: "jn_orders j' = ?orders"
    by (simp add: j')
  show ?thesis unfolding journal_inv_def orders
    using 1 2 3 4 5 by blast
qed

lemma begin_order_inv:
  assumes inv: "journal_inv j" and ok: "begin_order j e = Inr j'"
  shows "journal_inv j'"
proof -
  let ?row = "\<lparr>ow_intent_id = je_intent_id e, ow_client_order_id = je_client_order_id e,
              ow_venue_order_id = je_venue_order_id e, ow_state = je_state e,
              ow_updated_ts_ns = je_event_ts_ns e,
              ow_filled_quantity_base = je_filled_quantity_base e\<rparr>"
  have j': "j' = j\<lparr>jn_orders := jn_orders j @ [?row], jn_events := jn_events j @ [e]\<rparr>"
    and st: "je_state e = PENDING_SUBMIT" and new: "je_intent_id e \<notin> ow_intent_id ` set (jn_orders j)"
    and cid: "\<not> client_id_taken j (je_intent_id e) (je_client_order_id e)"
    and fresh: "je_event_id e \<notin> je_event_id ` set (jn_events j)"
    using ok by (auto simp: begin_order_def insert_event_Inr current_None split: if_splits)
  have "\<forall>x \<in> set (jn_events j). je_intent_id x \<in> ow_intent_id ` set (jn_orders j)"
    using inv by (simp add: journal_inv_def)
  then have none: "events j (je_intent_id e) = []"
    using new by (metis (mono_tags, lifting) events_def filter_False)
  have ev: "events j' i = events j i @ (if je_intent_id e = i then [e] else [])" for i
    by (simp add: j' events_def)
  have cid': "\<And>r. r \<in> set (jn_orders j) \<Longrightarrow> je_client_order_id e \<noteq> None \<Longrightarrow>
      ow_client_order_id r \<noteq> je_client_order_id e"
    using cid new by (force simp: client_id_taken_def)
  have ev_row: "events j' (ow_intent_id r) = events j (ow_intent_id r)" if "r \<in> set (jn_orders j)" for r
    using that new by (auto simp: ev)
  have ev_new: "events j' (je_intent_id e) = [e]"
    by (simp add: ev none)
  have hist: "legal_history (rev (map je_state (events j' (ow_intent_id r))))
      \<and> events j' (ow_intent_id r) \<noteq> [] \<and> je_state (last (events j' (ow_intent_id r))) = ow_state r"
    if "r \<in> set (jn_orders j')" for r
  proof (cases "r \<in> set (jn_orders j)")
    case True
    with inv show ?thesis unfolding ev_row [OF True] by (simp add: journal_inv_def)
  next
    case False
    with that have "r = ?row" by (simp add: j')
    then show ?thesis by (simp add: ev_new st)
  qed
  have cids: "ow_intent_id r = ow_intent_id r'"
    if "r \<in> set (jn_orders j')" "r' \<in> set (jn_orders j')" "ow_client_order_id r \<noteq> None"
      "ow_client_order_id r = ow_client_order_id r'" for r r'
  proof -
    have "ow_intent_id x = ow_intent_id y"
      if "x \<in> set (jn_orders j)" "y \<in> set (jn_orders j)" "ow_client_order_id x \<noteq> None"
        "ow_client_order_id x = ow_client_order_id y" for x y
      using inv that unfolding journal_inv_def by blast
    then show ?thesis using that cid' by (auto simp: j')
  qed
  have "distinct (map ow_intent_id (jn_orders j'))" "distinct (map je_event_id (jn_events j'))"
    using inv new fresh by (auto simp: j' journal_inv_def)
  moreover have "\<forall>x \<in> set (jn_events j'). je_intent_id x \<in> ow_intent_id ` set (jn_orders j')"
    using inv by (auto simp: j' journal_inv_def)
  ultimately show ?thesis unfolding journal_inv_def using hist cids by blast
qed

lemma append_event_inv:
  assumes inv: "journal_inv j" and ok: "append_event j e = Inr j'"
  shows "journal_inv j'"
proof -
  obtain row where row: "current j (je_intent_id e) = Some row"
    and legal: "je_state e = ow_state row \<or> je_state e \<in> allowed_transitions (ow_state row)"
    and cid: "\<not> client_id_taken j (je_intent_id e) (je_client_order_id e)"
    and ins: "insert_event (update_row j (je_intent_id e) (apply_event e)) e = Inr j'"
    using ok by (auto simp: append_event_def split: option.splits if_splits)
  show ?thesis
  proof (rule record_event_inv [OF inv _ _ _ _ legal _ ins])
    show "row \<in> set (jn_orders j)" "ow_intent_id row = je_intent_id e"
      using current_Some [OF row] by auto
    show "ow_client_order_id (apply_event e row) = ow_client_order_id row
        \<or> \<not> client_id_taken j (je_intent_id e) (ow_client_order_id (apply_event e row))"
      using cid by (auto simp: apply_event_def coalesce_def split: option.splits)
  qed (simp_all add: apply_event_def)
qed

lemma mark_unknown_inv:
  assumes inv: "journal_inv j" and row: "row \<in> set (jn_orders j)" "ow_state row \<in> stale_states"
    and e: "je_intent_id e = ow_intent_id row" "je_state e = UNKNOWN"
    and ok: "mark_unknown e j = Inr j'"
  shows "journal_inv j'"
proof (rule record_event_inv [OF inv row(1)])
  show "je_state e = ow_state row \<or> je_state e \<in> allowed_transitions (ow_state row)"
    using row(2) e(2) by (auto simp: stale_states_def allowed_transitions_def)
qed (use e ok in \<open>simp_all add: mark_unknown_def\<close>)

lemma mark_unknown_orders:
  "mark_unknown e j = Inr j' \<Longrightarrow> jn_orders j' =
     map (\<lambda>r. if ow_intent_id r = je_intent_id e
              then r\<lparr>ow_state := UNKNOWN, ow_updated_ts_ns := je_event_ts_ns e\<rparr> else r) (jn_orders j)"
  by (auto simp: mark_unknown_def insert_event_Inr)

lemma mark_rows_inv:
  assumes "journal_inv j" "mark_rows (stale_event fresh now) rows j = Inr j'"
    and "distinct (map ow_intent_id rows)" "set rows \<subseteq> set (jn_orders j)"
    and "\<forall>r \<in> set rows. ow_state r \<in> stale_states"
  shows "journal_inv j'
    \<and> jn_orders j' = map (\<lambda>r. if ow_intent_id r \<in> ow_intent_id ` set rows
         then r\<lparr>ow_state := UNKNOWN, ow_updated_ts_ns := now\<rparr> else r) (jn_orders j)"
  using assms
proof (induction rows arbitrary: j)
  case (Cons r rs)
  let ?e = "stale_event fresh now r"
  obtain k where k: "mark_unknown ?e j = Inr k" "mark_rows (stale_event fresh now) rs k = Inr j'"
    using Cons.prems(2) by (auto simp: bindE_eq_Inr_iff)
  have e: "je_intent_id ?e = ow_intent_id r" "je_state ?e = UNKNOWN" "je_event_ts_ns ?e = now"
    by (simp_all add: stale_event_def)
  have inv: "journal_inv k"
    using Cons.prems k(1) e by (intro mark_unknown_inv [of j r ?e k]) auto
  note orders = mark_unknown_orders [OF k(1), unfolded e]
  have "set rs \<subseteq> set (jn_orders k)"
    using Cons.prems(3,4) unfolding orders by (force simp: image_iff)
  then have "journal_inv j' \<and> jn_orders j' = map (\<lambda>r. if ow_intent_id r \<in> ow_intent_id ` set rs
         then r\<lparr>ow_state := UNKNOWN, ow_updated_ts_ns := now\<rparr> else r) (jn_orders k)"
    using Cons.prems inv k(2) by (intro Cons.IH) auto
  then show ?case unfolding orders by (auto simp: image_iff)
qed simp

lemma mark_stale_ok:
  assumes inv: "journal_inv j" and ok: "mark_stale_submissions cutoff fresh now j = Inr (j', n)"
  shows "journal_inv j' \<and> n = int (length (stale_rows cutoff j))
    \<and> jn_orders j' = map (\<lambda>r. if ow_state r \<in> stale_states \<and> ow_updated_ts_ns r \<le> cutoff
         then r\<lparr>ow_state := UNKNOWN, ow_updated_ts_ns := now\<rparr> else r) (jn_orders j)"
proof -
  have m: "mark_rows (stale_event fresh now) (stale_rows cutoff j) j = Inr j'"
    and n: "n = int (length (stale_rows cutoff j))"
    using ok by (auto simp: mark_stale_submissions_def mark_stale_submissions_unknown_def bindE_eq_Inr_iff)
  have rows: "distinct (map ow_intent_id (stale_rows cutoff j))" "set (stale_rows cutoff j) \<subseteq> set (jn_orders j)"
    "\<forall>r \<in> set (stale_rows cutoff j). ow_state r \<in> stale_states"
    using inv by (auto simp: stale_rows_def journal_inv_def distinct_map inj_on_def)
  have id: "ow_intent_id r \<in> ow_intent_id ` set (stale_rows cutoff j) \<longleftrightarrow>
      ow_state r \<in> stale_states \<and> ow_updated_ts_ns r \<le> cutoff" if "r \<in> set (jn_orders j)" for r
  proof -
    have "inj_on ow_intent_id (set (jn_orders j))"
      using inv by (simp add: journal_inv_def distinct_map)
    with that show ?thesis by (auto simp: stale_rows_def dest: inj_onD)
  qed
  show ?thesis using mark_rows_inv [OF inv m rows] n id by auto
qed

lemma journal_call_inv: "journal_inv j \<Longrightarrow> journal_call j a = Inr j' \<Longrightarrow> journal_inv j'"
  by (cases a) (auto simp: bindE_eq_Inr_iff dest: begin_order_inv append_event_inv mark_stale_ok)

lemma journal_step_inv: "journal_inv j \<Longrightarrow> journal_inv (journal_step j a)"
  by (auto simp: journal_step_def split: sum.splits intro: journal_call_inv)

lemma journal_inv_new: "journal_inv new_journal"
  by (simp add: journal_inv_def new_journal_def)

lemma current_update_row:
  "(\<And>r. ow_intent_id (f r) = ow_intent_id r) \<Longrightarrow>
     current (update_row j intent f) i =
       map_option (\<lambda>r. if ow_intent_id r = intent then f r else r) (current j i)"
proof -
  assume id: "\<And>r. ow_intent_id (f r) = ow_intent_id r"
  have "find (\<lambda>r. ow_intent_id r = i) (map (\<lambda>r. if ow_intent_id r = intent then f r else r) rs) =
      map_option (\<lambda>r. if ow_intent_id r = intent then f r else r) (find (\<lambda>r. ow_intent_id r = i) rs)" for rs
    by (induction rs) (auto simp: id)
  then show ?thesis by (simp add: current_def)
qed

lemma current_events_update [simp]: "current (j\<lparr>jn_events := es\<rparr>) i = current j i"
  by (simp add: current_def)

text \<open>A terminal row keeps its state, events are only appended and no order disappears.\<close>

definition journal_rel :: "journal \<Rightarrow> journal \<Rightarrow> bool" where
  "journal_rel j j' \<longleftrightarrow>
     (\<exists>es. jn_events j' = jn_events j @ es)
   \<and> (\<forall>i r. current j i = Some r \<longrightarrow>
        (\<exists>r'. current j' i = Some r' \<and> (ow_state r \<in> terminal_states \<longrightarrow> ow_state r' = ow_state r)))"

lemma journal_rel_refl: "journal_rel j j"
  by (simp add: journal_rel_def)

lemma journal_rel_trans:
  assumes ab: "journal_rel a b" and bc: "journal_rel b c"
  shows "journal_rel a c"
  unfolding journal_rel_def
proof (intro conjI allI impI)
  show "\<exists>es. jn_events c = jn_events a @ es"
    using ab bc by (auto simp: journal_rel_def)
next
  fix i r assume "current a i = Some r"
  then obtain r' where r': "current b i = Some r'" "ow_state r \<in> terminal_states \<longrightarrow> ow_state r' = ow_state r"
    using ab by (auto simp: journal_rel_def)
  then obtain r'' where "current c i = Some r''" "ow_state r' \<in> terminal_states \<longrightarrow> ow_state r'' = ow_state r'"
    using bc by (auto simp: journal_rel_def)
  with r' show "\<exists>r'. current c i = Some r' \<and> (ow_state r \<in> terminal_states \<longrightarrow> ow_state r' = ow_state r)"
    by auto
qed

lemma terminal_no_transition: "s \<in> terminal_states \<Longrightarrow> allowed_transitions s = {}"
  by (auto simp: terminal_states_def allowed_transitions_def)

lemma find_snoc:
  "find P (xs @ [x]) = (case find P xs of None \<Rightarrow> if P x then Some x else None | Some y \<Rightarrow> Some y)"
  by (induction xs) auto

lemma begin_order_rel:
  assumes "begin_order j e = Inr j'"
  shows "journal_rel j j'"
proof -
  obtain r where "jn_orders j' = jn_orders j @ [r]" "jn_events j' = jn_events j @ [e]"
    using assms by (auto simp: begin_order_def insert_event_Inr split: if_splits)
  then show ?thesis by (simp add: journal_rel_def current_def find_snoc)
qed

lemma record_event_rel:
  assumes f_id: "\<And>r. ow_intent_id (f r) = ow_intent_id r"
    and row: "current j intent = Some row" "ow_state row \<in> terminal_states \<Longrightarrow> ow_state (f row) = ow_state row"
    and ins: "insert_event (update_row j intent f) e = Inr j'"
  shows "journal_rel j j'"
  unfolding journal_rel_def
proof (intro conjI allI impI)
  have j': "j' = (update_row j intent f)\<lparr>jn_events := jn_events j @ [e]\<rparr>"
    using ins by (simp add: insert_event_Inr)
  then show "\<exists>es. jn_events j' = jn_events j @ es" by simp
  fix i r assume r: "current j i = Some r"
  have "current j' i = Some (if ow_intent_id r = intent then f r else r)"
    unfolding j' by (simp add: current_update_row f_id r)
  moreover have "r = row" if "ow_intent_id r = intent"
    using that r row(1) current_Some [OF r] by simp
  ultimately show "\<exists>r'. current j' i = Some r' \<and> (ow_state r \<in> terminal_states \<longrightarrow> ow_state r' = ow_state r)"
    using row(2) by auto
qed

lemma append_event_rel:
  assumes "append_event j e = Inr j'"
  shows "journal_rel j j'"
proof -
  obtain row where row: "current j (je_intent_id e) = Some row"
    and legal: "je_state e = ow_state row \<or> je_state e \<in> allowed_transitions (ow_state row)"
    and ins: "insert_event (update_row j (je_intent_id e) (apply_event e)) e = Inr j'"
    using assms by (auto simp: append_event_def split: option.splits if_splits)
  show ?thesis
    by (rule record_event_rel [OF _ row _ ins])
      (use legal in \<open>auto simp: apply_event_def dest: terminal_no_transition\<close>)
qed

lemma mark_unknown_rel:
  assumes inv: "journal_inv j" and row: "row \<in> set (jn_orders j)" "ow_state row \<in> stale_states"
    and e: "je_intent_id e = ow_intent_id row" and ok: "mark_unknown e j = Inr j'"
  shows "journal_rel j j'"
proof (rule record_event_rel)
  show "current j (je_intent_id e) = Some row"
    using current_unique [OF inv row(1)] e by simp
  show "insert_event (update_row j (je_intent_id e)
      (\<lambda>r. r\<lparr>ow_state := UNKNOWN, ow_updated_ts_ns := je_event_ts_ns e\<rparr>)) e = Inr j'"
    using ok by (simp add: mark_unknown_def)
qed (use row in \<open>auto simp: terminal_states_def stale_states_def\<close>)

lemma mark_rows_rel:
  assumes "journal_inv j" "mark_rows (stale_event fresh now) rows j = Inr j'"
    and "distinct (map ow_intent_id rows)" "set rows \<subseteq> set (jn_orders j)"
    and "\<forall>r \<in> set rows. ow_state r \<in> stale_states"
  shows "journal_rel j j'"
  using assms
proof (induction rows arbitrary: j)
  case (Cons r rs)
  let ?e = "stale_event fresh now r"
  obtain k where k: "mark_unknown ?e j = Inr k" "mark_rows (stale_event fresh now) rs k = Inr j'"
    using Cons.prems(2) by (auto simp: bindE_eq_Inr_iff)
  have e: "je_intent_id ?e = ow_intent_id r" "je_state ?e = UNKNOWN" "je_event_ts_ns ?e = now"
    by (simp_all add: stale_event_def)
  have inv: "journal_inv k"
    using Cons.prems k(1) e by (intro mark_unknown_inv [of j r ?e k]) auto
  have "set rs \<subseteq> set (jn_orders k)"
    using Cons.prems(3,4) unfolding mark_unknown_orders [OF k(1), unfolded e] by (force simp: image_iff)
  then have "journal_rel k j'" using Cons.prems inv k(2) by (intro Cons.IH) auto
  moreover have "journal_rel j k"
    using Cons.prems k(1) e by (intro mark_unknown_rel [of j r ?e k]) auto
  ultimately show ?case by (rule journal_rel_trans [rotated])
qed (simp add: journal_rel_refl)

lemma stale_rows_facts:
  assumes "journal_inv j"
  shows "distinct (map ow_intent_id (stale_rows cutoff j))" "set (stale_rows cutoff j) \<subseteq> set (jn_orders j)"
    "\<forall>r \<in> set (stale_rows cutoff j). ow_state r \<in> stale_states"
  using assms by (auto simp: stale_rows_def journal_inv_def distinct_map inj_on_def)

lemma mark_stale_rel:
  assumes inv: "journal_inv j" and ok: "mark_stale_submissions cutoff fresh now j = Inr (j', n)"
  shows "journal_rel j j'"
proof (rule mark_rows_rel [OF inv])
  show "mark_rows (stale_event fresh now) (stale_rows cutoff j) j = Inr j'"
    using ok by (auto simp: mark_stale_submissions_def mark_stale_submissions_unknown_def bindE_eq_Inr_iff)
qed (rule stale_rows_facts [OF inv])+

lemma journal_step_rel: "journal_inv j \<Longrightarrow> journal_rel j (journal_step j a)"
  by (cases a)
    (auto simp: journal_step_def bindE_eq_Inr_iff journal_rel_refl split: sum.splits
      intro: begin_order_rel append_event_rel mark_stale_rel)

interpretation jn: step_system journal_step journal_inv journal_rel
  by unfold_locales
    (auto intro: journal_step_inv journal_step_rel journal_rel_refl journal_rel_trans)

section \<open>The contract of a store of intents\<close>

text \<open>
  What a caller that must not send an order twice relies on: a reservation that succeeds makes
  its key known, known keys stay known, and a known key cannot be reserved again.
\<close>

locale intent_store =
  fixes step :: "'s \<Rightarrow> 'op \<Rightarrow> 's"
    and known :: "'s \<Rightarrow> string \<Rightarrow> bool"
    and reserve :: "'s \<Rightarrow> 'e \<Rightarrow> 's res"
    and key :: "'e \<Rightarrow> string"
    and refusal :: "'e \<Rightarrow> py_error"
  assumes reserve_known: "reserve s e = Inr s' \<Longrightarrow> known s' (key e)"
    and reserve_again: "known s (key e) \<Longrightarrow> reserve s e = Inl (refusal e)"
    and step_known: "known s k \<Longrightarrow> known (step s a) k"
begin

lemma run_known: "known s k \<Longrightarrow> known (foldl step s ops) k"
  by (induction ops arbitrary: s) (auto intro: step_known)

lemma reserve_once:
  "reserve s e = Inr s' \<Longrightarrow> key e' = key e \<Longrightarrow> reserve (foldl step s' ops) e' = Inl (refusal e')"
  by (rule reserve_again) (metis run_known reserve_known)

end

definition begin_refusal :: "journal_event \<Rightarrow> py_error" where
  "begin_refusal e =
     (if je_state e \<noteq> PENDING_SUBMIT
      then InvalidTransitionError ''new intents must begin in pending_submit''
      else DuplicateIntentError (je_intent_id e))"

lemma begin_order_known: "begin_order j e = Inr j' \<Longrightarrow> current j' (je_intent_id e) \<noteq> None"
  by (auto simp: begin_order_def insert_event_Inr current_None split: if_splits)

lemma mark_rows_known:
  "current j i \<noteq> None \<Longrightarrow> mark_rows f rows j = Inr j' \<Longrightarrow> current j' i \<noteq> None"
proof (induction rows arbitrary: j)
  case (Cons r rs)
  then obtain k where k: "mark_unknown (f r) j = Inr k" "mark_rows f rs k = Inr j'"
    by (auto simp: bindE_eq_Inr_iff)
  have "current k i \<noteq> None"
    using k(1) Cons.prems(1) by (auto simp: mark_unknown_def insert_event_Inr current_update_row)
  with k Cons show ?case by blast
qed simp

lemma journal_rel_known: "journal_rel j j' \<Longrightarrow> current j i \<noteq> None \<Longrightarrow> current j' i \<noteq> None"
  by (force simp: journal_rel_def)

lemma journal_step_known:
  assumes "current j i \<noteq> None"
  shows "current (journal_step j a) i \<noteq> None"
proof (cases "journal_call j a")
  case (Inr j')
  have "current j' i \<noteq> None"
  proof (cases a)
    case (Begin e)
    with Inr show ?thesis by (intro journal_rel_known [OF begin_order_rel assms]) simp
  next
    case (Append e)
    with Inr show ?thesis by (intro journal_rel_known [OF append_event_rel assms]) simp
  next
    case (MarkStale cutoff fresh now)
    with Inr have "mark_rows (stale_event fresh now) (stale_rows cutoff j) j = Inr j'"
      by (auto simp: mark_stale_submissions_def mark_stale_submissions_unknown_def bindE_eq_Inr_iff)
    then show ?thesis by (rule mark_rows_known [OF assms])
  qed
  with Inr show ?thesis by (simp add: journal_step_def)
qed (use assms in \<open>simp add: journal_step_def\<close>)

interpretation js: intent_store journal_step "\<lambda>j i. current j i \<noteq> None" begin_order je_intent_id
  begin_refusal
proof (unfold_locales, goal_cases)
  case (1 s e s')
  then show ?case by (rule begin_order_known)
next
  case (2 s e)
  then show ?case by (simp add: begin_order_def begin_refusal_def)
next
  case (3 s k a)
  then show ?case by (rule journal_step_known)
qed

section \<open>Properties\<close>

text \<open>C13: Whatever calls the journal receives, in whatever order and with whatever events,
  identifiers stay unique, every event belongs to a recorded order, every order's recorded
  states form a legal history that begins with \<open>pending_submit\<close>, and an order's row shows the
  state of its last event.\<close>

theorem journal_always_consistent:
  "journal_inv (foldl journal_step new_journal ops)"
  by (intro jn.run_inv journal_inv_new)

text \<open>A terminal order (filled, canceled, rejected, denied) stays in its state through any
  later sequence of calls, and the recorded events are only ever extended.\<close>

theorem terminal_orders_stay_terminal:
  assumes inv: "journal_inv j" and row: "current j i = Some r" "ow_state r \<in> terminal_states"
  shows "(\<exists>r'. current (foldl journal_step j ops) i = Some r' \<and> ow_state r' = ow_state r)
       \<and> (\<exists>es. jn_events (foldl journal_step j ops) = jn_events j @ es)"
  using jn.run_rel [OF inv, of ops] row by (auto simp: journal_rel_def)

definition example_event :: "string \<Rightarrow> execution_state \<Rightarrow> int \<Rightarrow> journal_event" where
  "example_event eid st now =
     \<lparr>je_event_id = eid, je_intent_id = ''intent-1'', je_client_order_id = Some ''cloid-1'',
      je_venue_order_id = None, je_state = st, je_event_ts_ns = now, je_filled_quantity_base = 0,
      je_detail = ''d'', je_source = FROM_NAUTILUS\<rparr>"

definition example_journal :: journal where
  "example_journal = foldl journal_step new_journal
     [Begin (example_event ''e1'' PENDING_SUBMIT 1), Append (example_event ''e2'' SUBMITTED 2),
      Append (example_event ''e3'' FILLED 3)]"

lemma example_journal_current:
  "\<exists>r. current example_journal ''intent-1'' = Some r \<and> ow_state r = FILLED"
proof -
  have "map_option ow_state (current example_journal ''intent-1'') = Some FILLED" by code_simp
  then show ?thesis by (cases "current example_journal ''intent-1''") auto
qed

theorem terminal_orders_stay_terminal_witness:
  "\<exists>r'. current (journal_step example_journal (Append (example_event ''e4'' ACCEPTED 4))) ''intent-1'' = Some r'
     \<and> ow_state r' = FILLED"
proof -
  obtain r where "current example_journal ''intent-1'' = Some r" "ow_state r = FILLED"
    using example_journal_current by blast
  moreover have "journal_inv example_journal"
    unfolding example_journal_def by (intro jn.run_inv journal_inv_new)
  ultimately show ?thesis
    using terminal_orders_stay_terminal [of example_journal "''intent-1''" r
        "[Append (example_event ''e4'' ACCEPTED 4)]"]
    by (auto simp: terminal_states_def)
qed

text \<open>An intent is reserved at most once: after a reservation succeeded, every later one
  with the same intent identity is refused with \<open>DuplicateIntentError\<close>, whatever happened
  in between.\<close>

theorem intent_reserved_once:
  assumes "begin_order j e = Inr j'" and "je_intent_id e' = je_intent_id e"
    and "je_state e' = PENDING_SUBMIT"
  shows "begin_order (foldl journal_step j' ops) e' = Inl (DuplicateIntentError (je_intent_id e))"
  using js.reserve_once [OF assms(1,2), of ops] assms(2,3) by (simp add: begin_refusal_def)

theorem intent_reserved_once_witness:
  "begin_order
     (journal_step (journal_step new_journal (Begin (example_event ''e1'' PENDING_SUBMIT 1)))
        (Append (example_event ''e2'' DENIED 2)))
     (example_event ''e9'' PENDING_SUBMIT 7) = Inl (DuplicateIntentError ''intent-1'')"
proof -
  have "is_ok (begin_order new_journal (example_event ''e1'' PENDING_SUBMIT 1))"
    by code_simp
  then obtain j' where j': "begin_order new_journal (example_event ''e1'' PENDING_SUBMIT 1) = Inr j'"
    by (auto simp: is_ok_iff)
  then have "journal_step new_journal (Begin (example_event ''e1'' PENDING_SUBMIT 1)) = j'"
    by (simp add: journal_step_def)
  with intent_reserved_once [OF j', of "example_event ''e9'' PENDING_SUBMIT 7"
      "[Append (example_event ''e2'' DENIED 2)]"]
  show ?thesis by (simp add: example_event_def)
qed

lemma mark_rows_total:
  assumes "journal_inv j" "distinct (map ow_intent_id rows)" "set rows \<subseteq> set (jn_orders j)"
    and "\<forall>r \<in> set rows. ow_state r \<in> stale_states"
    and "inj fresh" "\<forall>r \<in> set rows. fresh (ow_intent_id r) \<notin> je_event_id ` set (jn_events j)"
  shows "\<exists>j'. mark_rows (stale_event fresh now) rows j = Inr j'"
  using assms
proof (induction rows arbitrary: j)
  case (Cons r rs)
  let ?e = "stale_event fresh now r"
  let ?k = "(update_row j (ow_intent_id r) (\<lambda>r. r\<lparr>ow_state := UNKNOWN, ow_updated_ts_ns := now\<rparr>))
     \<lparr>jn_events := jn_events j @ [?e]\<rparr>"
  have e: "je_intent_id ?e = ow_intent_id r" "je_state ?e = UNKNOWN" "je_event_ts_ns ?e = now"
    "je_event_id ?e = fresh (ow_intent_id r)"
    by (simp_all add: stale_event_def)
  have "map ow_intent_id (jn_orders (update_row j i (\<lambda>r. r\<lparr>ow_state := UNKNOWN, ow_updated_ts_ns := now\<rparr>)))
      = map ow_intent_id (jn_orders j)" for i
    by (simp add: comp_def if_distrib)
  then have ids: "ow_intent_id ` set (jn_orders (update_row j i (\<lambda>r. r\<lparr>ow_state := UNKNOWN, ow_updated_ts_ns := now\<rparr>)))
      = ow_intent_id ` set (jn_orders j)" for i
    by (metis set_map)
  have k: "mark_unknown ?e j = Inr ?k"
    unfolding mark_unknown_def e insert_event_Inr ids using Cons.prems(3,6) by (auto simp: e)
  have inv: "journal_inv ?k"
    using Cons.prems k e by (intro mark_unknown_inv [of j r ?e ?k]) auto
  have sub: "set rs \<subseteq> set (jn_orders ?k)"
    using Cons.prems(2,3) by (force simp: image_iff)
  have fr: "\<forall>x \<in> set rs. fresh (ow_intent_id x) \<notin> je_event_id ` set (jn_events ?k)"
  proof
    fix x assume x: "x \<in> set rs"
    then have "ow_intent_id x \<noteq> ow_intent_id r" using Cons.prems(2) by (force simp: image_iff)
    with x Cons.prems(5,6) show "fresh (ow_intent_id x) \<notin> je_event_id ` set (jn_events ?k)"
      by (auto simp: e inj_eq)
  qed
  have "\<exists>j'. mark_rows (stale_event fresh now) rs ?k = Inr j'"
    using Cons.prems inv sub fr by (intro Cons.IH) auto
  with k show ?case by simp
qed simp

text \<open>Marking stale commands succeeds when the fresh event ids are unused and distinct,
  reports the number of rows it marked, changes exactly the rows that still awaited an outcome
  at the cutoff (they become \<open>unknown\<close>, stamped now), and leaves no such row behind.\<close>

theorem stale_commands_become_unknown:
  assumes inv: "journal_inv j" and fresh: "inj fresh" "\<forall>i. fresh i \<notin> je_event_id ` set (jn_events j)"
  shows "\<exists>j'. mark_stale_submissions cutoff fresh now j = Inr (j', int (length (stale_rows cutoff j)))
     \<and> stale_rows cutoff j' = []
     \<and> unknown_command_count j' = unknown_command_count j + int (length (stale_rows cutoff j))
     \<and> jn_orders j' = map (\<lambda>r. if ow_state r \<in> stale_states \<and> ow_updated_ts_ns r \<le> cutoff
         then r\<lparr>ow_state := UNKNOWN, ow_updated_ts_ns := now\<rparr> else r) (jn_orders j)"
proof -
  obtain j' where "mark_rows (stale_event fresh now) (stale_rows cutoff j) j = Inr j'"
    using mark_rows_total [OF inv stale_rows_facts [OF inv] fresh(1)] fresh(2) by blast
  then have ok: "mark_stale_submissions cutoff fresh now j = Inr (j', int (length (stale_rows cutoff j)))"
    by (simp add: mark_stale_submissions_def mark_stale_submissions_unknown_def)
  have U: "UNKNOWN \<notin> stale_states" by (simp add: stale_states_def)
  note orders = mark_stale_ok [OF inv ok, THEN conjunct2, THEN conjunct2]
  have "stale_rows cutoff j' = []"
    using U by (auto simp: stale_rows_def orders filter_empty_conv)
  moreover have count: "length (filter (\<lambda>r. ow_state r = UNKNOWN) (map (\<lambda>r. if ow_state r \<in> stale_states
      \<and> ow_updated_ts_ns r \<le> cutoff then r\<lparr>ow_state := UNKNOWN, ow_updated_ts_ns := now\<rparr> else r) rs))
    = length (filter (\<lambda>r. ow_state r = UNKNOWN) rs)
      + length (filter (\<lambda>r. ow_state r \<in> stale_states \<and> ow_updated_ts_ns r \<le> cutoff) rs)" for rs
    using U by (induction rs) auto
  moreover have "unknown_command_count j' = unknown_command_count j + int (length (stale_rows cutoff j))"
    unfolding unknown_command_count_def orders stale_rows_def count by simp
  ultimately show ?thesis using ok orders by blast
qed

lemma fresh_example: "inj (\<lambda>i. CHR ''x'' # i)"
  by (simp add: inj_def)

theorem stale_commands_become_unknown_witness:
  "\<exists>j'. mark_stale_submissions 5 (\<lambda>i. CHR ''x'' # i) 9
          (journal_step new_journal (Begin (example_event ''e1'' PENDING_SUBMIT 1))) = Inr (j', 1)
     \<and> unknown_command_count j' = 1"
proof -
  let ?j = "foldl journal_step new_journal [Begin (example_event ''e1'' PENDING_SUBMIT 1)]"
  have "journal_inv ?j" by (intro jn.run_inv journal_inv_new)
  moreover have "\<forall>i. CHR ''x'' # i \<notin> je_event_id ` set (jn_events ?j)"
  proof -
    have "map je_event_id (jn_events ?j) = [''e1'']" by code_simp
    then have "je_event_id ` set (jn_events ?j) = {''e1''}" by (metis list.set(1,2) set_map)
    then show ?thesis by simp
  qed
  moreover have "length (stale_rows 5 ?j) = 1" "unknown_command_count ?j = 0" by code_simp+
  ultimately show ?thesis
    using stale_commands_become_unknown [of ?j "\<lambda>i. CHR ''x'' # i" 5 9] fresh_example by auto
qed

end
