(* ===== verification/Heartbeat.thy ===== *)
theory Heartbeat
  imports Kill_Switch
begin

text \<open>
  The heartbeat lease of \<open>execution/heartbeat.py\<close>: \<open>set_health\<close> records a verdict with an
  optional deadline, \<open>publish\<close> reads the kill switch and the clock and builds the
  \<open>TradingHeartbeat\<close> the sentinel reads. The identity fields the publisher copies (process,
  environment, account, admission) are one record; the atomic file replacement is the
  published value itself.
\<close>

section \<open>State\<close>

record health_lease =
  hl_execution_healthy :: bool
  hl_reconciliation_complete :: bool
  hl_healthy_until_ns :: "int option"

definition new_lease :: health_lease where
  "new_lease = \<lparr>hl_execution_healthy = False, hl_reconciliation_complete = False,
                hl_healthy_until_ns = None\<rparr>"

record publisher_identity =
  pi_process_id :: int
  pi_environment :: string
  pi_account_address :: string
  pi_config_fingerprint :: string
  pi_deployment_id :: "string option"
  pi_approval_id :: "string option"
  pi_admission_id :: "string option"
  pi_approval_expires_ts_ns :: "int option"

section \<open>Operations\<close>

definition set_health :: "int \<Rightarrow> bool \<Rightarrow> bool \<Rightarrow> int option \<Rightarrow> health_lease" where
  "set_health now healthy reconciled valid_for_ms =
     \<lparr>hl_execution_healthy = healthy, hl_reconciliation_complete = reconciled,
      hl_healthy_until_ns = map_option (\<lambda>ms. now + ms * 1000000) valid_for_ms\<rparr>"

definition publish ::
  "publisher_identity \<Rightarrow> health_lease \<Rightarrow> bool \<Rightarrow> int \<Rightarrow> trading_heartbeat res" where
  "publish p l kill_active now =
     (let expired = (case hl_healthy_until_ns l of None \<Rightarrow> False | Some t \<Rightarrow> t < now);
          healthy = (hl_execution_healthy l \<and> \<not> expired);
          h = \<lparr>hb_process_id = pi_process_id p, hb_heartbeat_ts_ns = now,
               hb_environment = pi_environment p, hb_account_address = pi_account_address p,
               hb_execution_healthy = (healthy \<and> \<not> kill_active),
               hb_reconciliation_complete = hl_reconciliation_complete l,
               hb_operator_kill = kill_active, hb_config_fingerprint = pi_config_fingerprint p,
               hb_deployment_id = pi_deployment_id p, hb_approval_id = pi_approval_id p,
               hb_admission_id = pi_admission_id p,
               hb_approval_expires_ts_ns = pi_approval_expires_ts_ns p\<rparr>
      in case trading_heartbeat_error h of Some m \<Rightarrow> Inl (ValidationError m) | None \<Rightarrow> Inr h)"

section \<open>Lemmas\<close>

lemma set_health_simps [simp]:
  "hl_execution_healthy (set_health now h r v) = h"
  "hl_reconciliation_complete (set_health now h r v) = r"
  "hl_healthy_until_ns (set_health now h r v) = map_option (\<lambda>ms. now + ms * 1000000) v"
  by (simp_all add: set_health_def)

lemma publish_Inr:
  "publish p l kill now = Inr h \<Longrightarrow>
     (hb_execution_healthy h \<longleftrightarrow>
        hl_execution_healthy l \<and> \<not> kill
        \<and> (case hl_healthy_until_ns l of None \<Rightarrow> True | Some t \<Rightarrow> now \<le> t))
   \<and> hb_operator_kill h = kill \<and> hb_heartbeat_ts_ns h = now
   \<and> hb_reconciliation_complete h = hl_reconciliation_complete l"
  by (auto simp: publish_def Let_def split: option.splits)

end
