(* ===== verification/Gateway.thy ===== *)
theory Gateway
  imports Risk_Authority Execution_Journal Heartbeat
begin

text \<open>
  The execution gateway of \<open>execution/strategy.py\<close>, the only component that hands orders to the
  exchange adapter. Its state holds the risk authority, the journal, the heartbeat lease, the
  cancel budget, and the lists of everything handed to the adapter and to the decision
  pipeline. NautilusTrader is outside the repository: whether its order cache knows an order,
  the identity its factory gives an order and whether an adapter call raises are inputs of a
  call, as are the readings of clock, kill switch and \<open>uuid4\<close>, numbered in the order in which
  the call takes them. Metrics and the operational evidence log have no effect on the state
  and are left out.
\<close>

section \<open>Commands and inputs\<close>

record nautilus_order =
  no_client_order_id :: string
  no_intent_tag :: string
  no_side :: order_side
  no_kind :: order_kind
  no_quantity :: dec
  no_price :: "dec option"
  no_time_in_force :: time_in_force
  no_post_only :: bool
  no_reduce_only :: bool

datatype nautilus_command =
    SubmitOrder nautilus_order
  | ModifyOrder string dec dec
  | CancelOrder string
  | CancelAllOrders

text \<open>An admission guard as one call reads it: \<open>is_active\<close>, the limit, \<open>require_active\<close>.\<close>

record admission_guard =
  ag_active :: bool
  ag_capital_limit_usd :: dec
  ag_require_error :: "py_error option"

record gateway_call =
  gc_clock :: "nat \<Rightarrow> int"
  gc_uuid :: "nat \<Rightarrow> string"
  gc_kill :: "nat \<Rightarrow> bool"
  gc_guard :: "admission_guard option"
  gc_factory_id :: "string option"
  gc_cached :: "string \<Rightarrow> bool"
  gc_adapter_error :: "py_error option"

record gateway =
  gw_authority :: authority
  gw_journal :: journal
  gw_lease :: health_lease
  gw_cancel_times_ns :: "int list"
  gw_reconciliation_complete :: bool
  gw_startup_order_drain :: bool
  gw_risk_cancel_pending :: bool
  gw_pending_strategy_cancels :: "string set"
  gw_last_risk_state :: "risk_state option"
  gw_handed :: "nautilus_command list"
  gw_released :: "string list"
  gw_commits :: "(string set \<times> string set) list"

definition new_gateway :: gateway where
  "new_gateway =
     \<lparr>gw_authority = new_authority, gw_journal = new_journal, gw_lease = new_lease,
      gw_cancel_times_ns = [], gw_reconciliation_complete = False, gw_startup_order_drain = False,
      gw_risk_cancel_pending = False, gw_pending_strategy_cancels = {}, gw_last_risk_state = None,
      gw_handed = [], gw_released = [], gw_commits = []\<rparr>"

section \<open>Journal access\<close>

definition reason_value :: "risk_reason \<Rightarrow> string" where
  "reason_value r =
     (case r of APPROVED \<Rightarrow> ''approved'' | OPERATOR_KILL \<Rightarrow> ''operator_kill''
      | FLATTEN_REQUESTED \<Rightarrow> ''flatten_requested'' | EXCHANGE_DISCONNECTED \<Rightarrow> ''exchange_disconnected''
      | RECONCILIATION_INCOMPLETE \<Rightarrow> ''reconciliation_incomplete''
      | PUBLIC_DATA_STALE \<Rightarrow> ''public_data_stale'' | PRIVATE_DATA_STALE \<Rightarrow> ''private_data_stale''
      | INVALID_ACCOUNT_STATE \<Rightarrow> ''invalid_account_state''
      | DEPLOYMENT_APPROVAL_INVALID \<Rightarrow> ''deployment_approval_invalid''
      | CAPITAL_LIMIT \<Rightarrow> ''capital_limit'' | DAILY_LOSS_LIMIT \<Rightarrow> ''daily_loss_limit''
      | DRAWDOWN_LIMIT \<Rightarrow> ''drawdown_limit'' | ORDER_SIZE_LIMIT \<Rightarrow> ''order_size_limit''
      | ORDER_NOTIONAL_LIMIT \<Rightarrow> ''order_notional_limit'' | POSITION_LIMIT \<Rightarrow> ''position_limit''
      | INVENTORY_LIMIT \<Rightarrow> ''inventory_limit'' | LEVERAGE_LIMIT \<Rightarrow> ''leverage_limit''
      | OPEN_ORDER_LIMIT \<Rightarrow> ''open_order_limit''
      | INFLIGHT_REQUEST_LIMIT \<Rightarrow> ''inflight_request_limit''
      | ORDER_RATE_LIMIT \<Rightarrow> ''order_rate_limit'' | REDUCE_ONLY_REQUIRED \<Rightarrow> ''reduce_only_required''
      | NOT_POSITION_REDUCING \<Rightarrow> ''not_position_reducing'' | INTENT_TOO_OLD \<Rightarrow> ''intent_too_old''
      | INVALID_TIMESTAMP \<Rightarrow> ''invalid_timestamp'')"

definition reasons_text :: "risk_decision \<Rightarrow> string" where
  "reasons_text d = comma_join (map reason_value (rd_reasons d))"

text \<open>\<open>_event\<close>: the event of the \<open>n\<close>-th reading of the call; pydantic validates it.\<close>

definition make_event ::
  "gateway_call \<Rightarrow> nat \<Rightarrow> string \<Rightarrow> execution_state \<Rightarrow> string \<Rightarrow> event_origin \<Rightarrow> string option
     \<Rightarrow> string option \<Rightarrow> dec \<Rightarrow> journal_event res" where
  "make_event c n intent st detail source cid vid filled =
     (let e = \<lparr>je_event_id = gc_uuid c n, je_intent_id = intent, je_client_order_id = cid,
               je_venue_order_id = vid, je_state = st, je_event_ts_ns = gc_clock c n,
               je_filled_quantity_base = filled, je_detail = detail, je_source = source\<rparr>
      in case journal_event_error e of Some m \<Rightarrow> Inl (ValidationError m) | None \<Rightarrow> Inr e)"

text \<open>\<open>_journal_begin\<close> and \<open>_journal_append\<close> of such an event.\<close>

definition journal_write ::
  "(journal \<Rightarrow> journal_event \<Rightarrow> journal res) \<Rightarrow> journal_event res \<Rightarrow> gateway \<Rightarrow> gateway \<times> unit res" where
  "journal_write operation ev g =
     (case bindE ev (operation (gw_journal g)) of
        Inl err \<Rightarrow> (g, Inl err)
      | Inr j \<Rightarrow> (g\<lparr>gw_journal := j\<rparr>, Inr ()))"

text \<open>A call of the adapter: it is handed the command and may raise.\<close>

definition hand_over :: "gateway_call \<Rightarrow> nautilus_command \<Rightarrow> gateway \<Rightarrow> gateway \<times> unit res" where
  "hand_over c cmd g =
     (g\<lparr>gw_handed := gw_handed g @ [cmd]\<rparr>,
      case gc_adapter_error c of None \<Rightarrow> Inr () | Some e \<Rightarrow> Inl e)"

section \<open>Risk state and health\<close>

definition world_of :: "gateway_call \<Rightarrow> nat \<Rightarrow> gateway \<Rightarrow> risk_world" where
  "world_of c n g =
     \<lparr>rw_now = gc_clock c n, rw_kill_active = gc_kill c n,
      rw_inflight = unresolved_command_count (gw_journal g)\<rparr>"

definition guarded_snapshot :: "gateway_call \<Rightarrow> risk_snapshot \<Rightarrow> risk_snapshot" where
  "guarded_snapshot c s =
     (case gc_guard c of
        None \<Rightarrow> s
      | Some gd \<Rightarrow> s\<lparr>rs_deployment_approved := ag_active gd,
                     rs_approved_capital_limit_usd := Some (ag_capital_limit_usd gd)\<rparr>)"

definition update_risk_health ::
  "risk_limits \<Rightarrow> int \<Rightarrow> risk_snapshot \<Rightarrow> risk_state \<Rightarrow> gateway \<Rightarrow> gateway" where
  "update_risk_health l now s st g =
     g\<lparr>gw_lease := set_health now
         (rs_exchange_connected s \<and> rs_reconciliation_complete s \<and> rs_deployment_approved s
          \<and> \<not> rs_operator_kill s \<and> st \<in> {ACTIVE, REDUCE_ONLY, FLATTENING})
         (rs_reconciliation_complete s)
         (Some (min (rl_public_data_stale_after_ms l) (rl_private_data_stale_after_ms l)))\<rparr>"

section \<open>Orders\<close>

definition make_order :: "gateway_call \<Rightarrow> order_intent \<Rightarrow> nautilus_order res" where
  "make_order c i =
     (case gc_factory_id c of
        None \<Rightarrow> Inl (RuntimeError ''execution strategy is not registered with a TradingNode'')
      | Some cid \<Rightarrow>
          (case oi_kind i of
             MARKET \<Rightarrow> Inr
               \<lparr>no_client_order_id = cid, no_intent_tag = oi_intent_id i, no_side = oi_side i,
                no_kind = MARKET, no_quantity = oi_quantity_base i, no_price = None,
                no_time_in_force = oi_time_in_force i, no_post_only = False,
                no_reduce_only = oi_reduce_only i\<rparr>
           | LIMIT \<Rightarrow>
               (case oi_limit_price i of
                  None \<Rightarrow> Inl (ValueError ''limit intent is missing its price'')
                | Some p \<Rightarrow> Inr
                    \<lparr>no_client_order_id = cid, no_intent_tag = oi_intent_id i, no_side = oi_side i,
                     no_kind = LIMIT, no_quantity = oi_quantity_base i, no_price = Some p,
                     no_time_in_force = oi_time_in_force i, no_post_only = oi_post_only i,
                     no_reduce_only = oi_reduce_only i\<rparr>)))"

text \<open>
  The block guarded by \<open>try\<close> in \<open>execute_intent\<close>: the admission guard and the consumption of
  the approval; a \<open>ValueError\<close> denies the journaled intent and is raised again.
\<close>

definition authorize ::
  "authority_env \<Rightarrow> gateway_call \<Rightarrow> nat \<Rightarrow> risk_decision \<Rightarrow> order_intent \<Rightarrow> risk_snapshot
     \<Rightarrow> gateway \<Rightarrow> gateway \<times> unit res" where
  "authorize env c n d i s g =
     (case (case gc_guard c of None \<Rightarrow> None | Some gd \<Rightarrow> ag_require_error gd) of
        Some e \<Rightarrow> (g, Inl e)
      | None \<Rightarrow>
          (let (a, r) = consume env (world_of c n g) (gw_authority g) d i s
           in (g\<lparr>gw_authority := a\<rparr>, r)))"

definition deny_unless ::
  "gateway_call \<Rightarrow> nat \<Rightarrow> string \<Rightarrow> string \<Rightarrow> gateway \<times> unit res \<Rightarrow> gateway \<times> unit res" where
  "deny_unless c n intent cid m =
     (case m of
        (g, Inl e) \<Rightarrow>
          if is_value_error e
          then bindS (journal_write append_event
                 (make_event c n intent DENIED
                   (''approval invalid before dispatch: '' @ error_name e) FROM_RISK (Some cid) None 0) g)
                 (\<lambda>g' _. (g', Inl e))
          else (g, Inl e)
      | (g, Inr u) \<Rightarrow> (g, Inr u))"

text \<open>The block around an adapter call: an exception marks the intent unknown and is raised again.\<close>

definition unknown_unless ::
  "gateway_call \<Rightarrow> nat \<Rightarrow> string \<Rightarrow> string \<Rightarrow> (string \<Rightarrow> string) \<Rightarrow> gateway \<times> unit res
     \<Rightarrow> gateway \<times> unit res" where
  "unknown_unless c n intent cid detail m =
     (case m of
        (g, Inl e) \<Rightarrow>
          bindS (journal_write append_event
            (make_event c n intent UNKNOWN (detail (error_name e)) FROM_NAUTILUS (Some cid) None 0) g)
            (\<lambda>g' _. (g', Inl e))
      | (g, Inr u) \<Rightarrow> (g, Inr u))"

text \<open>\<open>execute_intent\<close>: the part of an approved intent after its order is made, and the whole.\<close>

definition dispatch_order ::
  "authority_env \<Rightarrow> gateway_call \<Rightarrow> risk_decision \<Rightarrow> order_intent \<Rightarrow> risk_snapshot \<Rightarrow> nautilus_order
     \<Rightarrow> gateway \<Rightarrow> gateway \<times> (risk_decision \<times> string option) res" where
  "dispatch_order env c d i s order g =
     (let intent = oi_intent_id i; cid = no_client_order_id order in
      bindS (journal_write begin_order
        (make_event c 2 intent PENDING_SUBMIT ''intent and client order identity durably reserved''
          FROM_RISK (Some cid) None 0) g) (\<lambda>g3 _.
      bindS (deny_unless c 4 intent cid (authorize env c 3 d i s g3)) (\<lambda>g4 _.
      bindS (journal_write append_event
        (make_event c 4 intent SUBMITTED ''authorized adapter dispatch beginning''
          FROM_NAUTILUS (Some cid) None 0) g4) (\<lambda>g5 _.
      bindS (unknown_unless c 5 intent cid
        (\<lambda>name. ''submission raised '' @ name @ ''; reconcile before any retry'')
        (hand_over c (SubmitOrder order) g5)) (\<lambda>g6 _.
      (g6, Inr (d, Some cid)))))))"

definition execute_intent ::
  "authority_env \<Rightarrow> gateway_call \<Rightarrow> order_intent \<Rightarrow> risk_snapshot \<Rightarrow> gateway
     \<Rightarrow> gateway \<times> (risk_decision \<times> string option) res" where
  "execute_intent env c i snapshot g =
     (let s = guarded_snapshot c snapshot;
          (a, d) = evaluate env (world_of c 0 g) (gc_uuid c 0) (gw_authority g) i s;
          g1 = update_risk_health (ae_limits env) (gc_clock c 1) s (rd_state d) (g\<lparr>gw_authority := a\<rparr>)
      in if \<not> rd_allowed d then
           bindS (journal_write begin_order
             (make_event c 2 (oi_intent_id i) PENDING_SUBMIT ''intent entered synchronous risk gate''
               FROM_RISK None None 0) g1) (\<lambda>g2 _.
           bindS (journal_write append_event
             (make_event c 3 (oi_intent_id i) DENIED (reasons_text d) FROM_RISK None None 0) g2) (\<lambda>g3 _.
           (g3, Inr (d, None))))
         else bindS (g1, make_order c i) (\<lambda>g2 order. dispatch_order env c d i s order g2))"

definition require_order :: "string \<Rightarrow> gateway \<Rightarrow> (order_row \<times> string) res" where
  "require_order intent g =
     (case current (gw_journal g) intent of
        None \<Rightarrow> Inl (ValueError ''no submitted order for intent'')
      | Some row \<Rightarrow>
          (case ow_client_order_id row of
             None \<Rightarrow> Inl (ValueError ''no submitted order for intent'')
           | Some cid \<Rightarrow>
               if ow_state row \<in> terminal_states then Inl (ValueError ''intent is already terminal'')
               else Inr (row, cid)))"

definition replace_order ::
  "authority_env \<Rightarrow> gateway_call \<Rightarrow> string \<Rightarrow> order_intent \<Rightarrow> risk_snapshot \<Rightarrow> gateway
     \<Rightarrow> gateway \<times> risk_decision res" where
  "replace_order env c intent replacement snapshot g =
     bindS (g, require_order intent g) (\<lambda>g (row, cid).
     if \<not> gc_cached c cid
     then (g, Inl (ValueError ''cannot modify an order absent from the reconciled Nautilus cache''))
     else (case (oi_kind replacement, oi_limit_price replacement) of
       (LIMIT, Some price) \<Rightarrow>
         (let s = guarded_snapshot c snapshot;
              (a, d) = evaluate env (world_of c 0 g) (gc_uuid c 0) (gw_authority g) replacement s;
              g1 = update_risk_health (ae_limits env) (gc_clock c 1) s (rd_state d) (g\<lparr>gw_authority := a\<rparr>)
          in if \<not> rd_allowed d then
               bindS (journal_write append_event
                 (make_event c 2 intent (ow_state row) (''replacement denied: '' @ reasons_text d)
                   FROM_RISK (Some cid) None 0) g1) (\<lambda>g2 _. (g2, Inr d))
             else
               bindS (authorize env c 3 d replacement s g1) (\<lambda>g2 _.
               bindS (journal_write append_event
                 (make_event c 4 intent PENDING_MODIFY
                   (''approved replacement intent '' @ oi_intent_id replacement)
                   FROM_RISK (Some cid) None 0) g2) (\<lambda>g3 _.
               bindS (unknown_unless c 5 intent cid
                 (\<lambda>name. ''modify raised '' @ name @ ''; reconcile original CLOID'')
                 (hand_over c (ModifyOrder cid (oi_quantity_base replacement) price) g3)) (\<lambda>g4 _.
               (g4, Inr d)))))
     | _ \<Rightarrow> (g, Inl (ValueError ''cancel-replace requires a priced limit intent''))))"

section \<open>Cancellation\<close>

definition consume_cancel_budget :: "risk_limits \<Rightarrow> int \<Rightarrow> gateway \<Rightarrow> gateway \<times> unit res" where
  "consume_cancel_budget l now g =
     (let times = dropWhile (\<lambda>t. t \<le> now - 1000000000) (gw_cancel_times_ns g)
      in if rl_max_cancels_per_second l \<le> int (length times)
         then (g\<lparr>gw_cancel_times_ns := times\<rparr>, Inl (ValueError ''cancel rate limit reached''))
         else (g\<lparr>gw_cancel_times_ns := times @ [now]\<rparr>, Inr ()))"

definition cancel :: "risk_limits \<Rightarrow> gateway_call \<Rightarrow> string \<Rightarrow> gateway \<Rightarrow> gateway \<times> unit res" where
  "cancel l c intent g =
     bindS (consume_cancel_budget l (gc_clock c 0) g) (\<lambda>g1 _.
     bindS (g1, require_order intent g1) (\<lambda>g1 (row, cid).
     if \<not> gc_cached c cid
     then (g1, Inl (ValueError ''cannot cancel an order absent from the reconciled Nautilus cache''))
     else
       bindS (journal_write append_event
         (make_event c 1 intent PENDING_CANCEL ''cancel handed to Nautilus execution engine''
           FROM_OPERATOR (Some cid) None 0) g1) (\<lambda>g2 _.
       unknown_unless c 2 intent cid
         (\<lambda>name. ''cancel raised '' @ name @ ''; reconcile original CLOID'')
         (hand_over c (CancelOrder cid) g2))))"

definition cancel_all :: "risk_limits \<Rightarrow> gateway_call \<Rightarrow> gateway \<Rightarrow> gateway \<times> unit res" where
  "cancel_all l c g =
     bindS (consume_cancel_budget l (gc_clock c 0) g) (\<lambda>g1 _. hand_over c CancelAllOrders g1)"

section \<open>Order events\<close>

record order_event =
  ov_client_order_id :: string
  ov_venue_order_id :: "string option"
  ov_reason :: "string option"
  ov_type_name :: string

text \<open>A fill carries the last quantity and, when the cache knows the order, whether it is
  closed and its filled quantity.\<close>

datatype order_event_kind =
    OnSubmitted | OnAccepted | OnUpdated | OnRejected | OnDenied | OnCanceled | OnExpired
  | OnCancelRejected | OnModifyRejected | OnFilled dec "(bool \<times> dec) option"

definition event_reason :: "order_event \<Rightarrow> string" where
  "event_reason e =
     (case ov_reason e of
        None \<Rightarrow> ov_type_name e
      | Some r \<Rightarrow> if r = [] then ov_type_name e else take 1024 r)"

text \<open>\<open>_record_order_event\<close>: an event of an order the journal does not know is ignored.\<close>

definition record_order_event ::
  "gateway_call \<Rightarrow> order_event \<Rightarrow> execution_state \<Rightarrow> string \<Rightarrow> dec \<Rightarrow> gateway
     \<Rightarrow> gateway \<times> string option res" where
  "record_order_event c e st detail filled g =
     (case by_client_order_id (gw_journal g) (ov_client_order_id e) of
        None \<Rightarrow> (g, Inr None)
      | Some row \<Rightarrow>
          bindS (journal_write append_event
            (make_event c 0 (ow_intent_id row) st detail FROM_NAUTILUS (Some (ov_client_order_id e))
              (ov_venue_order_id e) filled) g)
            (\<lambda>g' _. (g', Inr (Some (ow_intent_id row)))))"

definition release_terminal_intent :: "string option \<Rightarrow> gateway \<Rightarrow> gateway" where
  "release_terminal_intent intent g =
     (case intent of
        None \<Rightarrow> g
      | Some i \<Rightarrow> g\<lparr>gw_pending_strategy_cancels := gw_pending_strategy_cancels g - {i},
                   gw_released := gw_released g @ [i]\<rparr>)"

definition discard_pending :: "string option \<Rightarrow> gateway \<Rightarrow> gateway" where
  "discard_pending intent g =
     (case intent of
        None \<Rightarrow> g
      | Some i \<Rightarrow> g\<lparr>gw_pending_strategy_cancels := gw_pending_strategy_cancels g - {i}\<rparr>)"

fun on_order_event ::
  "gateway_call \<Rightarrow> order_event \<Rightarrow> order_event_kind \<Rightarrow> gateway \<Rightarrow> gateway \<times> unit res" where
  "on_order_event c e OnSubmitted g =
     bindS (record_order_event c e SUBMITTED ''venue submission dispatched'' 0 g) (\<lambda>g _. (g, Inr ()))"
| "on_order_event c e OnAccepted g =
     bindS (record_order_event c e ACCEPTED ''order accepted'' 0 g) (\<lambda>g _. (g, Inr ()))"
| "on_order_event c e OnUpdated g =
     bindS (record_order_event c e ACCEPTED ''cancel-replace accepted'' 0 g) (\<lambda>g _. (g, Inr ()))"
| "on_order_event c e OnRejected g =
     bindS (record_order_event c e REJECTED (event_reason e) 0 g)
       (\<lambda>g i. (release_terminal_intent i g, Inr ()))"
| "on_order_event c e OnDenied g =
     bindS (record_order_event c e DENIED (event_reason e) 0 g)
       (\<lambda>g i. (release_terminal_intent i g, Inr ()))"
| "on_order_event c e OnCanceled g =
     bindS (record_order_event c e CANCELED ''order canceled'' 0 g)
       (\<lambda>g i. ((release_terminal_intent i g)\<lparr>gw_risk_cancel_pending := False\<rparr>, Inr ()))"
| "on_order_event c e OnExpired g =
     bindS (record_order_event c e CANCELED ''order expired'' 0 g)
       (\<lambda>g i. (release_terminal_intent i g, Inr ()))"
| "on_order_event c e OnCancelRejected g =
     bindS (record_order_event c e ACCEPTED (event_reason e) 0 g)
       (\<lambda>g i. ((discard_pending i g)\<lparr>gw_risk_cancel_pending := False\<rparr>, Inr ()))"
| "on_order_event c e OnModifyRejected g =
     bindS (record_order_event c e ACCEPTED (event_reason e) 0 g) (\<lambda>g _. (g, Inr ()))"
| "on_order_event c e (OnFilled last_qty cached) g =
     (let final = (case cached of None \<Rightarrow> False | Some (is_closed, _) \<Rightarrow> is_closed);
          filled = (case cached of None \<Rightarrow> last_qty | Some (_, q) \<Rightarrow> q)
      in bindS (record_order_event c e (if final then FILLED else PARTIALLY_FILLED) ''fill received'' filled g)
           (\<lambda>g i. (if final then release_terminal_intent i g else g, Inr ())))"

section \<open>The live cycle\<close>

text \<open>
  What one market update brings: the risk snapshot built from account and book, the decision of
  the pipeline (which the strategies' theories model), and the inputs of the nested calls,
  numbered in the order the cycle makes them.
\<close>

record live_cycle =
  lc_cancel_intent_ids :: "string list"
  lc_submit :: "order_intent list"

record live_tick =
  lt_call :: gateway_call
  lt_nested :: "nat \<Rightarrow> gateway_call"
  lt_snapshot :: "risk_snapshot res"
  lt_cycle :: "live_cycle res"
  lt_next_snapshot :: "nat \<Rightarrow> risk_snapshot res"

fun cancel_each ::
  "risk_limits \<Rightarrow> (nat \<Rightarrow> gateway_call) \<Rightarrow> nat \<Rightarrow> string list \<Rightarrow> string set \<Rightarrow> gateway
     \<Rightarrow> gateway \<times> string set res" where
  "cancel_each l cs n [] sent g = (g, Inr sent)"
| "cancel_each l cs n (intent # rest) sent g =
     (if intent \<in> gw_pending_strategy_cancels g then cancel_each l cs n rest sent g
      else (case current (gw_journal g) intent of
        None \<Rightarrow> (g, Inl (ValueError ''live strategy references an unjournaled intent''))
      | Some row \<Rightarrow>
          if ow_state row \<in> terminal_states
          then cancel_each l cs n rest sent (g\<lparr>gw_released := gw_released g @ [intent]\<rparr>)
          else bindS (cancel l (cs n) intent g) (\<lambda>g1 _.
            cancel_each l cs (Suc n) rest (insert intent sent)
              (g1\<lparr>gw_pending_strategy_cancels := insert intent (gw_pending_strategy_cancels g1)\<rparr>))))"

text \<open>The submissions run under \<open>try/finally\<close>: the set dispatched so far survives an exception.\<close>

fun submit_each ::
  "authority_env \<Rightarrow> (nat \<Rightarrow> gateway_call) \<Rightarrow> (nat \<Rightarrow> risk_snapshot res) \<Rightarrow> nat \<Rightarrow> order_intent list
     \<Rightarrow> string set \<Rightarrow> gateway \<Rightarrow> (gateway \<times> string set) \<times> unit res" where
  "submit_each env cs ss n [] sent g = ((g, sent), Inr ())"
| "submit_each env cs ss n (i # rest) sent g =
     (case ss n of
        Inl e \<Rightarrow> ((g, sent), Inl e)
      | Inr s \<Rightarrow>
          (case execute_intent env (cs n) i s g of
             (g1, Inl e) \<Rightarrow> ((g1, sent), Inl e)
           | (g1, Inr (d, cid)) \<Rightarrow>
               submit_each env cs ss (Suc n) rest
                 (if rd_allowed d \<and> cid \<noteq> None then insert (oi_intent_id i) sent else sent) g1))"

definition process_live_market ::
  "authority_env \<Rightarrow> live_tick \<Rightarrow> gateway \<Rightarrow> gateway \<times> unit res" where
  "process_live_market env t g =
     (let c = lt_call t; l = ae_limits env; n0 = lt_nested t 0 in
      bindS (g, lt_snapshot t) (\<lambda>g raw.
      let s = guarded_snapshot c raw;
          st = fst (assess_state l (gc_kill c 0) s (gc_clock c 0));
          g1 = (update_risk_health l (gc_clock c 1) s st g)\<lparr>gw_last_risk_state := Some st\<rparr>;
          has_open = (rs_open_order_count s \<noteq> 0)
      in bindS (if st \<noteq> ACTIVE \<and> has_open \<and> \<not> gw_risk_cancel_pending g1
                then bindS (cancel_all l n0 g1) (\<lambda>g _. (g\<lparr>gw_risk_cancel_pending := True\<rparr>, Inr ()))
                else (g1, Inr ())) (\<lambda>g2 _.
      if st \<noteq> ACTIVE \<and> (has_open \<or> st \<in> {CANCEL_ONLY, HALTED}) then (g2, Inr ())
      else if gw_risk_cancel_pending g2 \<and> has_open then (g2, Inr ())
      else let g3 = g2\<lparr>gw_risk_cancel_pending := False\<rparr> in
      if gw_startup_order_drain g3 \<and> has_open
      then bindS (cancel_all l n0 g3) (\<lambda>g _. (g\<lparr>gw_risk_cancel_pending := True\<rparr>, Inr ()))
      else let g4 = g3\<lparr>gw_startup_order_drain := False\<rparr> in
      bindS (g4, lt_cycle t) (\<lambda>g4 cycle.
      if lc_cancel_intent_ids cycle \<noteq> [] then
        bindS (cancel_each l (lt_nested t) 1 (lc_cancel_intent_ids cycle) {} g4) (\<lambda>g5 sent.
        (g5\<lparr>gw_commits := gw_commits g5 @ [({}, sent)]\<rparr>, Inr ()))
      else
        (case submit_each env (lt_nested t) (lt_next_snapshot t) 1 (lc_submit cycle) {} g4 of
           ((g5, sent), r) \<Rightarrow> (g5\<lparr>gw_commits := gw_commits g5 @ [(sent, {})]\<rparr>, r))))))"

text \<open>\<open>_fail_closed_live_cycle\<close> after an exception of a market callback, which is raised again.\<close>

definition fail_closed ::
  "risk_limits \<Rightarrow> gateway_call \<Rightarrow> int res \<Rightarrow> gateway \<Rightarrow> gateway" where
  "fail_closed l c open_orders g =
     (let g1 = g\<lparr>gw_lease := set_health (gc_clock c 9) False False None\<rparr>
      in case open_orders of
           Inl _ \<Rightarrow> g1
         | Inr n \<Rightarrow> if n \<noteq> 0 then fst (cancel_all l c g1) else g1)"

definition on_market_update ::
  "authority_env \<Rightarrow> live_tick \<Rightarrow> gateway_call \<Rightarrow> int res \<Rightarrow> gateway \<Rightarrow> gateway \<times> unit res" where
  "on_market_update env t fc open_orders g =
     (case process_live_market env t g of
        (g1, Inr u) \<Rightarrow> (g1, Inr u)
      | (g1, Inl e) \<Rightarrow> (fail_closed (ae_limits env) fc open_orders g1, Inl e))"

section \<open>Start and stop\<close>

definition on_start :: "risk_limits \<Rightarrow> gateway_call \<Rightarrow> bool \<Rightarrow> int \<Rightarrow> gateway \<Rightarrow> gateway \<times> unit res" where
  "on_start l c live open_orders g =
     bindS (if live then
              let g1 = g\<lparr>gw_reconciliation_complete := True, gw_startup_order_drain := (open_orders \<noteq> 0)\<rparr>
              in if open_orders \<noteq> 0
                 then bindS (cancel_all l c g1) (\<lambda>g _. (g\<lparr>gw_risk_cancel_pending := True\<rparr>, Inr ()))
                 else (g1, Inr ())
            else (g, Inr ()))
       (\<lambda>g _. (g\<lparr>gw_lease := set_health (gc_clock c 9) False (gw_reconciliation_complete g) None\<rparr>, Inr ()))"

definition on_stop :: "gateway_call \<Rightarrow> gateway \<Rightarrow> gateway" where
  "on_stop c g = g\<lparr>gw_reconciliation_complete := False,
                   gw_lease := set_health (gc_clock c 9) False False None\<rparr>"


section \<open>Runs\<close>

text \<open>Every entry point of the gateway, and the periodic marking of stale commands.\<close>

datatype gateway_op =
    ExecuteOp gateway_call order_intent risk_snapshot
  | ReplaceOp gateway_call string order_intent risk_snapshot
  | CancelOp gateway_call string
  | CancelAllOp gateway_call
  | OrderEventOp gateway_call order_event order_event_kind
  | MarketOp live_tick gateway_call "int res"
  | StaleOp int "string \<Rightarrow> string" int
  | StartOp gateway_call bool int
  | StopOp gateway_call

fun gateway_step :: "authority_env \<Rightarrow> gateway \<Rightarrow> gateway_op \<Rightarrow> gateway" where
  "gateway_step env g (ExecuteOp c i s) = fst (execute_intent env c i s g)"
| "gateway_step env g (ReplaceOp c intent i s) = fst (replace_order env c intent i s g)"
| "gateway_step env g (CancelOp c intent) = fst (cancel (ae_limits env) c intent g)"
| "gateway_step env g (CancelAllOp c) = fst (cancel_all (ae_limits env) c g)"
| "gateway_step env g (OrderEventOp c e k) = fst (on_order_event c e k g)"
| "gateway_step env g (MarketOp t fc n) = fst (on_market_update env t fc n g)"
| "gateway_step env g (StaleOp cutoff fresh now) =
     g\<lparr>gw_journal := journal_step (gw_journal g) (MarkStale cutoff fresh now)\<rparr>"
| "gateway_step env g (StartOp c live n) = fst (on_start (ae_limits env) c live n g)"
| "gateway_step env g (StopOp c) = on_stop c g"

text \<open>The orders submitted so far, and the exposure commands among all commands.\<close>

fun submitted :: "nautilus_command list \<Rightarrow> nautilus_order list" where
  "submitted [] = []"
| "submitted (SubmitOrder ord # cmds) = ord # submitted cmds"
| "submitted (_ # cmds) = submitted cmds"

fun exposure_command :: "nautilus_command \<Rightarrow> bool" where
  "exposure_command (SubmitOrder _) = True"
| "exposure_command (ModifyOrder _ _ _) = True"
| "exposure_command _ = False"

definition bound :: "journal \<Rightarrow> string \<Rightarrow> string \<Rightarrow> bool" where
  "bound j intent cid \<longleftrightarrow>
     (\<exists>r. current j intent = Some r \<and> ow_client_order_id r = Some cid)"

definition gateway_inv :: "gateway \<Rightarrow> bool" where
  "gateway_inv g \<longleftrightarrow>
     journal_inv (gw_journal g)
   \<and> distinct (map no_intent_tag (submitted (gw_handed g)))
   \<and> (\<forall>ord \<in> set (submitted (gw_handed g)).
        bound (gw_journal g) (no_intent_tag ord) (no_client_order_id ord))"

definition evolves :: "gateway \<Rightarrow> gateway \<Rightarrow> bool" where
  "evolves g g' \<longleftrightarrow>
     (\<exists>cmds. gw_handed g' = gw_handed g @ cmds)
   \<and> journal_rel (gw_journal g) (gw_journal g')
   \<and> (\<forall>i cid. bound (gw_journal g) i cid \<longrightarrow> bound (gw_journal g') i cid)"

text \<open>A part of a handler that submits nothing: what it keeps and how it moves the state.\<close>

definition quiet :: "gateway \<Rightarrow> gateway \<Rightarrow> bool" where
  "quiet g g' \<longleftrightarrow>
     evolves g g' \<and> journal_inv (gw_journal g') \<and> submitted (gw_handed g') = submitted (gw_handed g)"

section \<open>Lemmas\<close>

lemma submitted_append [simp]: "submitted (xs @ ys) = submitted xs @ submitted ys"
  by (induction xs rule: submitted.induct) auto

lemma submitted_other [simp]: "\<not> exposure_command c \<Longrightarrow> submitted [c] = []"
  by (cases c) auto

lemma evolves_refl [simp]: "evolves g g"
  by (simp add: evolves_def journal_rel_refl)

lemma evolves_trans: "evolves a b \<Longrightarrow> evolves b c \<Longrightarrow> evolves a c"
  unfolding evolves_def by (metis append_assoc journal_rel_trans)

lemma quiet_refl: "journal_inv (gw_journal g) \<Longrightarrow> quiet g g"
  by (simp add: quiet_def)

lemma quiet_trans: "quiet a b \<Longrightarrow> quiet b c \<Longrightarrow> quiet a c"
  unfolding quiet_def by (metis evolves_trans)

lemma quiet_same:
  "journal_inv (gw_journal g) \<Longrightarrow> gw_journal g' = gw_journal g \<Longrightarrow> gw_handed g' = gw_handed g \<Longrightarrow> quiet g g'"
  by (simp add: quiet_def evolves_def journal_rel_refl)

lemma quiet_bindS:
  assumes "quiet g (fst m)" "\<And>g1 x. m = (g1, Inr x) \<Longrightarrow> quiet g g1 \<Longrightarrow> quiet g1 (fst (f g1 x))"
  shows "quiet g (fst (bindS m f))"
  using assms by (cases m; cases "snd m") (auto intro: quiet_trans)

lemma quiet_inv: "gateway_inv g \<Longrightarrow> quiet g g' \<Longrightarrow> gateway_inv g'"
  by (auto simp: gateway_inv_def quiet_def evolves_def)

lemma quiet_bound: "quiet g g' \<Longrightarrow> bound (gw_journal g) i cid \<Longrightarrow> bound (gw_journal g') i cid"
  by (auto simp: quiet_def evolves_def)

lemma quiet_jinv: "quiet g g' \<Longrightarrow> journal_inv (gw_journal g')"
  by (simp add: quiet_def)

lemma bound_apply:
  assumes "append_event j e = Inr j'" "je_client_order_id e = None \<or> bound j (je_intent_id e) (the (je_client_order_id e))"
    and "bound j i cid"
  shows "bound j' i cid"
proof -
  obtain row where row: "current j (je_intent_id e) = Some row"
    and ins: "insert_event (update_row j (je_intent_id e) (apply_event e)) e = Inr j'"
    using assms(1) by (auto simp: append_event_def split: option.splits if_splits)
  obtain r where r: "current j i = Some r" "ow_client_order_id r = Some cid"
    using assms(3) by (auto simp: bound_def)
  have j': "current j' i = Some (if ow_intent_id r = je_intent_id e then apply_event e r else r)"
    using ins r by (simp add: insert_event_Inr current_update_row apply_event_def)
  have "ow_client_order_id (apply_event e r) = Some cid" if "ow_intent_id r = je_intent_id e"
  proof -
    have "r = row" using that r row current_Some [OF r(1)] by simp
    then show ?thesis using assms(2) r(2) row
      by (auto simp: bound_def apply_event_def coalesce_def split: option.splits)
  qed
  then show ?thesis using j' r(2) by (simp add: bound_def)
qed

lemma bound_begin: "begin_order j e = Inr j' \<Longrightarrow> bound j i cid \<Longrightarrow> bound j' i cid"
proof -
  assume ok: "begin_order j e = Inr j'" and b: "bound j i cid"
  obtain r where "jn_orders j' = jn_orders j @ [r]"
    using ok by (auto simp: begin_order_def insert_event_Inr split: if_splits)
  with b show ?thesis by (auto simp: bound_def current_def find_snoc)
qed

lemma bound_mark_unknown:
  assumes "mark_unknown e j = Inr j'" "bound j i cid"
  shows "bound j' i cid"
proof -
  obtain r where r: "current j i = Some r" "ow_client_order_id r = Some cid"
    using assms(2) by (auto simp: bound_def)
  have "current j' i = Some (if ow_intent_id r = je_intent_id e
      then r\<lparr>ow_state := UNKNOWN, ow_updated_ts_ns := je_event_ts_ns e\<rparr> else r)"
    using assms(1) r(1) by (simp add: mark_unknown_def insert_event_Inr current_update_row)
  then show ?thesis using r(2) by (simp add: bound_def)
qed

lemma bound_mark_rows: "mark_rows f rows j = Inr j' \<Longrightarrow> bound j i cid \<Longrightarrow> bound j' i cid"
  by (induction rows arbitrary: j) (auto simp: bindE_eq_Inr_iff intro: bound_mark_unknown)

lemma make_event_Inr:
  "make_event c n i st detail source cid vid filled = Inr e \<Longrightarrow>
     je_intent_id e = i \<and> je_state e = st \<and> je_client_order_id e = cid \<and> je_event_ts_ns e = gc_clock c n"
  by (auto simp: make_event_def Let_def split: option.splits)

lemma journal_write_Inr:
  "journal_write op ev g = (g', Inr u) \<longleftrightarrow>
     (\<exists>e j. ev = Inr e \<and> op (gw_journal g) e = Inr j \<and> g' = g\<lparr>gw_journal := j\<rparr>)"
proof (cases "bindE ev (op (gw_journal g))")
  case (Inl err)
  then have "\<nexists>e j. ev = Inr e \<and> op (gw_journal g) e = Inr j"
    using bindE_eq_Inr_iff [of ev "op (gw_journal g)"] by auto
  with Inl show ?thesis by (simp add: journal_write_def)
next
  case (Inr j)
  then show ?thesis
    using bindE_eq_Inr_iff [of ev "op (gw_journal g)"] by (auto simp: journal_write_def)
qed

lemma journal_write_Inl: "journal_write op ev g = (g', Inl err) \<Longrightarrow> g' = g"
  by (auto simp: journal_write_def split: sum.splits)

lemma quiet_append:
  assumes "journal_inv (gw_journal g)" and "cid = None \<or> bound (gw_journal g) i (the cid)"
  shows "quiet g (fst (journal_write append_event (make_event c n i st detail source cid vid filled) g))"
proof (cases "journal_write append_event (make_event c n i st detail source cid vid filled) g")
  case (Pair g' r)
  show ?thesis
  proof (cases r)
    case (Inl err)
    with Pair have "g' = g" using journal_write_Inl by simp
    with Pair assms show ?thesis by (simp add: quiet_refl)
  next
    case (Inr u)
    with Pair obtain e j where e: "make_event c n i st detail source cid vid filled = Inr e"
      and j: "append_event (gw_journal g) e = Inr j" and g': "g' = g\<lparr>gw_journal := j\<rparr>"
      by (auto simp: journal_write_Inr)
    have "bound (gw_journal g) i' k \<longrightarrow> bound j i' k" for i' k
      using bound_apply [OF j] make_event_Inr [OF e] assms(2) by auto
    then show ?thesis
      using append_event_inv [OF assms(1) j] append_event_rel [OF j] Pair g'
      by (simp add: quiet_def evolves_def)
  qed
qed

lemma quiet_begin:
  assumes "journal_inv (gw_journal g)"
  shows "quiet g (fst (journal_write begin_order ev g))"
proof (cases "journal_write begin_order ev g")
  case (Pair g' r)
  show ?thesis
  proof (cases r)
    case (Inl err)
    with Pair have "g' = g" using journal_write_Inl by simp
    with Pair assms show ?thesis by (simp add: quiet_refl)
  next
    case (Inr u)
    with Pair obtain e j where "begin_order (gw_journal g) e = Inr j" "g' = g\<lparr>gw_journal := j\<rparr>"
      by (auto simp: journal_write_Inr)
    then show ?thesis
      using begin_order_inv [OF assms] begin_order_rel bound_begin Pair
      by (auto simp: quiet_def evolves_def)
  qed
qed

lemma begin_bound:
  assumes "journal_write begin_order (make_event c n i st detail source (Some cid) vid filled) g = (g', Inr u)"
  shows "bound (gw_journal g') i cid" "current (gw_journal g) i = None" "gw_handed g' = gw_handed g"
proof -
  obtain e j where e: "make_event c n i st detail source (Some cid) vid filled = Inr e"
    and j: "begin_order (gw_journal g) e = Inr j" and g': "g' = g\<lparr>gw_journal := j\<rparr>"
    using assms by (auto simp: journal_write_Inr)
  note ei = make_event_Inr [OF e]
  show n: "current (gw_journal g) i = None" using j ei by (auto simp: begin_order_def split: if_splits)
  then have "current (j\<lparr>jn_events := es\<rparr>) i = Some r" if "jn_orders j = jn_orders (gw_journal g) @ [r]"
    "ow_intent_id r = i" for r es
    using that by (simp add: current_def find_snoc)
  then show "bound (gw_journal g') i cid"
    using j ei g' n by (auto simp: begin_order_def insert_event_Inr bound_def current_def find_snoc split: if_splits)
  show "gw_handed g' = gw_handed g" using g' by simp
qed


text \<open>What a whole handler guarantees.\<close>

definition sound :: "gateway \<Rightarrow> gateway \<Rightarrow> bool" where
  "sound g g' \<longleftrightarrow> gateway_inv g' \<and> evolves g g'"

lemma sound_trans: "sound a b \<Longrightarrow> sound b c \<Longrightarrow> sound a c"
  unfolding sound_def by (metis evolves_trans)

lemma sound_refl: "gateway_inv g \<Longrightarrow> sound g g"
  by (simp add: sound_def)

lemma sound_inv: "sound g g' \<Longrightarrow> gateway_inv g'"
  by (simp add: sound_def)

lemma sound_then: "sound a b \<Longrightarrow> (gateway_inv b \<Longrightarrow> sound b c) \<Longrightarrow> sound a c"
  by (metis sound_trans sound_inv)

lemma quiet_sound: "gateway_inv g \<Longrightarrow> quiet g g' \<Longrightarrow> sound g g'"
  using quiet_inv by (auto simp: sound_def quiet_def)

lemma gateway_jinv: "gateway_inv g \<Longrightarrow> journal_inv (gw_journal g)"
  by (simp add: gateway_inv_def)

lemma sound_bindS:
  assumes "sound g (fst m)" "\<And>g1 x. m = (g1, Inr x) \<Longrightarrow> sound g g1 \<Longrightarrow> sound g1 (fst (f g1 x))"
  shows "sound g (fst (bindS m f))"
  using assms by (cases m; cases "snd m") (auto intro: sound_trans)

lemma sound_same:
  "gateway_inv g \<Longrightarrow> gw_journal g' = gw_journal g \<Longrightarrow> gw_handed g' = gw_handed g \<Longrightarrow> sound g g'"
  by (rule quiet_sound, assumption, rule quiet_same) (auto intro: gateway_jinv)

lemma authorize_keeps [simp]:
  "gw_journal (fst (authorize env c n d i s g)) = gw_journal g"
  "gw_handed (fst (authorize env c n d i s g)) = gw_handed g"
  by (auto simp: authorize_def split: option.splits prod.splits)

lemma update_risk_health_keeps [simp]:
  "gw_journal (update_risk_health l now s st g) = gw_journal g"
  "gw_handed (update_risk_health l now s st g) = gw_handed g"
  "gw_authority (update_risk_health l now s st g) = gw_authority g"
  "gw_risk_cancel_pending (update_risk_health l now s st g) = gw_risk_cancel_pending g"
  by (simp_all add: update_risk_health_def)

lemma cancel_budget_keeps [simp]:
  "gw_journal (fst (consume_cancel_budget l now g)) = gw_journal g"
  "gw_handed (fst (consume_cancel_budget l now g)) = gw_handed g"
  by (simp_all add: consume_cancel_budget_def Let_def)

lemma quiet_deny_unless:
  assumes "quiet g (fst m)" "bound (gw_journal g) i cid"
  shows "quiet g (fst (deny_unless c n i cid m))"
proof (cases m)
  case (Pair g1 r)
  have q: "quiet g g1" using assms(1) Pair by simp
  have "quiet g1 (fst (bindS (journal_write append_event (make_event c n i DENIED d FROM_RISK (Some cid) None 0) g1)
      (\<lambda>g' _. (g', Inl e :: unit res))))" for e d
    by (rule quiet_bindS, rule quiet_append)
      (auto intro: quiet_refl quiet_jinv [OF q] quiet_bound [OF q assms(2)] quiet_jinv)
  then show ?thesis using q Pair by (cases r) (auto simp: deny_unless_def intro: quiet_trans)
qed

lemma quiet_unknown_unless:
  assumes "quiet g (fst m)" "bound (gw_journal g) i cid"
  shows "quiet g (fst (unknown_unless c n i cid detail m))"
proof (cases m)
  case (Pair g1 r)
  have q: "quiet g g1" using assms(1) Pair by simp
  have "quiet g1 (fst (bindS (journal_write append_event (make_event c n i UNKNOWN d FROM_NAUTILUS (Some cid) None 0) g1)
      (\<lambda>g' _. (g', Inl e :: unit res))))" for e d
    by (rule quiet_bindS, rule quiet_append)
      (auto intro: quiet_refl quiet_jinv [OF q] quiet_bound [OF q assms(2)] quiet_jinv)
  then show ?thesis using q Pair by (cases r) (auto simp: unknown_unless_def intro: quiet_trans)
qed

lemma quiet_hand_over:
  "journal_inv (gw_journal g) \<Longrightarrow> (\<And>ord. cmd \<noteq> SubmitOrder ord) \<Longrightarrow> quiet g (fst (hand_over c cmd g))"
  by (cases cmd) (auto simp: hand_over_def quiet_def evolves_def journal_rel_refl)

lemma sound_submit:
  assumes "gateway_inv g" "bound (gw_journal g) (no_intent_tag ord) (no_client_order_id ord)"
    and "no_intent_tag ord \<notin> no_intent_tag ` set (submitted (gw_handed g))"
  shows "sound g (fst (hand_over c (SubmitOrder ord) g))"
  using assms by (auto simp: sound_def gateway_inv_def evolves_def hand_over_def journal_rel_refl)

lemma make_order_tag:
  "make_order c i = Inr ord \<Longrightarrow>
     no_intent_tag ord = oi_intent_id i \<and> gc_factory_id c = Some (no_client_order_id ord)"
  by (auto simp: make_order_def split: option.splits order_kind.splits)

lemma sound_dispatch_order:
  assumes inv: "gateway_inv g" and mo: "make_order c i = Inr ord"
  shows "sound g (fst (dispatch_order env c d i s ord g))"
  unfolding dispatch_order_def Let_def
proof (rule sound_bindS)
  let ?i = "oi_intent_id i" and ?cid = "no_client_order_id ord" and ?x = "(d, Some (no_client_order_id ord))"
  let ?m3 = "journal_write begin_order (make_event c 2 ?i PENDING_SUBMIT
      ''intent and client order identity durably reserved'' FROM_RISK (Some ?cid) None 0) g"
  let ?t5 = "\<lambda>name. ''submission raised '' @ name @ ''; reconcile before any retry''"
  show "sound g (fst ?m3)"
    by (rule quiet_sound [OF inv]) (rule quiet_begin [OF gateway_jinv [OF inv]])
  fix g3 u assume m3: "?m3 = (g3, Inr u)" and s3: "sound g g3"
  note b3 = begin_bound [OF m3]
  note j3 = gateway_jinv [OF sound_inv [OF s3]]
  have "?i \<notin> no_intent_tag ` set (submitted (gw_handed g))"
    using inv b3(2) by (auto simp: gateway_inv_def bound_def)
  then have new: "?i \<notin> no_intent_tag ` set (submitted (gw_handed g3))" by (simp add: b3(3))
  have submit: "sound g5 (fst (bindS (unknown_unless c 5 ?i ?cid ?t5 (hand_over c (SubmitOrder ord) g5)) (\<lambda>g6 _. (g6, Inr ?x))))"
    if q: "quiet g3 g5" for g5
  proof -
    have tag: "no_intent_tag ord = ?i" using make_order_tag [OF mo] by simp
    have inv5: "gateway_inv g5" by (rule quiet_inv [OF sound_inv [OF s3] q])
    have bd: "bound (gw_journal g5) ?i ?cid" by (rule quiet_bound [OF q b3(1)])
    have "?i \<notin> no_intent_tag ` set (submitted (gw_handed g5))" using new q by (simp add: quiet_def)
    then have h: "sound g5 (fst (hand_over c (SubmitOrder ord) g5))"
      using sound_submit [OF inv5] bd tag by simp
    have "quiet (fst (hand_over c (SubmitOrder ord) g5)) (fst (unknown_unless c 5 ?i ?cid ?t5 (hand_over c (SubmitOrder ord) g5)))"
      by (rule quiet_unknown_unless)
        (use h bd in \<open>auto intro: quiet_refl gateway_jinv sound_inv simp: hand_over_def\<close>)
    then have "sound g5 (fst (unknown_unless c 5 ?i ?cid ?t5 (hand_over c (SubmitOrder ord) g5)))"
      using h quiet_sound sound_inv sound_trans by blast
    then show ?thesis by (rule sound_bindS) (auto intro: sound_refl sound_inv)
  qed
  have q4: "quiet g3 (fst (deny_unless c 4 ?i ?cid (authorize env c 3 d i s g3)))"
    by (rule quiet_deny_unless [OF _ b3(1)]) (rule quiet_same [OF j3], simp_all)
  let ?t4 = "''authorized adapter dispatch beginning''"
  show "sound g3 (fst (bindS (deny_unless c 4 ?i ?cid (authorize env c 3 d i s g3)) (\<lambda>g4 _.
      bindS (journal_write append_event (make_event c 4 ?i SUBMITTED ?t4 FROM_NAUTILUS (Some ?cid) None 0) g4)
        (\<lambda>g5 _. bindS (unknown_unless c 5 ?i ?cid ?t5 (hand_over c (SubmitOrder ord) g5))
          (\<lambda>g6 _. (g6, Inr ?x))))))"
  proof (rule sound_bindS)
    show "sound g3 (fst (deny_unless c 4 ?i ?cid (authorize env c 3 d i s g3)))"
      by (rule quiet_sound [OF sound_inv [OF s3] q4])
    fix g4 u4 assume m4: "deny_unless c 4 ?i ?cid (authorize env c 3 d i s g3) = (g4, Inr u4)"
    then have q34: "quiet g3 g4" using q4 by simp
    let ?m5 = "journal_write append_event (make_event c 4 ?i SUBMITTED ?t4 FROM_NAUTILUS (Some ?cid) None 0) g4"
    have q5: "quiet g4 (fst ?m5)"
      by (rule quiet_append) (auto intro: quiet_jinv [OF q34] quiet_bound [OF q34 b3(1)])
    show "sound g4 (fst (bindS ?m5 (\<lambda>g5 _. bindS (unknown_unless c 5 ?i ?cid ?t5
        (hand_over c (SubmitOrder ord) g5)) (\<lambda>g6 _. (g6, Inr ?x)))))"
    proof (rule sound_bindS)
      show "sound g4 (fst ?m5)" by (rule quiet_sound [OF quiet_inv [OF sound_inv [OF s3] q34] q5])
      fix g5 u5 assume "?m5 = (g5, Inr u5)"
      then show "sound g5 (fst (bindS (unknown_unless c 5 ?i ?cid ?t5 (hand_over c (SubmitOrder ord) g5)) (\<lambda>g6 _. (g6, Inr ?x))))"
        using submit quiet_trans [OF q34] q5 by simp
    qed
  qed
qed

lemma sound_execute_intent:
  assumes inv: "gateway_inv g"
  shows "sound g (fst (execute_intent env c i snapshot g))"
proof -
  let ?s = "guarded_snapshot c snapshot"
  obtain a d where e: "evaluate env (world_of c 0 g) (gc_uuid c 0) (gw_authority g) i ?s = (a, d)" by force
  let ?g1 = "update_risk_health (ae_limits env) (gc_clock c 1) ?s (rd_state d) (g\<lparr>gw_authority := a\<rparr>)"
  have s1: "sound g ?g1" by (rule sound_same [OF inv]) simp_all
  note inv1 = sound_inv [OF s1]
  show ?thesis
  proof (cases "rd_allowed d")
    case True
    show ?thesis
    proof (cases "make_order c i")
      case (Inl err)
      with True e s1 show ?thesis by (simp add: execute_intent_def Let_def)
    next
      case (Inr ord)
      show ?thesis
        using sound_trans [OF s1 sound_dispatch_order [OF inv1 Inr]] True e Inr
        by (simp add: execute_intent_def Let_def)
    qed
  next
    case False
    let ?m2 = "journal_write begin_order (make_event c 2 (oi_intent_id i) PENDING_SUBMIT
        ''intent entered synchronous risk gate'' FROM_RISK None None 0) ?g1"
    have "quiet ?g1 (fst (bindS ?m2 (\<lambda>g2 _. bindS (journal_write append_event
        (make_event c 3 (oi_intent_id i) DENIED (reasons_text d) FROM_RISK None None 0) g2)
        (\<lambda>g3 _. (g3, Inr (d, None :: string option))))))"
      by (intro quiet_bindS quiet_begin quiet_append)
        (auto intro: gateway_jinv [OF inv] quiet_jinv quiet_refl)
    with False e show ?thesis
      using sound_trans [OF s1 quiet_sound [OF inv1]] by (simp add: execute_intent_def Let_def)
  qed
qed


lemma require_order_bound:
  "require_order i g = Inr (row, cid) \<Longrightarrow> bound (gw_journal g) i cid \<and> current (gw_journal g) i = Some row"
  by (auto simp: require_order_def bound_def split: option.splits if_splits)

lemma sound_replace_order:
  assumes inv: "gateway_inv g"
  shows "sound g (fst (replace_order env c intent i snapshot g))"
proof (cases "require_order intent g")
  case (Inl err)
  with inv show ?thesis by (simp add: replace_order_def sound_refl)
next
  case (Inr rc)
  obtain row cid where rc: "rc = (row, cid)" by force
  have b: "bound (gw_journal g) intent cid" using require_order_bound Inr rc by simp
  let ?s = "guarded_snapshot c snapshot"
  obtain a d where e: "evaluate env (world_of c 0 g) (gc_uuid c 0) (gw_authority g) i ?s = (a, d)" by force
  let ?g1 = "update_risk_health (ae_limits env) (gc_clock c 1) ?s (rd_state d) (g\<lparr>gw_authority := a\<rparr>)"
  note j = gateway_jinv [OF inv]
  have q1: "quiet g ?g1" by (rule quiet_same [OF j]) simp_all
  note b1 = quiet_bound [OF q1 b] and j1 = quiet_jinv [OF q1]
  have denied: "quiet ?g1 (fst (bindS (journal_write append_event
      (make_event c 2 intent st t FROM_RISK (Some cid) None 0) ?g1) (\<lambda>g2 _. (g2, Inr d))))" for st t
    by (intro quiet_bindS quiet_append) (use b1 j1 in \<open>auto intro: quiet_refl quiet_jinv\<close>)
  have allowed: "quiet ?g1 (fst (
      bindS (authorize env c 3 d i ?s ?g1) (\<lambda>g2 _.
      bindS (journal_write append_event (make_event c 4 intent PENDING_MODIFY t FROM_RISK (Some cid) None 0) g2) (\<lambda>g3 _.
      bindS (unknown_unless c 5 intent cid t' (hand_over c (ModifyOrder cid q p) g3)) (\<lambda>g4 _. (g4, Inr d))))))"
    for t t' q p
  proof (rule quiet_bindS)
    show "quiet ?g1 (fst (authorize env c 3 d i ?s ?g1))"
      by (rule quiet_same [OF j1]) simp_all
    fix g2 u assume q2: "quiet ?g1 g2"
    show "quiet g2 (fst (
        bindS (journal_write append_event (make_event c 4 intent PENDING_MODIFY t FROM_RISK (Some cid) None 0) g2) (\<lambda>g3 _.
        bindS (unknown_unless c 5 intent cid t' (hand_over c (ModifyOrder cid q p) g3)) (\<lambda>g4 _. (g4, Inr d)))))"
    proof (rule quiet_bindS)
      show "quiet g2 (fst (journal_write append_event
          (make_event c 4 intent PENDING_MODIFY t FROM_RISK (Some cid) None 0) g2))"
        by (rule quiet_append) (use quiet_bound [OF q2 b1] quiet_jinv [OF q2] in auto)
      fix g3 u3 assume q3: "quiet g2 g3"
      have "quiet g3 (fst (unknown_unless c 5 intent cid t' (hand_over c (ModifyOrder cid q p) g3)))"
        by (intro quiet_unknown_unless quiet_hand_over)
          (use quiet_bound [OF q3 quiet_bound [OF q2 b1]] quiet_jinv [OF q3] in auto)
      then show "quiet g3 (fst (bindS (unknown_unless c 5 intent cid t' (hand_over c (ModifyOrder cid q p) g3)) (\<lambda>g4 _. (g4, Inr d))))"
        by (rule quiet_bindS) (auto intro: quiet_refl quiet_jinv)
    qed
  qed
  show ?thesis
    using Inr rc e inv quiet_sound [OF inv quiet_trans [OF q1 denied]] quiet_sound [OF inv quiet_trans [OF q1 allowed]]
    by (auto simp: replace_order_def Let_def sound_refl split: order_kind.splits option.splits)
qed

lemma sound_cancel:
  assumes inv: "gateway_inv g"
  shows "sound g (fst (cancel l c intent g))"
  unfolding cancel_def
proof (rule sound_bindS)
  show s1: "sound g (fst (consume_cancel_budget l (gc_clock c 0) g))"
    by (rule sound_same [OF inv]) simp_all
  fix g1 u assume "sound g g1"
  note inv1 = sound_inv [OF this]
  show "sound g1 (fst (bindS (g1, require_order intent g1) (\<lambda>g1 (row, cid).
      if \<not> gc_cached c cid
      then (g1, Inl (ValueError ''cannot cancel an order absent from the reconciled Nautilus cache''))
      else
        bindS (journal_write append_event
          (make_event c 1 intent PENDING_CANCEL ''cancel handed to Nautilus execution engine''
            FROM_OPERATOR (Some cid) None 0) g1) (\<lambda>g2 _.
        unknown_unless c 2 intent cid
          (\<lambda>name. ''cancel raised '' @ name @ ''; reconcile original CLOID'')
          (hand_over c (CancelOrder cid) g2)))))"
  proof (cases "require_order intent g1")
    case (Inl err)
    then show ?thesis by (simp add: sound_refl inv1)
  next
    case (Inr rc)
    obtain row cid where rc: "rc = (row, cid)" by force
    have b: "bound (gw_journal g1) intent cid" using require_order_bound Inr rc by simp
    have "quiet g1 (fst (bindS (journal_write append_event
        (make_event c 1 intent PENDING_CANCEL t FROM_OPERATOR (Some cid) None 0) g1) (\<lambda>g2 _.
        unknown_unless c 2 intent cid t' (hand_over c (CancelOrder cid) g2))))" for t t'
    proof (rule quiet_bindS)
      show "quiet g1 (fst (journal_write append_event
          (make_event c 1 intent PENDING_CANCEL t FROM_OPERATOR (Some cid) None 0) g1))"
        by (rule quiet_append) (use b gateway_jinv [OF inv1] in auto)
      fix g2 u assume q: "quiet g1 g2"
      show "quiet g2 (fst (unknown_unless c 2 intent cid t' (hand_over c (CancelOrder cid) g2)))"
        by (intro quiet_unknown_unless quiet_hand_over)
          (use quiet_bound [OF q b] quiet_jinv [OF q] in auto)
    qed
    then show ?thesis using Inr rc inv1 by (auto intro: sound_refl quiet_sound)
  qed
qed

lemma sound_hand_over:
  "gateway_inv g \<Longrightarrow> (\<And>ord. cmd \<noteq> SubmitOrder ord) \<Longrightarrow> sound g (fst (hand_over c cmd g))"
  by (intro quiet_sound quiet_hand_over) (auto intro: gateway_jinv)

lemma sound_cancel_all:
  assumes inv: "gateway_inv g"
  shows "sound g (fst (cancel_all l c g))"
  unfolding cancel_all_def
  by (rule sound_bindS, rule sound_same [OF inv])
    (auto intro: sound_hand_over sound_inv)

lemma by_client_order_id_bound:
  "journal_inv j \<Longrightarrow> by_client_order_id j cid = Some row \<Longrightarrow> bound j (ow_intent_id row) cid"
  using current_unique [of j row]
  by (auto simp: by_client_order_id_def bound_def find_Some_iff)

lemma sound_record_order_event:
  assumes inv: "gateway_inv g"
  shows "sound g (fst (record_order_event c e st detail filled g))"
proof (cases "by_client_order_id (gw_journal g) (ov_client_order_id e)")
  case None
  with inv show ?thesis by (simp add: record_order_event_def sound_refl)
next
  case (Some row)
  have b: "bound (gw_journal g) (ow_intent_id row) (ov_client_order_id e)"
    by (rule by_client_order_id_bound [OF gateway_jinv [OF inv] Some])
  have "quiet g (fst (bindS (journal_write append_event
      (make_event c 0 (ow_intent_id row) st detail FROM_NAUTILUS (Some (ov_client_order_id e))
        (ov_venue_order_id e) filled) g) (\<lambda>g' _. (g', Inr (Some (ow_intent_id row))))))"
    by (intro quiet_bindS quiet_append) (use b gateway_jinv [OF inv] in \<open>auto intro: quiet_refl quiet_jinv\<close>)
  with Some inv show ?thesis by (auto simp: record_order_event_def intro: quiet_sound)
qed

lemma sound_frame:
  "sound g g1 \<Longrightarrow> gw_journal g2 = gw_journal g1 \<Longrightarrow> gw_handed g2 = gw_handed g1 \<Longrightarrow> sound g1 g2"
  by (rule sound_same) (auto intro: sound_inv)

lemma release_keeps [simp]:
  "gw_journal (release_terminal_intent i g) = gw_journal g"
  "gw_handed (release_terminal_intent i g) = gw_handed g"
  "gw_journal (discard_pending i g) = gw_journal g"
  "gw_handed (discard_pending i g) = gw_handed g"
  by (simp_all add: release_terminal_intent_def discard_pending_def split: option.splits)

lemma sound_on_order_event:
  assumes "gateway_inv g"
  shows "sound g (fst (on_order_event c e k g))"
  by (cases k)
    (simp_all add: Let_def,
      (rule sound_bindS, rule sound_record_order_event [OF assms], auto intro: sound_frame)+)

lemma sound_cancel_each:
  "gateway_inv g \<Longrightarrow> sound g (fst (cancel_each l cs n ids sent g))"
proof (induction ids arbitrary: n sent g)
  case Nil
  then show ?case by (simp add: sound_refl)
next
  case (Cons i ids)
  have rel: "sound g (g\<lparr>gw_released := gw_released g @ [i]\<rparr>)"
    by (rule sound_same [OF Cons.prems]) simp_all
  have "sound g (fst (bindS (cancel l (cs n) i g) (\<lambda>g1 _. cancel_each l cs (Suc n) ids (insert i sent)
      (g1\<lparr>gw_pending_strategy_cancels := insert i (gw_pending_strategy_cancels g1)\<rparr>))))"
  proof (rule sound_bindS [OF sound_cancel [OF Cons.prems]])
    fix g1 u assume "sound g g1"
    then have "sound g1 (g1\<lparr>gw_pending_strategy_cancels := insert i (gw_pending_strategy_cancels g1)\<rparr>)"
      by (rule sound_frame) simp_all
    then show "sound g1 (fst (cancel_each l cs (Suc n) ids (insert i sent)
        (g1\<lparr>gw_pending_strategy_cancels := insert i (gw_pending_strategy_cancels g1)\<rparr>)))"
      using Cons.IH sound_inv sound_trans by blast
  qed
  moreover have "sound g (fst (cancel_each l cs n ids sent (g\<lparr>gw_released := gw_released g @ [i]\<rparr>)))"
    by (rule sound_then [OF rel]) (rule Cons.IH)
  moreover have "sound g (fst (cancel_each l cs n ids sent g))"
    by (rule Cons.IH [OF Cons.prems])
  ultimately show ?case by (auto split: option.splits intro: sound_refl Cons.prems)
qed

lemma sound_submit_each:
  "gateway_inv g \<Longrightarrow> sound g (fst (fst (submit_each env cs ss n is sent g)))"
proof (induction "is" arbitrary: n sent g)
  case Nil
  then show ?case by (simp add: sound_refl)
next
  case (Cons i "is")
  show ?case
  proof (cases "ss n")
    case (Inr s)
    obtain g1 r where e: "execute_intent env (cs n) i s g = (g1, r)" by force
    then have s: "sound g g1" using sound_execute_intent [OF Cons.prems, of env "cs n" i s] by simp
    have "sound g (fst (fst (submit_each env cs ss (Suc n) is sent' g1)))" for sent'
      by (rule sound_then [OF s]) (rule Cons.IH)
    with e Inr s show ?thesis by (cases r) auto
  qed (use Cons.prems in \<open>simp add: sound_refl\<close>)
qed


lemma sound_mark_pending: "sound g g1 \<Longrightarrow> sound g1 (g1\<lparr>gw_risk_cancel_pending := b\<rparr>)"
  by (rule sound_frame) simp_all

lemma sound_drain:
  assumes "gateway_inv g"
  shows "sound g (fst (bindS (cancel_all l c g) (\<lambda>g _. (g\<lparr>gw_risk_cancel_pending := True\<rparr>, Inr ()))))"
  by (rule sound_bindS [OF sound_cancel_all [OF assms]]) (simp add: sound_mark_pending)

lemma sound_process_live_market:
  assumes inv: "gateway_inv g"
  shows "sound g (fst (process_live_market env t g))"
proof (cases "lt_snapshot t")
  case (Inl e)
  with inv show ?thesis by (simp add: process_live_market_def Let_def sound_refl)
next
  case (Inr raw)
  let ?c = "lt_call t" and ?l = "ae_limits env" and ?n0 = "lt_nested t 0"
  let ?s = "guarded_snapshot ?c raw"
  define st where "st = fst (assess_state ?l (gc_kill ?c 0) ?s (gc_clock ?c 0))"
  define g1 where "g1 = (update_risk_health ?l (gc_clock ?c 1) ?s st g)\<lparr>gw_last_risk_state := Some st\<rparr>"
  define op where "op \<longleftrightarrow> rs_open_order_count ?s \<noteq> 0"
  have s1: "sound g g1" unfolding g1_def by (rule sound_same [OF inv]) simp_all
  define m2 where "m2 = (if st \<noteq> ACTIVE \<and> op \<and> \<not> gw_risk_cancel_pending g1
      then bindS (cancel_all ?l ?n0 g1) (\<lambda>g _. (g\<lparr>gw_risk_cancel_pending := True\<rparr>, Inr ()))
      else (g1, Inr ()))"
  have s2: "sound g1 (fst m2)" unfolding m2_def
    using sound_drain [OF sound_inv [OF s1]] by (simp add: sound_refl sound_inv [OF s1])
  define rest where "rest g2 = (
      if st \<noteq> ACTIVE \<and> (op \<or> st \<in> {CANCEL_ONLY, HALTED}) then (g2, Inr ())
      else if gw_risk_cancel_pending g2 \<and> op then (g2, Inr ())
      else let g3 = g2\<lparr>gw_risk_cancel_pending := False\<rparr> in
      if gw_startup_order_drain g3 \<and> op
      then bindS (cancel_all ?l ?n0 g3) (\<lambda>g _. (g\<lparr>gw_risk_cancel_pending := True\<rparr>, Inr ()))
      else let g4 = g3\<lparr>gw_startup_order_drain := False\<rparr> in
      bindS (g4, lt_cycle t) (\<lambda>g4 cycle.
      if lc_cancel_intent_ids cycle \<noteq> [] then
        bindS (cancel_each ?l (lt_nested t) 1 (lc_cancel_intent_ids cycle) {} g4) (\<lambda>g5 sent.
        (g5\<lparr>gw_commits := gw_commits g5 @ [({}, sent)]\<rparr>, Inr ()))
      else
        (case submit_each env (lt_nested t) (lt_next_snapshot t) 1 (lc_submit cycle) {} g4 of
           ((g5, sent), r) \<Rightarrow> (g5\<lparr>gw_commits := gw_commits g5 @ [(sent, {})]\<rparr>, r))))" for g2 :: gateway
  have rest: "sound g2 (fst (rest g2))" if inv2: "gateway_inv g2" for g2
  proof -
    let ?g3 = "g2\<lparr>gw_risk_cancel_pending := False\<rparr>"
    let ?g4 = "?g3\<lparr>gw_startup_order_drain := False\<rparr>"
    have s3: "sound g2 ?g3" and s4: "sound g2 ?g4" by (rule sound_same [OF inv2], simp_all)+
    have cancels: "sound ?g4 (fst (bindS (cancel_each ?l (lt_nested t) 1 ids {} ?g4) (\<lambda>g5 sent.
        (g5\<lparr>gw_commits := gw_commits g5 @ [({}, sent)]\<rparr>, Inr ()))))" for ids
      by (rule sound_bindS [OF sound_cancel_each [OF sound_inv [OF s4]]])
        (auto intro: sound_frame)
    have submits: "sound ?g4 (fst (case submit_each env (lt_nested t) (lt_next_snapshot t) 1 is {} ?g4 of
        ((g5, sent), r) \<Rightarrow> (g5\<lparr>gw_commits := gw_commits g5 @ [(sent, {})]\<rparr>, r)))" for "is"
    proof -
      obtain g5 sent r where e: "submit_each env (lt_nested t) (lt_next_snapshot t) 1 is {} ?g4 = ((g5, sent), r)"
        by (metis surj_pair)
      then have s5: "sound ?g4 g5"
        using sound_submit_each [OF sound_inv [OF s4], of env "lt_nested t" "lt_next_snapshot t" 1 "is" "{}"] by simp
      then have "sound g5 (g5\<lparr>gw_commits := gw_commits g5 @ [(sent, {})]\<rparr>)" by (rule sound_frame) simp_all
      then show ?thesis using e s5 by (simp add: sound_trans)
    qed
    show ?thesis unfolding rest_def Let_def
      using sound_refl [OF inv2] sound_trans [OF s3 sound_drain [OF sound_inv [OF s3]]]
        s4 sound_trans [OF s4 cancels] sound_trans [OF s4 submits]
      by (cases "lt_cycle t") auto
  qed
  have "process_live_market env t g = bindS m2 (\<lambda>g2 _. rest g2)"
    by (simp add: process_live_market_def Inr Let_def st_def g1_def m2_def rest_def op_def)
  moreover have "sound g1 (fst (bindS m2 (\<lambda>g2 _. rest g2)))"
    by (rule sound_bindS [OF s2]) (auto intro: rest sound_inv)
  ultimately show ?thesis using sound_trans [OF s1] by simp
qed

lemma sound_on_market_update:
  assumes "gateway_inv g"
  shows "sound g (fst (on_market_update env t fc n g))"
proof -
  obtain g1 r where e: "process_live_market env t g = (g1, r)" by force
  then have s: "sound g g1" using sound_process_live_market [OF assms, of env t] by simp
  have lease: "sound g1 (g1\<lparr>gw_lease := x\<rparr>)" for x by (rule sound_frame [OF s]) simp_all
  have "sound g1 (fail_closed (ae_limits env) fc n g1)"
    unfolding fail_closed_def Let_def
    using lease sound_trans [OF lease sound_cancel_all [OF sound_inv [OF lease]]]
    by (auto split: sum.splits)
  with e s show ?thesis by (cases r) (auto simp: on_market_update_def intro: sound_trans)
qed

lemma sound_on_start:
  assumes "gateway_inv g"
  shows "sound g (fst (on_start l c live n g))"
  unfolding on_start_def
proof (rule sound_bindS)
  let ?g1 = "g\<lparr>gw_reconciliation_complete := True, gw_startup_order_drain := (n \<noteq> 0)\<rparr>"
  have "sound g ?g1" by (rule sound_same [OF assms]) simp_all
  then show "sound g (fst (if live then let g1 = ?g1 in if n \<noteq> 0
      then bindS (cancel_all l c g1) (\<lambda>g _. (g\<lparr>gw_risk_cancel_pending := True\<rparr>, Inr ())) else (g1, Inr ())
      else (g, Inr ())))"
    using sound_trans [OF _ sound_drain] sound_inv sound_refl [OF assms]
    by (cases "n = 0"; cases live) (simp_all add: Let_def)
qed (auto intro: sound_frame)

lemma bound_journal_step:
  "bound j i cid \<Longrightarrow> bound (journal_step j (MarkStale cutoff fresh now)) i cid"
  by (auto simp: journal_step_def mark_stale_submissions_def mark_stale_submissions_unknown_def
      bindE_eq_Inr_iff intro: bound_mark_rows split: sum.splits)

lemma sound_stale:
  assumes "gateway_inv g"
  shows "sound g (g\<lparr>gw_journal := journal_step (gw_journal g) (MarkStale cutoff fresh now)\<rparr>)"
proof (rule quiet_sound [OF assms])
  show "quiet g (g\<lparr>gw_journal := journal_step (gw_journal g) (MarkStale cutoff fresh now)\<rparr>)"
    using gateway_jinv [OF assms] bound_journal_step
    by (auto simp: quiet_def evolves_def intro: journal_step_inv journal_step_rel)
qed

lemma sound_gateway_step: "gateway_inv g \<Longrightarrow> sound g (gateway_step env g op)"
proof (cases op)
  case (StopOp c)
  assume "gateway_inv g"
  with StopOp show ?thesis by (auto simp: on_stop_def intro: sound_same)
qed (auto intro: sound_execute_intent sound_replace_order sound_cancel sound_cancel_all
    sound_on_order_event sound_on_market_update sound_stale sound_on_start)

interpretation gw: step_system "gateway_step env" gateway_inv evolves
  for env :: authority_env
  by unfold_locales
    (use sound_gateway_step in \<open>auto simp: sound_def intro: evolves_trans\<close>)

lemma gateway_inv_new: "gateway_inv new_gateway"
  by (simp add: gateway_inv_def new_gateway_def journal_inv_new)


section \<open>What a submission presupposes\<close>

lemma append_current:
  assumes "append_event j e = Inr j'"
  shows "\<exists>r. current j' (je_intent_id e) = Some r \<and> ow_state r = je_state e"
proof -
  obtain row where row: "current j (je_intent_id e) = Some row"
    and ins: "insert_event (update_row j (je_intent_id e) (apply_event e)) e = Inr j'"
    using assms by (auto simp: append_event_def split: option.splits if_splits)
  then have "current j' (je_intent_id e) = Some (apply_event e row)"
    using current_Some [OF row] by (simp add: insert_event_Inr current_update_row apply_event_def)
  then show ?thesis by (simp add: apply_event_def)
qed

lemma begin_unresolved:
  assumes "journal_write begin_order (make_event c n i PENDING_SUBMIT t src cid vid q) g = (g', Inr u)"
  shows "unresolved_command_count (gw_journal g') = unresolved_command_count (gw_journal g) + 1"
    "gw_authority g' = gw_authority g"
proof -
  obtain e j where e: "make_event c n i PENDING_SUBMIT t src cid vid q = Inr e"
    and j: "begin_order (gw_journal g) e = Inr j" and g': "g' = g\<lparr>gw_journal := j\<rparr>"
    using assms by (auto simp: journal_write_Inr)
  then obtain r where "jn_orders j = jn_orders (gw_journal g) @ [r]" "ow_state r = PENDING_SUBMIT"
    by (auto simp: begin_order_def insert_event_Inr split: if_splits)
  then show "unresolved_command_count (gw_journal g') = unresolved_command_count (gw_journal g) + 1"
    by (simp add: g' unresolved_command_count_def unresolved_states_def)
  show "gw_authority g' = gw_authority g" by (simp add: g')
qed

lemma handed_changed:
  assumes "gw_handed (fst (bindS m f)) \<noteq> h" "gw_handed (fst m) = h"
  obtains g1 x where "m = (g1, Inr x)" "gw_handed g1 = h"
  using assms by (cases m; cases "snd m") auto

lemma deny_unless_Inr: "deny_unless c n i cid m = (g, Inr u) \<Longrightarrow> m = (g, Inr u)"
  by (cases m; cases "snd m") (auto simp: deny_unless_def bindS_cases split: if_splits)

lemma journal_write_handed [simp]: "gw_handed (fst (journal_write op ev g)) = gw_handed g"
  by (auto simp: journal_write_def split: sum.splits)

lemma bindS_const_fst [simp]: "fst (bindS m (\<lambda>g _. (g, r))) = fst m"
  by (cases m; cases "snd m") auto

lemma deny_unless_handed [simp]: "gw_handed (fst (deny_unless c n i cid m)) = gw_handed (fst m)"
  by (cases m; cases "snd m") (auto simp: deny_unless_def)

lemma unknown_unless_handed [simp]:
  "gw_handed (fst (unknown_unless c n i cid detail m)) = gw_handed (fst m)"
  by (cases m; cases "snd m") (auto simp: unknown_unless_def)

lemma authorize_Inr:
  "authorize env c n d i s g = (g', Inr u) \<Longrightarrow>
     is_ok (snd (consume env (world_of c n g) (gw_authority g) d i s)) \<and> gw_journal g' = gw_journal g"
  by (auto simp: authorize_def split: option.splits prod.splits)

lemma submit_state:
  assumes w: "journal_write append_event (make_event c 4 i SUBMITTED t src (Some cid) None 0) g4 = (g5, Inr u)"
  shows "\<exists>r. current (gw_journal (fst (unknown_unless c 5 i cid t5 (hand_over c cmd g5)))) i = Some r
           \<and> ow_state r \<in> {SUBMITTED, UNKNOWN}"
proof -
  let ?ev = "\<lambda>name. make_event c 5 i UNKNOWN (t5 name) FROM_NAUTILUS (Some cid) None 0"
  obtain e j where e: "make_event c 4 i SUBMITTED t src (Some cid) None 0 = Inr e"
    and j: "append_event (gw_journal g4) e = Inr j" "g5 = g4\<lparr>gw_journal := j\<rparr>"
    using w by (auto simp: journal_write_Inr)
  then have s5: "\<exists>r. current (gw_journal g5) i = Some r \<and> ow_state r \<in> {SUBMITTED, UNKNOWN}"
    using append_current [OF j(1)] make_event_Inr [OF e] by auto
  obtain g6 r6 where h: "hand_over c cmd g5 = (g6, r6)" by force
  then have g6: "gw_journal g6 = gw_journal g5" by (auto simp: hand_over_def)
  show ?thesis
  proof (cases r6)
    case (Inr u)
    with h g6 s5 show ?thesis by (simp add: unknown_unless_def)
  next
    case (Inl err)
    obtain g7 r7 where w7: "journal_write append_event (?ev (error_name err)) g6 = (g7, r7)" by force
    have "\<exists>r. current (gw_journal g7) i = Some r \<and> ow_state r \<in> {SUBMITTED, UNKNOWN}"
    proof (cases r7)
      case (Inl e7)
      with w7 journal_write_Inl g6 s5 show ?thesis by metis
    next
      case (Inr u7)
      with w7 obtain e7 j7 where "?ev (error_name err) = Inr e7" "append_event (gw_journal g6) e7 = Inr j7"
        "g7 = g6\<lparr>gw_journal := j7\<rparr>" by (auto simp: journal_write_Inr)
      then show ?thesis using append_current make_event_Inr by fastforce
    qed
    with h Inl w7 show ?thesis by (simp add: unknown_unless_def)
  qed
qed

lemma dispatch_order_submits:
  assumes changed: "gw_handed (fst (dispatch_order env c d i s ord g)) \<noteq> gw_handed g"
  shows "gw_handed (fst (dispatch_order env c d i s ord g)) = gw_handed g @ [SubmitOrder ord]
       \<and> is_ok (snd (consume env \<lparr>rw_now = gc_clock c 3, rw_kill_active = gc_kill c 3,
            rw_inflight = unresolved_command_count (gw_journal g) + 1\<rparr> (gw_authority g) d i s))
       \<and> (\<exists>r. current (gw_journal (fst (dispatch_order env c d i s ord g))) (oi_intent_id i) = Some r
              \<and> ow_state r \<in> {SUBMITTED, UNKNOWN})
       \<and> current (gw_journal g) (oi_intent_id i) = None"
proof -
  let ?i = "oi_intent_id i" and ?cid = "no_client_order_id ord"
  let ?t5 = "\<lambda>name. ''submission raised '' @ name @ ''; reconcile before any retry''"
  let ?m3 = "journal_write begin_order (make_event c 2 ?i PENDING_SUBMIT
      ''intent and client order identity durably reserved'' FROM_RISK (Some ?cid) None 0) g"
  note def = dispatch_order_def Let_def
  let ?f5 = "\<lambda>g5 :: gateway. bindS (unknown_unless c 5 ?i ?cid ?t5 (hand_over c (SubmitOrder ord) g5))
      (\<lambda>g6 _. (g6, Inr (d, Some ?cid)))"
  let ?m5 = "\<lambda>g4. journal_write append_event (make_event c 4 ?i SUBMITTED
      ''authorized adapter dispatch beginning'' FROM_NAUTILUS (Some ?cid) None 0) g4"
  let ?m4 = "\<lambda>g3. deny_unless c 4 ?i ?cid (authorize env c 3 d i s g3)"
  have flow: "dispatch_order env c d i s ord g =
      bindS ?m3 (\<lambda>g3 _. bindS (?m4 g3) (\<lambda>g4 _. bindS (?m5 g4) (\<lambda>g5 _. ?f5 g5)))"
    by (simp add: def)
  obtain g3 u3 where m3: "?m3 = (g3, Inr u3)" and h3: "gw_handed g3 = gw_handed g"
    using changed unfolding flow by (rule handed_changed) simp
  obtain g4 u4 where m4: "?m4 g3 = (g4, Inr u4)" and h4: "gw_handed g4 = gw_handed g"
    using changed unfolding flow m3 bindS_simps by (rule handed_changed) (simp add: h3)
  obtain g5 u5 where m5: "?m5 g4 = (g5, Inr u5)" and h5: "gw_handed g5 = gw_handed g"
    using changed unfolding flow m3 bindS_simps m4 by (rule handed_changed) (simp add: h4)
  have eq: "fst (dispatch_order env c d i s ord g) =
      fst (unknown_unless c 5 ?i ?cid ?t5 (hand_over c (SubmitOrder ord) g5))"
    by (simp add: def m3 m4 m5)
  have "is_ok (snd (consume env (world_of c 3 g3) (gw_authority g3) d i s))"
    using authorize_Inr [OF deny_unless_Inr [OF m4]] by simp
  then show ?thesis
    using submit_state [OF m5] begin_unresolved [OF m3] begin_bound(2) [OF m3] unfolding eq
    by (simp add: h5 hand_over_def world_of_def)
qed

lemma execute_intent_submits:
  assumes "gw_handed (fst (execute_intent env c i snapshot g)) \<noteq> gw_handed g"
  shows "\<exists>ord. let s = guarded_snapshot c snapshot;
                   e = evaluate env (world_of c 0 g) (gc_uuid c 0) (gw_authority g) i s
    in rd_allowed (snd e) \<and> make_order c i = Inr ord
     \<and> gw_handed (fst (execute_intent env c i snapshot g)) = gw_handed g @ [SubmitOrder ord]
     \<and> is_ok (snd (consume env \<lparr>rw_now = gc_clock c 3, rw_kill_active = gc_kill c 3,
          rw_inflight = unresolved_command_count (gw_journal g) + 1\<rparr> (fst e) (snd e) i s))
     \<and> (\<exists>r. current (gw_journal (fst (execute_intent env c i snapshot g))) (oi_intent_id i) = Some r
            \<and> ow_state r \<in> {SUBMITTED, UNKNOWN})
     \<and> current (gw_journal g) (oi_intent_id i) = None"
proof -
  let ?s = "guarded_snapshot c snapshot"
  obtain a d where e: "evaluate env (world_of c 0 g) (gc_uuid c 0) (gw_authority g) i ?s = (a, d)" by force
  let ?g1 = "update_risk_health (ae_limits env) (gc_clock c 1) ?s (rd_state d) (g\<lparr>gw_authority := a\<rparr>)"
  have al: "rd_allowed d"
  proof (rule ccontr)
    assume "\<not> rd_allowed d"
    then have "fst (execute_intent env c i snapshot g) = fst (bindS (journal_write begin_order
             (make_event c 2 (oi_intent_id i) PENDING_SUBMIT ''intent entered synchronous risk gate''
               FROM_RISK None None 0) ?g1) (\<lambda>g2 _.
           bindS (journal_write append_event
             (make_event c 3 (oi_intent_id i) DENIED (reasons_text d) FROM_RISK None None 0) g2) (\<lambda>g3 _.
           (g3, Inr (d, None :: string option)))))" (is "_ = fst (bindS ?m ?f)")
      using e by (simp add: execute_intent_def Let_def)
    moreover have "gw_handed (fst (bindS ?m ?f)) = gw_handed g"
      using journal_write_handed [of begin_order "make_event c 2 (oi_intent_id i) PENDING_SUBMIT
          ''intent entered synchronous risk gate'' FROM_RISK None None 0" ?g1]
      by (cases ?m; cases "snd ?m") auto
    ultimately show False using assms by simp
  qed
  obtain ord where ord: "make_order c i = Inr ord"
    using assms e al by (cases "make_order c i") (auto simp: execute_intent_def Let_def)
  have eq: "fst (execute_intent env c i snapshot g) = fst (dispatch_order env c d i ?s ord ?g1)"
    using e al ord by (simp add: execute_intent_def Let_def)
  show ?thesis
    using dispatch_order_submits [of env c d i ?s ord ?g1] assms al ord e unfolding eq by simp
qed


section \<open>Exposure and the kill switch\<close>

definition exposure :: "gateway \<Rightarrow> nautilus_command list" where
  "exposure g = filter exposure_command (gw_handed g)"

lemma exposure_cong: "gw_handed g' = gw_handed g \<Longrightarrow> exposure g' = exposure g"
  by (simp add: exposure_def)

lemma consume_killed:
  assumes "rd_allowed (snd (evaluate env w nonce a0 i s))" "rw_kill_active w'"
  shows "\<not> is_ok (snd (consume env w' a (snd (evaluate env w nonce a0 i s)) i' s'))"
proof
  assume "is_ok (snd (consume env w' a (snd (evaluate env w nonce a0 i s)) i' s'))"
  then have "rd_state (snd (evaluate env w nonce a0 i s)) = HALTED"
    using assms(2) by (auto simp: is_ok_iff consume_ok_iff assess_state_kill)
  with assms(1) show False by (simp add: evaluate_allowed evaluate_fields state_permits_def)
qed

lemma execute_killed:
  assumes "gc_kill c 3"
  shows "gw_handed (fst (execute_intent env c i snapshot g)) = gw_handed g"
proof (rule ccontr)
  assume "gw_handed (fst (execute_intent env c i snapshot g)) \<noteq> gw_handed g"
  from execute_intent_submits [OF this] show False
    using assms by (auto simp: Let_def consume_killed)
qed

lemma replace_killed:
  assumes "gc_kill c 3"
  shows "gw_handed (fst (replace_order env c intent i snapshot g)) = gw_handed g"
proof (cases "require_order intent g")
  case (Inl err)
  then show ?thesis by (simp add: replace_order_def)
next
  case (Inr rc)
  obtain row cid where rc: "rc = (row, cid)" by force
  let ?s = "guarded_snapshot c snapshot"
  obtain a d where e: "evaluate env (world_of c 0 g) (gc_uuid c 0) (gw_authority g) i ?s = (a, d)" by force
  let ?g1 = "update_risk_health (ae_limits env) (gc_clock c 1) ?s (rd_state d) (g\<lparr>gw_authority := a\<rparr>)"
  obtain g2 r2 where au: "authorize env c 3 d i ?s ?g1 = (g2, r2)" by force
  have "gw_handed (fst (authorize env c 3 d i ?s ?g1)) = gw_handed g" by simp
  then have h2: "gw_handed g2 = gw_handed g" unfolding au by simp
  have "r2 = Inr u \<Longrightarrow> \<not> rd_allowed d" for u
    using authorize_Inr [of env c 3 d i ?s ?g1 g2 u] au assms e
      consume_killed [of env "world_of c 0 g" "gc_uuid c 0" "gw_authority g" i ?s "world_of c 3 ?g1"]
    by (auto simp: world_of_def)
  then show ?thesis
    using Inr rc e au h2 by (cases r2) (auto simp: replace_order_def Let_def split: order_kind.splits option.splits)
qed

lemma exposure_execute: "gc_kill c 3 \<Longrightarrow> exposure (fst (execute_intent env c i snapshot g)) = exposure g"
  by (rule exposure_cong) (rule execute_killed)

lemma exposure_replace: "gc_kill c 3 \<Longrightarrow> exposure (fst (replace_order env c intent i snapshot g)) = exposure g"
  by (rule exposure_cong) (rule replace_killed)

lemma exposure_bindS:
  assumes "exposure (fst m) = E" "\<And>s x. m = (s, Inr x) \<Longrightarrow> exposure s = E \<Longrightarrow> exposure (fst (f s x)) = E"
  shows "exposure (fst (bindS m f)) = E"
  using assms by (rule bindS_keeps [of "\<lambda>s. exposure s = E"])

lemma exposure_simps [simp]:
  "exposure (g\<lparr>gw_risk_cancel_pending := b\<rparr>) = exposure g"
  "exposure (g\<lparr>gw_startup_order_drain := b\<rparr>) = exposure g"
  "exposure (g\<lparr>gw_commits := x\<rparr>) = exposure g"
  "exposure (g\<lparr>gw_released := y\<rparr>) = exposure g"
  "exposure (g\<lparr>gw_pending_strategy_cancels := z\<rparr>) = exposure g"
  "exposure (g\<lparr>gw_last_risk_state := st\<rparr>) = exposure g"
  "exposure (g\<lparr>gw_lease := ls\<rparr>) = exposure g"
  "exposure (g\<lparr>gw_journal := j\<rparr>) = exposure g"
  "exposure (g\<lparr>gw_reconciliation_complete := b\<rparr>) = exposure g"
  "exposure (update_risk_health l now s st' g) = exposure g"
  "exposure (release_terminal_intent i g) = exposure g"
  "exposure (discard_pending i g) = exposure g"
  "exposure (fst (journal_write op ev g)) = exposure g"
  "exposure (fst (consume_cancel_budget l now g)) = exposure g"
  "\<not> exposure_command cmd \<Longrightarrow> exposure (fst (hand_over c cmd g)) = exposure g"
  by (auto simp: exposure_def hand_over_def)

lemma exposure_unknown_unless [simp]: "exposure (fst (unknown_unless c n i cid t m)) = exposure (fst m)"
  by (simp add: exposure_def)

lemma exposure_cancel_all [simp]: "exposure (fst (cancel_all l c g)) = exposure g"
  unfolding cancel_all_def by (rule exposure_bindS) auto

lemma exposure_cancel [simp]: "exposure (fst (cancel l c i g)) = exposure g"
  unfolding cancel_def
  by (intro exposure_bindS) (auto simp: split: prod.splits intro!: exposure_bindS)

lemma exposure_cancel_each [simp]: "exposure (fst (cancel_each l cs n ids sent g)) = exposure g"
proof (induction ids arbitrary: n sent g)
  case (Cons i ids)
  have "exposure (fst (bindS (cancel l (cs n) i g) (\<lambda>g1 _. cancel_each l cs (Suc n) ids (insert i sent)
      (g1\<lparr>gw_pending_strategy_cancels := insert i (gw_pending_strategy_cancels g1)\<rparr>)))) = exposure g"
    by (rule exposure_bindS) (auto simp: Cons.IH)
  then show ?case by (auto simp: Cons.IH split: option.splits)
qed simp

lemma exposure_submit_each:
  "\<forall>n. gc_kill (cs n) 3 \<Longrightarrow> exposure (fst (fst (submit_each env cs ss n is sent g))) = exposure g"
proof (induction "is" arbitrary: n sent g)
  case (Cons i "is")
  have "exposure (fst (execute_intent env (cs n) i s g)) = exposure g" for s
    using Cons.prems by (intro exposure_cong execute_killed) simp
  then show ?case using Cons by (auto split: sum.splits prod.splits) (metis fst_conv)+
qed simp

lemma exposure_drain [simp]:
  "exposure (fst (bindS (cancel_all l c g) (\<lambda>g _. (g\<lparr>gw_risk_cancel_pending := True\<rparr>, Inr ())))) = exposure g"
  by (rule exposure_bindS) auto

lemma exposure_process_live_market:
  assumes "\<forall>n. gc_kill (lt_nested t n) 3"
  shows "exposure (fst (process_live_market env t g)) = exposure g"
proof -
  have sub: "exposure (fst (case submit_each env (lt_nested t) ss n is {} g of
      ((g5, sent), r) \<Rightarrow> (g5\<lparr>gw_commits := gw_commits g5 @ [(sent, {})]\<rparr>, r))) = exposure g" for ss n "is" g
    using exposure_submit_each [OF assms, of env ss n "is" "{}" g]
    by (auto split: prod.splits)
  show ?thesis unfolding process_live_market_def Let_def
    by (intro exposure_bindS) (auto simp: sub intro!: exposure_bindS split: if_splits)
qed

lemma exposure_record_order_event [simp]:
  "exposure (fst (record_order_event c e st d f g)) = exposure g"
  by (auto simp: record_order_event_def split: option.splits)

lemma exposure_on_order_event [simp]: "exposure (fst (on_order_event c e k g)) = exposure g"
  by (cases k) (auto simp: Let_def intro!: exposure_bindS)

fun killed_at_dispatch :: "gateway_op \<Rightarrow> bool" where
  "killed_at_dispatch (ExecuteOp c i s) = gc_kill c 3"
| "killed_at_dispatch (ReplaceOp c intent i s) = gc_kill c 3"
| "killed_at_dispatch (MarketOp t fc n) = (\<forall>k. gc_kill (lt_nested t k) 3)"
| "killed_at_dispatch _ = True"


section \<open>Example values\<close>

text \<open>A call with distinct readings, a working adapter and a factory identity.\<close>

definition example_gateway_call :: "string \<Rightarrow> gateway_call" where
  "example_gateway_call tag =
     \<lparr>gc_clock = (\<lambda>n. 2000 + int n), gc_uuid = (\<lambda>n. tag @ ''-'' @ py_str (int n)),
      gc_kill = (\<lambda>n. False), gc_guard = None, gc_factory_id = Some (''cloid-'' @ tag),
      gc_cached = (\<lambda>_. True), gc_adapter_error = None\<rparr>"

definition example_submission :: gateway_op where
  "example_submission = ExecuteOp (example_gateway_call ''a'') (example_intent BUY False) example_snapshot"

definition example_gateway :: gateway where
  "example_gateway = gateway_step example_env new_gateway example_submission"

lemma example_gateway_handed:
  "map no_intent_tag (submitted (gw_handed example_gateway)) = [''i1'']"
  by code_simp

lemma example_gateway_row:
  "map_option (\<lambda>r. (ow_state r, ow_client_order_id r)) (current (gw_journal example_gateway) ''i1'')
     = Some (SUBMITTED, Some ''cloid-a'')"
  by code_simp


section \<open>Properties\<close>

text \<open>C1: No order is submitted twice and none is lost from the record: whatever sequence of
  intents, replacements, cancels, exchange events, market updates and restarts the gateway
  handles, with adapter failures anywhere, every intent is handed to the adapter at most once,
  and each submitted order's client identity is the one journaled for its intent.\<close>

theorem submitted_once_and_journaled:
  "distinct (map no_intent_tag (submitted (gw_handed (foldl (gateway_step env) new_gateway ops))))
 \<and> (\<forall>ord \<in> set (submitted (gw_handed (foldl (gateway_step env) new_gateway ops))).
      bound (gw_journal (foldl (gateway_step env) new_gateway ops))
        (no_intent_tag ord) (no_client_order_id ord))"
  using gw.run_inv [OF gateway_inv_new, of env ops] by (simp add: gateway_inv_def)

theorem submitted_once_and_journaled_witness:
  "\<exists>ord. submitted (gw_handed example_gateway) = [ord]
     \<and> bound (gw_journal example_gateway) (no_intent_tag ord) (no_client_order_id ord)"
proof -
  obtain ord where ord: "submitted (gw_handed example_gateway) = [ord]"
    using example_gateway_handed by auto
  then have "bound (gw_journal example_gateway) (no_intent_tag ord) (no_client_order_id ord)"
    using submitted_once_and_journaled [of example_env "[example_submission]"]
    by (simp add: example_gateway_def)
  with ord show ?thesis by blast
qed

text \<open>C22: A submission presupposes an approval and a durable record: when handling an intent
  hands anything to the adapter, it is exactly the one order made from that intent, the risk
  authority allowed the intent on the guarded snapshot and the approval was consumed at
  dispatch, the intent was new to the journal, and afterwards the journal holds it as
  submitted or (when the adapter raised) unknown, never as resolved.\<close>

theorem submission_is_approved_and_recorded:
  assumes "gw_handed (fst (execute_intent env c i snapshot g)) \<noteq> gw_handed g"
  shows "\<exists>ord. let s = guarded_snapshot c snapshot;
                   e = evaluate env (world_of c 0 g) (gc_uuid c 0) (gw_authority g) i s
    in rd_allowed (snd e) \<and> make_order c i = Inr ord
     \<and> gw_handed (fst (execute_intent env c i snapshot g)) = gw_handed g @ [SubmitOrder ord]
     \<and> is_ok (snd (consume env \<lparr>rw_now = gc_clock c 3, rw_kill_active = gc_kill c 3,
          rw_inflight = unresolved_command_count (gw_journal g) + 1\<rparr> (fst e) (snd e) i s))
     \<and> (\<exists>r. current (gw_journal (fst (execute_intent env c i snapshot g))) (oi_intent_id i) = Some r
            \<and> ow_state r \<in> {SUBMITTED, UNKNOWN})
     \<and> current (gw_journal g) (oi_intent_id i) = None"
  using execute_intent_submits [OF assms] .

theorem submission_is_approved_and_recorded_witness:
  "\<exists>r. current (gw_journal example_gateway) ''i1'' = Some r \<and> ow_state r \<in> {SUBMITTED, UNKNOWN}"
proof -
  have "submitted (gw_handed example_gateway) \<noteq> []" using example_gateway_handed by auto
  then have "gw_handed (fst (execute_intent example_env (example_gateway_call ''a'')
      (example_intent BUY False) example_snapshot new_gateway)) \<noteq> gw_handed new_gateway"
    by (auto simp: example_gateway_def example_submission_def new_gateway_def)
  from submission_is_approved_and_recorded [OF this] show ?thesis
    by (auto simp: Let_def example_gateway_def example_submission_def example_intent_def)
qed

text \<open>C2: While the operator's kill switch is active at the moment approvals are consumed, no
  entry point of the gateway submits or modifies an order: every operation leaves the list
  of exposure commands as it was (cancels remain possible).\<close>

theorem no_exposure_while_killed:
  assumes "killed_at_dispatch op"
  shows "exposure (gateway_step env g op) = exposure g"
proof (cases op)
  case (MarketOp t fc n)
  obtain g1 r where e: "process_live_market env t g = (g1, r)" by force
  then have "exposure g1 = exposure g"
    using assms MarketOp exposure_process_live_market [of t env g] by simp
  then show ?thesis
    using MarketOp e by (auto simp: on_market_update_def fail_closed_def Let_def split: sum.splits)
next
  case (StartOp c live n)
  then show ?thesis by (auto simp: on_start_def Let_def intro!: exposure_bindS)
qed (use assms in \<open>simp_all add: on_stop_def exposure_execute exposure_replace\<close>)

theorem no_exposure_while_killed_witness:
  "exposure (gateway_step example_env new_gateway (ExecuteOp
     ((example_gateway_call ''a'')\<lparr>gc_kill := (\<lambda>n. n = 3)\<rparr>) (example_intent BUY False) example_snapshot)) = []"
  by (subst no_exposure_while_killed)
    (simp_all add: exposure_def new_gateway_def)

text \<open>C40: The inflight budget counts the intent being dispatched: its own reservation in the
  journal is an unresolved command when the approval is consumed, so an intent is refused as
  soon as one command less than \<open>max_inflight_requests\<close> is unresolved, and with the admissible
  value 1 the gateway never submits anything at all.\<close>

theorem inflight_budget_counts_itself:
  assumes "ec_max_inflight_requests (ae_execution env) \<le> unresolved_command_count (gw_journal g) + 1"
  shows "gw_handed (fst (execute_intent env c i snapshot g)) = gw_handed g"
proof (rule ccontr)
  assume "gw_handed (fst (execute_intent env c i snapshot g)) \<noteq> gw_handed g"
  from execute_intent_submits [OF this] assms show False
    by (auto simp: Let_def is_ok_iff consume_ok_iff)
qed

definition single_inflight_env :: authority_env where
  "single_inflight_env =
     example_env\<lparr>ae_execution := default_execution_config\<lparr>ec_max_inflight_requests := 1\<rparr>\<rparr>"

theorem inflight_budget_counts_itself_witness:
  "execution_config_error (ae_execution single_inflight_env) = None
 \<and> gw_handed (fst (execute_intent single_inflight_env (example_gateway_call ''a'')
       (example_intent BUY False) example_snapshot new_gateway)) = []"
proof
  show "execution_config_error (ae_execution single_inflight_env) = None"
    by (simp add: single_inflight_env_def execution_config_error_def default_execution_config_def)
  have "ec_max_inflight_requests (ae_execution single_inflight_env)
      \<le> unresolved_command_count (gw_journal new_gateway) + 1"
    by (simp add: single_inflight_env_def unresolved_command_count_def new_gateway_def new_journal_def)
  from inflight_budget_counts_itself [OF this]
  show "gw_handed (fst (execute_intent single_inflight_env (example_gateway_call ''a'')
      (example_intent BUY False) example_snapshot new_gateway)) = []"
    by (simp add: new_gateway_def)
qed

text \<open>A cancel is not always possible: while an intent is pending submission, submitted but
  not yet accepted, or pending modification, \<open>cancel\<close> raises and hands nothing to the adapter,
  whatever the adapter and the order cache say.\<close>

theorem cancel_refused_before_acceptance:
  assumes "current (gw_journal g) intent = Some r"
    and "ow_state r \<in> {PENDING_SUBMIT, SUBMITTED, PENDING_MODIFY}"
  shows "\<not> is_ok (snd (cancel l c intent g)) \<and> gw_handed (fst (cancel l c intent g)) = gw_handed g
       \<and> gw_journal (fst (cancel l c intent g)) = gw_journal g"
proof -
  obtain g1 r1 where b: "consume_cancel_budget l (gc_clock c 0) g = (g1, r1)" by force
  have g1: "gw_journal g1 = gw_journal g" "gw_handed g1 = gw_handed g"
    using cancel_budget_keeps [of l "gc_clock c 0" g] unfolding b by simp_all
  have w: "\<exists>err. journal_write append_event
      (make_event c n intent PENDING_CANCEL t src cid vid q) g1 = (g1, Inl err)" for n t src cid vid q
  proof (cases "make_event c n intent PENDING_CANCEL t src cid vid q")
    case (Inr e)
    then have "append_event (gw_journal g1) e = Inl (InvalidTransitionError ''invalid execution transition'')"
      using assms make_event_Inr [OF Inr] g1
      by (auto simp: append_event_def allowed_transitions_def)
    with Inr show ?thesis by (simp add: journal_write_def)
  qed (simp add: journal_write_def)
  show ?thesis
  proof (cases r1)
    case (Inl err)
    with b g1 show ?thesis by (simp add: cancel_def)
  next
    case (Inr u)
    show ?thesis
    proof (cases "require_order intent g1")
      case (Inl err)
      with Inr b g1 show ?thesis by (simp add: cancel_def)
    next
      case (Inr rc)
      obtain row cid where rc: "rc = (row, cid)" by force
      obtain err where "journal_write append_event (make_event c 1 intent PENDING_CANCEL
          ''cancel handed to Nautilus execution engine'' FROM_OPERATOR (Some cid) None 0) g1 = (g1, Inl err)"
        using w by blast
      with Inr \<open>r1 = Inr u\<close> b g1 rc show ?thesis by (simp add: cancel_def)
    qed
  qed
qed

theorem cancel_refused_before_acceptance_witness:
  "\<not> is_ok (snd (cancel default_risk_limits (example_gateway_call ''b'') ''i1'' example_gateway))"
proof -
  obtain r where r: "current (gw_journal example_gateway) ''i1'' = Some r" "ow_state r = SUBMITTED"
    using example_gateway_row by auto
  then show ?thesis using cancel_refused_before_acceptance [OF r(1)] by simp
qed


end
