(* ===== verification/Kernel_Contracts.thy ===== *)
theory Kernel_Contracts
  imports Domain
begin

text \<open>
  The pure kernel boundary of \<open>backtest/kernel.py\<close> and the feature contract of
  \<open>features/models.py\<close>: market states, feature snapshots and decisions with the checks pydantic
  applies when they are constructed, and the replay loop that threads a kernel's memory. The
  locale \<open>decision_kernel\<close> is the protocol a strategy implements; the strategies interpret it.
\<close>

section \<open>Market state\<close>

record kernel_level =
  kl_price :: dec
  kl_size :: dec

definition kernel_level_ok :: "kernel_level \<Rightarrow> bool" where
  "kernel_level_ok l \<longleftrightarrow> 0 < kl_price l \<and> 0 < kl_size l"

record kernel_trade =
  kt_exchange_ts_ns :: int
  kt_observed_ts_ns :: int
  kt_price :: dec
  kt_size :: dec
  kt_aggressor :: aggressor_side

definition kernel_trade_error :: "kernel_trade \<Rightarrow> string option" where
  "kernel_trade_error t = first_error
     [(kt_exchange_ts_ns t < 0 \<or> kt_observed_ts_ns t < 0, ''ts_ns''),
      (kt_price t \<le> 0, ''price''), (kt_size t \<le> 0, ''size''),
      (kt_observed_ts_ns t < kt_exchange_ts_ns t,
       ''kernel trade cannot be observed before its exchange event'')]"

definition kernel_trade_ok :: "kernel_trade \<Rightarrow> bool" where
  "kernel_trade_ok t \<longleftrightarrow> kernel_trade_error t = None"

record kernel_market =
  km_exchange_ts_ns :: int
  km_book_exchange_ts_ns :: int
  km_observed_ts_ns :: int
  km_sequence :: int
  km_bids :: "kernel_level list"
  km_asks :: "kernel_level list"
  km_trades :: "kernel_trade list"

text \<open>Python's \<open>sorted\<close> is stable, also with \<open>reverse=True\<close>.\<close>

definition sort_bids :: "kernel_level list \<Rightarrow> kernel_level list" where
  "sort_bids = sort_key (\<lambda>l. - kl_price l)"

definition sort_asks :: "kernel_level list \<Rightarrow> kernel_level list" where
  "sort_asks = sort_key kl_price"

definition kernel_market_error :: "kernel_market \<Rightarrow> string option" where
  "kernel_market_error m = first_error
     [(km_exchange_ts_ns m < 0 \<or> km_book_exchange_ts_ns m < 0 \<or> km_observed_ts_ns m < 0, ''ts_ns''),
      (km_sequence m < 0, ''sequence''),
      (km_bids m = [] \<or> \<not> list_all kernel_level_ok (km_bids m), ''bids''),
      (km_asks m = [] \<or> \<not> list_all kernel_level_ok (km_asks m), ''asks''),
      (\<not> list_all kernel_trade_ok (km_trades m), ''trades''),
      (km_observed_ts_ns m < km_exchange_ts_ns m,
       ''kernel state cannot be observed before its exchange event''),
      (km_exchange_ts_ns m < km_book_exchange_ts_ns m,
       ''book timestamp cannot follow the latest state event''),
      (list_ex (\<lambda>t. km_exchange_ts_ns m < kt_exchange_ts_ns t) (km_trades m),
       ''trade timestamp cannot follow the latest state event''),
      (list_ex (\<lambda>t. km_observed_ts_ns m < kt_observed_ts_ns t) (km_trades m),
       ''trade receipt cannot follow the containing market state''),
      (km_bids m \<noteq> sort_bids (km_bids m), ''kernel bids must be descending''),
      (km_asks m \<noteq> sort_asks (km_asks m), ''kernel asks must be ascending''),
      (kl_price (hd (km_asks m)) \<le> kl_price (hd (km_bids m)),
       ''kernel book cannot be locked or crossed'')]"

definition kernel_market_ok :: "kernel_market \<Rightarrow> bool" where
  "kernel_market_ok m \<longleftrightarrow> kernel_market_error m = None"

definition mk_kernel_market :: "kernel_market \<Rightarrow> kernel_market res" where
  "mk_kernel_market m =
     (case kernel_market_error m of Some e \<Rightarrow> Inl (ValidationError e) | None \<Rightarrow> Inr m)"

text \<open>\<open>(bids[0].price + asks[0].price) / 2\<close>\<close>

definition km_mid :: "kernel_market \<Rightarrow> dec" where
  "km_mid m = ddiv (dadd (kl_price (hd (km_bids m))) (kl_price (hd (km_asks m)))) 2"

section \<open>Feature snapshot\<close>

datatype volatility_regime = WARMUP_VOLATILITY | LOW_VOLATILITY | NORMAL_VOLATILITY | HIGH_VOLATILITY

record feature_snapshot =
  fs_feature_schema_sha256 :: string
  fs_sequence :: int
  fs_event_ts_ns :: int
  fs_receive_ts_ns :: int
  fs_computed_ts_ns :: int
  fs_max_input_age_ns :: int
  fs_ready :: bool
  fs_warmup_count :: int
  fs_best_bid :: dec
  fs_best_ask :: dec
  fs_midprice :: dec
  fs_book_imbalance :: dec
  fs_microprice :: dec
  fs_vamp :: dec
  fs_weighted_midprice :: dec
  fs_queue_imbalance :: dec
  fs_depth_imbalance :: dec
  fs_trade_flow_imbalance :: dec
  fs_buy_pressure :: dec
  fs_sell_pressure :: dec
  fs_aggressor_ratio :: dec
  fs_volume_delta :: dec
  fs_signed_volume :: dec
  fs_realized_volatility :: dec
  fs_volatility_regime :: volatility_regime
  fs_atr_bps :: dec
  fs_spread_bps :: dec
  fs_spread_change_bps :: dec
  fs_spread_zscore :: dec
  fs_mid_return_bps :: dec
  fs_inventory_base :: dec
  fs_target_inventory_base :: dec
  fs_inventory_drift_base :: dec
  fs_inventory_risk :: dec
  fs_liquidation_distance_bps :: dec
  fs_margin_utilization :: dec
  fs_fill_probability_bid :: dec
  fs_fill_probability_ask :: dec
  fs_queue_ahead_bid :: dec
  fs_queue_ahead_ask :: dec
  fs_adverse_selection_bps :: dec
  fs_fill_model_id :: string
  fs_fill_model_calibrated :: bool

definition unit_decimal :: "dec \<Rightarrow> bool" where
  "unit_decimal x \<longleftrightarrow> - 1 \<le> x \<and> x \<le> 1"

definition fraction :: "dec \<Rightarrow> bool" where
  "fraction x \<longleftrightarrow> 0 \<le> x \<and> x \<le> 1"

text \<open>The hash of the current feature schema is an argument.\<close>

definition feature_snapshot_error :: "string \<Rightarrow> feature_snapshot \<Rightarrow> string option" where
  "feature_snapshot_error schema_sha256 f = first_error
     [(fs_sequence f < 0 \<or> fs_event_ts_ns f < 0 \<or> fs_receive_ts_ns f < 0 \<or> fs_computed_ts_ns f < 0
         \<or> fs_max_input_age_ns f < 0 \<or> fs_warmup_count f < 0, ''ge=0''),
      (\<not> is_sha256_hex (fs_feature_schema_sha256 f), ''feature_schema_sha256''),
      (\<not> list_all (\<lambda>x. 0 < x) [fs_best_bid f, fs_best_ask f, fs_midprice f, fs_microprice f, fs_vamp f,
          fs_weighted_midprice f], ''gt=0''),
      (\<not> list_all unit_decimal [fs_book_imbalance f, fs_queue_imbalance f, fs_depth_imbalance f,
          fs_trade_flow_imbalance f], ''unit decimal''),
      (\<not> list_all fraction [fs_aggressor_ratio f, fs_margin_utilization f, fs_fill_probability_bid f,
          fs_fill_probability_ask f], ''fraction''),
      (\<not> list_all (\<lambda>x. 0 \<le> x) [fs_buy_pressure f, fs_sell_pressure f, fs_realized_volatility f, fs_atr_bps f,
          fs_spread_bps f, fs_inventory_risk f, fs_liquidation_distance_bps f, fs_queue_ahead_bid f,
          fs_queue_ahead_ask f], ''non negative''),
      (\<not> is_slug (fs_fill_model_id f), ''fill_model_id''),
      (fs_receive_ts_ns f < fs_event_ts_ns f, ''receive timestamp cannot precede source event time''),
      (fs_computed_ts_ns f < fs_receive_ts_ns f, ''computed timestamp cannot precede receipt time''),
      (fs_best_ask f \<le> fs_best_bid f, ''feature snapshot book must be uncrossed''),
      (fs_feature_schema_sha256 f \<noteq> schema_sha256, ''feature snapshot schema hash is not supported'')]"

definition feature_snapshot_ok :: "feature_snapshot \<Rightarrow> bool" where
  "feature_snapshot_ok f \<longleftrightarrow> feature_snapshot_error (fs_feature_schema_sha256 f) f = None"

section \<open>Decisions\<close>

datatype strategy_action =
    WARMUP | HOLD | ENTER_LONG | ENTER_SHORT | EXIT_TAKE_PROFIT | EXIT_STOP_LOSS | EXIT_TIME_LIMIT
  | EXIT_OPPOSITE_FLOW | BLOCKED_COST | BLOCKED_SPREAD | BLOCKED_CONFLUENCE | BLOCKED_COOLDOWN
  | BLOCKED_VOLATILITY | BLOCKED_INVENTORY | BLOCKED_MODEL

record kernel_decision =
  kd_submit :: "order_intent list"
  kd_cancel_intent_ids :: "string list"
  kd_action :: strategy_action
  kd_reason :: string
  kd_expected_edge_bps :: dec
  kd_required_edge_bps :: dec
  kd_confluence_score :: int
  kd_reference_price :: "dec option"
  kd_stop_price :: "dec option"
  kd_target_price :: "dec option"
  kd_position_age_seconds :: dec

text \<open>\<open>KernelDecision()\<close>\<close>

definition no_decision :: kernel_decision where
  "no_decision =
     \<lparr>kd_submit = [], kd_cancel_intent_ids = [], kd_action = HOLD, kd_reason = ''no_action'',
      kd_expected_edge_bps = 0, kd_required_edge_bps = 0, kd_confluence_score = 0,
      kd_reference_price = None, kd_stop_price = None, kd_target_price = None,
      kd_position_age_seconds = 0\<rparr>"

definition kernel_decision_error :: "kernel_decision \<Rightarrow> string option" where
  "kernel_decision_error d = first_error
     [(kd_required_edge_bps d < 0, ''required_edge_bps''),
      (\<not> (0 \<le> kd_confluence_score d \<and> kd_confluence_score d \<le> 20), ''confluence_score''),
      (\<not> opt_all (\<lambda>p. 0 < p) (kd_reference_price d), ''reference_price''),
      (\<not> opt_all (\<lambda>p. 0 < p) (kd_stop_price d), ''stop_price''),
      (\<not> opt_all (\<lambda>p. 0 < p) (kd_target_price d), ''target_price''),
      (kd_position_age_seconds d < 0, ''position_age_seconds'')]"

definition mk_kernel_decision :: "kernel_decision \<Rightarrow> kernel_decision res" where
  "mk_kernel_decision d =
     (case kernel_decision_error d of Some e \<Rightarrow> Inl (ValidationError e) | None \<Rightarrow> Inr d)"

section \<open>Replay\<close>

text \<open>
  \<open>replay_kernel\<close> and \<open>replay_strategy\<close>: the memory is threaded through the decisions, an
  exception of the kernel ends the replay.
\<close>

fun replay ::
  "('s \<Rightarrow> 'm \<Rightarrow> ('m \<times> kernel_decision) res) \<Rightarrow> 'm \<Rightarrow> 's list \<Rightarrow> ('m \<times> kernel_decision list) res" where
  "replay decide memory [] = Inr (memory, [])"
| "replay decide memory (s # ss) =
     bindE (decide s memory) (\<lambda>(memory', d).
     bindE (replay decide memory' ss) (\<lambda>(final, ds). Inr (final, d # ds)))"

text \<open>\<open>assert_kernel_parity\<close>\<close>

definition assert_kernel_parity ::
  "'m \<times> kernel_decision list \<Rightarrow> 'm \<times> kernel_decision list \<Rightarrow> unit res" where
  "assert_kernel_parity left right =
     guardE (snd left \<noteq> snd right \<or> fst left \<noteq> fst right)
       (ValueError ''HftBacktest and Nautilus kernel decision traces diverged'') (Inr ())"

section \<open>Facts\<close>

lemma kernel_market_ok_iff [ok_simps]:
  "kernel_market_ok m \<longleftrightarrow>
     0 \<le> km_exchange_ts_ns m \<and> 0 \<le> km_book_exchange_ts_ns m \<and> 0 \<le> km_observed_ts_ns m \<and> 0 \<le> km_sequence m
   \<and> km_bids m \<noteq> [] \<and> list_all kernel_level_ok (km_bids m)
   \<and> km_asks m \<noteq> [] \<and> list_all kernel_level_ok (km_asks m)
   \<and> list_all kernel_trade_ok (km_trades m)
   \<and> km_exchange_ts_ns m \<le> km_observed_ts_ns m \<and> km_book_exchange_ts_ns m \<le> km_exchange_ts_ns m
   \<and> list_all (\<lambda>t. kt_exchange_ts_ns t \<le> km_exchange_ts_ns m) (km_trades m)
   \<and> list_all (\<lambda>t. kt_observed_ts_ns t \<le> km_observed_ts_ns m) (km_trades m)
   \<and> km_bids m = sort_bids (km_bids m) \<and> km_asks m = sort_asks (km_asks m)
   \<and> kl_price (hd (km_bids m)) < kl_price (hd (km_asks m))"
  by (auto simp: kernel_market_ok_def kernel_market_error_def first_error_None_iff not_le not_less
      list_all_iff list_ex_iff)

lemma kernel_trade_ok_iff [ok_simps]:
  "kernel_trade_ok t \<longleftrightarrow>
     0 \<le> kt_exchange_ts_ns t \<and> kt_exchange_ts_ns t \<le> kt_observed_ts_ns t \<and> 0 < kt_price t \<and> 0 < kt_size t"
  by (auto simp: kernel_trade_ok_def kernel_trade_error_def first_error_None_iff not_le not_less)

lemma feature_snapshot_ok_iff [ok_simps]:
  "feature_snapshot_ok f \<longleftrightarrow>
     0 \<le> fs_sequence f \<and> 0 \<le> fs_event_ts_ns f \<and> 0 \<le> fs_max_input_age_ns f \<and> 0 \<le> fs_warmup_count f
   \<and> is_sha256_hex (fs_feature_schema_sha256 f)
   \<and> 0 < fs_best_bid f \<and> fs_best_bid f < fs_best_ask f \<and> 0 < fs_midprice f \<and> 0 < fs_microprice f
   \<and> 0 < fs_vamp f \<and> 0 < fs_weighted_midprice f
   \<and> list_all unit_decimal [fs_book_imbalance f, fs_queue_imbalance f, fs_depth_imbalance f,
        fs_trade_flow_imbalance f]
   \<and> list_all fraction [fs_aggressor_ratio f, fs_margin_utilization f, fs_fill_probability_bid f,
        fs_fill_probability_ask f]
   \<and> list_all (\<lambda>x. 0 \<le> x) [fs_buy_pressure f, fs_sell_pressure f, fs_realized_volatility f, fs_atr_bps f,
        fs_spread_bps f, fs_inventory_risk f, fs_liquidation_distance_bps f, fs_queue_ahead_bid f,
        fs_queue_ahead_ask f]
   \<and> is_slug (fs_fill_model_id f)
   \<and> fs_event_ts_ns f \<le> fs_receive_ts_ns f \<and> fs_receive_ts_ns f \<le> fs_computed_ts_ns f"
  by (auto simp: feature_snapshot_ok_def feature_snapshot_error_def first_error_None_iff not_le not_less)

lemma mk_kernel_decision_Inr [ok_simps]:
  "mk_kernel_decision d = Inr d' \<longleftrightarrow> kernel_decision_error d = None \<and> d' = d"
  by (auto simp: mk_kernel_decision_def split: option.splits)

lemma no_decision_simps [simp]:
  "kd_submit no_decision = []" "kd_cancel_intent_ids no_decision = []" "kd_action no_decision = HOLD"
  by (simp_all add: no_decision_def)

lemma sorted_hd_max:
  "xs = sort_key f xs \<Longrightarrow> x \<in> set xs \<Longrightarrow> f (hd xs) \<le> f x"
proof -
  assume s: "xs = sort_key f xs" and x: "x \<in> set xs"
  have "sorted (map f xs)" using sorted_sort_key [of f xs] s by simp
  with x show ?thesis by (cases xs) auto
qed

lemma best_bid_is_max:
  assumes m: "kernel_market_ok m" and l: "l \<in> set (km_bids m)"
  shows "kl_price l \<le> kl_price (hd (km_bids m))"
proof -
  have s: "km_bids m = sort_key (\<lambda>l. - kl_price l) (km_bids m)"
    using m unfolding kernel_market_ok_iff sort_bids_def by (elim conjE)
  show ?thesis using sorted_hd_max [OF s l] by (simp only: neg_le_iff_le)
qed

lemma best_ask_is_min:
  assumes m: "kernel_market_ok m" and l: "l \<in> set (km_asks m)"
  shows "kl_price (hd (km_asks m)) \<le> kl_price l"
proof -
  have s: "km_asks m = sort_key kl_price (km_asks m)"
    using m unfolding kernel_market_ok_iff sort_asks_def by (elim conjE)
  show ?thesis by (rule sorted_hd_max [OF s l])
qed

lemma best_prices_pos:
  assumes "kernel_market_ok m"
  shows "0 < kl_price (hd (km_bids m))" "0 < kl_price (hd (km_asks m))"
proof -
  have "list_all kernel_level_ok (km_bids m)" "km_bids m \<noteq> []" "list_all kernel_level_ok (km_asks m)" "km_asks m \<noteq> []"
    using assms unfolding kernel_market_ok_iff by blast+
  then show "0 < kl_price (hd (km_bids m))" "0 < kl_price (hd (km_asks m))"
    by (auto simp: list_all_iff kernel_level_ok_def)
qed

lemma km_mid_pos: "kernel_market_ok m \<Longrightarrow> 0 < km_mid m"
  using best_prices_pos [of m] by (simp add: km_mid_def dec_simps add_pos_pos)

lemma parity_iff: "assert_kernel_parity l r = Inr () \<longleftrightarrow> l = r"
  by (cases l; cases r) (auto simp: assert_kernel_parity_def guardE_def)

section \<open>The strategy protocol\<close>

text \<open>
  A decision kernel is a pure function of its input and its memory. What a decision keeps of
  the memory, what it relates and what it guarantees of its output holds of every replay.
\<close>

locale decision_kernel =
  fixes decide :: "'s \<Rightarrow> 'm \<Rightarrow> ('m \<times> kernel_decision) res"
    and valid_input :: "'s \<Rightarrow> bool"
    and memory_ok :: "'m \<Rightarrow> bool"
    and decision_ok :: "'s \<Rightarrow> 'm \<Rightarrow> kernel_decision \<Rightarrow> bool"
  assumes decide_memory:
    "valid_input s \<Longrightarrow> memory_ok m \<Longrightarrow> decide s m = Inr (m', d) \<Longrightarrow> memory_ok m'"
    and decide_decision:
    "valid_input s \<Longrightarrow> memory_ok m \<Longrightarrow> decide s m = Inr (m', d) \<Longrightarrow> decision_ok s m d"
begin

lemma replay_memory:
  "\<forall>s \<in> set ss. valid_input s \<Longrightarrow> memory_ok m \<Longrightarrow> replay decide m ss = Inr (m', ds) \<Longrightarrow> memory_ok m'"
proof (induction ss arbitrary: m ds)
  case (Cons s ss)
  then obtain m1 d ds' where "decide s m = Inr (m1, d)" "replay decide m1 ss = Inr (m', ds')"
    by (auto simp: bindE_eq_Inr_iff)
  moreover from this Cons.prems have "memory_ok m1" using decide_memory [of s m m1 d] by simp
  ultimately show ?case using Cons.IH [of m1 ds'] Cons.prems by simp
qed simp

lemma replay_decisions:
  "\<forall>s \<in> set ss. valid_input s \<Longrightarrow> memory_ok m \<Longrightarrow> replay decide m ss = Inr (m', ds) \<Longrightarrow>
     length ds = length ss \<and> (\<forall>k < length ss. \<exists>mk. memory_ok mk \<and> decision_ok (ss ! k) mk (ds ! k))"
proof (induction ss arbitrary: m ds)
  case (Cons s ss)
  then obtain m1 d ds' where d: "decide s m = Inr (m1, d)" "replay decide m1 ss = Inr (m', ds')"
    "ds = d # ds'"
    by (auto simp: bindE_eq_Inr_iff)
  have "memory_ok m1" using Cons.prems d decide_memory by auto
  with Cons d have ih: "length ds' = length ss"
    "\<forall>k < length ss. \<exists>mk. memory_ok mk \<and> decision_ok (ss ! k) mk (ds' ! k)" by auto
  have "\<exists>mk. memory_ok mk \<and> decision_ok s mk d" using Cons.prems d decide_decision by auto
  with ih d show ?case by (auto simp: nth_Cons split: nat.splits)
qed simp

lemma replay_append:
  "replay decide m (xs @ ys) =
     bindE (replay decide m xs) (\<lambda>(m1, ds). bindE (replay decide m1 ys) (\<lambda>(m2, es). Inr (m2, ds @ es)))"
  by (induction xs arbitrary: m) (auto simp: bindE_def split: sum.splits prod.splits)

end

end
