(* ===== verification/Market_Structure.thy ===== *)
theory Market_Structure
  imports Kernel_Contracts
begin

text \<open>
  The causal market-structure engine of \<open>features/market_structure.py\<close>: candles of three
  timeframes built from locally observed states, support and resistance from confirmed
  pivots, structure breaks, sweeps, gaps and order blocks, and the confluence score. The
  engine's state is \<open>structure_state\<close>; \<open>structure_update\<close> is \<open>update\<close> and
  \<open>structure_snapshot\<close> is \<open>snapshot\<close>. Pydantic's \<open>model_copy\<close> does not validate, so that the
  candles stay well formed is a theorem here and not a check.
\<close>

section \<open>Data\<close>

datatype structure_direction = BULLISH | BEARISH | NEUTRAL
datatype dealing_range_zone = PREMIUM | DISCOUNT | EQUILIBRIUM | UNKNOWN_ZONE

record candle =
  cc_timeframe_seconds :: int
  cc_open_ts_ns :: int
  cc_close_ts_ns :: int
  cc_open :: dec
  cc_high :: dec
  cc_low :: dec
  cc_close :: dec
  cc_volume :: dec
  cc_signed_volume :: dec
  cc_observation_count :: int

definition candle_error :: "candle \<Rightarrow> string option" where
  "candle_error c = first_error
     [(cc_open_ts_ns c < 0 \<or> cc_close_ts_ns c \<le> 0, ''ts_ns''),
      (\<not> list_all (\<lambda>x. 0 < x) [cc_open c, cc_high c, cc_low c, cc_close c], ''gt=0''),
      (cc_volume c < 0, ''volume''),
      (cc_observation_count c < 1, ''observation_count''),
      (cc_close_ts_ns c \<le> cc_open_ts_ns c, ''candle close must follow its open''),
      (cc_high c < max (cc_open c) (cc_close c) \<or> min (cc_open c) (cc_close c) < cc_low c,
       ''candle high/low must contain open and close''),
      (cc_high c < cc_low c, ''candle low cannot exceed high'')]"

definition candle_ok :: "candle \<Rightarrow> bool" where
  "candle_ok c \<longleftrightarrow> candle_error c = None"

record timeframe_structure =
  ts_timeframe_seconds :: int
  ts_closed_bars :: int
  ts_last_closed_ts_ns :: "int option"
  ts_close :: "dec option"
  ts_atr_bps :: dec
  ts_direction :: structure_direction
  ts_zone :: dealing_range_zone
  ts_support :: "dec option"
  ts_resistance :: "dec option"
  ts_bullish_bos :: bool
  ts_bearish_bos :: bool
  ts_bullish_choch :: bool
  ts_bearish_choch :: bool
  ts_bullish_sweep :: bool
  ts_bearish_sweep :: bool
  ts_bullish_fvg_lower :: "dec option"
  ts_bullish_fvg_upper :: "dec option"
  ts_bearish_fvg_lower :: "dec option"
  ts_bearish_fvg_upper :: "dec option"
  ts_bullish_order_block_low :: "dec option"
  ts_bullish_order_block_high :: "dec option"
  ts_bearish_order_block_low :: "dec option"
  ts_bearish_order_block_high :: "dec option"

record smart_money_snapshot =
  sm_observed_ts_ns :: int
  sm_revision :: int
  sm_ready :: bool
  sm_one_minute :: timeframe_structure
  sm_five_minute :: timeframe_structure
  sm_fifteen_minute :: timeframe_structure
  sm_long_confluence :: int
  sm_short_confluence :: int
  sm_long_reasons :: "string list"
  sm_short_reasons :: "string list"

definition directional_bias :: "smart_money_snapshot \<Rightarrow> structure_direction" where
  "directional_bias s = ts_direction (sm_fifteen_minute s)"

record structure_config =
  se_pivot_span :: nat
  se_maximum_closed_bars :: nat
  se_minimum_1m_bars :: nat
  se_minimum_5m_bars :: nat
  se_minimum_15m_bars :: nat
  se_near_level_bps :: dec
  se_equilibrium_band_fraction :: dec

definition structure_config_ok :: "structure_config \<Rightarrow> bool" where
  "structure_config_ok c \<longleftrightarrow>
     1 \<le> se_pivot_span c \<and> se_pivot_span c \<le> 5
   \<and> 64 \<le> se_maximum_closed_bars c \<and> se_maximum_closed_bars c \<le> 2048
   \<and> 5 \<le> se_minimum_1m_bars c \<and> se_minimum_1m_bars c \<le> 100
   \<and> 5 \<le> se_minimum_5m_bars c \<and> se_minimum_5m_bars c \<le> 100
   \<and> 3 \<le> se_minimum_15m_bars c \<and> se_minimum_15m_bars c \<le> 100
   \<and> 0 < se_near_level_bps c \<and> se_near_level_bps c \<le> 100
   \<and> 0 \<le> se_equilibrium_band_fraction c \<and> se_equilibrium_band_fraction c \<le> 25 / 100"

record bar_state =
  tb_timeframe_seconds :: int
  tb_current :: "candle option"
  tb_current_valid :: bool
  tb_closed :: "candle list"

record structure_state =
  cs_revision :: int
  cs_last_observed_ts_ns :: "int option"
  cs_timeframes :: "bar_state list"

definition timeframes_seconds :: "int list" where
  "timeframes_seconds = [60, 300, 900]"

section \<open>Building candles\<close>

definition new_bar_state :: "int \<Rightarrow> bar_state" where
  "new_bar_state seconds =
     \<lparr>tb_timeframe_seconds = seconds, tb_current = None, tb_current_valid = True, tb_closed = []\<rparr>"

text \<open>
  A fresh engine, and an engine restored after a crash: completed bars are kept and every
  partial candle is quarantined.
\<close>

definition new_structure_state :: structure_state where
  "new_structure_state =
     \<lparr>cs_revision = 0, cs_last_observed_ts_ns = None,
      cs_timeframes = map new_bar_state timeframes_seconds\<rparr>"

definition restore_structure_state :: "structure_state \<Rightarrow> structure_state" where
  "restore_structure_state s =
     s\<lparr>cs_timeframes := map (\<lambda>b. b\<lparr>tb_current_valid := False\<rparr>) (cs_timeframes s)\<rparr>"

text \<open>\<open>_update_timeframe\<close>; \<open>prices\<close> is the nonempty list of the observation's prices.\<close>

definition update_timeframe ::
  "structure_config \<Rightarrow> bar_state \<Rightarrow> int \<Rightarrow> dec list \<Rightarrow> dec \<Rightarrow> dec \<Rightarrow> bar_state \<times> bool" where
  "update_timeframe cfg state observed_ts_ns prices volume signed_volume =
     (let duration = tb_timeframe_seconds state * 1000000000;
          bucket = observed_ts_ns div duration * duration;
          high = the (py_max prices);
          low = the (py_min prices);
          fresh = \<lparr>cc_timeframe_seconds = tb_timeframe_seconds state, cc_open_ts_ns = bucket,
                   cc_close_ts_ns = bucket + duration, cc_open = hd prices, cc_high = high,
                   cc_low = low, cc_close = last prices, cc_volume = volume,
                   cc_signed_volume = signed_volume, cc_observation_count = 1\<rparr>
      in case tb_current state of
           None \<Rightarrow> (state\<lparr>tb_current := Some fresh, tb_current_valid := True\<rparr>, False)
         | Some current \<Rightarrow>
             if cc_open_ts_ns current \<noteq> bucket then
               (if tb_current_valid state
                then (state\<lparr>tb_current := Some fresh, tb_current_valid := True,
                           tb_closed := py_suffix (se_maximum_closed_bars cfg) (tb_closed state @ [current])\<rparr>,
                      True)
                else (state\<lparr>tb_current := Some fresh, tb_current_valid := True\<rparr>, False))
             else
               (state\<lparr>tb_current := Some (current
                   \<lparr>cc_high := max (cc_high current) high, cc_low := min (cc_low current) low,
                    cc_close := last prices, cc_volume := dadd (cc_volume current) volume,
                    cc_signed_volume := dadd (cc_signed_volume current) signed_volume,
                    cc_observation_count := cc_observation_count current + 1\<rparr>)\<rparr>, False))"

section \<open>Analysis\<close>

text \<open>\<open>_confirmed_pivots\<close>: indices \<open>w .. len - w - 1\<close>, strict against their neighbours.\<close>

definition neighbors :: "nat \<Rightarrow> candle list \<Rightarrow> nat \<Rightarrow> candle list" where
  "neighbors w bars i = take w (drop (i - w) bars) @ take w (drop (Suc i) bars)"

definition pivot_indices :: "nat \<Rightarrow> candle list \<Rightarrow> nat list" where
  "pivot_indices w bars = [w ..< length bars - w]"

definition swing_highs :: "nat \<Rightarrow> candle list \<Rightarrow> candle list" where
  "swing_highs w bars = map ((!) bars)
     (filter (\<lambda>i. list_all (\<lambda>b. cc_high b < cc_high (bars ! i)) (neighbors w bars i))
        (pivot_indices w bars))"

definition swing_lows :: "nat \<Rightarrow> candle list \<Rightarrow> candle list" where
  "swing_lows w bars = map ((!) bars)
     (filter (\<lambda>i. list_all (\<lambda>b. cc_low (bars ! i) < cc_low b) (neighbors w bars i))
        (pivot_indices w bars))"

text \<open>\<open>xs[-k]\<close>\<close>

definition from_end :: "'a list \<Rightarrow> nat \<Rightarrow> 'a" where
  "from_end xs k = xs ! (length xs - k)"

definition direction :: "candle list \<Rightarrow> candle list \<Rightarrow> candle list \<Rightarrow> structure_direction" where
  "direction bars highs lows =
     (let swings = (2 \<le> length highs \<and> 2 \<le> length lows) in
      if swings \<and> cc_high (from_end highs 2) < cc_high (from_end highs 1)
           \<and> cc_low (from_end lows 2) < cc_low (from_end lows 1) then BULLISH
      else if swings \<and> cc_high (from_end highs 1) < cc_high (from_end highs 2)
           \<and> cc_low (from_end lows 1) < cc_low (from_end lows 2) then BEARISH
      else if 3 \<le> length bars \<and> cc_close (from_end bars 3) < cc_close (from_end bars 1) then BULLISH
      else if 3 \<le> length bars \<and> cc_close (from_end bars 1) < cc_close (from_end bars 3) then BEARISH
      else NEUTRAL)"

definition zone :: "structure_config \<Rightarrow> dec \<Rightarrow> dec option \<Rightarrow> dec option \<Rightarrow> dealing_range_zone" where
  "zone cfg close support resistance =
     (case (support, resistance) of
        (Some s, Some r) \<Rightarrow>
          if r \<le> s then UNKNOWN_ZONE
          else let equilibrium = ddiv (dadd s r) 2;
                   band = dmul (dsub r s) (se_equilibrium_band_fraction cfg)
               in if close < dsub equilibrium band then DISCOUNT
                  else if dadd equilibrium band < close then PREMIUM
                  else EQUILIBRIUM
      | _ \<Rightarrow> UNKNOWN_ZONE)"

fun true_ranges :: "dec option \<Rightarrow> candle list \<Rightarrow> dec list" where
  "true_ranges previous [] = []"
| "true_ranges previous (b # bs) =
     (let range = dsub (cc_high b) (cc_low b)
      in (case previous of
            None \<Rightarrow> range
          | Some p \<Rightarrow> max (max range (dabs (dsub (cc_high b) p))) (dabs (dsub (cc_low b) p)))
         # true_ranges (Some (cc_close b)) bs)"

definition atr_bps :: "candle list \<Rightarrow> dec" where
  "atr_bps bars =
     (let window = py_suffix 15 bars in
      if window = [] then 0
      else let ranges = true_ranges None window;
               average = ddiv (dsum ranges) (of_nat (length ranges))
           in dmul (ddiv average (cc_close (last window))) 10000)"

definition near :: "structure_config \<Rightarrow> dec option \<Rightarrow> dec option \<Rightarrow> bool" where
  "near cfg price level =
     (case (price, level) of
        (Some p, Some l) \<Rightarrow> dmul (ddiv (dabs (dsub p l)) p) 10000 \<le> se_near_level_bps cfg
      | _ \<Rightarrow> False)"

definition empty_structure :: "int \<Rightarrow> timeframe_structure" where
  "empty_structure seconds =
     \<lparr>ts_timeframe_seconds = seconds, ts_closed_bars = 0, ts_last_closed_ts_ns = None, ts_close = None,
      ts_atr_bps = 0, ts_direction = NEUTRAL, ts_zone = UNKNOWN_ZONE, ts_support = None,
      ts_resistance = None, ts_bullish_bos = False, ts_bearish_bos = False, ts_bullish_choch = False,
      ts_bearish_choch = False, ts_bullish_sweep = False, ts_bearish_sweep = False,
      ts_bullish_fvg_lower = None, ts_bullish_fvg_upper = None, ts_bearish_fvg_lower = None,
      ts_bearish_fvg_upper = None, ts_bullish_order_block_low = None,
      ts_bullish_order_block_high = None, ts_bearish_order_block_low = None,
      ts_bearish_order_block_high = None\<rparr>"

definition resistance_level :: "nat \<Rightarrow> candle list \<Rightarrow> dec option" where
  "resistance_level w prior =
     (case swing_highs w prior of
        [] \<Rightarrow> py_max (map cc_high (py_suffix 10 prior))
      | hs \<Rightarrow> Some (cc_high (last hs)))"

definition support_level :: "nat \<Rightarrow> candle list \<Rightarrow> dec option" where
  "support_level w prior =
     (case swing_lows w prior of
        [] \<Rightarrow> py_min (map cc_low (py_suffix 10 prior))
      | ls \<Rightarrow> Some (cc_low (last ls)))"

definition analyze :: "structure_config \<Rightarrow> int \<Rightarrow> candle list \<Rightarrow> timeframe_structure" where
  "analyze cfg seconds bars =
     (if bars = [] then empty_structure seconds
      else
        let latest = last bars; prior = butlast bars; w = se_pivot_span cfg;
            resistance = resistance_level w prior;
            support = support_level w prior;
            dir = direction prior (swing_highs w prior) (swing_lows w prior);
            bullish_bos = (case resistance of None \<Rightarrow> False | Some r \<Rightarrow> r < cc_close latest);
            bearish_bos = (case support of None \<Rightarrow> False | Some s \<Rightarrow> cc_close latest < s);
            first = from_end bars 3;
            bullish_gap = (3 \<le> length bars \<and> cc_high first < cc_low latest);
            bearish_gap = (3 \<le> length bars \<and> cc_high latest < cc_low first);
            recent = rev (py_suffix 8 prior);
            bullish_block = (if bullish_bos then find (\<lambda>b. cc_close b < cc_open b) recent else None);
            bearish_block = (if bearish_bos then find (\<lambda>b. cc_open b < cc_close b) recent else None)
        in \<lparr>ts_timeframe_seconds = seconds, ts_closed_bars = int (length bars),
            ts_last_closed_ts_ns = Some (cc_close_ts_ns latest), ts_close = Some (cc_close latest),
            ts_atr_bps = atr_bps bars, ts_direction = dir,
            ts_zone = zone cfg (cc_close latest) support resistance,
            ts_support = support, ts_resistance = resistance,
            ts_bullish_bos = bullish_bos, ts_bearish_bos = bearish_bos,
            ts_bullish_choch = (bullish_bos \<and> dir = BEARISH),
            ts_bearish_choch = (bearish_bos \<and> dir = BULLISH),
            ts_bullish_sweep =
              (case support of None \<Rightarrow> False | Some s \<Rightarrow> cc_low latest < s \<and> s \<le> cc_close latest),
            ts_bearish_sweep =
              (case resistance of None \<Rightarrow> False | Some r \<Rightarrow> r < cc_high latest \<and> cc_close latest \<le> r),
            ts_bullish_fvg_lower = (if bullish_gap then Some (cc_high first) else None),
            ts_bullish_fvg_upper = (if bullish_gap then Some (cc_low latest) else None),
            ts_bearish_fvg_lower = (if bearish_gap then Some (cc_high latest) else None),
            ts_bearish_fvg_upper = (if bearish_gap then Some (cc_low first) else None),
            ts_bullish_order_block_low = map_option cc_low bullish_block,
            ts_bullish_order_block_high = map_option cc_high bullish_block,
            ts_bearish_order_block_low = map_option cc_low bearish_block,
            ts_bearish_order_block_high = map_option cc_high bearish_block\<rparr>)"

text \<open>\<open>_score\<close>: the points with their reasons, in the order they are added.\<close>

definition score_points ::
  "structure_config \<Rightarrow> structure_direction \<Rightarrow> timeframe_structure \<Rightarrow> timeframe_structure
     \<Rightarrow> timeframe_structure \<Rightarrow> (int \<times> string) list" where
  "score_points cfg side one five fifteen =
     (let bullish = (side = BULLISH) in
        (if ts_direction fifteen = side then [(3, ''15m_bias'')] else [])
      @ (if ts_direction five = side then [(1, ''5m_structure'')] else [])
      @ (if (if bullish then ts_bullish_sweep five else ts_bearish_sweep five)
         then [(2, ''5m_liquidity_sweep'')] else [])
      @ (if (if bullish then ts_bullish_bos five else ts_bearish_bos five) then [(1, ''5m_bos'')] else [])
      @ (if ts_zone five = (if bullish then DISCOUNT else PREMIUM) then [(1, ''5m_dealing_range'')] else [])
      @ (if near cfg (ts_close five) (if bullish then ts_support five else ts_resistance five)
         then [(1, ''5m_support_resistance'')] else [])
      @ (if (if bullish then ts_bullish_sweep one else ts_bearish_sweep one)
         then [(2, ''1m_liquidity_sweep'')] else [])
      @ (if (if bullish then ts_bullish_choch one else ts_bearish_choch one) then [(2, ''1m_choch'')]
         else if (if bullish then ts_bullish_bos one else ts_bearish_bos one) then [(1, ''1m_bos'')] else [])
      @ (if ts_direction one = side then [(1, ''1m_momentum'')] else [])
      @ (if (if bullish then ts_bullish_fvg_lower one else ts_bearish_fvg_lower one) \<noteq> None
         then [(1, ''1m_fvg'')] else []))"

definition score ::
  "structure_config \<Rightarrow> structure_direction \<Rightarrow> timeframe_structure \<Rightarrow> timeframe_structure
     \<Rightarrow> timeframe_structure \<Rightarrow> int \<times> string list" where
  "score cfg side one five fifteen =
     (let ps = score_points cfg side one five fifteen
      in (min (sum_list (map fst ps)) 20, map snd ps))"

section \<open>The engine\<close>

definition closed_of :: "structure_state \<Rightarrow> int \<Rightarrow> candle list" where
  "closed_of s seconds =
     (case find (\<lambda>b. tb_timeframe_seconds b = seconds) (cs_timeframes s) of
        None \<Rightarrow> [] | Some b \<Rightarrow> tb_closed b)"

definition structure_ready :: "structure_config \<Rightarrow> structure_state \<Rightarrow> bool" where
  "structure_ready cfg s \<longleftrightarrow>
     se_minimum_1m_bars cfg \<le> length (closed_of s 60)
   \<and> se_minimum_5m_bars cfg \<le> length (closed_of s 300)
   \<and> se_minimum_15m_bars cfg \<le> length (closed_of s 900)"

definition structure_snapshot :: "structure_config \<Rightarrow> structure_state \<Rightarrow> int \<Rightarrow> smart_money_snapshot" where
  "structure_snapshot cfg s observed_ts_ns =
     (let one = analyze cfg 60 (closed_of s 60);
          five = analyze cfg 300 (closed_of s 300);
          fifteen = analyze cfg 900 (closed_of s 900);
          (long_score, long_reasons) = score cfg BULLISH one five fifteen;
          (short_score, short_reasons) = score cfg BEARISH one five fifteen
      in \<lparr>sm_observed_ts_ns = observed_ts_ns, sm_revision = cs_revision s, sm_ready = structure_ready cfg s,
          sm_one_minute = one, sm_five_minute = five, sm_fifteen_minute = fifteen,
          sm_long_confluence = long_score, sm_short_confluence = short_score,
          sm_long_reasons = long_reasons, sm_short_reasons = short_reasons\<rparr>)"

definition signed_size :: "kernel_trade \<Rightarrow> dec" where
  "signed_size t =
     (case kt_aggressor t of BUYER \<Rightarrow> kt_size t | SELLER \<Rightarrow> dneg (kt_size t) | _ \<Rightarrow> 0)"

definition structure_update ::
  "structure_config \<Rightarrow> structure_state \<Rightarrow> kernel_market \<Rightarrow> (structure_state \<times> smart_money_snapshot) res" where
  "structure_update cfg s m =
     (if (case cs_last_observed_ts_ns s of None \<Rightarrow> False | Some t \<Rightarrow> km_observed_ts_ns m \<le> t)
      then Inl (ValueError ''market-structure observations must be strictly increasing'')
      else
        let prices = km_mid m # map kt_price (km_trades m);
            volume = dsum (map kt_size (km_trades m));
            signed_volume = dsum (map signed_size (km_trades m));
            updates = map (\<lambda>b. update_timeframe cfg b (km_observed_ts_ns m) prices volume signed_volume)
                          (cs_timeframes s);
            s' = \<lparr>cs_revision = cs_revision s + (if list_ex snd updates then 1 else 0),
                  cs_last_observed_ts_ns = Some (km_observed_ts_ns m),
                  cs_timeframes = map fst updates\<rparr>
        in Inr (s', structure_snapshot cfg s' (km_observed_ts_ns m)))"

section \<open>Invariant\<close>

definition duration_ns :: "bar_state \<Rightarrow> int" where
  "duration_ns b = tb_timeframe_seconds b * 1000000000"

definition bars_of :: "bar_state \<Rightarrow> candle list" where
  "bars_of b = tb_closed b @ opt_list (tb_current b)"

definition candle_of :: "bar_state \<Rightarrow> candle \<Rightarrow> bool" where
  "candle_of b c \<longleftrightarrow>
     candle_ok c \<and> cc_timeframe_seconds c = tb_timeframe_seconds b
   \<and> cc_open_ts_ns c mod duration_ns b = 0 \<and> cc_close_ts_ns c = cc_open_ts_ns c + duration_ns b"

text \<open>
  Every candle is well formed and fills one bucket of its timeframe, candles follow each
  other without overlap, at most the configured number is kept, and the last observation
  lies in the current bucket: every closed candle had closed when it was last observed.
\<close>

definition bar_state_inv :: "structure_config \<Rightarrow> int option \<Rightarrow> bar_state \<Rightarrow> bool" where
  "bar_state_inv cfg last_ts b \<longleftrightarrow>
     0 < tb_timeframe_seconds b
   \<and> length (tb_closed b) \<le> se_maximum_closed_bars cfg
   \<and> (\<forall>c \<in> set (bars_of b). candle_of b c)
   \<and> sorted_wrt (\<lambda>c d. cc_close_ts_ns c \<le> cc_open_ts_ns d) (bars_of b)
   \<and> (case last_ts of None \<Rightarrow> bars_of b = []
      | Some t \<Rightarrow> (\<forall>c \<in> set (tb_closed b). cc_close_ts_ns c \<le> t)
           \<and> (\<forall>c \<in> set (opt_list (tb_current b)). cc_open_ts_ns c = t div duration_ns b * duration_ns b))"

definition structure_inv :: "structure_config \<Rightarrow> structure_state \<Rightarrow> bool" where
  "structure_inv cfg s \<longleftrightarrow>
     map tb_timeframe_seconds (cs_timeframes s) = timeframes_seconds
   \<and> 0 \<le> cs_revision s
   \<and> (\<forall>b \<in> set (cs_timeframes s). bar_state_inv cfg (cs_last_observed_ts_ns s) b)"

section \<open>Lemmas\<close>

lemma candle_ok_iff [ok_simps]:
  "candle_ok c \<longleftrightarrow>
     0 \<le> cc_open_ts_ns c \<and> cc_open_ts_ns c < cc_close_ts_ns c \<and> 0 < cc_low c
   \<and> cc_low c \<le> cc_open c \<and> cc_low c \<le> cc_close c \<and> cc_open c \<le> cc_high c \<and> cc_close c \<le> cc_high c
   \<and> 0 \<le> cc_volume c \<and> 1 \<le> cc_observation_count c"
  by (auto simp: candle_ok_def candle_error_def first_error_None_iff not_le not_less max_def min_def
      split: if_splits)

lemma py_max_Cons: "the (py_max (x # xs)) = foldl max x xs"
  and py_min_Cons: "the (py_min (x # xs)) = foldl min x xs"
  by simp_all

lemma the_py_max: "xs \<noteq> [] \<Longrightarrow> y \<in> set xs \<Longrightarrow> y \<le> the (py_max xs)" for y :: "'a :: linorder"
  using foldl_max_ge by (cases xs) auto

lemma the_py_min: "xs \<noteq> [] \<Longrightarrow> y \<in> set xs \<Longrightarrow> the (py_min xs) \<le> y" for y :: "'a :: linorder"
  using foldl_min_le by (cases xs) auto

lemma the_py_min_in: "xs \<noteq> [] \<Longrightarrow> the (py_min xs) \<in> set xs" for xs :: "'a :: linorder list"
  using foldl_min_in by (cases xs) auto

text \<open>A bucket that differs from an earlier observation's bucket begins after that one ends.\<close>

lemma bucket_after:
  fixes t t' D :: int
  assumes "0 < D" "t < t'" "t div D * D \<noteq> t' div D * D"
  shows "t div D * D + D \<le> t' div D * D"
proof -
  have "t div D \<le> t' div D" using assms by (simp add: zdiv_mono1)
  moreover have "t div D \<noteq> t' div D" using assms(3) by auto
  ultimately have "t div D + 1 \<le> t' div D" by simp
  then have "(t div D + 1) * D \<le> t' div D * D" using assms(1) by (simp add: mult_right_mono)
  then show ?thesis by (simp add: distrib_right)
qed

lemma sorted_wrt_suffix: "sorted_wrt P xs \<Longrightarrow> sorted_wrt P (py_suffix n xs)"
  unfolding py_suffix_def by (auto intro: sorted_wrt_drop)

lemma observed_in_bucket: "0 < D \<Longrightarrow> t div D * D \<le> t \<and> t < t div D * D + D" for t D :: int
proof -
  assume D: "0 < D"
  have "t div D * D = t - t mod D" by (simp add: minus_mod_eq_div_mult)
  moreover have "0 \<le> t mod D" "t mod D < D" using D by simp_all
  ultimately show ?thesis by linarith
qed

text \<open>What an observation must satisfy: positive prices, a volume that is not negative.\<close>

definition observation_ok :: "dec list \<Rightarrow> dec \<Rightarrow> bool" where
  "observation_ok prices volume \<longleftrightarrow> prices \<noteq> [] \<and> (\<forall>p \<in> set prices. 0 < p) \<and> 0 \<le> volume"

lemma fresh_candle_ok:
  assumes "observation_ok prices volume" "0 \<le> t" "0 < secs"
  shows "candle_ok \<lparr>cc_timeframe_seconds = secs, cc_open_ts_ns = t div (secs * 1000000000) * (secs * 1000000000),
      cc_close_ts_ns = t div (secs * 1000000000) * (secs * 1000000000) + secs * 1000000000,
      cc_open = hd prices, cc_high = the (py_max prices), cc_low = the (py_min prices),
      cc_close = last prices, cc_volume = volume, cc_signed_volume = sv, cc_observation_count = 1\<rparr>"
proof -
  have "0 \<le> t div (secs * 1000000000) * (secs * 1000000000)"
    using assms by (intro mult_nonneg_nonneg) (simp_all add: pos_imp_zdiv_nonneg_iff)
  then show ?thesis
    using assms the_py_max [of prices] the_py_min [of prices] the_py_min_in [of prices]
    by (auto simp: candle_ok_iff observation_ok_def)
qed

lemma update_timeframe_cases:
  obtains (same) c c' where "tb_current b = Some c" "cc_open_ts_ns c = t div duration_ns b * duration_ns b"
      "fst (update_timeframe cfg b t prices v sv) = b\<lparr>tb_current := Some c'\<rparr>"
      "c' = c\<lparr>cc_high := max (cc_high c) (the (py_max prices)), cc_low := min (cc_low c) (the (py_min prices)),
              cc_close := last prices, cc_volume := dadd (cc_volume c) v,
              cc_signed_volume := dadd (cc_signed_volume c) sv,
              cc_observation_count := cc_observation_count c + 1\<rparr>"
      "\<not> snd (update_timeframe cfg b t prices v sv)"
  | (roll) f kept where "fst (update_timeframe cfg b t prices v sv) =
        b\<lparr>tb_current := Some f, tb_current_valid := True, tb_closed := kept\<rparr>"
      "f = \<lparr>cc_timeframe_seconds = tb_timeframe_seconds b,
            cc_open_ts_ns = t div (tb_timeframe_seconds b * 1000000000) * (tb_timeframe_seconds b * 1000000000),
            cc_close_ts_ns = t div (tb_timeframe_seconds b * 1000000000) * (tb_timeframe_seconds b * 1000000000)
              + tb_timeframe_seconds b * 1000000000,
            cc_open = hd prices, cc_high = the (py_max prices), cc_low = the (py_min prices),
            cc_close = last prices, cc_volume = v, cc_signed_volume = sv, cc_observation_count = 1\<rparr>"
      "\<forall>c \<in> set (opt_list (tb_current b)). cc_open_ts_ns c \<noteq> t div duration_ns b * duration_ns b"
      "kept = (if tb_current_valid b \<and> tb_current b \<noteq> None
               then py_suffix (se_maximum_closed_bars cfg) (bars_of b) else tb_closed b)"
      "snd (update_timeframe cfg b t prices v sv) = (tb_current_valid b \<and> tb_current b \<noteq> None)"
proof (cases "tb_current b")
  case None
  then show ?thesis
    by (intro roll [OF _ refl, of "tb_closed b"]) (auto simp: update_timeframe_def Let_def)
next
  case (Some c)
  show ?thesis
  proof (cases "cc_open_ts_ns c = t div duration_ns b * duration_ns b")
    case True
    with Some show ?thesis
      by (intro same [of c]) (auto simp: update_timeframe_def Let_def duration_ns_def)
  next
    case False
    with Some show ?thesis
      by (intro roll [OF _ refl, of "if tb_current_valid b
          then py_suffix (se_maximum_closed_bars cfg) (bars_of b) else tb_closed b"])
        (auto simp: update_timeframe_def Let_def duration_ns_def bars_of_def)
  qed
qed

lemma update_timeframe_seconds [simp]:
  "tb_timeframe_seconds (fst (update_timeframe cfg b t prices v sv)) = tb_timeframe_seconds b"
  by (auto simp: update_timeframe_def Let_def split: option.splits)

lemma update_timeframe_inv:
  assumes inv: "bar_state_inv cfg last_ts b" and after: "\<And>u. last_ts = Some u \<Longrightarrow> u < t"
    and t: "0 \<le> t" and obs: "observation_ok prices v" and cap: "0 < se_maximum_closed_bars cfg"
  shows "bar_state_inv cfg (Some t) (fst (update_timeframe cfg b t prices v sv))"
proof -
  let ?D = "duration_ns b"
  have D: "0 < ?D" using inv by (simp add: bar_state_inv_def duration_ns_def)
  have closed_before: "cc_close_ts_ns c \<le> t" if "c \<in> set (tb_closed b)" for c
    using inv after that by (cases last_ts) (force simp: bar_state_inv_def bars_of_def)+
  show ?thesis
  proof (cases rule: update_timeframe_cases [where cfg = cfg and b = b and t = t and prices = prices and v = v and sv = sv])
    case (same c c')
    have c: "candle_of b c" using inv same(1) by (simp add: bar_state_inv_def bars_of_def)
    have "candle_ok c'"
      using c obs the_py_max [of prices "last prices"] the_py_min [of prices "last prices"] the_py_min_in [of prices]
      unfolding same(4) by (auto simp: candle_of_def candle_ok_iff observation_ok_def dec_simps min_def max_def)
    then have c': "candle_of b c'" "cc_open_ts_ns c' = cc_open_ts_ns c"
      using c unfolding same(4) by (auto simp: candle_of_def)
    show ?thesis
      using inv closed_before c' same(1,2) unfolding same(3)
      by (auto simp: bar_state_inv_def bars_of_def candle_of_def duration_ns_def sorted_wrt_append
          split: option.splits)
  next
    case (roll f kept)
    have f: "candle_of b f" "cc_open_ts_ns f = t div ?D * ?D"
      unfolding roll(2) using fresh_candle_ok [OF obs t] inv
      by (auto simp: candle_of_def duration_ns_def bar_state_inv_def)
    have ended: "cc_close_ts_ns c \<le> cc_open_ts_ns f" if cb: "c \<in> set (bars_of b)" for c
    proof -
      obtain u where u: "last_ts = Some u"
        using inv cb by (cases last_ts) (auto simp: bar_state_inv_def bars_of_def)
      have cc: "cc_close_ts_ns c = cc_open_ts_ns c + ?D" "cc_open_ts_ns c mod ?D = 0"
        using inv cb by (auto simp: bar_state_inv_def candle_of_def)
      show ?thesis
      proof (cases "c \<in> set (tb_closed b)")
        case True
        then have "cc_close_ts_ns c \<le> t" by (rule closed_before)
        moreover have "cc_close_ts_ns c mod ?D = 0" using cc by simp
        ultimately have "cc_close_ts_ns c div ?D \<le> t div ?D" and e: "cc_close_ts_ns c div ?D * ?D = cc_close_ts_ns c"
          using D by (auto simp: zdiv_mono1)
        from this(1) have "cc_close_ts_ns c div ?D * ?D \<le> t div ?D * ?D"
          by (rule mult_right_mono) (use D in simp)
        then show ?thesis unfolding e f(2) .
      next
        case False
        then have cur: "tb_current b = Some c" using cb by (simp add: bars_of_def)
        then have "cc_open_ts_ns c = u div ?D * ?D" using inv u by (simp add: bar_state_inv_def)
        moreover from this roll(3) cur have "u div ?D * ?D \<noteq> t div ?D * ?D" by simp
        ultimately show ?thesis using bucket_after [OF D after [OF u]] f(2) cc(1) by simp
      qed
    qed
    have kept: "set kept \<subseteq> set (bars_of b)" "length kept \<le> se_maximum_closed_bars cfg"
      "sorted_wrt (\<lambda>c d. cc_close_ts_ns c \<le> cc_open_ts_ns d) kept"
      using roll(4) inv cap set_py_suffix [of "se_maximum_closed_bars cfg" "bars_of b"]
      by (auto simp: bar_state_inv_def bars_of_def length_py_suffix sorted_wrt_suffix sorted_wrt_append
          split: if_splits)
    have bucket: "t div ?D * ?D \<le> t" using observed_in_bucket [OF D, of t] by simp
    let ?b = "b\<lparr>tb_current := Some f, tb_current_valid := True, tb_closed := kept\<rparr>"
    have same: "duration_ns ?b = ?D" "candle_of ?b = candle_of b" "bars_of ?b = kept @ [f]"
      by (simp_all add: duration_ns_def candle_of_def bars_of_def fun_eq_iff)
    have old: "candle_of b c" if "c \<in> set kept" for c
      using that kept(1) inv by (auto simp: bar_state_inv_def)
    have before: "cc_close_ts_ns c \<le> cc_open_ts_ns f" if "c \<in> set kept" for c
      using that kept(1) ended by auto
    have "sorted_wrt (\<lambda>c d. cc_close_ts_ns c \<le> cc_open_ts_ns d) (kept @ [f])"
      using kept(3) before by (simp add: sorted_wrt_append)
    moreover have "cc_close_ts_ns c \<le> t" if "c \<in> set kept" for c
      using before [OF that] f(2) bucket by simp
    ultimately show ?thesis
      unfolding roll(1) bar_state_inv_def same using inv f old kept(2)
      by (auto simp: bar_state_inv_def)
  qed
qed


lemma market_observation_ok:
  assumes "kernel_market_ok m"
  shows "observation_ok (km_mid m # map kt_price (km_trades m)) (dsum (map kt_size (km_trades m)))"
proof -
  have t: "\<forall>t \<in> set (km_trades m). 0 < kt_price t \<and> 0 < kt_size t"
    using assms by (simp add: kernel_market_ok_iff kernel_trade_ok_iff list_all_iff)
  then have "0 \<le> dsum (map kt_size (km_trades m))" by (intro dsum_nonneg) (simp add: less_imp_le)
  with t km_mid_pos [OF assms] show ?thesis by (simp add: observation_ok_def)
qed

lemma structure_update_Inr:
  "structure_update cfg s m = Inr (s', sn) \<longleftrightarrow>
     (\<forall>t. cs_last_observed_ts_ns s = Some t \<longrightarrow> t < km_observed_ts_ns m)
   \<and> s' = (let updates = map (\<lambda>b. update_timeframe cfg b (km_observed_ts_ns m)
              (km_mid m # map kt_price (km_trades m)) (dsum (map kt_size (km_trades m)))
              (dsum (map signed_size (km_trades m)))) (cs_timeframes s)
        in \<lparr>cs_revision = cs_revision s + (if list_ex snd updates then 1 else 0),
            cs_last_observed_ts_ns = Some (km_observed_ts_ns m), cs_timeframes = map fst updates\<rparr>)
   \<and> sn = structure_snapshot cfg s' (km_observed_ts_ns m)"
  by (auto simp: structure_update_def Let_def not_le split: option.splits)

lemma structure_update_inv:
  assumes inv: "structure_inv cfg s" and cap: "0 < se_maximum_closed_bars cfg" and m: "kernel_market_ok m"
    and up: "structure_update cfg s m = Inr (s', sn)"
  shows "structure_inv cfg s'"
proof -
  have t: "0 \<le> km_observed_ts_ns m" using m by (simp add: kernel_market_ok_iff)
  note s' = up [unfolded structure_update_Inr Let_def, THEN conjunct2, THEN conjunct1]
  have after: "\<And>u. cs_last_observed_ts_ns s = Some u \<Longrightarrow> u < km_observed_ts_ns m"
    using up by (simp add: structure_update_Inr)
  have "bar_state_inv cfg (Some (km_observed_ts_ns m)) (fst (update_timeframe cfg b (km_observed_ts_ns m)
      (km_mid m # map kt_price (km_trades m)) (dsum (map kt_size (km_trades m))) sv))"
    if "b \<in> set (cs_timeframes s)" for b sv
    using update_timeframe_inv [OF _ after t market_observation_ok [OF m] cap] inv that
    by (auto simp: structure_inv_def)
  then show ?thesis using inv unfolding s' by (auto simp: structure_inv_def comp_def)
qed

text \<open>A run: observations that raise leave the engine as it was.\<close>

definition structure_step :: "structure_config \<Rightarrow> structure_state \<Rightarrow> kernel_market \<Rightarrow> structure_state" where
  "structure_step cfg s m = (case structure_update cfg s m of Inl _ \<Rightarrow> s | Inr (s', _) \<Rightarrow> s')"

text \<open>
  What is closed stays as it is: a later list of closed bars is an earlier one with bars
  appended and, because of the cap, possibly dropped at the front.
\<close>

definition extends_bars :: "bar_state \<Rightarrow> bar_state \<Rightarrow> bool" where
  "extends_bars b b' \<longleftrightarrow>
     tb_timeframe_seconds b' = tb_timeframe_seconds b
   \<and> (\<exists>dropped rest. dropped @ tb_closed b' = tb_closed b @ rest)"

definition structure_rel :: "structure_state \<Rightarrow> structure_state \<Rightarrow> bool" where
  "structure_rel s s' \<longleftrightarrow>
     cs_revision s \<le> cs_revision s' \<and> list_all2 extends_bars (cs_timeframes s) (cs_timeframes s')"

lemma extends_bars_refl: "extends_bars b b"
  unfolding extends_bars_def by (metis append_Nil append_Nil2)

lemma extends_bars_trans: "extends_bars a b \<Longrightarrow> extends_bars b c \<Longrightarrow> extends_bars a c"
proof -
  assume ab: "extends_bars a b" and bc: "extends_bars b c"
  obtain d1 r1 where 1: "d1 @ tb_closed b = tb_closed a @ r1" using ab by (auto simp: extends_bars_def)
  obtain d2 r2 where 2: "d2 @ tb_closed c = tb_closed b @ r2" using bc by (auto simp: extends_bars_def)
  have "(d1 @ d2) @ tb_closed c = tb_closed a @ (r1 @ r2)"
    using 1 2 by (metis append_assoc)
  with ab bc show ?thesis unfolding extends_bars_def by metis
qed

lemma update_extends: "extends_bars b (fst (update_timeframe cfg b t prices v sv))"
proof (cases rule: update_timeframe_cases [where cfg = cfg and b = b and t = t and prices = prices and v = v and sv = sv])
  case (same c c')
  then show ?thesis by (simp add: extends_bars_def) (metis append_Nil append_Nil2)
next
  case (roll f kept)
  obtain ys where "bars_of b = ys @ py_suffix (se_maximum_closed_bars cfg) (bars_of b)"
    using py_suffix_append_ex by blast
  then have "\<exists>dropped rest. dropped @ kept = tb_closed b @ rest"
    using roll(4) by (auto simp: bars_of_def intro: exI [of _ "[]"])
  with roll(1) show ?thesis by (simp add: extends_bars_def)
qed

lemma structure_step_rel: "structure_rel s (structure_step cfg s m)"
proof (cases "structure_update cfg s m")
  case (Inl e)
  then show ?thesis
    by (simp add: structure_step_def structure_rel_def list_all2_refl extends_bars_refl)
next
  case (Inr r)
  obtain s' sn where r: "r = (s', sn)" by force
  have "cs_revision s \<le> cs_revision s'"
    and "\<exists>t ps v sv. cs_timeframes s' = map (\<lambda>b. fst (update_timeframe cfg b t ps v sv)) (cs_timeframes s)"
    using Inr unfolding r structure_update_Inr Let_def by (auto simp: comp_def)
  then show ?thesis
    using Inr r update_extends
    by (auto simp: structure_step_def structure_rel_def list_all2_map2 intro!: list_all2_refl)
qed

lemma structure_rel_trans: "structure_rel a b \<Longrightarrow> structure_rel b c \<Longrightarrow> structure_rel a c"
  unfolding structure_rel_def
  by (blast intro: order_trans list_all2_trans [of extends_bars extends_bars extends_bars] extends_bars_trans)

lemma structure_rel_refl: "structure_rel s s"
  by (simp add: structure_rel_def list_all2_refl extends_bars_refl)

text \<open>
  The engine as a step system: valid markets are observed (an invalid one cannot be
  constructed), and the process may restart, restoring the persisted state.
\<close>

datatype engine_op = Observe kernel_market | Restart

fun engine_step :: "structure_config \<Rightarrow> structure_state \<Rightarrow> engine_op \<Rightarrow> structure_state" where
  "engine_step cfg s (Observe m) = (if kernel_market_ok m then structure_step cfg s m else s)"
| "engine_step cfg s Restart = restore_structure_state s"

definition structure_ok :: "structure_config \<Rightarrow> structure_state \<Rightarrow> bool" where
  "structure_ok cfg s \<longleftrightarrow> 0 < se_maximum_closed_bars cfg \<longrightarrow> structure_inv cfg s"

lemma quarantine_inv: "bar_state_inv cfg t (b\<lparr>tb_current_valid := v\<rparr>) = bar_state_inv cfg t b"
  by (cases t) (simp_all add: bar_state_inv_def bars_of_def candle_of_def duration_ns_def)

lemma restored_inv: "structure_inv cfg s \<Longrightarrow> structure_inv cfg (restore_structure_state s)"
  by (simp add: structure_inv_def restore_structure_state_def quarantine_inv comp_def)

lemma engine_step_ok: "structure_ok cfg s \<Longrightarrow> structure_ok cfg (engine_step cfg s a)"
  by (cases a) (auto simp: structure_ok_def structure_step_def split: sum.splits
      intro: structure_update_inv restored_inv)

lemma restored_rel: "structure_rel s (restore_structure_state s)"
  using extends_bars_refl
  by (auto simp: structure_rel_def restore_structure_state_def list_all2_map2 extends_bars_def
      intro!: list_all2_refl)

interpretation ms: step_system "engine_step cfg" "structure_ok cfg" structure_rel
  for cfg :: structure_config
proof (unfold_locales, goal_cases)
  case (1 s a)
  then show ?case by (rule engine_step_ok)
next
  case (2 s a)
  then show ?case by (cases a) (simp_all add: structure_step_rel structure_rel_refl restored_rel)
next
  case (3 s)
  then show ?case by (rule structure_rel_refl)
next
  case (4 s t u)
  then show ?case by (rule structure_rel_trans)
qed

lemma new_structure_inv: "structure_inv cfg new_structure_state"
  by (simp add: structure_inv_def new_structure_state_def timeframes_seconds_def new_bar_state_def
      bar_state_inv_def bars_of_def)

section \<open>Validity of what is emitted\<close>

definition timeframe_structure_error :: "timeframe_structure \<Rightarrow> string option" where
  "timeframe_structure_error t = first_error
     [(ts_closed_bars t < 0, ''closed_bars''),
      (\<not> opt_all (\<lambda>x. 0 \<le> x) (ts_last_closed_ts_ns t), ''last_closed_ts_ns''),
      (ts_atr_bps t < 0, ''atr_bps''),
      (\<not> list_all (opt_all (\<lambda>p. 0 < p))
           [ts_close t, ts_support t, ts_resistance t, ts_bullish_fvg_lower t, ts_bullish_fvg_upper t,
            ts_bearish_fvg_lower t, ts_bearish_fvg_upper t, ts_bullish_order_block_low t,
            ts_bullish_order_block_high t, ts_bearish_order_block_low t, ts_bearish_order_block_high t],
       ''gt=0'')]"

definition smart_money_error :: "smart_money_snapshot \<Rightarrow> string option" where
  "smart_money_error s = first_error
     [(sm_observed_ts_ns s < 0 \<or> sm_revision s < 0, ''ge=0''),
      (list_ex (\<lambda>t. timeframe_structure_error t \<noteq> None)
         [sm_one_minute s, sm_five_minute s, sm_fifteen_minute s], ''timeframe''),
      (\<not> (0 \<le> sm_long_confluence s \<and> sm_long_confluence s \<le> 20), ''long_confluence''),
      (\<not> (0 \<le> sm_short_confluence s \<and> sm_short_confluence s \<le> 20), ''short_confluence'')]"

definition points_within :: "int \<Rightarrow> (int \<times> string) list \<Rightarrow> bool" where
  "points_within n ps \<longleftrightarrow> 0 \<le> sum_list (map fst ps) \<and> sum_list (map fst ps) \<le> n"

lemma points_within_append: "points_within m ps \<Longrightarrow> points_within n qs \<Longrightarrow> points_within (m + n) (ps @ qs)"
  by (simp add: points_within_def)

lemma points_within_if: "0 \<le> n \<Longrightarrow> points_within n (if b then [(n, r)] else [])"
  by (simp add: points_within_def)

lemma points_within_if2:
  "0 \<le> m \<Longrightarrow> m \<le> n \<Longrightarrow> points_within n (if b then [(n, r)] else if c then [(m, q)] else [])"
  by (simp add: points_within_def)

lemma points_within_mono: "points_within m ps \<Longrightarrow> m \<le> n \<Longrightarrow> points_within n ps"
  by (simp add: points_within_def)

lemma score_points_bounds:
  "0 \<le> sum_list (map fst (score_points cfg side one five fifteen))"
  "sum_list (map fst (score_points cfg side one five fifteen)) \<le> 15"
proof -
  have "points_within 15 (score_points cfg side one five fifteen)"
    unfolding score_points_def Let_def
    by (rule points_within_mono,
        (rule points_within_append points_within_if points_within_if2 | simp)+)
  then show "0 \<le> sum_list (map fst (score_points cfg side one five fifteen))"
    "sum_list (map fst (score_points cfg side one five fifteen)) \<le> 15"
    by (simp_all add: points_within_def)
qed

lemma score_eq:
  "score cfg side one five fifteen =
     (sum_list (map fst (score_points cfg side one five fifteen)),
      map snd (score_points cfg side one five fifteen))"
  using score_points_bounds [of cfg side one five fifteen] by (simp add: score_def Let_def)

lemma true_ranges_nonneg:
  "\<forall>b \<in> set bs. cc_low b \<le> cc_high b \<Longrightarrow> \<forall>x \<in> set (true_ranges p bs). 0 \<le> x"
  by (induction bs arbitrary: p) (auto simp: Let_def dec_simps le_max_iff_disj split: option.splits)

lemma atr_nonneg:
  assumes "\<forall>b \<in> set bs. candle_ok b"
  shows "0 \<le> atr_bps bs"
proof (cases "py_suffix 15 bs = []")
  case False
  have w: "\<forall>b \<in> set (py_suffix 15 bs). candle_ok b" using assms set_py_suffix [of 15 bs] by blast
  then have "candle_ok (last (py_suffix 15 bs))" using False by simp
  then have "0 < cc_close (last (py_suffix 15 bs))" by (auto simp: candle_ok_iff)
  moreover have "0 \<le> dsum (true_ranges None (py_suffix 15 bs))"
    by (rule dsum_nonneg, rule true_ranges_nonneg) (use w in \<open>auto simp: candle_ok_iff\<close>)
  ultimately show ?thesis using False
    by (simp add: atr_bps_def Let_def dec_simps divide_nonneg_pos)
qed (simp add: atr_bps_def Let_def)

lemma level_pos:
  assumes "\<forall>b \<in> set bs. candle_ok b"
  shows "opt_all (\<lambda>p. 0 < p) (resistance_level w bs)" "opt_all (\<lambda>p. 0 < p) (support_level w bs)"
proof -
  have sw: "set (swing_highs w bs) \<subseteq> set bs" "set (swing_lows w bs) \<subseteq> set bs"
    by (auto simp: swing_highs_def swing_lows_def pivot_indices_def)
  have pos: "0 < cc_high b" "0 < cc_low b" if "b \<in> set bs" for b
    using assms that by (auto simp: candle_ok_iff)
  have sub: "\<forall>x \<in> set (map cc_high (py_suffix 10 bs)). 0 < x" "\<forall>x \<in> set (map cc_low (py_suffix 10 bs)). 0 < x"
    using pos set_py_suffix [of 10 bs] by auto
  show "opt_all (\<lambda>p. 0 < p) (resistance_level w bs)"
  proof (cases "swing_highs w bs")
    case Nil
    then show ?thesis using py_max_all [OF sub(1)] by (auto simp: resistance_level_def opt_all_def split: option.splits)
  next
    case (Cons h hs)
    then have "last (swing_highs w bs) \<in> set bs" using sw(1) last_in_set [of "swing_highs w bs"] by auto
    then show ?thesis using pos Cons by (auto simp: resistance_level_def)
  qed
  show "opt_all (\<lambda>p. 0 < p) (support_level w bs)"
  proof (cases "swing_lows w bs")
    case Nil
    then show ?thesis using py_min_all [OF sub(2)] by (auto simp: support_level_def opt_all_def split: option.splits)
  next
    case (Cons h hs)
    then have "last (swing_lows w bs) \<in> set bs" using sw(2) last_in_set [of "swing_lows w bs"] by auto
    then show ?thesis using pos Cons by (auto simp: support_level_def)
  qed
qed

lemma analyze_ok:
  assumes ok: "\<forall>b \<in> set bars. candle_ok b"
  shows "timeframe_structure_error (analyze cfg secs bars) = None"
proof (cases "bars = []")
  case True
  then show ?thesis by (simp add: analyze_def empty_structure_def timeframe_structure_error_def first_error_None_iff)
next
  case False
  have latest: "candle_ok (last bars)" using ok False by simp
  have third: "candle_ok (from_end bars 3)" if "3 \<le> length bars"
    using ok that by (simp add: from_end_def)
  have prior: "\<forall>b \<in> set (butlast bars). candle_ok b" using ok by (auto dest: in_set_butlastD)
  have block: "opt_all (\<lambda>p. 0 < p) (map_option cc_low (find P (rev (py_suffix 8 (butlast bars)))))"
    "opt_all (\<lambda>p. 0 < p) (map_option cc_high (find P (rev (py_suffix 8 (butlast bars)))))" for P
  proof -
    have "candle_ok b" if "find P (rev (py_suffix 8 (butlast bars))) = Some b" for b
    proof -
      have "b \<in> set (rev (py_suffix 8 (butlast bars)))"
        using find_Some_in [OF that] by simp
      then have "b \<in> set (butlast bars)" using set_py_suffix [of 8 "butlast bars"] by auto
      then show ?thesis using prior by simp
    qed
    then show "opt_all (\<lambda>p. 0 < p) (map_option cc_low (find P (rev (py_suffix 8 (butlast bars)))))"
      "opt_all (\<lambda>p. 0 < p) (map_option cc_high (find P (rev (py_suffix 8 (butlast bars)))))"
      by (cases "find P (rev (py_suffix 8 (butlast bars)))"; force simp: candle_ok_iff)+
  qed
  have pos: "0 < cc_high c" "0 < cc_low c" "0 < cc_close c" "0 \<le> cc_close_ts_ns c" if "candle_ok c" for c
    using that by (auto simp: candle_ok_iff)
  show ?thesis
    using False pos [OF latest] pos [OF third] level_pos [OF prior] block atr_nonneg [OF ok]
    by (simp add: analyze_def Let_def timeframe_structure_error_def first_error_None_iff not_less)
qed

lemma closed_candles_ok:
  assumes "structure_inv cfg s"
  shows "\<forall>c \<in> set (closed_of s secs). candle_ok c"
proof (cases "find (\<lambda>b. tb_timeframe_seconds b = secs) (cs_timeframes s)")
  case (Some b)
  then have "b \<in> set (cs_timeframes s)" using find_Some_in [of _ "cs_timeframes s" b] by blast
  with Some assms show ?thesis
    by (auto simp: closed_of_def structure_inv_def bar_state_inv_def bars_of_def candle_of_def)
qed (simp add: closed_of_def)


section \<open>Example values\<close>

definition example_level :: "dec \<Rightarrow> kernel_level" where
  "example_level p = \<lparr>kl_price = p, kl_size = 2\<rparr>"

definition example_market :: "int \<Rightarrow> dec \<Rightarrow> kernel_market" where
  "example_market t p =
     \<lparr>km_exchange_ts_ns = t, km_book_exchange_ts_ns = t, km_observed_ts_ns = t, km_sequence = 0,
      km_bids = [example_level (p - 1), example_level (p - 2)],
      km_asks = [example_level (p + 1), example_level (p + 2)],
      km_trades = [\<lparr>kt_exchange_ts_ns = t, kt_observed_ts_ns = t, kt_price = p, kt_size = 1,
                    kt_aggressor = BUYER\<rparr>]\<rparr>"

definition default_structure_config :: structure_config where
  "default_structure_config =
     \<lparr>se_pivot_span = 2, se_maximum_closed_bars = 256, se_minimum_1m_bars = 8, se_minimum_5m_bars = 6,
      se_minimum_15m_bars = 4, se_near_level_bps = 12, se_equilibrium_band_fraction = 5 / 100\<rparr>"

text \<open>Three observations a minute apart, then a restart in the middle of a candle.\<close>

definition example_engine_ops :: "engine_op list" where
  "example_engine_ops =
     [Observe (example_market 10000000000 100), Observe (example_market 70000000000 110),
      Observe (example_market 130000000000 105), Restart]"

definition example_engine :: structure_state where
  "example_engine = foldl (engine_step default_structure_config) new_structure_state example_engine_ops"

lemma example_engine_facts:
  "structure_config_ok default_structure_config"
  "map (length \<circ> tb_closed) (cs_timeframes example_engine) = [2, 0, 0]"
  "kernel_market_ok (example_market 190000000000 90)"
  "is_ok (structure_update default_structure_config example_engine (example_market 190000000000 90))"
  by code_simp+

section \<open>Properties\<close>

text \<open>C32: The engine is causal and its candles are sound after any sequence of valid
  observations and restarts: every candle is a well-formed OHLC bar aligned to its timeframe,
  bars do not overlap and are in time order, no more than the configured number is kept, and
  every bar used for signals had closed by the time of the last observation.\<close>

theorem structure_always_causal:
  assumes "0 < se_maximum_closed_bars cfg"
  shows "structure_inv cfg (foldl (engine_step cfg) new_structure_state ops)"
proof -
  have "structure_ok cfg new_structure_state" by (simp add: structure_ok_def new_structure_inv)
  with ms.run_inv [of cfg new_structure_state ops] assms show ?thesis by (simp add: structure_ok_def)
qed

theorem structure_always_causal_witness:
  "structure_inv default_structure_config example_engine \<and> 0 < length (closed_of example_engine 60)"
proof
  show "structure_inv default_structure_config example_engine"
    unfolding example_engine_def
    by (rule structure_always_causal) (simp add: default_structure_config_def)
  show "0 < length (closed_of example_engine 60)" by code_simp
qed

text \<open>Closed bars never repaint: whatever is observed later and however often the process
  restarts, each timeframe's list of closed bars is only extended at its end (and shortened at
  its front by the cap), and the revision never goes back.\<close>

theorem closed_bars_never_repaint:
  "structure_rel s (foldl (engine_step cfg) s ops)"
proof (induction ops arbitrary: s)
  case (Cons a ops)
  have "structure_rel s (engine_step cfg s a)"
    by (cases a) (simp_all add: structure_step_rel structure_rel_refl restored_rel)
  with Cons [of "engine_step cfg s a"] show ?case by (auto intro: structure_rel_trans)
qed (simp add: structure_rel_refl)

text \<open>A candle that was partial when the process stopped never becomes a closed bar: the
  first observation after a restart closes nothing and leaves the revision alone, whichever
  buckets it falls in.\<close>

theorem restart_quarantines_partial_candles:
  assumes "structure_update cfg (restore_structure_state s) m = Inr (s', sn)"
  shows "map tb_closed (cs_timeframes s') = map tb_closed (cs_timeframes s)
       \<and> cs_revision s' = cs_revision s"
proof -
  have "\<not> snd (update_timeframe cfg (b\<lparr>tb_current_valid := False\<rparr>) t ps v sv)
      \<and> tb_closed (fst (update_timeframe cfg (b\<lparr>tb_current_valid := False\<rparr>) t ps v sv)) = tb_closed b"
    for b t ps v sv
    by (simp add: update_timeframe_def Let_def split: option.splits)
  then show ?thesis
    using assms unfolding structure_update_Inr Let_def restore_structure_state_def
    by (auto simp: list_ex_iff comp_def)
qed

theorem restart_quarantines_partial_candles_witness:
  "\<exists>s' sn. structure_update default_structure_config (restore_structure_state example_engine)
       (example_market 190000000000 90) = Inr (s', sn)
     \<and> map (length \<circ> tb_closed) (cs_timeframes s') = [2, 0, 0]"
proof -
  have "restore_structure_state example_engine = example_engine"
    unfolding example_engine_def example_engine_ops_def
    by (simp add: restore_structure_state_def comp_def)
  then obtain s' sn where up: "structure_update default_structure_config (restore_structure_state example_engine)
      (example_market 190000000000 90) = Inr (s', sn)"
    using example_engine_facts(4) by (auto simp: is_ok_iff)
  from restart_quarantines_partial_candles [OF up]
  have "map length (map tb_closed (cs_timeframes s')) = map length (map tb_closed (cs_timeframes example_engine))"
    by simp
  with up example_engine_facts(2) show ?thesis by (auto simp: comp_def)
qed

text \<open>What the engine emits always passes the validation of its contract, so an accepted
  observation never raises; the confluence scores are sums of the listed reasons, lie between
  0 and 15, and are therefore never clipped by the cap of 20.\<close>

theorem snapshot_is_valid:
  assumes "structure_inv cfg s" and "0 \<le> t"
  shows "smart_money_error (structure_snapshot cfg s t) = None
       \<and> 0 \<le> sm_long_confluence (structure_snapshot cfg s t) \<and> sm_long_confluence (structure_snapshot cfg s t) \<le> 15
       \<and> 0 \<le> sm_short_confluence (structure_snapshot cfg s t) \<and> sm_short_confluence (structure_snapshot cfg s t) \<le> 15"
proof -
  have "timeframe_structure_error (analyze cfg secs (closed_of s secs)) = None" for secs
    by (rule analyze_ok [OF closed_candles_ok [OF assms(1)]])
  moreover have "0 \<le> cs_revision s" using assms(1) by (simp add: structure_inv_def)
  ultimately show ?thesis
    using assms(2) score_points_bounds order_trans [OF score_points_bounds(2)]
    by (simp add: structure_snapshot_def Let_def score_eq smart_money_error_def first_error_None_iff not_less)
qed

theorem snapshot_is_valid_witness:
  "smart_money_error (structure_snapshot default_structure_config new_structure_state 7) = None"
  using snapshot_is_valid [OF new_structure_inv, of 7 default_structure_config] by simp


end
