(* ===== verification/Strategy_Common.thy ===== *)
theory Strategy_Common
  imports Market_Structure
begin

text \<open>
  The strategy interface of \<open>strategies/common.py\<close>: the input of a decision, and the contracts
  all alpha kernels share. \<open>serial_kernel\<close> extends the kernel protocol by a revision counter
  printed into every identity a decision submits, \<open>quoting_kernel\<close> that by the orders left
  resting, \<open>paced_kernel\<close> states the time between the decisions that count; their lemmas lift one decision's laws to whole replays. The three strategies interpret them.
\<close>

section \<open>Input of a decision\<close>

record strategy_input =
  si_features :: feature_snapshot
  si_funding_rate :: dec
  si_movement_forecast_bps :: dec
  si_fill_forecast_bid :: "dec option"
  si_fill_forecast_ask :: "dec option"
  si_spread_expansion_forecast_bps :: dec
  si_estimated_maker_fee_bps :: dec
  si_estimated_taker_fee_bps :: dec
  si_estimated_slippage_bps :: dec
  si_model_artifact_sha256 :: "string option"
  si_market_structure :: "smart_money_snapshot option"
  si_position_average_entry_price :: "dec option"
  si_position_opened_ts_ns :: "int option"

definition strategy_input_error :: "strategy_input \<Rightarrow> string option" where
  "strategy_input_error s = first_error
     [(\<not> opt_all fraction (si_fill_forecast_bid s), ''fill_forecast_bid''),
      (\<not> opt_all fraction (si_fill_forecast_ask s), ''fill_forecast_ask''),
      (si_spread_expansion_forecast_bps s < 0, ''spread_expansion_forecast_bps''),
      (si_estimated_maker_fee_bps s < 0, ''estimated_maker_fee_bps''),
      (si_estimated_taker_fee_bps s < 0, ''estimated_taker_fee_bps''),
      (si_estimated_slippage_bps s < 0, ''estimated_slippage_bps''),
      (\<not> opt_all is_sha256_hex (si_model_artifact_sha256 s), ''model_artifact_sha256''),
      (\<not> opt_all (\<lambda>p. 0 < p) (si_position_average_entry_price s), ''position_average_entry_price''),
      (\<not> opt_all (\<lambda>t. 0 \<le> t) (si_position_opened_ts_ns s), ''position_opened_ts_ns'')]"

text \<open>An input is valid when its feature snapshot and its own fields pass their checks.\<close>

definition strategy_input_ok :: "strategy_input \<Rightarrow> bool" where
  "strategy_input_ok s \<longleftrightarrow> feature_snapshot_ok (si_features s) \<and> strategy_input_error s = None"

lemma strategy_input_ok_iff [ok_simps]:
  "strategy_input_ok s \<longleftrightarrow>
     feature_snapshot_ok (si_features s)
   \<and> opt_all fraction (si_fill_forecast_bid s) \<and> opt_all fraction (si_fill_forecast_ask s)
   \<and> 0 \<le> si_spread_expansion_forecast_bps s \<and> 0 \<le> si_estimated_maker_fee_bps s
   \<and> 0 \<le> si_estimated_taker_fee_bps s \<and> 0 \<le> si_estimated_slippage_bps s
   \<and> opt_all is_sha256_hex (si_model_artifact_sha256 s)
   \<and> opt_all (\<lambda>p. 0 < p) (si_position_average_entry_price s)
   \<and> opt_all (\<lambda>t. 0 \<le> t) (si_position_opened_ts_ns s)"
  by (auto simp: strategy_input_ok_def strategy_input_error_def first_error_None_iff not_le not_less)

section \<open>What a decision submits and leaves resting\<close>

definition submissions :: "kernel_decision \<Rightarrow> string list" where
  "submissions d = map oi_intent_id (kd_submit d)"

definition resting_after :: "string set \<Rightarrow> kernel_decision \<Rightarrow> string set" where
  "resting_after live d = (live - set (kd_cancel_intent_ids d)) \<union> set (submissions d)"

lemma submissions_no_decision [simp]: "submissions no_decision = []"
  by (simp add: submissions_def)

lemma resting_after_no_decision [simp]: "resting_after live no_decision = live"
  by (simp add: resting_after_def)

text \<open>The value of an \<open>OrderSide\<close>, as it is printed into identities.\<close>

definition side_value :: "order_side \<Rightarrow> string" where
  "side_value side = (if side = BUY then ''buy'' else ''sell'')"

text \<open>A text that ends in a dash and the given number.\<close>

definition has_serial :: "int \<Rightarrow> string \<Rightarrow> bool" where
  "has_serial n s \<longleftrightarrow> (\<exists>p. s = p @ CHR ''-'' # py_str n)"

lemma has_serial_unique: "0 \<le> m \<Longrightarrow> 0 \<le> n \<Longrightarrow> has_serial m s \<Longrightarrow> has_serial n s \<Longrightarrow> m = n"
  unfolding has_serial_def using dash_suffix_inj by blast

lemma has_serialI [intro]: "has_serial n (p @ CHR ''-'' # py_str n)"
  unfolding has_serial_def by blast

section \<open>Kernels that number what they submit\<close>

locale serial_kernel = decision_kernel +
  fixes serial :: "'b \<Rightarrow> int"
  assumes serial_nonneg: "memory_ok m \<Longrightarrow> 0 \<le> serial m"
    and serial_mono: "memory_ok m \<Longrightarrow> decide s m = Inr (m', d) \<Longrightarrow> serial m \<le> serial m'"
    and serial_fresh:
      "memory_ok m \<Longrightarrow> decide s m = Inr (m', d) \<Longrightarrow> i \<in> set (submissions d) \<Longrightarrow>
         serial m < serial m' \<and> has_serial (serial m') i"
    and serial_distinct: "memory_ok m \<Longrightarrow> decide s m = Inr (m', d) \<Longrightarrow> distinct (submissions d)"
    and keeps_memory: "memory_ok m \<Longrightarrow> decide s m = Inr (m', d) \<Longrightarrow> memory_ok m'"
begin

lemma replay_serials:
  assumes "memory_ok m" "replay decide m ss = Inr (m', ds)"
  shows "memory_ok m' \<and> serial m \<le> serial m' \<and>
    (\<forall>i \<in> set (concat (map submissions ds)). \<exists>n. serial m < n \<and> n \<le> serial m' \<and> has_serial n i)"
  using assms
proof (induction ss arbitrary: m ds)
  case (Cons s ss)
  then obtain m1 d ds' where d: "decide s m = Inr (m1, d)" "replay decide m1 ss = Inr (m', ds')" "ds = d # ds'"
    by (auto simp: bindE_eq_Inr_iff)
  note m = Cons.prems(1)
  have 1: "memory_ok m1" by (rule keeps_memory [OF m d(1)])
  have ih: "memory_ok m' \<and> serial m1 \<le> serial m' \<and>
      (\<forall>i \<in> set (concat (map submissions ds')). \<exists>n. serial m1 < n \<and> n \<le> serial m' \<and> has_serial n i)"
    by (rule Cons.IH [OF 1 d(2)])
  have le: "serial m \<le> serial m1" by (rule serial_mono [OF m d(1)])
  show ?case unfolding d(3)
  proof (intro conjI ballI)
    show "memory_ok m'" "serial m \<le> serial m'" using ih le by auto
    fix i assume "i \<in> set (concat (map submissions (d # ds')))"
    then consider "i \<in> set (submissions d)" | "i \<in> set (concat (map submissions ds'))" by auto
    then show "\<exists>n. serial m < n \<and> n \<le> serial m' \<and> has_serial n i"
    proof cases
      case 1
      with serial_fresh [OF m d(1)] ih show ?thesis by blast
    next
      case 2
      with ih obtain n where "serial m1 < n" "n \<le> serial m'" "has_serial n i" by blast
      with le show ?thesis by (intro exI [of _ n]) simp
    qed
  qed
qed simp

lemma replay_distinct_ids:
  assumes "memory_ok m" "replay decide m ss = Inr (m', ds)"
  shows "distinct (concat (map submissions ds))"
  using assms
proof (induction ss arbitrary: m ds)
  case (Cons s ss)
  then obtain m1 d ds' where d: "decide s m = Inr (m1, d)" "replay decide m1 ss = Inr (m', ds')" "ds = d # ds'"
    by (auto simp: bindE_eq_Inr_iff)
  note m = Cons.prems(1)
  have 1: "memory_ok m1" by (rule keeps_memory [OF m d(1)])
  have "i \<notin> set (concat (map submissions ds'))" if i: "i \<in> set (submissions d)" for i
  proof
    assume "i \<in> set (concat (map submissions ds'))"
    with replay_serials [OF 1 d(2)] obtain n where n: "serial m1 < n" "has_serial n i" by blast
    have "has_serial (serial m1) i" using serial_fresh [OF m d(1) i] by simp
    with n serial_nonneg [OF 1] have "n = serial m1" using has_serial_unique [of n "serial m1" i] by simp
    with n show False by simp
  qed
  with serial_distinct [OF m d(1)] Cons.IH [OF 1 d(2)] show ?case unfolding d(3) by auto
qed simp

end

section \<open>Kernels that remember what they left resting\<close>

locale quoting_kernel = serial_kernel +
  fixes resting :: "'b \<Rightarrow> string set"
  assumes resting_decide:
    "memory_ok m \<Longrightarrow> decide s m = Inr (m', d) \<Longrightarrow> resting m' = resting_after (resting m) d"
begin

lemma replay_resting:
  assumes "memory_ok m" "replay decide m ss = Inr (m', ds)"
  shows "resting m' = foldl resting_after (resting m) ds"
  using assms
proof (induction ss arbitrary: m ds)
  case (Cons s ss)
  then obtain m1 d ds' where d: "decide s m = Inr (m1, d)" "replay decide m1 ss = Inr (m', ds')" "ds = d # ds'"
    by (auto simp: bindE_eq_Inr_iff)
  have "memory_ok m1" by (rule keeps_memory [OF Cons.prems(1) d(1)])
  with Cons.IH d resting_decide [OF Cons.prems(1) d(1)] show ?case by simp
qed simp

end

section \<open>Kernels that pace their orders\<close>

locale paced_kernel =
  fixes decide :: "'s \<Rightarrow> 'm \<Rightarrow> ('m \<times> kernel_decision) res"
    and stamp :: "'s \<Rightarrow> int"
    and last_order :: "'m \<Rightarrow> int option"
    and gap :: int
    and counts :: "kernel_decision \<Rightarrow> bool"
  assumes paced: "decide s m = Inr (m', d) \<Longrightarrow>
       (last_order m' = last_order m \<and> \<not> counts d)
     \<or> (last_order m' = Some (stamp s) \<and> opt_all (\<lambda>t. gap \<le> stamp s - t) (last_order m))"
begin

lemma replay_paced_from:
  "0 \<le> gap \<Longrightarrow> replay decide m ss = Inr (m', ds) \<Longrightarrow> last_order m = Some t \<Longrightarrow> k < length ds \<Longrightarrow>
     counts (ds ! k) \<Longrightarrow> gap \<le> stamp (ss ! k) - t"
proof (induction ss arbitrary: m ds t k)
  case (Cons s ss)
  then obtain m1 d ds' where d: "decide s m = Inr (m1, d)" "replay decide m1 ss = Inr (m', ds')" "ds = d # ds'"
    by (auto simp: bindE_eq_Inr_iff)
  have p: "(last_order m1 = Some t \<and> \<not> counts d) \<or> (last_order m1 = Some (stamp s) \<and> gap \<le> stamp s - t)"
    using paced [OF d(1)] Cons.prems(3) by simp
  show ?case
  proof (cases k)
    case 0
    with p Cons.prems d show ?thesis by auto
  next
    case (Suc j)
    with Cons.prems d have j: "j < length ds'" "counts (ds' ! j)" by auto
    from p show ?thesis
    proof (elim disjE conjE)
      assume "last_order m1 = Some t"
      from Cons.IH [OF Cons.prems(1) d(2) this j] Suc show ?thesis by simp
    next
      assume "last_order m1 = Some (stamp s)" and g: "gap \<le> stamp s - t"
      from Cons.IH [OF Cons.prems(1) d(2) this(1) j] Suc g Cons.prems(1) show ?thesis by simp
    qed
  qed
qed simp

lemma replay_paced:
  "0 \<le> gap \<Longrightarrow> replay decide m ss = Inr (m', ds) \<Longrightarrow> j < k \<Longrightarrow> k < length ds \<Longrightarrow>
     counts (ds ! j) \<Longrightarrow> counts (ds ! k) \<Longrightarrow> gap \<le> stamp (ss ! k) - stamp (ss ! j)"
proof (induction ss arbitrary: m ds j k)
  case (Cons s ss)
  then obtain m1 d ds' where d: "decide s m = Inr (m1, d)" "replay decide m1 ss = Inr (m', ds')" "ds = d # ds'"
    by (auto simp: bindE_eq_Inr_iff)
  obtain k' where k: "k = Suc k'" using Cons.prems(3) by (cases k) auto
  with Cons.prems d have k': "k' < length ds'" "counts (ds' ! k')" by auto
  show ?case
  proof (cases j)
    case 0
    with Cons.prems d have "last_order m1 = Some (stamp s)" using paced [OF d(1)] by auto
    from replay_paced_from [OF Cons.prems(1) d(2) this k'] 0 k show ?thesis by simp
  next
    case (Suc i)
    with Cons.prems k d have "i < k'" "counts (ds' ! i)" by auto
    from Cons.IH [OF Cons.prems(1) d(2) this(1) k'(1) this(2) k'(2)] Suc k show ?thesis by simp
  qed
qed simp

end


section \<open>A concrete input\<close>

text \<open>A calm book one dollar wide at 60000, used where a theorem is applied to a concrete state.\<close>

definition calm_features :: feature_snapshot where
  "calm_features =
     \<lparr>fs_feature_schema_sha256 = replicate 64 (CHR ''a''), fs_sequence = 7, fs_event_ts_ns = 900,
      fs_receive_ts_ns = 1000, fs_computed_ts_ns = 1000, fs_max_input_age_ns = 100, fs_ready = True,
      fs_warmup_count = 50, fs_best_bid = 60000, fs_best_ask = 60001, fs_midprice = 60000 + 1 / 2,
      fs_book_imbalance = 1 / 2, fs_microprice = 60000 + 1 / 2, fs_vamp = 60000 + 1 / 2,
      fs_weighted_midprice = 60000 + 1 / 2, fs_queue_imbalance = 0, fs_depth_imbalance = 0,
      fs_trade_flow_imbalance = 1 / 2, fs_buy_pressure = 1, fs_sell_pressure = 1, fs_aggressor_ratio = 1 / 2,
      fs_volume_delta = 0, fs_signed_volume = 0, fs_realized_volatility = 1 / 10000,
      fs_volatility_regime = NORMAL_VOLATILITY, fs_atr_bps = 3, fs_spread_bps = 1 / 6,
      fs_spread_change_bps = 0, fs_spread_zscore = 0, fs_mid_return_bps = 20, fs_inventory_base = 0,
      fs_target_inventory_base = 0, fs_inventory_drift_base = 0, fs_inventory_risk = 0,
      fs_liquidation_distance_bps = 1000, fs_margin_utilization = 0, fs_fill_probability_bid = 1 / 2,
      fs_fill_probability_ask = 1 / 2, fs_queue_ahead_bid = 1, fs_queue_ahead_ask = 1,
      fs_adverse_selection_bps = 0, fs_fill_model_id = ''queue-v1'', fs_fill_model_calibrated = True\<rparr>"

definition calm_input :: strategy_input where
  "calm_input =
     \<lparr>si_features = calm_features, si_funding_rate = 0, si_movement_forecast_bps = 0,
      si_fill_forecast_bid = None, si_fill_forecast_ask = None, si_spread_expansion_forecast_bps = 0,
      si_estimated_maker_fee_bps = 3 / 2, si_estimated_taker_fee_bps = 9 / 2, si_estimated_slippage_bps = 1,
      si_model_artifact_sha256 = None, si_market_structure = None,
      si_position_average_entry_price = None, si_position_opened_ts_ns = None\<rparr>"

lemma calm_input_ok: "strategy_input_ok calm_input"
  by code_simp

end
