(* ===== verification/Market_Maker.thy ===== *)
theory Market_Maker
  imports Strategy_Common
begin

text \<open>
  The inventory-aware market maker of \<open>strategies/market_maker.py\<close>: configuration, memory and
  one \<open>decide\<close>, split into the quantities the code names. The one float of the module,
  \<open>Decimal(str(math.log1p(float(gamma / intensity)) / float(gamma)))\<close>, is the argument
  \<open>log_term\<close> of the model, applied to \<open>gamma / intensity\<close> and \<open>gamma\<close>; the properties hold for
  every such function.
\<close>

section \<open>Configuration and memory\<close>

record mm_config =
  mmc_risk_aversion_per_usd :: dec
  mmc_arrival_intensity_per_usd :: dec
  mmc_horizon_seconds :: dec
  mmc_tick_size :: dec
  mmc_order_quantity_base :: dec
  mmc_max_abs_inventory_base :: dec
  mmc_minimum_half_spread_ticks :: int
  mmc_maximum_quote_spread_bps :: dec
  mmc_minimum_quote_lifetime_ns :: int
  mmc_quote_hysteresis_ticks :: int
  mmc_funding_skew_multiplier :: dec
  mmc_adverse_selection_multiplier :: dec
  mmc_minimum_fill_probability :: dec
  mmc_require_calibrated_fill_model :: bool
  mmc_require_model_identity_when_forecasted :: bool

definition mm_config_ok :: "mm_config \<Rightarrow> bool" where
  "mm_config_ok c \<longleftrightarrow>
     0 < mmc_risk_aversion_per_usd c \<and> 0 < mmc_arrival_intensity_per_usd c \<and> 0 < mmc_horizon_seconds c
   \<and> 0 < mmc_tick_size c \<and> 0 < mmc_order_quantity_base c \<and> 0 < mmc_max_abs_inventory_base c
   \<and> 1 \<le> mmc_minimum_half_spread_ticks c \<and> 0 < mmc_maximum_quote_spread_bps c
   \<and> 0 \<le> mmc_minimum_quote_lifetime_ns c \<and> 0 \<le> mmc_quote_hysteresis_ticks c
   \<and> 0 \<le> mmc_funding_skew_multiplier c \<and> 0 \<le> mmc_adverse_selection_multiplier c
   \<and> fraction (mmc_minimum_fill_probability c)"

definition default_mm_config :: mm_config where
  "default_mm_config =
     \<lparr>mmc_risk_aversion_per_usd = 1 / 100000, mmc_arrival_intensity_per_usd = 1, mmc_horizon_seconds = 1,
      mmc_tick_size = 1, mmc_order_quantity_base = 1 / 1000, mmc_max_abs_inventory_base = 5 / 100,
      mmc_minimum_half_spread_ticks = 1, mmc_maximum_quote_spread_bps = 25,
      mmc_minimum_quote_lifetime_ns = 500000000, mmc_quote_hysteresis_ticks = 1,
      mmc_funding_skew_multiplier = 1, mmc_adverse_selection_multiplier = 25 / 100,
      mmc_minimum_fill_probability = 5 / 100, mmc_require_calibrated_fill_model = True,
      mmc_require_model_identity_when_forecasted = True\<rparr>"

record mm_memory =
  mm_inventory_base :: dec
  mm_active_bid_intent_id :: "string option"
  mm_active_ask_intent_id :: "string option"
  mm_active_bid_price :: "dec option"
  mm_active_ask_price :: "dec option"
  mm_last_quote_ts_ns :: "int option"
  mm_quote_revision :: int

text \<open>\<open>MarketMakerMemory()\<close> and the checks of its construction.\<close>

definition new_mm_memory :: mm_memory where
  "new_mm_memory =
     \<lparr>mm_inventory_base = 0, mm_active_bid_intent_id = None, mm_active_ask_intent_id = None,
      mm_active_bid_price = None, mm_active_ask_price = None, mm_last_quote_ts_ns = None,
      mm_quote_revision = 0\<rparr>"

definition mm_memory_error :: "mm_memory \<Rightarrow> string option" where
  "mm_memory_error m = first_error
     [(\<not> opt_all (\<lambda>t. 0 \<le> t) (mm_last_quote_ts_ns m), ''last_quote_ts_ns''),
      (mm_quote_revision m < 0, ''quote_revision''),
      ((mm_active_bid_intent_id m = None) \<noteq> (mm_active_bid_price m = None),
       ''active bid identity and price must be set together''),
      ((mm_active_ask_intent_id m = None) \<noteq> (mm_active_ask_price m = None),
       ''active ask identity and price must be set together'')]"

definition mk_mm_memory :: "mm_memory \<Rightarrow> mm_memory res" where
  "mk_mm_memory m = (case mm_memory_error m of Some e \<Rightarrow> Inl (ValidationError e) | None \<Rightarrow> Inr m)"

definition mm_with_inventory :: "dec \<Rightarrow> mm_memory \<Rightarrow> mm_memory" where
  "mm_with_inventory inventory m = m\<lparr>mm_inventory_base := inventory\<rparr>"

section \<open>Quote calculation\<close>

definition mm_round_down :: "mm_config \<Rightarrow> dec \<Rightarrow> dec" where
  "mm_round_down c v = dmul (dfloor (ddiv v (mmc_tick_size c))) (mmc_tick_size c)"

definition mm_round_up :: "mm_config \<Rightarrow> dec \<Rightarrow> dec" where
  "mm_round_up c v = dmul (dceil (ddiv v (mmc_tick_size c))) (mmc_tick_size c)"

definition mm_has_forecast :: "strategy_input \<Rightarrow> bool" where
  "mm_has_forecast s \<longleftrightarrow>
     si_movement_forecast_bps s \<noteq> 0 \<or> si_spread_expansion_forecast_bps s \<noteq> 0
   \<or> si_fill_forecast_bid s \<noteq> None \<or> si_fill_forecast_ask s \<noteq> None"

definition mm_unsafe :: "mm_config \<Rightarrow> strategy_input \<Rightarrow> bool" where
  "mm_unsafe c s \<longleftrightarrow>
     \<not> fs_ready (si_features s)
   \<or> mmc_maximum_quote_spread_bps c < fs_spread_bps (si_features s)
   \<or> (mmc_require_calibrated_fill_model c \<and> \<not> fs_fill_model_calibrated (si_features s))
   \<or> (mmc_require_model_identity_when_forecasted c \<and> mm_has_forecast s
        \<and> si_model_artifact_sha256 s = None)"

definition mm_too_young :: "mm_config \<Rightarrow> strategy_input \<Rightarrow> mm_memory \<Rightarrow> bool" where
  "mm_too_young c s m \<longleftrightarrow>
     \<not> opt_all (\<lambda>t. mmc_minimum_quote_lifetime_ns c \<le> fs_receive_ts_ns (si_features s) - t) (mm_last_quote_ts_ns m)"

text \<open>\<open>gamma * sigma_price * sigma_price * horizon\<close> with a factor in front.\<close>

definition mm_sigma_price :: "strategy_input \<Rightarrow> dec" where
  "mm_sigma_price s = dmul (fs_midprice (si_features s)) (fs_realized_volatility (si_features s))"

definition mm_reservation :: "mm_config \<Rightarrow> strategy_input \<Rightarrow> mm_memory \<Rightarrow> dec" where
  "mm_reservation c s m =
     (let mid = fs_midprice (si_features s);
          sigma = mm_sigma_price s;
          inventory = dmul (dmul (dmul (dmul (mm_inventory_base m) (mmc_risk_aversion_per_usd c)) sigma) sigma)
                        (mmc_horizon_seconds c);
          funding = dmul (dmul (si_funding_rate s) mid) (mmc_funding_skew_multiplier c);
          adverse = dmul (ddiv (dmul (fs_adverse_selection_bps (si_features s)) mid) 10000)
                      (mmc_adverse_selection_multiplier c);
          forecast = ddiv (dmul (si_movement_forecast_bps s) mid) 10000
      in dadd (dsub (dsub (dsub mid inventory) funding) adverse) forecast)"

definition mm_half_spread :: "(dec \<Rightarrow> dec \<Rightarrow> dec) \<Rightarrow> mm_config \<Rightarrow> strategy_input \<Rightarrow> dec" where
  "mm_half_spread log_term c s =
     (let gamma = mmc_risk_aversion_per_usd c;
          sigma = mm_sigma_price s;
          risk = ddiv (dmul (dmul (dmul gamma sigma) sigma) (mmc_horizon_seconds c)) 2;
          liquidity = log_term (ddiv gamma (mmc_arrival_intensity_per_usd c)) gamma;
          forecast = ddiv (dmul (si_spread_expansion_forecast_bps s) (fs_midprice (si_features s))) 20000
      in max (dmul (mmc_tick_size c) (of_int (mmc_minimum_half_spread_ticks c)))
             (dadd (dadd risk liquidity) forecast))"

definition mm_bid_price :: "(dec \<Rightarrow> dec \<Rightarrow> dec) \<Rightarrow> mm_config \<Rightarrow> strategy_input \<Rightarrow> mm_memory \<Rightarrow> dec" where
  "mm_bid_price log_term c s m =
     mm_round_down c (min (dsub (mm_reservation c s m) (mm_half_spread log_term c s)) (fs_best_bid (si_features s)))"

definition mm_ask_price :: "(dec \<Rightarrow> dec \<Rightarrow> dec) \<Rightarrow> mm_config \<Rightarrow> strategy_input \<Rightarrow> mm_memory \<Rightarrow> dec" where
  "mm_ask_price log_term c s m =
     mm_round_up c (max (dadd (mm_reservation c s m) (mm_half_spread log_term c s)) (fs_best_ask (si_features s)))"

definition mm_bid_allowed :: "mm_config \<Rightarrow> strategy_input \<Rightarrow> mm_memory \<Rightarrow> bool" where
  "mm_bid_allowed c s m \<longleftrightarrow>
     dadd (mm_inventory_base m) (mmc_order_quantity_base c) \<le> mmc_max_abs_inventory_base c
   \<and> mmc_minimum_fill_probability c
       \<le> (case si_fill_forecast_bid s of None \<Rightarrow> fs_fill_probability_bid (si_features s) | Some p \<Rightarrow> p)"

definition mm_ask_allowed :: "mm_config \<Rightarrow> strategy_input \<Rightarrow> mm_memory \<Rightarrow> bool" where
  "mm_ask_allowed c s m \<longleftrightarrow>
     dneg (mmc_max_abs_inventory_base c) \<le> dsub (mm_inventory_base m) (mmc_order_quantity_base c)
   \<and> mmc_minimum_fill_probability c
       \<le> (case si_fill_forecast_ask s of None \<Rightarrow> fs_fill_probability_ask (si_features s) | Some p \<Rightarrow> p)"

definition mm_within_hysteresis :: "mm_config \<Rightarrow> mm_memory \<Rightarrow> dec \<Rightarrow> dec \<Rightarrow> bool \<Rightarrow> bool \<Rightarrow> bool" where
  "mm_within_hysteresis c m bid ask bid_allowed ask_allowed \<longleftrightarrow>
     (if (mm_active_bid_price m \<noteq> None) \<noteq> bid_allowed \<or> (mm_active_ask_price m \<noteq> None) \<noteq> ask_allowed
      then False
      else
        (let tolerance = dmul (mmc_tick_size c) (of_int (mmc_quote_hysteresis_ticks c));
             same = (\<lambda>active price. case active of None \<Rightarrow> False | Some p \<Rightarrow> dabs (dsub p price) \<le> tolerance)
         in (\<not> bid_allowed \<or> same (mm_active_bid_price m) bid)
          \<and> (\<not> ask_allowed \<or> same (mm_active_ask_price m) ask)))"

section \<open>Decisions\<close>

definition mm_active_ids :: "mm_memory \<Rightarrow> string list" where
  "mm_active_ids m = opt_list (mm_active_bid_intent_id m) @ opt_list (mm_active_ask_intent_id m)"

definition mm_cancel_all :: "mm_memory \<Rightarrow> (mm_memory \<times> kernel_decision) res" where
  "mm_cancel_all m =
     (if mm_active_ids m = [] then Inr (m, no_decision)
      else bindE (mk_mm_memory (new_mm_memory\<lparr>mm_inventory_base := mm_inventory_base m,
                    mm_last_quote_ts_ns := mm_last_quote_ts_ns m, mm_quote_revision := mm_quote_revision m\<rparr>))
             (\<lambda>cleared. Inr (cleared, no_decision\<lparr>kd_cancel_intent_ids := mm_active_ids m\<rparr>)))"

definition mm_quote_id :: "string \<Rightarrow> int \<Rightarrow> int \<Rightarrow> string" where
  "mm_quote_id side ts revision = ''as-'' @ side @ ''-'' @ py_str ts @ ''-'' @ py_str revision"

definition mm_quote_intent :: "mm_config \<Rightarrow> int \<Rightarrow> order_side \<Rightarrow> dec \<Rightarrow> string \<Rightarrow> order_intent" where
  "mm_quote_intent c ts side price ident =
     \<lparr>oi_intent_id = ident, oi_strategy_id = ''avellaneda-stoikov-v1'', oi_side = side, oi_kind = LIMIT,
      oi_quantity_base = mmc_order_quantity_base c, oi_limit_price = Some price, oi_time_in_force = GTC,
      oi_post_only = True, oi_reduce_only = False, oi_created_ts_ns = ts,
      oi_rationale = Rationale (if side = BUY then ''Avellaneda-Stoikov inventory-aware passive bid''
                                else ''Avellaneda-Stoikov inventory-aware passive ask'')\<rparr>"

fun mk_quotes :: "order_intent list \<Rightarrow> order_intent list res" where
  "mk_quotes [] = Inr []"
| "mk_quotes (i # is) = bindE (mk_order_intent i) (\<lambda>j. bindE (mk_quotes is) (\<lambda>js. Inr (j # js)))"

definition mm_requote ::
  "mm_config \<Rightarrow> int \<Rightarrow> mm_memory \<Rightarrow> dec \<Rightarrow> dec \<Rightarrow> bool \<Rightarrow> bool \<Rightarrow> (mm_memory \<times> kernel_decision) res" where
  "mm_requote c ts m bid ask bid_allowed ask_allowed =
     (let revision = mm_quote_revision m + 1;
          bid_id = (if bid_allowed then Some (mm_quote_id ''bid'' ts revision) else None);
          ask_id = (if ask_allowed then Some (mm_quote_id ''ask'' ts revision) else None)
      in bindE (mk_quotes (map (mm_quote_intent c ts BUY bid) (opt_list bid_id)
                           @ map (mm_quote_intent c ts SELL ask) (opt_list ask_id)))
           (\<lambda>orders.
         bindE (mk_mm_memory
             \<lparr>mm_inventory_base = mm_inventory_base m, mm_active_bid_intent_id = bid_id,
              mm_active_ask_intent_id = ask_id, mm_active_bid_price = (if bid_allowed then Some bid else None),
              mm_active_ask_price = (if ask_allowed then Some ask else None), mm_last_quote_ts_ns = Some ts,
              mm_quote_revision = revision\<rparr>)
           (\<lambda>m'. Inr (m', no_decision\<lparr>kd_submit := orders, kd_cancel_intent_ids := mm_active_ids m\<rparr>))))"

definition mm_decide ::
  "(dec \<Rightarrow> dec \<Rightarrow> dec) \<Rightarrow> mm_config \<Rightarrow> strategy_input \<Rightarrow> mm_memory \<Rightarrow> (mm_memory \<times> kernel_decision) res" where
  "mm_decide log_term c s m =
     (if mm_unsafe c s then mm_cancel_all m
      else if mm_too_young c s m then Inr (m, no_decision)
      else
        (let bid = mm_bid_price log_term c s m; ask = mm_ask_price log_term c s m
         in if bid \<le> 0 \<or> ask \<le> bid then mm_cancel_all m
            else if mm_within_hysteresis c m bid ask (mm_bid_allowed c s m) (mm_ask_allowed c s m)
            then Inr (m, no_decision)
            else mm_requote c (fs_receive_ts_ns (si_features s)) m bid ask (mm_bid_allowed c s m) (mm_ask_allowed c s m)))"

text \<open>One decision as the callers make it: the confirmed inventory is set first.\<close>

definition mm_decide_at ::
  "(dec \<Rightarrow> dec \<Rightarrow> dec) \<Rightarrow> mm_config \<Rightarrow> dec \<times> strategy_input \<Rightarrow> mm_memory \<Rightarrow> (mm_memory \<times> kernel_decision) res" where
  "mm_decide_at log_term c s m = mm_decide log_term c (snd s) (mm_with_inventory (fst s) m)"

section \<open>Rounding to ticks\<close>

text \<open>A price on the tick grid: an exact multiple of the tick that a decimal can hold.\<close>

definition on_tick :: "dec \<Rightarrow> dec \<Rightarrow> bool" where
  "on_tick tick p \<longleftrightarrow> p = of_int \<lfloor>p / tick\<rfloor> * tick \<and> \<bar>\<lfloor>p / tick\<rfloor>\<bar> \<le> 10 ^ 28 \<and> is_dec p"

lemma on_tick_ratio:
  assumes "on_tick tick p" "0 < tick"
  shows "p / tick = of_int \<lfloor>p / tick\<rfloor>"
  using assms by (simp add: on_tick_def field_simps)

lemma is_dec_of_int: "\<bar>k\<bar> \<le> 10 ^ 28 \<Longrightarrow> is_dec (of_int k)"
  by (rule on_grid_is_dec [of 0]) (simp add: on_grid_def)

lemma mm_round_down_le:
  assumes tick: "0 < mmc_tick_size c" and p: "on_tick (mmc_tick_size c) p" and v: "v \<le> p"
  shows "mm_round_down c v \<le> p"
proof -
  let ?k = "\<lfloor>p / mmc_tick_size c\<rfloor>"
  have k: "is_dec (of_int ?k)" "p = of_int ?k * mmc_tick_size c" "is_dec p"
    using p by (auto simp: on_tick_def intro: is_dec_of_int)
  have "v / mmc_tick_size c \<le> p / mmc_tick_size c" by (rule divide_right_mono) (use v tick in simp_all)
  then have "v / mmc_tick_size c \<le> of_int ?k" using on_tick_ratio [OF p tick] by (rule ord_le_eq_trans)
  then have "ddiv v (mmc_tick_size c) \<le> of_int ?k"
    using k(1) unfolding ddiv_def is_dec_def by (intro dec.rnd_le_fixed)
  then have "dfloor (ddiv v (mmc_tick_size c)) \<le> of_int ?k"
    unfolding dfloor_def using order.trans [OF of_int_floor_le] by blast
  then have "dfloor (ddiv v (mmc_tick_size c)) * mmc_tick_size c \<le> of_int ?k * mmc_tick_size c"
    using tick by (intro mult_right_mono) simp_all
  then have "dfloor (ddiv v (mmc_tick_size c)) * mmc_tick_size c \<le> p" unfolding k(2) [symmetric] .
  then show ?thesis using k(3) unfolding mm_round_down_def dmul_def is_dec_def by (intro dec.rnd_le_fixed)
qed

lemma mm_round_up_ge:
  assumes tick: "0 < mmc_tick_size c" and p: "on_tick (mmc_tick_size c) p" and v: "p \<le> v"
  shows "p \<le> mm_round_up c v"
proof -
  let ?k = "\<lfloor>p / mmc_tick_size c\<rfloor>"
  have k: "is_dec (of_int ?k)" "p = of_int ?k * mmc_tick_size c" "is_dec p"
    using p by (auto simp: on_tick_def intro: is_dec_of_int)
  have "p / mmc_tick_size c \<le> v / mmc_tick_size c" by (rule divide_right_mono) (use v tick in simp_all)
  then have "of_int ?k \<le> v / mmc_tick_size c" using on_tick_ratio [OF p tick] by simp
  then have "of_int ?k \<le> ddiv v (mmc_tick_size c)"
    using k(1) unfolding ddiv_def is_dec_def by (intro dec.rnd_ge_fixed)
  then have "of_int ?k \<le> dceil (ddiv v (mmc_tick_size c))"
    unfolding dceil_def by linarith
  then have "of_int ?k * mmc_tick_size c \<le> dceil (ddiv v (mmc_tick_size c)) * mmc_tick_size c"
    using tick by (intro mult_right_mono) simp_all
  then have "p \<le> dceil (ddiv v (mmc_tick_size c)) * mmc_tick_size c" unfolding k(2) [symmetric] .
  then show ?thesis using k(3) unfolding mm_round_up_def dmul_def is_dec_def by (intro dec.rnd_ge_fixed)
qed

section \<open>What a decision is\<close>

text \<open>
  Every decision leaves the quotes alone, cancels all of them, or replaces them; the quotes it
  submits are the allowed sides at the computed prices.
\<close>

definition mm_memory_ok :: "mm_memory \<Rightarrow> bool" where
  "mm_memory_ok m \<longleftrightarrow> mm_memory_error m = None"

lemma mm_memory_ok_iff:
  "mm_memory_ok m \<longleftrightarrow>
     opt_all (\<lambda>t. 0 \<le> t) (mm_last_quote_ts_ns m) \<and> 0 \<le> mm_quote_revision m
   \<and> (mm_active_bid_intent_id m = None \<longleftrightarrow> mm_active_bid_price m = None)
   \<and> (mm_active_ask_intent_id m = None \<longleftrightarrow> mm_active_ask_price m = None)"
  by (auto simp: mm_memory_ok_def mm_memory_error_def first_error_None_iff not_le not_less)

lemma mk_mm_memory_Inr: "mk_mm_memory m = Inr m' \<longleftrightarrow> mm_memory_ok m \<and> m' = m"
  by (auto simp: mk_mm_memory_def mm_memory_ok_def split: option.splits)

lemma mm_with_inventory_ok [simp]: "mm_memory_ok (mm_with_inventory x m) \<longleftrightarrow> mm_memory_ok m"
  by (simp add: mm_memory_ok_iff mm_with_inventory_def)

lemma mk_quotes_Inr: "mk_quotes is = Inr js \<longleftrightarrow> js = is \<and> list_all order_intent_ok is"
  by (induction "is" arbitrary: js) (auto simp: bindE_eq_Inr_iff mk_order_intent_Inr)

definition mm_quotes :: "mm_config \<Rightarrow> int \<Rightarrow> mm_memory \<Rightarrow> dec \<Rightarrow> dec \<Rightarrow> bool \<Rightarrow> bool \<Rightarrow> order_intent list" where
  "mm_quotes c ts m bid ask bid_allowed ask_allowed =
     (if bid_allowed then [mm_quote_intent c ts BUY bid (mm_quote_id ''bid'' ts (mm_quote_revision m + 1))] else [])
   @ (if ask_allowed then [mm_quote_intent c ts SELL ask (mm_quote_id ''ask'' ts (mm_quote_revision m + 1))] else [])"

lemma mm_cancel_all_Inr:
  assumes "mm_cancel_all m = Inr (m', d)"
  shows "kd_submit d = [] \<and> kd_cancel_intent_ids d = mm_active_ids m \<and> mm_active_ids m' = []
    \<and> mm_inventory_base m' = mm_inventory_base m \<and> mm_last_quote_ts_ns m' = mm_last_quote_ts_ns m
    \<and> mm_quote_revision m' = mm_quote_revision m \<and> (mm_memory_ok m \<longrightarrow> mm_memory_ok m')"
proof (cases "mm_active_ids m = []")
  case False
  with assms show ?thesis
    by (auto simp: mm_cancel_all_def bindE_eq_Inr_iff mk_mm_memory_Inr new_mm_memory_def mm_active_ids_def mm_memory_ok_iff)
qed (use assms in \<open>auto simp: mm_cancel_all_def\<close>)

lemma mm_requote_Inr:
  assumes "mm_requote c ts m bid ask ba aa = Inr (m', d)"
  shows "kd_submit d = mm_quotes c ts m bid ask ba aa \<and> kd_cancel_intent_ids d = mm_active_ids m
    \<and> list_all order_intent_ok (kd_submit d) \<and> mm_memory_ok m'
    \<and> mm_active_ids m' = submissions d \<and> mm_inventory_base m' = mm_inventory_base m
    \<and> mm_last_quote_ts_ns m' = Some ts \<and> mm_quote_revision m' = mm_quote_revision m + 1"
  using assms
  by (cases ba; cases aa)
    (auto simp: mm_requote_def Let_def bindE_eq_Inr_iff mk_quotes_Inr mk_order_intent_Inr mk_mm_memory_Inr mm_quotes_def
      mm_active_ids_def submissions_def mm_quote_intent_def)

lemma mm_decide_cases:
  assumes "mm_decide lt c s m = Inr (m', d)"
  obtains (keep) "m' = m" "d = no_decision"
    | (cancel) "mm_cancel_all m = Inr (m', d)"
    | (quote) "\<not> mm_unsafe c s" "\<not> mm_too_young c s m" "0 < mm_bid_price lt c s m"
        "mm_bid_price lt c s m < mm_ask_price lt c s m"
        "mm_requote c (fs_receive_ts_ns (si_features s)) m (mm_bid_price lt c s m) (mm_ask_price lt c s m)
           (mm_bid_allowed c s m) (mm_ask_allowed c s m) = Inr (m', d)"
  using assms by (fastforce simp: mm_decide_def Let_def not_le split: if_splits)

section \<open>The shared contracts\<close>

definition mm_quotes_ok :: "mm_config \<Rightarrow> dec \<times> strategy_input \<Rightarrow> mm_memory \<Rightarrow> kernel_decision \<Rightarrow> bool" where
  "mm_quotes_ok c s m d \<longleftrightarrow>
     list_all order_intent_ok (kd_submit d) \<and> length (kd_submit d) \<le> 2
   \<and> (kd_submit d \<noteq> [] \<longrightarrow> kd_cancel_intent_ids d = mm_active_ids m)"

lemma mm_decide_at_cases:
  assumes "mm_decide_at lt c s m = Inr (m', d)"
  obtains (keep) "m' = mm_with_inventory (fst s) m" "d = no_decision"
    | (cancel) "mm_cancel_all (mm_with_inventory (fst s) m) = Inr (m', d)"
    | (quote) bid ask ba aa where
        "\<not> mm_too_young c (snd s) m"
        "mm_requote c (fs_receive_ts_ns (si_features (snd s))) (mm_with_inventory (fst s) m) bid ask ba aa = Inr (m', d)"
proof -
  have "mm_too_young c (snd s) (mm_with_inventory (fst s) m) = mm_too_young c (snd s) m"
    by (simp add: mm_too_young_def mm_with_inventory_def)
  then show thesis using assms that unfolding mm_decide_at_def by (metis mm_decide_cases)
qed

lemma mm_with_inventory_simps [simp]:
  "mm_active_ids (mm_with_inventory x m) = mm_active_ids m"
  "mm_quote_revision (mm_with_inventory x m) = mm_quote_revision m"
  "mm_last_quote_ts_ns (mm_with_inventory x m) = mm_last_quote_ts_ns m"
  "mm_inventory_base (mm_with_inventory x m) = x"
  by (simp_all add: mm_with_inventory_def mm_active_ids_def)

lemma has_serial_mm_quote_id [simp]: "has_serial n (mm_quote_id side ts n)"
  using has_serialI [of n "''as-'' @ side @ ''-'' @ py_str ts"] by (simp add: mm_quote_id_def)

lemma mm_quotes_serial: "i \<in> set (mm_quotes c ts (mm_with_inventory x m) bid ask ba aa) \<Longrightarrow> has_serial (mm_quote_revision m + 1) (oi_intent_id i)"
  by (auto simp: mm_quotes_def mm_quote_intent_def split: if_splits)

lemma mm_quotes_distinct: "distinct (map oi_intent_id (mm_quotes c ts m bid ask ba aa))"
  by (auto simp: mm_quotes_def mm_quote_intent_def mm_quote_id_def)

interpretation mm: quoting_kernel "mm_decide_at lt c" "\<lambda>s. strategy_input_ok (snd s)" mm_memory_ok "mm_quotes_ok c"
  mm_quote_revision "\<lambda>m. set (mm_active_ids m)" for lt c
proof unfold_locales
  fix s m m' d
  show "0 \<le> mm_quote_revision m" if "mm_memory_ok m" for m using that by (simp add: mm_memory_ok_iff)
  assume m: "mm_memory_ok m" and d: "mm_decide_at lt c s m = Inr (m', d)"
  from d m show ok: "mm_memory_ok m'"
    by (cases rule: mm_decide_at_cases) (auto dest!: mm_cancel_all_Inr mm_requote_Inr)
  then show "mm_memory_ok m'" .
  from d show "mm_quote_revision m \<le> mm_quote_revision m'"
    by (cases rule: mm_decide_at_cases) (auto dest!: mm_cancel_all_Inr mm_requote_Inr)
  from d show "mm_quotes_ok c s m d"
  proof (cases rule: mm_decide_at_cases)
    case keep
    then show ?thesis by (simp add: mm_quotes_ok_def)
  next
    case cancel
    then show ?thesis by (auto dest!: mm_cancel_all_Inr simp: mm_quotes_ok_def)
  next
    case (quote bid ask ba aa)
    from mm_requote_Inr [OF quote(2)] show ?thesis by (auto simp: mm_quotes_ok_def mm_quotes_def)
  qed
  from d show "distinct (submissions d)"
    by (cases rule: mm_decide_at_cases)
      (auto dest!: mm_cancel_all_Inr mm_requote_Inr simp: submissions_def mm_quotes_distinct)
  from d show "set (mm_active_ids m') = resting_after (set (mm_active_ids m)) d"
    by (cases rule: mm_decide_at_cases)
      (auto dest!: mm_cancel_all_Inr mm_requote_Inr simp: resting_after_def submissions_def)
  fix i assume "i \<in> set (submissions d)"
  with d show "mm_quote_revision m < mm_quote_revision m' \<and> has_serial (mm_quote_revision m') i"
    by (cases rule: mm_decide_at_cases)
      (auto dest!: mm_cancel_all_Inr mm_requote_Inr simp: submissions_def dest: mm_quotes_serial)
qed


interpretation mm: paced_kernel "mm_decide_at lt c" "\<lambda>s. fs_receive_ts_ns (si_features (snd s))"
  mm_last_quote_ts_ns "mmc_minimum_quote_lifetime_ns c" "\<lambda>d. kd_submit d \<noteq> []" for lt c
proof unfold_locales
  fix s m m' d
  assume "mm_decide_at lt c s m = Inr (m', d)"
  then show "mm_last_quote_ts_ns m' = mm_last_quote_ts_ns m \<and> \<not> kd_submit d \<noteq> []
    \<or> mm_last_quote_ts_ns m' = Some (fs_receive_ts_ns (si_features (snd s)))
      \<and> opt_all (\<lambda>t. mmc_minimum_quote_lifetime_ns c \<le> fs_receive_ts_ns (si_features (snd s)) - t) (mm_last_quote_ts_ns m)"
    by (cases rule: mm_decide_at_cases) (auto dest!: mm_cancel_all_Inr mm_requote_Inr simp: mm_too_young_def)
qed

section \<open>A concrete decision\<close>

definition calm_memory :: mm_memory where
  "calm_memory = \<lparr>mm_inventory_base = 0, mm_active_bid_intent_id = Some ''as-bid-1000-1'',
     mm_active_ask_intent_id = Some ''as-ask-1000-1'', mm_active_bid_price = Some 59999,
     mm_active_ask_price = Some 60002, mm_last_quote_ts_ns = Some 1000, mm_quote_revision = 1\<rparr>"

definition calm_decision :: kernel_decision where
  "calm_decision = no_decision\<lparr>kd_submit :=
     [mm_quote_intent default_mm_config 1000 BUY 59999 (mm_quote_id ''bid'' 1000 1),
      mm_quote_intent default_mm_config 1000 SELL 60002 (mm_quote_id ''ask'' 1000 1)]\<rparr>"

lemma calm_quotes:
  "mm_decide (\<lambda>_ _. 1) default_mm_config calm_input new_mm_memory = Inr (calm_memory, calm_decision)"
  by code_simp

lemma default_mm_config_ok: "mm_config_ok default_mm_config"
  by code_simp

section \<open>Properties\<close>

text \<open>The market maker is passive and never crosses the market: every order it submits is a
  post-only limit order of the configured quantity at a positive price, a bid at or below the best
  bid and an ask at or above the best ask, when the best prices are on the tick grid; the rounding to ticks
  and the rounding of the decimal context included.\<close>
theorem mm_quotes_never_cross:
  assumes c: "mm_config_ok c" and s: "strategy_input_ok s"
    and grid: "on_tick (mmc_tick_size c) (fs_best_bid (si_features s))"
      "on_tick (mmc_tick_size c) (fs_best_ask (si_features s))"
    and d: "mm_decide lt c s m = Inr (m', d)" and i: "i \<in> set (kd_submit d)"
  shows "oi_kind i = LIMIT \<and> oi_post_only i \<and> \<not> oi_reduce_only i \<and> oi_quantity_base i = mmc_order_quantity_base c
    \<and> (\<exists>p. oi_limit_price i = Some p \<and> 0 < p
          \<and> (if oi_side i = BUY then p \<le> fs_best_bid (si_features s) else fs_best_ask (si_features s) \<le> p))"
  using d
proof (cases rule: mm_decide_cases)
  case quote
  have tick: "0 < mmc_tick_size c" using c by (simp add: mm_config_ok_def)
  have "mm_bid_price lt c s m \<le> fs_best_bid (si_features s)"
    unfolding mm_bid_price_def by (rule mm_round_down_le [OF tick grid(1)]) simp
  moreover have "fs_best_ask (si_features s) \<le> mm_ask_price lt c s m"
    unfolding mm_ask_price_def by (rule mm_round_up_ge [OF tick grid(2)]) simp
  ultimately show ?thesis
    using mm_requote_Inr [OF quote(5)] quote(3,4) i by (auto simp: mm_quotes_def mm_quote_intent_def split: if_splits)
qed (use i in \<open>auto dest: mm_cancel_all_Inr\<close>)

lemma mm_quotes_never_cross_witness:
  "\<exists>p. oi_limit_price (mm_quote_intent default_mm_config 1000 SELL 60002 (mm_quote_id ''ask'' 1000 1)) = Some p
     \<and> 60001 \<le> p"
proof -
  have i: "mm_quote_intent default_mm_config 1000 SELL 60002 (mm_quote_id ''ask'' 1000 1) \<in> set (kd_submit calm_decision)"
    by (simp add: calm_decision_def)
  have g: "on_tick (mmc_tick_size default_mm_config) (fs_best_bid (si_features calm_input))"
    "on_tick (mmc_tick_size default_mm_config) (fs_best_ask (si_features calm_input))" by code_simp+
  from mm_quotes_never_cross [OF default_mm_config_ok calm_input_ok g calm_quotes i] show ?thesis
    by (auto simp: mm_quote_intent_def calm_input_def calm_features_def)
qed

text \<open>C36: Quoting respects the inventory limit: whatever parts of the quotes a decision submits are
  filled, the position stays within the limit it started in, for quantities on a decimal grid on which the
  sums are exact. (All earlier quotes are canceled by the same decision.)\<close>
theorem mm_inventory_bounded:
  assumes grid: "on_grid n (mm_inventory_base m)" "on_grid n (mmc_order_quantity_base c)"
      "on_grid n (mmc_max_abs_inventory_base c)"
      "(\<bar>mm_inventory_base m\<bar> + mmc_order_quantity_base c) * 10 ^ n \<le> 10 ^ 28"
    and c: "mm_config_ok c"
    and inventory: "\<bar>mm_inventory_base m\<bar> \<le> mmc_max_abs_inventory_base c"
    and d: "mm_decide lt c s m = Inr (m', d)"
    and fills: "0 \<le> bought" "bought \<le> mmc_order_quantity_base c" "0 \<le> sold" "sold \<le> mmc_order_quantity_base c"
      "0 < bought \<longrightarrow> BUY \<in> oi_side ` set (kd_submit d)" "0 < sold \<longrightarrow> SELL \<in> oi_side ` set (kd_submit d)"
  shows "\<bar>mm_inventory_base m + bought - sold\<bar> \<le> mmc_max_abs_inventory_base c
    \<and> (kd_submit d = [] \<or> kd_cancel_intent_ids d = mm_active_ids m)"
proof -
  have canceled: "kd_submit d = [] \<or> kd_cancel_intent_ids d = mm_active_ids m"
    using d by (cases rule: mm_decide_cases) (auto dest: mm_cancel_all_Inr mm_requote_Inr)
  let ?q = "mmc_order_quantity_base c" and ?v = "mm_inventory_base m" and ?x = "mmc_max_abs_inventory_base c"
  have q: "0 < ?q" using c by (simp add: mm_config_ok_def)
  have le: "\<bar>?v + ?q\<bar> \<le> \<bar>?v\<bar> + ?q" "\<bar>?v - ?q\<bar> \<le> \<bar>?v\<bar> + ?q" using q by auto
  have ex: "dadd ?v ?q = ?v + ?q" "dsub ?v ?q = ?v - ?q"
    by (rule dadd_exact dsub_exact; use grid le in \<open>auto intro: order.trans [OF mult_right_mono]\<close>)+
  have neg: "dneg ?x = - ?x" by (rule dneg_dec) (rule on_grid_is_dec [OF grid(3)])
  have side: "BUY \<in> oi_side ` set (kd_submit d) \<longrightarrow> mm_bid_allowed c s m"
    "SELL \<in> oi_side ` set (kd_submit d) \<longrightarrow> mm_ask_allowed c s m"
    using d by (cases rule: mm_decide_cases;
      auto dest!: mm_cancel_all_Inr mm_requote_Inr simp: mm_quotes_def mm_quote_intent_def split: if_splits)+
  have "0 < bought \<longrightarrow> ?v + ?q \<le> ?x" using fills(5) side(1) ex by (auto simp: mm_bid_allowed_def)
  moreover have "0 < sold \<longrightarrow> - ?x \<le> ?v - ?q" using fills(6) side(2) ex neg by (auto simp: mm_ask_allowed_def)
  ultimately have "\<bar>?v + bought - sold\<bar> \<le> ?x" using fills(1-4) inventory by (auto simp: abs_le_iff)
  with canceled show ?thesis by blast
qed

lemma mm_inventory_bounded_witness:
  "\<bar>(0 :: rat) + 1 / 1000 - 1 / 2000\<bar> \<le> mmc_max_abs_inventory_base default_mm_config"
proof -
  have v: "mm_inventory_base new_mm_memory = 0" "mmc_order_quantity_base default_mm_config = 1 / 1000"
    "mmc_max_abs_inventory_base default_mm_config = 1 / 20" by code_simp+
  have "\<bar>mm_inventory_base new_mm_memory + 1 / 1000 - 1 / 2000\<bar> \<le> mmc_max_abs_inventory_base default_mm_config
    \<and> (kd_submit calm_decision = [] \<or> kd_cancel_intent_ids calm_decision = mm_active_ids new_mm_memory)"
    by (rule mm_inventory_bounded [where n = 3, OF _ _ _ _ default_mm_config_ok _ calm_quotes])
      (simp_all add: on_grid_def v calm_decision_def mm_quote_intent_def)
  then show ?thesis unfolding v by simp
qed

text \<open>No quote is forgotten and no identity is used twice: over any replay of decisions, with the
  inventory set to whatever was confirmed before each, the memory names exactly the quotes submitted and
  not canceled (at most one per side), all submitted identities are distinct, and two decisions
  that submit are at least the minimum quote lifetime apart.\<close>
theorem mm_replay_tracks_quotes:
  assumes c: "mm_config_ok c" and m: "mm_memory_ok m"
    and r: "replay (mm_decide_at lt c) m ss = Inr (m', ds)"
  shows "set (mm_active_ids m') = foldl resting_after (set (mm_active_ids m)) ds
    \<and> length (mm_active_ids m') \<le> 2 \<and> mm_memory_ok m'
    \<and> distinct (concat (map submissions ds))
    \<and> (\<forall>j k. j < k \<and> k < length ds \<and> kd_submit (ds ! j) \<noteq> [] \<and> kd_submit (ds ! k) \<noteq> [] \<longrightarrow>
         mmc_minimum_quote_lifetime_ns c
           \<le> fs_receive_ts_ns (si_features (snd (ss ! k))) - fs_receive_ts_ns (si_features (snd (ss ! j))))"
proof -
  have "0 \<le> mmc_minimum_quote_lifetime_ns c" using c by (simp add: mm_config_ok_def)
  from mm.replay_paced [OF this r] mm.replay_resting [OF m r] mm.replay_distinct_ids [OF m r]
    mm.replay_serials [OF m r] show ?thesis
    by (auto simp: mm_active_ids_def opt_list_def split: option.splits)
qed

lemma mm_replay_tracks_quotes_witness:
  "set (mm_active_ids calm_memory) = foldl resting_after {} [calm_decision, no_decision]
   \<and> distinct (concat (map submissions [calm_decision, no_decision]))"
proof -
  have w: "mm_with_inventory 0 new_mm_memory = new_mm_memory" "mm_with_inventory (1 / 1000) calm_memory = calm_memory\<lparr>mm_inventory_base := 1 / 1000\<rparr>"
    "mm_decide (\<lambda>_ _. 1) default_mm_config calm_input (calm_memory\<lparr>mm_inventory_base := 1 / 1000\<rparr>)
       = Inr (calm_memory\<lparr>mm_inventory_base := 1 / 1000\<rparr>, no_decision)"
    by (simp_all add: mm_with_inventory_def new_mm_memory_def) code_simp
  have r: "replay (mm_decide_at (\<lambda>_ _. 1) default_mm_config) new_mm_memory [(0, calm_input), (1 / 1000, calm_input)]
      = Inr (calm_memory\<lparr>mm_inventory_base := 1 / 1000\<rparr>, [calm_decision, no_decision])"
    by (simp add: mm_decide_at_def w calm_quotes)
  have g: "mm_memory_ok new_mm_memory" "mm_active_ids new_mm_memory = []"
    "mm_active_ids (calm_memory\<lparr>mm_inventory_base := 1 / 1000\<rparr>) = mm_active_ids calm_memory" by code_simp+
  from mm_replay_tracks_quotes [OF default_mm_config_ok g(1) r] show ?thesis unfolding g(2,3) by simp
qed

end
