(* ===== verification/Order_Flow_Scalper.thy ===== *)
theory Order_Flow_Scalper
  imports Strategy_Common
begin

text \<open>
  The order-flow scalper of \<open>strategies/scalper.py\<close>: one order per decision, when the edge
  expected from imbalance, flow and momentum covers the costs of the entry style, after a
  cooldown, within the inventory limit.
\<close>

section \<open>Configuration and memory\<close>

datatype entry_style = TAKER | PASSIVE

record ofs_config =
  ofc_entry_style :: entry_style
  ofc_order_quantity_base :: dec
  ofc_max_abs_inventory_base :: dec
  ofc_imbalance_weight_bps :: dec
  ofc_flow_weight_bps :: dec
  ofc_momentum_weight :: dec
  ofc_safety_margin_bps :: dec
  ofc_maximum_spread_bps :: dec
  ofc_signal_threshold_bps :: dec
  ofc_cooldown_ns :: int
  ofc_reject_high_volatility :: bool
  ofc_require_model_identity_when_forecasted :: bool

definition ofs_config_ok :: "ofs_config \<Rightarrow> bool" where
  "ofs_config_ok c \<longleftrightarrow>
     0 < ofc_order_quantity_base c \<and> 0 < ofc_max_abs_inventory_base c \<and> 0 \<le> ofc_imbalance_weight_bps c
   \<and> 0 \<le> ofc_flow_weight_bps c \<and> 0 \<le> ofc_momentum_weight c \<and> 0 < ofc_safety_margin_bps c
   \<and> 0 < ofc_maximum_spread_bps c \<and> 0 < ofc_signal_threshold_bps c \<and> 0 \<le> ofc_cooldown_ns c"

definition default_ofs_config :: ofs_config where
  "default_ofs_config =
     \<lparr>ofc_entry_style = TAKER, ofc_order_quantity_base = 1 / 1000, ofc_max_abs_inventory_base = 1 / 100,
      ofc_imbalance_weight_bps = 3, ofc_flow_weight_bps = 4, ofc_momentum_weight = 1 / 2,
      ofc_safety_margin_bps = 3 / 2, ofc_maximum_spread_bps = 12, ofc_signal_threshold_bps = 2,
      ofc_cooldown_ns = 1000000000, ofc_reject_high_volatility = True,
      ofc_require_model_identity_when_forecasted = True\<rparr>"

record ofs_memory =
  ofm_inventory_base :: dec
  ofm_last_order_ts_ns :: "int option"
  ofm_order_revision :: int

definition new_ofs_memory :: ofs_memory where
  "new_ofs_memory = \<lparr>ofm_inventory_base = 0, ofm_last_order_ts_ns = None, ofm_order_revision = 0\<rparr>"

definition ofs_memory_ok :: "ofs_memory \<Rightarrow> bool" where
  "ofs_memory_ok m \<longleftrightarrow> opt_all (\<lambda>t. 0 \<le> t) (ofm_last_order_ts_ns m) \<and> 0 \<le> ofm_order_revision m"

definition mk_ofs_memory :: "ofs_memory \<Rightarrow> ofs_memory res" where
  "mk_ofs_memory m = (if ofs_memory_ok m then Inr m else Inl (ValidationError ''ScalperMemory''))"

definition ofs_with_inventory :: "dec \<Rightarrow> ofs_memory \<Rightarrow> ofs_memory" where
  "ofs_with_inventory inventory m = m\<lparr>ofm_inventory_base := inventory\<rparr>"

section \<open>Decisions\<close>

definition ofs_blocked :: "ofs_config \<Rightarrow> strategy_input \<Rightarrow> ofs_memory \<Rightarrow> bool" where
  "ofs_blocked c s m \<longleftrightarrow>
     \<not> fs_ready (si_features s)
   \<or> ofc_maximum_spread_bps c < fs_spread_bps (si_features s)
   \<or> (ofc_reject_high_volatility c \<and> fs_volatility_regime (si_features s) = HIGH_VOLATILITY)
   \<or> \<not> opt_all (\<lambda>t. ofc_cooldown_ns c \<le> fs_receive_ts_ns (si_features s) - t) (ofm_last_order_ts_ns m)"

definition ofs_unidentified_model :: "ofs_config \<Rightarrow> strategy_input \<Rightarrow> bool" where
  "ofs_unidentified_model c s \<longleftrightarrow>
     si_movement_forecast_bps s \<noteq> 0 \<and> ofc_require_model_identity_when_forecasted c
   \<and> si_model_artifact_sha256 s = None"

definition ofs_expected_edge :: "ofs_config \<Rightarrow> strategy_input \<Rightarrow> dec" where
  "ofs_expected_edge c s =
     dadd (dadd (dadd (dmul (fs_book_imbalance (si_features s)) (ofc_imbalance_weight_bps c))
                      (dmul (fs_trade_flow_imbalance (si_features s)) (ofc_flow_weight_bps c)))
                (dmul (fs_mid_return_bps (si_features s)) (ofc_momentum_weight c)))
          (si_movement_forecast_bps s)"

definition ofs_required_edge :: "ofs_config \<Rightarrow> strategy_input \<Rightarrow> dec" where
  "ofs_required_edge c s =
     (if ofc_entry_style c = TAKER
      then dadd (dadd (si_estimated_taker_fee_bps s) (si_estimated_slippage_bps s)) (ofc_safety_margin_bps c)
      else ofc_safety_margin_bps c)"

definition ofs_projected :: "ofs_config \<Rightarrow> order_side \<Rightarrow> ofs_memory \<Rightarrow> dec" where
  "ofs_projected c side m =
     dadd (ofm_inventory_base m)
       (if side = BUY then ofc_order_quantity_base c else dneg (ofc_order_quantity_base c))"

definition ofs_reducing :: "order_side \<Rightarrow> ofs_memory \<Rightarrow> bool" where
  "ofs_reducing side m \<longleftrightarrow>
     (0 < ofm_inventory_base m \<and> side = SELL) \<or> (ofm_inventory_base m < 0 \<and> side = BUY)"

definition ofs_quantity :: "ofs_config \<Rightarrow> order_side \<Rightarrow> ofs_memory \<Rightarrow> dec" where
  "ofs_quantity c side m =
     (if ofs_reducing side m then min (dabs (ofm_inventory_base m)) (ofc_order_quantity_base c)
      else ofc_order_quantity_base c)"

definition ofs_intent_id :: "order_side \<Rightarrow> int \<Rightarrow> int \<Rightarrow> string" where
  "ofs_intent_id side ts revision = ''ofs-'' @ side_value side @ ''-'' @ py_str ts @ ''-'' @ py_str revision"

definition ofs_intent :: "ofs_config \<Rightarrow> strategy_input \<Rightarrow> order_side \<Rightarrow> ofs_memory \<Rightarrow> order_intent" where
  "ofs_intent c s side m =
     (let f = si_features s; taker = (ofc_entry_style c = TAKER)
      in \<lparr>oi_intent_id = ofs_intent_id side (fs_receive_ts_ns f) (ofm_order_revision m + 1),
          oi_strategy_id = ''order-flow-scalper-v1'', oi_side = side,
          oi_kind = (if taker then MARKET else LIMIT), oi_quantity_base = ofs_quantity c side m,
          oi_limit_price = (if taker then None else Some (if side = BUY then fs_best_bid f else fs_best_ask f)),
          oi_time_in_force = (if taker then IOC else GTC), oi_post_only = (\<not> taker),
          oi_reduce_only = ofs_reducing side m, oi_created_ts_ns = fs_receive_ts_ns f,
          oi_rationale = OrderFlowEdge (ofs_expected_edge c s) (ofs_required_edge c s)\<rparr>)"

definition ofs_decide :: "ofs_config \<Rightarrow> strategy_input \<Rightarrow> ofs_memory \<Rightarrow> (ofs_memory \<times> kernel_decision) res" where
  "ofs_decide c s m =
     (if ofs_blocked c s m \<or> ofs_unidentified_model c s then Inr (m, no_decision)
      else if dabs (ofs_expected_edge c s) < max (ofc_signal_threshold_bps c) (ofs_required_edge c s)
      then Inr (m, no_decision)
      else
        (let side = (if 0 < ofs_expected_edge c s then BUY else SELL)
         in if \<not> ofs_reducing side m \<and> ofc_max_abs_inventory_base c < dabs (ofs_projected c side m)
            then Inr (m, no_decision)
            else if ofs_quantity c side m \<le> 0 then Inr (m, no_decision)
            else bindE (mk_order_intent (ofs_intent c s side m)) (\<lambda>i.
                 bindE (mk_ofs_memory \<lparr>ofm_inventory_base = ofm_inventory_base m,
                     ofm_last_order_ts_ns = Some (fs_receive_ts_ns (si_features s)),
                     ofm_order_revision = ofm_order_revision m + 1\<rparr>) (\<lambda>m'.
                 Inr (m', no_decision\<lparr>kd_submit := [i]\<rparr>)))))"

text \<open>One decision as the callers make it: the confirmed inventory is set first.\<close>

definition ofs_decide_at ::
  "ofs_config \<Rightarrow> dec \<times> strategy_input \<Rightarrow> ofs_memory \<Rightarrow> (ofs_memory \<times> kernel_decision) res" where
  "ofs_decide_at c s m = ofs_decide c (snd s) (ofs_with_inventory (fst s) m)"

section \<open>The shared contracts\<close>

lemma mk_ofs_memory_Inr: "mk_ofs_memory m = Inr m' \<longleftrightarrow> ofs_memory_ok m \<and> m' = m"
  by (auto simp: mk_ofs_memory_def)

lemma ofs_with_inventory_simps [simp]:
  "ofm_order_revision (ofs_with_inventory x m) = ofm_order_revision m"
  "ofm_last_order_ts_ns (ofs_with_inventory x m) = ofm_last_order_ts_ns m"
  "ofm_inventory_base (ofs_with_inventory x m) = x"
  "ofs_memory_ok (ofs_with_inventory x m) = ofs_memory_ok m"
  by (simp_all add: ofs_with_inventory_def ofs_memory_ok_def)

lemma ofs_decide_cases:
  assumes "ofs_decide c s m = Inr (m', d)"
  obtains (hold) "m' = m" "d = no_decision"
    | (order) side where "d = no_decision\<lparr>kd_submit := [ofs_intent c s side m]\<rparr>"
        "order_intent_ok (ofs_intent c s side m)" "\<not> ofs_blocked c s m" "\<not> ofs_unidentified_model c s"
        "max (ofc_signal_threshold_bps c) (ofs_required_edge c s) \<le> dabs (ofs_expected_edge c s)"
        "side = (if 0 < ofs_expected_edge c s then BUY else SELL)"
        "ofs_reducing side m \<or> dabs (ofs_projected c side m) \<le> ofc_max_abs_inventory_base c"
        "0 < ofs_quantity c side m" "ofs_memory_ok m'" "ofm_inventory_base m' = ofm_inventory_base m"
        "ofm_last_order_ts_ns m' = Some (fs_receive_ts_ns (si_features s))"
        "ofm_order_revision m' = ofm_order_revision m + 1"
proof (cases "kd_submit d = []")
  case True
  with assms show thesis
    by (intro hold; auto simp: ofs_decide_def Let_def bindE_eq_Inr_iff split: if_splits)
next
  case False
  let ?side = "if 0 < ofs_expected_edge c s then BUY else SELL"
  from False assms show thesis
    by (intro order [where side = ?side];
      simp add: ofs_decide_def Let_def bindE_eq_Inr_iff mk_order_intent_Inr mk_ofs_memory_Inr not_less not_le
        split: if_split_asm; fastforce)
qed

lemma has_serial_ofs_intent [simp]: "has_serial (ofm_order_revision m + 1) (oi_intent_id (ofs_intent c s side m))"
  using has_serialI [of "ofm_order_revision m + 1" "''ofs-'' @ side_value side @ ''-'' @ py_str (fs_receive_ts_ns (si_features s))"]
  by (simp add: ofs_intent_def ofs_intent_id_def Let_def)

text \<open>What one decision guarantees of its order; the scalper keeps no record of resting orders and cancels none.\<close>

definition ofs_order_ok :: "ofs_config \<Rightarrow> dec \<times> strategy_input \<Rightarrow> ofs_memory \<Rightarrow> kernel_decision \<Rightarrow> bool" where
  "ofs_order_ok c s m d \<longleftrightarrow>
     list_all order_intent_ok (kd_submit d) \<and> length (kd_submit d) \<le> 1 \<and> kd_cancel_intent_ids d = []"

interpretation ofs: serial_kernel "ofs_decide_at c" "\<lambda>s. strategy_input_ok (snd s)" ofs_memory_ok "ofs_order_ok c"
  ofm_order_revision for c
proof unfold_locales
  fix s m m' d
  show "0 \<le> ofm_order_revision m" if "ofs_memory_ok m" for m using that by (simp add: ofs_memory_ok_def)
  assume m: "ofs_memory_ok m" and d: "ofs_decide_at c s m = Inr (m', d)"
  note d' = d [unfolded ofs_decide_at_def]
  from d' m show ok: "ofs_memory_ok m'" by (cases rule: ofs_decide_cases) auto
  then show "ofs_memory_ok m'" .
  from d' show "ofs_order_ok c s m d"
    by (cases rule: ofs_decide_cases) (auto simp: ofs_order_ok_def no_decision_def)
  from d' show "ofm_order_revision m \<le> ofm_order_revision m'" by (cases rule: ofs_decide_cases) auto
  from d' show "distinct (submissions d)" by (cases rule: ofs_decide_cases) (auto simp: submissions_def)
  fix i assume "i \<in> set (submissions d)"
  with d' show "ofm_order_revision m < ofm_order_revision m' \<and> has_serial (ofm_order_revision m') i"
    by (cases rule: ofs_decide_cases)
      (use has_serial_ofs_intent [of "ofs_with_inventory (fst s) m" c "snd s"] in \<open>auto simp: submissions_def\<close>)
qed

interpretation ofs: paced_kernel "ofs_decide_at c" "\<lambda>s. fs_receive_ts_ns (si_features (snd s))"
  ofm_last_order_ts_ns "ofc_cooldown_ns c" "\<lambda>d. kd_submit d \<noteq> []" for c
proof unfold_locales
  fix s m m' d
  assume "ofs_decide_at c s m = Inr (m', d)"
  then show "ofm_last_order_ts_ns m' = ofm_last_order_ts_ns m \<and> \<not> kd_submit d \<noteq> []
    \<or> ofm_last_order_ts_ns m' = Some (fs_receive_ts_ns (si_features (snd s)))
      \<and> opt_all (\<lambda>t. ofc_cooldown_ns c \<le> fs_receive_ts_ns (si_features (snd s)) - t) (ofm_last_order_ts_ns m)"
    unfolding ofs_decide_at_def by (cases rule: ofs_decide_cases) (auto simp: ofs_blocked_def)
qed

lemma ofs_replay_counts:
  "replay (ofs_decide_at c) m ss = Inr (m', ds) \<Longrightarrow>
     ofm_order_revision m' - ofm_order_revision m = int (length (concat (map submissions ds)))"
proof (induction ss arbitrary: m ds)
  case (Cons s ss)
  then obtain m1 d ds' where d: "ofs_decide_at c s m = Inr (m1, d)" "replay (ofs_decide_at c) m1 ss = Inr (m', ds')"
    "ds = d # ds'" by (auto simp: bindE_eq_Inr_iff)
  from d(1) have "ofm_order_revision m1 - ofm_order_revision m = int (length (submissions d))"
    unfolding ofs_decide_at_def by (cases rule: ofs_decide_cases) (auto simp: submissions_def)
  with Cons.IH [OF d(2)] d(3) show ?case by simp
qed simp

section \<open>A concrete decision\<close>

lemma default_ofs_config_ok: "ofs_config_ok default_ofs_config"
  by code_simp

definition calm_order_memory :: ofs_memory where
  "calm_order_memory = \<lparr>ofm_inventory_base = 0, ofm_last_order_ts_ns = Some 1000, ofm_order_revision = 1\<rparr>"

lemma calm_order:
  "ofs_decide default_ofs_config calm_input new_ofs_memory =
     Inr (calm_order_memory, no_decision\<lparr>kd_submit := [ofs_intent default_ofs_config calm_input BUY new_ofs_memory]\<rparr>)"
  by code_simp

section \<open>Properties\<close>

text \<open>Every order of the scalper is justified and bounded: a decision submits at most one order and only
  from ready features within the spread limit; the expected edge has the sign of the order and covers
  both the signal threshold and the costs of the entry style; an order that opposes the position is
  reduce-only and not larger than it, any other keeps the projected position within the
  limit; a passive order rests at the best price of its side.\<close>
theorem ofs_order_justified:
  assumes c: "ofs_config_ok c" and s: "strategy_input_ok s"
    and d: "ofs_decide c s m = Inr (m', d)" and i: "i \<in> set (kd_submit d)"
  shows "kd_submit d = [i] \<and> order_intent_ok i \<and> fs_ready (si_features s)
    \<and> fs_spread_bps (si_features s) \<le> ofc_maximum_spread_bps c
    \<and> ofs_required_edge c s \<le> \<bar>rnd28 (ofs_expected_edge c s)\<bar>
    \<and> ofc_signal_threshold_bps c \<le> \<bar>rnd28 (ofs_expected_edge c s)\<bar>
    \<and> (if oi_side i = BUY then 0 < ofs_expected_edge c s else ofs_expected_edge c s < 0)
    \<and> (if oi_reduce_only i
         then oi_quantity_base i \<le> \<bar>rnd28 (ofm_inventory_base m)\<bar>
              \<and> (if oi_side i = BUY then ofm_inventory_base m < 0 else 0 < ofm_inventory_base m)
         else oi_quantity_base i = ofc_order_quantity_base c
              \<and> dabs (ofs_projected c (oi_side i) m) \<le> ofc_max_abs_inventory_base c)
    \<and> (oi_kind i = LIMIT \<longrightarrow> oi_post_only i \<and> oi_limit_price i =
         Some (if oi_side i = BUY then fs_best_bid (si_features s) else fs_best_ask (si_features s)))"
  using d
proof (cases rule: ofs_decide_cases)
  case (order side)
  have "0 < ofc_signal_threshold_bps c" using c by (simp add: ofs_config_ok_def)
  with order(5) have "0 < dabs (ofs_expected_edge c s)" by simp
  then have ne: "ofs_expected_edge c s \<noteq> 0" by (simp add: dabs_pos_iff)
  have i: "i = ofs_intent c s side m" using i order(1) by simp
  show ?thesis
    using order ne unfolding i
    by (auto simp: ofs_intent_def Let_def ofs_blocked_def ofs_quantity_def ofs_reducing_def dabs_eq_abs)
qed (use i in simp)

lemma ofs_order_justified_witness:
  "ofs_required_edge default_ofs_config calm_input \<le> \<bar>rnd28 (ofs_expected_edge default_ofs_config calm_input)\<bar>"
  using ofs_order_justified [OF default_ofs_config_ok calm_input_ok calm_order,
      of "ofs_intent default_ofs_config calm_input BUY new_ofs_memory"]
  by simp

text \<open>Orders of the scalper are paced and never share an identity: over any replay of decisions, with the
  inventory set to whatever was confirmed before each, two decisions that submit are at least the
  cooldown apart, each submits at most one order, and all submitted identities are distinct.\<close>
theorem ofs_replay_paced:
  assumes c: "ofs_config_ok c" and m: "ofs_memory_ok m"
    and r: "replay (ofs_decide_at c) m ss = Inr (m', ds)"
  shows "distinct (concat (map submissions ds)) \<and> ofs_memory_ok m'
    \<and> ofm_order_revision m' - ofm_order_revision m = int (length (concat (map submissions ds)))
    \<and> (\<forall>j k. j < k \<and> k < length ds \<and> kd_submit (ds ! j) \<noteq> [] \<and> kd_submit (ds ! k) \<noteq> [] \<longrightarrow>
         ofc_cooldown_ns c
           \<le> fs_receive_ts_ns (si_features (snd (ss ! k))) - fs_receive_ts_ns (si_features (snd (ss ! j))))"
proof -
  have "0 \<le> ofc_cooldown_ns c" using c by (simp add: ofs_config_ok_def)
  from ofs.replay_paced [OF this r] ofs.replay_distinct_ids [OF m r] ofs.replay_serials [OF m r]
    ofs_replay_counts [OF r] show ?thesis by auto
qed

lemma ofs_replay_paced_witness:
  "ofm_order_revision calm_order_memory - ofm_order_revision new_ofs_memory =
     int (length (concat (map submissions
       [no_decision\<lparr>kd_submit := [ofs_intent default_ofs_config calm_input BUY new_ofs_memory]\<rparr>, no_decision])))"
proof -
  have w: "ofs_with_inventory 0 new_ofs_memory = new_ofs_memory" "ofs_with_inventory 0 calm_order_memory = calm_order_memory"
    by (simp_all add: ofs_with_inventory_def new_ofs_memory_def calm_order_memory_def)
  have n: "ofs_decide default_ofs_config calm_input calm_order_memory = Inr (calm_order_memory, no_decision)"
    by code_simp
  have m: "ofs_memory_ok new_ofs_memory" by code_simp
  have "replay (ofs_decide_at default_ofs_config) new_ofs_memory [(0, calm_input), (0, calm_input)] =
    Inr (calm_order_memory, [no_decision\<lparr>kd_submit := [ofs_intent default_ofs_config calm_input BUY new_ofs_memory]\<rparr>, no_decision])"
    by (simp add: ofs_decide_at_def w calm_order n)
  from ofs_replay_paced [OF default_ofs_config_ok m this] show ?thesis by (elim conjE)
qed

end
