(* ===== verification/Reactive_Forecast.thy ===== *)
theory Reactive_Forecast
  imports Strategy_Common
begin

text \<open>
  Policy and online learner of \<open>strategies/reactive_scalper.py\<close>: the configuration with its
  validation, the bounded multi-horizon forecast state, and \<open>_update_forecast\<close>, which resolves
  the pending observations whose horizons have passed, trains one linear model per horizon on
  them, predicts, and samples. The lemmas show that the hard bounds of the state are never
  reached, that every sample trains every horizon once, and that weights and predictions stay
  in the configured range.
\<close>

section \<open>Configuration\<close>

definition ONE_SECOND_NS :: int where "ONE_SECOND_NS = 1000000000"
definition ONE_DAY_NS :: int where "ONE_DAY_NS = 86400 * ONE_SECOND_NS"
definition FORECAST_FEATURE_COUNT :: nat where "FORECAST_FEATURE_COUNT = 8"
definition MAX_FORECAST_HORIZONS :: nat where "MAX_FORECAST_HORIZONS = 4"
definition MAX_PENDING_PER_HORIZON :: nat where "MAX_PENDING_PER_HORIZON = 512"

record reactive_config =
  rc_order_quantity_base :: dec
  rc_high_volatility_quantity_multiplier :: dec
  rc_maximum_spread_bps :: dec
  rc_minimum_confluence_score :: int
  rc_high_volatility_confluence_bonus :: int
  rc_minimum_book_imbalance :: dec
  rc_minimum_trade_flow_imbalance :: dec
  rc_minimum_microprice_edge_bps :: dec
  rc_minimum_intrabar_momentum_bps :: dec
  rc_minimum_signal_persistence :: int
  rc_confirmation_max_gap_ns :: int
  rc_minimum_forecast_edge_bps :: dec
  rc_minimum_net_edge_bps :: dec
  rc_safety_margin_bps :: dec
  rc_expected_maker_exit_fraction :: dec
  rc_high_volatility_edge_multiplier :: dec
  rc_minimum_stop_loss_bps :: dec
  rc_maximum_stop_loss_bps :: dec
  rc_stop_atr_multiplier :: dec
  rc_minimum_take_profit_bps :: dec
  rc_maximum_take_profit_bps :: dec
  rc_minimum_reward_risk_ratio :: dec
  rc_break_even_trigger_fraction :: dec
  rc_break_even_lock_fraction :: dec
  rc_trailing_trigger_fraction :: dec
  rc_trailing_giveback_fraction :: dec
  rc_reversal_forecast_bps :: dec
  rc_soft_holding_limit_ns :: int
  rc_hard_holding_limit_ns :: int
  rc_cooldown_ns :: int
  rc_minimum_entry_interval_ns :: int
  rc_maker_entry_ttl_ns :: int
  rc_maker_exit_ttl_ns :: int
  rc_maker_exit_cancel_grace_ns :: int
  rc_exit_retry_ns :: int
  rc_maximum_entry_attempts_per_day :: int
  rc_forecast_horizons_ns :: "int list"
  rc_forecast_sample_interval_ns :: int
  rc_forecast_minimum_samples :: int
  rc_forecast_recent_window :: int
  rc_forecast_minimum_directional_accuracy :: dec
  rc_forecast_maximum_mae_bps :: dec
  rc_minimum_quality_horizons :: int
  rc_minimum_aligned_forecasts :: int
  rc_forecast_learning_rate :: dec
  rc_forecast_learning_rate_decay_samples :: int
  rc_forecast_l2_penalty :: dec
  rc_forecast_huber_delta_bps :: dec
  rc_forecast_prediction_clip_bps :: dec

definition default_reactive_config :: reactive_config where
  "default_reactive_config =
     \<lparr>rc_order_quantity_base = 1 / 1000, rc_high_volatility_quantity_multiplier = 1 / 2,
      rc_maximum_spread_bps = 1, rc_minimum_confluence_score = 6, rc_high_volatility_confluence_bonus = 1,
      rc_minimum_book_imbalance = 12 / 100, rc_minimum_trade_flow_imbalance = 1 / 10,
      rc_minimum_microprice_edge_bps = 1 / 100, rc_minimum_intrabar_momentum_bps = 2 / 100,
      rc_minimum_signal_persistence = 2, rc_confirmation_max_gap_ns = 3 * ONE_SECOND_NS,
      rc_minimum_forecast_edge_bps = 65 / 10, rc_minimum_net_edge_bps = 15 / 10, rc_safety_margin_bps = 1,
      rc_expected_maker_exit_fraction = 65 / 100, rc_high_volatility_edge_multiplier = 125 / 100,
      rc_minimum_stop_loss_bps = 6, rc_maximum_stop_loss_bps = 14, rc_stop_atr_multiplier = 75 / 100,
      rc_minimum_take_profit_bps = 12, rc_maximum_take_profit_bps = 24, rc_minimum_reward_risk_ratio = 15 / 10,
      rc_break_even_trigger_fraction = 65 / 100, rc_break_even_lock_fraction = 20 / 100,
      rc_trailing_trigger_fraction = 80 / 100, rc_trailing_giveback_fraction = 25 / 100,
      rc_reversal_forecast_bps = 4, rc_soft_holding_limit_ns = 45 * ONE_SECOND_NS,
      rc_hard_holding_limit_ns = 120 * ONE_SECOND_NS, rc_cooldown_ns = 15 * ONE_SECOND_NS,
      rc_minimum_entry_interval_ns = 10 * ONE_SECOND_NS, rc_maker_entry_ttl_ns = 15 * ONE_SECOND_NS,
      rc_maker_exit_ttl_ns = 2 * ONE_SECOND_NS, rc_maker_exit_cancel_grace_ns = ONE_SECOND_NS,
      rc_exit_retry_ns = 2 * ONE_SECOND_NS, rc_maximum_entry_attempts_per_day = 96,
      rc_forecast_horizons_ns = [30 * ONE_SECOND_NS, 60 * ONE_SECOND_NS, 120 * ONE_SECOND_NS, 180 * ONE_SECOND_NS],
      rc_forecast_sample_interval_ns = 5 * ONE_SECOND_NS, rc_forecast_minimum_samples = 1000,
      rc_forecast_recent_window = 128, rc_forecast_minimum_directional_accuracy = 55 / 100,
      rc_forecast_maximum_mae_bps = 10, rc_minimum_quality_horizons = 2, rc_minimum_aligned_forecasts = 2,
      rc_forecast_learning_rate = 12 / 1000, rc_forecast_learning_rate_decay_samples = 10000,
      rc_forecast_l2_penalty = 5 / 10000, rc_forecast_huber_delta_bps = 10,
      rc_forecast_prediction_clip_bps = 40\<rparr>"

text \<open>The \<open>Field\<close> bounds, in three groups, and the cross-field checks of \<open>validate_policy\<close>.\<close>

definition reactive_economics_ok :: "reactive_config \<Rightarrow> bool" where
  "reactive_economics_ok c \<longleftrightarrow>
     0 < rc_order_quantity_base c \<and> 0 < rc_high_volatility_quantity_multiplier c
   \<and> rc_high_volatility_quantity_multiplier c \<le> 1 \<and> 0 < rc_maximum_spread_bps c
   \<and> 0 < rc_minimum_forecast_edge_bps c \<and> 0 < rc_minimum_net_edge_bps c \<and> 0 < rc_safety_margin_bps c
   \<and> fraction (rc_expected_maker_exit_fraction c)
   \<and> 1 \<le> rc_high_volatility_edge_multiplier c \<and> rc_high_volatility_edge_multiplier c \<le> 3
   \<and> 0 < rc_minimum_stop_loss_bps c \<and> 0 < rc_maximum_stop_loss_bps c
   \<and> 0 < rc_stop_atr_multiplier c \<and> rc_stop_atr_multiplier c \<le> 5
   \<and> 0 < rc_minimum_take_profit_bps c \<and> 0 < rc_maximum_take_profit_bps c
   \<and> 1 < rc_minimum_reward_risk_ratio c \<and> rc_minimum_reward_risk_ratio c \<le> 5
   \<and> 0 < rc_break_even_trigger_fraction c \<and> rc_break_even_trigger_fraction c < 1
   \<and> 0 \<le> rc_break_even_lock_fraction c \<and> rc_break_even_lock_fraction c < 1
   \<and> 0 < rc_trailing_trigger_fraction c \<and> rc_trailing_trigger_fraction c < 1
   \<and> 0 < rc_trailing_giveback_fraction c \<and> rc_trailing_giveback_fraction c < 1
   \<and> 0 < rc_reversal_forecast_bps c"

definition reactive_lifecycle_ok :: "reactive_config \<Rightarrow> bool" where
  "reactive_lifecycle_ok c \<longleftrightarrow>
     3 \<le> rc_minimum_confluence_score c \<and> rc_minimum_confluence_score c \<le> 20
   \<and> 0 \<le> rc_high_volatility_confluence_bonus c \<and> rc_high_volatility_confluence_bonus c \<le> 5
   \<and> fraction (rc_minimum_book_imbalance c) \<and> fraction (rc_minimum_trade_flow_imbalance c)
   \<and> 0 \<le> rc_minimum_microprice_edge_bps c \<and> 0 \<le> rc_minimum_intrabar_momentum_bps c
   \<and> 1 \<le> rc_minimum_signal_persistence c \<and> rc_minimum_signal_persistence c \<le> 10
   \<and> ONE_SECOND_NS \<le> rc_confirmation_max_gap_ns c \<and> rc_confirmation_max_gap_ns c \<le> 10 * ONE_SECOND_NS
   \<and> 10 * ONE_SECOND_NS \<le> rc_soft_holding_limit_ns c \<and> 30 * ONE_SECOND_NS \<le> rc_hard_holding_limit_ns c
   \<and> 0 \<le> rc_cooldown_ns c \<and> 0 \<le> rc_minimum_entry_interval_ns c
   \<and> 250000000 \<le> rc_maker_entry_ttl_ns c \<and> rc_maker_entry_ttl_ns c \<le> 15 * ONE_SECOND_NS
   \<and> 250000000 \<le> rc_maker_exit_ttl_ns c \<and> rc_maker_exit_ttl_ns c \<le> 10 * ONE_SECOND_NS
   \<and> 250000000 \<le> rc_maker_exit_cancel_grace_ns c \<and> rc_maker_exit_cancel_grace_ns c \<le> 5 * ONE_SECOND_NS
   \<and> 250000000 \<le> rc_exit_retry_ns c \<and> rc_exit_retry_ns c \<le> 10 * ONE_SECOND_NS
   \<and> 1 \<le> rc_maximum_entry_attempts_per_day c \<and> rc_maximum_entry_attempts_per_day c \<le> 500"

definition reactive_learning_ok :: "reactive_config \<Rightarrow> bool" where
  "reactive_learning_ok c \<longleftrightarrow>
     100000000 \<le> rc_forecast_sample_interval_ns c \<and> rc_forecast_sample_interval_ns c \<le> 10 * ONE_SECOND_NS
   \<and> 100 \<le> rc_forecast_minimum_samples c \<and> rc_forecast_minimum_samples c \<le> 1000000
   \<and> 50 \<le> rc_forecast_recent_window c \<and> rc_forecast_recent_window c \<le> 2048
   \<and> 1 / 2 \<le> rc_forecast_minimum_directional_accuracy c \<and> rc_forecast_minimum_directional_accuracy c \<le> 9 / 10
   \<and> 0 < rc_forecast_maximum_mae_bps c
   \<and> 1 \<le> rc_minimum_quality_horizons c \<and> rc_minimum_quality_horizons c \<le> int MAX_FORECAST_HORIZONS
   \<and> 1 \<le> rc_minimum_aligned_forecasts c \<and> rc_minimum_aligned_forecasts c \<le> int MAX_FORECAST_HORIZONS
   \<and> 0 < rc_forecast_learning_rate c \<and> rc_forecast_learning_rate c \<le> 20 / 100
   \<and> 100 \<le> rc_forecast_learning_rate_decay_samples c
   \<and> 0 \<le> rc_forecast_l2_penalty c \<and> rc_forecast_l2_penalty c \<le> 10 / 100
   \<and> 0 < rc_forecast_huber_delta_bps c \<and> 0 < rc_forecast_prediction_clip_bps c"

definition strictly_increasing :: "int list \<Rightarrow> bool" where
  "strictly_increasing xs \<longleftrightarrow> sort (remdups xs) = xs"

definition validate_policy :: "reactive_config \<Rightarrow> string option" where
  "validate_policy c = first_error
     [(rc_hard_holding_limit_ns c \<le> rc_soft_holding_limit_ns c,
       ''soft holding limit must be below the hard holding limit''),
      (300 * ONE_SECOND_NS < rc_hard_holding_limit_ns c,
       ''reactive scalper hard holding limit cannot exceed five minutes''),
      (rc_maximum_stop_loss_bps c \<le> rc_minimum_stop_loss_bps c,
       ''minimum stop loss must be below maximum stop loss''),
      (rc_maximum_take_profit_bps c \<le> rc_minimum_take_profit_bps c,
       ''minimum take profit must be below maximum take profit''),
      (rc_break_even_trigger_fraction c \<le> rc_break_even_lock_fraction c,
       ''break-even lock must be below its trigger''),
      (rc_trailing_trigger_fraction c \<le> rc_trailing_giveback_fraction c,
       ''trailing giveback must be below its trigger''),
      (rc_forecast_minimum_samples c < rc_forecast_recent_window c,
       ''forecast recent window cannot exceed minimum samples''),
      (rc_forecast_horizons_ns c = [] \<or> MAX_FORECAST_HORIZONS < length (rc_forecast_horizons_ns c),
       ''forecast horizon count is outside the supported bound''),
      (\<not> strictly_increasing (rc_forecast_horizons_ns c),
       ''forecast horizons must be unique and strictly increasing''),
      (hd (rc_forecast_horizons_ns c) < rc_forecast_sample_interval_ns c,
       ''forecast sample interval cannot exceed its shortest horizon''),
      (300 * ONE_SECOND_NS < last (rc_forecast_horizons_ns c), ''forecast horizons cannot exceed five minutes''),
      (int MAX_PENDING_PER_HORIZON * rc_forecast_sample_interval_ns c < last (rc_forecast_horizons_ns c),
       ''forecast pending-label policy exceeds the checkpoint-safe bound''),
      (int (length (rc_forecast_horizons_ns c)) < rc_minimum_quality_horizons c,
       ''minimum quality horizons exceed configured horizons''),
      (rc_minimum_quality_horizons c < rc_minimum_aligned_forecasts c,
       ''aligned forecast requirement exceeds quality horizon requirement'')]"

definition reactive_config_ok :: "reactive_config \<Rightarrow> bool" where
  "reactive_config_ok c \<longleftrightarrow>
     reactive_economics_ok c \<and> reactive_lifecycle_ok c \<and> reactive_learning_ok c \<and> validate_policy c = None"

section \<open>Forecast state\<close>

record pending_forecast =
  pf_observed_ts_ns :: int
  pf_midprice :: dec
  pf_vector :: "dec list"
  pf_predictions_bps :: "dec list"
  pf_resolved_horizons :: nat

definition pending_forecast_ok :: "pending_forecast \<Rightarrow> bool" where
  "pending_forecast_ok p \<longleftrightarrow>
     0 \<le> pf_observed_ts_ns p \<and> 0 < pf_midprice p \<and> length (pf_vector p) = FORECAST_FEATURE_COUNT
   \<and> pf_predictions_bps p \<noteq> [] \<and> length (pf_predictions_bps p) \<le> MAX_FORECAST_HORIZONS
   \<and> pf_resolved_horizons p \<le> length (pf_predictions_bps p)"

record horizon_state =
  hf_horizon_ns :: int
  hf_weights :: "dec list"
  hf_training_samples :: int
  hf_recent_direction_hits :: "bool list"
  hf_recent_absolute_errors_bps :: "dec list"
  hf_latest_prediction_bps :: dec

definition horizon_state_ok :: "horizon_state \<Rightarrow> bool" where
  "horizon_state_ok h \<longleftrightarrow>
     0 < hf_horizon_ns h \<and> length (hf_weights h) = FORECAST_FEATURE_COUNT \<and> 0 \<le> hf_training_samples h
   \<and> length (hf_recent_direction_hits h) \<le> 2048 \<and> list_all (\<lambda>e. 0 \<le> e) (hf_recent_absolute_errors_bps h)
   \<and> length (hf_recent_absolute_errors_bps h) \<le> 2048
   \<and> length (hf_recent_direction_hits h) = length (hf_recent_absolute_errors_bps h)"

definition new_horizon_state :: "int \<Rightarrow> horizon_state" where
  "new_horizon_state horizon =
     \<lparr>hf_horizon_ns = horizon, hf_weights = replicate FORECAST_FEATURE_COUNT 0, hf_training_samples = 0,
      hf_recent_direction_hits = [], hf_recent_absolute_errors_bps = [], hf_latest_prediction_bps = 0\<rparr>"

definition directional_accuracy :: "horizon_state \<Rightarrow> dec" where
  "directional_accuracy h =
     (if hf_recent_direction_hits h = [] then 0
      else ddiv (of_nat (length (filter id (hf_recent_direction_hits h))))
                (of_nat (length (hf_recent_direction_hits h))))"

definition mean_absolute_error_bps :: "horizon_state \<Rightarrow> dec" where
  "mean_absolute_error_bps h =
     (if hf_recent_absolute_errors_bps h = [] then 0
      else ddiv (dsum (hf_recent_absolute_errors_bps h)) (of_nat (length (hf_recent_absolute_errors_bps h))))"

definition horizon_ready :: "reactive_config \<Rightarrow> horizon_state \<Rightarrow> bool" where
  "horizon_ready c h \<longleftrightarrow>
     rc_forecast_minimum_samples c \<le> hf_training_samples h
   \<and> rc_forecast_recent_window c \<le> int (length (hf_recent_direction_hits h))"

definition quality_ready :: "reactive_config \<Rightarrow> horizon_state \<Rightarrow> bool" where
  "quality_ready c h \<longleftrightarrow>
     horizon_ready c h \<and> rc_forecast_minimum_directional_accuracy c \<le> directional_accuracy h
   \<and> mean_absolute_error_bps h \<le> rc_forecast_maximum_mae_bps c"

record forecast_state =
  rf_horizons :: "horizon_state list"
  rf_pending :: "pending_forecast list"
  rf_last_sample_ts_ns :: "int option"

definition new_forecast_state :: forecast_state where
  "new_forecast_state = \<lparr>rf_horizons = [], rf_pending = [], rf_last_sample_ts_ns = None\<rparr>"

definition forecast_state_error :: "forecast_state \<Rightarrow> string option" where
  "forecast_state_error f = first_error
     [(\<not> opt_all (\<lambda>t. 0 \<le> t) (rf_last_sample_ts_ns f), ''last_sample_ts_ns''),
      (MAX_FORECAST_HORIZONS < length (rf_horizons f) \<or> \<not> strictly_increasing (map hf_horizon_ns (rf_horizons f)),
       ''reactive forecast horizons must be bounded, unique, and ordered''),
      (MAX_PENDING_PER_HORIZON < length (rf_pending f),
       ''reactive forecast pending-label buffer exceeds its hard bound''),
      (list_ex (\<lambda>p. length (pf_predictions_bps p) \<noteq> length (rf_horizons f)) (rf_pending f),
       ''pending forecast width does not match the horizon ensemble''),
      (rf_pending f \<noteq> [] \<and> rf_last_sample_ts_ns f \<noteq> Some (pf_observed_ts_ns (last (rf_pending f))),
       ''forecast sample timestamp does not match the pending tail'')]"

definition mk_forecast_state :: "forecast_state \<Rightarrow> forecast_state res" where
  "mk_forecast_state f = (case forecast_state_error f of Some e \<Rightarrow> Inl (ValidationError e) | None \<Rightarrow> Inr f)"

definition quality_horizons :: "reactive_config \<Rightarrow> forecast_state \<Rightarrow> horizon_state list" where
  "quality_horizons c f = filter (quality_ready c) (rf_horizons f)"

text \<open>\<open>statistics.median\<close> of a non-empty list of decimals.\<close>

definition median :: "dec list \<Rightarrow> dec" where
  "median xs =
     (let ys = sort xs; n = length ys
      in if odd n then ys ! (n div 2) else ddiv (dadd (ys ! (n div 2 - 1)) (ys ! (n div 2))) 2)"

definition latest_prediction_bps :: "forecast_state \<Rightarrow> dec" where
  "latest_prediction_bps f =
     (let predictions = map hf_latest_prediction_bps (rf_horizons f)
      in if predictions = [] then 0 else median predictions)"

section \<open>Learning\<close>

definition clip :: "dec \<Rightarrow> dec \<Rightarrow> dec \<Rightarrow> dec" where
  "clip value lower upper = max lower (min upper value)"

definition clip_sym :: "dec \<Rightarrow> dec \<Rightarrow> dec" where
  "clip_sym value bound = clip value (dneg bound) bound"

definition forecast_vector :: "feature_snapshot \<Rightarrow> dec list" where
  "forecast_vector f =
     (let microprice_edge = dmul (ddiv (dsub (fs_microprice f) (fs_midprice f)) (fs_midprice f)) 10000;
          vamp_edge = dmul (ddiv (dsub (fs_vamp f) (fs_midprice f)) (fs_midprice f)) 10000
      in [1, fs_book_imbalance f, fs_queue_imbalance f, fs_depth_imbalance f, fs_trade_flow_imbalance f,
          clip (ddiv (fs_mid_return_bps f) 5) (- 1) 1, clip (ddiv microprice_edge (25 / 100)) (- 1) 1,
          clip (ddiv vamp_edge 2) (- 1) 1])"

definition learning_rate :: "reactive_config \<Rightarrow> horizon_state \<Rightarrow> dec" where
  "learning_rate c h =
     ddiv (rc_forecast_learning_rate c)
       (dadd 1 (ddiv (of_int (hf_training_samples h)) (of_int (rc_forecast_learning_rate_decay_samples c))))"

definition learn_weight :: "reactive_config \<Rightarrow> dec \<Rightarrow> dec \<Rightarrow> dec \<Rightarrow> dec \<Rightarrow> dec" where
  "learn_weight c rate clipped weight value =
     clip_sym (dsub weight (dmul rate (dadd (dmul clipped value) (dmul (rc_forecast_l2_penalty c) weight))))
       (rc_forecast_prediction_clip_bps c)"

definition learn_horizon ::
  "reactive_config \<Rightarrow> horizon_state \<Rightarrow> dec list \<Rightarrow> dec \<Rightarrow> dec \<Rightarrow> horizon_state" where
  "learn_horizon c h vector prediction label =
     (let err = dsub prediction label;
          clipped = clip_sym err (rc_forecast_huber_delta_bps c);
          rate = learning_rate c h;
          window = nat (rc_forecast_recent_window c);
          hit = (0 < prediction \<and> 0 < label) \<or> (prediction < 0 \<and> label < 0)
      in h\<lparr>hf_weights := map2 (learn_weight c rate clipped) (hf_weights h) vector,
           hf_training_samples := hf_training_samples h + 1,
           hf_recent_direction_hits := py_suffix window (hf_recent_direction_hits h @ [hit]),
           hf_recent_absolute_errors_bps := py_suffix window (hf_recent_absolute_errors_bps h @ [dabs err])\<rparr>)"

definition label_bps :: "feature_snapshot \<Rightarrow> pending_forecast \<Rightarrow> dec" where
  "label_bps f p = dmul (ddiv (dsub (fs_midprice f) (pf_midprice p)) (pf_midprice p)) 10000"

text \<open>The inner \<open>while\<close> loop: the states it leaves and the number of resolved horizons.\<close>

function resolve ::
  "reactive_config \<Rightarrow> feature_snapshot \<Rightarrow> pending_forecast \<Rightarrow> horizon_state list \<Rightarrow> nat
     \<Rightarrow> horizon_state list \<times> nat" where
  "resolve c f p states resolved =
     (if resolved < length states
           \<and> hf_horizon_ns (states ! resolved) \<le> fs_receive_ts_ns f - pf_observed_ts_ns p
      then resolve c f p
             (states[resolved := learn_horizon c (states ! resolved) (pf_vector p)
                                   (pf_predictions_bps p ! resolved) (label_bps f p)])
             (Suc resolved)
      else (states, resolved))"
  by pat_completeness auto

termination
  by (relation "measure (\<lambda>(c, f, p, states, resolved). length states - resolved)") auto

declare resolve.simps [simp del]

text \<open>The loop over the pending observations: the states and what stays pending.\<close>

fun resolve_pending ::
  "reactive_config \<Rightarrow> feature_snapshot \<Rightarrow> pending_forecast list \<Rightarrow> horizon_state list
     \<Rightarrow> horizon_state list \<times> pending_forecast list" where
  "resolve_pending c f [] states = (states, [])"
| "resolve_pending c f (p # ps) states =
     (let (states1, resolved) = resolve c f p states (pf_resolved_horizons p);
          (states2, rest) = resolve_pending c f ps states1
      in (states2, (if resolved < length states1 then [p\<lparr>pf_resolved_horizons := resolved\<rparr>] else []) @ rest))"

definition predict :: "reactive_config \<Rightarrow> dec list \<Rightarrow> horizon_state \<Rightarrow> dec" where
  "predict c vector h = clip_sym (dsum (map2 dmul (hf_weights h) vector)) (rc_forecast_prediction_clip_bps c)"

definition should_sample :: "reactive_config \<Rightarrow> feature_snapshot \<Rightarrow> forecast_state \<Rightarrow> bool" where
  "should_sample c f st \<longleftrightarrow>
     opt_all (\<lambda>t. rc_forecast_sample_interval_ns c \<le> fs_receive_ts_ns f - t) (rf_last_sample_ts_ns st)"

definition initial_horizons :: "reactive_config \<Rightarrow> forecast_state \<Rightarrow> horizon_state list" where
  "initial_horizons c st =
     (if rf_horizons st = [] then map new_horizon_state (rc_forecast_horizons_ns c) else rf_horizons st)"

definition update_forecast ::
  "reactive_config \<Rightarrow> feature_snapshot \<Rightarrow> forecast_state \<Rightarrow> forecast_state res" where
  "update_forecast c f st =
     (if \<not> fs_ready f then Inr st
      else guardE (rf_horizons st \<noteq> [] \<and> map hf_horizon_ns (rf_horizons st) \<noteq> rc_forecast_horizons_ns c)
        (ValueError ''reactive forecast checkpoint horizons do not match configuration'')
        (let (states, pending) = resolve_pending c f (rf_pending st) (initial_horizons c st);
             vector = forecast_vector f;
             predictions = map (predict c vector) states;
             states' = map2 (\<lambda>h x. h\<lparr>hf_latest_prediction_bps := x\<rparr>) states predictions;
             sampled = should_sample c f st;
             pending' = (if sampled then pending @
                 [\<lparr>pf_observed_ts_ns = fs_receive_ts_ns f, pf_midprice = fs_midprice f, pf_vector = vector,
                   pf_predictions_bps = predictions, pf_resolved_horizons = 0\<rparr>] else pending);
             last_sample = (if sampled then Some (fs_receive_ts_ns f) else rf_last_sample_ts_ns st)
         in guardE (MAX_PENDING_PER_HORIZON < length pending')
              (ValueError ''reactive forecast could not resolve labels within its hard bound'')
              (mk_forecast_state \<lparr>rf_horizons = states', rf_pending = pending',
                 rf_last_sample_ts_ns = last_sample\<rparr>)))"

section \<open>Resolving pending observations\<close>

lemma learn_horizon_simps [simp]:
  "hf_horizon_ns (learn_horizon c h v x y) = hf_horizon_ns h"
  "hf_training_samples (learn_horizon c h v x y) = hf_training_samples h + 1"
  by (simp_all add: learn_horizon_def Let_def)

lemma clip_sym_bounds:
  assumes "0 < b"
  shows "dneg b \<le> clip_sym x b" "clip_sym x b \<le> b"
proof -
  have "\<not> 0 < dneg b" using assms by (simp add: dneg_pos_iff)
  with assms show "dneg b \<le> clip_sym x b" "clip_sym x b \<le> b" by (auto simp: clip_sym_def clip_def)
qed

text \<open>What every horizon state keeps: its contract, the window, and the range of its weights.\<close>

definition horizon_inv :: "reactive_config \<Rightarrow> horizon_state \<Rightarrow> bool" where
  "horizon_inv c h \<longleftrightarrow>
     horizon_state_ok h \<and> int (length (hf_recent_direction_hits h)) \<le> rc_forecast_recent_window c
   \<and> list_all (\<lambda>w. dneg (rc_forecast_prediction_clip_bps c) \<le> w \<and> w \<le> rc_forecast_prediction_clip_bps c) (hf_weights h)
   \<and> dneg (rc_forecast_prediction_clip_bps c) \<le> hf_latest_prediction_bps h
   \<and> hf_latest_prediction_bps h \<le> rc_forecast_prediction_clip_bps c"

lemma learn_horizon_inv:
  assumes c: "reactive_learning_ok c" and h: "horizon_inv c h" and v: "length v = FORECAST_FEATURE_COUNT"
  shows "horizon_inv c (learn_horizon c h v x y)"
proof -
  let ?w = "nat (rc_forecast_recent_window c)"
  have w: "0 < ?w" "?w \<le> 2048" "int ?w = rc_forecast_recent_window c" "0 < rc_forecast_prediction_clip_bps c"
    using c by (auto simp: reactive_learning_ok_def)
  have "list_all (\<lambda>w. dneg (rc_forecast_prediction_clip_bps c) \<le> w \<and> w \<le> rc_forecast_prediction_clip_bps c)
      (map2 (learn_weight c r e) (hf_weights h) v)" for r e
    using clip_sym_bounds [OF w(4)] by (auto simp: list_all_iff learn_weight_def)
  moreover have "list_all (\<lambda>e. 0 \<le> e) (py_suffix ?w (hf_recent_absolute_errors_bps h @ [dabs e]))" for e
    using h set_py_suffix [of ?w "hf_recent_absolute_errors_bps h @ [dabs e]"]
    by (auto simp: list_all_iff horizon_inv_def horizon_state_ok_def)
  ultimately show ?thesis
    using h v w
    by (auto simp: horizon_inv_def horizon_state_ok_def learn_horizon_def Let_def length_py_suffix min_def)
qed

lemma resolve_keeps:
  "reactive_learning_ok c \<Longrightarrow> length (pf_vector p) = FORECAST_FEATURE_COUNT \<Longrightarrow>
    list_all (horizon_inv c) states \<Longrightarrow> resolve c f p states r = (states', r') \<Longrightarrow>
    list_all (horizon_inv c) states' \<and> map hf_horizon_ns states' = map hf_horizon_ns states"
proof (induction c f p states r arbitrary: states' r' rule: resolve.induct)
  case (1 c f p states r)
  show ?case
  proof (cases "r < length states \<and> hf_horizon_ns (states ! r) \<le> fs_receive_ts_ns f - pf_observed_ts_ns p")
    case True
    let ?h = "learn_horizon c (states ! r) (pf_vector p) (pf_predictions_bps p ! r) (label_bps f p)"
    have "horizon_inv c ?h"
      by (rule learn_horizon_inv) (use True 1(2,3,4) in \<open>auto simp: list_all_length\<close>)
    then have all: "list_all (horizon_inv c) (states[r := ?h])"
      using 1(4) True set_update_subset_insert [of states r ?h] by (auto simp: list_all_iff)
    have "resolve c f p (states[r := ?h]) (Suc r) = (states', r')"
      using 1(5) True by (simp add: resolve.simps [of c f p states r])
    from 1(1) [OF True 1(2,3) all this] show ?thesis
      using True by (simp add: map_update) (metis list_update_id nth_map)
  qed (use 1(4,5) in \<open>auto simp: resolve.simps [of c f p states r]\<close>)
qed

lemma resolve_result:
  "resolve c f p states r = (states', r') \<Longrightarrow>
     r \<le> r' \<and> length states' = length states \<and> (r \<le> length states \<longrightarrow> r' \<le> length states)
   \<and> (\<forall>k < length states. hf_horizon_ns (states' ! k) = hf_horizon_ns (states ! k)
        \<and> hf_training_samples (states' ! k) = hf_training_samples (states ! k) + (if r \<le> k \<and> k < r' then 1 else 0))
   \<and> (\<forall>k. r \<le> k \<and> k < r' \<longrightarrow> hf_horizon_ns (states ! k) \<le> fs_receive_ts_ns f - pf_observed_ts_ns p)
   \<and> (r' < length states \<longrightarrow> fs_receive_ts_ns f - pf_observed_ts_ns p < hf_horizon_ns (states ! r'))"
proof (induction c f p states r arbitrary: states' r' rule: resolve.induct)
  case (1 c f p states r)
  let ?age = "fs_receive_ts_ns f - pf_observed_ts_ns p"
  show ?case
  proof (cases "r < length states \<and> hf_horizon_ns (states ! r) \<le> ?age")
    case True
    let ?ss = "states[r := learn_horizon c (states ! r) (pf_vector p) (pf_predictions_bps p ! r) (label_bps f p)]"
    have h: "hf_horizon_ns (?ss ! k) = hf_horizon_ns (states ! k)" for k
      by (cases "k = r") (use True in simp_all)
    have t: "hf_training_samples (?ss ! k) = hf_training_samples (states ! k) + (if k = r then 1 else 0)" for k
      by (cases "k = r") (use True in simp_all)
    have "resolve c f p ?ss (Suc r) = (states', r')" using 1(2) True by (simp add: resolve.simps [of c f p states r])
    note ih = 1(1) [OF True this, unfolded h t length_list_update]
    from ih True have "Suc r \<le> r'" by blast
    moreover have "hf_horizon_ns (states ! k) \<le> ?age" if "r \<le> k" "k < r'" for k
    proof (cases "k = r")
      case False
      with that have "Suc r \<le> k" by simp
      with that ih show ?thesis by blast
    qed (use True in simp)
    moreover have "hf_training_samples (states' ! k) = hf_training_samples (states ! k) + (if r \<le> k \<and> k < r' then 1 else 0)"
      if "k < length states" for k
    proof -
      have "hf_training_samples (states' ! k)
          = hf_training_samples (states ! k) + (if k = r then 1 else 0) + (if Suc r \<le> k \<and> k < r' then 1 else 0)"
        using ih that by blast
      with \<open>Suc r \<le> r'\<close> show ?thesis by (cases "k = r") (auto simp: Suc_le_eq le_less)
    qed
    ultimately show ?thesis using ih True by (simp add: Suc_le_eq)
  qed (use 1(2) in \<open>auto simp: resolve.simps [of c f p states r]\<close>)
qed

section \<open>The pending buffer\<close>

definition last_horizon :: "reactive_config \<Rightarrow> int" where
  "last_horizon c = last (rc_forecast_horizons_ns c)"

definition observed :: "pending_forecast list \<Rightarrow> int list" where
  "observed = map pf_observed_ts_ns"

lemma reactive_learning_facts:
  assumes "reactive_config_ok c"
  shows "reactive_learning_ok c" "rc_forecast_horizons_ns c \<noteq> []"
    "length (rc_forecast_horizons_ns c) \<le> MAX_FORECAST_HORIZONS"
    "strictly_increasing (rc_forecast_horizons_ns c)"
    "rc_forecast_sample_interval_ns c \<le> hd (rc_forecast_horizons_ns c)"
    "last_horizon c \<le> int MAX_PENDING_PER_HORIZON * rc_forecast_sample_interval_ns c"
    "0 < rc_forecast_sample_interval_ns c"
proof -
  have l: "reactive_learning_ok c" and v: "validate_policy c = None"
    using assms by (simp_all add: reactive_config_ok_def)
  from l show "reactive_learning_ok c" .
  from l show "0 < rc_forecast_sample_interval_ns c" by (simp add: reactive_learning_ok_def)
  from v show "rc_forecast_horizons_ns c \<noteq> []" "length (rc_forecast_horizons_ns c) \<le> MAX_FORECAST_HORIZONS"
    "strictly_increasing (rc_forecast_horizons_ns c)"
    "rc_forecast_sample_interval_ns c \<le> hd (rc_forecast_horizons_ns c)"
    "last_horizon c \<le> int MAX_PENDING_PER_HORIZON * rc_forecast_sample_interval_ns c"
    unfolding validate_policy_def first_error_None_iff last_horizon_def by (simp_all add: not_le not_less)
qed

lemma strictly_increasing_iff: "strictly_increasing xs \<longleftrightarrow> sorted xs \<and> distinct xs"
  unfolding strictly_increasing_def
  by (metis distinct_remdups distinct_sort remdups_id_iff_distinct sorted_sort sorted_sort_id)

lemma strictly_increasing_le_last:
  assumes "strictly_increasing xs" "k < length xs"
  shows "xs ! k \<le> last xs"
proof -
  have "xs \<noteq> []" using assms(2) by auto
  moreover have "xs ! k \<le> xs ! (length xs - 1)"
    by (rule sorted_nth_mono) (use assms in \<open>auto simp: strictly_increasing_iff\<close>)
  ultimately show ?thesis by (simp add: last_conv_nth)
qed

lemma strictly_increasing_hd_le:
  assumes "strictly_increasing xs" "x \<in> set xs"
  shows "hd xs \<le> x"
  using assms by (cases xs) (auto simp: strictly_increasing_iff)

text \<open>An observation is dropped exactly when its last horizon has passed.\<close>

definition width_ok :: "reactive_config \<Rightarrow> pending_forecast \<Rightarrow> bool" where
  "width_ok c p \<longleftrightarrow>
     pending_forecast_ok p \<and> length (pf_predictions_bps p) = length (rc_forecast_horizons_ns c)
   \<and> pf_resolved_horizons p < length (rc_forecast_horizons_ns c)"

lemma resolve_dropped_iff:
  assumes c: "reactive_config_ok c" and w: "width_ok c p"
    and hs: "map hf_horizon_ns states = rc_forecast_horizons_ns c"
    and r: "resolve c f p states (pf_resolved_horizons p) = (states', r')"
  shows "r' < length states \<longleftrightarrow> fs_receive_ts_ns f - pf_observed_ts_ns p < last_horizon c"
proof -
  note inc = reactive_learning_facts(4) [OF c]
  have len: "length states = length (rc_forecast_horizons_ns c)" using arg_cong [OF hs, of length] by simp
  have nth: "hf_horizon_ns (states ! k) = rc_forecast_horizons_ns c ! k" if "k < length states" for k
    using hs that by (metis nth_map)
  note res = resolve_result [OF r]
  have start: "pf_resolved_horizons p < length states" using w len by (simp add: width_ok_def)
  show ?thesis
  proof
    assume l: "r' < length states"
    then have "fs_receive_ts_ns f - pf_observed_ts_ns p < rc_forecast_horizons_ns c ! r'" using res nth by metis
    also have "\<dots> \<le> last_horizon c" unfolding last_horizon_def
      by (rule strictly_increasing_le_last [OF inc]) (use l len in simp)
    finally show "fs_receive_ts_ns f - pf_observed_ts_ns p < last_horizon c" .
  next
    assume young: "fs_receive_ts_ns f - pf_observed_ts_ns p < last_horizon c"
    show "r' < length states"
    proof (rule ccontr)
      assume "\<not> r' < length states"
      then have "r' = length states" using res start by auto
      then have "hf_horizon_ns (states ! (length states - 1)) \<le> fs_receive_ts_ns f - pf_observed_ts_ns p"
        using res start by (metis One_nat_def Suc_pred diff_less less_Suc_eq_le less_nat_zero_code not_gr_zero zero_less_one)
      moreover have "hf_horizon_ns (states ! (length states - 1)) = last_horizon c"
        using nth [of "length states - 1"] start len reactive_learning_facts(2) [OF c]
        by (simp add: last_horizon_def last_conv_nth)
      ultimately show False using young by simp
    qed
  qed
qed

lemma resolve_pending_keeps:
  assumes c: "reactive_config_ok c"
  shows "list_all (width_ok c) ps \<Longrightarrow> list_all (horizon_inv c) states \<Longrightarrow>
    map hf_horizon_ns states = rc_forecast_horizons_ns c \<Longrightarrow>
    resolve_pending c f ps states = (states', ps') \<Longrightarrow>
      list_all (horizon_inv c) states' \<and> map hf_horizon_ns states' = rc_forecast_horizons_ns c
    \<and> list_all (width_ok c) ps'
    \<and> observed ps' = filter (\<lambda>t. fs_receive_ts_ns f - t < last_horizon c) (observed ps)"
proof (induction ps arbitrary: states states' ps')
  case (Cons p ps)
  obtain s1 r1 where r: "resolve c f p states (pf_resolved_horizons p) = (s1, r1)" by fastforce
  obtain s2 ps2 where r2: "resolve_pending c f ps s1 = (s2, ps2)" by fastforce
  have w: "width_ok c p" "list_all (width_ok c) ps" using Cons.prems(1) by auto
  then have v: "length (pf_vector p) = FORECAST_FEATURE_COUNT" by (simp add: width_ok_def pending_forecast_ok_def)
  have k: "list_all (horizon_inv c) s1 \<and> map hf_horizon_ns s1 = rc_forecast_horizons_ns c"
    using resolve_keeps [OF reactive_learning_facts(1) [OF c] v Cons.prems(2) r] Cons.prems(3) by simp
  then have ih: "list_all (horizon_inv c) s2 \<and> map hf_horizon_ns s2 = rc_forecast_horizons_ns c
    \<and> list_all (width_ok c) ps2
    \<and> observed ps2 = filter (\<lambda>t. fs_receive_ts_ns f - t < last_horizon c) (observed ps)"
    using Cons.IH [OF w(2) _ _ r2] by blast
  have len: "length states = length (rc_forecast_horizons_ns c)" "length s1 = length states"
    using arg_cong [OF Cons.prems(3), of length] resolve_result [OF r] by auto
  note drop = resolve_dropped_iff [OF c w(1) Cons.prems(3) r]
  have "states' = s2" "ps' = (if r1 < length s1 then [p\<lparr>pf_resolved_horizons := r1\<rparr>] else []) @ ps2"
    using Cons.prems(4) r r2 by auto
  moreover have "width_ok c (p\<lparr>pf_resolved_horizons := r1\<rparr>)" if "r1 < length s1"
    using w(1) that len by (simp add: width_ok_def pending_forecast_ok_def)
  ultimately show ?case using ih drop len by (auto simp: observed_def)
qed (auto simp: observed_def)

text \<open>Samples are spaced by the sample interval, so few fit into the last horizon.\<close>

definition spaced :: "reactive_config \<Rightarrow> int list \<Rightarrow> bool" where
  "spaced c ts \<longleftrightarrow> sorted_wrt (\<lambda>a b. a + rc_forecast_sample_interval_ns c \<le> b) ts"

lemma spaced_span:
  "spaced c ts \<Longrightarrow> ts \<noteq> [] \<Longrightarrow> hd ts + (int (length ts) - 1) * rc_forecast_sample_interval_ns c \<le> last ts"
proof (induction ts rule: rev_induct)
  case (snoc t ts)
  show ?case
  proof (cases "ts = []")
    case False
    with snoc have "hd ts + (int (length ts) - 1) * rc_forecast_sample_interval_ns c \<le> last ts"
      "last ts + rc_forecast_sample_interval_ns c \<le> t"
      by (auto simp: spaced_def sorted_wrt_append)
    with False show ?thesis by (simp add: algebra_simps)
  qed simp
qed simp

lemma spaced_bounded:
  assumes c: "reactive_config_ok c" and s: "spaced c ts" and young: "ts = [] \<or> last ts - hd ts < last_horizon c"
  shows "length ts \<le> MAX_PENDING_PER_HORIZON"
proof (cases "ts = []")
  case False
  let ?i = "rc_forecast_sample_interval_ns c"
  have i: "0 < ?i" by (rule reactive_learning_facts(7) [OF c])
  have "(int (length ts) - 1) * ?i < int MAX_PENDING_PER_HORIZON * ?i"
    using spaced_span [OF s False] young False reactive_learning_facts(6) [OF c] by linarith
  then have "int (length ts) - 1 < int MAX_PENDING_PER_HORIZON" using i by (simp add: mult_less_cancel_right)
  then show ?thesis by simp
qed simp

lemma spaced_last_filter:
  assumes "spaced c ts" "0 < rc_forecast_sample_interval_ns c" "filter (\<lambda>t. now - t < h) ts \<noteq> []"
  shows "last (filter (\<lambda>t. now - t < h) ts) = last ts"
proof (cases ts rule: rev_cases)
  case (snoc us u)
  obtain t where t: "t \<in> set ts" "now - t < h" using assms(3) by (auto simp: filter_empty_conv)
  have "t \<le> u" using t assms(1,2) snoc by (fastforce simp: spaced_def sorted_wrt_append)
  then show ?thesis using t snoc by simp
qed (use assms in simp)


section \<open>One update\<close>

definition forecast_inv :: "reactive_config \<Rightarrow> forecast_state \<Rightarrow> bool" where
  "forecast_inv c st \<longleftrightarrow>
     (rf_horizons st = [] \<longrightarrow> rf_pending st = [])
   \<and> (rf_horizons st \<noteq> [] \<longrightarrow> map hf_horizon_ns (rf_horizons st) = rc_forecast_horizons_ns c)
   \<and> list_all (horizon_inv c) (rf_horizons st) \<and> list_all (width_ok c) (rf_pending st)
   \<and> spaced c (observed (rf_pending st))
   \<and> (rf_pending st \<noteq> [] \<longrightarrow>
        rf_last_sample_ts_ns st = Some (last (observed (rf_pending st)))
      \<and> last (observed (rf_pending st)) - hd (observed (rf_pending st)) < last_horizon c)
   \<and> opt_all (\<lambda>t. 0 \<le> t) (rf_last_sample_ts_ns st)"

lemma new_horizon_inv: "reactive_config_ok c \<Longrightarrow> 0 < h \<Longrightarrow> horizon_inv c (new_horizon_state h)"
proof -
  assume c: "reactive_config_ok c" and h: "0 < h"
  have l: "reactive_learning_ok c" by (rule reactive_learning_facts [OF c])
  then have b: "0 < rc_forecast_prediction_clip_bps c" by (simp add: reactive_learning_ok_def)
  then have "\<not> 0 < dneg (rc_forecast_prediction_clip_bps c)" by (simp add: dneg_pos_iff)
  with l b h show ?thesis
    by (auto simp: horizon_inv_def horizon_state_ok_def new_horizon_state_def FORECAST_FEATURE_COUNT_def
        reactive_learning_ok_def numeral_eq_Suc)
qed

lemma initial_horizons_inv:
  assumes c: "reactive_config_ok c" and st: "forecast_inv c st"
  shows "list_all (horizon_inv c) (initial_horizons c st)
    \<and> map hf_horizon_ns (initial_horizons c st) = rc_forecast_horizons_ns c"
proof (cases "rf_horizons st = []")
  case True
  have "0 < h" if "h \<in> set (rc_forecast_horizons_ns c)" for h
    using strictly_increasing_hd_le [OF reactive_learning_facts(4) [OF c] that] reactive_learning_facts(5,7) [OF c]
    by simp
  then show ?thesis using True new_horizon_inv [OF c]
    by (auto simp: initial_horizons_def list_all_iff new_horizon_state_def comp_def)
qed (use st in \<open>simp add: forecast_inv_def initial_horizons_def\<close>)

lemma forecast_vector_length [simp]: "length (forecast_vector f) = FORECAST_FEATURE_COUNT"
  by (simp add: forecast_vector_def FORECAST_FEATURE_COUNT_def Let_def)

text \<open>The buffer after an update, as the observation times in it.\<close>

lemma updated_times:
  fixes ts :: "int list"
  assumes c: "reactive_config_ok c" and s: "spaced c ts"
    and last: "ts \<noteq> [] \<longrightarrow> ls = Some (last ts) \<and> last ts - hd ts < last_horizon c"
    and sampled: "sampled \<longleftrightarrow> opt_all (\<lambda>t. rc_forecast_sample_interval_ns c \<le> now - t) ls"
    and us: "us = filter (\<lambda>t. now - t < last_horizon c) ts @ (if sampled then [now] else [])"
    and ls': "ls' = (if sampled then Some now else ls)"
  shows "spaced c us \<and> (us \<noteq> [] \<longrightarrow> ls' = Some (last us) \<and> last us - hd us < last_horizon c)"
proof -
  let ?ks = "filter (\<lambda>t. now - t < last_horizon c) ts"
  have i: "0 < rc_forecast_sample_interval_ns c" by (rule reactive_learning_facts(7) [OF c])
  have ks: "spaced c ?ks" using s by (simp add: spaced_def sorted_wrt_filter)
  have top: "t \<le> last ts" if "t \<in> set ts" for t
    using that s i by (cases ts rule: rev_cases) (auto simp: spaced_def sorted_wrt_append dest!: bspec)
  have low: "hd ts \<le> t" if "t \<in> set ts" for t
    using that s i by (cases ts) (auto simp: spaced_def dest!: bspec)
  have H: "0 < last_horizon c"
    using strictly_increasing_hd_le [OF reactive_learning_facts(4) [OF c], of "last_horizon c"]
      reactive_learning_facts(2,5) [OF c] i by (simp add: last_horizon_def)
  show ?thesis
  proof (cases sampled)
    case True
    have "t + rc_forecast_sample_interval_ns c \<le> now" if "t \<in> set ?ks" for t
    proof -
      have t: "t \<in> set ts" using that by simp
      then have "ls = Some (last ts)" using last by auto
      with sampled True have "rc_forecast_sample_interval_ns c \<le> now - last ts" by simp
      with top [OF t] show ?thesis by simp
    qed
    then have "spaced c us" using ks True us by (simp add: spaced_def sorted_wrt_append)
    moreover have "now - hd us < last_horizon c"
    proof (cases ?ks)
      case (Cons k l)
      then have "k \<in> set ?ks" by simp
      then have "now - k < last_horizon c" by (simp only: set_filter mem_Collect_eq)
      then show ?thesis using us Cons by simp
    qed (use us True H in simp)
    ultimately show ?thesis using us True ls' by simp
  next
    case False
    have "last ?ks - hd ?ks < last_horizon c \<and> ls = Some (last ?ks)" if ne: "?ks \<noteq> []"
    proof -
      have "hd ?ks \<in> set ?ks" using ne by (rule hd_in_set)
      then have "hd ?ks \<in> set ts" by (simp only: set_filter mem_Collect_eq)
      then have h: "hd ts \<le> hd ?ks" by (rule low)
      have "ts \<noteq> []" using ne by auto
      with last have l: "ls = Some (last ts)" "last ts - hd ts < last_horizon c" by auto
      show ?thesis using h l spaced_last_filter [OF s i ne] by simp
    qed
    then show ?thesis using us False ls' ks by simp
  qed
qed

lemma update_forecast_total:
  assumes c: "reactive_config_ok c" and st: "forecast_inv c st" and f: "feature_snapshot_ok f"
  shows "\<exists>st'. update_forecast c f st = Inr st' \<and> forecast_inv c st'"
proof (cases "fs_ready f")
  case True
  obtain states pending where r: "resolve_pending c f (rf_pending st) (initial_horizons c st) = (states, pending)"
    by fastforce
  have p: "list_all (width_ok c) (rf_pending st)" using st by (simp add: forecast_inv_def)
  note k = resolve_pending_keeps [OF c p conjunct1 [OF initial_horizons_inv [OF c st]]
      conjunct2 [OF initial_horizons_inv [OF c st]] r]
  let ?x = "map (predict c (forecast_vector f)) states"
  let ?states = "map2 (\<lambda>h x. h\<lparr>hf_latest_prediction_bps := x\<rparr>) states ?x"
  let ?new = "\<lparr>pf_observed_ts_ns = fs_receive_ts_ns f, pf_midprice = fs_midprice f, pf_vector = forecast_vector f,
                   pf_predictions_bps = ?x, pf_resolved_horizons = 0\<rparr>"
  let ?s = "should_sample c f st"
  let ?pending = "if ?s then pending @ [?new] else pending"
  let ?ls = "if ?s then Some (fs_receive_ts_ns f) else rf_last_sample_ts_ns st"
  let ?st = "\<lparr>rf_horizons = ?states, rf_pending = ?pending, rf_last_sample_ts_ns = ?ls\<rparr>"
  have f0: "0 \<le> fs_receive_ts_ns f" "0 < fs_midprice f" using f by (auto simp: feature_snapshot_ok_iff)
  have map2: "?states = map (\<lambda>h. h\<lparr>hf_latest_prediction_bps := predict c (forecast_vector f) h\<rparr>) states"
    by (induction states) auto
  have hs: "map hf_horizon_ns ?states = rc_forecast_horizons_ns c" using k unfolding map2 by (simp add: comp_def)
  have len: "length states = length (rc_forecast_horizons_ns c)" using k by (metis length_map)
  note facts = reactive_learning_facts [OF c]
  have b: "0 < rc_forecast_prediction_clip_bps c" using facts(1) by (simp add: reactive_learning_ok_def)
  have hinv: "list_all (horizon_inv c) ?states"
    using k clip_sym_bounds [OF b] unfolding map2
    by (auto simp: list_all_iff horizon_inv_def horizon_state_ok_def predict_def)
  have w: "list_all (width_ok c) ?pending"
    using k f0 facts(2,3) len by (auto simp: width_ok_def pending_forecast_ok_def)
  have obs: "observed ?pending = filter (\<lambda>t. fs_receive_ts_ns f - t < last_horizon c) (observed (rf_pending st))
      @ (if ?s then [fs_receive_ts_ns f] else [])"
    using k by (simp add: observed_def)
  have times: "spaced c (observed ?pending)
    \<and> (observed ?pending \<noteq> [] \<longrightarrow> ?ls = Some (last (observed ?pending)) \<and> last (observed ?pending) - hd (observed ?pending) < last_horizon c)"
    by (rule updated_times [OF c _ _ _ obs]) (use st in \<open>auto simp: forecast_inv_def should_sample_def observed_def\<close>)
  have bound: "length ?pending \<le> MAX_PENDING_PER_HORIZON"
    using spaced_bounded [OF c, of "observed ?pending"] times by (auto simp: observed_def)
  have ls: "opt_all (\<lambda>t. 0 \<le> t) ?ls" using st f0 by (simp add: forecast_inv_def)
  have hne: "?states \<noteq> []" using hs facts(2) by auto
  have inv: "forecast_inv c ?st" using hs hinv w times ls hne unfolding forecast_inv_def
    by (auto simp: observed_def)
  have "forecast_state_error ?st = None"
    unfolding forecast_state_error_def first_error_None_iff
    using ls bound times w hs facts(3,4) len
    by (auto simp: observed_def last_map list_ex_iff list_all_iff width_ok_def)
  then have "update_forecast c f st = Inr ?st"
    using True bound st r unfolding update_forecast_def
    by (auto simp: Let_def guardE_def mk_forecast_state_def forecast_inv_def)
  with inv show ?thesis by blast
qed (use st in \<open>simp add: update_forecast_def\<close>)


section \<open>Every sample trains every horizon once\<close>

definition unresolved :: "nat \<Rightarrow> pending_forecast list \<Rightarrow> int" where
  "unresolved k ps = int (length (filter (\<lambda>p. pf_resolved_horizons p \<le> k) ps))"

text \<open>The samples a horizon has been trained on, or will be when the pending ones resolve.\<close>

definition accounted :: "reactive_config \<Rightarrow> nat \<Rightarrow> forecast_state \<Rightarrow> int" where
  "accounted c k st = hf_training_samples (initial_horizons c st ! k) + unresolved k (rf_pending st)"

lemma resolve_pending_accounts:
  assumes c: "reactive_config_ok c" and k: "k < length (rc_forecast_horizons_ns c)"
  shows "list_all (width_ok c) ps \<Longrightarrow> list_all (horizon_inv c) states \<Longrightarrow>
    map hf_horizon_ns states = rc_forecast_horizons_ns c \<Longrightarrow>
    resolve_pending c f ps states = (states', ps') \<Longrightarrow>
      hf_training_samples (states' ! k) + unresolved k ps' = hf_training_samples (states ! k) + unresolved k ps"
proof (induction ps arbitrary: states states' ps')
  case (Cons p ps)
  obtain s1 r1 where r: "resolve c f p states (pf_resolved_horizons p) = (s1, r1)" by fastforce
  obtain s2 ps2 where r2: "resolve_pending c f ps s1 = (s2, ps2)" by fastforce
  have w: "width_ok c p" "list_all (width_ok c) ps" using Cons.prems(1) by auto
  then have v: "length (pf_vector p) = FORECAST_FEATURE_COUNT" by (simp add: width_ok_def pending_forecast_ok_def)
  have keep: "list_all (horizon_inv c) s1 \<and> map hf_horizon_ns s1 = rc_forecast_horizons_ns c"
    using resolve_keeps [OF reactive_learning_facts(1) [OF c] v Cons.prems(2) r] Cons.prems(3) by simp
  then have ih: "hf_training_samples (s2 ! k) + unresolved k ps2 = hf_training_samples (s1 ! k) + unresolved k ps"
    using Cons.IH [OF w(2) _ _ r2] by blast
  have len: "length states = length (rc_forecast_horizons_ns c)" using arg_cong [OF Cons.prems(3), of length] by simp
  note res = resolve_result [OF r]
  have "hf_training_samples (s1 ! k) = hf_training_samples (states ! k)
      + (if pf_resolved_horizons p \<le> k \<and> k < r1 then 1 else 0)"
    using res k len by simp
  moreover have "pf_resolved_horizons p \<le> r1" "length s1 = length states" using res by auto
  moreover have "states' = s2" "ps' = (if r1 < length s1 then [p\<lparr>pf_resolved_horizons := r1\<rparr>] else []) @ ps2"
    using Cons.prems(4) r r2 by auto
  ultimately show ?case using ih k len by (auto simp: unresolved_def)
qed (auto simp: unresolved_def)

lemma update_forecast_accounts:
  assumes c: "reactive_config_ok c" and st: "forecast_inv c st" and ready: "fs_ready f"
    and k: "k < length (rc_forecast_horizons_ns c)" and u: "update_forecast c f st = Inr st'"
  shows "accounted c k st' = accounted c k st + (if should_sample c f st then 1 else 0)"
proof -
  obtain states pending where r: "resolve_pending c f (rf_pending st) (initial_horizons c st) = (states, pending)"
    by fastforce
  have p: "list_all (width_ok c) (rf_pending st)" using st by (simp add: forecast_inv_def)
  note i = initial_horizons_inv [OF c st]
  note acc = resolve_pending_accounts [OF c k p conjunct1 [OF i] conjunct2 [OF i] r]
  have "map hf_horizon_ns states = rc_forecast_horizons_ns c"
    using resolve_pending_keeps [OF c p conjunct1 [OF i] conjunct2 [OF i] r] by blast
  then have len: "length states = length (rc_forecast_horizons_ns c)" by (metis length_map)
  let ?x = "map (predict c (forecast_vector f)) states"
  let ?states = "map2 (\<lambda>h x. h\<lparr>hf_latest_prediction_bps := x\<rparr>) states ?x"
  have st': "rf_horizons st' = ?states" "rf_pending st' = (if should_sample c f st then pending @
      [\<lparr>pf_observed_ts_ns = fs_receive_ts_ns f, pf_midprice = fs_midprice f, pf_vector = forecast_vector f,
        pf_predictions_bps = ?x, pf_resolved_horizons = 0\<rparr>] else pending)"
    using u ready r
    by (auto simp: update_forecast_def Let_def guardE_def mk_forecast_state_def split: if_splits option.splits)
  have "?states \<noteq> []" using len k by auto
  then have "initial_horizons c st' ! k = (states ! k)\<lparr>hf_latest_prediction_bps := ?x ! k\<rparr>"
    using st'(1) len k by (simp add: initial_horizons_def)
  then show ?thesis using acc st'(2) by (simp add: accounted_def unresolved_def)
qed

section \<open>Properties\<close>

text \<open>Successive updates of the learner, as the kernel threads them through its memory.\<close>

fun forecast_run :: "reactive_config \<Rightarrow> forecast_state \<Rightarrow> feature_snapshot list \<Rightarrow> forecast_state res" where
  "forecast_run c st [] = Inr st"
| "forecast_run c st (f # fs) = bindE (update_forecast c f st) (\<lambda>st'. forecast_run c st' fs)"

lemma forecast_run_inv:
  "reactive_config_ok c \<Longrightarrow> forecast_inv c st \<Longrightarrow> list_all feature_snapshot_ok fs \<Longrightarrow>
     \<exists>st'. forecast_run c st fs = Inr st' \<and> forecast_inv c st'"
proof (induction fs arbitrary: st)
  case (Cons f fs)
  then have f: "feature_snapshot_ok f" "list_all feature_snapshot_ok fs" by auto
  obtain st1 where "update_forecast c f st = Inr st1" "forecast_inv c st1"
    using update_forecast_total [OF Cons.prems(1,2) f(1)] by blast
  with Cons.IH [OF Cons.prems(1) _ f(2)] show ?case by simp
qed simp

lemma forecast_run_accounts:
  "reactive_config_ok c \<Longrightarrow> forecast_inv c st \<Longrightarrow> list_all feature_snapshot_ok fs \<Longrightarrow>
     j < length (rc_forecast_horizons_ns c) \<Longrightarrow> k < length (rc_forecast_horizons_ns c) \<Longrightarrow>
     forecast_run c st fs = Inr st' \<Longrightarrow>
     accounted c j st' - accounted c j st = accounted c k st' - accounted c k st"
proof (induction fs arbitrary: st)
  case (Cons f fs)
  then have f: "feature_snapshot_ok f" "list_all feature_snapshot_ok fs" by auto
  obtain st1 where u: "update_forecast c f st = Inr st1" "forecast_inv c st1"
    using update_forecast_total [OF Cons.prems(1,2) f(1)] by blast
  have "accounted c i st1 - accounted c i st = (if fs_ready f \<and> should_sample c f st then 1 else 0)"
    if "i < length (rc_forecast_horizons_ns c)" for i
  proof (cases "fs_ready f")
    case True
    from update_forecast_accounts [OF Cons.prems(1,2) True that u(1)] True show ?thesis by simp
  qed (use u in \<open>simp add: update_forecast_def\<close>)
  from this [OF Cons.prems(4)] this [OF Cons.prems(5)]
    Cons.IH [OF Cons.prems(1) u(2) f(2) Cons.prems(4,5)] Cons.prems(6) u(1)
  show ?case by simp
qed simp

lemma new_forecast_inv [simp]: "forecast_inv c new_forecast_state"
  by (simp add: forecast_inv_def new_forecast_state_def spaced_def observed_def)

text \<open>A concrete run: a calm book, and the same book 31 seconds later.\<close>

definition later_features :: feature_snapshot where
  "later_features = calm_features\<lparr>fs_receive_ts_ns := 31000001000, fs_computed_ts_ns := 31000001000,
     fs_midprice := 60010, fs_best_ask := 60020\<rparr>"

lemma default_reactive_config_ok: "reactive_config_ok default_reactive_config"
  by code_simp

lemma calm_run_ok: "list_all feature_snapshot_ok [calm_features, later_features]"
  by code_simp

text \<open>C35: The online learner never fails and stays bounded: under a valid policy and from the empty state, every
  sequence of valid feature snapshots is processed without an exception, in any order of their
  times; the hard bound of 512 pending labels is never exceeded, the diagnostic windows stay within
  the configured window, and every weight and prediction stays within the clip.\<close>
theorem forecast_total_and_bounded:
  assumes c: "reactive_config_ok c" and fs: "list_all feature_snapshot_ok fs"
  shows "\<exists>st. forecast_run c new_forecast_state fs = Inr st
    \<and> length (rf_pending st) \<le> MAX_PENDING_PER_HORIZON
    \<and> (\<forall>h \<in> set (rf_horizons st). horizon_state_ok h
        \<and> int (length (hf_recent_direction_hits h)) \<le> rc_forecast_recent_window c
        \<and> (\<forall>w \<in> insert (hf_latest_prediction_bps h) (set (hf_weights h)).
             dneg (rc_forecast_prediction_clip_bps c) \<le> w \<and> w \<le> rc_forecast_prediction_clip_bps c))"
proof -
  obtain st where st: "forecast_run c new_forecast_state fs = Inr st" "forecast_inv c st"
    using forecast_run_inv [OF c new_forecast_inv fs] by blast
  have "length (rf_pending st) \<le> MAX_PENDING_PER_HORIZON"
    using spaced_bounded [OF c, of "observed (rf_pending st)"] st(2) by (auto simp: forecast_inv_def observed_def)
  with st show ?thesis by (auto simp: forecast_inv_def list_all_iff horizon_inv_def)
qed

lemma forecast_total_and_bounded_witness:
  "\<exists>st. forecast_run default_reactive_config new_forecast_state [calm_features, later_features] = Inr st
     \<and> length (rf_pending st) \<le> 512"
  using forecast_total_and_bounded [OF default_reactive_config_ok calm_run_ok]
  by (auto simp: MAX_PENDING_PER_HORIZON_def)

text \<open>No label is lost or counted twice: an update that sees ready features adds exactly one to each horizon's samples
  (trained on, or still pending for it) when it samples and nothing otherwise, and in every run the horizons
  agree on the number of samples; an observation leaves the buffer exactly when its last horizon has passed.\<close>
theorem forecast_trains_each_sample_once:
  assumes c: "reactive_config_ok c" and fs: "list_all feature_snapshot_ok fs" and f: "fs_ready f"
    and r: "forecast_run c new_forecast_state fs = Inr st"
    and u: "update_forecast c f st = Inr st'"
    and jk: "j < length (rc_forecast_horizons_ns c)" "k < length (rc_forecast_horizons_ns c)"
  shows "accounted c k st' = accounted c k st + (if should_sample c f st then 1 else 0)
    \<and> accounted c j st = accounted c k st
    \<and> observed (rf_pending st') =
        filter (\<lambda>t. fs_receive_ts_ns f - t < last_horizon c) (observed (rf_pending st))
        @ (if should_sample c f st then [fs_receive_ts_ns f] else [])"
proof -
  have st: "forecast_inv c st" using forecast_run_inv [OF c new_forecast_inv fs] r by auto
  have z: "accounted c i new_forecast_state = 0" if "i < length (rc_forecast_horizons_ns c)" for i
    using that by (simp add: accounted_def unresolved_def new_forecast_state_def initial_horizons_def new_horizon_state_def)
  obtain states pending where rp: "resolve_pending c f (rf_pending st) (initial_horizons c st) = (states, pending)"
    by fastforce
  have p: "list_all (width_ok c) (rf_pending st)" using st by (simp add: forecast_inv_def)
  note i = initial_horizons_inv [OF c st]
  have "observed pending = filter (\<lambda>t. fs_receive_ts_ns f - t < last_horizon c) (observed (rf_pending st))"
    using resolve_pending_keeps [OF c p conjunct1 [OF i] conjunct2 [OF i] rp] by blast
  then have "observed (rf_pending st') = filter (\<lambda>t. fs_receive_ts_ns f - t < last_horizon c) (observed (rf_pending st))
      @ (if should_sample c f st then [fs_receive_ts_ns f] else [])"
    using u f rp
    by (auto simp: observed_def update_forecast_def Let_def guardE_def mk_forecast_state_def split: if_splits option.splits)
  then show ?thesis
    using update_forecast_accounts [OF c st f jk(2) u] forecast_run_accounts [OF c new_forecast_inv fs jk r] z jk
    by simp
qed


lemma forecast_trains_each_sample_once_witness:
  "(let c = default_reactive_config; st = projr (forecast_run c new_forecast_state [calm_features]);
        st' = projr (update_forecast c later_features st)
    in accounted c 0 st' = accounted c 0 st + 1 \<and> accounted c 0 st = accounted c 3 st)"
proof -
  let ?c = default_reactive_config
  let ?r = "forecast_run ?c new_forecast_state [calm_features]"
  let ?u = "update_forecast ?c later_features (projr ?r)"
  have fs: "list_all feature_snapshot_ok [calm_features]" using calm_run_ok by simp
  obtain st where st: "?r = Inr st" "forecast_inv ?c st"
    using forecast_run_inv [OF default_reactive_config_ok new_forecast_inv fs] by blast
  have "feature_snapshot_ok later_features" using calm_run_ok by simp
  from update_forecast_total [OF default_reactive_config_ok st(2) this]
  have r: "?r = Inr (projr ?r)" "?u = Inr (projr ?u)" using st(1) by auto
  have len: "(0 :: nat) < length (rc_forecast_horizons_ns ?c)" "3 < length (rc_forecast_horizons_ns ?c)" by code_simp+
  have ready: "fs_ready later_features" by code_simp
  have "rf_last_sample_ts_ns (projr ?r) = Some 1000" by code_simp
  then have s: "should_sample ?c later_features (projr ?r)"
    by (simp add: should_sample_def later_features_def default_reactive_config_def ONE_SECOND_NS_def)
  from forecast_trains_each_sample_once [OF default_reactive_config_ok fs ready r len(2,1)] s
  show ?thesis by (simp add: Let_def)
qed

end
