(* ===== verification/Reactive_Scalper.thy ===== *)
theory Reactive_Scalper
  imports Reactive_Forecast
begin

text \<open>
  The reactive scalper of \<open>strategies/reactive_scalper.py\<close>: its memory, the synchronization
  with the confirmed position, and the decision in its three phases (evaluate an entry, watch a
  resting entry, manage a position). One definition per method; a chain of early returns
  is a chain of conditionals in the same order. \<open>model_copy\<close> does not validate, so
  the coupled-state contract of the memory is a theorem here and not a check.
\<close>

section \<open>Memory\<close>

record reactive_memory =
  rm_inventory_base :: dec
  rm_average_entry_price :: "dec option"
  rm_position_opened_ts_ns :: "int option"
  rm_last_flat_ts_ns :: "int option"
  rm_last_order_ts_ns :: "int option"
  rm_last_entry_attempt_ts_ns :: "int option"
  rm_pending_entry_intent_id :: "string option"
  rm_pending_entry_created_ts_ns :: "int option"
  rm_pending_entry_side :: "order_side option"
  rm_pending_exit_intent_id :: "string option"
  rm_pending_exit_created_ts_ns :: "int option"
  rm_pending_exit_cancel_ts_ns :: "int option"
  rm_pending_exit_action :: "strategy_action option"
  rm_pending_exit_reason :: "string option"
  rm_confirmation_side :: "order_side option"
  rm_confirmation_count :: int
  rm_last_confirmation_ts_ns :: "int option"
  rm_planned_stop_loss_bps :: "dec option"
  rm_planned_take_profit_bps :: "dec option"
  rm_active_stop_loss_bps :: "dec option"
  rm_active_take_profit_bps :: "dec option"
  rm_peak_favorable_bps :: dec
  rm_entry_attempt_day :: "int option"
  rm_entry_attempts_today :: int
  rm_order_revision :: int
  rm_forecast :: forecast_state

definition new_reactive_memory :: reactive_memory where
  "new_reactive_memory =
     \<lparr>rm_inventory_base = 0, rm_average_entry_price = None, rm_position_opened_ts_ns = None,
      rm_last_flat_ts_ns = None, rm_last_order_ts_ns = None, rm_last_entry_attempt_ts_ns = None,
      rm_pending_entry_intent_id = None, rm_pending_entry_created_ts_ns = None, rm_pending_entry_side = None,
      rm_pending_exit_intent_id = None, rm_pending_exit_created_ts_ns = None, rm_pending_exit_cancel_ts_ns = None,
      rm_pending_exit_action = None, rm_pending_exit_reason = None, rm_confirmation_side = None,
      rm_confirmation_count = 0, rm_last_confirmation_ts_ns = None, rm_planned_stop_loss_bps = None,
      rm_planned_take_profit_bps = None, rm_active_stop_loss_bps = None, rm_active_take_profit_bps = None,
      rm_peak_favorable_bps = 0, rm_entry_attempt_day = None, rm_entry_attempts_today = 0,
      rm_order_revision = 0, rm_forecast = new_forecast_state\<rparr>"

text \<open>\<open>validate_coupled_state\<close>\<close>

definition validate_coupled_state :: "reactive_memory \<Rightarrow> string option" where
  "validate_coupled_state m = first_error
     [(rm_pending_entry_intent_id m = None
         \<and> (rm_pending_entry_created_ts_ns m \<noteq> None \<or> rm_pending_entry_side m \<noteq> None),
       ''pending entry metadata requires an intent identity''),
      (rm_pending_entry_intent_id m \<noteq> None
         \<and> (rm_pending_entry_created_ts_ns m = None \<or> rm_pending_entry_side m = None),
       ''pending entry identity requires complete metadata''),
      (rm_pending_exit_intent_id m = None
         \<and> (rm_pending_exit_created_ts_ns m \<noteq> None \<or> rm_pending_exit_action m \<noteq> None \<or> rm_pending_exit_reason m \<noteq> None),
       ''pending exit metadata requires an intent identity''),
      (rm_pending_exit_intent_id m \<noteq> None
         \<and> (rm_pending_exit_created_ts_ns m = None \<or> rm_pending_exit_action m = None \<or> rm_pending_exit_reason m = None),
       ''pending exit identity requires complete metadata''),
      (rm_pending_exit_cancel_ts_ns m \<noteq> None \<and> rm_pending_exit_intent_id m = None,
       ''exit cancel timestamp requires a pending exit''),
      (rm_confirmation_side m = None \<and> (rm_confirmation_count m \<noteq> 0 \<or> rm_last_confirmation_ts_ns m \<noteq> None),
       ''confirmation counters require a side''),
      (rm_confirmation_side m \<noteq> None \<and> (rm_confirmation_count m = 0 \<or> rm_last_confirmation_ts_ns m = None),
       ''confirmation side requires counters and timestamp'')]"

definition clear_pending_exit :: "reactive_memory \<Rightarrow> reactive_memory" where
  "clear_pending_exit m =
     m\<lparr>rm_pending_exit_intent_id := None, rm_pending_exit_created_ts_ns := None,
       rm_pending_exit_cancel_ts_ns := None, rm_pending_exit_action := None, rm_pending_exit_reason := None\<rparr>"

definition clear_pending_entry :: "reactive_memory \<Rightarrow> reactive_memory" where
  "clear_pending_entry m =
     m\<lparr>rm_pending_entry_intent_id := None, rm_pending_entry_created_ts_ns := None, rm_pending_entry_side := None\<rparr>"

definition synchronize_position ::
  "dec \<Rightarrow> dec option \<Rightarrow> int \<Rightarrow> reactive_memory \<Rightarrow> reactive_memory res" where
  "synchronize_position inventory average now m =
     (if inventory = 0
      then Inr ((clear_pending_exit m)
        \<lparr>rm_inventory_base := 0, rm_average_entry_price := None, rm_position_opened_ts_ns := None,
         rm_last_flat_ts_ns := (if rm_inventory_base m \<noteq> 0 then Some now else rm_last_flat_ts_ns m),
         rm_active_stop_loss_bps := None, rm_active_take_profit_bps := None, rm_peak_favorable_bps := 0\<rparr>)
      else
        (case average of
           None \<Rightarrow> Inl (ValueError ''non-flat reactive inventory requires an average entry price'')
         | Some price \<Rightarrow>
             guardE (price \<le> 0) (ValueError ''non-flat reactive inventory requires an average entry price'')
             (let newly_opened = (rm_inventory_base m = 0 \<or> rm_position_opened_ts_ns m = None)
              in Inr ((clear_pending_entry m)
                \<lparr>rm_inventory_base := inventory, rm_average_entry_price := Some price,
                 rm_position_opened_ts_ns := (if newly_opened then Some now else rm_position_opened_ts_ns m),
                 rm_active_stop_loss_bps :=
                   (if newly_opened then rm_planned_stop_loss_bps m else rm_active_stop_loss_bps m),
                 rm_active_take_profit_bps :=
                   (if newly_opened then rm_planned_take_profit_bps m else rm_active_take_profit_bps m)\<rparr>))))"

section \<open>Shared steps\<close>

definition direction_sign :: "bool \<Rightarrow> dec" where
  "direction_sign long = (if long then 1 else - 1)"

text \<open>\<open>_transition\<close>: a decision without orders.\<close>

definition rs_transition ::
  "reactive_memory \<Rightarrow> strategy_action \<Rightarrow> string \<Rightarrow> dec \<Rightarrow> dec \<Rightarrow> int \<Rightarrow> (reactive_memory \<times> kernel_decision) res" where
  "rs_transition m action reason expected required confluence =
     bindE (mk_kernel_decision (no_decision\<lparr>kd_action := action, kd_reason := reason,
              kd_expected_edge_bps := expected, kd_required_edge_bps := required,
              kd_confluence_score := confluence\<rparr>))
       (\<lambda>d. Inr (m, d))"

definition reset_confirmation :: "reactive_memory \<Rightarrow> reactive_memory" where
  "reset_confirmation m =
     m\<lparr>rm_confirmation_side := None, rm_confirmation_count := 0, rm_last_confirmation_ts_ns := None\<rparr>"

definition rs_blocked ::
  "reactive_memory \<Rightarrow> strategy_action \<Rightarrow> string \<Rightarrow> dec \<Rightarrow> dec \<Rightarrow> int \<Rightarrow> (reactive_memory \<times> kernel_decision) res" where
  "rs_blocked m action reason expected required confluence =
     rs_transition (reset_confirmation m) action reason expected required confluence"

definition confirm :: "reactive_config \<Rightarrow> reactive_memory \<Rightarrow> order_side \<Rightarrow> int \<Rightarrow> reactive_memory" where
  "confirm c m side now =
     (let continuous = (rm_confirmation_side m = Some side
            \<and> (case rm_last_confirmation_ts_ns m of None \<Rightarrow> False
               | Some t \<Rightarrow> now - t \<le> rc_confirmation_max_gap_ns c));
          count = (if continuous then rm_confirmation_count m + 1 else 1)
      in m\<lparr>rm_confirmation_side := Some side,
           rm_confirmation_count := min count (rc_minimum_signal_persistence c),
           rm_last_confirmation_ts_ns := Some now\<rparr>)"

definition required_edge :: "reactive_config \<Rightarrow> strategy_input \<Rightarrow> dec" where
  "required_edge c s =
     (let taker_share = dsub 1 (rc_expected_maker_exit_fraction c);
          exit_fee = dadd (dmul (rc_expected_maker_exit_fraction c) (si_estimated_maker_fee_bps s))
                          (dmul taker_share (si_estimated_taker_fee_bps s));
          exit_slippage = dmul taker_share (si_estimated_slippage_bps s);
          required = dadd (dadd (dadd (dadd (si_estimated_maker_fee_bps s) exit_fee) exit_slippage)
                       (rc_safety_margin_bps c)) (rc_minimum_net_edge_bps c)
      in if fs_volatility_regime (si_features s) = HIGH_VOLATILITY
         then dmul required (rc_high_volatility_edge_multiplier c) else required)"

definition planned_stop_bps :: "reactive_config \<Rightarrow> feature_snapshot \<Rightarrow> dec" where
  "planned_stop_bps c f =
     clip (dmul (fs_atr_bps f) (rc_stop_atr_multiplier c)) (rc_minimum_stop_loss_bps c) (rc_maximum_stop_loss_bps c)"

definition planned_target_bps :: "reactive_config \<Rightarrow> feature_snapshot \<Rightarrow> dec" where
  "planned_target_bps c f =
     clip (max (rc_minimum_take_profit_bps c) (dmul (planned_stop_bps c f) (rc_minimum_reward_risk_ratio c)))
       (rc_minimum_take_profit_bps c) (rc_maximum_take_profit_bps c)"

text \<open>\<open>_exit_prices\<close> with the stop already a signed threshold: the stop price and the target price.\<close>

definition exit_price :: "dec \<Rightarrow> bool \<Rightarrow> dec \<Rightarrow> dec" where
  "exit_price entry long bps = dmul entry (dadd 1 (ddiv (dmul (direction_sign long) bps) 10000))"

section \<open>Entries\<close>

definition high_volatility :: "strategy_input \<Rightarrow> bool" where
  "high_volatility s \<longleftrightarrow> fs_volatility_regime (si_features s) = HIGH_VOLATILITY"

definition attempts_today :: "strategy_input \<Rightarrow> reactive_memory \<Rightarrow> int" where
  "attempts_today s m =
     (if rm_entry_attempt_day m = Some (fs_receive_ts_ns (si_features s) div ONE_DAY_NS)
      then rm_entry_attempts_today m else 0)"

text \<open>The gates before the market structure is read: model quality, spread, cooldown, pace, daily cap.\<close>

definition entry_gate :: "reactive_config \<Rightarrow> strategy_input \<Rightarrow> reactive_memory
     \<Rightarrow> (strategy_action \<times> string \<times> dec) option" where
  "entry_gate c s m =
     (let f = si_features s;
          ready = filter (horizon_ready c) (rf_horizons (rm_forecast m));
          quality = quality_horizons c (rm_forecast m);
          latest = dabs (latest_prediction_bps (rm_forecast m));
          needed = rc_minimum_quality_horizons c
      in if int (length ready) < needed then Some (WARMUP, ''causal_multi_horizon_forecast_warming'', latest)
         else if int (length quality) < needed
         then Some (BLOCKED_MODEL,
                (if int (length (filter (\<lambda>h. rc_forecast_minimum_directional_accuracy c \<le> directional_accuracy h) ready))
                      < needed
                 then ''forecast_directional_accuracy_below_gate'' else ''forecast_error_above_gate''), latest)
         else if rc_maximum_spread_bps c < fs_spread_bps f
         then Some (BLOCKED_SPREAD, ''spread_above_maker_entry_limit'', 0)
         else if \<not> opt_all (\<lambda>t. rc_cooldown_ns c \<le> fs_receive_ts_ns f - t) (rm_last_flat_ts_ns m)
         then Some (BLOCKED_COOLDOWN, ''post_exit_cooldown'', 0)
         else if \<not> opt_all (\<lambda>t. rc_minimum_entry_interval_ns c \<le> fs_receive_ts_ns f - t) (rm_last_entry_attempt_ts_ns m)
         then Some (BLOCKED_COOLDOWN, ''entry_attempt_interval_active'', 0)
         else None)"

text \<open>The structural and order-flow confluence: a reason to block, with the points reported.\<close>

definition confluence_block :: "reactive_config \<Rightarrow> strategy_input \<Rightarrow> smart_money_snapshot
     \<Rightarrow> (string \<times> int) option" where
  "confluence_block c s st =
     (let f = si_features s;
          bias = ts_direction (sm_fifteen_minute st);
          bullish = (bias = BULLISH);
          sign = direction_sign bullish;
          points = (if bullish then sm_long_confluence st else sm_short_confluence st);
          points_required = rc_minimum_confluence_score c
            + (if high_volatility s then rc_high_volatility_confluence_bonus c else 0);
          one = sm_one_minute st;
          closed_trigger = (if bullish then ts_bullish_sweep one \<or> ts_bullish_choch one \<or> ts_bullish_bos one
                            else ts_bearish_sweep one \<or> ts_bearish_choch one \<or> ts_bearish_bos one);
          momentum_trigger = (ts_direction one = bias
            \<and> rc_minimum_intrabar_momentum_bps c \<le> dmul sign (fs_mid_return_bps f));
          microprice_edge = dmul (ddiv (dmul sign (dsub (fs_microprice f) (fs_midprice f))) (fs_midprice f)) 10000
      in if bias = NEUTRAL then Some (''15m_direction_neutral'', 0)
         else if ts_direction (sm_five_minute st) \<noteq> bias then Some (''5m_direction_not_aligned'', 0)
         else if points < points_required then Some (''multi_timeframe_confluence_below_threshold'', points)
         else if \<not> closed_trigger \<and> \<not> momentum_trigger then Some (''intrabar_structure_trigger_absent'', points)
         else if dmul sign (fs_book_imbalance f) < rc_minimum_book_imbalance c
         then Some (''book_imbalance_not_aligned'', points)
         else if dmul sign (fs_trade_flow_imbalance f) < rc_minimum_trade_flow_imbalance c
         then Some (''trade_flow_not_aligned'', points)
         else if microprice_edge < rc_minimum_microprice_edge_bps c then Some (''microprice_not_aligned'', points)
         else None)"

text \<open>\<open>max(aligned, key=...)\<close>: the first of the best.\<close>

fun first_max :: "('a \<Rightarrow> dec) \<Rightarrow> 'a \<Rightarrow> 'a list \<Rightarrow> 'a" where
  "first_max key best [] = best"
| "first_max key best (x # xs) = first_max key (if key best < key x then x else best) xs"

definition reactive_intent_id :: "string \<Rightarrow> order_side \<Rightarrow> int \<Rightarrow> int \<Rightarrow> string" where
  "reactive_intent_id kind side ts revision =
     ''rsc3-'' @ kind @ ''-'' @ side_value side @ ''-'' @ py_str ts @ ''-'' @ py_str revision"

definition entry_quantity :: "reactive_config \<Rightarrow> strategy_input \<Rightarrow> dec" where
  "entry_quantity c s =
     dmul (rc_order_quantity_base c) (if high_volatility s then rc_high_volatility_quantity_multiplier c else 1)"

definition entry_intent ::
  "reactive_config \<Rightarrow> strategy_input \<Rightarrow> smart_money_snapshot \<Rightarrow> horizon_state \<Rightarrow> dec \<Rightarrow> dec
     \<Rightarrow> reactive_memory \<Rightarrow> order_intent" where
  "entry_intent c s st selected expected threshold m =
     (let f = si_features s;
          bullish = (ts_direction (sm_fifteen_minute st) = BULLISH);
          side = (if bullish then BUY else SELL)
      in \<lparr>oi_intent_id = reactive_intent_id ''entry'' side (fs_receive_ts_ns f) (rm_order_revision m + 1),
          oi_strategy_id = ''smart-money-scalper-v3'', oi_side = side, oi_kind = LIMIT,
          oi_quantity_base = entry_quantity c s,
          oi_limit_price = Some (if side = BUY then fs_best_bid f else fs_best_ask f),
          oi_time_in_force = GTC, oi_post_only = True, oi_reduce_only = False,
          oi_created_ts_ns = fs_receive_ts_ns f,
          oi_rationale = ReactiveEntry (hf_horizon_ns selected div ONE_SECOND_NS) expected threshold
            (directional_accuracy selected)
            (if bullish then sm_long_confluence st else sm_short_confluence st) (rm_confirmation_count m)
            (if bullish then sm_long_reasons st else sm_short_reasons st)\<rparr>)"

definition submit_entry ::
  "reactive_config \<Rightarrow> strategy_input \<Rightarrow> smart_money_snapshot \<Rightarrow> horizon_state \<Rightarrow> dec \<Rightarrow> dec
     \<Rightarrow> reactive_memory \<Rightarrow> (reactive_memory \<times> kernel_decision) res" where
  "submit_entry c s st selected expected threshold m =
     (let f = si_features s; now = fs_receive_ts_ns f;
          bullish = (ts_direction (sm_fifteen_minute st) = BULLISH);
          side = (if bullish then BUY else SELL);
          stop_bps = planned_stop_bps c f; target_bps = planned_target_bps c f
      in bindE (mk_order_intent (entry_intent c s st selected expected threshold m)) (\<lambda>intent.
         bindE (mk_kernel_decision
             \<lparr>kd_submit = [intent], kd_cancel_intent_ids = [],
              kd_action = (if bullish then ENTER_LONG else ENTER_SHORT), kd_reason = ''reactive_maker_entry'',
              kd_expected_edge_bps = expected, kd_required_edge_bps = threshold,
              kd_confluence_score = (if bullish then sm_long_confluence st else sm_short_confluence st),
              kd_reference_price = Some (fs_midprice f),
              kd_stop_price = Some (exit_price (fs_midprice f) bullish (dneg stop_bps)),
              kd_target_price = Some (exit_price (fs_midprice f) bullish target_bps),
              kd_position_age_seconds = 0\<rparr>) (\<lambda>d.
         Inr ((reset_confirmation m)
             \<lparr>rm_last_order_ts_ns := Some now, rm_last_entry_attempt_ts_ns := Some now,
              rm_pending_entry_intent_id := Some (oi_intent_id intent),
              rm_pending_entry_created_ts_ns := Some now, rm_pending_entry_side := Some side,
              rm_planned_stop_loss_bps := Some stop_bps, rm_planned_take_profit_bps := Some target_bps,
              rm_entry_attempt_day := Some (now div ONE_DAY_NS),
              rm_entry_attempts_today := attempts_today s m + 1,
              rm_order_revision := rm_order_revision m + 1\<rparr>, d))))"

text \<open>The forecast gate and the signal persistence, once the confluence holds.\<close>

definition evaluate_forecast ::
  "reactive_config \<Rightarrow> strategy_input \<Rightarrow> smart_money_snapshot \<Rightarrow> reactive_memory
     \<Rightarrow> (reactive_memory \<times> kernel_decision) res" where
  "evaluate_forecast c s st m =
     (let f = si_features s;
          bullish = (ts_direction (sm_fifteen_minute st) = BULLISH);
          side = (if bullish then BUY else SELL);
          edge = (\<lambda>h. dmul (direction_sign bullish) (hf_latest_prediction_bps h));
          points = (if bullish then sm_long_confluence st else sm_short_confluence st);
          quality = quality_horizons c (rm_forecast m);
          aligned = filter (\<lambda>h. 0 < edge h) quality
      in if int (length aligned) < rc_minimum_aligned_forecasts c
         then rs_blocked m BLOCKED_MODEL ''multi_horizon_forecasts_not_aligned''
                (case py_max (map edge quality) of None \<Rightarrow> 0 | Some x \<Rightarrow> x) 0 points
         else (case aligned of
                 [] \<Rightarrow> Inl (ValueError ''max() iterable argument is empty'')
               | h # hs \<Rightarrow>
                   (let selected = first_max edge h hs;
                        expected = edge selected;
                        threshold = max (rc_minimum_forecast_edge_bps c) (required_edge c s)
                    in if expected < threshold
                       then rs_blocked m BLOCKED_COST ''forecast_does_not_clear_dynamic_cost'' expected threshold points
                       else
                         (let confirmed = confirm c m side (fs_receive_ts_ns f)
                          in if rm_confirmation_count confirmed < rc_minimum_signal_persistence c
                             then rs_transition confirmed BLOCKED_CONFLUENCE ''intrabar_signal_persistence_warming''
                                    expected threshold points
                             else submit_entry c s st selected expected threshold confirmed))))"

definition evaluate_entry ::
  "reactive_config \<Rightarrow> strategy_input \<Rightarrow> reactive_memory \<Rightarrow> (reactive_memory \<times> kernel_decision) res" where
  "evaluate_entry c s m =
     (case si_market_structure s of
        None \<Rightarrow> rs_blocked m WARMUP ''causal_timeframes_warming'' 0 0 0
      | Some st \<Rightarrow>
          if \<not> fs_ready (si_features s) \<or> \<not> sm_ready st
          then rs_blocked m WARMUP ''causal_timeframes_warming'' 0 0 0
          else
            (case entry_gate c s m of
               Some (action, reason, expected) \<Rightarrow> rs_blocked m action reason expected 0 0
             | None \<Rightarrow>
                 if rc_maximum_entry_attempts_per_day c \<le> attempts_today s m
                 then rs_blocked (m\<lparr>rm_entry_attempt_day := Some (fs_receive_ts_ns (si_features s) div ONE_DAY_NS),
                                   rm_entry_attempts_today := attempts_today s m\<rparr>)
                        BLOCKED_INVENTORY ''daily_entry_attempt_cap_reached'' 0 0 0
                 else (case confluence_block c s st of
                         Some (reason, points) \<Rightarrow> rs_blocked m BLOCKED_CONFLUENCE reason 0 0 points
                       | None \<Rightarrow> evaluate_forecast c s st m)))"

section \<open>A resting entry\<close>

definition manage_pending_entry ::
  "reactive_config \<Rightarrow> strategy_input \<Rightarrow> reactive_memory \<Rightarrow> (reactive_memory \<times> kernel_decision) res" where
  "manage_pending_entry c s m =
     (case (rm_pending_entry_intent_id m, rm_pending_entry_created_ts_ns m, rm_pending_entry_side m) of
        (Some intent_id, Some created, Some side) \<Rightarrow>
          (let f = si_features s; sign = direction_sign (side = BUY);
               invalidated =
                 (dmul sign (fs_book_imbalance f) < dneg (rc_minimum_book_imbalance c)
                \<or> dmul sign (fs_trade_flow_imbalance f) < dneg (rc_minimum_trade_flow_imbalance c));
               age = fs_receive_ts_ns f - created
           in if age < rc_maker_entry_ttl_ns c \<and> \<not> invalidated
              then rs_transition m HOLD ''maker_entry_resting'' 0 0 0
              else bindE (mk_kernel_decision (no_decision
                     \<lparr>kd_cancel_intent_ids := [intent_id], kd_action := BLOCKED_COOLDOWN,
                      kd_reason := (if invalidated then ''maker_entry_signal_invalidated''
                                    else ''maker_entry_ttl_expired''),
                      kd_expected_edge_bps := dabs (latest_prediction_bps (rm_forecast m))\<rparr>))
                   (\<lambda>d. Inr ((clear_pending_entry m)
                     \<lparr>rm_planned_stop_loss_bps := None, rm_planned_take_profit_bps := None\<rparr>, d)))
      | _ \<Rightarrow> Inl AssertionError)"

section \<open>A position\<close>

definition active_confluence :: "strategy_input \<Rightarrow> bool \<Rightarrow> int" where
  "active_confluence s long =
     (case si_market_structure s of None \<Rightarrow> 0
      | Some st \<Rightarrow> if long then sm_long_confluence st else sm_short_confluence st)"

definition position_age_seconds :: "reactive_memory \<Rightarrow> int \<Rightarrow> dec" where
  "position_age_seconds m now =
     (case rm_position_opened_ts_ns m of None \<Rightarrow> 0
      | Some opened \<Rightarrow> ddiv (of_int (max 0 (now - opened))) (of_int ONE_SECOND_NS))"

definition forecast_and_flow_reversed :: "reactive_config \<Rightarrow> strategy_input \<Rightarrow> forecast_state \<Rightarrow> bool \<Rightarrow> bool" where
  "forecast_and_flow_reversed c s forecast long \<longleftrightarrow>
     rc_minimum_aligned_forecasts c
       \<le> int (length (filter (\<lambda>h. dmul (direction_sign long) (hf_latest_prediction_bps h)
                                  \<le> dneg (rc_reversal_forecast_bps c)) (quality_horizons c forecast)))
   \<and> dmul (direction_sign long) (fs_trade_flow_imbalance (si_features s)) \<le> dneg (rc_minimum_trade_flow_imbalance c)"

definition opposite_confirmation :: "reactive_config \<Rightarrow> strategy_input \<Rightarrow> bool \<Rightarrow> bool" where
  "opposite_confirmation c s long \<longleftrightarrow>
     (case si_market_structure s of None \<Rightarrow> False
      | Some st \<Rightarrow>
          sm_ready st \<and>
          (let one = sm_one_minute st; flow = fs_trade_flow_imbalance (si_features s)
           in if long
              then (ts_bearish_bos one \<or> ts_bearish_choch one \<or> ts_bearish_sweep one)
                 \<and> flow < dneg (rc_minimum_trade_flow_imbalance c)
              else (ts_bullish_bos one \<or> ts_bullish_choch one \<or> ts_bullish_sweep one)
                 \<and> rc_minimum_trade_flow_imbalance c < flow))"

text \<open>The figures \<open>_manage_position\<close> computes first.\<close>

record position_view =
  pv_long :: bool
  pv_pnl_bps :: dec
  pv_peak :: dec
  pv_age_ns :: int
  pv_stop_loss :: dec
  pv_take_profit :: dec
  pv_stop_threshold :: dec

definition view_position ::
  "reactive_config \<Rightarrow> strategy_input \<Rightarrow> reactive_memory \<Rightarrow> dec \<Rightarrow> int \<Rightarrow> position_view" where
  "view_position c s m entry opened =
     (let f = si_features s; long = (0 < rm_inventory_base m);
          pnl = dmul (ddiv (dmul (direction_sign long) (dsub (fs_midprice f) entry)) entry) 10000;
          peak = max (rm_peak_favorable_bps m) pnl;
          stop_loss = py_or_else (rm_active_stop_loss_bps m) (rc_minimum_stop_loss_bps c);
          take_profit = py_or_else (rm_active_take_profit_bps m) (rc_minimum_take_profit_bps c)
      in \<lparr>pv_long = long, pv_pnl_bps = pnl, pv_peak = peak,
          pv_age_ns = max 0 (fs_receive_ts_ns f - opened), pv_stop_loss = stop_loss, pv_take_profit = take_profit,
          pv_stop_threshold = (if dmul take_profit (rc_break_even_trigger_fraction c) \<le> peak
             then dmul take_profit (rc_break_even_lock_fraction c) else dneg stop_loss)\<rparr>)"

definition urgent_exit ::
  "reactive_config \<Rightarrow> strategy_input \<Rightarrow> forecast_state \<Rightarrow> position_view \<Rightarrow> (strategy_action \<times> string) option" where
  "urgent_exit c s forecast v =
     (if pv_pnl_bps v \<le> pv_stop_threshold v
      then Some (EXIT_STOP_LOSS,
             (if 0 \<le> pv_stop_threshold v then ''break_even_stop_reached'' else ''hard_stop_reached''))
      else if dmul (pv_take_profit v) (rc_trailing_trigger_fraction c) \<le> pv_peak v
            \<and> pv_pnl_bps v \<le> max (dmul (pv_take_profit v) (rc_break_even_lock_fraction c))
                 (dsub (pv_peak v) (dmul (pv_take_profit v) (rc_trailing_giveback_fraction c)))
      then Some (EXIT_TAKE_PROFIT, ''trailing_profit_protection'')
      else if forecast_and_flow_reversed c s forecast (pv_long v)
      then Some (EXIT_OPPOSITE_FLOW, ''forecast_and_flow_reversal'')
      else if opposite_confirmation c s (pv_long v)
      then Some (EXIT_OPPOSITE_FLOW, ''opposite_1m_structure_and_order_flow'')
      else if rc_hard_holding_limit_ns c \<le> pv_age_ns v
      then Some (EXIT_TIME_LIMIT, ''two_minute_hard_limit'')
      else if rc_soft_holding_limit_ns c \<le> pv_age_ns v \<and> pv_pnl_bps v \<le> rc_minimum_net_edge_bps c
      then Some (EXIT_TIME_LIMIT, ''forty_five_second_no_progress_exit'')
      else None)"

text \<open>The order that closes the whole position, and the decision that carries it.\<close>

definition exit_intent ::
  "strategy_input \<Rightarrow> reactive_memory \<Rightarrow> string \<Rightarrow> bool \<Rightarrow> rationale \<Rightarrow> order_intent" where
  "exit_intent s m kind maker why =
     (let f = si_features s; long = (0 < rm_inventory_base m); side = (if long then SELL else BUY)
      in \<lparr>oi_intent_id = reactive_intent_id kind side (fs_receive_ts_ns f) (rm_order_revision m + 1),
          oi_strategy_id = ''smart-money-scalper-v3'', oi_side = side,
          oi_kind = (if maker then LIMIT else MARKET), oi_quantity_base = dabs (rm_inventory_base m),
          oi_limit_price = (if maker then Some (if long then fs_best_ask f else fs_best_bid f) else None),
          oi_time_in_force = (if maker then GTC else IOC), oi_post_only = maker, oi_reduce_only = True,
          oi_created_ts_ns = fs_receive_ts_ns f, oi_rationale = why\<rparr>)"

definition exit_decision ::
  "strategy_input \<Rightarrow> reactive_memory \<Rightarrow> order_intent \<Rightarrow> strategy_action \<Rightarrow> string \<Rightarrow> dec \<Rightarrow> dec \<Rightarrow> dec
     \<Rightarrow> kernel_decision res" where
  "exit_decision s m intent action reason pnl stop_threshold take_profit =
     (case rm_average_entry_price m of
        None \<Rightarrow> Inl AssertionError
      | Some entry \<Rightarrow>
          (let long = (0 < rm_inventory_base m)
           in mk_kernel_decision
             \<lparr>kd_submit = [intent], kd_cancel_intent_ids = [], kd_action = action, kd_reason = reason,
              kd_expected_edge_bps = pnl, kd_required_edge_bps = 0,
              kd_confluence_score = active_confluence s long,
              kd_reference_price = Some (fs_midprice (si_features s)),
              kd_stop_price = Some (exit_price entry long stop_threshold),
              kd_target_price = Some (exit_price entry long take_profit),
              kd_position_age_seconds = position_age_seconds m (fs_receive_ts_ns (si_features s))\<rparr>))"

definition maker_take_profit ::
  "strategy_input \<Rightarrow> reactive_memory \<Rightarrow> dec \<Rightarrow> dec \<Rightarrow> dec \<Rightarrow> (reactive_memory \<times> kernel_decision) res" where
  "maker_take_profit s m pnl stop_threshold take_profit =
     bindE (mk_order_intent (exit_intent s m ''maker-exit'' True (MakerTakeProfit pnl))) (\<lambda>intent.
     bindE (exit_decision s m intent EXIT_TAKE_PROFIT ''maker_take_profit_submitted'' pnl stop_threshold take_profit) (\<lambda>d.
     Inr (m\<lparr>rm_last_order_ts_ns := Some (fs_receive_ts_ns (si_features s)),
            rm_pending_exit_intent_id := Some (oi_intent_id intent),
            rm_pending_exit_created_ts_ns := Some (fs_receive_ts_ns (si_features s)),
            rm_pending_exit_cancel_ts_ns := None, rm_pending_exit_action := Some EXIT_TAKE_PROFIT,
            rm_pending_exit_reason := Some ''take_profit_reached'',
            rm_order_revision := rm_order_revision m + 1\<rparr>, d)))"

definition market_exit ::
  "reactive_config \<Rightarrow> strategy_input \<Rightarrow> reactive_memory \<Rightarrow> strategy_action \<Rightarrow> string \<Rightarrow> dec \<Rightarrow> dec \<Rightarrow> dec
     \<Rightarrow> (reactive_memory \<times> kernel_decision) res" where
  "market_exit c s m action reason pnl stop_threshold take_profit =
     (let now = fs_receive_ts_ns (si_features s)
      in if \<not> opt_all (\<lambda>t. rc_exit_retry_ns c \<le> now - t) (rm_last_order_ts_ns m)
         then rs_transition m HOLD ''exit_order_pending_activation'' pnl 0 0
         else bindE (mk_order_intent (exit_intent s m ''market-exit'' False
                       (MarketExit reason pnl (position_age_seconds m now)))) (\<lambda>intent.
              bindE (exit_decision s m intent action reason pnl stop_threshold take_profit) (\<lambda>d.
              Inr (m\<lparr>rm_last_order_ts_ns := Some now, rm_order_revision := rm_order_revision m + 1\<rparr>, d))))"

definition manage_pending_exit ::
  "reactive_config \<Rightarrow> strategy_input \<Rightarrow> reactive_memory \<Rightarrow> string \<Rightarrow> dec \<Rightarrow> (strategy_action \<times> string) option
     \<Rightarrow> dec \<Rightarrow> dec \<Rightarrow> (reactive_memory \<times> kernel_decision) res" where
  "manage_pending_exit c s m intent_id pnl urgent stop_threshold take_profit =
     (case (rm_pending_exit_created_ts_ns m, rm_pending_exit_action m, rm_pending_exit_reason m) of
        (Some created, Some pending_action, Some pending_reason) \<Rightarrow>
          (let now = fs_receive_ts_ns (si_features s);
               fallback_action = (case urgent of Some (a, _) \<Rightarrow> a | None \<Rightarrow> pending_action);
               fallback_reason = (case urgent of Some (_, r) \<Rightarrow> r | None \<Rightarrow> ''maker_take_profit_ttl_expired'')
           in if urgent = None \<and> now - created < rc_maker_exit_ttl_ns c
              then rs_transition m HOLD ''maker_take_profit_resting'' pnl 0 0
              else (case rm_pending_exit_cancel_ts_ns m of
                      None \<Rightarrow>
                        bindE (mk_kernel_decision (no_decision
                            \<lparr>kd_cancel_intent_ids := [intent_id], kd_action := HOLD,
                             kd_reason := ''maker_exit_cancel_requested'', kd_expected_edge_bps := pnl\<rparr>))
                          (\<lambda>d. Inr (m\<lparr>rm_pending_exit_cancel_ts_ns := Some now,
                                 rm_pending_exit_action := Some fallback_action,
                                 rm_pending_exit_reason := Some fallback_reason\<rparr>, d))
                    | Some canceled \<Rightarrow>
                        if now - canceled < rc_maker_exit_cancel_grace_ns c
                        then rs_transition m HOLD ''maker_exit_cancel_grace'' pnl 0 0
                        else market_exit c s (clear_pending_exit m) fallback_action fallback_reason
                               pnl stop_threshold take_profit))
      | _ \<Rightarrow> Inl AssertionError)"

definition manage_position ::
  "reactive_config \<Rightarrow> strategy_input \<Rightarrow> reactive_memory \<Rightarrow> (reactive_memory \<times> kernel_decision) res" where
  "manage_position c s m =
     (case (py_or (rm_average_entry_price m) (si_position_average_entry_price s),
            py_or (rm_position_opened_ts_ns m) (si_position_opened_ts_ns s)) of
        (Some entry, Some opened) \<Rightarrow>
          (let v = view_position c s m entry opened;
               updated = m\<lparr>rm_peak_favorable_bps := pv_peak v\<rparr>;
               urgent = urgent_exit c s (rm_forecast updated) v
           in case rm_pending_exit_intent_id updated of
                Some intent_id \<Rightarrow>
                  manage_pending_exit c s updated intent_id (pv_pnl_bps v) urgent (pv_stop_threshold v) (pv_take_profit v)
              | None \<Rightarrow>
                  (case urgent of
                     Some (action, reason) \<Rightarrow>
                       market_exit c s updated action reason (pv_pnl_bps v) (pv_stop_threshold v) (pv_take_profit v)
                   | None \<Rightarrow>
                       if pv_take_profit v \<le> pv_pnl_bps v
                       then maker_take_profit s updated (pv_pnl_bps v) (pv_stop_threshold v) (pv_take_profit v)
                       else bindE (mk_kernel_decision (no_decision
                              \<lparr>kd_action := HOLD, kd_reason := ''position_within_exit_bounds'',
                               kd_expected_edge_bps := pv_pnl_bps v,
                               kd_confluence_score := active_confluence s (pv_long v),
                               kd_reference_price := Some (fs_midprice (si_features s)),
                               kd_stop_price := Some (exit_price entry (pv_long v) (pv_stop_threshold v)),
                               kd_target_price := Some (exit_price entry (pv_long v) (pv_take_profit v)),
                               kd_position_age_seconds :=
                                 ddiv (of_int (pv_age_ns v)) (of_int ONE_SECOND_NS)\<rparr>))
                            (\<lambda>d. Inr (updated, d))))
      | _ \<Rightarrow> rs_transition m HOLD ''awaiting_confirmed_position_context'' 0 0 0)"

section \<open>The decision\<close>

definition reactive_decide ::
  "reactive_config \<Rightarrow> strategy_input \<Rightarrow> reactive_memory \<Rightarrow> (reactive_memory \<times> kernel_decision) res" where
  "reactive_decide c s memory =
     bindE (update_forecast c (si_features s) (rm_forecast memory)) (\<lambda>forecast.
       (let m = memory\<lparr>rm_forecast := forecast\<rparr>
        in if rm_inventory_base m \<noteq> 0 then manage_position c s m
           else if rm_pending_entry_intent_id m \<noteq> None then manage_pending_entry c s m
           else evaluate_entry c s m))"

text \<open>One market update as the paper engine makes it: the account is synchronized first.\<close>

record account_view =
  av_inventory :: dec
  av_average_entry_price :: "dec option"
  av_observed_ts_ns :: int

definition reactive_step ::
  "reactive_config \<Rightarrow> account_view \<times> strategy_input \<Rightarrow> reactive_memory \<Rightarrow> (reactive_memory \<times> kernel_decision) res" where
  "reactive_step c a m =
     bindE (synchronize_position (av_inventory (fst a)) (av_average_entry_price (fst a)) (av_observed_ts_ns (fst a)) m)
       (\<lambda>m'. reactive_decide c (snd a) m')"

section \<open>What the steps return\<close>

definition quiet :: "kernel_decision \<Rightarrow> bool" where
  "quiet d \<longleftrightarrow> kd_submit d = [] \<and> kd_cancel_intent_ids d = []"

lemma rs_transition_Inr:
  "rs_transition m a r x y z = Inr (m', d) \<Longrightarrow> m' = m \<and> quiet d"
  by (auto simp: rs_transition_def bindE_eq_Inr_iff mk_kernel_decision_Inr quiet_def)

lemma rs_blocked_Inr:
  "rs_blocked m a r x y z = Inr (m', d) \<Longrightarrow> m' = reset_confirmation m \<and> quiet d"
  by (simp add: rs_blocked_def rs_transition_Inr)

lemma submit_entry_Inr:
  assumes "submit_entry c s st h expected threshold m = Inr (m', d)"
  shows "kd_submit d = [entry_intent c s st h expected threshold m] \<and> kd_cancel_intent_ids d = []
    \<and> order_intent_ok (entry_intent c s st h expected threshold m)
    \<and> kd_expected_edge_bps d = expected \<and> kd_required_edge_bps d = threshold
    \<and> m' = (reset_confirmation m)
             \<lparr>rm_last_order_ts_ns := Some (fs_receive_ts_ns (si_features s)),
              rm_last_entry_attempt_ts_ns := Some (fs_receive_ts_ns (si_features s)),
              rm_pending_entry_intent_id := Some (oi_intent_id (entry_intent c s st h expected threshold m)),
              rm_pending_entry_created_ts_ns := Some (fs_receive_ts_ns (si_features s)),
              rm_pending_entry_side := Some (if ts_direction (sm_fifteen_minute st) = BULLISH then BUY else SELL),
              rm_planned_stop_loss_bps := Some (planned_stop_bps c (si_features s)),
              rm_planned_take_profit_bps := Some (planned_target_bps c (si_features s)),
              rm_entry_attempt_day := Some (fs_receive_ts_ns (si_features s) div ONE_DAY_NS),
              rm_entry_attempts_today := attempts_today s m + 1,
              rm_order_revision := rm_order_revision m + 1\<rparr>"
  using assms by (auto simp: submit_entry_def Let_def bindE_eq_Inr_iff mk_kernel_decision_Inr mk_order_intent_Inr)

lemma first_max_in: "first_max key b xs \<in> insert b (set xs)"
  by (induction xs arbitrary: b) auto

definition entry_side :: "smart_money_snapshot \<Rightarrow> order_side" where
  "entry_side st = (if ts_direction (sm_fifteen_minute st) = BULLISH then BUY else SELL)"

definition forecast_edge :: "smart_money_snapshot \<Rightarrow> horizon_state \<Rightarrow> dec" where
  "forecast_edge st h = dmul (direction_sign (ts_direction (sm_fifteen_minute st) = BULLISH)) (hf_latest_prediction_bps h)"

lemma evaluate_forecast_cases:
  assumes "evaluate_forecast c s st m = Inr (m', d)"
  obtains (blocked) "m' = reset_confirmation m" "quiet d"
    | (confirming) "m' = confirm c m (entry_side st) (fs_receive_ts_ns (si_features s))" "quiet d"
    | (enter) h threshold where
        "h \<in> set (quality_horizons c (rm_forecast m))" "0 < forecast_edge st h"
        "rc_minimum_aligned_forecasts c \<le> int (length (filter (\<lambda>h. 0 < forecast_edge st h) (quality_horizons c (rm_forecast m))))"
        "threshold = max (rc_minimum_forecast_edge_bps c) (required_edge c s)" "threshold \<le> forecast_edge st h"
        "rc_minimum_signal_persistence c \<le> rm_confirmation_count (confirm c m (entry_side st) (fs_receive_ts_ns (si_features s)))"
        "submit_entry c s st h (forecast_edge st h) threshold (confirm c m (entry_side st) (fs_receive_ts_ns (si_features s)))
           = Inr (m', d)"
proof -
  let ?aligned = "filter (\<lambda>h. 0 < forecast_edge st h) (quality_horizons c (rm_forecast m))"
  let ?th = "max (rc_minimum_forecast_edge_bps c) (required_edge c s)"
  let ?cm = "confirm c m (entry_side st) (fs_receive_ts_ns (si_features s))"
  note ev = assms [unfolded evaluate_forecast_def Let_def, folded forecast_edge_def entry_side_def]
  show thesis
  proof (cases "int (length ?aligned) < rc_minimum_aligned_forecasts c")
    case True
    then show thesis using ev by (intro blocked) (auto dest: rs_blocked_Inr)
  next
    case False
    show thesis
    proof (cases ?aligned)
      case Nil
      with ev False show thesis by simp
    next
      case (Cons h hs)
      let ?sel = "first_max (forecast_edge st) h hs"
      have "?sel \<in> set ?aligned" using first_max_in [of "forecast_edge st" h hs] Cons by simp
      then have sel: "?sel \<in> set (quality_horizons c (rm_forecast m))" "0 < forecast_edge st ?sel" by auto
      consider "forecast_edge st ?sel < ?th" | "?th \<le> forecast_edge st ?sel" "rm_confirmation_count ?cm < rc_minimum_signal_persistence c"
        | "?th \<le> forecast_edge st ?sel" "rc_minimum_signal_persistence c \<le> rm_confirmation_count ?cm" by linarith
      then show thesis
      proof cases
        case 1
        with ev False Cons show thesis by (intro blocked) (auto dest: rs_blocked_Inr)
      next
        case 2
        then have n: "\<not> forecast_edge st ?sel < ?th" by (simp only: not_less)
        have "m' = ?cm \<and> quiet d"
          using ev unfolding Cons if_not_P [OF False [unfolded Cons]] list.case if_not_P [OF n] if_P [OF 2(2)]
          by (rule rs_transition_Inr)
        then show thesis by (intro confirming) simp_all
      next
        case 3
        then have n: "\<not> forecast_edge st ?sel < ?th" "\<not> rm_confirmation_count ?cm < rc_minimum_signal_persistence c"
          by (simp_all only: not_less)
        have "submit_entry c s st ?sel (forecast_edge st ?sel) ?th ?cm = Inr (m', d)"
          using ev unfolding Cons if_not_P [OF False [unfolded Cons]] list.case if_not_P [OF n(1)] if_not_P [OF n(2)] .
        with 3 sel False show thesis by (intro enter [of ?sel ?th]) simp_all
      qed
    qed
  qed
qed

lemma evaluate_entry_cases:
  assumes "evaluate_entry c s m = Inr (m', d)"
  obtains (blocked) m2 where "m' = reset_confirmation m2" "quiet d"
      "m2 = m \<or> m2 = m\<lparr>rm_entry_attempt_day := Some (fs_receive_ts_ns (si_features s) div ONE_DAY_NS),
                     rm_entry_attempts_today := attempts_today s m\<rparr>"
    | (confirming) st where "m' = confirm c m (entry_side st) (fs_receive_ts_ns (si_features s))" "quiet d"
    | (enter) st h threshold where "si_market_structure s = Some st" "fs_ready (si_features s)" "sm_ready st"
        "entry_gate c s m = None" "attempts_today s m < rc_maximum_entry_attempts_per_day c"
        "confluence_block c s st = None"
        "h \<in> set (quality_horizons c (rm_forecast m))" "0 < forecast_edge st h"
        "rc_minimum_aligned_forecasts c \<le> int (length (filter (\<lambda>h. 0 < forecast_edge st h) (quality_horizons c (rm_forecast m))))"
        "threshold = max (rc_minimum_forecast_edge_bps c) (required_edge c s)" "threshold \<le> forecast_edge st h"
        "rc_minimum_signal_persistence c \<le> rm_confirmation_count (confirm c m (entry_side st) (fs_receive_ts_ns (si_features s)))"
        "submit_entry c s st h (forecast_edge st h) threshold (confirm c m (entry_side st) (fs_receive_ts_ns (si_features s)))
           = Inr (m', d)"
proof (cases "si_market_structure s")
  case None
  with assms show thesis by (intro blocked [of m]) (auto simp: evaluate_entry_def dest: rs_blocked_Inr)
next
  case (Some st)
  note ev = assms [unfolded evaluate_entry_def Some option.case]
  show thesis
  proof (cases "fs_ready (si_features s) \<and> sm_ready st")
    case False
    with ev show thesis by (intro blocked [of m]) (auto dest: rs_blocked_Inr)
  next
    case ready: True
    show thesis
    proof (cases "entry_gate c s m")
      case (Some g)
      with ev ready show thesis by (intro blocked [of m]) (auto dest: rs_blocked_Inr split: prod.splits)
    next
      case gate: None
      show thesis
      proof (cases "rc_maximum_entry_attempts_per_day c \<le> attempts_today s m")
        case True
        with ev ready gate show thesis by (intro blocked) (auto dest: rs_blocked_Inr)
      next
        case cap: False
        show thesis
        proof (cases "confluence_block c s st")
          case (Some g)
          with ev ready gate cap show thesis by (intro blocked [of m]) (auto dest: rs_blocked_Inr split: prod.splits)
        next
          case None
          with ev ready gate cap have "evaluate_forecast c s st m = Inr (m', d)" by simp
          then show thesis
          proof (cases rule: evaluate_forecast_cases)
            case blocked
            then show thesis by (intro that(1) [of m]) auto
          next
            case confirming
            then show thesis by (rule that(2))
          next
            case (enter h threshold)
            with \<open>si_market_structure s = Some st\<close> ready gate cap None show thesis by (intro that(3)) simp_all
          qed
        qed
      qed
    qed
  qed
qed

lemma manage_pending_entry_cases:
  assumes "manage_pending_entry c s m = Inr (m', d)"
  obtains (resting) "m' = m" "quiet d"
    | (cancel) i where "rm_pending_entry_intent_id m = Some i" "kd_submit d = []" "kd_cancel_intent_ids d = [i]"
        "m' = (clear_pending_entry m)\<lparr>rm_planned_stop_loss_bps := None, rm_planned_take_profit_bps := None\<rparr>"
  using assms
  by (fastforce simp: manage_pending_entry_def Let_def bindE_eq_Inr_iff mk_kernel_decision_Inr
      dest: rs_transition_Inr split: option.splits if_splits)

lemma exit_decision_Inr:
  "exit_decision s m i a r x y z = Inr d \<Longrightarrow>
     kd_submit d = [i] \<and> kd_cancel_intent_ids d = [] \<and> rm_average_entry_price m \<noteq> None"
  by (auto simp: exit_decision_def Let_def mk_kernel_decision_Inr split: option.splits)

lemma maker_take_profit_Inr:
  assumes "maker_take_profit s m pnl st tp = Inr (m', d)"
  shows "kd_submit d = [exit_intent s m ''maker-exit'' True (MakerTakeProfit pnl)] \<and> kd_cancel_intent_ids d = []
    \<and> order_intent_ok (exit_intent s m ''maker-exit'' True (MakerTakeProfit pnl)) \<and> rm_average_entry_price m \<noteq> None
    \<and> m' = m\<lparr>rm_last_order_ts_ns := Some (fs_receive_ts_ns (si_features s)),
            rm_pending_exit_intent_id := Some (oi_intent_id (exit_intent s m ''maker-exit'' True (MakerTakeProfit pnl))),
            rm_pending_exit_created_ts_ns := Some (fs_receive_ts_ns (si_features s)),
            rm_pending_exit_cancel_ts_ns := None, rm_pending_exit_action := Some EXIT_TAKE_PROFIT,
            rm_pending_exit_reason := Some ''take_profit_reached'',
            rm_order_revision := rm_order_revision m + 1\<rparr>"
  using assms by (auto simp: maker_take_profit_def bindE_eq_Inr_iff mk_order_intent_Inr dest: exit_decision_Inr)

lemma market_exit_cases:
  assumes "market_exit c s m a r pnl st tp = Inr (m', d)"
  obtains (waiting) "m' = m" "quiet d"
      "\<not> opt_all (\<lambda>t. rc_exit_retry_ns c \<le> fs_receive_ts_ns (si_features s) - t) (rm_last_order_ts_ns m)"
    | (exit) why where "kd_submit d = [exit_intent s m ''market-exit'' False why]" "kd_cancel_intent_ids d = []"
        "order_intent_ok (exit_intent s m ''market-exit'' False why)" "rm_average_entry_price m \<noteq> None"
        "m' = m\<lparr>rm_last_order_ts_ns := Some (fs_receive_ts_ns (si_features s)), rm_order_revision := rm_order_revision m + 1\<rparr>"
proof (cases "opt_all (\<lambda>t. rc_exit_retry_ns c \<le> fs_receive_ts_ns (si_features s) - t) (rm_last_order_ts_ns m)")
  case True
  with assms show thesis
    by (intro exit [of "MarketExit r pnl (position_age_seconds m (fs_receive_ts_ns (si_features s)))"])
      (auto simp: market_exit_def Let_def bindE_eq_Inr_iff mk_order_intent_Inr dest: exit_decision_Inr)
qed (use assms waiting in \<open>auto simp: market_exit_def Let_def dest: rs_transition_Inr\<close>)

lemma manage_pending_exit_cases:
  assumes "manage_pending_exit c s m i pnl urgent st tp = Inr (m', d)"
  obtains (resting) "m' = m" "quiet d" "urgent = None"
    | (grace) t where "m' = m" "quiet d" "rm_pending_exit_cancel_ts_ns m = Some t"
        "fs_receive_ts_ns (si_features s) - t < rc_maker_exit_cancel_grace_ns c"
    | (cancel) a r where "kd_submit d = []" "kd_cancel_intent_ids d = [i]" "rm_pending_exit_cancel_ts_ns m = None"
        "m' = m\<lparr>rm_pending_exit_cancel_ts_ns := Some (fs_receive_ts_ns (si_features s)),
               rm_pending_exit_action := Some a, rm_pending_exit_reason := Some r\<rparr>"
    | (market) a r t where "rm_pending_exit_cancel_ts_ns m = Some t"
        "market_exit c s (clear_pending_exit m) a r pnl st tp = Inr (m', d)"
proof -
  from assms obtain created pa pr where
    p: "rm_pending_exit_created_ts_ns m = Some created" "rm_pending_exit_action m = Some pa" "rm_pending_exit_reason m = Some pr"
    by (auto simp: manage_pending_exit_def split: option.splits)
  note ev = assms [unfolded manage_pending_exit_def Let_def p prod.case option.case]
  show thesis
  proof (cases "urgent = None \<and> fs_receive_ts_ns (si_features s) - created < rc_maker_exit_ttl_ns c")
    case True
    with ev show thesis by (intro resting) (auto dest: rs_transition_Inr)
  next
    case False
    note ev2 = ev [unfolded if_not_P [OF False]]
    show thesis
    proof (cases "rm_pending_exit_cancel_ts_ns m")
      case None
      with ev2 show thesis by (intro cancel) (auto simp: bindE_eq_Inr_iff mk_kernel_decision_Inr)
    next
      case (Some t)
      with ev2 show thesis by (auto intro: grace market dest: rs_transition_Inr split: if_splits)
    qed
  qed
qed

lemma manage_position_cases:
  assumes "manage_position c s m = Inr (m', d)"
  obtains (unknown) "m' = m" "quiet d"
      "py_or (rm_average_entry_price m) (si_position_average_entry_price s) = None
        \<or> py_or (rm_position_opened_ts_ns m) (si_position_opened_ts_ns s) = None"
    | (known) entry opened v mu where
        "py_or (rm_average_entry_price m) (si_position_average_entry_price s) = Some entry"
        "py_or (rm_position_opened_ts_ns m) (si_position_opened_ts_ns s) = Some opened"
        "v = view_position c s m entry opened" "mu = m\<lparr>rm_peak_favorable_bps := pv_peak v\<rparr>"
        "(\<exists>i. rm_pending_exit_intent_id m = Some i
            \<and> manage_pending_exit c s mu i (pv_pnl_bps v) (urgent_exit c s (rm_forecast m) v)
                (pv_stop_threshold v) (pv_take_profit v) = Inr (m', d))
       \<or> (rm_pending_exit_intent_id m = None
            \<and> (\<exists>a r. urgent_exit c s (rm_forecast m) v = Some (a, r)
                \<and> market_exit c s mu a r (pv_pnl_bps v) (pv_stop_threshold v) (pv_take_profit v) = Inr (m', d)))
       \<or> (rm_pending_exit_intent_id m = None \<and> urgent_exit c s (rm_forecast m) v = None
            \<and> maker_take_profit s mu (pv_pnl_bps v) (pv_stop_threshold v) (pv_take_profit v) = Inr (m', d))
       \<or> (rm_pending_exit_intent_id m = None \<and> urgent_exit c s (rm_forecast m) v = None \<and> m' = mu \<and> quiet d)"
proof (cases "py_or (rm_average_entry_price m) (si_position_average_entry_price s)")
  case None
  with assms show thesis by (intro unknown) (auto simp: manage_position_def dest: rs_transition_Inr)
next
  case e: (Some entry)
  show thesis
  proof (cases "py_or (rm_position_opened_ts_ns m) (si_position_opened_ts_ns s)")
    case None
    with assms e show thesis by (intro unknown) (auto simp: manage_position_def dest: rs_transition_Inr)
  next
    case o: (Some opened)
    show thesis
      by (rule known [OF e o refl refl])
        (use assms e o in \<open>auto simp: manage_position_def Let_def bindE_eq_Inr_iff mk_kernel_decision_Inr quiet_def
          split: option.splits if_splits\<close>)
  qed
qed


lemma quiet_simps: "quiet d \<Longrightarrow> kd_submit d = []" "quiet d \<Longrightarrow> kd_cancel_intent_ids d = []" "quiet d \<Longrightarrow> submissions d = []"
  by (simp_all add: quiet_def submissions_def)

lemma view_position_simps [simp]: "rm_peak_favorable_bps m \<le> pv_peak (view_position c s m e t)"
  by (simp add: view_position_def Let_def)

lemma view_position_peak: "0 \<le> rm_peak_favorable_bps m \<Longrightarrow> 0 \<le> pv_peak (view_position c s m e t)"
  by (simp add: view_position_def Let_def)

text \<open>The three phases of a decision, on the memory with the new forecast.\<close>

lemma reactive_decide_phases:
  assumes "reactive_decide c s m = Inr (m', d)"
  obtains fc m1 where "update_forecast c (si_features s) (rm_forecast m) = Inr fc" "m1 = m\<lparr>rm_forecast := fc\<rparr>"
    "(rm_inventory_base m \<noteq> 0 \<and> manage_position c s m1 = Inr (m', d))
   \<or> (rm_inventory_base m = 0 \<and> rm_pending_entry_intent_id m \<noteq> None \<and> manage_pending_entry c s m1 = Inr (m', d))
   \<or> (rm_inventory_base m = 0 \<and> rm_pending_entry_intent_id m = None \<and> evaluate_entry c s m1 = Inr (m', d))"
  using assms by (auto simp: reactive_decide_def bindE_eq_Inr_iff Let_def split: if_splits)

lemma synchronize_position_Inr:
  assumes "synchronize_position q avg now m = Inr m'"
  shows "rm_inventory_base m' = q \<and> rm_order_revision m' = rm_order_revision m
    \<and> rm_last_entry_attempt_ts_ns m' = rm_last_entry_attempt_ts_ns m \<and> rm_last_order_ts_ns m' = rm_last_order_ts_ns m
    \<and> rm_entry_attempt_day m' = rm_entry_attempt_day m \<and> rm_entry_attempts_today m' = rm_entry_attempts_today m
    \<and> rm_forecast m' = rm_forecast m
    \<and> (q = 0 \<longrightarrow> rm_pending_exit_intent_id m' = None \<and> rm_pending_entry_intent_id m' = rm_pending_entry_intent_id m)
    \<and> (q \<noteq> 0 \<longrightarrow> rm_pending_entry_intent_id m' = None \<and> rm_average_entry_price m' = avg
         \<and> (\<exists>p > 0. avg = Some p) \<and> rm_position_opened_ts_ns m' \<noteq> None
         \<and> rm_pending_exit_intent_id m' = rm_pending_exit_intent_id m
         \<and> rm_pending_exit_cancel_ts_ns m' = rm_pending_exit_cancel_ts_ns m)"
  using assms
  by (auto simp: synchronize_position_def clear_pending_exit_def clear_pending_entry_def Let_def guardE_def not_le
      split: if_splits option.splits)

section \<open>The shared contracts\<close>

text \<open>The orders of one step: at most one, a fresh entry when flat, else the closing order of the position.\<close>

definition is_entry :: "reactive_config \<Rightarrow> strategy_input \<Rightarrow> order_intent \<Rightarrow> bool" where
  "is_entry c s i \<longleftrightarrow>
     oi_kind i = LIMIT \<and> oi_post_only i \<and> \<not> oi_reduce_only i \<and> oi_quantity_base i = entry_quantity c s
   \<and> oi_limit_price i = Some (if oi_side i = BUY then fs_best_bid (si_features s) else fs_best_ask (si_features s))"

definition is_exit :: "dec \<Rightarrow> strategy_input \<Rightarrow> order_intent \<Rightarrow> bool" where
  "is_exit inventory s i \<longleftrightarrow>
     oi_reduce_only i \<and> oi_quantity_base i = dabs inventory \<and> (oi_side i = SELL \<longleftrightarrow> 0 < inventory)
   \<and> (oi_kind i = LIMIT \<longrightarrow> oi_post_only i
        \<and> oi_limit_price i = Some (if oi_side i = BUY then fs_best_bid (si_features s) else fs_best_ask (si_features s)))"

lemma entry_intent_is_entry [simp]: "is_entry c s (entry_intent c s st h x y m)"
  by (simp add: is_entry_def entry_intent_def Let_def)

lemma exit_intent_is_exit [simp]: "is_exit (rm_inventory_base m) s (exit_intent s m kind maker why)"
  by (auto simp: is_exit_def exit_intent_def Let_def)

lemma has_serial_reactive [simp]:
  "has_serial (rm_order_revision m + 1) (oi_intent_id (entry_intent c s st h x y m))"
  "has_serial (rm_order_revision m + 1) (oi_intent_id (exit_intent s m kind maker why))"
proof -
  have "has_serial n (reactive_intent_id kind side ts n)" for n kind side ts
    using has_serialI [of n "''rsc3-'' @ kind @ ''-'' @ side_value side @ ''-'' @ py_str ts"]
    by (simp add: reactive_intent_id_def)
  then show "has_serial (rm_order_revision m + 1) (oi_intent_id (entry_intent c s st h x y m))"
    "has_serial (rm_order_revision m + 1) (oi_intent_id (exit_intent s m kind maker why))"
    by (simp_all add: entry_intent_def exit_intent_def Let_def)
qed

lemma confirm_simps [simp]:
  "rm_order_revision (confirm c m side t) = rm_order_revision m" "rm_inventory_base (confirm c m side t) = rm_inventory_base m"
  "rm_last_entry_attempt_ts_ns (confirm c m side t) = rm_last_entry_attempt_ts_ns m"
  "attempts_today s (confirm c m side t) = attempts_today s m"
  "rm_entry_attempt_day (confirm c m side t) = rm_entry_attempt_day m"
  "rm_entry_attempts_today (confirm c m side t) = rm_entry_attempts_today m"
  by (simp_all add: confirm_def Let_def attempts_today_def)

lemma reset_confirmation_simps [simp]:
  "rm_order_revision (reset_confirmation m) = rm_order_revision m"
  "rm_last_entry_attempt_ts_ns (reset_confirmation m) = rm_last_entry_attempt_ts_ns m"
  "rm_entry_attempt_day (reset_confirmation m) = rm_entry_attempt_day m"
  "rm_entry_attempts_today (reset_confirmation m) = rm_entry_attempts_today m"
  "rm_inventory_base (reset_confirmation m) = rm_inventory_base m"
  by (simp_all add: reset_confirmation_def)

lemma clear_pending_simps [simp]:
  "rm_order_revision (clear_pending_exit m) = rm_order_revision m" "rm_inventory_base (clear_pending_exit m) = rm_inventory_base m"
  "rm_last_entry_attempt_ts_ns (clear_pending_exit m) = rm_last_entry_attempt_ts_ns m"
  "rm_entry_attempt_day (clear_pending_exit m) = rm_entry_attempt_day m"
  "rm_entry_attempts_today (clear_pending_exit m) = rm_entry_attempts_today m"
  "rm_last_order_ts_ns (clear_pending_exit m) = rm_last_order_ts_ns m"
  "rm_order_revision (clear_pending_entry m) = rm_order_revision m" "rm_inventory_base (clear_pending_entry m) = rm_inventory_base m"
  "rm_last_entry_attempt_ts_ns (clear_pending_entry m) = rm_last_entry_attempt_ts_ns m"
  "rm_entry_attempt_day (clear_pending_entry m) = rm_entry_attempt_day m"
  "rm_entry_attempts_today (clear_pending_entry m) = rm_entry_attempts_today m"
  by (simp_all add: clear_pending_exit_def clear_pending_entry_def)

text \<open>What a decision in a position leaves: no order, or the closing order and the next revision.\<close>

lemma manage_position_outcome:
  assumes "manage_position c s m = Inr (m', d)"
  shows "rm_last_entry_attempt_ts_ns m' = rm_last_entry_attempt_ts_ns m \<and> rm_inventory_base m' = rm_inventory_base m
    \<and> rm_entry_attempt_day m' = rm_entry_attempt_day m \<and> rm_entry_attempts_today m' = rm_entry_attempts_today m
    \<and> ((kd_submit d = [] \<and> rm_order_revision m' = rm_order_revision m)
     \<or> (\<exists>i. kd_submit d = [i] \<and> order_intent_ok i \<and> is_exit (rm_inventory_base m) s i
          \<and> has_serial (rm_order_revision m + 1) (oi_intent_id i)
          \<and> rm_order_revision m' = rm_order_revision m + 1 \<and> kd_cancel_intent_ids d = []))"
proof -
  have me: "rm_last_entry_attempt_ts_ns m' = rm_last_entry_attempt_ts_ns x \<and> rm_inventory_base m' = rm_inventory_base x
    \<and> rm_entry_attempt_day m' = rm_entry_attempt_day x \<and> rm_entry_attempts_today m' = rm_entry_attempts_today x
    \<and> ((kd_submit d = [] \<and> rm_order_revision m' = rm_order_revision x)
     \<or> (\<exists>i. kd_submit d = [i] \<and> order_intent_ok i \<and> is_exit (rm_inventory_base x) s i
          \<and> has_serial (rm_order_revision x + 1) (oi_intent_id i)
          \<and> rm_order_revision m' = rm_order_revision x + 1 \<and> kd_cancel_intent_ids d = []))"
    if "market_exit c s x a r p st tp = Inr (m', d)" for x a r p st tp
    using that by (cases rule: market_exit_cases) (auto dest: quiet_simps)
  from assms show ?thesis
  proof (cases rule: manage_position_cases)
    case unknown
    then show ?thesis by (simp add: quiet_simps)
  next
    case (known entry opened v mu)
    from known(5) consider
        (pending) i where "manage_pending_exit c s mu i (pv_pnl_bps v) (urgent_exit c s (rm_forecast m) v)
                (pv_stop_threshold v) (pv_take_profit v) = Inr (m', d)"
      | (market) a r where "market_exit c s mu a r (pv_pnl_bps v) (pv_stop_threshold v) (pv_take_profit v) = Inr (m', d)"
      | (maker) "maker_take_profit s mu (pv_pnl_bps v) (pv_stop_threshold v) (pv_take_profit v) = Inr (m', d)"
      | (hold) "m' = mu" "quiet d" by blast
    then show ?thesis
    proof cases
      case pending
      then show ?thesis
      proof (cases rule: manage_pending_exit_cases)
        case (market a r t)
        from me [OF market(2)] show ?thesis by (simp add: known(4))
      qed (auto simp: known(4) dest: quiet_simps)
    next
      case market
      from me [OF market] show ?thesis by (simp add: known(4))
    next
      case maker
      note x = maker_take_profit_Inr [OF maker]
      have "is_exit (rm_inventory_base mu) s (exit_intent s mu ''maker-exit'' True (MakerTakeProfit (pv_pnl_bps v)))"
        "has_serial (rm_order_revision mu + 1) (oi_intent_id (exit_intent s mu ''maker-exit'' True (MakerTakeProfit (pv_pnl_bps v))))"
        by (rule exit_intent_is_exit has_serial_reactive)+
      with x show ?thesis by (simp add: known(4))
    next
      case hold
      then show ?thesis by (simp add: known(4) quiet_simps)
    qed
  qed
qed


definition step_time :: "account_view \<times> strategy_input \<Rightarrow> int" where
  "step_time a = fs_receive_ts_ns (si_features (snd a))"

lemma attempts_today_fields:
  "rm_entry_attempt_day m' = rm_entry_attempt_day m \<Longrightarrow> rm_entry_attempts_today m' = rm_entry_attempts_today m \<Longrightarrow>
     attempts_today s m' = attempts_today s m"
  by (simp add: attempts_today_def)

lemma reactive_step_outcome:
  assumes "reactive_step c a m = Inr (m', d)"
  obtains (none) "kd_submit d = []" "rm_order_revision m' = rm_order_revision m"
      "rm_last_entry_attempt_ts_ns m' = rm_last_entry_attempt_ts_ns m"
      "(rm_entry_attempt_day m' = rm_entry_attempt_day m \<and> rm_entry_attempts_today m' = rm_entry_attempts_today m)
     \<or> (rm_entry_attempt_day m' = Some (step_time a div ONE_DAY_NS) \<and> rm_entry_attempts_today m' = attempts_today (snd a) m)"
    | (exit) i where "av_inventory (fst a) \<noteq> 0" "kd_submit d = [i]" "order_intent_ok i"
        "is_exit (av_inventory (fst a)) (snd a) i" "has_serial (rm_order_revision m + 1) (oi_intent_id i)"
        "rm_order_revision m' = rm_order_revision m + 1" "rm_last_entry_attempt_ts_ns m' = rm_last_entry_attempt_ts_ns m"
        "rm_entry_attempt_day m' = rm_entry_attempt_day m" "rm_entry_attempts_today m' = rm_entry_attempts_today m"
    | (enter) i m1 st h threshold where "av_inventory (fst a) = 0" "kd_submit d = [i]" "order_intent_ok i"
        "is_entry c (snd a) i" "has_serial (rm_order_revision m + 1) (oi_intent_id i)"
        "rm_order_revision m' = rm_order_revision m + 1" "rm_last_entry_attempt_ts_ns m' = Some (step_time a)"
        "rm_entry_attempt_day m' = Some (step_time a div ONE_DAY_NS)"
        "rm_entry_attempts_today m' = attempts_today (snd a) m + 1"
        "attempts_today (snd a) m < rc_maximum_entry_attempts_per_day c"
        "opt_all (\<lambda>t. rc_minimum_entry_interval_ns c \<le> step_time a - t) (rm_last_entry_attempt_ts_ns m)"
        "rm_pending_entry_intent_id m = None" "rm_pending_entry_intent_id m' = Some (oi_intent_id i)"
        "entry_gate c (snd a) m1 = None" "si_market_structure (snd a) = Some st" "sm_ready st"
        "fs_ready (si_features (snd a))" "confluence_block c (snd a) st = None" "oi_side i = entry_side st"
        "h \<in> set (quality_horizons c (rm_forecast m1))" "threshold \<le> forecast_edge st h"
        "threshold = max (rc_minimum_forecast_edge_bps c) (required_edge c (snd a))"
        "kd_expected_edge_bps d = forecast_edge st h" "kd_required_edge_bps d = threshold"
        "rc_minimum_aligned_forecasts c
           \<le> int (length (filter (\<lambda>h. 0 < forecast_edge st h) (quality_horizons c (rm_forecast m1))))"
        "update_forecast c (si_features (snd a)) (rm_forecast m) = Inr (rm_forecast m1)"
proof -
  from assms obtain m0 where s0: "synchronize_position (av_inventory (fst a)) (av_average_entry_price (fst a)) (av_observed_ts_ns (fst a)) m = Inr m0"
    and d0: "reactive_decide c (snd a) m0 = Inr (m', d)"
    by (auto simp: reactive_step_def bindE_eq_Inr_iff)
  note sy = synchronize_position_Inr [OF s0]
  from d0 show thesis
  proof (cases rule: reactive_decide_phases)
    case (1 fc m1)
    note m1 = 1(2)
    from 1(3) show thesis
    proof (elim disjE conjE)
      assume "rm_inventory_base m0 \<noteq> 0" and mp: "manage_position c (snd a) m1 = Inr (m', d)"
      from manage_position_outcome [OF mp] show thesis
      proof (elim conjE disjE exE)
        assume "kd_submit d = []" "rm_order_revision m' = rm_order_revision m1"
        with manage_position_outcome [OF mp] sy show thesis by (intro none) (simp_all add: m1)
      next
        fix i assume "kd_submit d = [i]" "order_intent_ok i" "is_exit (rm_inventory_base m1) (snd a) i"
          "has_serial (rm_order_revision m1 + 1) (oi_intent_id i)" "rm_order_revision m' = rm_order_revision m1 + 1"
        with manage_position_outcome [OF mp] sy \<open>rm_inventory_base m0 \<noteq> 0\<close> show thesis
          by (intro exit [of i]) (simp_all add: m1)
      qed
    next
      assume "manage_pending_entry c (snd a) m1 = Inr (m', d)"
      then show thesis
        by (cases rule: manage_pending_entry_cases) (use sy in \<open>auto intro!: none simp: m1 dest: quiet_simps\<close>)
    next
      assume flat: "rm_inventory_base m0 = 0" and noe: "rm_pending_entry_intent_id m0 = None"
        and ev: "evaluate_entry c (snd a) m1 = Inr (m', d)"
      have at: "attempts_today (snd a) m1 = attempts_today (snd a) m" using sy by (simp add: attempts_today_def m1)
      from ev show thesis
      proof (cases rule: evaluate_entry_cases)
        case (blocked m2)
        then show thesis using sy at by (intro none) (auto simp: m1 step_time_def dest: quiet_simps)
      next
        case (confirming st)
        then show thesis using sy by (intro none) (auto simp: m1 dest: quiet_simps)
      next
        case (enter st h threshold)
        let ?cm = "confirm c m1 (entry_side st) (fs_receive_ts_ns (si_features (snd a)))"
        let ?i = "entry_intent c (snd a) st h (forecast_edge st h) threshold ?cm"
        note x = submit_entry_Inr [OF enter(13)]
        have gate: "opt_all (\<lambda>t. rc_minimum_entry_interval_ns c \<le> step_time a - t) (rm_last_entry_attempt_ts_ns m)"
          using enter(4) sy by (auto simp: entry_gate_def Let_def m1 step_time_def split: if_splits)
        have side: "oi_side ?i = entry_side st" by (simp add: entry_intent_def entry_side_def Let_def)
        have ser: "has_serial (rm_order_revision m + 1) (oi_intent_id ?i)"
          using has_serial_reactive(1) [of ?cm] sy by (simp add: m1)
        show thesis
          by (rule that(3) [of ?i m1 st h threshold])
            (use x enter sy at gate side ser flat noe 1(1) in \<open>simp_all add: m1 step_time_def\<close>)
      qed
    qed
  qed
qed

definition reactive_order_ok :: "reactive_config \<Rightarrow> account_view \<times> strategy_input \<Rightarrow> reactive_memory \<Rightarrow> kernel_decision \<Rightarrow> bool" where
  "reactive_order_ok c a m d \<longleftrightarrow>
     list_all (\<lambda>i. kd_submit d = [i] \<and> order_intent_ok i
       \<and> (if av_inventory (fst a) = 0 then is_entry c (snd a) i \<and> rm_pending_entry_intent_id m = None
          else is_exit (av_inventory (fst a)) (snd a) i)) (kd_submit d)"

definition opens_exposure :: "kernel_decision \<Rightarrow> bool" where
  "opens_exposure d \<longleftrightarrow> list_ex (\<lambda>i. \<not> oi_reduce_only i) (kd_submit d)"

interpretation reactive: serial_kernel "reactive_step c" "\<lambda>a. strategy_input_ok (snd a)"
  "\<lambda>m. 0 \<le> rm_order_revision m" "reactive_order_ok c" rm_order_revision for c
proof unfold_locales
  fix a m m' d
  show "0 \<le> rm_order_revision m" if "0 \<le> rm_order_revision m" for m using that .
  assume m: "0 \<le> rm_order_revision m" and d: "reactive_step c a m = Inr (m', d)"
  from d m show r: "0 \<le> rm_order_revision m'" by (cases rule: reactive_step_outcome) auto
  then show "0 \<le> rm_order_revision m'" .
  from d show "rm_order_revision m \<le> rm_order_revision m'" by (cases rule: reactive_step_outcome) auto
  from d show "reactive_order_ok c a m d" by (cases rule: reactive_step_outcome) (auto simp: reactive_order_ok_def)
  from d show "distinct (submissions d)" by (cases rule: reactive_step_outcome) (auto simp: submissions_def)
  fix i assume "i \<in> set (submissions d)"
  with d show "rm_order_revision m < rm_order_revision m' \<and> has_serial (rm_order_revision m') i"
    by (cases rule: reactive_step_outcome) (auto simp: submissions_def)
qed

interpretation reactive: paced_kernel "reactive_step c" step_time rm_last_entry_attempt_ts_ns
  "rc_minimum_entry_interval_ns c" opens_exposure for c
proof unfold_locales
  fix a m m' d
  assume "reactive_step c a m = Inr (m', d)"
  then show "rm_last_entry_attempt_ts_ns m' = rm_last_entry_attempt_ts_ns m \<and> \<not> opens_exposure d
    \<or> rm_last_entry_attempt_ts_ns m' = Some (step_time a)
      \<and> opt_all (\<lambda>t. rc_minimum_entry_interval_ns c \<le> step_time a - t) (rm_last_entry_attempt_ts_ns m)"
    by (cases rule: reactive_step_outcome) (auto simp: opens_exposure_def is_exit_def)
qed

end
