(* ===== verification/Reactive_Safety.thy ===== *)
theory Reactive_Safety
  imports Reactive_Scalper
begin

text \<open>
  Properties of the reactive scalper over whole replays: the daily entry budget and the pace
  of entries, the contract of the memory (which \<open>model_copy\<close> never checks), the exits of a stopped
  position, the justification of every order, and two gaps of the position synchronization.
\<close>

section \<open>Entries per day\<close>

definition attempts_on :: "int \<Rightarrow> reactive_memory \<Rightarrow> int" where
  "attempts_on day m = (if rm_entry_attempt_day m = Some day then rm_entry_attempts_today m else 0)"

definition entries_on :: "int \<Rightarrow> (account_view \<times> strategy_input) list \<Rightarrow> kernel_decision list \<Rightarrow> int" where
  "entries_on day ss ds =
     int (length (filter (\<lambda>(a, d). opens_exposure d \<and> step_time a div ONE_DAY_NS = day) (zip ss ds)))"

lemma entries_on_Cons:
  "entries_on day (a # ss) (d # ds) =
     (if opens_exposure d \<and> step_time a div ONE_DAY_NS = day then 1 else 0) + entries_on day ss ds"
  by (simp add: entries_on_def)

lemma reactive_step_attempts:
  assumes "reactive_step c a m = Inr (m', d)"
  shows "(opens_exposure d \<longrightarrow> attempts_on (step_time a div ONE_DAY_NS) m < rc_maximum_entry_attempts_per_day c)
    \<and> attempts_on (step_time a div ONE_DAY_NS) m' = attempts_on (step_time a div ONE_DAY_NS) m + (if opens_exposure d then 1 else 0)
    \<and> (day \<noteq> step_time a div ONE_DAY_NS \<longrightarrow> attempts_on day m' = attempts_on day m \<or> attempts_on day m' = 0)
    \<and> (day \<noteq> step_time a div ONE_DAY_NS \<longrightarrow> attempts_on day m = 0 \<longrightarrow> attempts_on day m' = 0)"
  using assms
  by (cases rule: reactive_step_outcome)
    (auto simp: attempts_on_def opens_exposure_def is_exit_def is_entry_def attempts_today_def step_time_def)

lemma no_entries_before:
  "list_all (\<lambda>a. day < step_time a div ONE_DAY_NS) ss \<Longrightarrow> entries_on day ss ds = 0"
proof (induction ss arbitrary: ds)
  case (Cons a ss)
  then show ?case by (cases ds) (auto simp: entries_on_Cons entries_on_def)
qed (simp add: entries_on_def)

text \<open>The memory counts for a day that is not yet over.\<close>

definition day_current :: "int \<Rightarrow> reactive_memory \<Rightarrow> (account_view \<times> strategy_input) list \<Rightarrow> bool" where
  "day_current day m ss \<longleftrightarrow>
     0 \<le> attempts_on day m
   \<and> (rm_entry_attempt_day m = Some day \<longrightarrow> list_all (\<lambda>a. day \<le> step_time a div ONE_DAY_NS) ss)"

lemma later_days:
  assumes "sorted (map step_time (a # ss))"
  shows "list_all (\<lambda>b. step_time a div ONE_DAY_NS \<le> step_time b div ONE_DAY_NS) ss"
  using assms by (auto simp: list_all_iff ONE_DAY_NS_def ONE_SECOND_NS_def intro: zdiv_mono1)

lemma reactive_step_day:
  assumes "reactive_step c a m = Inr (m', d)"
  shows "rm_entry_attempt_day m' = rm_entry_attempt_day m \<or> rm_entry_attempt_day m' = Some (step_time a div ONE_DAY_NS)"
  using assms by (cases rule: reactive_step_outcome) auto

lemma day_current_step:
  assumes "reactive_step c a m = Inr (m', d)" "sorted (map step_time (a # ss))" "day_current day m (a # ss)"
  shows "day_current day m' ss"
proof -
  have "0 \<le> attempts_on day m'"
    using reactive_step_attempts [OF assms(1), of day] assms(3)
    by (cases "day = step_time a div ONE_DAY_NS") (auto simp: day_current_def)
  moreover have "list_all (\<lambda>a. day \<le> step_time a div ONE_DAY_NS) ss" if "rm_entry_attempt_day m' = Some day"
    using reactive_step_day [OF assms(1)] later_days [OF assms(2)] assms(3) that by (auto simp: day_current_def)
  ultimately show ?thesis by (simp add: day_current_def)
qed

lemma replay_entries_bounded:
  "day_current day m ss \<Longrightarrow> attempts_on day m \<le> rc_maximum_entry_attempts_per_day c \<Longrightarrow>
     0 \<le> rc_maximum_entry_attempts_per_day c \<Longrightarrow>
     sorted (map step_time ss) \<Longrightarrow> replay (reactive_step c) m ss = Inr (m', ds) \<Longrightarrow>
     attempts_on day m + entries_on day ss ds \<le> rc_maximum_entry_attempts_per_day c"
proof (induction ss arbitrary: m ds)
  case (Cons a ss)
  then obtain m1 d ds' where d: "reactive_step c a m = Inr (m1, d)" "replay (reactive_step c) m1 ss = Inr (m', ds')" "ds = d # ds'"
    by (auto simp: bindE_eq_Inr_iff)
  note st = reactive_step_attempts [OF d(1), of day]
  have sorted: "sorted (map step_time ss)" using Cons.prems(4) by simp
  note cur = day_current_step [OF d(1) Cons.prems(4,1)]
  note ih = Cons.IH [OF cur _ Cons.prems(3) sorted d(2)]
  show ?case
  proof (cases "step_time a div ONE_DAY_NS = day")
    case True
    then have "attempts_on day m1 = attempts_on day m + (if opens_exposure d then 1 else 0)"
      "opens_exposure d \<longrightarrow> attempts_on day m < rc_maximum_entry_attempts_per_day c" using st by auto
    with ih Cons.prems(2) True d(3) show ?thesis by (simp add: entries_on_Cons split: if_splits)
  next
    case other: False
    show ?thesis
    proof (cases "attempts_on day m1 = attempts_on day m")
      case True
      with ih Cons.prems(2) other d(3) show ?thesis by (simp add: entries_on_Cons)
    next
      case False
      then have "rm_entry_attempt_day m = Some day" using st other by (auto simp: attempts_on_def split: if_splits)
      then have "day < step_time a div ONE_DAY_NS" using Cons.prems(1) other by (auto simp: day_current_def)
      then have "list_all (\<lambda>b. day < step_time b div ONE_DAY_NS) ss"
        using later_days [OF Cons.prems(4)] by (auto simp: list_all_iff)
      with no_entries_before [of day ss ds'] d(3) other Cons.prems(2) show ?thesis by (simp add: entries_on_Cons)
    qed
  qed
qed (simp add: entries_on_def)


section \<open>The memory contract\<close>

text \<open>The \<open>Field\<close> bounds of the memory and \<open>validate_coupled_state\<close>: what \<open>model_validate_json\<close>
  demands of a checkpointed memory.\<close>

definition memory_fields_ok :: "reactive_memory \<Rightarrow> bool" where
  "memory_fields_ok m \<longleftrightarrow>
     list_all (opt_all (\<lambda>x. 0 < x)) [rm_average_entry_price m, rm_planned_stop_loss_bps m, rm_planned_take_profit_bps m,
       rm_active_stop_loss_bps m, rm_active_take_profit_bps m]
   \<and> list_all (opt_all (\<lambda>t. 0 \<le> t)) [rm_position_opened_ts_ns m, rm_last_flat_ts_ns m, rm_last_order_ts_ns m,
       rm_last_entry_attempt_ts_ns m, rm_pending_entry_created_ts_ns m, rm_pending_exit_created_ts_ns m,
       rm_pending_exit_cancel_ts_ns m, rm_last_confirmation_ts_ns m, rm_entry_attempt_day m]
   \<and> 0 \<le> rm_confirmation_count m \<and> rm_confirmation_count m \<le> 10 \<and> 0 \<le> rm_peak_favorable_bps m
   \<and> 0 \<le> rm_entry_attempts_today m \<and> 0 \<le> rm_order_revision m"

definition reactive_memory_ok :: "reactive_memory \<Rightarrow> bool" where
  "reactive_memory_ok m \<longleftrightarrow> memory_fields_ok m \<and> validate_coupled_state m = None"

definition reactive_inv :: "reactive_config \<Rightarrow> reactive_memory \<Rightarrow> bool" where
  "reactive_inv c m \<longleftrightarrow> reactive_memory_ok m \<and> forecast_inv c (rm_forecast m)"

text \<open>Fields that are set and cleared together.\<close>

definition entry_group :: "'a option \<Rightarrow> 'b option \<Rightarrow> 'c option \<Rightarrow> bool" where
  "entry_group i t s \<longleftrightarrow> (i = None \<longleftrightarrow> t = None) \<and> (i = None \<longleftrightarrow> s = None)"

definition exit_group :: "'a option \<Rightarrow> 'b option \<Rightarrow> 'c option \<Rightarrow> 'd option \<Rightarrow> 'e option \<Rightarrow> bool" where
  "exit_group i t a r x \<longleftrightarrow> entry_group i t a \<and> (i = None \<longleftrightarrow> r = None) \<and> (i = None \<longrightarrow> x = None)"

definition confirm_group :: "'a option \<Rightarrow> int \<Rightarrow> 'b option \<Rightarrow> bool" where
  "confirm_group s n t \<longleftrightarrow> (s = None \<longleftrightarrow> n = 0) \<and> (s = None \<longleftrightarrow> t = None)"

lemma group_simps [simp]:
  "entry_group None None None" "entry_group (Some i) (Some t) (Some u)"
  "exit_group None None None None None" "exit_group (Some i) (Some t) (Some a) (Some r) x"
  "confirm_group None 0 None" "confirm_group (Some u) n (Some t) \<longleftrightarrow> n \<noteq> 0"
  by (simp_all add: entry_group_def exit_group_def confirm_group_def)

lemma exit_group_cancel: "exit_group i t a r x \<Longrightarrow> i \<noteq> None \<Longrightarrow> exit_group i t (Some a') (Some r') y"
  by (auto simp: exit_group_def entry_group_def)

lemma reactive_memory_ok_iff:
  "reactive_memory_ok m \<longleftrightarrow> memory_fields_ok m
   \<and> entry_group (rm_pending_entry_intent_id m) (rm_pending_entry_created_ts_ns m) (rm_pending_entry_side m)
   \<and> exit_group (rm_pending_exit_intent_id m) (rm_pending_exit_created_ts_ns m) (rm_pending_exit_action m)
       (rm_pending_exit_reason m) (rm_pending_exit_cancel_ts_ns m)
   \<and> confirm_group (rm_confirmation_side m) (rm_confirmation_count m) (rm_last_confirmation_ts_ns m)"
  unfolding reactive_memory_ok_def validate_coupled_state_def first_error_None_iff
    entry_group_def exit_group_def confirm_group_def
  by (cases "rm_pending_entry_intent_id m"; cases "rm_pending_exit_intent_id m"; cases "rm_confirmation_side m"; auto)

lemma reset_confirmation_ok: "reactive_memory_ok m \<Longrightarrow> reactive_memory_ok (reset_confirmation m)"
  by (simp add: reactive_memory_ok_iff memory_fields_ok_def reset_confirmation_def)

lemma clear_pending_ok:
  "reactive_memory_ok m \<Longrightarrow> reactive_memory_ok (clear_pending_exit m)"
  "reactive_memory_ok m \<Longrightarrow> reactive_memory_ok (clear_pending_entry m)"
  by (simp_all add: reactive_memory_ok_iff memory_fields_ok_def clear_pending_exit_def clear_pending_entry_def)

lemma confirm_ok:
  assumes "reactive_config_ok c" "reactive_memory_ok m" "0 \<le> t"
  shows "reactive_memory_ok (confirm c m side t)"
proof -
  have "1 \<le> rc_minimum_signal_persistence c" "rc_minimum_signal_persistence c \<le> 10"
    using assms(1) by (simp_all add: reactive_config_ok_def reactive_lifecycle_ok_def)
  then show ?thesis using assms(2,3)
    by (auto simp: reactive_memory_ok_iff memory_fields_ok_def confirm_def Let_def min_def)
qed

lemma synchronize_position_ok:
  assumes m: "reactive_memory_ok m" and now: "0 \<le> now" and s: "synchronize_position q avg now m = Inr m'"
  shows "reactive_memory_ok m'"
proof (cases "q = 0")
  case True
  with s have "m' = (clear_pending_exit m)
        \<lparr>rm_inventory_base := 0, rm_average_entry_price := None, rm_position_opened_ts_ns := None,
         rm_last_flat_ts_ns := (if rm_inventory_base m \<noteq> 0 then Some now else rm_last_flat_ts_ns m),
         rm_active_stop_loss_bps := None, rm_active_take_profit_bps := None, rm_peak_favorable_bps := 0\<rparr>"
    by (simp add: synchronize_position_def)
  with clear_pending_ok(1) [OF m] m now show ?thesis by (simp add: reactive_memory_ok_iff memory_fields_ok_def)
next
  case False
  with s obtain p where p: "avg = Some p" "0 < p"
    and m': "m' = (let newly_opened = (rm_inventory_base m = 0 \<or> rm_position_opened_ts_ns m = None)
              in (clear_pending_entry m)
                \<lparr>rm_inventory_base := q, rm_average_entry_price := Some p,
                 rm_position_opened_ts_ns := (if newly_opened then Some now else rm_position_opened_ts_ns m),
                 rm_active_stop_loss_bps :=
                   (if newly_opened then rm_planned_stop_loss_bps m else rm_active_stop_loss_bps m),
                 rm_active_take_profit_bps :=
                   (if newly_opened then rm_planned_take_profit_bps m else rm_active_take_profit_bps m)\<rparr>)"
    by (auto simp: synchronize_position_def guardE_def Let_def not_le split: option.splits if_splits)
  from m have "memory_fields_ok m" by (simp add: reactive_memory_ok_def)
  with clear_pending_ok(2) [OF m] now p show ?thesis
    unfolding m' Let_def by (simp add: reactive_memory_ok_iff memory_fields_ok_def)
qed

lemma planned_distances:
  assumes "reactive_config_ok c"
  shows "rc_minimum_stop_loss_bps c \<le> planned_stop_bps c f" "planned_stop_bps c f \<le> rc_maximum_stop_loss_bps c"
    "rc_minimum_take_profit_bps c \<le> planned_target_bps c f" "planned_target_bps c f \<le> rc_maximum_take_profit_bps c"
    "0 < rc_minimum_stop_loss_bps c" "0 < rc_minimum_take_profit_bps c"
proof -
  have v: "validate_policy c = None" and e: "reactive_economics_ok c" using assms by (simp_all add: reactive_config_ok_def)
  from v have lt: "rc_minimum_stop_loss_bps c < rc_maximum_stop_loss_bps c" "rc_minimum_take_profit_bps c < rc_maximum_take_profit_bps c"
    unfolding validate_policy_def first_error_None_iff by (simp_all add: not_le)
  then show "rc_minimum_stop_loss_bps c \<le> planned_stop_bps c f" "planned_stop_bps c f \<le> rc_maximum_stop_loss_bps c"
    "rc_minimum_take_profit_bps c \<le> planned_target_bps c f" "planned_target_bps c f \<le> rc_maximum_take_profit_bps c"
    by (auto simp: planned_stop_bps_def planned_target_bps_def clip_def)
  from e show "0 < rc_minimum_stop_loss_bps c" "0 < rc_minimum_take_profit_bps c" by (simp_all add: reactive_economics_ok_def)
qed

lemma market_exit_ok:
  assumes "reactive_memory_ok m" "0 \<le> fs_receive_ts_ns (si_features s)" "market_exit c s m a r p st tp = Inr (m', d)"
  shows "reactive_memory_ok m' \<and> rm_forecast m' = rm_forecast m"
  using assms(3) by (cases rule: market_exit_cases) (use assms(1,2) in \<open>auto simp: reactive_memory_ok_iff memory_fields_ok_def\<close>)

lemma manage_position_ok:
  assumes m: "reactive_memory_ok m" and t: "0 \<le> fs_receive_ts_ns (si_features s)"
    and d: "manage_position c s m = Inr (m', d)"
  shows "reactive_memory_ok m' \<and> rm_forecast m' = rm_forecast m"
  using d
proof (cases rule: manage_position_cases)
  case (known entry opened v mu)
  have mu: "reactive_memory_ok mu" "rm_forecast mu = rm_forecast m"
    using m known(3) view_position_peak
    by (auto simp: known(4) reactive_memory_ok_iff memory_fields_ok_def)
  from known(5) consider
      (pending) i where "manage_pending_exit c s mu i (pv_pnl_bps v) (urgent_exit c s (rm_forecast m) v)
              (pv_stop_threshold v) (pv_take_profit v) = Inr (m', d)" "rm_pending_exit_intent_id mu \<noteq> None"
    | (market) a r where "market_exit c s mu a r (pv_pnl_bps v) (pv_stop_threshold v) (pv_take_profit v) = Inr (m', d)"
    | (maker) "maker_take_profit s mu (pv_pnl_bps v) (pv_stop_threshold v) (pv_take_profit v) = Inr (m', d)"
    | (hold) "m' = mu" "quiet d" by (auto simp: known(4))
  then show ?thesis
  proof cases
    case pending
    note some = pending(2)
    from pending(1) show ?thesis
    proof (cases rule: manage_pending_exit_cases)
      case (cancel a r)
      have "exit_group (rm_pending_exit_intent_id mu) (rm_pending_exit_created_ts_ns mu) (Some a) (Some r)
          (Some (fs_receive_ts_ns (si_features s)))"
        by (rule exit_group_cancel [of _ _ "rm_pending_exit_action mu" "rm_pending_exit_reason mu" "rm_pending_exit_cancel_ts_ns mu", OF _ some]) (use mu(1) in \<open>simp add: reactive_memory_ok_iff\<close>)
      with cancel mu t show ?thesis by (simp add: reactive_memory_ok_iff memory_fields_ok_def)
    next
      case (market a r t')
      from market_exit_ok [OF clear_pending_ok(1) [OF mu(1)] t market(2)] mu(2) show ?thesis
        by (simp add: clear_pending_exit_def)
    qed (use mu in auto)
  next
    case market
    from market_exit_ok [OF mu(1) t market] mu(2) show ?thesis by simp
  next
    case maker
    from maker_take_profit_Inr [OF maker] mu t show ?thesis by (auto simp: reactive_memory_ok_iff memory_fields_ok_def)
  qed (use mu in simp)
qed (use m in simp)

lemma evaluate_entry_ok:
  assumes c: "reactive_config_ok c" and m: "reactive_memory_ok m" and t: "0 \<le> fs_receive_ts_ns (si_features s)"
    and d: "evaluate_entry c s m = Inr (m', d)"
  shows "reactive_memory_ok m' \<and> rm_forecast m' = rm_forecast m"
  using d
proof (cases rule: evaluate_entry_cases)
  have at: "0 \<le> attempts_today s m" using m by (simp add: attempts_today_def reactive_memory_ok_def memory_fields_ok_def)
  have day: "0 \<le> fs_receive_ts_ns (si_features s) div ONE_DAY_NS"
    using t by (simp add: ONE_DAY_NS_def ONE_SECOND_NS_def pos_imp_zdiv_nonneg_iff)
  {
    case (blocked m2)
    have "reactive_memory_ok m2 \<and> rm_forecast m2 = rm_forecast m"
      using blocked(3) m at day by (auto simp: reactive_memory_ok_iff memory_fields_ok_def)
    then show ?thesis using blocked(1) reset_confirmation_ok by (simp add: reset_confirmation_def)
  next
    case (confirming st)
    then show ?thesis using confirm_ok [OF c m t] by (simp add: confirm_def Let_def)
  next
    case (enter st h threshold)
    let ?cm = "confirm c m (entry_side st) (fs_receive_ts_ns (si_features s))"
    have cm: "reactive_memory_ok (reset_confirmation ?cm)" by (intro reset_confirmation_ok confirm_ok c m t)
    note p = planned_distances(1,3) [OF c, of "si_features s"] planned_distances(5,6) [OF c]
    have "0 < planned_stop_bps c (si_features s)" "0 < planned_target_bps c (si_features s)" using p by linarith+
    moreover have "rm_forecast (reset_confirmation ?cm) = rm_forecast m"
      by (simp add: reset_confirmation_def confirm_def Let_def)
    ultimately show ?thesis
      using submit_entry_Inr [OF enter(13)] cm t at day
      by (auto simp: reactive_memory_ok_iff memory_fields_ok_def)
  }
qed

lemma reactive_step_inv:
  assumes c: "reactive_config_ok c" and m: "reactive_inv c m" and s: "strategy_input_ok (snd a)"
    and t: "0 \<le> av_observed_ts_ns (fst a)" and d: "reactive_step c a m = Inr (m', d)"
  shows "reactive_inv c m'"
proof -
  have f: "feature_snapshot_ok (si_features (snd a))" using s by (simp add: strategy_input_ok_def)
  then have r: "0 \<le> fs_receive_ts_ns (si_features (snd a))" by (auto simp: feature_snapshot_ok_iff)
  from d obtain m0 where s0: "synchronize_position (av_inventory (fst a)) (av_average_entry_price (fst a)) (av_observed_ts_ns (fst a)) m = Inr m0"
    and d0: "reactive_decide c (snd a) m0 = Inr (m', d)"
    by (auto simp: reactive_step_def bindE_eq_Inr_iff)
  have m0: "reactive_memory_ok m0" "rm_forecast m0 = rm_forecast m"
    using synchronize_position_ok [OF _ t s0] synchronize_position_Inr [OF s0] m by (simp_all add: reactive_inv_def)
  from d0 show ?thesis
  proof (cases rule: reactive_decide_phases)
    case (1 fc m1)
    have m1: "reactive_memory_ok m1" "rm_forecast m1 = fc" using m0(1) by (simp_all add: 1(2) reactive_memory_ok_iff memory_fields_ok_def)
    have fc: "forecast_inv c fc"
      using update_forecast_total [OF c _ f, of "rm_forecast m"] m 1(1) m0(2) by (auto simp: reactive_inv_def)
    from 1(3) show ?thesis
    proof (elim disjE conjE)
      assume "manage_position c (snd a) m1 = Inr (m', d)"
      from manage_position_ok [OF m1(1) r this] m1(2) fc show ?thesis by (simp add: reactive_inv_def)
    next
      assume "manage_pending_entry c (snd a) m1 = Inr (m', d)"
      then show ?thesis
      proof (cases rule: manage_pending_entry_cases)
        case (cancel i)
        then show ?thesis using clear_pending_ok(2) [OF m1(1)] m1(2) fc
          by (auto simp: reactive_inv_def reactive_memory_ok_iff memory_fields_ok_def clear_pending_entry_def)
      qed (use m1 fc in \<open>simp add: reactive_inv_def\<close>)
    next
      assume "evaluate_entry c (snd a) m1 = Inr (m', d)"
      from evaluate_entry_ok [OF c m1(1) r this] m1(2) fc show ?thesis by (simp add: reactive_inv_def)
    qed
  qed
qed


interpretation reactive_memory: decision_kernel "reactive_step c"
  "\<lambda>a. reactive_config_ok c \<and> strategy_input_ok (snd a) \<and> 0 \<le> av_observed_ts_ns (fst a)" "reactive_inv c" "reactive_order_ok c" for c
proof unfold_locales
  fix a m m' d
  assume v: "reactive_config_ok c \<and> strategy_input_ok (snd a) \<and> 0 \<le> av_observed_ts_ns (fst a)"
    and m: "reactive_inv c m" and d: "reactive_step c a m = Inr (m', d)"
  from v m d show "reactive_inv c m'" by (blast intro: reactive_step_inv)
  show "reactive_order_ok c a m d"
    using d by (cases rule: reactive_step_outcome) (auto simp: reactive_order_ok_def)
qed

section \<open>The exceptions of a step\<close>

definition only_validation :: "'a res \<Rightarrow> bool" where
  "only_validation r = (case r of Inl e \<Rightarrow> (case e of ValidationError _ \<Rightarrow> True | _ \<Rightarrow> False) | Inr _ \<Rightarrow> True)"

lemma only_validation_simps [simp]: "only_validation (Inr x)" "only_validation (Inl (ValidationError msg))"
  by (simp_all add: only_validation_def)

lemma only_validation_bind: "only_validation r \<Longrightarrow> (\<And>x. r = Inr x \<Longrightarrow> only_validation (f x)) \<Longrightarrow> only_validation (bindE r f)"
  by (cases r) (auto simp: only_validation_def)

lemma only_validation_mk [simp]:
  "only_validation (mk_kernel_decision d)" "only_validation (mk_order_intent i)"
  by (simp_all add: mk_kernel_decision_def mk_order_intent_def split: option.splits)

lemma only_validation_steps [simp]:
  "only_validation (rs_transition m a r x y z)" "only_validation (rs_blocked m a r x y z)"
  "only_validation (submit_entry c s st h x y m)"
  by (auto simp: rs_transition_def rs_blocked_def submit_entry_def Let_def intro!: only_validation_bind)

lemma only_validation_exit_decision:
  "rm_average_entry_price m \<noteq> None \<Longrightarrow> only_validation (exit_decision s m i a r x y z)"
  by (auto simp: exit_decision_def Let_def split: option.splits)

lemma only_validation_orders:
  assumes "rm_average_entry_price m \<noteq> None"
  shows "only_validation (maker_take_profit s m x y z)" "only_validation (market_exit c s m a r x y z)"
  using assms
  by (auto simp: maker_take_profit_def market_exit_def Let_def intro!: only_validation_bind only_validation_exit_decision)

lemma only_validation_position:
  assumes "reactive_memory_ok m" "rm_average_entry_price m \<noteq> None"
  shows "only_validation (manage_position c s m)"
proof -
  have pending: "only_validation (manage_pending_exit c s mu i pnl urgent st tp)"
    if "rm_pending_exit_intent_id mu = Some i" "exit_group (rm_pending_exit_intent_id mu) (rm_pending_exit_created_ts_ns mu)
      (rm_pending_exit_action mu) (rm_pending_exit_reason mu) (rm_pending_exit_cancel_ts_ns mu)"
      "rm_average_entry_price mu \<noteq> None" for mu i pnl urgent st tp
  proof -
    from that obtain t a r where p: "rm_pending_exit_created_ts_ns mu = Some t" "rm_pending_exit_action mu = Some a"
      "rm_pending_exit_reason mu = Some r" by (auto simp: exit_group_def entry_group_def)
    have "rm_average_entry_price (clear_pending_exit mu) \<noteq> None" using that(3) by (simp add: clear_pending_exit_def)
    from only_validation_orders(2) [OF this] show ?thesis
      unfolding manage_pending_exit_def p
      by (auto simp: Let_def intro!: only_validation_bind split: option.splits)
  qed
  show ?thesis
  proof (cases "py_or (rm_average_entry_price m) (si_position_average_entry_price s)")
    case (Some entry)
    show ?thesis
    proof (cases "py_or (rm_position_opened_ts_ns m) (si_position_opened_ts_ns s)")
      case o: (Some opened)
      let ?v = "view_position c s m entry opened"
      let ?mu = "m\<lparr>rm_peak_favorable_bps := pv_peak ?v\<rparr>"
      have mu: "rm_average_entry_price ?mu \<noteq> None" using assms(2) by simp
      have g: "exit_group (rm_pending_exit_intent_id m) (rm_pending_exit_created_ts_ns m)
          (rm_pending_exit_action m) (rm_pending_exit_reason m) (rm_pending_exit_cancel_ts_ns m)"
        using assms(1) by (simp add: reactive_memory_ok_iff)
      show ?thesis
        unfolding manage_position_def Some o
        using only_validation_orders [OF mu] pending [of ?mu] mu g
        by (auto simp: Let_def intro!: only_validation_bind split: option.splits)
    qed (simp add: manage_position_def Some)
  qed (simp add: manage_position_def)
qed

lemma only_validation_entry:
  assumes "reactive_config_ok c"
  shows "only_validation (evaluate_entry c s m)"
proof -
  have a: "1 \<le> rc_minimum_aligned_forecasts c"
    using assms by (simp add: reactive_config_ok_def reactive_learning_ok_def)
  have "only_validation (evaluate_forecast c s st m)" for st
    unfolding evaluate_forecast_def Let_def
    using a by (auto split: list.splits)
  then show ?thesis by (auto simp: evaluate_entry_def split: option.splits prod.splits)
qed

lemma only_validation_pending_entry:
  assumes "reactive_memory_ok m" "rm_pending_entry_intent_id m \<noteq> None"
  shows "only_validation (manage_pending_entry c s m)"
proof -
  from assms obtain i t u where p: "rm_pending_entry_intent_id m = Some i" "rm_pending_entry_created_ts_ns m = Some t"
    "rm_pending_entry_side m = Some u" by (auto simp: reactive_memory_ok_iff entry_group_def)
  show ?thesis unfolding manage_pending_entry_def p by (auto simp: Let_def intro!: only_validation_bind)
qed

lemma synchronize_position_defined:
  assumes "q = 0 \<or> (\<exists>p > 0. avg = Some p)"
  shows "\<exists>m'. synchronize_position q avg now m = Inr m'"
  using assms by (cases "q = 0") (auto simp: synchronize_position_def Let_def)

lemma only_validation_step:
  assumes c: "reactive_config_ok c" and m: "reactive_inv c m" and s: "strategy_input_ok (snd a)"
    and t: "0 \<le> av_observed_ts_ns (fst a)"
    and avg: "av_inventory (fst a) = 0 \<or> (\<exists>p > 0. av_average_entry_price (fst a) = Some p)"
  shows "only_validation (reactive_step c a m)"
proof -
  have f: "feature_snapshot_ok (si_features (snd a))" using s by (simp add: strategy_input_ok_def)
  obtain m0 where s0: "synchronize_position (av_inventory (fst a)) (av_average_entry_price (fst a)) (av_observed_ts_ns (fst a)) m = Inr m0"
    using synchronize_position_defined [OF avg] by blast
  note sy = synchronize_position_Inr [OF s0]
  have m0: "reactive_memory_ok m0" using synchronize_position_ok [OF _ t s0] m by (simp add: reactive_inv_def)
  obtain fc where fc: "update_forecast c (si_features (snd a)) (rm_forecast m0) = Inr fc"
    using update_forecast_total [OF c _ f, of "rm_forecast m"] m sy by (auto simp: reactive_inv_def)
  let ?m1 = "m0\<lparr>rm_forecast := fc\<rparr>"
  have m1: "reactive_memory_ok ?m1" using m0 by (simp add: reactive_memory_ok_iff memory_fields_ok_def)
  have "only_validation (manage_position c (snd a) ?m1)" if "rm_inventory_base m0 \<noteq> 0"
    by (rule only_validation_position [OF m1]) (use sy that in auto)
  moreover have "only_validation (manage_pending_entry c (snd a) ?m1)" if "rm_pending_entry_intent_id m0 \<noteq> None"
    by (rule only_validation_pending_entry [OF m1]) (use that in simp)
  ultimately show ?thesis
    using only_validation_entry [OF c] by (simp add: reactive_step_def s0 reactive_decide_def fc Let_def)
qed


section \<open>A stopped position\<close>

text \<open>The loss of a position has reached its stop, at the prices of an input.\<close>

definition stop_loss_of :: "reactive_config \<Rightarrow> reactive_memory \<Rightarrow> dec" where
  "stop_loss_of c m = py_or_else (rm_active_stop_loss_bps m) (rc_minimum_stop_loss_bps c)"

definition stopped_at :: "dec \<Rightarrow> dec \<Rightarrow> dec \<Rightarrow> strategy_input \<Rightarrow> bool" where
  "stopped_at stop q p s \<longleftrightarrow>
     dmul (ddiv (dmul (direction_sign (0 < q)) (dsub (fs_midprice (si_features s)) p)) p) 10000 \<le> dneg stop"

definition holds_position :: "dec \<Rightarrow> dec option \<Rightarrow> reactive_memory \<Rightarrow> bool" where
  "holds_position q stop m \<longleftrightarrow>
     reactive_memory_ok m \<and> rm_inventory_base m = q \<and> (\<exists>t > 0. rm_position_opened_ts_ns m = Some t)
   \<and> rm_active_stop_loss_bps m = stop"

definition market_exit_of :: "dec \<Rightarrow> strategy_input \<Rightarrow> kernel_decision \<Rightarrow> bool" where
  "market_exit_of q s d \<longleftrightarrow> (\<exists>i. kd_submit d = [i] \<and> oi_kind i = MARKET \<and> order_intent_ok i \<and> is_exit q s i)"

lemma synchronize_held:
  assumes h: "rm_inventory_base m = q" "q \<noteq> 0" "rm_position_opened_ts_ns m = Some t" and p: "0 < p"
  shows "synchronize_position q (Some p) now m = Inr ((clear_pending_entry m)
     \<lparr>rm_inventory_base := q, rm_average_entry_price := Some p, rm_position_opened_ts_ns := Some t,
      rm_active_stop_loss_bps := rm_active_stop_loss_bps m, rm_active_take_profit_bps := rm_active_take_profit_bps m\<rparr>)"
  using assms by (simp add: synchronize_position_def guardE_def not_le)

lemma urgent_when_stopped:
  assumes c: "reactive_config_ok c" and m: "reactive_memory_ok m" and q: "rm_inventory_base m = q"
    and s: "stopped_at (stop_loss_of c m) q p s"
  shows "urgent_exit c s f (view_position c s m p t) \<noteq> None"
proof -
  have e: "reactive_economics_ok c" using c by (simp add: reactive_config_ok_def)
  have pos: "0 < stop_loss_of c m" "0 < py_or_else (rm_active_take_profit_bps m) (rc_minimum_take_profit_bps c)"
    using e m by (auto simp: stop_loss_of_def py_or_else_def reactive_economics_ok_def reactive_memory_ok_def
        memory_fields_ok_def split: option.splits)
  have l: "0 \<le> rc_break_even_lock_fraction c" using e by (simp add: reactive_economics_ok_def)
  have "dneg (stop_loss_of c m) \<le> 0" using pos(1) dneg_pos_iff [of "stop_loss_of c m"] by linarith
  moreover have "0 \<le> dmul (py_or_else (rm_active_take_profit_bps m) (rc_minimum_take_profit_bps c)) (rc_break_even_lock_fraction c)"
    using pos(2) l by (simp add: dec_simps)
  ultimately have "pv_pnl_bps (view_position c s m p t) \<le> pv_stop_threshold (view_position c s m p t)"
    using s q by (auto simp: view_position_def Let_def stopped_at_def stop_loss_of_def)
  then show ?thesis by (simp add: urgent_exit_def)
qed

text \<open>A step with a stopped position exits at market, or waits for the retry interval, or for a
  cancel that is requested now or was requested less than the grace period ago.\<close>

lemma stopped_step:
  assumes c: "reactive_config_ok c" and h: "holds_position q stop m" and q: "q \<noteq> 0" and p: "0 < p"
    and a: "av_inventory (fst a) = q" "av_average_entry_price (fst a) = Some p" "0 \<le> av_observed_ts_ns (fst a)"
    and s: "strategy_input_ok (snd a)" "stopped_at (stop_loss_of c m) q p (snd a)"
    and d: "reactive_step c a m = Inr (m', d)" and no: "\<not> market_exit_of q (snd a) d"
  shows "kd_submit d = [] \<and> holds_position q stop m' \<and> rm_last_order_ts_ns m' = rm_last_order_ts_ns m
    \<and> ((rm_pending_exit_intent_id m' = None
          \<and> \<not> opt_all (\<lambda>t. rc_exit_retry_ns c \<le> step_time a - t) (rm_last_order_ts_ns m))
     \<or> (rm_pending_exit_intent_id m \<noteq> None \<and> rm_pending_exit_cancel_ts_ns m = None
          \<and> rm_pending_exit_cancel_ts_ns m' = Some (step_time a))
     \<or> (\<exists>t. rm_pending_exit_intent_id m \<noteq> None \<and> rm_pending_exit_cancel_ts_ns m = Some t
          \<and> rm_pending_exit_cancel_ts_ns m' = Some t \<and> step_time a - t < rc_maker_exit_cancel_grace_ns c))"
proof -
  obtain t where t: "0 < t" "rm_position_opened_ts_ns m = Some t" using h by (auto simp: holds_position_def)
  have hm: "reactive_memory_ok m" "rm_inventory_base m = q" "rm_active_stop_loss_bps m = stop"
    using h by (auto simp: holds_position_def)
  let ?m0 = "(clear_pending_entry m)
     \<lparr>rm_inventory_base := q, rm_average_entry_price := Some p, rm_position_opened_ts_ns := Some t,
      rm_active_stop_loss_bps := rm_active_stop_loss_bps m, rm_active_take_profit_bps := rm_active_take_profit_bps m\<rparr>"
  have s0: "synchronize_position q (Some p) (av_observed_ts_ns (fst a)) m = Inr ?m0"
    by (rule synchronize_held [OF hm(2) q t(2) p])
  have ok0: "reactive_memory_ok ?m0" by (rule synchronize_position_ok [OF hm(1) a(3) s0])
  have r0: "0 \<le> fs_receive_ts_ns (si_features (snd a))" using s(1) by (auto simp: strategy_input_ok_def feature_snapshot_ok_iff)
  have "reactive_decide c (snd a) ?m0 = Inr (m', d)" using d s0 a by (simp add: reactive_step_def)
  then obtain fc m1 where m1: "m1 = ?m0\<lparr>rm_forecast := fc\<rparr>" and mp: "manage_position c (snd a) m1 = Inr (m', d)"
    by (cases rule: reactive_decide_phases) (use q in auto)
  have ok1: "reactive_memory_ok m1" using ok0 by (simp add: m1 reactive_memory_ok_iff memory_fields_ok_def)
  have f1: "rm_inventory_base m1 = q" "rm_average_entry_price m1 = Some p" "rm_position_opened_ts_ns m1 = Some t"
    "rm_last_order_ts_ns m1 = rm_last_order_ts_ns m" "rm_pending_exit_intent_id m1 = rm_pending_exit_intent_id m"
    "rm_pending_exit_cancel_ts_ns m1 = rm_pending_exit_cancel_ts_ns m" "rm_active_stop_loss_bps m1 = rm_active_stop_loss_bps m"
    by (simp_all add: m1 clear_pending_entry_def)
  have st: "stop_loss_of c m1 = stop_loss_of c m" by (simp add: stop_loss_of_def f1)
  have okm': "reactive_memory_ok m'" using manage_position_ok [OF ok1 r0 mp] by blast
  have po: "py_or (rm_average_entry_price m1) (si_position_average_entry_price (snd a)) = Some p"
    "py_or (rm_position_opened_ts_ns m1) (si_position_opened_ts_ns (snd a)) = Some t"
    using p t by (simp_all add: py_or_def f1)
  have mx: "kd_submit d = [] \<and> m' = x
      \<and> \<not> opt_all (\<lambda>u. rc_exit_retry_ns c \<le> step_time a - u) (rm_last_order_ts_ns x)"
    if mx: "market_exit c (snd a) x act r pnl th tp = Inr (m', d)" and x: "rm_inventory_base x = q" for x act r pnl th tp
    using mx
  proof (cases rule: market_exit_cases)
    case (exit why)
    have "is_exit q (snd a) (exit_intent (snd a) x ''market-exit'' False why)"
      using exit_intent_is_exit [of x] x by simp
    moreover have "oi_kind (exit_intent (snd a) x ''market-exit'' False why) = MARKET" by (simp add: exit_intent_def Let_def)
    ultimately show ?thesis using exit no by (auto simp: market_exit_of_def)
  qed (auto simp: step_time_def dest: quiet_simps)
  from mp show ?thesis
  proof (cases rule: manage_position_cases)
    case unknown
    with po show ?thesis by simp
  next
    case (known entry opened v mu)
    have v: "v = view_position c (snd a) m1 p t" using known(1-3) po by simp
    have urgent: "urgent_exit c (snd a) (rm_forecast m1) v \<noteq> None"
      unfolding v by (rule urgent_when_stopped [OF c ok1 f1(1)]) (use s(2) st in simp)
    have fm: "rm_inventory_base mu = q" "rm_last_order_ts_ns mu = rm_last_order_ts_ns m"
      "rm_pending_exit_cancel_ts_ns mu = rm_pending_exit_cancel_ts_ns m" "rm_position_opened_ts_ns mu = Some t"
      "rm_active_stop_loss_bps mu = rm_active_stop_loss_bps m" "rm_pending_exit_intent_id mu = rm_pending_exit_intent_id m"
      by (simp_all add: known(4) f1)
    from known(5) urgent consider
        (pending) i where "rm_pending_exit_intent_id m = Some i" "manage_pending_exit c (snd a) mu i (pv_pnl_bps v)
            (urgent_exit c (snd a) (rm_forecast m1) v) (pv_stop_threshold v) (pv_take_profit v) = Inr (m', d)"
      | (market) act r where "rm_pending_exit_intent_id m = None"
          "market_exit c (snd a) mu act r (pv_pnl_bps v) (pv_stop_threshold v) (pv_take_profit v) = Inr (m', d)"
      by (auto simp: f1)
    then show ?thesis
    proof cases
      case market
      from mx [OF market(2) fm(1)] okm' fm hm t market(1) show ?thesis by (auto simp: holds_position_def)
    next
      case pending
      from pending(2) show ?thesis
      proof (cases rule: manage_pending_exit_cases)
        case resting
        with urgent show ?thesis by simp
      next
        case (grace u)
        with okm' fm hm t pending(1) show ?thesis by (auto simp: holds_position_def step_time_def dest: quiet_simps)
      next
        case (cancel act r)
        with okm' fm hm t pending(1) show ?thesis by (auto simp: holds_position_def step_time_def)
      next
        case (market act r u)
        have "rm_inventory_base (clear_pending_exit mu) = q" using fm by simp
        from mx [OF market(2) this] okm' fm hm t show ?thesis
          by (auto simp: holds_position_def clear_pending_exit_def)
      qed
    qed
  qed
qed


text \<open>After a first such step every wait is measured from its time.\<close>

definition waits_from :: "int \<Rightarrow> reactive_memory \<Rightarrow> bool" where
  "waits_from start m \<longleftrightarrow>
     opt_all (\<lambda>t. t \<le> start) (rm_last_order_ts_ns m)
   \<and> (rm_pending_exit_intent_id m = None \<or> (\<exists>t \<le> start. rm_pending_exit_cancel_ts_ns m = Some t))"

text \<open>A valid input, with a valid structure snapshot when it carries one and a time of at most 40 digits, at
  which the account shows the position and its loss is beyond the stop.\<close>

definition stopped_input :: "dec \<Rightarrow> dec \<Rightarrow> dec \<Rightarrow> account_view \<times> strategy_input \<Rightarrow> bool" where
  "stopped_input stop q p a \<longleftrightarrow>
     av_inventory (fst a) = q \<and> av_average_entry_price (fst a) = Some p \<and> 0 \<le> av_observed_ts_ns (fst a)
   \<and> strategy_input_ok (snd a) \<and> stopped_at stop q p (snd a)
   \<and> opt_all (\<lambda>st. smart_money_error st = None) (si_market_structure (snd a)) \<and> step_time a < 10 ^ 40"

lemma stopped_replay:
  assumes c: "reactive_config_ok c" and q: "q \<noteq> 0" and p: "0 < p"
  shows "holds_position q stop m \<Longrightarrow> waits_from start m \<Longrightarrow>
    list_all (stopped_input (py_or_else stop (rc_minimum_stop_loss_bps c)) q p) ss \<Longrightarrow>
    replay (reactive_step c) m ss = Inr (m', ds) \<Longrightarrow>
    b \<in> set ss \<Longrightarrow> start + max (rc_exit_retry_ns c) (rc_maker_exit_cancel_grace_ns c) \<le> step_time b \<Longrightarrow>
    \<exists>k < length ds. market_exit_of q (snd (ss ! k)) (ds ! k)"
proof (induction ss arbitrary: m ds)
  case (Cons a ss)
  then obtain m1 d ds' where d: "reactive_step c a m = Inr (m1, d)" "replay (reactive_step c) m1 ss = Inr (m', ds')" "ds = d # ds'"
    by (auto simp: bindE_eq_Inr_iff)
  have a: "stopped_input (py_or_else stop (rc_minimum_stop_loss_bps c)) q p a" using Cons.prems(3) by simp
  show ?case
  proof (cases "market_exit_of q (snd a) d")
    case True
    then show ?thesis by (intro exI [of _ 0]) (simp add: d(3))
  next
    case False
    have st: "stop_loss_of c m = py_or_else stop (rc_minimum_stop_loss_bps c)"
      using Cons.prems(1) by (simp add: stop_loss_of_def holds_position_def)
    note step = stopped_step [OF c Cons.prems(1) q p _ _ _ _ _ d(1) False]
    have step: "kd_submit d = [] \<and> holds_position q stop m1 \<and> rm_last_order_ts_ns m1 = rm_last_order_ts_ns m
      \<and> ((rm_pending_exit_intent_id m1 = None
            \<and> \<not> opt_all (\<lambda>t. rc_exit_retry_ns c \<le> step_time a - t) (rm_last_order_ts_ns m))
       \<or> (rm_pending_exit_intent_id m \<noteq> None \<and> rm_pending_exit_cancel_ts_ns m = None
            \<and> rm_pending_exit_cancel_ts_ns m1 = Some (step_time a))
       \<or> (\<exists>t. rm_pending_exit_intent_id m \<noteq> None \<and> rm_pending_exit_cancel_ts_ns m = Some t
            \<and> rm_pending_exit_cancel_ts_ns m1 = Some t \<and> step_time a - t < rc_maker_exit_cancel_grace_ns c))"
      by (rule step) (use a st in \<open>auto simp: stopped_input_def\<close>)
    have w: "waits_from start m1" using step Cons.prems(2) by (auto simp: waits_from_def)
    have "b \<noteq> a"
    proof
      assume "b = a"
      with Cons.prems(6) have t: "start + rc_exit_retry_ns c \<le> step_time a" "start + rc_maker_exit_cancel_grace_ns c \<le> step_time a"
        by auto
      with step Cons.prems(2) show False
        by (cases "rm_last_order_ts_ns m") (auto simp: waits_from_def)
    qed
    with Cons.prems have "b \<in> set ss" "list_all (stopped_input (py_or_else stop (rc_minimum_stop_loss_bps c)) q p) ss" by auto
    from Cons.IH [OF _ w this(2) d(2) this(1) Cons.prems(6)] step
    obtain k where "k < length ds'" "market_exit_of q (snd (ss ! k)) (ds' ! k)" by blast
    then show ?thesis by (intro exI [of _ "Suc k"]) (simp add: d(3))
  qed
qed simp

section \<open>The exit of a stopped position raises nothing\<close>

text \<open>Both exit prices are positive when the distance stays below the whole price.\<close>

lemma rnd28_basis_points: "rnd28 9999 = 9999" "rnd28 (9999 / 10000) = 9999 / 10000"
  using rnd28_exact [of 9999 0] rnd28_exact [of 9999 "- 4"] by (simp_all add: power_int_minus)

lemma exit_price_pos:
  assumes p: "0 < entry" and b: "\<bar>bps\<bar> \<le> 9999"
  shows "0 < exit_price entry long bps"
proof -
  have low: "rnd28 (- 9999) = - 9999" "rnd28 (- (9999 / 10000)) = - (9999 / 10000)"
    using rnd28_basis_points by (simp_all add: rnd28_uminus del: minus_divide_left)
  have "- 9999 \<le> dmul (direction_sign long) bps"
    unfolding dmul_def by (rule dec.rnd_ge_fixed [OF low(1)]) (use b in \<open>auto simp: direction_sign_def abs_le_iff\<close>)
  then have "- (9999 / 10000) \<le> ddiv (dmul (direction_sign long) bps) 10000"
    unfolding ddiv_def by (intro dec.rnd_ge_fixed [OF low(2)]) simp
  then have "0 < 1 + ddiv (dmul (direction_sign long) bps) 10000" by linarith
  with p show ?thesis by (simp add: exit_price_def dec_simps zero_less_mult_iff)
qed

text \<open>The distances a position is managed with.\<close>

definition target_of :: "reactive_config \<Rightarrow> reactive_memory \<Rightarrow> dec" where
  "target_of c m = py_or_else (rm_active_take_profit_bps m) (rc_minimum_take_profit_bps c)"

lemma managed_distances:
  assumes c: "reactive_config_ok c" and m: "reactive_memory_ok m"
    and b: "stop_loss_of c m \<le> 9999" "target_of c m \<le> 9999"
  shows "\<bar>pv_stop_threshold (view_position c s m p t)\<bar> \<le> 9999" "\<bar>pv_take_profit (view_position c s m p t)\<bar> \<le> 9999"
proof -
  have e: "reactive_economics_ok c" using c by (simp add: reactive_config_ok_def)
  have pos: "0 < stop_loss_of c m" "0 < target_of c m"
    using e m by (auto simp: stop_loss_of_def target_of_def py_or_else_def reactive_economics_ok_def reactive_memory_ok_def
        memory_fields_ok_def split: option.splits)
  have l: "0 \<le> rc_break_even_lock_fraction c" "rc_break_even_lock_fraction c < 1"
    using e by (simp_all add: reactive_economics_ok_def)
  have "target_of c m * rc_break_even_lock_fraction c \<le> 9999 * 1"
    by (rule mult_mono) (use b(2) l pos(2) in simp_all)
  then have lock: "\<bar>dmul (target_of c m) (rc_break_even_lock_fraction c)\<bar> \<le> 9999"
    using pos(2) l dec.rnd_le_fixed [OF rnd28_basis_points(1)] dmul_nonneg_iff [of "target_of c m" "rc_break_even_lock_fraction c"]
    by (simp add: dmul_def)
  have "\<bar>dneg (stop_loss_of c m)\<bar> \<le> 9999"
    using pos(1) b(1) dec.rnd_le_fixed [OF rnd28_basis_points(1), of "stop_loss_of c m"]
      dec.rnd_nonneg [of "stop_loss_of c m"] by (simp add: dneg_def rnd28_uminus)
  with lock show "\<bar>pv_stop_threshold (view_position c s m p t)\<bar> \<le> 9999"
    by (simp add: view_position_def Let_def stop_loss_of_def target_of_def)
  show "\<bar>pv_take_profit (view_position c s m p t)\<bar> \<le> 9999"
    using pos(2) b(2) by (simp add: view_position_def Let_def target_of_def)
qed

lemma exit_intent_ok:
  assumes q: "rm_inventory_base m \<noteq> 0" and t: "0 \<le> fs_receive_ts_ns (si_features s)" "fs_receive_ts_ns (si_features s) < 10 ^ 40"
    and r: "0 \<le> rm_order_revision m" "rm_order_revision m + 1 < 10 ^ 40"
  shows "order_intent_ok (exit_intent s m ''market-exit'' False (MarketExit reason pnl age))"
proof -
  have "length (py_str (fs_receive_ts_ns (si_features s))) \<le> 40" by (rule length_py_str_le) (use t in simp_all)
  moreover have "length (py_str (rm_order_revision m + 1)) \<le> 40" by (rule length_py_str_le) (use r in simp_all)
  ultimately have "is_identifier (reactive_intent_id ''market-exit'' side (fs_receive_ts_ns (si_features s)) (rm_order_revision m + 1))"
    for side by (simp add: is_identifier_def reactive_intent_id_def side_value_def)
  then show ?thesis using q t(1) by (simp add: order_intent_ok_iff exit_intent_def Let_def is_identifier_def dec_simps)
qed

lemma market_exit_total:
  assumes m: "rm_inventory_base m \<noteq> 0" "rm_average_entry_price m = Some p" "0 < p"
    and f: "feature_snapshot_ok (si_features s)" "fs_receive_ts_ns (si_features s) < 10 ^ 40"
    and st: "opt_all (\<lambda>st. smart_money_error st = None) (si_market_structure s)"
    and r: "0 \<le> rm_order_revision m" "rm_order_revision m + 1 < 10 ^ 40"
    and b: "\<bar>stop\<bar> \<le> 9999" "\<bar>target\<bar> \<le> 9999"
  shows "\<exists>m' d. market_exit c s m action reason pnl stop target = Inr (m', d)"
proof -
  have t: "0 \<le> fs_receive_ts_ns (si_features s)" "0 < fs_midprice (si_features s)"
    using f(1) by (auto simp: feature_snapshot_ok_iff)
  have score: "0 \<le> active_confluence s long \<and> active_confluence s long \<le> 20" for long
    using st unfolding active_confluence_def smart_money_error_def first_error_None_iff
    by (cases "si_market_structure s") auto
  have age: "0 \<le> position_age_seconds m now" for now
    by (simp add: position_age_seconds_def dec_simps ONE_SECOND_NS_def split: option.splits)
  have "\<exists>d. exit_decision s m i action reason pnl stop target = Inr d" for i
    using m(2,3) t score age exit_price_pos [OF m(3) b(1)] exit_price_pos [OF m(3) b(2)]
    by (simp add: exit_decision_def Let_def mk_kernel_decision_def kernel_decision_error_def not_less)
  then show ?thesis
    using exit_intent_ok [OF m(1) t(1) f(2) r]
    by (auto simp: market_exit_def Let_def rs_transition_def mk_order_intent_Inr bindE_eq_Inr_iff
        mk_kernel_decision_Inr kernel_decision_error_def no_decision_def)
qed

text \<open>A decision in a position keeps the position and the distances it is managed with.\<close>

lemma manage_position_keeps:
  assumes "manage_position c s m = Inr (m', d)"
  shows "rm_inventory_base m' = rm_inventory_base m \<and> rm_position_opened_ts_ns m' = rm_position_opened_ts_ns m
    \<and> rm_active_stop_loss_bps m' = rm_active_stop_loss_bps m \<and> rm_active_take_profit_bps m' = rm_active_take_profit_bps m
    \<and> rm_order_revision m' \<le> rm_order_revision m + 1"
proof -
  have me: "rm_inventory_base m' = rm_inventory_base x \<and> rm_position_opened_ts_ns m' = rm_position_opened_ts_ns x
    \<and> rm_active_stop_loss_bps m' = rm_active_stop_loss_bps x \<and> rm_active_take_profit_bps m' = rm_active_take_profit_bps x
    \<and> rm_order_revision m' \<le> rm_order_revision x + 1"
    if "market_exit c s x a r p st tp = Inr (m', d)" for x a r p st tp
    using that by (cases rule: market_exit_cases) auto
  from assms show ?thesis
  proof (cases rule: manage_position_cases)
    case (known entry opened v mu)
    note mu = known(4)
    from known(5) consider
        (pending) i where "manage_pending_exit c s mu i (pv_pnl_bps v) (urgent_exit c s (rm_forecast m) v)
                (pv_stop_threshold v) (pv_take_profit v) = Inr (m', d)"
      | (market) a r where "market_exit c s mu a r (pv_pnl_bps v) (pv_stop_threshold v) (pv_take_profit v) = Inr (m', d)"
      | (maker) "maker_take_profit s mu (pv_pnl_bps v) (pv_stop_threshold v) (pv_take_profit v) = Inr (m', d)"
      | (hold) "m' = mu" by blast
    then show ?thesis
    proof cases
      case pending
      then show ?thesis
      proof (cases rule: manage_pending_exit_cases)
        case (market a r t)
        from me [OF market(2)] show ?thesis by (simp add: mu clear_pending_exit_def)
      qed (simp_all add: mu)
    next
      case market
      from me [OF market] show ?thesis by (simp add: mu)
    next
      case maker
      from maker_take_profit_Inr [OF maker] show ?thesis by (simp add: mu)
    next
      case hold
      then show ?thesis by (simp add: mu)
    qed
  qed simp
qed

text \<open>The position manager itself, at the stop.\<close>

lemma manage_position_total:
  assumes c: "reactive_config_ok c" and m: "reactive_memory_ok m" and q: "rm_inventory_base m = q" "q \<noteq> 0"
    and p: "rm_average_entry_price m = Some p" "0 < p" and o': "rm_position_opened_ts_ns m = Some t" "0 < t"
    and f: "feature_snapshot_ok (si_features s)" "fs_receive_ts_ns (si_features s) < 10 ^ 40"
    and st: "opt_all (\<lambda>st. smart_money_error st = None) (si_market_structure s)"
    and b: "stop_loss_of c m \<le> 9999" "target_of c m \<le> 9999" and r: "rm_order_revision m + 1 < 10 ^ 40"
    and stopped: "stopped_at (stop_loss_of c m) q p s"
  shows "\<exists>m' d. manage_position c s m = Inr (m', d)"
proof -
  let ?v = "view_position c s m p t" and ?mu = "m\<lparr>rm_peak_favorable_bps := pv_peak (view_position c s m p t)\<rparr>"
  obtain act why where u: "urgent_exit c s (rm_forecast m) ?v = Some (act, why)"
    using urgent_when_stopped [OF c m q(1) stopped] by fastforce
  have rev: "0 \<le> rm_order_revision m" using m by (simp add: reactive_memory_ok_def memory_fields_ok_def)
  have exit: "\<exists>m' d. market_exit c s x a w (pv_pnl_bps ?v) (pv_stop_threshold ?v) (pv_take_profit ?v) = Inr (m', d)"
    if "rm_inventory_base x = q" "rm_average_entry_price x = Some p" "rm_order_revision x = rm_order_revision m" for x a w
    by (rule market_exit_total [OF _ that(2) p(2) f st _ _ managed_distances [OF c m b]])
      (use that q(2) rev r in simp_all)
  have exits: "\<exists>m' d. market_exit c s ?mu a w (pv_pnl_bps ?v) (pv_stop_threshold ?v) (pv_take_profit ?v) = Inr (m', d)"
    "\<exists>m' d. market_exit c s (clear_pending_exit ?mu) a w (pv_pnl_bps ?v) (pv_stop_threshold ?v) (pv_take_profit ?v) = Inr (m', d)"
    for a w by (rule exit; use q p in \<open>simp add: clear_pending_exit_def\<close>)+
  have po: "py_or (rm_average_entry_price m) (si_position_average_entry_price s) = Some p"
    "py_or (rm_position_opened_ts_ns m) (si_position_opened_ts_ns s) = Some t"
    using p o' by (simp_all add: py_or_def)
  have pending: "\<exists>m' d. manage_pending_exit c s ?mu i (pv_pnl_bps ?v) (Some (act, why)) (pv_stop_threshold ?v) (pv_take_profit ?v)
      = Inr (m', d)" if i: "rm_pending_exit_intent_id m = Some i" for i
  proof -
    obtain created a w where pe: "rm_pending_exit_created_ts_ns m = Some created" "rm_pending_exit_action m = Some a"
      "rm_pending_exit_reason m = Some w"
      using m i by (auto simp: reactive_memory_ok_iff exit_group_def entry_group_def)
    show ?thesis
      unfolding manage_pending_exit_def
      using exits(2) pe by (auto simp: Let_def rs_transition_def bindE_eq_Inr_iff mk_kernel_decision_Inr
          kernel_decision_error_def no_decision_def split: option.splits)
  qed
  show ?thesis
    using exits(1) pending u by (auto simp: manage_position_def po Let_def split: option.splits)
qed

text \<open>Both distances a position is managed with stay below the whole price, 10000 basis points.\<close>

definition exits_priced :: "reactive_config \<Rightarrow> dec option \<Rightarrow> dec option \<Rightarrow> bool" where
  "exits_priced c stop target \<longleftrightarrow>
     py_or_else stop (rc_minimum_stop_loss_bps c) \<le> 9999 \<and> py_or_else target (rc_minimum_take_profit_bps c) \<le> 9999"

lemma stopped_step_total:
  assumes c: "reactive_config_ok c" and inv: "reactive_inv c m" and h: "holds_position q stop m" and q: "q \<noteq> 0" and p: "0 < p"
    and a: "stopped_input (py_or_else stop (rc_minimum_stop_loss_bps c)) q p a"
    and b: "exits_priced c stop (rm_active_take_profit_bps m)" and r: "rm_order_revision m + 1 < 10 ^ 40"
  obtains m' d where "reactive_step c a m = Inr (m', d)" "reactive_inv c m'" "holds_position q stop m'"
    "rm_active_take_profit_bps m' = rm_active_take_profit_bps m" "rm_order_revision m' \<le> rm_order_revision m + 1"
proof -
  obtain t where t: "0 < t" "rm_position_opened_ts_ns m = Some t" using h by (auto simp: holds_position_def)
  have hm: "reactive_memory_ok m" "rm_inventory_base m = q" "rm_active_stop_loss_bps m = stop"
    using h by (auto simp: holds_position_def)
  have a': "av_inventory (fst a) = q" "av_average_entry_price (fst a) = Some p" "0 \<le> av_observed_ts_ns (fst a)"
    "strategy_input_ok (snd a)" "stopped_at (py_or_else stop (rc_minimum_stop_loss_bps c)) q p (snd a)"
    "opt_all (\<lambda>st. smart_money_error st = None) (si_market_structure (snd a))" "step_time a < 10 ^ 40"
    using a unfolding stopped_input_def by simp_all
  let ?m0 = "(clear_pending_entry m)
     \<lparr>rm_inventory_base := q, rm_average_entry_price := Some p, rm_position_opened_ts_ns := Some t,
      rm_active_stop_loss_bps := rm_active_stop_loss_bps m, rm_active_take_profit_bps := rm_active_take_profit_bps m\<rparr>"
  have s0: "synchronize_position q (Some p) (av_observed_ts_ns (fst a)) m = Inr ?m0"
    by (rule synchronize_held [OF hm(2) q t(2) p])
  have ok0: "reactive_memory_ok ?m0" by (rule synchronize_position_ok [OF hm(1) a'(3) s0])
  have f: "feature_snapshot_ok (si_features (snd a))" using a'(4) by (simp add: strategy_input_ok_def)
  obtain fc where fc: "update_forecast c (si_features (snd a)) (rm_forecast ?m0) = Inr fc"
    using update_forecast_total [OF c _ f, of "rm_forecast m"] inv by (auto simp: reactive_inv_def clear_pending_entry_def)
  define m0 where "m0 = ?m0"
  define m1 where "m1 = m0\<lparr>rm_forecast := fc\<rparr>"
  have ok1: "reactive_memory_ok m1" using ok0 by (simp add: m1_def m0_def reactive_memory_ok_iff memory_fields_ok_def)
  have f1: "rm_inventory_base m1 = q" "rm_average_entry_price m1 = Some p" "rm_position_opened_ts_ns m1 = Some t"
    "rm_order_revision m1 = rm_order_revision m" "rm_active_stop_loss_bps m1 = stop"
    "rm_active_take_profit_bps m1 = rm_active_take_profit_bps m"
    by (simp_all add: m1_def m0_def clear_pending_entry_def hm(3))
  have d1: "stop_loss_of c m1 = py_or_else stop (rc_minimum_stop_loss_bps c)"
    "target_of c m1 = py_or_else (rm_active_take_profit_bps m) (rc_minimum_take_profit_bps c)"
    by (simp_all add: stop_loss_of_def target_of_def f1)
  have now: "fs_receive_ts_ns (si_features (snd a)) < 10 ^ 40" using a'(7) by (simp only: step_time_def)
  obtain m' d where mp: "manage_position c (snd a) m1 = Inr (m', d)"
    using manage_position_total [OF c ok1 f1(1) q f1(2) p f1(3) t(1) f now a'(6), unfolded d1 f1(4)] b r a'(5)
    unfolding exits_priced_def by blast
  have step: "reactive_step c a m = Inr (m', d)"
    using q f1(1) fc mp s0 by (simp add: reactive_step_def a'(1,2) reactive_decide_def m1_def flip: m0_def)
  have inv': "reactive_inv c m'" by (rule reactive_step_inv [OF c inv a'(4,3) step])
  have "holds_position q stop m'" "rm_active_take_profit_bps m' = rm_active_take_profit_bps m"
    "rm_order_revision m' \<le> rm_order_revision m + 1"
    using manage_position_keeps [OF mp] inv' t f1 by (simp_all add: holds_position_def reactive_inv_def)
  with step inv' show thesis by (rule that)
qed

lemma stopped_replay_total:
  assumes c: "reactive_config_ok c" and q: "q \<noteq> 0" and p: "0 < p"
  shows "reactive_inv c m \<Longrightarrow> holds_position q stop m \<Longrightarrow>
    list_all (stopped_input (py_or_else stop (rc_minimum_stop_loss_bps c)) q p) ss \<Longrightarrow>
    exits_priced c stop (rm_active_take_profit_bps m) \<Longrightarrow> rm_order_revision m + int (length ss) < 10 ^ 40 \<Longrightarrow>
    \<exists>m' ds. replay (reactive_step c) m ss = Inr (m', ds)"
proof (induction ss arbitrary: m)
  case (Cons a ss)
  obtain m1 d where d: "reactive_step c a m = Inr (m1, d)" "reactive_inv c m1" "holds_position q stop m1"
    "rm_active_take_profit_bps m1 = rm_active_take_profit_bps m" "rm_order_revision m1 \<le> rm_order_revision m + 1"
  proof (rule stopped_step_total [OF c Cons.prems(1,2) q p _ Cons.prems(4)])
    show "stopped_input (py_or_else stop (rc_minimum_stop_loss_bps c)) q p a" using Cons.prems(3) by simp
    show "rm_order_revision m + 1 < 10 ^ 40" using Cons.prems(5) by simp
  qed
  have "\<exists>m' ds. replay (reactive_step c) m1 ss = Inr (m', ds)"
    by (rule Cons.IH [OF d(2,3)]) (use Cons.prems d in simp_all)
  with d(1) show ?case by (auto simp: bindE_eq_Inr_iff)
qed simp

section \<open>What the kernel cancels\<close>

definition known_ids :: "reactive_memory \<Rightarrow> string set" where
  "known_ids m = set (opt_list (rm_pending_entry_intent_id m)) \<union> set (opt_list (rm_pending_exit_intent_id m))"

lemma known_ids_simps [simp]:
  "known_ids (reset_confirmation m) = known_ids m"
  "known_ids (confirm c m side t) = known_ids m"
  "known_ids (m\<lparr>rm_entry_attempt_day := day, rm_entry_attempts_today := k\<rparr>) = known_ids m"
  "known_ids (m\<lparr>rm_forecast := fc\<rparr>) = known_ids m"
  "known_ids ((clear_pending_entry m)\<lparr>rm_planned_stop_loss_bps := x, rm_planned_take_profit_bps := y\<rparr>)
     = set (opt_list (rm_pending_exit_intent_id m))"
  by (simp_all add: known_ids_def reset_confirmation_def confirm_def clear_pending_entry_def Let_def)

lemma manage_position_ids:
  assumes "manage_position c s m = Inr (m', d)"
  shows "set (kd_cancel_intent_ids d) \<subseteq> known_ids m
    \<and> (\<forall>i \<in> known_ids m'. i \<in> known_ids m \<or> has_serial (rm_order_revision m + 1) i)"
  using assms
proof (cases rule: manage_position_cases)
  case (known entry opened v mu)
  have k: "known_ids (clear_pending_exit mu) \<subseteq> known_ids m" "known_ids mu = known_ids m"
    "rm_pending_exit_intent_id mu = rm_pending_exit_intent_id m"
    by (auto simp: known(4) known_ids_def clear_pending_exit_def)
  have me: "known_ids m' = known_ids x \<and> kd_cancel_intent_ids d = []"
    if "market_exit c s x a r pnl st tp = Inr (m', d)" for x a r pnl st tp
    using that by (cases rule: market_exit_cases) (auto simp: known_ids_def dest: quiet_simps)
  from known(5) show ?thesis
  proof (elim disjE exE conjE)
    fix i assume i: "rm_pending_exit_intent_id m = Some i" and "manage_pending_exit c s mu i (pv_pnl_bps v)
      (urgent_exit c s (rm_forecast m) v) (pv_stop_threshold v) (pv_take_profit v) = Inr (m', d)"
    from this(2) show ?thesis
    proof (cases rule: manage_pending_exit_cases)
      case (market a r t)
      from me [OF market(2)] k show ?thesis by auto
    qed (use k i in \<open>auto simp: known_ids_def dest: quiet_simps\<close>)
  next
    fix a r assume "market_exit c s mu a r (pv_pnl_bps v) (pv_stop_threshold v) (pv_take_profit v) = Inr (m', d)"
    from me [OF this] k show ?thesis by auto
  next
    assume mt: "maker_take_profit s mu (pv_pnl_bps v) (pv_stop_threshold v) (pv_take_profit v) = Inr (m', d)"
    have "has_serial (rm_order_revision m + 1) (oi_intent_id (exit_intent s mu ''maker-exit'' True (MakerTakeProfit (pv_pnl_bps v))))"
      using has_serial_reactive(2) [of mu] by (simp add: known(4))
    with maker_take_profit_Inr [OF mt] k show ?thesis by (auto simp: known_ids_def)
  next
    assume "m' = mu" "quiet d"
    with k show ?thesis by (auto dest: quiet_simps)
  qed
qed (auto dest: quiet_simps)

lemma reactive_decide_ids:
  assumes "reactive_decide c s m = Inr (m', d)"
  shows "set (kd_cancel_intent_ids d) \<subseteq> known_ids m
    \<and> (\<forall>i \<in> known_ids m'. i \<in> known_ids m \<or> has_serial (rm_order_revision m + 1) i)"
  using assms
proof (cases rule: reactive_decide_phases)
  case (1 fc m1)
  have m1: "known_ids m1 = known_ids m" "rm_order_revision m1 = rm_order_revision m" by (simp_all add: 1(2) known_ids_def)
  from 1(3) show ?thesis
  proof (elim disjE conjE)
    assume "manage_position c s m1 = Inr (m', d)"
    from manage_position_ids [OF this] m1 show ?thesis by simp
  next
    assume "manage_pending_entry c s m1 = Inr (m', d)"
    then show ?thesis
    proof (cases rule: manage_pending_entry_cases)
      case resting
      with m1 show ?thesis by (simp add: quiet_simps)
    next
      case (cancel i)
      have "known_ids m' \<subseteq> known_ids m1" unfolding cancel(4) by (auto simp: known_ids_def clear_pending_entry_def)
      moreover have "i \<in> known_ids m1" using cancel(1) by (simp add: known_ids_def)
      ultimately show ?thesis using cancel(3) m1(1) by auto
    qed
  next
    assume "evaluate_entry c s m1 = Inr (m', d)"
    then show ?thesis
    proof (cases rule: evaluate_entry_cases)
      case (blocked m2)
      from blocked(3) have "known_ids m' = known_ids m" unfolding blocked(1) using m1(1) by (elim disjE) simp_all
      with blocked(2) show ?thesis by (simp add: quiet_simps)
    next
      case (confirming st)
      then show ?thesis using m1(1) by (simp add: quiet_simps)
    next
      case (enter st h threshold)
      let ?cm = "confirm c m1 (entry_side st) (fs_receive_ts_ns (si_features s))"
      have new: "has_serial (rm_order_revision m + 1) (oi_intent_id (entry_intent c s st h (forecast_edge st h) threshold ?cm))"
        using has_serial_reactive(1) [of ?cm] m1 by simp
      have "rm_pending_exit_intent_id (reset_confirmation ?cm) = rm_pending_exit_intent_id m"
        by (simp add: reset_confirmation_def confirm_def Let_def 1(2))
      with submit_entry_Inr [OF enter(13)] have
        "known_ids m' \<subseteq> insert (oi_intent_id (entry_intent c s st h (forecast_edge st h) threshold ?cm)) (known_ids m)"
        "kd_cancel_intent_ids d = []"
        by (auto simp: known_ids_def)
      with new show ?thesis by auto
    qed
  qed
qed

lemma reactive_step_ids:
  assumes "reactive_step c a m = Inr (m', d)"
  shows "set (kd_cancel_intent_ids d) \<subseteq> known_ids m
    \<and> (\<forall>i \<in> known_ids m'. i \<in> known_ids m \<or> has_serial (rm_order_revision m + 1) i)
    \<and> (av_inventory (fst a) \<noteq> 0 \<longrightarrow> (\<forall>i \<in> set (kd_cancel_intent_ids d) \<union> known_ids m'.
         rm_pending_exit_intent_id m = Some i \<or> has_serial (rm_order_revision m + 1) i))"
proof -
  from assms obtain m0 where s0: "synchronize_position (av_inventory (fst a)) (av_average_entry_price (fst a)) (av_observed_ts_ns (fst a)) m = Inr m0"
    and d0: "reactive_decide c (snd a) m0 = Inr (m', d)"
    by (auto simp: reactive_step_def bindE_eq_Inr_iff)
  note sy = synchronize_position_Inr [OF s0]
  have "known_ids m0 \<subseteq> known_ids m" "rm_order_revision m0 = rm_order_revision m"
    "av_inventory (fst a) \<noteq> 0 \<longrightarrow> known_ids m0 = set (opt_list (rm_pending_exit_intent_id m))"
    using sy by (cases "av_inventory (fst a) = 0"; auto simp: known_ids_def)+
  with reactive_decide_ids [OF d0] show ?thesis by auto
qed

lemma forgotten_forever:
  "i \<notin> known_ids m \<Longrightarrow> has_serial n i \<Longrightarrow> 0 \<le> n \<Longrightarrow> n \<le> rm_order_revision m \<Longrightarrow>
     replay (reactive_step c) m ss = Inr (m', ds) \<Longrightarrow> \<forall>d \<in> set ds. i \<notin> set (kd_cancel_intent_ids d)"
proof (induction ss arbitrary: m ds)
  case (Cons a ss)
  then obtain m1 d ds' where d: "reactive_step c a m = Inr (m1, d)" "replay (reactive_step c) m1 ss = Inr (m', ds')" "ds = d # ds'"
    by (auto simp: bindE_eq_Inr_iff)
  have "\<not> has_serial (rm_order_revision m + 1) i"
    using has_serial_unique [of n "rm_order_revision m + 1" i] Cons.prems by auto
  then have "i \<notin> known_ids m1" "i \<notin> set (kd_cancel_intent_ids d)"
    using reactive_step_ids [OF d(1)] Cons.prems(1) by auto
  moreover have "rm_order_revision m \<le> rm_order_revision m1" using d(1) by (cases rule: reactive_step_outcome) auto
  ultimately show ?case using Cons.IH [OF _ Cons.prems(2,3) _ d(2)] Cons.prems(4) d(3) by auto
qed simp


section \<open>Concrete runs\<close>

text \<open>A policy with one forecast horizon, a memory whose learner has passed its quality gate, and a
  bullish structure: the step submits a maker entry.\<close>

definition example_config :: reactive_config where
  "example_config = default_reactive_config
     \<lparr>rc_forecast_horizons_ns := [30 * ONE_SECOND_NS], rc_forecast_recent_window := 50,
      rc_forecast_minimum_samples := 100, rc_minimum_quality_horizons := 1, rc_minimum_aligned_forecasts := 1,
      rc_minimum_signal_persistence := 1\<rparr>"

definition trained_memory :: reactive_memory where
  "trained_memory = new_reactive_memory
     \<lparr>rm_forecast :=
        \<lparr>rf_horizons = [\<lparr>hf_horizon_ns = 30 * ONE_SECOND_NS, hf_weights = 12 # replicate 7 0, hf_training_samples = 100,
             hf_recent_direction_hits = replicate 50 True, hf_recent_absolute_errors_bps = replicate 50 0,
             hf_latest_prediction_bps = 12\<rparr>],
         rf_pending = [], rf_last_sample_ts_ns = Some 0\<rparr>\<rparr>"

definition bullish_frame :: "int \<Rightarrow> timeframe_structure" where
  "bullish_frame seconds =
     \<lparr>ts_timeframe_seconds = seconds, ts_closed_bars = 20, ts_last_closed_ts_ns = Some 0, ts_close = Some 60000,
      ts_atr_bps = 3, ts_direction = BULLISH, ts_zone = DISCOUNT, ts_support = None, ts_resistance = None,
      ts_bullish_bos = True, ts_bearish_bos = False, ts_bullish_choch = False, ts_bearish_choch = False,
      ts_bullish_sweep = False, ts_bearish_sweep = False, ts_bullish_fvg_lower = None, ts_bullish_fvg_upper = None,
      ts_bearish_fvg_lower = None, ts_bearish_fvg_upper = None, ts_bullish_order_block_low = None,
      ts_bullish_order_block_high = None, ts_bearish_order_block_low = None, ts_bearish_order_block_high = None\<rparr>"

definition bullish_input :: strategy_input where
  "bullish_input = calm_input
     \<lparr>si_features := calm_features\<lparr>fs_microprice := 60000 + 6 / 10\<rparr>,
      si_market_structure := Some
        \<lparr>sm_observed_ts_ns = 1000, sm_revision = 3, sm_ready = True, sm_one_minute = bullish_frame 60,
         sm_five_minute = bullish_frame 300, sm_fifteen_minute = bullish_frame 900, sm_long_confluence = 8,
         sm_short_confluence = 0, sm_long_reasons = [''15m_bullish''], sm_short_reasons = []\<rparr>\<rparr>"

definition flat_view :: account_view where
  "flat_view = \<lparr>av_inventory = 0, av_average_entry_price = None, av_observed_ts_ns = 1000\<rparr>"

lemma example_config_ok: "reactive_config_ok example_config"
  by code_simp

lemma bullish_input_ok: "strategy_input_ok bullish_input"
  by code_simp

lemma trained_memory_inv: "reactive_inv example_config trained_memory"
  by code_simp

lemma bullish_step:
  "case reactive_step example_config (flat_view, bullish_input) trained_memory of
     Inl _ \<Rightarrow> False
   | Inr (m', d) \<Rightarrow> map oi_intent_id (kd_submit d) = [''rsc3-entry-buy-1000-1''] \<and> map oi_reduce_only (kd_submit d) = [False]
       \<and> rm_pending_entry_intent_id m' = Some ''rsc3-entry-buy-1000-1'' \<and> rm_pending_exit_intent_id m' = None
       \<and> rm_order_revision m' = 1"
  by code_simp


text \<open>A long position whose loss is far beyond its stop, with a maker exit still resting, and the same book
  three seconds later. The features are not ready, so the learner does not run.\<close>

definition losing_memory :: reactive_memory where
  "losing_memory = new_reactive_memory
     \<lparr>rm_inventory_base := 1, rm_average_entry_price := Some 60600, rm_position_opened_ts_ns := Some 500,
      rm_active_stop_loss_bps := Some 6, rm_active_take_profit_bps := Some 12, rm_order_revision := 4,
      rm_pending_exit_intent_id := Some ''rsc3-maker-exit-sell-800-4'', rm_pending_exit_created_ts_ns := Some 800,
      rm_pending_exit_action := Some EXIT_TAKE_PROFIT, rm_pending_exit_reason := Some ''take_profit_reached'',
      rm_last_order_ts_ns := Some 800\<rparr>"

definition losing_at :: "int \<Rightarrow> account_view \<times> strategy_input" where
  "losing_at t =
     (\<lparr>av_inventory = 1, av_average_entry_price = Some 60600, av_observed_ts_ns = t\<rparr>,
      calm_input\<lparr>si_features := calm_features\<lparr>fs_ready := False, fs_receive_ts_ns := t, fs_computed_ts_ns := t\<rparr>\<rparr>)"

definition losing_run :: "(account_view \<times> strategy_input) list" where
  "losing_run = [losing_at 1000, losing_at 3000001000]"

lemma losing_memory_facts:
  "holds_position 1 (Some 6) losing_memory" "reactive_inv default_reactive_config losing_memory"
proof -
  show "holds_position 1 (Some 6) losing_memory"
    unfolding holds_position_def by (intro conjI exI [of _ 500]) code_simp+
  show "reactive_inv default_reactive_config losing_memory" by code_simp
qed

lemma losing_at_simps:
  "step_time (losing_at t) = t" "av_inventory (fst (losing_at t)) = 1"
  "av_average_entry_price (fst (losing_at t)) = Some 60600" "av_observed_ts_ns (fst (losing_at t)) = t"
  by (simp_all add: losing_at_def step_time_def)

lemma losing_run_inputs: "list_all (stopped_input 6 1 60600) losing_run"
proof -
  have 1: "list_all (\<lambda>a. strategy_input_ok (snd a) \<and> stopped_at 6 1 60600 (snd a)
      \<and> opt_all (\<lambda>st. smart_money_error st = None) (si_market_structure (snd a))) losing_run" by code_simp
  have 2: "list_all (\<lambda>a. av_inventory (fst a) = 1 \<and> av_average_entry_price (fst a) = Some 60600
      \<and> 0 \<le> av_observed_ts_ns (fst a) \<and> step_time a < 10 ^ 40) losing_run"
    by (simp add: losing_run_def losing_at_simps)
  show ?thesis unfolding list_all_iff
  proof
    fix a assume a: "a \<in> set losing_run"
    note 1 [unfolded list_all_iff, rule_format, OF a] 2 [unfolded list_all_iff, rule_format, OF a]
    then show "stopped_input 6 1 60600 a" unfolding stopped_input_def by simp
  qed
qed

lemma losing_replay:
  "case replay (reactive_step default_reactive_config) losing_memory losing_run of
     Inl _ \<Rightarrow> False
   | Inr (m', ds) \<Rightarrow> map kd_cancel_intent_ids ds = [[''rsc3-maker-exit-sell-800-4''], []]
       \<and> map submissions ds = [[], [''rsc3-market-exit-sell-3000001000-5'']]"
  by code_simp

text \<open>A short position that is as far beyond its stop, but whose take profit is the whole price: the target price of
  the exit decision would be zero, the decision fails its validation, and the exit is not submitted.\<close>

definition unpriced_memory :: reactive_memory where
  "unpriced_memory = new_reactive_memory
     \<lparr>rm_inventory_base := - 1, rm_average_entry_price := Some 59400, rm_position_opened_ts_ns := Some 500,
      rm_active_stop_loss_bps := Some 6, rm_active_take_profit_bps := Some 10000, rm_order_revision := 4\<rparr>"

definition unpriced_at :: "int \<Rightarrow> account_view \<times> strategy_input" where
  "unpriced_at t = (\<lparr>av_inventory = - 1, av_average_entry_price = Some 59400, av_observed_ts_ns = t\<rparr>, snd (losing_at t))"

lemma unpriced_exit_raises:
  "reactive_inv default_reactive_config unpriced_memory"
  "stopped_at 6 (- 1) 59400 (snd (unpriced_at 1000))"
  "reactive_step default_reactive_config (unpriced_at 1000) unpriced_memory = Inl (ValidationError ''target_price'')"
  by code_simp+


lemma confluence_block_None:
  assumes "confluence_block c s st = None"
  shows "let sign = direction_sign (ts_direction (sm_fifteen_minute st) = BULLISH); f = si_features s
    in (ts_direction (sm_fifteen_minute st) = BULLISH \<or> ts_direction (sm_fifteen_minute st) = BEARISH)
     \<and> ts_direction (sm_five_minute st) = ts_direction (sm_fifteen_minute st)
     \<and> rc_minimum_book_imbalance c \<le> dmul sign (fs_book_imbalance f)
     \<and> rc_minimum_trade_flow_imbalance c \<le> dmul sign (fs_trade_flow_imbalance f)"
  using assms
  by (cases "ts_direction (sm_fifteen_minute st)") (auto simp: confluence_block_def Let_def not_less split: if_splits)

section \<open>The properties\<close>

text \<open>C4: Every order of the reactive scalper is justified by the state it is decided in: a decision submits at most one
  order; in a position it closes exactly that position (reduce-only, opposite side, full size); flat, it is a
  post-only order of the configured size at the touch, while no other entry is pending, with the 15 and 5 minute
  directions on its side, the spread, book imbalance and trade flow within their gates, and a forecast of a
  quality horizon that pays the dynamic cost threshold.\<close>
theorem reactive_orders_justified:
  assumes "reactive_step c a m = Inr (m', d)" "i \<in> set (kd_submit d)"
  shows "kd_submit d = [i] \<and> order_intent_ok i \<and>
    (if av_inventory (fst a) \<noteq> 0 then is_exit (av_inventory (fst a)) (snd a) i
     else is_entry c (snd a) i \<and> rm_pending_entry_intent_id m = None \<and> attempts_today (snd a) m < rc_maximum_entry_attempts_per_day c
      \<and> (let f = si_features (snd a); sign = direction_sign (oi_side i = BUY);
             bias = (if oi_side i = BUY then BULLISH else BEARISH)
         in fs_spread_bps f \<le> rc_maximum_spread_bps c
          \<and> rc_minimum_book_imbalance c \<le> dmul sign (fs_book_imbalance f)
          \<and> rc_minimum_trade_flow_imbalance c \<le> dmul sign (fs_trade_flow_imbalance f)
          \<and> (\<exists>st forecast h. si_market_structure (snd a) = Some st
               \<and> ts_direction (sm_fifteen_minute st) = bias \<and> ts_direction (sm_five_minute st) = bias
               \<and> update_forecast c f (rm_forecast m) = Inr forecast \<and> h \<in> set (quality_horizons c forecast)
               \<and> rc_minimum_forecast_edge_bps c \<le> dmul sign (hf_latest_prediction_bps h)
               \<and> required_edge c (snd a) \<le> dmul sign (hf_latest_prediction_bps h))))"
  using assms(1)
proof (cases rule: reactive_step_outcome)
  case none
  with assms(2) show ?thesis by simp
next
  case (exit j)
  with assms(2) show ?thesis by simp
next
  case (enter j m1 st h threshold)
  have j: "j = i" using enter(2) assms(2) by simp
  have gate: "fs_spread_bps (si_features (snd a)) \<le> rc_maximum_spread_bps c"
    using enter(14) by (auto simp: entry_gate_def Let_def not_less split: if_splits)
  have side: "(oi_side i = BUY) = (ts_direction (sm_fifteen_minute st) = BULLISH)"
    using enter(19) j by (simp add: entry_side_def)
  note block = confluence_block_None [OF enter(18)]
  show ?thesis
    using enter(1-4,10,12,15,20-22,26) gate block unfolding j side Let_def forecast_edge_def
    by (auto intro!: exI [of _ st] exI [of _ "rm_forecast m1"] exI [of _ h])
qed

lemma reactive_orders_justified_witness:
  "\<exists>m' d i. reactive_step example_config (flat_view, bullish_input) trained_memory = Inr (m', d) \<and> kd_submit d = [i]
     \<and> is_entry example_config bullish_input i \<and> order_intent_ok i"
proof -
  obtain m' d i where r: "reactive_step example_config (flat_view, bullish_input) trained_memory = Inr (m', d)" "kd_submit d = [i]"
    using bullish_step by (fastforce split: sum.splits prod.splits simp: map_eq_Cons_conv)
  from reactive_orders_justified [OF r(1), of i] r show ?thesis by (simp add: flat_view_def)
qed

text \<open>C24: Entries are rationed over every replay in time order: no two orders share an identity, two orders that
  open exposure are at least the minimum entry interval apart, and those of one UTC day, with the ones the
  memory already counts, never exceed the daily cap.\<close>
theorem reactive_entries_rationed:
  assumes c: "reactive_config_ok c" and m: "reactive_memory_ok m"
    and day: "attempts_on day m \<le> rc_maximum_entry_attempts_per_day c"
      "rm_entry_attempt_day m = Some day \<Longrightarrow> list_all (\<lambda>a. day \<le> step_time a div ONE_DAY_NS) ss"
    and sorted: "sorted (map step_time ss)"
    and r: "replay (reactive_step c) m ss = Inr (m', ds)"
  shows "distinct (concat (map submissions ds))
    \<and> (\<forall>j k. j < k \<and> k < length ds \<and> opens_exposure (ds ! j) \<and> opens_exposure (ds ! k) \<longrightarrow>
         rc_minimum_entry_interval_ns c \<le> step_time (ss ! k) - step_time (ss ! j))
    \<and> attempts_on day m + entries_on day ss ds \<le> rc_maximum_entry_attempts_per_day c"
proof -
  have b: "0 \<le> rc_minimum_entry_interval_ns c" "0 \<le> rc_maximum_entry_attempts_per_day c"
    using c by (simp_all add: reactive_config_ok_def reactive_lifecycle_ok_def)
  have z: "0 \<le> rm_order_revision m" "0 \<le> rm_entry_attempts_today m"
    using m by (simp_all add: reactive_memory_ok_def memory_fields_ok_def)
  have "day_current day m ss" using day(2) z(2) by (auto simp: day_current_def attempts_on_def)
  from replay_entries_bounded [OF this day(1) b(2) sorted r] reactive.replay_distinct_ids [OF z(1) r]
    reactive.replay_paced [OF b(1) r]
  show ?thesis by blast
qed

lemma reactive_entries_rationed_witness:
  "\<exists>m' d. replay (reactive_step example_config) trained_memory [(flat_view, bullish_input)] = Inr (m', [d])
     \<and> opens_exposure d \<and> entries_on 0 [(flat_view, bullish_input)] [d] = 1
     \<and> attempts_on 0 trained_memory + entries_on 0 [(flat_view, bullish_input)] [d] \<le> 96"
proof -
  obtain m' d i where r: "reactive_step example_config (flat_view, bullish_input) trained_memory = Inr (m', d)"
    "kd_submit d = [i]" "\<not> oi_reduce_only i"
    using bullish_step by (fastforce split: sum.splits prod.splits simp: map_eq_Cons_conv)
  have rp: "replay (reactive_step example_config) trained_memory [(flat_view, bullish_input)] = Inr (m', [d])"
    using r(1) by simp
  have ok: "reactive_memory_ok trained_memory" using trained_memory_inv by (simp add: reactive_inv_def)
  have day: "rm_entry_attempt_day trained_memory = None" by (simp add: trained_memory_def new_reactive_memory_def)
  have cap: "rc_maximum_entry_attempts_per_day example_config = 96"
    by (simp add: example_config_def default_reactive_config_def)
  have "attempts_on 0 trained_memory + entries_on 0 [(flat_view, bullish_input)] [d] \<le> rc_maximum_entry_attempts_per_day example_config"
    using reactive_entries_rationed [OF example_config_ok ok _ _ _ rp, of 0] day cap by (simp add: attempts_on_def)
  moreover have "step_time (flat_view, bullish_input) div ONE_DAY_NS = 0" by code_simp
  ultimately show ?thesis using rp r cap by (simp add: entries_on_def opens_exposure_def)
qed

text \<open>The first decision of a run that finds the stop reached starts the clock of every wait.\<close>

lemma waits_from_step:
  assumes "opt_all (\<lambda>t. t \<le> now) (rm_last_order_ts_ns m)" "opt_all (\<lambda>t. t \<le> now) (rm_pending_exit_cancel_ts_ns m)"
    "rm_last_order_ts_ns m' = rm_last_order_ts_ns m"
    "rm_pending_exit_intent_id m' = None \<or> rm_pending_exit_cancel_ts_ns m' = Some now
      \<or> (\<exists>t. rm_pending_exit_cancel_ts_ns m = Some t \<and> rm_pending_exit_cancel_ts_ns m' = Some t)"
  shows "waits_from now m'"
  using assms by (auto simp: waits_from_def)

text \<open>C12: A stopped position is exited: while the price stays beyond the stop of the position, and starting from
  any valid memory that holds it (whatever exit is resting, being cancelled or awaiting its retry, with the times it
  remembers not in the future), the replay raises nothing and a valid market order that closes the whole position has been
  submitted by the first decision that is the longer of the retry interval and the cancel grace later than the first one of
  the replay. The conditions are that the configuration and the inputs, structure snapshots included, are valid, that the distances of the position's stop and take profit
  are at most 9999 basis points, and that times and order revisions stay below 10 to the 40, so that an identity
  fits its field. The distance is needed: \<open>unpriced_exit_raises\<close>.\<close>
theorem stopped_position_exits:
  assumes c: "reactive_config_ok c" and h: "holds_position q stop m" and q: "q \<noteq> 0" and p: "0 < p"
    and past: "opt_all (\<lambda>t. t \<le> step_time a) (rm_last_order_ts_ns m)"
      "opt_all (\<lambda>t. t \<le> step_time a) (rm_pending_exit_cancel_ts_ns m)"
    and inv: "reactive_inv c m" and e: "exits_priced c stop (rm_active_take_profit_bps m)"
    and rev: "rm_order_revision m + int (length (a # ss @ [b])) < 10 ^ 40"
    and ss: "list_all (stopped_input (py_or_else stop (rc_minimum_stop_loss_bps c)) q p) (a # ss @ [b])"
    and wait: "step_time a + max (rc_exit_retry_ns c) (rc_maker_exit_cancel_grace_ns c) \<le> step_time b"
  shows "\<exists>m' ds. replay (reactive_step c) m (a # ss @ [b]) = Inr (m', ds)
    \<and> (\<exists>k < length ds. market_exit_of q (snd ((a # ss @ [b]) ! k)) (ds ! k))"
proof -
  obtain m' ds where r: "replay (reactive_step c) m (a # ss @ [b]) = Inr (m', ds)"
    using stopped_replay_total [OF c q p inv h ss e rev] by blast
  then obtain m1 d ds' where d: "reactive_step c a m = Inr (m1, d)"
    "replay (reactive_step c) m1 (ss @ [b]) = Inr (m', ds')" "ds = d # ds'"
    by (auto simp: bindE_eq_Inr_iff)
  have "\<exists>k < length ds. market_exit_of q (snd ((a # ss @ [b]) ! k)) (ds ! k)"
  proof (cases "market_exit_of q (snd a) d")
    case True
    then show ?thesis by (intro exI [of _ 0]) (simp add: d(3))
  next
    case False
    have st: "stop_loss_of c m = py_or_else stop (rc_minimum_stop_loss_bps c)"
      using h by (simp add: stop_loss_of_def holds_position_def)
    have a: "av_inventory (fst a) = q" "av_average_entry_price (fst a) = Some p" "0 \<le> av_observed_ts_ns (fst a)"
      "strategy_input_ok (snd a)" "stopped_at (stop_loss_of c m) q p (snd a)"
      using ss by (simp_all add: stopped_input_def st)
    note step = stopped_step [OF c h q p a(1-3) a(4) a(5) d(1) False]
    have "waits_from (step_time a) m1" by (rule waits_from_step [OF past]) (use step in auto)
    moreover have "holds_position q stop m1" using step by simp
    ultimately obtain k where "k < length ds'" "market_exit_of q (snd ((ss @ [b]) ! k)) (ds' ! k)"
      using stopped_replay [OF c q p _ _ _ d(2) _ wait] ss by auto
    then show ?thesis by (intro exI [of _ "Suc k"]) (simp add: d(3))
  qed
  with r show ?thesis by blast
qed

lemma stopped_position_exits_witness:
  "\<exists>m' ds. replay (reactive_step default_reactive_config) losing_memory losing_run = Inr (m', ds)
     \<and> (\<exists>k < length ds. market_exit_of 1 (snd (losing_run ! k)) (ds ! k))"
proof -
  let ?c = default_reactive_config
  have t: "step_time (losing_at 1000) = 1000" "step_time (losing_at 3000001000) = 3000001000"
    by (simp_all add: losing_at_simps)
  have w: "opt_all (\<lambda>t. t \<le> step_time (losing_at 1000)) (rm_last_order_ts_ns losing_memory)"
    "opt_all (\<lambda>t. t \<le> step_time (losing_at 1000)) (rm_pending_exit_cancel_ts_ns losing_memory)"
    by (simp_all add: t losing_memory_def new_reactive_memory_def)
  have wait: "max (rc_exit_retry_ns ?c) (rc_maker_exit_cancel_grace_ns ?c) = 2000000000"
    by (simp add: default_reactive_config_def ONE_SECOND_NS_def)
  have e: "exits_priced ?c (Some 6) (rm_active_take_profit_bps losing_memory)" by code_simp
  have rev: "rm_order_revision losing_memory + int (length losing_run) < 10 ^ 40"
    by (simp add: losing_memory_def new_reactive_memory_def losing_run_def)
  note losing_run_def [symmetric, simp]
  show ?thesis
    using stopped_position_exits [OF default_reactive_config_ok losing_memory_facts(1) _ _ w losing_memory_facts(2) e, of 60600
      "[]" "losing_at 3000001000"] losing_run_inputs t rev wait
    by (simp add: py_or_else_def)
qed

definition account_view_ok :: "account_view \<Rightarrow> bool" where
  "account_view_ok v \<longleftrightarrow>
     0 \<le> av_observed_ts_ns v
   \<and> (av_inventory v = 0 \<or> (case av_average_entry_price v of None \<Rightarrow> False | Some p \<Rightarrow> 0 < p))"

text \<open>C21: The memory contract holds without being checked: from a memory that satisfies it, every replay over valid
  inputs and consistent account views keeps the field bounds, the pairing of pending orders with their metadata
  (\<open>validate_coupled_state\<close>) and the learner's invariant, so that every checkpoint can be
  restored; and the only exception a step can raise is a validation error, never an assertion.\<close>
theorem reactive_memory_always_valid:
  assumes c: "reactive_config_ok c" and m: "reactive_inv c m"
    and ss: "list_all (\<lambda>a. strategy_input_ok (snd a) \<and> account_view_ok (fst a)) ss"
  shows "case replay (reactive_step c) m ss of Inl e \<Rightarrow> (\<exists>msg. e = ValidationError msg) | Inr (m', ds) \<Rightarrow> reactive_inv c m'"
  using m ss
proof (induction ss arbitrary: m)
  case (Cons a ss)
  have avg: "av_inventory (fst a) = 0 \<or> (\<exists>p > 0. av_average_entry_price (fst a) = Some p)"
    using Cons.prems(2) by (auto simp: account_view_ok_def split: option.splits)
  have only: "only_validation (reactive_step c a m)"
    by (rule only_validation_step [OF c Cons.prems(1) _ _ avg]) (use Cons.prems(2) in \<open>auto simp: account_view_ok_def\<close>)
  show ?case
  proof (cases "reactive_step c a m")
    case (Inl e)
    with only show ?thesis by (auto simp: only_validation_def split: py_error.splits)
  next
    case (Inr x)
    obtain m1 d where x: "x = (m1, d)" by fastforce
    have "reactive_inv c m1"
      by (rule reactive_step_inv [OF c Cons.prems(1) _ _ Inr [unfolded x]]) (use Cons.prems(2) in \<open>auto simp: account_view_ok_def\<close>)
    from Cons.IH [OF this] Cons.prems(2) Inr x show ?thesis by (auto split: sum.splits)
  qed
qed simp

lemma reactive_memory_always_valid_witness:
  "case replay (reactive_step default_reactive_config) losing_memory losing_run of
     Inl e \<Rightarrow> False | Inr (m', ds) \<Rightarrow> reactive_inv default_reactive_config m'"
proof -
  have "list_all (\<lambda>a. strategy_input_ok (snd a) \<and> account_view_ok (fst a)) losing_run"
    by code_simp
  from reactive_memory_always_valid [OF default_reactive_config_ok losing_memory_facts(2) this] losing_replay
  show ?thesis by (auto split: sum.splits)
qed

text \<open>C39: A partially filled entry is forgotten: when the account shows a position while an entry is pending, the
  kernel never again asks to cancel that entry, in whatever way the run continues; the unfilled remainder is
  left resting.\<close>
theorem entry_remainder_forgotten:
  assumes "rm_pending_entry_intent_id m = Some i" "rm_pending_exit_intent_id m \<noteq> Some i"
    and "has_serial n i" "0 \<le> n" "n \<le> rm_order_revision m"
    and "av_inventory (fst a) \<noteq> 0"
    and r: "replay (reactive_step c) m (a # ss) = Inr (m', ds)"
  shows "\<forall>d \<in> set ds. i \<notin> set (kd_cancel_intent_ids d)"
proof -
  obtain m1 d ds' where d: "reactive_step c a m = Inr (m1, d)" "replay (reactive_step c) m1 ss = Inr (m', ds')" "ds = d # ds'"
    using r by (auto simp: bindE_eq_Inr_iff)
  have "\<not> has_serial (rm_order_revision m + 1) i"
    using has_serial_unique [of n "rm_order_revision m + 1" i] assms(3-5) by auto
  then have "i \<notin> known_ids m1" "i \<notin> set (kd_cancel_intent_ids d)"
    using reactive_step_ids [OF d(1)] assms(2,6) by auto
  moreover have "rm_order_revision m \<le> rm_order_revision m1" using d(1) by (cases rule: reactive_step_outcome) auto
  ultimately show ?thesis using forgotten_forever [OF _ assms(3,4) _ d(2)] assms(5) d(3) by auto
qed

definition resting_memory :: reactive_memory where
  "resting_memory = new_reactive_memory
     \<lparr>rm_pending_entry_intent_id := Some ''rsc3-entry-buy-900-1'', rm_pending_entry_created_ts_ns := Some 900,
      rm_pending_entry_side := Some BUY, rm_planned_stop_loss_bps := Some 6, rm_planned_take_profit_bps := Some 12,
      rm_last_order_ts_ns := Some 900, rm_order_revision := 1\<rparr>"

lemma resting_replay: "is_ok (replay (reactive_step default_reactive_config) resting_memory losing_run)"
  by code_simp

lemma entry_remainder_forgotten_witness:
  "\<exists>m' ds. replay (reactive_step default_reactive_config) resting_memory losing_run = Inr (m', ds)
     \<and> (\<forall>d \<in> set ds. ''rsc3-entry-buy-900-1'' \<notin> set (kd_cancel_intent_ids d))"
proof -
  obtain m' ds where r: "replay (reactive_step default_reactive_config) resting_memory (losing_at 1000 # [losing_at 3000001000])
      = Inr (m', ds)"
    using resting_replay by (auto simp: is_ok_iff losing_run_def simp del: replay.simps)
  have s: "has_serial 1 ''rsc3-entry-buy-900-1''"
  proof -
    have "''rsc3-entry-buy-900-1'' = ''rsc3-entry-buy-900'' @ CHR ''-'' # py_str 1" by code_simp
    then show ?thesis by (simp only: has_serialI)
  qed
  have m: "rm_pending_entry_intent_id resting_memory = Some ''rsc3-entry-buy-900-1''"
    "rm_pending_exit_intent_id resting_memory \<noteq> Some ''rsc3-entry-buy-900-1''" "1 \<le> rm_order_revision resting_memory"
    "av_inventory (fst (losing_at 1000)) \<noteq> 0"
    by (simp_all add: resting_memory_def new_reactive_memory_def losing_at_def)
  from entry_remainder_forgotten [OF m(1,2) s _ m(3,4) r] r show ?thesis by (auto simp: losing_run_def)
qed

end
