(* ===== verification/Paper_Exchange.thy ===== *)
theory Paper_Exchange
  imports Kernel_Contracts "HOL-Library.AList" "HOL-Library.Char_ord" "HOL-Library.List_Lexorder" "HOL-Library.Product_Lexorder"
begin

text \<open>
  The paper exchange of \<open>paper/simulator.py\<close> with its records from \<open>paper/models.py\<close> and
  \<open>backtest/models.py\<close>: order lifecycle, latency, queue and fills, and the account they move. Every
  method is a definition with the simulator threaded through it, so that an exception leaves the state the
  code leaves. The two hashes that name orders and fills, and the printing of decimals inside them,
  are an argument (\<open>naming\<close>).
\<close>

section \<open>Loops over a state\<close>

fun foldS :: "('a \<Rightarrow> 's \<Rightarrow> 's \<times> unit res) \<Rightarrow> 'a list \<Rightarrow> 's \<Rightarrow> 's \<times> unit res" where
  "foldS f [] s = (s, Inr ())"
| "foldS f (x # xs) s = bindS (f x s) (\<lambda>s _. foldS f xs s)"

lemma foldS_keeps:
  assumes "\<And>x s. x \<in> set xs \<Longrightarrow> P s \<Longrightarrow> P (fst (f x s))" "P s"
  shows "P (fst (foldS f xs s))"
  using assms
proof (induction xs arbitrary: s)
  case (Cons x xs)
  have "P (fst (f x s))" using Cons.prems by simp
  then have "P (fst (bindS (f x s) (\<lambda>s _. foldS f xs s)))"
    by (rule bindS_keeps) (rule Cons.IH, use Cons.prems(1) in auto)
  then show ?case by simp
qed simp

section \<open>Scenario\<close>

datatype queue_model = LOG_PROBABILITY | POWER_PROBABILITY | RISK_ADVERSE

record execution_scenario =
  es_scenario_id :: string
  es_calibrated :: bool
  es_calibration_sha256 :: "string option"
  es_tick_size :: dec
  es_lot_size :: dec
  es_entry_latency_ns :: int
  es_response_latency_ns :: int
  es_feed_latency_offset_ns :: int
  es_maker_fee_bps :: dec
  es_taker_fee_bps :: dec
  es_queue_model :: queue_model
  es_queue_power :: dec
  es_allow_partial_fills :: bool
  es_book_liquidity_multiplier :: dec
  es_trade_flow_multiplier :: dec
  es_taker_slippage_bps :: dec
  es_funding_rate_multiplier :: dec

definition fee_bps_ok :: "dec \<Rightarrow> bool" where
  "fee_bps_ok x \<longleftrightarrow> - 100 \<le> x \<and> x \<le> 100"

definition scenario_error :: "execution_scenario \<Rightarrow> string option" where
  "scenario_error s = first_error
     [(\<not> is_slug (es_scenario_id s), ''scenario_id''),
      (\<not> opt_all is_sha256_hex (es_calibration_sha256 s), ''calibration_sha256''),
      (es_tick_size s \<le> 0 \<or> es_lot_size s \<le> 0 \<or> es_queue_power s \<le> 0, ''gt=0''),
      (es_entry_latency_ns s < 0 \<or> es_response_latency_ns s < 0 \<or> es_feed_latency_offset_ns s < 0, ''latency''),
      (\<not> fee_bps_ok (es_maker_fee_bps s) \<or> \<not> fee_bps_ok (es_taker_fee_bps s), ''fee_bps''),
      (\<not> (0 < es_book_liquidity_multiplier s \<and> es_book_liquidity_multiplier s \<le> 1), ''book_liquidity_multiplier''),
      (\<not> (0 < es_trade_flow_multiplier s \<and> es_trade_flow_multiplier s \<le> 1), ''trade_flow_multiplier''),
      (es_taker_slippage_bps s < 0 \<or> es_funding_rate_multiplier s < 0, ''ge=0''),
      (es_calibrated s \<and> es_calibration_sha256 s = None, ''calibrated scenarios require a calibration hash''),
      (\<not> es_calibrated s \<and> es_calibration_sha256 s \<noteq> None, ''uncalibrated scenarios cannot claim a calibration hash'')]"

definition scenario_ok :: "execution_scenario \<Rightarrow> bool" where
  "scenario_ok s \<longleftrightarrow> scenario_error s = None"

definition validate_paper_scenario :: "execution_scenario \<Rightarrow> unit res" where
  "validate_paper_scenario s =
     guardE (es_queue_model s \<noteq> RISK_ADVERSE)
       (ValueError ''paper simulation supports only the conservative risk_adverse queue model'')
       (guardE (es_feed_latency_offset_ns s \<noteq> 0)
         (ValueError ''live paper simulation requires zero synthetic feed latency; use retained replay'') (Inr ()))"

section \<open>Orders, fills, account\<close>

datatype paper_order_state =
    PO_PENDING_ACTIVATION | PO_RESTING | PO_PARTIALLY_FILLED | PO_PENDING_CANCEL
  | PO_FILLED | PO_CANCELED | PO_REJECTED

definition terminal_paper_state :: "paper_order_state \<Rightarrow> bool" where
  "terminal_paper_state s \<longleftrightarrow> s \<in> {PO_FILLED, PO_CANCELED, PO_REJECTED}"

record paper_order =
  po_paper_order_id :: string
  po_intent :: order_intent
  po_state :: paper_order_state
  po_accepted_ts_ns :: int
  po_effective_ts_ns :: int
  po_updated_ts_ns :: int
  po_filled_quantity_base :: dec
  po_queue_ahead_base :: dec
  po_cancel_effective_ts_ns :: "int option"
  po_rejection_reason :: "string option"

definition paper_order_error :: "paper_order \<Rightarrow> string option" where
  "paper_order_error p = first_error
     [(\<not> is_slug (po_paper_order_id p), ''paper_order_id''),
      (po_accepted_ts_ns p < 0 \<or> po_effective_ts_ns p < 0 \<or> po_updated_ts_ns p < 0, ''ts_ns''),
      (po_filled_quantity_base p < 0 \<or> po_queue_ahead_base p < 0, ''ge=0''),
      (\<not> opt_all (\<lambda>t. 0 \<le> t) (po_cancel_effective_ts_ns p), ''cancel_effective_ts_ns''),
      (\<not> opt_all (\<lambda>r. length r \<le> 512) (po_rejection_reason p), ''rejection_reason''),
      (po_effective_ts_ns p < po_accepted_ts_ns p, ''paper order cannot activate before acceptance''),
      (po_updated_ts_ns p < po_accepted_ts_ns p, ''paper order update cannot precede acceptance''),
      (oi_quantity_base (po_intent p) < po_filled_quantity_base p,
       ''paper order fills cannot exceed requested quantity''),
      (po_state p = PO_FILLED \<and> po_filled_quantity_base p \<noteq> oi_quantity_base (po_intent p),
       ''filled paper order must have its full requested quantity''),
      (po_state p = PO_REJECTED \<and> po_rejection_reason p = None, ''rejected paper order requires a reason''),
      (po_state p = PO_PENDING_CANCEL \<and> po_cancel_effective_ts_ns p = None,
       ''pending paper cancel requires an effective time'')]"

definition mk_paper_order :: "paper_order \<Rightarrow> paper_order res" where
  "mk_paper_order p = (case paper_order_error p of Some e \<Rightarrow> Inl (ValidationError e) | None \<Rightarrow> Inr p)"

definition remaining_quantity_base :: "paper_order \<Rightarrow> dec" where
  "remaining_quantity_base p = dsub (oi_quantity_base (po_intent p)) (po_filled_quantity_base p)"

record paper_fill =
  fl_fill_id :: string
  fl_paper_order_id :: string
  fl_intent_id :: string
  fl_strategy_id :: string
  fl_side :: order_side
  fl_quantity_base :: dec
  fl_price :: dec
  fl_fee_usd :: dec
  fl_maker :: bool
  fl_fill_ts_ns :: int
  fl_decision_latency_ns :: int
  fl_scenario_id :: string
  fl_scenario_sha256 :: string

definition paper_fill_error :: "paper_fill \<Rightarrow> string option" where
  "paper_fill_error f = first_error
     [(\<not> list_all is_slug [fl_fill_id f, fl_paper_order_id f, fl_intent_id f, fl_strategy_id f, fl_scenario_id f],
       ''identifier''),
      (fl_quantity_base f \<le> 0, ''quantity_base''), (fl_price f \<le> 0, ''price''),
      (fl_fill_ts_ns f < 0, ''fill_ts_ns''), (fl_decision_latency_ns f < 0, ''decision_latency_ns''),
      (\<not> is_sha256_hex (fl_scenario_sha256 f), ''scenario_sha256'')]"

record paper_account =
  pa_cash_usd :: dec
  pa_position_base :: dec
  pa_average_entry_price :: "dec option"
  pa_mark_price :: dec
  pa_equity_usd :: dec
  pa_day_start_equity_usd :: dec
  pa_high_water_equity_usd :: dec
  pa_realized_trading_pnl_usd :: dec
  pa_fees_usd :: dec
  pa_funding_pnl_usd :: dec
  pa_last_funding_settlement_ns :: "int option"
  pa_utc_day :: int
  pa_updated_ts_ns :: int

definition paper_account_error :: "paper_account \<Rightarrow> string option" where
  "paper_account_error a = first_error
     [(\<not> opt_all (\<lambda>p. 0 < p) (pa_average_entry_price a), ''average_entry_price''),
      (pa_mark_price a \<le> 0, ''mark_price''),
      (pa_day_start_equity_usd a \<le> 0 \<or> pa_high_water_equity_usd a \<le> 0, ''equity''),
      (\<not> opt_all (\<lambda>t. 0 \<le> t) (pa_last_funding_settlement_ns a), ''last_funding_settlement_ns''),
      (pa_utc_day a < 0 \<or> pa_updated_ts_ns a < 0, ''ge=0''),
      (pa_position_base a = 0 \<and> pa_average_entry_price a \<noteq> None, ''flat account cannot retain an average entry price''),
      (pa_position_base a \<noteq> 0 \<and> pa_average_entry_price a = None, ''non-flat account requires an average entry price''),
      (1 / 10 ^ 8 < dabs (dsub (dadd (pa_cash_usd a) (dmul (pa_position_base a) (pa_mark_price a))) (pa_equity_usd a)),
       ''paper account equity does not reconcile to cash plus marked position''),
      (pa_high_water_equity_usd a < pa_equity_usd a, ''paper account high-water equity cannot trail current equity'')]"

definition paper_account_ok :: "paper_account \<Rightarrow> bool" where
  "paper_account_ok a \<longleftrightarrow> paper_account_error a = None"

section \<open>The simulator\<close>

definition NANOSECONDS_PER_DAY :: int where
  "NANOSECONDS_PER_DAY = 86400000000000"

record naming =
  nm_sha256 :: "string \<Rightarrow> string"
  nm_decimal :: "dec \<Rightarrow> string"
  nm_scenario_sha256 :: "execution_scenario \<Rightarrow> string"

record paper_sim =
  ps_scenario :: execution_scenario
  ps_namespace :: string
  ps_orders :: "(string \<times> paper_order) list"
  ps_intent_ids :: "string list"
  ps_account :: paper_account

definition initial_account :: "dec \<Rightarrow> dec \<Rightarrow> int \<Rightarrow> paper_account" where
  "initial_account equity mark started =
     \<lparr>pa_cash_usd = equity, pa_position_base = 0, pa_average_entry_price = None, pa_mark_price = mark,
      pa_equity_usd = equity, pa_day_start_equity_usd = equity, pa_high_water_equity_usd = equity,
      pa_realized_trading_pnl_usd = 0, pa_fees_usd = 0, pa_funding_pnl_usd = 0,
      pa_last_funding_settlement_ns = None, pa_utc_day = started div NANOSECONDS_PER_DAY,
      pa_updated_ts_ns = started\<rparr>"

fun restore_orders :: "paper_order list \<Rightarrow> (string \<times> paper_order) list \<Rightarrow> string list
     \<Rightarrow> ((string \<times> paper_order) list \<times> string list) res" where
  "restore_orders [] orders ids = Inr (orders, ids)"
| "restore_orders (p # ps) orders ids =
     guardE (map_of orders (po_paper_order_id p) \<noteq> None \<or> oi_intent_id (po_intent p) \<in> set ids)
       (ValueError ''restored paper orders contain duplicate identities'')
       (restore_orders ps (AList.update (po_paper_order_id p) p orders) (oi_intent_id (po_intent p) # ids))"

definition new_paper_sim ::
  "execution_scenario \<Rightarrow> dec \<Rightarrow> dec \<Rightarrow> int \<Rightarrow> paper_account option \<Rightarrow> paper_order list \<Rightarrow> string \<Rightarrow> paper_sim res" where
  "new_paper_sim scenario equity mark started restored_account restored_orders namespace =
     guardE (equity \<le> 0 \<or> mark \<le> 0 \<or> started < 0)
       (ValueError ''paper simulator requires positive capital, mark, and timestamp'')
       (bindE (validate_paper_scenario scenario) (\<lambda>_.
        guardE (namespace = []) (ValueError ''paper simulator identity namespace must be non-empty'')
          (bindE (restore_orders restored_orders [] []) (\<lambda>(orders, ids).
           Inr \<lparr>ps_scenario = scenario, ps_namespace = namespace, ps_orders = orders, ps_intent_ids = ids,
                ps_account = (case restored_account of Some a \<Rightarrow> a | None \<Rightarrow> initial_account equity mark started)\<rparr>))))"

definition open_orders :: "paper_sim \<Rightarrow> paper_order list" where
  "open_orders s =
     sort_key (\<lambda>p. (po_accepted_ts_ns p, po_paper_order_id p))
       (filter (\<lambda>p. \<not> terminal_paper_state (po_state p)) (map snd (ps_orders s)))"

definition paper_orders :: "paper_sim \<Rightarrow> paper_order list" where
  "paper_orders s = sort_key po_paper_order_id (map snd (ps_orders s))"

definition pending_exposure :: "paper_sim \<Rightarrow> dec \<times> dec" where
  "pending_exposure s =
     (dsum (map remaining_quantity_base (filter (\<lambda>p. oi_side (po_intent p) = BUY) (open_orders s))),
      dsum (map remaining_quantity_base (filter (\<lambda>p. oi_side (po_intent p) = SELL) (open_orders s))))"

definition store_order :: "paper_order \<Rightarrow> paper_sim \<Rightarrow> paper_sim" where
  "store_order p s = s\<lparr>ps_orders := AList.update (po_paper_order_id p) p (ps_orders s)\<rparr>"

text \<open>\<open>to_integral_value\<close> in the default rounding.\<close>

definition to_integral :: "dec \<Rightarrow> dec" where
  "to_integral x = of_int (round_half_even x)"

definition instruction_error :: "execution_scenario \<Rightarrow> order_intent \<Rightarrow> string option" where
  "instruction_error sc i =
     (let lot_units = ddiv (oi_quantity_base i) (es_lot_size sc);
          off_tick = (case oi_limit_price i of None \<Rightarrow> False
             | Some p \<Rightarrow> ddiv p (es_tick_size sc) \<noteq> to_integral (ddiv p (es_tick_size sc)))
      in if lot_units \<noteq> to_integral lot_units then Some ''quantity_not_on_lot_size''
         else if off_tick then Some ''price_not_on_tick_size''
         else if oi_kind i = LIMIT \<and> oi_time_in_force i = GTC \<and> \<not> oi_post_only i
         then Some ''paper_gtc_limit_must_be_post_only''
         else None)"


definition submitted_order :: "naming \<Rightarrow> order_intent \<Rightarrow> int \<Rightarrow> paper_sim \<Rightarrow> paper_order" where
  "submitted_order nm i accepted s =
     (let reason = instruction_error (ps_scenario s) i;
          identity = ps_namespace s @ '':'' @ oi_intent_id i
      in \<lparr>po_paper_order_id = ''paper-'' @ take 24 (nm_sha256 nm identity), po_intent = i,
          po_state = (if reason \<noteq> None then PO_REJECTED else PO_PENDING_ACTIVATION),
          po_accepted_ts_ns = accepted, po_effective_ts_ns = accepted + es_entry_latency_ns (ps_scenario s),
          po_updated_ts_ns = accepted, po_filled_quantity_base = 0, po_queue_ahead_base = 0,
          po_cancel_effective_ts_ns = None, po_rejection_reason = reason\<rparr>)"

definition submit :: "naming \<Rightarrow> order_intent \<Rightarrow> int \<Rightarrow> paper_sim \<Rightarrow> paper_sim \<times> paper_order res" where
  "submit nm i accepted s =
     (if oi_intent_id i \<in> set (ps_intent_ids s)
      then (s, Inl (ValueError (''duplicate paper intent: '' @ oi_intent_id i)))
      else
        (let s' = s\<lparr>ps_intent_ids := oi_intent_id i # ps_intent_ids s\<rparr>
         in case mk_paper_order (submitted_order nm i accepted s) of
              Inl e \<Rightarrow> (s', Inl e)
            | Inr p \<Rightarrow> (store_order p s', Inr p)))"

definition find_open_intent :: "string \<Rightarrow> paper_sim \<Rightarrow> paper_order option" where
  "find_open_intent intent_id s = find (\<lambda>p. oi_intent_id (po_intent p) = intent_id) (open_orders s)"

definition request_cancel :: "string \<Rightarrow> int \<Rightarrow> paper_sim \<Rightarrow> paper_sim \<times> paper_order option" where
  "request_cancel intent_id requested s =
     (case find_open_intent intent_id s of
        None \<Rightarrow> (s, None)
      | Some p \<Rightarrow>
          (let updated = p\<lparr>po_state := PO_PENDING_CANCEL,
                 po_cancel_effective_ts_ns := Some (requested + es_response_latency_ns (ps_scenario s)),
                 po_updated_ts_ns := requested\<rparr>
           in (store_order updated s, Some updated)))"

fun cancel_each :: "string list \<Rightarrow> int \<Rightarrow> paper_sim \<Rightarrow> paper_sim \<times> paper_order list" where
  "cancel_each [] requested s = (s, [])"
| "cancel_each (i # is) requested s =
     (let (s', result) = request_cancel i requested s; (s'', updated) = cancel_each is requested s'
      in (s'', opt_list result @ updated))"

definition request_cancel_all :: "int \<Rightarrow> paper_sim \<Rightarrow> paper_sim \<times> paper_order list" where
  "request_cancel_all requested s = cancel_each (map (\<lambda>p. oi_intent_id (po_intent p)) (open_orders s)) requested s"

text \<open>The cancel whose latency has passed.\<close>

definition cancel_due :: "int \<Rightarrow> paper_order \<Rightarrow> bool" where
  "cancel_due now p \<longleftrightarrow>
     po_state p = PO_PENDING_CANCEL
   \<and> (case po_cancel_effective_ts_ns p of None \<Rightarrow> False | Some t \<Rightarrow> t \<le> now)"

definition canceled_at :: "int \<Rightarrow> paper_order \<Rightarrow> paper_order" where
  "canceled_at now p = p\<lparr>po_state := PO_CANCELED, po_updated_ts_ns := now\<rparr>"

definition elapse :: "int \<Rightarrow> paper_sim \<Rightarrow> paper_sim \<times> paper_order list" where
  "elapse now s =
     (let due = map (canceled_at now) (filter (cancel_due now) (open_orders s))
      in (fold store_order due s, due))"

section \<open>The account\<close>

definition mark_account :: "dec \<Rightarrow> int \<Rightarrow> paper_account \<Rightarrow> paper_account" where
  "mark_account mark ts a =
     (let equity = dadd (pa_cash_usd a) (dmul (pa_position_base a) mark);
          day = ts div NANOSECONDS_PER_DAY
      in a\<lparr>pa_mark_price := mark, pa_equity_usd := equity,
           pa_day_start_equity_usd := (if day = pa_utc_day a then pa_day_start_equity_usd a
                                       else max equity (1 / 10 ^ 8)),
           pa_high_water_equity_usd := max (max (pa_high_water_equity_usd a) equity) (1 / 10 ^ 8),
           pa_utc_day := day, pa_updated_ts_ns := ts\<rparr>)"

definition mark_sim :: "dec \<Rightarrow> int \<Rightarrow> paper_sim \<Rightarrow> paper_sim" where
  "mark_sim mark ts s = s\<lparr>ps_account := mark_account mark ts (ps_account s)\<rparr>"

definition signed_quantity :: "paper_fill \<Rightarrow> dec" where
  "signed_quantity f = (if fl_side f = BUY then fl_quantity_base f else dneg (fl_quantity_base f))"

definition apply_fill :: "paper_fill \<Rightarrow> paper_account \<Rightarrow> paper_account res" where
  "apply_fill f a =
     (let old = pa_position_base a; signed = signed_quantity f; new = dadd old signed;
          cash_delta = dsub (dmul (dneg signed) (fl_price f)) (fl_fee_usd f);
          adjusted = a\<lparr>pa_cash_usd := dadd (pa_cash_usd a) cash_delta, pa_position_base := new,
                       pa_fees_usd := dadd (pa_fees_usd a) (fl_fee_usd f), pa_updated_ts_ns := fl_fill_ts_ns f\<rparr>
      in if old = 0 \<or> 0 < dmul old signed
         then (let old_notional = dmul (dabs old) (py_or_else (pa_average_entry_price a) (fl_price f));
                   total = dadd (dabs old) (dabs signed)
               in Inr (adjusted\<lparr>pa_average_entry_price :=
                    Some (ddiv (dadd old_notional (dmul (dabs signed) (fl_price f))) total)\<rparr>))
         else (case pa_average_entry_price a of
                 None \<Rightarrow> Inl AssertionError
               | Some average \<Rightarrow>
                   (let closed = min (dabs old) (dabs signed);
                        direction = (if 0 < old then 1 else - 1);
                        realized = dadd (pa_realized_trading_pnl_usd a)
                          (dmul (dmul direction closed) (dsub (fl_price f) average))
                    in Inr (adjusted\<lparr>pa_realized_trading_pnl_usd := realized,
                         pa_average_entry_price := (if new = 0 then None
                           else if dmul old new < 0 then Some (fl_price f) else Some average)\<rparr>))))"

definition settle_funding :: "dec \<Rightarrow> dec \<Rightarrow> int \<Rightarrow> paper_sim \<Rightarrow> paper_sim \<times> paper_account res" where
  "settle_funding rate mark ts s =
     (let a = ps_account s
      in if (case pa_last_funding_settlement_ns a of None \<Rightarrow> False | Some previous \<Rightarrow> ts \<le> previous)
         then (s, Inl (ValueError ''paper funding settlements must be strictly increasing''))
         else
           (let cashflow = dneg (dmul (dmul (dmul (pa_position_base a) mark) rate)
                              (es_funding_rate_multiplier (ps_scenario s)));
                settled = a\<lparr>pa_cash_usd := dadd (pa_cash_usd a) cashflow,
                            pa_funding_pnl_usd := dadd (pa_funding_pnl_usd a) cashflow,
                            pa_last_funding_settlement_ns := Some ts\<rparr>;
                s' = mark_sim mark ts (s\<lparr>ps_account := settled\<rparr>)
            in (s', Inr (ps_account s'))))"

section \<open>Fills\<close>

definition fill_of ::
  "naming \<Rightarrow> paper_sim \<Rightarrow> paper_order \<Rightarrow> dec \<Rightarrow> dec \<Rightarrow> bool \<Rightarrow> int \<Rightarrow> paper_fill" where
  "fill_of nm s p quantity price maker ts =
     (let sc = ps_scenario s;
          fee_bps = (if maker then es_maker_fee_bps sc else es_taker_fee_bps sc);
          identity = ps_namespace s @ '':'' @ po_paper_order_id p @ '':'' @ nm_decimal nm (po_filled_quantity_base p)
            @ '':'' @ nm_decimal nm quantity @ '':'' @ nm_decimal nm price @ '':'' @ py_str ts
      in \<lparr>fl_fill_id = ''fill-'' @ take 32 (nm_sha256 nm identity), fl_paper_order_id = po_paper_order_id p,
          fl_intent_id = oi_intent_id (po_intent p), fl_strategy_id = oi_strategy_id (po_intent p),
          fl_side = oi_side (po_intent p), fl_quantity_base = quantity, fl_price = price,
          fl_fee_usd = ddiv (dmul (dmul quantity price) fee_bps) 10000, fl_maker = maker, fl_fill_ts_ns = ts,
          fl_decision_latency_ns = max 0 (ts - oi_created_ts_ns (po_intent p)),
          fl_scenario_id = es_scenario_id sc, fl_scenario_sha256 = nm_scenario_sha256 nm sc\<rparr>)"

definition fill_order ::
  "naming \<Rightarrow> paper_order \<Rightarrow> dec \<Rightarrow> dec \<Rightarrow> bool \<Rightarrow> int \<Rightarrow> paper_sim \<Rightarrow> paper_sim \<times> paper_fill res" where
  "fill_order nm p quantity price maker ts s =
     (let f = fill_of nm s p quantity price maker ts
      in case paper_fill_error f of
           Some e \<Rightarrow> (s, Inl (ValidationError e))
         | None \<Rightarrow>
             (case apply_fill f (ps_account s) of
                Inl e \<Rightarrow> (s, Inl e)
              | Inr a \<Rightarrow> (s\<lparr>ps_account := a\<rparr>, Inr f)))"


section \<open>Activation\<close>

definition round_adverse :: "execution_scenario \<Rightarrow> dec \<Rightarrow> order_side \<Rightarrow> dec" where
  "round_adverse sc price side =
     dmul (if side = BUY then dceil (ddiv price (es_tick_size sc)) else dfloor (ddiv price (es_tick_size sc)))
       (es_tick_size sc)"

definition displayed_size :: "kernel_market \<Rightarrow> order_side \<Rightarrow> dec \<Rightarrow> dec" where
  "displayed_size m side price =
     (case find (\<lambda>l. kl_price l = price) (if side = BUY then km_bids m else km_asks m) of
        None \<Rightarrow> 0 | Some l \<Rightarrow> kl_size l)"

definition level_quantity :: "execution_scenario \<Rightarrow> kernel_level \<Rightarrow> dec" where
  "level_quantity sc l = dmul (kl_size l) (es_book_liquidity_multiplier sc)"

definition taker_levels :: "order_intent \<Rightarrow> kernel_market \<Rightarrow> kernel_level list" where
  "taker_levels i m =
     (let levels = (if oi_side i = BUY then km_asks m else km_bids m)
      in case oi_limit_price i of
           None \<Rightarrow> levels
         | Some p \<Rightarrow> filter (\<lambda>l. if oi_side i = BUY then kl_price l \<le> p else p \<le> kl_price l) levels)"

definition taker_price :: "execution_scenario \<Rightarrow> order_intent \<Rightarrow> kernel_level \<Rightarrow> dec" where
  "taker_price sc i l =
     (let direction = (if oi_side i = BUY then 1 else - 1);
          raw = dmul (kl_price l) (dadd 1 (ddiv (dmul direction (es_taker_slippage_bps sc)) 10000));
          price = round_adverse sc raw (oi_side i)
      in case oi_limit_price i of
           None \<Rightarrow> price
         | Some p \<Rightarrow> if oi_side i = BUY then min price p else max price p)"

text \<open>The loop over the levels: what remains, and the fills.\<close>

fun taker_fills ::
  "naming \<Rightarrow> paper_order \<Rightarrow> dec \<Rightarrow> int \<Rightarrow> kernel_level list \<Rightarrow> dec \<Rightarrow> paper_fill list \<Rightarrow> paper_sim
     \<Rightarrow> paper_sim \<times> (dec \<times> paper_fill list) res" where
  "taker_fills nm p goal now [] remaining fills s = (s, Inr (remaining, fills))"
| "taker_fills nm p goal now (l # ls) remaining fills s =
     (let quantity = min remaining (level_quantity (ps_scenario s) l)
      in if quantity \<le> 0 then taker_fills nm p goal now ls remaining fills s
         else bindS (fill_order nm
                (p\<lparr>po_filled_quantity_base := dsub (dadd (po_filled_quantity_base p) goal) remaining\<rparr>)
                quantity (taker_price (ps_scenario s) (po_intent p) l) False now s)
              (\<lambda>s fill. (let left = dsub remaining quantity
                        in if left = 0 then (s, Inr (left, fills @ [fill]))
                           else taker_fills nm p goal now ls left (fills @ [fill]) s)))"

definition execute_taker ::
  "naming \<Rightarrow> paper_order \<Rightarrow> kernel_market \<Rightarrow> int \<Rightarrow> paper_sim \<Rightarrow> paper_sim \<times> (paper_order \<times> paper_fill list) res" where
  "execute_taker nm p m now s =
     (let sc = ps_scenario s; levels = taker_levels (po_intent p) m;
          available = dsum (map (level_quantity sc) levels);
          requested = remaining_quantity_base p;
          goal = (if es_allow_partial_fills sc then min requested available else requested)
      in if goal \<le> 0 \<or> (\<not> es_allow_partial_fills sc \<and> available < requested)
         then (s, Inr (p\<lparr>po_state := PO_CANCELED, po_updated_ts_ns := now\<rparr>, []))
         else bindS (taker_fills nm p goal now levels goal [] s) (\<lambda>s (remaining, fills).
           (let total = dsub (dadd (po_filled_quantity_base p) goal) remaining
            in (s, Inr (p\<lparr>po_state := (if total = oi_quantity_base (po_intent p) then PO_FILLED else PO_CANCELED),
                          po_filled_quantity_base := total, po_updated_ts_ns := now\<rparr>, fills)))))"

definition crosses :: "order_intent \<Rightarrow> dec \<Rightarrow> kernel_market \<Rightarrow> bool" where
  "crosses i price m \<longleftrightarrow>
     (if oi_side i = BUY then kl_price (hd (km_asks m)) \<le> price else price \<le> kl_price (hd (km_bids m)))"

definition activate ::
  "naming \<Rightarrow> paper_order \<Rightarrow> kernel_market \<Rightarrow> int \<Rightarrow> paper_sim \<Rightarrow> paper_sim \<times> (paper_order \<times> paper_fill list) res" where
  "activate nm p m now s =
     (let i = po_intent p
      in if oi_kind i = MARKET then execute_taker nm p m now s
         else (case oi_limit_price i of
                 None \<Rightarrow> (s, Inl AssertionError)
               | Some price \<Rightarrow>
                   if oi_post_only i \<and> crosses i price m
                   then (s, Inr (p\<lparr>po_state := PO_REJECTED, po_updated_ts_ns := now,
                                   po_rejection_reason := Some ''post_only_would_cross''\<rparr>, []))
                   else if oi_time_in_force i = IOC
                   then (if crosses i price m then execute_taker nm p m now s
                         else (s, Inr (p\<lparr>po_state := PO_CANCELED, po_updated_ts_ns := now\<rparr>, [])))
                   else (s, Inr (p\<lparr>po_state := PO_RESTING,
                            po_queue_ahead_base :=
                              dmul (displayed_size m (oi_side i) price) (es_book_liquidity_multiplier (ps_scenario s)),
                            po_updated_ts_ns := now\<rparr>, []))))"

section \<open>One market update\<close>

text \<open>The simulator and the local collections of a running call.\<close>

record sim_call =
  sc_sim :: paper_sim
  sc_changed :: "(string \<times> paper_order) list"
  sc_fills :: "paper_fill list"

definition call_store :: "paper_order \<Rightarrow> sim_call \<Rightarrow> sim_call" where
  "call_store p k =
     k\<lparr>sc_sim := store_order p (sc_sim k), sc_changed := AList.update (po_paper_order_id p) p (sc_changed k)\<rparr>"

definition cancel_due_orders :: "int \<Rightarrow> sim_call \<Rightarrow> sim_call" where
  "cancel_due_orders now k =
     fold call_store (map (canceled_at now) (filter (cancel_due now) (open_orders (sc_sim k)))) k"

definition activation_due :: "int \<Rightarrow> paper_order \<Rightarrow> bool" where
  "activation_due now p \<longleftrightarrow> po_state p = PO_PENDING_ACTIVATION \<and> po_effective_ts_ns p \<le> now"

definition activate_one :: "naming \<Rightarrow> kernel_market \<Rightarrow> int \<Rightarrow> paper_order \<Rightarrow> sim_call \<Rightarrow> sim_call \<times> unit res" where
  "activate_one nm m now p k =
     (case activate nm p m now (sc_sim k) of
        (s, Inl e) \<Rightarrow> (k\<lparr>sc_sim := s\<rparr>, Inl e)
      | (s, Inr (p', fills)) \<Rightarrow>
          ((call_store p' (k\<lparr>sc_sim := s\<rparr>))\<lparr>sc_fills := sc_fills k @ fills\<rparr>, Inr ()))"

definition activate_due_orders :: "naming \<Rightarrow> kernel_market \<Rightarrow> int \<Rightarrow> sim_call \<Rightarrow> sim_call \<times> unit res" where
  "activate_due_orders nm m now k =
     foldS (activate_one nm m now) (filter (activation_due now) (open_orders (sc_sim k))) k"

definition trade_reaches_order :: "kernel_trade \<Rightarrow> order_intent \<Rightarrow> dec \<Rightarrow> bool" where
  "trade_reaches_order t i price \<longleftrightarrow>
     (oi_side i = BUY \<and> kt_aggressor t = SELLER \<and> kt_price t \<le> price)
   \<or> (oi_side i = SELL \<and> kt_aggressor t = BUYER \<and> price \<le> kt_price t)"

definition match_candidate :: "kernel_trade \<Rightarrow> paper_order \<Rightarrow> bool" where
  "match_candidate t p \<longleftrightarrow>
     po_state p \<in> {PO_RESTING, PO_PARTIALLY_FILLED, PO_PENDING_CANCEL}
   \<and> po_effective_ts_ns p \<le> kt_observed_ts_ns t
   \<and> (case oi_limit_price (po_intent p) of None \<Rightarrow> False
      | Some price \<Rightarrow> trade_reaches_order t (po_intent p) price)"

text \<open>The order after a maker fill.\<close>

definition maker_filled :: "paper_order \<Rightarrow> dec \<Rightarrow> dec \<Rightarrow> int \<Rightarrow> paper_order" where
  "maker_filled p quantity queue now =
     (let total = dadd (po_filled_quantity_base p) quantity;
          complete = (total = oi_quantity_base (po_intent p));
          pending = (po_state p = PO_PENDING_CANCEL)
      in p\<lparr>po_state := (if complete then PO_FILLED else if pending then PO_PENDING_CANCEL else PO_PARTIALLY_FILLED),
           po_filled_quantity_base := total, po_queue_ahead_base := queue, po_updated_ts_ns := now,
           po_cancel_effective_ts_ns :=
             (if \<not> complete \<and> pending then po_cancel_effective_ts_ns p else None)\<rparr>)"

fun match_orders ::
  "naming \<Rightarrow> int \<Rightarrow> paper_order list \<Rightarrow> dec \<Rightarrow> sim_call \<Rightarrow> sim_call \<times> unit res" where
  "match_orders nm now [] available k = (k, Inr ())"
| "match_orders nm now (p # ps) available k =
     (if available \<le> 0 then (k, Inr ())
      else
        (let consumed = min (po_queue_ahead_base p) available;
             available' = dsub available consumed;
             queue = dsub (po_queue_ahead_base p) consumed
         in if available' \<le> 0
            then match_orders nm now ps available'
                   (call_store (p\<lparr>po_queue_ahead_base := queue, po_updated_ts_ns := now\<rparr>) k)
            else
              (let quantity = min (remaining_quantity_base p) available'
               in if \<not> es_allow_partial_fills (ps_scenario (sc_sim k)) \<and> quantity < remaining_quantity_base p
                  then match_orders nm now ps available' k
                  else (case oi_limit_price (po_intent p) of
                          None \<Rightarrow> (k, Inl AssertionError)
                        | Some price \<Rightarrow>
                            (case fill_order nm p quantity price True now (sc_sim k) of
                               (s, Inl e) \<Rightarrow> (k\<lparr>sc_sim := s\<rparr>, Inl e)
                             | (s, Inr fill) \<Rightarrow>
                                 match_orders nm now ps (dsub available' quantity)
                                   (call_store (maker_filled p quantity queue now)
                                     (k\<lparr>sc_sim := s, sc_fills := sc_fills k @ [fill]\<rparr>)))))))"

definition match_trade :: "naming \<Rightarrow> int \<Rightarrow> kernel_trade \<Rightarrow> sim_call \<Rightarrow> sim_call \<times> unit res" where
  "match_trade nm now t k =
     (let available = dmul (kt_size t) (es_trade_flow_multiplier (ps_scenario (sc_sim k)))
      in if available \<le> 0 then (k, Inr ())
         else match_orders nm now
                (sort_key (\<lambda>p. (po_effective_ts_ns p, po_paper_order_id p))
                  (filter (match_candidate t) (open_orders (sc_sim k)))) available k)"

record simulator_update =
  su_orders :: "paper_order list"
  su_fills :: "paper_fill list"
  su_account :: paper_account

text \<open>The end of a call: mark again and report.\<close>

definition finish_call :: "dec \<Rightarrow> int \<Rightarrow> sim_call \<times> unit res \<Rightarrow> paper_sim \<times> simulator_update res" where
  "finish_call mark now r =
     (case r of
        (k, Inl e) \<Rightarrow> (sc_sim k, Inl e)
      | (k, Inr _) \<Rightarrow>
          (let s = mark_sim mark now (sc_sim k)
           in (s, Inr \<lparr>su_orders = map snd (sc_changed k), su_fills = sc_fills k, su_account = ps_account s\<rparr>)))"

text \<open>\<open>mark_price or self._mid(market)\<close>\<close>

definition effective_mark :: "kernel_market \<Rightarrow> dec option \<Rightarrow> dec" where
  "effective_mark m mark_price = py_or_else mark_price (km_mid m)"

definition start_call :: "kernel_market \<Rightarrow> dec option \<Rightarrow> int \<Rightarrow> paper_sim \<Rightarrow> sim_call" where
  "start_call m mark_price now s =
     cancel_due_orders now
       \<lparr>sc_sim = mark_sim (effective_mark m mark_price) now s, sc_changed = [], sc_fills = []\<rparr>"

definition advance ::
  "naming \<Rightarrow> kernel_market \<Rightarrow> dec option \<Rightarrow> paper_sim \<Rightarrow> paper_sim \<times> simulator_update res" where
  "advance nm m mark_price s =
     (let now = km_observed_ts_ns m
      in finish_call (effective_mark m mark_price) now
           (bindS (activate_due_orders nm m now (start_call m mark_price now s))
              (\<lambda>k _. foldS (match_trade nm now) (km_trades m) k)))"

definition activate_pending ::
  "naming \<Rightarrow> int \<Rightarrow> kernel_market \<Rightarrow> dec option \<Rightarrow> paper_sim \<Rightarrow> paper_sim \<times> simulator_update res" where
  "activate_pending nm now m mark_price s =
     (if now < km_observed_ts_ns m
      then (s, Inl (ValueError ''paper activation time cannot precede the observed book''))
      else finish_call (effective_mark m mark_price) now
             (activate_due_orders nm m now (start_call m mark_price now s)))"

section \<open>Sequences of operations\<close>

datatype paper_op =
    Submit order_intent int
  | RequestCancel string int
  | RequestCancelAll int
  | Elapse int
  | Advance kernel_market "dec option"
  | ActivatePending int kernel_market "dec option"
  | SettleFunding dec dec int

text \<open>The simulator an operation leaves, and the fills it reports.\<close>

fun paper_step :: "naming \<Rightarrow> paper_sim \<Rightarrow> paper_op \<Rightarrow> paper_sim" where
  "paper_step nm s (Submit i t) = fst (submit nm i t s)"
| "paper_step nm s (RequestCancel i t) = fst (request_cancel i t s)"
| "paper_step nm s (RequestCancelAll t) = fst (request_cancel_all t s)"
| "paper_step nm s (Elapse t) = fst (elapse t s)"
| "paper_step nm s (Advance m mark) = fst (advance nm m mark s)"
| "paper_step nm s (ActivatePending t m mark) = fst (activate_pending nm t m mark s)"
| "paper_step nm s (SettleFunding rate mark t) = fst (settle_funding rate mark t s)"

end
