(* ===== verification/Paper_Safety.thy ===== *)
theory Paper_Safety
  imports Paper_Exchange
begin

text \<open>
  What the paper exchange guarantees over every sequence of its operations: the account stays
  consistent and reconciles after every market update, orders only move forward and terminal
  orders stay as they are, fills are legal and account for every change of the position; and a
  cancel that is requested again before it takes effect never takes effect.
\<close>

section \<open>The account\<close>

definition account_core :: "paper_account \<Rightarrow> bool" where
  "account_core a \<longleftrightarrow>
     (pa_position_base a = 0 \<longleftrightarrow> pa_average_entry_price a = None) \<and> opt_all (\<lambda>p. 0 < p) (pa_average_entry_price a)
   \<and> 0 < pa_day_start_equity_usd a \<and> 0 < pa_high_water_equity_usd a
   \<and> opt_all (\<lambda>t. 0 \<le> t) (pa_last_funding_settlement_ns a) \<and> 0 \<le> pa_utc_day a"

lemma paper_account_ok_core: "paper_account_ok a \<Longrightarrow> account_core a"
  unfolding paper_account_ok_def paper_account_error_def first_error_None_iff by (auto simp: account_core_def not_le)

lemma mark_account_core: "account_core a \<Longrightarrow> 0 \<le> ts \<Longrightarrow> account_core (mark_account mark ts a)"
  by (auto simp: account_core_def mark_account_def Let_def NANOSECONDS_PER_DAY_def pos_imp_zdiv_nonneg_iff less_max_iff_disj)

lemma mark_account_ok:
  assumes "account_core a" "0 \<le> ts" "0 < mark"
  shows "paper_account_ok (mark_account mark ts a)"
  using mark_account_core [OF assms(1,2), of mark] assms(2,3)
  unfolding paper_account_ok_def paper_account_error_def first_error_None_iff
  by (auto simp: account_core_def mark_account_def Let_def not_le not_less dsub_def)

lemma signed_quantity_ne_0: "0 < fl_quantity_base f \<Longrightarrow> signed_quantity f \<noteq> 0"
  by (auto simp: signed_quantity_def dec_simps)

lemma apply_fill_core:
  assumes a: "account_core a" and f: "0 < fl_quantity_base f" "0 < fl_price f"
  shows "\<exists>a'. apply_fill f a = Inr a' \<and> account_core a'"
proof -
  note s = signed_quantity_ne_0 [OF f(1)]
  have sn: "dadd (pa_position_base a) (signed_quantity f) \<noteq> 0"
    if "pa_position_base a = 0 \<or> 0 < pa_position_base a * signed_quantity f"
  proof -
    have "pa_position_base a + signed_quantity f \<noteq> 0"
      using that s by (auto simp: zero_less_mult_iff)
    then show ?thesis by (simp add: dec_simps)
  qed
  show ?thesis
  proof (cases "pa_position_base a = 0 \<or> 0 < dmul (pa_position_base a) (signed_quantity f)")
    case True
    then have same: "pa_position_base a = 0 \<or> 0 < pa_position_base a * signed_quantity f" by (simp add: dec_simps)
    have avg: "0 < py_or_else (pa_average_entry_price a) (fl_price f)"
      using a f(2) by (cases "pa_average_entry_price a") (auto simp: account_core_def py_or_else_def)
    have ds: "0 < dabs (signed_quantity f)" using s by (simp add: dec_simps)
    then have "0 < dadd (dabs (pa_position_base a)) (dabs (signed_quantity f))"
      unfolding dadd_pos_iff by (rule add_nonneg_pos [OF dabs_nonneg])
    moreover have "0 \<le> dmul (dabs (pa_position_base a)) (py_or_else (pa_average_entry_price a) (fl_price f))"
      using avg by (simp add: dec_simps)
    moreover have "0 < dmul (dabs (signed_quantity f)) (fl_price f)" using ds f(2) by (simp add: dmul_pos_iff)
    ultimately have "0 < ddiv (dadd (dmul (dabs (pa_position_base a)) (py_or_else (pa_average_entry_price a) (fl_price f)))
        (dmul (dabs (signed_quantity f)) (fl_price f))) (dadd (dabs (pa_position_base a)) (dabs (signed_quantity f)))"
      by (simp add: ddiv_pos_iff dadd_pos_iff)
    with True sn [OF same] a show ?thesis by (simp add: apply_fill_def Let_def account_core_def)
  next
    case False
    then obtain p where p: "pa_average_entry_price a = Some p" "0 < p"
      using a by (cases "pa_average_entry_price a") (auto simp: account_core_def)
    with False a f(2) show ?thesis by (auto simp: apply_fill_def Let_def account_core_def)
  qed
qed

lemma paper_fill_positive: "paper_fill_error f = None \<Longrightarrow> 0 < fl_quantity_base f \<and> 0 < fl_price f"
  unfolding paper_fill_error_def first_error_None_iff by (auto simp: not_le)

section \<open>Orders\<close>

abbreviation order_at :: "paper_sim \<Rightarrow> string \<Rightarrow> paper_order option" where
  "order_at s \<equiv> map_of (ps_orders s)"

text \<open>The states an order can be found in later.\<close>

fun later_state :: "paper_order_state \<Rightarrow> paper_order_state \<Rightarrow> bool" where
  "later_state PO_PENDING_ACTIVATION t = True"
| "later_state PO_RESTING t = (t \<notin> {PO_PENDING_ACTIVATION, PO_REJECTED})"
| "later_state PO_PARTIALLY_FILLED t = (t \<in> {PO_PARTIALLY_FILLED, PO_PENDING_CANCEL, PO_FILLED, PO_CANCELED})"
| "later_state PO_PENDING_CANCEL t = (t \<in> {PO_PENDING_CANCEL, PO_FILLED, PO_CANCELED})"
| "later_state s t = (s = t)"

lemma later_state_refl [simp]: "later_state s s"
  by (cases s) auto

lemma later_state_trans: "later_state s t \<Longrightarrow> later_state t u \<Longrightarrow> later_state s u"
  by (cases s; cases t; cases u) auto

definition order_succ :: "paper_order \<Rightarrow> paper_order \<Rightarrow> bool" where
  "order_succ p q \<longleftrightarrow>
     po_paper_order_id q = po_paper_order_id p \<and> po_intent q = po_intent p
   \<and> po_accepted_ts_ns q = po_accepted_ts_ns p \<and> po_effective_ts_ns q = po_effective_ts_ns p
   \<and> po_filled_quantity_base p \<le> po_filled_quantity_base q
   \<and> later_state (po_state p) (po_state q) \<and> (terminal_paper_state (po_state p) \<longrightarrow> q = p)"

lemma order_succ_refl [simp]: "order_succ p p"
  by (simp add: order_succ_def)

lemma order_succ_trans: "order_succ p q \<Longrightarrow> order_succ q r \<Longrightarrow> order_succ p r"
  by (auto simp: order_succ_def intro: later_state_trans)

text \<open>The identity of an order, and what is known of every stored one.\<close>

definition name_of :: "naming \<Rightarrow> string \<Rightarrow> string \<Rightarrow> string" where
  "name_of nm ns i = ''paper-'' @ take 24 (nm_sha256 nm (ns @ '':'' @ i))"

definition stored_ok :: "naming \<Rightarrow> string \<Rightarrow> paper_order \<Rightarrow> bool" where
  "stored_ok nm ns p \<longleftrightarrow>
     po_paper_order_id p = name_of nm ns (oi_intent_id (po_intent p)) \<and> order_intent_ok (po_intent p)
   \<and> is_dec (po_filled_quantity_base p) \<and> 0 \<le> po_filled_quantity_base p
   \<and> (po_state p = PO_PENDING_ACTIVATION \<longrightarrow> po_filled_quantity_base p = 0)"

definition sim_inv :: "naming \<Rightarrow> string set \<Rightarrow> paper_sim \<Rightarrow> bool" where
  "sim_inv nm U s \<longleftrightarrow>
     distinct (map fst (ps_orders s)) \<and> account_core (ps_account s)
   \<and> set (ps_intent_ids s) \<subseteq> U \<and> inj_on (name_of nm (ps_namespace s)) U
   \<and> (\<forall>k p. order_at s k = Some p \<longrightarrow>
        k = po_paper_order_id p \<and> stored_ok nm (ps_namespace s) p \<and> oi_intent_id (po_intent p) \<in> set (ps_intent_ids s))"

definition sim_succ :: "paper_sim \<Rightarrow> paper_sim \<Rightarrow> bool" where
  "sim_succ s t \<longleftrightarrow>
     ps_namespace t = ps_namespace s \<and> ps_scenario t = ps_scenario s
   \<and> (\<forall>k p. order_at s k = Some p \<longrightarrow> (\<exists>q. order_at t k = Some q \<and> order_succ p q))"

lemma sim_succ_refl [simp]: "sim_succ s s"
  by (auto simp: sim_succ_def)

lemma sim_succ_trans: "sim_succ s t \<Longrightarrow> sim_succ t u \<Longrightarrow> sim_succ s u"
  unfolding sim_succ_def by (metis order_succ_trans)

lemma order_at_store [simp]: "order_at (store_order q s) k = (if k = po_paper_order_id q then Some q else order_at s k)"
  by (simp add: store_order_def AList.update_conv')

lemma store_order_simps [simp]:
  "ps_scenario (store_order q s) = ps_scenario s" "ps_namespace (store_order q s) = ps_namespace s"
  "ps_intent_ids (store_order q s) = ps_intent_ids s" "ps_account (store_order q s) = ps_account s"
  "distinct (map fst (ps_orders s)) \<Longrightarrow> distinct (map fst (ps_orders (store_order q s)))"
  by (simp_all add: store_order_def AList.distinct_update)

lemma account_update_simps [simp]:
  "sim_succ s (s\<lparr>ps_account := a\<rparr>)" "sim_succ s (mark_sim mark ts s)"
  by (auto simp: sim_succ_def mark_sim_def)

lemma sim_inv_account: "sim_inv nm U s \<Longrightarrow> account_core a \<Longrightarrow> sim_inv nm U (s\<lparr>ps_account := a\<rparr>)"
  by (simp add: sim_inv_def)

lemma sim_inv_mark: "sim_inv nm U s \<Longrightarrow> 0 \<le> ts \<Longrightarrow> sim_inv nm U (mark_sim mark ts s)"
  unfolding mark_sim_def by (rule sim_inv_account) (auto simp: sim_inv_def mark_account_core)

lemma sim_inv_store:
  assumes s: "sim_inv nm U s" and p: "order_at s k = Some p" and q: "order_succ p q" and ok: "stored_ok nm (ps_namespace s) q"
  shows "sim_inv nm U (store_order q s)" "sim_succ s (store_order q s)"
proof -
  have k: "k = po_paper_order_id p" "oi_intent_id (po_intent p) \<in> set (ps_intent_ids s)"
    using s p by (auto simp: sim_inv_def)
  have id: "po_paper_order_id q = po_paper_order_id p" "po_intent q = po_intent p" using q by (simp_all add: order_succ_def)
  show "sim_inv nm U (store_order q s)" using s k id ok by (auto simp: sim_inv_def)
  show "sim_succ s (store_order q s)" using p k q id by (auto simp: sim_succ_def)
qed

lemma in_orders_iff:
  "sim_inv nm U s \<Longrightarrow> p \<in> set (map snd (ps_orders s)) \<longleftrightarrow> order_at s (po_paper_order_id p) = Some p"
proof
  assume s: "sim_inv nm U s" and "p \<in> set (map snd (ps_orders s))"
  then obtain k where "(k, p) \<in> set (ps_orders s)" by auto
  then have "order_at s k = Some p" using s by (simp add: sim_inv_def map_of_is_SomeI)
  with s show "order_at s (po_paper_order_id p) = Some p" by (auto simp: sim_inv_def)
next
  assume "order_at s (po_paper_order_id p) = Some p"
  then show "p \<in> set (map snd (ps_orders s))" by (force dest: map_of_SomeD)
qed

lemma in_open_orders_iff:
  "sim_inv nm U s \<Longrightarrow>
     p \<in> set (open_orders s) \<longleftrightarrow> order_at s (po_paper_order_id p) = Some p \<and> \<not> terminal_paper_state (po_state p)"
  using in_orders_iff [of nm U s p] by (auto simp: open_orders_def)

lemma distinct_order_ids:
  assumes "sim_inv nm U s"
  shows "distinct (map po_paper_order_id (map snd (ps_orders s)))"
proof -
  have "po_paper_order_id (snd kp) = fst kp" if "kp \<in> set (ps_orders s)" for kp
    using assms that by (cases kp) (auto simp: sim_inv_def map_of_is_SomeI)
  then have "map po_paper_order_id (map snd (ps_orders s)) = map fst (ps_orders s)" by (simp add: comp_def cong: map_cong)
  with assms show ?thesis by (simp only: sim_inv_def)
qed

text \<open>A list of orders as the simulator holds them now: what a loop over \<open>open_orders\<close> starts from.\<close>

definition current :: "paper_order list \<Rightarrow> paper_sim \<Rightarrow> bool" where
  "current ps s \<longleftrightarrow> distinct (map po_paper_order_id ps) \<and> (\<forall>p \<in> set ps. order_at s (po_paper_order_id p) = Some p)"

lemma current_Cons:
  "current (p # ps) s \<longleftrightarrow>
     order_at s (po_paper_order_id p) = Some p \<and> po_paper_order_id p \<notin> po_paper_order_id ` set ps \<and> current ps s"
  by (auto simp: current_def)

lemma distinct_map_filter_sort:
  "distinct (map f xs) \<Longrightarrow> distinct (map f (sort_key g (filter P xs)))"
proof -
  assume d: "distinct (map f xs)"
  then have "distinct xs" "inj_on f (set xs)" by (simp_all add: distinct_map)
  then show ?thesis by (auto simp: distinct_map intro: inj_on_subset)
qed

lemma current_open_orders:
  assumes "sim_inv nm U s"
  shows "current (open_orders s) s"
proof -
  have "distinct (map po_paper_order_id (open_orders s))"
    unfolding open_orders_def by (rule distinct_map_filter_sort) (rule distinct_order_ids [OF assms])
  then show ?thesis using in_open_orders_iff [OF assms] by (simp add: current_def)
qed

lemma current_filter: "current ps s \<Longrightarrow> current (sort_key g (filter P ps)) s"
  by (auto simp: current_def intro: distinct_map_filter_sort)

lemma current_filter': "current ps s \<Longrightarrow> current (filter P ps) s"
  using distinct_map_filter [of po_paper_order_id ps P] by (auto simp: current_def)

lemma current_cong:
  "current ps s \<Longrightarrow> (\<And>p. p \<in> set ps \<Longrightarrow> order_at t (po_paper_order_id p) = order_at s (po_paper_order_id p)) \<Longrightarrow> current ps t"
  by (auto simp: current_def)


section \<open>What one fill, one activation, one match does\<close>

text \<open>A fill on behalf of an order: a maker fill at the limit price, or a taker fill no worse than it.\<close>

definition fill_for :: "int \<Rightarrow> paper_fill \<Rightarrow> paper_order \<Rightarrow> bool" where
  "fill_for now f p \<longleftrightarrow>
     fl_fill_ts_ns f = now \<and>
     fl_paper_order_id f = po_paper_order_id p \<and> fl_intent_id f = oi_intent_id (po_intent p)
   \<and> fl_side f = oi_side (po_intent p) \<and> 0 < fl_quantity_base f \<and> 0 < fl_price f
   \<and> (if fl_maker f then oi_limit_price (po_intent p) = Some (fl_price f)
      else \<not> oi_post_only (po_intent p)
        \<and> opt_all (\<lambda>x. if oi_side (po_intent p) = BUY then fl_price f \<le> x else x \<le> fl_price f) (oi_limit_price (po_intent p)))"

text \<open>The account after a list of fills, in its position, cash and fees.\<close>

definition replay_fills :: "paper_fill list \<Rightarrow> paper_account \<Rightarrow> dec \<times> dec \<times> dec" where
  "replay_fills fs a =
     (foldl (\<lambda>x f. dadd x (signed_quantity f)) (pa_position_base a) fs,
      foldl (\<lambda>x f. dadd x (dsub (dmul (dneg (signed_quantity f)) (fl_price f)) (fl_fee_usd f))) (pa_cash_usd a) fs,
      foldl (\<lambda>x f. dadd x (fl_fee_usd f)) (pa_fees_usd a) fs)"

definition balances :: "paper_account \<Rightarrow> dec \<times> dec \<times> dec" where
  "balances a = (pa_position_base a, pa_cash_usd a, pa_fees_usd a)"

lemma replay_fills_Nil [simp]: "replay_fills [] a = balances a"
  by (simp add: replay_fills_def balances_def)

lemma replay_fills_append: "replay_fills fs a = balances b \<Longrightarrow> replay_fills (fs @ gs) a = replay_fills gs b"
  by (simp add: replay_fills_def balances_def)

lemma apply_fill_balances: "apply_fill f a = Inr a' \<Longrightarrow> balances a' = replay_fills [f] a"
  by (auto simp: apply_fill_def Let_def balances_def replay_fills_def split: if_splits option.splits)

lemma balances_mark [simp]: "balances (mark_account mark ts a) = balances a"
  by (simp add: balances_def mark_account_def Let_def)

lemma fill_order_cases:
  assumes "fill_order nm p quantity price maker ts s = (s', r)" "account_core (ps_account s)"
  obtains (invalid) e where "r = Inl (ValidationError e)" "s' = s"
    | (filled) f a where "r = Inr f" "f = fill_of nm s p quantity price maker ts" "0 < quantity" "0 < price"
        "s' = s\<lparr>ps_account := a\<rparr>" "account_core a" "balances a = replay_fills [f] (ps_account s)"
proof (cases "paper_fill_error (fill_of nm s p quantity price maker ts)")
  case (Some e)
  with assms(1) show thesis by (intro invalid) (auto simp: fill_order_def Let_def)
next
  case None
  let ?f = "fill_of nm s p quantity price maker ts"
  note pos = paper_fill_positive [OF None]
  from apply_fill_core [OF assms(2), of ?f] pos obtain a where
    a: "apply_fill ?f (ps_account s) = Inr a" "account_core a" by auto
  have "0 < quantity" "0 < price" using pos by (simp_all add: fill_of_def Let_def)
  with a None assms(1) apply_fill_balances [OF a(1)] show thesis
    by (intro filled [of ?f a]) (auto simp: fill_order_def Let_def)
qed

lemma fill_for_taker:
  assumes "\<not> oi_post_only (po_intent p)" "0 < quantity" "0 < taker_price sc (po_intent p) l"
  shows "fill_for ts (fill_of nm s (p\<lparr>po_filled_quantity_base := x\<rparr>) quantity (taker_price sc (po_intent p) l) False ts) p"
  using assms by (auto simp: fill_for_def fill_of_def Let_def taker_price_def split: option.splits)

lemma fill_for_maker:
  "oi_limit_price (po_intent p) = Some price \<Longrightarrow> 0 < quantity \<Longrightarrow> 0 < price \<Longrightarrow>
     fill_for ts (fill_of nm s p quantity price True ts) p"
  by (simp add: fill_for_def fill_of_def Let_def)

text \<open>The taker loop touches the account only; what remains is no more than before.\<close>

lemma taker_fills_outcome:
  assumes "taker_fills nm p goal now ls remaining fills s = (s', r)" "account_core (ps_account s)"
    "\<not> oi_post_only (po_intent p)" "list_all (\<lambda>f. fill_for now f p) fills" "is_dec remaining" "0 \<le> remaining"
    "replay_fills fills a0 = balances (ps_account s)"
  shows "(\<exists>a. s' = s\<lparr>ps_account := a\<rparr> \<and> account_core a)
    \<and> (case r of Inl e \<Rightarrow> (\<exists>msg. e = ValidationError msg)
       | Inr (left, fs) \<Rightarrow> is_dec left \<and> 0 \<le> left \<and> left \<le> remaining \<and> list_all (\<lambda>f. fill_for now f p) fs
           \<and> replay_fills fs a0 = balances (ps_account s'))"
  using assms
proof (induction ls arbitrary: remaining fills s)
  case Nil
  then show ?case by (auto intro: exI [of _ "ps_account s"])
next
  case (Cons l ls)
  let ?q = "min remaining (level_quantity (ps_scenario s) l)"
  show ?case
  proof (cases "?q \<le> 0")
    case True
    then have "taker_fills nm p goal now ls remaining fills s = (s', r)" using Cons.prems(1) by (simp add: Let_def)
    from Cons.IH [OF this Cons.prems(2-)] show ?thesis .
  next
    case False
    let ?p = "p\<lparr>po_filled_quantity_base := dsub (dadd (po_filled_quantity_base p) goal) remaining\<rparr>"
    let ?price = "taker_price (ps_scenario s) (po_intent p) l"
    obtain s1 r1 where f: "fill_order nm ?p ?q ?price False now s = (s1, r1)" by fastforce
    from f Cons.prems(2) show ?thesis
    proof (cases rule: fill_order_cases)
      case (invalid e)
      then have "s' = s" "r = Inl (ValidationError e)" using Cons.prems(1) f False by (simp_all add: Let_def)
      with Cons.prems(2) show ?thesis by (auto intro: exI [of _ "ps_account s"])
    next
      case (filled fill a)
      have ff: "fill_for now fill p"
        unfolding filled(2) by (rule fill_for_taker [OF Cons.prems(3) filled(3,4)])
      have le: "?q \<le> remaining" "0 < ?q" using False by auto
      have left: "is_dec (dsub remaining ?q)" "0 \<le> dsub remaining ?q" using le by (simp_all add: dec_simps)
      have smaller: "dsub remaining ?q \<le> remaining"
        unfolding dsub_def by (rule dec.rnd_le_fixed) (use Cons.prems(5) le in \<open>simp_all add: is_dec_def\<close>)
      have rp: "replay_fills (fills @ [fill]) a0 = balances (ps_account s1)"
        using replay_fills_append [OF Cons.prems(7)] filled by simp
      have ok: "list_all (\<lambda>f. fill_for now f p) (fills @ [fill])" using Cons.prems(4) ff by simp
      show ?thesis
      proof (cases "dsub remaining ?q = 0")
        case True
        then have "s' = s1" "r = Inr (0, fills @ [fill])"
          using Cons.prems(1) f filled(1) False by (simp_all add: Let_def)
        with filled(5,6) ok rp Cons.prems(6) show ?thesis by (auto simp: is_dec_def)
      next
        case nz: False
        then have rec: "taker_fills nm p goal now ls (dsub remaining ?q) (fills @ [fill]) s1 = (s', r)"
          using Cons.prems(1) f filled(1) False by (simp add: Let_def)
        have core: "account_core (ps_account s1)" using filled by simp
        from Cons.IH [OF rec core Cons.prems(3) ok left rp] smaller filled(5)
        show ?thesis by (fastforce split: sum.splits)
      qed
    qed
  qed
qed


text \<open>The common outcome of the steps that replace a stored order.\<close>

definition replaces ::
  "naming \<Rightarrow> int \<Rightarrow> paper_sim \<Rightarrow> paper_order \<Rightarrow> paper_sim \<times> (paper_order \<times> paper_fill list) res \<Rightarrow> bool" where
  "replaces nm now s p result \<longleftrightarrow>
     (\<exists>a. fst result = s\<lparr>ps_account := a\<rparr> \<and> account_core a)
   \<and> (case snd result of Inl e \<Rightarrow> (\<exists>msg. e = ValidationError msg)
      | Inr (q, fs) \<Rightarrow> order_succ p q \<and> stored_ok nm (ps_namespace s) q \<and> list_all (\<lambda>f. fill_for now f p) fs
          \<and> replay_fills fs (ps_account s) = balances (ps_account (fst result)))"

lemma replaces_quiet:
  assumes "account_core (ps_account s)" "order_succ p q" "stored_ok nm (ps_namespace s) q"
  shows "replaces nm now s p (s, Inr (q, []))"
  using assms by (auto simp: replaces_def intro: exI [of _ "ps_account s"])

lemma is_dec_remaining [simp]: "is_dec (remaining_quantity_base p)"
  by (simp add: remaining_quantity_base_def)

lemma is_dec_min: "is_dec a \<Longrightarrow> is_dec b \<Longrightarrow> is_dec (min a b)"
  by (simp add: min_def)

lemma execute_taker_replaces:
  assumes core: "account_core (ps_account s)" and ok: "stored_ok nm (ps_namespace s) p"
    and pend: "po_state p = PO_PENDING_ACTIVATION" and post: "\<not> oi_post_only (po_intent p)"
  shows "replaces nm now s p (execute_taker nm p m now s)"
proof -
  let ?levels = "taker_levels (po_intent p) m"
  let ?sc = "ps_scenario s"
  let ?available = "dsum (map (level_quantity ?sc) ?levels)"
  define goal where "goal = (if es_allow_partial_fills ?sc then min (remaining_quantity_base p) ?available else remaining_quantity_base p)"
  have z: "po_filled_quantity_base p = 0" using ok pend by (simp add: stored_ok_def)
  have dec: "is_dec goal" unfolding goal_def by (auto intro: is_dec_min)
  show ?thesis
  proof (cases "goal \<le> 0 \<or> \<not> es_allow_partial_fills ?sc \<and> ?available < remaining_quantity_base p")
    case True
    have "order_succ p (p\<lparr>po_state := PO_CANCELED, po_updated_ts_ns := now\<rparr>)"
      using pend by (simp add: order_succ_def terminal_paper_state_def)
    moreover have "stored_ok nm (ps_namespace s) (p\<lparr>po_state := PO_CANCELED, po_updated_ts_ns := now\<rparr>)"
      using ok by (simp add: stored_ok_def)
    ultimately have "replaces nm now s p (s, Inr (p\<lparr>po_state := PO_CANCELED, po_updated_ts_ns := now\<rparr>, []))"
      by (rule replaces_quiet [OF core])
    moreover have "execute_taker nm p m now s = (s, Inr (p\<lparr>po_state := PO_CANCELED, po_updated_ts_ns := now\<rparr>, []))"
      unfolding execute_taker_def Let_def goal_def [symmetric] using True by simp
    ultimately show ?thesis by (simp only:)
  next
    case False
    obtain s1 r1 where t: "taker_fills nm p goal now ?levels goal [] s = (s1, r1)" by fastforce
    have pos: "0 \<le> goal" using False by simp
    note o = taker_fills_outcome [OF t core post _ dec pos, of "ps_account s", simplified]
    have e: "execute_taker nm p m now s = bindS (s1, r1) (\<lambda>s (remaining, fills).
           (let total = dsub (dadd (po_filled_quantity_base p) goal) remaining
            in (s, Inr (p\<lparr>po_state := (if total = oi_quantity_base (po_intent p) then PO_FILLED else PO_CANCELED),
                          po_filled_quantity_base := total, po_updated_ts_ns := now\<rparr>, fills))))"
      unfolding execute_taker_def Let_def goal_def [symmetric] if_not_P [OF False] t ..
    show ?thesis
    proof (cases r1)
      case (Inl err)
      with o e show ?thesis by (auto simp: replaces_def)
    next
      case (Inr x)
      obtain left fs where x: "x = (left, fs)" by fastforce
      have total: "dsub (dadd (po_filled_quantity_base p) goal) left = dsub goal left"
        using dec by (simp add: z dadd_0)
      have le: "0 \<le> dsub goal left" using o Inr x by (simp add: dec_simps)
      let ?q = "p\<lparr>po_state := (if dsub goal left = oi_quantity_base (po_intent p) then PO_FILLED else PO_CANCELED),
                  po_filled_quantity_base := dsub goal left, po_updated_ts_ns := now\<rparr>"
      have "execute_taker nm p m now s = (s1, Inr (?q, fs))" using e Inr x total by (simp add: Let_def)
      moreover have "order_succ p ?q" using pend le z by (simp add: order_succ_def terminal_paper_state_def)
      moreover have "stored_ok nm (ps_namespace s) ?q" using ok le by (simp add: stored_ok_def)
      ultimately show ?thesis using o Inr x by (auto simp: replaces_def)
    qed
  qed
qed

lemma activate_replaces:
  assumes core: "account_core (ps_account s)" and ok: "stored_ok nm (ps_namespace s) p"
    and pend: "po_state p = PO_PENDING_ACTIVATION"
  shows "replaces nm now s p (activate nm p m now s)"
proof -
  have i: "order_intent_ok (po_intent p)" using ok by (simp add: stored_ok_def)
  have quiet: "replaces nm now s p (s, Inr (q, []))"
    if "q = p\<lparr>po_state := st, po_updated_ts_ns := now\<rparr> \<or> q = p\<lparr>po_state := st, po_updated_ts_ns := now, po_rejection_reason := x\<rparr>
      \<or> q = p\<lparr>po_state := st, po_queue_ahead_base := y, po_updated_ts_ns := now\<rparr>" "st \<noteq> PO_PENDING_ACTIVATION" for q st x y
    by (rule replaces_quiet [OF core]) (use that ok pend in \<open>auto simp: order_succ_def stored_ok_def terminal_paper_state_def\<close>)
  have mk: "\<not> oi_post_only (po_intent p)" if "oi_kind (po_intent p) = MARKET"
    using i that by (auto simp: order_intent_ok_iff)
  have lm: "oi_limit_price (po_intent p) \<noteq> None" if "oi_kind (po_intent p) \<noteq> MARKET"
    using i that by (cases "oi_kind (po_intent p)") (auto simp: order_intent_ok_iff)
  have gtc: "\<not> oi_post_only (po_intent p)" if "oi_time_in_force (po_intent p) = IOC"
    using i that by (auto simp: order_intent_ok_iff)
  note taker = execute_taker_replaces [OF core ok pend]
  show ?thesis
  proof (cases "oi_kind (po_intent p) = MARKET")
    case True
    with taker [OF mk] show ?thesis by (simp add: activate_def)
  next
    case False
    with lm obtain price where price: "oi_limit_price (po_intent p) = Some price" by auto
    note act = activate_def Let_def if_not_P [OF False] price option.case
    show ?thesis
    proof (cases "oi_post_only (po_intent p) \<and> crosses (po_intent p) price m")
      case True
      show ?thesis unfolding act if_P [OF True] by (rule quiet) auto
    next
      case nopost: False
      show ?thesis
      proof (cases "oi_time_in_force (po_intent p) = IOC")
        case True
        note act = act if_not_P [OF nopost] if_P [OF True]
        show ?thesis
        proof (cases "crosses (po_intent p) price m")
          case cross: True
          show ?thesis unfolding act if_P [OF cross] by (rule taker [OF gtc [OF True]])
        next
          case nocross: False
          show ?thesis unfolding act if_not_P [OF nocross] by (rule quiet) auto
        qed
      next
        case rest: False
        show ?thesis unfolding act if_not_P [OF nopost] if_not_P [OF rest] by (rule quiet) auto
      qed
    qed
  qed
qed

section \<open>What a call keeps\<close>


text \<open>A legal fill of an order: it was open, its entry latency had passed.\<close>

definition legal_fill :: "paper_sim \<Rightarrow> int \<Rightarrow> paper_fill \<Rightarrow> bool" where
  "legal_fill s now f \<longleftrightarrow>
     (\<exists>p. order_at s (fl_paper_order_id f) = Some p \<and> fill_for now f p
        \<and> \<not> terminal_paper_state (po_state p) \<and> po_effective_ts_ns p \<le> now)"

text \<open>The state of a call that started from the simulator \<open>s\<close> keeps the invariant, has moved orders
  forward only, and has reported legal fills.\<close>

definition call_inv :: "naming \<Rightarrow> string set \<Rightarrow> int \<Rightarrow> paper_sim \<Rightarrow> sim_call \<Rightarrow> bool" where
  "call_inv nm U now s k \<longleftrightarrow>
     sim_inv nm U (sc_sim k) \<and> sim_succ s (sc_sim k) \<and> list_all (legal_fill s now) (sc_fills k)
   \<and> (\<forall>i. order_at (sc_sim k) i \<noteq> None \<longrightarrow> order_at s i \<noteq> None)"

definition call_balanced :: "paper_sim \<Rightarrow> sim_call \<Rightarrow> bool" where
  "call_balanced s k \<longleftrightarrow> replay_fills (sc_fills k) (ps_account s) = balances (ps_account (sc_sim k))"

definition call_result :: "naming \<Rightarrow> string set \<Rightarrow> int \<Rightarrow> paper_sim \<Rightarrow> sim_call \<Rightarrow> sim_call \<times> unit res \<Rightarrow> bool" where
  "call_result nm U now s k r \<longleftrightarrow>
     call_inv nm U now s (fst r)
   \<and> (case snd r of Inl e \<Rightarrow> (\<exists>msg. e = ValidationError msg) | Inr _ \<Rightarrow> call_balanced s k \<longrightarrow> call_balanced s (fst r))"

text \<open>A step on one order leaves the others alone.\<close>

definition frames :: "paper_order \<Rightarrow> sim_call \<Rightarrow> sim_call \<times> unit res \<Rightarrow> bool" where
  "frames p k r \<longleftrightarrow> (\<forall>i. i \<noteq> po_paper_order_id p \<longrightarrow> order_at (sc_sim (fst r)) i = order_at (sc_sim k) i)"

lemma call_result_refl: "call_inv nm U now s k \<Longrightarrow> call_result nm U now s k (k, Inr ())"
  by (simp add: call_result_def)

lemma call_result_bind:
  assumes "call_result nm U now s k r" "\<And>k'. r = (k', Inr ()) \<Longrightarrow> call_inv nm U now s k' \<Longrightarrow> call_result nm U now s k' (f k' ())"
  shows "call_result nm U now s k (bindS r f)"
proof -
  obtain k1 r1 where r: "r = (k1, r1)" by fastforce
  show ?thesis
  proof (cases r1)
    case (Inl e)
    with assms(1) r show ?thesis by (simp add: call_result_def)
  next
    case (Inr u)
    with assms r have "call_inv nm U now s k1" "call_balanced s k \<longrightarrow> call_balanced s k1"
      "call_result nm U now s k1 (f k1 ())" by (auto simp: call_result_def)
    then show ?thesis using r Inr by (auto simp: call_result_def split: sum.splits)
  qed
qed

lemma foldS_call:
  assumes "\<And>x k. x \<in> set xs \<Longrightarrow> call_inv nm U now s k \<Longrightarrow> call_result nm U now s k (f x k)" "call_inv nm U now s k"
  shows "call_result nm U now s k (foldS f xs k)"
  using assms
proof (induction xs arbitrary: k)
  case (Cons x xs)
  show ?case unfolding foldS.simps
  proof (rule call_result_bind)
    show "call_result nm U now s k (f x k)" by (rule Cons.prems(1)) (simp_all add: Cons.prems(2))
    fix k' assume "call_inv nm U now s k'"
    with Cons.IH Cons.prems(1) show "call_result nm U now s k' (foldS f xs k')" by simp
  qed
qed (simp add: call_result_refl)

lemma current_rest:
  assumes "current (p # ps) s" "\<forall>i. i \<noteq> po_paper_order_id p \<longrightarrow> order_at t i = order_at s i"
  shows "current ps t"
proof (rule current_cong)
  show "current ps s" using assms(1) by (simp add: current_Cons)
  fix q assume "q \<in> set ps"
  then have "po_paper_order_id q \<in> po_paper_order_id ` set ps" by (rule imageI)
  moreover have "po_paper_order_id p \<notin> po_paper_order_id ` set ps" using assms(1) by (simp add: current_Cons)
  ultimately have "po_paper_order_id q \<noteq> po_paper_order_id p" by metis
  with assms(2) show "order_at t (po_paper_order_id q) = order_at s (po_paper_order_id q)" by simp
qed

lemma foldS_current:
  assumes "\<And>p k. p \<in> set ps \<Longrightarrow> call_inv nm U now s k \<Longrightarrow> order_at (sc_sim k) (po_paper_order_id p) = Some p \<Longrightarrow>
      call_result nm U now s k (f p k) \<and> frames p k (f p k)"
    and "call_inv nm U now s k" "current ps (sc_sim k)"
  shows "call_result nm U now s k (foldS f ps k)
    \<and> (\<forall>i. i \<notin> po_paper_order_id ` set ps \<longrightarrow> order_at (sc_sim (fst (foldS f ps k))) i = order_at (sc_sim k) i)"
  using assms
proof (induction ps arbitrary: k)
  case (Cons p ps)
  have step: "call_result nm U now s k (f p k)" "frames p k (f p k)"
    using Cons.prems(1) [OF _ Cons.prems(2)] Cons.prems(3) by (auto simp: current_Cons)
  have later: "call_result nm U now s k' (foldS f ps k')
      \<and> (\<forall>i. i \<notin> po_paper_order_id ` set ps \<longrightarrow> order_at (sc_sim (fst (foldS f ps k'))) i = order_at (sc_sim k') i)"
    if k': "f p k = (k', Inr ())" "call_inv nm U now s k'" for k'
  proof -
    have "current ps (sc_sim k')" by (rule current_rest [OF Cons.prems(3)]) (use step(2) k'(1) in \<open>simp add: frames_def\<close>)
    with Cons.IH Cons.prems(1) k'(2) show ?thesis by simp
  qed
  have "call_result nm U now s k (foldS f (p # ps) k)"
    unfolding foldS.simps by (rule call_result_bind [OF step(1)]) (use later in blast)
  moreover have "order_at (sc_sim (fst (foldS f (p # ps) k))) i = order_at (sc_sim k) i"
    if i: "i \<notin> po_paper_order_id ` set (p # ps)" for i
  proof -
    obtain k' r where k': "f p k = (k', r)" by fastforce
    have "order_at (sc_sim k') i = order_at (sc_sim k) i" using step(2) k' i by (simp add: frames_def)
    moreover have "call_inv nm U now s k'" using step(1) k' by (simp add: call_result_def)
    ultimately show ?thesis using later k' i by (cases r) auto
  qed
  ultimately show ?case by blast
qed (simp add: call_result_refl)

lemma call_store_simps [simp]:
  "sc_fills (call_store q k) = sc_fills k" "sc_sim (call_store q k) = store_order q (sc_sim k)"
  by (simp_all add: call_store_def)

lemma call_store_inv:
  assumes k: "call_inv nm U now s k" and p: "order_at (sc_sim k) (po_paper_order_id p) = Some p"
    and q: "order_succ p q" and ok: "stored_ok nm (ps_namespace (sc_sim k)) q"
  shows "call_inv nm U now s (call_store q k)"
proof -
  have "sim_inv nm U (sc_sim k)" using k by (simp add: call_inv_def)
  note st = sim_inv_store [OF this p q ok]
  have "po_paper_order_id q = po_paper_order_id p" using q by (simp add: order_succ_def)
  with k p st sim_succ_trans [of s "sc_sim k"] show ?thesis by (auto simp: call_inv_def)
qed

lemma call_account_inv:
  assumes "call_inv nm U now s k" "account_core a"
  shows "call_inv nm U now s (k\<lparr>sc_sim := (sc_sim k)\<lparr>ps_account := a\<rparr>\<rparr>)"
  using assms sim_inv_account [of nm U "sc_sim k" a] sim_succ_trans [of s "sc_sim k" "(sc_sim k)\<lparr>ps_account := a\<rparr>"]
  by (simp add: call_inv_def)

lemma legal_fill_origin:
  assumes k: "call_inv nm U now s k" and p: "order_at (sc_sim k) (po_paper_order_id p) = Some p"
    and f: "fill_for now f p" "\<not> terminal_paper_state (po_state p)" "po_effective_ts_ns p \<le> now"
  shows "legal_fill s now f"
proof -
  have id: "fl_paper_order_id f = po_paper_order_id p" using f(1) by (simp add: fill_for_def)
  obtain p0 where p0: "order_at s (po_paper_order_id p) = Some p0" using k p by (auto simp: call_inv_def)
  with k p have succ: "order_succ p0 p" by (fastforce simp: call_inv_def sim_succ_def)
  have eq: "po_intent p = po_intent p0" "po_paper_order_id p = po_paper_order_id p0"
    using succ by (simp_all add: order_succ_def)
  have "fill_for now f p0" using f(1) unfolding fill_for_def eq .
  moreover have "\<not> terminal_paper_state (po_state p0)" using succ f(2) by (auto simp: order_succ_def)
  moreover have "po_effective_ts_ns p0 \<le> now" using succ f(3) by (simp add: order_succ_def)
  ultimately show ?thesis using p0 id by (auto simp: legal_fill_def)
qed

lemma call_fills_inv:
  "call_inv nm U now s k \<Longrightarrow> list_all (legal_fill s now) fs \<Longrightarrow> call_inv nm U now s (k\<lparr>sc_fills := sc_fills k @ fs\<rparr>)"
  by (simp add: call_inv_def)

lemma stored_in_call:
  "call_inv nm U now s k \<Longrightarrow> order_at (sc_sim k) i = Some p \<Longrightarrow> stored_ok nm (ps_namespace (sc_sim k)) p"
  by (auto simp: call_inv_def sim_inv_def)

lemma core_in_call: "call_inv nm U now s k \<Longrightarrow> account_core (ps_account (sc_sim k))"
  by (simp add: call_inv_def sim_inv_def)


lemma activate_one_result:
  assumes k: "call_inv nm U now s k" and p: "order_at (sc_sim k) (po_paper_order_id p) = Some p" and due: "activation_due now p"
  shows "call_result nm U now s k (activate_one nm m now p k) \<and> frames p k (activate_one nm m now p k)"
proof -
  note ok = stored_in_call [OF k p]
  have pend: "po_state p = PO_PENDING_ACTIVATION" "po_effective_ts_ns p \<le> now" using due by (simp_all add: activation_due_def)
  have rep: "replaces nm now (sc_sim k) p (activate nm p m now (sc_sim k))"
    by (rule activate_replaces [OF core_in_call [OF k] ok pend(1)])
  obtain s1 r1 where act: "activate nm p m now (sc_sim k) = (s1, r1)" by fastforce
  obtain a where a: "s1 = (sc_sim k)\<lparr>ps_account := a\<rparr>" "account_core a" using rep act by (auto simp: replaces_def)
  let ?k1 = "k\<lparr>sc_sim := s1\<rparr>"
  have k1: "call_inv nm U now s ?k1" unfolding a(1) by (rule call_account_inv [OF k a(2)])
  show ?thesis
  proof (cases r1)
    case (Inl e)
    with rep act k1 a(1) show ?thesis by (auto simp: replaces_def call_result_def frames_def activate_one_def)
  next
    case (Inr x)
    obtain q fs where x: "x = (q, fs)" by fastforce
    have q: "order_succ p q" "stored_ok nm (ps_namespace (sc_sim k)) q" "list_all (\<lambda>f. fill_for now f p) fs"
      "replay_fills fs (ps_account (sc_sim k)) = balances (ps_account s1)"
      using rep act Inr x by (simp_all add: replaces_def)
    have id: "po_paper_order_id q = po_paper_order_id p" using q(1) by (simp add: order_succ_def)
    have "call_inv nm U now s (call_store q ?k1)" by (rule call_store_inv [OF k1 _ q(1)]) (use p q(2) a(1) in simp_all)
    moreover have "list_all (legal_fill s now) fs"
      using q(3) legal_fill_origin [OF k p _ _ pend(2)] pend(1) by (auto simp: list_all_iff terminal_paper_state_def)
    ultimately have "call_inv nm U now s ((call_store q ?k1)\<lparr>sc_fills := sc_fills (call_store q ?k1) @ fs\<rparr>)"
      by (rule call_fills_inv)
    moreover have "call_balanced s ((call_store q ?k1)\<lparr>sc_fills := sc_fills k @ fs\<rparr>)" if "call_balanced s k"
      using replay_fills_append [of "sc_fills k" "ps_account s"] that q(4) by (simp add: call_balanced_def)
    ultimately show ?thesis using act Inr x a(1) id by (simp add: activate_one_def call_result_def frames_def)
  qed
qed

lemma activate_due_result:
  assumes k: "call_inv nm U now s k"
  shows "call_result nm U now s k (activate_due_orders nm m now k)"
    "order_at (sc_sim k) i = Some p \<Longrightarrow> \<not> activation_due now p \<Longrightarrow>
       order_at (sc_sim (fst (activate_due_orders nm m now k))) i = Some p"
proof -
  have inv: "sim_inv nm U (sc_sim k)" using k by (simp add: call_inv_def)
  then have c: "current (filter (activation_due now) (open_orders (sc_sim k))) (sc_sim k)"
    by (intro current_filter' current_open_orders)
  have r: "call_result nm U now s k (activate_due_orders nm m now k)
    \<and> (\<forall>i. i \<notin> po_paper_order_id ` set (filter (activation_due now) (open_orders (sc_sim k))) \<longrightarrow>
          order_at (sc_sim (fst (activate_due_orders nm m now k))) i = order_at (sc_sim k) i)"
    unfolding activate_due_orders_def by (rule foldS_current [OF _ k c]) (rule activate_one_result, auto)
  then show "call_result nm U now s k (activate_due_orders nm m now k)" by simp
  assume p: "order_at (sc_sim k) i = Some p" "\<not> activation_due now p"
  have "i \<notin> po_paper_order_id ` set (filter (activation_due now) (open_orders (sc_sim k)))"
  proof
    assume "i \<in> po_paper_order_id ` set (filter (activation_due now) (open_orders (sc_sim k)))"
    then obtain q where "i = po_paper_order_id q" "activation_due now q" "q \<in> set (open_orders (sc_sim k))" by auto
    with in_open_orders_iff [OF inv, of q] p show False by simp
  qed
  with r p(1) show "order_at (sc_sim (fst (activate_due_orders nm m now k))) i = Some p" by simp
qed

lemma maker_filled_succ:
  assumes "match_candidate t p" "stored_ok nm ns p" "0 < quantity"
  shows "order_succ p (maker_filled p quantity queue now)" "stored_ok nm ns (maker_filled p quantity queue now)"
proof -
  have ge: "po_filled_quantity_base p \<le> dadd (po_filled_quantity_base p) quantity"
    unfolding dadd_def by (rule dec.rnd_ge_fixed) (use assms in \<open>simp_all add: stored_ok_def is_dec_def\<close>)
  have st: "po_state p = PO_RESTING \<or> po_state p = PO_PARTIALLY_FILLED \<or> po_state p = PO_PENDING_CANCEL"
    using assms(1) by (simp add: match_candidate_def)
  then show "order_succ p (maker_filled p quantity queue now)"
    using ge by (auto simp: order_succ_def maker_filled_def Let_def terminal_paper_state_def)
  show "stored_ok nm ns (maker_filled p quantity queue now)"
    using assms(2) ge by (auto simp: stored_ok_def maker_filled_def Let_def)
qed

lemma match_orders_result:
  assumes "call_inv nm U now s k" "current ps (sc_sim k)" "list_all (match_candidate t) ps" "kt_observed_ts_ns t \<le> now"
  shows "call_result nm U now s k (match_orders nm now ps available k)"
  using assms
proof (induction ps arbitrary: available k)
  case Nil
  then show ?case by (simp add: call_result_refl)
next
  case (Cons p ps)
  note k = Cons.prems(1)
  have p: "order_at (sc_sim k) (po_paper_order_id p) = Some p" and rest: "current ps (sc_sim k)" "list_all (match_candidate t) ps"
    and cand: "match_candidate t p" using Cons.prems(2,3) by (simp_all add: current_Cons)
  note ok = stored_in_call [OF k p]
  show ?case
  proof (cases "available \<le> 0")
    case True
    with k show ?thesis by (simp add: call_result_refl)
  next
    case False
    let ?consumed = "min (po_queue_ahead_base p) available"
    let ?left = "dsub available ?consumed"
    let ?queue = "dsub (po_queue_ahead_base p) ?consumed"
    let ?q = "min (remaining_quantity_base p) ?left"
    note m = match_orders.simps(2) [of nm now p ps available k, unfolded Let_def if_not_P [OF False]]
    show ?thesis
    proof (cases "?left \<le> 0")
      case True
      let ?p = "p\<lparr>po_queue_ahead_base := ?queue, po_updated_ts_ns := now\<rparr>"
      have "order_succ p ?p" "stored_ok nm (ps_namespace (sc_sim k)) ?p"
        using cand ok by (auto simp: order_succ_def stored_ok_def match_candidate_def terminal_paper_state_def)
      from call_store_inv [OF k p this] have k': "call_inv nm U now s (call_store ?p k)" .
      have "current ps (sc_sim (call_store ?p k))" by (rule current_rest [OF Cons.prems(2)]) simp
      from Cons.IH [OF k' this rest(2) Cons.prems(4), of ?left] show ?thesis
        unfolding m if_P [OF True] by (auto simp: call_result_def call_balanced_def split: sum.splits)
    next
      case pos: False
      note m = m [unfolded if_not_P [OF pos]]
      show ?thesis
      proof (cases "\<not> es_allow_partial_fills (ps_scenario (sc_sim k)) \<and> ?q < remaining_quantity_base p")
        case True
        from Cons.IH [OF k rest Cons.prems(4)] show ?thesis unfolding m if_P [OF True] .
      next
        case fill: False
        obtain price where price: "oi_limit_price (po_intent p) = Some price"
          using cand by (auto simp: match_candidate_def split: option.splits)
        note m = m [unfolded if_not_P [OF fill] price option.case]
        obtain s1 r1 where f: "fill_order nm p ?q price True now (sc_sim k) = (s1, r1)" by fastforce
        from f core_in_call [OF k] show ?thesis
        proof (cases rule: fill_order_cases)
          case (invalid e)
          with k show ?thesis unfolding m f by (simp add: call_result_def)
        next
          case (filled fl a)
          let ?k1 = "k\<lparr>sc_sim := s1\<rparr>"
          let ?p = "maker_filled p ?q ?queue now"
          let ?k2 = "(call_store ?p ?k1)\<lparr>sc_fills := sc_fills (call_store ?p ?k1) @ [fl]\<rparr>"
          have k1: "call_inv nm U now s ?k1" unfolding filled(5) by (rule call_account_inv [OF k filled(6)])
          note succ = maker_filled_succ [OF cand ok filled(3), of ?queue now]
          have id: "po_paper_order_id ?p = po_paper_order_id p" by (simp add: maker_filled_def Let_def)
          have "fill_for now fl p" unfolding filled(2) by (rule fill_for_maker [OF price filled(3,4)])
          moreover have "\<not> terminal_paper_state (po_state p)" "po_effective_ts_ns p \<le> now"
            using cand Cons.prems(4) by (auto simp: match_candidate_def terminal_paper_state_def)
          ultimately have legal: "legal_fill s now fl" by (rule legal_fill_origin [OF k p])
          have k2: "call_inv nm U now s ?k2"
            by (intro call_fills_inv call_store_inv [OF k1 _ succ(1)]) (use p succ(2) filled(5) legal in simp_all)
          have "current ps (sc_sim ?k2)" by (rule current_rest [OF Cons.prems(2)]) (simp add: id filled(5))
          note ih = Cons.IH [OF k2 this rest(2) Cons.prems(4), of "dsub ?left ?q"]
          have bal: "call_balanced s ?k2" if "call_balanced s k"
            using replay_fills_append [of "sc_fills k" "ps_account s" "ps_account (sc_sim k)" "[fl]"] that filled(5,7)
            by (simp add: call_balanced_def)
          have eq: "?k2 = call_store ?p (k\<lparr>sc_sim := s1, sc_fills := sc_fills k @ [fl]\<rparr>)"
            by (simp add: call_store_def)
          from ih bal show ?thesis
            unfolding m f filled(1) prod.case sum.case eq by (auto simp: call_result_def split: sum.splits)
        qed
      qed
    qed
  qed
qed

lemma match_trade_result:
  assumes k: "call_inv nm U now s k" and t: "kt_observed_ts_ns t \<le> now"
  shows "call_result nm U now s k (match_trade nm now t k)"
proof -
  have "sim_inv nm U (sc_sim k)" using k by (simp add: call_inv_def)
  then have c: "current (sort_key g (filter (match_candidate t) (open_orders (sc_sim k)))) (sc_sim k)" for g :: "paper_order \<Rightarrow> int \<times> string"
    by (intro current_filter current_open_orders)
  have m: "list_all (match_candidate t) (sort_key g (filter (match_candidate t) (open_orders (sc_sim k))))"
    for g :: "paper_order \<Rightarrow> int \<times> string"
    by (simp add: list_all_iff)
  show ?thesis
    using match_orders_result [OF k c m t] call_result_refl [OF k] by (simp add: match_trade_def Let_def)
qed


section \<open>Whole operations\<close>

lemma fold_store:
  assumes "sim_inv nm U s" "current ps s" "\<And>p. p \<in> set ps \<Longrightarrow> order_succ p (g p) \<and> stored_ok nm (ps_namespace s) (g p)"
  shows "sim_inv nm U (fold store_order (map g ps) s) \<and> sim_succ s (fold store_order (map g ps) s)
    \<and> ps_account (fold store_order (map g ps) s) = ps_account s
    \<and> (\<forall>i. order_at (fold store_order (map g ps) s) i \<noteq> None \<longrightarrow> order_at s i \<noteq> None)"
  using assms
proof (induction ps arbitrary: s)
  case (Cons p ps)
  have p: "order_at s (po_paper_order_id p) = Some p" "order_succ p (g p)" "stored_ok nm (ps_namespace s) (g p)"
    using Cons.prems(2,3) by (simp_all add: current_Cons)
  have id: "po_paper_order_id (g p) = po_paper_order_id p" using p(2) by (simp add: order_succ_def)
  note st = sim_inv_store [OF Cons.prems(1) p]
  have "current ps (store_order (g p) s)" by (rule current_rest [OF Cons.prems(2)]) (simp add: id)
  from Cons.IH [OF st(1) this] Cons.prems(3) have
    ih: "sim_inv nm U (fold store_order (map g ps) (store_order (g p) s))"
      "sim_succ (store_order (g p) s) (fold store_order (map g ps) (store_order (g p) s))"
      "ps_account (fold store_order (map g ps) (store_order (g p) s)) = ps_account s"
      "\<forall>i. order_at (fold store_order (map g ps) (store_order (g p) s)) i \<noteq> None \<longrightarrow> order_at (store_order (g p) s) i \<noteq> None"
    by simp_all
  have "order_at s i \<noteq> None" if "order_at (store_order (g p) s) i \<noteq> None" for i
    using that p(1) id by (auto split: if_splits)
  with ih sim_succ_trans [OF st(2) ih(2)] show ?case by simp
qed simp

lemma canceled_succ:
  assumes "cancel_due now p" "stored_ok nm ns p"
  shows "order_succ p (canceled_at now p) \<and> stored_ok nm ns (canceled_at now p)"
  using assms by (auto simp: cancel_due_def canceled_at_def order_succ_def stored_ok_def terminal_paper_state_def)

lemma due_cancels:
  assumes "sim_inv nm U s"
  shows "let t = fold store_order (map (canceled_at now) (filter (cancel_due now) (open_orders s))) s
    in sim_inv nm U t \<and> sim_succ s t \<and> ps_account t = ps_account s \<and> (\<forall>i. order_at t i \<noteq> None \<longrightarrow> order_at s i \<noteq> None)"
  unfolding Let_def
proof (rule fold_store [OF assms])
  show "current (filter (cancel_due now) (open_orders s)) s"
    by (intro current_filter' current_open_orders) (rule assms)
  fix p assume "p \<in> set (filter (cancel_due now) (open_orders s))"
  then have due: "cancel_due now p" and "order_at s (po_paper_order_id p) = Some p"
    using in_open_orders_iff [OF assms] by simp_all
  with assms have "stored_ok nm (ps_namespace s) p" by (simp add: sim_inv_def)
  with due show "order_succ p (canceled_at now p) \<and> stored_ok nm (ps_namespace s) (canceled_at now p)"
    by (rule canceled_succ)
qed

lemma sc_sim_fold [simp]:
  "sc_sim (fold call_store ps k) = fold store_order ps (sc_sim k)" "sc_fills (fold call_store ps k) = sc_fills k"
  by (induction ps arbitrary: k) auto

lemma start_call_inv:
  assumes s: "sim_inv nm U s" and now: "0 \<le> now"
  shows "call_inv nm U now s (start_call m mark now s) \<and> call_balanced s (start_call m mark now s)"
proof -
  let ?s = "mark_sim (effective_mark m mark) now s"
  have s1: "sim_inv nm U ?s" "sim_succ s ?s" by (simp_all add: sim_inv_mark [OF s now])
  have at: "order_at ?s i = order_at s i" "balances (ps_account ?s) = balances (ps_account s)" for i
    by (simp_all add: mark_sim_def)
  note t = due_cancels [OF s1(1), of now, unfolded Let_def]
  have "sim_succ s (fold store_order (map (canceled_at now) (filter (cancel_due now) (open_orders ?s))) ?s)"
    using t by (intro sim_succ_trans [OF s1(2)]) simp
  with t at show ?thesis
    by (simp add: start_call_def cancel_due_orders_def call_inv_def call_balanced_def)
qed

definition update_ok ::
  "naming \<Rightarrow> string set \<Rightarrow> int \<Rightarrow> paper_sim \<Rightarrow> paper_sim \<times> simulator_update res \<Rightarrow> bool" where
  "update_ok nm U now s r \<longleftrightarrow>
     sim_inv nm U (fst r) \<and> sim_succ s (fst r)
   \<and> (case snd r of Inl e \<Rightarrow> (\<exists>msg. e = ValidationError msg)
      | Inr u \<Rightarrow> su_account u = ps_account (fst r) \<and> paper_account_ok (su_account u)
          \<and> list_all (legal_fill s now) (su_fills u)
          \<and> replay_fills (su_fills u) (ps_account s) = balances (su_account u))"

lemma finish_call_ok:
  assumes r: "call_result nm U now s k r" and k: "call_balanced s k" and now: "0 \<le> now" and mark: "0 < mark"
  shows "update_ok nm U now s (finish_call mark now r)"
proof -
  obtain k' x where kx: "r = (k', x)" by fastforce
  have k': "sim_inv nm U (sc_sim k')" "sim_succ s (sc_sim k')" using r kx by (simp_all add: call_result_def call_inv_def)
  show ?thesis
  proof (cases x)
    case (Inl e)
    with r kx k' show ?thesis by (simp add: finish_call_def update_ok_def call_result_def)
  next
    case (Inr u)
    have "account_core (ps_account (sc_sim k'))" using k'(1) by (simp add: sim_inv_def)
    from mark_account_ok [OF this now mark] have "paper_account_ok (ps_account (mark_sim mark now (sc_sim k')))"
      by (simp add: mark_sim_def)
    moreover have "sim_succ s (mark_sim mark now (sc_sim k'))" by (rule sim_succ_trans [OF k'(2)]) simp
    moreover have "replay_fills (sc_fills k') (ps_account s) = balances (ps_account (mark_sim mark now (sc_sim k')))"
      "list_all (legal_fill s now) (sc_fills k')"
      using r kx Inr k by (simp_all add: call_result_def call_balanced_def call_inv_def mark_sim_def)
    ultimately show ?thesis using kx Inr sim_inv_mark [OF k'(1) now] by (simp add: finish_call_def update_ok_def Let_def)
  qed
qed

lemma effective_mark_pos:
  assumes "kernel_market_ok m" "opt_all (\<lambda>x. 0 \<le> x) mark"
  shows "0 < effective_mark m mark"
proof -
  from assms(1) have "km_bids m \<noteq> []" "list_all kernel_level_ok (km_bids m)" "km_asks m \<noteq> []" "list_all kernel_level_ok (km_asks m)"
    unfolding kernel_market_ok_def kernel_market_error_def first_error_None_iff by auto
  then have "0 < kl_price (hd (km_bids m))" "0 < kl_price (hd (km_asks m))"
    by (auto simp: list_all_iff kernel_level_ok_def)
  then have "0 < km_mid m" by (simp add: km_mid_def ddiv_pos_iff dadd_pos_iff)
  with assms(2) show ?thesis by (cases mark) (auto simp: effective_mark_def py_or_else_def)
qed

lemma kernel_market_times:
  assumes "kernel_market_ok m"
  shows "0 \<le> km_observed_ts_ns m" "t \<in> set (km_trades m) \<Longrightarrow> kt_observed_ts_ns t \<le> km_observed_ts_ns m"
  using assms unfolding kernel_market_ok_def kernel_market_error_def first_error_None_iff by (auto simp: list_ex_iff)

lemma advance_ok:
  assumes "sim_inv nm U s" "kernel_market_ok m" "opt_all (\<lambda>x. 0 \<le> x) mark"
  shows "update_ok nm U (km_observed_ts_ns m) s (advance nm m mark s)"
proof -
  let ?now = "km_observed_ts_ns m"
  note t = kernel_market_times [OF assms(2)]
  note st = start_call_inv [OF assms(1) t(1), of m mark]
  have "call_result nm U ?now s (start_call m mark ?now s)
     (bindS (activate_due_orders nm m ?now (start_call m mark ?now s)) (\<lambda>k _. foldS (match_trade nm ?now) (km_trades m) k))"
  proof (rule call_result_bind [OF activate_due_result(1)])
    show "call_inv nm U ?now s (start_call m mark ?now s)" using st by simp
    fix k' assume "call_inv nm U ?now s k'"
    then show "call_result nm U ?now s k' (foldS (match_trade nm ?now) (km_trades m) k')"
      by (rule foldS_call [rotated]) (rule match_trade_result, auto intro: t(2))
  qed
  from finish_call_ok [OF this _ t(1) effective_mark_pos [OF assms(2,3)]] st show ?thesis
    by (simp add: advance_def Let_def)
qed

lemma activate_pending_ok:
  assumes "sim_inv nm U s" "kernel_market_ok m" "opt_all (\<lambda>x. 0 \<le> x) mark" "km_observed_ts_ns m \<le> now"
  shows "update_ok nm U now s (activate_pending nm now m mark s)"
proof -
  have now: "0 \<le> now" using kernel_market_times(1) [OF assms(2)] assms(4) by simp
  note st = start_call_inv [OF assms(1) now, of m mark]
  have "call_result nm U now s (start_call m mark now s) (activate_due_orders nm m now (start_call m mark now s))"
    by (rule activate_due_result(1)) (use st in simp)
  from finish_call_ok [OF this _ now effective_mark_pos [OF assms(2,3)]] st assms(4) show ?thesis
    by (simp add: activate_pending_def Let_def)
qed


text \<open>The operations that do not see the market.\<close>

lemma order_at_submit:
  assumes s: "sim_inv nm U s" and new: "oi_intent_id i \<notin> set (ps_intent_ids s)" "oi_intent_id i \<in> U"
  shows "order_at s (name_of nm (ps_namespace s) (oi_intent_id i)) = None"
proof (rule ccontr)
  assume "order_at s (name_of nm (ps_namespace s) (oi_intent_id i)) \<noteq> None"
  then obtain p where "order_at s (name_of nm (ps_namespace s) (oi_intent_id i)) = Some p" by auto
  with s have "name_of nm (ps_namespace s) (oi_intent_id i) = po_paper_order_id p" "stored_ok nm (ps_namespace s) p"
    and used: "oi_intent_id (po_intent p) \<in> set (ps_intent_ids s)"
    unfolding sim_inv_def by blast+
  then have p: "name_of nm (ps_namespace s) (oi_intent_id i) = name_of nm (ps_namespace s) (oi_intent_id (po_intent p))"
    "oi_intent_id (po_intent p) \<in> set (ps_intent_ids s)" by (simp_all add: stored_ok_def)
  with s new(2) have "oi_intent_id i = oi_intent_id (po_intent p)" by (auto simp: sim_inv_def dest: inj_onD)
  with p(2) new(1) show False by simp
qed

lemma submit_ok:
  assumes s: "sim_inv nm U s" and i: "order_intent_ok i" "oi_intent_id i \<in> U"
  shows "sim_inv nm U (fst (submit nm i t s)) \<and> sim_succ s (fst (submit nm i t s))"
proof (cases "oi_intent_id i \<in> set (ps_intent_ids s)")
  case True
  with s show ?thesis by (simp add: submit_def)
next
  case False
  let ?s = "s\<lparr>ps_intent_ids := oi_intent_id i # ps_intent_ids s\<rparr>"
  note none = order_at_submit [OF s False i(2)]
  have s1: "sim_inv nm U ?s" "sim_succ s ?s" using s i(2) by (auto simp: sim_inv_def sim_succ_def)
  let ?q = "submitted_order nm i t s"
  have q: "po_paper_order_id ?q = name_of nm (ps_namespace s) (oi_intent_id i)" "po_intent ?q = i" "po_filled_quantity_base ?q = 0"
    by (simp_all add: submitted_order_def Let_def name_of_def)
  have "stored_ok nm (ps_namespace s) ?q" using q i(1) by (simp add: stored_ok_def is_dec_def)
  then have "sim_inv nm U (store_order ?q ?s)" using s1(1) q(1,2) by (auto simp: sim_inv_def)
  moreover have "sim_succ ?s (store_order ?q ?s)" using none q(1) by (auto simp: sim_succ_def)
  ultimately show ?thesis
    using False s1 sim_succ_trans [OF s1(2), of "store_order ?q ?s"]
    by (auto simp: submit_def Let_def mk_paper_order_def split: option.splits)
qed

lemma request_cancel_cases:
  assumes "sim_inv nm U s"
  obtains (absent) "request_cancel i t s = (s, None)" "\<And>p. p \<in> set (open_orders s) \<Longrightarrow> oi_intent_id (po_intent p) \<noteq> i"
    | (found) p q where "request_cancel i t s = (store_order q s, Some q)" "p \<in> set (open_orders s)"
        "oi_intent_id (po_intent p) = i" "order_at s (po_paper_order_id p) = Some p" "order_succ p q"
        "stored_ok nm (ps_namespace s) q" "po_state q = PO_PENDING_CANCEL"
        "po_cancel_effective_ts_ns q = Some (t + es_response_latency_ns (ps_scenario s))"
proof (cases "find_open_intent i s")
  case None
  moreover have "\<And>p. p \<in> set (open_orders s) \<Longrightarrow> oi_intent_id (po_intent p) \<noteq> i"
    using None by (auto simp: find_open_intent_def find_None_iff)
  ultimately show thesis by (intro absent) (simp_all add: request_cancel_def)
next
  case (Some p)
  then have p: "p \<in> set (open_orders s)" "oi_intent_id (po_intent p) = i" by (auto simp: find_open_intent_def dest: find_Some_in)
  with in_open_orders_iff [OF assms] have at: "order_at s (po_paper_order_id p) = Some p" "\<not> terminal_paper_state (po_state p)" by auto
  then have "stored_ok nm (ps_namespace s) p" using assms by (simp add: sim_inv_def)
  let ?q = "p\<lparr>po_state := PO_PENDING_CANCEL, po_cancel_effective_ts_ns := Some (t + es_response_latency_ns (ps_scenario s)),
              po_updated_ts_ns := t\<rparr>"
  have "order_succ p ?q" using at(2) by (cases "po_state p") (auto simp: order_succ_def terminal_paper_state_def)
  moreover have "stored_ok nm (ps_namespace s) ?q" using \<open>stored_ok nm (ps_namespace s) p\<close> by (simp add: stored_ok_def)
  ultimately show thesis using Some p at by (intro found [of ?q p]) (auto simp: request_cancel_def Let_def)
qed

lemma request_cancel_ok:
  assumes "sim_inv nm U s"
  shows "sim_inv nm U (fst (request_cancel i t s)) \<and> sim_succ s (fst (request_cancel i t s))"
  using assms
proof (cases rule: request_cancel_cases [of nm U s i t])
  case (found p q)
  with sim_inv_store [OF assms found(4-6)] show ?thesis by simp
qed (use assms in simp_all)

lemma cancel_each_ok:
  "sim_inv nm U s \<Longrightarrow> sim_inv nm U (fst (cancel_each is t s)) \<and> sim_succ s (fst (cancel_each is t s))"
proof (induction "is" arbitrary: s)
  case (Cons i "is")
  note one = request_cancel_ok [OF Cons.prems, of i t]
  from Cons.IH one have "sim_inv nm U (fst (cancel_each is t (fst (request_cancel i t s))))"
    "sim_succ (fst (request_cancel i t s)) (fst (cancel_each is t (fst (request_cancel i t s))))" by auto
  with one show ?case by (auto simp: case_prod_beta intro: sim_succ_trans)
qed simp

lemma elapse_ok: "sim_inv nm U s \<Longrightarrow> sim_inv nm U (fst (elapse t s)) \<and> sim_succ s (fst (elapse t s))"
  using due_cancels [of nm U s t] by (simp add: elapse_def Let_def)

lemma settle_funding_ok:
  assumes "sim_inv nm U s" "0 \<le> t" "0 < mark"
  shows "sim_inv nm U (fst (settle_funding rate mark t s)) \<and> sim_succ s (fst (settle_funding rate mark t s))
    \<and> (\<forall>a. snd (settle_funding rate mark t s) = Inr a \<longrightarrow> paper_account_ok a)"
proof -
  let ?a = "\<lambda>x y. (ps_account s)\<lparr>pa_cash_usd := x, pa_funding_pnl_usd := y, pa_last_funding_settlement_ns := Some t\<rparr>"
  have core: "account_core (?a x y)" for x y using assms(1,2) by (simp add: sim_inv_def account_core_def)
  have "sim_inv nm U (mark_sim mark t (s\<lparr>ps_account := ?a x y\<rparr>))" for x y
    by (intro sim_inv_mark sim_inv_account core assms)
  moreover have "sim_succ s (mark_sim mark t (s\<lparr>ps_account := ?a x y\<rparr>))" for x y
    by (rule sim_succ_trans [of s "s\<lparr>ps_account := ?a x y\<rparr>"]) simp_all
  moreover have "paper_account_ok (mark_account mark t (?a x y))" for x y by (rule mark_account_ok [OF core assms(2,3)])
  ultimately show ?thesis using assms(1) by (auto simp: settle_funding_def Let_def mark_sim_def)
qed

section \<open>Runs\<close>

text \<open>The inputs of an operation are valid; the intents submitted come from a set on which the naming has
  no collision.\<close>

fun paper_op_ok :: "string set \<Rightarrow> paper_op \<Rightarrow> bool" where
  "paper_op_ok U (Submit i t) \<longleftrightarrow> order_intent_ok i \<and> oi_intent_id i \<in> U"
| "paper_op_ok U (Advance m mark) \<longleftrightarrow> kernel_market_ok m \<and> opt_all (\<lambda>x. 0 \<le> x) mark"
| "paper_op_ok U (ActivatePending t m mark) \<longleftrightarrow> kernel_market_ok m \<and> opt_all (\<lambda>x. 0 \<le> x) mark"
| "paper_op_ok U (SettleFunding rate mark t) \<longleftrightarrow> 0 < mark \<and> 0 \<le> t"
| "paper_op_ok U _ \<longleftrightarrow> True"

lemma paper_step_ok:
  assumes s: "sim_inv nm U s" and a: "paper_op_ok U a"
  shows "sim_inv nm U (paper_step nm s a) \<and> sim_succ s (paper_step nm s a)"
proof (cases a)
  case (Submit i t)
  with a submit_ok [OF s] show ?thesis by simp
next
  case (RequestCancelAll t)
  then show ?thesis using cancel_each_ok [OF s] by (simp add: request_cancel_all_def)
next
  case (Advance m mark)
  with a have "update_ok nm U (km_observed_ts_ns m) s (advance nm m mark s)" by (intro advance_ok [OF s]) auto
  with Advance show ?thesis by (simp add: update_ok_def)
next
  case (ActivatePending t m mark)
  show ?thesis
  proof (cases "km_observed_ts_ns m \<le> t")
    case True
    with ActivatePending a have "update_ok nm U t s (activate_pending nm t m mark s)" by (intro activate_pending_ok [OF s]) auto
    with ActivatePending show ?thesis by (simp add: update_ok_def)
  next
    case False
    with ActivatePending s show ?thesis by (simp add: activate_pending_def)
  qed
next
  case (SettleFunding rate mark t)
  with a settle_funding_ok [OF s, of t mark rate] show ?thesis by simp
qed (use s request_cancel_ok elapse_ok in auto)

interpretation paper: step_system "\<lambda>s a. if paper_op_ok U a then paper_step nm s a else s" "sim_inv nm U" sim_succ for nm U
proof unfold_locales
  show "sim_succ s t \<Longrightarrow> sim_succ t u \<Longrightarrow> sim_succ s u" for s t u by (rule sim_succ_trans)
qed (use paper_step_ok in auto)

lemma paper_run_eq:
  "list_all (paper_op_ok U) ops \<Longrightarrow>
     foldl (\<lambda>s a. if paper_op_ok U a then paper_step nm s a else s) s ops = foldl (paper_step nm) s ops"
  by (induction ops arbitrary: s) auto

lemma paper_run_inv:
  assumes "sim_inv nm U s" "list_all (paper_op_ok U) ops"
  shows "sim_inv nm U (foldl (paper_step nm) s ops)"
  using paper.run_inv [OF assms(1), of ops] by (simp add: paper_run_eq [OF assms(2)])

lemma paper_run_succ:
  assumes "sim_inv nm U s" "list_all (paper_op_ok U) xs" "list_all (paper_op_ok U) ys"
  shows "sim_succ (foldl (paper_step nm) s xs) (foldl (paper_step nm) s (xs @ ys))"
proof -
  have "list_all (paper_op_ok U) (xs @ ys)" using assms(2,3) by simp
  from paper.run_rel_suffix [OF assms(1), of xs ys] show ?thesis
    by (simp only: paper_run_eq [OF assms(2)] paper_run_eq [OF \<open>list_all (paper_op_ok U) (xs @ ys)\<close>])
qed

text \<open>A new simulator satisfies the invariant, also with restored orders, when these carry the names the simulator
  gives and what it keeps of every order it stores.\<close>

definition restorable :: "naming \<Rightarrow> string \<Rightarrow> string set \<Rightarrow> paper_order \<Rightarrow> bool" where
  "restorable nm ns U p \<longleftrightarrow> stored_ok nm ns p \<and> oi_intent_id (po_intent p) \<in> U"

lemma restore_orders_inv:
  assumes "restore_orders ps b ids = Inr (b', ids')" "list_all (restorable nm ns U) ps"
    and "distinct (map fst b)" "set ids \<subseteq> U"
    and "\<forall>k p. map_of b k = Some p \<longrightarrow> k = po_paper_order_id p \<and> stored_ok nm ns p \<and> oi_intent_id (po_intent p) \<in> set ids"
  shows "distinct (map fst b') \<and> set ids' \<subseteq> U
    \<and> (\<forall>k p. map_of b' k = Some p \<longrightarrow> k = po_paper_order_id p \<and> stored_ok nm ns p \<and> oi_intent_id (po_intent p) \<in> set ids')"
  using assms
proof (induction ps arbitrary: b ids)
  case (Cons p ps)
  have "restore_orders ps (AList.update (po_paper_order_id p) p b) (oi_intent_id (po_intent p) # ids) = Inr (b', ids')"
    using Cons.prems(1) by (simp add: guardE_eq_Inr_iff)
  then show ?case
    by (rule Cons.IH) (use Cons.prems(2-5) in \<open>auto simp: restorable_def AList.distinct_update AList.update_conv'\<close>)
qed simp

lemma restored_paper_sim_inv:
  assumes n: "new_paper_sim sc equity mark started restored ps ns = Inr s" and r: "opt_all paper_account_ok restored"
    and inj: "inj_on (name_of nm ns) U" and ps: "list_all (restorable nm ns U) ps"
  shows "sim_inv nm U s \<and> ps_namespace s = ns"
proof -
  have core: "account_core (initial_account equity mark started)" if "0 < equity" "0 \<le> started"
    using that by (simp add: account_core_def initial_account_def NANOSECONDS_PER_DAY_def pos_imp_zdiv_nonneg_iff)
  obtain b ids where b: "restore_orders ps [] [] = Inr (b, ids)"
    and s: "s = \<lparr>ps_scenario = sc, ps_namespace = ns, ps_orders = b, ps_intent_ids = ids,
      ps_account = (case restored of Some a \<Rightarrow> a | None \<Rightarrow> initial_account equity mark started)\<rparr>"
    and pos: "0 < equity" "0 \<le> started"
    using n by (auto simp: new_paper_sim_def bindE_eq_Inr_iff guardE_eq_Inr_iff)
  have "account_core (ps_account s)" using r core [OF pos] paper_account_ok_core by (auto simp: s split: option.splits)
  with restore_orders_inv [OF b ps] inj show ?thesis by (simp add: sim_inv_def s)
qed

lemma new_paper_sim_inv:
  assumes "new_paper_sim sc equity mark started restored [] ns = Inr s" "opt_all paper_account_ok restored"
    and "inj_on (name_of nm ns) U"
  shows "sim_inv nm U s \<and> ps_namespace s = ns"
  using restored_paper_sim_inv [OF assms] by simp


section \<open>Cancels that are requested again\<close>

lemma fold_store_at:
  assumes "current ps s" "\<And>p. p \<in> set ps \<Longrightarrow> po_paper_order_id (g p) = po_paper_order_id p"
  shows "i \<notin> po_paper_order_id ` set ps \<Longrightarrow> order_at (fold store_order (map g ps) s) i = order_at s i"
    "p \<in> set ps \<Longrightarrow> order_at (fold store_order (map g ps) s) (po_paper_order_id p) = Some (g p)"
proof -
  have frame: "order_at (fold store_order (map g ps) s) i = order_at s i"
    if "\<And>p. p \<in> set ps \<Longrightarrow> po_paper_order_id (g p) = po_paper_order_id p" "i \<notin> po_paper_order_id ` set ps" for i ps s
    using that by (induction ps arbitrary: s) auto
  then show "i \<notin> po_paper_order_id ` set ps \<Longrightarrow> order_at (fold store_order (map g ps) s) i = order_at s i"
    using assms(2) by blast
  show "p \<in> set ps \<Longrightarrow> order_at (fold store_order (map g ps) s) (po_paper_order_id p) = Some (g p)"
    using assms
  proof (induction ps arbitrary: s)
    case (Cons q ps)
    have id: "po_paper_order_id (g q) = po_paper_order_id q" using Cons.prems(3) by simp
    have cur: "current ps (store_order (g q) s)" by (rule current_rest [OF Cons.prems(2)]) (simp add: id)
    have nin: "po_paper_order_id q \<notin> po_paper_order_id ` set ps" using Cons.prems(2) by (simp add: current_Cons)
    show ?case
    proof (cases "p = q")
      case True
      with frame [of ps "po_paper_order_id q" "store_order (g q) s"] Cons.prems(3) nin id show ?thesis by simp
    next
      case False
      with Cons.IH [OF _ cur] Cons.prems(1,3) show ?thesis by simp
    qed
  qed simp
qed

lemma due_cancels_at:
  assumes s: "sim_inv nm U s" and p: "order_at s k = Some p"
  shows "order_at (fold store_order (map (canceled_at now) (filter (cancel_due now) (open_orders s))) s) k
    = Some (if cancel_due now p then canceled_at now p else p)"
proof -
  let ?ps = "filter (cancel_due now) (open_orders s)"
  have cur: "current ?ps s" by (intro current_filter' current_open_orders) (rule s)
  have id: "po_paper_order_id (canceled_at now q) = po_paper_order_id q" for q by (simp add: canceled_at_def)
  have k: "k = po_paper_order_id p" using s p by (auto simp: sim_inv_def)
  show ?thesis
  proof (cases "cancel_due now p")
    case True
    then have "p \<in> set ?ps" using in_open_orders_iff [OF s, of p] p k by (auto simp: cancel_due_def terminal_paper_state_def)
    from fold_store_at(2) [OF cur id this] True k show ?thesis by simp
  next
    case False
    have "k \<notin> po_paper_order_id ` set ?ps"
    proof
      assume "k \<in> po_paper_order_id ` set ?ps"
      then obtain q where "k = po_paper_order_id q" "cancel_due now q" "q \<in> set (open_orders s)" by auto
      with in_open_orders_iff [OF s, of q] p False show False by simp
    qed
    from fold_store_at(1) [OF cur id this] False p show ?thesis by simp
  qed
qed

lemma advance_untouched:
  assumes s: "sim_inv nm U s" and m: "kernel_market_ok m" and quiet: "km_trades m = []" and p: "order_at s k = Some p"
    and waiting: "\<not> cancel_due (km_observed_ts_ns m) p" "po_state p \<noteq> PO_PENDING_ACTIVATION"
  shows "order_at (fst (advance nm m mark s)) k = Some p"
proof -
  let ?now = "km_observed_ts_ns m"
  let ?k = "start_call m mark ?now s"
  note t = kernel_market_times(1) [OF m]
  have c: "call_inv nm U ?now s ?k" using start_call_inv [OF s t] by simp
  have "order_at (mark_sim (effective_mark m mark) ?now s) k = Some p" using p by (simp add: mark_sim_def)
  from due_cancels_at [OF sim_inv_mark [OF s t] this] waiting(1) have "order_at (sc_sim ?k) k = Some p"
    by (simp add: start_call_def cancel_due_orders_def)
  moreover have "\<not> activation_due ?now p" using waiting(2) by (simp add: activation_due_def)
  ultimately have "order_at (sc_sim (fst (activate_due_orders nm m ?now ?k))) k = Some p"
    by (rule activate_due_result(2) [OF c])
  then show ?thesis
    by (cases "activate_due_orders nm m ?now ?k"; cases "snd (activate_due_orders nm m ?now ?k)")
      (auto simp: advance_def Let_def quiet finish_call_def mark_sim_def)
qed

text \<open>What a pending cancel is after a cancel request for all orders.\<close>

definition pending_until :: "int \<Rightarrow> paper_order \<Rightarrow> bool" where
  "pending_until t p \<longleftrightarrow> po_state p = PO_PENDING_CANCEL \<and> po_cancel_effective_ts_ns p = Some t"

lemma cancel_each_pending:
  assumes "sim_inv nm U s" "order_at s k = Some p" "\<not> terminal_paper_state (po_state p)"
    "oi_intent_id (po_intent p) \<in> set is \<or> pending_until (t + es_response_latency_ns (ps_scenario s)) p"
  shows "\<exists>q. order_at (fst (cancel_each is t s)) k = Some q \<and> pending_until (t + es_response_latency_ns (ps_scenario s)) q"
  using assms
proof (induction "is" arbitrary: s p)
  case (Cons i "is")
  note s = Cons.prems(1)
  have pk: "k = po_paper_order_id p" "stored_ok nm (ps_namespace s) p" using s Cons.prems(2) by (auto simp: sim_inv_def)
  have p_open: "p \<in> set (open_orders s)" using in_open_orders_iff [OF s, of p] Cons.prems(2,3) pk(1) by simp
  let ?s = "fst (request_cancel i t s)"
  have one: "sim_inv nm U ?s" "sim_succ s ?s" using request_cancel_ok [OF s] by simp_all
  have sc: "ps_scenario ?s = ps_scenario s" using one(2) by (simp add: sim_succ_def)
  have "\<exists>q. order_at ?s k = Some q \<and> \<not> terminal_paper_state (po_state q) \<and> po_intent q = po_intent p
      \<and> (oi_intent_id (po_intent p) = i \<or> pending_until (t + es_response_latency_ns (ps_scenario s)) p
           \<longrightarrow> pending_until (t + es_response_latency_ns (ps_scenario s)) q)"
    using s
  proof (cases rule: request_cancel_cases [of nm U s i t])
    case absent
    with p_open Cons.prems(2,3) show ?thesis by auto
  next
    case (found q q')
    have id: "po_paper_order_id q' = po_paper_order_id q" "po_intent q' = po_intent q" using found(5) by (simp_all add: order_succ_def)
    show ?thesis
    proof (cases "po_paper_order_id q = k")
      case True
      then have "q = p" using found(4) Cons.prems(2) by simp
      with found True id show ?thesis by (auto simp: pending_until_def terminal_paper_state_def)
    next
      case False
      have "stored_ok nm (ps_namespace s) q" using found(4) s by (auto simp: sim_inv_def)
      then have "oi_intent_id (po_intent p) \<noteq> i" using False pk found(3) by (auto simp: stored_ok_def)
      with False found(1) id Cons.prems(2,3) show ?thesis by auto
    qed
  qed
  then obtain q where q: "order_at ?s k = Some q" "\<not> terminal_paper_state (po_state q)" "po_intent q = po_intent p"
    "oi_intent_id (po_intent p) = i \<or> pending_until (t + es_response_latency_ns (ps_scenario s)) p
       \<longrightarrow> pending_until (t + es_response_latency_ns (ps_scenario s)) q" by blast
  from Cons.IH [OF one(1) q(1,2)] q(3,4) Cons.prems(4) sc show ?case by (auto simp: case_prod_beta)
qed (auto)

lemma request_cancel_all_pending:
  assumes s: "sim_inv nm U s" and p: "order_at s k = Some p" "\<not> terminal_paper_state (po_state p)"
  shows "\<exists>q. order_at (fst (request_cancel_all t s)) k = Some q \<and> pending_until (t + es_response_latency_ns (ps_scenario s)) q"
proof -
  have "k = po_paper_order_id p" using s p by (auto simp: sim_inv_def)
  then have "p \<in> set (open_orders s)" using in_open_orders_iff [OF s, of p] p by simp
  then show ?thesis unfolding request_cancel_all_def by (intro cancel_each_pending [OF s p]) auto
qed

text \<open>A pending cancel through a market update that comes before it is due: still pending for the same time, or filled.\<close>

definition pending_or_filled :: "int \<Rightarrow> paper_order \<Rightarrow> bool" where
  "pending_or_filled t p \<longleftrightarrow> pending_until t p \<or> po_state p = PO_FILLED"

lemma maker_filled_pending:
  "pending_until t p \<Longrightarrow> pending_or_filled t (maker_filled p quantity queue now)"
  by (auto simp: pending_or_filled_def pending_until_def maker_filled_def Let_def)

lemma fill_order_orders: "order_at (fst (fill_order nm p quantity price maker ts s)) i = order_at s i"
  by (simp add: fill_order_def Let_def split: option.splits sum.splits)

lemma match_orders_pending:
  assumes "current ps (sc_sim k)" "list_all (match_candidate t) ps" "order_at (sc_sim k) i = Some p" "pending_or_filled u p"
  shows "\<exists>q. order_at (sc_sim (fst (match_orders nm now ps available k))) i = Some q \<and> pending_or_filled u q"
  using assms
proof (induction ps arbitrary: available k p)
  case (Cons o' ps)
  let ?id = "po_paper_order_id o'"
  have at: "order_at (sc_sim k) ?id = Some o'" and rest: "current ps (sc_sim k)" "list_all (match_candidate t) ps"
    and cand: "match_candidate t o'" using Cons.prems(1,2) by (simp_all add: current_Cons)
  have stored: "\<exists>q. order_at (sc_sim (fst (match_orders nm now ps a (call_store o'' k')))) i = Some q \<and> pending_or_filled u q"
    if o'': "po_paper_order_id o'' = ?id" "pending_until u o' \<Longrightarrow> pending_or_filled u o''"
      and k': "\<And>j. order_at (sc_sim k') j = order_at (sc_sim k) j" for a o'' k'
  proof -
    have "\<exists>q. order_at (sc_sim (call_store o'' k')) i = Some q \<and> pending_or_filled u q"
    proof (cases "i = ?id")
      case True
      then have "p = o'" using at Cons.prems(3) by simp
      then have "pending_until u o'" using Cons.prems(4) cand by (auto simp: pending_or_filled_def match_candidate_def)
      with True o'' show ?thesis by simp
    next
      case False
      with o''(1) k' Cons.prems(3,4) show ?thesis by auto
    qed
    moreover have "current ps (sc_sim (call_store o'' k'))"
      by (rule current_rest [OF Cons.prems(1)]) (simp add: o''(1) k')
    ultimately show ?thesis using Cons.IH rest(2) by blast
  qed
  let ?consumed = "min (po_queue_ahead_base o') available"
  let ?left = "dsub available ?consumed"
  let ?queue = "dsub (po_queue_ahead_base o') ?consumed"
  let ?q = "min (remaining_quantity_base o') ?left"
  have queued: "pending_until u o' \<Longrightarrow> pending_or_filled u (o'\<lparr>po_queue_ahead_base := ?queue, po_updated_ts_ns := now\<rparr>)"
    by (simp add: pending_or_filled_def pending_until_def)
  have skip: "\<exists>q. order_at (sc_sim (fst (match_orders nm now ps ?left k))) i = Some q \<and> pending_or_filled u q"
    by (rule Cons.IH [OF rest Cons.prems(3,4)])
  obtain s1 r1 where f: "fill_order nm o' ?q (the (oi_limit_price (po_intent o'))) True now (sc_sim k) = (s1, r1)" by fastforce
  have s1: "order_at s1 j = order_at (sc_sim k) j" for j
    using fill_order_orders [of nm o' ?q "the (oi_limit_price (po_intent o'))" True now "sc_sim k" j] f by simp
  have filled: "\<exists>q. order_at (sc_sim (fst (match_orders nm now ps (dsub ?left ?q)
      (call_store (maker_filled o' ?q ?queue now) (k\<lparr>sc_sim := s1, sc_fills := sc_fills k @ [fl]\<rparr>))))) i = Some q
      \<and> pending_or_filled u q" for fl
    by (rule stored [OF _ maker_filled_pending]) (simp_all add: maker_filled_def Let_def s1)
  have price: "\<exists>x. oi_limit_price (po_intent o') = Some x" using cand by (auto simp: match_candidate_def split: option.splits)
  show ?case
  proof (cases "available \<le> 0")
    case True
    with Cons.prems(3,4) show ?thesis by simp
  next
    case False
    note m = match_orders.simps(2) [of nm now o' ps available k, unfolded Let_def if_not_P [OF False]]
    show ?thesis
    proof (cases "?left \<le> 0")
      case True
      show ?thesis unfolding m if_P [OF True] by (rule stored [OF _ queued]) simp_all
    next
      case pos: False
      note m = m [unfolded if_not_P [OF pos]]
      show ?thesis
      proof (cases "\<not> es_allow_partial_fills (ps_scenario (sc_sim k)) \<and> ?q < remaining_quantity_base o'")
        case True
        show ?thesis unfolding m if_P [OF True] by (rule skip)
      next
        case fill: False
        from price obtain x where x: "oi_limit_price (po_intent o') = Some x" by blast
        note m = m [unfolded if_not_P [OF fill] x option.case]
        show ?thesis
        proof (cases r1)
          case (Inl e)
          with f x s1 Cons.prems(3,4) show ?thesis unfolding m by simp
        next
          case (Inr fl)
          with f x filled [of fl] show ?thesis unfolding m by simp
        qed
      qed
    qed
  qed
qed auto

lemma match_trade_pending:
  assumes k: "call_inv nm U now s k" and p: "order_at (sc_sim k) i = Some p" "pending_or_filled u p"
  shows "\<exists>q. order_at (sc_sim (fst (match_trade nm now t k))) i = Some q \<and> pending_or_filled u q"
proof -
  have "sim_inv nm U (sc_sim k)" using k by (simp add: call_inv_def)
  then have c: "current (sort_key g (filter (match_candidate t) (open_orders (sc_sim k)))) (sc_sim k)" for g :: "paper_order \<Rightarrow> int \<times> string"
    by (intro current_filter current_open_orders)
  have m: "list_all (match_candidate t) (sort_key g (filter (match_candidate t) (open_orders (sc_sim k))))"
    for g :: "paper_order \<Rightarrow> int \<times> string"
    by (simp add: list_all_iff)
  show ?thesis using match_orders_pending [OF c m p] p by (auto simp: match_trade_def Let_def)
qed

lemma match_trades_pending:
  assumes "call_inv nm U now s k" "order_at (sc_sim k) i = Some p" "pending_or_filled u p"
    and "\<forall>t \<in> set ts. kt_observed_ts_ns t \<le> now"
  shows "\<exists>q. order_at (sc_sim (fst (foldS (match_trade nm now) ts k))) i = Some q \<and> pending_or_filled u q"
  using assms
proof (induction ts arbitrary: k p)
  case (Cons t ts)
  obtain k' r where k': "match_trade nm now t k = (k', r)" by fastforce
  have inv: "call_inv nm U now s k'" using match_trade_result [OF Cons.prems(1), of t] Cons.prems(4) k' by (simp add: call_result_def)
  obtain q where q: "order_at (sc_sim k') i = Some q" "pending_or_filled u q"
    using match_trade_pending [OF Cons.prems(1-3), of t] k' by auto
  show ?case using Cons.IH [OF inv q] Cons.prems(4) k' q by (cases r) auto
qed auto

lemma advance_pending:
  assumes s: "sim_inv nm U s" and m: "kernel_market_ok m" and p: "order_at s k = Some p" "pending_until u p"
    and soon: "km_observed_ts_ns m < u"
  shows "\<exists>q. order_at (fst (advance nm m mark s)) k = Some q \<and> pending_or_filled u q"
proof -
  let ?now = "km_observed_ts_ns m"
  let ?k = "start_call m mark ?now s"
  note t = kernel_market_times [OF m]
  have c: "call_inv nm U ?now s ?k" using start_call_inv [OF s t(1)] by simp
  have "order_at (mark_sim (effective_mark m mark) ?now s) k = Some p" using p by (simp add: mark_sim_def)
  from due_cancels_at [OF sim_inv_mark [OF s t(1)] this] p(2) soon have "order_at (sc_sim ?k) k = Some p"
    by (simp add: start_call_def cancel_due_orders_def cancel_due_def pending_until_def)
  moreover have "\<not> activation_due ?now p" using p(2) by (simp add: activation_due_def pending_until_def)
  ultimately have at: "order_at (sc_sim (fst (activate_due_orders nm m ?now ?k))) k = Some p"
    by (rule activate_due_result(2) [OF c])
  have inv: "call_inv nm U ?now s (fst (activate_due_orders nm m ?now ?k))"
    using activate_due_result(1) [OF c, of m] by (simp add: call_result_def)
  have pf: "pending_or_filled u p" using p(2) by (simp add: pending_or_filled_def)
  obtain k1 r1 where a: "activate_due_orders nm m ?now ?k = (k1, r1)" by fastforce
  have k1: "order_at (sc_sim k1) k = Some p" "call_inv nm U ?now s k1" using at inv a by simp_all
  obtain k2 r2 where b: "foldS (match_trade nm ?now) (km_trades m) k1 = (k2, r2)" by fastforce
  have k2: "\<exists>q. order_at (sc_sim k2) k = Some q \<and> pending_or_filled u q"
    using match_trades_pending [OF k1(2,1) pf, of "km_trades m"] t(2) b by simp
  show ?thesis
  proof (cases r1)
    case (Inl e)
    with a k1(1) pf show ?thesis by (simp add: advance_def Let_def finish_call_def)
  next
    case (Inr x)
    with a b k2 show ?thesis by (cases r2) (simp_all add: advance_def Let_def finish_call_def mark_sim_def)
  qed
qed

text \<open>\<open>PaperTradingEngine.on_market\<close> while the risk state is not \<open>ACTIVE\<close>: advance the simulator, then
  request the cancel of every open order.\<close>

definition risk_blocked_update ::
  "naming \<Rightarrow> kernel_market \<times> dec option \<Rightarrow> paper_sim \<Rightarrow> paper_sim \<times> unit res" where
  "risk_blocked_update nm mm s =
     bindS (advance nm (fst mm) (snd mm) s)
       (\<lambda>s _. (fst (request_cancel_all (km_observed_ts_ns (fst mm)) s), Inr ()))"

lemma risk_blocked_update_ok:
  assumes s: "sim_inv nm U s" and m: "kernel_market_ok m" "opt_all (\<lambda>x. 0 \<le> x) mark"
  shows "sim_inv nm U (fst (risk_blocked_update nm (m, mark) s)) \<and> sim_succ s (fst (risk_blocked_update nm (m, mark) s))"
proof -
  obtain s1 y where a: "advance nm m mark s = (s1, y)" by fastforce
  have s1: "sim_inv nm U s1" "sim_succ s s1" using advance_ok [OF s m] a by (simp_all add: update_ok_def)
  have s2: "sim_inv nm U (fst (request_cancel_all t s1))" "sim_succ s1 (fst (request_cancel_all t s1))" for t
    using cancel_each_ok [OF s1(1)] by (simp_all add: request_cancel_all_def)
  from s1 s2 sim_succ_trans [OF s1(2)] a show ?thesis by (cases y) (auto simp: risk_blocked_update_def)
qed

lemma risk_blocked_updates_ok:
  assumes "sim_inv nm U s" "list_all (\<lambda>(m, mark). kernel_market_ok m \<and> opt_all (\<lambda>x. 0 \<le> x) mark) ms"
  shows "sim_inv nm U (fst (foldS (risk_blocked_update nm) ms s)) \<and> sim_succ s (fst (foldS (risk_blocked_update nm) ms s))"
  using assms
proof (induction ms arbitrary: s)
  case (Cons mm ms)
  obtain m mark where mm: "mm = (m, mark)" by fastforce
  obtain s1 x where r: "risk_blocked_update nm (m, mark) s = (s1, x)" by fastforce
  have one: "sim_inv nm U s1" "sim_succ s s1" using risk_blocked_update_ok [OF Cons.prems(1), of m mark] Cons.prems(2) mm r by simp_all
  from Cons.IH [OF one(1)] Cons.prems(2) one sim_succ_trans [OF one(2)] mm r show ?case by (cases x) auto
qed simp

lemma risk_blocked_update_pending:
  assumes s: "sim_inv nm U s" and m: "kernel_market_ok m" "opt_all (\<lambda>x. 0 \<le> x) mark"
    and p: "order_at s k = Some p" "pending_until (t + es_response_latency_ns (ps_scenario s)) p"
    and soon: "km_observed_ts_ns m < t + es_response_latency_ns (ps_scenario s)"
    and r: "risk_blocked_update nm (m, mark) s = (s', x)"
  shows "\<exists>q. order_at s' k = Some q \<and> (po_state q = PO_FILLED \<and> km_trades m \<noteq> []
    \<or> po_state q = PO_PENDING_CANCEL
      \<and> (x = Inr () \<longrightarrow> pending_until (km_observed_ts_ns m + es_response_latency_ns (ps_scenario s)) q))"
proof -
  let ?u = "t + es_response_latency_ns (ps_scenario s)"
  obtain s1 y where a: "advance nm m mark s = (s1, y)" by fastforce
  have s1: "sim_inv nm U s1" "ps_scenario s1 = ps_scenario s"
    using advance_ok [OF s m] a by (simp_all add: update_ok_def sim_succ_def)
  obtain q1 where q1: "order_at s1 k = Some q1" "pending_or_filled ?u q1"
    using advance_pending [OF s m(1) p soon, of mark] a by auto
  have quiet: "q1 = p" if "km_trades m = []"
    using advance_untouched [OF s m(1) that p(1), of mark] p(2) soon q1(1) a by (auto simp: pending_until_def cancel_due_def)
  let ?s2 = "fst (request_cancel_all (km_observed_ts_ns m) s1)"
  have s2: "sim_succ s1 ?s2" using cancel_each_ok [OF s1(1)] by (simp add: request_cancel_all_def)
  have "\<exists>q. order_at s' k = Some q \<and> (q = q1 \<and> x \<noteq> Inr () \<or> x = Inr () \<and> (po_state q1 = PO_FILLED \<longrightarrow> q = q1)
      \<and> (po_state q1 \<noteq> PO_FILLED \<longrightarrow> pending_until (km_observed_ts_ns m + es_response_latency_ns (ps_scenario s)) q))"
  proof (cases y)
    case (Inl e)
    with r a q1(1) show ?thesis by (auto simp: risk_blocked_update_def)
  next
    case (Inr u)
    then have s': "s' = ?s2" "x = Inr ()" using r a by (auto simp: risk_blocked_update_def)
    show ?thesis
    proof (cases "po_state q1 = PO_FILLED")
      case True
      with s2 q1(1) s' show ?thesis by (fastforce simp: sim_succ_def order_succ_def terminal_paper_state_def)
    next
      case False
      then have "\<not> terminal_paper_state (po_state q1)"
        using q1(2) by (simp add: pending_or_filled_def pending_until_def terminal_paper_state_def)
      from request_cancel_all_pending [OF s1(1) q1(1) this, of "km_observed_ts_ns m"] s' s1(2) False show ?thesis by auto
    qed
  qed
  then show ?thesis using q1(2) quiet p(2) by (auto simp: pending_or_filled_def pending_until_def)
qed

text \<open>The receive times of a feed that is faster than the response latency.\<close>

fun faster_than :: "int \<Rightarrow> int \<Rightarrow> int list \<Rightarrow> bool" where
  "faster_than latency t [] \<longleftrightarrow> True"
| "faster_than latency t (u # us) \<longleftrightarrow> t < u \<and> u < t + latency \<and> faster_than latency u us"

lemma postponed_forever:
  assumes "sim_inv nm U s" "order_at s k = Some p" "pending_until (t + es_response_latency_ns (ps_scenario s)) p"
    "list_all (\<lambda>(m, mark). kernel_market_ok m \<and> opt_all (\<lambda>x. 0 \<le> x) mark) ms"
    "faster_than (es_response_latency_ns (ps_scenario s)) t (map (\<lambda>mm. km_observed_ts_ns (fst mm)) ms)"
  shows "\<exists>q. order_at (fst (foldS (risk_blocked_update nm) ms s)) k = Some q
    \<and> (po_state q = PO_PENDING_CANCEL \<or> po_state q = PO_FILLED \<and> list_ex (\<lambda>mm. km_trades (fst mm) \<noteq> []) ms)"
  using assms
proof (induction ms arbitrary: s p t)
  case Nil
  then show ?case by (simp add: pending_until_def)
next
  case (Cons mm ms)
  obtain m mark where mm: "mm = (m, mark)" by fastforce
  obtain s1 x where r: "risk_blocked_update nm (m, mark) s = (s1, x)" by fastforce
  have m: "kernel_market_ok m" "opt_all (\<lambda>x. 0 \<le> x) mark" using Cons.prems(4) mm by simp_all
  have one: "sim_inv nm U s1" "ps_scenario s1 = ps_scenario s"
    using risk_blocked_update_ok [OF Cons.prems(1) m] r by (simp_all add: sim_succ_def)
  have soon: "km_observed_ts_ns m < t + es_response_latency_ns (ps_scenario s)" using Cons.prems(5) mm by simp
  from risk_blocked_update_pending [OF Cons.prems(1) m Cons.prems(2,3) soon r] obtain q where
    q: "order_at s1 k = Some q" "po_state q = PO_FILLED \<and> km_trades m \<noteq> [] \<or> po_state q = PO_PENDING_CANCEL
      \<and> (x = Inr () \<longrightarrow> pending_until (km_observed_ts_ns m + es_response_latency_ns (ps_scenario s)) q)" by blast
  show ?case
  proof (cases "x = Inr ()")
    case False
    then obtain e where "x = Inl e" by (cases x) auto
    with r mm q show ?thesis by auto
  next
    case x: True
    show ?thesis
    proof (cases "po_state q = PO_FILLED")
      case True
      have "sim_succ s1 (fst (foldS (risk_blocked_update nm) ms s1))"
        using risk_blocked_updates_ok [OF one(1), of ms] Cons.prems(4) by simp
      with q True x r mm show ?thesis by (fastforce simp: sim_succ_def order_succ_def terminal_paper_state_def)
    next
      case False
      with q(2) x have "pending_until (km_observed_ts_ns m + es_response_latency_ns (ps_scenario s1)) q" using one(2) by simp
      from Cons.IH [OF one(1) q(1) this] Cons.prems(4,5) one(2) x r mm show ?thesis by auto
    qed
  qed
qed


section \<open>A concrete exchange\<close>

definition example_naming :: naming where
  "example_naming = \<lparr>nm_sha256 = rev, nm_decimal = (\<lambda>_. ''0''), nm_scenario_sha256 = (\<lambda>_. replicate 64 (CHR ''a''))\<rparr>"

definition example_scenario :: execution_scenario where
  "example_scenario =
     \<lparr>es_scenario_id = ''base'', es_calibrated = False, es_calibration_sha256 = None, es_tick_size = 1, es_lot_size = 1 / 1000,
      es_entry_latency_ns = 100, es_response_latency_ns = 100, es_feed_latency_offset_ns = 0, es_maker_fee_bps = 3 / 2,
      es_taker_fee_bps = 9 / 2, es_queue_model = RISK_ADVERSE, es_queue_power = 2, es_allow_partial_fills = True,
      es_book_liquidity_multiplier = 1, es_trade_flow_multiplier = 1, es_taker_slippage_bps = 1,
      es_funding_rate_multiplier = 1\<rparr>"

definition example_sim :: paper_sim where
  "example_sim = \<lparr>ps_scenario = example_scenario, ps_namespace = ''run'', ps_orders = [], ps_intent_ids = [],
     ps_account = initial_account 1000 60000 1000\<rparr>"

definition example_intent :: order_intent where
  "example_intent =
     \<lparr>oi_intent_id = ''a1'', oi_strategy_id = ''s'', oi_side = BUY, oi_kind = LIMIT, oi_quantity_base = 1 / 1000,
      oi_limit_price = Some 60000, oi_time_in_force = GTC, oi_post_only = True, oi_reduce_only = False,
      oi_created_ts_ns = 1000, oi_rationale = MakerTakeProfit 0\<rparr>"

definition example_book :: "int \<Rightarrow> kernel_trade list \<Rightarrow> kernel_market" where
  "example_book t trades =
     \<lparr>km_exchange_ts_ns = t, km_book_exchange_ts_ns = t, km_observed_ts_ns = t, km_sequence = 0,
      km_bids = [\<lparr>kl_price = 60000, kl_size = 1\<rparr>], km_asks = [\<lparr>kl_price = 60001, kl_size = 1\<rparr>], km_trades = trades\<rparr>"

text \<open>A sale of two coins at the bid: one coin consumes the queue, the next reaches the order.\<close>

definition example_sale :: kernel_market where
  "example_sale = example_book 3000
     [\<lparr>kt_exchange_ts_ns = 3000, kt_observed_ts_ns = 3000, kt_price = 60000, kt_size = 2, kt_aggressor = SELLER\<rparr>]"

definition example_ops :: "paper_op list" where
  "example_ops = [Submit example_intent 1000, Advance (example_book 2000 []) None]"

lemma example_facts:
  "new_paper_sim example_scenario 1000 60000 1000 None [] ''run'' = Inr example_sim"
  "list_all (paper_op_ok {''a1''}) example_ops" "kernel_market_ok example_sale"
  "inj_on (name_of example_naming ns) {''a1''}"
  by code_simp+

lemma example_fill:
  "case snd (advance example_naming example_sale None (foldl (paper_step example_naming) example_sim example_ops)) of
     Inl _ \<Rightarrow> False
   | Inr u \<Rightarrow> map fl_price (su_fills u) = [60000] \<and> map fl_maker (su_fills u) = [True]
       \<and> pa_position_base (su_account u) = 1 / 1000 \<and> map po_state (su_orders u) = [PO_FILLED]"
  by code_simp

section \<open>The properties\<close>

text \<open>C10: The paper account always reconciles: from a new simulator (with a fresh or a valid restored account), after
  any sequence of valid operations, a market update either raises a validation error of a fill or reports
  an account that satisfies its full contract (flat exactly without an average entry price, equity equal to cash
  plus marked position, high water at least the equity), and the reported fills account for every change of
  position, cash and fees; an assertion never fails.\<close>
theorem paper_account_reconciles:
  assumes n: "new_paper_sim sc equity mark started restored [] ns = Inr s0" "opt_all paper_account_ok restored"
    and names: "inj_on (name_of nm ns) U" and ops: "list_all (paper_op_ok U) ops" "s = foldl (paper_step nm) s0 ops"
    and m: "kernel_market_ok m" "opt_all (\<lambda>x. 0 \<le> x) mark_price"
  shows "case advance nm m mark_price s of
      (s', Inl e) \<Rightarrow> (\<exists>msg. e = ValidationError msg)
    | (s', Inr u) \<Rightarrow> paper_account_ok (su_account u) \<and> ps_account s' = su_account u
        \<and> balances (su_account u) = replay_fills (su_fills u) (ps_account s)"
proof -
  have "sim_inv nm U s" using new_paper_sim_inv [OF n names] paper_run_inv ops by blast
  from advance_ok [OF this m] show ?thesis by (auto simp: update_ok_def split: prod.splits sum.splits)
qed

lemma paper_account_reconciles_witness:
  "\<exists>s' u. advance example_naming example_sale None (foldl (paper_step example_naming) example_sim example_ops) = (s', Inr u)
     \<and> length (su_fills u) = 1 \<and> paper_account_ok (su_account u) \<and> ps_account s' = su_account u"
proof -
  let ?r = "advance example_naming example_sale None (foldl (paper_step example_naming) example_sim example_ops)"
  obtain s' u where r: "?r = (s', Inr u)" using example_fill by (cases ?r; cases "snd ?r") auto
  have "length (map fl_price (su_fills u)) = 1" using example_fill r by simp
  then have "length (su_fills u) = 1" by simp
  with paper_account_reconciles [OF example_facts(1) _ example_facts(4) example_facts(2) refl example_facts(3), of None] r
  show ?thesis by simp
qed

text \<open>C23: Every paper fill is legal. From a new or a restarted simulator (restored orders carry the names the simulator gives),
  after any sequence of valid operations: a fill that a market update (\<open>advance\<close>) or the activation against the
  last book (\<open>activate_pending\<close>) reports belongs to an order that was stored and open before the call
  and whose entry latency has passed; a maker fill is at exactly the limit price, a taker fill is never on behalf of a
  post-only order and never worse than the limit; side, intent and
  time are the order's and the call's.\<close>
theorem paper_fills_legal:
  assumes n: "new_paper_sim sc equity mark started restored rs ns = Inr s0" "opt_all paper_account_ok restored"
    "list_all (restorable nm ns U) rs"
    and names: "inj_on (name_of nm ns) U" and ops: "list_all (paper_op_ok U) ops" "s = foldl (paper_step nm) s0 ops"
    and m: "kernel_market_ok m" "opt_all (\<lambda>x. 0 \<le> x) mark_price"
    and u: "advance nm m mark_price s = (s', Inr u) \<and> now = km_observed_ts_ns m
      \<or> activate_pending nm now m mark_price s = (s', Inr u)"
    and f: "f \<in> set (su_fills u)"
  shows "\<exists>p. order_at s (fl_paper_order_id f) = Some p \<and> po_state p \<notin> {PO_FILLED, PO_CANCELED, PO_REJECTED}
    \<and> po_effective_ts_ns p \<le> now \<and> fl_fill_ts_ns f = now \<and> km_observed_ts_ns m \<le> now
    \<and> fl_intent_id f = oi_intent_id (po_intent p) \<and> fl_side f = oi_side (po_intent p)
    \<and> 0 < fl_quantity_base f \<and> 0 < fl_price f
    \<and> (if fl_maker f then oi_limit_price (po_intent p) = Some (fl_price f)
       else \<not> oi_post_only (po_intent p)
         \<and> (case oi_limit_price (po_intent p) of None \<Rightarrow> True
            | Some x \<Rightarrow> if fl_side f = BUY then fl_price f \<le> x else x \<le> fl_price f))"
proof -
  have inv: "sim_inv nm U s" using restored_paper_sim_inv [OF n(1,2) names n(3)] paper_run_inv ops by blast
  have now: "km_observed_ts_ns m \<le> now" using u by (auto simp: activate_pending_def split: if_splits)
  have "legal_fill s now f"
    using u advance_ok [OF inv m] activate_pending_ok [OF inv m now] f by (auto simp: update_ok_def list_all_iff)
  then obtain p where p: "order_at s (fl_paper_order_id f) = Some p" "fill_for now f p"
    "\<not> terminal_paper_state (po_state p)" "po_effective_ts_ns p \<le> now"
    unfolding legal_fill_def by blast
  then show ?thesis using now
    by (intro exI [of _ p]) (cases "oi_limit_price (po_intent p)"; auto simp: fill_for_def terminal_paper_state_def split: if_splits)
qed

lemma paper_fills_legal_witness:
  "\<exists>u f p. snd (advance example_naming example_sale None (foldl (paper_step example_naming) example_sim example_ops)) = Inr u
     \<and> f \<in> set (su_fills u) \<and> fl_price f = 60000
     \<and> order_at (foldl (paper_step example_naming) example_sim example_ops) (fl_paper_order_id f) = Some p
     \<and> po_effective_ts_ns p \<le> 3000"
proof -
  let ?r = "advance example_naming example_sale None (foldl (paper_step example_naming) example_sim example_ops)"
  obtain s' u where r: "?r = (s', Inr u)" using example_fill by (cases ?r; cases "snd ?r") auto
  have "map fl_price (su_fills u) = [60000]" using example_fill r by simp
  then obtain f where f: "f \<in> set (su_fills u)" "fl_price f = 60000" by (auto simp: map_eq_Cons_conv)
  have "km_observed_ts_ns example_sale = 3000" by (simp add: example_sale_def example_book_def)
  with paper_fills_legal [OF example_facts(1) _ _ example_facts(4) example_facts(2) refl example_facts(3) _ _ f(1), of None "fst ?r" 3000] r f
  show ?thesis by auto
qed

text \<open>C31: Paper orders only move forward: over any run, an order that is stored once stays stored under its identity
  with the same intent and times, its filled quantity never decreases, its state follows the lifecycle (pending
  activation, resting, partially filled, pending cancel), and once filled, canceled or rejected it never changes
  again, whatever is submitted, cancelled or traded.\<close>
theorem paper_orders_only_move_forward:
  assumes n: "new_paper_sim sc equity mark started restored [] ns = Inr s0" "opt_all paper_account_ok restored"
    and names: "inj_on (name_of nm ns) U" and ops: "list_all (paper_op_ok U) xs" "list_all (paper_op_ok U) ys"
    and p: "order_at (foldl (paper_step nm) s0 xs) k = Some p"
  shows "\<exists>q. order_at (foldl (paper_step nm) s0 (xs @ ys)) k = Some q
    \<and> po_intent q = po_intent p \<and> po_accepted_ts_ns q = po_accepted_ts_ns p \<and> po_effective_ts_ns q = po_effective_ts_ns p
    \<and> po_filled_quantity_base p \<le> po_filled_quantity_base q \<and> later_state (po_state p) (po_state q)
    \<and> (po_state p \<in> {PO_FILLED, PO_CANCELED, PO_REJECTED} \<longrightarrow> q = p)"
proof -
  have "sim_inv nm U s0" using new_paper_sim_inv [OF n names] by blast
  from paper_run_succ [OF this ops] p show ?thesis
    unfolding sim_succ_def order_succ_def terminal_paper_state_def by metis
qed

lemma paper_orders_only_move_forward_witness:
  "\<exists>p q. order_at (foldl (paper_step example_naming) example_sim example_ops) ''paper-1a:nur'' = Some p
     \<and> order_at (foldl (paper_step example_naming) example_sim (example_ops @ [Advance example_sale None])) ''paper-1a:nur'' = Some q
     \<and> later_state (po_state p) (po_state q)"
proof -
  have "order_at (foldl (paper_step example_naming) example_sim example_ops) ''paper-1a:nur'' \<noteq> None" by code_simp
  then obtain p where p: "order_at (foldl (paper_step example_naming) example_sim example_ops) ''paper-1a:nur'' = Some p" by auto
  have "list_all (paper_op_ok {''a1''}) [Advance example_sale None]" using example_facts(3) by simp
  from paper_orders_only_move_forward [OF example_facts(1) _ example_facts(4) example_facts(2) this p] p
  show ?thesis by auto
qed

text \<open>C38: A cancel that is requested again is postponed. While the risk state is not active, every market update
  requests the cancel of every open order again, and each request restarts the response latency. From a new or restarted
  simulator, after any sequence of valid operations, take an order whose cancel is pending: when valid updates arrive faster
  than the latency, with or without trades, the order is never cancelled, however many updates pass; it is
  still pending, or a trade of one of the updates has filled it although its cancel was requested. Yet the
  mere passage of the latency, with no further request, cancels that same order.\<close>
theorem repeated_cancel_postponed:
  assumes n: "new_paper_sim sc equity mark started restored rs ns = Inr s0" "opt_all paper_account_ok restored"
    "list_all (restorable nm ns U) rs"
    and names: "inj_on (name_of nm ns) U" and ops: "list_all (paper_op_ok U) ops" "s = foldl (paper_step nm) s0 ops"
    and p: "order_at s k = Some p" "po_state p = PO_PENDING_CANCEL"
      "po_cancel_effective_ts_ns p = Some (t + es_response_latency_ns (ps_scenario s))"
    and ms: "list_all (\<lambda>(m, mark). kernel_market_ok m \<and> opt_all (\<lambda>x. 0 \<le> x) mark) ms"
    and fast: "faster_than (es_response_latency_ns (ps_scenario s)) t (map (\<lambda>mm. km_observed_ts_ns (fst mm)) ms)"
  shows "(\<exists>q. order_at (fst (foldS (risk_blocked_update nm) ms s)) k = Some q
      \<and> (po_state q = PO_PENDING_CANCEL \<or> po_state q = PO_FILLED \<and> list_ex (\<lambda>mm. km_trades (fst mm) \<noteq> []) ms))
    \<and> (\<exists>q. order_at (fst (elapse (t + es_response_latency_ns (ps_scenario s)) s)) k = Some q \<and> po_state q = PO_CANCELED)"
proof
  have s: "sim_inv nm U s" using restored_paper_sim_inv [OF n(1,2) names n(3)] paper_run_inv ops by blast
  have "pending_until (t + es_response_latency_ns (ps_scenario s)) p" using p by (simp add: pending_until_def)
  from postponed_forever [OF s p(1) this ms fast]
  show "\<exists>q. order_at (fst (foldS (risk_blocked_update nm) ms s)) k = Some q
      \<and> (po_state q = PO_PENDING_CANCEL \<or> po_state q = PO_FILLED \<and> list_ex (\<lambda>mm. km_trades (fst mm) \<noteq> []) ms)" .
  have "cancel_due (t + es_response_latency_ns (ps_scenario s)) p" using p by (simp add: cancel_due_def)
  with due_cancels_at [OF s p(1), of "t + es_response_latency_ns (ps_scenario s)"]
  show "\<exists>q. order_at (fst (elapse (t + es_response_latency_ns (ps_scenario s)) s)) k = Some q \<and> po_state q = PO_CANCELED"
    by (simp add: elapse_def Let_def canceled_at_def)
qed

lemma repeated_cancel_postponed_witness:
  "\<exists>q. order_at (fst (foldS (risk_blocked_update example_naming)
        (map (\<lambda>t. (example_book t [], None)) [2580, 2660, 2740, 2820])
        (foldl (paper_step example_naming) example_sim (example_ops @ [RequestCancelAll 2500])))) ''paper-1a:nur'' = Some q
     \<and> po_state q = PO_PENDING_CANCEL"
proof -
  let ?s = "foldl (paper_step example_naming) example_sim (example_ops @ [RequestCancelAll 2500])"
  let ?ms = "map (\<lambda>t. (example_book t [], None)) [2580, 2660, 2740, 2820] :: (kernel_market \<times> dec option) list"
  have ops: "list_all (paper_op_ok {''a1''}) (example_ops @ [RequestCancelAll 2500])" using example_facts(2) by simp
  have "case order_at ?s ''paper-1a:nur'' of None \<Rightarrow> False
      | Some p \<Rightarrow> po_state p = PO_PENDING_CANCEL \<and> po_cancel_effective_ts_ns p = Some 2600 \<and> es_response_latency_ns (ps_scenario ?s) = 100"
    by code_simp
  then obtain p where p: "order_at ?s ''paper-1a:nur'' = Some p" "po_state p = PO_PENDING_CANCEL"
    "po_cancel_effective_ts_ns p = Some (2500 + es_response_latency_ns (ps_scenario ?s))" "es_response_latency_ns (ps_scenario ?s) = 100"
    by (auto split: option.splits)
  have ms: "list_all (\<lambda>(m, mark). kernel_market_ok m \<and> opt_all (\<lambda>x. 0 \<le> x) mark) ?ms" by code_simp
  have quiet: "\<not> list_ex (\<lambda>mm. km_trades (fst mm) \<noteq> []) ?ms" by (simp add: example_book_def)
  from repeated_cancel_postponed [OF example_facts(1) _ _ example_facts(4) ops refl p(1-3) ms] p(4) quiet show ?thesis
    by (auto simp: example_book_def)
qed


section \<open>An order that is cancelled before it activates\<close>

text \<open>A request to cancel an order that is still pending activation hides it from \<open>activate_due_orders\<close>
  and not from \<open>match_orders\<close>: the order never meets its post-only check and never joins a queue, so a
  trade that only consumes the queue of an activated order fills it.\<close>

definition early_sale :: kernel_market where
  "early_sale = example_book 1120
     [\<lparr>kt_exchange_ts_ns = 1120, kt_observed_ts_ns = 1120, kt_price = 60000, kt_size = 1 / 2, kt_aggressor = SELLER\<rparr>]"

lemma cancelled_before_activation_fills:
  "(case snd (advance example_naming early_sale None (foldl (paper_step example_naming) example_sim
        [Submit example_intent 1000])) of Inl _ \<Rightarrow> False | Inr u \<Rightarrow> su_fills u = [])
 \<and> (case snd (advance example_naming early_sale None (foldl (paper_step example_naming) example_sim
        [Submit example_intent 1000, RequestCancel ''a1'' 1050])) of
      Inl _ \<Rightarrow> False | Inr u \<Rightarrow> map fl_quantity_base (su_fills u) = [1 / 1000])"
  by code_simp

end
