(* ===== verification/Deployment_Config.thy ===== *)
theory Deployment_Config
  imports Risk_Authority
begin

text \<open>
  The deployment configuration of \<open>config/models.py\<close>: one record per section with the checks
  pydantic applies to it, and \<open>enforce_deployment_boundary\<close>, which decides what a configuration may
  enable. A path is a \<open>pathlib\<close> value, its root and its parts; a URL is its text. Risk and execution
  limits are in \<open>Risk_Authority\<close>. Literal fields with one value carry no information and are left out.
\<close>

section \<open>Strings and paths\<close>

definition lower_char :: "char \<Rightarrow> char" where
  "lower_char c = (let n = of_char c :: nat in if 65 \<le> n \<and> n \<le> 90 then char_of (n + 32) else c)"

definition py_lower :: "string \<Rightarrow> string" where
  "py_lower = map lower_char"

record pure_path =
  pp_root :: string
  pp_parts :: "string list"

definition is_absolute :: "pure_path \<Rightarrow> bool" where
  "is_absolute p \<longleftrightarrow> pp_root p \<noteq> []"

fun is_prefix :: "'a list \<Rightarrow> 'a list \<Rightarrow> bool" where
  "is_prefix [] ys = True"
| "is_prefix (x # xs) [] = False"
| "is_prefix (x # xs) (y # ys) = (x = y \<and> is_prefix xs ys)"

definition is_relative_to :: "pure_path \<Rightarrow> pure_path \<Rightarrow> bool" where
  "is_relative_to p base \<longleftrightarrow> pp_root p = pp_root base \<and> is_prefix (pp_parts base) (pp_parts p)"

fun join_parts :: "string list \<Rightarrow> string" where
  "join_parts [] = []"
| "join_parts [x] = x"
| "join_parts (x # xs) = x @ ''/'' @ join_parts xs"

definition path_str :: "pure_path \<Rightarrow> string" where
  "path_str p = (if pp_root p = [] \<and> pp_parts p = [] then ''.'' else pp_root p @ join_parts (pp_parts p))"

definition secrets_root :: pure_path where
  "secrets_root = \<lparr>pp_root = ''/'', pp_parts = [''run'', ''secrets'']\<rparr>"

definition approvals_root :: pure_path where
  "approvals_root = \<lparr>pp_root = ''/'', pp_parts = [''run'', ''approvals'']\<rparr>"

definition secret_reference_error :: "pure_path option \<Rightarrow> string option" where
  "secret_reference_error r =
     (case r of None \<Rightarrow> None
      | Some p \<Rightarrow> first_error
          [(\<not> is_absolute p, ''secret references must be absolute paths''),
           (\<not> is_relative_to p secrets_root, ''secret references must be below /run/secrets''),
           (p = secrets_root, ''secret reference must identify a file'')])"

definition relative_reference_bad :: "pure_path \<Rightarrow> bool" where
  "relative_reference_bad p \<longleftrightarrow>
     is_absolute p \<or> ''..'' \<in> set (pp_parts p) \<or> p = \<lparr>pp_root = [], pp_parts = []\<rparr>"

text \<open>The first failing check of a list of checked parts, in order.\<close>

fun first_some :: "'a option list \<Rightarrow> 'a option" where
  "first_some [] = None"
| "first_some (x # xs) = (case x of None \<Rightarrow> first_some xs | Some y \<Rightarrow> Some y)"

lemma first_some_None_iff: "first_some xs = None \<longleftrightarrow> (\<forall>x \<in> set xs. x = None)"
  by (induction xs) (auto split: option.splits)

text \<open>No check fails when none of the nested checks does.\<close>

lemma if_Some_None [simp]:
  "(if b then Some m else x) = None \<longleftrightarrow> \<not> b \<and> x = None"
  "(if b then x else None) = None \<longleftrightarrow> b \<longrightarrow> x = None"
  by auto

lemma case_Some_None [simp]:
  "(case x of None \<Rightarrow> y | Some z \<Rightarrow> Some z) = None \<longleftrightarrow> x = None \<and> y = None"
  by (cases x) auto

section \<open>Sections of the configuration\<close>

datatype deployment_mode = RESEARCH | TESTNET_MODE | PAPER | SHADOW | CANARY | PRODUCTION_MODE

datatype exchange_network = TESTNET | MAINNET

record exchange_config =
  xc_network :: exchange_network
  xc_http_url :: string
  xc_websocket_url :: string
  xc_account_address :: "string option"
  xc_vault_address :: "string option"
  xc_trading_wallet_secret_path :: "pure_path option"
  xc_control_wallet_secret_path :: "pure_path option"

definition exchange_config_error :: "exchange_config \<Rightarrow> string option" where
  "exchange_config_error x = first_some
     [first_error
        [(\<not> opt_all is_account_address (xc_account_address x), ''account_address''),
         (\<not> opt_all is_account_address (xc_vault_address x), ''vault_address'')],
      secret_reference_error (xc_trading_wallet_secret_path x),
      secret_reference_error (xc_control_wallet_secret_path x),
      first_error
        [(xc_trading_wallet_secret_path x \<noteq> None
            \<and> xc_trading_wallet_secret_path x = xc_control_wallet_secret_path x,
          ''trading and control wallets must use different secret files''),
         (xc_account_address x \<noteq> None \<and> xc_vault_address x \<noteq> None
            \<and> map_option py_lower (xc_account_address x) = map_option py_lower (xc_vault_address x),
          ''vault and master account addresses must be different'')]]"

text \<open>\<open>self.vault_address or self.account_address\<close>\<close>

definition execution_account_address :: "exchange_config \<Rightarrow> string option" where
  "execution_account_address x =
     (case xc_vault_address x of
        None \<Rightarrow> xc_account_address x
      | Some v \<Rightarrow> if v = [] then xc_account_address x else Some v)"

datatype live_strategy_id = AVELLANEDA_STOIKOV_V1 | ORDER_FLOW_SCALPER_V1 | SMART_MONEY_SCALPER_V3

record live_strategy_config =
  ls_enabled :: bool
  ls_strategy_id :: live_strategy_id
  ls_feature_config_path :: pure_path
  ls_strategy_config_path :: pure_path
  ls_estimated_taker_fee_bps :: dec
  ls_estimated_slippage_bps :: dec

definition REFERENCE_MESSAGE :: string where
  "REFERENCE_MESSAGE = ''validation configuration references must be relative and cannot traverse''"

definition live_strategy_error :: "live_strategy_config \<Rightarrow> string option" where
  "live_strategy_error c = first_error
     [(ls_strategy_id c = SMART_MONEY_SCALPER_V3, ''strategy_id''),
      (\<not> (0 \<le> ls_estimated_taker_fee_bps c \<and> ls_estimated_taker_fee_bps c \<le> 100),
       ''estimated_taker_fee_bps''),
      (\<not> (0 \<le> ls_estimated_slippage_bps c \<and> ls_estimated_slippage_bps c \<le> 100),
       ''estimated_slippage_bps''),
      (relative_reference_bad (ls_feature_config_path c), REFERENCE_MESSAGE),
      (relative_reference_bad (ls_strategy_config_path c), REFERENCE_MESSAGE)]"

record sentinel_config =
  sc_enabled :: bool
  sc_poll_interval_ms :: int
  sc_heartbeat_stale_after_ms :: int
  sc_deadman_timeout_ms :: int
  sc_deadman_renew_interval_ms :: int
  sc_cancel_retry_count :: int
  sc_metrics_port :: int

definition sentinel_config_error :: "sentinel_config \<Rightarrow> string option" where
  "sentinel_config_error c = first_error
     [(\<not> (250 \<le> sc_poll_interval_ms c \<and> sc_poll_interval_ms c \<le> 5000), ''poll_interval_ms''),
      (\<not> (2000 \<le> sc_heartbeat_stale_after_ms c \<and> sc_heartbeat_stale_after_ms c \<le> 30000),
       ''heartbeat_stale_after_ms''),
      (\<not> (10000 \<le> sc_deadman_timeout_ms c \<and> sc_deadman_timeout_ms c \<le> 120000), ''deadman_timeout_ms''),
      (\<not> (1000 \<le> sc_deadman_renew_interval_ms c \<and> sc_deadman_renew_interval_ms c \<le> 30000),
       ''deadman_renew_interval_ms''),
      (\<not> (1 \<le> sc_cancel_retry_count c \<and> sc_cancel_retry_count c \<le> 10), ''cancel_retry_count''),
      (\<not> (1024 \<le> sc_metrics_port c \<and> sc_metrics_port c \<le> 65535), ''metrics_port''),
      (sc_deadman_timeout_ms c - 5000 \<le> sc_deadman_renew_interval_ms c,
       ''dead-man renewal must leave at least five seconds of safety margin''),
      (sc_heartbeat_stale_after_ms c \<le> sc_poll_interval_ms c,
       ''sentinel polling must be faster than the heartbeat stale threshold'')]"

datatype public_channel = L2_BOOK | TRADES | BBO_CHANNEL | ACTIVE_ASSET_CTX

record market_data_config =
  md_enabled :: bool
  md_public_channels :: "public_channel list"
  md_segment_duration_seconds :: int
  md_sync_every_records :: int
  md_stale_after_seconds :: int
  md_ping_interval_seconds :: int
  md_max_frame_bytes :: int
  md_reconnect_initial_ms :: int
  md_reconnect_max_ms :: int
  md_reconnect_jitter_fraction :: dec
  md_outbound_messages_per_minute :: int
  md_minimum_free_bytes :: int
  md_minimum_free_fraction :: dec
  md_metrics_port :: int
  md_tardis_api_key_secret_path :: "pure_path option"

definition market_data_error :: "market_data_config \<Rightarrow> string option" where
  "market_data_error c = first_some
     [first_error
        [(\<not> (60 \<le> md_segment_duration_seconds c \<and> md_segment_duration_seconds c \<le> 3600),
          ''segment_duration_seconds''),
         (\<not> (1 \<le> md_sync_every_records c \<and> md_sync_every_records c \<le> 10000), ''sync_every_records''),
         (\<not> (5 \<le> md_stale_after_seconds c \<and> md_stale_after_seconds c \<le> 120), ''stale_after_seconds''),
         (\<not> (5 \<le> md_ping_interval_seconds c \<and> md_ping_interval_seconds c \<le> 50), ''ping_interval_seconds''),
         (\<not> (65536 \<le> md_max_frame_bytes c \<and> md_max_frame_bytes c \<le> 67108864), ''max_frame_bytes''),
         (\<not> (50 \<le> md_reconnect_initial_ms c \<and> md_reconnect_initial_ms c \<le> 5000), ''reconnect_initial_ms''),
         (\<not> (250 \<le> md_reconnect_max_ms c \<and> md_reconnect_max_ms c \<le> 60000), ''reconnect_max_ms''),
         (\<not> (0 \<le> md_reconnect_jitter_fraction c \<and> md_reconnect_jitter_fraction c \<le> 1),
          ''reconnect_jitter_fraction''),
         (\<not> (1 \<le> md_outbound_messages_per_minute c \<and> md_outbound_messages_per_minute c \<le> 2000),
          ''outbound_messages_per_minute''),
         (md_minimum_free_bytes c < 67108864, ''minimum_free_bytes''),
         (\<not> (0 < md_minimum_free_fraction c \<and> md_minimum_free_fraction c \<le> 1 / 2),
          ''minimum_free_fraction''),
         (\<not> (1024 \<le> md_metrics_port c \<and> md_metrics_port c \<le> 65535), ''metrics_port''),
         (\<not> distinct (md_public_channels c), ''market-data channels must be unique''),
         (md_public_channels c = [], ''at least one market-data channel is required''),
         (md_reconnect_max_ms c < md_reconnect_initial_ms c,
          ''initial reconnect delay cannot exceed maximum reconnect delay''),
         (60 \<le> md_ping_interval_seconds c,
          ''application ping interval must remain below venue idle timeout'')],
      secret_reference_error (md_tardis_api_key_secret_path c)]"

record llm_config =
  lc_enabled :: bool
  lc_model :: string
  lc_api_key_secret_path :: pure_path
  lc_minimum_request_interval_seconds :: int
  lc_timeout_seconds :: int
  lc_maximum_output_tokens :: int
  lc_queue_capacity :: int

definition llm_config_error :: "llm_config \<Rightarrow> string option" where
  "llm_config_error c = first_some
     [first_error
        [(\<not> is_slug (lc_model c), ''model''),
         (\<not> (15 \<le> lc_minimum_request_interval_seconds c \<and> lc_minimum_request_interval_seconds c \<le> 3600),
          ''minimum_request_interval_seconds''),
         (\<not> (2 \<le> lc_timeout_seconds c \<and> lc_timeout_seconds c \<le> 60), ''timeout_seconds''),
         (\<not> (100 \<le> lc_maximum_output_tokens c \<and> lc_maximum_output_tokens c \<le> 1000),
          ''maximum_output_tokens''),
         (\<not> (1 \<le> lc_queue_capacity c \<and> lc_queue_capacity c \<le> 32), ''queue_capacity'')],
      secret_reference_error (Some (lc_api_key_secret_path c))]"


record paper_config =
  pc_enabled :: bool
  pc_strategy_id :: live_strategy_id
  pc_scenario_path :: pure_path
  pc_sensitivity_scenario_paths :: "pure_path list"
  pc_feature_config_path :: pure_path
  pc_strategy_config_path :: pure_path
  pc_evidence_policy_path :: pure_path
  pc_initial_equity_usd :: dec
  pc_watchdog_interval_ms :: int
  pc_market_state_interval_ms :: int
  pc_status_stale_after_ms :: int
  pc_markout_horizon_ms :: int
  pc_metrics_port :: int
  pc_llm_confirmation :: llm_config

definition paper_config_error :: "paper_config \<Rightarrow> string option" where
  "paper_config_error c = first_some
     [first_error
        [(\<not> (0 < pc_initial_equity_usd c \<and> pc_initial_equity_usd c \<le> 10000000), ''initial_equity_usd''),
         (\<not> (50 \<le> pc_watchdog_interval_ms c \<and> pc_watchdog_interval_ms c \<le> 5000), ''watchdog_interval_ms''),
         (\<not> (100 \<le> pc_market_state_interval_ms c \<and> pc_market_state_interval_ms c \<le> 5000),
          ''market_state_interval_ms''),
         (\<not> (1000 \<le> pc_status_stale_after_ms c \<and> pc_status_stale_after_ms c \<le> 30000),
          ''status_stale_after_ms''),
         (\<not> (100 \<le> pc_markout_horizon_ms c \<and> pc_markout_horizon_ms c \<le> 60000), ''markout_horizon_ms''),
         (\<not> (1024 \<le> pc_metrics_port c \<and> pc_metrics_port c \<le> 65535), ''metrics_port'')],
      llm_config_error (pc_llm_confirmation c),
      first_error
        [(list_ex relative_reference_bad
            (pc_scenario_path c # pc_sensitivity_scenario_paths c
              @ [pc_feature_config_path c, pc_strategy_config_path c, pc_evidence_policy_path c]),
          REFERENCE_MESSAGE),
         (\<not> distinct (pc_sensitivity_scenario_paths c), ''paper sensitivity scenarios must be unique'')]]"

record shadow_config =
  hc_enabled :: bool
  hc_strategy_id :: live_strategy_id
  hc_scenario_path :: pure_path
  hc_sensitivity_scenario_paths :: "pure_path list"
  hc_feature_config_path :: pure_path
  hc_strategy_config_path :: pure_path
  hc_engine_policy_path :: pure_path
  hc_evidence_policy_path :: pure_path
  hc_initial_equity_usd :: dec
  hc_watchdog_interval_ms :: int
  hc_market_state_interval_ms :: int
  hc_health_sample_interval_ms :: int
  hc_ingress_poll_interval_ms :: int
  hc_ingress_batch_size :: int
  hc_maximum_ingress_lag_ms :: int
  hc_maximum_clock_skew_ms :: int
  hc_status_stale_after_ms :: int
  hc_markout_horizon_ms :: int
  hc_metrics_port :: int

definition shadow_config_error :: "shadow_config \<Rightarrow> string option" where
  "shadow_config_error c = first_error
     [(\<not> (0 < hc_initial_equity_usd c \<and> hc_initial_equity_usd c \<le> 10000000), ''initial_equity_usd''),
      (\<not> (50 \<le> hc_watchdog_interval_ms c \<and> hc_watchdog_interval_ms c \<le> 5000), ''watchdog_interval_ms''),
      (\<not> (100 \<le> hc_market_state_interval_ms c \<and> hc_market_state_interval_ms c \<le> 5000),
       ''market_state_interval_ms''),
      (\<not> (250 \<le> hc_health_sample_interval_ms c \<and> hc_health_sample_interval_ms c \<le> 10000),
       ''health_sample_interval_ms''),
      (\<not> (1 \<le> hc_ingress_poll_interval_ms c \<and> hc_ingress_poll_interval_ms c \<le> 1000),
       ''ingress_poll_interval_ms''),
      (\<not> (1 \<le> hc_ingress_batch_size c \<and> hc_ingress_batch_size c \<le> 10000), ''ingress_batch_size''),
      (\<not> (100 \<le> hc_maximum_ingress_lag_ms c \<and> hc_maximum_ingress_lag_ms c \<le> 30000),
       ''maximum_ingress_lag_ms''),
      (\<not> (10 \<le> hc_maximum_clock_skew_ms c \<and> hc_maximum_clock_skew_ms c \<le> 5000), ''maximum_clock_skew_ms''),
      (\<not> (1000 \<le> hc_status_stale_after_ms c \<and> hc_status_stale_after_ms c \<le> 30000), ''status_stale_after_ms''),
      (\<not> (100 \<le> hc_markout_horizon_ms c \<and> hc_markout_horizon_ms c \<le> 60000), ''markout_horizon_ms''),
      (\<not> (1024 \<le> hc_metrics_port c \<and> hc_metrics_port c \<le> 65535), ''metrics_port''),
      (list_ex relative_reference_bad
         (hc_scenario_path c # hc_sensitivity_scenario_paths c
           @ [hc_feature_config_path c, hc_strategy_config_path c, hc_engine_policy_path c,
              hc_evidence_policy_path c]), REFERENCE_MESSAGE),
      (\<not> distinct (hc_sensitivity_scenario_paths c), ''shadow sensitivity scenarios must be unique''),
      (hc_health_sample_interval_ms c < hc_watchdog_interval_ms c,
       ''shadow health sampling cannot be faster than the watchdog'')]"

record storage_config =
  st_data_root :: pure_path
  st_state_root :: pure_path

definition storage_config_error :: "storage_config \<Rightarrow> string option" where
  "storage_config_error c = first_error
     [(\<not> is_absolute (st_data_root c) \<or> \<not> is_absolute (st_state_root c), ''storage roots must be absolute''),
      (st_data_root c = st_state_root c, ''data and state roots must be distinct'')]"

record observability_config =
  ob_health_port :: int
  ob_execution_metrics_port :: int

definition observability_error :: "observability_config \<Rightarrow> string option" where
  "observability_error c = first_error
     [(\<not> (1024 \<le> ob_health_port c \<and> ob_health_port c \<le> 65535), ''health_port''),
      (\<not> (1024 \<le> ob_execution_metrics_port c \<and> ob_execution_metrics_port c \<le> 65535),
       ''execution_metrics_port'')]"

record approval_config =
  av_deployment_id :: "string option"
  av_approval_id :: "string option"
  av_scale_approval_id :: "string option"
  av_artifact_manifest_sha256 :: "string option"
  av_approval_path :: "pure_path option"
  av_manifest_path :: "pure_path option"
  av_signature_path :: "pure_path option"
  av_public_key_path :: "pure_path option"
  av_public_key_id :: "string option"
  av_public_key_sha256 :: "string option"
  av_artifact_root_path :: "pure_path option"

definition approval_path_error :: "pure_path option \<Rightarrow> string option" where
  "approval_path_error r =
     (case r of None \<Rightarrow> None
      | Some p \<Rightarrow> first_error
          [(\<not> is_absolute p \<or> \<not> is_relative_to p approvals_root,
            ''approval paths must be absolute and below /run/approvals''),
           (p = approvals_root, ''approval path must identify a file or artifact directory'')])"

definition approval_config_error :: "approval_config \<Rightarrow> string option" where
  "approval_config_error a = first_some
     (first_error
        [(\<not> opt_all is_slug (av_deployment_id a), ''deployment_id''),
         (\<not> opt_all is_slug (av_approval_id a), ''approval_id''),
         (\<not> opt_all is_slug (av_scale_approval_id a), ''scale_approval_id''),
         (\<not> opt_all is_sha256_hex (av_artifact_manifest_sha256 a), ''artifact_manifest_sha256''),
         (\<not> opt_all is_slug (av_public_key_id a), ''public_key_id''),
         (\<not> opt_all is_sha256_hex (av_public_key_sha256 a), ''public_key_sha256'')]
      # map approval_path_error
          [av_manifest_path a, av_approval_path a, av_signature_path a, av_public_key_path a,
           av_artifact_root_path a])"

definition active_approval_id :: "approval_config \<Rightarrow> deployment_mode \<Rightarrow> string option" where
  "active_approval_id a mode = (if mode = PRODUCTION_MODE then av_scale_approval_id a else av_approval_id a)"

definition complete_for :: "approval_config \<Rightarrow> deployment_mode \<Rightarrow> bool" where
  "complete_for a mode \<longleftrightarrow>
     av_deployment_id a \<noteq> None \<and> active_approval_id a mode \<noteq> None
   \<and> av_artifact_manifest_sha256 a \<noteq> None \<and> av_approval_path a \<noteq> None \<and> av_manifest_path a \<noteq> None
   \<and> av_signature_path a \<noteq> None \<and> av_public_key_path a \<noteq> None \<and> av_public_key_id a \<noteq> None
   \<and> av_public_key_sha256 a \<noteq> None \<and> av_artifact_root_path a \<noteq> None
   \<and> (mode \<noteq> PRODUCTION_MODE \<or> av_approval_id a \<noteq> None)"

section \<open>The deployment boundary\<close>

record native_settings =
  ns_environment :: string
  ns_mode :: deployment_mode
  ns_exchange :: exchange_config
  ns_execution :: execution_config
  ns_live_strategy :: live_strategy_config
  ns_sentinel :: sentinel_config
  ns_market_data :: market_data_config
  ns_paper :: paper_config
  ns_shadow :: shadow_config
  ns_risk :: risk_limits
  ns_storage :: storage_config
  ns_observability :: observability_config
  ns_approval :: approval_config

text \<open>The pattern \<open>[a-z0-9][a-z0-9_-]*\<close> of the environment name.\<close>

definition lower_alnum :: "char \<Rightarrow> bool" where
  "lower_alnum c \<longleftrightarrow> c \<in> set ''0123456789abcdefghijklmnopqrstuvwxyz''"

definition is_environment :: "string \<Rightarrow> bool" where
  "is_environment s \<longleftrightarrow>
     s \<noteq> [] \<and> lower_alnum (hd s) \<and> list_all (\<lambda>c. lower_alnum c \<or> c = CHR ''_'' \<or> c = CHR ''-'') s"


definition mode_name :: "deployment_mode \<Rightarrow> string" where
  "mode_name m =
     (case m of RESEARCH \<Rightarrow> ''research'' | TESTNET_MODE \<Rightarrow> ''testnet'' | PAPER \<Rightarrow> ''paper''
      | SHADOW \<Rightarrow> ''shadow'' | CANARY \<Rightarrow> ''canary'' | PRODUCTION_MODE \<Rightarrow> ''production'')"

definition execution_modes :: "deployment_mode list" where
  "execution_modes = [TESTNET_MODE, CANARY, PRODUCTION_MODE]"

definition rstrip_slash :: "string \<Rightarrow> string" where
  "rstrip_slash s = rev (dropWhile (\<lambda>c. c = CHR ''/'') (rev s))"

definition expected_host :: "exchange_network \<Rightarrow> string" where
  "expected_host n = (if n = TESTNET then ''api.hyperliquid-testnet.xyz'' else ''api.hyperliquid.xyz'')"

definition expected_http :: "exchange_network \<Rightarrow> string" where
  "expected_http n = ''https://'' @ expected_host n"

definition expected_ws :: "exchange_network \<Rightarrow> string" where
  "expected_ws n = ''wss://'' @ expected_host n @ ''/ws''"

definition network_name :: "exchange_network \<Rightarrow> string" where
  "network_name n = (if n = TESTNET then ''testnet'' else ''mainnet'')"

definition secret_prefix :: "exchange_network \<Rightarrow> string" where
  "secret_prefix n = ''/run/secrets/'' @ network_name n @ ''-''"

definition mode_boundary :: "native_settings \<Rightarrow> string option" where
  "mode_boundary s = first_error
     [(pc_enabled (ns_paper s) \<and> hc_enabled (ns_shadow s),
       ''paper and shadow engines cannot be enabled together''),
      (ec_enabled (ns_execution s) \<and> ns_mode s \<in> set [RESEARCH, PAPER, SHADOW],
       ''research, paper, and shadow modes cannot enable execution''),
      (ls_enabled (ns_live_strategy s) \<and> \<not> ec_enabled (ns_execution s),
       ''live strategy cannot be enabled without exchange execution''),
      (ns_mode s = TESTNET_MODE \<and> xc_network (ns_exchange s) \<noteq> TESTNET,
       ''testnet mode requires the Hyperliquid testnet network''),
      (ns_mode s \<in> set [CANARY, PRODUCTION_MODE] \<and> xc_network (ns_exchange s) \<noteq> MAINNET,
       ''canary and production modes require mainnet''),
      (ns_mode s \<in> set [PAPER, SHADOW]
         \<and> (xc_account_address (ns_exchange s) \<noteq> None \<or> xc_vault_address (ns_exchange s) \<noteq> None
            \<or> xc_trading_wallet_secret_path (ns_exchange s) \<noteq> None
            \<or> xc_control_wallet_secret_path (ns_exchange s) \<noteq> None),
       mode_name (ns_mode s) @ '' mode forbids exchange accounts and wallet references''),
      (ns_mode s \<in> set [PAPER, SHADOW] \<and> sc_enabled (ns_sentinel s),
       mode_name (ns_mode s) @ '' mode cannot enable the exchange safety sentinel'')]"

definition engine_boundary :: "native_settings \<Rightarrow> string option" where
  "engine_boundary s =
     (let stale = rl_public_data_stale_after_ms (ns_risk s); md = md_enabled (ns_market_data s);
          ex = ec_enabled (ns_execution s)
      in first_some
        [if pc_enabled (ns_paper s) then first_error
           [(ns_mode s \<noteq> PAPER, ''the paper engine can run only in paper mode''),
            (\<not> md, ''the paper engine requires public market data''),
            (ex, ''the paper engine cannot enable execution''),
            (stale \<le> pc_market_state_interval_ms (ns_paper s),
             ''paper market-state cadence must be faster than stale risk'')] else None,
         if hc_enabled (ns_shadow s) then first_error
           [(ns_mode s \<noteq> SHADOW, ''the shadow engine can run only in shadow mode''),
            (\<not> md, ''the shadow gateway requires public market data''),
            (ex, ''the shadow engine cannot enable execution''),
            (stale \<le> hc_market_state_interval_ms (ns_shadow s),
             ''shadow market-state cadence must be faster than stale risk'')] else None])"

definition execution_boundary :: "native_settings \<Rightarrow> string option" where
  "execution_boundary s = first_some
     [if ec_enabled (ns_execution s) then first_error
        [(ns_mode s \<notin> set execution_modes, ''research, paper, and shadow modes cannot enable execution''),
         (xc_account_address (ns_exchange s) = None, ''enabled execution requires an account address''),
         (xc_trading_wallet_secret_path (ns_exchange s) = None,
          ''enabled execution requires a trading-wallet secret reference''),
         (\<not> sc_enabled (ns_sentinel s), ''enabled execution requires the independent safety sentinel''),
         (\<not> ec_reconcile_on_startup (ns_execution s),
          ''enabled execution requires startup reconciliation'')] else None,
      if sc_enabled (ns_sentinel s) then first_error
        [(ns_mode s \<notin> set execution_modes, ''the safety sentinel is restricted to execution environments''),
         (xc_account_address (ns_exchange s) = None, ''enabled sentinel requires an account address''),
         (xc_control_wallet_secret_path (ns_exchange s) = None,
          ''enabled sentinel requires a control-wallet secret reference'')] else None]"

definition venue_boundary :: "native_settings \<Rightarrow> string option" where
  "venue_boundary s =
     (let x = ns_exchange s; n = xc_network x;
          named = (\<lambda>r. opt_all (\<lambda>p. is_prefix (secret_prefix n) (path_str p)) r)
      in if ec_enabled (ns_execution s) \<or> sc_enabled (ns_sentinel s) then first_error
           [(n = MAINNET \<and> ns_mode s \<notin> set [CANARY, PRODUCTION_MODE],
             ''mainnet execution is restricted to canary and production''),
            (n = MAINNET \<and> \<not> complete_for (ns_approval s) (ns_mode s),
             ''mainnet execution requires complete signed-approval references''),
            (rstrip_slash (xc_http_url x) \<noteq> expected_http n,
             ''execution requires the canonical Hyperliquid HTTP endpoint''),
            (rstrip_slash (xc_websocket_url x) \<noteq> expected_ws n,
             ''execution requires the canonical Hyperliquid WebSocket endpoint''),
            (\<not> named (xc_trading_wallet_secret_path x) \<or> \<not> named (xc_control_wallet_secret_path x),
             network_name n @ '' wallet references must use '' @ secret_prefix n @ '' names'')]
         else None)"

definition within_canary_ceilings :: "risk_limits \<Rightarrow> bool" where
  "within_canary_ceilings l \<longleftrightarrow>
     rl_max_leverage l \<le> 1 \<and> rl_max_order_size_base l \<le> 2 / 1000
   \<and> rl_max_position_size_base l \<le> 1 / 100 \<and> rl_max_order_notional_usd l \<le> 100
   \<and> rl_max_inventory_notional_usd l \<le> 500 \<and> rl_max_open_orders l \<le> 2
   \<and> rl_max_orders_per_second l \<le> 2"

definition canary_boundary :: "native_settings \<Rightarrow> string option" where
  "canary_boundary s =
     (if ec_enabled (ns_execution s) \<and> ns_mode s = CANARY \<and> \<not> within_canary_ceilings (ns_risk s)
      then Some ''canary execution exceeds immutable Phase 9 risk ceilings'' else None)"

definition deployment_boundary :: "native_settings \<Rightarrow> string option" where
  "deployment_boundary s = first_some
     [mode_boundary s, engine_boundary s, execution_boundary s, venue_boundary s, canary_boundary s]"

definition native_settings_error :: "native_settings \<Rightarrow> string option" where
  "native_settings_error s = first_some
     [if is_environment (ns_environment s) then None else Some ''environment'',
      exchange_config_error (ns_exchange s), execution_config_error (ns_execution s),
      live_strategy_error (ns_live_strategy s), sentinel_config_error (ns_sentinel s),
      market_data_error (ns_market_data s), paper_config_error (ns_paper s),
      shadow_config_error (ns_shadow s), risk_limits_error (ns_risk s),
      storage_config_error (ns_storage s), observability_error (ns_observability s),
      approval_config_error (ns_approval s), deployment_boundary s]"

definition native_settings_ok :: "native_settings \<Rightarrow> bool" where
  "native_settings_ok s \<longleftrightarrow> native_settings_error s = None"

definition can_submit_orders :: "native_settings \<Rightarrow> bool" where
  "can_submit_orders s = ec_enabled (ns_execution s)"

definition requires_signed_approval :: "native_settings \<Rightarrow> bool" where
  "requires_signed_approval s \<longleftrightarrow>
     xc_network (ns_exchange s) = MAINNET \<and> (ec_enabled (ns_execution s) \<or> sc_enabled (ns_sentinel s))"


section \<open>What a valid configuration can enable\<close>

lemma settings_parts:
  assumes "native_settings_ok s"
  shows "mode_boundary s = None" "engine_boundary s = None" "execution_boundary s = None"
    "venue_boundary s = None" "canary_boundary s = None" "exchange_config_error (ns_exchange s) = None"
    "sentinel_config_error (ns_sentinel s) = None" "risk_limits_error (ns_risk s) = None"
  using assms
  by (simp_all add: native_settings_ok_def native_settings_error_def deployment_boundary_def
      first_some_None_iff)

lemmas boundary_defs = mode_boundary_def engine_boundary_def execution_boundary_def
  venue_boundary_def canary_boundary_def Let_def first_some_None_iff first_error_None_iff

lemma is_prefix_appendD: "is_prefix (a @ b) c \<Longrightarrow> is_prefix a c"
  by (induction a c rule: is_prefix.induct) auto

lemma is_prefix_same_length: "is_prefix a c \<Longrightarrow> is_prefix b c \<Longrightarrow> length a = length b \<Longrightarrow> a = b"
proof (induction a c arbitrary: b rule: is_prefix.induct)
  case (3 x xs y ys)
  then show ?case by (cases b) auto
qed auto

lemma secret_prefixes_disjoint:
  assumes "is_prefix (secret_prefix n) p" "is_prefix (secret_prefix m) p"
  shows "n = m"
proof -
  have "length (secret_prefix n) = length (secret_prefix m)"
    by (cases n; cases m) (simp_all add: secret_prefix_def network_name_def)
  with assms have "secret_prefix n = secret_prefix m" by (rule is_prefix_same_length)
  then show ?thesis by (cases n; cases m) (simp_all add: secret_prefix_def network_name_def)
qed

definition wallet_secrets :: "native_settings \<Rightarrow> pure_path set" where
  "wallet_secrets s =
     set (opt_list (xc_trading_wallet_secret_path (ns_exchange s))
          @ opt_list (xc_control_wallet_secret_path (ns_exchange s)))"

lemma wallet_secret_named:
  assumes "native_settings_ok s" "ec_enabled (ns_execution s) \<or> sc_enabled (ns_sentinel s)"
    "p \<in> wallet_secrets s"
  shows "is_prefix (secret_prefix (xc_network (ns_exchange s))) (path_str p)"
  using settings_parts(4) [OF assms(1)] assms(2,3)
  by (auto simp: wallet_secrets_def boundary_defs split: if_splits)

lemma wallet_secrets_distinct:
  assumes "native_settings_ok s" "xc_trading_wallet_secret_path (ns_exchange s) = Some p"
  shows "xc_control_wallet_secret_path (ns_exchange s) \<noteq> Some p"
  using settings_parts(6) [OF assms(1)] assms(2)
  by (auto simp: exchange_config_error_def first_some_None_iff first_error_None_iff)

text \<open>C26: What may trade is bounded by configuration alone: a valid configuration that enables
  execution runs in a testnet, canary or production mode with the safety sentinel enabled, startup
  reconciliation on, an account, two different wallet secrets and the canonical endpoint of its
  network, and no paper or shadow engine; on mainnet it is a canary or production with complete
  references to a signed approval, and a canary stays within the immutable ceilings. The dead-man
  timer leaves five seconds between renewal and expiry, and wallet secrets of one network are never
  accepted on the other.\<close>

theorem execution_boundary_enforced:
  assumes "native_settings_ok s" "ec_enabled (ns_execution s)"
  shows "ns_mode s \<in> {TESTNET_MODE, CANARY, PRODUCTION_MODE}
     \<and> sc_enabled (ns_sentinel s) \<and> ec_reconcile_on_startup (ns_execution s)
     \<and> \<not> pc_enabled (ns_paper s) \<and> \<not> hc_enabled (ns_shadow s)
     \<and> xc_account_address (ns_exchange s) \<noteq> None
     \<and> (\<exists>t c. xc_trading_wallet_secret_path (ns_exchange s) = Some t
          \<and> xc_control_wallet_secret_path (ns_exchange s) = Some c \<and> t \<noteq> c)
     \<and> rstrip_slash (xc_http_url (ns_exchange s)) = expected_http (xc_network (ns_exchange s))
     \<and> (xc_network (ns_exchange s) = MAINNET \<longleftrightarrow> ns_mode s \<in> {CANARY, PRODUCTION_MODE})
     \<and> (ns_mode s \<in> {CANARY, PRODUCTION_MODE} \<longrightarrow>
          requires_signed_approval s \<and> complete_for (ns_approval s) (ns_mode s))
     \<and> (ns_mode s = CANARY \<longrightarrow> within_canary_ceilings (ns_risk s))
     \<and> sc_deadman_renew_interval_ms (ns_sentinel s) + 5000 < sc_deadman_timeout_ms (ns_sentinel s)
     \<and> (\<forall>s' p. native_settings_ok s' \<and> ec_enabled (ns_execution s') \<and> p \<in> wallet_secrets s
          \<and> p \<in> wallet_secrets s' \<longrightarrow> xc_network (ns_exchange s') = xc_network (ns_exchange s))"
    (is "?mode \<and> ?sentinel \<and> ?reconcile \<and> ?paper \<and> ?shadow \<and> ?account \<and> ?wallets \<and> ?http \<and> ?main
         \<and> ?signed \<and> ?canary \<and> ?margin \<and> ?apart")
proof -
  note parts = settings_parts [OF assms(1)]
  note ex = parts(3) [unfolded boundary_defs] and ve = parts(4) [unfolded boundary_defs]
  have b: ?mode ?sentinel ?reconcile ?account using ex assms(2)
    by (simp_all add: execution_modes_def)
  have p: ?paper ?shadow using parts(2) assms(2) by (auto simp: boundary_defs split: if_splits)
  have w: ?wallets using ex b(2) assms(2) wallet_secrets_distinct [OF assms(1)] by auto
  have h: ?http using ve assms(2) by simp
  have m: ?main using parts(1) ve b(1) assms(2) exchange_network.exhaust
    by (cases "xc_network (ns_exchange s)") (auto simp: boundary_defs)
  have g: ?signed using m ve assms(2) by (auto simp: requires_signed_approval_def)
  have c: ?canary using parts(5) assms(2) by (auto simp: canary_boundary_def split: if_splits)
  have d: ?margin using parts(7) by (simp add: sentinel_config_error_def first_error_None_iff)
  have a: ?apart
    using wallet_secret_named assms secret_prefixes_disjoint by blast
  show ?thesis using b p w h m g c d a by (intro conjI)
qed


section \<open>An accepted canary\<close>

definition slash :: "string list \<Rightarrow> pure_path" where
  "slash ps = \<lparr>pp_root = ''/'', pp_parts = ps\<rparr>"

definition rel :: "string list \<Rightarrow> pure_path" where
  "rel ps = \<lparr>pp_root = [], pp_parts = ps\<rparr>"

definition example_exchange :: exchange_config where
  "example_exchange = \<lparr>xc_network = MAINNET, xc_http_url = ''https://api.hyperliquid.xyz/'',
     xc_websocket_url = ''wss://api.hyperliquid.xyz/ws'',
     xc_account_address = Some (''0x'' @ replicate 40 CHR ''1''), xc_vault_address = None,
     xc_trading_wallet_secret_path = Some (slash [''run'', ''secrets'', ''mainnet-trading'']),
     xc_control_wallet_secret_path = Some (slash [''run'', ''secrets'', ''mainnet-control''])\<rparr>"

definition example_approval :: approval_config where
  "example_approval = \<lparr>av_deployment_id = Some ''canary-1'', av_approval_id = Some ''approval-1'',
     av_scale_approval_id = None, av_artifact_manifest_sha256 = Some (replicate 64 CHR ''a''),
     av_approval_path = Some (slash [''run'', ''approvals'', ''approval.json'']),
     av_manifest_path = Some (slash [''run'', ''approvals'', ''manifest.json'']),
     av_signature_path = Some (slash [''run'', ''approvals'', ''signature.json'']),
     av_public_key_path = Some (slash [''run'', ''approvals'', ''key.pem'']),
     av_public_key_id = Some ''release-key'', av_public_key_sha256 = Some (replicate 64 CHR ''b''),
     av_artifact_root_path = Some (slash [''run'', ''approvals'', ''artifacts''])\<rparr>"

definition example_llm :: llm_config where
  "example_llm = \<lparr>lc_enabled = False, lc_model = ''gpt-5.6-terra'',
     lc_api_key_secret_path = slash [''run'', ''secrets'', ''openai_api_key''],
     lc_minimum_request_interval_seconds = 60, lc_timeout_seconds = 10,
     lc_maximum_output_tokens = 300, lc_queue_capacity = 4\<rparr>"

definition example_paper :: paper_config where
  "example_paper = \<lparr>pc_enabled = False, pc_strategy_id = ORDER_FLOW_SCALPER_V1,
     pc_scenario_path = rel [''paper'', ''baseline-v1.toml''],
     pc_sensitivity_scenario_paths = [rel [''paper'', ''pessimistic-v1.toml'']],
     pc_feature_config_path = rel [''features'', ''microstructure-v1.toml''],
     pc_strategy_config_path = rel [''strategies'', ''order-flow-scalper-v1.toml''],
     pc_evidence_policy_path = rel [''paper'', ''evidence-v1.toml''], pc_initial_equity_usd = 100000,
     pc_watchdog_interval_ms = 250, pc_market_state_interval_ms = 1000,
     pc_status_stale_after_ms = 5000, pc_markout_horizon_ms = 1000, pc_metrics_port = 9112,
     pc_llm_confirmation = example_llm\<rparr>"

definition example_shadow :: shadow_config where
  "example_shadow = \<lparr>hc_enabled = False, hc_strategy_id = ORDER_FLOW_SCALPER_V1,
     hc_scenario_path = rel [''paper'', ''baseline-v1.toml''],
     hc_sensitivity_scenario_paths = [rel [''paper'', ''pessimistic-v1.toml'']],
     hc_feature_config_path = rel [''features'', ''microstructure-v1.toml''],
     hc_strategy_config_path = rel [''strategies'', ''order-flow-scalper-v1.toml''],
     hc_engine_policy_path = rel [''paper'', ''evidence-v1.toml''],
     hc_evidence_policy_path = rel [''shadow'', ''evidence-v1.toml''], hc_initial_equity_usd = 100000,
     hc_watchdog_interval_ms = 250, hc_market_state_interval_ms = 1000,
     hc_health_sample_interval_ms = 1000, hc_ingress_poll_interval_ms = 10,
     hc_ingress_batch_size = 100, hc_maximum_ingress_lag_ms = 1500, hc_maximum_clock_skew_ms = 250,
     hc_status_stale_after_ms = 5000, hc_markout_horizon_ms = 1000, hc_metrics_port = 9113\<rparr>"

definition example_market_data :: market_data_config where
  "example_market_data = \<lparr>md_enabled = False,
     md_public_channels = [L2_BOOK, TRADES, BBO_CHANNEL, ACTIVE_ASSET_CTX],
     md_segment_duration_seconds = 3600, md_sync_every_records = 100, md_stale_after_seconds = 15,
     md_ping_interval_seconds = 30, md_max_frame_bytes = 8388608, md_reconnect_initial_ms = 250,
     md_reconnect_max_ms = 5000, md_reconnect_jitter_fraction = 1 / 5,
     md_outbound_messages_per_minute = 120, md_minimum_free_bytes = 5368709120,
     md_minimum_free_fraction = 1 / 10, md_metrics_port = 9109, md_tardis_api_key_secret_path = None\<rparr>"

definition canary_settings :: native_settings where
  "canary_settings = \<lparr>ns_environment = ''canary'', ns_mode = CANARY, ns_exchange = example_exchange,
     ns_execution = default_execution_config\<lparr>ec_enabled := True\<rparr>,
     ns_live_strategy = \<lparr>ls_enabled = True, ls_strategy_id = ORDER_FLOW_SCALPER_V1,
       ls_feature_config_path = rel [''features'', ''microstructure-v1.toml''],
       ls_strategy_config_path = rel [''strategies'', ''order-flow-scalper-v1.toml''],
       ls_estimated_taker_fee_bps = 9 / 2, ls_estimated_slippage_bps = 1\<rparr>,
     ns_sentinel = \<lparr>sc_enabled = True, sc_poll_interval_ms = 1000, sc_heartbeat_stale_after_ms = 5000,
       sc_deadman_timeout_ms = 20000, sc_deadman_renew_interval_ms = 5000, sc_cancel_retry_count = 3,
       sc_metrics_port = 9111\<rparr>,
     ns_market_data = example_market_data, ns_paper = example_paper, ns_shadow = example_shadow,
     ns_risk = default_risk_limits\<lparr>rl_max_order_size_base := 1 / 1000,
       rl_max_position_size_base := 1 / 200, rl_max_order_notional_usd := 100,
       rl_max_inventory_notional_usd := 500, rl_max_open_orders := 2, rl_max_orders_per_second := 2\<rparr>,
     ns_storage = \<lparr>st_data_root = slash [''var'', ''data''], st_state_root = slash [''var'', ''state'']\<rparr>,
     ns_observability = \<lparr>ob_health_port = 9108, ob_execution_metrics_port = 9110\<rparr>,
     ns_approval = example_approval\<rparr>"

lemma canary_settings_valid: "native_settings_ok canary_settings \<and> ec_enabled (ns_execution canary_settings)"
  by code_simp

theorem execution_boundary_enforced_witness:
  "ns_mode canary_settings \<in> {TESTNET_MODE, CANARY, PRODUCTION_MODE}
   \<and> within_canary_ceilings (ns_risk canary_settings)"
  using execution_boundary_enforced [of canary_settings] canary_settings_valid
  by (auto simp: canary_settings_def)

end
