(* ===== verification/Governance.thy ===== *)
theory Governance
  imports Deployment_Config
begin

text \<open>
  The governance contracts of \<open>domain/governance.py\<close> and \<open>governance/models.py\<close> that decide what may
  trade: promotion stages and their transitions, the signed approval, the artifact manifest, renewals
  and admission records. An instant is a number of microseconds since the epoch, with or without a
  timezone; every comparison of the code is between two instants with one.
\<close>

section \<open>Instants\<close>

datatype datetime = Aware (micros: int) | Naive (micros: int)

fun is_aware :: "datetime \<Rightarrow> bool" where
  "is_aware (Aware _) = True"
| "is_aware (Naive _) = False"

definition SEVEN_DAYS :: int where "SEVEN_DAYS = 7 * 86400 * 1000000"

section \<open>Promotion stages\<close>

datatype promotion_stage =
    DRAFT | CANDIDATE | BACKTEST_PASSED | WALK_FORWARD_PASSED | PAPER_PASSED | SHADOW_PASSED
  | AWAITING_APPROVAL | APPROVED_CANARY | PRODUCTION | RETIRED | REJECTED_STAGE | ROLLED_BACK_STAGE

datatype actor_kind = AUTOMATION | HUMAN_APPROVER | SAFETY_CONTROLLER

fun advance_transitions :: "promotion_stage \<Rightarrow> promotion_stage list" where
  "advance_transitions DRAFT = [CANDIDATE, REJECTED_STAGE]"
| "advance_transitions CANDIDATE = [BACKTEST_PASSED, REJECTED_STAGE]"
| "advance_transitions BACKTEST_PASSED = [WALK_FORWARD_PASSED, REJECTED_STAGE]"
| "advance_transitions WALK_FORWARD_PASSED = [PAPER_PASSED, REJECTED_STAGE]"
| "advance_transitions PAPER_PASSED = [SHADOW_PASSED, REJECTED_STAGE]"
| "advance_transitions SHADOW_PASSED = [AWAITING_APPROVAL, REJECTED_STAGE]"
| "advance_transitions AWAITING_APPROVAL = [APPROVED_CANARY, REJECTED_STAGE]"
| "advance_transitions APPROVED_CANARY = [PRODUCTION, ROLLED_BACK_STAGE]"
| "advance_transitions PRODUCTION = [RETIRED, ROLLED_BACK_STAGE]"
| "advance_transitions RETIRED = []"
| "advance_transitions REJECTED_STAGE = []"
| "advance_transitions ROLLED_BACK_STAGE = []"

fun stage_name :: "promotion_stage \<Rightarrow> string" where
  "stage_name DRAFT = ''draft''"
| "stage_name CANDIDATE = ''candidate''"
| "stage_name BACKTEST_PASSED = ''backtest_passed''"
| "stage_name WALK_FORWARD_PASSED = ''walk_forward_passed''"
| "stage_name PAPER_PASSED = ''paper_passed''"
| "stage_name SHADOW_PASSED = ''shadow_passed''"
| "stage_name AWAITING_APPROVAL = ''awaiting_approval''"
| "stage_name APPROVED_CANARY = ''approved_canary''"
| "stage_name PRODUCTION = ''production''"
| "stage_name RETIRED = ''retired''"
| "stage_name REJECTED_STAGE = ''rejected''"
| "stage_name ROLLED_BACK_STAGE = ''rolled_back''"

definition validate_stage_transition ::
  "promotion_stage \<Rightarrow> promotion_stage \<Rightarrow> actor_kind \<Rightarrow> unit res" where
  "validate_stage_transition source target actor =
     guardE (target \<notin> set (advance_transitions source))
       (ValueError (''illegal promotion transition: '' @ stage_name source @ '' -> '' @ stage_name target))
     (guardE (target \<in> set [APPROVED_CANARY, PRODUCTION] \<and> actor \<noteq> HUMAN_APPROVER)
       (ValueError (stage_name target @ '' requires a human approver''))
     (guardE (actor = SAFETY_CONTROLLER \<and> target \<notin> set [REJECTED_STAGE, ROLLED_BACK_STAGE, RETIRED])
       (ValueError ''safety controller may only reduce deployment authority'') (Inr ())))"

section \<open>The signed approval\<close>

definition is_image_digest :: "string \<Rightarrow> bool" where
  "is_image_digest s \<longleftrightarrow> take 7 s = ''sha256:'' \<and> is_sha256_hex (drop 7 s)"

definition is_commit_sha :: "string \<Rightarrow> bool" where
  "is_commit_sha s \<longleftrightarrow> length s = 40 \<and> list_all lower_hex s"

definition is_short :: "nat \<Rightarrow> string \<Rightarrow> bool" where
  "is_short n s \<longleftrightarrow> 1 \<le> length s \<and> length s \<le> n"

text \<open>\<open>max_digits=20, decimal_places=8\<close>\<close>

definition is_capital :: "dec \<Rightarrow> bool" where
  "is_capital c \<longleftrightarrow> 0 < c \<and> c < 10 ^ 12 \<and> of_int \<lfloor>c * 10 ^ 8\<rfloor> = c * 10 ^ 8"

record deployment_approval =
  da_approval_id :: string
  da_deployment_id :: string
  da_stage :: promotion_stage
  da_account_address :: string
  da_vault_address :: "string option"
  da_trading_wallet_address :: string
  da_control_wallet_address :: string
  da_commit_sha :: string
  da_image_digest :: string
  da_artifact_manifest_sha256 :: string
  da_dependency_lock_sha256 :: string
  da_dataset_sha256 :: string
  da_model_sha256 :: string
  da_configuration_sha256 :: string
  da_feature_schema_sha256 :: string
  da_strategy_config_sha256 :: string
  da_risk_policy_sha256 :: string
  da_shadow_evidence_sha256 :: string
  da_testnet_evidence_sha256 :: string
  da_canary_evidence_sha256 :: "string option"
  da_capital_limit_usd :: dec
  da_rollback_deployment_id :: string
  da_prior_approval_id :: "string option"
  da_approver :: string
  da_approved_at :: datetime
  da_expires_at :: datetime

definition opt_lower :: "string option \<Rightarrow> string option" where
  "opt_lower = map_option py_lower"

definition approval_fields_error :: "deployment_approval \<Rightarrow> string option" where
  "approval_fields_error a = first_error
     [(\<not> is_short 128 (da_approval_id a), ''approval_id''),
      (\<not> is_short 128 (da_deployment_id a), ''deployment_id''),
      (da_stage a \<notin> set [APPROVED_CANARY, PRODUCTION], ''stage''),
      (\<not> is_account_address (da_account_address a), ''account_address''),
      (\<not> opt_all is_account_address (da_vault_address a), ''vault_address''),
      (\<not> is_account_address (da_trading_wallet_address a), ''trading_wallet_address''),
      (\<not> is_account_address (da_control_wallet_address a), ''control_wallet_address''),
      (\<not> is_commit_sha (da_commit_sha a), ''commit_sha''),
      (\<not> is_image_digest (da_image_digest a), ''image_digest''),
      (\<not> list_all is_sha256_hex
         [da_artifact_manifest_sha256 a, da_dependency_lock_sha256 a, da_dataset_sha256 a,
          da_model_sha256 a, da_configuration_sha256 a, da_feature_schema_sha256 a,
          da_strategy_config_sha256 a, da_risk_policy_sha256 a, da_shadow_evidence_sha256 a,
          da_testnet_evidence_sha256 a], ''sha256''),
      (\<not> opt_all is_sha256_hex (da_canary_evidence_sha256 a), ''canary_evidence_sha256''),
      (\<not> is_capital (da_capital_limit_usd a), ''capital_limit_usd''),
      (\<not> is_short 128 (da_rollback_deployment_id a), ''rollback_deployment_id''),
      (\<not> opt_all (is_short 128) (da_prior_approval_id a), ''prior_approval_id''),
      (\<not> is_short 256 (da_approver a), ''approver'')]"

text \<open>The identities of account, vault and wallets, in lower case.\<close>

definition approval_identities :: "deployment_approval \<Rightarrow> string list" where
  "approval_identities a =
     py_lower (da_account_address a) # map py_lower (opt_list (da_vault_address a))
       @ [py_lower (da_trading_wallet_address a), py_lower (da_control_wallet_address a)]"

definition approval_window_error :: "deployment_approval \<Rightarrow> string option" where
  "approval_window_error a = first_error
     [(\<not> is_aware (da_approved_at a) \<or> \<not> is_aware (da_expires_at a),
       ''approval timestamps must be timezone-aware''),
      (micros (da_expires_at a) \<le> micros (da_approved_at a), ''approval expiry must follow approval time''),
      (SEVEN_DAYS < micros (da_expires_at a) - micros (da_approved_at a),
       ''deployment approval cannot remain valid for more than seven days''),
      (py_lower (da_trading_wallet_address a) = py_lower (da_control_wallet_address a),
       ''trading and control wallet identities must be different''),
      (opt_lower (da_vault_address a) = Some (py_lower (da_account_address a)),
       ''vault and master account identities must be different''),
      (card (set (approval_identities a)) \<noteq> (if da_vault_address a = None then 3 else 4),
       ''account, vault, and wallet identities must be distinct''),
      (da_deployment_id a = da_rollback_deployment_id a,
       ''rollback target must differ from the approved deployment''),
      (da_stage a = APPROVED_CANARY
         \<and> (da_prior_approval_id a \<noteq> None \<or> da_canary_evidence_sha256 a \<noteq> None),
       ''canary approval cannot claim prior or canary evidence authority''),
      (da_stage a \<noteq> APPROVED_CANARY
         \<and> (da_prior_approval_id a = None \<or> da_canary_evidence_sha256 a = None),
       ''production approval requires prior approval and canary evidence'')]"

definition deployment_approval_error :: "deployment_approval \<Rightarrow> string option" where
  "deployment_approval_error a = first_some [approval_fields_error a, approval_window_error a]"

definition approval_is_active :: "deployment_approval \<Rightarrow> datetime \<Rightarrow> bool res" where
  "approval_is_active a now =
     guardE (\<not> is_aware now) (ValueError ''approval check timestamp must be timezone-aware'')
       (Inr (micros (da_approved_at a) \<le> micros now \<and> micros now < micros (da_expires_at a)))"


section \<open>The artifact manifest\<close>

text \<open>\<open>PurePosixPath(s)\<close>: split at slashes, empty and dot segments dropped.\<close>

fun split_slash :: "string \<Rightarrow> string \<Rightarrow> string list" where
  "split_slash acc [] = [acc]"
| "split_slash acc (c # cs) = (if c = CHR ''/'' then acc # split_slash [] cs else split_slash (acc @ [c]) cs)"

definition parse_path :: "string \<Rightarrow> pure_path" where
  "parse_path s =
     \<lparr>pp_root = (if take 1 s \<noteq> ''/'' then []
                 else if take 2 s = ''//'' \<and> take 3 s \<noteq> ''///'' then ''//'' else ''/''),
      pp_parts = filter (\<lambda>x. x \<noteq> [] \<and> x \<noteq> ''.'') (split_slash [] s)\<rparr>"

datatype artifact_kind =
    DEPENDENCY_LOCK | DATASET_MANIFEST | MODEL_MANIFEST | FEATURE_SCHEMA | STRATEGY_CONFIG
  | RISK_POLICY | SHADOW_EVIDENCE | TESTNET_EVIDENCE | CANARY_EVIDENCE

fun kind_name :: "artifact_kind \<Rightarrow> string" where
  "kind_name DEPENDENCY_LOCK = ''dependency_lock''"
| "kind_name DATASET_MANIFEST = ''dataset_manifest''"
| "kind_name MODEL_MANIFEST = ''model_manifest''"
| "kind_name FEATURE_SCHEMA = ''feature_schema''"
| "kind_name STRATEGY_CONFIG = ''strategy_config''"
| "kind_name RISK_POLICY = ''risk_policy''"
| "kind_name SHADOW_EVIDENCE = ''shadow_evidence''"
| "kind_name TESTNET_EVIDENCE = ''testnet_evidence''"
| "kind_name CANARY_EVIDENCE = ''canary_evidence''"

record artifact_binding =
  bi_kind :: artifact_kind
  bi_relative_path :: string
  bi_content_sha256 :: string

definition artifact_binding_error :: "artifact_binding \<Rightarrow> string option" where
  "artifact_binding_error b =
     (let p = parse_path (bi_relative_path b)
      in first_error
        [(\<not> is_short 512 (bi_relative_path b), ''relative_path''),
         (\<not> is_sha256_hex (bi_content_sha256 b), ''content_sha256''),
         (is_absolute p \<or> ''..'' \<in> set (pp_parts p) \<or> path_str p \<in> set [[], ''.''],
          ''deployment artifact path must be relative and cannot traverse'')])"

record artifact_manifest =
  am_deployment_id :: string
  am_stage :: promotion_stage
  am_created_at :: datetime
  am_commit_sha :: string
  am_image_digest :: string
  am_configuration_sha256 :: string
  am_dependency_lock_sha256 :: string
  am_dataset_sha256 :: string
  am_model_sha256 :: string
  am_feature_schema_sha256 :: string
  am_strategy_config_sha256 :: string
  am_risk_policy_sha256 :: string
  am_shadow_evidence_sha256 :: string
  am_testnet_evidence_sha256 :: string
  am_canary_evidence_sha256 :: "string option"
  am_rollback_deployment_id :: string
  am_artifacts :: "artifact_binding list"

text \<open>The artifact kinds a manifest must bind, with the digests it declares for them.\<close>

definition expected_artifacts :: "artifact_manifest \<Rightarrow> (artifact_kind \<times> string) list" where
  "expected_artifacts m =
     [(DEPENDENCY_LOCK, am_dependency_lock_sha256 m), (DATASET_MANIFEST, am_dataset_sha256 m),
      (MODEL_MANIFEST, am_model_sha256 m), (FEATURE_SCHEMA, am_feature_schema_sha256 m),
      (STRATEGY_CONFIG, am_strategy_config_sha256 m), (RISK_POLICY, am_risk_policy_sha256 m),
      (SHADOW_EVIDENCE, am_shadow_evidence_sha256 m), (TESTNET_EVIDENCE, am_testnet_evidence_sha256 m)]
     @ (if am_stage m = PRODUCTION
        then map (Pair CANARY_EVIDENCE) (opt_list (am_canary_evidence_sha256 m)) else [])"

fun digest_mismatch :: "artifact_binding list \<Rightarrow> (artifact_kind \<times> string) list \<Rightarrow> string option" where
  "digest_mismatch bs [] = None"
| "digest_mismatch bs ((k, d) # es) =
     (if list_ex (\<lambda>b. bi_kind b = k \<and> bi_content_sha256 b \<noteq> d) bs
      then Some (''deployment artifact digest mismatch for '' @ kind_name k) else digest_mismatch bs es)"

definition artifact_set_error :: "artifact_manifest \<Rightarrow> string option" where
  "artifact_set_error m =
     (let kinds = map bi_kind (am_artifacts m)
      in first_some
        [first_error
           [(\<not> is_aware (am_created_at m), ''artifact manifest timestamp must be timezone-aware''),
            (am_deployment_id m = am_rollback_deployment_id m,
             ''artifact rollback target must differ from deployment''),
            (\<not> distinct kinds, ''deployment artifact kinds must be unique''),
            (am_stage m = PRODUCTION \<and> am_canary_evidence_sha256 m = None,
             ''production artifact manifest requires canary evidence''),
            (am_stage m \<noteq> PRODUCTION \<and> am_canary_evidence_sha256 m \<noteq> None,
             ''canary artifact manifest cannot bind canary evidence''),
            (set kinds \<noteq> set (map fst (expected_artifacts m)),
             ''deployment artifact set does not match its stage'')],
         digest_mismatch (am_artifacts m) (expected_artifacts m)])"

definition artifact_manifest_error :: "artifact_manifest \<Rightarrow> string option" where
  "artifact_manifest_error m = first_some
     (first_error
        [(\<not> is_slug (am_deployment_id m), ''deployment_id''),
         (am_stage m \<notin> set [APPROVED_CANARY, PRODUCTION], ''stage''),
         (\<not> is_commit_sha (am_commit_sha m), ''commit_sha''),
         (\<not> is_image_digest (am_image_digest m), ''image_digest''),
         (\<not> list_all is_sha256_hex
            [am_configuration_sha256 m, am_dependency_lock_sha256 m, am_dataset_sha256 m,
             am_model_sha256 m, am_feature_schema_sha256 m, am_strategy_config_sha256 m,
             am_risk_policy_sha256 m, am_shadow_evidence_sha256 m, am_testnet_evidence_sha256 m],
          ''sha256''),
         (\<not> opt_all is_sha256_hex (am_canary_evidence_sha256 m), ''canary_evidence_sha256''),
         (\<not> is_slug (am_rollback_deployment_id m), ''rollback_deployment_id''),
         (\<not> (8 \<le> length (am_artifacts m) \<and> length (am_artifacts m) \<le> 9), ''artifacts'')]
      # map artifact_binding_error (am_artifacts m) @ [artifact_set_error m])"

section \<open>Signatures, admissions and renewals\<close>

definition base64_alphabet :: string where
  "base64_alphabet = ''ABCDEFGHIJKLMNOPQRSTUVWXYZabcdefghijklmnopqrstuvwxyz0123456789+/''"

text \<open>
  The canonical base64 text of 64 bytes: 86 digits, the last of which encodes two bits, and
  two padding characters. It is what the round trip of \<open>signature_is_canonical\<close> accepts.
\<close>

definition is_canonical_signature :: "string \<Rightarrow> bool" where
  "is_canonical_signature s \<longleftrightarrow>
     length s = 88 \<and> list_all (\<lambda>c. c \<in> set base64_alphabet) (take 86 s) \<and> s ! 85 \<in> set ''AQgw''
   \<and> drop 86 s = ''==''"

record detached_signature =
  ds_key_id :: string
  ds_approval_sha256 :: string
  ds_signature_base64 :: string

definition detached_signature_error :: "detached_signature \<Rightarrow> string option" where
  "detached_signature_error s = first_error
     [(\<not> is_slug (ds_key_id s), ''key_id''), (\<not> is_sha256_hex (ds_approval_sha256 s), ''approval_sha256''),
      (length (ds_signature_base64 s) \<noteq> 88, ''signature_base64''),
      (\<not> is_canonical_signature (ds_signature_base64 s),
       ''approval signature must be one canonical Ed25519 signature'')]"

record verified_admission =
  va_admission_id :: string
  va_approval :: deployment_approval
  va_artifact_manifest :: artifact_manifest
  va_public_key_sha256 :: string
  va_signature_envelope_sha256 :: string
  va_verified_at :: datetime

record authorization_renewal =
  ar_renewal_id :: string
  ar_deployment_id :: string
  ar_initial_approval_id :: string
  ar_admission_id :: string
  ar_prior_authorization_id :: string
  ar_account_address :: string
  ar_vault_address :: "string option"
  ar_artifact_manifest_sha256 :: string
  ar_configuration_sha256 :: string
  ar_image_digest :: string
  ar_capital_limit_usd :: dec
  ar_approver :: string
  ar_approved_at :: datetime
  ar_expires_at :: datetime

definition authorization_renewal_error :: "authorization_renewal \<Rightarrow> string option" where
  "authorization_renewal_error r = first_error
     [(\<not> is_slug (ar_renewal_id r), ''renewal_id''), (\<not> is_slug (ar_deployment_id r), ''deployment_id''),
      (\<not> is_slug (ar_initial_approval_id r), ''initial_approval_id''),
      (\<not> is_sha256_hex (ar_admission_id r), ''admission_id''),
      (\<not> is_sha256_hex (ar_prior_authorization_id r), ''prior_authorization_id''),
      (\<not> is_account_address (ar_account_address r), ''account_address''),
      (\<not> opt_all is_account_address (ar_vault_address r), ''vault_address''),
      (\<not> is_sha256_hex (ar_artifact_manifest_sha256 r), ''artifact_manifest_sha256''),
      (\<not> is_sha256_hex (ar_configuration_sha256 r), ''configuration_sha256''),
      (\<not> is_image_digest (ar_image_digest r), ''image_digest''),
      (ar_capital_limit_usd r \<le> 0, ''capital_limit_usd''),
      (\<not> is_short 256 (ar_approver r), ''approver''),
      (\<not> is_aware (ar_approved_at r) \<or> \<not> is_aware (ar_expires_at r),
       ''deployment renewal timestamps must be timezone-aware''),
      (micros (ar_expires_at r) \<le> micros (ar_approved_at r),
       ''deployment renewal expiry must follow approval time''),
      (SEVEN_DAYS < micros (ar_expires_at r) - micros (ar_approved_at r),
       ''deployment renewal cannot remain valid over seven days''),
      (opt_lower (ar_vault_address r) = Some (py_lower (ar_account_address r)),
       ''deployment renewal vault and account must differ'')]"

definition renewal_is_active :: "authorization_renewal \<Rightarrow> datetime \<Rightarrow> bool res" where
  "renewal_is_active r now =
     guardE (\<not> is_aware now) (ValueError ''deployment renewal check timestamp must be timezone-aware'')
       (Inr (micros (ar_approved_at r) \<le> micros now \<and> micros now < micros (ar_expires_at r)))"

record verified_renewal =
  vr_authorization_id :: string
  vr_renewal :: authorization_renewal
  vr_public_key_sha256 :: string
  vr_signature_envelope_sha256 :: string
  vr_verified_at :: datetime

datatype admission_state = ADMISSION_ACTIVE | SUPERSEDED | ROLLED_BACK | REVOKED

record admission_record =
  dr_deployment_id :: string
  dr_approval_id :: string
  dr_admission_id :: string
  dr_authorization_id :: string
  dr_renewal_count :: int
  dr_approval_public_key_sha256 :: "string option"
  dr_stage :: promotion_stage
  dr_account_address :: string
  dr_vault_address :: "string option"
  dr_artifact_manifest_sha256 :: string
  dr_configuration_sha256 :: string
  dr_image_digest :: string
  dr_capital_limit_usd :: dec
  dr_admitted_at :: datetime
  dr_expires_at :: datetime
  dr_state :: admission_state
  dr_actor :: string
  dr_reason :: string

definition admission_record_error :: "admission_record \<Rightarrow> string option" where
  "admission_record_error r = first_error
     [(\<not> is_slug (dr_deployment_id r), ''deployment_id''), (\<not> is_slug (dr_approval_id r), ''approval_id''),
      (\<not> is_sha256_hex (dr_admission_id r), ''admission_id''),
      (\<not> is_sha256_hex (dr_authorization_id r), ''authorization_id''),
      (dr_renewal_count r < 0, ''renewal_count''),
      (\<not> opt_all is_sha256_hex (dr_approval_public_key_sha256 r), ''approval_public_key_sha256''),
      (dr_stage r \<notin> set [APPROVED_CANARY, PRODUCTION], ''stage''),
      (\<not> is_account_address (dr_account_address r), ''account_address''),
      (\<not> opt_all is_account_address (dr_vault_address r), ''vault_address''),
      (\<not> is_sha256_hex (dr_artifact_manifest_sha256 r), ''artifact_manifest_sha256''),
      (\<not> is_sha256_hex (dr_configuration_sha256 r), ''configuration_sha256''),
      (\<not> is_image_digest (dr_image_digest r), ''image_digest''),
      (dr_capital_limit_usd r \<le> 0, ''capital_limit_usd''),
      (\<not> is_short 256 (dr_actor r), ''actor''), (\<not> is_short 512 (dr_reason r), ''reason''),
      (\<not> is_aware (dr_admitted_at r) \<or> \<not> is_aware (dr_expires_at r),
       ''deployment admission timestamps must be timezone-aware''),
      (micros (dr_expires_at r) \<le> micros (dr_admitted_at r),
       ''deployment admission expiry must follow admission time''),
      (dr_renewal_count r = 0 \<and> dr_authorization_id r \<noteq> dr_admission_id r,
       ''initial deployment authorization must equal the admission identity''),
      (0 < dr_renewal_count r \<and> dr_authorization_id r = dr_admission_id r,
       ''renewed deployment authorization must bind a renewal identity''),
      (0 < dr_renewal_count r \<and> dr_approval_public_key_sha256 r = None,
       ''renewed deployment authorization requires a bound trust root'')]"

definition admission_record_ok :: "admission_record \<Rightarrow> bool" where
  "admission_record_ok r \<longleftrightarrow> admission_record_error r = None"


section \<open>The way to production\<close>

fun promote :: "promotion_stage \<Rightarrow> (actor_kind \<times> promotion_stage) list \<Rightarrow> promotion_stage res" where
  "promote s [] = Inr s"
| "promote s ((actor, target) # ts) =
     bindE (validate_stage_transition s target actor) (\<lambda>_. promote target ts)"

definition promotion_path :: "promotion_stage list" where
  "promotion_path = [DRAFT, CANDIDATE, BACKTEST_PASSED, WALK_FORWARD_PASSED, PAPER_PASSED,
     SHADOW_PASSED, AWAITING_APPROVAL, APPROVED_CANARY, PRODUCTION]"

text \<open>The stages after a stage on the way to production.\<close>

definition remaining_path :: "promotion_stage \<Rightarrow> promotion_stage list" where
  "remaining_path s = drop 1 (dropWhile (\<lambda>t. t \<noteq> s) promotion_path)"

lemma remaining_path_simps:
  "remaining_path DRAFT = [CANDIDATE, BACKTEST_PASSED, WALK_FORWARD_PASSED, PAPER_PASSED,
     SHADOW_PASSED, AWAITING_APPROVAL, APPROVED_CANARY, PRODUCTION]"
  "remaining_path CANDIDATE = [BACKTEST_PASSED, WALK_FORWARD_PASSED, PAPER_PASSED, SHADOW_PASSED,
     AWAITING_APPROVAL, APPROVED_CANARY, PRODUCTION]"
  "remaining_path BACKTEST_PASSED = [WALK_FORWARD_PASSED, PAPER_PASSED, SHADOW_PASSED,
     AWAITING_APPROVAL, APPROVED_CANARY, PRODUCTION]"
  "remaining_path WALK_FORWARD_PASSED = [PAPER_PASSED, SHADOW_PASSED, AWAITING_APPROVAL,
     APPROVED_CANARY, PRODUCTION]"
  "remaining_path PAPER_PASSED = [SHADOW_PASSED, AWAITING_APPROVAL, APPROVED_CANARY, PRODUCTION]"
  "remaining_path SHADOW_PASSED = [AWAITING_APPROVAL, APPROVED_CANARY, PRODUCTION]"
  "remaining_path AWAITING_APPROVAL = [APPROVED_CANARY, PRODUCTION]"
  "remaining_path APPROVED_CANARY = [PRODUCTION]"
  "remaining_path PRODUCTION = []"
  by (simp_all add: remaining_path_def promotion_path_def)

lemma validate_transition_Inr:
  "validate_stage_transition s t a = Inr u \<longleftrightarrow>
     t \<in> set (advance_transitions s) \<and> (t \<in> {APPROVED_CANARY, PRODUCTION} \<longrightarrow> a = HUMAN_APPROVER)
   \<and> (a = SAFETY_CONTROLLER \<longrightarrow> t \<in> {REJECTED_STAGE, ROLLED_BACK_STAGE, RETIRED})"
  by (auto simp: validate_stage_transition_def res_simps)

lemma promote_final: "advance_transitions s = [] \<Longrightarrow> promote s ts = Inr t \<Longrightarrow> ts = [] \<and> t = s"
  by (cases ts) (auto simp: res_simps validate_transition_Inr)

lemma promote_production:
  assumes "promote s ts = Inr PRODUCTION"
  shows "map snd ts = remaining_path s \<and> (\<forall>(a, t) \<in> set ts. a \<noteq> SAFETY_CONTROLLER
     \<and> (t \<in> {APPROVED_CANARY, PRODUCTION} \<longrightarrow> a = HUMAN_APPROVER))"
  using assms
proof (induction ts arbitrary: s)
  case Nil
  then show ?case by (simp add: remaining_path_simps)
next
  case (Cons x ts)
  obtain a t where x: "x = (a, t)" by force
  from Cons.prems x have v: "validate_stage_transition s t a = Inr ()" "promote t ts = Inr PRODUCTION"
    by (auto simp: res_simps)
  have "advance_transitions t \<noteq> []" using promote_final [OF _ v(2)] by auto
  then have nt: "t \<noteq> RETIRED" "t \<noteq> REJECTED_STAGE" "t \<noteq> ROLLED_BACK_STAGE" by auto
  then have path: "remaining_path s = t # remaining_path t"
    using v(1) by (cases s) (auto simp: validate_transition_Inr remaining_path_simps)
  show ?case using Cons.IH [OF v(2)] v(1) nt path x by (auto simp: validate_transition_Inr)
qed

text \<open>A draft reaches production only through every gate, in order, with a human approving the
  last two: a sequence of transitions that are all validated and ends in production is exactly
  candidate, backtest, walk-forward, paper, shadow, awaiting approval, canary, production; the canary
  and the production step are made by a human approver, and the safety controller makes none.\<close>

theorem production_needs_every_gate:
  assumes "promote DRAFT ts = Inr PRODUCTION"
  shows "map snd ts = [CANDIDATE, BACKTEST_PASSED, WALK_FORWARD_PASSED, PAPER_PASSED, SHADOW_PASSED,
       AWAITING_APPROVAL, APPROVED_CANARY, PRODUCTION]
     \<and> fst (ts ! 6) = HUMAN_APPROVER \<and> fst (ts ! 7) = HUMAN_APPROVER
     \<and> (\<forall>(a, t) \<in> set ts. a \<noteq> SAFETY_CONTROLLER)"
proof -
  note p = promote_production [OF assms]
  then have m: "map snd ts = [CANDIDATE, BACKTEST_PASSED, WALK_FORWARD_PASSED, PAPER_PASSED,
      SHADOW_PASSED, AWAITING_APPROVAL, APPROVED_CANARY, PRODUCTION]"
    by (simp add: remaining_path_simps)
  then obtain a1 a2 a3 a4 a5 a6 a7 a8 where
    "ts = [(a1, CANDIDATE), (a2, BACKTEST_PASSED), (a3, WALK_FORWARD_PASSED), (a4, PAPER_PASSED),
       (a5, SHADOW_PASSED), (a6, AWAITING_APPROVAL), (a7, APPROVED_CANARY), (a8, PRODUCTION)]"
    by (auto simp: map_eq_Cons_conv)
  with p m show ?thesis by simp
qed

lemma production_needs_every_gate_witness:
  "fst ([(AUTOMATION, CANDIDATE), (AUTOMATION, BACKTEST_PASSED), (AUTOMATION, WALK_FORWARD_PASSED),
      (AUTOMATION, PAPER_PASSED), (AUTOMATION, SHADOW_PASSED), (AUTOMATION, AWAITING_APPROVAL),
      (HUMAN_APPROVER, APPROVED_CANARY), (HUMAN_APPROVER, PRODUCTION)] ! 6) = HUMAN_APPROVER"
  using production_needs_every_gate
    [of "[(AUTOMATION, CANDIDATE), (AUTOMATION, BACKTEST_PASSED), (AUTOMATION, WALK_FORWARD_PASSED),
      (AUTOMATION, PAPER_PASSED), (AUTOMATION, SHADOW_PASSED), (AUTOMATION, AWAITING_APPROVAL),
      (HUMAN_APPROVER, APPROVED_CANARY), (HUMAN_APPROVER, PRODUCTION)]"]
  by (simp add: validate_stage_transition_def)

end
