(* ===== verification/Admission_Ledger.thy ===== *)
theory Admission_Ledger
  imports Governance
begin

text \<open>
  The deployment admission ledger of \<open>governance/ledger.py\<close>: the three SQLite tables as lists in
  insertion order, the constraints they declare as checks that raise \<open>IntegrityError\<close>, and every
  call as one transaction that leaves the tables as they were when it raises. A row holds the
  indexed columns and the record that \<open>record_json\<close> stores; reading a record validates it, since
  pydantic's \<open>model_copy\<close>, which the updates use, does not. Connection, locking and JSON text are
  not modelled.
\<close>

section \<open>State\<close>

record admission_row =
  aw_deployment_id :: string
  aw_approval_id :: string
  aw_admission_id :: string
  aw_authorization_id :: string
  aw_renewal_count :: int
  aw_stage :: promotion_stage
  aw_account_address :: string
  aw_vault_address :: "string option"
  aw_state :: admission_state
  aw_expires_at :: datetime
  aw_record :: admission_record

record transition_row =
  tw_deployment_id :: string
  tw_occurred_at :: datetime
  tw_previous_state :: "admission_state option"
  tw_next_state :: admission_state
  tw_actor :: string
  tw_reason :: string

record renewal_row =
  nw_authorization_id :: string
  nw_renewal_id :: string
  nw_deployment_id :: string
  nw_prior_authorization_id :: string
  nw_approved_at :: datetime
  nw_expires_at :: datetime
  nw_renewal :: verified_renewal

record ledger =
  ld_read_only :: bool
  ld_admissions :: "admission_row list"
  ld_transitions :: "transition_row list"
  ld_renewals :: "renewal_row list"

definition new_ledger :: ledger where
  "new_ledger = \<lparr>ld_read_only = False, ld_admissions = [], ld_transitions = [], ld_renewals = []\<rparr>"

section \<open>Tables\<close>

definition load_record :: "admission_row \<Rightarrow> admission_record res" where
  "load_record r =
     (case admission_record_error (aw_record r) of
        Some m \<Rightarrow> Inl (ValidationError m) | None \<Rightarrow> Inr (aw_record r))"

text \<open>The key of the partial unique index: account and \<open>COALESCE(vault_address, '')\<close>.\<close>

definition account_key :: "string \<Rightarrow> string option \<Rightarrow> string \<times> string" where
  "account_key account vault = (py_lower account, (case vault of None \<Rightarrow> [] | Some v \<Rightarrow> py_lower v))"

definition row_key :: "admission_row \<Rightarrow> string \<times> string" where
  "row_key r = (aw_account_address r, (case aw_vault_address r of None \<Rightarrow> [] | Some v \<Rightarrow> v))"

definition active_row :: "ledger \<Rightarrow> string \<Rightarrow> string option \<Rightarrow> admission_row option" where
  "active_row l account vault =
     find (\<lambda>r. row_key r = account_key account vault \<and> aw_state r = ADMISSION_ACTIVE) (ld_admissions l)"

definition deployment_row :: "ledger \<Rightarrow> string \<Rightarrow> admission_row option" where
  "deployment_row l d = find (\<lambda>r. aw_deployment_id r = d) (ld_admissions l)"

definition row_conflict :: "admission_row \<Rightarrow> admission_row \<Rightarrow> bool" where
  "row_conflict r s \<longleftrightarrow>
     aw_deployment_id r = aw_deployment_id s \<or> aw_approval_id r = aw_approval_id s
   \<or> aw_admission_id r = aw_admission_id s \<or> aw_authorization_id r = aw_authorization_id s
   \<or> (row_key r = row_key s \<and> aw_state r = ADMISSION_ACTIVE \<and> aw_state s = ADMISSION_ACTIVE)"

definition insert_admission :: "admission_record \<Rightarrow> ledger \<Rightarrow> ledger res" where
  "insert_admission r l =
     (let row = \<lparr>aw_deployment_id = dr_deployment_id r, aw_approval_id = dr_approval_id r,
                 aw_admission_id = dr_admission_id r, aw_authorization_id = dr_authorization_id r,
                 aw_renewal_count = dr_renewal_count r, aw_stage = dr_stage r,
                 aw_account_address = py_lower (dr_account_address r),
                 aw_vault_address = opt_lower (dr_vault_address r), aw_state = dr_state r,
                 aw_expires_at = dr_expires_at r, aw_record = r\<rparr>
      in guardE (list_ex (row_conflict row) (ld_admissions l)) (IntegrityError ''UNIQUE constraint failed'')
           (Inr (l\<lparr>ld_admissions := ld_admissions l @ [row]\<rparr>)))"

definition write_columns :: "admission_record \<Rightarrow> admission_row \<Rightarrow> admission_row" where
  "write_columns r row =
     (if aw_deployment_id row = dr_deployment_id r
      then row\<lparr>aw_state := dr_state r, aw_authorization_id := dr_authorization_id r,
               aw_renewal_count := dr_renewal_count r, aw_expires_at := dr_expires_at r,
               aw_record := r\<rparr>
      else row)"

text \<open>No two rows conflict.\<close>

fun rows_unique :: "admission_row list \<Rightarrow> bool" where
  "rows_unique [] = True"
| "rows_unique (r # rs) = (\<not> list_ex (row_conflict r) rs \<and> rows_unique rs)"

definition update_record :: "admission_record \<Rightarrow> ledger \<Rightarrow> ledger res" where
  "update_record r l =
     (let rows = map (write_columns r) (ld_admissions l)
      in guardE (\<not> rows_unique rows) (IntegrityError ''UNIQUE constraint failed'')
           (Inr (l\<lparr>ld_admissions := rows\<rparr>)))"

definition insert_transition ::
  "admission_record \<Rightarrow> admission_state option \<Rightarrow> string \<Rightarrow> string \<Rightarrow> datetime \<Rightarrow> ledger \<Rightarrow> ledger" where
  "insert_transition r previous actor reason instant l = l\<lparr>ld_transitions := ld_transitions l @
     [\<lparr>tw_deployment_id = dr_deployment_id r, tw_occurred_at = instant, tw_previous_state = previous,
       tw_next_state = dr_state r, tw_actor = actor, tw_reason = reason\<rparr>]\<rparr>"

definition insert_renewal :: "verified_renewal \<Rightarrow> string \<Rightarrow> ledger \<Rightarrow> ledger res" where
  "insert_renewal v deployment l =
     (let a = vr_renewal v;
          row = \<lparr>nw_authorization_id = vr_authorization_id v, nw_renewal_id = ar_renewal_id a,
                 nw_deployment_id = deployment, nw_prior_authorization_id = ar_prior_authorization_id a,
                 nw_approved_at = ar_approved_at a, nw_expires_at = ar_expires_at a, nw_renewal = v\<rparr>
      in guardE (list_ex (\<lambda>n. nw_authorization_id n = vr_authorization_id v
                            \<or> nw_renewal_id n = ar_renewal_id a) (ld_renewals l))
           (IntegrityError ''UNIQUE constraint failed'')
           (Inr (l\<lparr>ld_renewals := ld_renewals l @ [row]\<rparr>)))"

section \<open>Input checks\<close>

text \<open>The characters \<open>str.strip\<close> removes, among those of one byte.\<close>

definition is_space :: "char \<Rightarrow> bool" where
  "is_space c \<longleftrightarrow> (of_char c :: nat) \<in> set ([9, 10, 11, 12, 13, 28, 29, 30, 31, 32, 133, 160] :: nat list)"

definition is_blank :: "string \<Rightarrow> bool" where
  "is_blank s \<longleftrightarrow> list_all is_space s"

definition validate_transition_input :: "string \<Rightarrow> string \<Rightarrow> datetime \<Rightarrow> 'a res \<Rightarrow> 'a res" where
  "validate_transition_input actor reason instant k =
     guardE (\<not> is_aware instant) (ValueError ''deployment transition timestamp must be timezone-aware'')
    (guardE (is_blank actor \<or> 256 < length actor) (ValueError ''deployment transition actor is invalid'')
    (guardE (is_blank reason \<or> 512 < length reason) (ValueError ''deployment transition reason is invalid'')
       k))"

definition require_writer :: "ledger \<Rightarrow> 'a res \<Rightarrow> 'a res" where
  "require_writer l k = guardE (ld_read_only l)
     (ValueError ''read-only deployment ledger cannot change admission state'') k"

section \<open>Admission\<close>

definition new_admission_record ::
  "verified_admission \<Rightarrow> string \<Rightarrow> string \<Rightarrow> datetime \<Rightarrow> admission_record" where
  "new_admission_record v actor reason instant =
     (let a = va_approval v
      in \<lparr>dr_deployment_id = da_deployment_id a, dr_approval_id = da_approval_id a,
          dr_admission_id = va_admission_id v, dr_authorization_id = va_admission_id v,
          dr_renewal_count = 0, dr_approval_public_key_sha256 = Some (va_public_key_sha256 v),
          dr_stage = da_stage a, dr_account_address = da_account_address a,
          dr_vault_address = da_vault_address a,
          dr_artifact_manifest_sha256 = da_artifact_manifest_sha256 a,
          dr_configuration_sha256 = da_configuration_sha256 a, dr_image_digest = da_image_digest a,
          dr_capital_limit_usd = da_capital_limit_usd a, dr_admitted_at = instant,
          dr_expires_at = da_expires_at a, dr_state = ADMISSION_ACTIVE, dr_actor = actor,
          dr_reason = reason\<rparr>)"

text \<open>\<open>model_copy(update=...)\<close> of the predecessor: no validation.\<close>

definition superseded_record :: "admission_record \<Rightarrow> string \<Rightarrow> string \<Rightarrow> string \<Rightarrow> admission_record" where
  "superseded_record p deployment actor reason =
     p\<lparr>dr_state := SUPERSEDED, dr_actor := actor,
       dr_reason := ''superseded by '' @ deployment @ '': '' @ reason\<rparr>"

definition supersede ::
  "verified_admission \<Rightarrow> string \<Rightarrow> string \<Rightarrow> datetime \<Rightarrow> ledger \<Rightarrow> ledger res" where
  "supersede v actor reason instant l =
     (let a = va_approval v; active = active_row l (da_account_address a) (da_vault_address a)
      in if da_stage a = APPROVED_CANARY
         then guardE (active \<noteq> None)
                (ValueError ''an active deployment already owns this mainnet account'') (Inr l)
         else case active of
                None \<Rightarrow> Inl (ValueError ''production admission requires its active canary predecessor'')
              | Some row \<Rightarrow> bindE (load_record row) (\<lambda>p.
                  guardE (dr_stage p \<noteq> APPROVED_CANARY \<or> Some (dr_approval_id p) \<noteq> da_prior_approval_id a
                      \<or> dr_deployment_id p \<noteq> da_rollback_deployment_id a)
                    (ValueError ''production admission does not bind the active canary'')
                  (let s = superseded_record p (da_deployment_id a) actor reason
                   in bindE (update_record s l) (\<lambda>l1.
                        Inr (insert_transition s (Some ADMISSION_ACTIVE) actor (dr_reason s) instant l1)))))"

definition admit_existing ::
  "verified_admission \<Rightarrow> admission_row \<Rightarrow> ledger \<Rightarrow> (ledger \<times> admission_record) res" where
  "admit_existing v row l =
     bindE (load_record row) (\<lambda>r.
       if dr_admission_id r = va_admission_id v \<and> dr_state r = ADMISSION_ACTIVE then Inr (l, r)
       else Inl (ValueError ''deployment or approval identity has already been consumed''))"

definition admit_transaction ::
  "verified_admission \<Rightarrow> string \<Rightarrow> string \<Rightarrow> datetime \<Rightarrow> ledger \<Rightarrow> (ledger \<times> admission_record) res" where
  "admit_transaction v actor reason instant l =
     (let a = va_approval v
      in case find (\<lambda>r. aw_approval_id r = da_approval_id a \<or> aw_deployment_id r = da_deployment_id a)
                   (ld_admissions l) of
           Some row \<Rightarrow> admit_existing v row l
         | None \<Rightarrow>
             bindE (supersede v actor reason instant l) (\<lambda>l1.
               let r = new_admission_record v actor reason instant
               in case admission_record_error r of
                    Some m \<Rightarrow> Inl (ValidationError m)
                  | None \<Rightarrow> bindE (insert_admission r l1) (\<lambda>l2.
                      Inr (insert_transition r None actor reason instant l2, r))))"

definition admit ::
  "verified_admission \<Rightarrow> string \<Rightarrow> string \<Rightarrow> datetime \<Rightarrow> ledger \<Rightarrow> ledger \<times> admission_record res" where
  "admit v actor reason instant = transact (\<lambda>l.
     require_writer l (validate_transition_input actor reason instant
       (bindE (approval_is_active (va_approval v) instant) (\<lambda>active.
          guardE (\<not> active) (ValueError ''cannot admit an inactive deployment approval'')
            (admit_transaction v actor reason instant l)))))"

section \<open>Renewal\<close>

text \<open>The values a renewal must repeat, in the order they are compared.\<close>

definition immutable_mismatch :: "verified_renewal \<Rightarrow> admission_record \<Rightarrow> string option" where
  "immutable_mismatch v c =
     (let a = vr_renewal v
      in first_error
        [(py_lower (ar_account_address a) \<noteq> py_lower (dr_account_address c), ''account_address''),
         (opt_lower (ar_vault_address a) \<noteq> opt_lower (dr_vault_address c), ''vault_address''),
         (ar_artifact_manifest_sha256 a \<noteq> dr_artifact_manifest_sha256 c, ''artifact_manifest_sha256''),
         (Some (vr_public_key_sha256 v) \<noteq> dr_approval_public_key_sha256 c, ''approval_public_key_sha256''),
         (ar_configuration_sha256 a \<noteq> dr_configuration_sha256 c, ''configuration_sha256''),
         (ar_image_digest a \<noteq> dr_image_digest c, ''image_digest''),
         (ar_capital_limit_usd a \<noteq> dr_capital_limit_usd c, ''capital_limit_usd'')])"

definition renewal_error :: "verified_renewal \<Rightarrow> datetime \<Rightarrow> admission_record \<Rightarrow> ledger \<Rightarrow> string option" where
  "renewal_error v instant c l =
     (let a = vr_renewal v
      in first_some
        [first_error
           [(dr_state c \<noteq> ADMISSION_ACTIVE, ''only an active deployment admission can be renewed''),
            (dr_stage c \<noteq> PRODUCTION, ''only production admissions can be renewed''),
            (micros (dr_expires_at c) \<le> micros instant, ''expired deployment admission cannot be renewed''),
            (ar_admission_id a \<noteq> dr_admission_id c, ''deployment renewal admission identity changed''),
            (ar_initial_approval_id a \<noteq> dr_approval_id c, ''deployment renewal initial approval changed''),
            (ar_prior_authorization_id a \<noteq> dr_authorization_id c,
             ''deployment renewal authorization chain is stale'')],
         map_option (\<lambda>f. ''deployment renewal changed immutable field: '' @ f) (immutable_mismatch v c),
         first_error
           [(micros (ar_expires_at a) \<le> micros (dr_expires_at c), ''deployment renewal does not extend expiry''),
            (micros (ar_approved_at a) < micros (dr_admitted_at c), ''deployment renewal predates admission''),
            (list_ex (\<lambda>n. nw_authorization_id n = vr_authorization_id v) (ld_renewals l),
             ''deployment renewal authorization has already been consumed'')]])"

definition renewed_record :: "verified_renewal \<Rightarrow> string \<Rightarrow> string \<Rightarrow> admission_record \<Rightarrow> admission_record" where
  "renewed_record v actor reason c =
     c\<lparr>dr_authorization_id := vr_authorization_id v, dr_renewal_count := dr_renewal_count c + 1,
       dr_expires_at := ar_expires_at (vr_renewal v), dr_actor := actor, dr_reason := reason\<rparr>"

definition renew_transaction ::
  "verified_renewal \<Rightarrow> string \<Rightarrow> string \<Rightarrow> datetime \<Rightarrow> ledger \<Rightarrow> (ledger \<times> admission_record) res" where
  "renew_transaction v actor reason instant l =
     (case deployment_row l (ar_deployment_id (vr_renewal v)) of
        None \<Rightarrow> Inl (ValueError ''deployment admission is not registered'')
      | Some row \<Rightarrow> bindE (load_record row) (\<lambda>c.
          case renewal_error v instant c l of
            Some m \<Rightarrow> Inl (ValueError m)
          | None \<Rightarrow>
              (let u = renewed_record v actor reason c
               in bindE (insert_renewal v (dr_deployment_id c) l) (\<lambda>l1.
                  bindE (update_record u l1) (\<lambda>l2.
                    Inr (insert_transition u (Some (dr_state c)) actor
                           (''authorization renewed: '' @ reason) instant l2, u))))))"

definition renew ::
  "verified_renewal \<Rightarrow> string \<Rightarrow> string \<Rightarrow> datetime \<Rightarrow> ledger \<Rightarrow> ledger \<times> admission_record res" where
  "renew v actor reason instant = transact (\<lambda>l.
     require_writer l (validate_transition_input actor reason instant
       (bindE (renewal_is_active (vr_renewal v) instant) (\<lambda>active.
          guardE (\<not> active) (ValueError ''cannot apply an inactive deployment renewal'')
            (renew_transaction v actor reason instant l)))))"

section \<open>Deactivation and reading\<close>

definition deactivate ::
  "string \<Rightarrow> admission_state \<Rightarrow> string \<Rightarrow> string \<Rightarrow> datetime \<Rightarrow> ledger \<Rightarrow> ledger \<times> admission_record res" where
  "deactivate deployment target actor reason instant = transact (\<lambda>l.
     require_writer l
       (guardE (target \<notin> set [ROLLED_BACK, REVOKED])
          (ValueError ''operator may only roll back or revoke an admission'')
       (validate_transition_input actor reason instant
       (case deployment_row l deployment of
          None \<Rightarrow> Inl (ValueError ''deployment admission is not registered'')
        | Some row \<Rightarrow> bindE (load_record row) (\<lambda>c.
            guardE (dr_state c \<noteq> ADMISSION_ACTIVE)
              (ValueError ''only an active deployment admission can be deactivated'')
            (let u = c\<lparr>dr_state := target, dr_actor := actor, dr_reason := reason\<rparr>
             in bindE (update_record u l) (\<lambda>l1.
                  Inr (insert_transition u (Some (dr_state c)) actor reason instant l1, u))))))))"

definition require_active :: "verified_admission \<Rightarrow> datetime \<Rightarrow> ledger \<Rightarrow> admission_record res" where
  "require_active v instant l =
     guardE (\<not> is_aware instant) (ValueError ''deployment admission timestamp must be timezone-aware'')
     (case deployment_row l (da_deployment_id (va_approval v)) of
        None \<Rightarrow> Inl (ValueError ''deployment has not been explicitly admitted'')
      | Some row \<Rightarrow> bindE (load_record row) (\<lambda>r.
          guardE (dr_state r \<noteq> ADMISSION_ACTIVE \<or> dr_admission_id r \<noteq> va_admission_id v
              \<or> dr_approval_id r \<noteq> da_approval_id (va_approval v)
              \<or> micros (dr_expires_at r) \<le> micros instant)
            (ValueError ''deployment admission is inactive, expired, or mismatched'') (Inr r)))"

text \<open>\<open>active\<close>, \<open>get\<close> and \<open>renewal_history\<close>; the order of the latter is by approval, then identity.\<close>

definition load_option :: "admission_row option \<Rightarrow> admission_record option res" where
  "load_option row =
     (case row of None \<Rightarrow> Inr None | Some r \<Rightarrow> bindE (load_record r) (\<lambda>x. Inr (Some x)))"

definition active_admission :: "ledger \<Rightarrow> admission_record option res" where
  "active_admission l = load_option (find (\<lambda>r. aw_state r = ADMISSION_ACTIVE) (ld_admissions l))"

definition get_admission :: "string \<Rightarrow> ledger \<Rightarrow> admission_record option res" where
  "get_admission deployment l = load_option (deployment_row l deployment)"

section \<open>The admission guard\<close>

fun is_sql_error :: "py_error \<Rightarrow> bool" where
  "is_sql_error (IntegrityError _) = True"
| "is_sql_error _ = False"

definition guard_active_record :: "verified_admission \<Rightarrow> datetime \<Rightarrow> ledger \<Rightarrow> admission_record option res" where
  "guard_active_record v instant l =
     (case require_active v instant l of
        Inr r \<Rightarrow> Inr (Some r)
      | Inl e \<Rightarrow> if is_value_error e \<or> is_sql_error e then Inr None else Inl e)"

definition guard_is_active :: "verified_admission \<Rightarrow> datetime \<Rightarrow> ledger \<Rightarrow> bool res" where
  "guard_is_active v instant l = bindE (guard_active_record v instant l) (\<lambda>r. Inr (r \<noteq> None))"

definition guard_expires_at :: "verified_admission \<Rightarrow> ledger \<Rightarrow> datetime" where
  "guard_expires_at v l =
     (case get_admission (da_deployment_id (va_approval v)) l of
        Inr (Some r) \<Rightarrow> dr_expires_at r | _ \<Rightarrow> da_expires_at (va_approval v))"


section \<open>Consistency of the ledger\<close>

definition row_synced :: "admission_row \<Rightarrow> bool" where
  "row_synced r \<longleftrightarrow>
     (let d = aw_record r
      in aw_deployment_id r = dr_deployment_id d \<and> aw_approval_id r = dr_approval_id d
       \<and> aw_admission_id r = dr_admission_id d \<and> aw_authorization_id r = dr_authorization_id d
       \<and> aw_renewal_count r = dr_renewal_count d \<and> aw_stage r = dr_stage d
       \<and> row_key r = account_key (dr_account_address d) (dr_vault_address d)
       \<and> aw_state r = dr_state d \<and> aw_expires_at r = dr_expires_at d)"

text \<open>The state a deployment's transitions lead to, when each starts where the last one ended, the
  first one activates, and only an active deployment moves.\<close>

fun follow :: "admission_state option \<Rightarrow> transition_row list \<Rightarrow> admission_state option option" where
  "follow s [] = Some s"
| "follow s (t # ts) =
     (if tw_previous_state t = s
         \<and> (case s of None \<Rightarrow> tw_next_state t = ADMISSION_ACTIVE | Some x \<Rightarrow> x = ADMISSION_ACTIVE)
      then follow (Some (tw_next_state t)) ts else None)"

definition history :: "ledger \<Rightarrow> string \<Rightarrow> transition_row list" where
  "history l d = filter (\<lambda>t. tw_deployment_id t = d) (ld_transitions l)"

definition renewals_of :: "ledger \<Rightarrow> string \<Rightarrow> renewal_row list" where
  "renewals_of l d = filter (\<lambda>n. nw_deployment_id n = d) (ld_renewals l)"

text \<open>The authorization a chain of renewals ends in, when each names the one before it.\<close>

fun authorization_chain :: "string \<Rightarrow> renewal_row list \<Rightarrow> string option" where
  "authorization_chain a [] = Some a"
| "authorization_chain a (n # ns) =
     (if nw_prior_authorization_id n = a then authorization_chain (nw_authorization_id n) ns else None)"

definition renewals_consistent :: "ledger \<Rightarrow> string \<Rightarrow> bool" where
  "renewals_consistent l d \<longleftrightarrow>
     (case deployment_row l d of
        None \<Rightarrow> renewals_of l d = []
      | Some r \<Rightarrow> authorization_chain (aw_admission_id r) (renewals_of l d) = Some (aw_authorization_id r)
              \<and> aw_renewal_count r = int (length (renewals_of l d)))"

definition succeeded_canary :: "ledger \<Rightarrow> admission_row \<Rightarrow> bool" where
  "succeeded_canary l r \<longleftrightarrow>
     (\<exists>c \<in> set (ld_admissions l). aw_stage c = APPROVED_CANARY \<and> aw_state c = SUPERSEDED \<and> row_key c = row_key r)"

definition ledger_inv :: "ledger \<Rightarrow> bool" where
  "ledger_inv l \<longleftrightarrow>
     rows_unique (ld_admissions l) \<and> (\<forall>r \<in> set (ld_admissions l). row_synced r)
   \<and> (\<forall>d. follow None (history l d) = Some (map_option aw_state (deployment_row l d)))
   \<and> (\<forall>d. renewals_consistent l d)
   \<and> (\<forall>r \<in> set (ld_admissions l). aw_stage r \<noteq> APPROVED_CANARY \<longrightarrow> succeeded_canary l r)"

lemma follow_append:
  "follow s (xs @ [t]) =
     (case follow s xs of None \<Rightarrow> None | Some s' \<Rightarrow> follow s' [t])"
  by (induction s xs rule: follow.induct) auto

lemma authorization_chain_append:
  "authorization_chain a (xs @ [n]) =
     (case authorization_chain a xs of None \<Rightarrow> None | Some b \<Rightarrow> authorization_chain b [n])"
  by (induction a xs rule: authorization_chain.induct) auto

lemma row_conflict_sym: "row_conflict r s = row_conflict s r"
  by (auto simp: row_conflict_def)

lemma rows_unique_append:
  "rows_unique (rs @ [r]) \<longleftrightarrow> rows_unique rs \<and> \<not> list_ex (row_conflict r) rs"
  by (induction rs) (auto simp: row_conflict_sym)

lemma rows_unique_eq:
  assumes "rows_unique rs" "r \<in> set rs" "s \<in> set rs" "row_conflict r s"
  shows "r = s"
  using assms by (induction rs) (auto simp: list_ex_iff row_conflict_sym)

lemma deployment_row_Some: "deployment_row l d = Some r \<Longrightarrow> r \<in> set (ld_admissions l) \<and> aw_deployment_id r = d"
  unfolding deployment_row_def by (rule find_Some_in)

lemma deployment_row_unique:
  assumes "rows_unique (ld_admissions l)" "r \<in> set (ld_admissions l)"
  shows "deployment_row l (aw_deployment_id r) = Some r"
proof (cases "deployment_row l (aw_deployment_id r)")
  case None
  then show ?thesis using assms(2) by (auto simp: deployment_row_def find_None_iff)
next
  case (Some s)
  from deployment_row_Some [OF Some] assms show ?thesis
    using rows_unique_eq [of "ld_admissions l" s r] Some by (auto simp: row_conflict_def)
qed

lemma write_columns_id [simp]: "aw_deployment_id (write_columns u r) = aw_deployment_id r"
  "aw_approval_id (write_columns u r) = aw_approval_id r" "aw_admission_id (write_columns u r) = aw_admission_id r"
  "aw_stage (write_columns u r) = aw_stage r" "row_key (write_columns u r) = row_key r"
  by (simp_all add: write_columns_def row_key_def)

lemma find_append:
  "find P (xs @ ys) = (case find P xs of None \<Rightarrow> find P ys | Some x \<Rightarrow> Some x)"
  by (induction xs) auto

lemma find_map: "find P (map f xs) = map_option f (find (P \<circ> f) xs)"
  by (induction xs) auto

section \<open>The two changes of the tables\<close>

text \<open>What a record may never change once it is admitted.\<close>

definition same_binding :: "admission_record \<Rightarrow> admission_record \<Rightarrow> bool" where
  "same_binding r s \<longleftrightarrow>
     dr_deployment_id s = dr_deployment_id r \<and> dr_approval_id s = dr_approval_id r
   \<and> dr_admission_id s = dr_admission_id r \<and> dr_stage s = dr_stage r
   \<and> dr_account_address s = dr_account_address r \<and> dr_vault_address s = dr_vault_address r
   \<and> dr_artifact_manifest_sha256 s = dr_artifact_manifest_sha256 r
   \<and> dr_configuration_sha256 s = dr_configuration_sha256 r \<and> dr_image_digest s = dr_image_digest r
   \<and> dr_capital_limit_usd s = dr_capital_limit_usd r
   \<and> dr_approval_public_key_sha256 s = dr_approval_public_key_sha256 r
   \<and> dr_admitted_at s = dr_admitted_at r"

text \<open>An active row is rewritten, with at most one renewal that continues its chain.\<close>

definition row_update ::
  "admission_row \<Rightarrow> admission_record \<Rightarrow> renewal_row list \<Rightarrow> ledger \<Rightarrow> ledger \<Rightarrow> bool" where
  "row_update row u new l l' \<longleftrightarrow>
     deployment_row l (dr_deployment_id u) = Some row \<and> aw_state row = ADMISSION_ACTIVE
   \<and> same_binding (aw_record row) u \<and> micros (dr_expires_at (aw_record row)) \<le> micros (dr_expires_at u)
   \<and> dr_renewal_count u = aw_renewal_count row + int (length new)
   \<and> (new = [] \<and> dr_authorization_id u = aw_authorization_id row
      \<or> (\<exists>n. new = [n] \<and> nw_deployment_id n = dr_deployment_id u
            \<and> nw_prior_authorization_id n = aw_authorization_id row
            \<and> nw_authorization_id n = dr_authorization_id u))
   \<and> rows_unique (ld_admissions l') \<and> ld_admissions l' = map (write_columns u) (ld_admissions l)
   \<and> (\<exists>t. ld_transitions l' = ld_transitions l @ [t] \<and> tw_deployment_id t = dr_deployment_id u
        \<and> tw_previous_state t = Some ADMISSION_ACTIVE \<and> tw_next_state t = dr_state u)
   \<and> ld_renewals l' = ld_renewals l @ new \<and> ld_read_only l' = ld_read_only l"

text \<open>An active row of a new deployment is added, after its canary when it is a production.\<close>

definition row_insert :: "admission_record \<Rightarrow> ledger \<Rightarrow> ledger \<Rightarrow> bool" where
  "row_insert r l l' \<longleftrightarrow>
     insert_admission r l = Inr (l'\<lparr>ld_transitions := ld_transitions l\<rparr>)
   \<and> deployment_row l (dr_deployment_id r) = None \<and> dr_state r = ADMISSION_ACTIVE
   \<and> dr_renewal_count r = 0 \<and> dr_authorization_id r = dr_admission_id r
   \<and> (dr_stage r \<noteq> APPROVED_CANARY \<longrightarrow>
        (\<exists>c \<in> set (ld_admissions l). aw_stage c = APPROVED_CANARY \<and> aw_state c = SUPERSEDED
            \<and> row_key c = account_key (dr_account_address r) (dr_vault_address r)))
   \<and> (\<exists>t. ld_transitions l' = ld_transitions l @ [t] \<and> tw_deployment_id t = dr_deployment_id r
        \<and> tw_previous_state t = None \<and> tw_next_state t = ADMISSION_ACTIVE)
   \<and> ld_read_only l' = ld_read_only l"

lemma deployment_row_update:
  "ld_admissions l' = map (write_columns u) (ld_admissions l) \<Longrightarrow>
     deployment_row l' d = map_option (write_columns u) (deployment_row l d)"
  by (simp add: deployment_row_def find_map comp_def)

lemma write_columns_other: "aw_deployment_id r \<noteq> dr_deployment_id u \<Longrightarrow> write_columns u r = r"
  by (simp add: write_columns_def)

lemma write_columns_own:
  "aw_deployment_id r = dr_deployment_id u \<Longrightarrow>
     aw_state (write_columns u r) = dr_state u \<and> aw_authorization_id (write_columns u r) = dr_authorization_id u
   \<and> aw_renewal_count (write_columns u r) = dr_renewal_count u \<and> aw_record (write_columns u r) = u
   \<and> aw_expires_at (write_columns u r) = dr_expires_at u"
  by (simp add: write_columns_def)


lemma row_update_facts:
  assumes "ledger_inv l" "row_update row u new l l'"
  shows "row \<in> set (ld_admissions l)" "aw_deployment_id row = dr_deployment_id u" "row_synced row"
    "\<And>r. r \<in> set (ld_admissions l) \<Longrightarrow> r \<noteq> row \<Longrightarrow> write_columns u r = r"
proof -
  have row: "deployment_row l (dr_deployment_id u) = Some row" using assms(2) by (simp add: row_update_def)
  from deployment_row_Some [OF row] show in_row: "row \<in> set (ld_admissions l)"
    and dep: "aw_deployment_id row = dr_deployment_id u" by auto
  show "row_synced row" using assms(1) in_row by (simp add: ledger_inv_def)
  fix r assume r: "r \<in> set (ld_admissions l)" "r \<noteq> row"
  have "aw_deployment_id r \<noteq> dr_deployment_id u"
    using deployment_row_unique [of l r] assms(1) r row by (auto simp: ledger_inv_def)
  then show "write_columns u r = r" by (rule write_columns_other)
qed

lemma row_update_synced:
  assumes "row_synced row" "same_binding (aw_record row) u" "aw_deployment_id row = dr_deployment_id u"
  shows "row_synced (write_columns u row)"
  using assms write_columns_own [OF assms(3)]
  by (simp add: row_synced_def same_binding_def Let_def)

lemma row_update_inv:
  assumes inv: "ledger_inv l" and upd: "row_update row u new l l'"
  shows "ledger_inv l'"
  unfolding ledger_inv_def
proof (intro conjI ballI allI impI)
  note facts = row_update_facts [OF inv upd]
  let ?d = "dr_deployment_id u"
  have rows: "ld_admissions l' = map (write_columns u) (ld_admissions l)"
    using upd by (simp add: row_update_def)
  have own: "deployment_row l ?d = Some row" using upd by (simp add: row_update_def)
  note dep = deployment_row_update [of l' u l, OF rows]
  note written = write_columns_own [OF facts(2)]
  have other: "deployment_row l' d = deployment_row l d" if "d \<noteq> ?d" for d
    using that deployment_row_Some [of l d] by (cases "deployment_row l d") (auto simp: dep write_columns_other)
  show "rows_unique (ld_admissions l')" using upd unfolding row_update_def by blast
  show "row_synced r'" if "r' \<in> set (ld_admissions l')" for r'
  proof -
    obtain r where r: "r' = write_columns u r" "r \<in> set (ld_admissions l)" using \<open>r' \<in> _\<close> rows by auto
    show ?thesis
    proof (cases "r = row")
      case True
      then show ?thesis using row_update_synced [OF facts(3) _ facts(2)] upd r by (simp add: row_update_def)
    next
      case False
      then show ?thesis using facts(4) [OF r(2)] r inv by (simp add: ledger_inv_def)
    qed
  qed
  show "follow None (history l' d) = Some (map_option aw_state (deployment_row l' d))" for d
  proof -
    obtain t where t: "ld_transitions l' = ld_transitions l @ [t]" "tw_deployment_id t = ?d"
      "tw_previous_state t = Some ADMISSION_ACTIVE" "tw_next_state t = dr_state u"
      using upd by (auto simp: row_update_def)
    have "follow None (history l d) = Some (map_option aw_state (deployment_row l d))"
      using inv by (simp add: ledger_inv_def)
    then show ?thesis
      using t own other [of d] written upd
      by (cases "d = ?d") (simp_all add: history_def follow_append dep row_update_def)
  qed
  show "renewals_consistent l' d" for d
  proof -
    have ren: "renewals_of l' d = renewals_of l d @ filter (\<lambda>n. nw_deployment_id n = d) new"
      using upd by (simp add: row_update_def renewals_of_def)
    have old: "renewals_consistent l d" using inv by (simp add: ledger_inv_def)
    show ?thesis
    proof (cases "d = ?d")
      case True
      with old own have "authorization_chain (aw_admission_id row) (renewals_of l ?d) = Some (aw_authorization_id row)"
        "aw_renewal_count row = int (length (renewals_of l ?d))" by (simp_all add: renewals_consistent_def)
      with True upd ren written own show ?thesis
        by (auto simp: row_update_def renewals_consistent_def dep authorization_chain_append)
    next
      case False
      then have "filter (\<lambda>n. nw_deployment_id n = d) new = []" using upd by (auto simp: row_update_def)
      with False ren old other [of d] show ?thesis by (simp add: renewals_consistent_def split: option.splits)
    qed
  qed
  show "succeeded_canary l' r'" if mem: "r' \<in> set (ld_admissions l')" and stage: "aw_stage r' \<noteq> APPROVED_CANARY" for r'
  proof -
    obtain r where r: "r' = write_columns u r" "r \<in> set (ld_admissions l)" using mem rows by auto
    then obtain c where c: "c \<in> set (ld_admissions l)" "aw_stage c = APPROVED_CANARY"
      "aw_state c = SUPERSEDED" "row_key c = row_key r"
      using inv stage by (auto simp: ledger_inv_def succeeded_canary_def)
    have "c \<noteq> row" using c(3) upd by (auto simp: row_update_def)
    then have "write_columns u c = c" by (rule facts(4) [OF c(1)])
    then have "c \<in> set (ld_admissions l')" using c(1) rows by (metis in_set_conv_nth length_map nth_map)
    then show ?thesis using c r by (auto simp: succeeded_canary_def)
  qed
qed

lemma row_insert_facts:
  assumes "row_insert r l l'"
  obtains row where "ld_admissions l' = ld_admissions l @ [row]" "row_synced row" "aw_record row = r"
    "\<not> list_ex (row_conflict row) (ld_admissions l)" "ld_renewals l' = ld_renewals l"
    "deployment_row l (aw_deployment_id row) = None"
proof -
  let ?row = "\<lparr>aw_deployment_id = dr_deployment_id r, aw_approval_id = dr_approval_id r,
     aw_admission_id = dr_admission_id r, aw_authorization_id = dr_authorization_id r,
     aw_renewal_count = dr_renewal_count r, aw_stage = dr_stage r,
     aw_account_address = py_lower (dr_account_address r),
     aw_vault_address = opt_lower (dr_vault_address r), aw_state = dr_state r,
     aw_expires_at = dr_expires_at r, aw_record = r\<rparr>"
  have l': "l'\<lparr>ld_transitions := ld_transitions l\<rparr> = l\<lparr>ld_admissions := ld_admissions l @ [?row]\<rparr>"
    and free: "\<not> list_ex (row_conflict ?row) (ld_admissions l)"
    using assms by (auto simp: row_insert_def insert_admission_def Let_def res_simps)
  have "ld_admissions l' = ld_admissions l @ [?row]" "ld_renewals l' = ld_renewals l"
    using arg_cong [OF l', of ld_admissions] arg_cong [OF l', of ld_renewals] by simp_all
  moreover have "row_synced ?row"
    by (simp add: row_synced_def row_key_def account_key_def opt_lower_def split: option.splits)
  ultimately show thesis using that free assms by (simp add: row_insert_def)
qed

lemma row_insert_inv:
  assumes inv: "ledger_inv l" and ins: "row_insert r l l'"
  shows "ledger_inv l'"
proof -
  obtain row where row: "ld_admissions l' = ld_admissions l @ [row]" "row_synced row" "aw_record row = r"
    "\<not> list_ex (row_conflict row) (ld_admissions l)" "ld_renewals l' = ld_renewals l"
    "deployment_row l (aw_deployment_id row) = None"
    using row_insert_facts [OF ins] .
  obtain t where t: "ld_transitions l' = ld_transitions l @ [t]" "tw_deployment_id t = aw_deployment_id row"
    "tw_previous_state t = None" "tw_next_state t = ADMISSION_ACTIVE"
    using ins row(2,3) by (auto simp: row_insert_def row_synced_def Let_def)
  have fields: "aw_state row = ADMISSION_ACTIVE" "aw_renewal_count row = 0"
    "aw_authorization_id row = aw_admission_id row" "aw_stage row = dr_stage r"
    "row_key row = account_key (dr_account_address r) (dr_vault_address r)"
    using ins row(2,3) by (auto simp: row_insert_def row_synced_def Let_def)
  have dep: "deployment_row l' d = (if d = aw_deployment_id row then Some row else deployment_row l d)" for d
    using row(6) by (auto simp: deployment_row_def row(1) find_append split: option.splits)
  have keep: "succeeded_canary l' s" if "succeeded_canary l s" for s
    using that by (auto simp: succeeded_canary_def row(1))
  show ?thesis
    unfolding ledger_inv_def
  proof (intro conjI ballI allI impI)
    show "rows_unique (ld_admissions l')"
      using inv row by (simp add: ledger_inv_def rows_unique_append)
    show "row_synced s" if "s \<in> set (ld_admissions l')" for s
      using that inv row by (auto simp: ledger_inv_def)
    show "follow None (history l' d) = Some (map_option aw_state (deployment_row l' d))" for d
    proof -
      have "follow None (history l d) = Some (map_option aw_state (deployment_row l d))"
        using inv by (simp add: ledger_inv_def)
      then show ?thesis using t row(6) fields dep [of d]
        by (cases "d = aw_deployment_id row") (simp_all add: history_def follow_append)
    qed
    show "renewals_consistent l' d" for d
    proof -
      have "renewals_consistent l d" using inv by (simp add: ledger_inv_def)
      moreover have "renewals_of l' d = renewals_of l d" by (simp add: renewals_of_def row(5))
      ultimately show ?thesis using row(6) fields dep [of d]
        by (cases "d = aw_deployment_id row") (simp_all add: renewals_consistent_def split: option.splits)
    qed
    show "succeeded_canary l' s" if "s \<in> set (ld_admissions l')" "aw_stage s \<noteq> APPROVED_CANARY" for s
      using that inv row(1) fields ins keep
      by (cases "s = row") (auto simp: ledger_inv_def row_insert_def succeeded_canary_def)
  qed
qed


section \<open>What a change keeps\<close>

definition row_succ :: "admission_row \<Rightarrow> admission_row \<Rightarrow> bool" where
  "row_succ r r' \<longleftrightarrow>
     same_binding (aw_record r) (aw_record r')
   \<and> micros (dr_expires_at (aw_record r)) \<le> micros (dr_expires_at (aw_record r'))
   \<and> aw_renewal_count r \<le> aw_renewal_count r' \<and> (aw_state r \<noteq> ADMISSION_ACTIVE \<longrightarrow> r' = r)"

definition ledger_rel :: "ledger \<Rightarrow> ledger \<Rightarrow> bool" where
  "ledger_rel l l' \<longleftrightarrow>
     (\<forall>d r. deployment_row l d = Some r \<longrightarrow> (\<exists>r'. deployment_row l' d = Some r' \<and> row_succ r r'))
   \<and> (\<exists>ts. ld_transitions l' = ld_transitions l @ ts) \<and> (\<exists>ns. ld_renewals l' = ld_renewals l @ ns)"

lemma same_binding_refl: "same_binding r r"
  by (simp add: same_binding_def)

lemma row_succ_refl: "row_succ r r"
  by (simp add: row_succ_def same_binding_refl)

lemma same_binding_trans: "same_binding r s \<Longrightarrow> same_binding s t \<Longrightarrow> same_binding r t"
  by (simp add: same_binding_def)

lemma row_succ_trans: "row_succ r s \<Longrightarrow> row_succ s t \<Longrightarrow> row_succ r t"
  unfolding row_succ_def using same_binding_trans [of "aw_record r" "aw_record s" "aw_record t"]
  by (metis order_trans)

lemma ledger_rel_refl: "ledger_rel l l"
  by (auto simp: ledger_rel_def row_succ_refl)

lemma ledger_rel_trans:
  assumes "ledger_rel l m" "ledger_rel m n"
  shows "ledger_rel l n"
  unfolding ledger_rel_def
proof (intro conjI allI impI)
  fix d r assume "deployment_row l d = Some r"
  then obtain s where "deployment_row m d = Some s" "row_succ r s" using assms(1) by (auto simp: ledger_rel_def)
  moreover from this obtain t where "deployment_row n d = Some t" "row_succ s t"
    using assms(2) by (auto simp: ledger_rel_def)
  ultimately show "\<exists>r'. deployment_row n d = Some r' \<and> row_succ r r'" using row_succ_trans by blast
qed (use assms in \<open>auto simp: ledger_rel_def\<close>)

lemma row_update_rel:
  assumes inv: "ledger_inv l" and upd: "row_update row u new l l'"
  shows "ledger_rel l l'"
  unfolding ledger_rel_def
proof (intro conjI allI impI)
  note facts = row_update_facts [OF inv upd]
  fix d r assume r: "deployment_row l d = Some r"
  have dep: "deployment_row l' d = Some (write_columns u r)"
    using r upd by (simp add: deployment_row_update row_update_def)
  have "row_succ r (write_columns u r)"
  proof (cases "r = row")
    case True
    with facts upd write_columns_own [OF facts(2)] show ?thesis
      by (simp add: row_succ_def row_update_def)
  next
    case False
    then have "write_columns u r = r" using facts(4) deployment_row_Some [OF r] by simp
    then show ?thesis by (simp add: row_succ_refl)
  qed
  with dep show "\<exists>r'. deployment_row l' d = Some r' \<and> row_succ r r'" by blast
qed (use upd in \<open>auto simp: row_update_def\<close>)

lemma row_insert_rel:
  assumes ins: "row_insert r l l'"
  shows "ledger_rel l l'"
proof -
  obtain row where row: "ld_admissions l' = ld_admissions l @ [row]" "ld_renewals l' = ld_renewals l"
    using row_insert_facts [OF ins] by metis
  have "deployment_row l' d = Some s" if "deployment_row l d = Some s" for d s
    using that by (simp add: deployment_row_def row(1) find_append)
  then show ?thesis using ins row(2) by (auto simp: ledger_rel_def row_insert_def row_succ_refl)
qed

text \<open>The steps of a successful call.\<close>

inductive ledger_change :: "ledger \<Rightarrow> ledger \<Rightarrow> bool" where
  unchanged: "ledger_change l l"
| updated: "ledger_change l m \<Longrightarrow> row_update row u new m n \<Longrightarrow> ledger_change l n"
| inserted: "ledger_change l m \<Longrightarrow> row_insert r m n \<Longrightarrow> ledger_change l n"

lemma ledger_change_keeps: "ledger_change l m \<Longrightarrow> ledger_inv l \<Longrightarrow> ledger_inv m \<and> ledger_rel l m"
proof (induction rule: ledger_change.induct)
  case (updated l m row u new n)
  then show ?case using row_update_inv row_update_rel ledger_rel_trans by blast
next
  case (inserted l m r n)
  then show ?case using row_insert_inv row_insert_rel ledger_rel_trans by blast
qed (simp add: ledger_rel_refl)

lemma transact_keeps:
  assumes "\<And>l' x. f l = Inr (l', x) \<Longrightarrow> ledger_change l l'"
  shows "ledger_change l (fst (transact f l))"
  using assms by (auto simp: transact_def ledger_change.unchanged split: sum.splits)

lemma load_record_Inr [res_simps]: "load_record r = Inr c \<longleftrightarrow> admission_record_ok (aw_record r) \<and> c = aw_record r"
  by (auto simp: load_record_def admission_record_ok_def split: option.splits)

lemma require_writer_Inr [res_simps]: "require_writer l k = Inr x \<longleftrightarrow> \<not> ld_read_only l \<and> k = Inr x"
  by (simp add: require_writer_def res_simps)

lemma validate_input_Inr [res_simps]:
  "validate_transition_input actor reason instant k = Inr x \<longleftrightarrow>
     is_aware instant \<and> \<not> is_blank actor \<and> length actor \<le> 256 \<and> \<not> is_blank reason
   \<and> length reason \<le> 512 \<and> k = Inr x"
  by (auto simp: validate_transition_input_def res_simps)

lemma update_record_Inr [res_simps]:
  "update_record u l = Inr m \<longleftrightarrow>
     rows_unique (map (write_columns u) (ld_admissions l))
   \<and> m = l\<lparr>ld_admissions := map (write_columns u) (ld_admissions l)\<rparr>"
  by (auto simp: update_record_def Let_def res_simps)

lemma insert_transition_simps [simp]:
  "ld_admissions (insert_transition r p a w i l) = ld_admissions l"
  "ld_renewals (insert_transition r p a w i l) = ld_renewals l"
  "ld_read_only (insert_transition r p a w i l) = ld_read_only l"
  by (simp_all add: insert_transition_def)

lemma simple_update:
  assumes inv: "ledger_inv l" and row: "row \<in> set (ld_admissions l)" and active: "aw_state row = ADMISSION_ACTIVE"
    and u: "u = (aw_record row)\<lparr>dr_state := s, dr_actor := actor, dr_reason := reason\<rparr>"
    and upd: "update_record u l = Inr m"
  shows "row_update row u [] l (insert_transition u (Some ADMISSION_ACTIVE) actor why instant m)"
proof -
  have sync: "row_synced row" and own: "deployment_row l (aw_deployment_id row) = Some row"
    using inv row deployment_row_unique [of l row] by (simp_all add: ledger_inv_def)
  then show ?thesis
    using active upd by (simp add: row_update_def u res_simps same_binding_def row_synced_def Let_def
        insert_transition_def)
qed

lemma deactivate_change:
  assumes "ledger_inv l"
  shows "ledger_change l (fst (deactivate d target actor reason instant l))"
  unfolding deactivate_def
proof (rule transact_keeps)
  fix l' x
  assume ok: "require_writer l (guardE (target \<notin> set [ROLLED_BACK, REVOKED])
      (ValueError ''operator may only roll back or revoke an admission'')
      (validate_transition_input actor reason instant
       (case deployment_row l d of
          None \<Rightarrow> Inl (ValueError ''deployment admission is not registered'')
        | Some row \<Rightarrow> bindE (load_record row) (\<lambda>c.
            guardE (dr_state c \<noteq> ADMISSION_ACTIVE)
              (ValueError ''only an active deployment admission can be deactivated'')
            (let u = c\<lparr>dr_state := target, dr_actor := actor, dr_reason := reason\<rparr>
             in bindE (update_record u l) (\<lambda>l1.
                  Inr (insert_transition u (Some (dr_state c)) actor reason instant l1, u))))))) = Inr (l', x)"
  then obtain row l1 where row: "deployment_row l d = Some row" "dr_state (aw_record row) = ADMISSION_ACTIVE"
    and upd: "update_record ((aw_record row)\<lparr>dr_state := target, dr_actor := actor, dr_reason := reason\<rparr>) l = Inr l1"
    and l': "l' = insert_transition ((aw_record row)\<lparr>dr_state := target, dr_actor := actor, dr_reason := reason\<rparr>)
      (Some ADMISSION_ACTIVE) actor reason instant l1"
    by (auto simp: res_simps Let_def split: option.splits)
  have "row \<in> set (ld_admissions l)" using deployment_row_Some [OF row(1)] by simp
  moreover from this assms row have "aw_state row = ADMISSION_ACTIVE"
    by (auto simp: ledger_inv_def row_synced_def Let_def)
  ultimately have "row_update row ((aw_record row)\<lparr>dr_state := target, dr_actor := actor, dr_reason := reason\<rparr>) [] l l'"
    unfolding l' using assms upd by (intro simple_update) auto
  then show "ledger_change l l'" by (rule ledger_change.updated [OF ledger_change.unchanged])
qed


lemma renew_update:
  assumes inv: "ledger_inv l" and row: "deployment_row l (ar_deployment_id (vr_renewal v)) = Some row"
    and none: "renewal_error v instant (aw_record row) l = None"
    and ins: "insert_renewal v (dr_deployment_id (aw_record row)) l = Inr l1"
    and upd: "update_record (renewed_record v actor reason (aw_record row)) l1 = Inr l2"
  shows "\<exists>n. row_update row (renewed_record v actor reason (aw_record row)) [n] l
     (insert_transition (renewed_record v actor reason (aw_record row)) (Some (dr_state (aw_record row)))
        actor why instant l2)"
proof -
  let ?u = "renewed_record v actor reason (aw_record row)"
  have in_row: "row \<in> set (ld_admissions l)" using deployment_row_Some [OF row] by simp
  then have sync: "row_synced row" and own: "deployment_row l (aw_deployment_id row) = Some row"
    using inv deployment_row_unique [of l row] by (simp_all add: ledger_inv_def)
  have e: "dr_state (aw_record row) = ADMISSION_ACTIVE"
    "ar_prior_authorization_id (vr_renewal v) = dr_authorization_id (aw_record row)"
    "micros (dr_expires_at (aw_record row)) < micros (ar_expires_at (vr_renewal v))"
    using none by (auto simp: renewal_error_def Let_def split: option.splits)
  obtain n where l1: "l1 = l\<lparr>ld_renewals := ld_renewals l @ [n]\<rparr>"
    and n: "nw_authorization_id n = vr_authorization_id v" "nw_deployment_id n = dr_deployment_id (aw_record row)"
      "nw_prior_authorization_id n = ar_prior_authorization_id (vr_renewal v)"
    using ins by (auto simp: insert_renewal_def Let_def res_simps)
  have "row_update row ?u [n] l (insert_transition ?u (Some (dr_state (aw_record row))) actor why instant l2)"
    using sync own e n upd
    by (simp add: row_update_def l1 res_simps renewed_record_def same_binding_def row_synced_def Let_def
        insert_transition_def)
  then show ?thesis by blast
qed

lemma renew_change:
  assumes "ledger_inv l"
  shows "ledger_change l (fst (renew v actor reason instant l))"
  unfolding renew_def
proof (rule transact_keeps)
  fix l' x
  assume "require_writer l (validate_transition_input actor reason instant
       (bindE (renewal_is_active (vr_renewal v) instant) (\<lambda>active.
          guardE (\<not> active) (ValueError ''cannot apply an inactive deployment renewal'')
            (renew_transaction v actor reason instant l)))) = Inr (l', x)"
  then have "renew_transaction v actor reason instant l = Inr (l', x)" by (auto simp: res_simps)
  then obtain row l1 l2 where row: "deployment_row l (ar_deployment_id (vr_renewal v)) = Some row"
    "renewal_error v instant (aw_record row) l = None"
    "insert_renewal v (dr_deployment_id (aw_record row)) l = Inr l1"
    "update_record (renewed_record v actor reason (aw_record row)) l1 = Inr l2"
    and l': "l' = insert_transition (renewed_record v actor reason (aw_record row))
       (Some (dr_state (aw_record row))) actor (''authorization renewed: '' @ reason) instant l2"
    by (auto simp: renew_transaction_def bindE_eq_Inr_iff load_record_Inr Let_def split: option.splits)
  from renew_update [OF assms row] l' obtain n where
    "row_update row (renewed_record v actor reason (aw_record row)) [n] l l'" by blast
  then show "ledger_change l l'" by (rule ledger_change.updated [OF ledger_change.unchanged])
qed

lemma supersede_change:
  assumes inv: "ledger_inv l" and ok: "supersede v actor reason instant l = Inr m"
  shows "ledger_change l m \<and> ld_read_only m = ld_read_only l
     \<and> (\<forall>d. deployment_row l d = None \<longrightarrow> deployment_row m d = None)
     \<and> (da_stage (va_approval v) \<noteq> APPROVED_CANARY \<longrightarrow>
          (\<exists>c \<in> set (ld_admissions m). aw_stage c = APPROVED_CANARY \<and> aw_state c = SUPERSEDED
             \<and> row_key c = account_key (da_account_address (va_approval v)) (da_vault_address (va_approval v))))"
proof (cases "da_stage (va_approval v) = APPROVED_CANARY")
  case True
  then show ?thesis using ok by (simp add: supersede_def Let_def res_simps ledger_change.unchanged)
next
  case False
  let ?a = "va_approval v"
  let ?s = "\<lambda>row. superseded_record (aw_record row) (da_deployment_id ?a) actor reason"
  from ok False obtain row m1 where row: "active_row l (da_account_address ?a) (da_vault_address ?a) = Some row"
    "dr_stage (aw_record row) = APPROVED_CANARY" "update_record (?s row) l = Inr m1"
    and m: "m = insert_transition (?s row) (Some ADMISSION_ACTIVE) actor (dr_reason (?s row)) instant m1"
    by (auto simp: supersede_def Let_def bindE_eq_Inr_iff load_record_Inr guardE_eq_Inr_iff split: option.splits)
  have r: "row \<in> set (ld_admissions l)" "aw_state row = ADMISSION_ACTIVE"
    "row_key row = account_key (da_account_address ?a) (da_vault_address ?a)"
    using row(1) find_Some_in unfolding active_row_def by fast+
  have sync: "row_synced row" using inv r(1) by (simp add: ledger_inv_def)
  have upd: "row_update row (?s row) [] l m"
    unfolding m using inv r(1,2) _ row(3) by (rule simple_update) (simp add: superseded_record_def)
  have rows: "ld_admissions m = map (write_columns (?s row)) (ld_admissions l)"
    using upd by (simp add: row_update_def)
  let ?c = "write_columns (?s row) row"
  have "aw_deployment_id row = dr_deployment_id (?s row)"
    using sync by (simp add: row_synced_def Let_def superseded_record_def)
  from write_columns_own [OF this] have "aw_state ?c = SUPERSEDED" by (simp add: superseded_record_def)
  moreover have "?c \<in> set (ld_admissions m)" using rows r(1) by simp
  moreover have "aw_stage ?c = APPROVED_CANARY" using sync row(2) by (simp add: row_synced_def Let_def)
  moreover have "row_key ?c = account_key (da_account_address ?a) (da_vault_address ?a)" using r(3) by simp
  ultimately have "\<exists>c \<in> set (ld_admissions m). aw_stage c = APPROVED_CANARY \<and> aw_state c = SUPERSEDED
     \<and> row_key c = account_key (da_account_address ?a) (da_vault_address ?a)" by blast
  moreover have "ld_read_only m = ld_read_only l" using upd by (simp add: row_update_def)
  ultimately show ?thesis
    using ledger_change.updated [OF ledger_change.unchanged upd] deployment_row_update [OF rows] by simp
qed

lemma admit_transaction_change:
  assumes inv: "ledger_inv l" and ok: "admit_transaction v actor reason instant l = Inr (l', x)"
  shows "ledger_change l l'"
proof (cases "find (\<lambda>r. aw_approval_id r = da_approval_id (va_approval v)
    \<or> aw_deployment_id r = da_deployment_id (va_approval v)) (ld_admissions l)")
  case (Some row)
  then show ?thesis using ok
    by (auto simp: admit_transaction_def admit_existing_def bindE_eq_Inr_iff Let_def ledger_change.unchanged
        split: if_splits)
next
  case None
  let ?r = "new_admission_record v actor reason instant"
  from None ok obtain m n where m: "supersede v actor reason instant l = Inr m"
    and n: "insert_admission ?r m = Inr n" and l': "l' = insert_transition ?r None actor reason instant n"
    by (auto simp: admit_transaction_def Let_def bindE_eq_Inr_iff split: option.splits)
  note sup = supersede_change [OF inv m]
  have "deployment_row l (da_deployment_id (va_approval v)) = None"
    using None by (auto simp: deployment_row_def find_None_iff)
  then have free: "deployment_row m (dr_deployment_id ?r) = None"
    using sup by (simp add: new_admission_record_def Let_def)
  have keeps: "ld_transitions n = ld_transitions m" "ld_read_only n = ld_read_only m"
    using n by (auto simp: insert_admission_def Let_def res_simps)
  then have "l'\<lparr>ld_transitions := ld_transitions m\<rparr> = n" unfolding l' by (simp add: insert_transition_def)
  then have "row_insert ?r m l'"
    using n free sup keeps unfolding l'
    by (simp add: row_insert_def new_admission_record_def Let_def insert_transition_def)
  then show ?thesis using sup ledger_change.inserted by blast
qed

lemma admit_change:
  assumes "ledger_inv l"
  shows "ledger_change l (fst (admit v actor reason instant l))"
  unfolding admit_def
proof (rule transact_keeps)
  fix l' x
  assume "require_writer l (validate_transition_input actor reason instant
       (bindE (approval_is_active (va_approval v) instant) (\<lambda>active.
          guardE (\<not> active) (ValueError ''cannot admit an inactive deployment approval'')
            (admit_transaction v actor reason instant l)))) = Inr (l', x)"
  then have "admit_transaction v actor reason instant l = Inr (l', x)" by (auto simp: res_simps)
  then show "ledger_change l l'" by (rule admit_transaction_change [OF assms])
qed

section \<open>Runs of the ledger\<close>

datatype ledger_op =
    Admit verified_admission string string datetime
  | Renew verified_renewal string string datetime
  | Deactivate string admission_state string string datetime

fun ledger_step :: "ledger \<Rightarrow> ledger_op \<Rightarrow> ledger" where
  "ledger_step l (Admit v actor reason instant) = fst (admit v actor reason instant l)"
| "ledger_step l (Renew v actor reason instant) = fst (renew v actor reason instant l)"
| "ledger_step l (Deactivate d target actor reason instant) = fst (deactivate d target actor reason instant l)"

lemma ledger_step_change: "ledger_inv l \<Longrightarrow> ledger_change l (ledger_step l op)"
  by (cases op) (simp_all add: admit_change renew_change deactivate_change)

lemma new_ledger_inv: "ledger_inv new_ledger"
  by (simp add: ledger_inv_def new_ledger_def history_def deployment_row_def renewals_consistent_def
      renewals_of_def)

interpretation al: step_system ledger_step ledger_inv ledger_rel
  by unfold_locales
    (use ledger_change_keeps ledger_step_change in \<open>auto intro: ledger_rel_refl ledger_rel_trans\<close>)


text \<open>Where a row comes from: an admission call, with the expiry of its approval or of a renewal.\<close>

definition row_origin :: "ledger_op list \<Rightarrow> admission_record \<Rightarrow> bool" where
  "row_origin ops r \<longleftrightarrow>
     (\<exists>v actor reason instant. Admit v actor reason instant \<in> set ops
        \<and> same_binding (new_admission_record v actor reason instant) r
        \<and> approval_is_active (va_approval v) instant = Inr True
        \<and> (dr_expires_at r = da_expires_at (va_approval v)
           \<or> (\<exists>w actor' reason' instant'. Renew w actor' reason' instant' \<in> set ops
                \<and> dr_expires_at r = ar_expires_at (vr_renewal w))))"

lemma row_origin_mono: "row_origin ops r \<Longrightarrow> set ops \<subseteq> set ops' \<Longrightarrow> row_origin ops' r"
  unfolding row_origin_def by blast

lemma row_origin_copy:
  "row_origin ops r \<Longrightarrow> same_binding r s \<Longrightarrow> dr_expires_at s = dr_expires_at r \<Longrightarrow> row_origin ops s"
  unfolding row_origin_def same_binding_def by metis

lemma row_origin_renewed:
  assumes "row_origin ops c" "Renew v actor reason instant \<in> set ops"
  shows "row_origin ops (renewed_record v actor reason c)"
proof -
  have "same_binding x (renewed_record v actor reason c)" if "same_binding x c" for x
    using that by (simp add: same_binding_def renewed_record_def)
  moreover have "dr_expires_at (renewed_record v actor reason c) = ar_expires_at (vr_renewal v)"
    by (simp add: renewed_record_def)
  ultimately show ?thesis using assms unfolding row_origin_def by blast
qed

lemma written_record:
  "r' \<in> set (map (write_columns u) rows) \<Longrightarrow> r' \<in> set rows \<or> aw_record r' = u"
  by (auto simp: write_columns_def)

definition rows_have_origin :: "ledger_op list \<Rightarrow> ledger \<Rightarrow> bool" where
  "rows_have_origin ops l \<longleftrightarrow> (\<forall>r \<in> set (ld_admissions l). row_origin ops (aw_record r))"

lemma update_origin:
  assumes "rows_have_origin ops l" "update_record u m = Inr n" "ld_admissions m = ld_admissions l"
    "row_origin ops u"
  shows "rows_have_origin ops n"
  using assms written_record by (fastforce simp: rows_have_origin_def update_record_Inr)

lemma found_origin:
  "rows_have_origin ops l \<Longrightarrow> deployment_row l d = Some row \<Longrightarrow> row_origin ops (aw_record row)"
  using deployment_row_Some by (auto simp: rows_have_origin_def)

lemma transact_origin:
  "rows_have_origin ops l \<Longrightarrow> (\<And>l' x. f l = Inr (l', x) \<Longrightarrow> rows_have_origin ops l') \<Longrightarrow>
     rows_have_origin ops (fst (transact f l))"
  by (auto simp: transact_def split: sum.splits)

lemma insert_transition_origin [simp]:
  "rows_have_origin ops (insert_transition r p a w i l) = rows_have_origin ops l"
  by (simp add: rows_have_origin_def)

lemma deactivate_origin:
  assumes "rows_have_origin ops l"
  shows "rows_have_origin ops (fst (deactivate d target actor reason instant l))"
  unfolding deactivate_def
proof (rule transact_origin [OF assms], clarsimp simp: res_simps Let_def split: option.splits)
  fix row
  assume row: "deployment_row l d = Some row"
    and upd: "rows_unique (map (write_columns
      ((aw_record row)\<lparr>dr_state := target, dr_actor := actor, dr_reason := reason\<rparr>)) (ld_admissions l))"
  show "rows_have_origin ops (l\<lparr>ld_admissions := map (write_columns
      ((aw_record row)\<lparr>dr_state := target, dr_actor := actor, dr_reason := reason\<rparr>)) (ld_admissions l)\<rparr>)"
    using upd
    by (intro update_origin [OF assms, where m = l
          and u = "(aw_record row)\<lparr>dr_state := target, dr_actor := actor, dr_reason := reason\<rparr>"]
        row_origin_copy [OF found_origin [OF assms row]])
      (simp_all add: update_record_Inr same_binding_def)
qed

lemma renew_origin:
  assumes "rows_have_origin ops l" "Renew v actor reason instant \<in> set ops"
  shows "rows_have_origin ops (fst (renew v actor reason instant l))"
  unfolding renew_def
proof (rule transact_origin [OF assms(1)])
  fix l' x
  assume "require_writer l (validate_transition_input actor reason instant
       (bindE (renewal_is_active (vr_renewal v) instant) (\<lambda>active.
          guardE (\<not> active) (ValueError ''cannot apply an inactive deployment renewal'')
            (renew_transaction v actor reason instant l)))) = Inr (l', x)"
  then have "renew_transaction v actor reason instant l = Inr (l', x)" by (auto simp: res_simps)
  then obtain row l1 l2 where row: "deployment_row l (ar_deployment_id (vr_renewal v)) = Some row"
    and l1: "insert_renewal v (dr_deployment_id (aw_record row)) l = Inr l1"
    and l2: "update_record (renewed_record v actor reason (aw_record row)) l1 = Inr l2"
    and l': "l' = insert_transition (renewed_record v actor reason (aw_record row))
       (Some (dr_state (aw_record row))) actor (''authorization renewed: '' @ reason) instant l2"
    by (auto simp: renew_transaction_def bindE_eq_Inr_iff load_record_Inr Let_def split: option.splits)
  have "ld_admissions l1 = ld_admissions l" using l1 by (auto simp: insert_renewal_def Let_def res_simps)
  with l2 have "rows_have_origin ops l2"
    using row_origin_renewed [OF found_origin [OF assms(1) row] assms(2)] by (rule update_origin [OF assms(1)])
  then show "rows_have_origin ops l'" by (simp add: l')
qed

lemma supersede_origin:
  assumes "rows_have_origin ops l" "supersede v actor reason instant l = Inr m"
  shows "rows_have_origin ops m"
proof (cases "da_stage (va_approval v) = APPROVED_CANARY")
  case True
  then show ?thesis using assms by (simp add: supersede_def Let_def guardE_eq_Inr_iff)
next
  case False
  let ?s = "\<lambda>row. superseded_record (aw_record row) (da_deployment_id (va_approval v)) actor reason"
  from False assms(2) obtain row m1 where
    row: "active_row l (da_account_address (va_approval v)) (da_vault_address (va_approval v)) = Some row"
    and m1: "update_record (?s row) l = Inr m1"
    and m: "m = insert_transition (?s row) (Some ADMISSION_ACTIVE) actor (dr_reason (?s row)) instant m1"
    by (auto simp: supersede_def Let_def bindE_eq_Inr_iff load_record_Inr guardE_eq_Inr_iff split: option.splits)
  have "row \<in> set (ld_admissions l)" using row find_Some_in unfolding active_row_def by fast
  then have "row_origin ops (aw_record row)" using assms(1) by (simp add: rows_have_origin_def)
  then have "row_origin ops (?s row)"
    by (rule row_origin_copy) (simp_all add: superseded_record_def same_binding_def)
  with m1 have "rows_have_origin ops m1" by (rule update_origin [OF assms(1) _ refl])
  then show ?thesis by (simp add: m)
qed

lemma insert_origin:
  assumes "rows_have_origin ops m" "insert_admission r m = Inr n" "row_origin ops r"
  shows "rows_have_origin ops n"
  using assms by (auto simp: rows_have_origin_def insert_admission_def Let_def res_simps)

lemma admit_origin:
  assumes "rows_have_origin ops l" "Admit v actor reason instant \<in> set ops"
  shows "rows_have_origin ops (fst (admit v actor reason instant l))"
  unfolding admit_def
proof (rule transact_origin [OF assms(1)])
  fix l' x
  assume "require_writer l (validate_transition_input actor reason instant
       (bindE (approval_is_active (va_approval v) instant) (\<lambda>active.
          guardE (\<not> active) (ValueError ''cannot admit an inactive deployment approval'')
            (admit_transaction v actor reason instant l)))) = Inr (l', x)"
  then have ok: "admit_transaction v actor reason instant l = Inr (l', x)"
    and act: "approval_is_active (va_approval v) instant = Inr True" by (auto simp: res_simps)
  have "row_origin ops (new_admission_record v actor reason instant)"
    using assms(2) act unfolding row_origin_def
    by (intro exI [of _ v] exI [of _ actor] exI [of _ reason] exI [of _ instant])
      (simp add: same_binding_refl new_admission_record_def Let_def)
  note new = this
  show "rows_have_origin ops l'"
  proof (cases "find (\<lambda>r. aw_approval_id r = da_approval_id (va_approval v)
      \<or> aw_deployment_id r = da_deployment_id (va_approval v)) (ld_admissions l)")
    case (Some row)
    then show ?thesis using ok assms(1)
      by (auto simp: admit_transaction_def admit_existing_def bindE_eq_Inr_iff Let_def split: if_splits)
  next
    case None
    with ok obtain m n where "supersede v actor reason instant l = Inr m"
      and n: "insert_admission (new_admission_record v actor reason instant) m = Inr n"
      and l': "l' = insert_transition (new_admission_record v actor reason instant) None actor reason instant n"
      by (auto simp: admit_transaction_def Let_def bindE_eq_Inr_iff split: option.splits)
    then have "rows_have_origin ops m" using supersede_origin [OF assms(1)] by blast
    then have "rows_have_origin ops n" using insert_origin n new by blast
    then show ?thesis by (simp add: l')
  qed
qed

lemma run_origin:
  "rows_have_origin all l \<Longrightarrow> set ops \<subseteq> set all \<Longrightarrow> rows_have_origin all (foldl ledger_step l ops)"
proof (induction ops arbitrary: l)
  case (Cons a ops)
  have "rows_have_origin all (ledger_step l a)"
    using Cons.prems by (cases a) (auto intro: admit_origin renew_origin deactivate_origin)
  then show ?case using Cons by simp
qed simp

abbreviation ledger_run :: "ledger_op list \<Rightarrow> ledger" where
  "ledger_run \<equiv> foldl ledger_step new_ledger"

lemma ledger_run_inv: "ledger_inv (ledger_run ops)"
  by (rule al.run_inv [OF new_ledger_inv])

lemma ledger_run_origin: "rows_have_origin ops (ledger_run ops)"
  by (rule run_origin) (simp_all add: rows_have_origin_def new_ledger_def)

lemma require_active_Inr:
  "require_active v instant l = Inr r \<longleftrightarrow>
     is_aware instant \<and> (\<exists>row. deployment_row l (da_deployment_id (va_approval v)) = Some row
       \<and> admission_record_ok (aw_record row) \<and> r = aw_record row)
   \<and> dr_state r = ADMISSION_ACTIVE \<and> dr_admission_id r = va_admission_id v
   \<and> dr_approval_id r = da_approval_id (va_approval v) \<and> micros instant < micros (dr_expires_at r)"
  by (auto simp: require_active_def res_simps split: option.splits)

section \<open>Properties\<close>

text \<open>C11: The admission ledger is consistent after every sequence of calls, failed ones included: two
  active deployments never own the same account, the indexed columns agree with the stored record, the
  transitions of every deployment start with an activation, continue from where the last one ended and
  end in its state, its renewals form a chain from the admission identity to the current authorization,
  as long as the renewal count says, and every production deployment succeeds a canary of the same
  account that it superseded.\<close>

theorem ledger_always_consistent:
  "let l = ledger_run ops
   in \<forall>r \<in> set (ld_admissions l).
        row_synced r
      \<and> (\<forall>s \<in> set (ld_admissions l). aw_state r = ADMISSION_ACTIVE \<and> aw_state s = ADMISSION_ACTIVE
            \<and> row_key r = row_key s \<longrightarrow> r = s)
      \<and> follow None (history l (aw_deployment_id r)) = Some (Some (aw_state r))
      \<and> authorization_chain (aw_admission_id r) (renewals_of l (aw_deployment_id r)) = Some (aw_authorization_id r)
      \<and> aw_renewal_count r = int (length (renewals_of l (aw_deployment_id r)))
      \<and> (aw_stage r \<noteq> APPROVED_CANARY \<longrightarrow> succeeded_canary l r)"
  unfolding Let_def
proof (rule ballI)
  let ?l = "ledger_run ops"
  note inv = ledger_run_inv [of ops]
  fix r assume r: "r \<in> set (ld_admissions ?l)"
  have own: "deployment_row ?l (aw_deployment_id r) = Some r"
    using inv r by (simp add: ledger_inv_def deployment_row_unique)
  have "renewals_consistent ?l (aw_deployment_id r)"
    "follow None (history ?l (aw_deployment_id r)) = Some (map_option aw_state (deployment_row ?l (aw_deployment_id r)))"
    using inv by (simp_all add: ledger_inv_def)
  moreover have "r = s" if "s \<in> set (ld_admissions ?l)" "aw_state r = ADMISSION_ACTIVE"
    "aw_state s = ADMISSION_ACTIVE" "row_key r = row_key s" for s
    using rows_unique_eq [of "ld_admissions ?l" r s] inv r that by (simp add: ledger_inv_def row_conflict_def)
  ultimately show "row_synced r
      \<and> (\<forall>s \<in> set (ld_admissions ?l). aw_state r = ADMISSION_ACTIVE \<and> aw_state s = ADMISSION_ACTIVE
            \<and> row_key r = row_key s \<longrightarrow> r = s)
      \<and> follow None (history ?l (aw_deployment_id r)) = Some (Some (aw_state r))
      \<and> authorization_chain (aw_admission_id r) (renewals_of ?l (aw_deployment_id r)) = Some (aw_authorization_id r)
      \<and> aw_renewal_count r = int (length (renewals_of ?l (aw_deployment_id r)))
      \<and> (aw_stage r \<noteq> APPROVED_CANARY \<longrightarrow> succeeded_canary ?l r)"
    using inv r own by (auto simp: ledger_inv_def renewals_consistent_def)
qed

text \<open>C20: Authority is fixed when it is granted and never returns once it is taken: however the ledger
  is used after a deployment was admitted, its account, stage, capital, artifacts, configuration, image
  and trust root stay the admitted ones and its expiry never moves back; once it is superseded, rolled
  back or revoked, its row is never written again and every later check that it is active fails.\<close>

theorem authority_never_returns:
  assumes "deployment_row (ledger_run ops) d = Some r"
  shows "\<exists>r'. deployment_row (ledger_run (ops @ later)) d = Some r'
     \<and> same_binding (aw_record r) (aw_record r')
     \<and> micros (dr_expires_at (aw_record r)) \<le> micros (dr_expires_at (aw_record r'))
     \<and> (aw_state r \<noteq> ADMISSION_ACTIVE \<longrightarrow> r' = r
          \<and> (\<forall>v instant. da_deployment_id (va_approval v) = d \<longrightarrow>
               \<not> is_ok (require_active v instant (ledger_run (ops @ later)))))"
proof -
  have "ledger_rel (ledger_run ops) (ledger_run (ops @ later))"
    by (rule al.run_rel_suffix [OF new_ledger_inv])
  with assms obtain r' where r': "deployment_row (ledger_run (ops @ later)) d = Some r'" "row_succ r r'"
    unfolding ledger_rel_def by blast
  have "row_synced r'"
    using ledger_run_inv [of "ops @ later"] deployment_row_Some [OF r'(1)] by (simp add: ledger_inv_def)
  then have "dr_state (aw_record r') = aw_state r'" by (simp add: row_synced_def Let_def)
  with r' show ?thesis
    by (auto simp: row_succ_def is_ok_iff require_active_Inr)
qed

text \<open>Whatever the ledger accepts as active was admitted for exactly that: the record that
  \<open>require_active\<close> returns was created by an admission call of the run, for an approval that was
  active at the time, with the same admission identity and the approval's account, capital, image and
  configuration; it has not expired, its expiry is the approval's or that of a renewal call of the run,
  and no other deployment is active on its account.\<close>

theorem accepted_authority_has_origin:
  assumes "require_active v instant (ledger_run ops) = Inr r"
  shows "\<exists>w actor reason start. Admit w actor reason start \<in> set ops
     \<and> approval_is_active (va_approval w) start = Inr True
     \<and> va_admission_id w = va_admission_id v \<and> dr_deployment_id r = da_deployment_id (va_approval w)
     \<and> dr_account_address r = da_account_address (va_approval w) \<and> dr_stage r = da_stage (va_approval w)
     \<and> dr_capital_limit_usd r = da_capital_limit_usd (va_approval w)
     \<and> dr_image_digest r = da_image_digest (va_approval w)
     \<and> dr_configuration_sha256 r = da_configuration_sha256 (va_approval w)
     \<and> micros instant < micros (dr_expires_at r)
     \<and> (dr_expires_at r = da_expires_at (va_approval w)
        \<or> (\<exists>x a y t. Renew x a y t \<in> set ops \<and> dr_expires_at r = ar_expires_at (vr_renewal x)))
     \<and> (\<forall>s \<in> set (ld_admissions (ledger_run ops)). aw_state s = ADMISSION_ACTIVE
          \<and> row_key s = account_key (dr_account_address r) (dr_vault_address r) \<longrightarrow> aw_record s = r)"
proof -
  from assms obtain row where row: "deployment_row (ledger_run ops) (da_deployment_id (va_approval v)) = Some row"
    "r = aw_record row" and r: "dr_state r = ADMISSION_ACTIVE" "dr_admission_id r = va_admission_id v"
    "micros instant < micros (dr_expires_at r)" by (auto simp: require_active_Inr)
  note inv = ledger_run_inv [of ops]
  have in_row: "row \<in> set (ld_admissions (ledger_run ops))" using deployment_row_Some [OF row(1)] by simp
  then have sync: "row_synced row" using inv by (simp add: ledger_inv_def)
  obtain w actor reason start where w: "Admit w actor reason start \<in> set ops"
    "same_binding (new_admission_record w actor reason start) r"
    "approval_is_active (va_approval w) start = Inr True"
    "dr_expires_at r = da_expires_at (va_approval w)
     \<or> (\<exists>x a y t. Renew x a y t \<in> set ops \<and> dr_expires_at r = ar_expires_at (vr_renewal x))"
  proof -
    have "row_origin ops r" using ledger_run_origin [of ops] in_row row(2) by (simp add: rows_have_origin_def)
    then show thesis unfolding row_origin_def using that by blast
  qed
  have alone: "aw_record s = r" if s: "s \<in> set (ld_admissions (ledger_run ops))" "aw_state s = ADMISSION_ACTIVE"
    "row_key s = account_key (dr_account_address r) (dr_vault_address r)" for s
  proof -
    have "row_conflict row s" using s sync r row(2) by (simp add: row_conflict_def row_synced_def Let_def)
    then have "row = s" using rows_unique_eq inv in_row s(1) by (auto simp: ledger_inv_def)
    with row(2) show ?thesis by simp
  qed
  have "va_admission_id w = va_admission_id v" using w(2) r(2)
    by (simp add: same_binding_def new_admission_record_def Let_def)
  with w r(3) alone show ?thesis
    by (intro exI [of _ w] exI [of _ actor] exI [of _ reason] exI [of _ start])
      (auto simp: same_binding_def new_admission_record_def Let_def)
qed


section \<open>An example run\<close>

definition hex64 :: "char \<Rightarrow> string" where
  "hex64 c = replicate 64 c"

definition example_address :: "char \<Rightarrow> string" where
  "example_address c = ''0x'' @ replicate 40 c"

definition canary_approval :: deployment_approval where
  "canary_approval = \<lparr>da_approval_id = ''approval-1'', da_deployment_id = ''canary-1'',
     da_stage = APPROVED_CANARY, da_account_address = example_address CHR ''1'', da_vault_address = None,
     da_trading_wallet_address = example_address CHR ''2'', da_control_wallet_address = example_address CHR ''3'',
     da_commit_sha = replicate 40 CHR ''c'', da_image_digest = ''sha256:'' @ hex64 CHR ''d'',
     da_artifact_manifest_sha256 = hex64 CHR ''a'', da_dependency_lock_sha256 = hex64 CHR ''1'',
     da_dataset_sha256 = hex64 CHR ''2'', da_model_sha256 = hex64 CHR ''3'',
     da_configuration_sha256 = hex64 CHR ''4'', da_feature_schema_sha256 = hex64 CHR ''5'',
     da_strategy_config_sha256 = hex64 CHR ''6'', da_risk_policy_sha256 = hex64 CHR ''7'',
     da_shadow_evidence_sha256 = hex64 CHR ''8'', da_testnet_evidence_sha256 = hex64 CHR ''9'',
     da_canary_evidence_sha256 = None, da_capital_limit_usd = 500, da_rollback_deployment_id = ''paper-1'',
     da_prior_approval_id = None, da_approver = ''operator'', da_approved_at = Aware 1000,
     da_expires_at = Aware 5000\<rparr>"

definition production_approval :: deployment_approval where
  "production_approval = canary_approval\<lparr>da_approval_id := ''approval-2'', da_deployment_id := ''production-1'',
     da_stage := PRODUCTION, da_rollback_deployment_id := ''canary-1'',
     da_prior_approval_id := Some ''approval-1'', da_canary_evidence_sha256 := Some (hex64 CHR ''a''),
     da_approved_at := Aware 2000, da_expires_at := Aware 6000\<rparr>"

lemma example_approvals_valid:
  "deployment_approval_error canary_approval = None" "deployment_approval_error production_approval = None"
  by code_simp+

definition example_manifest :: artifact_manifest where
  "example_manifest = \<lparr>am_deployment_id = ''canary-1'', am_stage = APPROVED_CANARY, am_created_at = Aware 500,
     am_commit_sha = replicate 40 CHR ''c'', am_image_digest = ''sha256:'' @ hex64 CHR ''d'',
     am_configuration_sha256 = hex64 CHR ''4'', am_dependency_lock_sha256 = hex64 CHR ''1'',
     am_dataset_sha256 = hex64 CHR ''2'', am_model_sha256 = hex64 CHR ''3'',
     am_feature_schema_sha256 = hex64 CHR ''5'', am_strategy_config_sha256 = hex64 CHR ''6'',
     am_risk_policy_sha256 = hex64 CHR ''7'', am_shadow_evidence_sha256 = hex64 CHR ''8'',
     am_testnet_evidence_sha256 = hex64 CHR ''9'', am_canary_evidence_sha256 = None,
     am_rollback_deployment_id = ''paper-1'',
     am_artifacts = [\<lparr>bi_kind = DEPENDENCY_LOCK, bi_relative_path = ''lock'', bi_content_sha256 = hex64 CHR ''1''\<rparr>,
       \<lparr>bi_kind = DATASET_MANIFEST, bi_relative_path = ''dataset'', bi_content_sha256 = hex64 CHR ''2''\<rparr>,
       \<lparr>bi_kind = MODEL_MANIFEST, bi_relative_path = ''model'', bi_content_sha256 = hex64 CHR ''3''\<rparr>,
       \<lparr>bi_kind = FEATURE_SCHEMA, bi_relative_path = ''features'', bi_content_sha256 = hex64 CHR ''5''\<rparr>,
       \<lparr>bi_kind = STRATEGY_CONFIG, bi_relative_path = ''strategy'', bi_content_sha256 = hex64 CHR ''6''\<rparr>,
       \<lparr>bi_kind = RISK_POLICY, bi_relative_path = ''risk'', bi_content_sha256 = hex64 CHR ''7''\<rparr>,
       \<lparr>bi_kind = SHADOW_EVIDENCE, bi_relative_path = ''shadow'', bi_content_sha256 = hex64 CHR ''8''\<rparr>,
       \<lparr>bi_kind = TESTNET_EVIDENCE, bi_relative_path = ''testnet'', bi_content_sha256 = hex64 CHR ''9''\<rparr>]\<rparr>"

definition canary_admission :: verified_admission where
  "canary_admission = \<lparr>va_admission_id = hex64 CHR ''a'', va_approval = canary_approval,
     va_artifact_manifest = example_manifest, va_public_key_sha256 = hex64 CHR ''e'',
     va_signature_envelope_sha256 = hex64 CHR ''f'', va_verified_at = Aware 1500\<rparr>"

definition production_admission :: verified_admission where
  "production_admission = canary_admission\<lparr>va_admission_id := hex64 CHR ''b'',
     va_approval := production_approval, va_verified_at := Aware 2500\<rparr>"

definition example_renewal :: verified_renewal where
  "example_renewal = \<lparr>vr_authorization_id = hex64 CHR ''c'',
     vr_renewal = \<lparr>ar_renewal_id = ''renewal-1'', ar_deployment_id = ''production-1'',
       ar_initial_approval_id = ''approval-2'', ar_admission_id = hex64 CHR ''b'',
       ar_prior_authorization_id = hex64 CHR ''b'', ar_account_address = example_address CHR ''1'',
       ar_vault_address = None, ar_artifact_manifest_sha256 = hex64 CHR ''a'',
       ar_configuration_sha256 = hex64 CHR ''4'', ar_image_digest = ''sha256:'' @ hex64 CHR ''d'',
       ar_capital_limit_usd = 500, ar_approver = ''operator'', ar_approved_at = Aware 3000,
       ar_expires_at = Aware 9000\<rparr>,
     vr_public_key_sha256 = hex64 CHR ''e'', vr_signature_envelope_sha256 = hex64 CHR ''f'',
     vr_verified_at = Aware 3500\<rparr>"

definition example_ops :: "ledger_op list" where
  "example_ops = [Admit canary_admission ''op'' ''go'' (Aware 1500),
     Admit production_admission ''op'' ''scale'' (Aware 2500), Renew example_renewal ''op'' ''week 2'' (Aware 3500)]"

lemma example_run:
  "let l = ledger_run example_ops
   in map (\<lambda>r. (aw_deployment_id r, aw_state r, aw_renewal_count r, aw_stage r)) (ld_admissions l)
        = [(''canary-1'', SUPERSEDED, 0, APPROVED_CANARY), (''production-1'', ADMISSION_ACTIVE, 1, PRODUCTION)]
    \<and> is_ok (require_active production_admission (Aware 8000) l)
    \<and> map_option aw_state (deployment_row l ''canary-1'') = Some SUPERSEDED"
  by code_simp

lemma example_production_row:
  obtains r where "r \<in> set (ld_admissions (ledger_run example_ops))" "aw_deployment_id r = ''production-1''"
    "aw_state r = ADMISSION_ACTIVE" "aw_renewal_count r = 1" "aw_stage r = PRODUCTION"
proof -
  have "(''production-1'', ADMISSION_ACTIVE, 1, PRODUCTION)
      \<in> set (map (\<lambda>r. (aw_deployment_id r, aw_state r, aw_renewal_count r, aw_stage r))
               (ld_admissions (ledger_run example_ops)))"
    using example_run unfolding Let_def by (simp only:) simp
  then show thesis using that by auto
qed

theorem ledger_always_consistent_witness:
  "\<exists>r \<in> set (ld_admissions (ledger_run example_ops)). aw_deployment_id r = ''production-1''
     \<and> aw_state r = ADMISSION_ACTIVE \<and> succeeded_canary (ledger_run example_ops) r
     \<and> length (renewals_of (ledger_run example_ops) ''production-1'') = 1"
proof -
  obtain r where "r \<in> set (ld_admissions (ledger_run example_ops))" "aw_deployment_id r = ''production-1''"
    "aw_state r = ADMISSION_ACTIVE" "aw_renewal_count r = 1" "aw_stage r = PRODUCTION"
    using example_production_row .
  with ledger_always_consistent [of example_ops] show ?thesis by (auto simp: Let_def)
qed

theorem authority_never_returns_witness:
  "\<not> is_ok (require_active canary_admission (Aware 4000)
     (ledger_run (example_ops @ [Admit canary_admission ''op'' ''again'' (Aware 4000)])))"
proof -
  obtain r where "deployment_row (ledger_run example_ops) ''canary-1'' = Some r" "aw_state r = SUPERSEDED"
    using example_run by (auto simp: Let_def)
  from authority_never_returns [OF this(1), of "[Admit canary_admission ''op'' ''again'' (Aware 4000)]"] this(2)
  show ?thesis by (simp add: canary_admission_def canary_approval_def)
qed

theorem accepted_authority_has_origin_witness:
  "\<exists>r. require_active production_admission (Aware 8000) (ledger_run example_ops) = Inr r
     \<and> dr_capital_limit_usd r = 500 \<and> 8000 < micros (dr_expires_at r)"
proof -
  obtain r where r: "require_active production_admission (Aware 8000) (ledger_run example_ops) = Inr r"
    using example_run by (auto simp: Let_def is_ok_iff)
  from accepted_authority_has_origin [OF r] have "dr_capital_limit_usd r = 500"
    by (auto simp: example_ops_def canary_admission_def production_admission_def canary_approval_def
        production_approval_def)
  with accepted_authority_has_origin [OF r] r show ?thesis by auto
qed

text \<open>A record that the ledger writes and can no longer read: the reason of a supersession is the
  operator's reason behind a prefix, and nothing checks that it still fits.\<close>

lemma superseded_record_unreadable:
  assumes "496 < length deployment + length reason"
  shows "admission_record_error (superseded_record p deployment actor reason) \<noteq> None"
  using assms by (auto simp: admission_record_error_def first_error_None_iff superseded_record_def is_short_def)

end
