(* ===== verification/Approval_Verification.thy ===== *)
theory Approval_Verification
  imports Admission_Ledger
begin

text \<open>
  The verification of signed deployments in \<open>governance/approval.py\<close>: \<open>verify_deployment_admission\<close>
  and \<open>verify_deployment_renewal\<close>, with every comparison in the order of the code. Hashing and the
  Ed25519 check are the record \<open>verification_env\<close>; reading a file, resolving an artifact below its
  root and parsing JSON are outside, so their results, errors included, are the record
  \<open>admission_files\<close>; what the parsed models must satisfy is checked here. At the end, verification and
  the ledger are put together.
\<close>

section \<open>What is outside\<close>

record verification_env =
  ve_approval_sha256 :: "deployment_approval \<Rightarrow> string"
  ve_manifest_sha256 :: "artifact_manifest \<Rightarrow> string"
  ve_signature_sha256 :: "detached_signature \<Rightarrow> string"
  ve_renewal_sha256 :: "authorization_renewal \<Rightarrow> string"
  ve_limits_sha256 :: "risk_limits \<Rightarrow> string"
  ve_configuration_sha256 :: "native_settings \<Rightarrow> string"
  ve_admission_sha256 :: "deployment_approval \<Rightarrow> artifact_manifest \<Rightarrow> string \<Rightarrow> string \<Rightarrow> string"
  ve_authorization_sha256 :: "authorization_renewal \<Rightarrow> string \<Rightarrow> string \<Rightarrow> string"
  ve_approval_signed :: "string \<Rightarrow> deployment_approval \<Rightarrow> string \<Rightarrow> bool"
  ve_renewal_signed :: "string \<Rightarrow> authorization_renewal \<Rightarrow> string \<Rightarrow> bool"

record admission_files =
  vf_approval :: "deployment_approval res"
  vf_manifest :: "artifact_manifest res"
  vf_signature :: "detached_signature res"
  vf_public_key_sha256 :: "string res"
  vf_runtime_lock_sha256 :: "string res"
  vf_artifact_root :: "unit res"
  vf_artifact_sha256 :: "string \<Rightarrow> string res"

datatype wallet_role = TRADING_WALLET | CONTROL_WALLET

section \<open>Admission\<close>

definition CANARY_CAPITAL_HARD_CAP_USD :: dec where "CANARY_CAPITAL_HARD_CAP_USD = 1000"
definition PRODUCTION_CAPITAL_HARD_CAP_USD :: dec where "PRODUCTION_CAPITAL_HARD_CAP_USD = 100000"

text \<open>\<open>model_validate_json\<close> of a file that was read and parsed.\<close>

definition validated :: "('a \<Rightarrow> string option) \<Rightarrow> 'a res \<Rightarrow> 'a res" where
  "validated check m =
     bindE m (\<lambda>x. case check x of Some e \<Rightarrow> Inl (ValidationError e) | None \<Rightarrow> Inr x)"

definition require :: "(bool \<times> string) list \<Rightarrow> 'a res \<Rightarrow> 'a res" where
  "require checks k =
     (case first_error checks of Some m \<Rightarrow> Inl (ApprovalVerificationError m) | None \<Rightarrow> k)"

definition expected_stage :: "deployment_mode \<Rightarrow> promotion_stage option" where
  "expected_stage m =
     (if m = CANARY then Some APPROVED_CANARY else if m = PRODUCTION_MODE then Some PRODUCTION else None)"

definition mismatch :: "string \<Rightarrow> bool \<Rightarrow> bool \<times> string" where
  "mismatch field same = (\<not> same, ''deployment approval mismatch: '' @ field)"

definition expected_values ::
  "verification_env \<Rightarrow> native_settings \<Rightarrow> string \<Rightarrow> string \<Rightarrow> deployment_approval \<Rightarrow> artifact_manifest
     \<Rightarrow> (bool \<times> string) list" where
  "expected_values env s code_id image_id a m =
     (let c = ns_approval s
      in [mismatch ''approval_id'' (Some (da_approval_id a) = active_approval_id c (ns_mode s)),
          mismatch ''deployment_id'' (Some (da_deployment_id a) = av_deployment_id c),
          mismatch ''account_address''
            (Some (py_lower (da_account_address a)) = opt_lower (xc_account_address (ns_exchange s))),
          mismatch ''vault_address'' (opt_lower (da_vault_address a) = opt_lower (xc_vault_address (ns_exchange s))),
          mismatch ''commit_sha'' (da_commit_sha a = code_id),
          mismatch ''image_digest'' (da_image_digest a = image_id),
          mismatch ''artifact_manifest_sha256'' (da_artifact_manifest_sha256 a = ve_manifest_sha256 env m),
          mismatch ''configured_artifact_manifest_sha256''
            (av_artifact_manifest_sha256 c = Some (ve_manifest_sha256 env m)),
          mismatch ''configuration_sha256'' (da_configuration_sha256 a = ve_configuration_sha256 env s),
          mismatch ''risk_policy_sha256'' (da_risk_policy_sha256 a = ve_limits_sha256 env (ns_risk s)),
          mismatch ''rollback_deployment_id'' (da_rollback_deployment_id a = am_rollback_deployment_id m)])"

definition manifest_values :: "artifact_manifest \<Rightarrow> deployment_approval \<Rightarrow> (bool \<times> string) list" where
  "manifest_values m a =
     (let differs = (\<lambda>field same. (\<not> same, ''artifact manifest mismatch: '' @ field))
      in [differs ''deployment_id'' (am_deployment_id m = da_deployment_id a),
          differs ''commit_sha'' (am_commit_sha m = da_commit_sha a),
          differs ''image_digest'' (am_image_digest m = da_image_digest a),
          differs ''configuration_sha256'' (am_configuration_sha256 m = da_configuration_sha256 a),
          differs ''dependency_lock_sha256'' (am_dependency_lock_sha256 m = da_dependency_lock_sha256 a),
          differs ''dataset_sha256'' (am_dataset_sha256 m = da_dataset_sha256 a),
          differs ''model_sha256'' (am_model_sha256 m = da_model_sha256 a),
          differs ''feature_schema_sha256'' (am_feature_schema_sha256 m = da_feature_schema_sha256 a),
          differs ''strategy_config_sha256'' (am_strategy_config_sha256 m = da_strategy_config_sha256 a),
          differs ''risk_policy_sha256'' (am_risk_policy_sha256 m = da_risk_policy_sha256 a),
          differs ''shadow_evidence_sha256'' (am_shadow_evidence_sha256 m = da_shadow_evidence_sha256 a),
          differs ''testnet_evidence_sha256'' (am_testnet_evidence_sha256 m = da_testnet_evidence_sha256 a),
          differs ''canary_evidence_sha256'' (am_canary_evidence_sha256 m = da_canary_evidence_sha256 a),
          differs ''rollback_deployment_id'' (am_rollback_deployment_id m = da_rollback_deployment_id a)])"

fun verify_bound_artifacts :: "admission_files \<Rightarrow> artifact_binding list \<Rightarrow> 'a res \<Rightarrow> 'a res" where
  "verify_bound_artifacts files [] k = k"
| "verify_bound_artifacts files (b # bs) k =
     bindE (vf_artifact_sha256 files (bi_relative_path b)) (\<lambda>observed.
       require [(observed \<noteq> bi_content_sha256 b,
                 ''deployment artifact content mismatch: '' @ kind_name (bi_kind b))]
         (verify_bound_artifacts files bs k))"

definition signature_checks ::
  "verification_env \<Rightarrow> native_settings \<Rightarrow> deployment_approval \<Rightarrow> detached_signature \<Rightarrow> string
     \<Rightarrow> (bool \<times> string) list" where
  "signature_checks env s a sig key =
     [(av_public_key_sha256 (ns_approval s) \<noteq> Some key, ''approval public key fingerprint does not match config''),
      (av_public_key_id (ns_approval s) \<noteq> Some (ds_key_id sig),
       ''approval signature key identity does not match config''),
      (ds_approval_sha256 sig \<noteq> ve_approval_sha256 env a, ''approval signature envelope binds different bytes''),
      (\<not> ve_approval_signed env key a (ds_signature_base64 sig),
       ''deployment approval Ed25519 signature is invalid'')]"

definition stage_checks :: "native_settings \<Rightarrow> deployment_approval \<Rightarrow> artifact_manifest \<Rightarrow> (bool \<times> string) list" where
  "stage_checks s a m =
     [(expected_stage (ns_mode s) \<noteq> Some (da_stage a), ''approval stage does not match deployment mode''),
      (am_stage m \<noteq> da_stage a, ''artifact manifest stage does not match approval''),
      (micros (da_approved_at a) < micros (am_created_at m), ''approval predates its artifact manifest'')]"

definition capital_checks :: "native_settings \<Rightarrow> deployment_approval \<Rightarrow> (bool \<times> string) list" where
  "capital_checks s a =
     [((if ns_mode s = CANARY then CANARY_CAPITAL_HARD_CAP_USD else PRODUCTION_CAPITAL_HARD_CAP_USD)
         < da_capital_limit_usd a, ''approval capital exceeds the immutable mode hard cap''),
      (da_capital_limit_usd a < rl_max_inventory_notional_usd (ns_risk s), ''inventory limit exceeds approved capital''),
      (dmul (da_capital_limit_usd a) (rl_max_leverage (ns_risk s)) < rl_max_inventory_notional_usd (ns_risk s),
       ''inventory limit exceeds approved leveraged capital'')]"

definition wallet_checks ::
  "deployment_approval \<Rightarrow> wallet_role option \<Rightarrow> string option \<Rightarrow> (bool \<times> string) list" where
  "wallet_checks a role address =
     (case (role, address) of
        (Some r, Some w) \<Rightarrow>
          [(py_lower w \<noteq> py_lower (if r = TRADING_WALLET then da_trading_wallet_address a
                                 else da_control_wallet_address a),
            (if r = TRADING_WALLET then ''trading'' else ''control'') @ '' wallet does not match approval'')]
      | _ \<Rightarrow> [])"

definition verify_deployment_admission ::
  "verification_env \<Rightarrow> native_settings \<Rightarrow> admission_files \<Rightarrow> string \<Rightarrow> string \<Rightarrow> datetime
     \<Rightarrow> wallet_role option \<Rightarrow> string option \<Rightarrow> bool \<Rightarrow> verified_admission res" where
  "verify_deployment_admission env s files code_id image_id instant role address needs_active =
     require [(\<not> is_aware instant, ''approval verification timestamp must be timezone-aware''),
              ((role = None) \<noteq> (address = None), ''wallet role and address must be supplied together'')]
    (bindE (validated deployment_approval_error (vf_approval files)) (\<lambda>a.
     bindE (validated artifact_manifest_error (vf_manifest files)) (\<lambda>m.
     bindE (validated detached_signature_error (vf_signature files)) (\<lambda>sig.
     bindE (vf_public_key_sha256 files) (\<lambda>key.
     require (signature_checks env s a sig key)
    (require [(needs_active \<and> approval_is_active a instant \<noteq> Inr True, ''deployment approval is not active'')]
    (require (stage_checks s a m)
    (require (expected_values env s code_id image_id a m)
    (require (manifest_values m a)
    (bindE (vf_runtime_lock_sha256 files) (\<lambda>lock.
     require [(lock \<noteq> da_dependency_lock_sha256 a, ''runtime dependency lock differs from approved lock'')]
    (bindE (vf_artifact_root files) (\<lambda>_.
     verify_bound_artifacts files (am_artifacts m)
    (require (capital_checks s a)
    (require (wallet_checks a role address)
       (Inr \<lparr>va_admission_id = ve_admission_sha256 env a m key (ve_signature_sha256 env sig),
             va_approval = a, va_artifact_manifest = m, va_public_key_sha256 = key,
             va_signature_envelope_sha256 = ve_signature_sha256 env sig,
             va_verified_at = instant\<rparr>))))))))))))))))"

section \<open>Renewal\<close>

definition renewal_state_checks :: "admission_record \<Rightarrow> string \<Rightarrow> datetime \<Rightarrow> (bool \<times> string) list" where
  "renewal_state_checks c expected_key instant =
     [(\<not> is_aware instant, ''renewal verification timestamp must be timezone-aware''),
      (dr_state c \<noteq> ADMISSION_ACTIVE, ''deployment renewal requires an active admission''),
      (dr_stage c \<noteq> PRODUCTION, ''only production admissions may be renewed''),
      (micros (dr_expires_at c) \<le> micros instant, ''expired deployment admission cannot be renewed''),
      (dr_approval_public_key_sha256 c = None, ''deployment admission has no renewal trust root''),
      (Some expected_key \<noteq> dr_approval_public_key_sha256 c,
       ''renewal trust root differs from admitted release'')]"

definition renewal_values :: "authorization_renewal \<Rightarrow> admission_record \<Rightarrow> (bool \<times> string) list" where
  "renewal_values r c =
     (let differs = (\<lambda>field same. (\<not> same, ''deployment renewal mismatch: '' @ field))
      in [differs ''deployment_id'' (ar_deployment_id r = dr_deployment_id c),
          differs ''initial_approval_id'' (ar_initial_approval_id r = dr_approval_id c),
          differs ''admission_id'' (ar_admission_id r = dr_admission_id c),
          differs ''prior_authorization_id'' (ar_prior_authorization_id r = dr_authorization_id c),
          differs ''account_address'' (py_lower (ar_account_address r) = py_lower (dr_account_address c)),
          differs ''vault_address'' (opt_lower (ar_vault_address r) = opt_lower (dr_vault_address c)),
          differs ''artifact_manifest_sha256'' (ar_artifact_manifest_sha256 r = dr_artifact_manifest_sha256 c),
          differs ''configuration_sha256'' (ar_configuration_sha256 r = dr_configuration_sha256 c),
          differs ''image_digest'' (ar_image_digest r = dr_image_digest c),
          differs ''capital_limit_usd'' (ar_capital_limit_usd r = dr_capital_limit_usd c),
          (micros (ar_expires_at r) \<le> micros (dr_expires_at c),
           ''deployment renewal must extend the authorization window''),
          (micros (ar_approved_at r) < micros (dr_admitted_at c),
           ''deployment renewal predates the admission'')])"

definition verify_deployment_renewal ::
  "verification_env \<Rightarrow> authorization_renewal res \<Rightarrow> detached_signature res \<Rightarrow> string res
     \<Rightarrow> admission_record \<Rightarrow> string \<Rightarrow> string \<Rightarrow> datetime \<Rightarrow> verified_renewal res" where
  "verify_deployment_renewal env renewal_file signature_file key_file c expected_id expected_key instant =
     require (renewal_state_checks c expected_key instant)
    (bindE (validated authorization_renewal_error renewal_file) (\<lambda>r.
     bindE (validated detached_signature_error signature_file) (\<lambda>sig.
     bindE key_file (\<lambda>key.
     require [(key \<noteq> expected_key, ''renewal public key fingerprint does not match config''),
              (ds_key_id sig \<noteq> expected_id, ''renewal signature key identity does not match config''),
              (ds_approval_sha256 sig \<noteq> ve_renewal_sha256 env r, ''renewal signature envelope binds different bytes''),
              (\<not> ve_renewal_signed env key r (ds_signature_base64 sig),
               ''deployment renewal Ed25519 signature is invalid''),
              (renewal_is_active r instant \<noteq> Inr True, ''deployment renewal is not active'')]
    (require (renewal_values r c)
       (Inr \<lparr>vr_authorization_id = ve_authorization_sha256 env r key (ve_signature_sha256 env sig),
             vr_renewal = r, vr_public_key_sha256 = key,
             vr_signature_envelope_sha256 = ve_signature_sha256 env sig, vr_verified_at = instant\<rparr>))))))"


section \<open>What verification establishes\<close>

lemma require_Inr [res_simps]: "require cs k = Inr x \<longleftrightarrow> first_error cs = None \<and> k = Inr x"
  by (auto simp: require_def split: option.splits)

lemma validated_Inr [res_simps]: "validated check m = Inr x \<longleftrightarrow> m = Inr x \<and> check x = None"
  by (cases m) (auto simp: validated_def split: option.splits)

lemma bound_artifacts_Inr [res_simps]:
  "verify_bound_artifacts files bs k = Inr x \<longleftrightarrow>
     (\<forall>b \<in> set bs. vf_artifact_sha256 files (bi_relative_path b) = Inr (bi_content_sha256 b)) \<and> k = Inr x"
  by (induction bs) (auto simp: res_simps)

text \<open>What a successful verification has checked, step by step.\<close>

lemma verification_steps:
  assumes "verify_deployment_admission env s files code_id image_id instant role address req = Inr v"
  obtains sig where
    "vf_approval files = Inr (va_approval v)" "vf_manifest files = Inr (va_artifact_manifest v)"
    "vf_signature files = Inr sig" "vf_public_key_sha256 files = Inr (va_public_key_sha256 v)"
    "(role = None) = (address = None)"
    "is_aware instant" "deployment_approval_error (va_approval v) = None"
    "artifact_manifest_error (va_artifact_manifest v) = None"
    "first_error (signature_checks env s (va_approval v) sig (va_public_key_sha256 v)) = None"
    "req \<longrightarrow> approval_is_active (va_approval v) instant = Inr True"
    "first_error (stage_checks s (va_approval v) (va_artifact_manifest v)) = None"
    "first_error (expected_values env s code_id image_id (va_approval v) (va_artifact_manifest v)) = None"
    "first_error (manifest_values (va_artifact_manifest v) (va_approval v)) = None"
    "vf_runtime_lock_sha256 files = Inr (da_dependency_lock_sha256 (va_approval v))"
    "\<forall>b \<in> set (am_artifacts (va_artifact_manifest v)).
       vf_artifact_sha256 files (bi_relative_path b) = Inr (bi_content_sha256 b)"
    "first_error (capital_checks s (va_approval v)) = None"
    "first_error (wallet_checks (va_approval v) role address) = None" "va_verified_at v = instant"
    "va_admission_id v = ve_admission_sha256 env (va_approval v) (va_artifact_manifest v)
       (va_public_key_sha256 v) (ve_signature_sha256 env sig)"
    "va_signature_envelope_sha256 v = ve_signature_sha256 env sig"
  using assms unfolding verify_deployment_admission_def
  by (auto simp del: first_error.simps simp add: res_simps first_error_None_iff)

lemma digest_mismatch_None:
  "digest_mismatch bs es = None \<longleftrightarrow>
     (\<forall>(k, d) \<in> set es. \<forall>b \<in> set bs. bi_kind b = k \<longrightarrow> bi_content_sha256 b = d)"
  by (induction bs es rule: digest_mismatch.induct) (auto simp: list_ex_iff)

lemma manifest_binds:
  assumes "artifact_manifest_error m = None" "(k, d) \<in> set (expected_artifacts m)"
  shows "\<exists>b \<in> set (am_artifacts m). bi_kind b = k \<and> bi_content_sha256 b = d"
proof -
  have e: "artifact_set_error m = None"
    using assms(1) by (simp add: artifact_manifest_error_def first_some_None_iff)
  then have "set (map bi_kind (am_artifacts m)) = set (map fst (expected_artifacts m))"
    and d: "digest_mismatch (am_artifacts m) (expected_artifacts m) = None"
    by (auto simp: artifact_set_error_def Let_def)
  with assms(2) have "k \<in> bi_kind ` set (am_artifacts m)" by (metis image_set imageI fst_conv)
  then obtain b where "b \<in> set (am_artifacts m)" "bi_kind b = k" by auto
  with d assms(2) show ?thesis unfolding digest_mismatch_None by blast
qed

text \<open>The digest the approval itself carries for each artifact kind.\<close>

definition approved_digests :: "deployment_approval \<Rightarrow> (artifact_kind \<times> string) list" where
  "approved_digests a =
     [(DEPENDENCY_LOCK, da_dependency_lock_sha256 a), (DATASET_MANIFEST, da_dataset_sha256 a),
      (MODEL_MANIFEST, da_model_sha256 a), (FEATURE_SCHEMA, da_feature_schema_sha256 a),
      (STRATEGY_CONFIG, da_strategy_config_sha256 a), (RISK_POLICY, da_risk_policy_sha256 a),
      (SHADOW_EVIDENCE, da_shadow_evidence_sha256 a), (TESTNET_EVIDENCE, da_testnet_evidence_sha256 a)]
     @ map (Pair CANARY_EVIDENCE) (opt_list (da_canary_evidence_sha256 a))"

lemma approved_digests_expected:
  assumes "first_error (manifest_values m a) = None" "am_stage m = da_stage a"
    "deployment_approval_error a = None"
  shows "approved_digests a = expected_artifacts m"
proof -
  have same: "am_dependency_lock_sha256 m = da_dependency_lock_sha256 a" "am_dataset_sha256 m = da_dataset_sha256 a"
    "am_model_sha256 m = da_model_sha256 a" "am_feature_schema_sha256 m = da_feature_schema_sha256 a"
    "am_strategy_config_sha256 m = da_strategy_config_sha256 a" "am_risk_policy_sha256 m = da_risk_policy_sha256 a"
    "am_shadow_evidence_sha256 m = da_shadow_evidence_sha256 a"
    "am_testnet_evidence_sha256 m = da_testnet_evidence_sha256 a"
    "am_canary_evidence_sha256 m = da_canary_evidence_sha256 a"
    using assms(1) by (simp_all add: manifest_values_def)
  have w: "approval_window_error a = None" and f: "approval_fields_error a = None"
    using assms(3) by (simp_all add: deployment_approval_error_def)
  have "da_stage a \<in> {APPROVED_CANARY, PRODUCTION}" using f by (simp add: approval_fields_error_def)
  moreover have "da_stage a = APPROVED_CANARY \<Longrightarrow> da_canary_evidence_sha256 a = None"
    using w by (simp add: approval_window_error_def)
  ultimately show ?thesis using assms(2) same
    by (cases "da_stage a = APPROVED_CANARY") (simp_all add: approved_digests_def expected_artifacts_def)
qed

text \<open>C17: A verified admission was signed for exactly this deployment. The configured public key, with the configured
  key identity, signed the approval; the approval names the approval, deployment, account and vault of the running
  configuration, its fingerprint and that of its risk limits, the code and image that run, the artifact
  manifest in use and its rollback target, and a stage that is the mode's; it is active when that is asked for. The file of
  every artifact the approval requires has exactly the digest the approval carries for it, and so has
  the runtime lock. The approved capital is within the mode's hard cap and, with and without leverage, covers the
  inventory limit. A wallet that is given, be it the trading or the control wallet, is the approved one for its role.\<close>

theorem verified_admission_sound:
  assumes "verify_deployment_admission env s files code_id image_id instant role address req = Inr v"
    and "a = va_approval v" "m = va_artifact_manifest v"
  shows "(\<exists>sig key. vf_approval files = Inr a \<and> vf_signature files = Inr sig \<and> vf_public_key_sha256 files = Inr key
          \<and> av_public_key_sha256 (ns_approval s) = Some key \<and> av_public_key_id (ns_approval s) = Some (ds_key_id sig)
          \<and> ds_approval_sha256 sig = ve_approval_sha256 env a \<and> ve_approval_signed env key a (ds_signature_base64 sig))
     \<and> (req \<longrightarrow> approval_is_active a instant = Inr True)
     \<and> expected_stage (ns_mode s) = Some (da_stage a)
     \<and> active_approval_id (ns_approval s) (ns_mode s) = Some (da_approval_id a)
     \<and> av_deployment_id (ns_approval s) = Some (da_deployment_id a)
     \<and> opt_lower (xc_account_address (ns_exchange s)) = Some (py_lower (da_account_address a))
     \<and> opt_lower (xc_vault_address (ns_exchange s)) = opt_lower (da_vault_address a)
     \<and> da_commit_sha a = code_id \<and> da_image_digest a = image_id
     \<and> da_configuration_sha256 a = ve_configuration_sha256 env s
     \<and> da_risk_policy_sha256 a = ve_limits_sha256 env (ns_risk s)
     \<and> vf_manifest files = Inr m \<and> da_artifact_manifest_sha256 a = ve_manifest_sha256 env m
     \<and> av_artifact_manifest_sha256 (ns_approval s) = Some (ve_manifest_sha256 env m)
     \<and> da_rollback_deployment_id a = am_rollback_deployment_id m
     \<and> (\<forall>(k, d) \<in> set (approved_digests a).
          \<exists>b \<in> set (am_artifacts m). bi_kind b = k \<and> vf_artifact_sha256 files (bi_relative_path b) = Inr d)
     \<and> vf_runtime_lock_sha256 files = Inr (da_dependency_lock_sha256 a)
     \<and> da_capital_limit_usd a \<le> PRODUCTION_CAPITAL_HARD_CAP_USD
     \<and> (ns_mode s = CANARY \<longrightarrow> da_capital_limit_usd a \<le> CANARY_CAPITAL_HARD_CAP_USD)
     \<and> rl_max_inventory_notional_usd (ns_risk s) \<le> da_capital_limit_usd a
     \<and> rl_max_inventory_notional_usd (ns_risk s) \<le> dmul (da_capital_limit_usd a) (rl_max_leverage (ns_risk s))
     \<and> (role = None \<longleftrightarrow> address = None)
     \<and> (\<forall>w. role = Some TRADING_WALLET \<and> address = Some w \<longrightarrow> py_lower w = py_lower (da_trading_wallet_address a))
     \<and> (\<forall>w. role = Some CONTROL_WALLET \<and> address = Some w \<longrightarrow> py_lower w = py_lower (da_control_wallet_address a))"
proof -
  obtain sig where st:
    "vf_approval files = Inr a" "vf_manifest files = Inr m"
    "vf_signature files = Inr sig" "vf_public_key_sha256 files = Inr (va_public_key_sha256 v)"
    "(role = None) = (address = None)"
    "deployment_approval_error a = None" "artifact_manifest_error m = None"
    "first_error (signature_checks env s a sig (va_public_key_sha256 v)) = None"
    "req \<longrightarrow> approval_is_active a instant = Inr True"
    "first_error (stage_checks s a m) = None"
    "first_error (expected_values env s code_id image_id a m) = None"
    "first_error (manifest_values m a) = None"
    "vf_runtime_lock_sha256 files = Inr (da_dependency_lock_sha256 a)"
    "\<forall>b \<in> set (am_artifacts m). vf_artifact_sha256 files (bi_relative_path b) = Inr (bi_content_sha256 b)"
    "first_error (capital_checks s a) = None" "first_error (wallet_checks a role address) = None"
    unfolding assms(2,3) by (rule verification_steps [OF assms(1)]) blast
  have stage: "expected_stage (ns_mode s) = Some (da_stage a)" "am_stage m = da_stage a"
    using st(10) by (auto simp: stage_checks_def)
  have digests: "\<exists>b \<in> set (am_artifacts m). bi_kind b = k \<and> vf_artifact_sha256 files (bi_relative_path b) = Inr d"
    if "(k, d) \<in> set (approved_digests a)" for k d
    using manifest_binds [OF st(7), of k d] approved_digests_expected [OF st(12) stage(2) st(6)] that st(14)
    by fastforce
  have sig: "\<exists>sig key. vf_approval files = Inr a \<and> vf_signature files = Inr sig \<and> vf_public_key_sha256 files = Inr key
      \<and> av_public_key_sha256 (ns_approval s) = Some key \<and> av_public_key_id (ns_approval s) = Some (ds_key_id sig)
      \<and> ds_approval_sha256 sig = ve_approval_sha256 env a \<and> ve_approval_signed env key a (ds_signature_base64 sig)"
    using st(1,3,4,8) by (auto simp: signature_checks_def)
  have caps: "da_capital_limit_usd a \<le> PRODUCTION_CAPITAL_HARD_CAP_USD"
    "ns_mode s = CANARY \<longrightarrow> da_capital_limit_usd a \<le> CANARY_CAPITAL_HARD_CAP_USD"
    "rl_max_inventory_notional_usd (ns_risk s) \<le> da_capital_limit_usd a"
    "rl_max_inventory_notional_usd (ns_risk s) \<le> dmul (da_capital_limit_usd a) (rl_max_leverage (ns_risk s))"
    using st(15) by (auto simp: capital_checks_def CANARY_CAPITAL_HARD_CAP_USD_def
        PRODUCTION_CAPITAL_HARD_CAP_USD_def not_less split: if_splits)
  have wallet: "\<forall>w. role = Some TRADING_WALLET \<and> address = Some w \<longrightarrow> py_lower w = py_lower (da_trading_wallet_address a)"
    "\<forall>w. role = Some CONTROL_WALLET \<and> address = Some w \<longrightarrow> py_lower w = py_lower (da_control_wallet_address a)"
    using st(16) by (auto simp: wallet_checks_def)
  have ids: "active_approval_id (ns_approval s) (ns_mode s) = Some (da_approval_id a)"
    "av_deployment_id (ns_approval s) = Some (da_deployment_id a)"
    "opt_lower (xc_account_address (ns_exchange s)) = Some (py_lower (da_account_address a))"
    "opt_lower (xc_vault_address (ns_exchange s)) = opt_lower (da_vault_address a)"
    "da_commit_sha a = code_id" "da_image_digest a = image_id"
    "da_configuration_sha256 a = ve_configuration_sha256 env s"
    "da_risk_policy_sha256 a = ve_limits_sha256 env (ns_risk s)"
    "da_artifact_manifest_sha256 a = ve_manifest_sha256 env m"
    "av_artifact_manifest_sha256 (ns_approval s) = Some (ve_manifest_sha256 env m)"
    "da_rollback_deployment_id a = am_rollback_deployment_id m"
    using st(11) by (auto simp: expected_values_def Let_def mismatch_def)
  show ?thesis using sig stage(1) ids digests st(2,5,9,13) caps wallet by blast
qed


section \<open>Verification and the ledger\<close>

text \<open>A verified admission fits the ledger's record.\<close>

lemma verified_admission_recordable:
  assumes "verify_deployment_admission env s files code_id image_id instant role address True = Inr v"
    and "native_settings_ok s" "is_sha256_hex (va_admission_id v)"
    and "is_short 256 actor" "is_short 512 reason"
  shows "admission_record_ok (new_admission_record v actor reason instant)"
proof -
  obtain sig lock where st: "is_aware instant" "deployment_approval_error (va_approval v) = None"
    "first_error (signature_checks env s (va_approval v) sig (va_public_key_sha256 v)) = None"
    "approval_is_active (va_approval v) instant = Inr True"
    "first_error (expected_values env s code_id image_id (va_approval v) (va_artifact_manifest v)) = None"
    by (rule verification_steps [OF assms(1)]) blast
  have c: "approval_config_error (ns_approval s) = None"
    using assms(2) by (simp add: native_settings_ok_def native_settings_error_def)
  have ids: "active_approval_id (ns_approval s) (ns_mode s) = Some (da_approval_id (va_approval v))"
    "av_deployment_id (ns_approval s) = Some (da_deployment_id (va_approval v))"
    using st(5) by (auto simp: expected_values_def Let_def mismatch_def)
  have slugs: "is_slug (da_approval_id (va_approval v))" "is_slug (da_deployment_id (va_approval v))"
    "is_sha256_hex (va_public_key_sha256 v)"
    using c ids st(3) by (auto simp: approval_config_error_def active_approval_id_def signature_checks_def
        split: if_splits)
  have f: "approval_fields_error (va_approval v) = None" "approval_window_error (va_approval v) = None"
    using st(2) by (simp_all add: deployment_approval_error_def)
  have active: "micros instant < micros (da_expires_at (va_approval v))"
    using st(4) by (auto simp: approval_is_active_def guardE_eq_Inr_iff)
  show ?thesis
    using f slugs st(1) active assms(3-5)
    by (auto simp: admission_record_ok_def admission_record_error_def new_admission_record_def Let_def
        approval_fields_error_def approval_window_error_def is_capital_def)
qed

lemma rows_unique_map:
  assumes "rows_unique rs"
    and "\<And>r s. r \<in> set rs \<Longrightarrow> s \<in> set rs \<Longrightarrow> row_conflict (f r) (f s) \<Longrightarrow> row_conflict r s"
  shows "rows_unique (map f rs)"
  using assms by (induction rs) (auto simp: list_ex_iff)

lemma ledger_change_read_only: "ledger_change l m \<Longrightarrow> ld_read_only m = ld_read_only l"
  by (induction rule: ledger_change.induct) (auto simp: row_update_def row_insert_def)

lemma ledger_run_writer: "\<not> ld_read_only (ledger_run ops)"
proof -
  have "ledger_inv l \<Longrightarrow> ld_read_only (foldl ledger_step l ops) = ld_read_only l" for l
  proof (induction ops arbitrary: l)
    case (Cons a ops)
    have "ledger_change l (ledger_step l a)" by (rule ledger_step_change [OF Cons.prems])
    with Cons show ?case using ledger_change_keeps ledger_change_read_only by simp
  qed simp
  then show ?thesis using new_ledger_inv by (simp add: new_ledger_def)
qed

lemma renewed_rows_unique:
  assumes inv: "ledger_inv l" and row: "deployment_row l d = Some row" "aw_state row = ADMISSION_ACTIVE"
    and u: "dr_deployment_id u = d" "dr_state u = ADMISSION_ACTIVE"
  shows "rows_unique (map (write_columns u) (ld_admissions l)) \<longleftrightarrow>
    (\<forall>s \<in> set (ld_admissions l). aw_deployment_id s \<noteq> d \<longrightarrow> aw_authorization_id s \<noteq> dr_authorization_id u)"
proof -
  have own: "x = row" if "x \<in> set (ld_admissions l)" "aw_deployment_id x = d" for x
    using that row(1) deployment_row_unique [of l x] inv by (simp add: ledger_inv_def)
  have auth: "aw_authorization_id (write_columns u x)
      = (if aw_deployment_id x = d then dr_authorization_id u else aw_authorization_id x)"
    and state: "aw_state (write_columns u x) = ADMISSION_ACTIVE \<longleftrightarrow> aw_state x = ADMISSION_ACTIVE"
    if "x \<in> set (ld_admissions l)" for x
    using own [OF that] row(2) u by (auto simp: write_columns_def)
  show ?thesis
  proof
    assume fresh: "\<forall>s \<in> set (ld_admissions l). aw_deployment_id s \<noteq> d \<longrightarrow> aw_authorization_id s \<noteq> dr_authorization_id u"
    show "rows_unique (map (write_columns u) (ld_admissions l))"
    proof (rule rows_unique_map)
      show "rows_unique (ld_admissions l)" using inv by (simp add: ledger_inv_def)
      fix r s assume rs: "r \<in> set (ld_admissions l)" "s \<in> set (ld_admissions l)"
        "row_conflict (write_columns u r) (write_columns u s)"
      show "row_conflict r s"
        using rs(3) auth [OF rs(1)] auth [OF rs(2)] state [OF rs(1)] state [OF rs(2)] fresh rs(1,2)
        unfolding row_conflict_def write_columns_id by (auto split: if_splits)
    qed
  next
    assume unique: "rows_unique (map (write_columns u) (ld_admissions l))"
    show "\<forall>s \<in> set (ld_admissions l). aw_deployment_id s \<noteq> d \<longrightarrow> aw_authorization_id s \<noteq> dr_authorization_id u"
    proof (intro ballI impI notI)
      fix s assume s: "s \<in> set (ld_admissions l)" "aw_deployment_id s \<noteq> d" "aw_authorization_id s = dr_authorization_id u"
      have rowd: "row \<in> set (ld_admissions l)" "aw_deployment_id row = d" using deployment_row_Some [OF row(1)] by auto
      have "row_conflict (write_columns u row) (write_columns u s)"
        using auth [OF rowd(1)] auth [OF s(1)] rowd(2) s(2,3) by (simp add: row_conflict_def)
      from rows_unique_eq [OF unique _ _ this] rowd(1) s(1) have "write_columns u row = write_columns u s" by simp
      with rowd(2) s(2) show False using write_columns_id [of u row] write_columns_id [of u s] by metis
    qed
  qed
qed

lemma verified_renewal_Inr:
  assumes "verify_deployment_renewal env rf sf kf c key_id key instant = Inr v"
  shows "first_error (renewal_state_checks c key instant) = None"
    "first_error (renewal_values (vr_renewal v) c) = None" "vr_public_key_sha256 v = key"
    "renewal_is_active (vr_renewal v) instant = Inr True"
  using assms unfolding verify_deployment_renewal_def
  by (auto simp del: first_error.simps simp add: res_simps first_error_None_iff)

text \<open>C33: Verifier and ledger agree on renewals. They check a renewal independently and each with its own reading
  of the clock. Let a renewal be verified at some instant against the record the ledger holds for the deployment. Then
  the ledger, called at any instant, applies it exactly when that instant has a time zone and lies at or after the approval
  and before the current authorization ends, actor and reason are admissible, the renewal and its
  authorization are not in the renewal table, and no other deployment carries that authorization: no other check of the
  ledger ever refuses it. At the instant of the verification the conditions on time hold. When it applies it, the deployment
  is renewed to the new expiry under the new authorization with everything else as admitted.\<close>

theorem verified_renewal_applies:
  assumes "deployment_row (ledger_run ops) d = Some row" "admission_record_ok (aw_record row)"
    and "verify_deployment_renewal env rf sf kf (aw_record row) key_id key instant = Inr v"
  shows "((\<exists>u. snd (renew v actor reason later (ledger_run ops)) = Inr u) \<longleftrightarrow>
       is_aware later \<and> micros (ar_approved_at (vr_renewal v)) \<le> micros later
     \<and> micros later < micros (dr_expires_at (aw_record row))
     \<and> \<not> is_blank actor \<and> length actor \<le> 256 \<and> \<not> is_blank reason \<and> length reason \<le> 512
     \<and> (\<forall>n \<in> set (ld_renewals (ledger_run ops)). nw_authorization_id n \<noteq> vr_authorization_id v
           \<and> nw_renewal_id n \<noteq> ar_renewal_id (vr_renewal v))
     \<and> (\<forall>s \<in> set (ld_admissions (ledger_run ops)). aw_deployment_id s \<noteq> d \<longrightarrow>
           aw_authorization_id s \<noteq> vr_authorization_id v))
   \<and> is_aware instant \<and> micros (ar_approved_at (vr_renewal v)) \<le> micros instant
   \<and> micros instant < micros (dr_expires_at (aw_record row))
   \<and> (\<forall>u. snd (renew v actor reason later (ledger_run ops)) = Inr u \<longrightarrow>
       same_binding (aw_record row) u \<and> dr_state u = ADMISSION_ACTIVE
     \<and> dr_expires_at u = ar_expires_at (vr_renewal v) \<and> dr_authorization_id u = vr_authorization_id v
     \<and> dr_renewal_count u = dr_renewal_count (aw_record row) + 1
     \<and> aw_record (the (deployment_row (fst (renew v actor reason later (ledger_run ops))) d)) = u)"
proof -
  let ?l = "ledger_run ops" and ?c = "aw_record row" and ?a = "vr_renewal v"
  let ?u = "renewed_record v actor reason ?c"
  note inv = ledger_run_inv [of ops] and vf = verified_renewal_Inr [OF assms(3)]
  have rowd: "row \<in> set (ld_admissions ?l)" "aw_deployment_id row = d"
    using deployment_row_Some [OF assms(1)] by auto
  then have "row_synced row" using inv by (simp add: ledger_inv_def)
  then have sync: "dr_deployment_id ?c = d" "dr_state ?c = aw_state row" using rowd
    by (simp_all add: row_synced_def Let_def)
  have state: "dr_state ?c = ADMISSION_ACTIVE" "is_aware instant" "dr_approval_public_key_sha256 ?c = Some key"
    "micros instant < micros (dr_expires_at ?c)"
    using vf(1) by (auto simp: renewal_state_checks_def)
  have window: "micros (dr_expires_at ?c) < micros (ar_expires_at ?a)"
    "micros (ar_approved_at ?a) \<le> micros instant"
    using vf(2,4) state(2) by (auto simp: renewal_values_def Let_def renewal_is_active_def res_simps not_le)
  have checks: "renewal_error v later ?c ?l = None \<longleftrightarrow>
      micros later < micros (dr_expires_at ?c) \<and> \<not> list_ex (\<lambda>n. nw_authorization_id n = vr_authorization_id v) (ld_renewals ?l)"
    using vf(1,2,3)
    by (auto simp: renewal_error_def immutable_mismatch_def renewal_state_checks_def renewal_values_def Let_def not_le)
  have dep: "ar_deployment_id ?a = d" using vf(2) sync by (auto simp: renewal_values_def Let_def)
  have unique: "rows_unique (map (write_columns ?u) (ld_admissions ?l)) \<longleftrightarrow>
      (\<forall>s \<in> set (ld_admissions ?l). aw_deployment_id s \<noteq> d \<longrightarrow> aw_authorization_id s \<noteq> vr_authorization_id v)"
    using renewed_rows_unique [OF inv assms(1), of ?u] sync state by (simp add: renewed_record_def)
  define ok where "ok \<longleftrightarrow> is_aware later \<and> micros (ar_approved_at ?a) \<le> micros later
     \<and> micros later < micros (dr_expires_at ?c)
     \<and> \<not> is_blank actor \<and> length actor \<le> 256 \<and> \<not> is_blank reason \<and> length reason \<le> 512
     \<and> (\<forall>n \<in> set (ld_renewals ?l). nw_authorization_id n \<noteq> vr_authorization_id v \<and> nw_renewal_id n \<noteq> ar_renewal_id ?a)
     \<and> (\<forall>s \<in> set (ld_admissions ?l). aw_deployment_id s \<noteq> d \<longrightarrow> aw_authorization_id s \<noteq> vr_authorization_id v)"
  have applied: "\<exists>m. renew v actor reason later ?l = (m, Inr ?u) \<and> ld_admissions m = map (write_columns ?u) (ld_admissions ?l)"
    if ok
  proof -
    have "renewal_error v later ?c ?l = None" using that checks by (auto simp: ok_def list_ex_iff)
    moreover have "rows_unique (map (write_columns ?u) (ld_admissions ?l))" using that unique by (simp add: ok_def)
    moreover have "\<not> list_ex (\<lambda>n. nw_authorization_id n = vr_authorization_id v
        \<or> nw_renewal_id n = ar_renewal_id ?a) (ld_renewals ?l)"
      using that by (auto simp: ok_def list_ex_iff)
    moreover have "renewal_is_active ?a later = Inr True"
      using that window(1) by (simp add: ok_def renewal_is_active_def)
    ultimately show ?thesis
      using that assms(1,2) dep ledger_run_writer [of ops]
      by (simp add: ok_def renew_def transact_def require_writer_def validate_transition_input_def
          renew_transaction_def load_record_def admission_record_ok_def insert_renewal_def update_record_def
          insert_transition_def Let_def)
  qed
  have refused: "ok" if "snd (renew v actor reason later ?l) = Inr u" for u
    using that assms(1,2) dep sync
    by (auto simp: ok_def renew_def transact_def require_writer_def validate_transition_input_def renewal_is_active_def
        renew_transaction_def load_record_def admission_record_ok_def insert_renewal_def update_record_def
        checks unique list_ex_iff Let_def res_simps split: sum.splits if_splits option.splits)
  have stored: "aw_record (the (deployment_row m d)) = ?u" if "ld_admissions m = map (write_columns ?u) (ld_admissions ?l)" for m
    using deployment_row_update [OF that] assms(1) write_columns_own [of row ?u] rowd sync by (simp add: renewed_record_def)
  have "same_binding ?c ?u" "dr_state ?u = ADMISSION_ACTIVE" "dr_expires_at ?u = ar_expires_at ?a"
    "dr_authorization_id ?u = vr_authorization_id v" "dr_renewal_count ?u = dr_renewal_count ?c + 1"
    using state by (simp_all add: renewed_record_def same_binding_def)
  moreover have "u = ?u \<and> aw_record (the (deployment_row (fst (renew v actor reason later ?l)) d)) = ?u"
    if "snd (renew v actor reason later ?l) = Inr u" for u
    using applied [OF refused [OF that]] stored that by auto
  moreover have "(\<exists>u. snd (renew v actor reason later ?l) = Inr u) \<longleftrightarrow> ok"
    using applied refused by (metis snd_conv)
  ultimately show ?thesis using state window unfolding ok_def [symmetric] by auto
qed


section \<open>Examples\<close>

definition example_env :: verification_env where
  "example_env = \<lparr>ve_approval_sha256 = (\<lambda>_. hex64 CHR ''0''), ve_manifest_sha256 = (\<lambda>_. hex64 CHR ''a''),
     ve_signature_sha256 = (\<lambda>_. hex64 CHR ''f''), ve_renewal_sha256 = (\<lambda>_. hex64 CHR ''1''),
     ve_limits_sha256 = (\<lambda>_. hex64 CHR ''7''), ve_configuration_sha256 = (\<lambda>_. hex64 CHR ''4''),
     ve_admission_sha256 = (\<lambda>_ _ _ _. hex64 CHR ''a''), ve_authorization_sha256 = (\<lambda>_ _ _. hex64 CHR ''d''),
     ve_approval_signed = (\<lambda>key a sig. key = hex64 CHR ''b'' \<and> da_approver a = ''operator''),
     ve_renewal_signed = (\<lambda>key r sig. key = hex64 CHR ''e'' \<and> ar_approver r = ''operator'')\<rparr>"

definition example_signature :: "string \<Rightarrow> detached_signature" where
  "example_signature digest = \<lparr>ds_key_id = ''release-key'', ds_approval_sha256 = digest,
     ds_signature_base64 = replicate 86 CHR ''A'' @ ''==''\<rparr>"

fun example_artifact :: "artifact_binding list \<Rightarrow> string \<Rightarrow> string res" where
  "example_artifact [] p = Inl (RuntimeError ''missing'')"
| "example_artifact (b # bs) p = (if bi_relative_path b = p then Inr (bi_content_sha256 b) else example_artifact bs p)"

definition example_files :: admission_files where
  "example_files = \<lparr>vf_approval = Inr canary_approval, vf_manifest = Inr example_manifest,
     vf_signature = Inr (example_signature (hex64 CHR ''0'')), vf_public_key_sha256 = Inr (hex64 CHR ''b''),
     vf_runtime_lock_sha256 = Inr (hex64 CHR ''1''), vf_artifact_root = Inr (),
     vf_artifact_sha256 = example_artifact (am_artifacts example_manifest)\<rparr>"

lemma example_verifies:
  "is_ok (verify_deployment_admission example_env canary_settings example_files (replicate 40 CHR ''c'')
     (''sha256:'' @ hex64 CHR ''d'') (Aware 1500) (Some TRADING_WALLET) (Some (example_address CHR ''2'')) True)"
  by code_simp

theorem verified_admission_sound_witness:
  "\<exists>v. verify_deployment_admission example_env canary_settings example_files (replicate 40 CHR ''c'')
         (''sha256:'' @ hex64 CHR ''d'') (Aware 1500) (Some TRADING_WALLET) (Some (example_address CHR ''2'')) True = Inr v
     \<and> da_capital_limit_usd (va_approval v) \<le> CANARY_CAPITAL_HARD_CAP_USD"
proof -
  obtain v where v: "verify_deployment_admission example_env canary_settings example_files (replicate 40 CHR ''c'')
      (''sha256:'' @ hex64 CHR ''d'') (Aware 1500) (Some TRADING_WALLET) (Some (example_address CHR ''2'')) True = Inr v"
    using example_verifies by (auto simp: is_ok_iff)
  with verified_admission_sound [OF v refl refl] show ?thesis by (auto simp: canary_settings_def)
qed

definition second_renewal :: authorization_renewal where
  "second_renewal = (vr_renewal example_renewal)\<lparr>ar_renewal_id := ''renewal-2'',
     ar_prior_authorization_id := hex64 CHR ''c'', ar_approved_at := Aware 7000, ar_expires_at := Aware 12000\<rparr>"

abbreviation second_verification :: "admission_record \<Rightarrow> verified_renewal res" where
  "second_verification c \<equiv> verify_deployment_renewal example_env (Inr second_renewal)
     (Inr (example_signature (hex64 CHR ''1''))) (Inr (hex64 CHR ''e'')) c ''release-key'' (hex64 CHR ''e'') (Aware 8000)"

definition renewal_ready :: "ledger \<Rightarrow> bool" where
  "renewal_ready l =
     (case deployment_row l ''production-1'' of None \<Rightarrow> False
      | Some row \<Rightarrow> admission_record_ok (aw_record row)
          \<and> (case second_verification (aw_record row) of Inl _ \<Rightarrow> False
             | Inr v \<Rightarrow> list_all (\<lambda>n. nw_authorization_id n \<noteq> vr_authorization_id v
                             \<and> nw_renewal_id n \<noteq> ar_renewal_id (vr_renewal v)) (ld_renewals l)
                   \<and> list_all (\<lambda>s. aw_authorization_id s \<noteq> vr_authorization_id v) (ld_admissions l)
                   \<and> ar_expires_at (vr_renewal v) = Aware 12000
                   \<and> 8500 < micros (dr_expires_at (aw_record row)) \<and> micros (ar_approved_at (vr_renewal v)) \<le> 8500))"

lemma example_renewal_ready: "renewal_ready (ledger_run example_ops)"
  by code_simp

theorem verified_renewal_applies_witness:
  "\<exists>v u. snd (renew v ''op'' ''week 3'' (Aware 8500) (ledger_run example_ops)) = Inr u
     \<and> dr_expires_at u = Aware 12000"
proof -
  obtain row v where row: "deployment_row (ledger_run example_ops) ''production-1'' = Some row"
    "admission_record_ok (aw_record row)" "second_verification (aw_record row) = Inr v"
    and fresh: "\<forall>n \<in> set (ld_renewals (ledger_run example_ops)). nw_authorization_id n \<noteq> vr_authorization_id v
        \<and> nw_renewal_id n \<noteq> ar_renewal_id (vr_renewal v)"
      "\<forall>s \<in> set (ld_admissions (ledger_run example_ops)). aw_authorization_id s \<noteq> vr_authorization_id v"
    and e: "ar_expires_at (vr_renewal v) = Aware 12000" "8500 < micros (dr_expires_at (aw_record row))"
      "micros (ar_approved_at (vr_renewal v)) \<le> 8500"
    using example_renewal_ready
    by (auto simp: renewal_ready_def list_all_iff split: option.splits sum.splits)
  have "\<not> is_blank ''op''" "\<not> is_blank ''week 3''" by (simp_all add: is_blank_def is_space_def)
  note applies = verified_renewal_applies [OF row, of "''op''" "''week 3''" "Aware 8500"]
  have "\<exists>u. snd (renew v ''op'' ''week 3'' (Aware 8500) (ledger_run example_ops)) = Inr u"
    using applies fresh e \<open>\<not> is_blank ''op''\<close> \<open>\<not> is_blank ''week 3''\<close> by simp
  then obtain u where u: "snd (renew v ''op'' ''week 3'' (Aware 8500) (ledger_run example_ops)) = Inr u" by blast
  then have "dr_expires_at u = Aware 12000" using applies e(1) by metis
  with u show ?thesis by blast
qed

end
