(* ===== verification/Sentinel.thy ===== *)
theory Sentinel
  imports Admission_Ledger Heartbeat
begin

text \<open>
  The safety sentinel of \<open>sentinel/service.py\<close>: one monitoring step classifies the trading node's
  heartbeat, cancels everything while it is unhealthy and renews the exchange's dead-man timer only
  while it is healthy. The exchange client is outside: what its calls answer are inputs of a step, and
  the calls made are recorded in the state. The heartbeat file, the admission guard's answer and the
  clock are inputs too. Metrics are left out; the evidence log keeps kind, verdict and order count.
  \<open>expiry_ns\<close>, a float conversion of an instant to nanoseconds, is an argument.
\<close>

section \<open>State and inputs\<close>

record sentinel_setup =
  ss_settings :: native_settings
  ss_fingerprint :: string
  ss_admission :: "verified_admission option"
  ss_guarded :: bool

definition sentinel_setup_error :: "sentinel_setup \<Rightarrow> string option" where
  "sentinel_setup_error s = first_error
     [(\<not> sc_enabled (ns_sentinel (ss_settings s)), ''safety sentinel cannot run while disabled''),
      (xc_account_address (ns_exchange (ss_settings s)) = None,
       ''safety sentinel requires an account address'')]"

datatype operational_kind = SENTINEL_EMERGENCY_CANCEL | DEADMAN_SCHEDULE | HEARTBEAT_STATE

record operational_entry =
  oe_kind :: operational_kind
  oe_success :: bool
  oe_order_count :: "int option"

text \<open>A call to the exchange client: when it was made, and what it was or answered.\<close>

datatype client_call =
    Schedule_Cancel int int bool
  | Cancel_All int bool

record sentinel =
  sn_last_renew_ns :: int
  sn_last_emergency_cancel_ns :: "int option"
  sn_last_health :: "bool option"
  sn_last_deadman_schedule_success :: "bool option"
  sn_last_emergency_cancel_success :: "bool option"
  sn_calls :: "client_call list"
  sn_log :: "operational_entry list"

definition new_sentinel :: sentinel where
  "new_sentinel = \<lparr>sn_last_renew_ns = 0, sn_last_emergency_cancel_ns = None, sn_last_health = None,
     sn_last_deadman_schedule_success = None, sn_last_emergency_cancel_success = None,
     sn_calls = [], sn_log = []\<rparr>"

text \<open>What a step reads: the clock, the heartbeat file (\<open>None\<close> when it cannot be read), the record the
  guard answers, the answers to the cancel attempts in order and to the schedule call.\<close>

record sentinel_input =
  sx_now :: int
  sx_heartbeat :: "trading_heartbeat option"
  sx_authorization :: "admission_record option"
  sx_cancel_answer :: "nat \<Rightarrow> int res"
  sx_schedule_answer :: "unit res"

section \<open>Classification\<close>

definition expected_expiry :: "sentinel_setup \<Rightarrow> admission_record option \<Rightarrow> datetime option" where
  "expected_expiry s authorization =
     (case ss_admission s of None \<Rightarrow> None
      | Some a \<Rightarrow> Some (case authorization of None \<Rightarrow> da_expires_at (va_approval a) | Some r \<Rightarrow> dr_expires_at r))"

definition classify ::
  "(datetime \<Rightarrow> int) \<Rightarrow> sentinel_setup \<Rightarrow> trading_heartbeat option \<Rightarrow> admission_record option \<Rightarrow> int
     \<Rightarrow> bool \<times> int \<times> bool" where
  "classify expiry_ns s heartbeat authorization now =
     (let stale_ns = sc_heartbeat_stale_after_ms (ns_sentinel (ss_settings s)) * 1000000;
          auth = (if ss_guarded s then authorization else None);
          admission_healthy = (\<not> ss_guarded s \<or> auth \<noteq> None)
      in case heartbeat of
           None \<Rightarrow> (False, stale_ns + 1, admission_healthy)
         | Some h \<Rightarrow>
             (let age_ns = max 0 (now - hb_heartbeat_ts_ns h);
                  identity_healthy = (case ss_admission s of None \<Rightarrow> True
                    | Some a \<Rightarrow> hb_deployment_id h = Some (da_deployment_id (va_approval a))
                        \<and> hb_approval_id h = Some (da_approval_id (va_approval a))
                        \<and> hb_admission_id h = Some (va_admission_id a)
                        \<and> hb_approval_expires_ts_ns h = map_option expiry_ns (expected_expiry s auth));
                  healthy = (age_ns \<le> stale_ns \<and> admission_healthy \<and> identity_healthy
                    \<and> hb_environment h = ns_environment (ss_settings s)
                    \<and> Some (py_lower (hb_account_address h))
                        = opt_lower (xc_account_address (ns_exchange (ss_settings s)))
                    \<and> hb_config_fingerprint h = ss_fingerprint s \<and> hb_execution_healthy h
                    \<and> hb_reconciliation_complete h \<and> \<not> hb_operator_kill h)
              in (healthy, age_ns, admission_healthy)))"

definition is_healthy :: "(datetime \<Rightarrow> int) \<Rightarrow> sentinel_setup \<Rightarrow> sentinel_input \<Rightarrow> bool" where
  "is_healthy expiry_ns s x = fst (classify expiry_ns s (sx_heartbeat x) (sx_authorization x) (sx_now x))"

section \<open>The monitoring step\<close>

definition record_operational :: "operational_kind \<Rightarrow> bool \<Rightarrow> int option \<Rightarrow> sentinel \<Rightarrow> sentinel" where
  "record_operational kind success count n =
     n\<lparr>sn_log := sn_log n @ [\<lparr>oe_kind = kind, oe_success = success, oe_order_count = count\<rparr>]\<rparr>"

definition record_health_transition :: "bool \<Rightarrow> sentinel \<Rightarrow> sentinel" where
  "record_health_transition healthy n =
     (if sn_last_health n = Some healthy then n
      else (record_operational HEARTBEAT_STATE healthy None n)\<lparr>sn_last_health := Some healthy\<rparr>)"

text \<open>The attempts of \<open>for _attempt in range(cancel_retry_count)\<close>: the calls and the last answer.\<close>

fun cancel_attempts :: "nat \<Rightarrow> (nat \<Rightarrow> int res) \<Rightarrow> nat \<Rightarrow> int res \<Rightarrow> bool list \<times> int res" where
  "cancel_attempts i answer 0 latest = ([], latest)"
| "cancel_attempts i answer (Suc k) latest =
     (case answer i of
        Inr n \<Rightarrow> ([True], Inr n)
      | Inl e \<Rightarrow> (let (calls, r) = cancel_attempts (Suc i) answer k (Inl e) in (False # calls, r)))"

definition repeat_ns :: "sentinel_setup \<Rightarrow> int" where
  "repeat_ns s = sc_deadman_renew_interval_ms (ns_sentinel (ss_settings s)) * 1000000"

definition emergency_due :: "sentinel_setup \<Rightarrow> int \<Rightarrow> sentinel \<Rightarrow> bool" where
  "emergency_due s now n \<longleftrightarrow>
     (case sn_last_emergency_cancel_ns n of None \<Rightarrow> True | Some t \<Rightarrow> repeat_ns s \<le> now - t)"

definition emergency_cancel :: "sentinel_setup \<Rightarrow> sentinel_input \<Rightarrow> sentinel \<Rightarrow> sentinel \<times> unit res" where
  "emergency_cancel s x n =
     (let (calls, result) = cancel_attempts 0 (sx_cancel_answer x)
            (nat (sc_cancel_retry_count (ns_sentinel (ss_settings s)))) (Inr 0);
          n1 = n\<lparr>sn_calls := sn_calls n @ map (Cancel_All (sx_now x)) calls\<rparr>
      in case result of
           Inl e \<Rightarrow>
             (let n2 = (if sn_last_emergency_cancel_success n1 = Some False then n1
                        else record_operational SENTINEL_EMERGENCY_CANCEL False None n1)
              in (n2\<lparr>sn_last_emergency_cancel_success := Some False\<rparr>, Inl e))
         | Inr count \<Rightarrow>
             (let n2 = (if sn_last_emergency_cancel_success n1 = Some True then n1
                        else record_operational SENTINEL_EMERGENCY_CANCEL True (Some count) n1)
              in (n2\<lparr>sn_last_emergency_cancel_success := Some True,
                    sn_last_emergency_cancel_ns := Some (sx_now x)\<rparr>, Inr ())))"

definition unhealthy_step :: "sentinel_setup \<Rightarrow> sentinel_input \<Rightarrow> sentinel \<Rightarrow> sentinel \<times> bool res" where
  "unhealthy_step s x n =
     bindS (if emergency_due s (sx_now x) n then emergency_cancel s x n else (n, Inr ()))
       (\<lambda>n _. (record_health_transition False n, Inr False))"

definition deadman_deadline_ms :: "sentinel_setup \<Rightarrow> int \<Rightarrow> int" where
  "deadman_deadline_ms s now = now div 1000000 + sc_deadman_timeout_ms (ns_sentinel (ss_settings s))"

definition renew_deadman :: "sentinel_setup \<Rightarrow> sentinel_input \<Rightarrow> sentinel \<Rightarrow> sentinel \<times> unit res" where
  "renew_deadman s x n =
     (let deadline = deadman_deadline_ms s (sx_now x);
          n1 = n\<lparr>sn_calls := sn_calls n @ [Schedule_Cancel (sx_now x) deadline (is_ok (sx_schedule_answer x))]\<rparr>
      in case sx_schedule_answer x of
           Inl e \<Rightarrow>
             (let n2 = (if sn_last_deadman_schedule_success n1 = Some False then n1
                        else record_operational DEADMAN_SCHEDULE False None n1)
              in (n2\<lparr>sn_last_deadman_schedule_success := Some False\<rparr>, Inl e))
         | Inr _ \<Rightarrow>
             (let n2 = (if sn_last_deadman_schedule_success n1 = Some True then n1
                        else record_operational DEADMAN_SCHEDULE True None n1)
              in (n2\<lparr>sn_last_deadman_schedule_success := Some True, sn_last_renew_ns := sx_now x\<rparr>, Inr ())))"

definition healthy_step :: "sentinel_setup \<Rightarrow> sentinel_input \<Rightarrow> sentinel \<Rightarrow> sentinel \<times> bool res" where
  "healthy_step s x n =
     (let n1 = n\<lparr>sn_last_emergency_cancel_ns := None, sn_last_emergency_cancel_success := None\<rparr>
      in bindS (if repeat_ns s \<le> sx_now x - sn_last_renew_ns n1 then renew_deadman s x n1 else (n1, Inr ()))
           (\<lambda>n _. (record_health_transition True n, Inr True)))"

definition sentinel_step ::
  "(datetime \<Rightarrow> int) \<Rightarrow> sentinel_setup \<Rightarrow> sentinel \<Rightarrow> sentinel_input \<Rightarrow> sentinel \<times> bool res" where
  "sentinel_step expiry_ns s n x =
     (if is_healthy expiry_ns s x then healthy_step s x n else unhealthy_step s x n)"

text \<open>
  The loop of \<open>sentinel/cli.py\<close>: one step per poll. A step that raises ends the process; the next one
  starts from the initial state. The calls and the log, which are outside the process, remain.
\<close>

definition restarted :: "sentinel \<Rightarrow> sentinel" where
  "restarted n = new_sentinel\<lparr>sn_calls := sn_calls n, sn_log := sn_log n\<rparr>"

definition sentinel_poll ::
  "(datetime \<Rightarrow> int) \<Rightarrow> sentinel_setup \<Rightarrow> sentinel \<Rightarrow> sentinel_input \<Rightarrow> sentinel" where
  "sentinel_poll expiry_ns s n x =
     (case sentinel_step expiry_ns s n x of (n', Inl _) \<Rightarrow> restarted n' | (n', Inr _) \<Rightarrow> n')"

section \<open>The exchange client\<close>

text \<open>
  \<open>HyperliquidControlClient.cancel_all\<close>: the answer of \<open>openOrders\<close> is \<open>None\<close> when it is not a list; an
  entry that is an object has a coin when it is a text and an identity when it is an integer. The batches
  handed to \<open>bulk_cancel\<close> are returned beside the result.
\<close>

datatype open_order_entry = Open_Order "string option" "int option" | Not_An_Object

type_synonym cancel_request = "string \<times> int"

definition ensure_ok :: "bool \<Rightarrow> string \<Rightarrow> unit res" where
  "ensure_ok status_ok operation =
     guardE (\<not> status_ok)
       (RuntimeError (''Hyperliquid '' @ operation @ '' failed without a successful response'')) (Inr ())"

fun cancel_requests :: "open_order_entry list \<Rightarrow> cancel_request list res" where
  "cancel_requests [] = Inr []"
| "cancel_requests (Not_An_Object # es) = Inl (RuntimeError ''openOrders contains a non-object entry'')"
| "cancel_requests (Open_Order (Some coin) (Some oid) # es) =
     bindE (cancel_requests es) (\<lambda>cs. Inr ((coin, oid) # cs))"
| "cancel_requests (Open_Order _ _ # es) =
     Inl (RuntimeError ''openOrders entry is missing coin or numeric oid'')"

definition client_cancel_all ::
  "open_order_entry list option \<Rightarrow> (cancel_request list \<Rightarrow> bool)
     \<Rightarrow> cancel_request list list \<times> int res" where
  "client_cancel_all orders bulk_cancel =
     (case orders of
        None \<Rightarrow> ([], Inl (RuntimeError ''openOrders returned an unexpected response''))
      | Some es \<Rightarrow>
          (case cancel_requests es of
             Inl e \<Rightarrow> ([], Inl e)
           | Inr cs \<Rightarrow>
               (if cs = [] then ([], Inr 0)
                else ([cs], bindE (ensure_ok (bulk_cancel cs) ''cancel'') (\<lambda>_. Inr (int (length cs)))))))"

lemma cancel_requests_all:
  "cancel_requests es = Inr cs \<Longrightarrow> es = map (\<lambda>(coin, oid). Open_Order (Some coin) (Some oid)) cs"
  by (induction es arbitrary: cs rule: cancel_requests.induct) (auto simp: bindE_eq_Inr_iff)

text \<open>A reported count is the number of listed orders, all of them sent in one accepted batch.\<close>

lemma client_cancel_all_complete:
  assumes "client_cancel_all orders bulk_cancel = (sent, Inr n)"
  obtains cs where "orders = Some (map (\<lambda>(coin, oid). Open_Order (Some coin) (Some oid)) cs)"
    "n = int (length cs)" "concat sent = cs" "\<forall>b \<in> set sent. bulk_cancel b"
  using assms
  by (force simp: client_cancel_all_def ensure_ok_def guardE_def split: option.splits sum.splits if_splits
      dest: cancel_requests_all)

section \<open>What a step calls\<close>

fun is_schedule :: "client_call \<Rightarrow> bool" where
  "is_schedule (Schedule_Cancel t d ok) = True"
| "is_schedule (Cancel_All t ok) = False"

fun sets_timer :: "client_call \<Rightarrow> bool" where
  "sets_timer (Schedule_Cancel t d ok) = ok"
| "sets_timer (Cancel_All t ok) = False"

lemma record_operational_simps [simp]:
  "sn_calls (record_operational k b c n) = sn_calls n"
  "sn_last_renew_ns (record_operational k b c n) = sn_last_renew_ns n"
  "sn_last_emergency_cancel_ns (record_operational k b c n) = sn_last_emergency_cancel_ns n"
  by (simp_all add: record_operational_def)

lemma record_health_transition_simps [simp]:
  "sn_calls (record_health_transition h n) = sn_calls n"
  "sn_last_renew_ns (record_health_transition h n) = sn_last_renew_ns n"
  "sn_last_emergency_cancel_ns (record_health_transition h n) = sn_last_emergency_cancel_ns n"
  by (simp_all add: record_health_transition_def)

lemma cancel_attempts_Inr:
  "cancel_attempts i answer k latest = (calls, Inr n) \<Longrightarrow>
     k = 0 \<and> calls = [] \<or> (\<exists>j < k. calls = replicate j False @ [True])"
proof (induction i answer k latest arbitrary: calls rule: cancel_attempts.induct)
  case (2 i answer k latest)
  show ?case
  proof (cases "answer i")
    case (Inl e)
    obtain cs r where c: "cancel_attempts (Suc i) answer k (Inl e) = (cs, r)" by fastforce
    with 2(2) Inl have r: "r = Inr n" "calls = False # cs" by auto
    show ?thesis
    proof (cases k)
      case (Suc k')
      from 2(1) [OF Inl] c r Suc obtain j where "j < k" "cs = replicate j False @ [True]" by auto
      then show ?thesis using r by (intro disjI2 exI [of _ "Suc j"]) auto
    qed (use c r in auto)
  qed (use 2 in \<open>auto intro!: exI [of _ 0]\<close>)
qed auto

lemma cancel_attempts_Inl:
  "cancel_attempts i answer k latest = (calls, Inl e) \<Longrightarrow> calls = replicate k False"
  by (induction i answer k latest arbitrary: calls rule: cancel_attempts.induct)
    (auto split: sum.splits prod.splits)

lemma emergency_cancel_cases:
  assumes "emergency_cancel s x n = (n', r)" "0 < sc_cancel_retry_count (ns_sentinel (ss_settings s))"
  obtains (cancelled) j where "r = Inr ()" "int j < sc_cancel_retry_count (ns_sentinel (ss_settings s))"
      "sn_calls n' = sn_calls n @ replicate j (Cancel_All (sx_now x) False) @ [Cancel_All (sx_now x) True]"
      "sn_last_emergency_cancel_ns n' = Some (sx_now x)" "sn_last_renew_ns n' = sn_last_renew_ns n"
  | (failed) e where "r = Inl e"
      "sn_calls n' = sn_calls n @ replicate (nat (sc_cancel_retry_count (ns_sentinel (ss_settings s))))
         (Cancel_All (sx_now x) False)"
      "sn_last_emergency_cancel_ns n' = sn_last_emergency_cancel_ns n"
      "sn_last_renew_ns n' = sn_last_renew_ns n"
proof -
  obtain calls result where c: "cancel_attempts 0 (sx_cancel_answer x)
      (nat (sc_cancel_retry_count (ns_sentinel (ss_settings s)))) (Inr 0) = (calls, result)"
    by fastforce
  show ?thesis
  proof (cases result)
    case (Inl e)
    with c have k: "calls = replicate (nat (sc_cancel_retry_count (ns_sentinel (ss_settings s)))) False"
      using cancel_attempts_Inl by blast
    have e: "emergency_cancel s x n =
       ((if sn_last_emergency_cancel_success n = Some False
         then n\<lparr>sn_calls := sn_calls n @ map (Cancel_All (sx_now x)) calls\<rparr>
         else record_operational SENTINEL_EMERGENCY_CANCEL False None
                (n\<lparr>sn_calls := sn_calls n @ map (Cancel_All (sx_now x)) calls\<rparr>))
        \<lparr>sn_last_emergency_cancel_success := Some False\<rparr>, Inl e)"
      using c Inl by (simp add: emergency_cancel_def Let_def)
    have "r = Inl e" "sn_calls n' = sn_calls n @ map (Cancel_All (sx_now x)) calls"
      "sn_last_emergency_cancel_ns n' = sn_last_emergency_cancel_ns n"
      "sn_last_renew_ns n' = sn_last_renew_ns n"
      using assms(1) unfolding e by (auto split: if_splits)
    with k show ?thesis by (intro failed [of e]) simp_all
  next
    case (Inr m)
    from cancel_attempts_Inr [OF c [unfolded Inr]] assms(2) obtain j where
      j: "j < nat (sc_cancel_retry_count (ns_sentinel (ss_settings s)))" "calls = replicate j False @ [True]"
      by auto
    have e: "emergency_cancel s x n =
       ((if sn_last_emergency_cancel_success n = Some True
         then n\<lparr>sn_calls := sn_calls n @ map (Cancel_All (sx_now x)) calls\<rparr>
         else record_operational SENTINEL_EMERGENCY_CANCEL True (Some m)
                (n\<lparr>sn_calls := sn_calls n @ map (Cancel_All (sx_now x)) calls\<rparr>))
        \<lparr>sn_last_emergency_cancel_success := Some True,
         sn_last_emergency_cancel_ns := Some (sx_now x)\<rparr>, Inr ())"
      using c Inr by (simp add: emergency_cancel_def Let_def)
    have "r = Inr ()" "sn_calls n' = sn_calls n @ map (Cancel_All (sx_now x)) calls"
      "sn_last_emergency_cancel_ns n' = Some (sx_now x)" "sn_last_renew_ns n' = sn_last_renew_ns n"
      using assms(1) unfolding e by (auto split: if_splits)
    with j show ?thesis by (intro cancelled [of j]) simp_all
  qed
qed

lemma renew_deadman_cases:
  assumes "renew_deadman s x n = (n', r)"
  obtains (renewed) "r = Inr ()" "sn_last_renew_ns n' = sx_now x"
      "sn_calls n' = sn_calls n @ [Schedule_Cancel (sx_now x) (deadman_deadline_ms s (sx_now x)) True]"
      "sn_last_emergency_cancel_ns n' = sn_last_emergency_cancel_ns n"
  | (failed) e where "r = Inl e" "sn_last_renew_ns n' = sn_last_renew_ns n"
      "sn_calls n' = sn_calls n @ [Schedule_Cancel (sx_now x) (deadman_deadline_ms s (sx_now x)) False]"
      "sn_last_emergency_cancel_ns n' = sn_last_emergency_cancel_ns n"
proof (cases "sx_schedule_answer x")
  case (Inl e)
  from assms show ?thesis unfolding renew_deadman_def Let_def Inl
    by (intro failed [of e]) (auto split: if_splits)
next
  case (Inr u)
  from assms show ?thesis unfolding renew_deadman_def Let_def Inr
    by (intro renewed) (auto split: if_splits)
qed

text \<open>One step, as the calls it adds and what it leaves in the two clocks.\<close>

lemma sentinel_step_cases:
  assumes "sentinel_step expiry_ns s n x = (n', r)"
    "0 < sc_cancel_retry_count (ns_sentinel (ss_settings s))"
  obtains (cancelled) j where "\<not> is_healthy expiry_ns s x" "r = Inr False" "emergency_due s (sx_now x) n"
      "int j < sc_cancel_retry_count (ns_sentinel (ss_settings s))"
      "sn_calls n' = sn_calls n @ replicate j (Cancel_All (sx_now x) False) @ [Cancel_All (sx_now x) True]"
      "sn_last_emergency_cancel_ns n' = Some (sx_now x)" "sn_last_renew_ns n' = sn_last_renew_ns n"
  | (exhausted) e where "\<not> is_healthy expiry_ns s x" "r = Inl e" "emergency_due s (sx_now x) n"
      "sn_calls n' = sn_calls n @ replicate (nat (sc_cancel_retry_count (ns_sentinel (ss_settings s))))
         (Cancel_All (sx_now x) False)"
  | (waiting) "\<not> is_healthy expiry_ns s x" "r = Inr False" "\<not> emergency_due s (sx_now x) n"
      "sn_calls n' = sn_calls n" "sn_last_renew_ns n' = sn_last_renew_ns n"
      "sn_last_emergency_cancel_ns n' = sn_last_emergency_cancel_ns n"
  | (renewed) "is_healthy expiry_ns s x" "r = Inr True"
      "sn_calls n' = sn_calls n @ [Schedule_Cancel (sx_now x) (deadman_deadline_ms s (sx_now x)) True]"
      "sn_last_renew_ns n' = sx_now x" "sn_last_emergency_cancel_ns n' = None"
  | (refused) e where "is_healthy expiry_ns s x" "r = Inl e"
      "sn_calls n' = sn_calls n @ [Schedule_Cancel (sx_now x) (deadman_deadline_ms s (sx_now x)) False]"
  | (covered) "is_healthy expiry_ns s x" "r = Inr True" "sx_now x - sn_last_renew_ns n < repeat_ns s"
      "sn_calls n' = sn_calls n" "sn_last_renew_ns n' = sn_last_renew_ns n"
      "sn_last_emergency_cancel_ns n' = None"
proof (cases "is_healthy expiry_ns s x")
  case h: True
  let ?n = "n\<lparr>sn_last_emergency_cancel_ns := None, sn_last_emergency_cancel_success := None\<rparr>"
  show ?thesis
  proof (cases "repeat_ns s \<le> sx_now x - sn_last_renew_ns n")
    case True
    obtain n1 r1 where c: "renew_deadman s x ?n = (n1, r1)" by fastforce
    have step: "(n', r) = bindS (n1, r1) (\<lambda>n _. (record_health_transition True n, Inr True))"
      using assms(1) h True c by (simp add: sentinel_step_def healthy_step_def Let_def)
    from c show ?thesis
    proof (cases rule: renew_deadman_cases)
      case renewed with step h show ?thesis by (intro that(4)) simp_all
    next
      case (failed e) with step h show ?thesis by (intro that(5) [of e]) simp_all
    qed
  next
    case False
    with assms(1) h show ?thesis
      by (intro that(6)) (auto simp: sentinel_step_def healthy_step_def Let_def)
  qed
next
  case h: False
  show ?thesis
  proof (cases "emergency_due s (sx_now x) n")
    case True
    obtain n1 r1 where c: "emergency_cancel s x n = (n1, r1)" by fastforce
    have step: "(n', r) = bindS (n1, r1) (\<lambda>n _. (record_health_transition False n, Inr False))"
      using assms(1) h True c by (simp add: sentinel_step_def unhealthy_step_def)
    from c assms(2) show ?thesis
    proof (cases rule: emergency_cancel_cases)
      case (cancelled j) with step h True show ?thesis by (intro that(1) [of j]) simp_all
    next
      case (failed e) with step h True show ?thesis by (intro that(2) [of e]) simp_all
    qed
  next
    case False
    with assms(1) h show ?thesis
      by (intro that(3)) (auto simp: sentinel_step_def unhealthy_step_def)
  qed
qed

lemma restarted_simps [simp]:
  "sn_calls (restarted n) = sn_calls n" "sn_last_renew_ns (restarted n) = 0"
  "sn_last_emergency_cancel_ns (restarted n) = None"
  by (simp_all add: restarted_def new_sentinel_def)

section \<open>The invariant of a run\<close>

text \<open>
  Both clocks point at the call they remember: the emergency cancellation was confirmed and no timer was
  set since, the renewal was accepted and is the latest one; a healthy call is justified by its step.
\<close>

definition no_schedule_since :: "int \<Rightarrow> client_call list \<Rightarrow> bool" where
  "no_schedule_since t calls \<longleftrightarrow>
     (\<exists>ys zs. calls = ys @ Cancel_All t True # zs \<and> list_all (\<lambda>c. \<not> is_schedule c) zs)"

definition timer_set_at :: "sentinel_setup \<Rightarrow> int \<Rightarrow> client_call list \<Rightarrow> bool" where
  "timer_set_at s t calls \<longleftrightarrow>
     (\<exists>ys zs. calls = ys @ Schedule_Cancel t (deadman_deadline_ms s t) True # zs
        \<and> list_all (\<lambda>c. \<not> sets_timer c) zs)"

definition sentinel_consistent :: "sentinel_setup \<Rightarrow> sentinel \<Rightarrow> bool" where
  "sentinel_consistent s n \<longleftrightarrow>
     opt_all (\<lambda>t. no_schedule_since t (sn_calls n)) (sn_last_emergency_cancel_ns n)
     \<and> (sn_last_renew_ns n = 0 \<or> timer_set_at s (sn_last_renew_ns n) (sn_calls n))"

lemma no_schedule_since_new [simp]: "no_schedule_since t (ys @ [Cancel_All t True])"
  unfolding no_schedule_since_def by (intro exI [of _ ys] exI [of _ "[]"]) simp

lemma no_schedule_since_append:
  "no_schedule_since t calls \<Longrightarrow> list_all (\<lambda>c. \<not> is_schedule c) cs \<Longrightarrow> no_schedule_since t (calls @ cs)"
  unfolding no_schedule_since_def by force

lemma timer_set_at_new [simp]: "timer_set_at s t (ys @ [Schedule_Cancel t (deadman_deadline_ms s t) True])"
  unfolding timer_set_at_def by (intro exI [of _ ys] exI [of _ "[]"]) simp

lemma timer_set_at_append:
  "timer_set_at s t calls \<Longrightarrow> list_all (\<lambda>c. \<not> sets_timer c) cs \<Longrightarrow> timer_set_at s t (calls @ cs)"
  unfolding timer_set_at_def by force

lemma poll_cases:
  assumes "0 < sc_cancel_retry_count (ns_sentinel (ss_settings s))"
  obtains (kept) n' r where "sentinel_step expiry_ns s n x = (n', Inr r)" "sentinel_poll expiry_ns s n x = n'"
  | (ended) n' e where "sentinel_step expiry_ns s n x = (n', Inl e)"
      "sentinel_poll expiry_ns s n x = restarted n'"
  by (cases "sentinel_step expiry_ns s n x"; cases "snd (sentinel_step expiry_ns s n x)")
    (auto simp: sentinel_poll_def)

lemma step_calls:
  assumes "sentinel_step expiry_ns s n x = (n', r)"
    "0 < sc_cancel_retry_count (ns_sentinel (ss_settings s))"
  shows "\<exists>cs. sn_calls n' = sn_calls n @ cs
    \<and> (\<forall>c \<in> set cs. is_schedule c \<longrightarrow> is_healthy expiry_ns s x
         \<and> (\<exists>ok. c = Schedule_Cancel (sx_now x) (deadman_deadline_ms s (sx_now x)) ok))"
  using assms by (cases rule: sentinel_step_cases) auto

lemma step_consistent:
  assumes "sentinel_step expiry_ns s n x = (n', Inr r)" "sentinel_consistent s n"
    "0 < sc_cancel_retry_count (ns_sentinel (ss_settings s))"
  shows "sentinel_consistent s n'"
  using assms(1,3)
proof (cases rule: sentinel_step_cases)
  case (cancelled j)
  have "no_schedule_since (sx_now x) (sn_calls n')"
    unfolding cancelled(5) append_assoc [symmetric] by (rule no_schedule_since_new)
  with cancelled assms(2) show ?thesis
    by (auto simp: sentinel_consistent_def list_all_iff intro!: timer_set_at_append)
next
  case renewed
  then show ?thesis by (simp add: sentinel_consistent_def)
qed (use assms(2) in \<open>auto simp: sentinel_consistent_def\<close>)

lemma poll_calls:
  assumes "0 < sc_cancel_retry_count (ns_sentinel (ss_settings s))"
  shows "\<exists>cs. sn_calls (sentinel_poll expiry_ns s n x) = sn_calls n @ cs
    \<and> (\<forall>c \<in> set cs. is_schedule c \<longrightarrow> is_healthy expiry_ns s x
         \<and> (\<exists>ok. c = Schedule_Cancel (sx_now x) (deadman_deadline_ms s (sx_now x)) ok))"
  using assms
proof (cases rule: poll_cases [of s expiry_ns n x])
  case (kept n' r) then show ?thesis using step_calls [OF kept(1) assms] by simp
next
  case (ended n' e) then show ?thesis using step_calls [OF ended(1) assms] by simp
qed

interpretation sn: step_system "sentinel_poll expiry_ns s"
    "\<lambda>n. 0 < sc_cancel_retry_count (ns_sentinel (ss_settings s)) \<and> sentinel_consistent s n"
    "\<lambda>n m. \<exists>cs. sn_calls m = sn_calls n @ cs" for expiry_ns s
proof (unfold_locales, goal_cases)
  case (1 n x)
  then have pos: "0 < sc_cancel_retry_count (ns_sentinel (ss_settings s))" and c: "sentinel_consistent s n"
    by simp_all
  from pos show ?case
  proof (cases rule: poll_cases [of s expiry_ns n x])
    case (kept n' r) then show ?thesis using step_consistent [OF kept(1) c pos] pos by simp
  next
    case (ended n' e) then show ?thesis using pos by (simp add: sentinel_consistent_def)
  qed
next
  case (2 n x)
  then show ?case using poll_calls [of s expiry_ns n x] by blast
next
  case (4 s t u)
  then show ?case by (metis append_assoc)
qed simp

lemma new_sentinel_consistent [simp]: "sentinel_consistent s new_sentinel"
  by (simp add: sentinel_consistent_def new_sentinel_def)

lemma run_schedules:
  assumes "0 < sc_cancel_retry_count (ns_sentinel (ss_settings s))"
    "Schedule_Cancel t d ok \<in> set (sn_calls (foldl (sentinel_poll expiry_ns s) n xs))"
  shows "Schedule_Cancel t d ok \<in> set (sn_calls n)
    \<or> (\<exists>x \<in> set xs. is_healthy expiry_ns s x \<and> t = sx_now x \<and> d = deadman_deadline_ms s t)"
  using assms(2)
proof (induction xs rule: rev_induct)
  case (snoc x xs)
  obtain cs where "sn_calls (sentinel_poll expiry_ns s (foldl (sentinel_poll expiry_ns s) n xs) x)
      = sn_calls (foldl (sentinel_poll expiry_ns s) n xs) @ cs"
    "\<forall>c \<in> set cs. is_schedule c \<longrightarrow> is_healthy expiry_ns s x
         \<and> (\<exists>ok. c = Schedule_Cancel (sx_now x) (deadman_deadline_ms s (sx_now x)) ok)"
    using poll_calls [OF assms(1)] by blast
  with snoc show ?case by fastforce
qed simp

lemma healthy_heartbeat:
  assumes "is_healthy expiry_ns s x"
  obtains h where "sx_heartbeat x = Some h" "hb_execution_healthy h" "hb_reconciliation_complete h"
    "\<not> hb_operator_kill h" "ss_guarded s \<longrightarrow> sx_authorization x \<noteq> None"
    "sx_now x \<le> hb_heartbeat_ts_ns h + sc_heartbeat_stale_after_ms (ns_sentinel (ss_settings s)) * 1000000"
    "\<forall>a. ss_admission s = Some a \<longrightarrow> hb_approval_id h = Some (da_approval_id (va_approval a))
       \<and> hb_admission_id h = Some (va_admission_id a)"
    "hb_config_fingerprint h = ss_fingerprint s"
  using assms
  by (cases "sx_heartbeat x") (auto simp: is_healthy_def classify_def Let_def split: if_splits option.splits)

section \<open>Properties\<close>

text \<open>The node's side: one call of \<open>publish\<close>, with the lease in force, the kill switch and the clock it read.\<close>

record publication =
  pb_identity :: publisher_identity
  pb_lease :: health_lease
  pb_kill_active :: bool
  pb_now :: int

definition published :: "publication \<Rightarrow> trading_heartbeat res" where
  "published q = publish (pb_identity q) (pb_lease q) (pb_kill_active q) (pb_now q)"

definition timer_limit_ms :: "sentinel_setup \<Rightarrow> int" where
  "timer_limit_ms s = sc_heartbeat_stale_after_ms (ns_sentinel (ss_settings s))
     + sc_deadman_timeout_ms (ns_sentinel (ss_settings s))"

text \<open>C16: The exchange's dead-man timer follows the node's lease. Let \<open>ps\<close> be the publications of the node and every
  heartbeat the sentinel reads be one of theirs. Then in every run, restarts included, each timer renewal was
  made from such a heartbeat, at most the stale threshold old, with the admission still active and the node's
  configuration fingerprint; and every publication of \<open>ps\<close> that produced this heartbeat was made with the kill
  switch off, under a lease that was healthy, reconciled and not expired. The deadline of the timer therefore lies at most
  the stale threshold plus the timeout behind the publication, and behind the end of that lease when it
  has one.\<close>

theorem dead_man_timer_follows_lease:
  assumes "sentinel_config_error (ns_sentinel (ss_settings s)) = None"
    and "\<forall>x \<in> set xs. \<forall>h. sx_heartbeat x = Some h \<longrightarrow> (\<exists>q \<in> set ps. published q = Inr h)"
    and "Schedule_Cancel t d ok \<in> set (sn_calls (foldl (sentinel_poll expiry_ns s) new_sentinel xs))"
  shows "\<exists>x \<in> set xs. \<exists>h. sx_heartbeat x = Some h \<and> (\<exists>q \<in> set ps. published q = Inr h)
    \<and> t = sx_now x \<and> t \<le> hb_heartbeat_ts_ns h + sc_heartbeat_stale_after_ms (ns_sentinel (ss_settings s)) * 1000000
    \<and> (ss_guarded s \<longrightarrow> sx_authorization x \<noteq> None) \<and> hb_config_fingerprint h = ss_fingerprint s
    \<and> (\<forall>q \<in> set ps. published q = Inr h \<longrightarrow>
         \<not> pb_kill_active q \<and> hl_execution_healthy (pb_lease q) \<and> hl_reconciliation_complete (pb_lease q)
         \<and> d \<le> pb_now q div 1000000 + timer_limit_ms s
         \<and> opt_all (\<lambda>u. pb_now q \<le> u \<and> d \<le> u div 1000000 + timer_limit_ms s) (hl_healthy_until_ns (pb_lease q)))"
proof -
  let ?stale = "sc_heartbeat_stale_after_ms (ns_sentinel (ss_settings s))"
  have "0 < sc_cancel_retry_count (ns_sentinel (ss_settings s))"
    using assms(1) by (simp add: sentinel_config_error_def first_error_None_iff)
  then obtain x where x: "x \<in> set xs" "is_healthy expiry_ns s x" "t = sx_now x" "d = deadman_deadline_ms s t"
    using run_schedules assms(3) by (fastforce simp: new_sentinel_def)
  then obtain h where h: "sx_heartbeat x = Some h" "hb_execution_healthy h" "hb_reconciliation_complete h"
    "\<not> hb_operator_kill h" "ss_guarded s \<longrightarrow> sx_authorization x \<noteq> None"
    "sx_now x \<le> hb_heartbeat_ts_ns h + ?stale * 1000000" "hb_config_fingerprint h = ss_fingerprint s"
    by (auto elim: healthy_heartbeat)
  have lease: "\<not> pb_kill_active q \<and> hl_execution_healthy (pb_lease q) \<and> hl_reconciliation_complete (pb_lease q)
         \<and> d \<le> pb_now q div 1000000 + timer_limit_ms s
         \<and> opt_all (\<lambda>u. pb_now q \<le> u \<and> d \<le> u div 1000000 + timer_limit_ms s) (hl_healthy_until_ns (pb_lease q))"
    if "published q = Inr h" for q
  proof -
    from publish_Inr [OF that [unfolded published_def]] h
    have l: "\<not> pb_kill_active q" "hl_execution_healthy (pb_lease q)" "hl_reconciliation_complete (pb_lease q)"
      "pb_now q = hb_heartbeat_ts_ns h" "opt_all (\<lambda>u. pb_now q \<le> u) (hl_healthy_until_ns (pb_lease q))"
      by (auto split: option.splits)
    have "sx_now x div 1000000 \<le> (pb_now q + ?stale * 1000000) div 1000000"
      using h(6) l(4) by (intro zdiv_mono1) auto
    then have d: "d \<le> pb_now q div 1000000 + timer_limit_ms s"
      using x by (simp add: deadman_deadline_ms_def timer_limit_ms_def)
    have "d \<le> u div 1000000 + timer_limit_ms s" if "pb_now q \<le> u" for u
      using d zdiv_mono1 [OF that, of 1000000] by simp
    with l d show ?thesis by (cases "hl_healthy_until_ns (pb_lease q)") auto
  qed
  from assms(2) x(1) h(1) have "\<exists>q \<in> set ps. published q = Inr h" by blast
  with x h lease show ?thesis by (intro bexI [of _ x] exI [of _ h]) auto
qed

text \<open>C19: While the node is not healthy its orders are cancelled. After every run, restarts included, a step
  that finds the heartbeat unhealthy either answers \<open>False\<close>, and then a cancel-all was confirmed less than
  one renewal interval before and no timer was set since, or raises after exactly the configured number
  of failed attempts; it never touches the timer.\<close>

theorem unhealthy_orders_cancelled:
  assumes "sentinel_config_error (ns_sentinel (ss_settings s)) = None"
    and "n = foldl (sentinel_poll expiry_ns s) new_sentinel xs"
    and "\<not> is_healthy expiry_ns s x"
    and "sentinel_step expiry_ns s n x = (n', r)"
  shows "(r = Inr False \<and> (\<exists>t. no_schedule_since t (sn_calls n') \<and> sx_now x - t < repeat_ns s))
    \<or> (\<exists>e. r = Inl e \<and> sn_calls n' = sn_calls n
         @ replicate (nat (sc_cancel_retry_count (ns_sentinel (ss_settings s)))) (Cancel_All (sx_now x) False))"
proof -
  have pos: "0 < sc_cancel_retry_count (ns_sentinel (ss_settings s))" "0 < repeat_ns s"
    using assms(1) by (simp_all add: sentinel_config_error_def first_error_None_iff repeat_ns_def)
  then have inv: "sentinel_consistent s n" using sn.run_inv assms(2) by simp
  from assms(4) pos(1) show ?thesis
  proof (cases rule: sentinel_step_cases)
    case (cancelled j)
    have "no_schedule_since (sx_now x) (sn_calls n')"
      unfolding cancelled(5) append_assoc [symmetric] by (rule no_schedule_since_new)
    with cancelled(2) pos(2) show ?thesis by auto
  next
    case waiting
    then obtain t where "sn_last_emergency_cancel_ns n = Some t" "sx_now x - t < repeat_ns s"
      by (auto simp: emergency_due_def split: option.splits)
    with waiting inv show ?thesis by (auto simp: sentinel_consistent_def)
  qed (use assms(3) in auto)
qed

text \<open>The timer does not lapse under a node that stays healthy. Whenever a step answers \<open>True\<close>, the latest
  accepted deadline lies more than five seconds ahead of the step, so that polls up to five seconds apart
  keep it from expiring (the clock only has to be past the first renewal interval).\<close>

theorem healthy_timer_never_lapses:
  assumes "sentinel_config_error (ns_sentinel (ss_settings s)) = None"
    and "n = foldl (sentinel_poll expiry_ns s) new_sentinel xs"
    and "sentinel_step expiry_ns s n x = (n', Inr True)"
    and "repeat_ns s \<le> sx_now x"
  shows "\<exists>t. timer_set_at s t (sn_calls n') \<and> sx_now x div 1000000 + 5000 < deadman_deadline_ms s t"
proof -
  let ?c = "ns_sentinel (ss_settings s)"
  have cfg: "0 < sc_cancel_retry_count ?c" "1000 \<le> sc_deadman_renew_interval_ms ?c"
    "sc_deadman_renew_interval_ms ?c + 5000 < sc_deadman_timeout_ms ?c"
    using assms(1) by (simp_all add: sentinel_config_error_def first_error_None_iff)
  then have inv: "sentinel_consistent s n" using sn.run_inv assms(2) by simp
  from assms(3) cfg(1) show ?thesis
  proof (cases rule: sentinel_step_cases)
    case renewed
    then have "timer_set_at s (sx_now x) (sn_calls n')" by simp
    moreover have "sx_now x div 1000000 + 5000 < deadman_deadline_ms s (sx_now x)"
      using cfg by (simp add: deadman_deadline_ms_def)
    ultimately show ?thesis by blast
  next
    case covered
    let ?t = "sn_last_renew_ns n"
    have "?t \<noteq> 0" using covered(3) assms(4) by auto
    with inv covered have t: "timer_set_at s ?t (sn_calls n')" by (simp add: sentinel_consistent_def)
    have "sx_now x < ?t + sc_deadman_renew_interval_ms ?c * 1000000"
      using covered(3) by (simp add: repeat_ns_def)
    then have "sx_now x div 1000000 \<le> (?t + sc_deadman_renew_interval_ms ?c * 1000000) div 1000000"
      by (intro zdiv_mono1) auto
    with cfg have "sx_now x div 1000000 + 5000 < deadman_deadline_ms s ?t"
      by (simp add: deadman_deadline_ms_def)
    with t show ?thesis by blast
  qed auto
qed

section \<open>A concrete run\<close>

definition demo_setup :: sentinel_setup where
  "demo_setup = \<lparr>ss_settings = canary_settings, ss_fingerprint = replicate 64 (CHR ''a''),
     ss_admission = None, ss_guarded = False\<rparr>"

definition demo_identity :: publisher_identity where
  "demo_identity = \<lparr>pi_process_id = 7, pi_environment = ''canary'',
     pi_account_address = ''0x'' @ replicate 40 (CHR ''1''),
     pi_config_fingerprint = replicate 64 (CHR ''a''), pi_deployment_id = None, pi_approval_id = None,
     pi_admission_id = None, pi_approval_expires_ts_ns = None\<rparr>"

definition demo_heartbeat :: trading_heartbeat where
  "demo_heartbeat = \<lparr>hb_process_id = 7, hb_heartbeat_ts_ns = 6000000000, hb_environment = ''canary'',
     hb_account_address = ''0x'' @ replicate 40 (CHR ''1''), hb_execution_healthy = True,
     hb_reconciliation_complete = True, hb_operator_kill = False,
     hb_config_fingerprint = replicate 64 (CHR ''a''), hb_deployment_id = None, hb_approval_id = None,
     hb_admission_id = None, hb_approval_expires_ts_ns = None\<rparr>"

definition demo_poll :: "int \<Rightarrow> trading_heartbeat option \<Rightarrow> sentinel_input" where
  "demo_poll now h = \<lparr>sx_now = now, sx_heartbeat = h, sx_authorization = None,
     sx_cancel_answer = (\<lambda>i. if i = 0 then Inl (RuntimeError ''timeout'') else Inr 2),
     sx_schedule_answer = Inr ()\<rparr>"

lemma demo_published:
  "publish demo_identity (set_health 6000000000 True True (Some 3000)) False 6000000000 = Inr demo_heartbeat"
  by code_simp

lemma demo_config: "sentinel_config_error (ns_sentinel (ss_settings demo_setup)) = None"
  by code_simp

lemma demo_calls:
  "sn_calls (foldl (sentinel_poll (\<lambda>_. 0) demo_setup) new_sentinel [demo_poll 6500000000 (Some demo_heartbeat)])
     = [Schedule_Cancel 6500000000 26500 True]"
  by code_simp

definition demo_publication :: publication where
  "demo_publication = \<lparr>pb_identity = demo_identity, pb_lease = set_health 6000000000 True True (Some 3000),
     pb_kill_active = False, pb_now = 6000000000\<rparr>"

theorem dead_man_timer_follows_lease_witness:
  "hl_healthy_until_ns (pb_lease demo_publication) = Some 9000000000 \<and> 26500 \<le> (9000000000 :: int) div 1000000 + timer_limit_ms demo_setup
     \<and> \<not> pb_kill_active demo_publication"
proof -
  have p: "published demo_publication = Inr demo_heartbeat"
    using demo_published by (simp add: published_def demo_publication_def)
  then have "\<forall>x \<in> set [demo_poll 6500000000 (Some demo_heartbeat)]. \<forall>h. sx_heartbeat x = Some h \<longrightarrow>
      (\<exists>q \<in> set [demo_publication]. published q = Inr h)"
    by (simp add: demo_poll_def)
  from dead_man_timer_follows_lease [OF demo_config this, of 6500000000 26500 True "\<lambda>_. 0"] demo_calls p
  show ?thesis by (simp add: demo_poll_def demo_publication_def)
qed

theorem unhealthy_orders_cancelled_witness:
  "\<exists>t. no_schedule_since t (sn_calls (fst (sentinel_step (\<lambda>_. 0) demo_setup new_sentinel (demo_poll 6500000000 None))))
     \<and> 6500000000 - t < repeat_ns demo_setup"
proof -
  have r: "snd (sentinel_step (\<lambda>_. 0) demo_setup new_sentinel (demo_poll 6500000000 None)) = Inr False"
    and u: "\<not> is_healthy (\<lambda>_. 0) demo_setup (demo_poll 6500000000 None)" by code_simp+
  from unhealthy_orders_cancelled [OF demo_config _ u, of new_sentinel "[]", OF _ prod.collapse [symmetric]] r
  show ?thesis by (simp add: demo_poll_def)
qed

theorem healthy_timer_never_lapses_witness:
  "\<exists>t. timer_set_at demo_setup t (sn_calls (fst (sentinel_step (\<lambda>_. 0) demo_setup
       (foldl (sentinel_poll (\<lambda>_. 0) demo_setup) new_sentinel [demo_poll 6500000000 (Some demo_heartbeat)])
       (demo_poll 7500000000 (Some demo_heartbeat)))))
     \<and> 7500 + 5000 < deadman_deadline_ms demo_setup t"
proof -
  let ?n = "foldl (sentinel_poll (\<lambda>_. 0) demo_setup) new_sentinel [demo_poll 6500000000 (Some demo_heartbeat)]"
  let ?x = "demo_poll 7500000000 (Some demo_heartbeat)"
  have "snd (sentinel_step (\<lambda>_. 0) demo_setup ?n ?x) = Inr True" "repeat_ns demo_setup \<le> sx_now ?x"
    by code_simp+
  with healthy_timer_never_lapses [OF demo_config refl, of "\<lambda>_. 0" "[demo_poll 6500000000 (Some demo_heartbeat)]" ?x
      "fst (sentinel_step (\<lambda>_. 0) demo_setup ?n ?x)"]
  show ?thesis by (simp add: prod_eq_iff demo_poll_def)
qed

end
