(* ===== verification/Market_Assembly.thy ===== *)
theory Market_Assembly
  imports Kernel_Contracts "HOL-Library.Sublist"
begin

text \<open>
  The market assemblers: \<open>LiveMarketStateAssembler\<close> of \<open>paper/market.py\<close>, which turns normalized public
  events into kernel states for the paper and shadow paths, and \<open>NautilusMarketStateAssembler\<close> of
  \<open>execution/live.py\<close>, which does the same from the trading framework's book and trade ticks. A call
  that raises keeps what it had changed before. The lemmas show that a state that leaves an assembler
  passes the kernel's contract and is fresh, that no trade is lost or seen twice, and that expiring
  trades at every event is the same as sorting the stale ones out when a state is due.
\<close>

section \<open>LiveMarketStateAssembler\<close>

record assembler_config =
  asc_depth_levels :: nat
  asc_maximum_input_age_ns :: int
  asc_minimum_state_interval_ns :: int

definition assembler_config_error :: "assembler_config \<Rightarrow> string option" where
  "assembler_config_error c = first_error
     [(\<not> (1 \<le> asc_depth_levels c \<and> asc_depth_levels c \<le> 10), ''live paper depth must be in [1, 10]''),
      (asc_maximum_input_age_ns c \<le> 0, ''live paper maximum input age must be positive''),
      (asc_minimum_state_interval_ns c \<le> 0, ''live paper minimum state interval must be positive'')]"

record market_assembler =
  asm_pending_trades :: "trade_event list"
  asm_stale_trade_exclusions :: nat
  asm_stale_book_exclusions :: nat
  asm_stale_bbo_exclusions :: nat
  asm_sequence :: int
  asm_last_observed_ts_ns :: "int option"
  asm_last_book_receive_ts_ns :: "int option"
  asm_latest_depth :: "l2_book_snapshot option"
  asm_latest_bbo_receive_ts_ns :: "int option"
  asm_last_state_used_l2_depth :: bool

definition new_assembler :: market_assembler where
  "new_assembler = \<lparr>asm_pending_trades = [], asm_stale_trade_exclusions = 0,
     asm_stale_book_exclusions = 0, asm_stale_bbo_exclusions = 0, asm_sequence = 0,
     asm_last_observed_ts_ns = None, asm_last_book_receive_ts_ns = None, asm_latest_depth = None,
     asm_latest_bbo_receive_ts_ns = None, asm_last_state_used_l2_depth = False\<rparr>"

definition trade_received :: "trade_event \<Rightarrow> int" where
  "trade_received t = eh_receive_ts_ns (te_header t)"

definition trade_happened :: "trade_event \<Rightarrow> int" where
  "trade_happened t = eh_event_ts_ns (te_header t)"

definition expire_stale_trades :: "assembler_config \<Rightarrow> int \<Rightarrow> market_assembler \<Rightarrow> market_assembler" where
  "expire_stale_trades c observed a =
     (let cutoff = observed - asc_maximum_input_age_ns c;
          fresh = filter (\<lambda>t. cutoff \<le> trade_happened t) (asm_pending_trades a)
      in a\<lparr>asm_stale_trade_exclusions := asm_stale_trade_exclusions a
             + (length (asm_pending_trades a) - length fresh),
           asm_pending_trades := fresh\<rparr>)"

definition state_due :: "assembler_config \<Rightarrow> int \<Rightarrow> market_assembler \<Rightarrow> bool" where
  "state_due c observed a \<longleftrightarrow>
     (case asm_last_observed_ts_ns a of None \<Rightarrow> True
      | Some t \<Rightarrow> asc_minimum_state_interval_ns c \<le> observed - t)"

text \<open>\<open>KernelBookLevel\<close> and \<open>KernelTrade\<close> are validated when they are constructed.\<close>

definition kernel_levels :: "(dec \<times> dec) list \<Rightarrow> kernel_level list res" where
  "kernel_levels ls =
     (let ks = map (\<lambda>(p, s). \<lparr>kl_price = p, kl_size = s\<rparr>) ls
      in guardE (\<not> list_all kernel_level_ok ks) (ValidationError ''price'') (Inr ks))"

definition kernel_trade_of :: "trade_event \<Rightarrow> kernel_trade" where
  "kernel_trade_of t = \<lparr>kt_exchange_ts_ns = trade_happened t, kt_observed_ts_ns = trade_received t,
     kt_price = te_price t, kt_size = te_size t, kt_aggressor = te_aggressor t\<rparr>"

definition kernel_trades :: "trade_event list \<Rightarrow> kernel_trade list res" where
  "kernel_trades ts =
     (let ks = map kernel_trade_of ts
      in guardE (\<not> list_all kernel_trade_ok ks) (ValidationError ''trade'') (Inr ks))"

definition CLOCK_MESSAGE :: string where
  "CLOCK_MESSAGE = ''live exchange timestamp follows local receipt; verify host clock''"

text \<open>\<open>_state\<close> after the levels; \<open>max\<close> over the state's own time and those of its trades.\<close>

definition latest_exchange_ts :: "int \<Rightarrow> kernel_trade list \<Rightarrow> int" where
  "latest_exchange_ts ts trades = foldl max ts (map kt_exchange_ts_ns trades)"

definition assembled_state ::
  "market_assembler \<Rightarrow> int \<Rightarrow> int \<Rightarrow> int \<Rightarrow> kernel_level list \<Rightarrow> kernel_level list \<Rightarrow> kernel_market res" where
  "assembled_state a observed state_ts book_ts bids asks =
     bindE (kernel_trades (asm_pending_trades a)) (\<lambda>trades.
       let exchange_ts = latest_exchange_ts state_ts trades
       in guardE (observed < exchange_ts) (ValueError CLOCK_MESSAGE)
            (mk_kernel_market \<lparr>km_exchange_ts_ns = exchange_ts, km_book_exchange_ts_ns = book_ts,
               km_observed_ts_ns = observed, km_sequence = asm_sequence a, km_bids = bids, km_asks = asks,
               km_trades = trades\<rparr>))"

definition emit_state ::
  "market_assembler \<Rightarrow> int \<Rightarrow> bool \<Rightarrow> kernel_market res \<Rightarrow> market_assembler \<times> kernel_market option res" where
  "emit_state a observed used_l2 r =
     (case r of
        Inl e \<Rightarrow> (a, Inl e)
      | Inr m \<Rightarrow> (a\<lparr>asm_pending_trades := [], asm_sequence := asm_sequence a + 1,
                    asm_last_observed_ts_ns := Some observed, asm_last_state_used_l2_depth := used_l2\<rparr>,
                  Inr (Some m)))"

definition level_pair :: "book_level \<Rightarrow> dec \<times> dec" where
  "level_pair l = (bl_price l, bl_size l)"

definition state_from_l2 ::
  "assembler_config \<Rightarrow> l2_book_snapshot \<Rightarrow> market_assembler \<Rightarrow> market_assembler \<times> kernel_market option res" where
  "state_from_l2 c e a =
     (let observed = eh_receive_ts_ns (l2_header e); ts = eh_event_ts_ns (l2_header e)
      in emit_state a observed True
           (bindE (kernel_levels (map level_pair (take (asc_depth_levels c) (l2_bids e)))) (\<lambda>bids.
            bindE (kernel_levels (map level_pair (take (asc_depth_levels c) (l2_asks e)))) (\<lambda>asks.
              assembled_state a observed ts ts bids asks))))"

definition depth_usable :: "assembler_config \<Rightarrow> bbo_event \<Rightarrow> l2_book_snapshot \<Rightarrow> bool" where
  "depth_usable c e d \<longleftrightarrow> eh_event_ts_ns (l2_header d) \<le> eh_event_ts_ns (bbo_header e)
     \<and> eh_receive_ts_ns (bbo_header e) - eh_event_ts_ns (l2_header d) \<le> asc_maximum_input_age_ns c"

text \<open>The deeper levels strictly behind the best price, the best one in front.\<close>

definition bbo_bids :: "assembler_config \<Rightarrow> bbo_event \<Rightarrow> l2_book_snapshot option \<Rightarrow> (dec \<times> dec) list" where
  "bbo_bids c e depth = (bbo_bid_price e, bbo_bid_size e) #
     (case depth of None \<Rightarrow> []
      | Some d \<Rightarrow> take (asc_depth_levels c - 1)
                   (map level_pair (filter (\<lambda>l. bl_price l < bbo_bid_price e) (l2_bids d))))"

definition bbo_asks :: "assembler_config \<Rightarrow> bbo_event \<Rightarrow> l2_book_snapshot option \<Rightarrow> (dec \<times> dec) list" where
  "bbo_asks c e depth = (bbo_ask_price e, bbo_ask_size e) #
     (case depth of None \<Rightarrow> []
      | Some d \<Rightarrow> take (asc_depth_levels c - 1)
                   (map level_pair (filter (\<lambda>l. bbo_ask_price e < bl_price l) (l2_asks d))))"

definition usable_depth :: "assembler_config \<Rightarrow> bbo_event \<Rightarrow> market_assembler \<Rightarrow> l2_book_snapshot option" where
  "usable_depth c e a =
     (case asm_latest_depth a of None \<Rightarrow> None | Some d \<Rightarrow> if depth_usable c e d then Some d else None)"

definition state_from_bbo ::
  "assembler_config \<Rightarrow> bbo_event \<Rightarrow> market_assembler \<Rightarrow> market_assembler \<times> kernel_market option res" where
  "state_from_bbo c e a =
     (let observed = eh_receive_ts_ns (bbo_header e);
          depth = usable_depth c e a;
          book_ts = (case depth of None \<Rightarrow> eh_event_ts_ns (bbo_header e)
                     | Some d \<Rightarrow> eh_event_ts_ns (l2_header d))
      in emit_state a observed (depth \<noteq> None)
           (bindE (kernel_levels (bbo_bids c e depth)) (\<lambda>bids.
            bindE (kernel_levels (bbo_asks c e depth)) (\<lambda>asks.
              assembled_state a observed (eh_event_ts_ns (bbo_header e)) book_ts bids asks))))"

definition observe_trade_event ::
  "assembler_config \<Rightarrow> trade_event \<Rightarrow> market_assembler \<Rightarrow> market_assembler \<times> kernel_market option res" where
  "observe_trade_event c t a =
     (if trade_received t < trade_happened t then (a, Inl (ValueError CLOCK_MESSAGE))
      else let a1 = expire_stale_trades c (trade_received t) a
           in (if asc_maximum_input_age_ns c < trade_received t - trade_happened t
               then a1\<lparr>asm_stale_trade_exclusions := asm_stale_trade_exclusions a1 + 1\<rparr>
               else a1\<lparr>asm_pending_trades := asm_pending_trades a1 @ [t]\<rparr>, Inr None))"

text \<open>What a book event does before its kind matters: the guards, the receipt time, the expiry.\<close>

definition admit_book_event ::
  "assembler_config \<Rightarrow> event_header \<Rightarrow> market_assembler \<Rightarrow> market_assembler res" where
  "admit_book_event c h a =
     guardE (\<not> opt_all (\<lambda>t. t < eh_receive_ts_ns h) (asm_last_book_receive_ts_ns a))
       (ValueError ''live book receive timestamps must be strictly increasing'')
     (guardE (eh_receive_ts_ns h < eh_event_ts_ns h) (ValueError CLOCK_MESSAGE)
       (Inr (expire_stale_trades c (eh_receive_ts_ns h)
               (a\<lparr>asm_last_book_receive_ts_ns := Some (eh_receive_ts_ns h)\<rparr>))))"

definition header_stale :: "assembler_config \<Rightarrow> event_header \<Rightarrow> bool" where
  "header_stale c h \<longleftrightarrow> asc_maximum_input_age_ns c < eh_receive_ts_ns h - eh_event_ts_ns h"

definition observe_l2 ::
  "assembler_config \<Rightarrow> l2_book_snapshot \<Rightarrow> market_assembler \<Rightarrow> market_assembler \<times> kernel_market option res" where
  "observe_l2 c e a =
     (case admit_book_event c (l2_header e) a of
        Inl x \<Rightarrow> (a, Inl x)
      | Inr a1 \<Rightarrow>
          if header_stale c (l2_header e)
          then (a1\<lparr>asm_stale_book_exclusions := asm_stale_book_exclusions a1 + 1\<rparr>, Inr None)
          else let a2 = a1\<lparr>asm_latest_depth := Some e\<rparr>
               in if state_due c (eh_receive_ts_ns (l2_header e)) a2 then state_from_l2 c e a2
                  else (a2, Inr None))"

definition observe_bbo ::
  "assembler_config \<Rightarrow> bbo_event \<Rightarrow> market_assembler \<Rightarrow> market_assembler \<times> kernel_market option res" where
  "observe_bbo c e a =
     (case admit_book_event c (bbo_header e) a of
        Inl x \<Rightarrow> (a, Inl x)
      | Inr a1 \<Rightarrow>
          if header_stale c (bbo_header e)
          then (a1\<lparr>asm_stale_bbo_exclusions := asm_stale_bbo_exclusions a1 + 1\<rparr>, Inr None)
          else let a2 = a1\<lparr>asm_latest_bbo_receive_ts_ns := Some (eh_receive_ts_ns (bbo_header e))\<rparr>
               in if state_due c (eh_receive_ts_ns (bbo_header e)) a2 then state_from_bbo c e a2
                  else (a2, Inr None))"

definition observe_market ::
  "assembler_config \<Rightarrow> market_assembler \<Rightarrow> market_event \<Rightarrow> market_assembler \<times> kernel_market option res" where
  "observe_market c a ev =
     (case ev of
        Trade t \<Rightarrow> observe_trade_event c t a
      | L2Book e \<Rightarrow> observe_l2 c e a
      | Bbo e \<Rightarrow> observe_bbo c e a
      | _ \<Rightarrow> (a, Inr None))"

section \<open>Valid states\<close>

lemma header_ts_nonneg: "event_header_error h = None \<Longrightarrow> 0 \<le> eh_event_ts_ns h \<and> 0 \<le> eh_receive_ts_ns h"
  by (auto simp: event_header_error_def split: if_splits)

lemma l2_sides:
  assumes "l2_book_error d = None"
  shows "sorted_wrt (\<lambda>x y. y < x) (map bl_price (l2_bids d))" "sorted_wrt (<) (map bl_price (l2_asks d))"
    "l2_bids d \<noteq> []" "l2_asks d \<noteq> []" "list_all book_level_ok (l2_bids d)" "list_all book_level_ok (l2_asks d)"
    "bl_price (hd (l2_bids d)) < bl_price (hd (l2_asks d))"
    "0 \<le> eh_event_ts_ns (l2_header d)"
proof -
  have e: "event_header_error (l2_header d) = None" "l2_bids d \<noteq> []" "l2_asks d \<noteq> []"
    "list_all book_level_ok (l2_bids d)" "list_all book_level_ok (l2_asks d)"
    "distinct (map bl_price (l2_bids d))" "distinct (map bl_price (l2_asks d))"
    "map bl_price (l2_bids d) = rev (sort (map bl_price (l2_bids d)))"
    "map bl_price (l2_asks d) = sort (map bl_price (l2_asks d))"
    "hd (map bl_price (l2_bids d)) < hd (map bl_price (l2_asks d))"
    using assms by (auto simp: l2_book_error_def Let_def first_error_None_iff split: if_splits)
  from e(8) have "sorted (rev (map bl_price (l2_bids d)))" by (metis rev_rev_ident sorted_sort)
  with e(6) have "sorted_wrt (<) (rev (map bl_price (l2_bids d)))" by (simp add: strict_sorted_iff)
  then show "sorted_wrt (\<lambda>x y. y < x) (map bl_price (l2_bids d))" by (simp add: sorted_wrt_rev)
  from e(9) have "sorted (map bl_price (l2_asks d))" by (metis sorted_sort)
  with e(7) show "sorted_wrt (<) (map bl_price (l2_asks d))" by (simp add: strict_sorted_iff)
  show "bl_price (hd (l2_bids d)) < bl_price (hd (l2_asks d))" using e(2,3,10) by (simp add: hd_map)
  show "0 \<le> eh_event_ts_ns (l2_header d)" using e(1) by (simp add: header_ts_nonneg)
qed (use assms in \<open>auto simp: l2_book_error_def Let_def first_error_None_iff split: if_splits\<close>)

definition positive_levels :: "(dec \<times> dec) list \<Rightarrow> bool" where
  "positive_levels ls \<longleftrightarrow> list_all (\<lambda>(p, s). 0 < p \<and> 0 < s) ls"

lemma kernel_levels_ok:
  "positive_levels ls \<Longrightarrow> kernel_levels ls = Inr (map (\<lambda>(p, s). \<lparr>kl_price = p, kl_size = s\<rparr>) ls)"
  by (auto simp: kernel_levels_def positive_levels_def kernel_level_ok_def list_all_iff guardE_def)

lemma sort_bids_id:
  "sorted_wrt (\<lambda>x y. y < x) (map fst ls) \<Longrightarrow>
     sort_bids (map (\<lambda>(p, s). \<lparr>kl_price = p, kl_size = s\<rparr>) ls) = map (\<lambda>(p, s). \<lparr>kl_price = p, kl_size = s\<rparr>) ls"
  unfolding sort_bids_def
  by (rule sort_key_id_if_sorted) (auto simp: sorted_wrt_map case_prod_beta less_imp_le elim: sorted_wrt_mono_rel [rotated])

lemma sort_asks_id:
  "sorted_wrt (<) (map fst ls) \<Longrightarrow>
     sort_asks (map (\<lambda>(p, s). \<lparr>kl_price = p, kl_size = s\<rparr>) ls) = map (\<lambda>(p, s). \<lparr>kl_price = p, kl_size = s\<rparr>) ls"
  unfolding sort_asks_def
  by (rule sort_key_id_if_sorted) (auto simp: sorted_wrt_map case_prod_beta less_imp_le elim: sorted_wrt_mono_rel [rotated])

text \<open>A pending trade: it passed its contract and was received no later than \<open>now\<close>.\<close>

definition pending_ok :: "int \<Rightarrow> trade_event \<Rightarrow> bool" where
  "pending_ok now t \<longleftrightarrow> trade_event_error t = None \<and> trade_happened t \<le> trade_received t \<and> trade_received t \<le> now"

lemma pending_ok_mono: "pending_ok now t \<Longrightarrow> now \<le> later \<Longrightarrow> pending_ok later t"
  by (simp add: pending_ok_def)

lemma pending_trade_ok: "pending_ok now t \<Longrightarrow> kernel_trade_ok (kernel_trade_of t)"
  by (auto simp: pending_ok_def kernel_trade_ok_def kernel_trade_error_def kernel_trade_of_def
      trade_event_error_def trade_happened_def trade_received_def event_header_error_def
      first_error_None_iff split: if_splits)

lemma kernel_trades_pending:
  "list_all (pending_ok now) ts \<Longrightarrow> kernel_trades ts = Inr (map kernel_trade_of ts)"
  using pending_trade_ok by (auto simp: kernel_trades_def list_all_iff guardE_def)

lemma latest_exchange_ts_bounds:
  assumes "list_all (pending_ok now) ts" "state_ts \<le> now"
  shows "state_ts \<le> latest_exchange_ts state_ts (map kernel_trade_of ts)"
    "latest_exchange_ts state_ts (map kernel_trade_of ts) \<le> now"
    "\<forall>t \<in> set (map kernel_trade_of ts). kt_exchange_ts_ns t \<le> latest_exchange_ts state_ts (map kernel_trade_of ts)"
  using assms foldl_max_ge [of state_ts "map (kt_exchange_ts_ns \<circ> kernel_trade_of) ts"]
    foldl_max_in [of state_ts "map (kt_exchange_ts_ns \<circ> kernel_trade_of) ts"]
    foldl_max_ge(2) [of _ "map (kt_exchange_ts_ns \<circ> kernel_trade_of) ts" state_ts]
  by (auto simp: latest_exchange_ts_def kernel_trade_of_def list_all_iff pending_ok_def comp_def)

definition kernel_side :: "(dec \<times> dec) list \<Rightarrow> kernel_level list" where
  "kernel_side ls = map (\<lambda>(p, s). \<lparr>kl_price = p, kl_size = s\<rparr>) ls"

lemma assembled_state_valid:
  assumes bids: "bids \<noteq> []" "positive_levels bids" "sorted_wrt (\<lambda>x y. y < x) (map fst bids)"
    and asks: "asks \<noteq> []" "positive_levels asks" "sorted_wrt (<) (map fst asks)"
    and spread: "fst (hd bids) < fst (hd asks)"
    and pending: "list_all (pending_ok observed) (asm_pending_trades a)"
    and ts: "0 \<le> book_ts" "book_ts \<le> state_ts" "state_ts \<le> observed" "0 \<le> asm_sequence a"
  obtains m where "bindE (kernel_levels bids) (\<lambda>bs. bindE (kernel_levels asks) (\<lambda>as.
      assembled_state a observed state_ts book_ts bs as)) = Inr m"
    "kernel_market_ok m" "km_book_exchange_ts_ns m = book_ts" "km_observed_ts_ns m = observed"
    "km_sequence m = asm_sequence a" "km_bids m = kernel_side bids" "km_asks m = kernel_side asks"
    "km_trades m = map kernel_trade_of (asm_pending_trades a)"
proof -
  let ?k = "map kernel_trade_of (asm_pending_trades a)"
  let ?m = "\<lparr>km_exchange_ts_ns = latest_exchange_ts state_ts ?k, km_book_exchange_ts_ns = book_ts,
    km_observed_ts_ns = observed, km_sequence = asm_sequence a, km_bids = kernel_side bids,
    km_asks = kernel_side asks, km_trades = ?k\<rparr>"
  note x = latest_exchange_ts_bounds [OF pending ts(3)]
  have "list_all kernel_level_ok (kernel_side bids)" "list_all kernel_level_ok (kernel_side asks)"
    using bids(2) asks(2)
    by (auto simp: kernel_side_def positive_levels_def kernel_level_ok_def list_all_iff)
  moreover have "list_all kernel_trade_ok ?k"
    using pending pending_trade_ok by (auto simp: list_all_iff)
  moreover have "\<not> list_ex (\<lambda>t. observed < kt_observed_ts_ns t) ?k"
    using pending by (auto simp: list_ex_iff list_all_iff kernel_trade_of_def pending_ok_def)
  moreover have "kl_price (hd (kernel_side bids)) < kl_price (hd (kernel_side asks))"
    using bids(1) asks(1) spread by (simp add: kernel_side_def hd_map case_prod_beta)
  moreover have "kernel_side bids = sort_bids (kernel_side bids)" "kernel_side asks = sort_asks (kernel_side asks)"
    using sort_bids_id [OF bids(3)] sort_asks_id [OF asks(3)] by (simp_all add: kernel_side_def)
  ultimately have "kernel_market_ok ?m"
    using x ts bids(1) asks(1)
    by (auto simp: kernel_market_ok_def kernel_market_error_def first_error_None_iff list_ex_iff kernel_side_def)
  then show ?thesis
    using kernel_trades_pending [OF pending] kernel_levels_ok [OF bids(2)] kernel_levels_ok [OF asks(2)] x(2)
    by (intro that [of ?m])
      (auto simp: assembled_state_def mk_kernel_market_def kernel_market_ok_def guardE_def Let_def kernel_side_def)
qed

section \<open>Feeds and runs\<close>

text \<open>The receipt time of an event the assembler looks at, and the contract every event passed.\<close>

definition event_received :: "market_event \<Rightarrow> int option" where
  "event_received ev =
     (case ev of Trade t \<Rightarrow> Some (trade_received t) | L2Book e \<Rightarrow> Some (eh_receive_ts_ns (l2_header e))
      | Bbo e \<Rightarrow> Some (eh_receive_ts_ns (bbo_header e)) | _ \<Rightarrow> None)"

definition event_ok :: "market_event \<Rightarrow> bool" where
  "event_ok ev \<longleftrightarrow>
     (case ev of Trade t \<Rightarrow> trade_event_error t = None | L2Book e \<Rightarrow> l2_book_error e = None
      | Bbo e \<Rightarrow> bbo_event_error e = None | _ \<Rightarrow> True)"

fun feed_ok :: "int \<Rightarrow> market_event list \<Rightarrow> bool" where
  "feed_ok now [] = True"
| "feed_ok now (ev # evs) = (event_ok ev \<and>
     (case event_received ev of None \<Rightarrow> feed_ok now evs | Some t \<Rightarrow> now \<le> t \<and> feed_ok t evs))"

fun assemble ::
  "assembler_config \<Rightarrow> market_assembler \<Rightarrow> market_event list \<Rightarrow> market_assembler \<times> kernel_market option res list" where
  "assemble c a [] = (a, [])"
| "assemble c a (ev # evs) =
     (let (a1, r) = observe_market c a ev; (a2, rs) = assemble c a1 evs in (a2, r # rs))"

fun emitted :: "kernel_market option res list \<Rightarrow> kernel_market list" where
  "emitted [] = []"
| "emitted (Inr (Some m) # rs) = m # emitted rs"
| "emitted (r # rs) = emitted rs"

definition asm_ok :: "int \<Rightarrow> market_assembler \<Rightarrow> bool" where
  "asm_ok now a \<longleftrightarrow> list_all (pending_ok now) (asm_pending_trades a)
     \<and> opt_all (\<lambda>d. l2_book_error d = None) (asm_latest_depth a) \<and> 0 \<le> asm_sequence a"

text \<open>What a state promises: the kernel's contract, bounded depth, fresh book and trades, pacing.\<close>

definition state_fresh :: "assembler_config \<Rightarrow> kernel_market \<Rightarrow> bool" where
  "state_fresh c m \<longleftrightarrow> kernel_market_ok m
     \<and> length (km_bids m) \<le> asc_depth_levels c \<and> length (km_asks m) \<le> asc_depth_levels c
     \<and> km_observed_ts_ns m - km_book_exchange_ts_ns m \<le> asc_maximum_input_age_ns c
     \<and> (\<forall>t \<in> set (km_trades m). km_observed_ts_ns m - kt_exchange_ts_ns t \<le> asc_maximum_input_age_ns c)"

lemma expire_simps [simp]:
  "asm_latest_depth (expire_stale_trades c t a) = asm_latest_depth a"
  "asm_sequence (expire_stale_trades c t a) = asm_sequence a"
  "asm_last_observed_ts_ns (expire_stale_trades c t a) = asm_last_observed_ts_ns a"
  "asm_pending_trades (expire_stale_trades c t a)
     = filter (\<lambda>x. t - asc_maximum_input_age_ns c \<le> trade_happened x) (asm_pending_trades a)"
  by (simp_all add: expire_stale_trades_def Let_def)

lemma state_due_cong:
  "asm_last_observed_ts_ns a = asm_last_observed_ts_ns b \<Longrightarrow> state_due c t a = state_due c t b"
  by (simp add: state_due_def)

lemma emit_state_Inr:
  "emit_state a observed used r = (a', Inr (Some m)) \<Longrightarrow>
     r = Inr m \<and> a' = a\<lparr>asm_pending_trades := [], asm_sequence := asm_sequence a + 1,
       asm_last_observed_ts_ns := Some observed, asm_last_state_used_l2_depth := used\<rparr>"
  by (auto simp: emit_state_def split: sum.splits)

text \<open>A step: it raises only for the host's clock or for a repeated book receipt; a state it emits is
  fresh, paced and numbered.\<close>

definition step_promise ::
  "assembler_config \<Rightarrow> market_assembler \<Rightarrow> int \<Rightarrow> market_assembler \<times> kernel_market option res \<Rightarrow> bool" where
  "step_promise c a now ar \<longleftrightarrow> asm_ok now (fst ar) \<and>
     (case snd ar of
        Inl e \<Rightarrow> fst ar = a \<and> e \<in> {ValueError CLOCK_MESSAGE,
                   ValueError ''live book receive timestamps must be strictly increasing''}
      | Inr None \<Rightarrow> asm_sequence (fst ar) = asm_sequence a
                   \<and> asm_last_observed_ts_ns (fst ar) = asm_last_observed_ts_ns a
      | Inr (Some m) \<Rightarrow> state_fresh c m \<and> km_observed_ts_ns m = now \<and> km_sequence m = asm_sequence a
                   \<and> state_due c now a \<and> asm_sequence (fst ar) = asm_sequence a + 1
                   \<and> asm_last_observed_ts_ns (fst ar) = Some now)"

lemma trade_promise:
  assumes "asm_ok now a" "trade_event_error t = None" "now \<le> trade_received t"
  shows "step_promise c a (trade_received t) (observe_trade_event c t a)"
  using assms pending_ok_mono [of now _ "trade_received t"]
  by (auto simp: step_promise_def observe_trade_event_def asm_ok_def list_all_iff pending_ok_def Let_def)

lemma asm_ok_expired:
  "asm_ok now a \<Longrightarrow> now \<le> t \<Longrightarrow> asm_ok t (expire_stale_trades c t (a\<lparr>asm_last_book_receive_ts_ns := Some t\<rparr>))"
  using pending_ok_mono by (auto simp: asm_ok_def list_all_iff)

lemma admit_book_Inr:
  "admit_book_event c h a = Inr a1 \<Longrightarrow>
     a1 = expire_stale_trades c (eh_receive_ts_ns h) (a\<lparr>asm_last_book_receive_ts_ns := Some (eh_receive_ts_ns h)\<rparr>)
     \<and> eh_event_ts_ns h \<le> eh_receive_ts_ns h"
  by (auto simp: admit_book_event_def guardE_def split: if_splits)

lemma admit_book_Inl:
  "admit_book_event c h a = Inl e \<Longrightarrow>
     e \<in> {ValueError CLOCK_MESSAGE, ValueError ''live book receive timestamps must be strictly increasing''}"
  by (auto simp: admit_book_event_def guardE_def split: if_splits)

text \<open>An emission from valid sides.\<close>

lemma emit_promise:
  assumes "asm_ok now a" "list_all (\<lambda>t. now - asc_maximum_input_age_ns c \<le> trade_happened t) (asm_pending_trades a)"
    and bids: "bids \<noteq> []" "positive_levels bids" "sorted_wrt (\<lambda>x y. y < x) (map fst bids)"
    and asks: "asks \<noteq> []" "positive_levels asks" "sorted_wrt (<) (map fst asks)"
    and spread: "fst (hd bids) < fst (hd asks)"
    and ts: "0 \<le> book_ts" "book_ts \<le> state_ts" "state_ts \<le> now" "now - book_ts \<le> asc_maximum_input_age_ns c"
    and depth: "length bids \<le> asc_depth_levels c" "length asks \<le> asc_depth_levels c"
    and due: "state_due c now a"
    and ar: "ar = emit_state a now used (bindE (kernel_levels bids) (\<lambda>bs.
     bindE (kernel_levels asks) (\<lambda>as. assembled_state a now state_ts book_ts bs as)))"
  shows "step_promise c a now ar \<and> is_ok (snd ar)"
proof -
  have p: "list_all (pending_ok now) (asm_pending_trades a)" "0 \<le> asm_sequence a"
    using assms(1) by (simp_all add: asm_ok_def)
  obtain m where m: "bindE (kernel_levels bids) (\<lambda>bs. bindE (kernel_levels asks) (\<lambda>as.
      assembled_state a now state_ts book_ts bs as)) = Inr m"
    "kernel_market_ok m" "km_book_exchange_ts_ns m = book_ts" "km_observed_ts_ns m = now"
    "km_sequence m = asm_sequence a" "km_bids m = kernel_side bids" "km_asks m = kernel_side asks"
    "km_trades m = map kernel_trade_of (asm_pending_trades a)"
    using assembled_state_valid [OF bids asks spread p(1) ts(1-3) p(2)] by blast
  have "state_fresh c m"
    using m(2-8) ts(4) depth assms(2) by (auto simp: state_fresh_def kernel_side_def list_all_iff kernel_trade_of_def)
  with m(4,5) due assms(1) show ?thesis
    unfolding ar m(1) by (auto simp: step_promise_def emit_state_def asm_ok_def)
qed

lemma level_pair_simps [simp]: "fst (level_pair l) = bl_price l" "snd (level_pair l) = bl_size l"
  by (simp_all add: level_pair_def)

lemma positive_level_pairs: "list_all book_level_ok ls \<Longrightarrow> positive_levels (map level_pair ls)"
  by (auto simp: positive_levels_def list_all_iff book_level_ok_def level_pair_def)

lemma map_fst_level_pair [simp]: "map (fst \<circ> level_pair) ls = map bl_price ls"
  by (simp add: comp_def)

lemma l2_promise:
  assumes "asm_ok now a" "l2_book_error e = None" "now \<le> eh_receive_ts_ns (l2_header e)" "1 \<le> asc_depth_levels c"
  shows "step_promise c a (eh_receive_ts_ns (l2_header e)) (observe_l2 c e a)"
proof (cases "admit_book_event c (l2_header e) a")
  case (Inl x)
  with assms(1,3) show ?thesis using pending_ok_mono
    by (auto simp: observe_l2_def step_promise_def asm_ok_def list_all_iff dest: admit_book_Inl)
next
  case (Inr a1)
  let ?t = "eh_receive_ts_ns (l2_header e)"
  let ?a2 = "a1\<lparr>asm_latest_depth := Some e\<rparr>"
  from admit_book_Inr [OF Inr] have a1: "a1 = expire_stale_trades c ?t (a\<lparr>asm_last_book_receive_ts_ns := Some ?t\<rparr>)"
    "eh_event_ts_ns (l2_header e) \<le> ?t" by simp_all
  have ok: "asm_ok ?t a1" unfolding a1(1) using assms(1,3) by (rule asm_ok_expired)
  have same: "asm_sequence a1 = asm_sequence a" "asm_last_observed_ts_ns a1 = asm_last_observed_ts_ns a"
    by (simp_all add: a1(1))
  note l2 = l2_sides [OF assms(2)]
  have e: "asm_ok ?t ?a2" using ok assms(2) by (simp add: asm_ok_def)
  have sides: "take (asc_depth_levels c) (l2_bids e) \<noteq> []" "take (asc_depth_levels c) (l2_asks e) \<noteq> []"
    "list_all book_level_ok (take (asc_depth_levels c) (l2_bids e))"
    "list_all book_level_ok (take (asc_depth_levels c) (l2_asks e))"
    using l2 assms(4) by (auto simp: list_all_iff dest: in_set_takeD)
  show ?thesis
  proof (cases "header_stale c (l2_header e) \<or> \<not> state_due c ?t ?a2")
    case True
    with Inr ok e same show ?thesis by (auto simp: observe_l2_def step_promise_def asm_ok_def)
  next
    case False
    then have due: "state_due c ?t ?a2" and fresh: "?t - eh_event_ts_ns (l2_header e) \<le> asc_maximum_input_age_ns c"
      by (auto simp: header_stale_def)
    have "step_promise c ?a2 ?t (state_from_l2 c e ?a2) \<and> is_ok (snd (state_from_l2 c e ?a2))"
      by (rule emit_promise [OF e _ _ positive_level_pairs _ _ positive_level_pairs _ _ _ _ _ _ _ _ due state_from_l2_def [unfolded Let_def]])
        (use sides l2 a1 fresh assms(4) in
          \<open>auto simp: hd_map list_all_iff take_map [symmetric] intro: sorted_wrt_take\<close>)
    with Inr False same show ?thesis
      by (auto simp: observe_l2_def step_promise_def state_due_def split: sum.splits option.splits)
  qed
qed

lemma bbo_sides:
  assumes "bbo_event_error e = None" "opt_all (\<lambda>d. l2_book_error d = None) depth" "1 \<le> asc_depth_levels c"
  shows "positive_levels (bbo_bids c e depth)" "positive_levels (bbo_asks c e depth)"
    "sorted_wrt (\<lambda>x y. y < x) (map fst (bbo_bids c e depth))" "sorted_wrt (<) (map fst (bbo_asks c e depth))"
    "length (bbo_bids c e depth) \<le> asc_depth_levels c" "length (bbo_asks c e depth) \<le> asc_depth_levels c"
    "fst (hd (bbo_bids c e depth)) < fst (hd (bbo_asks c e depth))"
    "0 \<le> eh_event_ts_ns (bbo_header e)"
proof -
  have e: "0 < bbo_bid_price e" "0 < bbo_bid_size e" "0 < bbo_ask_price e" "0 < bbo_ask_size e"
    "bbo_bid_price e < bbo_ask_price e" "event_header_error (bbo_header e) = None"
    using assms(1) by (auto simp: bbo_event_error_def split: if_splits)
  have deeper: "positive_levels (take k (map level_pair (filter P ls)))"
    if "list_all book_level_ok ls" for k P ls
    using that by (auto simp: positive_levels_def list_all_iff book_level_ok_def level_pair_def dest!: in_set_takeD)
  show "positive_levels (bbo_bids c e depth)"
    using e deeper l2_sides(5) assms(2)
    by (cases depth) (auto simp: bbo_bids_def positive_levels_def)
  show "positive_levels (bbo_asks c e depth)"
    using e deeper l2_sides(6) assms(2)
    by (cases depth) (auto simp: bbo_asks_def positive_levels_def)
  have sorted: "sorted_wrt R (take k (map bl_price (filter P ls)))" if "sorted_wrt R (map bl_price ls)" for R k P ls
    using that by (intro sorted_wrt_take) (auto simp: sorted_wrt_map intro: sorted_wrt_filter)
  show "sorted_wrt (\<lambda>x y. y < x) (map fst (bbo_bids c e depth))"
    using sorted [OF l2_sides(1)] assms(2)
    by (cases depth) (auto simp: bbo_bids_def take_map [symmetric] dest!: in_set_takeD)
  show "sorted_wrt (<) (map fst (bbo_asks c e depth))"
    using sorted [OF l2_sides(2)] assms(2)
    by (cases depth) (auto simp: bbo_asks_def take_map [symmetric] dest!: in_set_takeD)
  show "length (bbo_bids c e depth) \<le> asc_depth_levels c" "length (bbo_asks c e depth) \<le> asc_depth_levels c"
    using assms(3) by (auto simp: bbo_bids_def bbo_asks_def split: option.splits)
  show "fst (hd (bbo_bids c e depth)) < fst (hd (bbo_asks c e depth))"
    using e by (simp add: bbo_bids_def bbo_asks_def)
  show "0 \<le> eh_event_ts_ns (bbo_header e)" using e header_ts_nonneg by blast
qed

lemma bbo_promise:
  assumes "asm_ok now a" "bbo_event_error e = None" "now \<le> eh_receive_ts_ns (bbo_header e)" "1 \<le> asc_depth_levels c"
  shows "step_promise c a (eh_receive_ts_ns (bbo_header e)) (observe_bbo c e a)"
proof (cases "admit_book_event c (bbo_header e) a")
  case (Inl x)
  with assms(1,3) show ?thesis using pending_ok_mono
    by (auto simp: observe_bbo_def step_promise_def asm_ok_def list_all_iff dest: admit_book_Inl)
next
  case (Inr a1)
  let ?t = "eh_receive_ts_ns (bbo_header e)"
  let ?a2 = "a1\<lparr>asm_latest_bbo_receive_ts_ns := Some ?t\<rparr>"
  let ?d = "usable_depth c e ?a2"
  from admit_book_Inr [OF Inr] have a1: "a1 = expire_stale_trades c ?t (a\<lparr>asm_last_book_receive_ts_ns := Some ?t\<rparr>)"
    "eh_event_ts_ns (bbo_header e) \<le> ?t" by simp_all
  have ok: "asm_ok ?t a1" unfolding a1(1) using assms(1,3) by (rule asm_ok_expired)
  have same: "asm_sequence a1 = asm_sequence a" "asm_last_observed_ts_ns a1 = asm_last_observed_ts_ns a"
    by (simp_all add: a1(1))
  have e: "asm_ok ?t ?a2" using ok by (simp add: asm_ok_def)
  have d: "opt_all (\<lambda>d. l2_book_error d = None) ?d" "opt_all (depth_usable c e) ?d"
    using ok by (auto simp: usable_depth_def asm_ok_def split: option.splits)
  note sides = bbo_sides [OF assms(2) d(1) assms(4)]
  show ?thesis
  proof (cases "header_stale c (bbo_header e) \<or> \<not> state_due c ?t ?a2")
    case True
    with Inr ok e same show ?thesis by (auto simp: observe_bbo_def step_promise_def asm_ok_def)
  next
    case False
    then have due: "state_due c ?t ?a2" and fresh: "?t - eh_event_ts_ns (bbo_header e) \<le> asc_maximum_input_age_ns c"
      by (auto simp: header_stale_def)
    let ?ts = "case ?d of None \<Rightarrow> eh_event_ts_ns (bbo_header e) | Some d \<Rightarrow> eh_event_ts_ns (l2_header d)"
    have ts: "0 \<le> ?ts" "?ts \<le> eh_event_ts_ns (bbo_header e)" "?t - ?ts \<le> asc_maximum_input_age_ns c"
      using d sides(8) fresh l2_sides(8) by (auto simp: depth_usable_def split: option.splits)
    have "step_promise c ?a2 ?t (state_from_bbo c e ?a2) \<and> is_ok (snd (state_from_bbo c e ?a2))"
      by (rule emit_promise [OF e _ _ sides(1,3) _ sides(2,4,7) ts(1,2) a1(2) ts(3) sides(5,6) due state_from_bbo_def [unfolded Let_def]])
        (auto simp: a1(1) list_all_iff bbo_bids_def bbo_asks_def)
    with Inr False same show ?thesis
      by (auto simp: observe_bbo_def step_promise_def state_due_def split: sum.splits option.splits)
  qed
qed

lemma observe_promise:
  "asm_ok now a \<Longrightarrow> event_ok ev \<Longrightarrow> event_received ev = Some t \<Longrightarrow> now \<le> t \<Longrightarrow> 1 \<le> asc_depth_levels c \<Longrightarrow>
     step_promise c a t (observe_market c a ev)"
  by (cases ev) (auto simp: event_received_def event_ok_def observe_market_def
      intro: trade_promise l2_promise bbo_promise)

lemma observe_ignored: "event_received ev = None \<Longrightarrow> observe_market c a ev = (a, Inr None)"
  by (cases ev) (auto simp: event_received_def observe_market_def)

lemma asm_ok_mono: "asm_ok now a \<Longrightarrow> now \<le> t \<Longrightarrow> asm_ok t a"
  using pending_ok_mono by (auto simp: asm_ok_def list_all_iff)

definition run_promise ::
  "assembler_config \<Rightarrow> market_assembler \<Rightarrow> kernel_market option res list \<Rightarrow> bool" where
  "run_promise c a rs \<longleftrightarrow>
     (\<forall>m \<in> set (emitted rs). state_fresh c m \<and> state_due c (km_observed_ts_ns m) a)
     \<and> map km_sequence (emitted rs) = map (\<lambda>i. asm_sequence a + int i) [0..<length (emitted rs)]
     \<and> sorted_wrt (\<lambda>m n. asc_minimum_state_interval_ns c \<le> km_observed_ts_ns n - km_observed_ts_ns m) (emitted rs)
     \<and> (\<forall>e. Inl e \<in> set rs \<longrightarrow> e \<in> {ValueError CLOCK_MESSAGE,
           ValueError ''live book receive timestamps must be strictly increasing''})"

lemma run_promise_cong:
  "asm_sequence a = asm_sequence b \<Longrightarrow> asm_last_observed_ts_ns a = asm_last_observed_ts_ns b \<Longrightarrow>
     run_promise c a rs = run_promise c b rs"
  by (simp add: run_promise_def state_due_def)

lemma map_upt_shift: "map f [0..<Suc n] = f 0 # map (\<lambda>i. f (Suc i)) [0..<n]"
  by (simp add: map_upt_Suc del: upt_Suc)

lemma run_promise_step:
  assumes "step_promise c a t (a1, r)" "run_promise c a1 rs" "0 < asc_minimum_state_interval_ns c"
  shows "run_promise c a (r # rs)"
proof (cases r)
  case (Inl e)
  with assms(1,2) show ?thesis by (auto simp: step_promise_def run_promise_def)
next
  case (Inr x)
  show ?thesis
  proof (cases x)
    case None
    with Inr assms(1) have "run_promise c a rs"
      using run_promise_cong [of a1 a c rs] assms(2) by (simp add: step_promise_def)
    with Inr None show ?thesis by (auto simp: run_promise_def)
  next
    case (Some m)
    with Inr assms(1) have m: "state_fresh c m" "km_observed_ts_ns m = t" "km_sequence m = asm_sequence a"
      "state_due c t a" "asm_sequence a1 = asm_sequence a + 1" "asm_last_observed_ts_ns a1 = Some t"
      by (auto simp: step_promise_def)
    have later: "asc_minimum_state_interval_ns c \<le> km_observed_ts_ns n - t" if "n \<in> set (emitted rs)" for n
      using assms(2) that m(6) by (auto simp: run_promise_def state_due_def)
    have "state_due c (km_observed_ts_ns n) a" if "n \<in> set (emitted rs)" for n
      using later [OF that] m(4) assms(3) by (auto simp: state_due_def split: option.splits)
    with Inr Some m later assms(2) show ?thesis
      by (auto simp: run_promise_def map_upt_shift algebra_simps simp del: upt_Suc)
  qed
qed

lemma assemble_promise:
  assumes "assembler_config_error c = None"
  shows "feed_ok now evs \<Longrightarrow> asm_ok now a \<Longrightarrow> run_promise c a (snd (assemble c a evs))"
proof (induction evs arbitrary: now a)
  case (Cons ev evs)
  have c: "1 \<le> asc_depth_levels c" "0 < asc_minimum_state_interval_ns c"
    using assms by (auto simp: assembler_config_error_def split: if_splits)
  obtain a1 r where o: "observe_market c a ev = (a1, r)" by fastforce
  show ?case
  proof (cases "event_received ev")
    case None
    with o observe_ignored have "a1 = a" "r = Inr None" by auto
    with Cons None o show ?thesis by (auto simp: run_promise_def case_prod_beta)
  next
    case (Some t)
    with Cons.prems observe_promise [of now a ev t c] c o have p: "step_promise c a t (a1, r)" by simp
    then have "asm_ok t a1" by (simp add: step_promise_def)
    with Cons.IH [of t a1] Cons.prems Some have "run_promise c a1 (snd (assemble c a1 evs))" by simp
    with p c o show ?thesis by (auto simp: case_prod_beta intro: run_promise_step)
  qed
qed (simp add: run_promise_def)

lemma new_assembler_ok [simp]: "asm_ok now new_assembler"
  by (simp add: asm_ok_def new_assembler_def)

text \<open>C34: What the assembler emits is valid and fresh. On every feed of contract-valid events in order of
  receipt, each emitted state passes the kernel's contract, has at most the configured depth, rests on a
  book and on trades no older than the input limit, states are numbered from zero without gaps and lie
  at least the configured interval apart; and the only errors are the host clock behind the exchange
  and a book receipt that does not advance.\<close>

theorem assembled_states_valid:
  assumes "assembler_config_error c = None" "feed_ok 0 evs" "rs = snd (assemble c new_assembler evs)"
  shows "(\<forall>m \<in> set (emitted rs). state_fresh c m)
    \<and> map km_sequence (emitted rs) = map int [0..<length (emitted rs)]
    \<and> sorted_wrt (\<lambda>m n. asc_minimum_state_interval_ns c \<le> km_observed_ts_ns n - km_observed_ts_ns m) (emitted rs)
    \<and> (\<forall>e. Inl e \<in> set rs \<longrightarrow> e \<in> {ValueError CLOCK_MESSAGE,
          ValueError ''live book receive timestamps must be strictly increasing''})"
  using assemble_promise [OF assms(1,2) new_assembler_ok] assms(3)
  by (simp add: run_promise_def new_assembler_def)

section \<open>Every trade is accounted for\<close>

text \<open>The trades an assembler accepted, in order.\<close>

fun accepted_trades :: "market_event list \<Rightarrow> kernel_market option res list \<Rightarrow> trade_event list" where
  "accepted_trades (Trade t # evs) (Inr x # rs) = t # accepted_trades evs rs"
| "accepted_trades (ev # evs) (r # rs) = accepted_trades evs rs"
| "accepted_trades _ _ = []"

lemma emit_state_trades:
  assumes "emit_state a observed used (bindE bs (\<lambda>b. bindE as (\<lambda>k. assembled_state a observed sts bts b k))) = (a', r)"
  shows "(case r of Inl e \<Rightarrow> a' = a | Inr None \<Rightarrow> False
    | Inr (Some m) \<Rightarrow> km_trades m = map kernel_trade_of (asm_pending_trades a) \<and> asm_pending_trades a' = []
        \<and> asm_stale_trade_exclusions a' = asm_stale_trade_exclusions a)"
  using assms
  by (auto simp: emit_state_def assembled_state_def kernel_trades_def mk_kernel_market_def guardE_def bindE_def Let_def
      split: sum.splits if_splits option.splits)

text \<open>What a step does to the trades: the pending ones stay in order or leave with the state.\<close>

definition trades_kept :: "market_assembler \<Rightarrow> trade_event list \<Rightarrow> market_assembler \<times> kernel_market option res \<Rightarrow> bool" where
  "trades_kept a new ar \<longleftrightarrow>
     (let out = concat (map km_trades (emitted [snd ar]));
          left = map kernel_trade_of (asm_pending_trades (fst ar))
      in subseq (out @ left) (map kernel_trade_of (asm_pending_trades a @ new))
       \<and> length out + length left + asm_stale_trade_exclusions (fst ar)
           = length (asm_pending_trades a) + length new + asm_stale_trade_exclusions a)"

lemma subseq_map_filter: "subseq (map f (filter P xs)) (map f xs)"
  by (intro subseq_map subseq_filter_left)

lemma expire_kept:
  "subseq (map kernel_trade_of (asm_pending_trades (expire_stale_trades c t a))) (map kernel_trade_of (asm_pending_trades a))"
  "length (asm_pending_trades (expire_stale_trades c t a)) + asm_stale_trade_exclusions (expire_stale_trades c t a)
     = length (asm_pending_trades a) + asm_stale_trade_exclusions a"
  using length_filter_le [of "\<lambda>x. t - asc_maximum_input_age_ns c \<le> trade_happened x" "asm_pending_trades a"]
  by (simp_all add: expire_stale_trades_def Let_def subseq_map_filter del: length_filter_le)

lemma trade_kept:
  "trades_kept a (if is_ok (snd (observe_trade_event c t a)) then [t] else []) (observe_trade_event c t a)"
  using expire_kept [of c "trade_received t" a]
  by (auto simp: trades_kept_def observe_trade_event_def Let_def
      intro: list_emb_append_mono list_emb_append2 subseq_order.trans)

lemma emit_kept:
  assumes "emit_state a observed used (bindE bs (\<lambda>b. bindE as (\<lambda>k. assembled_state a observed sts bts b k))) = (a', r)"
    "asm_pending_trades a = asm_pending_trades (expire_stale_trades c t a0)"
    "asm_stale_trade_exclusions a = asm_stale_trade_exclusions (expire_stale_trades c t a0)"
    "asm_pending_trades a0 = asm_pending_trades orig" "asm_stale_trade_exclusions a0 = asm_stale_trade_exclusions orig"
  shows "trades_kept orig [] (a', r)"
  using emit_state_trades [OF assms(1)] expire_kept [of c t a0] assms(2-)
  by (cases r; auto simp: trades_kept_def Let_def split: option.splits)

lemma l2_kept: "trades_kept a [] (observe_l2 c e a)"
proof (cases "admit_book_event c (l2_header e) a")
  case (Inl x) then show ?thesis by (simp add: observe_l2_def trades_kept_def)
next
  case (Inr a1)
  let ?t = "eh_receive_ts_ns (l2_header e)" and ?a0 = "a\<lparr>asm_last_book_receive_ts_ns := Some (eh_receive_ts_ns (l2_header e))\<rparr>"
  from admit_book_Inr [OF Inr] have a1: "a1 = expire_stale_trades c ?t ?a0" by simp
  obtain a' r where s: "state_from_l2 c e (a1\<lparr>asm_latest_depth := Some e\<rparr>) = (a', r)" by fastforce
  have "trades_kept a [] (a', r)"
    using s unfolding state_from_l2_def Let_def by (rule emit_kept [of _ _ _ _ _ _ _ _ _ c ?t ?a0]) (simp_all add: a1)
  with Inr s expire_kept [of c ?t ?a0] show ?thesis
    by (auto simp: observe_l2_def a1 trades_kept_def Let_def)
qed

lemma bbo_kept: "trades_kept a [] (observe_bbo c e a)"
proof (cases "admit_book_event c (bbo_header e) a")
  case (Inl x) then show ?thesis by (simp add: observe_bbo_def trades_kept_def)
next
  case (Inr a1)
  let ?t = "eh_receive_ts_ns (bbo_header e)" and ?a0 = "a\<lparr>asm_last_book_receive_ts_ns := Some (eh_receive_ts_ns (bbo_header e))\<rparr>"
  from admit_book_Inr [OF Inr] have a1: "a1 = expire_stale_trades c ?t ?a0" by simp
  obtain a' r where s: "state_from_bbo c e (a1\<lparr>asm_latest_bbo_receive_ts_ns := Some ?t\<rparr>) = (a', r)" by fastforce
  have "trades_kept a [] (a', r)"
    using s unfolding state_from_bbo_def Let_def by (rule emit_kept [of _ _ _ _ _ _ _ _ _ c ?t ?a0]) (simp_all add: a1)
  with Inr s expire_kept [of c ?t ?a0] show ?thesis
    by (auto simp: observe_bbo_def a1 trades_kept_def Let_def)
qed

lemma observe_kept:
  "trades_kept a (accepted_trades [ev] [snd (observe_market c a ev)]) (observe_market c a ev)"
proof (cases ev)
  case (Trade t)
  then show ?thesis using trade_kept [of a c t]
    by (cases "snd (observe_trade_event c t a)") (simp_all add: observe_market_def)
next
  case (L2Book e) then show ?thesis using l2_kept [of a c e] by (simp add: observe_market_def)
next
  case (Bbo e) then show ?thesis using bbo_kept [of a c e] by (simp add: observe_market_def)
qed (simp_all add: observe_market_def trades_kept_def)

lemma accepted_trades_Cons: "accepted_trades (ev # evs) (r # rs) = accepted_trades [ev] [r] @ accepted_trades evs rs"
  by (cases ev; cases r) auto

lemma emitted_Cons: "emitted (r # rs) = emitted [r] @ emitted rs"
  by (cases r; cases "projr r") auto

text \<open>C18: No trade is lost, duplicated or reordered. On every feed, with errors anywhere, the trades of the
  emitted states followed by those still pending are a subsequence of the accepted trades, and the
  missing ones are exactly as many as the stale-trade counter says.\<close>

theorem trades_accounted:
  assumes "assemble c new_assembler evs = (a, rs)"
  shows "subseq (concat (map km_trades (emitted rs)) @ map kernel_trade_of (asm_pending_trades a))
      (map kernel_trade_of (accepted_trades evs rs))
    \<and> length (concat (map km_trades (emitted rs))) + length (asm_pending_trades a) + asm_stale_trade_exclusions a
        = length (accepted_trades evs rs)"
proof -
  have "subseq (concat (map km_trades (emitted rs)) @ map kernel_trade_of (asm_pending_trades a))
      (map kernel_trade_of (asm_pending_trades a0 @ accepted_trades evs rs))
    \<and> length (concat (map km_trades (emitted rs))) + length (asm_pending_trades a) + asm_stale_trade_exclusions a
        = length (asm_pending_trades a0) + asm_stale_trade_exclusions a0 + length (accepted_trades evs rs)"
    if "assemble c a0 evs = (a, rs)" for a0
    using that
  proof (induction evs arbitrary: a0 rs)
    case (Cons ev evs)
    obtain a1 r where o: "observe_market c a0 ev = (a1, r)" by fastforce
    obtain rs' where r: "assemble c a1 evs = (a, rs')" "rs = r # rs'"
      using Cons.prems o by (auto simp: case_prod_beta) (metis prod.collapse)
    let ?out = "concat (map km_trades (emitted [r]))" and ?acc = "accepted_trades [ev] [r]"
    have k: "subseq (?out @ map kernel_trade_of (asm_pending_trades a1)) (map kernel_trade_of (asm_pending_trades a0 @ ?acc))"
      "length ?out + length (asm_pending_trades a1) + asm_stale_trade_exclusions a1
         = length (asm_pending_trades a0) + length ?acc + asm_stale_trade_exclusions a0"
      using observe_kept [of a0 ev c] o by (auto simp: trades_kept_def Let_def)
    from k(1) have "subseq (?out @ map kernel_trade_of (asm_pending_trades a1) @ map kernel_trade_of (accepted_trades evs rs'))
        (map kernel_trade_of (asm_pending_trades a0 @ ?acc) @ map kernel_trade_of (accepted_trades evs rs'))"
      by (metis append_assoc list_emb_append_mono subseq_order.order_refl)
    moreover have "subseq (?out @ concat (map km_trades (emitted rs')) @ map kernel_trade_of (asm_pending_trades a))
        (?out @ map kernel_trade_of (asm_pending_trades a1) @ map kernel_trade_of (accepted_trades evs rs'))"
      using Cons.IH [OF r(1)] by (simp add: list_emb_append_mono)
    ultimately have "subseq (?out @ concat (map km_trades (emitted rs')) @ map kernel_trade_of (asm_pending_trades a))
        (map kernel_trade_of (asm_pending_trades a0 @ ?acc) @ map kernel_trade_of (accepted_trades evs rs'))"
      using subseq_order.trans by blast
    with Cons.IH [OF r(1)] k(2) show ?case
      unfolding r(2) emitted_Cons [of r rs'] accepted_trades_Cons [of ev evs r rs'] by simp
  qed simp
  from this [OF assms] show ?thesis by (simp add: new_assembler_def)
qed

section \<open>Expiry at every event and expiry at emission agree\<close>

text \<open>
  The reference assembler: it keeps every trade since the last state and sorts the stale ones out only
  when a state is due. It counts no exclusions.
\<close>

definition drop_stale :: "assembler_config \<Rightarrow> int \<Rightarrow> market_assembler \<Rightarrow> market_assembler" where
  "drop_stale c observed a = a\<lparr>asm_pending_trades :=
     filter (\<lambda>t. observed - asc_maximum_input_age_ns c \<le> trade_happened t) (asm_pending_trades a)\<rparr>"

definition reference_book_event :: "event_header \<Rightarrow> market_assembler \<Rightarrow> market_assembler res" where
  "reference_book_event h a =
     guardE (\<not> opt_all (\<lambda>t. t < eh_receive_ts_ns h) (asm_last_book_receive_ts_ns a))
       (ValueError ''live book receive timestamps must be strictly increasing'')
     (guardE (eh_receive_ts_ns h < eh_event_ts_ns h) (ValueError CLOCK_MESSAGE)
       (Inr (a\<lparr>asm_last_book_receive_ts_ns := Some (eh_receive_ts_ns h)\<rparr>)))"

definition reference_l2 ::
  "assembler_config \<Rightarrow> l2_book_snapshot \<Rightarrow> market_assembler \<Rightarrow> market_assembler \<times> kernel_market option res" where
  "reference_l2 c e a =
     (case reference_book_event (l2_header e) a of
        Inl x \<Rightarrow> (a, Inl x)
      | Inr a1 \<Rightarrow>
          if header_stale c (l2_header e)
          then (a1\<lparr>asm_stale_book_exclusions := asm_stale_book_exclusions a1 + 1\<rparr>, Inr None)
          else let a2 = a1\<lparr>asm_latest_depth := Some e\<rparr>
               in if state_due c (eh_receive_ts_ns (l2_header e)) a2
                  then state_from_l2 c e (drop_stale c (eh_receive_ts_ns (l2_header e)) a2)
                  else (a2, Inr None))"

definition reference_bbo ::
  "assembler_config \<Rightarrow> bbo_event \<Rightarrow> market_assembler \<Rightarrow> market_assembler \<times> kernel_market option res" where
  "reference_bbo c e a =
     (case reference_book_event (bbo_header e) a of
        Inl x \<Rightarrow> (a, Inl x)
      | Inr a1 \<Rightarrow>
          if header_stale c (bbo_header e)
          then (a1\<lparr>asm_stale_bbo_exclusions := asm_stale_bbo_exclusions a1 + 1\<rparr>, Inr None)
          else let a2 = a1\<lparr>asm_latest_bbo_receive_ts_ns := Some (eh_receive_ts_ns (bbo_header e))\<rparr>
               in if state_due c (eh_receive_ts_ns (bbo_header e)) a2
                  then state_from_bbo c e (drop_stale c (eh_receive_ts_ns (bbo_header e)) a2)
                  else (a2, Inr None))"

definition reference_observe ::
  "assembler_config \<Rightarrow> market_assembler \<Rightarrow> market_event \<Rightarrow> market_assembler \<times> kernel_market option res" where
  "reference_observe c a ev =
     (case ev of
        Trade t \<Rightarrow> if trade_received t < trade_happened t then (a, Inl (ValueError CLOCK_MESSAGE))
                   else (a\<lparr>asm_pending_trades := asm_pending_trades a @ [t]\<rparr>, Inr None)
      | L2Book e \<Rightarrow> reference_l2 c e a
      | Bbo e \<Rightarrow> reference_bbo c e a
      | _ \<Rightarrow> (a, Inr None))"

fun reference_assemble ::
  "assembler_config \<Rightarrow> market_assembler \<Rightarrow> market_event list \<Rightarrow> market_assembler \<times> kernel_market option res list" where
  "reference_assemble c a [] = (a, [])"
| "reference_assemble c a (ev # evs) =
     (let (a1, r) = reference_observe c a ev; (a2, rs) = reference_assemble c a1 evs in (a2, r # rs))"

text \<open>The eager assembler is the reference with its stale trades dropped, whatever it has counted.\<close>

definition drops_to :: "assembler_config \<Rightarrow> int \<Rightarrow> market_assembler \<Rightarrow> market_assembler \<Rightarrow> bool" where
  "drops_to c now b a \<longleftrightarrow> (\<exists>n. a = (drop_stale c now b)\<lparr>asm_stale_trade_exclusions := n\<rparr>)"

lemma drops_toI: "a = (drop_stale c now b)\<lparr>asm_stale_trade_exclusions := n\<rparr> \<Longrightarrow> drops_to c now b a"
  by (auto simp: drops_to_def)

lemma drops_to_later:
  assumes "drops_to c now b a" "now \<le> t"
  shows "drops_to c t b (expire_stale_trades c t a)"
proof -
  from assms(1) obtain n where a: "a = (drop_stale c now b)\<lparr>asm_stale_trade_exclusions := n\<rparr>"
    by (auto simp: drops_to_def)
  have "filter (\<lambda>x. t - asc_maximum_input_age_ns c \<le> trade_happened x \<and> now - asc_maximum_input_age_ns c \<le> trade_happened x) ys
      = filter (\<lambda>x. t - asc_maximum_input_age_ns c \<le> trade_happened x) ys" for ys
    using assms(2) by (intro filter_cong) auto
  then show ?thesis
    unfolding a
    by (intro drops_toI [where n = "asm_stale_trade_exclusions (expire_stale_trades c t a)"] market_assembler.equality)
      (simp_all add: a expire_stale_trades_def drop_stale_def Let_def conj_commute)
qed

lemma drops_to_fields:
  "drops_to c now b a \<Longrightarrow> asm_last_observed_ts_ns a = asm_last_observed_ts_ns b"
  "drops_to c now b a \<Longrightarrow> asm_last_book_receive_ts_ns a = asm_last_book_receive_ts_ns b"
  by (auto simp: drops_to_def drop_stale_def)

text \<open>Updates of fields that neither side looks at when it drops trades.\<close>

lemma drops_to_update:
  assumes "drops_to c now b a"
  shows "drops_to c now (b\<lparr>asm_last_book_receive_ts_ns := x\<rparr>) (a\<lparr>asm_last_book_receive_ts_ns := x\<rparr>)"
    "drops_to c now (b\<lparr>asm_latest_depth := d\<rparr>) (a\<lparr>asm_latest_depth := d\<rparr>)"
    "drops_to c now (b\<lparr>asm_latest_bbo_receive_ts_ns := x\<rparr>) (a\<lparr>asm_latest_bbo_receive_ts_ns := x\<rparr>)"
    "drops_to c now (b\<lparr>asm_stale_book_exclusions := Suc (asm_stale_book_exclusions b)\<rparr>)
       (a\<lparr>asm_stale_book_exclusions := Suc (asm_stale_book_exclusions a)\<rparr>)"
    "drops_to c now (b\<lparr>asm_stale_bbo_exclusions := Suc (asm_stale_bbo_exclusions b)\<rparr>)
       (a\<lparr>asm_stale_bbo_exclusions := Suc (asm_stale_bbo_exclusions a)\<rparr>)"
proof -
  from assms obtain n where a: "a = (drop_stale c now b)\<lparr>asm_stale_trade_exclusions := n\<rparr>"
    by (auto simp: drops_to_def)
  show "drops_to c now (b\<lparr>asm_last_book_receive_ts_ns := x\<rparr>) (a\<lparr>asm_last_book_receive_ts_ns := x\<rparr>)"
    "drops_to c now (b\<lparr>asm_latest_depth := d\<rparr>) (a\<lparr>asm_latest_depth := d\<rparr>)"
    "drops_to c now (b\<lparr>asm_latest_bbo_receive_ts_ns := x\<rparr>) (a\<lparr>asm_latest_bbo_receive_ts_ns := x\<rparr>)"
    "drops_to c now (b\<lparr>asm_stale_book_exclusions := Suc (asm_stale_book_exclusions b)\<rparr>)
       (a\<lparr>asm_stale_book_exclusions := Suc (asm_stale_book_exclusions a)\<rparr>)"
    "drops_to c now (b\<lparr>asm_stale_bbo_exclusions := Suc (asm_stale_bbo_exclusions b)\<rparr>)
       (a\<lparr>asm_stale_bbo_exclusions := Suc (asm_stale_bbo_exclusions a)\<rparr>)"
    by (intro drops_toI [where n = n] market_assembler.equality; simp add: a drop_stale_def)+
qed

text \<open>An emission does not look at the counter of stale trades.\<close>

lemma assembled_state_cong:
  "asm_pending_trades a = asm_pending_trades b \<Longrightarrow> asm_sequence a = asm_sequence b \<Longrightarrow>
     assembled_state a observed ts bts bids asks = assembled_state b observed ts bts bids asks"
  by (simp add: assembled_state_def)

lemma state_from_l2_drops:
  assumes "drops_to c t b a"
  shows "drops_to c t (fst (state_from_l2 c e (drop_stale c t b))) (fst (state_from_l2 c e a))"
    "snd (state_from_l2 c e a) = snd (state_from_l2 c e (drop_stale c t b))"
proof -
  obtain n where a: "a = (drop_stale c t b)\<lparr>asm_stale_trade_exclusions := n\<rparr>" using assms by (auto simp: drops_to_def)
  have s: "assembled_state a observed ts bts bids asks = assembled_state (drop_stale c t b) observed ts bts bids asks"
    for observed ts bts bids asks by (rule assembled_state_cong) (simp_all add: a)
  show "drops_to c t (fst (state_from_l2 c e (drop_stale c t b))) (fst (state_from_l2 c e a))"
    unfolding state_from_l2_def Let_def emit_state_def s
    by (cases "bindE (kernel_levels (map level_pair (take (asc_depth_levels c) (l2_bids e)))) (\<lambda>bids.
        bindE (kernel_levels (map level_pair (take (asc_depth_levels c) (l2_asks e)))) (\<lambda>asks.
          assembled_state (drop_stale c t b) (eh_receive_ts_ns (l2_header e)) (eh_event_ts_ns (l2_header e))
            (eh_event_ts_ns (l2_header e)) bids asks))")
      (auto intro!: drops_toI [where n = n] market_assembler.equality simp: a drop_stale_def)
  show "snd (state_from_l2 c e a) = snd (state_from_l2 c e (drop_stale c t b))"
    unfolding state_from_l2_def Let_def emit_state_def s by (simp split: sum.splits)
qed

lemma state_from_bbo_drops:
  assumes "drops_to c t b a"
  shows "drops_to c t (fst (state_from_bbo c e (drop_stale c t b))) (fst (state_from_bbo c e a))"
    "snd (state_from_bbo c e a) = snd (state_from_bbo c e (drop_stale c t b))"
proof -
  obtain n where a: "a = (drop_stale c t b)\<lparr>asm_stale_trade_exclusions := n\<rparr>" using assms by (auto simp: drops_to_def)
  have s: "assembled_state a observed ts bts bids asks = assembled_state (drop_stale c t b) observed ts bts bids asks"
    for observed ts bts bids asks by (rule assembled_state_cong) (simp_all add: a)
  have d: "usable_depth c e a = usable_depth c e (drop_stale c t b)" by (simp add: a usable_depth_def)
  define r where "r = bindE (kernel_levels (bbo_bids c e (usable_depth c e (drop_stale c t b)))) (\<lambda>bids.
      bindE (kernel_levels (bbo_asks c e (usable_depth c e (drop_stale c t b)))) (\<lambda>asks.
        assembled_state (drop_stale c t b) (eh_receive_ts_ns (bbo_header e)) (eh_event_ts_ns (bbo_header e))
          (case usable_depth c e (drop_stale c t b) of None \<Rightarrow> eh_event_ts_ns (bbo_header e)
           | Some d \<Rightarrow> eh_event_ts_ns (l2_header d)) bids asks))"
  show "drops_to c t (fst (state_from_bbo c e (drop_stale c t b))) (fst (state_from_bbo c e a))"
    unfolding state_from_bbo_def Let_def emit_state_def s d r_def [symmetric]
    by (cases r) (auto intro!: drops_toI [where n = n] market_assembler.equality simp: a drop_stale_def)
  show "snd (state_from_bbo c e a) = snd (state_from_bbo c e (drop_stale c t b))"
    unfolding state_from_bbo_def Let_def emit_state_def s d r_def [symmetric] by (simp split: sum.splits)
qed

lemma book_drops:
  assumes "drops_to c now b a" "now \<le> eh_receive_ts_ns h"
  obtains (refused) e where "admit_book_event c h a = Inl e" "reference_book_event h b = Inl e"
  | (admitted) a1 b1 where "admit_book_event c h a = Inr a1" "reference_book_event h b = Inr b1"
      "drops_to c (eh_receive_ts_ns h) b1 a1"
proof -
  note d = drops_to_later [OF drops_to_update(1) [OF assms(1), of "Some (eh_receive_ts_ns h)"] assms(2)]
  show ?thesis
  proof (cases "opt_all (\<lambda>t. t < eh_receive_ts_ns h) (asm_last_book_receive_ts_ns b)
      \<and> eh_event_ts_ns h \<le> eh_receive_ts_ns h")
    case True
    then show ?thesis
      by (intro admitted [OF _ _ d])
        (simp_all add: admit_book_event_def reference_book_event_def drops_to_fields [OF assms(1)])
  next
    case False
    then show ?thesis
      by (intro refused [of "if opt_all (\<lambda>t. t < eh_receive_ts_ns h) (asm_last_book_receive_ts_ns b)
          then ValueError CLOCK_MESSAGE
          else ValueError ''live book receive timestamps must be strictly increasing''"])
        (auto simp add: admit_book_event_def reference_book_event_def drops_to_fields [OF assms(1)] guardE_def)
  qed
qed

lemma l2_drops:
  assumes "drops_to c now b a" "now \<le> eh_receive_ts_ns (l2_header e)"
  shows "snd (observe_l2 c e a) = snd (reference_l2 c e b)
    \<and> (\<exists>t \<in> {now, eh_receive_ts_ns (l2_header e)}. drops_to c t (fst (reference_l2 c e b)) (fst (observe_l2 c e a)))"
  using assms
proof (cases rule: book_drops)
  case (refused x) with assms(1) show ?thesis by (simp add: observe_l2_def reference_l2_def)
next
  case (admitted a1 b1)
  let ?t = "eh_receive_ts_ns (l2_header e)"
  note d = drops_to_update(2) [OF admitted(3), of "Some e"]
  have "state_due c ?t (a1\<lparr>asm_latest_depth := Some e\<rparr>) = state_due c ?t (b1\<lparr>asm_latest_depth := Some e\<rparr>)"
    using drops_to_fields(1) [OF d] by (rule state_due_cong)
  with admitted d state_from_l2_drops [OF d, of e] show ?thesis
    using drops_to_update(4) [OF admitted(3)]
    by (simp add: observe_l2_def reference_l2_def Let_def)
qed

lemma bbo_drops:
  assumes "drops_to c now b a" "now \<le> eh_receive_ts_ns (bbo_header e)"
  shows "snd (observe_bbo c e a) = snd (reference_bbo c e b)
    \<and> (\<exists>t \<in> {now, eh_receive_ts_ns (bbo_header e)}. drops_to c t (fst (reference_bbo c e b)) (fst (observe_bbo c e a)))"
  using assms
proof (cases rule: book_drops)
  case (refused x) with assms(1) show ?thesis by (simp add: observe_bbo_def reference_bbo_def)
next
  case (admitted a1 b1)
  let ?t = "eh_receive_ts_ns (bbo_header e)"
  note d = drops_to_update(3) [OF admitted(3), of "Some ?t"]
  have "state_due c ?t (a1\<lparr>asm_latest_bbo_receive_ts_ns := Some ?t\<rparr>)
      = state_due c ?t (b1\<lparr>asm_latest_bbo_receive_ts_ns := Some ?t\<rparr>)"
    using drops_to_fields(1) [OF d] by (rule state_due_cong)
  with admitted d state_from_bbo_drops [OF d, of e] show ?thesis
    using drops_to_update(5) [OF admitted(3)]
    by (simp add: observe_bbo_def reference_bbo_def Let_def)
qed

lemma trade_drops:
  assumes "drops_to c now b a" "now \<le> trade_received t"
  shows "snd (observe_trade_event c t a) = snd (reference_observe c b (Trade t))
    \<and> (\<exists>u \<in> {now, trade_received t}. drops_to c u (fst (reference_observe c b (Trade t))) (fst (observe_trade_event c t a)))"
proof (cases "trade_received t < trade_happened t")
  case True
  with assms(1) show ?thesis by (simp add: observe_trade_event_def reference_observe_def)
next
  case False
  from drops_to_later [OF assms] obtain n where
    e: "expire_stale_trades c (trade_received t) a = (drop_stale c (trade_received t) b)\<lparr>asm_stale_trade_exclusions := n\<rparr>"
    by (auto simp: drops_to_def)
  have "drops_to c (trade_received t) (b\<lparr>asm_pending_trades := asm_pending_trades b @ [t]\<rparr>) (fst (observe_trade_event c t a))"
    using False
    by (intro drops_toI [where n = "asm_stale_trade_exclusions (fst (observe_trade_event c t a))"]
        market_assembler.equality)
      (auto simp: observe_trade_event_def Let_def e drop_stale_def)
  with False show ?thesis by (simp add: observe_trade_event_def reference_observe_def Let_def)
qed

lemma observe_drops:
  assumes "drops_to c now b a" "\<forall>t. event_received ev = Some t \<longrightarrow> now \<le> t"
  shows "snd (observe_market c a ev) = snd (reference_observe c b ev)
    \<and> (\<exists>u. (u = now \<or> event_received ev = Some u)
         \<and> drops_to c u (fst (reference_observe c b ev)) (fst (observe_market c a ev)))"
proof (cases ev)
  case (Trade t) with trade_drops [OF assms(1), of t] assms(2) show ?thesis
    by (auto simp: event_received_def observe_market_def)
next
  case (L2Book e) with l2_drops [OF assms(1), of e] assms(2) show ?thesis
    by (auto simp: event_received_def observe_market_def reference_observe_def)
next
  case (Bbo e) with bbo_drops [OF assms(1), of e] assms(2) show ?thesis
    by (auto simp: event_received_def observe_market_def reference_observe_def)
qed (use assms(1) in \<open>auto simp: event_received_def observe_market_def reference_observe_def\<close>)

text \<open>C27: Dropping stale trades at every event is only an optimisation. On every feed in order of receipt,
  whatever it contains, the assembler answers every event exactly as the reference assembler that keeps
  all trades and filters them when a state is due: the same states, the same errors, at the same events.\<close>

theorem eager_expiry_equals_reference:
  assumes "sorted (List.map_filter event_received evs)"
  shows "snd (assemble c new_assembler evs) = snd (reference_assemble c new_assembler evs)"
proof -
  have "snd (assemble c a evs) = snd (reference_assemble c b evs)"
    if "drops_to c now b a" "\<forall>t \<in> set (List.map_filter event_received evs). now \<le> t" for a b now
    using that assms
  proof (induction evs arbitrary: a b now)
    case (Cons ev evs)
    have le: "\<forall>t. event_received ev = Some t \<longrightarrow> now \<le> t"
      using Cons.prems(2) by (auto simp: List.map_filter_def)
    from observe_drops [OF Cons.prems(1) le] obtain u where
      o: "snd (observe_market c a ev) = snd (reference_observe c b ev)"
      "u = now \<or> event_received ev = Some u"
      "drops_to c u (fst (reference_observe c b ev)) (fst (observe_market c a ev))" by blast
    have "\<forall>t \<in> set (List.map_filter event_received evs). u \<le> t"
      using o(2) Cons.prems(2,3) by (auto simp: List.map_filter_simps split: option.splits)
    moreover have "sorted (List.map_filter event_received evs)"
      using Cons.prems(3) by (auto simp: List.map_filter_simps split: option.splits)
    ultimately have "snd (assemble c (fst (observe_market c a ev)) evs)
        = snd (reference_assemble c (fst (reference_observe c b ev)) evs)"
      using Cons.IH [OF o(3)] by simp
    with o(1) show ?case by (simp add: case_prod_beta)
  qed simp
  moreover have "drops_to c (Min (insert 0 (set (List.map_filter event_received evs)))) new_assembler new_assembler"
    by (rule drops_toI [where n = 0]) (simp add: new_assembler_def drop_stale_def)
  ultimately show ?thesis by (auto simp: Min_le_iff)
qed

section \<open>NautilusMarketStateAssembler\<close>

text \<open>
  The framework's trade tick and the two sides of its managed book, as far as the assembler reads them:
  a level is a price and the sizes of its orders.
\<close>

definition INSTRUMENT_ID :: string where
  "INSTRUMENT_ID = ''BTC-USD-PERP.HYPERLIQUID''"

datatype nautilus_aggressor = NAUTILUS_BUYER | NAUTILUS_SELLER | NAUTILUS_NO_AGGRESSOR

record trade_tick =
  tt_instrument_id :: string
  tt_aggressor_side :: nautilus_aggressor
  tt_ts_event :: int
  tt_ts_init :: int
  tt_price :: dec
  tt_size :: dec

record book_deltas =
  bd_instrument_id :: string
  bd_ts_event :: int
  bd_ts_init :: int
  bd_bids :: "(dec \<times> dec list) list"
  bd_asks :: "(dec \<times> dec list) list"

record live_assembler =
  la_pending_trades :: "kernel_trade list"
  la_sequence :: int
  la_last_observed_ts_ns :: "int option"

definition new_live_assembler :: live_assembler where
  "new_live_assembler = \<lparr>la_pending_trades = [], la_sequence = 0, la_last_observed_ts_ns = None\<rparr>"

definition live_assembler_error :: "nat \<Rightarrow> nat \<Rightarrow> string option" where
  "live_assembler_error depth max_pending = first_error
     [(\<not> (1 \<le> depth \<and> depth \<le> 10), ''live Nautilus depth must be in [1, 10]''),
      (max_pending < 1, ''live pending-trade bound must be positive'')]"

fun live_aggressor :: "nautilus_aggressor \<Rightarrow> aggressor_side" where
  "live_aggressor NAUTILUS_BUYER = BUYER"
| "live_aggressor NAUTILUS_SELLER = SELLER"
| "live_aggressor NAUTILUS_NO_AGGRESSOR = UNKNOWN_AGGRESSOR"

definition live_trade :: "trade_tick \<Rightarrow> kernel_trade" where
  "live_trade t = \<lparr>kt_exchange_ts_ns = tt_ts_event t, kt_observed_ts_ns = tt_ts_init t,
     kt_price = tt_price t, kt_size = tt_size t, kt_aggressor = live_aggressor (tt_aggressor_side t)\<rparr>"

definition live_observe_trade :: "nat \<Rightarrow> live_assembler \<Rightarrow> trade_tick \<Rightarrow> live_assembler \<times> unit res" where
  "live_observe_trade max_pending a t =
     (if tt_instrument_id t \<noteq> INSTRUMENT_ID
      then (a, Inl (ValueError ''live trade belongs to an unexpected instrument''))
      else if max_pending \<le> length (la_pending_trades a)
      then (a, Inl (ValueError ''live trade buffer exceeded its hard bound''))
      else case kernel_trade_error (live_trade t) of
             Some m \<Rightarrow> (a, Inl (ValidationError m))
           | None \<Rightarrow> (a\<lparr>la_pending_trades := la_pending_trades a @ [live_trade t]\<rparr>, Inr ()))"

text \<open>\<open>_levels\<close>: the first levels of the book, the empty ones left out, then sorted.\<close>

fun normalized_levels :: "(dec \<times> dec list) list \<Rightarrow> kernel_level list res" where
  "normalized_levels [] = Inr []"
| "normalized_levels ((price, sizes) # ls) =
     (let l = \<lparr>kl_price = price, kl_size = foldl dadd 0 sizes\<rparr>
      in if 0 < kl_size l
         then guardE (\<not> kernel_level_ok l) (ValidationError ''price'')
                (bindE (normalized_levels ls) (\<lambda>ks. Inr (l # ks)))
         else normalized_levels ls)"

definition live_levels ::
  "nat \<Rightarrow> (kernel_level list \<Rightarrow> kernel_level list) \<Rightarrow> (dec \<times> dec list) list \<Rightarrow> kernel_level list res" where
  "live_levels depth sort_side ls = bindE (normalized_levels (take depth ls)) (\<lambda>ks. Inr (sort_side ks))"

definition live_state :: "nat \<Rightarrow> live_assembler \<Rightarrow> book_deltas \<Rightarrow> kernel_market res" where
  "live_state depth a d =
     guardE (bd_instrument_id d \<noteq> INSTRUMENT_ID)
       (ValueError ''live order book belongs to an unexpected instrument'')
     (guardE (\<not> opt_all (\<lambda>t. t < bd_ts_init d) (la_last_observed_ts_ns a))
       (ValueError ''live Nautilus receive timestamps must be strictly increasing'')
     (bindE (live_levels depth sort_bids (bd_bids d)) (\<lambda>bids.
      bindE (live_levels depth sort_asks (bd_asks d)) (\<lambda>asks.
      guardE (bids = [] \<or> asks = [])
       (ValueError ''live managed order book must contain both sides'')
       (mk_kernel_market \<lparr>km_exchange_ts_ns = latest_exchange_ts (bd_ts_event d) (la_pending_trades a),
          km_book_exchange_ts_ns = bd_ts_event d, km_observed_ts_ns = bd_ts_init d,
          km_sequence = la_sequence a, km_bids = bids, km_asks = asks,
          km_trades = la_pending_trades a\<rparr>)))))"

definition live_observe_book :: "nat \<Rightarrow> live_assembler \<Rightarrow> book_deltas \<Rightarrow> live_assembler \<times> kernel_market res" where
  "live_observe_book depth a d =
     (case live_state depth a d of
        Inl e \<Rightarrow> (a, Inl e)
      | Inr m \<Rightarrow> (a\<lparr>la_pending_trades := [], la_sequence := la_sequence a + 1,
                    la_last_observed_ts_ns := Some (bd_ts_init d)\<rparr>, Inr m))"

text \<open>The calls the strategy makes, with the trades accepted and the states emitted so far.\<close>

datatype live_call = Observe_Trade trade_tick | Observe_Book book_deltas

record live_history =
  lh_assembler :: live_assembler
  lh_accepted :: "kernel_trade list"
  lh_states :: "kernel_market list"

definition new_live_history :: live_history where
  "new_live_history = \<lparr>lh_assembler = new_live_assembler, lh_accepted = [], lh_states = []\<rparr>"

definition live_call_step :: "nat \<Rightarrow> nat \<Rightarrow> live_history \<Rightarrow> live_call \<Rightarrow> live_history" where
  "live_call_step depth max_pending h c =
     (case c of
        Observe_Trade t \<Rightarrow>
          (case live_observe_trade max_pending (lh_assembler h) t of
             (a, Inl _) \<Rightarrow> h\<lparr>lh_assembler := a\<rparr>
           | (a, Inr _) \<Rightarrow> h\<lparr>lh_assembler := a, lh_accepted := lh_accepted h @ [live_trade t]\<rparr>)
      | Observe_Book d \<Rightarrow>
          (case live_observe_book depth (lh_assembler h) d of
             (a, Inl _) \<Rightarrow> h\<lparr>lh_assembler := a\<rparr>
           | (a, Inr m) \<Rightarrow> h\<lparr>lh_assembler := a, lh_states := lh_states h @ [m]\<rparr>))"

definition live_history_ok :: "nat \<Rightarrow> live_history \<Rightarrow> bool" where
  "live_history_ok max_pending h \<longleftrightarrow>
     concat (map km_trades (lh_states h)) @ la_pending_trades (lh_assembler h) = lh_accepted h
     \<and> length (la_pending_trades (lh_assembler h)) \<le> max_pending
     \<and> list_all kernel_market_ok (lh_states h)
     \<and> la_sequence (lh_assembler h) = int (length (lh_states h))
     \<and> map km_sequence (lh_states h) = map int [0..<length (lh_states h)]
     \<and> sorted_wrt (<) (map km_observed_ts_ns (lh_states h))
     \<and> (case la_last_observed_ts_ns (lh_assembler h) of
          None \<Rightarrow> lh_states h = []
        | Some t \<Rightarrow> \<forall>m \<in> set (lh_states h). km_observed_ts_ns m \<le> t)"

lemma live_state_Inr:
  assumes "live_state depth a d = Inr m"
  shows "kernel_market_ok m" "km_trades m = la_pending_trades a" "km_sequence m = la_sequence a"
    "km_observed_ts_ns m = bd_ts_init d" "opt_all (\<lambda>t. t < bd_ts_init d) (la_last_observed_ts_ns a)"
  using assms
  by (auto simp: live_state_def res_simps mk_kernel_market_def kernel_market_ok_def split: option.splits)

lemma live_call_keeps:
  assumes "live_history_ok max_pending h"
  shows "live_history_ok max_pending (live_call_step depth max_pending h c)"
proof (cases c)
  case (Observe_Trade t)
  with assms show ?thesis
    by (auto simp: live_call_step_def live_observe_trade_def live_history_ok_def split: option.splits)
next
  case (Observe_Book d)
  show ?thesis
  proof (cases "live_state depth (lh_assembler h) d")
    case (Inl e)
    with Observe_Book assms show ?thesis by (simp add: live_call_step_def live_observe_book_def)
  next
    case (Inr m)
    note m = live_state_Inr [OF Inr]
    have "\<forall>s \<in> set (lh_states h). km_observed_ts_ns s < bd_ts_init d"
      using assms m(5) by (force simp: live_history_ok_def split: option.splits)
    with m Inr Observe_Book assms show ?thesis
      by (auto simp: live_call_step_def live_observe_book_def live_history_ok_def sorted_wrt_append
          intro: less_imp_le)
  qed
qed

interpretation lv: step_system "live_call_step depth max_pending" "live_history_ok max_pending"
    "\<lambda>h g. \<exists>ms. lh_states g = lh_states h @ ms" for depth max_pending
proof (unfold_locales, goal_cases)
  case (2 h c)
  then show ?case
    by (cases c) (auto simp: live_call_step_def live_observe_book_def split: sum.splits prod.splits)
next
  case (4 s t u)
  then show ?case by (metis append_assoc)
qed (auto intro: live_call_keeps)

text \<open>On the live path every trade reaches the strategy exactly once. Whatever ticks and books arrive, in
  whatever order and with whatever errors, the trades of the emitted states followed by the buffered ones
  are exactly the accepted trades in order; the buffer keeps its bound, every emitted state passes the
  kernel's contract, and the states are numbered without gaps and strictly ordered in time.\<close>

theorem live_trades_exactly_once:
  "live_history_ok max_pending (foldl (live_call_step depth max_pending) new_live_history calls)"
  by (rule lv.run_inv) (simp add: live_history_ok_def new_live_history_def new_live_assembler_def)

section \<open>A concrete feed\<close>

definition demo_config :: assembler_config where
  "demo_config = \<lparr>asc_depth_levels = 2, asc_maximum_input_age_ns = 100, asc_minimum_state_interval_ns = 10\<rparr>"

definition demo_header :: "int \<Rightarrow> int \<Rightarrow> event_header" where
  "demo_header event receive = \<lparr>eh_event_id = ''e'', eh_event_ts_ns = event, eh_receive_ts_ns = receive,
     eh_connection_id = ''c'', eh_source = HYPERLIQUID_WEBSOCKET, eh_event_ts_source = EXCHANGE_TS,
     eh_source_record_id = None\<rparr>"

definition demo_trade :: "int \<Rightarrow> int \<Rightarrow> market_event" where
  "demo_trade event receive = Trade \<lparr>te_header = demo_header event receive, te_trade_id = ''t'', te_price = 100,
     te_size = 1, te_aggressor = BUYER, te_transaction_hash = None\<rparr>"

definition demo_feed :: "market_event list" where
  "demo_feed =
     [demo_trade 10 20, demo_trade 100 110,
      L2Book \<lparr>l2_header = demo_header 120 125,
        l2_bids = [\<lparr>bl_price = 99, bl_size = 1, bl_order_count = None\<rparr>, \<lparr>bl_price = 98, bl_size = 2, bl_order_count = None\<rparr>],
        l2_asks = [\<lparr>bl_price = 101, bl_size = 1, bl_order_count = None\<rparr>]\<rparr>,
      demo_trade 130 131,
      Bbo \<lparr>bbo_header = demo_header 135 140, bbo_bid_price = 100, bbo_bid_size = 1, bbo_ask_price = 101, bbo_ask_size = 3\<rparr>]"

lemma demo_feed_states:
  "map km_sequence (emitted (snd (assemble demo_config new_assembler demo_feed))) = [0, 1]"
  "map (\<lambda>m. map kt_exchange_ts_ns (km_trades m)) (emitted (snd (assemble demo_config new_assembler demo_feed))) = [[100], [130]]"
  "asm_stale_trade_exclusions (fst (assemble demo_config new_assembler demo_feed)) = 1"
  by code_simp+

theorem assembled_states_valid_witness:
  "list_all (state_fresh demo_config) (emitted (snd (assemble demo_config new_assembler demo_feed)))"
proof -
  have "assembler_config_error demo_config = None" "feed_ok 0 demo_feed" by code_simp+
  from assembled_states_valid [OF this refl] show ?thesis by (simp add: list_all_iff)
qed

theorem trades_accounted_witness:
  "length (concat (map km_trades (emitted (snd (assemble demo_config new_assembler demo_feed))))) + 0 + 1
     = length (accepted_trades demo_feed (snd (assemble demo_config new_assembler demo_feed)))"
proof -
  have "asm_pending_trades (fst (assemble demo_config new_assembler demo_feed)) = []" by code_simp
  with trades_accounted [OF prod.collapse [symmetric], of demo_config demo_feed] demo_feed_states(3)
  show ?thesis by simp
qed

theorem eager_expiry_equals_reference_witness:
  "snd (assemble demo_config new_assembler demo_feed) = snd (reference_assemble demo_config new_assembler demo_feed)"
proof -
  have "sorted (List.map_filter event_received demo_feed)" by code_simp
  then show ?thesis by (rule eager_expiry_equals_reference)
qed

end
