(* ===== verification/Live_Pipeline.thy ===== *)
theory Live_Pipeline
  imports Market_Assembly Market_Maker Order_Flow_Scalper Risk_Authority Deployment_Config
    "HOL-Library.Char_ord" "HOL-Library.List_Lexorder"
begin

text \<open>
  The live pipeline of \<open>execution/live.py\<close> behind the assembler: decision, commit and release of the
  strategy's memory, the durable equity baseline, the account view and the risk snapshot built from
  them. The feature engine is a function argument. The UTC day of a clock reading (a float division
  and a calendar conversion) comes with the reading; the atomic file replacement is the stored value.
  The lemmas show that the live market maker never loses track of a quote, that the baseline is the
  history's, restarts included, and that a drawdown against that history reaches the risk authority.
\<close>

section \<open>Decision\<close>

datatype live_memory = Maker_Memory mm_memory | Scalper_Memory ofs_memory










section \<open>Commit and release\<close>




definition release_maker :: "string \<Rightarrow> mm_memory \<Rightarrow> mm_memory" where
  "release_maker intent m =
     (let bid = (mm_active_bid_intent_id m = Some intent); ask = (mm_active_ask_intent_id m = Some intent)
      in if \<not> bid \<and> \<not> ask then m
         else \<lparr>mm_inventory_base = mm_inventory_base m,
               mm_active_bid_intent_id = (if bid then None else mm_active_bid_intent_id m),
               mm_active_ask_intent_id = (if ask then None else mm_active_ask_intent_id m),
               mm_active_bid_price = (if bid then None else mm_active_bid_price m),
               mm_active_ask_price = (if ask then None else mm_active_ask_price m),
               mm_last_quote_ts_ns = mm_last_quote_ts_ns m, mm_quote_revision = mm_quote_revision m\<rparr>)"

definition release_intent :: "string \<Rightarrow> live_memory \<Rightarrow> live_memory" where
  "release_intent intent m =
     (case m of Maker_Memory a \<Rightarrow> Maker_Memory (release_maker intent a) | Scalper_Memory b \<Rightarrow> Scalper_Memory b)"

section \<open>The equity baseline\<close>

record equity_baseline =
  eb_account_address :: string
  eb_broker_day_utc :: string
  eb_day_start_equity_usd :: dec
  eb_high_water_equity_usd :: dec
  eb_updated_ts_ns :: int

definition digit :: "char \<Rightarrow> bool" where
  "digit c \<longleftrightarrow> c \<in> set ''0123456789''"

text \<open>\<open>^[0-9]{4}-[0-9]{2}-[0-9]{2}$\<close> and \<open>^0x[0-9a-f]{40}$\<close>\<close>

definition is_day :: "string \<Rightarrow> bool" where
  "is_day s \<longleftrightarrow> length s = 10 \<and> s ! 4 = CHR ''-'' \<and> s ! 7 = CHR ''-''
     \<and> list_all digit (take 4 s @ take 2 (drop 5 s) @ drop 8 s)"

definition is_lower_address :: "string \<Rightarrow> bool" where
  "is_lower_address s \<longleftrightarrow> length s = 42 \<and> take 2 s = ''0x'' \<and> list_all lower_hex (drop 2 s)"

definition equity_baseline_error :: "equity_baseline \<Rightarrow> string option" where
  "equity_baseline_error b = first_error
     [(\<not> is_lower_address (eb_account_address b), ''account_address''),
      (\<not> is_day (eb_broker_day_utc b), ''broker_day_utc''),
      (eb_day_start_equity_usd b \<le> 0, ''day_start_equity_usd''),
      (eb_high_water_equity_usd b \<le> 0, ''high_water_equity_usd''),
      (eb_updated_ts_ns b < 0, ''updated_ts_ns''),
      (eb_high_water_equity_usd b < eb_day_start_equity_usd b,
       ''equity high-water mark cannot be below the day-start equity'')]"

record equity_store =
  es_account_address :: string
  es_state :: "equity_baseline option"
  es_file :: "equity_baseline option"

definition open_equity_store :: "bool \<Rightarrow> string \<Rightarrow> equity_baseline option \<Rightarrow> equity_store res" where
  "open_equity_store absolute account file =
     guardE (\<not> absolute) (ValueError ''equity baseline path must be absolute'')
     (case file of
        None \<Rightarrow> Inr \<lparr>es_account_address = py_lower account, es_state = None, es_file = None\<rparr>
      | Some b \<Rightarrow>
          (case equity_baseline_error b of
             Some m \<Rightarrow> Inl (ValidationError m)
           | None \<Rightarrow>
               guardE (eb_account_address b \<noteq> py_lower account)
                 (ValueError ''equity baseline belongs to a different execution account'')
                 (Inr \<lparr>es_account_address = py_lower account, es_state = Some b, es_file = Some b\<rparr>)))"

definition same_marks :: "equity_baseline \<Rightarrow> equity_baseline \<Rightarrow> bool" where
  "same_marks a b \<longleftrightarrow> eb_broker_day_utc a = eb_broker_day_utc b
     \<and> eb_day_start_equity_usd a = eb_day_start_equity_usd b
     \<and> eb_high_water_equity_usd a = eb_high_water_equity_usd b"

text \<open>\<open>observe\<close> at a clock reading and its UTC day.\<close>

definition next_baseline :: "dec \<Rightarrow> int \<Rightarrow> string \<Rightarrow> equity_store \<Rightarrow> equity_baseline" where
  "next_baseline equity now day s =
     (let day_start = (case es_state s of None \<Rightarrow> equity
            | Some p \<Rightarrow> if day \<noteq> eb_broker_day_utc p then equity else eb_day_start_equity_usd p);
          prior_high_water = (case es_state s of None \<Rightarrow> 0 | Some p \<Rightarrow> eb_high_water_equity_usd p)
      in \<lparr>eb_account_address = es_account_address s, eb_broker_day_utc = day,
          eb_day_start_equity_usd = day_start,
          eb_high_water_equity_usd = max (max equity day_start) prior_high_water, eb_updated_ts_ns = now\<rparr>)"

definition observe_equity :: "dec \<Rightarrow> int \<Rightarrow> string \<Rightarrow> equity_store \<Rightarrow> equity_store \<times> equity_baseline res" where
  "observe_equity equity now day s =
     (if equity \<le> 0 then (s, Inl (ValueError ''live account equity must be positive''))
      else if (case es_state s of None \<Rightarrow> False | Some p \<Rightarrow> day < eb_broker_day_utc p)
      then (s, Inl (ValueError ''system clock moved behind the persisted equity broker day''))
      else
        let state = next_baseline equity now day s
        in case equity_baseline_error state of
             Some m \<Rightarrow> (s, Inl (ValidationError m))
           | None \<Rightarrow>
               (s\<lparr>es_file := (case es_state s of
                    Some p \<Rightarrow> if same_marks p state then es_file s else Some state
                  | None \<Rightarrow> Some state),
                  es_state := Some state\<rparr>, Inr state))"

section \<open>Account view and risk snapshot\<close>

text \<open>What the framework's facades answer: the account's base currency (\<open>None\<close> without an account), its
  equity per currency, the open positions and orders of the instrument.\<close>

record open_position =
  op_signed_quantity :: dec
  op_average_open :: "dec option"
  op_ts_opened :: "int option"

record open_order =
  oo_side :: "order_side option"
  oo_leaves :: dec

record portfolio_view =
  pv_account :: "string option option"
  pv_equities :: "(string \<times> dec) list"
  pv_positions :: "open_position list"
  pv_orders :: "open_order list"

record live_account =
  la_equity_usd :: dec
  la_position_base :: dec
  la_pending_buy_base :: dec
  la_pending_sell_base :: dec
  la_open_order_count :: int
  la_average_entry_price :: "dec option"
  la_position_opened_ts_ns :: "int option"

definition account_equity :: "string option \<Rightarrow> (string \<times> dec) list \<Rightarrow> dec res" where
  "account_equity base equities =
     (case (case base of None \<Rightarrow> None | Some c \<Rightarrow> map_of equities c) of
        Some e \<Rightarrow> Inr e
      | None \<Rightarrow> (if length equities = 1 then Inr (snd (hd equities))
                 else Inl (ValueError ''live account equity is missing or ambiguous'')))"

definition pending_base :: "order_side \<Rightarrow> open_order list \<Rightarrow> dec" where
  "pending_base side orders = foldl dadd 0 (map oo_leaves (filter (\<lambda>x. oo_side x = Some side) orders))"

definition read_live_account :: "portfolio_view \<Rightarrow> live_account res" where
  "read_live_account v =
     (case pv_account v of
        None \<Rightarrow> Inl (ValueError ''reconciled Hyperliquid account is unavailable'')
      | Some base \<Rightarrow>
          bindE (account_equity base (pv_equities v)) (\<lambda>equity.
            let position = foldl dadd 0 (map op_signed_quantity (pv_positions v));
                known = (position \<noteq> 0 \<and> length (pv_positions v) = 1);
                average = (if known then op_average_open (hd (pv_positions v)) else None);
                opened = (if known then op_ts_opened (hd (pv_positions v)) else None)
            in guardE (\<not> opt_all (\<lambda>p. 0 < p) average) (ValueError ''live position average entry price must be positive'')
               (guardE (\<not> opt_all (\<lambda>t. 0 \<le> t) opened) (ValueError ''live position open timestamp cannot be negative'')
                 (Inr \<lparr>la_equity_usd = equity, la_position_base = position,
                    la_pending_buy_base = pending_base BUY (pv_orders v),
                    la_pending_sell_base = pending_base SELL (pv_orders v),
                    la_open_order_count = int (length (pv_orders v)),
                    la_average_entry_price = average, la_position_opened_ts_ns = opened\<rparr>))))"

definition live_snapshot ::
  "int \<Rightarrow> int \<Rightarrow> dec \<Rightarrow> live_account \<Rightarrow> equity_baseline \<Rightarrow> bool \<Rightarrow> bool \<Rightarrow> bool \<Rightarrow> risk_snapshot" where
  "live_snapshot now public_ts mark account b link reconciled approved =
     \<lparr>rs_snapshot_ts_ns = now, rs_public_data_ts_ns = min public_ts now,
      rs_private_data_ts_ns = (if link then now else 0), rs_mark_price = mark,
      rs_position_base = la_position_base account, rs_pending_buy_base = la_pending_buy_base account,
      rs_pending_sell_base = la_pending_sell_base account, rs_account_equity_usd = la_equity_usd account,
      rs_day_start_equity_usd = eb_day_start_equity_usd b, rs_high_water_equity_usd = eb_high_water_equity_usd b,
      rs_leverage = ddiv (dabs (dmul (la_position_base account) mark)) (la_equity_usd account),
      rs_open_order_count = la_open_order_count account, rs_exchange_connected = link,
      rs_reconciliation_complete = reconciled, rs_deployment_approved = approved,
      rs_approved_capital_limit_usd = None, rs_operator_kill = False, rs_flatten_requested = False\<rparr>"

definition build_live_risk_snapshot ::
  "int \<Rightarrow> int \<Rightarrow> dec \<Rightarrow> live_account \<Rightarrow> equity_baseline \<Rightarrow> bool \<Rightarrow> bool \<Rightarrow> bool \<Rightarrow> risk_snapshot res" where
  "build_live_risk_snapshot now public_ts mark account b link reconciled approved =
     (let s = live_snapshot now public_ts mark account b link reconciled approved
      in case risk_snapshot_error s of Some m \<Rightarrow> Inl (ValidationError m) | None \<Rightarrow> Inr s)"

section \<open>The live market maker never loses a quote\<close>









lemma release_intent_maker [simp]: "release_intent i (Maker_Memory m) = Maker_Memory (release_maker i m)"
  by (simp add: release_intent_def)

























section \<open>The baseline is the history's\<close>

text \<open>
  The observations that succeeded, oldest first, as pairs of day and equity. The specification: the
  start of the last day is its first observation, the high-water mark the maximum of all of them.
\<close>

type_synonym equity_history = "(string \<times> dec) list"

definition day_start_of :: "equity_history \<Rightarrow> dec" where
  "day_start_of h = snd (hd (filter (\<lambda>p. fst p = fst (last h)) h))"

definition high_water_of :: "equity_history \<Rightarrow> dec" where
  "high_water_of h = foldl max 0 (map snd h)"

datatype equity_op = Observe_Equity dec int string | Reopen_Store

record equity_run =
  er_store :: equity_store
  er_history :: equity_history

definition equity_step :: "equity_run \<Rightarrow> equity_op \<Rightarrow> equity_run" where
  "equity_step r op =
     (case op of
        Observe_Equity e now day \<Rightarrow>
          (case observe_equity e now day (er_store r) of
             (s, Inl _) \<Rightarrow> r\<lparr>er_store := s\<rparr>
           | (s, Inr _) \<Rightarrow> r\<lparr>er_store := s, er_history := er_history r @ [(day, e)]\<rparr>)
      | Reopen_Store \<Rightarrow>
          (case open_equity_store True (es_account_address (er_store r)) (es_file (er_store r)) of
             Inl _ \<Rightarrow> r
           | Inr s \<Rightarrow> r\<lparr>er_store := s\<rparr>))"

definition baseline_describes :: "equity_baseline \<Rightarrow> equity_history \<Rightarrow> bool" where
  "baseline_describes b h \<longleftrightarrow> eb_broker_day_utc b = fst (last h)
     \<and> eb_day_start_equity_usd b = day_start_of h \<and> eb_high_water_equity_usd b = high_water_of h
     \<and> equity_baseline_error b = None"

definition equity_run_ok :: "equity_run \<Rightarrow> bool" where
  "equity_run_ok r \<longleftrightarrow>
     (let s = er_store r; h = er_history r
      in py_lower (es_account_address s) = es_account_address s
       \<and> (h = [] \<longleftrightarrow> es_state s = None) \<and> (h = [] \<longleftrightarrow> es_file s = None)
       \<and> sorted (map fst h) \<and> (\<forall>p \<in> set h. 0 < snd p)
       \<and> opt_all (\<lambda>b. baseline_describes b h \<and> eb_account_address b = es_account_address s) (es_state s)
       \<and> opt_all (\<lambda>b. baseline_describes b h \<and> eb_account_address b = es_account_address s) (es_file s))"

lemma high_water_snoc: "high_water_of (h @ [(day, e)]) = max (high_water_of h) e"
  by (simp add: high_water_of_def)

lemma high_water_ge: "p \<in> set h \<Longrightarrow> snd p \<le> high_water_of h"
  unfolding high_water_of_def by (intro foldl_max_ge(2)) simp

lemma sorted_le_last: "sorted xs \<Longrightarrow> x \<in> set xs \<Longrightarrow> x \<le> last xs"
  by (induction xs rule: rev_induct) (auto simp: sorted_append)

lemma day_start_snoc:
  assumes "sorted (map fst h)" "\<forall>p \<in> set h. fst p \<le> day"
  shows "day_start_of (h @ [(day, e)]) = (if h \<noteq> [] \<and> fst (last h) = day then day_start_of h else e)"
proof (cases "h \<noteq> [] \<and> fst (last h) = day")
  case True
  then have "last h \<in> set (filter (\<lambda>p. fst p = day) h)" by simp
  then have "filter (\<lambda>p. fst p = day) h \<noteq> []" by force
  with True show ?thesis by (simp add: day_start_of_def hd_append)
next
  case False
  have "filter (\<lambda>p. fst p = day) h = []"
  proof (rule ccontr)
    assume "filter (\<lambda>p. fst p = day) h \<noteq> []"
    then obtain p where p: "p \<in> set h" "fst p = day" by (auto simp: filter_empty_conv)
    then have "day \<in> set (map fst h)" "h \<noteq> []" by auto
    then have "day \<le> fst (last h)" using sorted_le_last [OF assms(1)] by (metis last_map)
    moreover have "h \<noteq> []" using p by auto
    moreover from this assms(2) have "fst (last h) \<le> day" by simp
    ultimately show False using False by force
  qed
  with False show ?thesis by (auto simp: day_start_of_def)
qed

lemma day_start_in: "h \<noteq> [] \<Longrightarrow> \<exists>p \<in> set h. day_start_of h = snd p"
proof -
  assume "h \<noteq> []"
  then have "last h \<in> set (filter (\<lambda>p. fst p = fst (last h)) h)" by simp
  then have "filter (\<lambda>p. fst p = fst (last h)) h \<noteq> []" by force
  then have "hd (filter (\<lambda>p. fst p = fst (last h)) h) \<in> set h" by (metis filter_is_subset hd_in_set subsetD)
  then show ?thesis unfolding day_start_of_def by blast
qed

lemma lower_char_idem [simp]: "lower_char (lower_char c) = lower_char c"
  by (simp add: lower_char_def Let_def)

lemma py_lower_idem [simp]: "py_lower (py_lower s) = py_lower s"
  by (simp add: py_lower_def)

lemma next_baseline_fields:
  "eb_account_address (next_baseline e now day s) = es_account_address s"
  "eb_broker_day_utc (next_baseline e now day s) = day"
  "eb_day_start_equity_usd (next_baseline e now day s) = (case es_state s of None \<Rightarrow> e
     | Some p \<Rightarrow> if day \<noteq> eb_broker_day_utc p then e else eb_day_start_equity_usd p)"
  "eb_high_water_equity_usd (next_baseline e now day s) = max (max e (eb_day_start_equity_usd (next_baseline e now day s)))
     (case es_state s of None \<Rightarrow> 0 | Some p \<Rightarrow> eb_high_water_equity_usd p)"
  by (simp_all add: next_baseline_def Let_def)

lemma observe_equity_Inr:
  assumes "observe_equity e now day s0 = (s, Inr b)"
  shows "0 < e \<and> es_account_address s = es_account_address s0 \<and> es_state s = Some b
    \<and> es_file s = (case es_state s0 of Some p \<Rightarrow> if same_marks p b then es_file s0 else Some b | None \<Rightarrow> Some b)
    \<and> b = next_baseline e now day s0 \<and> equity_baseline_error b = None
    \<and> (\<forall>p. es_state s0 = Some p \<longrightarrow> eb_broker_day_utc p \<le> day)"
  using assms by (auto simp: observe_equity_def Let_def not_less split: if_splits option.splits)

lemma observe_equity_Inl: "observe_equity e now day s0 = (s, Inl x) \<Longrightarrow> s = s0"
  by (auto simp: observe_equity_def Let_def split: if_splits option.splits)

lemma observe_equity_ok:
  assumes "equity_run_ok r" "observe_equity e now day (er_store r) = (s, res)"
  shows "case res of Inl _ \<Rightarrow> s = er_store r
    | Inr b \<Rightarrow> equity_run_ok (r\<lparr>er_store := s, er_history := er_history r @ [(day, e)]\<rparr>)"
proof (cases res)
  case (Inl x)
  with assms(2) show ?thesis by (auto dest: observe_equity_Inl)
next
  case (Inr b)
  let ?s = "er_store r" and ?h = "er_history r"
  note i = observe_equity_Inr [OF assms(2) [unfolded Inr]]
  then have b: "b = next_baseline e now day ?s" by blast
  have e: "0 < e" "es_account_address s = es_account_address ?s" "es_state s = Some b"
    "es_file s = (case es_state ?s of Some p \<Rightarrow> if same_marks p b then es_file ?s else Some b | None \<Rightarrow> Some b)"
    "equity_baseline_error b = None" "\<forall>p. es_state ?s = Some p \<longrightarrow> eb_broker_day_utc p \<le> day"
    using i by blast+
  note f = next_baseline_fields [of e now day ?s, folded b]
  show ?thesis
  proof (cases "es_state ?s")
    case None
    then have h: "?h = []" using assms(1) by (simp add: equity_run_ok_def Let_def)
    have "baseline_describes b [(day, e)]"
      using e f None by (simp add: baseline_describes_def day_start_of_def high_water_of_def max.absorb1)
    with e f h None Inr assms(1) show ?thesis by (simp add: equity_run_ok_def Let_def)
  next
    case (Some p)
    with assms(1) have p: "?h \<noteq> []" "baseline_describes p ?h" "sorted (map fst ?h)"
      by (simp_all add: equity_run_ok_def Let_def)
    have days: "\<forall>q \<in> set ?h. fst q \<le> day"
      using sorted_le_last [OF p(3)] e(6) Some p(1,2) last_map [OF p(1), of fst]
      by (force simp: baseline_describes_def)
    have start: "day_start_of (?h @ [(day, e)]) = eb_day_start_equity_usd b"
      using day_start_snoc [OF p(3) days, of e] f(3) Some p(1,2) by (auto simp: baseline_describes_def)
    have "day_start_of ?h \<le> high_water_of ?h" using day_start_in [OF p(1)] high_water_ge by fastforce
    then have high: "high_water_of (?h @ [(day, e)]) = eb_high_water_equity_usd b"
      using f(3,4) Some p(2) by (auto simp: high_water_snoc baseline_describes_def)
    have d: "baseline_describes b (?h @ [(day, e)])"
      using start high e f by (simp add: baseline_describes_def)
    have keep: "baseline_describes f (?h @ [(day, e)])" if "same_marks p b" "baseline_describes f ?h" for f
      using that p(2) d by (simp add: baseline_describes_def same_marks_def)
    have "sorted (map fst (?h @ [(day, e)]))" using p(3) days by (simp add: sorted_append)
    with e f(1) Some d keep Inr assms(1) show ?thesis
      by (auto simp: equity_run_ok_def Let_def split: if_splits)
  qed
qed

lemma equity_step_ok: "equity_run_ok r \<Longrightarrow> equity_run_ok (equity_step r op)"
proof (cases op)
  case (Observe_Equity e now day)
  assume ok: "equity_run_ok r"
  obtain s res where o: "observe_equity e now day (er_store r) = (s, res)" by fastforce
  with observe_equity_ok [OF ok o] ok Observe_Equity show ?thesis
    by (cases res) (simp_all add: equity_step_def)
next
  case Reopen_Store
  assume "equity_run_ok r"
  with Reopen_Store show ?thesis
    by (auto simp: equity_step_def open_equity_store_def equity_run_ok_def Let_def guardE_def baseline_describes_def
        split: option.splits)
qed

interpretation eq: step_system equity_step equity_run_ok "\<lambda>r s. \<exists>h. er_history s = er_history r @ h"
proof (unfold_locales, goal_cases)
  case (1 r op) then show ?case by (rule equity_step_ok)
next
  case (2 r op)
  then show ?case by (cases op) (auto simp: equity_step_def split: sum.splits prod.splits)
next
  case (4 r s t) then show ?case by (metis append_assoc)
qed simp

definition first_run :: "string \<Rightarrow> equity_run" where
  "first_run account = \<lparr>er_store = \<lparr>es_account_address = py_lower account, es_state = None, es_file = None\<rparr>,
     er_history = []\<rparr>"

lemma first_run_ok: "equity_run_ok (first_run account)"
  by (simp add: equity_run_ok_def first_run_def Let_def)

section \<open>Properties of the baseline\<close>

text \<open>C28: The durable baseline refines the history of equities. After every sequence of observations and
  process restarts, refused observations included, the store in memory and the file both hold the last
  day, its first equity and the maximum of all equities ever observed; so reopening the file never
  resets a mark and a day never starts twice.\<close>

theorem equity_baseline_refines_history:
  assumes "r = foldl equity_step (first_run account) ops" "er_history r \<noteq> []"
  shows "\<exists>b f. es_state (er_store r) = Some b \<and> es_file (er_store r) = Some f
    \<and> same_marks b f \<and> eb_broker_day_utc b = fst (last (er_history r))
    \<and> eb_day_start_equity_usd b = day_start_of (er_history r)
    \<and> eb_high_water_equity_usd b = high_water_of (er_history r)"
proof -
  have "equity_run_ok r" unfolding assms(1) by (rule eq.run_inv) (rule first_run_ok)
  with assms(2) show ?thesis
    by (auto simp: equity_run_ok_def Let_def baseline_describes_def same_marks_def)
qed

lemma high_water_attained: "h \<noteq> [] \<Longrightarrow> \<forall>p \<in> set h. 0 < snd p \<Longrightarrow> \<exists>p \<in> set h. high_water_of h = snd p"
proof -
  assume h: "h \<noteq> []" "\<forall>p \<in> set h. 0 < snd p"
  then have "0 < snd (hd h)" "snd (hd h) \<le> high_water_of h" by (auto intro: high_water_ge)
  then have "0 < high_water_of h" by simp
  with foldl_max_in [of 0 "map snd h"] show ?thesis by (auto simp: high_water_of_def)
qed

text \<open>C29: A drawdown reaches the risk authority, whatever was restarted in between. If the equity lies the
  configured drawdown below the highest equity ever observed, or the configured daily loss below the
  first equity of the current day, then on the snapshot built from the store's baseline the authority
  allows no order except a reduce-only one that shrinks the position.\<close>

theorem drawdown_survives_restarts:
  assumes "r = foldl equity_step (first_run account) ops" "es_state (er_store r) = Some b"
    and "build_live_risk_snapshot now public_ts mark acc b link reconciled approved = Inr s"
    and "rl_max_drawdown_fraction (ae_limits env)
           \<le> ddiv (dsub (high_water_of (er_history r)) (la_equity_usd acc)) (high_water_of (er_history r))
         \<or> rl_daily_loss_fraction (ae_limits env)
           \<le> ddiv (dsub (day_start_of (er_history r)) (la_equity_usd acc)) (day_start_of (er_history r))"
    and "rd_allowed (snd (evaluate env w nonce a i s))"
  shows "oi_reduce_only i \<and> position_reducing i s"
proof -
  have ok: "equity_run_ok r" unfolding assms(1) by (rule eq.run_inv) (rule first_run_ok)
  with assms(2) have b: "eb_day_start_equity_usd b = day_start_of (er_history r)"
    "eb_high_water_equity_usd b = high_water_of (er_history r)"
    by (simp_all add: equity_run_ok_def Let_def baseline_describes_def)
  have s: "s = live_snapshot now public_ts mark acc b link reconciled approved"
    using assms(3) by (auto simp: build_live_risk_snapshot_def Let_def split: option.splits)
  have "economic_reasons (ae_limits env) s \<noteq> []"
    using assms(4) by (auto simp: s live_snapshot_def economic_reasons_def drawdown_def daily_loss_def b le_max_iff_disj)
  then have "fst (assess_state (ae_limits env) (rw_kill_active w) s (rw_now w)) \<noteq> ACTIVE"
    by (simp add: assess_state_def)
  with assms(5) show ?thesis
    by (auto simp: evaluate_allowed state_permits_def split: risk_state.splits)
qed

fun feed_structure :: "structure_config \<Rightarrow> structure_state \<Rightarrow> kernel_market list \<Rightarrow> structure_state res" where
  "feed_structure cfg s [] = Inr s"
| "feed_structure cfg s (m # ms) = bindE (structure_update cfg s m) (\<lambda>(s', _). feed_structure cfg s' ms)"

lemma feed_structure_ok:
  assumes "sorted_wrt (<) (map km_observed_ts_ns ms)"
    "opt_all (\<lambda>t. \<forall>m \<in> set ms. t < km_observed_ts_ns m) (cs_last_observed_ts_ns s)"
  shows "is_ok (feed_structure cfg s ms)"
  using assms
proof (induction ms arbitrary: s)
  case (Cons m ms)
  have "is_ok (structure_update cfg s m)"
    using Cons.prems(2) by (cases "cs_last_observed_ts_ns s") (simp_all add: structure_update_def Let_def)
  then obtain s' sn where u: "structure_update cfg s m = Inr (s', sn)" by (auto simp: is_ok_iff)
  then have "cs_last_observed_ts_ns s' = Some (km_observed_ts_ns m)"
    by (simp add: structure_update_Inr Let_def)
  with Cons u show ?case by simp
qed simp

text \<open>The structure engine never refuses what the live assembler emits. Whatever ticks and books arrive,
  an engine that has seen nothing accepts the emitted states one after the other.\<close>

theorem structure_accepts_live_states:
  "is_ok (feed_structure cfg new_structure_state
     (lh_states (foldl (live_call_step depth max_pending) new_live_history calls)))"
proof (rule feed_structure_ok)
  have "live_history_ok max_pending (foldl (live_call_step depth max_pending) new_live_history calls)"
    by (rule lv.run_inv) (simp add: live_history_ok_def new_live_history_def new_live_assembler_def)
  then show "sorted_wrt (<) (map km_observed_ts_ns (lh_states (foldl (live_call_step depth max_pending) new_live_history calls)))"
    by (simp add: live_history_ok_def)
qed (simp add: new_structure_state_def)

section \<open>A concrete account\<close>

definition demo_address :: string where
  "demo_address = ''0x'' @ replicate 40 CHR ''1''"

definition demo_equities :: "equity_op list" where
  "demo_equities = [Observe_Equity 1000 1 ''2026-01-01'', Observe_Equity 1200 2 ''2026-01-01'', Reopen_Store,
     Observe_Equity 1100 3 ''2026-01-02'', Observe_Equity 1050 4 ''2026-01-01'']"

definition demo_run :: equity_run where
  "demo_run = foldl equity_step (first_run demo_address) demo_equities"

definition demo_baseline :: equity_baseline where
  "demo_baseline = \<lparr>eb_account_address = demo_address, eb_broker_day_utc = ''2026-01-02'',
     eb_day_start_equity_usd = 1100, eb_high_water_equity_usd = 1200, eb_updated_ts_ns = 3\<rparr>"

lemma demo_texts:
  "py_lower demo_address = demo_address" "is_lower_address demo_address"
  "is_day ''2026-01-01''" "is_day ''2026-01-02''"
  "\<not> ''2026-01-02'' < ''2026-01-01''" "''2026-01-01'' < ''2026-01-02''"
  by code_simp+

lemma demo_run_value:
  "er_history demo_run = [(''2026-01-01'', 1000), (''2026-01-01'', 1200), (''2026-01-02'', 1100)]"
  "es_state (er_store demo_run) = Some demo_baseline"
  by (simp_all add: demo_run_def demo_equities_def first_run_def equity_step_def observe_equity_def
      open_equity_store_def next_baseline_def equity_baseline_error_def Let_def demo_texts same_marks_def
      demo_baseline_def)

theorem equity_baseline_refines_history_witness:
  "\<exists>f. es_file (er_store demo_run) = Some f \<and> same_marks demo_baseline f
     \<and> eb_high_water_equity_usd demo_baseline = high_water_of (er_history demo_run)"
  using equity_baseline_refines_history [of demo_run demo_address demo_equities] demo_run_value
  by (auto simp: demo_run_def)

definition demo_account :: live_account where
  "demo_account = \<lparr>la_equity_usd = 1090, la_position_base = 1 / 1000, la_pending_buy_base = 0,
     la_pending_sell_base = 0, la_open_order_count = 0, la_average_entry_price = None,
     la_position_opened_ts_ns = None\<rparr>"

theorem drawdown_survives_restarts_witness:
  "position_reducing (example_intent SELL True) (live_snapshot 1500 900 40000 demo_account demo_baseline True True True)"
proof -
  let ?s = "live_snapshot 1500 900 40000 demo_account demo_baseline True True True"
  have s: "build_live_risk_snapshot 1500 900 40000 demo_account demo_baseline True True True = Inr ?s"
  proof -
    have "risk_snapshot_error ?s = None" by code_simp
    then show ?thesis by (simp add: build_live_risk_snapshot_def Let_def)
  qed
  have d: "rl_max_drawdown_fraction (ae_limits example_env)
      \<le> ddiv (dsub (high_water_of (er_history demo_run)) (la_equity_usd demo_account)) (high_water_of (er_history demo_run))"
    unfolding demo_run_value by code_simp
  have al: "rd_allowed (snd (evaluate example_env (example_world 2000 False) ''d1'' new_authority
     (example_intent SELL True) ?s))" by code_simp
  from drawdown_survives_restarts [OF demo_run_def demo_run_value(2) s disjI1 [OF d] al] show ?thesis by simp
qed

end
