(* ===== verification/Paper_Records.thy ===== *)
theory Paper_Records
  imports Paper_Exchange
begin

text \<open>
  The records of \<open>paper/models.py\<close> that the engine writes and the journal keeps: decisions, strategy
  evaluations and their summary, execution commands, run manifests, checkpoints, markouts, and the
  freshness verdict on the public feed. Every record has its checks in the order of the code.
\<close>

section \<open>Decisions and evaluations\<close>

record decision_record =
  pd_record_id :: string
  pd_sequence :: int
  pd_decision_ts_ns :: int
  pd_feature_snapshot_sha256 :: string
  pd_strategy_id :: string
  pd_intent :: order_intent
  pd_risk_decision :: risk_decision
  pd_independent :: bool

definition decision_record_error :: "decision_record \<Rightarrow> string option" where
  "decision_record_error r = first_error
     [(\<not> is_slug (pd_record_id r), ''record_id''), (pd_sequence r < 0, ''sequence''),
      (pd_decision_ts_ns r < 0, ''decision_ts_ns''),
      (\<not> is_sha256_hex (pd_feature_snapshot_sha256 r), ''feature_snapshot_sha256''),
      (\<not> is_slug (pd_strategy_id r), ''strategy_id'')]"

record forecast_diagnostics =
  pf_training_samples :: int
  pf_ready :: bool
  pf_directional_accuracy :: dec
  pf_mean_absolute_error_bps :: dec
  pf_latest_prediction_bps :: dec

definition forecast_diagnostics_error :: "forecast_diagnostics \<Rightarrow> string option" where
  "forecast_diagnostics_error f = first_error
     [(pf_training_samples f < 0, ''training_samples''),
      (\<not> (0 \<le> pf_directional_accuracy f \<and> pf_directional_accuracy f \<le> 1), ''directional_accuracy''),
      (pf_mean_absolute_error_bps f < 0, ''mean_absolute_error_bps'')]"

record strategy_evaluation =
  pv_evaluation_id :: string
  pv_run_id :: string
  pv_sequence :: int
  pv_evaluated_ts_ns :: int
  pv_feature_snapshot_sha256 :: string
  pv_strategy_id :: string
  pv_feature_ready :: bool
  pv_structure_ready :: bool
  pv_feed_connected :: bool
  pv_risk_state :: risk_state
  pv_risk_reasons :: "risk_reason list"
  pv_decision :: kernel_decision
  pv_forecast :: "forecast_diagnostics option"

definition strategy_evaluation_error :: "strategy_evaluation \<Rightarrow> string option" where
  "strategy_evaluation_error e = first_error
     [(\<not> is_sha256_hex (pv_evaluation_id e), ''evaluation_id''), (\<not> is_slug (pv_run_id e), ''run_id''),
      (pv_sequence e < 0, ''sequence''), (pv_evaluated_ts_ns e < 0, ''evaluated_ts_ns''),
      (\<not> is_sha256_hex (pv_feature_snapshot_sha256 e), ''feature_snapshot_sha256''),
      (\<not> is_slug (pv_strategy_id e), ''strategy_id''),
      (\<not> distinct (pv_risk_reasons e), ''paper strategy evaluation risk reasons must be unique'')]"

record action_count =
  ac_action :: strategy_action
  ac_reason :: string
  ac_count :: int

definition action_count_error :: "action_count \<Rightarrow> string option" where
  "action_count_error a = first_error
     [(\<not> (1 \<le> length (ac_reason a) \<and> length (ac_reason a) \<le> 256), ''reason''), (ac_count a \<le> 0, ''count'')]"

record evaluation_summary =
  sy_run_id :: string
  sy_evaluations :: int
  sy_feature_ready_evaluations :: int
  sy_structure_ready_evaluations :: int
  sy_feed_connected_evaluations :: int
  sy_first_evaluated_ts_ns :: "int option"
  sy_last_evaluated_ts_ns :: "int option"
  sy_action_counts :: "action_count list"
  sy_latest_forecast :: "forecast_diagnostics option"

definition evaluation_summary_error :: "evaluation_summary \<Rightarrow> string option" where
  "evaluation_summary_error s = first_error
     ((\<not> is_slug (sy_run_id s), ''run_id'')
      # map (\<lambda>n. (n < 0, ''ge=0''))
          [sy_evaluations s, sy_feature_ready_evaluations s, sy_structure_ready_evaluations s,
           sy_feed_connected_evaluations s]
      @ [(\<not> opt_all (\<lambda>t. 0 \<le> t) (sy_first_evaluated_ts_ns s)
            \<or> \<not> opt_all (\<lambda>t. 0 \<le> t) (sy_last_evaluated_ts_ns s), ''evaluated_ts_ns''),
         (list_ex (\<lambda>n. sy_evaluations s < n)
            [sy_feature_ready_evaluations s, sy_structure_ready_evaluations s, sy_feed_connected_evaluations s],
          ''paper strategy readiness count exceeds total evaluations''),
         (sum_list (map ac_count (sy_action_counts s)) \<noteq> sy_evaluations s,
          ''paper strategy action counts do not match total evaluations''),
         (sy_evaluations s = 0 \<and> (sy_first_evaluated_ts_ns s \<noteq> None \<or> sy_last_evaluated_ts_ns s \<noteq> None),
          ''empty paper strategy summary cannot claim a time window''),
         (sy_evaluations s \<noteq> 0 \<and> (sy_first_evaluated_ts_ns s = None \<or> sy_last_evaluated_ts_ns s = None),
          ''non-empty paper strategy summary requires a time window''),
         (case (sy_first_evaluated_ts_ns s, sy_last_evaluated_ts_ns s) of
            (Some a, Some b) \<Rightarrow> b < a | _ \<Rightarrow> False,
          ''paper strategy summary time window is reversed'')])"

section \<open>Feed freshness\<close>

datatype feed_block_reason =
    FEED_NONE | SOCKET_DISCONNECTED
  | PUBLIC_FRAME_MISSING | PUBLIC_FRAME_CLOCK_REGRESSION | PUBLIC_FRAME_STALE
  | ASSET_CONTEXT_MISSING | ASSET_CONTEXT_CLOCK_REGRESSION | ASSET_CONTEXT_STALE
  | BBO_MISSING | BBO_CLOCK_REGRESSION | BBO_STALE

datatype l2_depth_state = DEPTH_MISSING | DEPTH_CLOCK_REGRESSION | DEPTH_STALE | DEPTH_FRESH

record feed_freshness =
  ff_checked_ts_ns :: int
  ff_stale_after_ms :: int
  ff_depth_stale_after_ms :: int
  ff_socket_connected :: bool
  ff_public_frame_age_ms :: "int option"
  ff_asset_context_age_ms :: "int option"
  ff_bbo_age_ms :: "int option"
  ff_l2_depth_age_ms :: "int option"
  ff_public_frame_fresh :: bool
  ff_asset_context_fresh :: bool
  ff_bbo_fresh :: bool
  ff_l2_depth_fresh :: bool
  ff_l2_depth_state :: l2_depth_state
  ff_ready :: bool
  ff_blocking_reason :: feed_block_reason

definition fresh_age :: "int option \<Rightarrow> int \<Rightarrow> bool" where
  "fresh_age age limit = (case age of None \<Rightarrow> False | Some a \<Rightarrow> 0 \<le> a \<and> a \<le> limit)"

definition block_reason :: "bool \<Rightarrow> int option \<Rightarrow> int option \<Rightarrow> int option \<Rightarrow> int \<Rightarrow> feed_block_reason" where
  "block_reason online frame context bbo limit =
     (if \<not> online then SOCKET_DISCONNECTED
      else if frame = None then PUBLIC_FRAME_MISSING
      else if the frame < 0 then PUBLIC_FRAME_CLOCK_REGRESSION
      else if \<not> fresh_age frame limit then PUBLIC_FRAME_STALE
      else if context = None then ASSET_CONTEXT_MISSING
      else if the context < 0 then ASSET_CONTEXT_CLOCK_REGRESSION
      else if \<not> fresh_age context limit then ASSET_CONTEXT_STALE
      else if bbo = None then BBO_MISSING
      else if the bbo < 0 then BBO_CLOCK_REGRESSION
      else if \<not> fresh_age bbo limit then BBO_STALE
      else FEED_NONE)"

definition depth_state :: "int option \<Rightarrow> int \<Rightarrow> l2_depth_state" where
  "depth_state age limit =
     (case age of
        None \<Rightarrow> DEPTH_MISSING
      | Some a \<Rightarrow> if a < 0 then DEPTH_CLOCK_REGRESSION
                  else if \<not> fresh_age age limit then DEPTH_STALE else DEPTH_FRESH)"

definition feed_freshness_error :: "feed_freshness \<Rightarrow> string option" where
  "feed_freshness_error f =
     (let reason = block_reason (ff_socket_connected f) (ff_public_frame_age_ms f)
            (ff_asset_context_age_ms f) (ff_bbo_age_ms f) (ff_stale_after_ms f)
      in first_error
        [(ff_checked_ts_ns f < 0, ''checked_ts_ns''),
         (ff_stale_after_ms f \<le> 0 \<or> ff_depth_stale_after_ms f \<le> 0, ''gt=0''),
         ((ff_public_frame_fresh f, ff_asset_context_fresh f, ff_bbo_fresh f, ff_l2_depth_fresh f)
            \<noteq> (fresh_age (ff_public_frame_age_ms f) (ff_stale_after_ms f),
                fresh_age (ff_asset_context_age_ms f) (ff_stale_after_ms f),
                fresh_age (ff_bbo_age_ms f) (ff_stale_after_ms f),
                fresh_age (ff_l2_depth_age_ms f) (ff_depth_stale_after_ms f)),
          ''paper feed component freshness does not match its age''),
         (ff_l2_depth_state f \<noteq> depth_state (ff_l2_depth_age_ms f) (ff_depth_stale_after_ms f),
          ''paper L2 depth state does not match its age''),
         (ff_ready f \<noteq> (reason = FEED_NONE), ''paper feed readiness does not match its blocking reason''),
         (ff_blocking_reason f \<noteq> reason, ''paper feed readiness does not match its blocking reason'')])"

text \<open>\<open>from_observations\<close>: ages in whole milliseconds, the verdict, then the checks.\<close>

definition age_ms :: "int \<Rightarrow> int option \<Rightarrow> int option" where
  "age_ms checked observed = map_option (\<lambda>t. (checked - t) div 1000000) observed"

definition feed_verdict ::
  "int \<Rightarrow> int \<Rightarrow> int \<Rightarrow> bool \<Rightarrow> int option \<Rightarrow> int option \<Rightarrow> int option \<Rightarrow> int option \<Rightarrow> feed_freshness" where
  "feed_verdict checked limit depth_limit online frame_ns context_ns bbo_ns depth_ns =
     (let frame = age_ms checked frame_ns; context = age_ms checked context_ns;
          bbo = age_ms checked bbo_ns; depth = age_ms checked depth_ns;
          state = depth_state depth depth_limit;
          reason = block_reason online frame context bbo limit
      in \<lparr>ff_checked_ts_ns = checked, ff_stale_after_ms = limit, ff_depth_stale_after_ms = depth_limit,
          ff_socket_connected = online, ff_public_frame_age_ms = frame, ff_asset_context_age_ms = context,
          ff_bbo_age_ms = bbo, ff_l2_depth_age_ms = depth, ff_public_frame_fresh = fresh_age frame limit,
          ff_asset_context_fresh = fresh_age context limit, ff_bbo_fresh = fresh_age bbo limit,
          ff_l2_depth_fresh = (state = DEPTH_FRESH), ff_l2_depth_state = state,
          ff_ready = (reason = FEED_NONE), ff_blocking_reason = reason\<rparr>)"

definition from_observations ::
  "int \<Rightarrow> int \<Rightarrow> int \<Rightarrow> bool \<Rightarrow> int option \<Rightarrow> int option \<Rightarrow> int option \<Rightarrow> int option \<Rightarrow> feed_freshness res" where
  "from_observations checked limit depth_limit online frame_ns context_ns bbo_ns depth_ns =
     guardE (limit \<le> 0 \<or> depth_limit \<le> 0)
       (ValueError ''paper feed and depth stale thresholds must be positive'')
     (let f = feed_verdict checked limit depth_limit online frame_ns context_ns bbo_ns depth_ns
      in case feed_freshness_error f of Some m \<Rightarrow> Inl (ValidationError m) | None \<Rightarrow> Inr f)"

text \<open>
  The verdict is always consistent with its own checks, and the feed is ready exactly when the socket is
  connected and the three components are neither in the future nor older than the limit.
\<close>

lemma fresh_age_None [simp]: "fresh_age None limit = False"
  and fresh_age_Some [simp]: "fresh_age (Some a) limit = (0 \<le> a \<and> a \<le> limit)"
  by (simp_all add: fresh_age_def)

lemma block_reason_NONE_iff:
  "block_reason online frame context bbo limit = FEED_NONE \<longleftrightarrow>
     online \<and> fresh_age frame limit \<and> fresh_age context limit \<and> fresh_age bbo limit"
  by (cases frame; cases "context"; cases bbo) (simp_all add: block_reason_def)

lemma depth_state_FRESH_iff: "depth_state age limit = DEPTH_FRESH \<longleftrightarrow> fresh_age age limit"
  by (cases age) (simp_all add: depth_state_def)

lemma from_observations_total:
  assumes "0 \<le> checked" "0 < limit" "0 < depth_limit"
  shows "from_observations checked limit depth_limit online f c b d =
           Inr (feed_verdict checked limit depth_limit online f c b d)"
  using assms
  by (simp add: from_observations_def feed_verdict_def feed_freshness_error_def Let_def
      first_error_None_iff depth_state_FRESH_iff)

section \<open>Commands, manifests, checkpoints, markouts\<close>

datatype command_kind = CMD_SUBMIT | CMD_CANCEL | CMD_CANCEL_ALL

fun command_kind_value :: "command_kind \<Rightarrow> string" where
  "command_kind_value CMD_SUBMIT = ''submit''"
| "command_kind_value CMD_CANCEL = ''cancel''"
| "command_kind_value CMD_CANCEL_ALL = ''cancel_all''"

record execution_command =
  xq_command_id :: string
  xq_sequence :: int
  xq_command_ts_ns :: int
  xq_kind :: command_kind
  xq_intent_id :: string
  xq_strategy_id :: string
  xq_intent :: "order_intent option"
  xq_risk_decision_id :: "string option"
  xq_feature_snapshot_sha256 :: "string option"
  xq_source_sequence :: "int option"

definition execution_command_error :: "execution_command \<Rightarrow> string option" where
  "execution_command_error c = first_error
     [(\<not> is_slug (xq_command_id c), ''command_id''), (xq_sequence c < 0, ''sequence''),
      (xq_command_ts_ns c < 0, ''command_ts_ns''),
      (\<not> is_slug (xq_intent_id c), ''intent_id''), (\<not> is_slug (xq_strategy_id c), ''strategy_id''),
      (\<not> opt_all is_slug (xq_risk_decision_id c), ''risk_decision_id''),
      (\<not> opt_all is_sha256_hex (xq_feature_snapshot_sha256 c), ''feature_snapshot_sha256''),
      (\<not> opt_all (\<lambda>n. 1 \<le> n) (xq_source_sequence c), ''source_sequence''),
      (xq_kind c = CMD_SUBMIT \<and> (xq_intent c = None \<or> xq_risk_decision_id c = None),
       ''submit command requires its exact intent and risk approval''),
      (xq_kind c = CMD_SUBMIT \<and> \<not> opt_all (\<lambda>i. oi_intent_id i = xq_intent_id c) (xq_intent c),
       ''submit command intent identity does not match''),
      (xq_kind c \<noteq> CMD_SUBMIT \<and> (xq_intent c \<noteq> None \<or> xq_risk_decision_id c \<noteq> None),
       ''cancel commands cannot claim a submit intent or risk approval'')]"

definition mk_execution_command :: "execution_command \<Rightarrow> execution_command res" where
  "mk_execution_command c =
     (case execution_command_error c of Some m \<Rightarrow> Inl (ValidationError m) | None \<Rightarrow> Inr c)"

record run_manifest =
  rm_run_id :: string
  rm_environment :: string
  rm_started_ts_ns :: int
  rm_code_identity :: string
  rm_config_fingerprint :: string
  rm_feature_config_sha256 :: string
  rm_strategy_config_sha256 :: string
  rm_scenario_id :: string
  rm_scenario_sha256 :: string
  rm_evidence_policy_sha256 :: string
  rm_strategy_id :: string
  rm_image_identity :: "string option"
  rm_source_start_sequence :: int

definition run_manifest_error :: "run_manifest \<Rightarrow> string option" where
  "run_manifest_error m = first_error
     [(\<not> list_all is_slug [rm_run_id m, rm_environment m, rm_scenario_id m, rm_strategy_id m], ''identifier''),
      (rm_started_ts_ns m < 0, ''started_ts_ns''), (\<not> is_identifier (rm_code_identity m), ''code_identity''),
      (\<not> list_all is_sha256_hex
         [rm_config_fingerprint m, rm_feature_config_sha256 m, rm_strategy_config_sha256 m,
          rm_scenario_sha256 m, rm_evidence_policy_sha256 m], ''sha256''),
      (\<not> opt_all (\<lambda>s. 1 \<le> length s \<and> length s \<le> 256) (rm_image_identity m), ''image_identity''),
      (rm_source_start_sequence m < 0, ''source_start_sequence'')]"

text \<open>The strategy memory is kept as its JSON text, whose length is bounded.\<close>

record engine_checkpoint =
  ck_run_id :: string
  ck_sequence :: int
  ck_checkpoint_ts_ns :: int
  ck_strategy_id :: string
  ck_strategy_memory_json :: string
  ck_last_independent_decision_ts_ns :: "int option"
  ck_funding_rate :: dec
  ck_next_funding_settlement_ns :: "int option"
  ck_source_sequence :: "int option"

definition engine_checkpoint_error :: "engine_checkpoint \<Rightarrow> string option" where
  "engine_checkpoint_error c = first_error
     [(\<not> is_slug (ck_run_id c), ''run_id''), (ck_sequence c < 0, ''sequence''),
      (ck_checkpoint_ts_ns c < 0, ''checkpoint_ts_ns''), (\<not> is_slug (ck_strategy_id c), ''strategy_id''),
      (\<not> (2 \<le> length (ck_strategy_memory_json c) \<and> length (ck_strategy_memory_json c) \<le> 65536),
       ''strategy_memory_json''),
      (\<not> opt_all (\<lambda>t. 0 \<le> t) (ck_last_independent_decision_ts_ns c), ''last_independent_decision_ts_ns''),
      (\<not> opt_all (\<lambda>t. 0 \<le> t) (ck_next_funding_settlement_ns c), ''next_funding_settlement_ns''),
      (\<not> opt_all (\<lambda>n. 1 \<le> n) (ck_source_sequence c), ''source_sequence'')]"

record paper_markout =
  mo_fill_id :: string
  mo_horizon_ns :: int
  mo_observed_ts_ns :: int
  mo_mark_price :: dec
  mo_signed_markout_bps :: dec

definition paper_markout_error :: "paper_markout \<Rightarrow> string option" where
  "paper_markout_error m = first_error
     [(\<not> is_slug (mo_fill_id m), ''fill_id''), (mo_horizon_ns m \<le> 0, ''horizon_ns''),
      (mo_observed_ts_ns m < 0, ''observed_ts_ns''), (mo_mark_price m \<le> 0, ''mark_price'')]"

section \<open>The evidence policy\<close>

record evidence_policy =
  py_policy_id :: string
  py_frozen_at_ns :: int
  py_minimum_observation_ns :: int
  py_minimum_independent_decisions :: int
  py_decision_independence_ns :: int
  py_minimum_fills :: int
  py_minimum_regimes :: int
  py_maximum_drawdown_fraction :: dec
  py_maximum_denial_fraction :: dec
  py_maximum_adverse_markout_bps :: dec
  py_drift_baseline_samples :: int
  py_drift_window_samples :: int
  py_drift_evaluation_interval_samples :: int
  py_maximum_feature_psi :: dec
  py_maximum_standardized_mean_shift :: dec
  py_require_positive_post_cost_pnl :: bool
  py_required_sensitivity_scenarios :: "string list"
  py_required_drills :: "string list"

definition PAPER_DRILLS :: "string list" where
  "PAPER_DRILLS =
     [''restart'', ''stale_data'', ''daily_loss'', ''drawdown'', ''operator_kill'', ''observability'']"

definition evidence_policy_error :: "evidence_policy \<Rightarrow> string option" where
  "evidence_policy_error p = first_error
     [(\<not> is_slug (py_policy_id p), ''policy_id''), (py_frozen_at_ns p < 0, ''frozen_at_ns''),
      (py_minimum_observation_ns p \<le> 0 \<or> py_minimum_independent_decisions p \<le> 0
         \<or> py_decision_independence_ns p \<le> 0 \<or> py_minimum_fills p \<le> 0, ''gt=0''),
      (\<not> (1 \<le> py_minimum_regimes p \<and> py_minimum_regimes p \<le> 3), ''minimum_regimes''),
      (\<not> (0 < py_maximum_drawdown_fraction p \<and> py_maximum_drawdown_fraction p \<le> 1), ''maximum_drawdown_fraction''),
      (\<not> (0 \<le> py_maximum_denial_fraction p \<and> py_maximum_denial_fraction p \<le> 1), ''maximum_denial_fraction''),
      (py_maximum_adverse_markout_bps p < 0, ''maximum_adverse_markout_bps''),
      (py_drift_baseline_samples p < 20 \<or> py_drift_window_samples p < 20, ''drift_samples''),
      (py_drift_evaluation_interval_samples p < 1, ''drift_evaluation_interval_samples''),
      (py_maximum_feature_psi p \<le> 0 \<or> py_maximum_standardized_mean_shift p \<le> 0, ''gt=0''),
      (py_required_sensitivity_scenarios p = []
         \<or> \<not> list_all is_slug (py_required_sensitivity_scenarios p), ''required_sensitivity_scenarios''),
      (\<not> list_all (\<lambda>d. d \<in> set PAPER_DRILLS) (py_required_drills p), ''required_drills''),
      (\<not> distinct (py_required_sensitivity_scenarios p), ''required sensitivity scenarios must be unique''),
      (\<not> distinct (py_required_drills p), ''required paper drills must be unique'')]"

text \<open>A report of the drift monitor: the two figures the evidence reads, printed as decimals.\<close>

record drift_report =
  df_maximum_psi :: dec
  df_maximum_standardized_mean_shift :: dec

text \<open>\<open>model_validate\<close> of a record that was stored or is being constructed.\<close>

definition checked :: "('a \<Rightarrow> string option) \<Rightarrow> 'a \<Rightarrow> 'a res" where
  "checked check x = (case check x of Some m \<Rightarrow> Inl (ValidationError m) | None \<Rightarrow> Inr x)"

lemma checked_eq_Inr_iff [res_simps]: "checked check x = Inr y \<longleftrightarrow> check x = None \<and> y = x"
  by (auto simp: checked_def split: option.splits)

end
