(* ===== verification/Paper_Journal.thy ===== *)
theory Paper_Journal
  imports Paper_Records Paper_Safety Market_Structure
begin

text \<open>
  The paper journal of \<open>paper/journal.py\<close>: the tables as lists in insertion order, with the primary keys,
  unique constraints and references of the schema, and every method. A record that is stored is the
  record itself; reading it back runs its checks. A method is one transaction. The drift vectors
  of a snapshot, a float conversion, are an argument (\<open>vector\<close>), and so is the digest of a manifest.
\<close>

section \<open>Tables\<close>

text \<open>A row of a run: the columns that repeat fields of the stored value are read from it.\<close>

record 'a entry =
  en_run_id :: string
  en_value :: 'a

record run_row =
  ru_manifest_sha256 :: string
  ru_manifest :: run_manifest

record order_row =
  jo_run_id :: string
  jo_intent_id :: string
  jo_order :: paper_order

record 'v feature_row =
  fr_observed_ts_ns :: int
  fr_regime :: volatility_regime
  fr_ready :: bool
  fr_vector :: 'v

record drill_row =
  dl_drill :: string
  dl_completed_ts_ns :: int
  dl_evidence :: string

record event_row =
  ev_event_ts_ns :: int
  ev_kind :: string
  ev_detail :: string

record 'v paper_journal =
  pj_runs :: "run_row list"
  pj_orders :: "order_row list"
  pj_fills :: "paper_fill entry list"
  pj_decisions :: "decision_record entry list"
  pj_evaluations :: "strategy_evaluation entry list"
  pj_commands :: "execution_command entry list"
  pj_accounts :: "paper_account entry list"
  pj_features :: "'v feature_row entry list"
  pj_markouts :: "paper_markout entry list"
  pj_checkpoints :: "engine_checkpoint list"
  pj_structures :: "structure_state entry list"
  pj_drift :: "drift_report entry list"
  pj_drills :: "drill_row entry list"
  pj_events :: "event_row entry list"

definition new_paper_journal :: "'v paper_journal" where
  "new_paper_journal = \<lparr>pj_runs = [], pj_orders = [], pj_fills = [], pj_decisions = [], pj_evaluations = [],
     pj_commands = [], pj_accounts = [], pj_features = [], pj_markouts = [], pj_checkpoints = [],
     pj_structures = [], pj_drift = [], pj_drills = [], pj_events = []\<rparr>"

text \<open>\<open>WHERE run_id = ?\<close>\<close>

definition rows_of :: "string \<Rightarrow> 'a entry list \<Rightarrow> 'a list" where
  "rows_of run t = map en_value (filter (\<lambda>e. en_run_id e = run) t)"

definition known_run :: "string \<Rightarrow> 'v paper_journal \<Rightarrow> bool" where
  "known_run run j \<longleftrightarrow> list_ex (\<lambda>r. rm_run_id (ru_manifest r) = run) (pj_runs j)"

definition unique_violation :: py_error where
  "unique_violation = IntegrityError ''UNIQUE constraint failed''"

definition reference_violation :: py_error where
  "reference_violation = IntegrityError ''FOREIGN KEY constraint failed''"

text \<open>An insertion: the unique keys, then the reference to the run.\<close>

definition insert_row :: "bool \<Rightarrow> string \<Rightarrow> 'v paper_journal \<Rightarrow> 'v paper_journal \<Rightarrow> 'v paper_journal res" where
  "insert_row taken run j j' =
     guardE taken unique_violation (guardE (\<not> known_run run j) reference_violation (Inr j'))"

fun insert_each :: "('a \<Rightarrow> 's \<Rightarrow> 's res) \<Rightarrow> 'a list \<Rightarrow> 's \<Rightarrow> 's res" where
  "insert_each f [] s = Inr s"
| "insert_each f (x # xs) s = bindE (f x s) (insert_each f xs)"

definition in_transaction :: "('s \<Rightarrow> 's res) \<Rightarrow> 's \<Rightarrow> 's \<times> unit res" where
  "in_transaction f = transact (\<lambda>s. bindE (f s) (\<lambda>s'. Inr (s', ())))"

section \<open>Insertions\<close>

definition insert_account :: "string \<Rightarrow> paper_account \<Rightarrow> 'v paper_journal \<Rightarrow> 'v paper_journal res" where
  "insert_account run a j =
     insert_row False run j (j\<lparr>pj_accounts := pj_accounts j @ [\<lparr>en_run_id = run, en_value = a\<rparr>]\<rparr>)"

definition insert_command :: "string \<Rightarrow> execution_command \<Rightarrow> 'v paper_journal \<Rightarrow> 'v paper_journal res" where
  "insert_command run c j = insert_row
     (list_ex (\<lambda>e. xq_command_id (en_value e) = xq_command_id c
                 \<or> en_run_id e = run \<and> xq_sequence (en_value e) = xq_sequence c) (pj_commands j)) run j
     (j\<lparr>pj_commands := pj_commands j @ [\<lparr>en_run_id = run, en_value = c\<rparr>]\<rparr>)"

text \<open>The upsert of an order: on its identity the row is rewritten, run and intent stay.\<close>

definition order_taken :: "string \<Rightarrow> paper_order \<Rightarrow> 'v paper_journal \<Rightarrow> bool" where
  "order_taken run p j \<longleftrightarrow>
     list_ex (\<lambda>r. jo_run_id r = run \<and> jo_intent_id r = oi_intent_id (po_intent p)) (pj_orders j)"

definition upsert_order :: "string \<Rightarrow> paper_order \<Rightarrow> 'v paper_journal \<Rightarrow> 'v paper_journal res" where
  "upsert_order run p j =
     (if list_ex (\<lambda>r. po_paper_order_id (jo_order r) = po_paper_order_id p) (pj_orders j)
      then Inr (j\<lparr>pj_orders := map (\<lambda>r. if po_paper_order_id (jo_order r) = po_paper_order_id p
                                     then r\<lparr>jo_order := p\<rparr> else r) (pj_orders j)\<rparr>)
      else insert_row (order_taken run p j) run j
        (j\<lparr>pj_orders := pj_orders j @
           [\<lparr>jo_run_id = run, jo_intent_id = oi_intent_id (po_intent p), jo_order = p\<rparr>]\<rparr>))"

definition insert_fill :: "string \<Rightarrow> paper_fill \<Rightarrow> 'v paper_journal \<Rightarrow> 'v paper_journal res" where
  "insert_fill run f j = insert_row
     (list_ex (\<lambda>e. fl_fill_id (en_value e) = fl_fill_id f) (pj_fills j)) run j
     (j\<lparr>pj_fills := pj_fills j @ [\<lparr>en_run_id = run, en_value = f\<rparr>]\<rparr>)"

definition insert_decision :: "string \<Rightarrow> decision_record \<Rightarrow> 'v paper_journal \<Rightarrow> 'v paper_journal res" where
  "insert_decision run d j = insert_row
     (list_ex (\<lambda>e. pd_record_id (en_value e) = pd_record_id d) (pj_decisions j)) run j
     (j\<lparr>pj_decisions := pj_decisions j @ [\<lparr>en_run_id = run, en_value = d\<rparr>]\<rparr>)"

definition insert_evaluation :: "string \<Rightarrow> strategy_evaluation \<Rightarrow> 'v paper_journal \<Rightarrow> 'v paper_journal res" where
  "insert_evaluation run x j = insert_row
     (list_ex (\<lambda>e. pv_evaluation_id (en_value e) = pv_evaluation_id x
                 \<or> en_run_id e = run \<and> pv_sequence (en_value e) = pv_sequence x) (pj_evaluations j)) run j
     (j\<lparr>pj_evaluations := pj_evaluations j @ [\<lparr>en_run_id = run, en_value = x\<rparr>]\<rparr>)"

definition insert_feature ::
  "(feature_snapshot \<Rightarrow> 'v) \<Rightarrow> string \<Rightarrow> feature_snapshot \<Rightarrow> 'v paper_journal \<Rightarrow> 'v paper_journal res" where
  "insert_feature vector run f j = insert_row False run j
     (j\<lparr>pj_features := pj_features j @
        [\<lparr>en_run_id = run,
          en_value = \<lparr>fr_observed_ts_ns = fs_receive_ts_ns f, fr_regime = fs_volatility_regime f,
                      fr_ready = fs_ready f, fr_vector = vector f\<rparr>\<rparr>]\<rparr>)"

text \<open>A markout also refers to its fill.\<close>

definition insert_markout :: "string \<Rightarrow> paper_markout \<Rightarrow> 'v paper_journal \<Rightarrow> 'v paper_journal res" where
  "insert_markout run m j =
     guardE (list_ex (\<lambda>e. mo_fill_id (en_value e) = mo_fill_id m
                        \<and> mo_horizon_ns (en_value e) = mo_horizon_ns m) (pj_markouts j)) unique_violation
    (guardE (\<not> known_run run j
             \<or> \<not> list_ex (\<lambda>e. fl_fill_id (en_value e) = mo_fill_id m) (pj_fills j)) reference_violation
      (Inr (j\<lparr>pj_markouts := pj_markouts j @ [\<lparr>en_run_id = run, en_value = m\<rparr>]\<rparr>)))"

definition upsert_checkpoint :: "engine_checkpoint \<Rightarrow> 'v paper_journal \<Rightarrow> 'v paper_journal res" where
  "upsert_checkpoint c j = insert_row False (ck_run_id c) j
     (j\<lparr>pj_checkpoints := filter (\<lambda>x. ck_run_id x \<noteq> ck_run_id c) (pj_checkpoints j) @ [c]\<rparr>)"

definition insert_drift :: "string \<Rightarrow> drift_report \<Rightarrow> 'v paper_journal \<Rightarrow> 'v paper_journal res" where
  "insert_drift run d j =
     insert_row False run j (j\<lparr>pj_drift := pj_drift j @ [\<lparr>en_run_id = run, en_value = d\<rparr>]\<rparr>)"

section \<open>Writing\<close>

definition begin_transaction ::
  "(run_manifest \<Rightarrow> string) \<Rightarrow> run_manifest \<Rightarrow> paper_account \<Rightarrow> 'v paper_journal \<Rightarrow> ('v paper_journal \<times> bool) res" where
  "begin_transaction manifest_sha256 m account j =
     (case find (\<lambda>r. rm_run_id (ru_manifest r) = rm_run_id m) (pj_runs j) of
        Some r \<Rightarrow> guardE (ru_manifest_sha256 r \<noteq> manifest_sha256 m)
          (ValueError ''paper run identity changed across restart'') (Inr (j, True))
      | None \<Rightarrow>
          bindE (insert_account (rm_run_id m) account
            (j\<lparr>pj_runs := pj_runs j @ [\<lparr>ru_manifest_sha256 = manifest_sha256 m, ru_manifest = m\<rparr>]\<rparr>))
            (\<lambda>j'. Inr (j', False)))"

definition begin_run ::
  "(run_manifest \<Rightarrow> string) \<Rightarrow> run_manifest \<Rightarrow> paper_account \<Rightarrow> 'v paper_journal \<Rightarrow> 'v paper_journal \<times> bool res" where
  "begin_run manifest_sha256 m account = transact (begin_transaction manifest_sha256 m account)"

definition cycle_rows ::
  "string \<Rightarrow> paper_order list \<Rightarrow> paper_fill list \<Rightarrow> execution_command list \<Rightarrow> 'v paper_journal \<Rightarrow> 'v paper_journal res" where
  "cycle_rows run orders fills commands j =
     bindE (insert_each (insert_command run) commands j) (\<lambda>j.
     bindE (insert_each (upsert_order run) orders j) (insert_each (insert_fill run) fills))"

definition record_cycle ::
  "string \<Rightarrow> paper_order list \<Rightarrow> paper_fill list \<Rightarrow> paper_account \<Rightarrow> execution_command list
     \<Rightarrow> 'v paper_journal \<Rightarrow> 'v paper_journal \<times> unit res" where
  "record_cycle run orders fills account commands = in_transaction (\<lambda>j.
     bindE (cycle_rows run orders fills commands j) (insert_account run account))"

record engine_rows =
  er_orders :: "paper_order list"
  er_fills :: "paper_fill list"
  er_account :: paper_account
  er_feature :: feature_snapshot
  er_decisions :: "decision_record list"
  er_markouts :: "paper_markout list"
  er_checkpoint :: engine_checkpoint
  er_drift_report :: "drift_report option"
  er_evaluation :: strategy_evaluation
  er_commands :: "execution_command list"

definition evidence_rows ::
  "(feature_snapshot \<Rightarrow> 'v) \<Rightarrow> string \<Rightarrow> engine_rows \<Rightarrow> 'v paper_journal \<Rightarrow> 'v paper_journal res" where
  "evidence_rows vector run e j =
     bindE (insert_each (insert_decision run) (er_decisions e) j) (\<lambda>j.
     bindE (insert_evaluation run (er_evaluation e) j) (\<lambda>j.
     bindE (insert_feature vector run (er_feature e) j) (insert_each (insert_markout run) (er_markouts e))))"

definition record_engine_cycle ::
  "(feature_snapshot \<Rightarrow> 'v) \<Rightarrow> string \<Rightarrow> engine_rows \<Rightarrow> 'v paper_journal \<Rightarrow> 'v paper_journal \<times> unit res" where
  "record_engine_cycle vector run e = in_transaction (\<lambda>j.
     bindE (cycle_rows run (er_orders e) (er_fills e) (er_commands e) j) (\<lambda>j.
     bindE (evidence_rows vector run e j) (\<lambda>j.
     bindE (insert_account run (er_account e) j) (\<lambda>j.
     bindE (upsert_checkpoint (er_checkpoint e) j) (\<lambda>j.
       insert_each (insert_drift run) (opt_list (er_drift_report e)) j)))))"

definition record_decision :: "string \<Rightarrow> decision_record \<Rightarrow> 'v paper_journal \<Rightarrow> 'v paper_journal \<times> unit res" where
  "record_decision run d = in_transaction (insert_decision run d)"

definition record_feature ::
  "(feature_snapshot \<Rightarrow> 'v) \<Rightarrow> string \<Rightarrow> feature_snapshot \<Rightarrow> 'v paper_journal \<Rightarrow> 'v paper_journal \<times> unit res" where
  "record_feature vector run f = in_transaction (insert_feature vector run f)"

definition record_markout :: "string \<Rightarrow> paper_markout \<Rightarrow> 'v paper_journal \<Rightarrow> 'v paper_journal \<times> unit res" where
  "record_markout run m = in_transaction (insert_markout run m)"

definition record_checkpoint :: "engine_checkpoint \<Rightarrow> 'v paper_journal \<Rightarrow> 'v paper_journal \<times> unit res" where
  "record_checkpoint c = in_transaction (upsert_checkpoint c)"

definition record_structure_state ::
  "string \<Rightarrow> structure_state \<Rightarrow> 'v paper_journal \<Rightarrow> 'v paper_journal \<times> unit res" where
  "record_structure_state run s j =
     (if cs_last_observed_ts_ns s = None then (j, Inr ())
      else in_transaction (\<lambda>j. insert_row False run j
        (j\<lparr>pj_structures := filter (\<lambda>e. en_run_id e \<noteq> run) (pj_structures j)
             @ [\<lparr>en_run_id = run, en_value = s\<rparr>]\<rparr>)) j)"

definition record_drill :: "string \<Rightarrow> string \<Rightarrow> int \<Rightarrow> string \<Rightarrow> 'v paper_journal \<Rightarrow> 'v paper_journal \<times> unit res" where
  "record_drill run drill ts evidence j =
     (if drill = [] \<or> evidence = [] then (j, Inl (ValueError ''paper drill and evidence must be non-empty''))
      else in_transaction (\<lambda>j. insert_row False run j
        (j\<lparr>pj_drills := filter (\<lambda>e. \<not> (en_run_id e = run \<and> dl_drill (en_value e) = drill)) (pj_drills j)
             @ [\<lparr>en_run_id = run,
                 en_value = \<lparr>dl_drill = drill, dl_completed_ts_ns = ts, dl_evidence = evidence\<rparr>\<rparr>]\<rparr>)) j)"

definition record_event :: "string \<Rightarrow> int \<Rightarrow> string \<Rightarrow> string \<Rightarrow> 'v paper_journal \<Rightarrow> 'v paper_journal \<times> unit res" where
  "record_event run ts kind detail j =
     (if kind = [] \<or> detail = [] then (j, Inl (ValueError ''paper event kind and detail must be non-empty''))
      else in_transaction (\<lambda>j. insert_row False run j
        (j\<lparr>pj_events := pj_events j @ [\<lparr>en_run_id = run,
             en_value = \<lparr>ev_event_ts_ns = ts, ev_kind = kind, ev_detail = detail\<rparr>\<rparr>]\<rparr>)) j)"

section \<open>Reading\<close>

definition stored_order_error :: "paper_order \<Rightarrow> string option" where
  "stored_order_error p =
     (case order_intent_error (po_intent p) of Some m \<Rightarrow> Some m | None \<Rightarrow> paper_order_error p)"

fun check_all :: "('a \<Rightarrow> string option) \<Rightarrow> 'a list \<Rightarrow> 'a list res" where
  "check_all check [] = Inr []"
| "check_all check (x # xs) = bindE (checked check x) (\<lambda>x. bindE (check_all check xs) (\<lambda>xs. Inr (x # xs)))"

definition check_option :: "('a \<Rightarrow> string option) \<Rightarrow> 'a option \<Rightarrow> 'a option res" where
  "check_option check x =
     (case x of None \<Rightarrow> Inr None | Some y \<Rightarrow> bindE (checked check y) (\<lambda>y. Inr (Some y)))"

definition last_row :: "'a list \<Rightarrow> 'a option" where
  "last_row xs = (if xs = [] then None else Some (last xs))"

definition latest_manifest :: "'v paper_journal \<Rightarrow> run_manifest option res" where
  "latest_manifest j = check_option run_manifest_error
     (case sort_key (\<lambda>m. - rm_started_ts_ns m) (map ru_manifest (pj_runs j)) of [] \<Rightarrow> None | m # _ \<Rightarrow> Some m)"

definition latest_account :: "string \<Rightarrow> 'v paper_journal \<Rightarrow> paper_account option res" where
  "latest_account run j = check_option paper_account_error (last_row (rows_of run (pj_accounts j)))"

definition orders_of :: "string \<Rightarrow> 'v paper_journal \<Rightarrow> paper_order list" where
  "orders_of run j = map jo_order (filter (\<lambda>r. jo_run_id r = run) (pj_orders j))"

definition open_orders_of :: "string \<Rightarrow> 'v paper_journal \<Rightarrow> paper_order list" where
  "open_orders_of run j = filter (\<lambda>p. \<not> terminal_paper_state (po_state p)) (orders_of run j)"

definition restore_open_orders :: "string \<Rightarrow> 'v paper_journal \<Rightarrow> paper_order list res" where
  "restore_open_orders run j = check_all stored_order_error
     (sort_key (\<lambda>p. (po_updated_ts_ns p, po_paper_order_id p)) (open_orders_of run j))"

definition latest_checkpoint :: "string \<Rightarrow> 'v paper_journal \<Rightarrow> engine_checkpoint option res" where
  "latest_checkpoint run j =
     check_option engine_checkpoint_error (find (\<lambda>c. ck_run_id c = run) (pj_checkpoints j))"

text \<open>The contract of a stored structure state is an argument: the state is not validated further here.\<close>

definition latest_structure_state :: "string \<Rightarrow> 'v paper_journal \<Rightarrow> structure_state option" where
  "latest_structure_state run j = last_row (rows_of run (pj_structures j))"

text \<open>\<open>COALESCE(MAX(sequence), -1) + 1\<close>\<close>

definition next_sequence :: "int list \<Rightarrow> int" where
  "next_sequence ns = (case py_max ns of None \<Rightarrow> 0 | Some n \<Rightarrow> n + 1)"

definition next_command_sequence :: "string \<Rightarrow> 'v paper_journal \<Rightarrow> int" where
  "next_command_sequence run j = next_sequence (map xq_sequence (rows_of run (pj_commands j)))"

definition next_evaluation_sequence :: "string \<Rightarrow> 'v paper_journal \<Rightarrow> int" where
  "next_evaluation_sequence run j = next_sequence (map pv_sequence (rows_of run (pj_evaluations j)))"

definition commands_of :: "string \<Rightarrow> 'v paper_journal \<Rightarrow> execution_command list res" where
  "commands_of run j = check_all execution_command_error (sort_key xq_sequence (rows_of run (pj_commands j)))"

definition decisions_of :: "string \<Rightarrow> 'v paper_journal \<Rightarrow> decision_record list res" where
  "decisions_of run j =
     check_all decision_record_error (sort_key pd_decision_ts_ns (rows_of run (pj_decisions j)))"

definition evaluations_of :: "string \<Rightarrow> 'v paper_journal \<Rightarrow> strategy_evaluation list res" where
  "evaluations_of run j =
     check_all strategy_evaluation_error (sort_key pv_sequence (rows_of run (pj_evaluations j)))"

text \<open>The windows a drift monitor is restored with.\<close>

definition feature_vectors :: "string \<Rightarrow> int \<Rightarrow> int \<Rightarrow> 'v paper_journal \<Rightarrow> 'v list res" where
  "feature_vectors run baseline window j =
     guardE (baseline < 1 \<or> window < 1) (ValueError ''paper drift restore windows must be positive'')
     (let rows = filter fr_ready (rows_of run (pj_features j))
      in Inr (map fr_vector
           (if int (length rows) \<le> baseline + window then rows
            else take (nat baseline) rows @ rev (take (nat window) (rev rows)))))"

definition pending_markout_fills :: "string \<Rightarrow> int \<Rightarrow> 'v paper_journal \<Rightarrow> paper_fill list res" where
  "pending_markout_fills run horizon j = check_all paper_fill_error
     (sort_key (\<lambda>f. (fl_fill_ts_ns f, fl_fill_id f))
       (filter (\<lambda>f. \<not> list_ex (\<lambda>e. mo_fill_id (en_value e) = fl_fill_id f
                                  \<and> mo_horizon_ns (en_value e) = horizon) (pj_markouts j))
         (rows_of run (pj_fills j))))"

definition fill_at :: "string \<Rightarrow> 'v paper_journal \<Rightarrow> paper_fill option res" where
  "fill_at i j =
     check_option paper_fill_error (map_option en_value (find (\<lambda>e. fl_fill_id (en_value e) = i) (pj_fills j)))"

section \<open>Summaries\<close>

text \<open>\<open>GROUP BY action, reason ORDER BY count DESC, action, reason\<close>\<close>

fun action_value :: "strategy_action \<Rightarrow> string" where
  "action_value WARMUP = ''warmup''"
| "action_value HOLD = ''hold''"
| "action_value ENTER_LONG = ''enter_long''"
| "action_value ENTER_SHORT = ''enter_short''"
| "action_value EXIT_TAKE_PROFIT = ''exit_take_profit''"
| "action_value EXIT_STOP_LOSS = ''exit_stop_loss''"
| "action_value EXIT_TIME_LIMIT = ''exit_time_limit''"
| "action_value EXIT_OPPOSITE_FLOW = ''exit_opposite_flow''"
| "action_value BLOCKED_COST = ''blocked_cost''"
| "action_value BLOCKED_SPREAD = ''blocked_spread''"
| "action_value BLOCKED_CONFLUENCE = ''blocked_confluence''"
| "action_value BLOCKED_COOLDOWN = ''blocked_cooldown''"
| "action_value BLOCKED_VOLATILITY = ''blocked_volatility''"
| "action_value BLOCKED_INVENTORY = ''blocked_inventory''"
| "action_value BLOCKED_MODEL = ''blocked_model''"

definition gate_of :: "strategy_evaluation \<Rightarrow> strategy_action \<times> string" where
  "gate_of e = (kd_action (pv_decision e), kd_reason (pv_decision e))"

definition action_counts :: "strategy_evaluation list \<Rightarrow> action_count list" where
  "action_counts es =
     sort_key (\<lambda>a. (- ac_count a, action_value (ac_action a), ac_reason a))
       (map (\<lambda>g. \<lparr>ac_action = fst g, ac_reason = snd g,
                  ac_count = int (length (filter (\<lambda>e. gate_of e = g) es))\<rparr>)
         (py_fromkeys (map gate_of es)))"

definition count_true :: "bool list \<Rightarrow> int" where
  "count_true bs = int (length (filter id bs))"

definition evaluation_summary_of :: "string \<Rightarrow> strategy_evaluation list \<Rightarrow> evaluation_summary" where
  "evaluation_summary_of run es =
     \<lparr>sy_run_id = run, sy_evaluations = int (length es),
      sy_feature_ready_evaluations = count_true (map pv_feature_ready es),
      sy_structure_ready_evaluations = count_true (map pv_structure_ready es),
      sy_feed_connected_evaluations = count_true (map pv_feed_connected es),
      sy_first_evaluated_ts_ns = py_min (map pv_evaluated_ts_ns es),
      sy_last_evaluated_ts_ns = py_max (map pv_evaluated_ts_ns es),
      sy_action_counts = action_counts es,
      sy_latest_forecast = (case last_row (sort_key pv_sequence es) of None \<Rightarrow> None | Some e \<Rightarrow> pv_forecast e)\<rparr>"

definition strategy_evaluation_summary :: "string \<Rightarrow> 'v paper_journal \<Rightarrow> evaluation_summary res" where
  "strategy_evaluation_summary run j =
     guardE (\<not> known_run run j) (ValueError (''unknown paper run: '' @ run))
     (let es = rows_of run (pj_evaluations j); s = evaluation_summary_of run es
      in bindE (check_option strategy_evaluation_error (last_row (sort_key pv_sequence es))) (\<lambda>_.
         bindE (check_all action_count_error (sy_action_counts s)) (\<lambda>_.
           checked evaluation_summary_error s)))"

record journal_statistics =
  st_started_ts_ns :: int
  st_ended_ts_ns :: int
  st_independent_decisions :: int
  st_approved_decisions :: int
  st_denied_decisions :: int
  st_fills :: int
  st_markouts :: int
  st_ending_position_base :: dec
  st_open_orders :: int
  st_regimes :: "volatility_regime list"
  st_ending_equity_usd :: dec
  st_starting_equity_usd :: dec
  st_maximum_drawdown_fraction :: dec
  st_mean_signed_markout_bps :: dec
  st_drift_evaluated :: bool
  st_maximum_feature_psi :: dec
  st_maximum_standardized_mean_shift :: dec
  st_completed_drills :: "string list"
  st_invalidating_events :: "string list"
  st_commands :: int
  st_submit_commands :: int
  st_feature_samples :: int

definition INVALIDATING_EVENT_KINDS :: "string list" where
  "INVALIDATING_EVENT_KINDS = [''funding_gap'', ''replay_exclusions'', ''service_failure'']"

definition account_drawdowns :: "paper_account list \<Rightarrow> dec list" where
  "account_drawdowns as =
     map (\<lambda>a. max 0 (ddiv (dsub (pa_high_water_equity_usd a) (pa_equity_usd a)) (pa_high_water_equity_usd a)))
       (filter (\<lambda>a. 0 < pa_high_water_equity_usd a) as)"

definition py_max_else :: "('a :: linorder) \<Rightarrow> 'a list \<Rightarrow> 'a" where
  "py_max_else d xs = (case py_max xs of None \<Rightarrow> d | Some x \<Rightarrow> x)"

definition mean_markout :: "paper_markout list \<Rightarrow> dec" where
  "mean_markout ms = (if ms = [] then 0 else ddiv (dsum (map mo_signed_markout_bps ms)) (of_nat (length ms)))"

definition seen_regimes :: "'v feature_row list \<Rightarrow> volatility_regime list" where
  "seen_regimes fs = filter (\<lambda>r. list_ex (\<lambda>f. fr_ready f \<and> fr_regime f = r) fs)
     [HIGH_VOLATILITY, LOW_VOLATILITY, NORMAL_VOLATILITY]"

definition statistics_of ::
  "string \<Rightarrow> run_manifest \<Rightarrow> paper_account list \<Rightarrow> paper_markout list \<Rightarrow> 'v paper_journal \<Rightarrow> journal_statistics" where
  "statistics_of run m accounts markouts j =
     (let decisions = rows_of run (pj_decisions j); drift = rows_of run (pj_drift j);
          commands = rows_of run (pj_commands j); ending = last accounts
      in \<lparr>st_started_ts_ns = rm_started_ts_ns m, st_ended_ts_ns = pa_updated_ts_ns ending,
          st_independent_decisions = count_true (map pd_independent decisions),
          st_approved_decisions = count_true (map (\<lambda>d. rd_allowed (pd_risk_decision d)) decisions),
          st_denied_decisions = count_true (map (\<lambda>d. \<not> rd_allowed (pd_risk_decision d)) decisions),
          st_fills = int (length (rows_of run (pj_fills j))), st_markouts = int (length markouts),
          st_ending_position_base = pa_position_base ending,
          st_open_orders = int (length (open_orders_of run j)),
          st_regimes = seen_regimes (rows_of run (pj_features j)),
          st_ending_equity_usd = pa_equity_usd ending, st_starting_equity_usd = pa_equity_usd (hd accounts),
          st_maximum_drawdown_fraction = py_max_else 0 (account_drawdowns accounts),
          st_mean_signed_markout_bps = mean_markout markouts, st_drift_evaluated = (drift \<noteq> []),
          st_maximum_feature_psi = py_max_else 0 (map df_maximum_psi drift),
          st_maximum_standardized_mean_shift = py_max_else 0 (map df_maximum_standardized_mean_shift drift),
          st_completed_drills = sort (map dl_drill (rows_of run (pj_drills j))),
          st_invalidating_events = filter (\<lambda>k. list_ex (\<lambda>e. ev_kind e = k) (rows_of run (pj_events j)))
             INVALIDATING_EVENT_KINDS,
          st_commands = int (length commands),
          st_submit_commands = count_true (map (\<lambda>c. xq_kind c = CMD_SUBMIT) commands),
          st_feature_samples = int (length (rows_of run (pj_features j)))\<rparr>)"

definition statistics :: "string \<Rightarrow> 'v paper_journal \<Rightarrow> journal_statistics res" where
  "statistics run j =
     (case find (\<lambda>r. rm_run_id (ru_manifest r) = run) (pj_runs j) of
        None \<Rightarrow> Inl (ValueError (''unknown paper run: '' @ run))
      | Some r \<Rightarrow>
          (let accounts = rows_of run (pj_accounts j); markouts = rows_of run (pj_markouts j)
           in guardE (accounts = []) (ValueError ''paper run has no account snapshots'')
             (bindE (checked paper_account_error (last accounts)) (\<lambda>_.
              bindE (check_all paper_markout_error markouts) (\<lambda>_.
                Inr (statistics_of run (ru_manifest r) accounts markouts j))))))"

end
