(* ===== verification/Journal_Safety.thy ===== *)
theory Journal_Safety
  imports Paper_Journal
begin

text \<open>
  What the paper journal keeps over every sequence of calls, whatever the callers pass and whichever
  calls raise: the keys and references of every table, and histories that are only extended.
\<close>

section \<open>Calls\<close>

datatype 'v journal_write =
    Begin_Run run_manifest paper_account
  | Record_Cycle string "paper_order list" "paper_fill list" paper_account "execution_command list"
  | Record_Engine_Cycle string engine_rows
  | Record_Decision string decision_record
  | Record_Feature string feature_snapshot
  | Record_Markout string paper_markout
  | Record_Checkpoint engine_checkpoint
  | Record_Structure string structure_state
  | Record_Drill string string int string
  | Record_Event string int string string

fun write_journal ::
  "(run_manifest \<Rightarrow> string) \<Rightarrow> (feature_snapshot \<Rightarrow> 'v) \<Rightarrow> 'v paper_journal \<Rightarrow> 'v journal_write \<Rightarrow> 'v paper_journal" where
  "write_journal sha vector j (Begin_Run m a) = fst (begin_run sha m a j)"
| "write_journal sha vector j (Record_Cycle run os fs a cs) = fst (record_cycle run os fs a cs j)"
| "write_journal sha vector j (Record_Engine_Cycle run e) = fst (record_engine_cycle vector run e j)"
| "write_journal sha vector j (Record_Decision run d) = fst (record_decision run d j)"
| "write_journal sha vector j (Record_Feature run f) = fst (record_feature vector run f j)"
| "write_journal sha vector j (Record_Markout run m) = fst (record_markout run m j)"
| "write_journal sha vector j (Record_Checkpoint c) = fst (record_checkpoint c j)"
| "write_journal sha vector j (Record_Structure run s) = fst (record_structure_state run s j)"
| "write_journal sha vector j (Record_Drill run d t x) = fst (record_drill run d t x j)"
| "write_journal sha vector j (Record_Event run t k d) = fst (record_event run t k d j)"

section \<open>Keys and references\<close>

definition keyed :: "('a \<Rightarrow> 'k) \<Rightarrow> 'a list \<Rightarrow> bool" where
  "keyed key t \<longleftrightarrow> distinct (map key t)"

lemma keyed_snoc [simp]: "keyed key (t @ [x]) \<longleftrightarrow> keyed key t \<and> (\<forall>y \<in> set t. key y \<noteq> key x)"
  unfolding keyed_def by (simp add: image_iff) metis

lemma keyed_Nil [simp]: "keyed key []"
  by (simp add: keyed_def)

lemma keyed_filter: "keyed key t \<Longrightarrow> keyed key (filter P t)"
  by (simp add: keyed_def distinct_map_filter)

definition of_known_runs :: "'v paper_journal \<Rightarrow> 'a entry list \<Rightarrow> bool" where
  "of_known_runs j t \<longleftrightarrow> (\<forall>e \<in> set t. known_run (en_run_id e) j)"

definition history_keys :: "'v paper_journal \<Rightarrow> bool" where
  "history_keys j \<longleftrightarrow>
     keyed (\<lambda>r. rm_run_id (ru_manifest r)) (pj_runs j)
   \<and> keyed (\<lambda>r. po_paper_order_id (jo_order r)) (pj_orders j)
   \<and> keyed (\<lambda>r. (jo_run_id r, jo_intent_id r)) (pj_orders j)
   \<and> keyed (\<lambda>e. fl_fill_id (en_value e)) (pj_fills j)
   \<and> keyed (\<lambda>e. pd_record_id (en_value e)) (pj_decisions j)
   \<and> keyed (\<lambda>e. pv_evaluation_id (en_value e)) (pj_evaluations j)
   \<and> keyed (\<lambda>e. (en_run_id e, pv_sequence (en_value e))) (pj_evaluations j)
   \<and> keyed (\<lambda>e. xq_command_id (en_value e)) (pj_commands j)
   \<and> keyed (\<lambda>e. (en_run_id e, xq_sequence (en_value e))) (pj_commands j)
   \<and> keyed (\<lambda>e. (mo_fill_id (en_value e), mo_horizon_ns (en_value e))) (pj_markouts j)"

definition state_keys :: "'v paper_journal \<Rightarrow> bool" where
  "state_keys j \<longleftrightarrow>
     keyed ck_run_id (pj_checkpoints j) \<and> keyed en_run_id (pj_structures j)
   \<and> keyed (\<lambda>e. (en_run_id e, dl_drill (en_value e))) (pj_drills j)"

definition references :: "'v paper_journal \<Rightarrow> bool" where
  "references j \<longleftrightarrow>
     (\<forall>r \<in> set (pj_orders j). known_run (jo_run_id r) j) \<and> (\<forall>c \<in> set (pj_checkpoints j). known_run (ck_run_id c) j)
   \<and> of_known_runs j (pj_fills j) \<and> of_known_runs j (pj_decisions j) \<and> of_known_runs j (pj_evaluations j)
   \<and> of_known_runs j (pj_commands j) \<and> of_known_runs j (pj_accounts j) \<and> of_known_runs j (pj_features j)
   \<and> of_known_runs j (pj_markouts j) \<and> of_known_runs j (pj_structures j) \<and> of_known_runs j (pj_drift j)
   \<and> of_known_runs j (pj_drills j) \<and> of_known_runs j (pj_events j)
   \<and> (\<forall>m \<in> set (pj_markouts j). \<exists>f \<in> set (pj_fills j). fl_fill_id (en_value f) = mo_fill_id (en_value m))"

definition tables_ok :: "'v paper_journal \<Rightarrow> bool" where
  "tables_ok j \<longleftrightarrow> history_keys j \<and> state_keys j \<and> references j"

lemmas table_defs = tables_ok_def history_keys_def state_keys_def references_def of_known_runs_def

section \<open>Histories\<close>

definition extended :: "'a list \<Rightarrow> 'a list \<Rightarrow> bool" where
  "extended xs ys \<longleftrightarrow> (\<exists>zs. ys = xs @ zs)"

lemma extended_refl [simp]: "extended xs xs"
  by (simp add: extended_def)

lemma extended_snoc [simp]: "extended xs (xs @ ys)"
  by (simp add: extended_def)

lemma extended_trans: "extended xs ys \<Longrightarrow> extended ys zs \<Longrightarrow> extended xs zs"
  by (auto simp: extended_def)

definition history_kept :: "'v paper_journal \<Rightarrow> 'v paper_journal \<Rightarrow> bool" where
  "history_kept j k \<longleftrightarrow>
     extended (pj_runs j) (pj_runs k) \<and> extended (pj_fills j) (pj_fills k)
   \<and> extended (pj_decisions j) (pj_decisions k) \<and> extended (pj_evaluations j) (pj_evaluations k)
   \<and> extended (pj_commands j) (pj_commands k) \<and> extended (pj_accounts j) (pj_accounts k)
   \<and> extended (pj_features j) (pj_features k) \<and> extended (pj_markouts j) (pj_markouts k)
   \<and> extended (pj_drift j) (pj_drift k) \<and> extended (pj_events j) (pj_events k)
   \<and> extended (map (\<lambda>r. (po_paper_order_id (jo_order r), jo_run_id r, jo_intent_id r)) (pj_orders j))
              (map (\<lambda>r. (po_paper_order_id (jo_order r), jo_run_id r, jo_intent_id r)) (pj_orders k))"

lemma history_kept_refl [simp]: "history_kept j j"
  by (simp add: history_kept_def)

lemma history_kept_trans: "history_kept i j \<Longrightarrow> history_kept j k \<Longrightarrow> history_kept i k"
  by (auto simp: history_kept_def intro: extended_trans)

text \<open>A change a call may make: the tables stay in order and the histories grow.\<close>

definition sound_write :: "('v paper_journal \<Rightarrow> 'v paper_journal res) \<Rightarrow> bool" where
  "sound_write f \<longleftrightarrow> (\<forall>j k. tables_ok j \<longrightarrow> f j = Inr k \<longrightarrow> tables_ok k \<and> history_kept j k)"

lemma sound_writeI: "(\<And>j k. tables_ok j \<Longrightarrow> f j = Inr k \<Longrightarrow> tables_ok k \<and> history_kept j k) \<Longrightarrow> sound_write f"
  by (simp add: sound_write_def)

lemma sound_write_bind:
  assumes "sound_write f" "sound_write g"
  shows "sound_write (\<lambda>j. bindE (f j) g)"
proof (rule sound_writeI)
  fix j k
  assume j: "tables_ok j" and "bindE (f j) g = Inr k"
  then obtain i where i: "f j = Inr i" "g i = Inr k" by (auto simp: bindE_eq_Inr_iff)
  from assms(1) j i(1) have 1: "tables_ok i" "history_kept j i" by (auto simp: sound_write_def)
  from assms(2) 1(1) i(2) have "tables_ok k" "history_kept i k" by (auto simp: sound_write_def)
  with 1 show "tables_ok k \<and> history_kept j k" using history_kept_trans by blast
qed

lemma sound_write_insert_each: "(\<And>x. sound_write (f x)) \<Longrightarrow> sound_write (insert_each f xs)"
proof (induction xs)
  case (Cons x xs)
  then show ?case using sound_write_bind [of "f x" "insert_each f xs"] by (simp add: fun_eq_iff)
qed (simp add: sound_write_def)

lemma sound_in_transaction:
  assumes "sound_write f" "tables_ok j"
  shows "tables_ok (fst (in_transaction f j)) \<and> history_kept j (fst (in_transaction f j))"
  using assms
  by (cases "f j") (auto simp: in_transaction_def transact_def sound_write_def)

lemma known_run_cong: "pj_runs k = pj_runs j \<Longrightarrow> known_run run k = known_run run j"
  by (simp add: known_run_def)

text \<open>An insertion leaves the runs as they are, so the references of the other tables stand.\<close>

named_theorems writes \<open>insertions are sound\<close>

lemmas insert_simps =
  insert_row_def guardE_eq_Inr_iff table_defs history_kept_def list_ex_iff

lemma known_run_simps [simp]:
  "known_run r (j\<lparr>pj_orders := a\<rparr>) = known_run r j" "known_run r (j\<lparr>pj_fills := b\<rparr>) = known_run r j"
  "known_run r (j\<lparr>pj_decisions := c\<rparr>) = known_run r j" "known_run r (j\<lparr>pj_evaluations := d\<rparr>) = known_run r j"
  "known_run r (j\<lparr>pj_commands := e\<rparr>) = known_run r j" "known_run r (j\<lparr>pj_accounts := f\<rparr>) = known_run r j"
  "known_run r (j\<lparr>pj_features := g\<rparr>) = known_run r j" "known_run r (j\<lparr>pj_markouts := h\<rparr>) = known_run r j"
  "known_run r (j\<lparr>pj_checkpoints := i\<rparr>) = known_run r j" "known_run r (j\<lparr>pj_structures := k\<rparr>) = known_run r j"
  "known_run r (j\<lparr>pj_drift := l\<rparr>) = known_run r j" "known_run r (j\<lparr>pj_drills := m\<rparr>) = known_run r j"
  "known_run r (j\<lparr>pj_events := n\<rparr>) = known_run r j"
  by (simp_all add: known_run_def)

lemma insert_account_sound [writes]: "sound_write (insert_account run a)"
  by (rule sound_writeI) (clarsimp simp: insert_account_def insert_simps)

lemma insert_command_sound [writes]: "sound_write (insert_command run c)"
  by (rule sound_writeI) (clarsimp simp: insert_command_def insert_simps)

lemma insert_fill_sound [writes]: "sound_write (insert_fill run f)"
  by (rule sound_writeI) (clarsimp simp: insert_fill_def insert_simps)

lemma insert_decision_sound [writes]: "sound_write (insert_decision run d)"
  by (rule sound_writeI) (clarsimp simp: insert_decision_def insert_simps)

lemma insert_evaluation_sound [writes]: "sound_write (insert_evaluation run x)"
  by (rule sound_writeI) (clarsimp simp: insert_evaluation_def insert_simps)

lemma insert_feature_sound [writes]: "sound_write (insert_feature vector run f)"
  by (rule sound_writeI) (clarsimp simp: insert_feature_def insert_simps)

lemma insert_markout_sound [writes]: "sound_write (insert_markout run m)"
  by (rule sound_writeI) (clarsimp simp: insert_markout_def insert_simps)

lemma insert_drift_sound [writes]: "sound_write (insert_drift run d)"
  by (rule sound_writeI) (clarsimp simp: insert_drift_def insert_simps)

lemma upsert_checkpoint_sound [writes]: "sound_write (upsert_checkpoint c)"
  by (rule sound_writeI) (clarsimp simp: upsert_checkpoint_def insert_simps keyed_filter)

lemma upsert_order_sound [writes]: "sound_write (upsert_order run p)"
proof (rule sound_writeI)
  fix j k :: "'a paper_journal"
  assume j: "tables_ok j" and k: "upsert_order run p j = Inr k"
  let ?upd = "\<lambda>r. if po_paper_order_id (jo_order r) = po_paper_order_id p then r\<lparr>jo_order := p\<rparr> else r"
  have keep: "map (\<lambda>r. (po_paper_order_id (jo_order r), jo_run_id r, jo_intent_id r)) (map ?upd rs)
                = map (\<lambda>r. (po_paper_order_id (jo_order r), jo_run_id r, jo_intent_id r)) rs"
    "map (\<lambda>r. po_paper_order_id (jo_order r)) (map ?upd rs) = map (\<lambda>r. po_paper_order_id (jo_order r)) rs"
    "map (\<lambda>r. (jo_run_id r, jo_intent_id r)) (map ?upd rs) = map (\<lambda>r. (jo_run_id r, jo_intent_id r)) rs" for rs
    by (induction rs) simp_all
  show "tables_ok k \<and> history_kept j k"
  proof (cases "list_ex (\<lambda>r. po_paper_order_id (jo_order r) = po_paper_order_id p) (pj_orders j)")
    case True
    then have "k = j\<lparr>pj_orders := map ?upd (pj_orders j)\<rparr>" using k by (simp add: upsert_order_def)
    then show ?thesis using j by (auto simp: table_defs history_kept_def keyed_def keep simp del: map_map)
  next
    case False
    with k have "upsert_order run p j = insert_row (order_taken run p j) run j
        (j\<lparr>pj_orders := pj_orders j @
           [\<lparr>jo_run_id = run, jo_intent_id = oi_intent_id (po_intent p), jo_order = p\<rparr>]\<rparr>)"
      by (simp add: upsert_order_def)
    with False k j show ?thesis by (clarsimp simp: order_taken_def insert_simps)
  qed
qed

section \<open>Every call\<close>

lemma write_journal_sound:
  assumes "tables_ok j"
  shows "tables_ok (write_journal sha vector j w) \<and> history_kept j (write_journal sha vector j w)"
proof (cases w)
  case (Begin_Run m a)
  show ?thesis
  proof (cases "begin_transaction sha m a j")
    case (Inl e)
    then show ?thesis using assms Begin_Run by (simp add: begin_run_def transact_def)
  next
    case (Inr kb)
    obtain k b where kb: "kb = (k, b)" by (cases kb)
    show ?thesis
    proof (cases "find (\<lambda>r. rm_run_id (ru_manifest r) = rm_run_id m) (pj_runs j)")
      case None
      define j1 where "j1 = j\<lparr>pj_runs := pj_runs j @ [\<lparr>ru_manifest_sha256 = sha m, ru_manifest = m\<rparr>]\<rparr>"
      have more: "known_run r j1" if "known_run r j" for r using that by (auto simp: j1_def known_run_def)
      have "tables_ok j1" using assms None more by (auto simp: j1_def table_defs find_None_iff)
      moreover have "history_kept j j1" by (simp add: j1_def history_kept_def)
      moreover have "insert_account (rm_run_id m) a j1 = Inr k"
        using Inr kb None by (simp add: begin_transaction_def j1_def bindE_eq_Inr_iff)
      ultimately have "tables_ok k \<and> history_kept j k"
        using insert_account_sound unfolding sound_write_def by (blast intro: history_kept_trans)
      then show ?thesis using Inr kb Begin_Run by (simp add: begin_run_def transact_def)
    next
      case (Some r)
      then have "k = j" using Inr kb by (auto simp: begin_transaction_def guardE_eq_Inr_iff)
      then show ?thesis using assms Inr kb Begin_Run by (simp add: begin_run_def transact_def)
    qed
  qed
next
  case (Record_Cycle run os fs a cs)
  have "sound_write (\<lambda>j. bindE (cycle_rows run os fs cs j) (insert_account run a))"
    unfolding cycle_rows_def by (intro sound_write_bind sound_write_insert_each writes)
  from sound_in_transaction [OF this assms] show ?thesis using assms Record_Cycle by (simp add: record_cycle_def)
next
  case (Record_Engine_Cycle run e)
  have "sound_write (\<lambda>j. bindE (cycle_rows run (er_orders e) (er_fills e) (er_commands e) j) (\<lambda>j.
     bindE (evidence_rows vector run e j) (\<lambda>j.
     bindE (insert_account run (er_account e) j) (\<lambda>j.
     bindE (upsert_checkpoint (er_checkpoint e) j) (\<lambda>j.
       insert_each (insert_drift run) (opt_list (er_drift_report e)) j)))))"
    unfolding cycle_rows_def evidence_rows_def by (intro sound_write_bind sound_write_insert_each writes)
  from sound_in_transaction [OF this assms] show ?thesis using assms Record_Engine_Cycle by (simp add: record_engine_cycle_def)
next
  case (Record_Structure run s)
  have "sound_write (\<lambda>j. insert_row False run j
        (j\<lparr>pj_structures := filter (\<lambda>e. en_run_id e \<noteq> run) (pj_structures j)
             @ [\<lparr>en_run_id = run, en_value = s\<rparr>]\<rparr>))" for s :: structure_state
    by (rule sound_writeI) (clarsimp simp: insert_simps keyed_filter)
  from sound_in_transaction [OF this assms] show ?thesis using assms Record_Structure by (simp add: record_structure_state_def)
next
  case (Record_Drill run drill ts x)
  have "sound_write (\<lambda>j. insert_row False run j
        (j\<lparr>pj_drills := filter (\<lambda>e. \<not> (en_run_id e = run \<and> dl_drill (en_value e) = drill)) (pj_drills j)
             @ [\<lparr>en_run_id = run,
                 en_value = \<lparr>dl_drill = drill, dl_completed_ts_ns = ts, dl_evidence = x\<rparr>\<rparr>]\<rparr>))"
    by (rule sound_writeI) (clarsimp simp: insert_simps keyed_filter)
  from sound_in_transaction [OF this assms] show ?thesis using assms Record_Drill by (simp add: record_drill_def)
next
  case (Record_Event run ts kind detail)
  have "sound_write (\<lambda>j. insert_row False run j
        (j\<lparr>pj_events := pj_events j @ [\<lparr>en_run_id = run,
             en_value = \<lparr>ev_event_ts_ns = ts, ev_kind = kind, ev_detail = detail\<rparr>\<rparr>]\<rparr>))"
    by (rule sound_writeI) (clarsimp simp: insert_simps)
  from sound_in_transaction [OF this assms] show ?thesis using assms Record_Event by (simp add: record_event_def)
qed (use sound_in_transaction [OF _ assms] in \<open>simp_all add: record_decision_def record_feature_def record_markout_def
       record_checkpoint_def writes\<close>)

interpretation pj: step_system "write_journal sha vector" tables_ok history_kept for sha vector
proof unfold_locales
  show "history_kept s t \<Longrightarrow> history_kept t u \<Longrightarrow> history_kept s u" for s t u :: "'a paper_journal"
    by (rule history_kept_trans)
qed (simp_all add: write_journal_sound)

lemma new_journal_tables: "tables_ok new_paper_journal"
  by (simp add: table_defs new_paper_journal_def)


section \<open>The property\<close>

text \<open>C14: The paper journal is always consistent: whatever is written in whatever order and whichever writes fail, run,
  order, fill, decision, evaluation, command and markout identities stay unique (commands and evaluations also by
  run and sequence, markouts by fill and horizon, orders also by run and intent), every row belongs to a run that
  was begun, every markout to a recorded fill, checkpoints, structures and drills have one row per key, and no later
  write ever changes or removes a recorded fill, decision, evaluation, command, account, feature, markout, drift
  report or event, or the identity, run and intent of a recorded order.\<close>

theorem paper_journal_always_consistent:
  "tables_ok (foldl (write_journal sha vector) new_paper_journal xs)
   \<and> history_kept (foldl (write_journal sha vector) new_paper_journal xs)
       (foldl (write_journal sha vector) new_paper_journal (xs @ ys))"
  using pj.run_inv [OF new_journal_tables] pj.run_rel_suffix [OF new_journal_tables] by blast


end
