(* ===== verification/Paper_Evidence.thy ===== *)
theory Paper_Evidence
  imports Paper_Journal
begin

text \<open>
  The promotion evidence of \<open>paper/evidence.py\<close> with its records of \<open>paper/models.py\<close>: the gates over the
  journal's statistics, the report, its identity and its verdict. The hash of a report's identity, the
  hashes of scenarios, policies and manifests and the printing of decimals are arguments.
\<close>

section \<open>Reports\<close>

record gate_result =
  gr_gate :: string
  gr_passed :: bool
  gr_actual :: string
  gr_required :: string

definition gate_result_error :: "gate_result \<Rightarrow> string option" where
  "gate_result_error g = first_error [(\<not> is_slug (gr_gate g), ''gate'')]"

text \<open>The mapping whose hash is the identity of a report.\<close>

record report_identity =
  ri_run_id :: string
  ri_run_manifest_sha256 :: string
  ri_generated_ts_ns :: int
  ri_policy_sha256 :: string
  ri_scenario_sha256 :: string
  ri_observation_started_ts_ns :: int
  ri_observation_ended_ts_ns :: int
  ri_observation_ns :: int
  ri_independent_decisions :: int
  ri_approved_decisions :: int
  ri_denied_decisions :: int
  ri_fills :: int
  ri_markouts :: int
  ri_ending_position_base :: dec
  ri_open_orders :: int
  ri_regimes :: "volatility_regime list"
  ri_post_cost_pnl_usd :: dec
  ri_maximum_drawdown_fraction :: dec
  ri_mean_adverse_markout_bps :: dec
  ri_drift_evaluated :: bool
  ri_maximum_feature_psi :: dec
  ri_maximum_standardized_mean_shift :: dec
  ri_sensitivity_scenarios :: "string list"
  ri_completed_drills :: "string list"
  ri_invalidating_events :: "string list"
  ri_gates :: "gate_result list"

text \<open>The report: the fields of its identity and those the identity leaves out.\<close>

record evidence_report =
  rp_report_id :: string
  rp_identity :: report_identity
  rp_policy_id :: string
  rp_code_identity :: string
  rp_config_fingerprint :: string
  rp_feature_config_sha256 :: string
  rp_strategy_config_sha256 :: string
  rp_strategy_id :: string
  rp_scenario_id :: string
  rp_calibrated :: bool
  rp_promotion_eligible :: bool

definition identity_field_error :: "report_identity \<Rightarrow> string option" where
  "identity_field_error i = first_error
     ([(\<not> is_slug (ri_run_id i), ''run_id''),
       (\<not> list_all is_sha256_hex [ri_run_manifest_sha256 i, ri_policy_sha256 i, ri_scenario_sha256 i], ''sha256'')]
      @ map (\<lambda>n. (n < 0, ''ge=0''))
          [ri_generated_ts_ns i, ri_observation_started_ts_ns i, ri_observation_ended_ts_ns i, ri_observation_ns i,
           ri_independent_decisions i, ri_approved_decisions i, ri_denied_decisions i, ri_fills i, ri_markouts i,
           ri_open_orders i]
      @ [(\<not> (0 \<le> ri_maximum_drawdown_fraction i \<and> ri_maximum_drawdown_fraction i \<le> 1), ''maximum_drawdown_fraction''),
         (ri_maximum_feature_psi i < 0 \<or> ri_maximum_standardized_mean_shift i < 0, ''ge=0''),
         (\<not> list_all is_slug (ri_sensitivity_scenarios i), ''sensitivity_scenarios''),
         (\<not> list_all is_slug (ri_completed_drills i), ''completed_drills''),
         (\<not> list_all is_slug (ri_invalidating_events i), ''invalidating_events''),
         (list_ex (\<lambda>g. gate_result_error g \<noteq> None) (ri_gates i), ''gates'')])"

definition evidence_report_error :: "(report_identity \<Rightarrow> string) \<Rightarrow> evidence_report \<Rightarrow> string option" where
  "evidence_report_error identity_sha256 r =
     (let i = rp_identity r
      in case identity_field_error i of
           Some m \<Rightarrow> Some m
         | None \<Rightarrow> first_error
             [(\<not> list_all is_sha256_hex
                 [rp_report_id r, rp_config_fingerprint r, rp_feature_config_sha256 r, rp_strategy_config_sha256 r], ''sha256''),
              (\<not> list_all is_slug [rp_policy_id r, rp_strategy_id r, rp_scenario_id r], ''identifier''),
              (\<not> is_identifier (rp_code_identity r), ''code_identity''),
              (ri_observation_ended_ts_ns i < ri_observation_started_ts_ns i,
               ''paper evidence observation window is reversed''),
              (ri_observation_ended_ts_ns i - ri_observation_started_ts_ns i \<noteq> ri_observation_ns i,
               ''paper evidence observation duration does not match its window''),
              (identity_sha256 i \<noteq> rp_report_id r,
               ''paper evidence report identity does not match its contents''),
              (rp_promotion_eligible r \<noteq> list_all gr_passed (ri_gates i),
               ''paper promotion verdict does not match its gates'')])"

section \<open>Evaluation\<close>

record evidence_env =
  ye_identity_sha256 :: "report_identity \<Rightarrow> string"
  ye_scenario_sha256 :: "execution_scenario \<Rightarrow> string"
  ye_policy_sha256 :: "evidence_policy \<Rightarrow> string"
  ye_manifest_sha256 :: "run_manifest \<Rightarrow> string"
  ye_decimal :: "dec \<Rightarrow> string"

definition immutable_code_identity :: "string \<Rightarrow> bool" where
  "immutable_code_identity s \<longleftrightarrow>
     length s = 40 \<and> list_all lower_hex s \<or> take 7 s = ''sha256:'' \<and> is_sha256_hex (drop 7 s)"

definition gate :: "string \<Rightarrow> bool \<Rightarrow> string \<Rightarrow> string \<Rightarrow> gate_result" where
  "gate name passed actual required =
     \<lparr>gr_gate = name, gr_passed = passed, gr_actual = actual, gr_required = required\<rparr>"

definition int_gate :: "string \<Rightarrow> bool \<Rightarrow> int \<Rightarrow> int \<Rightarrow> gate_result" where
  "int_gate name passed actual required = gate name passed (py_str actual) (py_str required)"

definition calibration_value :: "bool \<Rightarrow> string" where
  "calibration_value calibrated = (if calibrated then ''calibrated'' else ''uncalibrated'')"

definition bool_text :: "bool \<Rightarrow> string" where
  "bool_text b = (if b then ''True'' else ''False'')"

definition joined :: "string \<Rightarrow> string list \<Rightarrow> string" where
  "joined none xs = (if comma_join xs = [] then none else comma_join xs)"

definition denial_fraction :: "journal_statistics \<Rightarrow> dec" where
  "denial_fraction t =
     (let decisions = st_approved_decisions t + st_denied_decisions t
      in if decisions \<noteq> 0 then ddiv (of_int (st_denied_decisions t)) (of_int decisions) else 0)"

definition post_cost_pnl :: "journal_statistics \<Rightarrow> dec" where
  "post_cost_pnl t = dsub (st_ending_equity_usd t) (st_starting_equity_usd t)"

definition mean_adverse_markout :: "journal_statistics \<Rightarrow> dec" where
  "mean_adverse_markout t = max 0 (dneg (st_mean_signed_markout_bps t))"

definition observation_ns :: "journal_statistics \<Rightarrow> int" where
  "observation_ns t = max 0 (st_ended_ts_ns t - st_started_ts_ns t)"

text \<open>The dict of the loaded scenarios, and the reports that count as sensitivity evidence.\<close>

definition expected_scenarios :: "evidence_env \<Rightarrow> execution_scenario list \<Rightarrow> (string \<times> string) list" where
  "expected_scenarios v scenarios = rev (map (\<lambda>s. (es_scenario_id s, ye_scenario_sha256 v s)) scenarios)"

definition valid_sensitivity ::
  "evidence_env \<Rightarrow> run_manifest \<Rightarrow> journal_statistics \<Rightarrow> evidence_policy \<Rightarrow> execution_scenario list
     \<Rightarrow> evidence_report \<Rightarrow> bool" where
  "valid_sensitivity v m t p scenarios r \<longleftrightarrow>
     rp_code_identity r = rm_code_identity m \<and> rp_feature_config_sha256 r = rm_feature_config_sha256 m
   \<and> rp_strategy_config_sha256 r = rm_strategy_config_sha256 m \<and> rp_strategy_id r = rm_strategy_id m
   \<and> ri_policy_sha256 (rp_identity r) = ye_policy_sha256 v p
   \<and> rp_scenario_id r \<noteq> rm_scenario_id m
   \<and> map_of (expected_scenarios v scenarios) (rp_scenario_id r) = Some (ri_scenario_sha256 (rp_identity r))
   \<and> ri_observation_started_ts_ns (rp_identity r) = st_started_ts_ns t
   \<and> ri_observation_ended_ts_ns (rp_identity r) = st_ended_ts_ns t
   \<and> list_all (\<lambda>g. gr_gate g = ''sensitivity_scenarios'' \<or> gr_passed g) (ri_gates (rp_identity r))"

definition sensitivity_ids ::
  "evidence_env \<Rightarrow> run_manifest \<Rightarrow> journal_statistics \<Rightarrow> evidence_policy \<Rightarrow> execution_scenario list
     \<Rightarrow> evidence_report list \<Rightarrow> string list" where
  "sensitivity_ids v m t p scenarios reports =
     sort (remdups (map rp_scenario_id (filter (valid_sensitivity v m t p scenarios) reports)))"

definition run_gates ::
  "evidence_env \<Rightarrow> run_manifest \<Rightarrow> execution_scenario \<Rightarrow> evidence_policy \<Rightarrow> journal_statistics \<Rightarrow> gate_result list" where
  "run_gates v m sc p t =
     [gate ''immutable_code_identity'' (immutable_code_identity (rm_code_identity m)) (rm_code_identity m)
        ''40-character Git SHA or sha256:<64 hex>'',
      gate ''calibrated_fill_model'' (es_calibrated sc) (calibration_value (es_calibrated sc)) (calibration_value True),
      int_gate ''observation_window'' (py_minimum_observation_ns p \<le> observation_ns t)
        (observation_ns t) (py_minimum_observation_ns p),
      int_gate ''independent_decisions'' (py_minimum_independent_decisions p \<le> st_independent_decisions t)
        (st_independent_decisions t) (py_minimum_independent_decisions p),
      int_gate ''fills'' (py_minimum_fills p \<le> st_fills t) (st_fills t) (py_minimum_fills p),
      int_gate ''markout_coverage'' (st_markouts t = st_fills t) (st_markouts t) (st_fills t),
      gate ''flat_final_state'' (st_ending_position_base t = 0 \<and> st_open_orders t = 0)
        (''position='' @ ye_decimal v (st_ending_position_base t) @ '',open_orders='' @ py_str (st_open_orders t))
        ''position=0,open_orders=0'',
      int_gate ''regime_coverage'' (py_minimum_regimes p \<le> int (length (st_regimes t)))
        (int (length (st_regimes t))) (py_minimum_regimes p)]"

definition performance_gates :: "evidence_env \<Rightarrow> evidence_policy \<Rightarrow> journal_statistics \<Rightarrow> gate_result list" where
  "performance_gates v p t =
     [gate ''post_cost_pnl'' (\<not> py_require_positive_post_cost_pnl p \<or> 0 < post_cost_pnl t)
        (ye_decimal v (post_cost_pnl t)) (if py_require_positive_post_cost_pnl p then ''> 0'' else ''not gated''),
      gate ''maximum_drawdown'' (st_maximum_drawdown_fraction t \<le> py_maximum_drawdown_fraction p)
        (ye_decimal v (st_maximum_drawdown_fraction t)) (ye_decimal v (py_maximum_drawdown_fraction p)),
      gate ''risk_denial_fraction'' (denial_fraction t \<le> py_maximum_denial_fraction p)
        (ye_decimal v (denial_fraction t)) (ye_decimal v (py_maximum_denial_fraction p)),
      gate ''adverse_markout'' (mean_adverse_markout t \<le> py_maximum_adverse_markout_bps p)
        (ye_decimal v (mean_adverse_markout t)) (ye_decimal v (py_maximum_adverse_markout_bps p)),
      gate ''drift_evaluated'' (st_drift_evaluated t) (bool_text (st_drift_evaluated t)) (bool_text True),
      gate ''feature_psi'' (st_drift_evaluated t \<and> st_maximum_feature_psi t \<le> py_maximum_feature_psi p)
        (ye_decimal v (st_maximum_feature_psi t)) (ye_decimal v (py_maximum_feature_psi p)),
      gate ''feature_mean_shift''
        (st_drift_evaluated t \<and> st_maximum_standardized_mean_shift t \<le> py_maximum_standardized_mean_shift p)
        (ye_decimal v (st_maximum_standardized_mean_shift t)) (ye_decimal v (py_maximum_standardized_mean_shift p))]"

definition operational_gates :: "evidence_policy \<Rightarrow> journal_statistics \<Rightarrow> string list \<Rightarrow> gate_result list" where
  "operational_gates p t ids =
     [gate ''sensitivity_scenarios'' (set (py_required_sensitivity_scenarios p) \<subseteq> set ids)
        (joined ''none'' ids) (comma_join (py_required_sensitivity_scenarios p)),
      gate ''operational_drills'' (set (py_required_drills p) \<subseteq> set (st_completed_drills t))
        (joined ''none'' (sort (st_completed_drills t))) (comma_join (py_required_drills p)),
      gate ''run_integrity'' (st_invalidating_events t = []) (joined ''clean'' (st_invalidating_events t)) ''clean'']"

definition evidence_identity ::
  "evidence_env \<Rightarrow> run_manifest \<Rightarrow> journal_statistics \<Rightarrow> execution_scenario \<Rightarrow> evidence_policy \<Rightarrow> string list
     \<Rightarrow> gate_result list \<Rightarrow> int \<Rightarrow> report_identity" where
  "evidence_identity v m t sc p ids gates generated =
     \<lparr>ri_run_id = rm_run_id m, ri_run_manifest_sha256 = ye_manifest_sha256 v m, ri_generated_ts_ns = generated,
      ri_policy_sha256 = ye_policy_sha256 v p, ri_scenario_sha256 = ye_scenario_sha256 v sc,
      ri_observation_started_ts_ns = st_started_ts_ns t, ri_observation_ended_ts_ns = st_ended_ts_ns t,
      ri_observation_ns = observation_ns t, ri_independent_decisions = st_independent_decisions t,
      ri_approved_decisions = st_approved_decisions t, ri_denied_decisions = st_denied_decisions t,
      ri_fills = st_fills t, ri_markouts = st_markouts t, ri_ending_position_base = st_ending_position_base t,
      ri_open_orders = st_open_orders t, ri_regimes = st_regimes t, ri_post_cost_pnl_usd = post_cost_pnl t,
      ri_maximum_drawdown_fraction = st_maximum_drawdown_fraction t,
      ri_mean_adverse_markout_bps = mean_adverse_markout t, ri_drift_evaluated = st_drift_evaluated t,
      ri_maximum_feature_psi = st_maximum_feature_psi t,
      ri_maximum_standardized_mean_shift = st_maximum_standardized_mean_shift t,
      ri_sensitivity_scenarios = ids, ri_completed_drills = sort (st_completed_drills t),
      ri_invalidating_events = st_invalidating_events t, ri_gates = gates\<rparr>"

definition evidence_gates ::
  "evidence_env \<Rightarrow> run_manifest \<Rightarrow> journal_statistics \<Rightarrow> execution_scenario \<Rightarrow> evidence_policy \<Rightarrow> string list
     \<Rightarrow> gate_result list" where
  "evidence_gates v m t sc p ids = run_gates v m sc p t @ performance_gates v p t @ operational_gates p t ids"

definition evaluate_paper_evidence ::
  "evidence_env \<Rightarrow> run_manifest \<Rightarrow> journal_statistics \<Rightarrow> execution_scenario \<Rightarrow> evidence_policy
     \<Rightarrow> execution_scenario list \<Rightarrow> evidence_report list \<Rightarrow> int \<Rightarrow> evidence_report res" where
  "evaluate_paper_evidence v m t sc p scenarios reports generated =
     guardE (rm_scenario_sha256 m \<noteq> ye_scenario_sha256 v sc)
       (ValueError ''paper run manifest does not match execution scenario'')
    (guardE (set (py_required_sensitivity_scenarios p) \<noteq> set (map es_scenario_id scenarios))
       (ValueError ''paper policy and loaded sensitivity scenarios do not match exactly'')
      (let ids = sensitivity_ids v m t p scenarios reports;
           gates = evidence_gates v m t sc p ids;
           i = evidence_identity v m t sc p ids gates generated
       in checked (evidence_report_error (ye_identity_sha256 v))
            \<lparr>rp_report_id = ye_identity_sha256 v i, rp_identity = i, rp_policy_id = py_policy_id p,
             rp_code_identity = rm_code_identity m, rp_config_fingerprint = rm_config_fingerprint m,
             rp_feature_config_sha256 = rm_feature_config_sha256 m,
             rp_strategy_config_sha256 = rm_strategy_config_sha256 m, rp_strategy_id = rm_strategy_id m,
             rp_scenario_id = es_scenario_id sc, rp_calibrated = es_calibrated sc,
             rp_promotion_eligible = list_all gr_passed gates\<rparr>))"

section \<open>What an eligible report rests on\<close>

lemma evaluate_Inr:
  assumes "evaluate_paper_evidence v m t sc p scenarios reports generated = Inr r"
  shows "rm_scenario_sha256 m = ye_scenario_sha256 v sc"
    "rp_promotion_eligible r = list_all gr_passed
       (evidence_gates v m t sc p (sensitivity_ids v m t p scenarios reports))"
    "ri_gates (rp_identity r) = evidence_gates v m t sc p (sensitivity_ids v m t p scenarios reports)"
    "evidence_report_error (ye_identity_sha256 v) r = None"
  using assms
  by (auto simp: evaluate_paper_evidence_def guardE_eq_Inr_iff checked_eq_Inr_iff Let_def evidence_identity_def)

lemma gates_passed:
  "list_all gr_passed (evidence_gates v m t sc p ids) \<longleftrightarrow>
     immutable_code_identity (rm_code_identity m) \<and> es_calibrated sc
   \<and> py_minimum_observation_ns p \<le> observation_ns t
   \<and> py_minimum_independent_decisions p \<le> st_independent_decisions t
   \<and> py_minimum_fills p \<le> st_fills t \<and> st_markouts t = st_fills t
   \<and> st_ending_position_base t = 0 \<and> st_open_orders t = 0
   \<and> py_minimum_regimes p \<le> int (length (st_regimes t))
   \<and> (py_require_positive_post_cost_pnl p \<longrightarrow> 0 < post_cost_pnl t)
   \<and> st_maximum_drawdown_fraction t \<le> py_maximum_drawdown_fraction p
   \<and> denial_fraction t \<le> py_maximum_denial_fraction p
   \<and> mean_adverse_markout t \<le> py_maximum_adverse_markout_bps p
   \<and> st_drift_evaluated t \<and> st_maximum_feature_psi t \<le> py_maximum_feature_psi p
   \<and> st_maximum_standardized_mean_shift t \<le> py_maximum_standardized_mean_shift p
   \<and> set (py_required_sensitivity_scenarios p) \<subseteq> set ids
   \<and> set (py_required_drills p) \<subseteq> set (st_completed_drills t) \<and> st_invalidating_events t = []"
  by (auto simp: evidence_gates_def run_gates_def performance_gates_def operational_gates_def gate_def int_gate_def)

text \<open>The journal behind the statistics.\<close>

lemma statistics_Inr:
  assumes "statistics run j = Inr t"
  shows "st_open_orders t = int (length (open_orders_of run j))"
    "st_ending_position_base t = pa_position_base (last (rows_of run (pj_accounts j)))"
    "rows_of run (pj_accounts j) \<noteq> []"
    "st_fills t = int (length (rows_of run (pj_fills j)))" "st_markouts t = int (length (rows_of run (pj_markouts j)))"
    "set (st_completed_drills t) = dl_drill ` set (rows_of run (pj_drills j))"
    "st_invalidating_events t = filter (\<lambda>k. list_ex (\<lambda>e. ev_kind e = k) (rows_of run (pj_events j))) INVALIDATING_EVENT_KINDS"
    "st_maximum_drawdown_fraction t = py_max_else 0 (account_drawdowns (rows_of run (pj_accounts j)))"
    "st_drift_evaluated t = (rows_of run (pj_drift j) \<noteq> [])"
    "st_maximum_feature_psi t = py_max_else 0 (map df_maximum_psi (rows_of run (pj_drift j)))"
  using assms
  by (auto simp: statistics_def Let_def guardE_eq_Inr_iff bindE_eq_Inr_iff statistics_of_def split: option.splits)

lemma py_max_else_ge: "x \<in> set xs \<Longrightarrow> x \<le> py_max_else d xs" for x :: "'a :: linorder"
  by (cases xs) (auto simp: py_max_else_def foldl_max_ge)

text \<open>C8: A promotion verdict rests on the journal. When a report made from a run's journal is eligible, the run has no open
  order and is flat, every required drill is recorded, no funding gap, replay exclusion or service
  failure is; no account snapshot, not only the last, exceeds the policy's drawdown, no drift report its stability
  index; there are the fills the policy asks for and as many markouts; code identity and scenario are
  immutable and calibrated; and for every required sensitivity scenario a report of the same code,
  features, strategy, policy and observation window has passed all its other gates.\<close>

theorem promotion_rests_on_journal:
  assumes "statistics run j = Inr t" "evaluate_paper_evidence v m t sc p scenarios reports generated = Inr r"
    "rp_promotion_eligible r"
  shows "open_orders_of run j = [] \<and> pa_position_base (last (rows_of run (pj_accounts j))) = 0
    \<and> (\<forall>d \<in> set (py_required_drills p). \<exists>row \<in> set (rows_of run (pj_drills j)). dl_drill row = d)
    \<and> (\<forall>e \<in> set (rows_of run (pj_events j)). ev_kind e \<notin> set INVALIDATING_EVENT_KINDS)
    \<and> (\<forall>a \<in> set (rows_of run (pj_accounts j)). 0 < pa_high_water_equity_usd a \<longrightarrow>
         ddiv (dsub (pa_high_water_equity_usd a) (pa_equity_usd a)) (pa_high_water_equity_usd a) \<le> py_maximum_drawdown_fraction p)
    \<and> rows_of run (pj_drift j) \<noteq> []
    \<and> (\<forall>d \<in> set (rows_of run (pj_drift j)). df_maximum_psi d \<le> py_maximum_feature_psi p)
    \<and> py_minimum_fills p \<le> int (length (rows_of run (pj_fills j)))
    \<and> length (rows_of run (pj_markouts j)) = length (rows_of run (pj_fills j))
    \<and> immutable_code_identity (rm_code_identity m) \<and> es_calibrated sc \<and> rm_scenario_sha256 m = ye_scenario_sha256 v sc
    \<and> (\<forall>i \<in> set (py_required_sensitivity_scenarios p).
         \<exists>s \<in> set reports. rp_scenario_id s = i \<and> valid_sensitivity v m t p scenarios s)"
proof -
  note t = statistics_Inr [OF assms(1)] and e = evaluate_Inr [OF assms(2)]
  have g: "list_all gr_passed (evidence_gates v m t sc p (sensitivity_ids v m t p scenarios reports))" using e(2) assms(3) by simp
  note g = g [unfolded gates_passed]
  have "ddiv (dsub (pa_high_water_equity_usd a) (pa_equity_usd a)) (pa_high_water_equity_usd a) \<le> py_maximum_drawdown_fraction p"
    if "a \<in> set (rows_of run (pj_accounts j))" "0 < pa_high_water_equity_usd a" for a
  proof -
    let ?d = "max 0 (ddiv (dsub (pa_high_water_equity_usd a) (pa_equity_usd a)) (pa_high_water_equity_usd a))"
    have "?d \<in> set (account_drawdowns (rows_of run (pj_accounts j)))" using that by (auto simp: account_drawdowns_def)
    then have "?d \<le> st_maximum_drawdown_fraction t" unfolding t(8) by (rule py_max_else_ge)
    with g show ?thesis by simp
  qed
  moreover have "df_maximum_psi d \<le> py_maximum_feature_psi p" if "d \<in> set (rows_of run (pj_drift j))" for d
  proof -
    have "df_maximum_psi d \<le> st_maximum_feature_psi t" unfolding t(10) by (rule py_max_else_ge) (use that in simp)
    with g show ?thesis by simp
  qed
  moreover have "ev_kind e \<notin> set INVALIDATING_EVENT_KINDS" if "e \<in> set (rows_of run (pj_events j))" for e
    using g that unfolding t(7) by (auto simp: filter_empty_conv list_ex_iff)
  moreover have "\<exists>row \<in> set (rows_of run (pj_drills j)). dl_drill row = d" if "d \<in> set (py_required_drills p)" for d
    using g that unfolding t(6) by auto
  moreover have "\<exists>s \<in> set reports. rp_scenario_id s = i \<and> valid_sensitivity v m t p scenarios s"
    if "i \<in> set (py_required_sensitivity_scenarios p)" for i
    using g that by (auto simp: sensitivity_ids_def)
  ultimately show ?thesis using g t e(1) by auto
qed

section \<open>A concrete run\<close>

definition demo_hash :: string where
  "demo_hash = replicate 64 (CHR ''a'')"

definition demo_env :: evidence_env where
  "demo_env = \<lparr>ye_identity_sha256 = (\<lambda>_. demo_hash), ye_scenario_sha256 = (\<lambda>_. demo_hash), ye_policy_sha256 = (\<lambda>_. demo_hash),
     ye_manifest_sha256 = (\<lambda>_. demo_hash), ye_decimal = (\<lambda>_. ''0'')\<rparr>"

definition demo_scenario :: "string \<Rightarrow> execution_scenario" where
  "demo_scenario i = example_scenario\<lparr>es_scenario_id := i, es_calibrated := True, es_calibration_sha256 := Some demo_hash\<rparr>"

definition demo_evidence_policy :: evidence_policy where
  "demo_evidence_policy = \<lparr>py_policy_id = ''p1'', py_frozen_at_ns = 0, py_minimum_observation_ns = 1,
     py_minimum_independent_decisions = 0, py_decision_independence_ns = 1, py_minimum_fills = 1,
     py_minimum_regimes = 1, py_maximum_drawdown_fraction = 1 / 10, py_maximum_denial_fraction = 1 / 2,
     py_maximum_adverse_markout_bps = 5, py_drift_baseline_samples = 20, py_drift_window_samples = 20,
     py_drift_evaluation_interval_samples = 1, py_maximum_feature_psi = 1 / 5,
     py_maximum_standardized_mean_shift = 1, py_require_positive_post_cost_pnl = False,
     py_required_sensitivity_scenarios = [''low''], py_required_drills = [''restart'']\<rparr>"

definition demo_evidence_manifest :: run_manifest where
  "demo_evidence_manifest = \<lparr>rm_run_id = ''r1'', rm_environment = ''paper'', rm_started_ts_ns = 0,
     rm_code_identity = replicate 40 (CHR ''a''), rm_config_fingerprint = demo_hash, rm_feature_config_sha256 = demo_hash,
     rm_strategy_config_sha256 = demo_hash, rm_scenario_id = ''base'', rm_scenario_sha256 = demo_hash,
     rm_evidence_policy_sha256 = demo_hash, rm_strategy_id = ''s1'', rm_image_identity = None, rm_source_start_sequence = 0\<rparr>"

definition demo_fill :: paper_fill where
  "demo_fill = \<lparr>fl_fill_id = ''f1'', fl_paper_order_id = ''o1'', fl_intent_id = ''i1'', fl_strategy_id = ''s1'', fl_side = BUY,
     fl_quantity_base = 1, fl_price = 100, fl_fee_usd = 0, fl_maker = True, fl_fill_ts_ns = 5, fl_decision_latency_ns = 0,
     fl_scenario_id = ''base'', fl_scenario_sha256 = demo_hash\<rparr>"

definition demo_markout :: paper_markout where
  "demo_markout = \<lparr>mo_fill_id = ''f1'', mo_horizon_ns = 1, mo_observed_ts_ns = 6, mo_mark_price = 100, mo_signed_markout_bps = 0\<rparr>"

definition demo_evidence_journal :: "dec paper_journal" where
  "demo_evidence_journal = new_paper_journal\<lparr>
     pj_runs := [\<lparr>ru_manifest_sha256 = demo_hash, ru_manifest = demo_evidence_manifest\<rparr>],
     pj_fills := [\<lparr>en_run_id = ''r1'', en_value = demo_fill\<rparr>],
     pj_accounts := [\<lparr>en_run_id = ''r1'', en_value = (initial_account 1000 100 0)\<lparr>pa_updated_ts_ns := 10\<rparr>\<rparr>],
     pj_features := [\<lparr>en_run_id = ''r1'', en_value = \<lparr>fr_observed_ts_ns = 1, fr_regime = NORMAL_VOLATILITY, fr_ready = True, fr_vector = 0\<rparr>\<rparr>],
     pj_markouts := [\<lparr>en_run_id = ''r1'', en_value = demo_markout\<rparr>],
     pj_drift := [\<lparr>en_run_id = ''r1'', en_value = \<lparr>df_maximum_psi = 0, df_maximum_standardized_mean_shift = 0\<rparr>\<rparr>],
     pj_drills := [\<lparr>en_run_id = ''r1'', en_value = \<lparr>dl_drill = ''restart'', dl_completed_ts_ns = 9, dl_evidence = ''done''\<rparr>\<rparr>]\<rparr>"

definition demo_statistics :: journal_statistics where
  "demo_statistics = statistics_of ''r1'' demo_evidence_manifest
     [(initial_account 1000 100 0)\<lparr>pa_updated_ts_ns := 10\<rparr>] [demo_markout] demo_evidence_journal"

definition demo_sensitivity :: evidence_report where
  "demo_sensitivity = \<lparr>rp_report_id = demo_hash,
     rp_identity = evidence_identity demo_env demo_evidence_manifest demo_statistics (demo_scenario ''low'') demo_evidence_policy []
       (run_gates demo_env demo_evidence_manifest (demo_scenario ''low'') demo_evidence_policy demo_statistics) 20,
     rp_policy_id = ''p1'', rp_code_identity = replicate 40 (CHR ''a''), rp_config_fingerprint = demo_hash,
     rp_feature_config_sha256 = demo_hash, rp_strategy_config_sha256 = demo_hash, rp_strategy_id = ''s1'',
     rp_scenario_id = ''low'', rp_calibrated = True, rp_promotion_eligible = True\<rparr>"

lemma demo_statistics_value: "statistics ''r1'' demo_evidence_journal = Inr demo_statistics"
  by code_simp

lemma demo_report:
  "case evaluate_paper_evidence demo_env demo_evidence_manifest demo_statistics (demo_scenario ''base'') demo_evidence_policy
     [demo_scenario ''low''] [demo_sensitivity] 30 of Inl _ \<Rightarrow> False | Inr r \<Rightarrow> rp_promotion_eligible r"
  by code_simp

lemma promotion_rests_on_journal_witness:
  "open_orders_of ''r1'' demo_evidence_journal = [] \<and> length (rows_of ''r1'' (pj_fills demo_evidence_journal)) = 1
   \<and> list_ex (\<lambda>row. dl_drill row = ''restart'') (rows_of ''r1'' (pj_drills demo_evidence_journal))"
proof -
  obtain r where r: "evaluate_paper_evidence demo_env demo_evidence_manifest demo_statistics (demo_scenario ''base'')
      demo_evidence_policy [demo_scenario ''low''] [demo_sensitivity] 30 = Inr r" "rp_promotion_eligible r"
    using demo_report by (auto split: sum.splits)
  note p = promotion_rests_on_journal [OF demo_statistics_value r]
  have "''restart'' \<in> set (py_required_drills demo_evidence_policy)" by (simp add: demo_evidence_policy_def)
  then have "list_ex (\<lambda>row. dl_drill row = ''restart'') (rows_of ''r1'' (pj_drills demo_evidence_journal))"
    using conjunct1 [OF conjunct2 [OF conjunct2 [OF p]]] unfolding list_ex_iff by blast
  moreover have "length (rows_of ''r1'' (pj_fills demo_evidence_journal)) = 1" by (simp add: rows_of_def demo_evidence_journal_def)
  ultimately show ?thesis using conjunct1 [OF p] by simp
qed

text \<open>What the checks of a report do not ask: a report without any gate is valid with a positive verdict (a conjunction
  over nothing), and counts as sensitivity evidence wherever the report it was made from would count but for a
  failed gate.\<close>

lemma gateless_report_accepted:
  assumes "evidence_report_error h r = None" "is_sha256_hex (h ((rp_identity r)\<lparr>ri_gates := []\<rparr>))"
    and q: "q = r\<lparr>rp_report_id := h ((rp_identity r)\<lparr>ri_gates := []\<rparr>), rp_identity := (rp_identity r)\<lparr>ri_gates := []\<rparr>,
      rp_promotion_eligible := True\<rparr>"
  shows "evidence_report_error h q = None"
    "valid_sensitivity v m t p scenarios q \<longleftrightarrow>
       valid_sensitivity v m t p scenarios (r\<lparr>rp_identity := (rp_identity r)\<lparr>ri_gates := []\<rparr>\<rparr>)"
proof -
  have "identity_field_error (rp_identity r) = None" using assms(1) by (auto simp: evidence_report_error_def Let_def split: option.splits)
  then have "identity_field_error ((rp_identity r)\<lparr>ri_gates := []\<rparr>) = None"
    unfolding identity_field_error_def first_error_None_iff by auto
  with assms(1,2) show "evidence_report_error h q = None"
    unfolding evidence_report_error_def Let_def q by (auto simp: first_error_None_iff simp del: first_error.simps split: option.splits)
  show "valid_sensitivity v m t p scenarios q \<longleftrightarrow>
       valid_sensitivity v m t p scenarios (r\<lparr>rp_identity := (rp_identity r)\<lparr>ri_gates := []\<rparr>\<rparr>)"
    by (simp add: valid_sensitivity_def q)
qed

end
