(* ===== verification/Paper_Drift.thy ===== *)
theory Paper_Drift
  imports Paper_Journal
begin

text \<open>
  The drift monitor of \<open>paper/drift.py\<close>: the first ready vectors of a run are its frozen baseline, the
  following ones go through a bounded window. The comparison of the two, numeric code over float arrays,
  is an argument (\<open>calculate\<close>). After a restart the monitor is rebuilt from the journal.
\<close>

record 'v drift_monitor =
  dm_baseline :: "'v list"
  dm_current :: "'v list"
  dm_observations_after_baseline :: int

text \<open>
  \<open>'v\<close> is the type of the vectors of the production feature schema: \<open>model_vector\<close> fills one from a snapshot, and the
  stored vectors a restart reads are serialized model vectors. The shape check of \<open>_append\<close> holds of every one of them, it
  has no other branch to take.
\<close>

definition append_vector :: "evidence_policy \<Rightarrow> 'v drift_monitor \<Rightarrow> 'v \<Rightarrow> 'v drift_monitor" where
  "append_vector p m v =
     (if int (length (dm_baseline m)) < py_drift_baseline_samples p
      then m\<lparr>dm_baseline := dm_baseline m @ [v]\<rparr>
      else m\<lparr>dm_current := py_suffix (nat (py_drift_window_samples p)) (dm_current m @ [v]),
             dm_observations_after_baseline := dm_observations_after_baseline m + 1\<rparr>)"

definition new_drift_monitor :: "evidence_policy \<Rightarrow> 'v list \<Rightarrow> 'v drift_monitor" where
  "new_drift_monitor p restored = foldl (append_vector p)
     \<lparr>dm_baseline = [], dm_current = [], dm_observations_after_baseline = 0\<rparr> restored"

definition drift_ready :: "evidence_policy \<Rightarrow> 'v drift_monitor \<Rightarrow> bool" where
  "drift_ready p m \<longleftrightarrow> int (length (dm_baseline m)) = py_drift_baseline_samples p
     \<and> int (length (dm_current m)) = py_drift_window_samples p"

definition update_drift ::
  "('v list \<Rightarrow> 'v list \<Rightarrow> drift_report res) \<Rightarrow> (feature_snapshot \<Rightarrow> 'v) \<Rightarrow> evidence_policy
     \<Rightarrow> feature_snapshot \<Rightarrow> 'v drift_monitor \<Rightarrow> 'v drift_monitor \<times> drift_report option res" where
  "update_drift calculate vector p f m =
     (if \<not> fs_ready f then (m, Inr None)
      else
        (let m' = append_vector p m (vector f)
         in if \<not> drift_ready p m' then (m', Inr None)
            else if dm_observations_after_baseline m' mod py_drift_evaluation_interval_samples p \<noteq> 0
            then (m', Inr None)
            else (m', bindE (calculate (dm_baseline m') (dm_current m')) (\<lambda>r. Inr (Some r)))))"

section \<open>What the monitor holds\<close>

definition windows_of :: "evidence_policy \<Rightarrow> 'v list \<Rightarrow> 'v drift_monitor" where
  "windows_of p vs =
     (let b = nat (py_drift_baseline_samples p); w = nat (py_drift_window_samples p)
      in \<lparr>dm_baseline = take b vs, dm_current = drop (length (drop b vs) - w) (drop b vs),
          dm_observations_after_baseline = int (length (drop b vs))\<rparr>)"

lemma windows_of_snoc:
  assumes "0 < py_drift_window_samples p" "0 \<le> py_drift_baseline_samples p"
  shows "windows_of p (vs @ [v]) = append_vector p (windows_of p vs) v"
proof (cases "length vs < nat (py_drift_baseline_samples p)")
  case True
  then have "int (length vs) < py_drift_baseline_samples p" by linarith
  with True show ?thesis by (simp add: windows_of_def append_vector_def)
next
  case False
  define us where "us = drop (nat (py_drift_baseline_samples p)) vs"
  define w where "w = nat (py_drift_window_samples p)"
  have w: "0 < w" using assms by (simp add: w_def)
  have "\<not> int (length vs) < py_drift_baseline_samples p" using False assms by linarith
  moreover have "py_suffix w (drop (length us - w) us @ [v]) = drop (Suc (length us) - w) (us @ [v])"
    using w by (cases "w \<le> length us") (auto simp: py_suffix_def Suc_diff_le)
  moreover have "drop (nat (py_drift_baseline_samples p)) (vs @ [v]) = us @ [v]"
    "take (nat (py_drift_baseline_samples p)) (vs @ [v]) = take (nat (py_drift_baseline_samples p)) vs"
    "int (length (take (nat (py_drift_baseline_samples p)) vs)) = py_drift_baseline_samples p"
    using False assms by (auto simp: us_def)
  ultimately show ?thesis
    by (simp add: windows_of_def append_vector_def us_def [symmetric] w_def [symmetric] del: drop_drop length_drop drop_append)
qed

lemma new_drift_monitor_windows:
  assumes "0 < py_drift_window_samples p" "0 \<le> py_drift_baseline_samples p"
  shows "new_drift_monitor p vs = windows_of p vs"
proof (induction vs rule: rev_induct)
  case (snoc v vs)
  then show ?case by (simp add: new_drift_monitor_def windows_of_snoc [OF assms])
qed (simp add: new_drift_monitor_def windows_of_def)

lemma update_drift_windows:
  assumes "0 < py_drift_window_samples p" "0 \<le> py_drift_baseline_samples p" "m = windows_of p vs"
  shows "fst (update_drift calculate vector p f m) =
           windows_of p (vs @ (if fs_ready f then [vector f] else []))"
  using assms windows_of_snoc [of p vs "vector f"] by (simp add: update_drift_def Let_def)

text \<open>What the journal restores: the same windows; only the count after the baseline is shorter.\<close>

definition restored_vectors :: "evidence_policy \<Rightarrow> 'v list \<Rightarrow> 'v list" where
  "restored_vectors p vs =
     (if int (length vs) \<le> py_drift_baseline_samples p + py_drift_window_samples p then vs
      else take (nat (py_drift_baseline_samples p)) vs
         @ rev (take (nat (py_drift_window_samples p)) (rev vs)))"

lemma restored_windows:
  assumes "0 < py_drift_window_samples p" "0 \<le> py_drift_baseline_samples p"
  shows "dm_baseline (windows_of p (restored_vectors p vs)) = dm_baseline (windows_of p vs)"
    "dm_current (windows_of p (restored_vectors p vs)) = dm_current (windows_of p vs)"
    "dm_observations_after_baseline (windows_of p (restored_vectors p vs)) =
       (if int (length vs) \<le> py_drift_baseline_samples p + py_drift_window_samples p
        then dm_observations_after_baseline (windows_of p vs) else py_drift_window_samples p)"
proof -
  define b where "b = nat (py_drift_baseline_samples p)"
  define w where "w = nat (py_drift_window_samples p)"
  have last: "rev (take w (rev vs)) = drop (length vs - w) vs"
    by (simp add: rev_take)
  have long: "b + w < length vs" if "\<not> int (length vs) \<le> py_drift_baseline_samples p + py_drift_window_samples p"
    using that assms by (simp add: b_def w_def)
  show "dm_baseline (windows_of p (restored_vectors p vs)) = dm_baseline (windows_of p vs)"
    using long by (auto simp: windows_of_def restored_vectors_def Let_def b_def [symmetric] w_def [symmetric] last)
  show "dm_current (windows_of p (restored_vectors p vs)) = dm_current (windows_of p vs)"
    using long by (auto simp: windows_of_def restored_vectors_def Let_def b_def [symmetric] w_def [symmetric] last)
  show "dm_observations_after_baseline (windows_of p (restored_vectors p vs)) =
       (if int (length vs) \<le> py_drift_baseline_samples p + py_drift_window_samples p
        then dm_observations_after_baseline (windows_of p vs) else py_drift_window_samples p)"
    using long assms
    by (auto simp: windows_of_def restored_vectors_def Let_def b_def [symmetric] w_def [symmetric] last)
      (simp add: w_def)
qed

section \<open>Restarts\<close>

lemma rows_of_simps [simp]:
  "rows_of run [] = []" "rows_of run (t @ u) = rows_of run t @ rows_of run u"
  "rows_of run (e # t) = (if en_run_id e = run then en_value e # rows_of run t else rows_of run t)"
  by (simp_all add: rows_of_def)

definition ready_vectors :: "string \<Rightarrow> 'v paper_journal \<Rightarrow> 'v list" where
  "ready_vectors run j = map fr_vector (filter fr_ready (rows_of run (pj_features j)))"

lemma feature_vectors_restored:
  assumes "1 \<le> py_drift_baseline_samples p" "1 \<le> py_drift_window_samples p"
  shows "feature_vectors run (py_drift_baseline_samples p) (py_drift_window_samples p) j =
           Inr (restored_vectors p (ready_vectors run j))"
  using assms
  by (simp add: feature_vectors_def restored_vectors_def ready_vectors_def guardE_def Let_def take_map rev_map)

lemma record_feature_vectors:
  assumes "known_run run j"
  shows "ready_vectors run (fst (record_feature vector run f j)) =
           ready_vectors run j @ (if fs_ready f then [vector f] else [])"
    "known_run run (fst (record_feature vector run f j))"
  using assms
  by (simp_all add: record_feature_def in_transaction_def transact_def insert_feature_def insert_row_def
      ready_vectors_def known_run_def)

text \<open>A snapshot as the engine handles it: the monitor sees it and the journal keeps it.\<close>

definition observe_feature ::
  "('v list \<Rightarrow> 'v list \<Rightarrow> drift_report res) \<Rightarrow> (feature_snapshot \<Rightarrow> 'v) \<Rightarrow> evidence_policy \<Rightarrow> string
     \<Rightarrow> 'v paper_journal \<times> 'v drift_monitor \<Rightarrow> feature_snapshot \<Rightarrow> 'v paper_journal \<times> 'v drift_monitor" where
  "observe_feature calculate vector p run s f =
     (fst (record_feature vector run f (fst s)), fst (update_drift calculate vector p f (snd s)))"

lemma observe_features_windows:
  assumes "0 < py_drift_window_samples p" "0 \<le> py_drift_baseline_samples p" "known_run run j"
  shows "snd (foldl (observe_feature calculate vector p run) (j, windows_of p (ready_vectors run j)) fs) =
           windows_of p (ready_vectors run
             (fst (foldl (observe_feature calculate vector p run) (j, windows_of p (ready_vectors run j)) fs)))"
  using assms(3)
proof (induction fs arbitrary: j)
  case (Cons f fs)
  let ?j = "fst (record_feature vector run f j)"
  have "observe_feature calculate vector p run (j, windows_of p (ready_vectors run j)) f =
          (?j, windows_of p (ready_vectors run ?j))"
    using Cons.prems
    by (simp add: observe_feature_def update_drift_windows [OF assms(1,2) refl] record_feature_vectors(1))
  moreover have "known_run run ?j"
    using Cons.prems by (rule record_feature_vectors(2))
  ultimately show ?case
    using Cons.IH [of ?j] by (simp only: foldl_Cons)
qed simp

text \<open>The drift monitor survives restarts. After any number of snapshots, ready ones or not, a monitor
  rebuilt from what the journal restores has the same frozen baseline and the same current window as the
  monitor that ran through, however long the run was.\<close>

theorem drift_windows_survive_restart:
  assumes "evidence_policy_error p = None" "known_run run j"
    "(j', m) = foldl (observe_feature calculate vector p run) (j, new_drift_monitor p (ready_vectors run j)) fs"
  shows "\<exists>vs. feature_vectors run (py_drift_baseline_samples p) (py_drift_window_samples p) j' = Inr vs
     \<and> dm_baseline (new_drift_monitor p vs) = dm_baseline m
     \<and> dm_current (new_drift_monitor p vs) = dm_current m"
proof -
  have p: "20 \<le> py_drift_baseline_samples p" "20 \<le> py_drift_window_samples p"
    using assms(1) by (simp_all add: evidence_policy_error_def not_less split: if_splits)
  then have w: "0 < py_drift_window_samples p" "0 \<le> py_drift_baseline_samples p" by simp_all
  have "m = windows_of p (ready_vectors run j')"
    using observe_features_windows [OF w assms(2), of calculate vector fs] assms(3)
    by (simp add: new_drift_monitor_windows [OF w]) (metis fst_conv snd_conv)
  then show ?thesis
    using p restored_windows [OF w, of "ready_vectors run j'"]
    by (simp add: feature_vectors_restored new_drift_monitor_windows [OF w])
qed

section \<open>A concrete run\<close>

definition demo_policy :: evidence_policy where
  "demo_policy = \<lparr>py_policy_id = ''paper-v1'', py_frozen_at_ns = 0, py_minimum_observation_ns = 1,
     py_minimum_independent_decisions = 1, py_decision_independence_ns = 1, py_minimum_fills = 1,
     py_minimum_regimes = 1, py_maximum_drawdown_fraction = 1 / 10, py_maximum_denial_fraction = 1 / 2,
     py_maximum_adverse_markout_bps = 5, py_drift_baseline_samples = 20, py_drift_window_samples = 20,
     py_drift_evaluation_interval_samples = 1, py_maximum_feature_psi = 1 / 5,
     py_maximum_standardized_mean_shift = 1, py_require_positive_post_cost_pnl = True,
     py_required_sensitivity_scenarios = [''pessimistic''], py_required_drills = [''restart'']\<rparr>"

definition demo_manifest :: run_manifest where
  "demo_manifest = \<lparr>rm_run_id = ''paper-1'', rm_environment = ''paper'', rm_started_ts_ns = 0,
     rm_code_identity = ''code'', rm_config_fingerprint = replicate 64 (CHR ''a''),
     rm_feature_config_sha256 = replicate 64 (CHR ''a''), rm_strategy_config_sha256 = replicate 64 (CHR ''a''),
     rm_scenario_id = ''baseline'', rm_scenario_sha256 = replicate 64 (CHR ''a''),
     rm_evidence_policy_sha256 = replicate 64 (CHR ''a''), rm_strategy_id = ''order-flow-scalper-v1'',
     rm_image_identity = None, rm_source_start_sequence = 0\<rparr>"

definition demo_journal :: "dec paper_journal" where
  "demo_journal = fst (begin_run (\<lambda>_. []) demo_manifest (initial_account 1000 100 0) new_paper_journal)"

lemma demo_policy_ok: "evidence_policy_error demo_policy = None"
  by code_simp

lemma demo_journal_known: "known_run ''paper-1'' demo_journal"
  by code_simp

lemma drift_windows_survive_restart_witness:
  "\<exists>vs. feature_vectors ''paper-1'' 20 20 demo_journal = Inr vs
     \<and> dm_baseline (new_drift_monitor demo_policy vs)
         = dm_baseline (new_drift_monitor demo_policy (ready_vectors ''paper-1'' demo_journal))"
  using drift_windows_survive_restart [OF demo_policy_ok demo_journal_known, of _ _ _ _ "[]"]
  by (auto simp: demo_policy_def)


end
