(* ===== verification/Paper_Engine.thy ===== *)
theory Paper_Engine
  imports Paper_Drift Risk_Authority Market_Maker Order_Flow_Scalper Reactive_Scalper
begin

text \<open>
  The paper trading engine of \<open>paper/engine.py\<close>: simulator, risk authority, strategy kernel, structure
  engine, drift monitor and journal composed as the code composes them, from the start or restart
  through the market cycle and the watchdog. A method is threaded through the record of its
  attributes, so that an exception leaves what the code leaves. The feature engine, hashes, the JSON
  text of a strategy memory, decision identities and the readings of the kill switch are arguments.
\<close>

section \<open>Loops and lifting\<close>

fun mapS :: "('a \<Rightarrow> 's \<Rightarrow> 's \<times> 'b res) \<Rightarrow> 'a list \<Rightarrow> 's \<Rightarrow> 's \<times> 'b list res" where
  "mapS f [] s = (s, Inr [])"
| "mapS f (x # xs) s = bindS (f x s) (\<lambda>s y. bindS (mapS f xs s) (\<lambda>s ys. (s, Inr (y # ys))))"

definition liftR :: "'a res \<Rightarrow> 's \<Rightarrow> 's \<times> 'a res" where
  "liftR r s = (s, r)"

section \<open>Strategies\<close>

datatype paper_memory = Maker_State mm_memory | Scalper_State ofs_memory | Reactive_State reactive_memory

datatype paper_strategy = Maker_Strategy mm_config | Scalper_Strategy ofs_config | Reactive_Strategy reactive_config

definition first_memory :: "paper_strategy \<Rightarrow> paper_memory" where
  "first_memory k = (case k of
     Maker_Strategy _ \<Rightarrow> Maker_State new_mm_memory | Scalper_Strategy _ \<Rightarrow> Scalper_State new_ofs_memory
   | Reactive_Strategy _ \<Rightarrow> Reactive_State new_reactive_memory)"

definition strategy_id_of :: "paper_strategy \<Rightarrow> string" where
  "strategy_id_of k = (case k of
     Maker_Strategy _ \<Rightarrow> ''avellaneda-stoikov-v1'' | Scalper_Strategy _ \<Rightarrow> ''order-flow-scalper-v1''
   | Reactive_Strategy _ \<Rightarrow> ''smart-money-scalper-v3'')"

definition paper_transition ::
  "(dec \<Rightarrow> dec \<Rightarrow> dec) \<Rightarrow> paper_strategy \<Rightarrow> strategy_input \<Rightarrow> paper_memory \<Rightarrow> (paper_memory \<times> kernel_decision) res" where
  "paper_transition log_term k s m =
     (case (k, m) of
        (Maker_Strategy c, Maker_State a) \<Rightarrow> bindE (mm_decide log_term c s a) (\<lambda>(a', d). Inr (Maker_State a', d))
      | (Scalper_Strategy c, Scalper_State a) \<Rightarrow> bindE (ofs_decide c s a) (\<lambda>(a', d). Inr (Scalper_State a', d))
      | (Reactive_Strategy c, Reactive_State a) \<Rightarrow>
          bindE (reactive_decide c s a) (\<lambda>(a', d). Inr (Reactive_State a', d))
      | _ \<Rightarrow> Inl (TypeError ''unsupported paper strategy configuration''))"

section \<open>The engine\<close>

text \<open>What the engine is built with; the last group is the environment.\<close>

record ('f, 'v) paper_setup =
  px_manifest :: run_manifest
  px_strategy :: paper_strategy
  px_scenario :: execution_scenario
  px_policy :: evidence_policy
  px_authority :: authority_env
  px_structure :: structure_config
  px_markout_horizon_ns :: int
  px_initial_equity_usd :: dec
  px_initial_mark_price :: dec
  px_started_ts_ns :: int
  px_naming :: naming
  px_manifest_sha256 :: "run_manifest \<Rightarrow> string"
  px_feature_sha256 :: "feature_snapshot \<Rightarrow> string"
  px_decision_sha256 :: "kernel_decision \<Rightarrow> string"
  px_memory_json :: "paper_memory \<Rightarrow> string"
  px_memory_of_json :: "string \<Rightarrow> paper_memory res"
  px_log_term :: "dec \<Rightarrow> dec \<Rightarrow> dec"
  px_new_features :: 'f
  px_feature_update :: "'f \<Rightarrow> kernel_market \<Rightarrow> dec \<times> dec \<Rightarrow> 'f \<times> feature_snapshot res"
  px_vector :: "feature_snapshot \<Rightarrow> 'v"
  px_calculate_drift :: "'v list \<Rightarrow> 'v list \<Rightarrow> drift_report res"

abbreviation px_run :: "('f, 'v) paper_setup \<Rightarrow> string" where
  "px_run x \<equiv> rm_run_id (px_manifest x)"

definition manifest_identity :: "('f, 'v) paper_setup \<Rightarrow> string" where
  "manifest_identity x = px_manifest_sha256 x (px_manifest x)"

record watchdog_update =
  wu_orders :: "paper_order list"
  wu_fills :: "paper_fill list"
  wu_markouts :: "paper_markout list"

definition no_watchdog_update :: watchdog_update where
  "no_watchdog_update = \<lparr>wu_orders = [], wu_fills = [], wu_markouts = []\<rparr>"

record ('f, 'v) paper_engine =
  pe_now_ns :: int
  pe_last_market :: "kernel_market option"
  pe_feed_connected :: bool
  pe_features :: 'f
  pe_structure :: structure_state
  pe_persisted_revision :: int
  pe_last_structure :: "smart_money_snapshot option"
  pe_last_decision :: kernel_decision
  pe_last_watchdog :: watchdog_update
  pe_sim :: paper_sim
  pe_journal :: "'v paper_journal"
  pe_resumed :: bool
  pe_command_sequence :: int
  pe_evaluation_sequence :: int
  pe_drift :: "'v drift_monitor"
  pe_memory :: paper_memory
  pe_sequence :: int
  pe_last_independent_ts_ns :: "int option"
  pe_funding_rate :: dec
  pe_next_funding_ns :: "int option"
  pe_source_sequence :: "int option"
  pe_pending_markouts :: "(string \<times> paper_fill) list"
  pe_authority :: authority
  pe_decision_count :: int
  pe_fill_count :: int

text \<open>A call of \<open>on_market\<close>: its arguments, and what the call reads from outside in the order of the readings.\<close>

record engine_call =
  em_market :: kernel_market
  em_mark_price :: "dec option"
  em_feed_connected :: bool
  em_source_sequence :: "int option"
  em_kill :: "nat \<Rightarrow> bool"
  em_decision_id :: "nat \<Rightarrow> string"

abbreviation em_now :: "engine_call \<Rightarrow> int" where
  "em_now c \<equiv> km_observed_ts_ns (em_market c)"

definition on_sim :: "(paper_sim \<Rightarrow> paper_sim \<times> 'a res) \<Rightarrow> ('f, 'v) paper_engine \<Rightarrow> ('f, 'v) paper_engine \<times> 'a res" where
  "on_sim f e = (case f (pe_sim e) of (s, r) \<Rightarrow> (e\<lparr>pe_sim := s\<rparr>, r))"

definition on_journal ::
  "('v paper_journal \<Rightarrow> 'v paper_journal \<times> 'a res) \<Rightarrow> ('f, 'v) paper_engine \<Rightarrow> ('f, 'v) paper_engine \<times> 'a res" where
  "on_journal f e = (case f (pe_journal e) of (j, r) \<Rightarrow> (e\<lparr>pe_journal := j\<rparr>, r))"

definition on_authority ::
  "(authority \<Rightarrow> authority \<times> 'a res) \<Rightarrow> ('f, 'v) paper_engine \<Rightarrow> ('f, 'v) paper_engine \<times> 'a res" where
  "on_authority f e = (case f (pe_authority e) of (a, r) \<Rightarrow> (e\<lparr>pe_authority := a\<rparr>, r))"

section \<open>Parts of a cycle\<close>

definition FUNDING_INTERVAL_NS :: int where
  "FUNDING_INTERVAL_NS = 3600000000000"

definition settle_funding_if_due ::
  "('f, 'v) paper_setup \<Rightarrow> dec \<Rightarrow> ('f, 'v) paper_engine \<Rightarrow> ('f, 'v) paper_engine \<times> unit res" where
  "settle_funding_if_due x mark e =
     (case pe_next_funding_ns e of
        None \<Rightarrow> (e, Inr ())
      | Some due \<Rightarrow>
          if pe_now_ns e < due then (e, Inr ())
          else if FUNDING_INTERVAL_NS \<le> pe_now_ns e - due
          then bindS (on_journal (record_event (px_run x) (pe_now_ns e) ''funding_gap''
                 ''missed one or more funding boundaries; no stale rate was backfilled'') e)
               (\<lambda>e _. (e\<lparr>pe_next_funding_ns :=
                  Some ((pe_now_ns e div FUNDING_INTERVAL_NS + 1) * FUNDING_INTERVAL_NS)\<rparr>, Inr ()))
          else bindS (on_sim (settle_funding (pe_funding_rate e) mark due) e)
               (\<lambda>e _. (e\<lparr>pe_next_funding_ns := Some (due + FUNDING_INTERVAL_NS)\<rparr>, Inr ())))"

definition synchronize_memory ::
  "int \<Rightarrow> ('f, 'v) paper_engine \<Rightarrow> ('f, 'v) paper_engine \<times> unit res" where
  "synchronize_memory now e =
     (let a = ps_account (pe_sim e)
      in case pe_memory e of
           Reactive_State m \<Rightarrow>
             (case synchronize_position (pa_position_base a) (pa_average_entry_price a) now m of
                Inl err \<Rightarrow> (e, Inl err) | Inr m' \<Rightarrow> (e\<lparr>pe_memory := Reactive_State m'\<rparr>, Inr ()))
         | Maker_State m \<Rightarrow> (e\<lparr>pe_memory := Maker_State (mm_with_inventory (pa_position_base a) m)\<rparr>, Inr ())
         | Scalper_State m \<Rightarrow> (e\<lparr>pe_memory := Scalper_State (ofs_with_inventory (pa_position_base a) m)\<rparr>, Inr ()))"

definition markout_of :: "int \<Rightarrow> dec \<Rightarrow> int \<Rightarrow> string \<Rightarrow> paper_fill \<Rightarrow> paper_markout" where
  "markout_of horizon mark now i f =
     (let direction = (if fl_side f = BUY then 1 else - 1)
      in \<lparr>mo_fill_id = i, mo_horizon_ns = horizon, mo_observed_ts_ns = now, mo_mark_price = mark,
          mo_signed_markout_bps = dmul (ddiv (dmul direction (dsub mark (fl_price f))) (fl_price f)) 10000\<rparr>)"

fun resolve_each ::
  "int \<Rightarrow> dec \<Rightarrow> int \<Rightarrow> (string \<times> paper_fill) list \<Rightarrow> (string \<times> paper_fill) list
     \<Rightarrow> (string \<times> paper_fill) list \<times> paper_markout list res" where
  "resolve_each horizon mark now [] pending = (pending, Inr [])"
| "resolve_each horizon mark now ((i, f) # rest) pending =
     (if now - fl_fill_ts_ns f < horizon then resolve_each horizon mark now rest pending
      else bindS (liftR (checked paper_markout_error (markout_of horizon mark now i f)) pending) (\<lambda>pending m.
           bindS (resolve_each horizon mark now rest (AList.delete i pending)) (\<lambda>pending ms. (pending, Inr (m # ms)))))"

definition resolve_markouts ::
  "('f, 'v) paper_setup \<Rightarrow> dec \<Rightarrow> int \<Rightarrow> ('f, 'v) paper_engine \<Rightarrow> ('f, 'v) paper_engine \<times> paper_markout list res" where
  "resolve_markouts x mark now e =
     (case resolve_each (px_markout_horizon_ns x) mark now (pe_pending_markouts e) (pe_pending_markouts e) of
        (pending, r) \<Rightarrow> (e\<lparr>pe_pending_markouts := pending\<rparr>, r))"

definition positive_equity :: "paper_account \<Rightarrow> dec" where
  "positive_equity a = max (pa_equity_usd a) (1 / 10 ^ 8)"

text \<open>\<open>_risk_snapshot\<close>, at the engine's time or a given one; \<open>kill\<close> is the reading of the switch.\<close>

definition engine_snapshot :: "bool \<Rightarrow> int option \<Rightarrow> ('f, 'v) paper_engine \<Rightarrow> risk_snapshot" where
  "engine_snapshot kill snapshot_ts e =
     (let now = (case snapshot_ts of None \<Rightarrow> pe_now_ns e | Some t \<Rightarrow> t);
          a = ps_account (pe_sim e); (buys, sells) = pending_exposure (pe_sim e); equity = positive_equity a
      in \<lparr>rs_snapshot_ts_ns = now,
          rs_public_data_ts_ns = (case pe_last_market e of None \<Rightarrow> now | Some m \<Rightarrow> km_observed_ts_ns m),
          rs_private_data_ts_ns = min (pa_updated_ts_ns a) now, rs_mark_price = pa_mark_price a,
          rs_position_base = pa_position_base a, rs_pending_buy_base = buys, rs_pending_sell_base = sells,
          rs_account_equity_usd = equity, rs_day_start_equity_usd = pa_day_start_equity_usd a,
          rs_high_water_equity_usd = pa_high_water_equity_usd a,
          rs_leverage = ddiv (dabs (dmul (pa_position_base a) (pa_mark_price a))) equity,
          rs_open_order_count = int (length (open_orders (pe_sim e))), rs_exchange_connected = pe_feed_connected e,
          rs_reconciliation_complete = True, rs_deployment_approved = True, rs_approved_capital_limit_usd = None,
          rs_operator_kill = kill, rs_flatten_requested = False\<rparr>)"

definition risk_snapshot_of :: "bool \<Rightarrow> int option \<Rightarrow> ('f, 'v) paper_engine \<Rightarrow> risk_snapshot res" where
  "risk_snapshot_of kill snapshot_ts e = checked risk_snapshot_error (engine_snapshot kill snapshot_ts e)"

text \<open>\<open>_inventory_state\<close>: the position and the margin utilization, at most one.\<close>

definition inventory_state :: "('f, 'v) paper_setup \<Rightarrow> dec \<Rightarrow> ('f, 'v) paper_engine \<Rightarrow> dec \<times> dec" where
  "inventory_state x position e =
     (let a = ps_account (pe_sim e)
      in (position,
          min 1 (ddiv (ddiv (dabs (dmul position (pa_mark_price a))) (positive_equity a))
                      (rl_max_leverage (ae_limits (px_authority x))))))"

definition ECONOMIC_DRILLS :: "(risk_reason \<times> string) list" where
  "ECONOMIC_DRILLS = [(DAILY_LOSS_LIMIT, ''daily_loss''), (DRAWDOWN_LIMIT, ''drawdown'')]"

definition drill_evidence :: "risk_reason \<Rightarrow> string" where
  "drill_evidence r = ''risk authority enforced ''
     @ (if r = DAILY_LOSS_LIMIT then ''daily_loss_limit'' else ''drawdown_limit'') @ '' and initiated cancel-all''"

definition record_economic_drills ::
  "('f, 'v) paper_setup \<Rightarrow> risk_reason list \<Rightarrow> int \<Rightarrow> ('f, 'v) paper_engine \<Rightarrow> ('f, 'v) paper_engine \<times> unit res" where
  "record_economic_drills x reasons ts e =
     (if open_orders (pe_sim e) \<noteq> [] then (e, Inr ())
      else foldS (\<lambda>(r, drill). on_journal (record_drill (px_run x) drill ts (drill_evidence r)))
             (filter (\<lambda>(r, drill). r \<in> set reasons) ECONOMIC_DRILLS) e)"

section \<open>Commands\<close>

definition command_id :: "('f, 'v) paper_setup \<Rightarrow> int \<Rightarrow> command_kind \<Rightarrow> string \<Rightarrow> string" where
  "command_id x n kind intent_id = ''command-'' @ take 32 (nm_sha256 (px_naming x)
     (manifest_identity x @ '':'' @ py_str n @ '':'' @ command_kind_value kind @ '':'' @ intent_id))"

definition issue_command ::
  "(int \<Rightarrow> execution_command) \<Rightarrow> ('f, 'v) paper_engine \<Rightarrow> ('f, 'v) paper_engine \<times> execution_command res" where
  "issue_command command e =
     (let n = pe_command_sequence e
      in (e\<lparr>pe_command_sequence := n + 1\<rparr>, mk_execution_command (command n)))"

definition submit_command ::
  "('f, 'v) paper_setup \<Rightarrow> order_intent \<Rightarrow> string \<Rightarrow> string \<Rightarrow> int
     \<Rightarrow> ('f, 'v) paper_engine \<Rightarrow> ('f, 'v) paper_engine \<times> execution_command res" where
  "submit_command x i decision_id feature_sha ts e = issue_command (\<lambda>n.
     \<lparr>xq_command_id = command_id x n CMD_SUBMIT (oi_intent_id i), xq_sequence = n, xq_command_ts_ns = ts,
      xq_kind = CMD_SUBMIT, xq_intent_id = oi_intent_id i, xq_strategy_id = oi_strategy_id i, xq_intent = Some i,
      xq_risk_decision_id = Some decision_id, xq_feature_snapshot_sha256 = Some feature_sha,
      xq_source_sequence = pe_source_sequence e\<rparr>) e"

definition cancel_command ::
  "('f, 'v) paper_setup \<Rightarrow> command_kind \<Rightarrow> int \<Rightarrow> paper_order
     \<Rightarrow> ('f, 'v) paper_engine \<Rightarrow> ('f, 'v) paper_engine \<times> execution_command res" where
  "cancel_command x kind ts p e = issue_command (\<lambda>n.
     \<lparr>xq_command_id = command_id x n kind (oi_intent_id (po_intent p)), xq_sequence = n, xq_command_ts_ns = ts,
      xq_kind = kind, xq_intent_id = oi_intent_id (po_intent p), xq_strategy_id = oi_strategy_id (po_intent p),
      xq_intent = None, xq_risk_decision_id = None, xq_feature_snapshot_sha256 = None,
      xq_source_sequence = pe_source_sequence e\<rparr>) e"

definition cancel_commands ::
  "('f, 'v) paper_setup \<Rightarrow> paper_order list \<Rightarrow> command_kind \<Rightarrow> int
     \<Rightarrow> ('f, 'v) paper_engine \<Rightarrow> ('f, 'v) paper_engine \<times> execution_command list res" where
  "cancel_commands x orders kind ts = mapS (cancel_command x kind ts) orders"

section \<open>The market cycle\<close>

definition source_regressed :: "engine_call \<Rightarrow> ('f, 'v) paper_engine \<Rightarrow> bool" where
  "source_regressed c e \<longleftrightarrow>
     (case (em_source_sequence c, pe_source_sequence e) of (Some n, Some k) \<Rightarrow> n \<le> k | _ \<Rightarrow> False)"

definition market_regressed :: "engine_call \<Rightarrow> ('f, 'v) paper_engine \<Rightarrow> bool" where
  "market_regressed c e \<longleftrightarrow>
     (case pe_last_market e of None \<Rightarrow> False | Some m \<Rightarrow> em_now c \<le> km_observed_ts_ns m)"

definition accept_market :: "engine_call \<Rightarrow> ('f, 'v) paper_engine \<Rightarrow> ('f, 'v) paper_engine" where
  "accept_market c e =
     e\<lparr>pe_now_ns := em_now c, pe_last_market := Some (em_market c), pe_feed_connected := em_feed_connected c,
       pe_source_sequence := em_source_sequence c\<rparr>"

definition remember_fills :: "paper_fill list \<Rightarrow> ('f, 'v) paper_engine \<Rightarrow> ('f, 'v) paper_engine" where
  "remember_fills fs e =
     e\<lparr>pe_pending_markouts := fold (\<lambda>f. AList.update (fl_fill_id f) f) fs (pe_pending_markouts e)\<rparr>"

definition simulate_market ::
  "('f, 'v) paper_setup \<Rightarrow> engine_call \<Rightarrow> ('f, 'v) paper_engine
     \<Rightarrow> ('f, 'v) paper_engine \<times> (simulator_update \<times> paper_markout list) res" where
  "simulate_market x c e =
     bindS (settle_funding_if_due x (py_or_else (em_mark_price c) (pa_mark_price (ps_account (pe_sim e)))) e) (\<lambda>e _.
     bindS (on_sim (advance (px_naming x) (em_market c) (em_mark_price c)) e) (\<lambda>e u.
     bindS (synchronize_memory (em_now c) (remember_fills (su_fills u) e)) (\<lambda>e _.
     bindS (resolve_markouts x (pa_mark_price (su_account u)) (em_now c) e) (\<lambda>e ms. (e, Inr (u, ms))))))"

record risk_verdict =
  rv_state :: risk_state
  rv_reasons :: "risk_reason list"
  rv_orders :: "paper_order list"
  rv_commands :: "execution_command list"

definition assess_risk ::
  "('f, 'v) paper_setup \<Rightarrow> engine_call \<Rightarrow> ('f, 'v) paper_engine \<Rightarrow> ('f, 'v) paper_engine \<times> risk_verdict res" where
  "assess_risk x c e =
     bindS (liftR (risk_snapshot_of (em_kill c 0) None e) e) (\<lambda>e snapshot.
       (let (st, reasons) = assess_state (ae_limits (px_authority x)) (em_kill c 1) snapshot (pe_now_ns e)
        in if st = ACTIVE
           then (e, Inr \<lparr>rv_state = st, rv_reasons = reasons, rv_orders = [], rv_commands = []\<rparr>)
           else
             (let (s, canceled) = request_cancel_all (em_now c) (pe_sim e)
              in bindS (cancel_commands x canceled CMD_CANCEL_ALL (em_now c) (e\<lparr>pe_sim := s\<rparr>)) (\<lambda>e commands.
                 bindS (record_economic_drills x reasons (em_now c) e) (\<lambda>e _.
                   (e, Inr \<lparr>rv_state = st, rv_reasons = reasons, rv_orders = canceled, rv_commands = commands\<rparr>))))))"

text \<open>The structure engine; a new revision is written in a transaction of its own.\<close>

definition observe_structure ::
  "('f, 'v) paper_setup \<Rightarrow> kernel_market \<Rightarrow> ('f, 'v) paper_engine
     \<Rightarrow> ('f, 'v) paper_engine \<times> smart_money_snapshot res" where
  "observe_structure x m e =
     (case structure_update (px_structure x) (pe_structure e) m of
        Inl err \<Rightarrow> (e, Inl err)
      | Inr (s, sm) \<Rightarrow>
          (let e' = e\<lparr>pe_structure := s, pe_last_structure := Some sm\<rparr>
           in if cs_revision s = pe_persisted_revision e' then (e', Inr sm)
              else bindS (on_journal (record_structure_state (px_run x) s) e')
                     (\<lambda>e _. (e\<lparr>pe_persisted_revision := cs_revision s\<rparr>, Inr sm))))"

definition engine_input ::
  "('f, 'v) paper_setup \<Rightarrow> paper_account \<Rightarrow> feature_snapshot \<Rightarrow> smart_money_snapshot \<Rightarrow> ('f, 'v) paper_engine
     \<Rightarrow> strategy_input" where
  "engine_input x a f sm e =
     \<lparr>si_features = f, si_funding_rate = pe_funding_rate e, si_movement_forecast_bps = 0,
      si_fill_forecast_bid = None, si_fill_forecast_ask = None, si_spread_expansion_forecast_bps = 0,
      si_estimated_maker_fee_bps = max 0 (es_maker_fee_bps (px_scenario x)),
      si_estimated_taker_fee_bps = max 0 (es_taker_fee_bps (px_scenario x)),
      si_estimated_slippage_bps = es_taker_slippage_bps (px_scenario x), si_model_artifact_sha256 = None,
      si_market_structure = Some sm, si_position_average_entry_price = pa_average_entry_price a,
      si_position_opened_ts_ns =
        (case pe_memory e of Reactive_State m \<Rightarrow> rm_position_opened_ts_ns m | _ \<Rightarrow> None)\<rparr>"

text \<open>The ensemble's properties and \<open>_forecast_diagnostics\<close>.\<close>

definition ensemble_diagnostics :: "reactive_config \<Rightarrow> forecast_state \<Rightarrow> forecast_diagnostics" where
  "ensemble_diagnostics c f =
     (let hs = rf_horizons f;
          accuracies = map directional_accuracy (filter (\<lambda>h. hf_recent_direction_hits h \<noteq> []) hs);
          errors = map mean_absolute_error_bps (filter (\<lambda>h. hf_recent_absolute_errors_bps h \<noteq> []) hs)
      in \<lparr>pf_training_samples = (case py_min (map hf_training_samples hs) of None \<Rightarrow> 0 | Some n \<Rightarrow> n),
          pf_ready = (rc_minimum_quality_horizons c \<le> int (length (quality_horizons c f))),
          pf_directional_accuracy = (case py_min accuracies of None \<Rightarrow> 0 | Some a \<Rightarrow> a),
          pf_mean_absolute_error_bps = (case py_max errors of None \<Rightarrow> 0 | Some a \<Rightarrow> a),
          pf_latest_prediction_bps = latest_prediction_bps f\<rparr>)"

definition forecast_diagnostics_of ::
  "('f, 'v) paper_setup \<Rightarrow> ('f, 'v) paper_engine \<Rightarrow> forecast_diagnostics option" where
  "forecast_diagnostics_of x e =
     (case (px_strategy x, pe_memory e) of
        (Reactive_Strategy c, Reactive_State m) \<Rightarrow> Some (ensemble_diagnostics c (rm_forecast m))
      | _ \<Rightarrow> None)"

record strategy_cycle =
  sg_features :: feature_snapshot
  sg_structure :: smart_money_snapshot
  sg_drift_report :: "drift_report option"
  sg_decision :: kernel_decision
  sg_evaluation :: strategy_evaluation

definition evaluation_of ::
  "('f, 'v) paper_setup \<Rightarrow> engine_call \<Rightarrow> risk_verdict \<Rightarrow> feature_snapshot \<Rightarrow> smart_money_snapshot
     \<Rightarrow> ('f, 'v) paper_engine \<Rightarrow> strategy_evaluation" where
  "evaluation_of x c v f sm e =
     \<lparr>pv_evaluation_id = nm_sha256 (px_naming x)
        (manifest_identity x @ '':'' @ py_str (pe_evaluation_sequence e) @ '':'' @ py_str (em_now c) @ '':''
         @ px_feature_sha256 x f @ '':'' @ px_decision_sha256 x (pe_last_decision e)),
      pv_run_id = px_run x, pv_sequence = pe_evaluation_sequence e, pv_evaluated_ts_ns = em_now c,
      pv_feature_snapshot_sha256 = px_feature_sha256 x f, pv_strategy_id = strategy_id_of (px_strategy x),
      pv_feature_ready = fs_ready f, pv_structure_ready = sm_ready sm, pv_feed_connected = pe_feed_connected e,
      pv_risk_state = rv_state v, pv_risk_reasons = rv_reasons v, pv_decision = pe_last_decision e,
      pv_forecast = forecast_diagnostics_of x e\<rparr>"

definition run_kernel ::
  "('f, 'v) paper_setup \<Rightarrow> paper_account \<Rightarrow> feature_snapshot \<Rightarrow> smart_money_snapshot \<Rightarrow> ('f, 'v) paper_engine
     \<Rightarrow> ('f, 'v) paper_engine \<times> kernel_decision res" where
  "run_kernel x a f sm e =
     (case bindE (checked strategy_input_error (engine_input x a f sm e)) (\<lambda>input.
             paper_transition (px_log_term x) (px_strategy x) input (pe_memory e)) of
        Inl err \<Rightarrow> (e, Inl err)
      | Inr (m, d) \<Rightarrow> (e\<lparr>pe_memory := m, pe_last_decision := d\<rparr>, Inr d))"

definition monitor_drift ::
  "('f, 'v) paper_setup \<Rightarrow> feature_snapshot \<Rightarrow> ('f, 'v) paper_engine
     \<Rightarrow> ('f, 'v) paper_engine \<times> drift_report option res" where
  "monitor_drift x f e =
     (case update_drift (px_calculate_drift x) (px_vector x) (px_policy x) f (pe_drift e) of
        (m, r) \<Rightarrow> (e\<lparr>pe_drift := m\<rparr>, r))"

definition calculate_features ::
  "('f, 'v) paper_setup \<Rightarrow> engine_call \<Rightarrow> dec \<Rightarrow> ('f, 'v) paper_engine
     \<Rightarrow> ('f, 'v) paper_engine \<times> feature_snapshot res" where
  "calculate_features x c position e =
     (case px_feature_update x (pe_features e) (em_market c) (inventory_state x position e) of
        (f, r) \<Rightarrow> (e\<lparr>pe_features := f\<rparr>, r))"

definition run_strategy ::
  "('f, 'v) paper_setup \<Rightarrow> engine_call \<Rightarrow> paper_account \<Rightarrow> risk_verdict \<Rightarrow> ('f, 'v) paper_engine
     \<Rightarrow> ('f, 'v) paper_engine \<times> strategy_cycle res" where
  "run_strategy x c a v e =
     bindS (calculate_features x c (pa_position_base a) e) (\<lambda>e f.
     bindS (observe_structure x (em_market c) e) (\<lambda>e sm.
     bindS (monitor_drift x f e) (\<lambda>e drift.
     bindS (run_kernel x a f sm e) (\<lambda>e d.
     bindS (liftR (check_option forecast_diagnostics_error (forecast_diagnostics_of x e)) e) (\<lambda>e _.
     bindS (liftR (checked strategy_evaluation_error (evaluation_of x c v f sm e)) e) (\<lambda>e w.
       (e, Inr \<lparr>sg_features = f, sg_structure = sm, sg_drift_report = drift, sg_decision = d,
                sg_evaluation = w\<rparr>)))))))"

text \<open>The cancels of the decision.\<close>

fun cancel_intents ::
  "('f, 'v) paper_setup \<Rightarrow> int \<Rightarrow> string list \<Rightarrow> ('f, 'v) paper_engine
     \<Rightarrow> ('f, 'v) paper_engine \<times> (paper_order list \<times> execution_command list) res" where
  "cancel_intents x now [] e = (e, Inr ([], []))"
| "cancel_intents x now (i # is) e =
     (case request_cancel i now (pe_sim e) of
        (s, None) \<Rightarrow> cancel_intents x now is (e\<lparr>pe_sim := s\<rparr>)
      | (s, Some p) \<Rightarrow>
          bindS (cancel_command x CMD_CANCEL now p (e\<lparr>pe_sim := s\<rparr>)) (\<lambda>e q.
          bindS (cancel_intents x now is e) (\<lambda>e (ps, qs). (e, Inr (p # ps, q # qs)))))"

text \<open>\<open>_is_independent\<close>: enough time since the last independent decision.\<close>

definition is_independent ::
  "('f, 'v) paper_setup \<Rightarrow> int \<Rightarrow> ('f, 'v) paper_engine \<Rightarrow> ('f, 'v) paper_engine \<times> bool" where
  "is_independent x ts e =
     (let fresh = (case pe_last_independent_ts_ns e of
            None \<Rightarrow> True | Some t \<Rightarrow> py_decision_independence_ns (px_policy x) \<le> ts - t)
      in (if fresh then e\<lparr>pe_last_independent_ts_ns := Some ts\<rparr> else e, fresh))"

record order_outcome =
  oo_record :: decision_record
  oo_orders :: "paper_order list"
  oo_commands :: "execution_command list"

definition decision_record_of ::
  "('f, 'v) paper_setup \<Rightarrow> engine_call \<Rightarrow> feature_snapshot \<Rightarrow> order_intent \<Rightarrow> risk_decision \<Rightarrow> bool
     \<Rightarrow> ('f, 'v) paper_engine \<Rightarrow> decision_record" where
  "decision_record_of x c f i d fresh e =
     \<lparr>pd_record_id = ''decision-'' @ take 32 (nm_sha256 (px_naming x)
        (manifest_identity x @ '':'' @ rd_decision_id d)),
      pd_sequence = pe_sequence e, pd_decision_ts_ns = em_now c, pd_feature_snapshot_sha256 = px_feature_sha256 x f,
      pd_strategy_id = oi_strategy_id i, pd_intent = i, pd_risk_decision = d, pd_independent = fresh\<rparr>"

text \<open>An approved decision is consumed, a command issued and the order submitted.\<close>

definition submit_approved ::
  "('f, 'v) paper_setup \<Rightarrow> engine_call \<Rightarrow> nat \<Rightarrow> feature_snapshot \<Rightarrow> order_intent \<Rightarrow> risk_snapshot \<Rightarrow> risk_decision
     \<Rightarrow> ('f, 'v) paper_engine \<Rightarrow> ('f, 'v) paper_engine \<times> (paper_order \<times> execution_command) res" where
  "submit_approved x c k f i snapshot d e =
     bindS (on_authority (\<lambda>a. consume (px_authority x)
        \<lparr>rw_now = pe_now_ns e, rw_kill_active = em_kill c (3 * k + 4), rw_inflight = 0\<rparr> a d i snapshot) e) (\<lambda>e _.
     bindS (submit_command x i (rd_decision_id d) (px_feature_sha256 x f) (em_now c) e) (\<lambda>e q.
     bindS (on_sim (submit (px_naming x) i (em_now c)) e) (\<lambda>e p. (e, Inr (p, q)))))"

definition submit_intent ::
  "('f, 'v) paper_setup \<Rightarrow> engine_call \<Rightarrow> feature_snapshot \<Rightarrow> nat \<times> order_intent \<Rightarrow> ('f, 'v) paper_engine
     \<Rightarrow> ('f, 'v) paper_engine \<times> order_outcome res" where
  "submit_intent x c f ki e =
     (let k = fst ki; i = snd ki
      in bindS (liftR (risk_snapshot_of (em_kill c (3 * k + 2)) None e) e) (\<lambda>e snapshot.
         (let (a, d) = evaluate (px_authority x)
                \<lparr>rw_now = pe_now_ns e, rw_kill_active = em_kill c (3 * k + 3), rw_inflight = 0\<rparr>
                (em_decision_id c k) (pe_authority e) i snapshot;
              (e1, fresh) = is_independent x (oi_created_ts_ns i) (e\<lparr>pe_authority := a\<rparr>)
          in bindS (liftR (checked decision_record_error (decision_record_of x c f i d fresh e1)) e1) (\<lambda>e r.
             (let e2 = e\<lparr>pe_sequence := pe_sequence e + 1\<rparr>
              in if rd_allowed d
                 then bindS (submit_approved x c k f i snapshot d e2)
                        (\<lambda>e (p, q). (e, Inr \<lparr>oo_record = r, oo_orders = [p], oo_commands = [q]\<rparr>))
                 else (e2, Inr \<lparr>oo_record = r, oo_orders = [], oo_commands = []\<rparr>))))))"

definition submit_intents ::
  "('f, 'v) paper_setup \<Rightarrow> engine_call \<Rightarrow> feature_snapshot \<Rightarrow> order_intent list \<Rightarrow> ('f, 'v) paper_engine
     \<Rightarrow> ('f, 'v) paper_engine \<times> order_outcome list res" where
  "submit_intents x c f is = mapS (submit_intent x c f) (List.enumerate 0 is)"

definition engine_checkpoint_of :: "('f, 'v) paper_setup \<Rightarrow> int \<Rightarrow> ('f, 'v) paper_engine \<Rightarrow> engine_checkpoint" where
  "engine_checkpoint_of x ts e =
     \<lparr>ck_run_id = px_run x, ck_sequence = pe_sequence e, ck_checkpoint_ts_ns = ts,
      ck_strategy_id = strategy_id_of (px_strategy x), ck_strategy_memory_json = px_memory_json x (pe_memory e),
      ck_last_independent_decision_ts_ns = pe_last_independent_ts_ns e, ck_funding_rate = pe_funding_rate e,
      ck_next_funding_settlement_ns = pe_next_funding_ns e, ck_source_sequence = pe_source_sequence e\<rparr>"

record paper_cycle =
  pc_features :: feature_snapshot
  pc_market_structure :: smart_money_snapshot
  pc_strategy_decision :: kernel_decision
  pc_decisions :: "decision_record list"
  pc_orders :: "paper_order list"
  pc_fills :: "paper_fill list"
  pc_markouts :: "paper_markout list"
  pc_drift_report :: "drift_report option"
  pc_risk_state :: risk_state
  pc_risk_reasons :: "risk_reason list"
  pc_commands :: "execution_command list"

definition cycle_of ::
  "simulator_update \<Rightarrow> paper_markout list \<Rightarrow> risk_verdict \<Rightarrow> strategy_cycle
     \<Rightarrow> paper_order list \<times> execution_command list \<Rightarrow> order_outcome list \<Rightarrow> paper_cycle" where
  "cycle_of u ms v g canceled outcomes =
     \<lparr>pc_features = sg_features g, pc_market_structure = sg_structure g, pc_strategy_decision = sg_decision g,
      pc_decisions = map oo_record outcomes,
      pc_orders = su_orders u @ rv_orders v @ fst canceled @ concat (map oo_orders outcomes),
      pc_fills = su_fills u, pc_markouts = ms, pc_drift_report = sg_drift_report g,
      pc_risk_state = rv_state v, pc_risk_reasons = rv_reasons v,
      pc_commands = rv_commands v @ snd canceled @ concat (map oo_commands outcomes)\<rparr>"

text \<open>The checkpoint and the one transaction that records the cycle.\<close>

definition record_market_cycle ::
  "('f, 'v) paper_setup \<Rightarrow> int \<Rightarrow> strategy_evaluation \<Rightarrow> paper_cycle \<Rightarrow> ('f, 'v) paper_engine
     \<Rightarrow> ('f, 'v) paper_engine \<times> unit res" where
  "record_market_cycle x now w y e =
     bindS (liftR (checked engine_checkpoint_error (engine_checkpoint_of x now e)) e) (\<lambda>e checkpoint.
     bindS (on_journal (record_engine_cycle (px_vector x) (px_run x)
        \<lparr>er_orders = pc_orders y, er_fills = pc_fills y, er_account = ps_account (pe_sim e),
         er_feature = pc_features y, er_decisions = pc_decisions y, er_markouts = pc_markouts y,
         er_checkpoint = checkpoint, er_drift_report = pc_drift_report y, er_evaluation = w,
         er_commands = pc_commands y\<rparr>) e) (\<lambda>e _.
       (e\<lparr>pe_evaluation_sequence := pe_evaluation_sequence e + 1,
          pe_decision_count := pe_decision_count e + int (length (pc_decisions y)),
          pe_fill_count := pe_fill_count e + int (length (pc_fills y))\<rparr>, Inr ())))"

definition market_cycle ::
  "('f, 'v) paper_setup \<Rightarrow> engine_call \<Rightarrow> ('f, 'v) paper_engine \<Rightarrow> ('f, 'v) paper_engine \<times> paper_cycle res" where
  "market_cycle x c e =
     bindS (simulate_market x c e) (\<lambda>e (u, ms).
     bindS (assess_risk x c e) (\<lambda>e v.
     bindS (run_strategy x c (su_account u) v e) (\<lambda>e g.
     bindS (cancel_intents x (em_now c) (kd_cancel_intent_ids (sg_decision g)) e) (\<lambda>e canceled.
     bindS (submit_intents x c (sg_features g) (kd_submit (sg_decision g)) e) (\<lambda>e outcomes.
     (let y = cycle_of u ms v g canceled outcomes
      in bindS (record_market_cycle x (em_now c) (sg_evaluation g) y e) (\<lambda>e _. (e, Inr y))))))))"

definition on_market ::
  "('f, 'v) paper_setup \<Rightarrow> engine_call \<Rightarrow> ('f, 'v) paper_engine \<Rightarrow> ('f, 'v) paper_engine \<times> paper_cycle res" where
  "on_market x c e =
     (if source_regressed c e then (e, Inl (ValueError ''paper source sequences must be strictly increasing''))
      else if market_regressed c e then (e, Inl (ValueError ''paper market states must be strictly increasing''))
      else market_cycle x c (accept_market c e))"

section \<open>The watchdog\<close>

record watchdog_call =
  wc_now_ns :: int
  wc_recorder_connected :: bool
  wc_kill :: "nat \<Rightarrow> bool"

definition data_stale :: "('f, 'v) paper_setup \<Rightarrow> int \<Rightarrow> ('f, 'v) paper_engine \<Rightarrow> bool" where
  "data_stale x now e \<longleftrightarrow>
     (case pe_last_market e of None \<Rightarrow> True
      | Some m \<Rightarrow> rl_public_data_stale_after_ms (ae_limits (px_authority x)) * 1000000 < now - km_observed_ts_ns m)"

text \<open>Pending orders are activated only on fresh data, a live feed and an open switch.\<close>

definition watchdog_activate ::
  "('f, 'v) paper_setup \<Rightarrow> watchdog_call \<Rightarrow> ('f, 'v) paper_engine
     \<Rightarrow> ('f, 'v) paper_engine \<times> (paper_order list \<times> paper_fill list) res" where
  "watchdog_activate x c e =
     (case pe_last_market e of
        None \<Rightarrow> (e, Inr ([], []))
      | Some m \<Rightarrow>
          if data_stale x (wc_now_ns c) e \<or> \<not> wc_recorder_connected c \<or> wc_kill c 0 then (e, Inr ([], []))
          else bindS (on_sim (activate_pending (px_naming x) (wc_now_ns c) m None) e) (\<lambda>e u.
               bindS (synchronize_memory (wc_now_ns c) (remember_fills (su_fills u) e)) (\<lambda>e _.
                 (e, Inr (su_orders u, su_fills u)))))"

definition watchdog_orders ::
  "('f, 'v) paper_setup \<Rightarrow> watchdog_call \<Rightarrow> paper_order list \<Rightarrow> ('f, 'v) paper_engine
     \<Rightarrow> ('f, 'v) paper_engine \<times> paper_order list \<times> paper_order list" where
  "watchdog_orders x c activated e =
     (let (s, elapsed) = elapse (wc_now_ns c) (pe_sim e);
          (s', requested) =
            (if data_stale x (wc_now_ns c) e \<or> \<not> wc_recorder_connected c \<or> wc_kill c 0
             then request_cancel_all (wc_now_ns c) s else (s, []))
      in (e\<lparr>pe_sim := s'\<rparr>, activated @ elapsed @ requested, requested))"

definition record_watchdog ::
  "('f, 'v) paper_setup \<Rightarrow> int \<Rightarrow> paper_order list \<Rightarrow> paper_fill list \<Rightarrow> paper_order list
     \<Rightarrow> ('f, 'v) paper_engine \<Rightarrow> ('f, 'v) paper_engine \<times> unit res" where
  "record_watchdog x now changed fills requested e =
     (if changed = [] \<and> fills = [] then (e, Inr ())
      else bindS (cancel_commands x requested CMD_CANCEL_ALL now e) (\<lambda>e commands.
           bindS (on_journal (record_cycle (px_run x) changed fills (ps_account (pe_sim e)) commands) e) (\<lambda>e _.
           bindS (liftR (checked engine_checkpoint_error (engine_checkpoint_of x now e)) e) (\<lambda>e checkpoint.
           bindS (on_journal (record_checkpoint checkpoint) e) (\<lambda>e _.
             (e\<lparr>pe_fill_count := pe_fill_count e + int (length fills),
                pe_last_watchdog := \<lparr>wu_orders = changed, wu_fills = fills, wu_markouts = []\<rparr>\<rparr>, Inr ()))))))"

definition record_watchdog_drills ::
  "('f, 'v) paper_setup \<Rightarrow> watchdog_call \<Rightarrow> bool \<Rightarrow> risk_state \<Rightarrow> risk_reason list
     \<Rightarrow> ('f, 'v) paper_engine \<Rightarrow> ('f, 'v) paper_engine \<times> unit res" where
  "record_watchdog_drills x c stale st reasons e =
     (if open_orders (pe_sim e) \<noteq> [] then (e, Inr ())
      else bindS (record_economic_drills x reasons (wc_now_ns c) e) (\<lambda>e _.
           bindS (if wc_kill c 0 \<and> st = HALTED
                  then on_journal (record_drill (px_run x) ''operator_kill'' (wc_now_ns c)
                         ''risk authority halted and all paper orders were canceled'') e
                  else (e, Inr ())) (\<lambda>e _.
             (if stale \<and> PUBLIC_DATA_STALE \<in> set reasons
              then on_journal (record_drill (px_run x) ''stale_data'' (wc_now_ns c)
                     ''risk authority entered cancel-only and all paper orders were canceled'') e
              else (e, Inr ())))))"

definition watchdog ::
  "('f, 'v) paper_setup \<Rightarrow> watchdog_call \<Rightarrow> ('f, 'v) paper_engine \<Rightarrow> ('f, 'v) paper_engine \<times> risk_reason list res" where
  "watchdog x c e =
     (let now = wc_now_ns c;
          e0 = e\<lparr>pe_now_ns := now, pe_feed_connected := wc_recorder_connected c, pe_last_watchdog := no_watchdog_update\<rparr>;
          stale = data_stale x now e0
      in bindS (watchdog_activate x c e0) (\<lambda>e (activated, fills).
         (let (e1, changed, requested) = watchdog_orders x c activated e
          in bindS (record_watchdog x now changed fills requested e1) (\<lambda>e _.
             (if pe_last_market e = None then (e, Inr [])
              else bindS (liftR (risk_snapshot_of (wc_kill c 1) (Some now) e) e) (\<lambda>e snapshot.
                   (let (st, reasons) = assess_state (ae_limits (px_authority x)) (wc_kill c 2) snapshot (pe_now_ns e)
                    in bindS (record_watchdog_drills x c stale st reasons e) (\<lambda>e _. (e, Inr reasons)))))))))"

section \<open>Context and drills\<close>

definition update_context :: "dec option \<Rightarrow> int option \<Rightarrow> ('f, 'v) paper_engine \<Rightarrow> ('f, 'v) paper_engine" where
  "update_context rate next_funding e =
     (let e1 = (case rate of None \<Rightarrow> e | Some r \<Rightarrow> e\<lparr>pe_funding_rate := r\<rparr>)
      in case next_funding of
           None \<Rightarrow> e1
         | Some t \<Rightarrow>
             (case pe_next_funding_ns e1 of
                None \<Rightarrow> e1\<lparr>pe_next_funding_ns := Some t\<rparr>
              | Some k \<Rightarrow> if k < t then e1\<lparr>pe_next_funding_ns := Some t\<rparr> else e1))"

definition confirm_restart_drill ::
  "('f, 'v) paper_setup \<Rightarrow> int \<Rightarrow> ('f, 'v) paper_engine \<Rightarrow> ('f, 'v) paper_engine \<times> unit res" where
  "confirm_restart_drill x now e =
     (if open_orders (pe_sim e) \<noteq> [] then (e, Inr ())
      else on_journal (record_drill (px_run x) ''restart'' now
             ''restored account and strategy checkpoint with zero unreconciled open orders'') e)"

definition feature_ready :: "('f, 'v) paper_setup \<Rightarrow> ('f \<Rightarrow> bool) \<Rightarrow> ('f, 'v) paper_engine \<Rightarrow> bool" where
  "feature_ready x ready e \<longleftrightarrow>
     ready (pe_features e)
   \<and> (case px_strategy x of Reactive_Strategy _ \<Rightarrow> structure_ready (px_structure x) (pe_structure e) | _ \<Rightarrow> True)"

section \<open>Start and restart\<close>

text \<open>What is read of the journal before anything is written.\<close>

definition restored_simulator :: "('f, 'v) paper_setup \<Rightarrow> 'v paper_journal \<Rightarrow> paper_sim res" where
  "restored_simulator x j =
     bindE (latest_account (px_run x) j) (\<lambda>account.
     bindE (restore_open_orders (px_run x) j) (\<lambda>orders.
     bindE (latest_checkpoint (px_run x) j) (\<lambda>_.
       new_paper_sim (px_scenario x) (px_initial_equity_usd x) (px_initial_mark_price x) (px_started_ts_ns x)
         account orders (px_run x))))"

definition restored_structure :: "('f, 'v) paper_setup \<Rightarrow> 'v paper_journal \<Rightarrow> structure_state" where
  "restored_structure x j =
     (case latest_structure_state (px_run x) j of
        None \<Rightarrow> new_structure_state | Some s \<Rightarrow> restore_structure_state s)"

definition restored_memory :: "('f, 'v) paper_setup \<Rightarrow> engine_checkpoint option \<Rightarrow> paper_memory res" where
  "restored_memory x checkpoint =
     (case checkpoint of None \<Rightarrow> Inr (first_memory (px_strategy x))
      | Some c \<Rightarrow> px_memory_of_json x (ck_strategy_memory_json c))"

text \<open>The attributes set from simulator, checkpoint and journal.\<close>

definition assembled_engine ::
  "('f, 'v) paper_setup \<Rightarrow> paper_sim \<Rightarrow> engine_checkpoint option \<Rightarrow> bool \<Rightarrow> 'v list \<Rightarrow> paper_memory
     \<Rightarrow> paper_fill list \<Rightarrow> 'v paper_journal \<Rightarrow> ('f, 'v) paper_engine" where
  "assembled_engine x s checkpoint resumed vectors memory fills j =
     (let run = px_run x
      in \<lparr>pe_now_ns = px_started_ts_ns x, pe_last_market = None, pe_feed_connected = True,
          pe_features = px_new_features x, pe_structure = restored_structure x j,
          pe_persisted_revision = (case latest_structure_state run j of None \<Rightarrow> - 1 | Some q \<Rightarrow> cs_revision q),
          pe_last_structure = None, pe_last_decision = no_decision, pe_last_watchdog = no_watchdog_update,
          pe_sim = s, pe_journal = j, pe_resumed = resumed,
          pe_command_sequence = next_command_sequence run j,
          pe_evaluation_sequence = next_evaluation_sequence run j,
          pe_drift = new_drift_monitor (px_policy x) vectors, pe_memory = memory,
          pe_sequence = (case checkpoint of None \<Rightarrow> 0 | Some c \<Rightarrow> ck_sequence c),
          pe_last_independent_ts_ns = Option.bind checkpoint ck_last_independent_decision_ts_ns,
          pe_funding_rate = (case checkpoint of None \<Rightarrow> 0 | Some c \<Rightarrow> ck_funding_rate c),
          pe_next_funding_ns = Option.bind checkpoint ck_next_funding_settlement_ns,
          pe_source_sequence = Option.bind checkpoint ck_source_sequence,
          pe_pending_markouts = fold (\<lambda>f. AList.update (fl_fill_id f) f) fills [],
          pe_authority = new_authority, pe_decision_count = 0, pe_fill_count = 0\<rparr>)"

definition build_engine ::
  "('f, 'v) paper_setup \<Rightarrow> paper_sim \<Rightarrow> bool \<Rightarrow> 'v paper_journal \<Rightarrow> ('f, 'v) paper_engine res" where
  "build_engine x s resumed j =
     (let run = px_run x; p = px_policy x
      in bindE (latest_checkpoint run j) (\<lambda>checkpoint.
         bindE (feature_vectors run (py_drift_baseline_samples p) (py_drift_window_samples p) j) (\<lambda>vectors.
         bindE (restored_memory x checkpoint) (\<lambda>memory.
         bindE (pending_markout_fills run (px_markout_horizon_ns x) j) (\<lambda>fills.
           Inr (assembled_engine x s checkpoint resumed vectors memory fills j))))))"

text \<open>A resumed run: every restored order is asked to be cancelled.\<close>

definition reconcile_restart ::
  "('f, 'v) paper_setup \<Rightarrow> ('f, 'v) paper_engine \<Rightarrow> ('f, 'v) paper_engine \<times> unit res" where
  "reconcile_restart x e =
     (if \<not> pe_resumed e then (e, Inr ())
      else
        (let started = px_started_ts_ns x; (s, pending) = request_cancel_all started (pe_sim e)
         in bindS (cancel_commands x pending CMD_CANCEL_ALL started (e\<lparr>pe_sim := s\<rparr>)) (\<lambda>e commands.
            bindS (on_journal (record_cycle (px_run x) pending [] (ps_account (pe_sim e)) commands) e) (\<lambda>e _.
              on_journal (record_event (px_run x) started ''restart_reconciliation''
                (''restored and cancel-requested '' @ py_str (int (length pending)) @ '' open paper orders'')) e))))"

definition count_recorded ::
  "('f, 'v) paper_setup \<Rightarrow> ('f, 'v) paper_engine \<Rightarrow> ('f, 'v) paper_engine \<times> unit res" where
  "count_recorded x e =
     bindS (liftR (statistics (px_run x) (pe_journal e)) e) (\<lambda>e t.
       (e\<lparr>pe_decision_count := st_approved_decisions t + st_denied_decisions t, pe_fill_count := st_fills t\<rparr>, Inr ()))"

text \<open>The constructor: the journal it leaves, and the engine.\<close>

definition start_engine ::
  "('f, 'v) paper_setup \<Rightarrow> 'v paper_journal \<Rightarrow> 'v paper_journal \<times> ('f, 'v) paper_engine res" where
  "start_engine x j =
     bindS (liftR (restored_simulator x j) j) (\<lambda>j s.
     bindS (begin_run (px_manifest_sha256 x) (px_manifest x) (ps_account s) j) (\<lambda>j resumed.
     bindS (liftR (build_engine x s resumed j) j) (\<lambda>_ e.
       (case bindS (reconcile_restart x e) (\<lambda>e _. count_recorded x e) of
          (e', Inl err) \<Rightarrow> (pe_journal e', Inl err)
        | (e', Inr _) \<Rightarrow> (pe_journal e', Inr e')))))"

end
