(* ===== verification/Paper_Recovery.thy ===== *)
theory Paper_Recovery
  imports Paper_Engine Journal_Safety
begin

text \<open>
  The paper engine and its journal together: the journal mirrors what the engine would need after a
  crash. The first part shows that every operation of the simulator reports all the orders it changes;
  the second that every recorded cycle carries them into the journal; the third that a restart finds
  the same orders, account, strategy memory, drift windows and counters again.
\<close>

section \<open>The simulator reports what it changes\<close>

definition applied :: "paper_order list \<Rightarrow> (string \<Rightarrow> paper_order option) \<Rightarrow> string \<Rightarrow> paper_order option" where
  "applied ps m = foldl (\<lambda>m p. m(po_paper_order_id p \<mapsto> p)) m ps"

lemma applied_simps [simp]:
  "applied [] m = m" "applied (p # ps) m = applied ps (m(po_paper_order_id p \<mapsto> p))"
  "applied (ps @ qs) m = applied qs (applied ps m)"
  by (simp_all add: applied_def)

lemma order_at_store_upd: "order_at (store_order p s) = (order_at s)(po_paper_order_id p \<mapsto> p)"
  by (simp add: fun_eq_iff)

definition entries_ok :: "(string \<times> paper_order) list \<Rightarrow> bool" where
  "entries_ok c \<longleftrightarrow> distinct (map fst c) \<and> (\<forall>(i, p) \<in> set c. i = po_paper_order_id p)"

lemma in_set_update: "x \<in> set (AList.update k v c) \<Longrightarrow> x = (k, v) \<or> x \<in> set c"
  by (induction c) (auto split: if_splits)

lemma entries_ok_update: "entries_ok c \<Longrightarrow> entries_ok (AList.update (po_paper_order_id p) p c)"
  by (auto simp: entries_ok_def AList.distinct_update dest!: in_set_update)

lemma applied_entries:
  "entries_ok c \<Longrightarrow> applied (map snd c) m = m ++ map_of c"
proof (induction c arbitrary: m)
  case (Cons ip c)
  obtain i p where ip: "ip = (i, p)" by (cases ip)
  with Cons.prems have i: "i = po_paper_order_id p" "i \<notin> dom (map_of c)" and c: "entries_ok c"
    by (auto simp: entries_ok_def dom_map_of_conv_image_fst)
  from Cons.IH [OF c] ip i show ?case by (auto simp: fun_eq_iff map_add_def split: option.splits)
qed simp

text \<open>The book of a simulator: one entry per order, under the name its intent gives it.\<close>

definition named :: "naming \<Rightarrow> string \<Rightarrow> paper_order \<Rightarrow> bool" where
  "named nm ns p \<longleftrightarrow> po_paper_order_id p = name_of nm ns (oi_intent_id (po_intent p))"

definition book_named :: "naming \<Rightarrow> paper_sim \<Rightarrow> bool" where
  "book_named nm s \<longleftrightarrow> entries_ok (ps_orders s) \<and> list_all (\<lambda>kp. named nm (ps_namespace s) (snd kp)) (ps_orders s)"

lemma named_same:
  "po_paper_order_id q = po_paper_order_id p \<Longrightarrow> po_intent q = po_intent p \<Longrightarrow> named nm ns q = named nm ns p"
  by (simp add: named_def)

lemma book_named_store: "book_named nm s \<Longrightarrow> named nm (ps_namespace s) p \<Longrightarrow> book_named nm (store_order p s)"
  by (auto simp: book_named_def store_order_def entries_ok_update list_all_iff dest!: in_set_update)

lemma book_named_cong: "ps_orders t = ps_orders s \<Longrightarrow> ps_namespace t = ps_namespace s \<Longrightarrow> book_named nm t = book_named nm s"
  by (simp add: book_named_def)

lemma book_named_open: "book_named nm s \<Longrightarrow> p \<in> set (open_orders s) \<Longrightarrow> named nm (ps_namespace s) p"
  by (auto simp: book_named_def open_orders_def list_all_iff)

text \<open>A running call: the changed orders cover every difference to the simulator it started from, and what it
  has reported as fills is valid.\<close>

definition call_tracks :: "naming \<Rightarrow> paper_sim \<Rightarrow> sim_call \<Rightarrow> bool" where
  "call_tracks nm s k \<longleftrightarrow>
     order_at (sc_sim k) = order_at s ++ map_of (sc_changed k) \<and> entries_ok (sc_changed k)
   \<and> list_all (\<lambda>f. paper_fill_error f = None) (sc_fills k)
   \<and> ps_namespace (sc_sim k) = ps_namespace s \<and> (book_named nm s \<longrightarrow> book_named nm (sc_sim k))"

lemma call_tracks_store:
  "call_tracks nm s k \<Longrightarrow> (book_named nm s \<Longrightarrow> named nm (ps_namespace s) p) \<Longrightarrow> call_tracks nm s (call_store p k)"
  by (simp add: call_tracks_def call_store_def order_at_store_upd entries_ok_update AList.update_conv' book_named_store)

lemma call_tracks_open:
  "call_tracks nm s k \<Longrightarrow> book_named nm s \<Longrightarrow> p \<in> set (open_orders (sc_sim k)) \<Longrightarrow> named nm (ps_namespace s) p"
  using book_named_open [of nm "sc_sim k" p] by (simp add: call_tracks_def)

lemma call_tracks_account:
  "call_tracks nm s k \<Longrightarrow> ps_orders t = ps_orders (sc_sim k) \<Longrightarrow> ps_namespace t = ps_namespace (sc_sim k) \<Longrightarrow>
     list_all (\<lambda>f. paper_fill_error f = None) fs \<Longrightarrow>
     call_tracks nm s (k\<lparr>sc_sim := t, sc_fills := sc_fills k @ fs\<rparr>)"
  using book_named_cong [of t "sc_sim k"] by (simp add: call_tracks_def)

text \<open>A fill changes the account only, and is a valid record.\<close>

definition fills_only :: "paper_sim \<Rightarrow> paper_sim \<Rightarrow> paper_fill list \<Rightarrow> bool" where
  "fills_only s t fs \<longleftrightarrow>
     ps_orders t = ps_orders s \<and> ps_namespace t = ps_namespace s \<and> list_all (\<lambda>f. paper_fill_error f = None) fs"

lemma fill_order_only:
  "fill_order nm p q price maker ts s = (t, r) \<Longrightarrow> fills_only s t (case r of Inl _ \<Rightarrow> [] | Inr f \<Rightarrow> [f])"
  by (auto simp: fill_order_def fills_only_def Let_def split: option.splits sum.splits)

lemma taker_fills_only:
  "taker_fills nm p goal now ls remaining fills s = (t, r) \<Longrightarrow> list_all (\<lambda>f. paper_fill_error f = None) fills \<Longrightarrow>
     fills_only s t (case r of Inl _ \<Rightarrow> [] | Inr (_, fs) \<Rightarrow> fs)"
proof (induction ls arbitrary: remaining fills s)
  case Nil
  then show ?case by (auto simp: fills_only_def)
next
  case (Cons l ls)
  let ?q = "min remaining (level_quantity (ps_scenario s) l)"
  show ?case
  proof (cases "?q \<le> 0")
    case True
    with Cons show ?thesis by (simp add: Let_def)
  next
    case False
    obtain s1 r1 where f: "fill_order nm (p\<lparr>po_filled_quantity_base := dsub (dadd (po_filled_quantity_base p) goal) remaining\<rparr>)
        ?q (taker_price (ps_scenario s) (po_intent p) l) False now s = (s1, r1)" by fastforce
    note one = fill_order_only [OF f]
    show ?thesis
    proof (cases r1)
      case (Inl e)
      with f False Cons.prems(1) one show ?thesis by (auto simp: Let_def)
    next
      case (Inr g)
      have ok: "list_all (\<lambda>f. paper_fill_error f = None) (fills @ [g])"
        using one Inr Cons.prems(2) by (simp add: fills_only_def)
      show ?thesis
      proof (cases "dsub remaining ?q = 0")
        case True
        with f False Cons.prems(1) one Inr ok show ?thesis by (auto simp: Let_def fills_only_def)
      next
        case no: False
        with f False Cons.prems(1) Inr
        have "taker_fills nm p goal now ls (dsub remaining ?q) (fills @ [g]) s1 = (t, r)" by (simp add: Let_def)
        from Cons.IH [OF this ok] one Inr show ?thesis by (simp add: fills_only_def)
      qed
    qed
  qed
qed

lemma execute_taker_only:
  assumes "execute_taker nm p m now s = (t, r)"
  shows "fills_only s t (case r of Inl _ \<Rightarrow> [] | Inr (_, fs) \<Rightarrow> fs)"
proof -
  let ?ls = "taker_levels (po_intent p) m"
  let ?goal = "if es_allow_partial_fills (ps_scenario s)
     then min (remaining_quantity_base p) (dsum (map (level_quantity (ps_scenario s)) ?ls)) else remaining_quantity_base p"
  obtain s1 r1 where f: "taker_fills nm p ?goal now ?ls ?goal [] s = (s1, r1)" by fastforce
  from taker_fills_only [OF f] assms f show ?thesis
    by (auto simp: execute_taker_def Let_def fills_only_def split: if_splits sum.splits)
qed

lemma execute_taker_same:
  "execute_taker nm p m now s = (t, Inr (q, fs)) \<Longrightarrow> po_paper_order_id q = po_paper_order_id p \<and> po_intent q = po_intent p"
  by (auto simp: execute_taker_def Let_def bindS_def split: if_splits sum.splits prod.splits)

lemma activate_same:
  "Paper_Exchange.activate nm p m now s = (t, Inr (q, fs)) \<Longrightarrow>
     po_paper_order_id q = po_paper_order_id p \<and> po_intent q = po_intent p"
  by (auto simp: Paper_Exchange.activate_def Let_def split: if_splits option.splits dest: execute_taker_same)

lemma activate_only:
  assumes "Paper_Exchange.activate nm p m now s = (t, r)"
  shows "fills_only s t (case r of Inl _ \<Rightarrow> [] | Inr (_, fs) \<Rightarrow> fs)"
proof (cases "t = s \<and> (r = Inl AssertionError \<or> (\<exists>q. r = Inr (q, [])))")
  case True
  then show ?thesis by (auto simp: fills_only_def)
next
  case False
  with assms have "execute_taker nm p m now s = (t, r)"
    by (auto simp: Paper_Exchange.activate_def Let_def split: if_splits option.splits)
  then show ?thesis by (rule execute_taker_only)
qed

lemma activate_one_tracks:
  assumes k: "call_tracks nm s k" and p: "book_named nm s \<Longrightarrow> named nm (ps_namespace s) p"
  shows "call_tracks nm s (fst (activate_one nm m now p k))"
proof -
  obtain t r where a: "Paper_Exchange.activate nm p m now (sc_sim k) = (t, r)" by fastforce
  note only = activate_only [OF a]
  show ?thesis
  proof (cases r)
    case (Inl e)
    with only a call_tracks_account [OF k, of t "[]"] show ?thesis by (simp add: activate_one_def fills_only_def call_tracks_def)
  next
    case (Inr x)
    obtain q fs where x: "x = (q, fs)" by (cases x)
    have "call_tracks nm s (k\<lparr>sc_sim := t, sc_fills := sc_fills k @ fs\<rparr>)"
      using only Inr x by (intro call_tracks_account [OF k]) (simp_all add: fills_only_def)
    from call_tracks_store [OF this, of q] activate_same [of nm p m now "sc_sim k" t q fs] p a Inr x show ?thesis
      by (simp add: named_def activate_one_def call_store_def call_tracks_def)
  qed
qed

lemma match_orders_tracks:
  "call_tracks nm s k \<Longrightarrow> (book_named nm s \<Longrightarrow> list_all (named nm (ps_namespace s)) ps) \<Longrightarrow>
     call_tracks nm s (fst (match_orders nm now ps available k))"
proof (induction ps arbitrary: available k)
  case (Cons p ps)
  define av where "av = dsub available (min (po_queue_ahead_base p) available)"
  define queue where "queue = dsub (po_queue_ahead_base p) (min (po_queue_ahead_base p) available)"
  define q where "q = min (remaining_quantity_base p) av"
  consider (stop) "available \<le> 0" | (queue) "\<not> available \<le> 0" "av \<le> 0"
    | (skip) "\<not> available \<le> 0" "\<not> av \<le> 0" "\<not> es_allow_partial_fills (ps_scenario (sc_sim k)) \<and> q < remaining_quantity_base p"
    | (fill) "\<not> available \<le> 0" "\<not> av \<le> 0" "\<not> (\<not> es_allow_partial_fills (ps_scenario (sc_sim k)) \<and> q < remaining_quantity_base p)"
    by blast
  then show ?case
  proof cases
    case queue
    then show ?thesis using Cons.IH [OF call_tracks_store [OF Cons.prems(1)], of _ "av"] Cons.prems(2)
      by (simp add: Let_def av_def [symmetric] queue_def [symmetric] named_def)
  next
    case fill
    show ?thesis
    proof (cases "oi_limit_price (po_intent p)")
      case None
      with fill Cons.prems show ?thesis by (auto simp: Let_def av_def [symmetric] q_def [symmetric])
    next
      case (Some price)
      obtain t r where f: "fill_order nm p q price True now (sc_sim k) = (t, r)" by fastforce
      note only = fill_order_only [OF f]
      show ?thesis
      proof (cases r)
        case (Inl e)
        with only call_tracks_account [OF Cons.prems(1), of t "[]"] Some f fill show ?thesis
          by (auto simp: Let_def av_def [symmetric] q_def [symmetric] fills_only_def call_tracks_def)
      next
        case (Inr g)
        have "call_tracks nm s (k\<lparr>sc_sim := t, sc_fills := sc_fills k @ [g]\<rparr>)"
          using only Inr by (intro call_tracks_account [OF Cons.prems(1)]) (simp_all add: fills_only_def)
        from call_tracks_store [OF this, of "maker_filled p q queue now"] Cons.prems(2)
        have "call_tracks nm s (call_store (maker_filled p q queue now) (k\<lparr>sc_sim := t, sc_fills := sc_fills k @ [g]\<rparr>))"
          by (simp add: maker_filled_def Let_def named_def)
        from Cons.IH [OF this] Cons.prems(2) Some f fill Inr show ?thesis
          by (auto simp: Let_def av_def [symmetric] q_def [symmetric] queue_def [symmetric])
      qed
    qed
  qed (use Cons in \<open>auto simp: Let_def av_def [symmetric] q_def [symmetric]\<close>)
qed simp

lemma match_trade_tracks: "call_tracks nm s k \<Longrightarrow> call_tracks nm s (fst (match_trade nm now t k))"
  unfolding match_trade_def Let_def by (auto intro!: match_orders_tracks simp: list_all_iff dest: call_tracks_open)

lemma cancel_due_tracks:
  assumes "call_tracks nm s k"
  shows "call_tracks nm s (cancel_due_orders now k)"
proof -
  have "call_tracks nm s (fold call_store ps k)"
    if "call_tracks nm s k" "\<And>p. book_named nm s \<Longrightarrow> p \<in> set ps \<Longrightarrow> named nm (ps_namespace s) p" for ps k
    using that by (induction ps arbitrary: k) (simp_all add: call_tracks_store)
  moreover have "named nm (ps_namespace s) p"
    if "book_named nm s" "p \<in> set (map (canceled_at now) (filter (cancel_due now) (open_orders (sc_sim k))))" for p
    using that call_tracks_open [OF assms that(1)] by (auto simp: canceled_at_def named_def)
  ultimately show ?thesis using assms unfolding cancel_due_orders_def by blast
qed

lemma start_call_tracks: "call_tracks nm s (start_call m mark now s)"
  unfolding start_call_def
  by (rule cancel_due_tracks) (simp add: call_tracks_def mark_sim_def entries_ok_def book_named_def)

lemma activate_due_tracks: "call_tracks nm s k \<Longrightarrow> call_tracks nm s (fst (activate_due_orders nm m now k))"
  unfolding activate_due_orders_def
  by (rule foldS_keeps) (auto intro!: activate_one_tracks dest: call_tracks_open)

definition reports :: "naming \<Rightarrow> paper_sim \<Rightarrow> paper_sim \<times> simulator_update res \<Rightarrow> bool" where
  "reports nm s r \<longleftrightarrow> (case r of (t, Inl _) \<Rightarrow> True
     | (t, Inr u) \<Rightarrow> order_at t = applied (su_orders u) (order_at s) \<and> ps_namespace t = ps_namespace s
         \<and> list_all (\<lambda>f. paper_fill_error f = None) (su_fills u) \<and> (book_named nm s \<longrightarrow> book_named nm t)
         \<and> su_account u = ps_account t)"

lemma finish_call_reports: "call_tracks nm s (fst r) \<Longrightarrow> reports nm s (finish_call mark now r)"
  by (auto simp: reports_def finish_call_def call_tracks_def applied_entries mark_sim_def Let_def book_named_def
      split: prod.splits sum.splits)

lemma advance_reports: "reports nm s (advance nm m mark s)"
proof -
  let ?now = "km_observed_ts_ns m"
  have "call_tracks nm s (fst (bindS (activate_due_orders nm m ?now (start_call m mark ?now s))
      (\<lambda>k _. foldS (match_trade nm ?now) (km_trades m) k)))"
  proof (rule bindS_keeps)
    show "call_tracks nm s (fst (activate_due_orders nm m ?now (start_call m mark ?now s)))"
      by (rule activate_due_tracks [OF start_call_tracks])
    fix k
    assume "call_tracks nm s k"
    then show "call_tracks nm s (fst (foldS (match_trade nm ?now) (km_trades m) k))"
      by (rule foldS_keeps [rotated]) (rule match_trade_tracks)
  qed
  then show ?thesis unfolding advance_def Let_def by (rule finish_call_reports)
qed

lemma activate_pending_reports: "reports nm s (activate_pending nm now m mark s)"
  using finish_call_reports [OF activate_due_tracks [OF start_call_tracks]]
  by (simp add: activate_pending_def reports_def)

text \<open>The operations without a market: what they return is what they change.\<close>

definition traces :: "naming \<Rightarrow> paper_sim \<Rightarrow> paper_sim \<times> paper_order list \<Rightarrow> bool" where
  "traces nm s r \<longleftrightarrow>
     order_at (fst r) = applied (snd r) (order_at s) \<and> ps_namespace (fst r) = ps_namespace s
   \<and> (book_named nm s \<longrightarrow> book_named nm (fst r))"

lemma traces_store: "(book_named nm s \<Longrightarrow> named nm (ps_namespace s) p) \<Longrightarrow> traces nm s (store_order p s, [p])"
  by (simp add: traces_def order_at_store_upd book_named_store)

lemma traces_trans: "traces nm s (t, ps) \<Longrightarrow> traces nm t (u, qs) \<Longrightarrow> traces nm s (u, ps @ qs)"
  by (simp add: traces_def)

lemma traces_refl: "traces nm s (s, [])"
  by (simp add: traces_def)

lemma request_cancel_traces: "traces nm s (fst (request_cancel i t s), opt_list (snd (request_cancel i t s)))"
proof (cases "find_open_intent i s")
  case (Some p)
  then have "p \<in> set (open_orders s)" by (auto simp: find_open_intent_def dest: find_Some_in)
  then show ?thesis using Some book_named_open [of nm s p]
    by (auto simp: request_cancel_def Let_def named_def intro!: traces_store)
qed (simp add: request_cancel_def traces_refl)

lemma cancel_each_traces: "traces nm s (cancel_each is t s)"
proof (induction "is" arbitrary: s)
  case (Cons i "is")
  obtain s1 r where a: "request_cancel i t s = (s1, r)" by fastforce
  obtain s2 ps where b: "cancel_each is t s1 = (s2, ps)" by fastforce
  have "traces nm s (s1, opt_list r)" using request_cancel_traces [of nm s i t] a by simp
  moreover have "traces nm s1 (s2, ps)" using Cons.IH [of s1] b by simp
  ultimately show ?case using a b traces_trans by fastforce
qed (simp add: traces_refl)

lemma request_cancel_all_traces: "traces nm s (request_cancel_all t s)"
  by (simp add: request_cancel_all_def cancel_each_traces)

lemma elapse_traces: "traces nm s (elapse t s)"
proof -
  have book: "book_named nm s \<Longrightarrow> list_all (named nm (ps_namespace s)) ps \<Longrightarrow> book_named nm (fold store_order ps s)" for ps
    by (induction ps arbitrary: s) (simp_all add: book_named_store)
  have "order_at (fold store_order ps s) = applied ps (order_at s) \<and> ps_namespace (fold store_order ps s) = ps_namespace s" for ps
    by (induction ps arbitrary: s) (simp_all add: order_at_store_upd del: order_at_store)
  moreover have "list_all (named nm (ps_namespace s)) (map (canceled_at t) (filter (cancel_due t) (open_orders s)))" if "book_named nm s"
    using book_named_open [OF that] by (auto simp: list_all_iff canceled_at_def named_def)
  ultimately show ?thesis by (simp add: elapse_def Let_def traces_def book)
qed

lemma submit_traces:
  assumes "submit nm i t s = (s', Inr p)"
  shows "traces nm s (s', [p])"
proof -
  let ?s = "s\<lparr>ps_intent_ids := oi_intent_id i # ps_intent_ids s\<rparr>"
  have s': "s' = store_order p ?s" "p = submitted_order nm i t s"
    using assms by (auto simp: submit_def Let_def mk_paper_order_def split: if_splits option.splits)
  have "traces nm ?s (store_order p ?s, [p])"
    by (rule traces_store) (simp add: s'(2) submitted_order_def Let_def named_def name_of_def)
  then show ?thesis using s'(1) book_named_cong [of ?s s nm] by (simp add: traces_def)
qed

section \<open>What a recorded cycle leaves in the journal\<close>

abbreviation entry :: "string \<Rightarrow> 'a \<Rightarrow> 'a entry" where
  "entry run x \<equiv> \<lparr>en_run_id = run, en_value = x\<rparr>"

definition journal_order :: "'v paper_journal \<Rightarrow> string \<Rightarrow> paper_order option" where
  "journal_order j k = map_option jo_order (find (\<lambda>r. po_paper_order_id (jo_order r) = k) (pj_orders j))"

definition orders_of_run :: "string \<Rightarrow> 'v paper_journal \<Rightarrow> bool" where
  "orders_of_run run j \<longleftrightarrow> list_all (\<lambda>r. jo_run_id r = run) (pj_orders j)"

lemma find_map_same:
  "(\<And>r. P (f r) = P r) \<Longrightarrow> find P (map f rs) = map_option f (find P rs)"
  by (induction rs) auto

lemma find_snoc_row: "find P (rs @ [r]) = (case find P rs of None \<Rightarrow> if P r then Some r else None | Some q \<Rightarrow> Some q)"
  by (induction rs) auto

definition orders_moved :: "string \<Rightarrow> paper_order list \<Rightarrow> 'v paper_journal \<Rightarrow> 'v paper_journal \<Rightarrow> bool" where
  "orders_moved run ps j k \<longleftrightarrow> journal_order k = applied ps (journal_order j)
     \<and> (orders_of_run run j \<longrightarrow> orders_of_run run k)
     \<and> (keyed (\<lambda>r. po_paper_order_id (jo_order r)) (pj_orders j) \<longrightarrow> keyed (\<lambda>r. po_paper_order_id (jo_order r)) (pj_orders k))"

lemma orders_moved_cong:
  "pj_orders j' = pj_orders j \<Longrightarrow> pj_orders k' = pj_orders k \<Longrightarrow> orders_moved run ps j' k' = orders_moved run ps j k"
  by (simp add: orders_moved_def journal_order_def [abs_def] orders_of_run_def)

lemma orders_moved_trans: "orders_moved run ps j k \<Longrightarrow> orders_moved run qs k l \<Longrightarrow> orders_moved run (ps @ qs) j l"
  by (simp add: orders_moved_def)

lemma upsert_order_Inr:
  assumes "upsert_order run p j = Inr k"
  shows "orders_moved run [p] j k \<and> k = j\<lparr>pj_orders := pj_orders k\<rparr>"
proof (cases "list_ex (\<lambda>r. po_paper_order_id (jo_order r) = po_paper_order_id p) (pj_orders j)")
  case True
  let ?upd = "\<lambda>r. if po_paper_order_id (jo_order r) = po_paper_order_id p then r\<lparr>jo_order := p\<rparr> else r"
  have k: "k = j\<lparr>pj_orders := map ?upd (pj_orders j)\<rparr>" using assms True by (simp add: upsert_order_def)
  have find: "find (\<lambda>r. po_paper_order_id (jo_order r) = i) (map ?upd rs)
      = map_option ?upd (find (\<lambda>r. po_paper_order_id (jo_order r) = i) rs)" for i rs
    by (rule find_map_same) simp
  have "journal_order k i = ((journal_order j)(po_paper_order_id p \<mapsto> p)) i" for i
  proof (cases "find (\<lambda>r. po_paper_order_id (jo_order r) = i) (pj_orders j)")
    case None
    with True have "i \<noteq> po_paper_order_id p" by (auto simp: find_None_iff list_ex_iff)
    with None show ?thesis unfolding journal_order_def k by (simp add: find del: map_map)
  next
    case (Some r)
    then have "po_paper_order_id (jo_order r) = i" using find_Some_in [of _ "pj_orders j" r] by auto
    with Some show ?thesis unfolding journal_order_def k by (auto simp: find)
  qed
  moreover have "orders_of_run run j \<longrightarrow> orders_of_run run k"
    unfolding k by (auto simp: orders_of_run_def list_all_iff)
  moreover have "map (\<lambda>r. po_paper_order_id (jo_order r)) (map ?upd rs) = map (\<lambda>r. po_paper_order_id (jo_order r)) rs" for rs :: "order_row list"
    by (induction rs) simp_all
  then have "keyed (\<lambda>r. po_paper_order_id (jo_order r)) (pj_orders j) \<longrightarrow> keyed (\<lambda>r. po_paper_order_id (jo_order r)) (pj_orders k)"
    unfolding k by (simp add: keyed_def del: map_map)
  ultimately show ?thesis using k by (simp add: fun_eq_iff orders_moved_def)
next
  case False
  with assms have k: "k = j\<lparr>pj_orders := pj_orders j @
       [\<lparr>jo_run_id = run, jo_intent_id = oi_intent_id (po_intent p), jo_order = p\<rparr>]\<rparr>"
    by (auto simp: upsert_order_def insert_row_def guardE_eq_Inr_iff)
  have none: "find (\<lambda>r. po_paper_order_id (jo_order r) = po_paper_order_id p) (pj_orders j) = None"
    using False by (auto simp: find_None_iff list_ex_iff)
  have "journal_order k i = ((journal_order j)(po_paper_order_id p \<mapsto> p)) i" for i
    using none unfolding journal_order_def k by (auto simp: find_snoc_row split: option.splits)
  moreover have "keyed (\<lambda>r. po_paper_order_id (jo_order r)) (pj_orders j) \<longrightarrow> keyed (\<lambda>r. po_paper_order_id (jo_order r)) (pj_orders k)"
    using False unfolding k by (auto simp: list_ex_iff)
  ultimately show ?thesis using k by (simp add: fun_eq_iff orders_of_run_def orders_moved_def)
qed

lemma upsert_orders_Inr:
  "insert_each (upsert_order run) ps j = Inr k \<Longrightarrow>
     orders_moved run ps j k \<and> k = j\<lparr>pj_orders := pj_orders k\<rparr>"
proof (induction ps arbitrary: j)
  case (Cons p ps)
  then obtain i where i: "upsert_order run p j = Inr i" "insert_each (upsert_order run) ps i = Inr k"
    by (auto simp: bindE_eq_Inr_iff)
  note a = upsert_order_Inr [OF i(1)] and b = Cons.IH [OF i(2)]
  have "k = j\<lparr>pj_orders := pj_orders k\<rparr>"
  proof -
    have "k = i\<lparr>pj_orders := pj_orders k\<rparr>" using b by blast
    also have "\<dots> = j\<lparr>pj_orders := pj_orders k\<rparr>" by (subst conjunct2 [OF a]) simp
    finally show ?thesis .
  qed
  with a b orders_moved_trans [of run "[p]" j i ps k] show ?case by simp
qed (simp add: orders_moved_def)

text \<open>The plain insertions append their rows.\<close>

lemma insert_each_appends:
  assumes "\<And>x j k. f x j = Inr k \<Longrightarrow> k = add [x] j" "\<And>j. add [] j = j" "\<And>x xs j. add xs (add [x] j) = add (x # xs) j"
  shows "insert_each f xs j = Inr k \<Longrightarrow> k = add xs j"
proof (induction xs arbitrary: j)
  case (Cons x xs)
  then obtain i where "f x j = Inr i" "insert_each f xs i = Inr k" by (auto simp: bindE_eq_Inr_iff)
  with Cons.IH assms(1,3) show ?case by metis
qed (simp add: assms(2))

lemma insert_commands_Inr:
  "insert_each (insert_command run) cs j = Inr k \<Longrightarrow> k = j\<lparr>pj_commands := pj_commands j @ map (entry run) cs\<rparr>"
  by (rule insert_each_appends [where add = "\<lambda>cs j. j\<lparr>pj_commands := pj_commands j @ map (entry run) cs\<rparr>"])
    (auto simp: insert_command_def insert_row_def guardE_eq_Inr_iff)

lemma insert_fills_Inr:
  "insert_each (insert_fill run) fs j = Inr k \<Longrightarrow> k = j\<lparr>pj_fills := pj_fills j @ map (entry run) fs\<rparr>"
  by (rule insert_each_appends [where add = "\<lambda>cs j. j\<lparr>pj_fills := pj_fills j @ map (entry run) cs\<rparr>"])
    (auto simp: insert_fill_def insert_row_def guardE_eq_Inr_iff)

lemma insert_decisions_Inr:
  "insert_each (insert_decision run) ds j = Inr k \<Longrightarrow> k = j\<lparr>pj_decisions := pj_decisions j @ map (entry run) ds\<rparr>"
  by (rule insert_each_appends [where add = "\<lambda>cs j. j\<lparr>pj_decisions := pj_decisions j @ map (entry run) cs\<rparr>"])
    (auto simp: insert_decision_def insert_row_def guardE_eq_Inr_iff)

lemma insert_markouts_Inr:
  "insert_each (insert_markout run) ms j = Inr k \<Longrightarrow> k = j\<lparr>pj_markouts := pj_markouts j @ map (entry run) ms\<rparr>"
  by (rule insert_each_appends [where add = "\<lambda>cs j. j\<lparr>pj_markouts := pj_markouts j @ map (entry run) cs\<rparr>"])
    (auto simp: insert_markout_def guardE_eq_Inr_iff)

lemma insert_drifts_Inr:
  "insert_each (insert_drift run) ds j = Inr k \<Longrightarrow> k = j\<lparr>pj_drift := pj_drift j @ map (entry run) ds\<rparr>"
  by (rule insert_each_appends [where add = "\<lambda>cs j. j\<lparr>pj_drift := pj_drift j @ map (entry run) cs\<rparr>"])
    (auto simp: insert_drift_def insert_row_def guardE_eq_Inr_iff)

lemma in_transaction_Inr: "in_transaction f j = (k, Inr u) \<longleftrightarrow> f j = Inr k"
  by (cases "f j") (auto simp: in_transaction_def transact_def)

lemma in_transaction_Inl: "in_transaction f j = (k, Inl e) \<longleftrightarrow> f j = Inl e \<and> k = j"
  by (cases "f j") (auto simp: in_transaction_def transact_def)

lemma cycle_rows_Inr:
  assumes "cycle_rows run orders fills commands j = Inr k"
  shows "orders_moved run orders j k
    \<and> k = j\<lparr>pj_commands := pj_commands j @ map (entry run) commands, pj_orders := pj_orders k,
          pj_fills := pj_fills j @ map (entry run) fills\<rparr>"
proof -
  from assms obtain j1 j2 where
    1: "j1 = j\<lparr>pj_commands := pj_commands j @ map (entry run) commands\<rparr>" and
    2: "insert_each (upsert_order run) orders j1 = Inr j2" and
    3: "k = j2\<lparr>pj_fills := pj_fills j2 @ map (entry run) fills\<rparr>"
    by (auto simp: cycle_rows_def bindE_eq_Inr_iff dest!: insert_commands_Inr insert_fills_Inr)
  note o = upsert_orders_Inr [OF 2]
  have j2: "j2 = j\<lparr>pj_commands := pj_commands j @ map (entry run) commands, pj_orders := pj_orders j2\<rparr>"
    using o by (simp add: 1)
  have k: "k = j\<lparr>pj_commands := pj_commands j @ map (entry run) commands, pj_orders := pj_orders k,
      pj_fills := pj_fills j @ map (entry run) fills\<rparr>"
    unfolding 3 by (subst (1 2) j2) simp
  have "orders_moved run orders j k = orders_moved run orders j1 j2"
    by (rule orders_moved_cong) (simp_all add: 1 3)
  with o k show ?thesis by simp
qed

lemma insert_account_Inr: "insert_account run a j = Inr k \<Longrightarrow> k = j\<lparr>pj_accounts := pj_accounts j @ [entry run a]\<rparr>"
  by (auto simp: insert_account_def insert_row_def guardE_eq_Inr_iff)

lemma insert_evaluation_Inr:
  "insert_evaluation run a j = Inr k \<Longrightarrow> k = j\<lparr>pj_evaluations := pj_evaluations j @ [entry run a]\<rparr>"
  by (auto simp: insert_evaluation_def insert_row_def guardE_eq_Inr_iff)

definition feature_row_of :: "(feature_snapshot \<Rightarrow> 'v) \<Rightarrow> feature_snapshot \<Rightarrow> 'v feature_row" where
  "feature_row_of vector f = \<lparr>fr_observed_ts_ns = fs_receive_ts_ns f, fr_regime = fs_volatility_regime f,
     fr_ready = fs_ready f, fr_vector = vector f\<rparr>"

lemma insert_feature_Inr:
  "insert_feature vector run f j = Inr k \<Longrightarrow> k = j\<lparr>pj_features := pj_features j @ [entry run (feature_row_of vector f)]\<rparr>"
  by (auto simp: insert_feature_def insert_row_def guardE_eq_Inr_iff feature_row_of_def)

lemma upsert_checkpoint_Inr:
  "upsert_checkpoint c j = Inr k \<Longrightarrow>
     k = j\<lparr>pj_checkpoints := filter (\<lambda>x. ck_run_id x \<noteq> ck_run_id c) (pj_checkpoints j) @ [c]\<rparr>"
  by (auto simp: upsert_checkpoint_def insert_row_def guardE_eq_Inr_iff)

lemma record_cycle_Inr:
  assumes "record_cycle run orders fills account commands j = (k, Inr u)"
  shows "orders_moved run orders j k
    \<and> k = j\<lparr>pj_commands := pj_commands j @ map (entry run) commands, pj_orders := pj_orders k,
          pj_fills := pj_fills j @ map (entry run) fills, pj_accounts := pj_accounts j @ [entry run account]\<rparr>"
proof -
  from assms obtain i where i: "cycle_rows run orders fills commands j = Inr i"
    and k: "k = i\<lparr>pj_accounts := pj_accounts i @ [entry run account]\<rparr>"
    by (auto simp: record_cycle_def in_transaction_Inr bindE_eq_Inr_iff dest!: insert_account_Inr)
  from cycle_rows_Inr [OF i] have o: "orders_moved run orders j i"
    and ii: "i = j\<lparr>pj_commands := pj_commands j @ map (entry run) commands, pj_orders := pj_orders i,
          pj_fills := pj_fills j @ map (entry run) fills\<rparr>" by simp_all
  have acc: "pj_accounts i = pj_accounts j" by (subst ii) simp
  have "k = j\<lparr>pj_commands := pj_commands j @ map (entry run) commands, pj_orders := pj_orders k,
          pj_fills := pj_fills j @ map (entry run) fills, pj_accounts := pj_accounts j @ [entry run account]\<rparr>"
    unfolding k acc by (subst ii) (simp del: paper_journal.ext_inject)
  moreover have "orders_moved run orders j k" using o k orders_moved_cong [of j j k i run orders] by simp
  ultimately show ?thesis by simp
qed

lemma record_engine_cycle_Inr:
  assumes "record_engine_cycle vector run e j = (k, Inr u)"
  shows "orders_moved run (er_orders e) j k
    \<and> pj_runs k = pj_runs j \<and> pj_fills k = pj_fills j @ map (entry run) (er_fills e)
    \<and> pj_decisions k = pj_decisions j @ map (entry run) (er_decisions e)
    \<and> pj_evaluations k = pj_evaluations j @ [entry run (er_evaluation e)]
    \<and> pj_commands k = pj_commands j @ map (entry run) (er_commands e)
    \<and> pj_accounts k = pj_accounts j @ [entry run (er_account e)]
    \<and> pj_features k = pj_features j @ [entry run (feature_row_of vector (er_feature e))]
    \<and> pj_markouts k = pj_markouts j @ map (entry run) (er_markouts e)
    \<and> pj_checkpoints k = filter (\<lambda>x. ck_run_id x \<noteq> ck_run_id (er_checkpoint e)) (pj_checkpoints j) @ [er_checkpoint e]
    \<and> pj_structures k = pj_structures j \<and> pj_drills k = pj_drills j \<and> pj_events k = pj_events j"
proof -
  from assms obtain i1 i2 i3 i4 i5 i6 i7 where
    1: "cycle_rows run (er_orders e) (er_fills e) (er_commands e) j = Inr i1" and
    2: "i2 = i1\<lparr>pj_decisions := pj_decisions i1 @ map (entry run) (er_decisions e)\<rparr>" and
    3: "i3 = i2\<lparr>pj_evaluations := pj_evaluations i2 @ [entry run (er_evaluation e)]\<rparr>" and
    4: "i4 = i3\<lparr>pj_features := pj_features i3 @ [entry run (feature_row_of vector (er_feature e))]\<rparr>" and
    5: "i5 = i4\<lparr>pj_markouts := pj_markouts i4 @ map (entry run) (er_markouts e)\<rparr>" and
    6: "i6 = i5\<lparr>pj_accounts := pj_accounts i5 @ [entry run (er_account e)]\<rparr>" and
    7: "i7 = i6\<lparr>pj_checkpoints := filter (\<lambda>x. ck_run_id x \<noteq> ck_run_id (er_checkpoint e)) (pj_checkpoints i6) @ [er_checkpoint e]\<rparr>" and
    8: "k = i7\<lparr>pj_drift := pj_drift i7 @ map (entry run) (opt_list (er_drift_report e))\<rparr>"
    by (auto simp: record_engine_cycle_def evidence_rows_def in_transaction_Inr bindE_eq_Inr_iff
        dest!: insert_account_Inr insert_decisions_Inr insert_evaluation_Inr insert_feature_Inr insert_markouts_Inr
          upsert_checkpoint_Inr insert_drifts_Inr)
  note o = cycle_rows_Inr [OF 1]
  have i1: "pj_runs i1 = pj_runs j" "pj_fills i1 = pj_fills j @ map (entry run) (er_fills e)"
    "pj_commands i1 = pj_commands j @ map (entry run) (er_commands e)" "pj_decisions i1 = pj_decisions j"
    "pj_evaluations i1 = pj_evaluations j" "pj_accounts i1 = pj_accounts j" "pj_features i1 = pj_features j"
    "pj_markouts i1 = pj_markouts j" "pj_checkpoints i1 = pj_checkpoints j" "pj_structures i1 = pj_structures j"
    "pj_drills i1 = pj_drills j" "pj_events i1 = pj_events j"
    by (subst conjunct2 [OF o], simp)+
  moreover have "orders_moved run (er_orders e) j k"
    using o orders_moved_cong [of j j k i1 run "er_orders e"] by (simp add: 2 3 4 5 6 7 8)
  ultimately show ?thesis by (simp add: 2 3 4 5 6 7 8)
qed

end
