(* ===== verification/Paper_Cycle.thy ===== *)
theory Paper_Cycle
  imports Paper_Recovery
begin

text \<open>
  A market cycle of the paper engine, stage by stage: the history of the journal changes in the one
  transaction that ends a cycle and nowhere before it, and a completed stage reports every order of the
  simulator it changed. So a cycle that raises leaves none of its rows, and one that returns leaves all.
\<close>

section \<open>Frames\<close>

text \<open>A relation between the engine a stage started with and the one it leaves, whether it returned or raised.\<close>

locale engine_frame =
  fixes rel :: "('f, 'v) paper_engine \<Rightarrow> ('f, 'v) paper_engine \<Rightarrow> bool"
  assumes frame_refl: "rel e e" and frame_trans: "rel d e \<Longrightarrow> rel e f \<Longrightarrow> rel d f"
begin

lemma kept_bind: "rel e (fst r) \<Longrightarrow> (\<And>e' y. rel e' (fst (f e' y))) \<Longrightarrow> rel e (fst (bindS r f))"
  by (cases r; cases "snd r") (auto intro: frame_trans)

lemma kept_mapS: "(\<And>a e. rel e (fst (f a e))) \<Longrightarrow> rel e (fst (mapS f as e))"
proof (induction as arbitrary: e)
  case (Cons a as)
  then show ?case by (auto intro!: kept_bind frame_refl)
qed (simp add: frame_refl)

lemma kept_foldS: "(\<And>a e. rel e (fst (f a e))) \<Longrightarrow> rel e (fst (foldS f as e))"
proof (induction as arbitrary: e)
  case (Cons a as)
  then show ?case by (auto intro!: kept_bind)
qed (simp add: frame_refl)

end

section \<open>Stages that leave the history alone\<close>

definition same_history :: "'v paper_journal \<Rightarrow> 'v paper_journal \<Rightarrow> bool" where
  "same_history j k \<longleftrightarrow>
     pj_runs k = pj_runs j \<and> pj_orders k = pj_orders j \<and> pj_fills k = pj_fills j \<and> pj_decisions k = pj_decisions j
   \<and> pj_evaluations k = pj_evaluations j \<and> pj_commands k = pj_commands j \<and> pj_accounts k = pj_accounts j
   \<and> pj_features k = pj_features j \<and> pj_markouts k = pj_markouts j \<and> pj_checkpoints k = pj_checkpoints j
   \<and> pj_drift k = pj_drift j"

lemma same_history_refl [simp]: "same_history j j"
  by (simp add: same_history_def)

lemma same_history_trans: "same_history i j \<Longrightarrow> same_history j k \<Longrightarrow> same_history i k"
  by (simp add: same_history_def)

definition quiet_at :: "('f, 'v) paper_engine \<Rightarrow> ('f, 'v) paper_engine \<times> 'a res \<Rightarrow> bool" where
  "quiet_at e r \<longleftrightarrow> same_history (pe_journal e) (pe_journal (fst r))"

interpretation history: engine_frame "\<lambda>e e' :: ('f, 'v) paper_engine. same_history (pe_journal e) (pe_journal e')"
  by unfold_locales (auto intro: same_history_trans)

named_theorems quiet \<open>stages that leave the history of the journal alone\<close>

lemma quiet_bind [quiet]: "quiet_at e r \<Longrightarrow> (\<And>e' y. quiet_at e' (f e' y)) \<Longrightarrow> quiet_at e (bindS r f)"
  unfolding quiet_at_def by (rule history.kept_bind)

lemma quiet_unchanged: "pe_journal e' = pe_journal e \<Longrightarrow> quiet_at e (e', y)"
  by (simp add: quiet_at_def)

lemma quiet_upd: "quiet_at e' r \<Longrightarrow> pe_journal e' = pe_journal e \<Longrightarrow> quiet_at e r"
  by (simp add: quiet_at_def)

lemma quiet_mapS: "(\<And>a e. quiet_at e (f a e)) \<Longrightarrow> quiet_at e (mapS f as e)"
  unfolding quiet_at_def by (rule history.kept_mapS)

lemma quiet_foldS: "(\<And>a e. quiet_at e (f a e)) \<Longrightarrow> quiet_at e (foldS f as e)"
  unfolding quiet_at_def by (rule history.kept_foldS)

lemma quiet_liftR [quiet]: "quiet_at e (liftR r e)"
  by (simp add: liftR_def quiet_unchanged)

lemma quiet_on_sim [quiet]: "quiet_at e (on_sim f e)"
  by (simp add: on_sim_def quiet_unchanged split: prod.splits)

lemma quiet_on_authority [quiet]: "quiet_at e (on_authority f e)"
  by (simp add: on_authority_def quiet_unchanged split: prod.splits)

lemma quiet_issue [quiet]: "quiet_at e (issue_command f e)"
  by (simp add: issue_command_def Let_def quiet_unchanged)

lemma quiet_event [quiet]: "quiet_at e (on_journal (record_event run ts kind detail) e)"
  by (cases "known_run run (pe_journal e)")
    (simp_all add: quiet_at_def on_journal_def record_event_def in_transaction_def transact_def insert_row_def
      same_history_def)

lemma quiet_drill [quiet]: "quiet_at e (on_journal (record_drill run drill ts x) e)"
  by (cases "known_run run (pe_journal e)")
    (simp_all add: quiet_at_def on_journal_def record_drill_def in_transaction_def transact_def insert_row_def
      same_history_def)

lemma quiet_structure [quiet]: "quiet_at e (on_journal (record_structure_state run s) e)"
  by (cases "known_run run (pe_journal e)")
    (simp_all add: quiet_at_def on_journal_def record_structure_state_def in_transaction_def transact_def
      insert_row_def same_history_def)

lemma quiet_cancel_commands [quiet]: "quiet_at e (cancel_commands x ps kind ts e)"
  unfolding cancel_commands_def by (rule quiet_mapS) (simp add: cancel_command_def quiet)

lemma quiet_funding [quiet]: "quiet_at e (settle_funding_if_due x mark e)"
  unfolding settle_funding_if_due_def by (auto intro!: quiet quiet_unchanged split: option.split)

lemma quiet_synchronize [quiet]: "quiet_at e (synchronize_memory now e)"
  unfolding synchronize_memory_def Let_def by (auto intro!: quiet_unchanged split: paper_memory.split sum.split)

lemma quiet_markouts [quiet]: "quiet_at e (resolve_markouts x mark now e)"
  unfolding resolve_markouts_def by (auto intro!: quiet_unchanged split: prod.split)

lemma quiet_remember: "quiet_at (remember_fills fs e) r \<Longrightarrow> quiet_at e r"
  by (erule quiet_upd) (simp add: remember_fills_def)

lemma quiet_simulate [quiet]: "quiet_at e (simulate_market x c e)"
  unfolding simulate_market_def by (auto intro!: quiet quiet_unchanged intro: quiet_remember)

lemma quiet_drills [quiet]: "quiet_at e (record_economic_drills x reasons ts e)"
  unfolding record_economic_drills_def by (auto intro!: quiet quiet_unchanged quiet_foldS)

lemma quiet_cancel_after [quiet]: "quiet_at e (cancel_commands x ps kind ts (e\<lparr>pe_sim := s\<rparr>))"
  by (rule quiet_upd [OF quiet_cancel_commands]) simp

lemma quiet_risk [quiet]: "quiet_at e (assess_risk x c e)"
  unfolding assess_risk_def Let_def case_prod_beta by (auto intro!: quiet quiet_unchanged)

lemma quiet_observe [quiet]: "quiet_at e (observe_structure x m e)"
proof (cases "structure_update (px_structure x) (pe_structure e) m")
  case (Inr r)
  obtain s sm where r: "r = (s, sm)" by (cases r)
  let ?e = "e\<lparr>pe_structure := s, pe_last_structure := Some sm\<rparr>"
  have "quiet_at ?e (if cs_revision s = pe_persisted_revision ?e then (?e, Inr sm)
     else bindS (on_journal (record_structure_state (px_run x) s) ?e) (\<lambda>e _. (e\<lparr>pe_persisted_revision := cs_revision s\<rparr>, Inr sm)))"
    by (auto intro!: quiet quiet_unchanged)
  then show ?thesis by (simp add: observe_structure_def Inr r Let_def quiet_at_def)
qed (simp add: observe_structure_def quiet_unchanged)

lemma quiet_features [quiet]: "quiet_at e (calculate_features x c position e)"
  unfolding calculate_features_def by (auto intro!: quiet_unchanged split: prod.split)

lemma quiet_drift [quiet]: "quiet_at e (monitor_drift x f e)"
  unfolding monitor_drift_def by (auto intro!: quiet_unchanged split: prod.split)

lemma quiet_kernel [quiet]: "quiet_at e (run_kernel x a f sm e)"
  unfolding run_kernel_def by (auto intro!: quiet_unchanged split: sum.split prod.split)

lemma quiet_strategy [quiet]: "quiet_at e (run_strategy x c a v e)"
  unfolding run_strategy_def by (intro quiet quiet_unchanged refl)

lemma quiet_cancel_intents [quiet]: "quiet_at e (cancel_intents x now is e)"
proof (induction "is" arbitrary: e)
  case (Cons i "is")
  obtain s r where a: "request_cancel i now (pe_sim e) = (s, r)" by fastforce
  let ?e = "e\<lparr>pe_sim := s\<rparr>"
  have "quiet_at ?e (case r of None \<Rightarrow> cancel_intents x now is ?e
      | Some p \<Rightarrow> bindS (cancel_command x CMD_CANCEL now p ?e) (\<lambda>e q.
          bindS (cancel_intents x now is e) (\<lambda>e (ps, qs). (e, Inr (p # ps, q # qs)))))"
    by (cases r) (auto intro!: quiet quiet_unchanged Cons.IH simp: cancel_command_def)
  then have "quiet_at ?e (cancel_intents x now (i # is) e)" by (cases r) (simp_all add: a)
  then show ?case by (rule quiet_upd) simp
qed (simp add: quiet_unchanged)

lemma quiet_submit_approved [quiet]: "quiet_at e (submit_approved x c k f i snapshot d e)"
  unfolding submit_approved_def submit_command_def by (intro quiet quiet_unchanged refl)

lemma quiet_lift_other: "pe_journal e' = pe_journal e \<Longrightarrow> quiet_at e (liftR r e')"
  by (simp add: liftR_def quiet_unchanged)

lemma is_independent_keeps [simp]:
  "pe_journal (fst (is_independent x t e)) = pe_journal e" "pe_sim (fst (is_independent x t e)) = pe_sim e"
  "pe_drift (fst (is_independent x t e)) = pe_drift e"
  by (simp_all add: is_independent_def Let_def)

lemma quiet_submit_intent [quiet]: "quiet_at e (submit_intent x c f ki e)"
proof -
  have "quiet_at e (submit_approved x c k f i snapshot d (e\<lparr>pe_sequence := n\<rparr>))" for e k i snapshot d n
    by (rule quiet_upd [OF quiet_submit_approved]) simp
  then show ?thesis
    unfolding submit_intent_def Let_def case_prod_beta
    by (auto intro!: quiet_bind quiet_lift_other quiet_unchanged)
qed

lemma quiet_submit_intents [quiet]: "quiet_at e (submit_intents x c f is e)"
  unfolding submit_intents_def by (rule quiet_mapS) (rule quiet)

section \<open>What a completed stage did to the simulator\<close>

lemma bindS_Inr_iff: "bindS m f = (t, Inr y) \<longleftrightarrow> (\<exists>s x. m = (s, Inr x) \<and> f s x = (t, Inr y))"
  by (auto simp: bindS_cases)

lemma liftR_Inr_iff [simp]: "liftR r s = (t, Inr y) \<longleftrightarrow> r = Inr y \<and> t = s"
  by (auto simp: liftR_def)

definition moves :: "('f, 'v) paper_setup \<Rightarrow> ('f, 'v) paper_engine \<Rightarrow> ('f, 'v) paper_engine \<Rightarrow> paper_order list \<Rightarrow> bool" where
  "moves x e e' ps \<longleftrightarrow> traces (px_naming x) (pe_sim e) (pe_sim e', ps) \<and> pe_drift e' = pe_drift e"

lemma moves_trans: "moves x e e' ps \<Longrightarrow> moves x e' e'' qs \<Longrightarrow> moves x e e'' (ps @ qs)"
  unfolding moves_def by (auto intro: traces_trans)

lemma moves_same: "pe_sim e' = pe_sim e \<Longrightarrow> pe_drift e' = pe_drift e \<Longrightarrow> moves x e e' []"
  by (simp add: moves_def traces_refl)

lemma moves_then: "pe_sim e' = pe_sim e \<Longrightarrow> pe_drift e' = pe_drift e \<Longrightarrow> moves x e' e'' ps \<Longrightarrow> moves x e e'' ps"
  by (simp add: moves_def)

lemma traces_account: "ps_orders t = ps_orders s \<Longrightarrow> ps_namespace t = ps_namespace s \<Longrightarrow> traces nm s (t, [])"
  using book_named_cong [of t s nm] by (simp add: traces_def)

lemma on_journal_keeps:
  "on_journal f e = (e', r) \<Longrightarrow> pe_sim e' = pe_sim e \<and> pe_drift e' = pe_drift e"
  by (auto simp: on_journal_def split: prod.splits)

lemma on_journal_Inr_iff:
  "on_journal f e = (e', Inr y) \<longleftrightarrow> (\<exists>j. f (pe_journal e) = (j, Inr y) \<and> e' = e\<lparr>pe_journal := j\<rparr>)"
  by (cases "f (pe_journal e)") (auto simp: on_journal_def)

lemma mapS_moves:
  assumes "\<And>a e e' y. f a e = (e', Inr y) \<Longrightarrow> moves x e e' (g y)"
  shows "mapS f as e = (e', Inr ys) \<Longrightarrow> moves x e e' (concat (map g ys))"
proof (induction as arbitrary: e ys)
  case (Cons a as)
  then obtain e1 y zs where "f a e = (e1, Inr y)" "mapS f as e1 = (e', Inr zs)" "ys = y # zs"
    by (auto simp: bindS_Inr_iff)
  then show ?case using moves_trans [OF assms Cons.IH] by simp
qed (simp add: moves_same)

lemma cancel_commands_moves: "cancel_commands x ps kind ts e = (e', Inr qs) \<Longrightarrow> moves x e e' []"
proof -
  have one: "\<And>p e e' q. cancel_command x kind ts p e = (e', Inr q) \<Longrightarrow> moves x e e' []"
    by (auto simp: cancel_command_def issue_command_def Let_def intro: moves_same)
  assume "cancel_commands x ps kind ts e = (e', Inr qs)"
  then have "moves x e e' (concat (map (\<lambda>_. []) qs))"
    unfolding cancel_commands_def by (rule mapS_moves [rotated]) (rule one)
  moreover have "concat (map (\<lambda>_. []) qs) = []" by simp
  ultimately show ?thesis by metis
qed

lemma funding_moves: "settle_funding_if_due x mark e = (e', Inr u) \<Longrightarrow> moves x e e' []"
  by (auto simp: settle_funding_if_due_def bindS_Inr_iff on_sim_def settle_funding_def mark_sim_def Let_def moves_def
      traces_refl intro!: traces_account dest!: on_journal_keeps split: option.splits if_splits prod.splits)

lemma synchronize_keeps:
  "synchronize_memory now e = (e', r) \<Longrightarrow> pe_sim e' = pe_sim e \<and> pe_drift e' = pe_drift e"
  by (auto simp: synchronize_memory_def Let_def split: paper_memory.splits sum.splits)

lemma markouts_keep: "resolve_markouts x mark now e = (e', r) \<Longrightarrow> pe_sim e' = pe_sim e \<and> pe_drift e' = pe_drift e"
  by (auto simp: resolve_markouts_def split: prod.splits)

lemma simulate_moves:
  assumes "simulate_market x c e = (e', Inr (u, ms))"
  shows "moves x e e' (su_orders u) \<and> list_all (\<lambda>f. paper_fill_error f = None) (su_fills u)"
proof -
  from assms obtain e1 e2 e3 where
    1: "settle_funding_if_due x (py_or_else (em_mark_price c) (pa_mark_price (ps_account (pe_sim e)))) e = (e1, Inr ())" and
    2: "on_sim (advance (px_naming x) (em_market c) (em_mark_price c)) e1 = (e2, Inr u)" and
    3: "synchronize_memory (em_now c) (remember_fills (su_fills u) e2) = (e3, Inr ())" and
    4: "resolve_markouts x (pa_mark_price (su_account u)) (em_now c) e3 = (e', Inr ms)"
    by (auto simp: simulate_market_def bindS_Inr_iff)
  obtain s where s: "advance (px_naming x) (em_market c) (em_mark_price c) (pe_sim e1) = (s, Inr u)" "e2 = e1\<lparr>pe_sim := s\<rparr>"
    using 2 by (auto simp: on_sim_def split: prod.splits)
  with advance_reports [of "px_naming x" "pe_sim e1" "em_market c" "em_mark_price c"]
  have "moves x e1 e2 (su_orders u)" "list_all (\<lambda>f. paper_fill_error f = None) (su_fills u)"
    by (auto simp: reports_def moves_def traces_def)
  moreover have "pe_sim e' = pe_sim e2" "pe_drift e' = pe_drift e2"
    using synchronize_keeps [OF 3] markouts_keep [OF 4] by (simp_all add: remember_fills_def)
  ultimately show ?thesis using moves_trans [OF funding_moves [OF 1], of e2 "su_orders u"]
    by (simp add: moves_def)
qed

lemma drills_keep:
  "record_economic_drills x reasons ts e = (e', r) \<Longrightarrow> pe_sim e' = pe_sim e \<and> pe_drift e' = pe_drift e"
proof -
  have "P (fst (foldS (\<lambda>(r, drill). on_journal (record_drill run drill ts (drill_evidence r))) as e))"
    if "P = (\<lambda>t. pe_sim t = pe_sim e \<and> pe_drift t = pe_drift e)" for P as run
    unfolding that by (rule foldS_keeps) (auto simp: on_journal_def split: prod.splits)
  then show "record_economic_drills x reasons ts e = (e', r) \<Longrightarrow> ?thesis"
    by (auto simp: record_economic_drills_def split: if_splits) (metis fst_conv)+
qed

lemma risk_moves:
  assumes "assess_risk x c e = (e', Inr v)"
  shows "moves x e e' (rv_orders v)"
proof (cases "rv_orders v = [] \<and> e' = e")
  case True
  then show ?thesis by (simp add: moves_same)
next
  case False
  let ?r = "request_cancel_all (em_now c) (pe_sim e)"
  from False assms obtain e1 cs reasons where
    1: "cancel_commands x (snd ?r) CMD_CANCEL_ALL (em_now c) (e\<lparr>pe_sim := fst ?r\<rparr>) = (e1, Inr cs)" and
    2: "record_economic_drills x reasons (em_now c) e1 = (e', Inr ())" and v: "rv_orders v = snd ?r"
    by (auto simp: assess_risk_def bindS_Inr_iff Let_def case_prod_beta split: if_splits)
  have "moves x e (e\<lparr>pe_sim := fst ?r\<rparr>) (snd ?r)"
    using request_cancel_all_traces [of "px_naming x" "pe_sim e" "em_now c"] by (simp add: moves_def)
  from moves_trans [OF this cancel_commands_moves [OF 1]] v drills_keep [OF 2] show ?thesis
    by (simp add: moves_def)
qed

lemma strategy_keeps:
  assumes "run_strategy x c a v e = (e', Inr g)"
  shows "pe_sim e' = pe_sim e
    \<and> pe_drift e' = fst (update_drift (px_calculate_drift x) (px_vector x) (px_policy x) (sg_features g) (pe_drift e))"
proof -
  from assms obtain e1 e2 e3 sm d w where
    1: "calculate_features x c (pa_position_base a) e = (e1, Inr (sg_features g))" and
    2: "observe_structure x (em_market c) e1 = (e2, Inr sm)" and
    3: "monitor_drift x (sg_features g) e2 = (e3, Inr d)" and
    4: "\<exists>k. run_kernel x a (sg_features g) sm e3 = (e', Inr k)"
    by (auto simp: run_strategy_def bindS_Inr_iff)
  have "pe_sim e1 = pe_sim e \<and> pe_drift e1 = pe_drift e"
    using 1 by (auto simp: calculate_features_def split: prod.splits)
  moreover have "pe_sim e2 = pe_sim e1 \<and> pe_drift e2 = pe_drift e1"
    using 2 by (auto simp: observe_structure_def Let_def bindS_Inr_iff dest!: on_journal_keeps split: sum.splits prod.splits if_splits)
  moreover have "pe_sim e3 = pe_sim e2 \<and>
      pe_drift e3 = fst (update_drift (px_calculate_drift x) (px_vector x) (px_policy x) (sg_features g) (pe_drift e2))"
    using 3 by (auto simp: monitor_drift_def split: prod.splits)
  moreover have "pe_sim e' = pe_sim e3 \<and> pe_drift e' = pe_drift e3"
    using 4 by (auto simp: run_kernel_def split: sum.splits)
  ultimately show ?thesis by simp
qed

lemma cancel_intents_moves: "cancel_intents x now is e = (e', Inr r) \<Longrightarrow> moves x e e' (fst r)"
proof (induction "is" arbitrary: e r)
  case (Cons i "is")
  obtain s p where a: "request_cancel i now (pe_sim e) = (s, p)" by fastforce
  have first: "moves x e (e\<lparr>pe_sim := s\<rparr>) (opt_list p)"
    using request_cancel_traces [of "px_naming x" "pe_sim e" i now] a by (simp add: moves_def)
  show ?case
  proof (cases p)
    case None
    with a Cons.prems have "cancel_intents x now is (e\<lparr>pe_sim := s\<rparr>) = (e', Inr r)" by simp
    from moves_trans [OF first Cons.IH [OF this]] None show ?thesis by simp
  next
    case (Some q)
    with a Cons.prems obtain e1 k ps qs where
      1: "cancel_command x CMD_CANCEL now q (e\<lparr>pe_sim := s\<rparr>) = (e1, Inr k)" and
      2: "cancel_intents x now is e1 = (e', Inr (ps, qs))" and r: "r = (q # ps, k # qs)"
      by (auto simp: bindS_Inr_iff)
    have "moves x (e\<lparr>pe_sim := s\<rparr>) e1 []"
      using 1 by (auto simp: cancel_command_def issue_command_def Let_def intro: moves_same)
    from moves_trans [OF moves_trans [OF first this] Cons.IH [OF 2]] Some r show ?thesis by simp
  qed
qed (simp add: moves_same)

lemma submit_approved_moves:
  assumes "submit_approved x c k f i snapshot d e = (e', Inr (p, q))"
  shows "moves x e e' [p]"
proof -
  from assms obtain e1 e2 where
    1: "on_authority (\<lambda>a. consume (px_authority x)
        \<lparr>rw_now = pe_now_ns e, rw_kill_active = em_kill c (3 * k + 4), rw_inflight = 0\<rparr> a d i snapshot) e = (e1, Inr ())" and
    2: "submit_command x i (rd_decision_id d) (px_feature_sha256 x f) (em_now c) e1 = (e2, Inr q)" and
    3: "on_sim (submit (px_naming x) i (em_now c)) e2 = (e', Inr p)"
    by (auto simp: submit_approved_def bindS_Inr_iff)
  have "moves x e e2 []"
    using 1 2 by (auto simp: on_authority_def submit_command_def issue_command_def Let_def intro!: moves_same split: prod.splits)
  moreover have "moves x e2 e' [p]"
    using 3 submit_traces [of "px_naming x" i "em_now c" "pe_sim e2"] by (auto simp: on_sim_def moves_def split: prod.splits)
  ultimately show ?thesis using moves_trans by fastforce
qed

lemma submit_intent_cases:
  assumes "submit_intent x c f ki e = (e', Inr y)"
  obtains snapshot a d e1 fresh where
    "risk_snapshot_of (em_kill c (3 * fst ki + 2)) None e = Inr snapshot"
    "evaluate (px_authority x) \<lparr>rw_now = pe_now_ns e, rw_kill_active = em_kill c (3 * fst ki + 3), rw_inflight = 0\<rparr>
       (em_decision_id c (fst ki)) (pe_authority e) (snd ki) snapshot = (a, d)"
    "is_independent x (oi_created_ts_ns (snd ki)) (e\<lparr>pe_authority := a\<rparr>) = (e1, fresh)"
    "oo_record y = decision_record_of x c f (snd ki) d fresh e1"
    "if rd_allowed d
     then \<exists>p q. submit_approved x c (fst ki) f (snd ki) snapshot d (e1\<lparr>pe_sequence := pe_sequence e1 + 1\<rparr>) = (e', Inr (p, q))
            \<and> oo_orders y = [p] \<and> oo_commands y = [q]
     else e' = e1\<lparr>pe_sequence := pe_sequence e1 + 1\<rparr> \<and> oo_orders y = [] \<and> oo_commands y = []"
proof -
  from assms obtain snapshot where s: "risk_snapshot_of (em_kill c (3 * fst ki + 2)) None e = Inr snapshot"
    by (cases "risk_snapshot_of (em_kill c (3 * fst ki + 2)) None e") (simp_all add: submit_intent_def liftR_def Let_def)
  obtain a d where d: "evaluate (px_authority x) \<lparr>rw_now = pe_now_ns e, rw_kill_active = em_kill c (3 * fst ki + 3), rw_inflight = 0\<rparr>
       (em_decision_id c (fst ki)) (pe_authority e) (snd ki) snapshot = (a, d)" by fastforce
  obtain e1 fresh where i: "is_independent x (oi_created_ts_ns (snd ki)) (e\<lparr>pe_authority := a\<rparr>) = (e1, fresh)" by fastforce
  let ?r = "decision_record_of x c f (snd ki) d fresh e1"
  from assms s d i obtain r where r: "checked decision_record_error ?r = Inr r"
    by (cases "checked decision_record_error ?r") (simp_all add: submit_intent_def liftR_def Let_def)
  then have "r = ?r" by (simp add: checked_eq_Inr_iff)
  with assms s d i r show thesis
    by (intro that [OF s d i]) (auto simp: submit_intent_def liftR_def Let_def bindS_Inr_iff split: if_splits)
qed

lemma submit_intent_moves: "submit_intent x c f ki e = (e', Inr y) \<Longrightarrow> moves x e e' (oo_orders y)"
proof (erule submit_intent_cases)
  fix snapshot a d e1 fresh
  assume i: "is_independent x (oi_created_ts_ns (snd ki)) (e\<lparr>pe_authority := a\<rparr>) = (e1, fresh)"
    and run: "if rd_allowed d
     then \<exists>p q. submit_approved x c (fst ki) f (snd ki) snapshot d (e1\<lparr>pe_sequence := pe_sequence e1 + 1\<rparr>) = (e', Inr (p, q))
            \<and> oo_orders y = [p] \<and> oo_commands y = [q]
     else e' = e1\<lparr>pe_sequence := pe_sequence e1 + 1\<rparr> \<and> oo_orders y = [] \<and> oo_commands y = []"
  have e1: "moves x e (e1\<lparr>pe_sequence := pe_sequence e1 + 1\<rparr>) []"
    using is_independent_keeps [of x "oi_created_ts_ns (snd ki)" "e\<lparr>pe_authority := a\<rparr>"] i by (intro moves_same) simp_all
  show ?thesis
  proof (cases "rd_allowed d")
    case True
    with run obtain p q where
      "submit_approved x c (fst ki) f (snd ki) snapshot d (e1\<lparr>pe_sequence := pe_sequence e1 + 1\<rparr>) = (e', Inr (p, q))"
      "oo_orders y = [p]" by auto
    with moves_trans [OF e1 submit_approved_moves] show ?thesis by simp
  qed (use run e1 in simp)
qed

lemma submit_intents_moves:
  "submit_intents x c f is e = (e', Inr ys) \<Longrightarrow> moves x e e' (concat (map oo_orders ys))"
  unfolding submit_intents_def by (rule mapS_moves) (rule submit_intent_moves)

section \<open>A cycle in the journal\<close>

text \<open>A stage that may record, but not when it raises.\<close>

definition fails_quietly :: "('f, 'v) paper_engine \<Rightarrow> ('f, 'v) paper_engine \<times> 'a res \<Rightarrow> bool" where
  "fails_quietly e r \<longleftrightarrow> (\<forall>e' err. r = (e', Inl err) \<longrightarrow> same_history (pe_journal e) (pe_journal e'))"

lemma fails_quietly_bind:
  assumes "quiet_at e r" "\<And>e' y. fails_quietly e' (f e' y)"
  shows "fails_quietly e (bindS r f)"
proof (cases "\<exists>t y. r = (t, Inr y)")
  case True
  then obtain t y where r: "r = (t, Inr y)" by blast
  show ?thesis
    unfolding fails_quietly_def r
  proof (intro allI impI)
    fix e' err
    assume "bindS (t, Inr y) f = (e', Inl err)"
    with assms(2) [of t y] have "same_history (pe_journal t) (pe_journal e')" by (simp add: fails_quietly_def)
    with assms(1) r show "same_history (pe_journal e) (pe_journal e')" by (auto simp: quiet_at_def intro: same_history_trans)
  qed
next
  case False
  with assms(1) show ?thesis by (cases r; cases "snd r") (auto simp: fails_quietly_def quiet_at_def)
qed

lemma fails_quietly_last:
  assumes "fails_quietly e r" "\<And>e' y. \<exists>t z. f e' y = (t, Inr z)"
  shows "fails_quietly e (bindS r f)"
  unfolding fails_quietly_def bindS_cases using assms(1) assms(2)
  by (auto simp: fails_quietly_def) (metis Inl_Inr_False Pair_inject)

lemma in_transaction_quiet: "in_transaction f j = (k, Inl err) \<Longrightarrow> same_history j k"
  by (simp add: in_transaction_Inl)

lemma record_market_cycle_quiet: "fails_quietly e (record_market_cycle x now w y e)"
proof -
  have "fails_quietly e (on_journal (record_engine_cycle (px_vector x) run rows) e)" for run rows and e :: "('a, 'b) paper_engine"
    unfolding fails_quietly_def on_journal_def record_engine_cycle_def
    by (auto dest!: in_transaction_quiet split: prod.splits)
  then show ?thesis
    unfolding record_market_cycle_def
    by (intro fails_quietly_bind [OF quiet_liftR] fails_quietly_last) auto
qed

text \<open>What the journal holds of a completed cycle \<open>y\<close>.\<close>

definition cycle_recorded ::
  "('f, 'v) paper_setup \<Rightarrow> paper_cycle \<Rightarrow> ('f, 'v) paper_engine \<Rightarrow> 'v paper_journal \<Rightarrow> 'v paper_journal \<Rightarrow> bool" where
  "cycle_recorded x y e' j k \<longleftrightarrow>
     (let run = px_run x
      in orders_moved run (pc_orders y) j k
       \<and> pj_runs k = pj_runs j \<and> pj_fills k = pj_fills j @ map (entry run) (pc_fills y)
       \<and> pj_decisions k = pj_decisions j @ map (entry run) (pc_decisions y)
       \<and> (\<exists>w. pj_evaluations k = pj_evaluations j @ [entry run w])
       \<and> pj_commands k = pj_commands j @ map (entry run) (pc_commands y)
       \<and> pj_accounts k = pj_accounts j @ [entry run (ps_account (pe_sim e'))]
       \<and> pj_features k = pj_features j @ [entry run (feature_row_of (px_vector x) (pc_features y))]
       \<and> pj_markouts k = pj_markouts j @ map (entry run) (pc_markouts y)
       \<and> (\<exists>t. engine_checkpoint_error (engine_checkpoint_of x t e') = None
            \<and> pj_checkpoints k = filter (\<lambda>c. ck_run_id c \<noteq> run) (pj_checkpoints j) @ [engine_checkpoint_of x t e']))"

lemma record_market_cycle_Inr:
  assumes "record_market_cycle x now w y e = (e', Inr u)"
  shows "cycle_recorded x y e' (pe_journal e) (pe_journal e')" "pe_sim e' = pe_sim e" "pe_drift e' = pe_drift e"
proof -
  let ?ck = "engine_checkpoint_of x now e"
  from assms obtain j where ck: "engine_checkpoint_error ?ck = None" and
    1: "record_engine_cycle (px_vector x) (px_run x)
        \<lparr>er_orders = pc_orders y, er_fills = pc_fills y, er_account = ps_account (pe_sim e),
         er_feature = pc_features y, er_decisions = pc_decisions y, er_markouts = pc_markouts y,
         er_checkpoint = ?ck, er_drift_report = pc_drift_report y, er_evaluation = w,
         er_commands = pc_commands y\<rparr> (pe_journal e) = (j, Inr ())" and
    e': "e' = e\<lparr>pe_journal := j, pe_evaluation_sequence := pe_evaluation_sequence e + 1,
          pe_decision_count := pe_decision_count e + int (length (pc_decisions y)),
          pe_fill_count := pe_fill_count e + int (length (pc_fills y))\<rparr>"
    by (auto simp: record_market_cycle_def bindS_Inr_iff on_journal_def checked_eq_Inr_iff split: prod.splits)
  have "?ck = engine_checkpoint_of x now e'" by (simp add: e' engine_checkpoint_of_def)
  moreover have "ck_run_id ?ck = px_run x" by (simp add: engine_checkpoint_of_def)
  ultimately show "cycle_recorded x y e' (pe_journal e) (pe_journal e')"
    using record_engine_cycle_Inr [OF 1] ck by (auto simp: cycle_recorded_def Let_def e')
  show "pe_sim e' = pe_sim e" "pe_drift e' = pe_drift e" by (simp_all add: e')
qed

lemma cycle_recorded_cong:
  "same_history j j' \<Longrightarrow> cycle_recorded x y e j' k \<Longrightarrow> cycle_recorded x y e j k"
  unfolding cycle_recorded_def Let_def same_history_def
  using orders_moved_cong [of j j' k k "px_run x" "pc_orders y"] by simp

lemma market_cycle_Inr:
  assumes "market_cycle x c e = (e', Inr y)"
  shows "traces (px_naming x) (pe_sim e) (pe_sim e', pc_orders y)
    \<and> pe_drift e' = fst (update_drift (px_calculate_drift x) (px_vector x) (px_policy x) (pc_features y) (pe_drift e))
    \<and> cycle_recorded x y e' (pe_journal e) (pe_journal e')
    \<and> list_all (\<lambda>f. paper_fill_error f = None) (pc_fills y)"
proof -
  from assms obtain e1 u ms e2 v e3 g e4 cn e5 os where
    1: "simulate_market x c e = (e1, Inr (u, ms))" and 2: "assess_risk x c e1 = (e2, Inr v)" and
    3: "run_strategy x c (su_account u) v e2 = (e3, Inr g)" and
    4: "cancel_intents x (em_now c) (kd_cancel_intent_ids (sg_decision g)) e3 = (e4, Inr cn)" and
    5: "submit_intents x c (sg_features g) (kd_submit (sg_decision g)) e4 = (e5, Inr os)" and
    6: "record_market_cycle x (em_now c) (sg_evaluation g) (cycle_of u ms v g cn os) e5 = (e', Inr ())" and
    y: "y = cycle_of u ms v g cn os"
    by (auto simp: market_cycle_def bindS_Inr_iff Let_def)
  note sim = simulate_moves [OF 1] and keep = strategy_keeps [OF 3]
  have "moves x e e2 (su_orders u @ rv_orders v)" using sim risk_moves [OF 2] by (blast intro: moves_trans)
  moreover have "moves x e3 e5 (fst cn @ concat (map oo_orders os))"
    by (rule moves_trans [OF cancel_intents_moves [OF 4] submit_intents_moves [OF 5]])
  ultimately have "traces (px_naming x) (pe_sim e) (pe_sim e5, pc_orders y)" "pe_drift e2 = pe_drift e" "pe_drift e5 = pe_drift e3"
    using keep by (auto simp: moves_def y cycle_of_def traces_def)
  moreover have "quiet_at e (e1, Inr ())" "quiet_at e1 (e2, Inr ())" "quiet_at e2 (e3, Inr ())" "quiet_at e3 (e4, Inr ())" "quiet_at e4 (e5, Inr ())"
    using quiet_simulate [of e x c] quiet_risk [of e1 x c] quiet_strategy [of e2 x c "su_account u" v]
      quiet_cancel_intents [of e3 x "em_now c" "kd_cancel_intent_ids (sg_decision g)"]
      quiet_submit_intents [of e4 x c "sg_features g" "kd_submit (sg_decision g)"]
    by (simp_all add: quiet_at_def 1 2 3 4 5)
  then have "same_history (pe_journal e) (pe_journal e5)" unfolding quiet_at_def fst_conv by (blast intro: same_history_trans)
  ultimately show ?thesis
    using record_market_cycle_Inr [OF 6] cycle_recorded_cong [of "pe_journal e" "pe_journal e5" x y e'] keep sim y
    by (simp add: cycle_of_def)
qed

lemma market_cycle_quiet: "fails_quietly e (market_cycle x c e)"
  unfolding market_cycle_def Let_def case_prod_beta
  by (intro fails_quietly_bind fails_quietly_last record_market_cycle_quiet quiet) auto

lemma on_market_outcome:
  "case on_market x c e of
     (e', Inl _) \<Rightarrow> same_history (pe_journal e) (pe_journal e')
   | (e', Inr y) \<Rightarrow> cycle_recorded x y e' (pe_journal e) (pe_journal e')
       \<and> order_at (pe_sim e') = applied (pc_orders y) (order_at (pe_sim e))"
proof -
  have "pe_journal (accept_market c e) = pe_journal e" "pe_sim (accept_market c e) = pe_sim e"
    by (simp_all add: accept_market_def)
  then show ?thesis
    using market_cycle_quiet [of "accept_market c e" x c] market_cycle_Inr [of x c "accept_market c e"]
    by (auto simp: on_market_def traces_def fails_quietly_def split: prod.split sum.split)
qed

text \<open>C9: A market cycle is recorded as a whole or not at all. Whatever raises, at whatever step, the journal's runs,
  orders, fills, decisions, evaluations, commands, accounts, features, markouts, drift reports and checkpoints are those
  from before the call. A cycle that returns has recorded every order it changed, its fills, decisions, commands and
  markouts, exactly one feature row, one evaluation, the account it ended with and the one checkpoint of the state it
  ended in.\<close>

theorem market_cycle_atomic:
  "case on_market x c e of
     (e', Inl _) \<Rightarrow> same_history (pe_journal e) (pe_journal e')
   | (e', Inr y) \<Rightarrow> cycle_recorded x y e' (pe_journal e) (pe_journal e')
       \<and> order_at (pe_sim e') = applied (pc_orders y) (order_at (pe_sim e))"
  by (rule on_market_outcome)

end
