(* ===== verification/Paper_Restart.thy ===== *)
theory Paper_Restart
  imports Paper_Cycle "HOL-Library.Multiset"
begin

text \<open>
  The paper engine across crashes and restarts: the journal mirrors the open orders and drift windows of
  every engine that calls which return have left, and what a restart reads after a completed cycle is the state the
  engine had: open orders, account, strategy memory, counters and drift windows.
\<close>

section \<open>The journal mirrors the engine\<close>

text \<open>Two books agree on the open orders: what the first holds the second holds, and what only the second
  holds is over.\<close>

definition open_agree :: "(string \<Rightarrow> paper_order option) \<Rightarrow> (string \<Rightarrow> paper_order option) \<Rightarrow> bool" where
  "open_agree m k \<longleftrightarrow> (\<forall>i p. m i = Some p \<longrightarrow> k i = Some p)
     \<and> (\<forall>i q. k i = Some q \<longrightarrow> m i = None \<longrightarrow> terminal_paper_state (po_state q))"

lemma open_agree_applied: "open_agree m k \<Longrightarrow> open_agree (applied ps m) (applied ps k)"
proof (induction ps arbitrary: m k)
  case (Cons p ps)
  have "open_agree (m(po_paper_order_id p \<mapsto> p)) (k(po_paper_order_id p \<mapsto> p))"
    using Cons.prems by (auto simp: open_agree_def)
  from Cons.IH [OF this] show ?case by (simp del: fun_upd_apply)
qed simp

lemma open_agree_open: "open_agree m k \<Longrightarrow> k i = Some p \<Longrightarrow> \<not> terminal_paper_state (po_state p) \<Longrightarrow> m i = Some p"
  unfolding open_agree_def by (cases "m i") auto

text \<open>What a journal has to be to start an engine from.\<close>

definition journal_fit :: "('f, 'v) paper_setup \<Rightarrow> 'v paper_journal \<Rightarrow> bool" where
  "journal_fit x j \<longleftrightarrow>
     orders_of_run (px_run x) j \<and> keyed (\<lambda>r. po_paper_order_id (jo_order r)) (pj_orders j)
   \<and> (\<forall>i q. journal_order j i = Some q \<longrightarrow> \<not> terminal_paper_state (po_state q) \<longrightarrow> named (px_naming x) (px_run x) q)
   \<and> list_all (\<lambda>f. paper_fill_error f = None) (rows_of (px_run x) (pj_fills j))"

definition windows_agree :: "('f, 'v) paper_setup \<Rightarrow> 'v paper_journal \<Rightarrow> 'v drift_monitor \<Rightarrow> bool" where
  "windows_agree x j m \<longleftrightarrow>
     (let w = windows_of (px_policy x) (ready_vectors (px_run x) j)
      in dm_baseline m = dm_baseline w \<and> dm_current m = dm_current w)"

definition engine_mirrored :: "('f, 'v) paper_setup \<Rightarrow> ('f, 'v) paper_engine \<Rightarrow> bool" where
  "engine_mirrored x e \<longleftrightarrow>
     book_named (px_naming x) (pe_sim e) \<and> ps_namespace (pe_sim e) = px_run x
   \<and> journal_fit x (pe_journal e) \<and> open_agree (order_at (pe_sim e)) (journal_order (pe_journal e))
   \<and> windows_agree x (pe_journal e) (pe_drift e)"

lemma journal_fit_cong:
  "pj_orders k = pj_orders j \<Longrightarrow> pj_fills k = pj_fills j \<Longrightarrow> journal_fit x k = journal_fit x j"
  by (simp add: journal_fit_def orders_of_run_def journal_order_def)

lemma journal_fit_history: "same_history j k \<Longrightarrow> journal_fit x j \<Longrightarrow> journal_fit x k"
  using journal_fit_cong [of k j x] by (simp add: same_history_def)

lemma book_named_at: "book_named nm s \<Longrightarrow> order_at s i = Some p \<Longrightarrow> i = po_paper_order_id p \<and> named nm (ps_namespace s) p"
  by (auto simp: book_named_def entries_ok_def list_all_iff dest!: map_of_SomeD)

lemma journal_fit_open:
  assumes "orders_of_run (px_run x) j" "keyed (\<lambda>r. po_paper_order_id (jo_order r)) (pj_orders j)"
    "list_all (\<lambda>f. paper_fill_error f = None) (rows_of (px_run x) (pj_fills j))"
    "book_named (px_naming x) s" "ps_namespace s = px_run x" "open_agree (order_at s) (journal_order j)"
  shows "journal_fit x j"
  unfolding journal_fit_def using assms
  by (auto dest: open_agree_open book_named_at)

text \<open>Recorded changes keep the mirror.\<close>

lemma mirrored_recorded:
  assumes e: "engine_mirrored x e" and t: "traces (px_naming x) (pe_sim e) (s, ps)"
    and o: "orders_moved (px_run x) ps (pe_journal e) k" and f: "pj_fills k = pj_fills (pe_journal e) @ map (entry (px_run x)) fs"
    and fs: "list_all (\<lambda>f. paper_fill_error f = None) fs"
  shows "book_named (px_naming x) s \<and> ps_namespace s = px_run x \<and> journal_fit x k
    \<and> open_agree (order_at s) (journal_order k)"
proof -
  have s: "book_named (px_naming x) s" "ps_namespace s = px_run x"
    using e t by (simp_all add: engine_mirrored_def traces_def)
  have agree: "open_agree (order_at s) (journal_order k)"
    using e t o open_agree_applied by (simp add: engine_mirrored_def traces_def orders_moved_def)
  have "orders_of_run (px_run x) k \<and> keyed (\<lambda>r. po_paper_order_id (jo_order r)) (pj_orders k)"
    using e o by (simp add: engine_mirrored_def journal_fit_def orders_moved_def)
  moreover have "rows_of run (map (entry run) fs) = fs" for run by (induction fs) simp_all
  then have "list_all (\<lambda>f. paper_fill_error f = None) (rows_of (px_run x) (pj_fills k))"
    using e fs by (simp add: f engine_mirrored_def journal_fit_def)
  ultimately show ?thesis using s agree journal_fit_open [of x k s] by simp
qed

lemma append_vector_agrees:
  "dm_baseline m = dm_baseline n \<Longrightarrow> dm_current m = dm_current n \<Longrightarrow>
     dm_baseline (append_vector p m v) = dm_baseline (append_vector p n v) \<and> dm_current (append_vector p m v) = dm_current (append_vector p n v)"
  by (simp add: append_vector_def)

definition policy_fit :: "evidence_policy \<Rightarrow> bool" where
  "policy_fit p \<longleftrightarrow> 1 \<le> py_drift_baseline_samples p \<and> 1 \<le> py_drift_window_samples p"

lemma windows_agree_feature:
  assumes "policy_fit (px_policy x)" "windows_agree x j m"
    "pj_features k = pj_features j @ [entry (px_run x) (feature_row_of (px_vector x) f)]"
  shows "windows_agree x k (fst (update_drift calculate (px_vector x) (px_policy x) f m))"
proof -
  let ?w = "windows_of (px_policy x) (ready_vectors (px_run x) j)"
  have same: "dm_baseline m = dm_baseline ?w" "dm_current m = dm_current ?w" using assms(2) by (simp_all add: windows_agree_def Let_def)
  have vs: "ready_vectors (px_run x) k = ready_vectors (px_run x) j @ (if fs_ready f then [px_vector x f] else [])"
    using assms(3) by (simp add: ready_vectors_def feature_row_of_def)
  show ?thesis
  proof (cases "fs_ready f")
    case True
    have "windows_of (px_policy x) (ready_vectors (px_run x) k) = append_vector (px_policy x) ?w (px_vector x f)"
      using windows_of_snoc [of "px_policy x"] assms(1) True by (simp add: vs policy_fit_def)
    moreover have "fst (update_drift calculate (px_vector x) (px_policy x) f m) = append_vector (px_policy x) m (px_vector x f)"
      using True by (simp add: update_drift_def Let_def)
    ultimately show ?thesis using append_vector_agrees [OF same] by (simp add: windows_agree_def Let_def)
  next
    case False
    with same show ?thesis by (simp add: windows_agree_def Let_def vs update_drift_def)
  qed
qed

lemma windows_agree_cong: "pj_features k = pj_features j \<Longrightarrow> windows_agree x k m = windows_agree x j m"
  by (simp add: windows_agree_def ready_vectors_def)

lemma on_market_mirrored:
  assumes e: "engine_mirrored x e" and p: "policy_fit (px_policy x)" and r: "on_market x c e = (e', Inr y)"
  shows "engine_mirrored x e'"
proof -
  let ?a = "accept_market c e"
  have a: "pe_sim ?a = pe_sim e" "pe_journal ?a = pe_journal e" "pe_drift ?a = pe_drift e" by (simp_all add: accept_market_def)
  have "market_cycle x c ?a = (e', Inr y)" using r by (simp add: on_market_def split: if_splits)
  note y = market_cycle_Inr [OF this, unfolded a]
  have t: "traces (px_naming x) (pe_sim e) (pe_sim e', pc_orders y)" "list_all (\<lambda>f. paper_fill_error f = None) (pc_fills y)"
    "pe_drift e' = fst (update_drift (px_calculate_drift x) (px_vector x) (px_policy x) (pc_features y) (pe_drift e))"
    using y by simp_all
  have j: "pj_features (pe_journal e') = pj_features (pe_journal e) @ [entry (px_run x) (feature_row_of (px_vector x) (pc_features y))]"
    "orders_moved (px_run x) (pc_orders y) (pe_journal e) (pe_journal e')"
    "pj_fills (pe_journal e') = pj_fills (pe_journal e) @ map (entry (px_run x)) (pc_fills y)"
    using y by (simp_all add: cycle_recorded_def Let_def)
  have "windows_agree x (pe_journal e) (pe_drift e)" using e by (simp add: engine_mirrored_def)
  from windows_agree_feature [OF p this j(1)] mirrored_recorded [OF e t(1) j(2,3) t(2)] show ?thesis
    by (simp add: engine_mirrored_def t(3))
qed

lemma history_mirrored:
  assumes "engine_mirrored x e" "same_history (pe_journal e) (pe_journal e')" "pe_sim e' = pe_sim e" "pe_drift e' = pe_drift e"
  shows "engine_mirrored x e'"
proof -
  have "journal_order (pe_journal e') = journal_order (pe_journal e)" "pj_features (pe_journal e') = pj_features (pe_journal e)"
    using assms(2) by (simp_all add: same_history_def journal_order_def [abs_def])
  with assms journal_fit_history [OF assms(2), of x] windows_agree_cong [of "pe_journal e'" "pe_journal e" x "pe_drift e"] show ?thesis
    by (simp add: engine_mirrored_def)
qed

lemma record_checkpoint_Inr:
  "record_checkpoint c j = (k, Inr u) \<Longrightarrow> k = j\<lparr>pj_checkpoints := filter (\<lambda>y. ck_run_id y \<noteq> ck_run_id c) (pj_checkpoints j) @ [c]\<rparr>"
  by (simp add: record_checkpoint_def in_transaction_Inr upsert_checkpoint_Inr)

lemma cycle_mirrored:
  assumes e: "engine_mirrored x e" and t: "traces (px_naming x) (pe_sim e) (s, ps)"
    and q: "same_history (pe_journal e) j" and r: "record_cycle (px_run x) ps fs a cs j = (k, Inr u)"
    and fs: "list_all (\<lambda>f. paper_fill_error f = None) fs"
    and k: "pj_orders k' = pj_orders k" "pj_fills k' = pj_fills k" "pj_features k' = pj_features k"
    and e': "pe_sim e' = s" "pe_journal e' = k'" "pe_drift e' = pe_drift e"
  shows "engine_mirrored x e'"
proof -
  note c = record_cycle_Inr [OF r]
  have o: "orders_moved (px_run x) ps (pe_journal e) k'"
    using c q k orders_moved_cong [of "pe_journal e" j k' k "px_run x" ps] by (simp add: same_history_def)
  have "pj_fills k = pj_fills j @ map (entry (px_run x)) fs" "pj_features k = pj_features j" by (subst conjunct2 [OF c], simp)+
  then have f: "pj_fills k' = pj_fills (pe_journal e) @ map (entry (px_run x)) fs" "pj_features k' = pj_features (pe_journal e)"
    using q k by (simp_all add: same_history_def)
  from mirrored_recorded [OF e t o f(1) fs] e e' windows_agree_cong [OF f(2), of x "pe_drift e"] show ?thesis
    by (simp add: engine_mirrored_def)
qed

section \<open>The watchdog\<close>

lemma watchdog_activate_moves:
  assumes "watchdog_activate x c e = (e', Inr (ps, fs))"
  shows "moves x e e' ps \<and> list_all (\<lambda>f. paper_fill_error f = None) fs \<and> pe_journal e' = pe_journal e"
proof (cases "e' = e \<and> ps = [] \<and> fs = []")
  case True
  then show ?thesis by (simp add: moves_same)
next
  case False
  with assms obtain m e1 u where
    1: "on_sim (activate_pending (px_naming x) (wc_now_ns c) m None) e = (e1, Inr u)" and
    2: "synchronize_memory (wc_now_ns c) (remember_fills (su_fills u) e1) = (e', Inr ())" and
    r: "ps = su_orders u" "fs = su_fills u"
    by (auto simp: watchdog_activate_def bindS_Inr_iff split: option.splits if_splits)
  obtain s where "activate_pending (px_naming x) (wc_now_ns c) m None (pe_sim e) = (s, Inr u)" "e1 = e\<lparr>pe_sim := s\<rparr>"
    using 1 by (auto simp: on_sim_def split: prod.splits)
  with activate_pending_reports [of "px_naming x" "pe_sim e" "wc_now_ns c" m None] r
  have "moves x e e1 ps" "list_all (\<lambda>f. paper_fill_error f = None) fs" "pe_journal e1 = pe_journal e"
    by (auto simp: reports_def moves_def traces_def)
  moreover have "pe_journal e' = pe_journal e1"
    using 2 by (auto simp: synchronize_memory_def Let_def remember_fills_def split: paper_memory.splits sum.splits)
  ultimately show ?thesis
    using synchronize_keeps [OF 2] by (simp add: moves_def remember_fills_def)
qed

lemma watchdog_orders_moves:
  assumes "watchdog_orders x c activated e = (e', changed, requested)"
  shows "\<exists>qs. changed = activated @ qs \<and> moves x e e' qs \<and> pe_journal e' = pe_journal e"
proof -
  obtain s ps where s: "elapse (wc_now_ns c) (pe_sim e) = (s, ps)" by fastforce
  let ?r = "if data_stale x (wc_now_ns c) e \<or> \<not> wc_recorder_connected c \<or> wc_kill c 0
             then request_cancel_all (wc_now_ns c) s else (s, [])"
  have "traces (px_naming x) (pe_sim e) (s, ps)" using elapse_traces [of "px_naming x" "pe_sim e" "wc_now_ns c"] s by simp
  moreover have "traces (px_naming x) s ?r" by (simp add: request_cancel_all_traces traces_refl)
  ultimately have "traces (px_naming x) (pe_sim e) (fst ?r, ps @ snd ?r)" using traces_trans by (metis prod.collapse)
  moreover have "e' = e\<lparr>pe_sim := fst ?r\<rparr>" "changed = activated @ (ps @ snd ?r)"
    using assms s by (auto simp: watchdog_orders_def case_prod_beta split: if_splits)
  ultimately show ?thesis by (auto simp: moves_def)
qed

lemma watchdog_drills_keep:
  assumes "record_watchdog_drills x c stale st reasons e = (e', Inr u)"
  shows "same_history (pe_journal e) (pe_journal e') \<and> pe_sim e' = pe_sim e \<and> pe_drift e' = pe_drift e"
proof (cases "open_orders (pe_sim e) = []")
  case True
  let ?kill = "\<lambda>e. if wc_kill c 0 \<and> st = HALTED
     then on_journal (record_drill (px_run x) ''operator_kill'' (wc_now_ns c)
            ''risk authority halted and all paper orders were canceled'') e
     else (e, Inr ())"
  let ?stale = "\<lambda>e. if stale \<and> PUBLIC_DATA_STALE \<in> set reasons
     then on_journal (record_drill (px_run x) ''stale_data'' (wc_now_ns c)
            ''risk authority entered cancel-only and all paper orders were canceled'') e
     else (e, Inr ())"
  obtain e1 e2 where 1: "record_economic_drills x reasons (wc_now_ns c) e = (e1, Inr ())"
    and 2: "?kill e1 = (e2, Inr ())" and 3: "?stale e2 = (e', Inr u)"
    using assms True unfolding record_watchdog_drills_def by (simp only: bindS_Inr_iff if_False not_True_eq_False simp_thms) auto
  have "same_history (pe_journal e) (pe_journal e1)" "same_history (pe_journal e1) (pe_journal e2)" "same_history (pe_journal e2) (pe_journal e')"
    using quiet_drills [of e x reasons "wc_now_ns c"] quiet_drill [of e1] quiet_drill [of e2] 1 2 3
    by (simp_all add: quiet_at_def split: if_splits) (metis fst_conv)+
  moreover have "pe_sim e2 = pe_sim e1 \<and> pe_drift e2 = pe_drift e1" "pe_sim e' = pe_sim e2 \<and> pe_drift e' = pe_drift e2"
    using 2 3 by (auto split: if_splits dest!: on_journal_keeps)
  ultimately show ?thesis using drills_keep [OF 1] by (auto intro: same_history_trans)
qed (use assms in \<open>simp add: record_watchdog_drills_def\<close>)

text \<open>The assessment at the end of a watchdog call.\<close>

abbreviation watchdog_end ::
  "('f, 'v) paper_setup \<Rightarrow> watchdog_call \<Rightarrow> bool \<Rightarrow> ('f, 'v) paper_engine \<Rightarrow> ('f, 'v) paper_engine \<times> risk_reason list res" where
  "watchdog_end x c stale e \<equiv>
     (if pe_last_market e = None then (e, Inr [])
      else bindS (liftR (risk_snapshot_of (wc_kill c 1) (Some (wc_now_ns c)) e) e) (\<lambda>e snapshot.
         (let (st, reasons) = assess_state (ae_limits (px_authority x)) (wc_kill c 2) snapshot (pe_now_ns e)
          in bindS (record_watchdog_drills x c stale st reasons e) (\<lambda>e _. (e, Inr reasons)))))"

lemma watchdog_end_keeps:
  assumes "watchdog_end x c stale e = (e', Inr reasons)"
  shows "same_history (pe_journal e) (pe_journal e') \<and> pe_sim e' = pe_sim e \<and> pe_drift e' = pe_drift e"
proof (cases "e' = e")
  case False
  with assms obtain st rs where "record_watchdog_drills x c stale st rs e = (e', Inr ())"
    by (auto simp: bindS_Inr_iff case_prod_beta split: if_splits)
  then show ?thesis by (rule watchdog_drills_keep)
qed simp

lemma watchdog_Inr:
  assumes "watchdog x c e = (e', Inr reasons)"
    and "e0 = e\<lparr>pe_now_ns := wc_now_ns c, pe_feed_connected := wc_recorder_connected c, pe_last_watchdog := no_watchdog_update\<rparr>"
  obtains e1 ps fs e2 changed requested e3 where
    "watchdog_activate x c e0 = (e1, Inr (ps, fs))" "watchdog_orders x c ps e1 = (e2, changed, requested)"
    "record_watchdog x (wc_now_ns c) changed fs requested e2 = (e3, Inr ())"
    "watchdog_end x c (data_stale x (wc_now_ns c) e0) e3 = (e', Inr reasons)"
proof -
  have eq: "watchdog x c e = bindS (watchdog_activate x c e0) (\<lambda>e (ps, fs).
      (let (e1, changed, requested) = watchdog_orders x c ps e
       in bindS (record_watchdog x (wc_now_ns c) changed fs requested e1)
            (\<lambda>e _. watchdog_end x c (data_stale x (wc_now_ns c) e0) e)))"
    unfolding watchdog_def Let_def assms(2) ..
  from assms(1) obtain e1 ps fs where 1: "watchdog_activate x c e0 = (e1, Inr (ps, fs))"
    unfolding eq bindS_Inr_iff by auto
  obtain e2 changed requested where 2: "watchdog_orders x c ps e1 = (e2, changed, requested)" by (metis prod_cases3)
  have "bindS (record_watchdog x (wc_now_ns c) changed fs requested e2)
     (\<lambda>e _. watchdog_end x c (data_stale x (wc_now_ns c) e0) e) = (e', Inr reasons)"
    using assms(1) unfolding eq by (simp add: 1 2)
  then show thesis using that [OF 1 2] unfolding bindS_Inr_iff by auto
qed

lemma record_watchdog_mirrored:
  assumes e: "engine_mirrored x e" and t: "traces (px_naming x) (pe_sim e) (pe_sim e2, changed)"
    and q: "pe_journal e2 = pe_journal e" "pe_drift e2 = pe_drift e" and fs: "list_all (\<lambda>f. paper_fill_error f = None) fs"
    and r: "record_watchdog x now changed fs requested e2 = (e3, Inr ())"
  shows "engine_mirrored x e3"
proof (cases "changed = [] \<and> fs = []")
  case True
  with r have "e3 = e2" by (simp add: record_watchdog_def)
  with t q True e show ?thesis by (simp add: engine_mirrored_def traces_def)
next
  case False
  with r obtain e4 cs j k ck where
    5: "cancel_commands x requested CMD_CANCEL_ALL now e2 = (e4, Inr cs)" and
    6: "record_cycle (px_run x) changed fs (ps_account (pe_sim e4)) cs (pe_journal e4) = (j, Inr ())" and
    7: "record_checkpoint ck j = (k, Inr ())" and
    e3: "pe_sim e3 = pe_sim e4" "pe_journal e3 = k" "pe_drift e3 = pe_drift e4"
    by (auto simp: record_watchdog_def bindS_Inr_iff on_journal_Inr_iff)
  have m: "moves x e2 e4 []" by (rule cancel_commands_moves [OF 5])
  then have "traces (px_naming x) (pe_sim e) (pe_sim e4, changed)"
    using traces_trans [OF t, of "pe_sim e4" "[]"] by (simp add: moves_def)
  moreover have "same_history (pe_journal e) (pe_journal e4)"
    using quiet_cancel_commands [of e2 x requested CMD_CANCEL_ALL now] q by (simp add: quiet_at_def 5)
  ultimately show ?thesis
    using record_checkpoint_Inr [OF 7] fs e3 m q
    by (intro cycle_mirrored [OF e _ _ 6, where s = "pe_sim e4" and k' = k]) (simp_all add: moves_def)
qed

lemma watchdog_mirrored:
  assumes e: "engine_mirrored x e" and r: "watchdog x c e = (e', Inr reasons)"
  shows "engine_mirrored x e'"
proof -
  define e0 where "e0 = e\<lparr>pe_now_ns := wc_now_ns c, pe_feed_connected := wc_recorder_connected c, pe_last_watchdog := no_watchdog_update\<rparr>"
  have e0: "engine_mirrored x e0" using e by (simp add: e0_def engine_mirrored_def)
  obtain e1 ps fs e2 changed requested e3 where
    1: "watchdog_activate x c e0 = (e1, Inr (ps, fs))" and 2: "watchdog_orders x c ps e1 = (e2, changed, requested)" and
    3: "record_watchdog x (wc_now_ns c) changed fs requested e2 = (e3, Inr ())" and
    4: "watchdog_end x c (data_stale x (wc_now_ns c) e0) e3 = (e', Inr reasons)"
    using watchdog_Inr [OF r e0_def] .
  note a = watchdog_activate_moves [OF 1]
  obtain qs where b: "changed = ps @ qs" "moves x e1 e2 qs" "pe_journal e2 = pe_journal e1"
    using watchdog_orders_moves [OF 2] by blast
  have "traces (px_naming x) (pe_sim e0) (pe_sim e2, changed)" "pe_journal e2 = pe_journal e0" "pe_drift e2 = pe_drift e0"
    using a b moves_trans [of x e0 e1 ps e2 qs] by (simp_all add: moves_def)
  from record_watchdog_mirrored [OF e0 this conjunct1 [OF conjunct2 [OF a]] 3]
  have "engine_mirrored x e3" .
  with watchdog_end_keeps [OF 4] show ?thesis by (blast intro: history_mirrored)
qed

section \<open>Starting from a journal\<close>

lemma check_all_Inr_iff: "check_all c xs = Inr ys \<longleftrightarrow> ys = xs \<and> list_all (\<lambda>y. c y = None) xs"
  by (induction xs arbitrary: ys) (auto simp: bindE_eq_Inr_iff checked_eq_Inr_iff)

lemma check_option_Inr_iff: "check_option c y = Inr z \<longleftrightarrow> z = y \<and> opt_all (\<lambda>y. c y = None) y"
  by (auto simp: check_option_def bindE_eq_Inr_iff checked_eq_Inr_iff split: option.splits)

lemma journal_order_iff:
  assumes "keyed (\<lambda>r. po_paper_order_id (jo_order r)) (pj_orders j)"
  shows "journal_order j i = Some p \<longleftrightarrow> p \<in> set (map jo_order (pj_orders j)) \<and> po_paper_order_id p = i"
proof -
  have "distinct (map (\<lambda>r. po_paper_order_id (jo_order r)) rs) \<Longrightarrow>
      map_option jo_order (find (\<lambda>r. po_paper_order_id (jo_order r) = i) rs) = Some p
        \<longleftrightarrow> p \<in> set (map jo_order rs) \<and> po_paper_order_id p = i" for rs :: "order_row list"
    by (induction rs) (auto simp: rev_image_eqI)
  with assms show ?thesis by (simp add: journal_order_def keyed_def)
qed

lemma open_rows_iff:
  assumes "journal_fit x j"
  shows "p \<in> set (open_orders_of (px_run x) j) \<longleftrightarrow>
    journal_order j (po_paper_order_id p) = Some p \<and> \<not> terminal_paper_state (po_state p)"
proof -
  have "filter (\<lambda>r. jo_run_id r = px_run x) (pj_orders j) = pj_orders j"
    using assms by (auto simp: journal_fit_def orders_of_run_def list_all_iff intro: filter_True)
  then show ?thesis
    using journal_order_iff [of j "po_paper_order_id p" p] assms
    by (auto simp: journal_fit_def open_orders_of_def orders_of_def)
qed

lemma distinct_open_rows:
  assumes "journal_fit x j"
  shows "distinct (map po_paper_order_id (open_orders_of (px_run x) j))"
proof -
  have "distinct (map po_paper_order_id (map jo_order (pj_orders j)))"
    using assms by (simp add: journal_fit_def keyed_def comp_def)
  then show ?thesis by (auto simp: open_orders_of_def orders_of_def filter_map intro: distinct_map_filter)
qed

lemma applied_distinct:
  assumes "distinct (map po_paper_order_id ps)"
  shows "applied ps Map.empty i = Some p \<longleftrightarrow> p \<in> set ps \<and> po_paper_order_id p = i"
proof -
  let ?c = "map (\<lambda>p. (po_paper_order_id p, p)) ps"
  have fst: "map fst ?c = map po_paper_order_id ps" by simp
  have "entries_ok ?c" using assms fst by (auto simp: entries_ok_def simp del: map_map)
  from applied_entries [OF this, of Map.empty] have "applied ps Map.empty = map_of ?c" by (simp add: comp_def)
  moreover have "distinct (map fst ?c)" unfolding fst by (rule assms)
  ultimately show ?thesis by (auto simp: map_of_eq_Some_iff)
qed

lemma restore_orders_Inr:
  "restore_orders ps b ids = Inr (b', ids') \<Longrightarrow> entries_ok b \<Longrightarrow>
     entries_ok b' \<and> map_of b' = applied ps (map_of b) \<and> (\<forall>kp \<in> set b'. snd kp \<in> set ps \<or> kp \<in> set b)"
proof (induction ps arbitrary: b ids)
  case (Cons p ps)
  let ?b = "AList.update (po_paper_order_id p) p b"
  have "restore_orders ps ?b (oi_intent_id (po_intent p) # ids) = Inr (b', ids')"
    using Cons.prems(1) by (simp add: guardE_eq_Inr_iff)
  from Cons.IH [OF this entries_ok_update [OF Cons.prems(2)]]
  show ?case by (auto simp: AList.update_conv' simp del: fun_upd_apply dest!: in_set_update)
qed simp

lemma restore_orders_total:
  assumes "distinct (map po_paper_order_id ps)" "distinct (map (\<lambda>p. oi_intent_id (po_intent p)) ps)"
    "list_all (\<lambda>p. map_of b (po_paper_order_id p) = None) ps" "list_all (\<lambda>p. oi_intent_id (po_intent p) \<notin> set ids) ps"
  shows "\<exists>b' ids'. restore_orders ps b ids = Inr (b', ids')"
  using assms
proof (induction ps arbitrary: b ids)
  case (Cons p ps)
  have "list_all (\<lambda>q. map_of (AList.update (po_paper_order_id p) p b) (po_paper_order_id q) = None) ps"
    unfolding list_all_iff
  proof
    fix q assume q: "q \<in> set ps"
    then have "po_paper_order_id q \<noteq> po_paper_order_id p" using Cons.prems(1) by (metis distinct.simps(2) image_eqI list.map(2) list.set_map)
    with q Cons.prems(3) show "map_of (AList.update (po_paper_order_id p) p b) (po_paper_order_id q) = None"
      by (simp add: AList.update_conv' list_all_iff)
  qed
  moreover have "list_all (\<lambda>q. oi_intent_id (po_intent q) \<notin> set (oi_intent_id (po_intent p) # ids)) ps"
    unfolding list_all_iff
  proof
    fix q assume q: "q \<in> set ps"
    then have "oi_intent_id (po_intent q) \<noteq> oi_intent_id (po_intent p)"
      using Cons.prems(2) by (metis (no_types, lifting) distinct.simps(2) image_eqI list.map(2) list.set_map)
    with q Cons.prems(4) show "oi_intent_id (po_intent q) \<notin> set (oi_intent_id (po_intent p) # ids)" by (simp add: list_all_iff)
  qed
  moreover have "distinct (map po_paper_order_id ps)" "distinct (map (\<lambda>p. oi_intent_id (po_intent p)) ps)"
    "map_of b (po_paper_order_id p) = None" "oi_intent_id (po_intent p) \<notin> set ids"
    using Cons.prems by simp_all
  ultimately show ?case using Cons.IH by (simp add: guardE_def del: list.set)
qed simp

definition setup_fit :: "('f, 'v) paper_setup \<Rightarrow> bool" where
  "setup_fit x \<longleftrightarrow> 0 < px_initial_equity_usd x \<and> validate_paper_scenario (px_scenario x) = Inr () \<and> px_run x \<noteq> []
     \<and> policy_fit (px_policy x)"

text \<open>A restored simulator has the open orders of the journal.\<close>

lemma restored_sorted_rows:
  assumes "journal_fit x j"
  shows "set (sort_key (\<lambda>p. (po_updated_ts_ns p, po_paper_order_id p)) (open_orders_of (px_run x) j)) = set (open_orders_of (px_run x) j)"
    "distinct (map po_paper_order_id (sort_key (\<lambda>p. (po_updated_ts_ns p, po_paper_order_id p)) (open_orders_of (px_run x) j)))"
  using distinct_open_rows [OF assms] by (simp_all add: distinct_map)

lemma book_restored:
  assumes fit: "journal_fit x j" and s: "ps_namespace s = px_run x" "ps_orders s = b"
    and r: "restore_orders (sort_key (\<lambda>p. (po_updated_ts_ns p, po_paper_order_id p)) (open_orders_of (px_run x) j)) [] [] = Inr (b, ids)"
  shows "book_named (px_naming x) s" "open_agree (order_at s) (journal_order j)"
    "order_at s i = Some p \<longleftrightarrow> i = po_paper_order_id p \<and> journal_order j i = Some p \<and> \<not> terminal_paper_state (po_state p)"
proof -
  note rows = restored_sorted_rows [OF fit]
  have b: "entries_ok b" "map_of b = applied (sort_key (\<lambda>p. (po_updated_ts_ns p, po_paper_order_id p)) (open_orders_of (px_run x) j)) Map.empty"
    "\<forall>kp \<in> set b. snd kp \<in> set (open_orders_of (px_run x) j)"
    using restore_orders_Inr [OF r] rows(1) by (simp_all add: entries_ok_def)
  have at: "order_at s i = Some p \<longleftrightarrow> p \<in> set (open_orders_of (px_run x) j) \<and> po_paper_order_id p = i" for i p
    using applied_distinct [OF rows(2), of i p] rows(1) by (simp add: s b(2))
  show "order_at s i = Some p \<longleftrightarrow> i = po_paper_order_id p \<and> journal_order j i = Some p \<and> \<not> terminal_paper_state (po_state p)"
    using at open_rows_iff [OF fit, of p] by auto
  show "book_named (px_naming x) s"
    using b open_rows_iff [OF fit] fit unfolding book_named_def s list_all_iff journal_fit_def by blast
  have "terminal_paper_state (po_state q)" if "journal_order j i = Some q" "order_at s i = None" for i q
  proof (rule ccontr)
    assume "\<not> terminal_paper_state (po_state q)"
    moreover have "po_paper_order_id q = i"
      using that(1) fit journal_order_iff [of j i q] by (simp add: journal_fit_def)
    ultimately have "order_at s i = Some q" using at open_rows_iff [OF fit, of q] that(1) by auto
    with that(2) show False by simp
  qed
  then show "open_agree (order_at s) (journal_order j)"
    using at open_rows_iff [OF fit] by (auto simp: open_agree_def)
qed

lemma restored_simulator_Inr:
  assumes "restored_simulator x j = Inr s" "journal_fit x j"
  shows "book_named (px_naming x) s" "ps_namespace s = px_run x" "open_agree (order_at s) (journal_order j)"
    "0 < px_initial_equity_usd x \<and> validate_paper_scenario (px_scenario x) = Inr () \<and> px_run x \<noteq> []"
proof -
  from assms(1) obtain b ids where
    r: "restore_orders (sort_key (\<lambda>p. (po_updated_ts_ns p, po_paper_order_id p)) (open_orders_of (px_run x) j)) [] [] = Inr (b, ids)"
    and s: "ps_namespace s = px_run x" "ps_orders s = b"
    and g: "0 < px_initial_equity_usd x \<and> validate_paper_scenario (px_scenario x) = Inr () \<and> px_run x \<noteq> []"
    by (auto simp: restored_simulator_def bindE_eq_Inr_iff new_paper_sim_def guardE_eq_Inr_iff restore_open_orders_def check_all_Inr_iff)
  from book_restored [OF assms(2) s r] s g show "book_named (px_naming x) s" "ps_namespace s = px_run x"
    "open_agree (order_at s) (journal_order j)"
    "0 < px_initial_equity_usd x \<and> validate_paper_scenario (px_scenario x) = Inr () \<and> px_run x \<noteq> []" by simp_all
qed

lemma begin_run_keeps:
  "begin_run sha m a j = (k, r) \<Longrightarrow> pj_orders k = pj_orders j \<and> pj_fills k = pj_fills j \<and> pj_features k = pj_features j"
  by (auto simp: begin_run_def transact_def begin_transaction_def guardE_def bindE_def insert_account_def insert_row_def
      split: option.splits sum.splits if_splits)

lemma restored_windows_agree:
  assumes "policy_fit (px_policy x)"
    "feature_vectors (px_run x) (py_drift_baseline_samples (px_policy x)) (py_drift_window_samples (px_policy x)) j = Inr vs"
  shows "windows_agree x j (new_drift_monitor (px_policy x) vs)"
proof -
  have p: "0 < py_drift_window_samples (px_policy x)" "0 \<le> py_drift_baseline_samples (px_policy x)"
    using assms(1) by (simp_all add: policy_fit_def)
  have "vs = restored_vectors (px_policy x) (ready_vectors (px_run x) j)"
    using assms feature_vectors_restored [of "px_policy x" "px_run x" j] by (simp add: policy_fit_def)
  then show ?thesis using restored_windows [OF p, of "ready_vectors (px_run x) j"] by (simp add: windows_agree_def Let_def new_drift_monitor_windows [OF p])
qed

lemma build_engine_Inr:
  assumes "build_engine x s resumed j = Inr b"
  shows "pe_sim b = s" "pe_journal b = j" "policy_fit (px_policy x)" "windows_agree x j (pe_drift b)"
proof -
  from assms obtain ck vs m fs where
    f: "feature_vectors (px_run x) (py_drift_baseline_samples (px_policy x)) (py_drift_window_samples (px_policy x)) j = Inr vs"
    and b: "b = assembled_engine x s ck resumed vs m fs j"
    by (auto simp: build_engine_def Let_def bindE_eq_Inr_iff)
  show "pe_sim b = s" "pe_journal b = j" by (simp_all add: b assembled_engine_def Let_def)
  show p: "policy_fit (px_policy x)" using f by (simp add: feature_vectors_def guardE_eq_Inr_iff policy_fit_def not_less)
  from restored_windows_agree [OF p f] show "windows_agree x j (pe_drift b)" by (simp add: b assembled_engine_def Let_def)
qed

lemma reconcile_mirrored:
  assumes e: "engine_mirrored x e" and r: "reconcile_restart x e = (e', Inr u)"
  shows "engine_mirrored x e'"
proof (cases "pe_resumed e")
  case True
  let ?r = "request_cancel_all (px_started_ts_ns x) (pe_sim e)"
  from r True obtain e1 cs j e2 where
    1: "cancel_commands x (snd ?r) CMD_CANCEL_ALL (px_started_ts_ns x) (e\<lparr>pe_sim := fst ?r\<rparr>) = (e1, Inr cs)" and
    2: "record_cycle (px_run x) (snd ?r) [] (ps_account (pe_sim e1)) cs (pe_journal e1) = (j, Inr ())" and
    e2: "e2 = e1\<lparr>pe_journal := j\<rparr>" and
    3: "on_journal (record_event (px_run x) (px_started_ts_ns x) ''restart_reconciliation''
          (''restored and cancel-requested '' @ py_str (int (length (snd ?r))) @ '' open paper orders'')) e2 = (e', Inr u)"
    by (auto simp: reconcile_restart_def Let_def case_prod_beta bindS_Inr_iff on_journal_Inr_iff)
  have m: "moves x (e\<lparr>pe_sim := fst ?r\<rparr>) e1 []" by (rule cancel_commands_moves [OF 1])
  have "traces (px_naming x) (pe_sim e) (fst ?r, snd ?r)"
    using request_cancel_all_traces [of "px_naming x" "pe_sim e" "px_started_ts_ns x"] by simp
  with m have "traces (px_naming x) (pe_sim e) (pe_sim e1, snd ?r)" by (simp add: moves_def traces_def)
  moreover have "same_history (pe_journal e) (pe_journal e1)"
    using quiet_cancel_commands [of "e\<lparr>pe_sim := fst ?r\<rparr>" x "snd ?r" CMD_CANCEL_ALL "px_started_ts_ns x"] by (simp add: quiet_at_def 1)
  ultimately have "engine_mirrored x e2"
    using m by (intro cycle_mirrored [OF e _ _ 2, where s = "pe_sim e1" and k' = j]) (simp_all add: e2 moves_def)
  moreover have "same_history (pe_journal e2) (pe_journal e')"
    using quiet_event [of e2] 3 by (simp add: quiet_at_def) (metis fst_conv)
  ultimately show ?thesis using on_journal_keeps [OF 3] by (blast intro: history_mirrored)
qed (use e r in \<open>simp add: reconcile_restart_def\<close>)

lemma start_engine_Inr:
  assumes "start_engine x j = (k, Inr e)"
  obtains s i resumed b e1 where "restored_simulator x j = Inr s"
    "begin_run (px_manifest_sha256 x) (px_manifest x) (ps_account s) j = (i, Inr resumed)"
    "build_engine x s resumed i = Inr b" "reconcile_restart x b = (e1, Inr ())" "count_recorded x e1 = (e, Inr ())"
    "pe_journal e = k"
proof -
  from assms obtain s i resumed b where 1: "restored_simulator x j = Inr s"
    "begin_run (px_manifest_sha256 x) (px_manifest x) (ps_account s) j = (i, Inr resumed)"
    "build_engine x s resumed i = Inr b"
    and run: "(case bindS (reconcile_restart x b) (\<lambda>e _. count_recorded x e) of
          (e', Inl err) \<Rightarrow> (pe_journal e', Inl err) | (e', Inr _) \<Rightarrow> (pe_journal e', Inr e')) = (k, Inr e)"
    by (auto simp: start_engine_def bindS_Inr_iff)
  from run have r: "bindS (reconcile_restart x b) (\<lambda>e _. count_recorded x e) = (e, Inr ())" "pe_journal e = k"
    by (auto split: prod.splits sum.splits)
  with 1 show thesis using that by (auto simp: bindS_Inr_iff)
qed

lemma start_mirrored:
  assumes r: "start_engine x j = (k, Inr e)" and j: "journal_fit x j"
  shows "engine_mirrored x e \<and> setup_fit x \<and> pe_journal e = k"
proof (rule start_engine_Inr [OF r])
  fix s i resumed b e1
  assume s: "restored_simulator x j = Inr s"
    and i: "begin_run (px_manifest_sha256 x) (px_manifest x) (ps_account s) j = (i, Inr resumed)"
    and b: "build_engine x s resumed i = Inr b" and e1: "reconcile_restart x b = (e1, Inr ())"
    and e: "count_recorded x e1 = (e, Inr ())" and k: "pe_journal e = k"
  note s' = restored_simulator_Inr [OF s j] and b' = build_engine_Inr [OF b]
  have i': "journal_fit x i" "journal_order i = journal_order j"
    using begin_run_keeps [OF i] j journal_fit_cong [of i j x] by (simp_all add: journal_order_def [abs_def])
  have "engine_mirrored x b" using s' b' i' by (simp add: engine_mirrored_def)
  then have "engine_mirrored x e1" using e1 by (rule reconcile_mirrored)
  moreover have "pe_sim e = pe_sim e1" "pe_journal e = pe_journal e1" "pe_drift e = pe_drift e1"
    using e by (auto simp: count_recorded_def bindS_Inr_iff)
  ultimately show ?thesis using s' b' k by (simp add: engine_mirrored_def setup_fit_def)
qed

section \<open>Lives of a run\<close>

text \<open>The same run started again, at a later time and mark.\<close>

definition restart_at :: "int \<Rightarrow> dec \<Rightarrow> ('f, 'v) paper_setup \<Rightarrow> ('f, 'v) paper_setup" where
  "restart_at t p x = x\<lparr>px_started_ts_ns := t, px_initial_mark_price := p\<rparr>"

lemma restart_at_simps [simp]:
  "px_manifest (restart_at t p x) = px_manifest x" "px_naming (restart_at t p x) = px_naming x"
  "px_policy (restart_at t p x) = px_policy x" "px_vector (restart_at t p x) = px_vector x"
  "px_initial_equity_usd (restart_at t p x) = px_initial_equity_usd x" "px_scenario (restart_at t p x) = px_scenario x"
  "px_initial_mark_price (restart_at t p x) = p" "px_started_ts_ns (restart_at t p x) = t"
  "px_memory_of_json (restart_at t p x) = px_memory_of_json x" "px_markout_horizon_ns (restart_at t p x) = px_markout_horizon_ns x"
  by (simp_all add: restart_at_def)

lemma mirrored_restart_at [simp]:
  "engine_mirrored (restart_at t p x) e = engine_mirrored x e" "journal_fit (restart_at t p x) j = journal_fit x j"
  "setup_fit (restart_at t p x) = setup_fit x"
  by (simp_all add: engine_mirrored_def journal_fit_def setup_fit_def windows_agree_def Let_def)

text \<open>The engines of one run: started on an empty journal, moved by calls that return, and started again from the
  journal, be it after a stop or after a cycle that raised anywhere.\<close>

inductive paper_life :: "('f, 'v) paper_setup \<Rightarrow> ('f, 'v) paper_engine \<Rightarrow> bool" for x where
  First: "start_engine (restart_at t p x) new_paper_journal = (j, Inr e) \<Longrightarrow> paper_life x e"
| Market: "paper_life x e \<Longrightarrow> on_market x c e = (e', Inr y) \<Longrightarrow> paper_life x e'"
| Watchdog: "paper_life x e \<Longrightarrow> watchdog x w e = (e', Inr reasons) \<Longrightarrow> paper_life x e'"
| Context: "paper_life x e \<Longrightarrow> paper_life x (update_context rate funding e)"
| Drill: "paper_life x e \<Longrightarrow> confirm_restart_drill x now e = (e', Inr ()) \<Longrightarrow> paper_life x e'"
| Restart: "paper_life x e \<Longrightarrow> start_engine (restart_at t p x) (pe_journal e) = (j, Inr e') \<Longrightarrow> paper_life x e'"
| Crash: "paper_life x e \<Longrightarrow> on_market x c e = (d, Inl err) \<Longrightarrow>
     start_engine (restart_at t p x) (pe_journal d) = (j, Inr e') \<Longrightarrow> paper_life x e'"

lemma new_journal_fit: "journal_fit x new_paper_journal"
  by (simp add: journal_fit_def new_paper_journal_def orders_of_run_def journal_order_def)

lemma paper_life_mirrored: "paper_life x e \<Longrightarrow> engine_mirrored x e \<and> setup_fit x"
proof (induction rule: paper_life.induct)
  case (First t p j e)
  from start_mirrored [OF First] show ?case by (simp add: new_journal_fit)
next
  case (Market e c e' y)
  then show ?case using on_market_mirrored [of x e c e' y] by (simp add: setup_fit_def)
next
  case (Watchdog e w e' reasons)
  then show ?case using watchdog_mirrored by blast
next
  case (Context e rate funding)
  then show ?case by (auto simp: update_context_def Let_def engine_mirrored_def split: option.split)
next
  case (Drill e now e')
  then have "same_history (pe_journal e) (pe_journal e')" "pe_sim e' = pe_sim e" "pe_drift e' = pe_drift e"
    using quiet_drill [of e "px_run x" "''restart''" now
        "''restored account and strategy checkpoint with zero unreconciled open orders''"]
    by (auto simp: confirm_restart_drill_def quiet_at_def split: if_splits dest: on_journal_keeps)
  with Drill show ?case by (blast intro: history_mirrored)
next
  case (Restart e t p j e')
  then have "journal_fit x (pe_journal e)" by (simp add: engine_mirrored_def)
  with start_mirrored [OF Restart(2)] show ?case by simp
next
  case (Crash e c d err t p j e')
  have "same_history (pe_journal e) (pe_journal d)" using market_cycle_quiet [of "accept_market c e" x c] Crash(2)
    by (auto simp: on_market_def fails_quietly_def accept_market_def split: if_splits)
  then have "journal_fit x (pe_journal d)" using Crash(4) journal_fit_history [of "pe_journal e" "pe_journal d" x]
    by (simp add: engine_mirrored_def)
  with start_mirrored [OF Crash(3)] show ?case by simp
qed

lemma in_book_iff:
  assumes "book_named nm s"
  shows "p \<in> set (map snd (ps_orders s)) \<longleftrightarrow> order_at s (po_paper_order_id p) = Some p"
  using assms by (force simp: book_named_def entries_ok_def dest: map_of_SomeD intro: map_of_is_SomeI)

lemma in_open_iff:
  "book_named nm s \<Longrightarrow>
     p \<in> set (open_orders s) \<longleftrightarrow> order_at s (po_paper_order_id p) = Some p \<and> \<not> terminal_paper_state (po_state p)"
  using in_book_iff [of nm s p] by (auto simp: open_orders_def)

lemma open_orders_cong:
  assumes "book_named nm s" "book_named nm t"
    "\<And>p. \<not> terminal_paper_state (po_state p) \<Longrightarrow>
       order_at s (po_paper_order_id p) = Some p \<longleftrightarrow> order_at t (po_paper_order_id p) = Some p"
  shows "open_orders s = open_orders t"
proof -
  define os where "os = (\<lambda>u :: paper_sim. filter (\<lambda>p. \<not> terminal_paper_state (po_state p)) (map snd (ps_orders u)))"
  have ids: "distinct (map po_paper_order_id (map snd b))" if "entries_ok b" for b
  proof -
    have "map po_paper_order_id (map snd b) = map fst b" using that by (auto simp: entries_ok_def)
    then show ?thesis using that unfolding entries_ok_def by metis
  qed
  have iff: "p \<in> set (os u) \<longleftrightarrow> order_at u (po_paper_order_id p) = Some p \<and> \<not> terminal_paper_state (po_state p)"
    if "book_named nm u" for u p
    using in_book_iff [OF that, of p] by (auto simp: os_def)
  have inj: "inj_on po_paper_order_id (set (os u))" "distinct (os u)" if "book_named nm u" for u
    using ids [of "ps_orders u"] that
    by (auto simp: os_def book_named_def distinct_map inj_on_def dest: distinct_filter)
  have "set (os s) = set (os t)" using iff [OF assms(1)] iff [OF assms(2)] assms(3) by auto
  with inj [OF assms(1)] inj [OF assms(2)] have "mset (os s) = mset (os t)" by (simp add: set_eq_iff_mset_eq_distinct [symmetric])
  moreover have "inj_on (\<lambda>p. (po_accepted_ts_ns p, po_paper_order_id p)) (set (os s))"
    using inj(1) [OF assms(1)] by (auto simp: inj_on_def)
  ultimately have "sort_key (\<lambda>p. (po_accepted_ts_ns p, po_paper_order_id p)) (os s) = sort_key (\<lambda>p. (po_accepted_ts_ns p, po_paper_order_id p)) (os t)"
    by (intro sort_key_inj_key_eq) simp_all
  then show ?thesis by (simp add: open_orders_def os_def)
qed

lemma checkpoint_found [simp]:
  "ck_run_id c = run \<Longrightarrow> find (\<lambda>d. ck_run_id d = run) (filter (\<lambda>d. ck_run_id d \<noteq> run) cs @ [c]) = Some c"
  by (induction cs) auto

text \<open>What a restart finds of a mirrored engine.\<close>

lemma restored_mirrored:
  assumes e: "engine_mirrored x e" "setup_fit x" and new: "0 \<le> px_started_ts_ns x" "0 < px_initial_mark_price x"
    and orders: "list_all (\<lambda>p. stored_order_error p = None) (open_orders (pe_sim e))"
    and a: "latest_account (px_run x) (pe_journal e) = Inr (Some a)"
    and ck: "latest_checkpoint (px_run x) (pe_journal e) = Inr (Some ck)"
  shows "\<exists>s. restored_simulator x (pe_journal e) = Inr s \<and> open_orders s = open_orders (pe_sim e) \<and> ps_account s = a"
proof -
  let ?j = "pe_journal e" and ?rows = "open_orders_of (px_run x) (pe_journal e)"
  let ?sorted = "sort_key (\<lambda>p. (po_updated_ts_ns p, po_paper_order_id p)) ?rows"
  have fit: "journal_fit x ?j" and agree: "open_agree (order_at (pe_sim e)) (journal_order ?j)"
    and book: "book_named (px_naming x) (pe_sim e)" "ps_namespace (pe_sim e) = px_run x"
    using e by (simp_all add: engine_mirrored_def)
  have at: "order_at (pe_sim e) (po_paper_order_id p) = Some p \<longleftrightarrow> journal_order ?j (po_paper_order_id p) = Some p"
    if "\<not> terminal_paper_state (po_state p)" for p
    using agree that open_agree_open [OF agree, of "po_paper_order_id p" p] unfolding open_agree_def by blast
  have in_open: "p \<in> set ?rows \<longleftrightarrow> p \<in> set (open_orders (pe_sim e))" for p
    using open_rows_iff [OF fit, of p] at [of p] in_open_iff [OF book(1), of p] by auto
  have rows: "restore_open_orders (px_run x) ?j = Inr ?sorted"
    using orders in_open by (simp add: restore_open_orders_def check_all_Inr_iff list_all_iff)
  note ids = restored_sorted_rows [OF fit]
  have "named (px_naming x) (px_run x) p" if "p \<in> set ?sorted" for p
    using that ids(1) open_rows_iff [OF fit, of p] fit by (auto simp: journal_fit_def)
  then have "inj_on (\<lambda>p. oi_intent_id (po_intent p)) (set ?sorted)"
    using ids(2) by (auto simp: inj_on_def distinct_map named_def)
  then have "distinct (map (\<lambda>p. oi_intent_id (po_intent p)) ?sorted)" using ids(2) by (simp add: distinct_map)
  with restore_orders_total [OF ids(2), of "[]" "[]"] obtain b ids' where
    r: "restore_orders ?sorted [] [] = Inr (b, ids')" by (auto simp: list_all_iff)
  define s where "s = \<lparr>ps_scenario = px_scenario x, ps_namespace = px_run x, ps_orders = b, ps_intent_ids = ids', ps_account = a\<rparr>"
  have "restored_simulator x ?j = Inr s"
    using e(2) new by (simp add: restored_simulator_def a rows ck new_paper_sim_def guardE_def setup_fit_def r s_def)
  moreover have "open_orders s = open_orders (pe_sim e)"
  proof (rule open_orders_cong)
    show "book_named (px_naming x) s" by (rule book_restored(1) [OF fit _ _ r]) (simp_all add: s_def)
    show "book_named (px_naming x) (pe_sim e)" by (rule book)
    fix p :: paper_order
    assume "\<not> terminal_paper_state (po_state p)"
    then show "order_at s (po_paper_order_id p) = Some p \<longleftrightarrow> order_at (pe_sim e) (po_paper_order_id p) = Some p"
      using at book_restored(3) [OF fit _ _ r, of s "po_paper_order_id p" p] by (simp add: s_def)
  qed
  ultimately show ?thesis by (auto simp: s_def)
qed

text \<open>C5: A restart finds the trading state of the last completed cycle. For every engine of a run, through any number
  of cycles, watchdog calls, restarts and crashed cycles: when \<open>on_market\<close> returns, a process started on its
  journal at any later time and mark restores the simulator with the same open orders and the same account, and
  builds an engine with the same strategy memory, decision sequence, time of the last independent decision,
  funding rate and settlement, source sequence, and drift windows. Assumed: the open orders and the account pass
  the checks of their own records, and the JSON text of the strategy memory is read back as the memory.\<close>

theorem restart_restores_trading_state:
  assumes "paper_life x e" "on_market x c e = (e', Inr y)" "0 \<le> t" "0 < p"
    "list_all (\<lambda>p. stored_order_error p = None) (open_orders (pe_sim e'))"
    "paper_account_error (ps_account (pe_sim e')) = None"
    "px_memory_of_json x (px_memory_json x (pe_memory e')) = Inr (pe_memory e')"
  shows "\<exists>s b. restored_simulator (restart_at t p x) (pe_journal e') = Inr s
    \<and> open_orders s = open_orders (pe_sim e') \<and> ps_account s = ps_account (pe_sim e')
    \<and> build_engine (restart_at t p x) s True (pe_journal e') = Inr b
    \<and> pe_memory b = pe_memory e' \<and> pe_sequence b = pe_sequence e'
    \<and> pe_last_independent_ts_ns b = pe_last_independent_ts_ns e'
    \<and> pe_funding_rate b = pe_funding_rate e' \<and> pe_next_funding_ns b = pe_next_funding_ns e'
    \<and> pe_source_sequence b = pe_source_sequence e'
    \<and> dm_baseline (pe_drift b) = dm_baseline (pe_drift e') \<and> dm_current (pe_drift b) = dm_current (pe_drift e')"
proof -
  let ?x = "restart_at t p x" and ?j = "pe_journal e'"
  have life: "engine_mirrored x e'" "setup_fit x"
    using paper_life_mirrored [OF paper_life.Market [OF assms(1,2)]] by simp_all
  have "cycle_recorded x y e' (pe_journal e) ?j" using on_market_outcome [where x = x and c = c and e = e] assms(2) by simp
  then obtain w where a: "latest_account (px_run x) ?j = Inr (Some (ps_account (pe_sim e')))"
    and ck: "latest_checkpoint (px_run x) ?j = Inr (Some (engine_checkpoint_of x w e'))"
    using assms(6) by (auto simp: cycle_recorded_def Let_def latest_account_def latest_checkpoint_def check_option_Inr_iff
        last_row_def engine_checkpoint_of_def rows_of_def)
  from restored_mirrored [of ?x e' "ps_account (pe_sim e')" "engine_checkpoint_of x w e'"] life assms a ck
  obtain s where s: "restored_simulator ?x ?j = Inr s" "open_orders s = open_orders (pe_sim e')" "ps_account s = ps_account (pe_sim e')"
    by auto
  have fit: "policy_fit (px_policy x)" "journal_fit x ?j" "windows_agree x ?j (pe_drift e')"
    using life by (simp_all add: setup_fit_def engine_mirrored_def)
  obtain vs where vs: "feature_vectors (px_run x) (py_drift_baseline_samples (px_policy x)) (py_drift_window_samples (px_policy x)) ?j = Inr vs"
    using fit(1) feature_vectors_restored [of "px_policy x" "px_run x" ?j] by (simp add: policy_fit_def)
  have "list_all (\<lambda>f. paper_fill_error f = None) (rows_of (px_run x) (pj_fills ?j))" using fit(2) by (simp add: journal_fit_def)
  then obtain fs where fs: "pending_markout_fills (px_run x) (px_markout_horizon_ns x) ?j = Inr fs"
    by (auto simp: pending_markout_fills_def check_all_Inr_iff list_all_iff)
  have m: "restored_memory ?x (Some (engine_checkpoint_of x w e')) = Inr (pe_memory e')"
    using assms(7) by (simp add: restored_memory_def engine_checkpoint_of_def)
  have "build_engine ?x s True ?j = Inr (assembled_engine ?x s (Some (engine_checkpoint_of x w e')) True vs (pe_memory e') fs ?j)"
    using ck vs m fs by (simp add: build_engine_def Let_def)
  moreover have "windows_agree x ?j (new_drift_monitor (px_policy x) vs)" by (rule restored_windows_agree [OF fit(1) vs])
  ultimately show ?thesis
    using s fit(3) by (auto simp: assembled_engine_def Let_def engine_checkpoint_of_def windows_agree_def)
qed

section \<open>A concrete run\<close>

definition demo_setup :: "(unit, dec) paper_setup" where
  "demo_setup =
     \<lparr>px_manifest = demo_manifest, px_strategy = Scalper_Strategy default_ofs_config, px_scenario = example_scenario,
      px_policy = demo_policy, px_authority = Risk_Authority.example_env, px_structure = default_structure_config,
      px_markout_horizon_ns = 1000, px_initial_equity_usd = 100000, px_initial_mark_price = 60000, px_started_ts_ns = 0,
      px_naming = example_naming\<lparr>nm_sha256 := \<lambda>_. replicate 64 (CHR ''a'')\<rparr>,
      px_manifest_sha256 = (\<lambda>_. replicate 64 (CHR ''a'')), px_feature_sha256 = (\<lambda>_. replicate 64 (CHR ''a'')),
      px_decision_sha256 = (\<lambda>_. replicate 64 (CHR ''a'')),
      px_memory_json = (\<lambda>m. if m = Scalper_State calm_order_memory then ''{1}'' else ''{}''),
      px_memory_of_json = (\<lambda>s. Inr (Scalper_State (if s = ''{1}'' then calm_order_memory else new_ofs_memory))),
      px_log_term = (\<lambda>_ _. 1), px_new_features = (), px_feature_update = (\<lambda>_ _ _. ((), Inr calm_features)),
      px_vector = fs_midprice, px_calculate_drift = (\<lambda>_ _. Inl AssertionError)\<rparr>"

definition demo_market_call :: engine_call where
  "demo_market_call = \<lparr>em_market = example_book 1000 [], em_mark_price = None, em_feed_connected = True,
     em_source_sequence = Some 1, em_kill = (\<lambda>_. False), em_decision_id = (\<lambda>_. ''d1'')\<rparr>"


text \<open>The stages of one cycle: the account is marked, the decision is a market order, which is submitted.\<close>

definition demo_account :: "int \<Rightarrow> dec \<Rightarrow> paper_account" where
  "demo_account t mark = (initial_account 100000 mark 0)\<lparr>pa_updated_ts_ns := t\<rparr>"

definition demo_sim :: "int \<Rightarrow> dec \<Rightarrow> paper_order list \<Rightarrow> paper_sim" where
  "demo_sim t mark ps =
     \<lparr>ps_scenario = example_scenario, ps_namespace = ''paper-1'', ps_orders = map (\<lambda>p. (po_paper_order_id p, p)) ps,
      ps_intent_ids = map (\<lambda>p. oi_intent_id (po_intent p)) ps, ps_account = demo_account t mark\<rparr>"

definition demo_books :: "dec paper_journal" where
  "demo_books = new_paper_journal\<lparr>
     pj_runs := [\<lparr>ru_manifest_sha256 = replicate 64 (CHR ''a''), ru_manifest = demo_manifest\<rparr>],
     pj_accounts := [entry ''paper-1'' (demo_account 0 60000)]\<rparr>"

definition demo_started :: "(unit, dec) paper_engine" where
  "demo_started = assembled_engine demo_setup (demo_sim 0 60000 []) None False [] (Scalper_State new_ofs_memory) [] demo_books"

definition demo_marked :: "(unit, dec) paper_engine" where
  "demo_marked = (accept_market demo_market_call demo_started)\<lparr>pe_sim := demo_sim 1000 (120001 / 2) []\<rparr>"

definition demo_update :: simulator_update where
  "demo_update = \<lparr>su_orders = [], su_fills = [], su_account = demo_account 1000 (120001 / 2)\<rparr>"

definition demo_verdict :: risk_verdict where
  "demo_verdict = \<lparr>rv_state = ACTIVE, rv_reasons = [], rv_orders = [], rv_commands = []\<rparr>"

definition demo_builder :: "int \<Rightarrow> bar_state" where
  "demo_builder n = \<lparr>tb_timeframe_seconds = n,
     tb_current = Some \<lparr>cc_timeframe_seconds = n, cc_open_ts_ns = 0, cc_close_ts_ns = n * 1000000000, cc_open = 120001 / 2,
       cc_high = 120001 / 2, cc_low = 120001 / 2, cc_close = 120001 / 2, cc_volume = 0, cc_signed_volume = 0,
       cc_observation_count = 1\<rparr>,
     tb_current_valid = True, tb_closed = []\<rparr>"

definition demo_structure :: structure_state where
  "demo_structure = \<lparr>cs_revision = 0, cs_last_observed_ts_ns = Some 1000, cs_timeframes = map demo_builder [60, 300, 900]\<rparr>"

definition demo_timeframe :: "int \<Rightarrow> timeframe_structure" where
  "demo_timeframe n = \<lparr>ts_timeframe_seconds = n, ts_closed_bars = 0, ts_last_closed_ts_ns = None, ts_close = None,
     ts_atr_bps = 0, ts_direction = NEUTRAL, ts_zone = UNKNOWN_ZONE, ts_support = None, ts_resistance = None,
     ts_bullish_bos = False, ts_bearish_bos = False, ts_bullish_choch = False, ts_bearish_choch = False,
     ts_bullish_sweep = False, ts_bearish_sweep = False, ts_bullish_fvg_lower = None, ts_bullish_fvg_upper = None,
     ts_bearish_fvg_lower = None, ts_bearish_fvg_upper = None, ts_bullish_order_block_low = None,
     ts_bullish_order_block_high = None, ts_bearish_order_block_low = None, ts_bearish_order_block_high = None\<rparr>"

definition demo_snapshot :: smart_money_snapshot where
  "demo_snapshot = \<lparr>sm_observed_ts_ns = 1000, sm_revision = 0, sm_ready = False, sm_one_minute = demo_timeframe 60,
     sm_five_minute = demo_timeframe 300, sm_fifteen_minute = demo_timeframe 900, sm_long_confluence = 0,
     sm_short_confluence = 0, sm_long_reasons = [], sm_short_reasons = []\<rparr>"

definition demo_intent :: order_intent where
  "demo_intent = ofs_intent default_ofs_config calm_input BUY new_ofs_memory"

definition demo_decided :: "(unit, dec) paper_engine" where
  "demo_decided = demo_marked\<lparr>pe_structure := demo_structure, pe_persisted_revision := 0,
     pe_last_structure := Some demo_snapshot, pe_last_decision := no_decision\<lparr>kd_submit := [demo_intent]\<rparr>,
     pe_journal := demo_books\<lparr>pj_structures := [entry ''paper-1'' (demo_structure)]\<rparr>,
     pe_drift := \<lparr>dm_baseline = [120001 / 2], dm_current = [], dm_observations_after_baseline = 0\<rparr>,
     pe_memory := Scalper_State calm_order_memory\<rparr>"

definition demo_strategy :: strategy_cycle where
  "demo_strategy = \<lparr>sg_features = calm_features, sg_structure = demo_snapshot, sg_drift_report = None,
     sg_decision = no_decision\<lparr>kd_submit := [demo_intent]\<rparr>,
     sg_evaluation = evaluation_of demo_setup demo_market_call demo_verdict calm_features demo_snapshot demo_decided\<rparr>"

definition demo_order :: paper_order where
  "demo_order = submitted_order (px_naming demo_setup) demo_intent 1000 (demo_sim 1000 (120001 / 2) [])"

definition demo_submitted :: "(unit, dec) paper_engine" where
  "demo_submitted = demo_decided\<lparr>pe_sim := demo_sim 1000 (120001 / 2) [demo_order], pe_command_sequence := 1,
     pe_sequence := 1, pe_last_independent_ts_ns := Some 1000,
     pe_authority := \<lparr>au_submissions_ns = [1000], au_consumed = {''d1''}\<rparr>\<rparr>"

definition demo_approval :: risk_decision where
  "demo_approval = \<lparr>rd_decision_id = ''d1'', rd_intent_sha256 = replicate 64 (CHR ''a''),
     rd_snapshot_sha256 = replicate 64 (CHR ''c''), rd_limits_sha256 = replicate 64 (CHR ''d''), rd_state = ACTIVE,
     rd_allowed = True, rd_reasons = [APPROVED], rd_issued_ts_ns = 1000, rd_expires_ts_ns = 250001000,
     rd_approval_signature = Some (replicate 64 (CHR ''e''))\<rparr>"

definition demo_outcome :: order_outcome where
  "demo_outcome =
     \<lparr>oo_record = decision_record_of demo_setup demo_market_call calm_features demo_intent demo_approval True demo_decided,
      oo_orders = [demo_order],
      oo_commands = [\<lparr>xq_command_id = command_id demo_setup 0 CMD_SUBMIT (oi_intent_id demo_intent), xq_sequence = 0,
        xq_command_ts_ns = 1000, xq_kind = CMD_SUBMIT, xq_intent_id = oi_intent_id demo_intent,
        xq_strategy_id = oi_strategy_id demo_intent, xq_intent = Some demo_intent, xq_risk_decision_id = Some ''d1'',
        xq_feature_snapshot_sha256 = Some (replicate 64 (CHR ''a'')), xq_source_sequence = Some 1\<rparr>]\<rparr>"

lemma demo_restored: "restored_simulator demo_setup new_paper_journal = Inr (demo_sim 0 60000 [])"
  by code_simp

lemma demo_begin:
  "begin_run (px_manifest_sha256 demo_setup) (px_manifest demo_setup) (demo_account 0 60000) new_paper_journal = (demo_books, Inr False)"
  by (simp add: begin_run_def transact_def begin_transaction_def insert_account_def insert_row_def guardE_def known_run_def
      demo_books_def new_paper_journal_def demo_manifest_def demo_setup_def)

lemma demo_build: "build_engine demo_setup (demo_sim 0 60000 []) False demo_books = Inr demo_started"
  by code_simp

lemma demo_statistics: "statistics ''paper-1'' demo_books = Inr (statistics_of ''paper-1'' demo_manifest [demo_account 0 60000] [] demo_books)"
  by code_simp

lemma demo_start: "start_engine demo_setup new_paper_journal = (demo_books, Inr demo_started)"
proof -
  have "pe_resumed demo_started = False" "px_run demo_setup = ''paper-1''" "ps_account (demo_sim 0 60000 []) = demo_account 0 60000"
    "pe_journal demo_started = demo_books" "pe_decision_count demo_started = 0" "pe_fill_count demo_started = 0"
    "st_approved_decisions (statistics_of ''paper-1'' demo_manifest [demo_account 0 60000] [] demo_books) = 0"
    "st_denied_decisions (statistics_of ''paper-1'' demo_manifest [demo_account 0 60000] [] demo_books) = 0"
    "st_fills (statistics_of ''paper-1'' demo_manifest [demo_account 0 60000] [] demo_books) = 0"
    by (simp_all add: demo_started_def assembled_engine_def demo_setup_def demo_manifest_def demo_sim_def statistics_of_def Let_def
        demo_books_def new_paper_journal_def rows_of_def count_true_def)
  then show ?thesis
    using demo_begin
    by (simp add: start_engine_def demo_restored demo_build demo_statistics reconcile_restart_def count_recorded_def liftR_def)
qed

lemma demo_advance: "advance (px_naming demo_setup) (example_book 1000 []) None (demo_sim 0 60000 []) =
    (demo_sim 1000 (120001 / 2) [], Inr demo_update)"
  by code_simp

lemma demo_simulate: "simulate_market demo_setup demo_market_call (accept_market demo_market_call demo_started)
   = (demo_marked, Inr (demo_update, []))"
proof -
  have u: "su_fills demo_update = []" "pa_position_base (ps_account (demo_sim t m [])) = 0" for t m
    by (simp_all add: demo_update_def demo_sim_def demo_account_def initial_account_def)
  have m: "ofs_with_inventory 0 new_ofs_memory = new_ofs_memory" by (simp add: ofs_with_inventory_def new_ofs_memory_def)
  show ?thesis
    by (simp add: simulate_market_def settle_funding_if_due_def accept_market_def demo_market_call_def on_sim_def demo_advance
        remember_fills_def synchronize_memory_def m u resolve_markouts_def demo_marked_def demo_started_def assembled_engine_def Let_def)
qed

lemma demo_risk: "assess_risk demo_setup demo_market_call demo_marked = (demo_marked, Inr demo_verdict)"
  by code_simp

lemma demo_strategy_run:
  "run_strategy demo_setup demo_market_call (su_account demo_update) demo_verdict demo_marked = (demo_decided, Inr demo_strategy)"
  by code_simp

lemma demo_submit:
  "submit_intents demo_setup demo_market_call calm_features [demo_intent] demo_decided = (demo_submitted, Inr [demo_outcome])"
  by code_simp

lemma demo_submitted_fields:
  "pe_journal demo_submitted = demo_books\<lparr>pj_structures := [entry ''paper-1'' demo_structure]\<rparr>"
  "pe_sequence demo_submitted = 1" "pe_last_independent_ts_ns demo_submitted = Some 1000" "pe_funding_rate demo_submitted = 0"
  "pe_next_funding_ns demo_submitted = None" "pe_source_sequence demo_submitted = Some 1"
  "pe_memory demo_submitted = Scalper_State calm_order_memory"
  "pe_sim demo_submitted = demo_sim 1000 (120001 / 2) [demo_order]"
  by (simp_all add: demo_submitted_def demo_decided_def demo_marked_def accept_market_def demo_market_call_def demo_started_def
      assembled_engine_def Let_def)

lemma demo_checkpoint: "engine_checkpoint_error (engine_checkpoint_of demo_setup 1000 demo_submitted) = None"
proof -
  have "is_slug ''paper-1''" "is_slug ''order-flow-scalper-v1''" by code_simp+
  then show ?thesis
    by (simp add: engine_checkpoint_error_def engine_checkpoint_of_def demo_submitted_fields demo_setup_def demo_manifest_def strategy_id_of_def)
qed

lemma demo_record:
  "\<exists>e'. record_market_cycle demo_setup 1000 (sg_evaluation demo_strategy)
     (cycle_of demo_update [] demo_verdict demo_strategy ([], []) [demo_outcome]) demo_submitted = (e', Inr ())
     \<and> pe_sim e' = pe_sim demo_submitted \<and> pe_memory e' = pe_memory demo_submitted"
proof -
  have r: "px_run demo_setup = ''paper-1''" by (simp add: demo_setup_def demo_manifest_def)
  have k: "known_run ''paper-1'' demo_books" by (simp add: known_run_def demo_books_def demo_manifest_def)
  have e: "pj_orders demo_books = []" "pj_commands demo_books = []" "pj_decisions demo_books = []" "pj_evaluations demo_books = []"
    by (simp_all add: demo_books_def new_paper_journal_def)
  let ?y = "cycle_of demo_update [] demo_verdict demo_strategy ([], []) [demo_outcome]"
  have y: "pc_orders ?y = [demo_order]" "pc_fills ?y = []" "pc_markouts ?y = []" "pc_drift_report ?y = None"
    by (simp_all add: cycle_of_def demo_outcome_def demo_update_def demo_verdict_def demo_strategy_def)
  obtain q d where yc: "pc_commands ?y = [q]" "pc_decisions ?y = [d]"
    by (simp add: cycle_of_def demo_outcome_def demo_verdict_def)
  let ?rows = "\<lparr>er_orders = pc_orders ?y, er_fills = pc_fills ?y, er_account = ps_account (pe_sim demo_submitted),
         er_feature = pc_features ?y, er_decisions = pc_decisions ?y, er_markouts = pc_markouts ?y,
         er_checkpoint = engine_checkpoint_of demo_setup 1000 demo_submitted, er_drift_report = pc_drift_report ?y,
         er_evaluation = sg_evaluation demo_strategy, er_commands = pc_commands ?y\<rparr>"
  have ck: "ck_run_id (engine_checkpoint_of demo_setup 1000 demo_submitted) = ''paper-1''" by (simp add: engine_checkpoint_of_def r)
  have "\<exists>k. record_engine_cycle (px_vector demo_setup) ''paper-1'' ?rows (pe_journal demo_submitted) = (k, Inr ())"
    by (simp add: record_engine_cycle_def in_transaction_Inr cycle_rows_def evidence_rows_def y yc
        insert_command_def upsert_order_def insert_decision_def insert_evaluation_def insert_feature_def insert_account_def
        upsert_checkpoint_def insert_row_def order_taken_def guardE_def demo_submitted_fields(1) k e ck)
  then obtain k where "record_engine_cycle (px_vector demo_setup) ''paper-1'' ?rows (pe_journal demo_submitted) = (k, Inr ())" ..
  then show ?thesis
    by (simp add: record_market_cycle_def checked_def demo_checkpoint liftR_def on_journal_def r)
qed

lemma demo_order_open: "open_orders (demo_sim 1000 (120001 / 2) [demo_order]) = [demo_order]"
  by (simp add: open_orders_def demo_sim_def demo_order_def submitted_order_def Let_def terminal_paper_state_def)
    code_simp

lemma demo_order_valid: "stored_order_error demo_order = None"
  by code_simp

lemma demo_account_valid: "paper_account_error (demo_account 1000 (120001 / 2)) = None"
  by code_simp

lemma demo_cycle:
  obtains e y where "on_market demo_setup demo_market_call demo_started = (e, Inr y)"
    "pe_sim e = demo_sim 1000 (120001 / 2) [demo_order]" "pe_memory e = Scalper_State calm_order_memory"
proof -
  from demo_record obtain e where r: "record_market_cycle demo_setup 1000 (sg_evaluation demo_strategy)
     (cycle_of demo_update [] demo_verdict demo_strategy ([], []) [demo_outcome]) demo_submitted = (e, Inr ())"
    and e: "pe_sim e = pe_sim demo_submitted" "pe_memory e = pe_memory demo_submitted" by blast
  have now: "em_now demo_market_call = 1000" by (simp add: demo_market_call_def example_book_def)
  have g: "sg_features demo_strategy = calm_features" "kd_submit (sg_decision demo_strategy) = [demo_intent]"
    "kd_cancel_intent_ids (sg_decision demo_strategy) = []"
    by (simp_all add: demo_strategy_def no_decision_def)
  have "market_cycle demo_setup demo_market_call (accept_market demo_market_call demo_started)
      = (e, Inr (cycle_of demo_update [] demo_verdict demo_strategy ([], []) [demo_outcome]))"
    by (simp add: market_cycle_def demo_simulate demo_risk demo_strategy_run g demo_submit now r Let_def)
  moreover have "\<not> source_regressed demo_market_call demo_started" "\<not> market_regressed demo_market_call demo_started"
    by (simp_all add: source_regressed_def market_regressed_def demo_market_call_def demo_started_def assembled_engine_def Let_def)
  ultimately have "on_market demo_setup demo_market_call demo_started
      = (e, Inr (cycle_of demo_update [] demo_verdict demo_strategy ([], []) [demo_outcome]))"
    by (simp add: on_market_def)
  then show thesis by (rule that) (simp_all add: e demo_submitted_fields)
qed

lemma demo_life: "paper_life demo_setup demo_started"
proof (rule paper_life.First)
  have "restart_at 0 60000 demo_setup = demo_setup" by (simp add: restart_at_def demo_setup_def)
  then show "start_engine (restart_at 0 60000 demo_setup) new_paper_journal = (demo_books, Inr demo_started)"
    using demo_start by simp
qed

lemma restart_restores_trading_state_witness:
  "\<exists>e s b. paper_life demo_setup e \<and> restored_simulator (restart_at 5000 59000 demo_setup) (pe_journal e) = Inr s
     \<and> open_orders s = [demo_order] \<and> ps_account s = demo_account 1000 (120001 / 2)
     \<and> build_engine (restart_at 5000 59000 demo_setup) s True (pe_journal e) = Inr b
     \<and> pe_memory b = Scalper_State calm_order_memory \<and> pe_source_sequence b = pe_source_sequence e"
proof -
  obtain e y where r: "on_market demo_setup demo_market_call demo_started = (e, Inr y)"
    and e: "pe_sim e = demo_sim 1000 (120001 / 2) [demo_order]" "pe_memory e = Scalper_State calm_order_memory"
    by (rule demo_cycle)
  have "px_memory_of_json demo_setup (px_memory_json demo_setup (pe_memory e)) = Inr (pe_memory e)"
    by (simp add: e demo_setup_def)
  moreover have "ps_account (pe_sim e) = demo_account 1000 (120001 / 2)" by (simp add: e demo_sim_def)
  moreover have "open_orders (pe_sim e) = [demo_order]" by (simp add: e demo_order_open)
  ultimately show ?thesis
    using restart_restores_trading_state [OF demo_life r, of 5000 59000] paper_life.Market [OF demo_life r]
    by (auto simp: e(2) demo_order_valid demo_account_valid)
qed

end
