(* ===== verification/Paper_Approval.thy ===== *)
theory Paper_Approval
  imports Paper_Restart
begin

text \<open>
  Orders of the paper engine pass the risk authority: what a cycle submits is what the authority approved in that
  cycle, each approval is consumed once, and a switch that stays on lets nothing through.
\<close>

section \<open>Stages that leave the authority alone\<close>

interpretation authority_frame: engine_frame "\<lambda>e e' :: ('f, 'v) paper_engine. pe_authority e' = pe_authority e"
  by unfold_locales auto

definition unauthorized :: "('f, 'v) paper_engine \<Rightarrow> ('f, 'v) paper_engine \<times> 'a res \<Rightarrow> bool" where
  "unauthorized e r \<longleftrightarrow> pe_authority (fst r) = pe_authority e"

named_theorems untouched \<open>stages that leave the authority alone\<close>

lemma untouched_bind [untouched]:
  "unauthorized e r \<Longrightarrow> (\<And>e' y. unauthorized e' (f e' y)) \<Longrightarrow> unauthorized e (bindS r f)"
  unfolding unauthorized_def by (rule authority_frame.kept_bind)

lemma untouched_same: "pe_authority e' = pe_authority e \<Longrightarrow> unauthorized e (e', y)"
  by (simp add: unauthorized_def)

lemma untouched_upd: "unauthorized e' r \<Longrightarrow> pe_authority e' = pe_authority e \<Longrightarrow> unauthorized e r"
  by (simp add: unauthorized_def)

lemma untouched_simple [untouched]:
  "unauthorized e (liftR q e)" "unauthorized e (on_sim g e)" "unauthorized e (on_journal h e)" "unauthorized e (issue_command k e)"
  "unauthorized e (synchronize_memory now e)" "unauthorized e (resolve_markouts x mark now e)"
  "unauthorized e (calculate_features x c position e)" "unauthorized e (monitor_drift x f e)" "unauthorized e (run_kernel x a f sm e)"
  by (auto simp: unauthorized_def liftR_def on_sim_def on_journal_def issue_command_def synchronize_memory_def resolve_markouts_def
      calculate_features_def monitor_drift_def run_kernel_def Let_def split: prod.splits sum.splits paper_memory.splits)

lemma untouched_cancel_commands [untouched]: "unauthorized e (cancel_commands x ps kind ts (e\<lparr>pe_sim := s\<rparr>))"
proof -
  have "unauthorized e' (cancel_commands x ps kind ts e')" for e'
    unfolding cancel_commands_def unauthorized_def
    by (rule authority_frame.kept_mapS) (use untouched_simple(4) in \<open>simp add: cancel_command_def unauthorized_def\<close>)
  then show ?thesis by (rule untouched_upd) simp
qed

lemma untouched_funding [untouched]: "unauthorized e (settle_funding_if_due x mark e)"
  unfolding settle_funding_if_due_def by (auto intro!: untouched untouched_same split: option.split)

lemma untouched_remember: "unauthorized (remember_fills fs e) r \<Longrightarrow> unauthorized e r"
  by (erule untouched_upd) (simp add: remember_fills_def)

lemma untouched_simulate: "unauthorized e (simulate_market x c e)"
  unfolding simulate_market_def by (auto intro!: untouched untouched_same intro: untouched_remember)

lemma untouched_drills [untouched]: "unauthorized e (record_economic_drills x reasons ts e)"
  unfolding record_economic_drills_def unauthorized_def
  by (auto intro!: authority_frame.kept_foldS) (use untouched_simple(3) in \<open>simp add: unauthorized_def\<close>)

lemma untouched_risk: "unauthorized e (assess_risk x c e)"
  unfolding assess_risk_def Let_def case_prod_beta by (auto intro!: untouched untouched_same)

lemma untouched_observe [untouched]: "unauthorized e (observe_structure x m e)"
  unfolding observe_structure_def Let_def
  by (auto intro!: untouched_same untouched_upd [OF untouched_bind [OF untouched_simple(3) untouched_same]] split: sum.split)

lemma untouched_strategy: "unauthorized e (run_strategy x c a v e)"
  unfolding run_strategy_def by (intro untouched untouched_same refl)

lemma untouched_cancel_intents: "unauthorized e (cancel_intents x now is e)"
proof (induction "is" arbitrary: e)
  case (Cons i "is")
  obtain s r where a: "request_cancel i now (pe_sim e) = (s, r)" by fastforce
  let ?e = "e\<lparr>pe_sim := s\<rparr>"
  have "unauthorized ?e (case r of None \<Rightarrow> cancel_intents x now is ?e
      | Some p \<Rightarrow> bindS (cancel_command x CMD_CANCEL now p ?e) (\<lambda>e q.
          bindS (cancel_intents x now is e) (\<lambda>e (ps, qs). (e, Inr (p # ps, q # qs)))))"
    by (cases r) (auto intro!: untouched untouched_same Cons.IH simp: cancel_command_def)
  then have "unauthorized ?e (cancel_intents x now (i # is) e)" by (cases r) (simp_all add: a)
  then show ?case by (rule untouched_upd) simp
qed (simp add: untouched_same)

lemma record_authority: "unauthorized e (record_market_cycle x now w y e)"
  unfolding record_market_cycle_def by (intro untouched untouched_same) simp

section \<open>Submissions\<close>

abbreviation approved :: "decision_record \<Rightarrow> bool" where
  "approved d \<equiv> rd_allowed (pd_risk_decision d)"

abbreviation approval_id :: "decision_record \<Rightarrow> string" where
  "approval_id d \<equiv> rd_decision_id (pd_risk_decision d)"

definition submitted_intent :: "execution_command \<Rightarrow> order_intent option \<times> string option" where
  "submitted_intent q = (xq_intent q, xq_risk_decision_id q)"

definition approved_intent :: "decision_record \<Rightarrow> order_intent option \<times> string option" where
  "approved_intent d = (Some (pd_intent d), Some (approval_id d))"

text \<open>What a list of outcomes leaves: the commands of the approved decisions, whose approvals are spent.\<close>

definition spends :: "authority \<Rightarrow> order_outcome list \<Rightarrow> authority \<Rightarrow> bool" where
  "spends a os b \<longleftrightarrow>
     (let ids = map approval_id (filter approved (map oo_record os)); qs = concat (map oo_commands os)
      in list_all (\<lambda>q. xq_kind q = CMD_SUBMIT) qs
       \<and> map submitted_intent qs = map approved_intent (filter approved (map oo_record os))
       \<and> au_consumed b = au_consumed a \<union> set ids \<and> distinct ids \<and> set ids \<inter> au_consumed a = {})"

lemma spends_Nil: "spends a [] a"
  by (simp add: spends_def)

lemma spends_Cons: "spends a [y] b \<Longrightarrow> spends b ys c \<Longrightarrow> spends a (y # ys) c"
  unfolding spends_def Let_def by (cases "approved (oo_record y)") auto

lemma evaluate_consumed: "au_consumed (fst (evaluate env w n a i s)) = au_consumed a"
  by (simp add: fst_evaluate expire_consumed)

lemma submit_approved_spends:
  assumes "submit_approved x c k f i snapshot d e = (e', Inr (p, q))"
  shows "rd_decision_id d \<notin> au_consumed (pe_authority e)
    \<and> au_consumed (pe_authority e') = insert (rd_decision_id d) (au_consumed (pe_authority e))
    \<and> xq_kind q = CMD_SUBMIT \<and> submitted_intent q = (Some i, Some (rd_decision_id d))"
proof -
  let ?w = "\<lparr>rw_now = pe_now_ns e, rw_kill_active = em_kill c (3 * k + 4), rw_inflight = 0\<rparr>"
  from assms obtain e1 e2 where
    1: "on_authority (\<lambda>a. consume (px_authority x) ?w a d i snapshot) e = (e1, Inr ())" and
    2: "submit_command x i (rd_decision_id d) (px_feature_sha256 x f) (em_now c) e1 = (e2, Inr q)" and
    3: "on_sim (submit (px_naming x) i (em_now c)) e2 = (e', Inr p)"
    by (auto simp: submit_approved_def bindS_Inr_iff)
  obtain a where a: "consume (px_authority x) ?w (pe_authority e) d i snapshot = (a, Inr ())" "pe_authority e1 = a"
    using 1 by (auto simp: on_authority_def split: prod.splits)
  have "rd_decision_id d \<notin> au_consumed (pe_authority e)" "au_consumed a = insert (rd_decision_id d) (au_consumed (pe_authority e))"
    using fst_consume_cases [OF a(1)] by (auto simp: Let_def expire_consumed split: if_splits)
  moreover have "pe_authority e2 = a" "xq_kind q = CMD_SUBMIT" "submitted_intent q = (Some i, Some (rd_decision_id d))"
    using 2 a(2) by (auto simp: submit_command_def issue_command_def Let_def mk_execution_command_def submitted_intent_def
        split: option.splits)
  moreover have "pe_authority e' = pe_authority e2" using 3 by (auto simp: on_sim_def split: prod.splits)
  ultimately show ?thesis by simp
qed

lemma is_independent_authority [simp]: "pe_authority (fst (is_independent x t e)) = pe_authority e"
  by (simp add: is_independent_def Let_def)

lemma submit_intent_spends:
  assumes "submit_intent x c f ki e = (e', Inr y)"
  shows "spends (pe_authority e) [y] (pe_authority e') \<and> pd_intent (oo_record y) = snd ki
    \<and> (em_kill c (3 * fst ki + 3) \<longrightarrow> \<not> approved (oo_record y))"
  using assms
proof (rule submit_intent_cases)
  fix snapshot a d e1 fresh
  assume d: "evaluate (px_authority x) \<lparr>rw_now = pe_now_ns e, rw_kill_active = em_kill c (3 * fst ki + 3), rw_inflight = 0\<rparr>
       (em_decision_id c (fst ki)) (pe_authority e) (snd ki) snapshot = (a, d)"
    and i: "is_independent x (oi_created_ts_ns (snd ki)) (e\<lparr>pe_authority := a\<rparr>) = (e1, fresh)"
    and y: "oo_record y = decision_record_of x c f (snd ki) d fresh e1"
    and run: "if rd_allowed d
     then \<exists>p q. submit_approved x c (fst ki) f (snd ki) snapshot d (e1\<lparr>pe_sequence := pe_sequence e1 + 1\<rparr>) = (e', Inr (p, q))
            \<and> oo_orders y = [p] \<and> oo_commands y = [q]
     else e' = e1\<lparr>pe_sequence := pe_sequence e1 + 1\<rparr> \<and> oo_orders y = [] \<and> oo_commands y = []"
  let ?w = "\<lparr>rw_now = pe_now_ns e, rw_kill_active = em_kill c (3 * fst ki + 3), rw_inflight = 0\<rparr>"
  have ad: "a = fst (evaluate (px_authority x) ?w (em_decision_id c (fst ki)) (pe_authority e) (snd ki) snapshot)"
    "d = snd (evaluate (px_authority x) ?w (em_decision_id c (fst ki)) (pe_authority e) (snd ki) snapshot)" by (simp_all add: d)
  have a: "au_consumed a = au_consumed (pe_authority e)" by (simp add: ad(1) evaluate_consumed)
  have e1: "pe_authority e1 = a" using is_independent_authority [of x "oi_created_ts_ns (snd ki)" "e\<lparr>pe_authority := a\<rparr>"] i by simp
  have r: "pd_intent (oo_record y) = snd ki" "pd_risk_decision (oo_record y) = d" by (simp_all add: y decision_record_of_def)
  have kill: "em_kill c (3 * fst ki + 3) \<longrightarrow> \<not> rd_allowed d"
    by (auto simp: ad(2) evaluate_allowed assess_state_kill state_permits_def)
  have "spends (pe_authority e) [y] (pe_authority e')"
  proof (cases "rd_allowed d")
    case True
    with run obtain p q where
      q: "submit_approved x c (fst ki) f (snd ki) snapshot d (e1\<lparr>pe_sequence := pe_sequence e1 + 1\<rparr>) = (e', Inr (p, q))"
      "oo_commands y = [q]" by auto
    from submit_approved_spends [OF q(1)] q(2) True show ?thesis
      by (simp add: spends_def r approved_intent_def e1 a)
  next
    case False
    with run show ?thesis by (simp add: spends_def r e1 a)
  qed
  with r kill show ?thesis by simp
qed

lemma mapS_submit_spends:
  "mapS (submit_intent x c f) kis e = (e', Inr ys) \<Longrightarrow>
     spends (pe_authority e) ys (pe_authority e') \<and> map (pd_intent \<circ> oo_record) ys = map snd kis
   \<and> ((\<forall>n. em_kill c n) \<longrightarrow> filter approved (map oo_record ys) = [])"
proof (induction kis arbitrary: e ys)
  case (Cons ki kis)
  then obtain e1 z zs where 1: "submit_intent x c f ki e = (e1, Inr z)" and
    2: "mapS (submit_intent x c f) kis e1 = (e', Inr zs)" and ys: "ys = z # zs"
    by (auto simp: bindS_Inr_iff)
  from submit_intent_spends [OF 1] Cons.IH [OF 2] ys show ?case by (auto intro: spends_Cons)
qed (simp add: spends_Nil)

lemma cancel_command_kind: "cancel_command x kind ts p e = (e', Inr q) \<Longrightarrow> xq_kind q = kind"
  by (auto simp: cancel_command_def issue_command_def Let_def mk_execution_command_def split: option.splits)

lemma cancel_commands_kind: "cancel_commands x ps kind ts e = (e', Inr qs) \<Longrightarrow> list_all (\<lambda>q. xq_kind q = kind) qs"
  unfolding cancel_commands_def
proof (induction ps arbitrary: e qs)
  case (Cons p ps)
  then show ?case by (auto simp: bindS_Inr_iff dest: cancel_command_kind)
qed simp

lemma cancel_intents_kind: "cancel_intents x now is e = (e', Inr r) \<Longrightarrow> list_all (\<lambda>q. xq_kind q = CMD_CANCEL) (snd r)"
proof (induction "is" arbitrary: e r)
  case (Cons i "is")
  then show ?case by (auto simp: bindS_Inr_iff dest: cancel_command_kind split: prod.splits option.splits)
qed simp

lemma assess_risk_kind: "assess_risk x c e = (e', Inr v) \<Longrightarrow> list_all (\<lambda>q. xq_kind q = CMD_CANCEL_ALL) (rv_commands v)"
  by (auto simp: assess_risk_def bindS_Inr_iff Let_def case_prod_beta dest!: cancel_commands_kind split: if_splits)

text \<open>C6: The paper engine submits exactly what the risk authority approved. When a cycle returns, its decision records
  are one for every order the strategy asked for, in that order; its submit commands are those of the
  approved records, each with the approved intent and the approval's identity; the approvals spent are
  exactly these, none of them twice and none that was spent before; and if every reading of the kill switch is on,
  nothing is submitted.\<close>

theorem paper_submissions_approved:
  assumes "on_market x c e = (e', Inr y)"
  shows "map pd_intent (pc_decisions y) = kd_submit (pc_strategy_decision y)
    \<and> map submitted_intent (filter (\<lambda>q. xq_kind q = CMD_SUBMIT) (pc_commands y))
        = map approved_intent (filter approved (pc_decisions y))
    \<and> distinct (map approval_id (filter approved (pc_decisions y)))
    \<and> set (map approval_id (filter approved (pc_decisions y))) \<inter> au_consumed (pe_authority e) = {}
    \<and> au_consumed (pe_authority e') = au_consumed (pe_authority e) \<union> set (map approval_id (filter approved (pc_decisions y)))
    \<and> ((\<forall>n. em_kill c n) \<longrightarrow> filter (\<lambda>q. xq_kind q = CMD_SUBMIT) (pc_commands y) = [])"
proof -
  let ?a = "accept_market c e"
  have "market_cycle x c ?a = (e', Inr y)" using assms by (simp add: on_market_def split: if_splits)
  then obtain e1 u ms e2 v e3 g e4 cn e5 os where
    1: "simulate_market x c ?a = (e1, Inr (u, ms))" and 2: "assess_risk x c e1 = (e2, Inr v)" and
    3: "run_strategy x c (su_account u) v e2 = (e3, Inr g)" and
    4: "cancel_intents x (em_now c) (kd_cancel_intent_ids (sg_decision g)) e3 = (e4, Inr cn)" and
    5: "submit_intents x c (sg_features g) (kd_submit (sg_decision g)) e4 = (e5, Inr os)" and
    6: "record_market_cycle x (em_now c) (sg_evaluation g) (cycle_of u ms v g cn os) e5 = (e', Inr ())" and
    y: "y = cycle_of u ms v g cn os"
    by (auto simp: market_cycle_def bindS_Inr_iff Let_def)
  have e4: "pe_authority e4 = pe_authority e"
    using untouched_simulate [of ?a x c] untouched_risk [of e1 x c] untouched_strategy [of e2 x c "su_account u" v]
      untouched_cancel_intents [of e3 x "em_now c" "kd_cancel_intent_ids (sg_decision g)"] 1 2 3 4
    by (simp add: unauthorized_def accept_market_def)
  have e': "pe_authority e' = pe_authority e5" using record_authority [of e5] 6 by (simp add: unauthorized_def) (metis fst_conv)
  note s = mapS_submit_spends [OF 5 [unfolded submit_intents_def]]
  have "filter (\<lambda>q. xq_kind q = CMD_SUBMIT) (rv_commands v) = []" "filter (\<lambda>q. xq_kind q = CMD_SUBMIT) (snd cn) = []"
    using assess_risk_kind [OF 2] cancel_intents_kind [OF 4] by (auto simp: filter_empty_conv list_all_iff)
  moreover have "filter (\<lambda>q. xq_kind q = CMD_SUBMIT) (concat (map oo_commands os)) = concat (map oo_commands os)"
    using s by (simp add: spends_def Let_def list_all_iff)
  ultimately have q: "filter (\<lambda>q. xq_kind q = CMD_SUBMIT) (pc_commands y) = concat (map oo_commands os)"
    by (simp add: y cycle_of_def)
  have d: "pc_decisions y = map oo_record os" "pc_strategy_decision y = sg_decision g" by (simp_all add: y cycle_of_def)
  have "map pd_intent (pc_decisions y) = kd_submit (pc_strategy_decision y)" using s by (simp add: d)
  then show ?thesis
    using s unfolding q d spends_def Let_def e4 e' by auto
qed

lemma paper_submissions_approved_witness:
  "\<exists>e y. on_market demo_setup demo_market_call demo_started = (e, Inr y)
     \<and> distinct (map approval_id (filter approved (pc_decisions y)))
     \<and> map submitted_intent (filter (\<lambda>q. xq_kind q = CMD_SUBMIT) (pc_commands y))
        = map approved_intent (filter approved (pc_decisions y))"
proof -
  obtain e y where r: "on_market demo_setup demo_market_call demo_started = (e, Inr y)"
    "pe_sim e = demo_sim 1000 (120001 / 2) [demo_order]" "pe_memory e = Scalper_State calm_order_memory"
    by (rule demo_cycle)
  from paper_submissions_approved [OF r(1)] r(1) show ?thesis by blast
qed

end
