(* ===== verification/Spec2Isabelle.thy ===== *)
theory Spec2Isabelle
  imports Kill_Switch Risk_Authority Execution_Journal Heartbeat Gateway Kernel_Contracts
    Market_Structure Market_Maker Order_Flow_Scalper Reactive_Safety Paper_Safety
    Deployment_Config Governance Admission_Ledger Approval_Verification Sentinel
    Market_Assembly Live_Pipeline Journal_Safety Paper_Evidence Paper_Engine Paper_Approval
begin

text \<open>
  A verification library for the decision and execution core of AIQuantTrader (the Python
  package \<open>src/src/aiquanttrader\<close>), a trading system for one perpetual instrument. Paths below
  are relative to that package.

  \<^bold>\<open>How the program works.\<close> Market data become a market state (\<open>backtest/kernel.py\<close>); the feature
  engine and the market-structure engine turn states into validated snapshots; a strategy, a pure
  kernel with an explicit memory, turns a snapshot and the confirmed inventory into order intents
  and cancel requests. On the live path the execution gateway takes each intent through the risk
  authority (approve, reserve in the durable journal, consume the approval, submit) and is the only
  component that calls the exchange adapter; the operator kill switch is a file that authority,
  gateway and heartbeat read. A separate process, the sentinel, reads the node's heartbeat file, keeps
  the exchange's dead-man timer in the future only while the node is healthy and cancels everything
  otherwise. Whether a node may trade at all is decided by its configuration (a validated record with
  the rules of each deployment mode) and, on mainnet, by a signed approval that is verified against the
  running artifacts and entered in the admission ledger, which gateway and sentinel consult.
  On the paper path a deterministic exchange simulator takes the place
  of adapter and venue, and its account is what strategy and reports see.

  \<^bold>\<open>Theories and code.\<close>
  \<^item> \<open>Prelude\<close>: exceptions as the sum type \<open>'a res\<close>, state with exceptions, Python list idioms, and
    \<open>step_system\<close>, the locale that lifts a one-step invariant and a transitive one-step relation to
    every run.
  \<^item> \<open>Decimal_Arith\<close>: Python's decimals in the default context, precision 28 and rounding half to
    even, as rational numbers rounded after every operation (\<open>rnd28\<close>); locale \<open>rounding_context\<close>,
    interpreted as \<open>dec\<close>.
  \<^item> \<open>Domain\<close>: \<open>domain/market.py\<close>, \<open>domain/execution.py\<close> and the limits of \<open>config/models.py\<close>; a model
    that pydantic validates has a \<open>_error\<close> function with its checks in order.
  \<^item> \<open>Kill_Switch\<close>: \<open>risk/kill_switch.py\<close>; a write is a list of file-system steps and a crash is a
    prefix of it. Locale \<open>operator_switch\<close>.
  \<^item> \<open>Risk_Authority\<close>: \<open>risk/authority.py\<close>; \<open>evaluate\<close>, \<open>consume\<close>, state and rate limit. Hash,
    signature, clock and identifier source are the record \<open>env\<close>.
  \<^item> \<open>Execution_Journal\<close>: \<open>execution/journal.py\<close>; both tables, the transition table, every call.
    Locale \<open>intent_store\<close>, what the gateway needs of a journal.
  \<^item> \<open>Heartbeat\<close>: \<open>execution/heartbeat.py\<close>, the health lease and the published record.
  \<^item> \<open>Gateway\<close>: \<open>execution/strategy.py\<close> (with the recovery of \<open>execution/node.py\<close> and the start
    inventory of \<open>execution/live.py\<close>); execute, replace, cancel, order events, market cycle, start
    and stop, as functions on the record \<open>gateway\<close>.
  \<^item> \<open>Kernel_Contracts\<close>: \<open>backtest/kernel.py\<close>, \<open>features/models.py\<close>; locale \<open>decision_kernel\<close>.
  \<^item> \<open>Market_Structure\<close>: \<open>features/market_structure.py\<close>.
  \<^item> \<open>Strategy_Common\<close>: \<open>strategies/common.py\<close>, and the locales \<open>serial_kernel\<close>,
    \<open>quoting_kernel\<close> and \<open>paced_kernel\<close>, the contracts the strategies share.
  \<^item> \<open>Market_Maker\<close>, \<open>Order_Flow_Scalper\<close>: \<open>strategies/market_maker.py\<close>, \<open>strategies/scalper.py\<close>.
  \<^item> \<open>Reactive_Forecast\<close>, \<open>Reactive_Scalper\<close>, \<open>Reactive_Safety\<close>: \<open>strategies/reactive_scalper.py\<close>;
    configuration and online learner; memory, synchronization, entry and position management; the
    properties over replays.
  \<^item> \<open>Paper_Exchange\<close>, \<open>Paper_Safety\<close>: \<open>paper/simulator.py\<close> with its records of \<open>paper/models.py\<close> and
    \<open>backtest/models.py\<close> and the cancel-all loop of \<open>paper/engine.py\<close>; its properties.
  \<^item> \<open>Paper_Records\<close>, \<open>Paper_Journal\<close>, \<open>Journal_Safety\<close>, \<open>Paper_Drift\<close>: the stored records of
    \<open>paper/models.py\<close>; \<open>paper/journal.py\<close> (every table, a transaction per method, the statistics) and its
    invariant; \<open>paper/drift.py\<close> with its restart.
  \<^item> \<open>Paper_Evidence\<close>: \<open>paper/evidence.py\<close>; the gates, the report and its verdict.
  \<^item> \<open>Paper_Engine\<close>: \<open>paper/engine.py\<close>, which composes simulator, risk authority, structure engine,
    drift monitor, strategy and journal: constructor and restart, the market cycle part by part, watchdog,
    context, drills. A part is a function on the record \<open>paper_engine\<close>.
  \<^item> \<open>Paper_Recovery\<close>, \<open>Paper_Cycle\<close>, \<open>Paper_Restart\<close>, \<open>Paper_Approval\<close>: the properties of that
    composition. What the simulator reports of its own change; what a cycle writes (locale
    \<open>engine_frame\<close>: a relation kept by the parts of a cycle is kept by the cycle); the book and the journal
    through the life of an engine (\<open>paper_life\<close>, an inductive relation) and its restart; what is submitted.
  \<^item> \<open>Deployment_Config\<close>: the deployment profiles of \<open>config/models.py\<close>, every section with its
    validators and the boundary between the modes.
  \<^item> \<open>Governance\<close>: \<open>domain/governance.py\<close> and the deployment records of \<open>governance/models.py\<close>:
    promotion stages, approvals, artifact manifests, signatures, renewals, admission records.
  \<^item> \<open>Admission_Ledger\<close>: \<open>governance/ledger.py\<close>; the tables with their unique keys, every transaction,
    the guard.
  \<^item> \<open>Approval_Verification\<close>: \<open>governance/approval.py\<close>, and verification composed with the ledger.
  \<^item> \<open>Sentinel\<close>: \<open>sentinel/service.py\<close> and the loop of \<open>sentinel/cli.py\<close>.
  \<^item> \<open>Market_Assembly\<close>: \<open>paper/market.py\<close> and the assembler of \<open>execution/live.py\<close>.
  \<^item> \<open>Live_Pipeline\<close>: the rest of \<open>execution/live.py\<close>: decide, commit, release, equity baseline,
    account view, risk snapshot.

  \<^bold>\<open>What is shown.\<close> Every stateful component has an invariant that every operation keeps, errors
  included, lifted to all runs by an interpretation of \<open>step_system\<close> (authority, journal, gateway,
  structure engine, paper exchange) or of \<open>decision_kernel\<close> (strategies). On top of it:
  \<^item> live path: an intent reaches the adapter at most once and under its journaled identity, only with an
    approval for the guarded snapshot, never while the kill switch is active; approval is equivalent to the
    list of guards, bounds the position whatever part of the resting orders fills, binds intent and
    snapshot, and is used once; the journal's histories stay legal and terminal orders terminal; a crash
    inside a switch write never loses a kill.
  \<^item> strategies: every order is justified by the state it is decided in, never crosses where it must
    not, keeps the inventory limit; identities are never reused; entries are paced and rationed per day; a
    stopped position is exited; the memory's contract holds without being checked; the online learner never
    fails, stays in its bounds and trains on every sample once.
  \<^item> market structure: candles are aligned, ordered, capped and closed before use; closed candles never
    change; candles that were partial at a restart are never used.
  \<^item> paper exchange: the account reconciles after every update; fills are legal in time, price and
    quantity and account for every change of position; orders only move forward.
  \<^item> authority to trade: what a valid configuration can enable; production only through every promotion
    stage and a human; a verified admission was signed, compared field by field and matched by the bytes of
    its artifacts; the ledger's tables, transition histories and renewal chains stay consistent, at most one
    deployment is active per account, and authority that ended never returns; verification and ledger agree
    on renewals.
  \<^item> sentinel: every timer renewal rests on a healthy lease, an unhealthy node's orders are cancelled with
    bounded retries, a healthy node's timer does not lapse.
  \<^item> market assembly and live pipeline: emitted states are valid and fresh, every trade is emitted, pending
    or counted as stale, dropping stale trades early equals the reference that filters late; the live maker
    never forgets an order that is out; the durable equity baseline refines the history of equities through
    restarts, so that a drawdown always reaches the risk authority.
  \<^item> paper engine: a market cycle is recorded as a whole or not at all, and what it records is the change of
    the simulator's book; a restart restores open orders, account, strategy memory, counters and drift windows
    of the last completed cycle; exactly the approved intents are submitted, each approval once and none while
    the kill switch is active; the journal stays consistent under every sequence of its calls.
  \<^item> promotion evidence: an eligible report rests on rows of the journal, gate by gate.
  Some properties state a defect, in the form in which the code has it: the inflight budget that counts
  itself, the entry remainder that is forgotten, and the repeated paper cancel that never takes effect.

  \<^bold>\<open>Parameters.\<close> Hashes, signatures, clocks and identifier sources (\<open>env\<close> of the authority, \<open>naming\<close> of the
  paper exchange), answers of the trading framework (arguments of the gateway's calls), the one
  floating-point term of the market maker (\<open>log_term\<close>), hashes, signature checks and file contents of
  the approval verification (\<open>verification_env\<close>, \<open>admission_files\<close>), the answers of the exchange client and
  the float conversion of an expiry in the sentinel (\<open>expiry_ns\<close>), and the feature engine and the UTC
  day of a clock reading in the live pipeline. The paper engine takes a record \<open>paper_setup\<close> (hashes, the JSON
  text of a strategy memory, the feature engine, the drift comparison) and one \<open>engine_call\<close> per market update,
  with a value for every reading of the kill switch and an identity for every decision of the call. Where
  a property needs something of them it is a named hypothesis, with a witness at a concrete instance.

  \<^bold>\<open>Bounds and fuel.\<close> No definition uses fuel: every loop of the modelled code runs over a finite
  collection or has a measure. Python integers are unbounded and are \<open>int\<close>. Where a property needs
  decimal arithmetic without rounding (inventory and fill sums), it asks for quantities on a common grid
  whose sums stay below \<open>10^28\<close> grid units, which the exchange's quantity steps satisfy.

  \<^bold>\<open>Not modelled.\<close> The feature engine (\<open>features/engine.py\<close>) is an argument whose answers the feature
  contract checks: its windows are numeric code, and no property here depends on the values it computes. The
  service loops of paper, shadow and recording processes are sockets, files and metrics around the engines
  modelled here. Left out as well: the language-model advisor and its stored confirmations
  (\<open>paper/llm.py\<close>), input and output (SQL text, Parquet, HTTP, command lines), opening and
  migrating databases, numeric libraries (\<open>research\<close>, HftBacktest conversion), the recording of raw market
  data (\<open>market_data\<close>), report collectors (\<open>acceptance\<close>, \<open>shadow\<close>, \<open>governance/evidence.py\<close>) and
  \<open>retirement\<close>, the evidence schemas of a decommissioned platform.
\<close>

end
